(* ===== verification/Py_Prelude.thy ===== *)
theory Py_Prelude
  imports Complex_Main "HOL-Library.AList" "HOL-Library.Char_ord" "HOL-Library.List_Lexorder"
    "HOL-Library.Product_Lexorder" "HOL-Library.Sublist" "HOL-Library.Multiset"
begin

text \<open>
  The Python values the model shares.

  \<^item> \<open>bytes\<close> are lists of 8-bit characters.  A Python \<open>str\<close> is represented by the
    bytes \<open>os.fsencode\<close> gives for it, so \<open>os.fsencode\<close> and \<open>os.fsdecode\<close> are the
    identity here; both are written \<open>string\<close>.
  \<^item> A \<open>dict\<close> is an association list in insertion order: \<open>AList.update\<close> overwrites in
    place and appends a new key, \<open>map_of\<close> looks up, \<open>setdefault\<close> inserts if absent.
  \<^item> \<open>sorted(xs, key=f)\<close> is the stable \<open>sort_key f xs\<close>; with \<open>reverse=True\<close> it is
    \<open>sort_key_rev f xs\<close>, which keeps equal elements in their original order too.
  \<^item> Python integers are \<open>int\<close>.

  The named collections \<open>path_simps\<close> and \<open>dict_simps\<close> hold the facts the component
  proofs add to the simplifier.
\<close>

type_synonym bytes = "char list"

named_theorems path_simps
named_theorems dict_simps

subsection \<open>Byte strings\<close>

definition startswith :: "'a list \<Rightarrow> 'a list \<Rightarrow> bool" where
  "startswith s p \<longleftrightarrow> take (length p) s = p"

definition endswith :: "'a list \<Rightarrow> 'a list \<Rightarrow> bool" where
  "endswith s p \<longleftrightarrow> length p \<le> length s \<and> drop (length s - length p) s = p"

definition rstrip_char :: "'a \<Rightarrow> 'a list \<Rightarrow> 'a list" where
  "rstrip_char c s = rev (dropWhile (\<lambda>x. x = c) (rev s))"

definition removeprefix :: "'a list \<Rightarrow> 'a list \<Rightarrow> 'a list" where
  "removeprefix s p = (if startswith s p then drop (length p) s else s)"

definition removesuffix :: "'a list \<Rightarrow> 'a list \<Rightarrow> 'a list" where
  "removesuffix s p = (if p \<noteq> [] \<and> endswith s p then take (length s - length p) s else s)"

text \<open>\<open>s.rpartition(c)\<close>: \<open>None\<close> when the separator is absent.\<close>

definition rpartition :: "'a \<Rightarrow> 'a list \<Rightarrow> ('a list \<times> 'a list) option" where
  "rpartition c s =
     (if c \<in> set s
      then Some (rev (tl (dropWhile (\<lambda>x. x \<noteq> c) (rev s))), rev (takeWhile (\<lambda>x. x \<noteq> c) (rev s)))
      else None)"

text \<open>\<open>s.split(c)\<close>: always at least one field.\<close>

fun split_char :: "'a \<Rightarrow> 'a list \<Rightarrow> 'a list list" where
  "split_char c [] = [[]]"
| "split_char c (x # xs) =
     (if x = c then [] # split_char c xs
      else (case split_char c xs of [] \<Rightarrow> [[x]] | f # fs \<Rightarrow> (x # f) # fs))"

text \<open>ASCII white space of \<open>bytes.strip\<close> and \<open>bytes.split\<close>.\<close>

definition is_space :: "char \<Rightarrow> bool" where
  "is_space c \<longleftrightarrow> c \<in> {CHR '' '', CHR 0x09, CHR 0x0A, CHR 0x0B, CHR 0x0C, CHR 0x0D}"

definition strip :: "string \<Rightarrow> string" where
  "strip s = rev (dropWhile is_space (rev (dropWhile is_space s)))"

fun split_ws_aux :: "string \<Rightarrow> string \<Rightarrow> string list" where
  "split_ws_aux acc [] = (if acc = [] then [] else [rev acc])"
| "split_ws_aux acc (c # cs) =
     (if is_space c then (if acc = [] then split_ws_aux [] cs else rev acc # split_ws_aux [] cs)
      else split_ws_aux (c # acc) cs)"

definition split_ws :: "string \<Rightarrow> string list" where
  "split_ws s = split_ws_aux [] s"

text \<open>\<open>bytes.splitlines()\<close>: line feeds, carriage returns and their pair end a line.\<close>

fun splitlines_aux :: "string \<Rightarrow> string \<Rightarrow> string list" where
  "splitlines_aux acc [] = (if acc = [] then [] else [rev acc])"
| "splitlines_aux acc (c # cs) =
     (if c = CHR 0x0D then
        (case cs of
           d # ds \<Rightarrow> if d = CHR 0x0A then rev acc # splitlines_aux [] ds else rev acc # splitlines_aux [] cs
         | [] \<Rightarrow> [rev acc])
      else if c = CHR 0x0A then rev acc # splitlines_aux [] cs
      else splitlines_aux (c # acc) cs)"

definition splitlines :: "string \<Rightarrow> string list" where
  "splitlines s = splitlines_aux [] s"

subsection \<open>Decimal numbers\<close>

definition digit_char :: "nat \<Rightarrow> char" where
  "digit_char d = char_of (48 + d)"

fun nat_str_aux :: "nat \<Rightarrow> nat \<Rightarrow> string" where
  "nat_str_aux 0 n = []"
| "nat_str_aux (Suc k) n =
     (if n < 10 then [digit_char n] else nat_str_aux k (n div 10) @ [digit_char (n mod 10)])"

definition nat_str :: "nat \<Rightarrow> string" where
  "nat_str n = nat_str_aux (Suc n) n"

definition int_str :: "int \<Rightarrow> string" where
  "int_str i = (if i < 0 then CHR ''-'' # nat_str (nat (- i)) else nat_str (nat i))"

definition is_digit :: "char \<Rightarrow> bool" where
  "is_digit c \<longleftrightarrow> 48 \<le> (of_char c :: nat) \<and> (of_char c :: nat) \<le> 57"

definition digits_value :: "string \<Rightarrow> int" where
  "digits_value s = foldl (\<lambda>a c. 10 * a + (of_char c - 48)) 0 s"

text \<open>
  \<open>int(text)\<close> on ASCII text: surrounding white space, an optional sign, digits, and single
  underscores between digits; \<open>None\<close> is the \<open>ValueError\<close>.
\<close>

fun digit_groups_ok :: "string \<Rightarrow> bool" where
  "digit_groups_ok [] = False"
| "digit_groups_ok [c] = is_digit c"
| "digit_groups_ok (c # d # cs) =
     (is_digit c \<and> (if d = CHR ''_'' then digit_groups_ok cs else digit_groups_ok (d # cs)))"

definition parse_int :: "string \<Rightarrow> int option" where
  "parse_int raw =
     (let s = strip raw;
          neg = (s \<noteq> [] \<and> hd s = CHR ''-'');
          body = (if s \<noteq> [] \<and> (hd s = CHR ''-'' \<or> hd s = CHR ''+'') then tl s else s)
      in if digit_groups_ok body
         then Some (let v = digits_value (filter (\<lambda>c. c \<noteq> CHR ''_'') body) in if neg then - v else v)
         else None)"

text \<open>\<open>bytes.hex()\<close>.\<close>

definition hex_digit :: "nat \<Rightarrow> char" where
  "hex_digit d = char_of (if d < 10 then 48 + d else 87 + d)"

definition hex_str :: "bytes \<Rightarrow> string" where
  "hex_str s = concat (map (\<lambda>c. [hex_digit (of_char c div 16), hex_digit (of_char c mod 16)]) s)"

subsection \<open>Dictionaries and sorting\<close>

definition setdefault :: "'k \<Rightarrow> 'v \<Rightarrow> ('k \<times> 'v) list \<Rightarrow> ('k \<times> 'v) list" where
  "setdefault k v d = (case map_of d k of None \<Rightarrow> d @ [(k, v)] | Some _ \<Rightarrow> d)"

definition dict_get :: "('k \<times> 'v) list \<Rightarrow> 'k \<Rightarrow> 'v \<Rightarrow> 'v" where
  "dict_get d k v = (case map_of d k of None \<Rightarrow> v | Some x \<Rightarrow> x)"

definition sort_key_rev :: "('a \<Rightarrow> 'k :: linorder) \<Rightarrow> 'a list \<Rightarrow> 'a list" where
  "sort_key_rev f xs = rev (sort_key f (rev xs))"

text \<open>The first element of greatest key, as \<open>max(xs, key=f)\<close> returns it.\<close>

fun max_by :: "('a \<Rightarrow> 'k :: linorder) \<Rightarrow> 'a list \<Rightarrow> 'a option" where
  "max_by f [] = None"
| "max_by f (x # xs) = Some (foldl (\<lambda>b y. if f b < f y then y else b) x xs)"

text \<open>Keep the first element of each key, in order.\<close>

fun dedupe_aux :: "('a \<Rightarrow> 'k) \<Rightarrow> 'k list \<Rightarrow> 'a list \<Rightarrow> 'a list" where
  "dedupe_aux f seen [] = []"
| "dedupe_aux f seen (x # xs) =
     (if f x \<in> set seen then dedupe_aux f seen xs else x # dedupe_aux f (f x # seen) xs)"

definition dedupe_on :: "('a \<Rightarrow> 'k) \<Rightarrow> 'a list \<Rightarrow> 'a list" where
  "dedupe_on f xs = dedupe_aux f [] xs"

text \<open>Run a fallible step over a list, stopping at the first error.\<close>

fun fold_err :: "('s \<Rightarrow> 'a \<Rightarrow> 'e + 's) \<Rightarrow> 's \<Rightarrow> 'a list \<Rightarrow> 'e + 's" where
  "fold_err f s [] = Inr s"
| "fold_err f s (x # xs) = (case f s x of Inl e \<Rightarrow> Inl e | Inr s' \<Rightarrow> fold_err f s' xs)"

fun map_err :: "('a \<Rightarrow> 'e + 'b) \<Rightarrow> 'a list \<Rightarrow> 'e + 'b list" where
  "map_err f [] = Inr []"
| "map_err f (x # xs) =
     (case f x of Inl e \<Rightarrow> Inl e
      | Inr y \<Rightarrow> (case map_err f xs of Inl e \<Rightarrow> Inl e | Inr ys \<Rightarrow> Inr (y # ys)))"

text \<open>\<open>", ".join(parts)\<close> and the like.\<close>

fun join_str :: "string \<Rightarrow> string list \<Rightarrow> string" where
  "join_str sep [] = []"
| "join_str sep [x] = x"
| "join_str sep (x # y # ys) = x @ sep @ join_str sep (y # ys)"

subsection \<open>Facts about byte strings\<close>

lemma startswith_iff [path_simps]: "startswith s p \<longleftrightarrow> (\<exists>t. s = p @ t)"
  unfolding startswith_def by (metis append_eq_conv_conj append_take_drop_id)

lemma startswith_prefix: "startswith s p = prefix p s"
  by (auto simp: startswith_iff prefix_def)

lemma endswith_iff: "endswith s p \<longleftrightarrow> (\<exists>t. s = t @ p)"
proof
  assume "endswith s p"
  then show "\<exists>t. s = t @ p" unfolding endswith_def by (metis append_take_drop_id)
qed (auto simp: endswith_def)

lemma length_rstrip_char_le: "length (rstrip_char c s) \<le> length s"
  by (simp add: rstrip_char_def) (metis length_dropWhile_le length_rev)

lemma rstrip_char_id: "s = [] \<or> last s \<noteq> c \<Longrightarrow> rstrip_char c s = s"
proof (cases s rule: rev_cases)
  case Nil
  then show ?thesis by (simp add: rstrip_char_def)
next
  case (snoc ys y)
  then show "s = [] \<or> last s \<noteq> c \<Longrightarrow> rstrip_char c s = s"
    by (simp add: rstrip_char_def)
qed

lemma last_rstrip_char: "rstrip_char c s \<noteq> [] \<Longrightarrow> last (rstrip_char c s) \<noteq> c"
  using hd_dropWhile[of "\<lambda>x. x = c" "rev s"] by (simp add: rstrip_char_def last_rev)

lemma rpartition_decomp:
  assumes "rpartition c s = Some (h, t)"
  shows "s = h @ c # t" and "c \<notin> set t"
proof -
  from assms have c: "c \<in> set (rev s)" and h: "h = rev (tl (dropWhile (\<lambda>x. x \<noteq> c) (rev s)))"
    and t: "t = rev (takeWhile (\<lambda>x. x \<noteq> c) (rev s))"
    by (auto simp: rpartition_def split: if_splits)
  from c have ne: "dropWhile (\<lambda>x. x \<noteq> c) (rev s) \<noteq> []" by auto
  then have "hd (dropWhile (\<lambda>x. x \<noteq> c) (rev s)) = c" by (metis (full_types) hd_dropWhile)
  with ne have d: "dropWhile (\<lambda>x. x \<noteq> c) (rev s) = c # tl (dropWhile (\<lambda>x. x \<noteq> c) (rev s))"
    by (metis list.collapse)
  have "rev s = takeWhile (\<lambda>x. x \<noteq> c) (rev s) @ dropWhile (\<lambda>x. x \<noteq> c) (rev s)" by simp
  also have "\<dots> = rev t @ c # rev h" using d by (simp add: t h)
  finally have "rev s = rev t @ c # rev h" .
  then have "rev (rev s) = rev (rev t @ c # rev h)" by (rule arg_cong)
  then show "s = h @ c # t" by simp
  show "c \<notin> set t" using t by (auto dest: set_takeWhileD)
qed

lemma rpartition_None: "rpartition c s = None \<longleftrightarrow> c \<notin> set s"
  by (simp add: rpartition_def)

lemma rpartition_append [path_simps]:
  assumes "c \<notin> set t"
  shows "rpartition c (h @ c # t) = Some (h, t)"
proof -
  have tw: "takeWhile (\<lambda>x. x \<noteq> c) (rev t @ c # rev h) = rev t"
    using assms by (simp add: takeWhile_append)
  have dw: "dropWhile (\<lambda>x. x \<noteq> c) (rev t @ c # rev h) = c # rev h"
    using assms by (simp add: dropWhile_append)
  show ?thesis by (simp add: rpartition_def tw dw)
qed

lemma split_char_ne [simp]: "split_char c s \<noteq> []"
  by (induction s) (auto split: list.splits)

lemma split_char_join: "concat (map (\<lambda>f. c # f) (split_char c s)) = c # s"
  by (induction s) (auto split: list.splits)

lemma split_char_free: "f \<in> set (split_char c s) \<Longrightarrow> c \<notin> set f"
  by (induction s arbitrary: f) (auto split: list.splits if_splits)

lemma split_char_no_sep: "c \<notin> set s \<Longrightarrow> split_char c s = [s]"
  by (induction s) auto

lemma split_char_append: "c \<notin> set f \<Longrightarrow> split_char c (f @ c # s) = f # split_char c s"
  by (induction f) (auto split: list.splits)

subsection \<open>Facts about dictionaries\<close>

lemma map_of_setdefault [dict_simps]:
  "map_of (setdefault k v d) j =
     (if j = k then (case map_of d k of None \<Rightarrow> Some v | Some x \<Rightarrow> Some x) else map_of d j)"
  by (cases "map_of d k") (auto simp: setdefault_def map_add_def split: option.splits)

lemma keys_setdefault [dict_simps]: "fst ` set (setdefault k v d) = insert k (fst ` set d)"
proof (cases "map_of d k")
  case None
  then show ?thesis by (auto simp: setdefault_def)
next
  case (Some x)
  then have "k \<in> fst ` set d" using map_of_SomeD by force
  with Some show ?thesis by (auto simp: setdefault_def)
qed

lemma distinct_keys_setdefault [dict_simps]:
  "distinct (map fst d) \<Longrightarrow> distinct (map fst (setdefault k v d))"
  by (auto simp: setdefault_def map_of_eq_None_iff split: option.splits)

lemma map_of_update [dict_simps]: "map_of (AList.update k v d) = (map_of d)(k \<mapsto> v)"
  by (rule update_conv')

lemma keys_update [dict_simps]: "fst ` set (AList.update k v d) = insert k (fst ` set d)"
  by (induction d) auto

lemma sum_update:
  fixes f :: "'v \<Rightarrow> int"
  assumes "distinct (map fst t)"
  shows "sum_list (map (f \<circ> snd) (AList.update k v t)) = sum_list (map (f \<circ> snd) t) + f v - (case map_of t k of None \<Rightarrow> 0 | Some w \<Rightarrow> f w)"
  using assms
proof (induction t)
  case (Cons x t)
  then show ?case by (cases x) auto
qed simp

lemma map_of_SomeD_iff: "distinct (map fst d) \<Longrightarrow> map_of d k = Some v \<longleftrightarrow> (k, v) \<in> set d"
  by (rule map_of_eq_Some_iff)

subsection \<open>Facts about sorting, selection and deduplication\<close>

lemma set_sort_key_rev [simp]: "set (sort_key_rev f xs) = set xs"
  by (simp add: sort_key_rev_def)

lemma length_sort_key_rev [simp]: "length (sort_key_rev f xs) = length xs"
  by (simp add: sort_key_rev_def)

lemma mset_sort_key_rev [simp]: "mset (sort_key_rev f xs) = mset xs"
  by (simp add: sort_key_rev_def)

lemma sorted_sort_key_rev: "sorted (map f (rev (sort_key_rev f xs)))"
  by (simp add: sort_key_rev_def)

lemma foldl_max_by:
  fixes f :: "'a \<Rightarrow> 'k :: linorder"
  shows "foldl (\<lambda>b y. if f b < f y then y else b) x xs \<in> set (x # xs)
     \<and> (\<forall>y \<in> set (x # xs). f y \<le> f (foldl (\<lambda>b y. if f b < f y then y else b) x xs))"
proof (induction xs arbitrary: x)
  case Nil
  then show ?case by simp
next
  case (Cons z zs)
  show ?case using Cons.IH[of "if f x < f z then z else x"]
    by (auto split: if_splits intro: order_trans less_imp_le)
qed

lemma max_by_Some: "max_by f xs = Some m \<Longrightarrow> m \<in> set xs \<and> (\<forall>x \<in> set xs. f x \<le> f m)"
proof (cases xs)
  case Nil
  then show "max_by f xs = Some m \<Longrightarrow> m \<in> set xs \<and> (\<forall>x \<in> set xs. f x \<le> f m)" by simp
next
  case (Cons a list)
  assume "max_by f xs = Some m"
  with Cons have "m = foldl (\<lambda>b y. if f b < f y then y else b) a list" by simp
  then show "m \<in> set xs \<and> (\<forall>x \<in> set xs. f x \<le> f m)"
    using foldl_max_by[of f a list] unfolding Cons by blast
qed

lemma max_by_None [simp]: "max_by f xs = None \<longleftrightarrow> xs = []"
  by (cases xs) auto

lemma dedupe_aux_props:
  "set (dedupe_aux f seen xs) \<subseteq> set xs"
  "distinct (map f (dedupe_aux f seen xs))"
  "f ` set (dedupe_aux f seen xs) = f ` set xs - set seen"
proof -
  show "set (dedupe_aux f seen xs) \<subseteq> set xs"
  proof (induction xs arbitrary: seen)
    case (Cons x xs)
    show ?case using Cons.IH[of seen] Cons.IH[of "f x # seen"] by auto
  qed simp
  have img: "f ` set (dedupe_aux f sn ys) = f ` set ys - set sn" for sn ys
    by (induction ys arbitrary: sn) auto
  show "f ` set (dedupe_aux f seen xs) = f ` set xs - set seen" by (rule img)
  show "distinct (map f (dedupe_aux f seen xs))"
  proof (induction xs arbitrary: seen)
    case (Cons x xs)
    have "f x \<notin> f ` set (dedupe_aux f (f x # seen) xs)" by (simp add: img)
    with Cons.IH show ?case by simp
  qed simp
qed

lemma dedupe_on_distinct: "distinct (map f (dedupe_on f xs))"
  and dedupe_on_image: "f ` set (dedupe_on f xs) = f ` set xs"
  and dedupe_on_subset: "set (dedupe_on f xs) \<subseteq> set xs"
  using dedupe_aux_props[of f "[]" xs] by (simp_all add: dedupe_on_def)

lemma fold_err_append:
  "fold_err f s (xs @ ys) = (case fold_err f s xs of Inl e \<Rightarrow> Inl e | Inr s' \<Rightarrow> fold_err f s' ys)"
  by (induction xs arbitrary: s) (auto split: sum.splits)

lemma fold_err_invariant:
  assumes "fold_err f s xs = Inr t" and "P s"
    and "\<And>s x s'. x \<in> set xs \<Longrightarrow> P s \<Longrightarrow> f s x = Inr s' \<Longrightarrow> P s'"
  shows "P t"
  using assms
proof (induction xs arbitrary: s)
  case Nil
  then show ?case by simp
next
  case (Cons x xs)
  then obtain s' where s': "f s x = Inr s'" and rest: "fold_err f s' xs = Inr t"
    by (auto split: sum.splits)
  from s' Cons.prems have "P s'" by auto
  with Cons.IH[OF rest] Cons.prems(3) show ?case by auto
qed

text \<open>Taking a chain of fallible calls apart.\<close>

lemma case_sum_Inr:
  "(case x of Inl e \<Rightarrow> Inl e | Inr y \<Rightarrow> g y) = Inr z \<longleftrightarrow> (\<exists>y. x = Inr y \<and> g y = Inr z)"
  by (cases x) auto

lemma map_sum_Inr: "map_sum f g x = Inr z \<longleftrightarrow> (\<exists>y. x = Inr y \<and> z = g y)"
  by (cases x) auto

lemma distinct_map_pair: "distinct (map f xs) \<Longrightarrow> distinct (map (\<lambda>x. (g x, f x)) xs)"
  by (induction xs) auto

lemma map_err_Inr: "map_err f xs = Inr ys \<longleftrightarrow> list_all2 (\<lambda>x y. f x = Inr y) xs ys"
proof (induction xs arbitrary: ys)
  case Nil
  then show ?case by auto
next
  case (Cons x xs)
  show ?case
  proof (cases "f x")
    case (Inl e)
    then show ?thesis by (auto simp: list_all2_Cons1)
  next
    case (Inr y)
    have "map_err f (x # xs) = Inr ys \<longleftrightarrow> (\<exists>zs. map_err f xs = Inr zs \<and> ys = y # zs)"
      using Inr by (auto split: sum.splits)
    also have "\<dots> \<longleftrightarrow> list_all2 (\<lambda>x y. f x = Inr y) (x # xs) ys"
      using Inr Cons.IH by (auto simp: list_all2_Cons1)
    finally show ?thesis .
  qed
qed

lemma append_Cons_eq_cases:
  assumes "xs @ a # ys = us @ b # vs"
  shows "(xs = us \<and> a = b \<and> ys = vs) \<or> a \<in> set us \<or> b \<in> set xs"
  using assms
proof (induction xs arbitrary: us)
  case Nil
  then show ?case by (cases us) auto
next
  case (Cons x xs)
  then show ?case by (cases us) auto
qed

subsection \<open>Facts about numerals and fields\<close>

lemma digit_char_code_nat [simp]: "d < 10 \<Longrightarrow> (of_char (digit_char d) :: nat) = 48 + d"
  by (simp add: digit_char_def)

lemma digit_char_code [simp]: "d < 10 \<Longrightarrow> (of_char (digit_char d) :: int) = 48 + int d"
proof -
  assume "d < 10"
  then have "int (of_char (digit_char d)) = 48 + int d" by simp
  then show ?thesis unfolding of_nat_of_char .
qed

lemma is_digit_digit_char [simp]: "d < 10 \<Longrightarrow> is_digit (digit_char d)"
  by (simp add: is_digit_def)

lemma digits_value_snoc: "digits_value (s @ [c]) = 10 * digits_value s + (of_char c - 48)"
  by (simp add: digits_value_def)

lemma nat_str_aux_props:
  "n < k \<Longrightarrow> digits_value (nat_str_aux k n) = int n \<and> nat_str_aux k n \<noteq> [] \<and> list_all is_digit (nat_str_aux k n)"
proof (induction k arbitrary: n)
  case 0
  then show ?case by simp
next
  case (Suc k)
  show ?case
  proof (cases "n < 10")
    case True
    then show ?thesis by (simp add: digits_value_def)
  next
    case False
    then have "n div 10 < k" using Suc.prems by simp
    moreover have "10 * int (n div 10) + int (n mod 10) = int n" by presburger
    ultimately show ?thesis using Suc.IH[of "n div 10"] False by (simp add: digits_value_snoc)
  qed
qed

lemma nat_str_props: "digits_value (nat_str n) = int n" "nat_str n \<noteq> []" "list_all is_digit (nat_str n)"
  using nat_str_aux_props[of n "Suc n"] by (simp_all add: nat_str_def)

lemma digit_not_space: "is_digit c \<Longrightarrow> \<not> is_space c \<and> c \<noteq> CHR ''_'' \<and> c \<noteq> CHR ''-'' \<and> c \<noteq> CHR ''+''"
  by (auto simp: is_digit_def is_space_def of_char_def)

lemma digit_groups_digits: "s \<noteq> [] \<Longrightarrow> list_all is_digit s \<Longrightarrow> digit_groups_ok s"
  by (induction s rule: digit_groups_ok.induct) (auto dest: digit_not_space)

lemma strip_id: "s = [] \<or> (\<not> is_space (hd s) \<and> \<not> is_space (last s)) \<Longrightarrow> strip s = s"
proof -
  have dw: "xs = [] \<or> \<not> is_space (hd xs) \<Longrightarrow> dropWhile is_space xs = xs" for xs by (cases xs) auto
  show "s = [] \<or> (\<not> is_space (hd s) \<and> \<not> is_space (last s)) \<Longrightarrow> strip s = s"
    using dw[of s] dw[of "rev s"] by (auto simp: strip_def hd_rev)
qed

lemma parse_int_int_str [simp]: "parse_int (int_str i) = Some i"
proof -
  let ?d = "nat_str (nat \<bar>i\<bar>)"
  have d: "digits_value ?d = \<bar>i\<bar>" "?d \<noteq> []" "list_all is_digit ?d" using nat_str_props[of "nat \<bar>i\<bar>"] by simp_all
  then have ends: "is_digit (hd ?d)" "is_digit (last ?d)" by (auto simp: list_all_iff)
  have nou: "filter (\<lambda>c. c \<noteq> CHR ''_'') ?d = ?d"
    using d(3) by (auto simp: list_all_iff filter_id_conv dest: digit_not_space)
  have ok: "digit_groups_ok ?d" using d by (intro digit_groups_digits)
  have st: "strip ?d = ?d" using ends by (intro strip_id) (auto dest: digit_not_space)
  have "strip (CHR ''-'' # ?d) = CHR ''-'' # ?d" using ends d(2) by (intro strip_id) (auto simp: is_space_def dest: digit_not_space)
  then show ?thesis
    using st ok nou d ends by (cases "i < 0") (auto simp: parse_int_def int_str_def Let_def abs_if dest: digit_not_space)
qed

text \<open>A field is a non-empty run of non-blank bytes.\<close>

definition field_ok :: "string \<Rightarrow> bool" where
  "field_ok f \<longleftrightarrow> f \<noteq> [] \<and> list_all (\<lambda>c. \<not> is_space c) f"

lemma split_ws_aux_run: "list_all (\<lambda>c. \<not> is_space c) f \<Longrightarrow> split_ws_aux acc (f @ s) = split_ws_aux (rev f @ acc) s"
  by (induction f arbitrary: acc) auto

lemma split_ws_join: "list_all field_ok fs \<Longrightarrow> split_ws (join_str '' '' fs) = fs"
proof (induction fs rule: induct_list012)
  case 1
  then show ?case by (simp add: split_ws_def)
next
  case (2 f)
  then show ?case using split_ws_aux_run[of f "[]" "[]"] by (simp add: split_ws_def field_ok_def)
next
  case (3 f g fs)
  then have "split_ws (join_str '' '' (f # g # fs)) = f # split_ws (join_str '' '' (g # fs))"
    using split_ws_aux_run[of f "[]"] by (simp add: split_ws_def field_ok_def is_space_def)
  with 3 show ?case by simp
qed

lemma field_ok_int_str: "field_ok (int_str i)"
proof -
  have "list_all (\<lambda>c. \<not> is_space c) (nat_str n)" for n
    using nat_str_props(3)[of n] by (auto simp: list_all_iff dest: digit_not_space)
  then show ?thesis using nat_str_props(2) by (auto simp: field_ok_def int_str_def is_space_def)
qed

lemma splitlines_aux_line:
  "CHR 0x0A \<notin> set l \<Longrightarrow> CHR 0x0D \<notin> set l \<Longrightarrow> splitlines_aux acc (l @ CHR 0x0A # s) = (rev acc @ l) # splitlines_aux [] s"
  by (induction l arbitrary: acc) auto

lemma splitlines_lines:
  assumes "\<forall>l\<in>set ls. CHR 0x0A \<notin> set l \<and> CHR 0x0D \<notin> set l"
  shows "splitlines (concat (map (\<lambda>l. l @ [CHR 0x0A]) ls)) = ls"
  using assms by (induction ls) (simp_all add: splitlines_def splitlines_aux_line)

lemma split_char_join_str:
  "\<forall>f\<in>set fs. c \<notin> set f \<Longrightarrow> fs \<noteq> [] \<Longrightarrow> split_char c (join_str [c] fs) = fs"
  by (induction fs rule: induct_list012) (auto simp: split_char_no_sep split_char_append)

end
