(* ===== verification/Models.thy ===== *)
theory Models
  imports Py_Prelude
begin

text \<open>
  The value types of \<open>models.py\<close>, one record per data class and one constructor per enumeration
  member.  Field names carry a two-letter prefix for their class, since fields of different
  classes share their Python names.  A \<open>Path\<close> is its \<open>pathname\<close> (the encoded bytes), a tuple a
  list, a frozen set a set, a \<open>float\<close> the rational number the double stands for, and a field
  \<open>T | None\<close> an option.
\<close>

type_synonym pathname = string

subsection \<open>Snapshot status\<close>

datatype snapshot_status = RUNNING | COMPLETE | PARTIAL | FAILED

text \<open>The value a member of the \<open>StrEnum\<close> is stored as, and \<open>SnapshotStatus(text)\<close>, which raises
  \<open>ValueError\<close> (here \<open>None\<close>) on any other text.\<close>

fun status_value :: "snapshot_status \<Rightarrow> string" where
  "status_value RUNNING = ''running''"
| "status_value COMPLETE = ''complete''"
| "status_value PARTIAL = ''partial''"
| "status_value FAILED = ''failed''"

definition status_of_value :: "string \<Rightarrow> snapshot_status option" where
  "status_of_value s =
     (if s = ''running'' then Some RUNNING
      else if s = ''complete'' then Some COMPLETE
      else if s = ''partial'' then Some PARTIAL
      else if s = ''failed'' then Some FAILED
      else None)"

definition snapshot_status_from_storage :: "string \<Rightarrow> string option \<Rightarrow> snapshot_status option" where
  "snapshot_status_from_storage raw_value finished_at =
     (case status_of_value raw_value of
        None \<Rightarrow> None
      | Some status \<Rightarrow>
          if status = FAILED \<and> finished_at = None then Some RUNNING else Some status)"

lemma status_of_value_value [simp]: "status_of_value (status_value s) = Some s"
  by (cases s) (simp_all add: status_of_value_def)

lemma status_value_inject [simp]: "status_value s = status_value t \<longleftrightarrow> s = t"
  by (metis option.inject status_of_value_value)

lemma status_value_of_value: "status_of_value v = Some s \<Longrightarrow> status_value s = v"
  by (auto simp: status_of_value_def split: if_splits)

subsection \<open>Records\<close>

record snapshot_record =
  sr_id :: int
  sr_started_at :: string
  sr_finished_at :: "string option"
  sr_root_path :: pathname
  sr_status :: snapshot_status
  sr_notes :: "string option"
  sr_error :: "string option"

record snapshot_summary =
  ss_snapshot :: snapshot_record
  ss_processing_seconds :: "rat option"
  ss_row_count :: int
  ss_collapsed_row_count :: int
  ss_error_row_count :: int
  ss_indexed_apparent_bytes :: "int option"
  ss_indexed_disk_bytes :: "int option"
  ss_file_count :: "int option"
  ss_dir_count :: "int option"
  ss_hardlink_file_count :: "int option"
  ss_hardlink_duplicate_count :: "int option"
  ss_hardlink_duplicate_disk_bytes :: "int option"
  ss_hardlink_first_seen_disk_bytes :: "int option"

record directory_aggregate =
  da_snapshot_id :: int
  da_path :: bytes
  da_parent_path :: "bytes option"
  da_depth :: int
  da_apparent_bytes :: int
  da_disk_bytes :: int
  da_file_count :: int
  da_dir_count :: int
  da_error :: "string option"
  da_hardlink_file_count :: int
  da_hardlink_duplicate_count :: int
  da_hardlink_duplicate_disk_bytes :: int
  da_hardlink_first_seen_disk_bytes :: int
  da_collapsed :: bool
  da_collapse_reason :: "string option"
  da_collapsed_dirs :: "int option"
  da_top_child_path :: "bytes option"
  da_top_child_disk_bytes :: "int option"

record mount_info =
  mi_mount_id :: int
  mi_parent_id :: int
  mi_major_minor :: string
  mi_root :: bytes
  mi_mount_point :: bytes
  mi_options :: "string list"
  mi_filesystem_type :: string
  mi_mount_source :: string
  mi_super_options :: "string list"

record snapshot_mount =
  sm_snapshot_id :: int
  sm_mount_id :: int
  sm_parent_id :: int
  sm_major_minor :: string
  sm_root :: bytes
  sm_mount_point :: bytes
  sm_filesystem_type :: string
  sm_mount_source :: string

record snapshot_filesystem_usage =
  fu_snapshot_id :: int
  fu_mount_id :: int
  fu_major_minor :: string
  fu_root :: bytes
  fu_mount_point :: bytes
  fu_filesystem_type :: string
  fu_mount_source :: string
  fu_total_bytes :: "int option"
  fu_used_bytes :: "int option"
  fu_free_bytes :: "int option"
  fu_available_bytes :: "int option"
  fu_capture_error :: "string option"

record group_label =
  gl_kind :: string
  gl_key :: string
  gl_mount_point :: "bytes option"
  gl_filesystem_type :: "string option"
  gl_mount_source :: "string option"
  gl_major_minor :: "string option"
  gl_root :: "bytes option"

record report_warning =
  rw_code :: string
  rw_message :: string
  rw_path :: "bytes option"

record snapshot_pair =
  sp_root_path :: pathname
  sp_baseline :: snapshot_record
  sp_current :: snapshot_record
  sp_warning_codes :: "string list"
  sp_baseline_path :: "bytes option"
  sp_current_path :: "bytes option"
  sp_requested_path :: "bytes option"
  sp_baseline_storage_domain :: "group_label option"
  sp_current_storage_domain :: "group_label option"

record diff_row =
  dr_root_path :: pathname
  dr_baseline_snapshot_id :: int
  dr_current_snapshot_id :: int
  dr_path :: bytes
  dr_parent_path :: "bytes option"
  dr_depth :: int
  dr_classification :: string
  dr_previous_apparent_bytes :: int
  dr_current_apparent_bytes :: int
  dr_apparent_bytes_delta :: int
  dr_previous_disk_bytes :: int
  dr_current_disk_bytes :: int
  dr_disk_bytes_delta :: int
  dr_error :: "string option"
  dr_previous_hardlink_file_count :: int
  dr_current_hardlink_file_count :: int
  dr_hardlink_file_count_delta :: int
  dr_previous_hardlink_duplicate_count :: int
  dr_current_hardlink_duplicate_count :: int
  dr_hardlink_duplicate_count_delta :: int
  dr_previous_hardlink_duplicate_disk_bytes :: int
  dr_current_hardlink_duplicate_disk_bytes :: int
  dr_hardlink_duplicate_disk_bytes_delta :: int
  dr_previous_hardlink_first_seen_disk_bytes :: int
  dr_current_hardlink_first_seen_disk_bytes :: int
  dr_hardlink_first_seen_disk_bytes_delta :: int
  dr_collapsed :: bool
  dr_collapse_reason :: "string option"
  dr_collapsed_dirs :: "int option"
  dr_top_child_path :: "bytes option"
  dr_top_child_disk_bytes :: "int option"
  dr_group :: "group_label option"

record fast_growth_row =
  fg_root_path :: pathname
  fg_baseline_snapshot_id :: int
  fg_current_snapshot_id :: int
  fg_path :: bytes
  fg_depth :: int
  fg_classification :: string
  fg_previous_disk_bytes :: int
  fg_current_disk_bytes :: int
  fg_disk_bytes_delta :: int
  fg_previous_apparent_bytes :: int
  fg_current_apparent_bytes :: int
  fg_apparent_bytes_delta :: int
  fg_previous_hardlink_file_count :: int
  fg_current_hardlink_file_count :: int
  fg_hardlink_file_count_delta :: int
  fg_previous_hardlink_duplicate_count :: int
  fg_current_hardlink_duplicate_count :: int
  fg_hardlink_duplicate_count_delta :: int
  fg_previous_hardlink_duplicate_disk_bytes :: int
  fg_current_hardlink_duplicate_disk_bytes :: int
  fg_hardlink_duplicate_disk_bytes_delta :: int
  fg_previous_hardlink_first_seen_disk_bytes :: int
  fg_current_hardlink_first_seen_disk_bytes :: int
  fg_hardlink_first_seen_disk_bytes_delta :: int

record timeline_point =
  tp_snapshot :: snapshot_record
  tp_indexed_apparent_bytes :: "int option"
  tp_indexed_disk_bytes :: "int option"
  tp_file_count :: "int option"
  tp_dir_count :: "int option"

record frontier_row =
  fr_row :: diff_row
  fr_suppressed_descendant_count :: int
  fr_suppressed_ancestor_count :: int
  fr_reason :: string

record top_row =
  tr_snapshot_id :: int
  tr_root_path :: pathname
  tr_path :: bytes
  tr_path_bytes_hex :: string
  tr_depth :: int
  tr_current_apparent_bytes :: int
  tr_current_disk_bytes :: int
  tr_file_count :: int
  tr_dir_count :: int
  tr_error :: "string option"
  tr_hardlink_file_count :: int
  tr_hardlink_duplicate_count :: int
  tr_hardlink_duplicate_disk_bytes :: int
  tr_hardlink_first_seen_disk_bytes :: int
  tr_collapsed :: bool
  tr_collapse_reason :: "string option"
  tr_collapsed_dirs :: "int option"
  tr_top_child_path :: "bytes option"
  tr_top_child_disk_bytes :: "int option"
  tr_group :: "group_label option"

record report_group_summary =
  rg_group :: "group_label option"
  rg_path_count :: int
  rg_disk_bytes_delta :: int
  rg_apparent_bytes_delta :: int

record report_summary =
  rs_snapshot_pairs :: "snapshot_pair list"
  rs_classification_counts :: "(string \<times> int) list"
  rs_disk_bytes_delta_by_classification :: "(string \<times> int) list"
  rs_apparent_bytes_delta_by_classification :: "(string \<times> int) list"
  rs_frontier :: "frontier_row list"
  rs_groups :: "report_group_summary list"
  rs_deleted_preview :: "diff_row list"
  rs_warnings :: "report_warning list"
  rs_indexed_root_disk_bytes_delta :: int

record explain_path_result =
  ep_target :: diff_row
  ep_children :: "diff_row list"
  ep_unshown_or_direct_disk_bytes_delta :: int
  ep_unshown_or_direct_apparent_bytes_delta :: int
  ep_warnings :: "report_warning list"

record indexed_storage_domain_total =
  sd_storage_domain :: group_label
  sd_indexed_visible_disk_bytes :: int
  sd_indexed_visible_apparent_bytes :: int
  sd_indexed_visible_path_count :: int
  sd_indexed_root_paths :: "bytes list"
  sd_indexed_mount_points :: "bytes list"
  sd_snapshot_ids :: "int list"
  sd_snapshot_statuses :: "string list"
  sd_finished_at_min :: "string option"
  sd_finished_at_max :: "string option"
  sd_partial_snapshot_count :: int
  sd_unknown_mount_count :: int
  sd_negative_total_clamped :: bool
  sd_skipped_paths :: "bytes list"

record mount_decision =
  md_include :: bool
  md_reason :: string
  md_filesystem_type :: "string option"
  md_mount_id :: "int option"
  md_device_changed :: bool

record mount_policy =
  mp_skipped_filesystems :: "string set"
  mp_included_filesystems :: "string set"
  mp_skip_overlay :: bool
  mp_skip_namespace :: bool
  mp_one_filesystem :: bool

record collapse_policy =
  cp_names :: "string set"
  cp_fan_out :: int
  cp_descendants :: int
  cp_never :: "pathname list"

record scan_error =
  se_path :: bytes
  se_path_bytes_hex :: string
  se_message :: string
  se_kind :: string

record scan_result =
  sc_root_path :: pathname
  sc_rows :: "directory_aggregate list"
  sc_row_count :: int
  sc_status :: snapshot_status
  sc_fatal_error :: "string option"
  sc_errors :: "scan_error list"
  sc_hardlink_count :: int

record scanner_options =
  so_root :: pathname
  so_exclude_paths :: "pathname list"
  so_mounts :: "mount_info list"
  so_mount_policy :: "mount_policy option"
  so_collapse_policy :: "collapse_policy option"
  so_record_skipped :: bool
  so_hardlink_dedup_max_entries :: int

text \<open>The defaults of \<open>MountPolicy()\<close>.\<close>

definition default_mount_policy :: mount_policy where
  "default_mount_policy =
     \<lparr> mp_skipped_filesystems = {}, mp_included_filesystems = {}, mp_skip_overlay = True,
       mp_skip_namespace = True, mp_one_filesystem = True \<rparr>"

subsection \<open>Statuses in the order a snapshot passes through them\<close>

text \<open>Linear order and finite enumeration of the statuses, for sets and sorts of them.\<close>

fun status_rank :: "snapshot_status \<Rightarrow> nat" where
  "status_rank RUNNING = 0"
| "status_rank COMPLETE = 1"
| "status_rank PARTIAL = 2"
| "status_rank FAILED = 3"

lemma status_rank_inject [simp]: "status_rank s = status_rank t \<longleftrightarrow> s = t"
  by (cases s; cases t) simp_all

instantiation snapshot_status :: linorder
begin

definition less_eq_snapshot_status :: "snapshot_status \<Rightarrow> snapshot_status \<Rightarrow> bool" where
  "less_eq_snapshot_status s t \<longleftrightarrow> status_rank s \<le> status_rank t"

definition less_snapshot_status :: "snapshot_status \<Rightarrow> snapshot_status \<Rightarrow> bool" where
  "less_snapshot_status s t \<longleftrightarrow> status_rank s < status_rank t"

instance
  by standard (auto simp: less_eq_snapshot_status_def less_snapshot_status_def simp flip: status_rank_inject)

end

end
