(* ===== verification/Paths.thy ===== *)
theory Paths
  imports Models
begin

text \<open>
  Paths as bytes.  \<open>parent_of\<close> is \<open>_parent_of\<close> of \<open>reporting/frontier.py\<close>; the loops
  \<open>while p is not None: ...; p = _parent_of(p)\<close> of the reporting code walk the list
  \<open>ancestors p\<close>, nearest first.  \<open>is_ancestor_path\<close> is the prefix test the same file uses.
  The component view (\<open>abs_path\<close>, \<open>canonical\<close>) says when the two agree: on paths written
  without empty components and without a trailing separator, which is what the scanner stores.
  The locale \<open>ancestor_walk\<close> holds what any parent function with a decreasing measure gives.
\<close>

abbreviation slash :: char where "slash \<equiv> CHR ''/''"

abbreviation root_dir :: bytes where "root_dir \<equiv> ''/''"

subsection \<open>\<open>pathlib\<close>\<close>

text \<open>\<open>Path(text)\<close>: empty and \<open>.\<close> components are dropped, two leading slashes are kept; and its \<open>parent\<close>.\<close>

definition path_parts :: "string \<Rightarrow> string list" where
  "path_parts raw = filter (\<lambda>c. c \<noteq> [] \<and> c \<noteq> ''.'') (split_char slash raw)"

definition path_anchor :: "string \<Rightarrow> string" where
  "path_anchor raw =
     (if startswith raw ''//'' \<and> \<not> startswith raw ''///'' then ''//'' else if startswith raw ''/'' then ''/'' else [])"

definition pathlib_join :: "string \<Rightarrow> string list \<Rightarrow> pathname" where
  "pathlib_join anchor parts = (if anchor = [] \<and> parts = [] then ''.'' else anchor @ join_str ''/'' parts)"

definition pathlib_path :: "string \<Rightarrow> pathname" where
  "pathlib_path raw = pathlib_join (path_anchor raw) (path_parts raw)"

definition pathlib_parent :: "string \<Rightarrow> pathname" where
  "pathlib_parent raw = pathlib_join (path_anchor raw) (butlast (path_parts raw))"

subsection \<open>Walking to the root\<close>

definition parent_of :: "bytes \<Rightarrow> bytes option" where
  "parent_of p =
     (if p = [] \<or> p = root_dir then None
      else (case rpartition slash (rstrip_char slash p) of
              None \<Rightarrow> None
            | Some (head, _) \<Rightarrow> Some (if head \<noteq> [] then head else root_dir)))"

definition is_ancestor_path :: "bytes \<Rightarrow> bytes \<Rightarrow> bool" where
  "is_ancestor_path ancestor descendant =
     (if ancestor = descendant then False
      else if ancestor = root_dir then startswith descendant root_dir
      else startswith descendant (ancestor @ root_dir))"

lemma parent_of_length: "parent_of p = Some q \<Longrightarrow> length q < length p"
proof -
  assume p: "parent_of p = Some q"
  let ?s = "rstrip_char slash p"
  from p obtain h t where r: "rpartition slash ?s = Some (h, t)" and q: "q = (if h \<noteq> [] then h else root_dir)"
    by (auto simp: parent_of_def split: if_splits option.splits)
  from rpartition_decomp(1)[OF r] have s: "?s = h @ slash # t" .
  then have "t \<noteq> []" using last_rstrip_char[of slash p] by auto
  then have "length q < length ?s" using s q by (cases t) auto
  then show ?thesis using length_rstrip_char_le[of slash p] by simp
qed

locale ancestor_walk =
  fixes par :: "'a \<Rightarrow> 'a option" and msr :: "'a \<Rightarrow> nat"
  assumes par_less: "par x = Some y \<Longrightarrow> msr y < msr x"
begin

abbreviation above :: "'a \<Rightarrow> 'a \<Rightarrow> bool" where
  "above \<equiv> tranclp (\<lambda>x y. par x = Some y)"

lemma above_less: "above x y \<Longrightarrow> msr y < msr x"
  by (induction rule: tranclp_induct) (auto dest: par_less)

lemma above_irrefl: "\<not> above x x"
  using above_less by blast

lemma above_step: "above x z \<longleftrightarrow> (\<exists>y. par x = Some y \<and> (z = y \<or> above y z))"
proof
  assume "above x z"
  then show "\<exists>y. par x = Some y \<and> (z = y \<or> above y z)"
    by (induction rule: converse_tranclp_induct) auto
next
  assume "\<exists>y. par x = Some y \<and> (z = y \<or> above y z)"
  then obtain y where y: "par x = Some y" and z: "z = y \<or> above y z" by blast
  have xy: "above x y" using y by (rule tranclp.r_into_trancl)
  from z show "above x z"
  proof
    assume "z = y"
    then show ?thesis using xy by simp
  next
    assume "above y z"
    then show ?thesis by (rule tranclp_trans[OF xy])
  qed
qed

lemma above_linear:
  assumes "above x y" and "above x z"
  shows "y = z \<or> above y z \<or> above z y"
  using assms
proof (induction "msr x" arbitrary: x rule: less_induct)
  case less
  from above_step[THEN iffD1, OF less.prems(1)]
  obtain x' where x': "par x = Some x'" and y: "y = x' \<or> above x' y" by blast
  from above_step[THEN iffD1, OF less.prems(2)] x' have z: "z = x' \<or> above x' z" by simp
  show ?case using y z less.hyps[OF par_less[OF x']] by blast
qed

lemma walk_induct [case_names walk]:
  assumes "\<And>x. (\<And>y. par x = Some y \<Longrightarrow> P y) \<Longrightarrow> P x"
  shows "P x"
  by (induction "msr x" arbitrary: x rule: less_induct) (auto intro: assms par_less)

end

interpretation parent_walk: ancestor_walk parent_of length
  by unfold_locales (rule parent_of_length)

function ancestors :: "bytes \<Rightarrow> bytes list" where
  "ancestors p = (case parent_of p of None \<Rightarrow> [] | Some q \<Rightarrow> q # ancestors q)"
  by pat_completeness auto
termination by (relation "measure length") (auto intro: parent_of_length)

declare ancestors.simps [simp del]

lemma ancestors_None: "parent_of p = None \<Longrightarrow> ancestors p = []"
  by (simp add: ancestors.simps)

lemma ancestors_Some: "parent_of p = Some q \<Longrightarrow> ancestors p = q # ancestors q"
  by (simp add: ancestors.simps)

lemma set_ancestors: "q \<in> set (ancestors p) \<longleftrightarrow> parent_walk.above p q"
proof (induction p rule: parent_walk.walk_induct)
  case (walk x)
  show ?case
  proof (cases "parent_of x")
    case None
    then show ?thesis by (auto simp: ancestors_None parent_walk.above_step[of x])
  next
    case (Some y)
    then show ?thesis using walk.IH[OF Some] by (auto simp: ancestors_Some parent_walk.above_step[of x])
  qed
qed

lemma ancestors_length: "q \<in> set (ancestors p) \<Longrightarrow> length q < length p"
  by (simp add: set_ancestors parent_walk.above_less)

lemma ancestors_trans: "q \<in> set (ancestors p) \<Longrightarrow> r \<in> set (ancestors q) \<Longrightarrow> r \<in> set (ancestors p)"
  by (meson set_ancestors tranclp_trans)

lemma distinct_ancestors: "distinct (ancestors p)"
proof (induction p rule: parent_walk.walk_induct)
  case (walk x)
  show ?case
    using walk.IH by (cases "parent_of x") (auto simp: ancestors_None ancestors_Some dest: ancestors_length)
qed

subsection \<open>Components\<close>

text \<open>\<open>abs_path [c1, ..., cn]\<close> is \<open>/c1/.../cn\<close>, and \<open>/\<close> for no component.\<close>

definition comp_ok :: "bytes \<Rightarrow> bool" where
  "comp_ok c \<longleftrightarrow> c \<noteq> [] \<and> slash \<notin> set c"

definition abs_path :: "bytes list \<Rightarrow> bytes" where
  "abs_path cs = (if cs = [] then root_dir else concat (map (\<lambda>c. slash # c) cs))"

definition canonical :: "bytes \<Rightarrow> bool" where
  "canonical p \<longleftrightarrow> p = root_dir \<or> (p \<noteq> [] \<and> hd p = slash \<and> [] \<notin> set (split_char slash (tl p)))"

lemma canonical_iff: "canonical p \<longleftrightarrow> (\<exists>cs. (\<forall>c\<in>set cs. comp_ok c) \<and> p = abs_path cs)"
proof
  assume "canonical p"
  then consider "p = root_dir" | s where "p = slash # s" "[] \<notin> set (split_char slash s)"
    by (cases p) (auto simp: canonical_def)
  then show "\<exists>cs. (\<forall>c\<in>set cs. comp_ok c) \<and> p = abs_path cs"
  proof cases
    case 1
    then show ?thesis by (intro exI[of _ "[]"]) (simp add: abs_path_def)
  next
    case 2
    then have "\<forall>c\<in>set (split_char slash s). comp_ok c"
      by (metis comp_ok_def split_char_free)
    moreover have "p = abs_path (split_char slash s)"
      by (simp add: abs_path_def split_char_join 2)
    ultimately show ?thesis by blast
  qed
next
  assume "\<exists>cs. (\<forall>c\<in>set cs. comp_ok c) \<and> p = abs_path cs"
  then obtain cs where cs: "\<forall>c\<in>set cs. comp_ok c" "p = abs_path cs" by blast
  have split: "c' \<in> set (c # cs') \<Longrightarrow> comp_ok c'" if "cs = c # cs'" for c c' cs' using cs that by auto
  have sp: "\<forall>c\<in>set (c # cs'). comp_ok c \<Longrightarrow>
      split_char slash (c @ concat (map (\<lambda>c. slash # c) cs')) = c # cs'" for c cs'
    by (induction cs' arbitrary: c) (auto simp: split_char_no_sep split_char_append comp_ok_def)
  show "canonical p"
  proof (cases cs)
    case Nil
    then show ?thesis by (simp add: canonical_def cs abs_path_def)
  next
    case (Cons c cs')
    have "[] \<notin> set (c # cs')" using cs Cons by (auto simp: comp_ok_def)
    then show ?thesis using sp[of c cs'] cs Cons by (simp add: canonical_def abs_path_def)
  qed
qed

lemma abs_path_ne [simp]: "abs_path cs \<noteq> []"
  by (cases cs) (simp_all add: abs_path_def)

lemma abs_path_snoc: "abs_path (cs @ [c]) = (if cs = [] then [] else abs_path cs) @ slash # c"
  by (simp add: abs_path_def)

lemma abs_path_root [simp]:
  assumes "\<forall>c\<in>set cs. comp_ok c"
  shows "abs_path cs = root_dir \<longleftrightarrow> cs = []"
  using assms by (cases cs) (auto simp: abs_path_def comp_ok_def)

lemma parent_of_root [simp]: "parent_of root_dir = None"
  by (simp add: parent_of_def)

lemma parent_of_abs_path:
  assumes "\<forall>c\<in>set (cs @ [c]). comp_ok c"
  shows "parent_of (abs_path (cs @ [c])) = Some (abs_path cs)"
proof -
  let ?h = "if cs = [] then [] else abs_path cs"
  have c: "c \<noteq> []" "slash \<notin> set c" using assms by (auto simp: comp_ok_def)
  then have last: "last (?h @ slash # c) \<noteq> slash" by (metis last_in_set last_append list.distinct(1) last_ConsR)
  have strip: "rstrip_char slash (?h @ slash # c) = ?h @ slash # c"
    by (rule rstrip_char_id) (use last in simp)
  have "?h @ slash # c \<noteq> []" "?h @ slash # c \<noteq> root_dir" using c by (auto simp: append_eq_Cons_conv)
  then show ?thesis
    unfolding abs_path_snoc parent_of_def strip
    by (simp add: rpartition_append c) (simp add: abs_path_def)
qed

lemma ancestors_abs_path:
  assumes "\<forall>c\<in>set cs. comp_ok c"
  shows "set (ancestors (abs_path cs)) = {abs_path (take n cs) |n. n < length cs}"
  using assms
proof (induction cs rule: rev_induct)
  case Nil
  then show ?case by (simp add: abs_path_def ancestors_None)
next
  case (snoc c cs)
  have "set (ancestors (abs_path (cs @ [c]))) = insert (abs_path cs) (set (ancestors (abs_path cs)))"
    using parent_of_abs_path[OF snoc.prems] by (simp add: ancestors_Some)
  also have "\<dots> = insert (abs_path (take (length cs) cs)) {abs_path (take n cs) |n. n < length cs}"
    using snoc by simp
  also have "\<dots> = {abs_path (take n (cs @ [c])) |n. n < length (cs @ [c])}"
  proof -
    have same: "take n (cs @ [c]) = take n cs" if "n \<le> length cs" for n using that by simp
    have "{abs_path (take n (cs @ [c])) |n. n < length (cs @ [c])} = (\<lambda>n. abs_path (take n (cs @ [c]))) ` {..length cs}"
      by (force simp: less_Suc_eq_le image_iff simp del: take_append)
    also have "\<dots> = (\<lambda>n. abs_path (take n cs)) ` {..length cs}"
      by (rule image_cong) (simp_all add: same)
    also have "{..length cs} = insert (length cs) {..<length cs}" by auto
    finally show ?thesis by auto
  qed
  finally show ?case .
qed

lemma comp_split:
  assumes "c @ s = d @ t" and "slash \<notin> set c" and "slash \<notin> set d"
    and "s = [] \<or> hd s = slash" and "t = [] \<or> hd t = slash"
  shows "c = d \<and> s = t"
  using assms
proof (induction c arbitrary: d)
  case Nil
  then show ?case by (cases d) auto
next
  case (Cons x c)
  then show ?case by (cases d) auto
qed

lemma hd_concat_slash: "concat (map (\<lambda>c. slash # c) cs) = [] \<or> hd (concat (map (\<lambda>c. slash # c) cs)) = slash"
  by (cases cs) auto

lemma concat_slash_prefix:
  assumes "\<forall>c\<in>set xs. comp_ok c" and "\<forall>c\<in>set ys. comp_ok c"
    and "concat (map (\<lambda>c. slash # c) ys) = concat (map (\<lambda>c. slash # c) xs) @ t" and "t = [] \<or> hd t = slash"
  shows "\<exists>zs. ys = xs @ zs \<and> t = concat (map (\<lambda>c. slash # c) zs)"
  using assms
proof (induction xs arbitrary: ys)
  case Nil
  then show ?case by auto
next
  case (Cons x xs)
  then obtain y ys' where ys: "ys = y # ys'" by (cases ys) auto
  have "y @ concat (map (\<lambda>c. slash # c) ys') = x @ (concat (map (\<lambda>c. slash # c) xs) @ t)"
    using Cons.prems(3) ys by simp
  moreover have "concat (map (\<lambda>c. slash # c) xs) @ t = [] \<or> hd (concat (map (\<lambda>c. slash # c) xs) @ t) = slash"
    using hd_concat_slash[of xs] Cons.prems(4) by (cases "concat (map (\<lambda>c. slash # c) xs)") auto
  ultimately have "y = x \<and> concat (map (\<lambda>c. slash # c) ys') = concat (map (\<lambda>c. slash # c) xs) @ t"
    using Cons.prems(1,2) ys hd_concat_slash[of ys'] by (intro comp_split) (auto simp: comp_ok_def)
  with Cons.IH[of ys'] Cons.prems ys show ?case by auto
qed

lemma is_ancestor_abs_path:
  assumes xs: "\<forall>c\<in>set xs. comp_ok c" and ys: "\<forall>c\<in>set ys. comp_ok c"
  shows "is_ancestor_path (abs_path xs) (abs_path ys) \<longleftrightarrow> strict_prefix xs ys"
proof (cases "xs = []")
  case True
  then show ?thesis using ys
    by (cases ys) (auto simp: is_ancestor_path_def abs_path_def startswith_iff comp_ok_def strict_prefix_def)
next
  case False
  let ?f = "\<lambda>cs. concat (map (\<lambda>c. slash # c) cs)"
  have fx: "abs_path xs = ?f xs" "abs_path xs \<noteq> root_dir" using False xs by (simp_all add: abs_path_def)
      (use False xs in \<open>cases xs; auto simp: comp_ok_def\<close>)
  have "startswith (abs_path ys) (abs_path xs @ root_dir) \<longleftrightarrow> strict_prefix xs ys"
  proof
    assume "startswith (abs_path ys) (abs_path xs @ root_dir)"
    then obtain t where t: "abs_path ys = ?f xs @ slash # t" by (auto simp: startswith_iff fx)
    then have "ys \<noteq> []" using False xs by (cases xs) (auto simp: abs_path_def comp_ok_def)
    then have "?f ys = ?f xs @ slash # t" using t by (simp add: abs_path_def)
    from concat_slash_prefix[OF xs ys this] obtain zs where "ys = xs @ zs" "slash # t = ?f zs" by auto
    then show "strict_prefix xs ys" by (auto simp: strict_prefix_def)
  next
    assume "strict_prefix xs ys"
    then obtain z zs where "ys = xs @ z # zs" by (rule strict_prefixE')
    then show "startswith (abs_path ys) (abs_path xs @ root_dir)"
      using False by (auto simp: startswith_iff fx) (simp add: abs_path_def)
  qed
  moreover have "abs_path xs = abs_path ys \<Longrightarrow> \<not> strict_prefix xs ys"
  proof
    assume eq: "abs_path xs = abs_path ys" and "strict_prefix xs ys"
    from this(2) obtain z zs where "ys = xs @ z # zs" by (rule strict_prefixE')
    then show False using eq False by (simp add: abs_path_def)
  qed
  ultimately show ?thesis by (auto simp: is_ancestor_path_def fx(2))
qed

text \<open>On canonical paths the walk visits exactly the paths the prefix test accepts.\<close>

lemma ancestors_iff_prefix:
  assumes "canonical p"
  shows "q \<in> set (ancestors p) \<longleftrightarrow> canonical q \<and> is_ancestor_path q p"
proof -
  from assms obtain cs where cs: "\<forall>c\<in>set cs. comp_ok c" and p: "p = abs_path cs"
    by (auto simp: canonical_iff)
  show ?thesis
  proof
    assume "q \<in> set (ancestors p)"
    then obtain n where n: "n < length cs" and q: "q = abs_path (take n cs)"
      using ancestors_abs_path[OF cs] p by auto
    have ok: "\<forall>c\<in>set (take n cs). comp_ok c" using cs by (auto dest: in_set_takeD)
    have "length (take n cs) \<noteq> length cs" using n by simp
    then have "take n cs \<noteq> cs" by metis
    then have "strict_prefix (take n cs) cs" by (simp add: strict_prefix_def take_is_prefix)
    then show "canonical q \<and> is_ancestor_path q p"
      using is_ancestor_abs_path[OF ok cs] ok unfolding q p canonical_iff by blast
  next
    assume q: "canonical q \<and> is_ancestor_path q p"
    then obtain ds where ds: "\<forall>c\<in>set ds. comp_ok c" "q = abs_path ds" by (auto simp: canonical_iff)
    with q p is_ancestor_abs_path[OF ds(1) cs] have "strict_prefix ds cs" by simp
    then obtain z zs where "cs = ds @ z # zs" by (rule strict_prefixE')
    then have "ds = take (length ds) cs" "length ds < length cs" by simp_all
    then have "q = abs_path (take (length ds) cs) \<and> length ds < length cs" using ds(2) by simp
    then show "q \<in> set (ancestors p)" unfolding p ancestors_abs_path[OF cs] by blast
  qed
qed

lemma canonical_parent: "canonical p \<Longrightarrow> parent_of p = Some q \<Longrightarrow> canonical q"
  using ancestors_iff_prefix[of p q] by (simp add: ancestors_Some)

end
