(* ===== verification/Mounts.thy ===== *)
theory Mounts
  imports Paths
begin

text \<open>
  \<open>collect/mounts.py\<close>: parsing \<open>/proc/self/mountinfo\<close> and finding the mount that holds a path.
  \<open>unescape_mount_path\<close> undoes the kernel's octal escapes, \<open>parse_mountinfo\<close> reads the table
  (its \<open>ValueError\<close>s are the constructors of \<open>mount_error\<close>), \<open>find_mount_for_path\<close> is the
  longest-prefix scan.  Decoding with \<open>surrogateescape\<close> is the identity on bytes; a \<open>Path\<close>
  argument is resolved by the operating system first and arrives here as bytes.

  The locale \<open>mount_lookup\<close> is the contract of a longest-prefix lookup; the reporting code has a
  second provider of it.
\<close>

datatype mount_error =
    Missing_separator bytes
  | Too_few_fields bytes
  | Bad_number bytes
  | Byte_out_of_range int

subsection \<open>Unescaping\<close>

definition octal_digit :: "char \<Rightarrow> bool" where
  "octal_digit c \<longleftrightarrow> 0x30 \<le> (of_char c :: int) \<and> (of_char c :: int) \<le> 0x37"

definition octal_value :: "bytes \<Rightarrow> int" where
  "octal_value ds = foldl (\<lambda>a c. 8 * a + (of_char c - 0x30)) 0 ds"

text \<open>
  The escape is three octal digits, so its value can exceed a byte (\<open>\400\<close> to \<open>\777\<close>);
  \<open>bytearray.append\<close> then raises \<open>ValueError\<close>.
\<close>

function unescape_mount_path :: "bytes \<Rightarrow> mount_error + bytes" where
  "unescape_mount_path [] = Inr []"
| "unescape_mount_path (c # cs) =
     (if c = CHR 0x5C \<and> 3 \<le> length cs \<and> list_all octal_digit (take 3 cs)
      then (let v = octal_value (take 3 cs)
            in if v > 255 then Inl (Byte_out_of_range v)
               else (case unescape_mount_path (drop 3 cs) of
                       Inl e \<Rightarrow> Inl e | Inr r \<Rightarrow> Inr (char_of v # r)))
      else (case unescape_mount_path cs of Inl e \<Rightarrow> Inl e | Inr r \<Rightarrow> Inr (c # r)))"
  by pat_completeness auto
termination by (relation "measure length") auto

subsection \<open>Parsing the mount table\<close>

text \<open>\<open>line.partition(sep)\<close>; \<open>None\<close> when the separator is absent.\<close>

fun partition_bytes :: "bytes \<Rightarrow> bytes \<Rightarrow> (bytes \<times> bytes) option" where
  "partition_bytes sep [] = (if sep = [] then Some ([], []) else None)"
| "partition_bytes sep (c # cs) =
     (if startswith (c # cs) sep then Some ([], drop (length sep) (c # cs))
      else map_option (\<lambda>(l, r). (c # l, r)) (partition_bytes sep cs))"

definition split_csv_bytes :: "bytes \<Rightarrow> string list" where
  "split_csv_bytes raw_value = filter (\<lambda>chunk. chunk \<noteq> []) (split_char (CHR '','') raw_value)"

definition mount_int :: "bytes \<Rightarrow> mount_error + int" where
  "mount_int f = (case parse_int f of None \<Rightarrow> Inl (Bad_number f) | Some i \<Rightarrow> Inr i)"

definition parse_mount_line :: "bytes \<Rightarrow> mount_error + mount_info" where
  "parse_mount_line line =
     (case partition_bytes '' - '' line of
        None \<Rightarrow> Inl (Missing_separator line)
      | Some (left, right) \<Rightarrow>
          (let lf = split_ws left; rf = split_ws right in
           if length lf < 6 \<or> length rf < 3 then Inl (Too_few_fields line)
           else case mount_int (lf ! 0) of Inl e \<Rightarrow> Inl e | Inr mid \<Rightarrow>
             (case mount_int (lf ! 1) of Inl e \<Rightarrow> Inl e | Inr pid \<Rightarrow>
               (case unescape_mount_path (lf ! 3) of Inl e \<Rightarrow> Inl e | Inr root_raw \<Rightarrow>
                 (case unescape_mount_path (lf ! 4) of Inl e \<Rightarrow> Inl e | Inr point \<Rightarrow>
                   Inr \<lparr> mi_mount_id = mid, mi_parent_id = pid, mi_major_minor = lf ! 2,
                         mi_root = root_raw, mi_mount_point = point, mi_options = split_csv_bytes (lf ! 5),
                         mi_filesystem_type = rf ! 0, mi_mount_source = rf ! 1,
                         mi_super_options = split_csv_bytes (rf ! 2) \<rparr>)))))"

text \<open>Blank lines are skipped; the first bad line stops the parse.\<close>

definition parse_mountinfo_lines :: "bytes list \<Rightarrow> mount_error + mount_info list" where
  "parse_mountinfo_lines raw_lines =
     map_err parse_mount_line (filter (\<lambda>line. line \<noteq> []) (map strip raw_lines))"

definition parse_mountinfo :: "bytes \<Rightarrow> mount_error + mount_info list" where
  "parse_mountinfo raw_mountinfo = parse_mountinfo_lines (splitlines raw_mountinfo)"

subsection \<open>Finding the mount of a path\<close>

definition normalize_path_bytes :: "bytes \<Rightarrow> bytes" where
  "normalize_path_bytes raw_path = (let n = rstrip_char slash raw_path in if n \<noteq> [] then n else root_dir)"

definition normalize_mount_point :: "bytes \<Rightarrow> bytes" where
  "normalize_mount_point mount_point =
     (let n = rstrip_char slash mount_point in if n \<noteq> [] then n else root_dir)"

definition path_matches_mount :: "bytes \<Rightarrow> bytes \<Rightarrow> bool" where
  "path_matches_mount path_raw mount_point =
     (if mount_point = root_dir then True
      else path_raw = mount_point \<or> startswith path_raw (mount_point @ root_dir))"

definition find_mount_step ::
    "bytes \<Rightarrow> mount_info option \<times> int \<Rightarrow> mount_info \<Rightarrow> mount_info option \<times> int" where
  "find_mount_step path_raw = (\<lambda>(best_match, best_length) mount.
     (let mount_point = normalize_mount_point (mi_mount_point mount) in
      if path_matches_mount path_raw mount_point \<and> int (length mount_point) > best_length
      then (Some mount, int (length mount_point)) else (best_match, best_length)))"

definition find_mount_for_path :: "bytes \<Rightarrow> mount_info list \<Rightarrow> mount_info option" where
  "find_mount_for_path path_value mounts =
     fst (foldl (find_mount_step (normalize_path_bytes path_value)) (None, - 1) mounts)"

subsection \<open>The contract of a longest-prefix lookup\<close>

text \<open>
  \<open>point m\<close> is where entry \<open>m\<close> is mounted and \<open>covers p q\<close> says that mount point \<open>q\<close> holds path
  \<open>p\<close>.  The answer is an entry of the table, the deepest that covers the path, and the first
  listed among the entries of that mount point.
\<close>

locale mount_lookup =
  fixes point :: "'m \<Rightarrow> bytes" and wf_path :: "bytes \<Rightarrow> bool"
    and covers :: "bytes \<Rightarrow> bytes \<Rightarrow> bool" and lookup :: "bytes \<Rightarrow> 'm list \<Rightarrow> 'm option"
  assumes covers_eq: "wf_path p \<Longrightarrow> covers p a \<Longrightarrow> covers p b \<Longrightarrow> length a = length b \<Longrightarrow> a = b"
    and lookup_covers: "wf_path p \<Longrightarrow> lookup p ms = Some m \<Longrightarrow> covers p (point m)"
    and lookup_longest: "wf_path p \<Longrightarrow> lookup p ms = Some m \<Longrightarrow> m' \<in> set ms \<Longrightarrow> covers p (point m')
          \<Longrightarrow> length (point m') \<le> length (point m)"
    and lookup_first: "wf_path p \<Longrightarrow> lookup p ms = Some m
          \<Longrightarrow> \<exists>xs ys. ms = xs @ m # ys \<and> (\<forall>x\<in>set xs. point x \<noteq> point m)"
    and lookup_None: "wf_path p \<Longrightarrow> lookup p ms = None \<Longrightarrow> m \<in> set ms \<Longrightarrow> \<not> covers p (point m)"
begin

definition deepest :: "bytes \<Rightarrow> 'm list \<Rightarrow> 'm \<Rightarrow> bool" where
  "deepest p ms m \<longleftrightarrow> covers p (point m)
     \<and> (\<forall>m'\<in>set ms. covers p (point m') \<longrightarrow> length (point m') \<le> length (point m))
     \<and> (\<exists>xs ys. ms = xs @ m # ys \<and> (\<forall>x\<in>set xs. point x \<noteq> point m))"

lemma lookup_in: "wf_path p \<Longrightarrow> lookup p ms = Some m \<Longrightarrow> m \<in> set ms"
  using lookup_first by fastforce

lemma deepest_unique:
  assumes "wf_path p" and "deepest p ms m" and "deepest p ms n"
  shows "m = n"
proof -
  from assms obtain xs ys us vs where
    m: "ms = xs @ m # ys" "\<forall>x\<in>set xs. point x \<noteq> point m" and
    n: "ms = us @ n # vs" "\<forall>x\<in>set us. point x \<noteq> point n"
    unfolding deepest_def by blast
  then have "m \<in> set ms" "n \<in> set ms" by (metis in_set_conv_decomp)+
  then have "length (point m) = length (point n)"
    using assms(2,3) unfolding deepest_def by (metis le_antisym)
  then have pt: "point m = point n" using assms covers_eq unfolding deepest_def by blast
  from m(1) n(1) have "xs @ m # ys = us @ n # vs" by simp
  from append_Cons_eq_cases[OF this] consider "m = n" | "m \<in> set us" | "n \<in> set xs" by blast
  then show ?thesis using m(2) n(2) pt by cases auto
qed

lemma lookup_iff: "wf_path p \<Longrightarrow> lookup p ms = Some m \<longleftrightarrow> deepest p ms m"
proof
  assume p: "wf_path p" and "lookup p ms = Some m"
  then show "deepest p ms m"
    unfolding deepest_def using lookup_covers lookup_longest lookup_first by blast
next
  assume p: "wf_path p" and d: "deepest p ms m"
  then have "m \<in> set ms" "covers p (point m)" unfolding deepest_def by (auto intro: in_set_conv_decomp[THEN iffD2])
  with lookup_None[OF p] obtain n where n: "lookup p ms = Some n" by (cases "lookup p ms") auto
  then have "deepest p ms n"
    unfolding deepest_def using p lookup_covers lookup_longest lookup_first by blast
  with deepest_unique[OF p d] n show "lookup p ms = Some m" by simp
qed

lemma lookup_None_iff: "wf_path p \<Longrightarrow> lookup p ms = None \<longleftrightarrow> (\<forall>m\<in>set ms. \<not> covers p (point m))"
  using lookup_None lookup_covers lookup_in by (metis not_None_eq)

lemma lookup_exists: "wf_path p \<Longrightarrow> m \<in> set ms \<Longrightarrow> covers p (point m) \<Longrightarrow> lookup p ms \<noteq> None"
  using lookup_None by blast

text \<open>Entries that do not cover the path do not change the answer.\<close>

lemma lookup_irrelevant:
  assumes p: "wf_path p" and none: "\<forall>m\<in>set ns. \<not> covers p (point m)"
  shows "lookup p (ms @ ns) = lookup p ms"
proof (cases "lookup p ms")
  case None
  then have "\<forall>m\<in>set (ms @ ns). \<not> covers p (point m)" using p none by (auto simp: lookup_None_iff)
  then have "lookup p (ms @ ns) = None" by (rule lookup_None_iff[OF p, THEN iffD2])
  then show ?thesis using None by simp
next
  case (Some m)
  then have "deepest p ms m" using p by (simp add: lookup_iff)
  then have "deepest p (ms @ ns) m" unfolding deepest_def using none by fastforce
  then have "lookup p (ms @ ns) = Some m" by (rule lookup_iff[OF p, THEN iffD2])
  then show ?thesis using Some by simp
qed

end

text \<open>\<open>find_mount_for_path\<close> meets the contract on absolute paths.\<close>

abbreviation mount_key :: "mount_info \<Rightarrow> bytes" where
  "mount_key m \<equiv> normalize_mount_point (mi_mount_point m)"

abbreviation mount_covers :: "bytes \<Rightarrow> bytes \<Rightarrow> bool" where
  "mount_covers p q \<equiv> path_matches_mount (normalize_path_bytes p) q"

abbreviation absolute :: "bytes \<Rightarrow> bool" where
  "absolute p \<equiv> startswith p root_dir"

lemma normalize_path_bytes_ne [simp]: "normalize_path_bytes p \<noteq> []"
  by (simp add: normalize_path_bytes_def Let_def)

lemma rstrip_char_prefix: "\<exists>t. s = rstrip_char c s @ t"
proof -
  have "rev s = takeWhile (\<lambda>x. x = c) (rev s) @ dropWhile (\<lambda>x. x = c) (rev s)" by simp
  then have "rev (rev s) = rev (takeWhile (\<lambda>x. x = c) (rev s) @ dropWhile (\<lambda>x. x = c) (rev s))"
    by (rule arg_cong)
  then have "s = rstrip_char c s @ rev (takeWhile (\<lambda>x. x = c) (rev s))"
    unfolding rev_append rev_rev_ident rstrip_char_def .
  then show ?thesis ..
qed

lemma normalize_absolute: "absolute p \<Longrightarrow> absolute (normalize_path_bytes p)"
proof -
  assume p: "absolute p"
  obtain t where t: "p = rstrip_char slash p @ t" using rstrip_char_prefix[of p slash] by (rule exE)
  show ?thesis
  proof (cases "rstrip_char slash p")
    case Nil
    then show ?thesis by (simp add: normalize_path_bytes_def startswith_def)
  next
    case (Cons x xs)
    then have "x = slash" using p t by (cases p) (auto simp: startswith_iff)
    then show ?thesis using Cons by (simp add: normalize_path_bytes_def startswith_def)
  qed
qed

lemma path_matches_length: "path_matches_mount p q \<Longrightarrow> p \<noteq> [] \<Longrightarrow> length q \<le> length p"
  by (cases "q = root_dir") (auto simp: path_matches_mount_def startswith_iff Suc_le_eq)

lemma path_matches_eq:
  assumes "absolute p" and "path_matches_mount p a" and "path_matches_mount p b" and "length a = length b"
  shows "a = b"
proof -
  from assms(1) obtain t where p: "p = slash # t" by (auto simp: startswith_iff)
  have pre: "prefix q p" if "path_matches_mount p q" for q
    using that p by (auto simp: path_matches_mount_def startswith_iff prefix_def split: if_splits)
  from pre[OF assms(2)] pre[OF assms(3)] assms(4) show ?thesis by (auto simp: prefix_def)
qed

lemma find_mount_foldl:
  assumes "foldl (find_mount_step p) (None, - 1) ms = (b, l)"
  shows "(case b of
      None \<Rightarrow> l = - 1 \<and> (\<forall>m\<in>set ms. \<not> path_matches_mount p (mount_key m))
    | Some m \<Rightarrow> l = int (length (mount_key m)) \<and> path_matches_mount p (mount_key m)
        \<and> (\<forall>m'\<in>set ms. path_matches_mount p (mount_key m') \<longrightarrow> length (mount_key m') \<le> length (mount_key m))
        \<and> (\<exists>xs ys. ms = xs @ m # ys \<and> (\<forall>x\<in>set xs. mount_key x \<noteq> mount_key m)))"
  using assms
proof (induction ms arbitrary: b l rule: rev_induct)
  case Nil
  then show ?case by auto
next
  case (snoc x ms)
  obtain b' l' where bl: "foldl (find_mount_step p) (None, - 1) ms = (b', l')" by fastforce
  note IH = snoc.IH[OF bl]
  have step: "(b, l) = find_mount_step p (b', l') x" using snoc.prems bl by simp
  show ?case
  proof (cases "path_matches_mount p (mount_key x) \<and> int (length (mount_key x)) > l'")
    case True
    then have bx: "b = Some x" "l = int (length (mount_key x))" using step by (simp_all add: find_mount_step_def)
    have longer: "\<forall>m'\<in>set ms. path_matches_mount p (mount_key m') \<longrightarrow> length (mount_key m') < length (mount_key x)"
      using IH True by (cases b') auto
    then have "\<forall>m'\<in>set ms. mount_key m' \<noteq> mount_key x" using True by fastforce
    then show ?thesis using bx True longer by fastforce
  next
    case False
    then have "find_mount_step p (b', l') x = (b', l')" by (simp add: find_mount_step_def Let_def)
    then have bx: "b = b'" "l = l'" using step by simp_all
    show ?thesis
    proof (cases b')
      case None
      then show ?thesis using IH False bx by auto
    next
      case (Some m)
      then obtain xs ys where "ms = xs @ m # ys" "\<forall>x\<in>set xs. mount_key x \<noteq> mount_key m"
        using IH by auto
      then have "\<exists>xs ys. ms @ [x] = xs @ m # ys \<and> (\<forall>x\<in>set xs. mount_key x \<noteq> mount_key m)"
        by (intro exI[of _ xs] exI[of _ "ys @ [x]"]) simp
      then show ?thesis using IH False bx Some by auto
    qed
  qed
qed

lemma find_mount_None: "find_mount_for_path p ms = None \<Longrightarrow> \<forall>m\<in>set ms. \<not> mount_covers p (mount_key m)"
  using find_mount_foldl[of "normalize_path_bytes p" ms None] by (cases "foldl (find_mount_step (normalize_path_bytes p)) (None, - 1) ms")
    (auto simp: find_mount_for_path_def)

lemma find_mount_Some:
  assumes "find_mount_for_path p ms = Some m"
  shows "mount_covers p (mount_key m)"
    and "m' \<in> set ms \<Longrightarrow> mount_covers p (mount_key m') \<Longrightarrow> length (mount_key m') \<le> length (mount_key m)"
    and "\<exists>xs ys. ms = xs @ m # ys \<and> (\<forall>x\<in>set xs. mount_key x \<noteq> mount_key m)"
  using assms find_mount_foldl[of "normalize_path_bytes p" ms "Some m"]
  by (cases "foldl (find_mount_step (normalize_path_bytes p)) (None, - 1) ms"; auto simp: find_mount_for_path_def)+

interpretation scan_mounts: mount_lookup mount_key absolute mount_covers find_mount_for_path
proof unfold_locales
  show "absolute p \<Longrightarrow> mount_covers p a \<Longrightarrow> mount_covers p b \<Longrightarrow> length a = length b \<Longrightarrow> a = b" for p a b
    by (rule path_matches_eq[OF normalize_absolute])
  show "find_mount_for_path p ms = None \<Longrightarrow> m \<in> set ms \<Longrightarrow> \<not> mount_covers p (mount_key m)" for p ms m
    using find_mount_None by blast
qed (rule find_mount_Some; assumption)+

subsection \<open>The kernel's encoding and its round trip\<close>

text \<open>
  How the kernel writes a path into the table (blank, tab, line feed, backslash and \<open>#\<close> as three
  octal digits) and how it lays out a row: the specification the parser is checked against.
\<close>

definition octal_escape :: "char \<Rightarrow> bytes" where
  "octal_escape c =
     (let n = (of_char c :: nat) in
      [CHR 0x5C, char_of (48 + n div 64), char_of (48 + n div 8 mod 8), char_of (48 + n mod 8)])"

definition escape_byte :: "char \<Rightarrow> bytes" where
  "escape_byte c =
     (if c \<in> {CHR '' '', CHR 0x09, CHR 0x0A, CHR 0x5C, CHR ''#''} then octal_escape c else [c])"

definition escape_mount_path :: "bytes \<Rightarrow> bytes" where
  "escape_mount_path p = concat (map escape_byte p)"

definition mount_line_fields :: "mount_info \<Rightarrow> string list \<Rightarrow> string list" where
  "mount_line_fields m optional =
     [int_str (mi_mount_id m), int_str (mi_parent_id m), mi_major_minor m,
      escape_mount_path (mi_root m), escape_mount_path (mi_mount_point m),
      join_str '','' (mi_options m)] @ optional"

definition mount_line :: "mount_info \<Rightarrow> string list \<Rightarrow> bytes" where
  "mount_line m optional =
     join_str '' '' (mount_line_fields m optional) @ '' - '' @
     join_str '' '' [mi_filesystem_type m, mi_mount_source m, join_str '','' (mi_super_options m)]"

text \<open>Rows a kernel writes: every field non-empty and free of blanks, no bare dash before the
  separator, no carriage return, vertical tab or form feed inside a path (the kernel does not
  escape those).\<close>

definition csv_ok :: "string list \<Rightarrow> bool" where
  "csv_ok opts \<longleftrightarrow> opts \<noteq> [] \<and> list_all (\<lambda>f. field_ok f \<and> CHR '','' \<notin> set f) opts \<and> opts \<noteq> [''-'']"

definition raw_path_ok :: "bytes \<Rightarrow> bool" where
  "raw_path_ok p \<longleftrightarrow> startswith p root_dir \<and> list_all (\<lambda>c. c \<notin> {CHR 0x0B, CHR 0x0C, CHR 0x0D}) p"

definition mount_row_ok :: "mount_info \<Rightarrow> string list \<Rightarrow> bool" where
  "mount_row_ok m optional \<longleftrightarrow>
     field_ok (mi_major_minor m) \<and> mi_major_minor m \<noteq> ''-''
   \<and> raw_path_ok (mi_root m) \<and> raw_path_ok (mi_mount_point m)
   \<and> csv_ok (mi_options m) \<and> csv_ok (mi_super_options m)
   \<and> list_all (\<lambda>f. field_ok f \<and> f \<noteq> ''-'') optional
   \<and> field_ok (mi_filesystem_type m) \<and> field_ok (mi_mount_source m)"

declare unescape_mount_path.simps(2) [simp del]

lemma unescape_octal:
  assumes "octal_digit a" and "octal_digit b" and "octal_digit d" and "octal_value [a, b, d] \<le> 255"
  shows "unescape_mount_path (CHR 0x5C # a # b # d # s)
    = map_sum id ((#) (char_of (octal_value [a, b, d]))) (unescape_mount_path s)"
  using assms by (simp add: unescape_mount_path.simps(2)[of "CHR 0x5C"] Let_def numeral_3_eq_3 split: sum.splits)

lemma unescape_plain: "c \<noteq> CHR 0x5C \<Longrightarrow> unescape_mount_path (c # s) = map_sum id ((#) c) (unescape_mount_path s)"
  by (simp add: unescape_mount_path.simps(2)[of c] split: sum.splits)

lemma octal_digits_nat: "64 * (n div 64) + 8 * (n div 8 mod 8) + n mod 8 = (n :: nat)"
proof -
  have "n div 64 = n div 8 div 8" by (simp add: div_mult2_eq[symmetric])
  then have "64 * (n div 64) + 8 * (n div 8 mod 8) = 8 * (8 * (n div 8 div 8) + n div 8 mod 8)"
    by (simp only: distrib_left mult.assoc[symmetric])
  also have "\<dots> = 8 * (n div 8)" by (simp only: mult_div_mod_eq)
  finally show ?thesis by (simp only: mult_div_mod_eq)
qed

lemma octal_escape_cases:
  assumes "c \<in> {CHR '' '', CHR 0x09, CHR 0x0A, CHR 0x5C, CHR ''#''}"
  obtains a b d where "octal_escape c = [CHR 0x5C, a, b, d]" and "octal_digit a" and "octal_digit b"
    and "octal_digit d" and "octal_value [a, b, d] \<le> 255" and "char_of (octal_value [a, b, d]) = c"
proof -
  let ?n = "of_char c :: nat"
  let ?a = "char_of (48 + ?n div 64) :: char" and ?b = "char_of (48 + ?n div 8 mod 8) :: char"
  let ?d = "char_of (48 + ?n mod 8) :: char"
  have code: "(of_char (char_of (48 + k) :: char) :: int) = 48 + int k" if "k < 8" for k :: nat
  proof -
    have "(of_char (char_of (48 + k) :: char) :: nat) = 48 + k" using that by simp
    then have "int (of_char (char_of (48 + k) :: char)) = 48 + int k" by simp
    then show ?thesis unfolding of_nat_of_char .
  qed
  have n: "?n < 256" using range_nat_of_char by auto
  have a: "(of_char ?a :: int) = 48 + int (?n div 64)" by (rule code, rule less_mult_imp_div_less, rule less_trans[OF n]) simp
  have b: "(of_char ?b :: int) = 48 + int (?n div 8 mod 8)" by (rule code) simp
  have d: "(of_char ?d :: int) = 48 + int (?n mod 8)" by (rule code) simp
  have "int (64 * (?n div 64) + 8 * (?n div 8 mod 8) + ?n mod 8) = int ?n"
    by (rule arg_cong) (rule octal_digits_nat)
  then have v: "octal_value [?a, ?b, ?d] = int ?n" by (simp add: octal_value_def a b d)
  show thesis
  proof (rule that[of ?a ?b ?d])
    show "octal_escape c = [CHR 0x5C, ?a, ?b, ?d]" by (simp add: octal_escape_def Let_def)
    have "?n div 64 < 8" by (rule less_mult_imp_div_less, rule less_trans[OF n]) simp
    then show "octal_digit ?a" "octal_digit ?b" "octal_digit ?d" by (simp_all add: octal_digit_def a b d)
    show "octal_value [?a, ?b, ?d] \<le> 255" unfolding v using n by linarith
    have "char_of (octal_value [?a, ?b, ?d]) = char_of (of_char c :: int)" unfolding v of_nat_of_char ..
    then show "char_of (octal_value [?a, ?b, ?d]) = c" by simp
  qed
qed

lemma unescape_escape_byte:
  "unescape_mount_path (escape_byte c @ s) = map_sum id ((#) c) (unescape_mount_path s)"
proof (cases "c \<in> {CHR '' '', CHR 0x09, CHR 0x0A, CHR 0x5C, CHR ''#''}")
  case True
  from octal_escape_cases[OF this] obtain a b d where "octal_escape c = [CHR 0x5C, a, b, d]"
    and "octal_digit a" "octal_digit b" "octal_digit d" "octal_value [a, b, d] \<le> 255"
    and "char_of (octal_value [a, b, d]) = c" by metis
  then show ?thesis using True unescape_octal[of a b d s] by (simp add: escape_byte_def)
next
  case False
  then have "c \<noteq> CHR 0x5C" by blast
  from unescape_plain[OF this] False show ?thesis
    by (simp add: escape_byte_def)
qed

lemma unescape_escape: "unescape_mount_path (escape_mount_path p) = Inr p"
  by (induction p) (simp_all add: escape_mount_path_def unescape_escape_byte)

lemma escape_byte_plain: "x \<in> set (escape_byte c) \<Longrightarrow> c \<notin> {CHR 0x0B, CHR 0x0C, CHR 0x0D} \<Longrightarrow> \<not> is_space x"
proof (cases "c \<in> {CHR '' '', CHR 0x09, CHR 0x0A, CHR 0x5C, CHR ''#''}")
  case True
  assume x: "x \<in> set (escape_byte c)"
  from octal_escape_cases[OF True] obtain a b d where e: "octal_escape c = [CHR 0x5C, a, b, d]"
    and d: "octal_digit a" "octal_digit b" "octal_digit d" by metis
  have "octal_digit y \<Longrightarrow> \<not> is_space y" for y by (auto simp: octal_digit_def is_space_def)
  with x e d True show ?thesis by (auto simp: escape_byte_def is_space_def)
next
  case False
  assume "x \<in> set (escape_byte c)" "c \<notin> {CHR 0x0B, CHR 0x0C, CHR 0x0D}"
  with False show ?thesis by (auto simp: escape_byte_def is_space_def)
qed

lemma field_ok_escape: "raw_path_ok p \<Longrightarrow> field_ok (escape_mount_path p) \<and> escape_mount_path p \<noteq> ''-''"
proof -
  assume p: "raw_path_ok p"
  then obtain t where t: "p = slash # t" by (auto simp: raw_path_ok_def startswith_iff)
  have "\<not> is_space x" if x: "x \<in> set (escape_mount_path p)" for x
  proof -
    from x obtain c where "c \<in> set p" "x \<in> set (escape_byte c)" by (auto simp: escape_mount_path_def)
    with p show ?thesis using escape_byte_plain by (auto simp: raw_path_ok_def list_all_iff)
  qed
  moreover have "escape_mount_path p = slash # escape_mount_path t" by (simp add: t escape_mount_path_def escape_byte_def)
  ultimately show ?thesis by (simp add: field_ok_def list_all_iff)
qed

lemma csv_ok_field:
  assumes "csv_ok opts"
  shows "field_ok (join_str '','' opts)" and "join_str '','' opts \<noteq> ''-''"
    and "split_csv_bytes (join_str '','' opts) = opts"
proof -
  have spaces: "\<forall>f\<in>set fs. list_all (\<lambda>c. \<not> is_space c) f \<Longrightarrow> list_all (\<lambda>c. \<not> is_space c) (join_str '','' fs)" for fs
    by (induction fs rule: induct_list012) (auto simp: is_space_def)
  from assms have o: "opts \<noteq> []" "\<forall>f\<in>set opts. field_ok f" "\<forall>f\<in>set opts. CHR '','' \<notin> set f" "opts \<noteq> [''-'']"
    by (auto simp: csv_ok_def list_all_iff)
  show "field_ok (join_str '','' opts)"
  proof -
    obtain f fs where f: "opts = f # fs" using o(1) by (cases opts) auto
    then have "join_str '','' opts \<noteq> []" using o(2) by (cases fs) (auto simp: field_ok_def)
    moreover have "\<forall>f\<in>set opts. list_all (\<lambda>c. \<not> is_space c) f" using o(2) by (simp add: field_ok_def)
    ultimately show ?thesis using spaces by (simp add: field_ok_def)
  qed
  show "split_csv_bytes (join_str '','' opts) = opts"
    using o split_char_join_str[of opts "CHR '',''"] by (auto simp: split_csv_bytes_def field_ok_def intro!: filter_True)
  then show "join_str '','' opts \<noteq> ''-''"
    using o(4) by (auto simp: split_csv_bytes_def split: if_splits)
qed

lemma partition_bytes_skip:
  "list_all (\<lambda>c. \<not> is_space c) f \<Longrightarrow>
     partition_bytes '' - '' (f @ s) = map_option (\<lambda>(l, r). (f @ l, r)) (partition_bytes '' - '' s)"
proof (induction f)
  case Nil
  then show ?case by (cases "partition_bytes '' - '' s") auto
next
  case (Cons c f)
  then have "\<not> startswith (c # f @ s) '' - ''" by (auto simp: startswith_def is_space_def)
  with Cons show ?case by (cases "partition_bytes '' - '' s") auto
qed

lemma partition_bytes_fields:
  assumes "fs \<noteq> []" and "list_all (\<lambda>f. field_ok f \<and> f \<noteq> ''-'') fs"
  shows "partition_bytes '' - '' (join_str '' '' fs @ '' - '' @ r) = Some (join_str '' '' fs, r)"
  using assms
proof (induction fs rule: induct_list012)
  case 1
  then show ?case by simp
next
  case (2 f)
  then show ?case using partition_bytes_skip[of f "'' - '' @ r"] by (simp add: field_ok_def startswith_def)
next
  case (3 f g fs)
  let ?rest = "join_str '' '' (g # fs) @ '' - '' @ r"
  obtain s where s: "?rest = g @ s" "s = [] \<or> hd s = CHR '' ''" by (cases fs) auto
  have "\<not> startswith (CHR '' '' # ?rest) '' - ''"
  proof
    assume "startswith (CHR '' '' # ?rest) '' - ''"
    then have "take 2 (g @ s) = ''- ''" unfolding s(1) by (simp add: startswith_def numeral_2_eq_2 numeral_3_eq_3)
    with 3 show False by (cases g; cases "tl g") (auto simp: field_ok_def is_space_def)
  qed
  then have "partition_bytes '' - '' (CHR '' '' # ?rest) = map_option (\<lambda>(l, r). (CHR '' '' # l, r)) (partition_bytes '' - '' ?rest)"
    by simp
  also have "partition_bytes '' - '' ?rest = Some (join_str '' '' (g # fs), r)" using 3 by simp
  finally have "partition_bytes '' - '' (CHR '' '' # ?rest) = Some (CHR '' '' # join_str '' '' (g # fs), r)" by simp
  then show ?case using 3 partition_bytes_skip[of f "CHR '' '' # ?rest"] by (simp add: field_ok_def)
qed

lemma mount_fields_ok:
  assumes "mount_row_ok m optional"
  shows "list_all (\<lambda>f. field_ok f \<and> f \<noteq> ''-'') (mount_line_fields m optional)"
proof -
  have "int_str i \<noteq> ''-''" for i using parse_int_int_str[of i] by (auto simp: parse_int_def strip_def is_space_def)
  then show ?thesis
    using assms csv_ok_field[of "mi_options m"] field_ok_escape field_ok_int_str
    by (auto simp: mount_line_fields_def mount_row_ok_def)
qed

lemma parse_mount_line_row:
  assumes "mount_row_ok m optional"
  shows "parse_mount_line (mount_line m optional) = Inr m"
proof -
  let ?r = "[mi_filesystem_type m, mi_mount_source m, join_str '','' (mi_super_options m)]"
  have l: "list_all (\<lambda>f. field_ok f \<and> f \<noteq> ''-'') (mount_line_fields m optional)" by (rule mount_fields_ok[OF assms])
  have r: "split_ws (join_str '' '' ?r) = ?r"
    by (rule split_ws_join) (use assms csv_ok_field[of "mi_super_options m"] in \<open>simp add: mount_row_ok_def\<close>)
  have part: "partition_bytes '' - '' (mount_line m optional) = Some (join_str '' '' (mount_line_fields m optional), join_str '' '' ?r)"
    unfolding mount_line_def by (rule partition_bytes_fields) (use l in \<open>simp_all add: mount_line_fields_def\<close>)
  have f: "split_ws (join_str '' '' (mount_line_fields m optional)) = mount_line_fields m optional"
    using l by (intro split_ws_join) (auto simp: list_all_iff)
  have csv: "split_csv_bytes (join_str '','' (mi_options m)) = mi_options m"
    "split_csv_bytes (join_str '','' (mi_super_options m)) = mi_super_options m"
    using assms by (simp_all add: mount_row_ok_def csv_ok_field)
  show ?thesis
    unfolding parse_mount_line_def part option.case prod.case f r
    by (simp add: mount_line_fields_def mount_int_def unescape_escape csv Let_def)
qed

lemma mount_line_one_line:
  assumes "mount_row_ok m optional"
  shows "CHR 0x0A \<notin> set (mount_line m optional) \<and> CHR 0x0D \<notin> set (mount_line m optional)
    \<and> strip (mount_line m optional) = mount_line m optional \<and> mount_line m optional \<noteq> []"
proof -
  let ?r = "[mi_filesystem_type m, mi_mount_source m, join_str '','' (mi_super_options m)]"
  let ?l = "mount_line_fields m optional"
  have l: "list_all field_ok ?l" using mount_fields_ok[OF assms] by (auto simp: list_all_iff)
  have r: "list_all field_ok ?r"
    using assms csv_ok_field(1)[of "mi_super_options m"] by (simp add: mount_row_ok_def)
  have chars: "set (join_str '' '' fs) \<subseteq> {c. \<not> is_space c} \<union> {CHR '' ''}" if "list_all field_ok fs" for fs
    using that by (induction fs rule: induct_list012) (auto simp: field_ok_def list_all_iff)
  have nl: "CHR 0x0A \<notin> set (mount_line m optional)" "CHR 0x0D \<notin> set (mount_line m optional)"
    using chars[OF l] chars[OF r] by (auto simp: mount_line_def is_space_def)
  have "mount_line m optional = int_str (mi_mount_id m) @ CHR '' '' # join_str '' '' (tl ?l) @ '' - '' @ join_str '' '' ?r"
    by (simp add: mount_line_def mount_line_fields_def)
  moreover have "field_ok (int_str (mi_mount_id m))" by (rule field_ok_int_str)
  ultimately have h: "mount_line m optional \<noteq> []" "\<not> is_space (hd (mount_line m optional))"
    by (auto simp: field_ok_def list_all_iff)
  have "mount_line m optional = (join_str '' '' ?l @ '' - '' @ mi_filesystem_type m @ '' '' @ mi_mount_source m @ '' '')
      @ join_str '','' (mi_super_options m)"
    by (simp add: mount_line_def)
  moreover have "field_ok (join_str '','' (mi_super_options m))" using r by simp
  ultimately have "\<not> is_space (last (mount_line m optional))"
    unfolding field_ok_def list_all_iff by (metis last_appendR last_in_set)
  then show ?thesis using nl h by (simp add: strip_id)
qed

subsection \<open>Properties\<close>

text \<open>
  C22: for an absolute path, \<open>find_mount_for_path\<close> returns a mount exactly when that mount covers the
  path, no covering mount of the table has a longer mount point, and it is the first listed
  of its mount point.
\<close>

theorem find_mount_correct:
  assumes "absolute p"
  shows "find_mount_for_path p ms = Some m \<longleftrightarrow>
      mount_covers p (mount_key m)
    \<and> (\<forall>m'\<in>set ms. mount_covers p (mount_key m') \<longrightarrow> length (mount_key m') \<le> length (mount_key m))
    \<and> (\<exists>xs ys. ms = xs @ m # ys \<and> (\<forall>x\<in>set xs. mount_key x \<noteq> mount_key m))"
  using scan_mounts.lookup_iff[OF assms] unfolding scan_mounts.deepest_def .

definition sample_mount :: "int \<Rightarrow> bytes \<Rightarrow> string \<Rightarrow> mount_info" where
  "sample_mount i p t =
     \<lparr> mi_mount_id = i, mi_parent_id = 0, mi_major_minor = ''8:1'', mi_root = root_dir, mi_mount_point = p,
       mi_options = [''rw''], mi_filesystem_type = t, mi_mount_source = ''/dev/sda1'', mi_super_options = [''rw''] \<rparr>"

lemma find_mount_correct_witness:
  "mount_covers ''/srv/data'' (mount_key (sample_mount 2 ''/srv'' ''ext4''))"
proof -
  have "find_mount_for_path ''/srv/data'' [sample_mount 1 root_dir ''ext4'', sample_mount 2 ''/srv'' ''ext4'']
      = Some (sample_mount 2 ''/srv'' ''ext4'')"
    by code_simp
  moreover have "absolute ''/srv/data''" by (simp add: startswith_def)
  ultimately show ?thesis using find_mount_correct[of "''/srv/data''"] by blast
qed

text \<open>
  The mount table round trip.  A table whose rows the kernel wrote (paths escaped, optional
  fields before the separator) is parsed back to exactly the mounts it was written from.
\<close>

theorem parse_mountinfo_rows:
  assumes "\<forall>(m, optional)\<in>set rows. mount_row_ok m optional"
  shows "parse_mountinfo (concat (map (\<lambda>(m, optional). mount_line m optional @ [CHR 0x0A]) rows)) = Inr (map fst rows)"
proof -
  let ?ls = "map (\<lambda>(m, optional). mount_line m optional) rows"
  have lines: "\<forall>l\<in>set ?ls. CHR 0x0A \<notin> set l \<and> CHR 0x0D \<notin> set l \<and> strip l = l \<and> l \<noteq> []"
    using assms mount_line_one_line by fastforce
  have nl: "map (\<lambda>(m, optional). mount_line m optional @ [CHR 0x0A]) rows = map (\<lambda>l. l @ [CHR 0x0A]) ?ls" by auto
  have split: "splitlines (concat (map (\<lambda>(m, optional). mount_line m optional @ [CHR 0x0A]) rows)) = ?ls"
    unfolding nl by (rule splitlines_lines) (use lines in blast)
  have strip: "map strip ?ls = ?ls" using lines by (intro map_idI) blast
  have filter: "filter (\<lambda>l. l \<noteq> []) ?ls = ?ls" using lines by (intro filter_True) blast
  have parse: "map_err parse_mount_line ?ls = Inr (map fst rows)"
    unfolding map_err_Inr list_all2_conv_all_nth using assms parse_mount_line_row by (auto simp: all_set_conv_all_nth)
  show ?thesis
    unfolding parse_mountinfo_def parse_mountinfo_lines_def split strip filter by (rule parse)
qed

lemma parse_mountinfo_rows_witness:
  "parse_mountinfo (mount_line (sample_mount 7 ''/my disk'' ''ext4'') [''shared:1''] @ [CHR 0x0A])
     = Inr [sample_mount 7 ''/my disk'' ''ext4'']"
proof -
  have "mount_row_ok (sample_mount 7 ''/my disk'' ''ext4'') [''shared:1'']" by code_simp
  then show ?thesis using parse_mountinfo_rows[of "[(sample_mount 7 ''/my disk'' ''ext4'', [''shared:1''])]"] by simp
qed

text \<open>
  A mount point whose name holds a carriage return, which the kernel writes unescaped, makes the
  parser reject the whole table: \<open>splitlines\<close> breaks the row in two.
\<close>

theorem carriage_return_rejects_table:
  "\<exists>l. parse_mountinfo (mount_line (sample_mount 7 (''/a'' @ [CHR 0x0D] @ ''b'') ''ext4'') [] @ [CHR 0x0A])
       = Inl (Missing_separator l)"
proof -
  have "parse_mountinfo (mount_line (sample_mount 7 (''/a'' @ [CHR 0x0D] @ ''b'') ''ext4'') [] @ [CHR 0x0A])
       = Inl (Missing_separator ''7 0 8:1 / /a'')"
    by code_simp
  then show ?thesis by blast
qed

end
