(* ===== verification/Classify.thy ===== *)
theory Classify
  imports Models
begin

text \<open>
  \<open>collect/classify.py\<close>: which mounts a scan enters.  \<open>classify_mount\<close> is the decision with
  its five early returns in the source's order; the reason texts are the source's.
\<close>

definition DEFAULT_SKIPPED_FILESYSTEMS :: "string set" where
  "DEFAULT_SKIPPED_FILESYSTEMS =
     {''proc'', ''sysfs'', ''devtmpfs'', ''devpts'', ''tmpfs'', ''cgroup2'', ''pstore'', ''securityfs'',
      ''debugfs'', ''tracefs'', ''configfs'', ''fusectl'', ''nsfs''}"

definition is_default_virtual_filesystem :: "string option \<Rightarrow> bool" where
  "is_default_virtual_filesystem filesystem_type =
     (case filesystem_type of None \<Rightarrow> False | Some t \<Rightarrow> t \<in> DEFAULT_SKIPPED_FILESYSTEMS)"

definition mount_verdict :: "bool \<Rightarrow> string \<Rightarrow> mount_info \<Rightarrow> mount_decision" where
  "mount_verdict include reason mount =
     \<lparr> md_include = include, md_reason = reason, md_filesystem_type = Some (mi_filesystem_type mount),
       md_mount_id = Some (mi_mount_id mount), md_device_changed = False \<rparr>"

definition classify_mount :: "mount_info option \<Rightarrow> mount_policy option \<Rightarrow> mount_decision" where
  "classify_mount mount_opt policy =
     (case mount_opt of
        None \<Rightarrow> \<lparr> md_include = True, md_reason = ''no mount classification available'',
                 md_filesystem_type = None, md_mount_id = None, md_device_changed = False \<rparr>
      | Some mount \<Rightarrow>
          (let resolved_policy = (case policy of None \<Rightarrow> default_mount_policy | Some p \<Rightarrow> p);
               filesystem_type = mi_filesystem_type mount;
               skipped_filesystems = DEFAULT_SKIPPED_FILESYSTEMS \<union> mp_skipped_filesystems resolved_policy
           in if filesystem_type \<in> mp_included_filesystems resolved_policy
              then mount_verdict True (filesystem_type @ '' explicitly included by configuration'') mount
              else if mp_skip_overlay resolved_policy \<and> filesystem_type = ''overlay''
              then mount_verdict False ''overlay mount skipped by default'' mount
              else if mp_skip_namespace resolved_policy \<and> filesystem_type = ''nsfs''
              then mount_verdict False ''nsfs mount skipped by default'' mount
              else if filesystem_type \<in> skipped_filesystems
              then mount_verdict False (filesystem_type @ '' skipped by default mount policy'') mount
              else mount_verdict True (filesystem_type @ '' included'') mount))"

lemma classify_mount_None [simp]: "md_include (classify_mount None policy)"
  by (simp add: classify_mount_def)

lemma classify_mount_default: "classify_mount m None = classify_mount m (Some default_mount_policy)"
  by (simp add: classify_mount_def split: option.splits)

lemma classify_mount_fields:
  "md_filesystem_type (classify_mount m policy) = map_option mi_filesystem_type m"
  "md_mount_id (classify_mount m policy) = map_option mi_mount_id m"
  "\<not> md_device_changed (classify_mount m policy)"
  by (auto simp: classify_mount_def mount_verdict_def Let_def split: option.splits)

subsection \<open>Properties\<close>

text \<open>
  A classified mount is entered exactly when its type is listed as included, or it is neither a
  skipped overlay nor a skipped type (the built-in ones and the configured ones).
\<close>

theorem classify_mount_include:
  "md_include (classify_mount (Some mount) (Some p)) \<longleftrightarrow>
     mi_filesystem_type mount \<in> mp_included_filesystems p
   \<or> (\<not> (mp_skip_overlay p \<and> mi_filesystem_type mount = ''overlay'')
      \<and> mi_filesystem_type mount \<notin> DEFAULT_SKIPPED_FILESYSTEMS
      \<and> mi_filesystem_type mount \<notin> mp_skipped_filesystems p)"
proof -
  have "''nsfs'' \<in> DEFAULT_SKIPPED_FILESYSTEMS" by (simp add: DEFAULT_SKIPPED_FILESYSTEMS_def)
  then show ?thesis by (auto simp: classify_mount_def mount_verdict_def Let_def)
qed

text \<open>
  The switch \<open>skip_namespace\<close> never changes which mounts are entered: the namespace file
  system is a built-in skipped type, so turning the switch off does not enter it.
\<close>

theorem skip_namespace_has_no_effect:
  "md_include (classify_mount m (Some (p\<lparr> mp_skip_namespace := b \<rparr>))) = md_include (classify_mount m (Some p))"
proof -
  have "''nsfs'' \<in> DEFAULT_SKIPPED_FILESYSTEMS" by (simp add: DEFAULT_SKIPPED_FILESYSTEMS_def)
  then show ?thesis by (cases m) (auto simp: classify_mount_def mount_verdict_def Let_def)
qed

end
