(* ===== verification/Filesystems.thy ===== *)
theory Filesystems
  imports Mounts Classify
begin

text \<open>
  \<open>collect/filesystems.py\<close>: the file-system usage rows stored with a snapshot.  The answer of
  \<open>os.statvfs\<close> is an argument: the error text of an \<open>OSError\<close>, or the fields used.
\<close>

record statvfs_result =
  f_bsize :: int
  f_frsize :: int
  f_blocks :: int
  f_bfree :: int
  f_bavail :: int

type_synonym statvfs_call = "bytes \<Rightarrow> string + statvfs_result"

definition normalize_path :: "bytes \<Rightarrow> bytes" where
  "normalize_path path_raw = (let n = rstrip_char slash path_raw in if n \<noteq> [] then n else root_dir)"

definition mount_is_in_scope :: "mount_info \<Rightarrow> mount_info option \<Rightarrow> bytes \<Rightarrow> bytes \<Rightarrow> bool" where
  "mount_is_in_scope mount root_mount mount_point root_raw =
     (if root_raw = root_dir then True
      else if (case root_mount of None \<Rightarrow> False | Some r \<Rightarrow> mi_mount_id mount = mi_mount_id r) then True
      else mount_point = root_raw \<or> startswith mount_point (root_raw @ root_dir))"

definition filesystem_usage_row :: "statvfs_call \<Rightarrow> int \<Rightarrow> mount_info \<Rightarrow> snapshot_filesystem_usage" where
  "filesystem_usage_row statvfs snapshot_id mount =
     (let row = (\<lambda>total used free avail err.
        \<lparr> fu_snapshot_id = snapshot_id, fu_mount_id = mi_mount_id mount, fu_major_minor = mi_major_minor mount,
          fu_root = mi_root mount, fu_mount_point = mi_mount_point mount,
          fu_filesystem_type = mi_filesystem_type mount, fu_mount_source = mi_mount_source mount,
          fu_total_bytes = total, fu_used_bytes = used, fu_free_bytes = free, fu_available_bytes = avail,
          fu_capture_error = err \<rparr>)
      in case statvfs (mi_mount_point mount) of
           Inl exc \<Rightarrow> row None None None None (Some exc)
         | Inr st \<Rightarrow>
             (let block_size = (if f_frsize st \<noteq> 0 then f_frsize st else f_bsize st);
                  total_bytes = f_blocks st * block_size;
                  free_bytes = f_bfree st * block_size
              in row (Some total_bytes) (Some (total_bytes - free_bytes)) (Some free_bytes)
                   (Some (f_bavail st * block_size)) None))"

text \<open>One turn of the loop over the mounts; the state is \<open>seen_mount_points\<close> and the rows.\<close>

definition usage_step ::
    "statvfs_call \<Rightarrow> int \<Rightarrow> bytes \<Rightarrow> mount_info option \<Rightarrow> mount_policy option
     \<Rightarrow> bytes set \<times> snapshot_filesystem_usage list \<Rightarrow> mount_info
     \<Rightarrow> bytes set \<times> snapshot_filesystem_usage list" where
  "usage_step statvfs snapshot_id root_raw root_mount mount_policy = (\<lambda>(seen, rows) mount.
     (let mount_point = normalize_path (mi_mount_point mount) in
      if mount_point \<in> seen then (seen, rows)
      else if \<not> mount_is_in_scope mount root_mount mount_point root_raw then (seen, rows)
      else if \<not> md_include (classify_mount (Some mount) mount_policy) then (seen, rows)
      else (insert mount_point seen, rows @ [filesystem_usage_row statvfs snapshot_id mount])))"

definition collect_snapshot_filesystem_usage ::
    "statvfs_call \<Rightarrow> int \<Rightarrow> pathname \<Rightarrow> mount_info list \<Rightarrow> mount_policy option \<Rightarrow> snapshot_filesystem_usage list" where
  "collect_snapshot_filesystem_usage statvfs snapshot_id root_path mounts mount_policy =
     (let root_raw = normalize_path root_path;
          root_mount = find_mount_for_path root_raw mounts
      in snd (foldl (usage_step statvfs snapshot_id root_raw root_mount mount_policy) ({}, []) mounts))"

lemma normalize_path_eq: "normalize_path = normalize_mount_point"
  by (rule ext) (simp add: normalize_path_def normalize_mount_point_def)

text \<open>The mounts a snapshot of the root reports on, before repeated mount points are dropped.\<close>

definition reported_mount :: "pathname \<Rightarrow> mount_info list \<Rightarrow> mount_policy option \<Rightarrow> mount_info \<Rightarrow> bool" where
  "reported_mount root_path mounts mount_policy mount \<longleftrightarrow>
     mount_is_in_scope mount (find_mount_for_path (normalize_path root_path) mounts)
       (normalize_path (mi_mount_point mount)) (normalize_path root_path)
   \<and> md_include (classify_mount (Some mount) mount_policy)"

lemma usage_foldl:
  "foldl (usage_step statvfs sid root_raw root_mount pol) (set seen, rows) ms
   = (set seen \<union> (\<lambda>m. normalize_path (mi_mount_point m)) ` set (filter (\<lambda>m. mount_is_in_scope m root_mount
          (normalize_path (mi_mount_point m)) root_raw \<and> md_include (classify_mount (Some m) pol)) ms),
      rows @ map (filesystem_usage_row statvfs sid)
        (dedupe_aux (\<lambda>m. normalize_path (mi_mount_point m)) seen
          (filter (\<lambda>m. mount_is_in_scope m root_mount (normalize_path (mi_mount_point m)) root_raw
             \<and> md_include (classify_mount (Some m) pol)) ms)))"
proof (induction ms arbitrary: seen rows)
  case Nil
  then show ?case by simp
next
  case (Cons m ms)
  let ?p = "normalize_path (mi_mount_point m)"
  show ?case
  proof (cases "?p \<notin> set seen \<and> mount_is_in_scope m root_mount ?p root_raw \<and> md_include (classify_mount (Some m) pol)")
    case True
    then have "usage_step statvfs sid root_raw root_mount pol (set seen, rows) m
        = (set (?p # seen), rows @ [filesystem_usage_row statvfs sid m])"
      by (simp add: usage_step_def Let_def)
    with Cons.IH[of "?p # seen" "rows @ [filesystem_usage_row statvfs sid m]"] True show ?thesis by simp
  next
    case False
    then have "usage_step statvfs sid root_raw root_mount pol (set seen, rows) m = (set seen, rows)"
      by (auto simp: usage_step_def Let_def)
    with Cons.IH[of seen rows] False show ?thesis by auto
  qed
qed

lemma collect_usage_eq:
  "collect_snapshot_filesystem_usage statvfs sid root_path mounts pol
   = map (filesystem_usage_row statvfs sid)
       (dedupe_on (\<lambda>m. normalize_path (mi_mount_point m)) (filter (reported_mount root_path mounts pol) mounts))"
  using usage_foldl[of statvfs sid "normalize_path root_path" "find_mount_for_path (normalize_path root_path) mounts" pol "[]" "[]" mounts]
  by (simp add: collect_snapshot_filesystem_usage_def Let_def dedupe_on_def reported_mount_def[abs_def])

lemma usage_row_point [simp]: "fu_mount_point (filesystem_usage_row statvfs sid m) = mi_mount_point m"
  by (simp add: filesystem_usage_row_def Let_def split: sum.splits)

subsection \<open>Properties\<close>

text \<open>
  The rows of a snapshot are distinct by mount point, and the mount points they cover are exactly
  those of the mounts that are in the root's scope and that the policy includes.
\<close>

theorem usage_rows_cover_scope:
  "distinct (map (\<lambda>r. normalize_path (fu_mount_point r)) (collect_snapshot_filesystem_usage statvfs sid root_path mounts pol))
   \<and> (\<lambda>r. normalize_path (fu_mount_point r)) ` set (collect_snapshot_filesystem_usage statvfs sid root_path mounts pol)
     = (\<lambda>m. normalize_path (mi_mount_point m)) ` {m \<in> set mounts. reported_mount root_path mounts pol m}"
proof -
  let ?key = "\<lambda>m. normalize_path (mi_mount_point m)"
  let ?ms = "filter (reported_mount root_path mounts pol) mounts"
  have "map (\<lambda>r. normalize_path (fu_mount_point r)) (collect_snapshot_filesystem_usage statvfs sid root_path mounts pol)
      = map ?key (dedupe_on ?key ?ms)"
    by (simp add: collect_usage_eq comp_def)
  moreover have "(\<lambda>r. normalize_path (fu_mount_point r)) ` set (collect_snapshot_filesystem_usage statvfs sid root_path mounts pol)
      = ?key ` set (dedupe_on ?key ?ms)"
    by (simp add: collect_usage_eq image_comp comp_def)
  ultimately show ?thesis
    using dedupe_on_distinct[of ?key ?ms] dedupe_on_image[of ?key ?ms] by simp
qed

text \<open>
  Every row carries the snapshot's id, and either a capture error and no figure, or figures with
  used and free bytes adding up to the total.
\<close>

theorem usage_row_accounting:
  assumes "r \<in> set (collect_snapshot_filesystem_usage statvfs sid root_path mounts pol)"
  shows "fu_snapshot_id r = sid \<and>
     ((fu_capture_error r \<noteq> None \<and> fu_total_bytes r = None \<and> fu_used_bytes r = None
       \<and> fu_free_bytes r = None \<and> fu_available_bytes r = None)
    \<or> (\<exists>total used free. fu_capture_error r = None \<and> fu_total_bytes r = Some total \<and> fu_used_bytes r = Some used
       \<and> fu_free_bytes r = Some free \<and> used + free = total))"
proof -
  from assms obtain m where "r = filesystem_usage_row statvfs sid m" by (auto simp: collect_usage_eq)
  then show ?thesis by (auto simp: filesystem_usage_row_def Let_def split: sum.splits)
qed

lemma usage_row_accounting_witness:
  "fu_used_bytes (filesystem_usage_row
     (\<lambda>p. Inr \<lparr> f_bsize = 4096, f_frsize = 0, f_blocks = 10, f_bfree = 4, f_bavail = 3 \<rparr>) 5 (sample_mount 2 ''/srv'' ''ext4''))
   = Some 24576"
proof -
  let ?call = "\<lambda>p. Inr \<lparr> f_bsize = 4096, f_frsize = 0, f_blocks = 10, f_bfree = 4, f_bavail = 3 \<rparr>"
  have rows: "collect_snapshot_filesystem_usage ?call 5 ''/srv'' [sample_mount 2 ''/srv'' ''ext4''] None
      = [filesystem_usage_row ?call 5 (sample_mount 2 ''/srv'' ''ext4'')]"
    by code_simp
  have "fu_free_bytes (filesystem_usage_row ?call 5 (sample_mount 2 ''/srv'' ''ext4'')) = Some 16384"
    "fu_total_bytes (filesystem_usage_row ?call 5 (sample_mount 2 ''/srv'' ''ext4'')) = Some 40960"
    by (simp_all add: filesystem_usage_row_def)
  then show ?thesis
    using usage_row_accounting[of "filesystem_usage_row ?call 5 (sample_mount 2 ''/srv'' ''ext4'')" "?call" 5 "''/srv''"
        "[sample_mount 2 ''/srv'' ''ext4'']" None]
    unfolding rows by auto
qed

end
