(* ===== verification/Scanner.thy ===== *)
theory Scanner
  imports Mounts Classify "HOL-Library.While_Combinator"
begin

unbundle bit_operations_syntax

text \<open>
  \<open>collect/scanner.py\<close>: the iterative directory scan.  The file system is the argument \<open>env\<close>, one
  function per operating-system call, so each call answers from its path (a scan asks about a
  path at most once); a failed call is \<open>Inl\<close> of an \<open>os_error\<close>.  \<open>scan_state\<close> is \<open>_ScanState\<close> with
  the stack top first; \<open>scan_step\<close> is one turn of the loop of \<open>_scan_stack\<close>, and the loop is
  \<open>while_option\<close>, whose value is \<open>None\<close> when the loop does not end.
\<close>

subsection \<open>Answers of the operating system\<close>

record stat_result =
  st_mode :: int
  st_ino :: int
  st_dev :: int
  st_nlink :: int
  st_size :: int
  st_blocks :: int

definition S_IFMT :: "int \<Rightarrow> int" where
  "S_IFMT mode = mode AND 61440"

definition S_ISDIR :: "int \<Rightarrow> bool" where
  "S_ISDIR mode \<longleftrightarrow> S_IFMT mode = 16384"

definition S_ISREG :: "int \<Rightarrow> bool" where
  "S_ISREG mode \<longleftrightarrow> S_IFMT mode = 32768"

definition S_ISLNK :: "int \<Rightarrow> bool" where
  "S_ISLNK mode \<longleftrightarrow> S_IFMT mode = 40960"

text \<open>An \<open>OSError\<close>: its class, its \<open>strerror\<close> and its text \<open>str(error)\<close>.\<close>

datatype os_error_class =
    PermissionError
  | FileNotFoundError
  | NotADirectoryError
  | OtherOSError string

record os_error =
  oe_class :: os_error_class
  oe_strerror :: "string option"
  oe_text :: string

record dir_entry =
  de_path :: bytes
  de_stat :: "os_error + stat_result"
  de_is_dir :: "os_error + bool"

record scan_env =
  env_stat :: "bytes \<Rightarrow> os_error + stat_result"
  env_scandir :: "bytes \<Rightarrow> os_error + dir_entry list"
  env_is_symlink :: "pathname \<Rightarrow> bool"
  env_expanduser :: "pathname \<Rightarrow> pathname"
  env_absolute :: "pathname \<Rightarrow> pathname"
  env_resolve :: "pathname \<Rightarrow> pathname"

subsection \<open>Frames and state\<close>

type_synonym inode = "int \<times> int"
type_synonym signature = "string \<times> bytes \<times> bytes"

record frame =
  fm_path_raw :: bytes
  fm_parent_path :: "bytes option"
  fm_depth :: int
  fm_initial_stat :: "stat_result option"
  fm_directory_identity :: "inode option"
  fm_mount_id :: "int option"
  fm_mount_signature :: "signature option"
  fm_apparent_bytes :: int
  fm_disk_bytes :: int
  fm_file_count :: int
  fm_dir_count :: int
  fm_error :: "string option"
  fm_hardlink_file_count :: int
  fm_hardlink_duplicate_count :: int
  fm_hardlink_duplicate_disk_bytes :: int
  fm_hardlink_first_seen_disk_bytes :: int
  fm_row_start :: nat
  fm_collapse_reason :: "string option"
  fm_direct_child_dir_count :: int
  fm_top_child_path :: "bytes option"
  fm_top_child_disk_bytes :: "int option"
  fm_folded_evidence_counts :: "(string \<times> int) list"
  fm_entries :: "dir_entry list"
  fm_next_index :: nat
  fm_initialized :: bool

definition new_frame ::
    "bytes \<Rightarrow> bytes option \<Rightarrow> int \<Rightarrow> stat_result option \<Rightarrow> int option \<Rightarrow> signature option \<Rightarrow> frame" where
  "new_frame path_raw parent_path depth initial_stat mount_id mount_signature =
     \<lparr> fm_path_raw = path_raw, fm_parent_path = parent_path, fm_depth = depth, fm_initial_stat = initial_stat,
       fm_directory_identity = None, fm_mount_id = mount_id, fm_mount_signature = mount_signature,
       fm_apparent_bytes = 0, fm_disk_bytes = 0, fm_file_count = 0, fm_dir_count = 0, fm_error = None,
       fm_hardlink_file_count = 0, fm_hardlink_duplicate_count = 0, fm_hardlink_duplicate_disk_bytes = 0,
       fm_hardlink_first_seen_disk_bytes = 0, fm_row_start = 0, fm_collapse_reason = None,
       fm_direct_child_dir_count = 0, fm_top_child_path = None, fm_top_child_disk_bytes = None,
       fm_folded_evidence_counts = [], fm_entries = [], fm_next_index = 0, fm_initialized = False \<rparr>"

record scan_setup =
  su_root_path :: pathname
  su_root_raw :: bytes
  su_exclude_paths :: "bytes list"
  su_mounts :: "mount_info list"
  su_mount_policy :: mount_policy
  su_collapse_policy :: "collapse_policy option"
  su_collapse_never_paths :: "bytes list"
  su_record_skipped :: bool
  su_hardlink_dedup_max_entries :: int
  su_root_stat :: stat_result
  su_root_mount :: "mount_info option"

record scan_state =
  sx_setup :: scan_setup
  sx_rows :: "directory_aggregate list"
  sx_errors :: "scan_error list"
  sx_seen_inodes :: "inode set"
  sx_stack :: "frame list"
  sx_had_failure :: bool
  sx_hardlink_count :: int
  sx_root_device :: "int option"
  sx_fatal_result :: "scan_result option"

record descend_context =
  dx_root_device :: int
  dx_mount_policy :: mount_policy
  dx_current_mount_id :: "int option"
  dx_current_mount_signature :: "signature option"
  dx_active_mount_ids :: "int set"
  dx_active_mount_signatures :: "signature set"
  dx_active_directory_keys :: "inode set"

record entry_disk_usage =
  eu_disk_bytes :: int
  eu_hardlink_file_count :: int
  eu_hardlink_duplicate_count :: int
  eu_hardlink_duplicate_disk_bytes :: int
  eu_hardlink_first_seen_disk_bytes :: int

subsection \<open>Stat helpers and errors\<close>

definition disk_bytes_from_stat :: "stat_result \<Rightarrow> int" where
  "disk_bytes_from_stat s = (if S_ISREG (st_mode s) \<or> S_ISLNK (st_mode s) then st_blocks s * 512 else 0)"

definition apparent_bytes_from_stat :: "stat_result \<Rightarrow> int" where
  "apparent_bytes_from_stat s = (if S_ISREG (st_mode s) \<or> S_ISLNK (st_mode s) then st_size s else 0)"

definition inode_key :: "stat_result \<Rightarrow> inode" where
  "inode_key s = (st_dev s, st_ino s)"

definition error_kind :: "os_error \<Rightarrow> string" where
  "error_kind e =
     (case oe_class e of
        PermissionError \<Rightarrow> ''permission_denied''
      | FileNotFoundError \<Rightarrow> ''missing_path''
      | NotADirectoryError \<Rightarrow> ''not_a_directory''
      | OtherOSError _ \<Rightarrow> ''os_error'')"

fun class_name :: "os_error_class \<Rightarrow> string" where
  "class_name PermissionError = ''PermissionError''"
| "class_name FileNotFoundError = ''FileNotFoundError''"
| "class_name NotADirectoryError = ''NotADirectoryError''"
| "class_name (OtherOSError name) = name"

definition format_os_error :: "os_error \<Rightarrow> string" where
  "format_os_error e =
     (let strerror = (case oe_strerror e of None \<Rightarrow> oe_text e | Some s \<Rightarrow> if s = [] then oe_text e else s)
      in class_name (oe_class e) @ '': '' @ strerror)"

definition scan_error_message :: "bytes \<Rightarrow> string \<Rightarrow> string \<Rightarrow> scan_error" where
  "scan_error_message path_raw kind message =
     \<lparr> se_path = path_raw, se_path_bytes_hex = hex_str path_raw, se_message = message, se_kind = kind \<rparr>"

definition make_scan_error :: "bytes \<Rightarrow> os_error \<Rightarrow> scan_error" where
  "make_scan_error path_raw e = scan_error_message path_raw (error_kind e) (format_os_error e)"

definition is_snapshot_completeness_error :: "scan_error \<Rightarrow> bool" where
  "is_snapshot_completeness_error e \<longleftrightarrow> se_kind e \<noteq> ''missing_path''"

definition mount_signature :: "mount_info option \<Rightarrow> signature option" where
  "mount_signature m = map_option (\<lambda>m. (mi_major_minor m, mi_root m, mi_mount_point m)) m"

definition is_excluded :: "bytes \<Rightarrow> bytes list \<Rightarrow> bool" where
  "is_excluded path_raw exclude_paths \<longleftrightarrow>
     list_ex (\<lambda>excluded. path_raw = excluded \<or> excluded = root_dir \<or> startswith path_raw (excluded @ root_dir)) exclude_paths"

definition is_same_or_descendant :: "bytes \<Rightarrow> bytes \<Rightarrow> bool" where
  "is_same_or_descendant path_raw ancestor_raw =
     (if path_raw = ancestor_raw then True
      else if ancestor_raw = root_dir then startswith path_raw root_dir
      else startswith path_raw (ancestor_raw @ root_dir))"

definition is_protected_path :: "bytes \<Rightarrow> bytes list \<Rightarrow> bool" where
  "is_protected_path path_raw protected_paths \<longleftrightarrow>
     list_ex (\<lambda>p. is_same_or_descendant path_raw p \<or> is_same_or_descendant p path_raw) protected_paths"

definition initial_collapse_reason :: "bytes \<Rightarrow> collapse_policy option \<Rightarrow> bytes list \<Rightarrow> string option" where
  "initial_collapse_reason path_raw policy never_paths =
     (case policy of
        None \<Rightarrow> None
      | Some cp \<Rightarrow>
          if is_protected_path path_raw never_paths then None
          else if last (split_char slash path_raw) \<in> cp_names cp then Some ''known_noise'' else None)"

definition sorted_entries :: "dir_entry list \<Rightarrow> dir_entry list" where
  "sorted_entries es = sort_key de_path es"

subsection \<open>Evidence counts of collapsed subtrees\<close>

definition record_folded_evidence :: "string \<Rightarrow> frame \<Rightarrow> frame" where
  "record_folded_evidence kind f =
     (let d = fm_folded_evidence_counts f in f\<lparr> fm_folded_evidence_counts := AList.update kind (dict_get d kind 0 + 1) d \<rparr>)"

definition merge_evidence_counts :: "(string \<times> int) list \<Rightarrow> (string \<times> int) list \<Rightarrow> (string \<times> int) list" where
  "merge_evidence_counts target source =
     foldl (\<lambda>t (kind, count). AList.update kind (dict_get t kind 0 + count) t) target source"

definition collapsed_evidence_summary :: "(string \<times> int) list \<Rightarrow> string option" where
  "collapsed_evidence_summary counts =
     (if counts = [] then None
      else (let kinds = join_str '','' (map (\<lambda>k. k @ '':'' @ int_str (the (map_of counts k))) (sort (map fst counts)));
                total = sum_list (map snd counts)
            in Some (''collapsed_subtree_evidence total='' @ int_str total @ '' kinds='' @ kinds)))"

subsection \<open>Rows\<close>

definition directory_row :: "frame \<Rightarrow> directory_aggregate" where
  "directory_row f =
     \<lparr> da_snapshot_id = 0, da_path = fm_path_raw f, da_parent_path = fm_parent_path f, da_depth = fm_depth f,
       da_apparent_bytes = fm_apparent_bytes f, da_disk_bytes = fm_disk_bytes f, da_file_count = fm_file_count f,
       da_dir_count = fm_dir_count f, da_error = fm_error f, da_hardlink_file_count = fm_hardlink_file_count f,
       da_hardlink_duplicate_count = fm_hardlink_duplicate_count f,
       da_hardlink_duplicate_disk_bytes = fm_hardlink_duplicate_disk_bytes f,
       da_hardlink_first_seen_disk_bytes = fm_hardlink_first_seen_disk_bytes f,
       da_collapsed = False, da_collapse_reason = None, da_collapsed_dirs = None,
       da_top_child_path = None, da_top_child_disk_bytes = None \<rparr>"

definition collapsed_directory_row :: "frame \<Rightarrow> string \<Rightarrow> directory_aggregate" where
  "collapsed_directory_row f collapse_reason =
     \<lparr> da_snapshot_id = 0, da_path = fm_path_raw f, da_parent_path = fm_parent_path f, da_depth = fm_depth f,
       da_apparent_bytes = fm_apparent_bytes f, da_disk_bytes = fm_disk_bytes f, da_file_count = fm_file_count f,
       da_dir_count = fm_dir_count f,
       da_error = (case collapsed_evidence_summary (fm_folded_evidence_counts f) of
                     None \<Rightarrow> fm_error f | Some s \<Rightarrow> Some s),
       da_hardlink_file_count = fm_hardlink_file_count f,
       da_hardlink_duplicate_count = fm_hardlink_duplicate_count f,
       da_hardlink_duplicate_disk_bytes = fm_hardlink_duplicate_disk_bytes f,
       da_hardlink_first_seen_disk_bytes = fm_hardlink_first_seen_disk_bytes f,
       da_collapsed = True, da_collapse_reason = Some collapse_reason, da_collapsed_dirs = Some (fm_dir_count f),
       da_top_child_path = fm_top_child_path f, da_top_child_disk_bytes = fm_top_child_disk_bytes f \<rparr>"

definition skipped_directory_row :: "bytes \<Rightarrow> bytes option \<Rightarrow> int \<Rightarrow> string \<Rightarrow> directory_aggregate" where
  "skipped_directory_row path_raw parent_path depth err =
     \<lparr> da_snapshot_id = 0, da_path = path_raw, da_parent_path = parent_path, da_depth = depth,
       da_apparent_bytes = 0, da_disk_bytes = 0, da_file_count = 0, da_dir_count = 0, da_error = Some err,
       da_hardlink_file_count = 0, da_hardlink_duplicate_count = 0, da_hardlink_duplicate_disk_bytes = 0,
       da_hardlink_first_seen_disk_bytes = 0, da_collapsed = False, da_collapse_reason = None,
       da_collapsed_dirs = None, da_top_child_path = None, da_top_child_disk_bytes = None \<rparr>"

definition merge_child :: "directory_aggregate \<Rightarrow> (string \<times> int) list option \<Rightarrow> frame \<Rightarrow> frame" where
  "merge_child child_row child_evidence_counts parent =
     (let p = parent\<lparr>
          fm_apparent_bytes := fm_apparent_bytes parent + da_apparent_bytes child_row,
          fm_disk_bytes := fm_disk_bytes parent + da_disk_bytes child_row,
          fm_file_count := fm_file_count parent + da_file_count child_row,
          fm_dir_count := fm_dir_count parent + (da_dir_count child_row + 1),
          fm_hardlink_file_count := fm_hardlink_file_count parent + da_hardlink_file_count child_row,
          fm_hardlink_duplicate_count := fm_hardlink_duplicate_count parent + da_hardlink_duplicate_count child_row,
          fm_hardlink_duplicate_disk_bytes :=
            fm_hardlink_duplicate_disk_bytes parent + da_hardlink_duplicate_disk_bytes child_row,
          fm_hardlink_first_seen_disk_bytes :=
            fm_hardlink_first_seen_disk_bytes parent + da_hardlink_first_seen_disk_bytes child_row \<rparr>;
          p = (if (case fm_top_child_disk_bytes parent of None \<Rightarrow> True | Some b \<Rightarrow> da_disk_bytes child_row > b)
               then p\<lparr> fm_top_child_path := Some (da_path child_row),
                       fm_top_child_disk_bytes := Some (da_disk_bytes child_row) \<rparr>
               else p)
      in case child_evidence_counts of
           None \<Rightarrow> p
         | Some counts \<Rightarrow> p\<lparr> fm_folded_evidence_counts := merge_evidence_counts (fm_folded_evidence_counts p) counts \<rparr>)"

subsection \<open>Hard links\<close>

text \<open>\<open>_disk_bytes_for_entry\<close>: \<open>Inl\<close> is the \<open>_HardlinkLimitExceededError\<close>; the set of seen inodes is
  returned updated.\<close>

definition plain_usage :: "int \<Rightarrow> entry_disk_usage" where
  "plain_usage b =
     \<lparr> eu_disk_bytes = b, eu_hardlink_file_count = 0, eu_hardlink_duplicate_count = 0,
       eu_hardlink_duplicate_disk_bytes = 0, eu_hardlink_first_seen_disk_bytes = 0 \<rparr>"

definition disk_bytes_for_entry ::
    "stat_result \<Rightarrow> inode set \<Rightarrow> int \<Rightarrow> bytes \<Rightarrow> scan_error + (entry_disk_usage \<times> inode set)" where
  "disk_bytes_for_entry s seen_inodes max_entries entry_path =
     (if \<not> S_ISREG (st_mode s) then Inr (plain_usage (disk_bytes_from_stat s), seen_inodes)
      else if st_nlink s \<le> 1 then Inr (plain_usage (disk_bytes_from_stat s), seen_inodes)
      else
        (let disk_bytes = disk_bytes_from_stat s; key = inode_key s in
         if key \<in> seen_inodes
         then Inr ((plain_usage 0)\<lparr> eu_hardlink_file_count := 1, eu_hardlink_duplicate_count := 1,
                                   eu_hardlink_duplicate_disk_bytes := disk_bytes \<rparr>, seen_inodes)
         else if int (card seen_inodes) \<ge> max_entries
         then Inl (scan_error_message entry_path ''hardlink_limit''
                (''hardlink dedup entry limit exceeded at '' @ int_str max_entries @ '' inode keys''))
         else Inr ((plain_usage disk_bytes)\<lparr> eu_hardlink_file_count := 1,
                                            eu_hardlink_first_seen_disk_bytes := disk_bytes \<rparr>,
                   insert key seen_inodes)))"

subsection \<open>Whether to descend\<close>

definition mount_cycle_reason :: "int \<Rightarrow> string" where
  "mount_cycle_reason mount_id = ''bind mount cycle detected for mount_id '' @ int_str mount_id"

definition active_mount_cycle_decision :: "mount_info option \<Rightarrow> descend_context \<Rightarrow> mount_decision option" where
  "active_mount_cycle_decision mount_info context =
     (let sig = mount_signature mount_info in
      case mount_info of
        None \<Rightarrow> None
      | Some m \<Rightarrow>
          if Some (mi_mount_id m) = dx_current_mount_id context \<and> sig = dx_current_mount_signature context then None
          else if mi_mount_id m \<in> dx_active_mount_ids context
          then Some (mount_verdict False (mount_cycle_reason (mi_mount_id m)) m)
          else (case sig of
                  None \<Rightarrow> None
                | Some sg \<Rightarrow>
                    if sg \<notin> dx_active_mount_signatures context then None
                    else Some (mount_verdict False (mount_cycle_reason (mi_mount_id m)) m)))"

definition active_directory_cycle_decision ::
    "stat_result \<Rightarrow> mount_info option \<Rightarrow> descend_context \<Rightarrow> mount_decision option" where
  "active_directory_cycle_decision s mount_info context =
     (if inode_key s \<notin> dx_active_directory_keys context then None
      else Some
        \<lparr> md_include = False,
          md_reason = ''bind mount cycle detected for device/inode '' @ int_str (st_dev s) @ '':'' @ int_str (st_ino s),
          md_filesystem_type = map_option mi_filesystem_type mount_info,
          md_mount_id = map_option mi_mount_id mount_info,
          md_device_changed = False \<rparr>)"

text \<open>\<open>should_descend\<close> with a context; its form with loose keyword arguments only builds that context.\<close>

definition should_descend :: "stat_result \<Rightarrow> mount_info option \<Rightarrow> descend_context \<Rightarrow> mount_decision" where
  "should_descend s mount_info context =
     (let resolved_policy = dx_mount_policy context;
          decision = classify_mount mount_info (Some resolved_policy)
      in if \<not> md_include decision then decision
         else if mp_one_filesystem resolved_policy \<and> st_dev s \<noteq> dx_root_device context
         then \<lparr> md_include = False,
                md_reason = ''separate filesystem skipped by one-filesystem policy (root st_dev ''
                  @ int_str (dx_root_device context) @ '', child st_dev '' @ int_str (st_dev s) @ '')'',
                md_filesystem_type = md_filesystem_type decision,
                md_mount_id = md_mount_id decision,
                md_device_changed = True \<rparr>
         else case active_mount_cycle_decision mount_info context of
                Some mount_cycle \<Rightarrow> mount_cycle
              | None \<Rightarrow>
                  (case active_directory_cycle_decision s mount_info context of
                     Some directory_cycle \<Rightarrow> directory_cycle
                   | None \<Rightarrow> decision))"

subsection \<open>Results\<close>

definition make_scan_result :: "scan_state \<Rightarrow> scan_result" where
  "make_scan_result st =
     \<lparr> sc_root_path = su_root_path (sx_setup st), sc_rows = sx_rows st, sc_row_count = int (length (sx_rows st)),
       sc_status = (if sx_had_failure st then PARTIAL else COMPLETE), sc_fatal_error = None,
       sc_errors = sx_errors st, sc_hardlink_count = sx_hardlink_count st \<rparr>"

definition scan_failure_result ::
    "pathname \<Rightarrow> scan_error \<Rightarrow> directory_aggregate list \<Rightarrow> scan_error list \<Rightarrow> int \<Rightarrow> scan_result" where
  "scan_failure_result root_path err rows errors hardlink_count =
     \<lparr> sc_root_path = root_path, sc_rows = rows, sc_row_count = int (length rows), sc_status = FAILED,
       sc_fatal_error = Some (se_message err), sc_errors = (if errors \<noteq> [] then errors else [err]),
       sc_hardlink_count = hardlink_count \<rparr>"

subsection \<open>Preparing the root\<close>

text \<open>The path components below the anchor, and the growing paths \<open>_has_symlink_component\<close> tests.\<close>

definition path_components :: "pathname \<Rightarrow> string list" where
  "path_components p = filter (\<lambda>c. c \<noteq> [] \<and> c \<noteq> ''.'') (split_char slash p)"

definition has_symlink_component :: "scan_env \<Rightarrow> pathname \<Rightarrow> bool" where
  "has_symlink_component env p =
     (let cs = path_components p in
      list_ex (\<lambda>n. env_is_symlink env (abs_path (take n cs))) [1..<Suc (length cs)])"

definition prepare_scan_root :: "scan_env \<Rightarrow> scanner_options \<Rightarrow> scan_result + scan_setup" where
  "prepare_scan_root env options =
     (let expanded = env_expanduser env (so_root options);
          root_path = (if startswith expanded root_dir then expanded else env_absolute env expanded);
          root_raw = root_path;
          exclude_paths = map (env_resolve env) (so_exclude_paths options);
          mounts = so_mounts options;
          mount_policy = (case so_mount_policy options of None \<Rightarrow> default_mount_policy | Some p \<Rightarrow> p);
          collapse_policy = so_collapse_policy options;
          collapse_never_paths = (case collapse_policy of None \<Rightarrow> [] | Some cp \<Rightarrow> map (env_resolve env) (cp_never cp));
          failure = (\<lambda>kind message. Inl (scan_failure_result root_path (scan_error_message root_raw kind message) [] [] 0))
      in if has_symlink_component env root_path
         then failure ''symlink_root'' ''configured root must not traverse a symlinked path component''
         else case env_stat env root_raw of
           Inl exc \<Rightarrow> failure ''root_error'' (oe_text exc)
         | Inr root_stat \<Rightarrow>
             if S_ISLNK (st_mode root_stat)
             then failure ''symlink_root'' ''configured root must not be a symlink''
             else
               (let root_mount = (if mounts \<noteq> [] then find_mount_for_path root_raw mounts else None) in
                if mounts \<noteq> [] \<and> root_mount = None
                then failure ''mount_missing'' ''no mountinfo entry found for configured root''
                else if root_mount \<noteq> None \<and> \<not> md_include (classify_mount root_mount (Some mount_policy))
                then failure ''mount_skipped'' (md_reason (classify_mount root_mount (Some mount_policy)))
                else Inr
                  \<lparr> su_root_path = root_path, su_root_raw = root_raw, su_exclude_paths = exclude_paths,
                    su_mounts = mounts, su_mount_policy = mount_policy, su_collapse_policy = collapse_policy,
                    su_collapse_never_paths = collapse_never_paths, su_record_skipped = so_record_skipped options,
                    su_hardlink_dedup_max_entries = so_hardlink_dedup_max_entries options,
                    su_root_stat = root_stat, su_root_mount = root_mount \<rparr>))"

subsection \<open>Opening a directory\<close>

definition mount_of :: "scan_setup \<Rightarrow> bytes \<Rightarrow> mount_info option" where
  "mount_of su p = (if su_mounts su \<noteq> [] then find_mount_for_path p (su_mounts su) else None)"

text \<open>The part of \<open>_initialize_frame\<close> before the directory is listed.\<close>

definition open_frame :: "scan_state \<Rightarrow> stat_result \<Rightarrow> frame \<Rightarrow> frame" where
  "open_frame st s f =
     (let su = sx_setup st;
          f = f\<lparr> fm_initial_stat := None, fm_apparent_bytes := st_size s, fm_disk_bytes := st_blocks s * 512,
                 fm_directory_identity := Some (inode_key s) \<rparr>;
          f = (if fm_mount_signature f = None
               then f\<lparr> fm_mount_id := map_option mi_mount_id (mount_of su (fm_path_raw f)),
                       fm_mount_signature := mount_signature (mount_of su (fm_path_raw f)) \<rparr>
               else f)
      in f\<lparr> fm_row_start := length (sx_rows st),
            fm_collapse_reason := initial_collapse_reason (fm_path_raw f) (su_collapse_policy su) (su_collapse_never_paths su) \<rparr>)"

text \<open>The \<open>except OSError\<close> branch: the frame at the top, as far as it was filled in, is given up.\<close>

definition initialize_failed :: "os_error \<Rightarrow> frame \<Rightarrow> frame list \<Rightarrow> scan_state \<Rightarrow> scan_state" where
  "initialize_failed exc f rest st =
     (let err = make_scan_error (fm_path_raw f) exc;
          st = st\<lparr> sx_errors := sx_errors st @ [err] \<rparr>;
          f = record_folded_evidence (se_kind err) f
      in if fm_depth f = 0
         then st\<lparr> sx_fatal_result := Some (scan_failure_result (su_root_path (sx_setup st)) err (sx_rows st)
                                            (sx_errors st) (sx_hardlink_count st)),
                  sx_stack := [] \<rparr>
         else
           (let f = f\<lparr> fm_error := Some (se_message err) \<rparr>;
                row = directory_row f
            in st\<lparr> sx_rows := sx_rows st @ [row],
                   sx_stack := (case rest of [] \<Rightarrow> [] | p # ps \<Rightarrow> merge_child row (Some (fm_folded_evidence_counts f)) p # ps),
                   sx_had_failure := sx_had_failure st \<or> is_snapshot_completeness_error err \<rparr>))"

definition initialize_frame :: "scan_env \<Rightarrow> frame \<Rightarrow> frame list \<Rightarrow> scan_state \<Rightarrow> scan_state" where
  "initialize_frame env f rest st =
     (case (case fm_initial_stat f of Some s \<Rightarrow> Inr s | None \<Rightarrow> env_stat env (fm_path_raw f)) of
        Inl exc \<Rightarrow> initialize_failed exc f rest st
      | Inr s \<Rightarrow>
          if \<not> S_ISDIR (st_mode s)
          then initialize_failed
                 \<lparr> oe_class = NotADirectoryError, oe_strerror = None, oe_text = fm_path_raw f \<rparr> f rest st
          else
            (let f = open_frame st s f;
                 st = (case sx_root_device st of None \<Rightarrow> st\<lparr> sx_root_device := Some (st_dev s) \<rparr> | Some _ \<Rightarrow> st)
             in case env_scandir env (fm_path_raw f) of
                  Inl exc \<Rightarrow> initialize_failed exc f rest st
                | Inr es \<Rightarrow>
                    st\<lparr> sx_stack := f\<lparr> fm_entries := sorted_entries es, fm_initialized := True \<rparr> # rest \<rparr>))"

subsection \<open>Entries\<close>

definition count_child_directory :: "scan_setup \<Rightarrow> frame \<Rightarrow> frame" where
  "count_child_directory su f =
     (let f = f\<lparr> fm_direct_child_dir_count := fm_direct_child_dir_count f + 1 \<rparr>
      in if fm_collapse_reason f = None
            \<and> (case su_collapse_policy su of
                 None \<Rightarrow> False
               | Some cp \<Rightarrow> \<not> is_protected_path (fm_path_raw f) (su_collapse_never_paths su)
                          \<and> fm_direct_child_dir_count f \<ge> cp_fan_out cp)
         then f\<lparr> fm_collapse_reason := Some ''fan_out'' \<rparr> else f)"

definition descend_context_of :: "scan_state \<Rightarrow> stat_result \<Rightarrow> frame \<Rightarrow> frame list \<Rightarrow> descend_context" where
  "descend_context_of st s f rest =
     \<lparr> dx_root_device = (case sx_root_device st of Some d \<Rightarrow> d | None \<Rightarrow> st_dev s),
       dx_mount_policy = su_mount_policy (sx_setup st),
       dx_current_mount_id = fm_mount_id f,
       dx_current_mount_signature = fm_mount_signature f,
       dx_active_mount_ids = set (List.map_filter fm_mount_id (f # rest)),
       dx_active_mount_signatures = set (List.map_filter fm_mount_signature (f # rest)),
       dx_active_directory_keys = set (List.map_filter fm_directory_identity (f # rest)) \<rparr>"

definition process_directory_entry ::
    "bytes \<Rightarrow> stat_result \<Rightarrow> frame \<Rightarrow> frame list \<Rightarrow> scan_state \<Rightarrow> scan_state" where
  "process_directory_entry entry_path s f rest st =
     (let su = sx_setup st;
          f = count_child_directory su f;
          mount_info = mount_of su entry_path;
          decision = should_descend s mount_info (descend_context_of st s f rest)
      in if \<not> md_include decision
         then
           (let f = record_folded_evidence ''mount_skipped'' f;
                st = (if su_record_skipped su
                      then st\<lparr> sx_errors := sx_errors st @ [scan_error_message entry_path ''mount_skipped'' (md_reason decision)] \<rparr>
                      else st)
            in if is_default_virtual_filesystem (md_filesystem_type decision)
               then st\<lparr> sx_stack := f # rest \<rparr>
               else (let row = skipped_directory_row entry_path (Some (fm_path_raw f)) (fm_depth f + 1) (md_reason decision)
                     in st\<lparr> sx_rows := sx_rows st @ [row], sx_stack := merge_child row None f # rest \<rparr>))
         else st\<lparr> sx_stack :=
                 new_frame entry_path (Some (fm_path_raw f)) (fm_depth f + 1) (Some s)
                   (case mount_info of Some m \<Rightarrow> Some (mi_mount_id m) | None \<Rightarrow> fm_mount_id f)
                   (case mount_signature mount_info of Some sg \<Rightarrow> Some sg | None \<Rightarrow> fm_mount_signature f)
                 # f # rest \<rparr>)"

definition process_file_entry ::
    "bytes \<Rightarrow> stat_result \<Rightarrow> frame \<Rightarrow> frame list \<Rightarrow> scan_state \<Rightarrow> scan_state" where
  "process_file_entry entry_path s f rest st =
     (let f = f\<lparr> fm_file_count := fm_file_count f + 1,
                 fm_apparent_bytes := fm_apparent_bytes f + apparent_bytes_from_stat s \<rparr>
      in case disk_bytes_for_entry s (sx_seen_inodes st) (su_hardlink_dedup_max_entries (sx_setup st)) entry_path of
           Inl err \<Rightarrow>
             (let f = record_folded_evidence (se_kind err) f;
                  f = f\<lparr> fm_error := (case fm_error f of None \<Rightarrow> Some (se_message err) | Some e \<Rightarrow> Some e),
                         fm_entries := [], fm_next_index := 0 \<rparr>
              in st\<lparr> sx_errors := sx_errors st @ [err], sx_had_failure := True, sx_stack := f # rest \<rparr>)
         | Inr (usage, seen) \<Rightarrow>
             st\<lparr> sx_seen_inodes := seen,
                 sx_stack := f\<lparr> fm_disk_bytes := fm_disk_bytes f + eu_disk_bytes usage,
                                fm_hardlink_file_count := fm_hardlink_file_count f + eu_hardlink_file_count usage,
                                fm_hardlink_duplicate_count := fm_hardlink_duplicate_count f + eu_hardlink_duplicate_count usage,
                                fm_hardlink_duplicate_disk_bytes :=
                                  fm_hardlink_duplicate_disk_bytes f + eu_hardlink_duplicate_disk_bytes usage,
                                fm_hardlink_first_seen_disk_bytes :=
                                  fm_hardlink_first_seen_disk_bytes f + eu_hardlink_first_seen_disk_bytes usage \<rparr> # rest,
                 sx_hardlink_count := (if eu_hardlink_file_count usage > 0 then sx_hardlink_count st + 1 else sx_hardlink_count st) \<rparr>)"

definition process_frame_entry :: "frame \<Rightarrow> frame list \<Rightarrow> scan_state \<Rightarrow> scan_state" where
  "process_frame_entry f rest st =
     (let entry = fm_entries f ! fm_next_index f;
          f = f\<lparr> fm_next_index := fm_next_index f + 1 \<rparr>;
          entry_path = de_path entry;
          su = sx_setup st
      in if is_excluded entry_path (su_exclude_paths su)
         then
           (let st = (if su_record_skipped su
                      then st\<lparr> sx_errors := sx_errors st @ [scan_error_message entry_path ''excluded'' ''excluded by configuration''] \<rparr>
                      else st);
                f = record_folded_evidence ''excluded'' f
            in case de_is_dir entry of
                 Inr True \<Rightarrow>
                   (let row = skipped_directory_row entry_path (Some (fm_path_raw f)) (fm_depth f + 1) ''excluded by configuration''
                    in st\<lparr> sx_rows := sx_rows st @ [row], sx_stack := merge_child row None f # rest \<rparr>)
               | _ \<Rightarrow> st\<lparr> sx_stack := f # rest \<rparr>)
         else case de_stat entry of
           Inl exc \<Rightarrow>
             (let err = make_scan_error entry_path exc;
                  f = record_folded_evidence (se_kind err) f;
                  f = f\<lparr> fm_error := (case fm_error f of None \<Rightarrow> Some (se_message err) | Some e \<Rightarrow> Some e) \<rparr>
              in st\<lparr> sx_errors := sx_errors st @ [err], sx_stack := f # rest,
                     sx_had_failure := sx_had_failure st \<or> is_snapshot_completeness_error err \<rparr>)
         | Inr s \<Rightarrow>
             if S_ISDIR (st_mode s) then process_directory_entry entry_path s f rest st
             else process_file_entry entry_path s f rest st)"

definition finish_frame :: "frame \<Rightarrow> frame list \<Rightarrow> scan_state \<Rightarrow> scan_state" where
  "finish_frame f rest st =
     (let rows = (case fm_collapse_reason f of Some _ \<Rightarrow> take (fm_row_start f) (sx_rows st) | None \<Rightarrow> sx_rows st);
          row = (case fm_collapse_reason f of Some r \<Rightarrow> collapsed_directory_row f r | None \<Rightarrow> directory_row f)
      in st\<lparr> sx_rows := rows @ [row],
             sx_stack := (case rest of [] \<Rightarrow> [] | p # ps \<Rightarrow> merge_child row (Some (fm_folded_evidence_counts f)) p # ps) \<rparr>)"

subsection \<open>The loop\<close>

definition scan_running :: "scan_state \<Rightarrow> bool" where
  "scan_running st \<longleftrightarrow> sx_stack st \<noteq> [] \<and> sx_fatal_result st = None"

definition scan_step :: "scan_env \<Rightarrow> scan_state \<Rightarrow> scan_state" where
  "scan_step env st =
     (case sx_stack st of
        [] \<Rightarrow> st
      | f # rest \<Rightarrow>
          if \<not> fm_initialized f then initialize_frame env f rest st
          else if fm_next_index f \<ge> length (fm_entries f) then finish_frame f rest st
          else process_frame_entry f rest st)"

definition scan_stack :: "scan_env \<Rightarrow> scan_state \<Rightarrow> scan_state option" where
  "scan_stack env st = while_option scan_running (scan_step env) st"

definition initial_state :: "scan_setup \<Rightarrow> scan_state" where
  "initial_state su =
     \<lparr> sx_setup = su, sx_rows = [], sx_errors = [], sx_seen_inodes = {},
       sx_stack = [new_frame (su_root_raw su) None 0 (Some (su_root_stat su))
                     (map_option mi_mount_id (su_root_mount su)) (mount_signature (su_root_mount su))],
       sx_had_failure = False, sx_hardlink_count = 0, sx_root_device = Some (st_dev (su_root_stat su)),
       sx_fatal_result = None \<rparr>"

text \<open>\<open>scan_root\<close>; \<open>None\<close> if the scan never ends.\<close>

definition scan_root :: "scan_env \<Rightarrow> scanner_options \<Rightarrow> scan_result option" where
  "scan_root env options =
     (case prepare_scan_root env options of
        Inl result \<Rightarrow> Some result
      | Inr su \<Rightarrow>
          map_option (\<lambda>st. case sx_fatal_result st of Some result \<Rightarrow> result | None \<Rightarrow> make_scan_result st)
            (scan_stack env (initial_state su)))"

definition aggregate_entry :: "directory_aggregate \<Rightarrow> int \<Rightarrow> directory_aggregate" where
  "aggregate_entry row snapshot_id = row\<lparr> da_snapshot_id := snapshot_id \<rparr>"

end
