(* ===== verification/Scanner_Proofs.thy ===== *)
theory Scanner_Proofs
  imports Scanner
begin

text \<open>
  What the scan guarantees.  \<open>scan_move\<close> lists the kinds of turn the loop can take, one rule per
  branch of the code with the branch's conditions; \<open>scan_step_move\<close> shows that every turn of
  \<open>scan_step\<close> is one of them, and the invariants are proved over its cases.
\<close>

subsection \<open>The turns of the loop\<close>

text \<open>The frame after its cursor moved past the current entry, and after a subdirectory was counted.\<close>

abbreviation advanced :: "frame \<Rightarrow> frame" where
  "advanced f \<equiv> f\<lparr> fm_next_index := fm_next_index f + 1 \<rparr>"

abbreviation counted :: "frame \<Rightarrow> string option \<Rightarrow> frame" where
  "counted f r \<equiv> (advanced f)\<lparr> fm_direct_child_dir_count := fm_direct_child_dir_count f + 1, fm_collapse_reason := r \<rparr>"

abbreviation given_up :: "frame \<Rightarrow> scan_error \<Rightarrow> frame" where
  "given_up f err \<equiv> (record_folded_evidence (se_kind err) f)\<lparr> fm_error := Some (se_message err) \<rparr>"

definition into_parent :: "directory_aggregate \<Rightarrow> frame \<Rightarrow> frame list \<Rightarrow> frame list" where
  "into_parent row f rest =
     (case rest of [] \<Rightarrow> [] | p # ps \<Rightarrow> merge_child row (Some (fm_folded_evidence_counts f)) p # ps)"

text \<open>The label of a turn is the disk usage of the file it counted, if it counted one.\<close>

inductive scan_move :: "scan_env \<Rightarrow> scan_state \<Rightarrow> entry_disk_usage option \<Rightarrow> scan_state \<Rightarrow> bool" for env where
  root_failed: "sx_stack st = f # rest \<Longrightarrow> \<not> fm_initialized f \<Longrightarrow> fm_depth f = 0 \<Longrightarrow>
    err = make_scan_error (fm_path_raw f) exc \<Longrightarrow> sx_root_device st \<noteq> None \<longrightarrow> rd = sx_root_device st \<Longrightarrow>
    scan_move env st None (st\<lparr> sx_root_device := rd, sx_errors := sx_errors st @ [err], sx_stack := [],
      sx_fatal_result := Some (scan_failure_result (su_root_path (sx_setup st)) err (sx_rows st)
                                 (sx_errors st @ [err]) (sx_hardlink_count st)) \<rparr>)"
| child_failed: "sx_stack st = f # rest \<Longrightarrow> \<not> fm_initialized f \<Longrightarrow> fm_depth f \<noteq> 0 \<Longrightarrow>
    err = make_scan_error (fm_path_raw f) exc \<Longrightarrow> g = f \<or> (\<exists>s. g = open_frame st s f) \<Longrightarrow>
    sx_root_device st \<noteq> None \<longrightarrow> rd = sx_root_device st \<Longrightarrow>
    scan_move env st None (st\<lparr> sx_root_device := rd, sx_errors := sx_errors st @ [err],
      sx_rows := sx_rows st @ [directory_row (given_up g err)],
      sx_stack := into_parent (directory_row (given_up g err)) (given_up g err) rest,
      sx_had_failure := sx_had_failure st \<or> is_snapshot_completeness_error err \<rparr>)"
| opened: "sx_stack st = f # rest \<Longrightarrow> \<not> fm_initialized f \<Longrightarrow> S_ISDIR (st_mode s) \<Longrightarrow>
    fm_initial_stat f = Some s \<or> (fm_initial_stat f = None \<and> env_stat env (fm_path_raw f) = Inr s) \<Longrightarrow>
    env_scandir env (fm_path_raw f) = Inr es \<Longrightarrow>
    rd = (case sx_root_device st of None \<Rightarrow> st_dev s | Some d \<Rightarrow> d) \<Longrightarrow>
    scan_move env st None (st\<lparr> sx_root_device := Some rd,
      sx_stack := (open_frame st s f)\<lparr> fm_entries := sorted_entries es, fm_initialized := True \<rparr> # rest \<rparr>)"
| finished: "sx_stack st = f # rest \<Longrightarrow> fm_initialized f \<Longrightarrow> length (fm_entries f) \<le> fm_next_index f \<Longrightarrow>
    fm_collapse_reason f = None \<Longrightarrow>
    scan_move env st None (st\<lparr> sx_rows := sx_rows st @ [directory_row f],
      sx_stack := into_parent (directory_row f) f rest \<rparr>)"
| collapsed: "sx_stack st = f # rest \<Longrightarrow> fm_initialized f \<Longrightarrow> length (fm_entries f) \<le> fm_next_index f \<Longrightarrow>
    fm_collapse_reason f = Some r \<Longrightarrow>
    scan_move env st None (st\<lparr> sx_rows := take (fm_row_start f) (sx_rows st) @ [collapsed_directory_row f r],
      sx_stack := into_parent (collapsed_directory_row f r) f rest \<rparr>)"
| excluded_entry: "sx_stack st = f # rest \<Longrightarrow> fm_initialized f \<Longrightarrow> fm_next_index f < length (fm_entries f) \<Longrightarrow>
    es = [] \<or> (\<exists>p m. es = [scan_error_message p ''excluded'' m]) \<Longrightarrow>
    scan_move env st None (st\<lparr> sx_errors := sx_errors st @ es,
      sx_stack := record_folded_evidence ''excluded'' (advanced f) # rest \<rparr>)"
| excluded_directory: "sx_stack st = f # rest \<Longrightarrow> fm_initialized f \<Longrightarrow> fm_next_index f < length (fm_entries f) \<Longrightarrow>
    es = [] \<or> (\<exists>p m. es = [scan_error_message p ''excluded'' m]) \<Longrightarrow>
    row = skipped_directory_row (de_path (fm_entries f ! fm_next_index f)) (Some (fm_path_raw f)) (fm_depth f + 1) m \<Longrightarrow>
    scan_move env st None (st\<lparr> sx_errors := sx_errors st @ es, sx_rows := sx_rows st @ [row],
      sx_stack := merge_child row None (record_folded_evidence ''excluded'' (advanced f)) # rest \<rparr>)"
| stat_failed: "sx_stack st = f # rest \<Longrightarrow> fm_initialized f \<Longrightarrow> fm_next_index f < length (fm_entries f) \<Longrightarrow>
    err = make_scan_error (de_path (fm_entries f ! fm_next_index f)) exc \<Longrightarrow>
    scan_move env st None (st\<lparr> sx_errors := sx_errors st @ [err],
      sx_stack := (record_folded_evidence (se_kind err) (advanced f))\<lparr> fm_error := fe \<rparr> # rest,
      sx_had_failure := sx_had_failure st \<or> is_snapshot_completeness_error err \<rparr>)"
| directory_skipped: "sx_stack st = f # rest \<Longrightarrow> fm_initialized f \<Longrightarrow> fm_next_index f < length (fm_entries f) \<Longrightarrow>
    es = [] \<or> (\<exists>p m. es = [scan_error_message p ''mount_skipped'' m]) \<Longrightarrow>
    scan_move env st None (st\<lparr> sx_errors := sx_errors st @ es,
      sx_stack := record_folded_evidence ''mount_skipped'' (counted f r) # rest \<rparr>)"
| directory_skipped_row: "sx_stack st = f # rest \<Longrightarrow> fm_initialized f \<Longrightarrow> fm_next_index f < length (fm_entries f) \<Longrightarrow>
    es = [] \<or> (\<exists>p m. es = [scan_error_message p ''mount_skipped'' m]) \<Longrightarrow>
    row = skipped_directory_row (de_path (fm_entries f ! fm_next_index f)) (Some (fm_path_raw f)) (fm_depth f + 1) m \<Longrightarrow>
    scan_move env st None (st\<lparr> sx_errors := sx_errors st @ es, sx_rows := sx_rows st @ [row],
      sx_stack := merge_child row None (record_folded_evidence ''mount_skipped'' (counted f r)) # rest \<rparr>)"
| directory_pushed: "sx_stack st = f # rest \<Longrightarrow> fm_initialized f \<Longrightarrow> fm_next_index f < length (fm_entries f) \<Longrightarrow>
    e = fm_entries f ! fm_next_index f \<Longrightarrow> de_stat e = Inr s \<Longrightarrow> S_ISDIR (st_mode s) \<Longrightarrow>
    md_include (should_descend s (mount_of (sx_setup st) (de_path e)) (descend_context_of st s (counted f r) rest)) \<Longrightarrow>
    scan_move env st None (st\<lparr> sx_stack :=
      new_frame (de_path e) (Some (fm_path_raw f)) (fm_depth f + 1) (Some s) mid sig # counted f r # rest \<rparr>)"
| file_limited: "sx_stack st = f # rest \<Longrightarrow> fm_initialized f \<Longrightarrow> fm_next_index f < length (fm_entries f) \<Longrightarrow>
    se_kind err = ''hardlink_limit'' \<Longrightarrow>
    int (card (sx_seen_inodes st)) \<ge> su_hardlink_dedup_max_entries (sx_setup st) \<Longrightarrow>
    scan_move env st None (st\<lparr> sx_errors := sx_errors st @ [err], sx_had_failure := True,
      sx_stack := (record_folded_evidence (se_kind err) (f\<lparr> fm_file_count := fm_file_count f + 1, fm_apparent_bytes := ab \<rparr>))
                    \<lparr> fm_error := fe, fm_entries := [], fm_next_index := 0 \<rparr> # rest \<rparr>)"
| file_counted: "sx_stack st = f # rest \<Longrightarrow> fm_initialized f \<Longrightarrow> fm_next_index f < length (fm_entries f) \<Longrightarrow>
    de_stat (fm_entries f ! fm_next_index f) = Inr s \<Longrightarrow>
    disk_bytes_for_entry s (sx_seen_inodes st) (su_hardlink_dedup_max_entries (sx_setup st)) p = Inr (usage, seen) \<Longrightarrow>
    scan_move env st (Some usage) (st\<lparr> sx_seen_inodes := seen,
      sx_stack := (advanced f)\<lparr> fm_file_count := fm_file_count f + 1,
          fm_apparent_bytes := fm_apparent_bytes f + apparent_bytes_from_stat s,
          fm_disk_bytes := fm_disk_bytes f + eu_disk_bytes usage,
          fm_hardlink_file_count := fm_hardlink_file_count f + eu_hardlink_file_count usage,
          fm_hardlink_duplicate_count := fm_hardlink_duplicate_count f + eu_hardlink_duplicate_count usage,
          fm_hardlink_duplicate_disk_bytes := fm_hardlink_duplicate_disk_bytes f + eu_hardlink_duplicate_disk_bytes usage,
          fm_hardlink_first_seen_disk_bytes :=
            fm_hardlink_first_seen_disk_bytes f + eu_hardlink_first_seen_disk_bytes usage \<rparr> # rest,
      sx_hardlink_count := (if eu_hardlink_file_count usage > 0 then sx_hardlink_count st + 1 else sx_hardlink_count st) \<rparr>)"

lemma open_frame_fields [simp]:
  "fm_depth (open_frame st s f) = fm_depth f" "fm_path_raw (open_frame st s f) = fm_path_raw f"
  "fm_initialized (open_frame st s f) = fm_initialized f" "fm_parent_path (open_frame st s f) = fm_parent_path f"
  "fm_folded_evidence_counts (open_frame st s f) = fm_folded_evidence_counts f"
  "fm_directory_identity (open_frame st s f) = Some (inode_key s)" "fm_dir_count (open_frame st s f) = fm_dir_count f"
  "fm_row_start (open_frame st s f) = length (sx_rows st)" "fm_entries (open_frame st s f) = fm_entries f"
  "fm_next_index (open_frame st s f) = fm_next_index f" "fm_file_count (open_frame st s f) = fm_file_count f"
  "fm_disk_bytes (open_frame st s f) = st_blocks s * 512"
  "fm_hardlink_file_count (open_frame st s f) = fm_hardlink_file_count f"
  "fm_hardlink_duplicate_count (open_frame st s f) = fm_hardlink_duplicate_count f"
  "fm_hardlink_duplicate_disk_bytes (open_frame st s f) = fm_hardlink_duplicate_disk_bytes f"
  "fm_hardlink_first_seen_disk_bytes (open_frame st s f) = fm_hardlink_first_seen_disk_bytes f"
  by (simp_all add: open_frame_def Let_def)

lemma open_frame_irrelevant: "open_frame (st\<lparr> sx_root_device := d \<rparr>) s f = open_frame st s f"
  by (simp add: open_frame_def Let_def)

lemma initialize_failed_move:
  assumes "sx_stack st = f # rest" and "\<not> fm_initialized f" and g: "g = f \<or> (\<exists>s. g = open_frame st s f)"
    and rd: "sx_root_device st \<noteq> None \<longrightarrow> rd = sx_root_device st"
  shows "scan_move env st None (initialize_failed exc g rest (st\<lparr> sx_root_device := rd \<rparr>))"
proof (cases "fm_depth f = 0")
  case True
  then have "fm_depth g = 0" "fm_path_raw g = fm_path_raw f" using g by auto
  then have "initialize_failed exc g rest (st\<lparr> sx_root_device := rd \<rparr>) =
     st\<lparr> sx_root_device := rd, sx_errors := sx_errors st @ [make_scan_error (fm_path_raw f) exc], sx_stack := [],
      sx_fatal_result := Some (scan_failure_result (su_root_path (sx_setup st)) (make_scan_error (fm_path_raw f) exc)
         (sx_rows st) (sx_errors st @ [make_scan_error (fm_path_raw f) exc]) (sx_hardlink_count st)) \<rparr>"
    by (simp add: initialize_failed_def Let_def record_folded_evidence_def)
  then show ?thesis using root_failed[OF assms(1,2) True refl rd] by simp
next
  case False
  then have "fm_depth g \<noteq> 0" "fm_path_raw g = fm_path_raw f" using g by auto
  then have "initialize_failed exc g rest (st\<lparr> sx_root_device := rd \<rparr>) =
     (let err = make_scan_error (fm_path_raw f) exc in
      st\<lparr> sx_root_device := rd, sx_errors := sx_errors st @ [err],
      sx_rows := sx_rows st @ [directory_row (given_up g err)],
      sx_stack := into_parent (directory_row (given_up g err)) (given_up g err) rest,
      sx_had_failure := sx_had_failure st \<or> is_snapshot_completeness_error err \<rparr>)"
    by (simp add: initialize_failed_def Let_def record_folded_evidence_def into_parent_def)
  then show ?thesis using child_failed[OF assms(1,2) False refl g rd] by (simp add: Let_def)
qed

lemma set_same_device: "st\<lparr> sx_root_device := sx_root_device st \<rparr> = (st :: scan_state)"
  by simp

lemma initialize_frame_move:
  assumes st: "sx_stack st = f # rest" and ini: "\<not> fm_initialized f"
  shows "scan_move env st None (initialize_frame env f rest st)"
proof -
  let ?q = "case fm_initial_stat f of Some s \<Rightarrow> Inr s | None \<Rightarrow> env_stat env (fm_path_raw f)"
  have fail: "scan_move env st None (initialize_failed exc f rest st)" for exc
    using initialize_failed_move[OF st ini, of f "sx_root_device st" env exc] by (simp add: set_same_device)
  show ?thesis
  proof (cases ?q)
    case (Inl exc)
    then show ?thesis using fail by (simp add: initialize_frame_def)
  next
    case (Inr s)
    note q = this
    show ?thesis
    proof (cases "S_ISDIR (st_mode s)")
      case False
      then show ?thesis using fail q by (simp add: initialize_frame_def)
    next
      case True
      let ?rd = "Some (case sx_root_device st of None \<Rightarrow> st_dev s | Some d \<Rightarrow> d)"
      have st': "(case sx_root_device st of None \<Rightarrow> st\<lparr> sx_root_device := Some (st_dev s) \<rparr> | Some _ \<Rightarrow> st)
          = st\<lparr> sx_root_device := ?rd \<rparr>"
        by (cases "sx_root_device st") simp_all
      show ?thesis
      proof (cases "env_scandir env (fm_path_raw f)")
        case (Inl exc)
        then have "initialize_frame env f rest st = initialize_failed exc (open_frame st s f) rest (st\<lparr> sx_root_device := ?rd \<rparr>)"
          using q True by (simp add: initialize_frame_def Let_def st')
        then show ?thesis
          using initialize_failed_move[OF st ini, of "open_frame st s f" "?rd" env exc] by (auto split: option.splits)
      next
        case (Inr es)
        then have "initialize_frame env f rest st = st\<lparr> sx_root_device := ?rd,
            sx_stack := (open_frame st s f)\<lparr> fm_entries := sorted_entries es, fm_initialized := True \<rparr> # rest \<rparr>"
          using q True by (simp add: initialize_frame_def Let_def st')
        moreover have "fm_initial_stat f = Some s \<or> (fm_initial_stat f = None \<and> env_stat env (fm_path_raw f) = Inr s)"
          using q by (auto split: option.splits)
        ultimately show ?thesis using opened[OF st ini True _ Inr refl] by simp
      qed
    qed
  qed
qed

lemma count_child_directory_eq: "\<exists>r. count_child_directory su (advanced f) = counted f r"
proof -
  let ?g = "(advanced f)\<lparr> fm_direct_child_dir_count := fm_direct_child_dir_count f + 1 \<rparr>"
  have "count_child_directory su (advanced f) = ?g \<or>
        count_child_directory su (advanced f) = ?g\<lparr> fm_collapse_reason := Some ''fan_out'' \<rparr>"
    by (simp add: count_child_directory_def Let_def)
  moreover have "?g = ?g\<lparr> fm_collapse_reason := fm_collapse_reason ?g \<rparr>" by simp
  ultimately show ?thesis by metis
qed

lemma process_directory_entry_move:
  assumes st: "sx_stack st = f # rest" and ini: "fm_initialized f" and more: "fm_next_index f < length (fm_entries f)"
    and e: "e = fm_entries f ! fm_next_index f" and stat: "de_stat e = Inr s" and dir: "S_ISDIR (st_mode s)"
  shows "scan_move env st None (process_directory_entry (de_path e) s (advanced f) rest st)"
proof -
  let ?su = "sx_setup st"
  obtain r where r: "count_child_directory ?su (advanced f) = counted f r" using count_child_directory_eq by blast
  let ?d = "should_descend s (mount_of ?su (de_path e)) (descend_context_of st s (counted f r) rest)"
  let ?es = "if su_record_skipped ?su then [scan_error_message (de_path e) ''mount_skipped'' (md_reason ?d)] else []"
  let ?row = "skipped_directory_row (de_path e) (Some (fm_path_raw f)) (fm_depth f + 1) (md_reason ?d)"
  have es: "?es = [] \<or> (\<exists>p m. ?es = [scan_error_message p ''mount_skipped'' m])" by auto
  have errs: "(if su_record_skipped ?su
        then st\<lparr> sx_errors := sx_errors st @ [scan_error_message (de_path e) ''mount_skipped'' (md_reason ?d)] \<rparr> else st)
      = st\<lparr> sx_errors := sx_errors st @ ?es \<rparr>" by simp
  have "process_directory_entry (de_path e) s (advanced f) rest st =
     (if \<not> md_include ?d
      then if is_default_virtual_filesystem (md_filesystem_type ?d)
           then st\<lparr> sx_errors := sx_errors st @ ?es, sx_stack := record_folded_evidence ''mount_skipped'' (counted f r) # rest \<rparr>
           else st\<lparr> sx_errors := sx_errors st @ ?es, sx_rows := sx_rows st @ [?row],
                    sx_stack := merge_child ?row None (record_folded_evidence ''mount_skipped'' (counted f r)) # rest \<rparr>
      else st\<lparr> sx_stack :=
             new_frame (de_path e) (Some (fm_path_raw f)) (fm_depth f + 1) (Some s)
                   (case mount_of ?su (de_path e) of Some m \<Rightarrow> Some (mi_mount_id m) | None \<Rightarrow> fm_mount_id f)
                   (case mount_signature (mount_of ?su (de_path e)) of Some sg \<Rightarrow> Some sg | None \<Rightarrow> fm_mount_signature f)
                 # counted f r # rest \<rparr>)"
    unfolding process_directory_entry_def Let_def r by (simp add: record_folded_evidence_def Let_def split: option.split)
  then show ?thesis
    using directory_skipped[OF st ini more es] directory_skipped_row[OF st ini more es, of "?row"]
      directory_pushed[OF st ini more e stat dir, of r]
    by (auto simp: e)
qed

lemma disk_bytes_limit:
  assumes "disk_bytes_for_entry s seen n p = Inl err"
  shows "se_kind err = ''hardlink_limit'' \<and> int (card seen) \<ge> n"
  using assms by (auto simp: disk_bytes_for_entry_def Let_def scan_error_message_def split: if_splits)

lemma process_file_entry_move:
  assumes st: "sx_stack st = f # rest" and ini: "fm_initialized f" and more: "fm_next_index f < length (fm_entries f)"
    and stat: "de_stat (fm_entries f ! fm_next_index f) = Inr s"
  shows "\<exists>lbl. scan_move env st lbl (process_file_entry p s (advanced f) rest st)"
proof (cases "disk_bytes_for_entry s (sx_seen_inodes st) (su_hardlink_dedup_max_entries (sx_setup st)) p")
  case (Inl err)
  from disk_bytes_limit[OF Inl] have "se_kind err = ''hardlink_limit''"
    "int (card (sx_seen_inodes st)) \<ge> su_hardlink_dedup_max_entries (sx_setup st)" by auto
  from file_limited[OF st ini more this, of env]
  show ?thesis using Inl
    by (intro exI[of _ None]) (auto simp: process_file_entry_def Let_def record_folded_evidence_def)
next
  case (Inr us)
  obtain usage seen where us: "us = (usage, seen)" by fastforce
  from file_counted[OF st ini more stat Inr[unfolded us], of env]
  show ?thesis using Inr us
    by (intro exI[of _ "Some usage"]) (simp add: process_file_entry_def Let_def)
qed

lemma process_frame_entry_move:
  assumes st: "sx_stack st = f # rest" and ini: "fm_initialized f" and more: "fm_next_index f < length (fm_entries f)"
  shows "\<exists>lbl. scan_move env st lbl (process_frame_entry f rest st)"
proof -
  let ?e = "fm_entries f ! fm_next_index f"
  show ?thesis
  proof (cases "is_excluded (de_path ?e) (su_exclude_paths (sx_setup st))")
    case True
    let ?es = "if su_record_skipped (sx_setup st) then [scan_error_message (de_path ?e) ''excluded'' ''excluded by configuration''] else []"
    have es: "?es = [] \<or> (\<exists>p m. ?es = [scan_error_message p ''excluded'' m])" by auto
    show ?thesis
    proof (cases "de_is_dir ?e = Inr True")
      case dir: True
      then show ?thesis
        using True excluded_directory[OF st ini more es refl, of env "''excluded by configuration''"]
        by (intro exI[of _ None]) (simp add: process_frame_entry_def Let_def record_folded_evidence_def split: if_splits)
    next
      case False
      then have "(case de_is_dir ?e of Inr True \<Rightarrow> x | _ \<Rightarrow> y) = y" for x y :: scan_state
        by (auto split: sum.splits bool.splits)
      then show ?thesis
        using True excluded_entry[OF st ini more es, of env]
        by (intro exI[of _ None]) (simp add: process_frame_entry_def Let_def split: if_splits)
    qed
  next
    case False
    show ?thesis
    proof (cases "de_stat ?e")
      case (Inl exc)
      then show ?thesis
        using False stat_failed[OF st ini more refl, of env exc]
        by (intro exI[of _ None]) (simp add: process_frame_entry_def Let_def)
    next
      case (Inr s)
      then show ?thesis
        using False process_directory_entry_move[OF st ini more refl Inr] process_file_entry_move[OF st ini more Inr]
        by (auto simp: process_frame_entry_def Let_def)
    qed
  qed
qed

lemma scan_step_move:
  assumes "sx_stack st \<noteq> []"
  shows "\<exists>lbl. scan_move env st lbl (scan_step env st)"
proof -
  from assms obtain f rest where st: "sx_stack st = f # rest" by (cases "sx_stack st") auto
  have fin: "length (fm_entries f) \<le> fm_next_index f \<Longrightarrow> fm_initialized f \<Longrightarrow> scan_move env st None (finish_frame f rest st)"
    using finished[OF st, of env] collapsed[OF st, of _ env]
    by (cases "fm_collapse_reason f") (auto simp: finish_frame_def into_parent_def Let_def)
  show ?thesis
    using st initialize_frame_move[OF st] process_frame_entry_move[OF st] fin by (auto simp: scan_step_def)
qed

text \<open>Invariants: what holds at the start and over every turn holds when the scan ends.\<close>

lemma scan_stack_invariant:
  assumes "scan_stack env st = Some st'" and "P st"
    and "\<And>s lbl s'. P s \<Longrightarrow> scan_running s \<Longrightarrow> scan_move env s lbl s' \<Longrightarrow> P s'"
  shows "P st' \<and> \<not> scan_running st'"
proof
  have run: "while_option scan_running (scan_step env) st = Some st'" using assms(1) by (simp add: scan_stack_def)
  have "P (scan_step env s)" if "P s" "scan_running s" for s
    using assms(3)[OF that] scan_step_move[of s env] that(2) by (auto simp: scan_running_def)
  from while_option_rule[of P, OF this run assms(2)] show "P st'" .
  show "\<not> scan_running st'" using assms(1) unfolding scan_stack_def by (rule while_option_stop)
qed

subsection \<open>Fields of changed frames\<close>

lemma record_evidence_fields [simp]:
  "fm_path_raw (record_folded_evidence k f) = fm_path_raw f"
  "fm_parent_path (record_folded_evidence k f) = fm_parent_path f"
  "fm_depth (record_folded_evidence k f) = fm_depth f"
  "fm_initial_stat (record_folded_evidence k f) = fm_initial_stat f"
  "fm_directory_identity (record_folded_evidence k f) = fm_directory_identity f"
  "fm_mount_id (record_folded_evidence k f) = fm_mount_id f"
  "fm_mount_signature (record_folded_evidence k f) = fm_mount_signature f"
  "fm_apparent_bytes (record_folded_evidence k f) = fm_apparent_bytes f"
  "fm_disk_bytes (record_folded_evidence k f) = fm_disk_bytes f"
  "fm_file_count (record_folded_evidence k f) = fm_file_count f"
  "fm_dir_count (record_folded_evidence k f) = fm_dir_count f"
  "fm_error (record_folded_evidence k f) = fm_error f"
  "fm_hardlink_file_count (record_folded_evidence k f) = fm_hardlink_file_count f"
  "fm_hardlink_duplicate_count (record_folded_evidence k f) = fm_hardlink_duplicate_count f"
  "fm_hardlink_duplicate_disk_bytes (record_folded_evidence k f) = fm_hardlink_duplicate_disk_bytes f"
  "fm_hardlink_first_seen_disk_bytes (record_folded_evidence k f) = fm_hardlink_first_seen_disk_bytes f"
  "fm_row_start (record_folded_evidence k f) = fm_row_start f"
  "fm_collapse_reason (record_folded_evidence k f) = fm_collapse_reason f"
  "fm_direct_child_dir_count (record_folded_evidence k f) = fm_direct_child_dir_count f"
  "fm_top_child_path (record_folded_evidence k f) = fm_top_child_path f"
  "fm_top_child_disk_bytes (record_folded_evidence k f) = fm_top_child_disk_bytes f"
  "fm_entries (record_folded_evidence k f) = fm_entries f"
  "fm_next_index (record_folded_evidence k f) = fm_next_index f"
  "fm_initialized (record_folded_evidence k f) = fm_initialized f"
  by (simp_all add: record_folded_evidence_def Let_def)

lemma merge_child_same [simp]:
  "fm_path_raw (merge_child row ev p) = fm_path_raw p"
  "fm_parent_path (merge_child row ev p) = fm_parent_path p"
  "fm_depth (merge_child row ev p) = fm_depth p"
  "fm_initial_stat (merge_child row ev p) = fm_initial_stat p"
  "fm_directory_identity (merge_child row ev p) = fm_directory_identity p"
  "fm_mount_id (merge_child row ev p) = fm_mount_id p"
  "fm_mount_signature (merge_child row ev p) = fm_mount_signature p"
  "fm_error (merge_child row ev p) = fm_error p"
  "fm_row_start (merge_child row ev p) = fm_row_start p"
  "fm_collapse_reason (merge_child row ev p) = fm_collapse_reason p"
  "fm_direct_child_dir_count (merge_child row ev p) = fm_direct_child_dir_count p"
  "fm_entries (merge_child row ev p) = fm_entries p"
  "fm_next_index (merge_child row ev p) = fm_next_index p"
  "fm_initialized (merge_child row ev p) = fm_initialized p"
  by (simp_all add: merge_child_def Let_def split: option.split)

lemma merge_child_sums [simp]:
  "fm_apparent_bytes (merge_child row ev p) = fm_apparent_bytes p + da_apparent_bytes row"
  "fm_disk_bytes (merge_child row ev p) = fm_disk_bytes p + da_disk_bytes row"
  "fm_file_count (merge_child row ev p) = fm_file_count p + da_file_count row"
  "fm_hardlink_file_count (merge_child row ev p) = fm_hardlink_file_count p + da_hardlink_file_count row"
  "fm_hardlink_duplicate_count (merge_child row ev p) = fm_hardlink_duplicate_count p + da_hardlink_duplicate_count row"
  "fm_hardlink_duplicate_disk_bytes (merge_child row ev p) = fm_hardlink_duplicate_disk_bytes p + da_hardlink_duplicate_disk_bytes row"
  "fm_hardlink_first_seen_disk_bytes (merge_child row ev p) = fm_hardlink_first_seen_disk_bytes p + da_hardlink_first_seen_disk_bytes row"
  "fm_dir_count (merge_child row ev p) = fm_dir_count p + (da_dir_count row + 1)"
  by (simp_all add: merge_child_def Let_def split: option.split)

lemma new_frame_fields [simp]:
  "fm_path_raw (new_frame p q d s mi ms) = p"
  "fm_parent_path (new_frame p q d s mi ms) = q"
  "fm_depth (new_frame p q d s mi ms) = d"
  "fm_initial_stat (new_frame p q d s mi ms) = s"
  "fm_directory_identity (new_frame p q d s mi ms) = None"
  "fm_mount_id (new_frame p q d s mi ms) = mi"
  "fm_mount_signature (new_frame p q d s mi ms) = ms"
  "fm_apparent_bytes (new_frame p q d s mi ms) = 0"
  "fm_disk_bytes (new_frame p q d s mi ms) = 0"
  "fm_file_count (new_frame p q d s mi ms) = 0"
  "fm_dir_count (new_frame p q d s mi ms) = 0"
  "fm_error (new_frame p q d s mi ms) = None"
  "fm_hardlink_file_count (new_frame p q d s mi ms) = 0"
  "fm_hardlink_duplicate_count (new_frame p q d s mi ms) = 0"
  "fm_hardlink_duplicate_disk_bytes (new_frame p q d s mi ms) = 0"
  "fm_hardlink_first_seen_disk_bytes (new_frame p q d s mi ms) = 0"
  "fm_row_start (new_frame p q d s mi ms) = 0"
  "fm_collapse_reason (new_frame p q d s mi ms) = None"
  "fm_direct_child_dir_count (new_frame p q d s mi ms) = 0"
  "fm_top_child_path (new_frame p q d s mi ms) = None"
  "fm_top_child_disk_bytes (new_frame p q d s mi ms) = None"
  "fm_folded_evidence_counts (new_frame p q d s mi ms) = []"
  "fm_entries (new_frame p q d s mi ms) = []"
  "fm_next_index (new_frame p q d s mi ms) = 0"
  "\<not> fm_initialized (new_frame p q d s mi ms)"
  by (simp_all add: new_frame_def)

lemma skipped_row_fields [simp]:
  "da_dir_count (skipped_directory_row p q d m) = 0" "da_collapsed_dirs (skipped_directory_row p q d m) = None"
  "da_hardlink_file_count (skipped_directory_row p q d m) = 0"
  "da_hardlink_duplicate_count (skipped_directory_row p q d m) = 0"
  "da_hardlink_duplicate_disk_bytes (skipped_directory_row p q d m) = 0"
  "da_hardlink_first_seen_disk_bytes (skipped_directory_row p q d m) = 0"
  "da_disk_bytes (skipped_directory_row p q d m) = 0" "da_apparent_bytes (skipped_directory_row p q d m) = 0"
  "da_file_count (skipped_directory_row p q d m) = 0" "da_path (skipped_directory_row p q d m) = p"
  by (simp_all add: skipped_directory_row_def)

lemma into_parent_Nil [simp]: "into_parent row f [] = []"
  and into_parent_Cons [simp]:
    "into_parent row f (p # ps) = merge_child row (Some (fm_folded_evidence_counts f)) p # ps"
  by (simp_all add: into_parent_def)

subsection \<open>Shape of the stack\<close>

text \<open>
  A frame that was not opened yet is as it was pushed and is the top one; the depth of a frame is
  its distance from the bottom.
\<close>

definition fresh_frame :: "frame \<Rightarrow> bool" where
  "fresh_frame f \<longleftrightarrow> (\<exists>p q d s mi ms. f = new_frame p q d (Some s) mi ms)"

lemma fresh_new_frame [simp]: "fresh_frame (new_frame p q d (Some s) mi ms)"
  unfolding fresh_frame_def by blast

fun depths_ok :: "frame list \<Rightarrow> bool" where
  "depths_ok [] = True"
| "depths_ok (f # fs) = (fm_depth f = int (length fs) \<and> depths_ok fs)"

definition stack_shape :: "frame list \<Rightarrow> bool" where
  "stack_shape fs \<longleftrightarrow> depths_ok fs \<and> (\<forall>f\<in>set (tl fs). fm_initialized f)
     \<and> (fs \<noteq> [] \<longrightarrow> \<not> fm_initialized (hd fs) \<longrightarrow> fresh_frame (hd fs))"

lemma depths_into_parent [simp]: "depths_ok rest \<Longrightarrow> depths_ok (into_parent row f rest)"
  by (cases rest) auto

lemma stack_shape_move:
  assumes "scan_move env st lbl st'" and "stack_shape (sx_stack st)"
  shows "stack_shape (sx_stack st')"
  using assms
proof (cases rule: scan_move.cases)
  case (child_failed f rest err exc g rd)
  then show ?thesis using assms(2) by (cases rest) (auto simp: stack_shape_def)
next
  case (finished f rest)
  then show ?thesis using assms(2) by (cases rest) (auto simp: stack_shape_def)
next
  case (collapsed f rest r)
  then show ?thesis using assms(2) by (cases rest) (auto simp: stack_shape_def)
next
  case (directory_pushed f rest e s mid sig)
  then show ?thesis using assms(2) by (auto simp: stack_shape_def)
qed (auto simp: stack_shape_def)

lemma stack_shape_initial: "stack_shape (sx_stack (initial_state su))"
  by (simp add: initial_state_def stack_shape_def)

subsection \<open>Directory counts\<close>

text \<open>
  Each row stands for one directory plus those it folded.  The rows are partitioned by the open
  frames: those recorded since a frame was opened (and before the next one was) are its descendants.
\<close>

definition row_dirs :: "directory_aggregate \<Rightarrow> int" where
  "row_dirs r = 1 + (case da_collapsed_dirs r of None \<Rightarrow> 0 | Some d \<Rightarrow> d)"

definition rows_dirs :: "directory_aggregate list \<Rightarrow> int" where
  "rows_dirs rs = sum_list (map row_dirs rs)"

fun rows_account :: "directory_aggregate list \<Rightarrow> frame list \<Rightarrow> bool" where
  "rows_account rows [] \<longleftrightarrow> rows = []"
| "rows_account rows (f # fs) \<longleftrightarrow>
     (if fm_initialized f
      then fm_row_start f \<le> length rows \<and> rows_dirs (drop (fm_row_start f) rows) = fm_dir_count f
           \<and> rows_account (take (fm_row_start f) rows) fs
      else fm_dir_count f = 0 \<and> rows_account rows fs)"

definition dirs_inv :: "scan_state \<Rightarrow> bool" where
  "dirs_inv st \<longleftrightarrow> stack_shape (sx_stack st) \<and>
     (if sx_stack st = [] then sx_fatal_result st = None \<longrightarrow> sx_rows st \<noteq> []
        \<and> rows_dirs (sx_rows st) = da_dir_count (last (sx_rows st)) + 1
      else rows_account (sx_rows st) (sx_stack st))"

lemma rows_dirs_simps [simp]: "rows_dirs [] = 0" "rows_dirs (r # rs) = row_dirs r + rows_dirs rs"
  "rows_dirs (rs @ ss) = rows_dirs rs + rows_dirs ss"
  by (simp_all add: rows_dirs_def)

lemma rows_account_add:
  assumes "rows_account rows (p # ps)" and "fm_initialized p" and "row_dirs row = 1" and "da_dir_count row = 0"
  shows "rows_account (rows @ [row]) (merge_child row ev p # ps)"
  using assms by simp

lemma row_dirs_rows [simp]:
  "row_dirs (directory_row f) = 1" "row_dirs (collapsed_directory_row f r) = 1 + fm_dir_count f"
  "row_dirs (skipped_directory_row p q d m) = 1"
  "da_dir_count (directory_row f) = fm_dir_count f" "da_dir_count (collapsed_directory_row f r) = fm_dir_count f"
  by (simp_all add: row_dirs_def directory_row_def collapsed_directory_row_def skipped_directory_row_def)

lemma rows_account_finish:
  assumes acc: "rows_account (take n rows) (p # ps)" and p: "fm_initialized p" and n: "n \<le> length rows"
    and d: "rows_dirs (drop n rows) = k" and row: "da_dir_count row = k"
    and new: "rows' = rows @ [row] \<and> row_dirs row = 1 \<or> rows' = take n rows @ [row] \<and> row_dirs row = 1 + k"
  shows "rows_account rows' (merge_child row ev p # ps)"
proof -
  let ?m = "fm_row_start p"
  from acc p have le: "?m \<le> length (take n rows)" and pd: "rows_dirs (drop ?m (take n rows)) = fm_dir_count p"
    and rest0: "rows_account (take ?m (take n rows)) ps" by (simp_all only: rows_account.simps if_True)
  from le n have m: "?m \<le> n" "?m \<le> length rows" by simp_all
  have rest: "rows_account (take ?m rows) ps" using rest0 m by (simp add: min_absorb1)
  have "drop ?m rows = drop ?m (take n rows) @ drop n rows"
    using m n by (metis append_take_drop_id drop_append length_take min.absorb2 diff_is_0_eq drop_0)
  then have "rows_dirs (drop ?m rows) = rows_dirs (drop ?m (take n rows)) + rows_dirs (drop n rows)" by simp
  then have "rows_dirs (drop ?m rows) = fm_dir_count p + k" using pd d by simp
  then show ?thesis using new m n pd rest p row by (auto simp: min_def)
qed

lemma dirs_inv_move:
  assumes "scan_move env st lbl st'" and inv: "dirs_inv st"
  shows "dirs_inv st'"
proof -
  have shape: "stack_shape (sx_stack st')" using stack_shape_move[OF assms(1)] inv by (simp add: dirs_inv_def)
  show ?thesis using assms(1)
  proof (cases rule: scan_move.cases)
    case (root_failed f rest err exc rd)
    then show ?thesis using shape by (simp add: dirs_inv_def)
  next
    case (child_failed f rest err exc g rd)
    from child_failed inv have fd: "fm_depth f = int (length rest)" and fresh: "fresh_frame f"
      and acc: "rows_account (sx_rows st) (f # rest)"
      by (simp_all add: dirs_inv_def stack_shape_def)
    from fd child_failed(5) obtain p ps where rest: "rest = p # ps" by (cases rest) auto
    have p: "fm_initialized p" using inv child_failed rest by (simp add: dirs_inv_def stack_shape_def)
    have zero: "fm_dir_count g = 0" using child_failed fresh by (auto simp: fresh_frame_def)
    have "rows_account (sx_rows st) (p # ps)" using acc child_failed(4) rest by simp
    then show ?thesis
      using shape child_failed(2) rest p zero
      by (simp add: dirs_inv_def)
  next
    case (opened f rest s es rd)
    from opened inv have fresh: "fresh_frame f" and acc: "rows_account (sx_rows st) (f # rest)"
      by (simp_all add: dirs_inv_def stack_shape_def)
    then have "fm_dir_count f = 0" by (auto simp: fresh_frame_def)
    then show ?thesis using shape opened acc by (simp add: dirs_inv_def)
  next
    case (finished f rest)
    show ?thesis
    proof (cases rest)
      case Nil
      then show ?thesis using finished inv shape by (auto simp: dirs_inv_def)
    next
      case (Cons p ps)
      have "rows_account (sx_rows st @ [directory_row f])
          (merge_child (directory_row f) (Some (fm_folded_evidence_counts f)) p # ps)"
        by (rule rows_account_finish[of "fm_row_start f" "sx_rows st" _ _ "fm_dir_count f"])
          (use inv finished Cons in \<open>auto simp: dirs_inv_def stack_shape_def\<close>)
      then show ?thesis using shape finished Cons by (simp add: dirs_inv_def)
    qed
  next
    case (collapsed f rest r)
    show ?thesis
    proof (cases rest)
      case Nil
      then show ?thesis using collapsed inv shape by (auto simp: dirs_inv_def)
    next
      case (Cons p ps)
      have "rows_account (take (fm_row_start f) (sx_rows st) @ [collapsed_directory_row f r])
          (merge_child (collapsed_directory_row f r) (Some (fm_folded_evidence_counts f)) p # ps)"
        by (rule rows_account_finish[of "fm_row_start f" "sx_rows st" _ _ "fm_dir_count f"])
          (use inv collapsed Cons in \<open>auto simp: dirs_inv_def stack_shape_def\<close>)
      then show ?thesis using shape collapsed Cons by (simp add: dirs_inv_def)
    qed
  qed (use inv shape in \<open>simp_all add: dirs_inv_def\<close>)
qed

lemma dirs_inv_initial: "dirs_inv (initial_state su)"
  using stack_shape_initial[of su] by (simp add: dirs_inv_def) (simp add: initial_state_def)

subsection \<open>Errors and status\<close>

text \<open>The kinds of error that leave a snapshot complete.\<close>

definition harmless_kinds :: "string set" where
  "harmless_kinds = {''missing_path'', ''excluded'', ''mount_skipped''}"

definition status_inv :: "scan_state \<Rightarrow> bool" where
  "status_inv st \<longleftrightarrow>
     (case sx_fatal_result st of
        None \<Rightarrow> sx_had_failure st \<longleftrightarrow> (\<exists>e\<in>set (sx_errors st). se_kind e \<notin> harmless_kinds)
      | Some r \<Rightarrow> sc_status r = FAILED \<and> sc_fatal_error r \<noteq> None)"

lemma make_scan_error_harmless:
  "se_kind (make_scan_error p exc) \<notin> harmless_kinds \<longleftrightarrow> is_snapshot_completeness_error (make_scan_error p exc)"
  by (auto simp: make_scan_error_def scan_error_message_def error_kind_def harmless_kinds_def
      is_snapshot_completeness_error_def split: os_error_class.splits)

lemma scan_error_message_kind [simp]: "se_kind (scan_error_message p k m) = k"
  by (simp add: scan_error_message_def)

lemma failure_result_status [simp]:
  "sc_status (scan_failure_result p e rows errs h) = FAILED" "sc_fatal_error (scan_failure_result p e rows errs h) = Some (se_message e)"
  by (simp_all add: scan_failure_result_def)

lemma status_inv_move:
  assumes "scan_move env st lbl st'" and "status_inv st" and "scan_running st"
  shows "status_inv st'"
  using assms(1)
proof (cases rule: scan_move.cases)
  case (child_failed f rest err exc g rd)
  then show ?thesis using assms make_scan_error_harmless[of "fm_path_raw f" exc]
    by (auto simp: status_inv_def scan_running_def)
next
  case (stat_failed f rest err exc fe)
  then show ?thesis using assms make_scan_error_harmless[of "de_path (fm_entries f ! fm_next_index f)" exc]
    by (auto simp: status_inv_def scan_running_def)
next
  case (file_limited f rest err ab fe)
  then show ?thesis using assms by (auto simp: status_inv_def scan_running_def harmless_kinds_def)
qed (use assms in \<open>auto simp: status_inv_def scan_running_def harmless_kinds_def\<close>)

lemma status_inv_initial: "status_inv (initial_state su)"
  by (simp add: status_inv_def initial_state_def)

text \<open>How a scan ends: it could not start, its root could not be read, or the stack ran empty.\<close>

lemma prepare_failure:
  assumes "prepare_scan_root env options = Inl r"
  shows "sc_status r = FAILED \<and> sc_fatal_error r \<noteq> None"
  using assms by (auto simp: prepare_scan_root_def Let_def split: if_splits sum.splits)

lemma scan_root_cases:
  assumes "scan_root env options = Some r"
  obtains (failed) "sc_status r = FAILED" and "sc_fatal_error r \<noteq> None"
  | (completed) su st where "prepare_scan_root env options = Inr su" and "scan_stack env (initial_state su) = Some st"
      and "sx_stack st = []" and "sx_fatal_result st = None" and "status_inv st" and "r = make_scan_result st"
proof (cases "prepare_scan_root env options")
  case (Inl r')
  then show thesis using assms prepare_failure[OF Inl] by (intro failed) (simp_all add: scan_root_def)
next
  case (Inr su)
  with assms obtain st where st: "scan_stack env (initial_state su) = Some st"
    and r: "r = (case sx_fatal_result st of Some result \<Rightarrow> result | None \<Rightarrow> make_scan_result st)"
    by (auto simp: scan_root_def)
  have inv: "status_inv st" and stop: "\<not> scan_running st"
    using scan_stack_invariant[OF st, of status_inv] status_inv_initial status_inv_move by blast+
  show thesis
  proof (cases "sx_fatal_result st")
    case None
    then show thesis using completed[OF Inr st _ None inv] r stop by (simp add: scan_running_def)
  next
    case (Some res)
    then show thesis using inv r by (intro failed) (simp_all add: status_inv_def)
  qed
qed

lemma scan_root_completed:
  assumes "scan_root env options = Some r" and "sc_fatal_error r = None"
    and "\<And>su. prepare_scan_root env options = Inr su \<Longrightarrow> P (initial_state su)"
    and "\<And>s lbl s'. P s \<Longrightarrow> scan_running s \<Longrightarrow> scan_move env s lbl s' \<Longrightarrow> P s'"
  obtains st where "P st" and "sx_stack st = []" and "sx_fatal_result st = None" and "r = make_scan_result st"
  using assms(1)
proof (cases rule: scan_root_cases)
  case failed
  then show thesis using assms(2) by simp
next
  case (completed su st)
  then show thesis using that[of st] scan_stack_invariant[OF completed(2), of P] assms(3,4) by blast
qed

subsection \<open>Hard links\<close>

text \<open>
  A hard-link figure: a frame field that is zero on a new frame, that only files add to, and that
  a finished child hands to its parent whole.
\<close>

locale link_field =
  fixes sf :: "frame \<Rightarrow> int" and sr :: "directory_aggregate \<Rightarrow> int" and part :: "entry_disk_usage \<Rightarrow> int"
  assumes row: "sr (directory_row f) = sf f" and collapsed_row: "sr (collapsed_directory_row f r) = sf f"
    and skipped_row: "sr (skipped_directory_row p q d m) = 0"
    and merge: "sf (merge_child c ev f) = sf f + sr c"
    and evidence: "sf (record_folded_evidence k f) = sf f"
    and new: "sf (new_frame p q d s0 mi ms) = 0" and open_eq: "sf (open_frame st s f) = sf f"
    and error: "sf (f\<lparr> fm_error := e \<rparr>) = sf f"
    and listed: "sf (f\<lparr> fm_entries := es, fm_initialized := b \<rparr>) = sf f"
    and next_entry: "sf (advanced f) = sf f" and child_dir: "sf (counted f cr) = sf f"
    and limited: "sf (f\<lparr> fm_error := e, fm_entries := es, fm_next_index := n \<rparr>) = sf f"
    and begin_file: "sf (f\<lparr> fm_file_count := fc, fm_apparent_bytes := ab \<rparr>) = sf f"
    and file_entry: "sf ((advanced f)\<lparr> fm_file_count := fc, fm_apparent_bytes := ab, fm_disk_bytes := db,
          fm_hardlink_file_count := fm_hardlink_file_count f + eu_hardlink_file_count u,
          fm_hardlink_duplicate_count := fm_hardlink_duplicate_count f + eu_hardlink_duplicate_count u,
          fm_hardlink_duplicate_disk_bytes := fm_hardlink_duplicate_disk_bytes f + eu_hardlink_duplicate_disk_bytes u,
          fm_hardlink_first_seen_disk_bytes :=
            fm_hardlink_first_seen_disk_bytes f + eu_hardlink_first_seen_disk_bytes u \<rparr>) = sf f + part u"
begin

text \<open>The figure so far: over the open frames, or in the last row once none is open.\<close>

definition total :: "scan_state \<Rightarrow> int" where
  "total st = (if sx_stack st = [] then sr (last (sx_rows st)) else sum_list (map sf (sx_stack st)))"

lemmas moved = next_entry[simplified] child_dir[simplified] file_entry[simplified]

lemma total_move:
  assumes "scan_move env st lbl st'" and run: "scan_running st" and shape: "stack_shape (sx_stack st)"
    and alive: "sx_fatal_result st' = None"
  shows "total st' = total st + (case lbl of None \<Rightarrow> 0 | Some usage \<Rightarrow> part usage)"
  using assms(1)
proof (cases rule: scan_move.cases)
  case (root_failed f rest err exc rd)
  then show ?thesis using alive by simp
next
  case (child_failed f rest err exc g rd)
  have "fm_depth f = int (length rest)" using shape child_failed by (simp add: stack_shape_def)
  then obtain q qs where rest: "rest = q # qs" using child_failed by (cases rest) auto
  have "sr (directory_row (given_up g err)) = sf f"
    using child_failed(7) by (auto simp: row error evidence open_eq)
  then show ?thesis using child_failed(1,2,3) rest by (simp add: total_def merge)
next
  case (finished f rest)
  then show ?thesis by (cases rest) (auto simp: total_def row merge)
next
  case (collapsed f rest r)
  then show ?thesis by (cases rest) (auto simp: total_def collapsed_row merge)
next
  case (file_counted f rest s p usage seen)
  then show ?thesis by (simp add: total_def moved)
qed (simp_all add: total_def open_eq listed evidence moved merge skipped_row new limited begin_file error)

end

interpretation link_files: link_field fm_hardlink_file_count da_hardlink_file_count eu_hardlink_file_count
  by unfold_locales (simp_all add: directory_row_def collapsed_directory_row_def)

interpretation link_duplicates: link_field fm_hardlink_duplicate_count da_hardlink_duplicate_count eu_hardlink_duplicate_count
  by unfold_locales (simp_all add: directory_row_def collapsed_directory_row_def)

interpretation link_duplicate_bytes: link_field fm_hardlink_duplicate_disk_bytes da_hardlink_duplicate_disk_bytes
    eu_hardlink_duplicate_disk_bytes
  by unfold_locales (simp_all add: directory_row_def collapsed_directory_row_def)

interpretation link_first_seen: link_field fm_hardlink_first_seen_disk_bytes da_hardlink_first_seen_disk_bytes
    eu_hardlink_first_seen_disk_bytes
  by unfold_locales (simp_all add: directory_row_def collapsed_directory_row_def)


text \<open>Files linked more than once, less the repeated ones, are the distinct inodes seen.\<close>

definition links_inv :: "scan_state \<Rightarrow> bool" where
  "links_inv st \<longleftrightarrow> stack_shape (sx_stack st) \<and> finite (sx_seen_inodes st) \<and>
     int (card (sx_seen_inodes st)) \<le> max 0 (su_hardlink_dedup_max_entries (sx_setup st)) \<and>
     (sx_fatal_result st = None \<longrightarrow>
        link_files.total st = sx_hardlink_count st
      \<and> 0 \<le> link_duplicates.total st
      \<and> link_files.total st - link_duplicates.total st = int (card (sx_seen_inodes st)))"

lemma disk_bytes_usage:
  assumes "disk_bytes_for_entry s seen n p = Inr (usage, seen')" and "finite seen"
  shows "eu_hardlink_file_count usage = (if S_ISREG (st_mode s) \<and> st_nlink s > 1 then 1 else 0)"
    and "finite seen'" and "0 \<le> eu_hardlink_duplicate_count usage"
    and "eu_hardlink_file_count usage - eu_hardlink_duplicate_count usage = int (card seen') - int (card seen)"
    and "int (card seen) \<le> max 0 n \<Longrightarrow> int (card seen') \<le> max 0 n"
  using assms by (auto simp: disk_bytes_for_entry_def Let_def plain_usage_def split: if_splits)

lemma setup_move:
  assumes "scan_move env st lbl st'"
  shows "sx_setup st' = sx_setup st"
  using assms by (cases rule: scan_move.cases) simp_all

lemma seen_move:
  assumes "scan_move env st lbl st'"
  shows "case lbl of
      None \<Rightarrow> sx_seen_inodes st' = sx_seen_inodes st \<and> sx_hardlink_count st' = sx_hardlink_count st
    | Some usage \<Rightarrow> (\<exists>s p. disk_bytes_for_entry s (sx_seen_inodes st)
          (su_hardlink_dedup_max_entries (sx_setup st)) p = Inr (usage, sx_seen_inodes st'))
        \<and> sx_hardlink_count st' = sx_hardlink_count st + (if eu_hardlink_file_count usage > 0 then 1 else 0)"
  using assms by (cases rule: scan_move.cases) auto

lemma links_inv_move:
  assumes move: "scan_move env st lbl st'" and inv: "links_inv st" and run: "scan_running st"
  shows "links_inv st'"
proof -
  have shape: "stack_shape (sx_stack st')" using stack_shape_move[OF move] inv by (simp add: links_inv_def)
  have fin: "finite (sx_seen_inodes st)" using inv by (simp add: links_inv_def)
  have seen: "finite (sx_seen_inodes st') \<and>
      int (card (sx_seen_inodes st')) \<le> max 0 (su_hardlink_dedup_max_entries (sx_setup st'))"
    using seen_move[OF move] setup_move[OF move] inv disk_bytes_usage(2,5)[OF _ fin]
    by (auto simp: links_inv_def split: option.splits)
  have "link_files.total st' = sx_hardlink_count st' \<and> 0 \<le> link_duplicates.total st'
      \<and> link_files.total st' - link_duplicates.total st' = int (card (sx_seen_inodes st'))"
    if alive: "sx_fatal_result st' = None"
  proof -
    have old: "link_files.total st = sx_hardlink_count st" "0 \<le> link_duplicates.total st"
        "link_files.total st - link_duplicates.total st = int (card (sx_seen_inodes st))" and sh: "stack_shape (sx_stack st)"
      using inv run by (auto simp: links_inv_def scan_running_def)
    note f = link_files.total_move[OF move run sh alive] and d = link_duplicates.total_move[OF move run sh alive]
    show ?thesis
    proof (cases lbl)
      case None
      then show ?thesis using f d old seen_move[OF move] by simp
    next
      case (Some usage)
      with seen_move[OF move] obtain s p where "disk_bytes_for_entry s (sx_seen_inodes st)
          (su_hardlink_dedup_max_entries (sx_setup st)) p = Inr (usage, sx_seen_inodes st')"
        and c: "sx_hardlink_count st' = sx_hardlink_count st + (if eu_hardlink_file_count usage > 0 then 1 else 0)"
        by auto
      from disk_bytes_usage[OF this(1) fin] show ?thesis using f d old c Some by (auto split: if_splits)
    qed
  qed
  then show ?thesis unfolding links_inv_def using shape seen by blast
qed

lemma links_inv_initial: "links_inv (initial_state su)"
  using stack_shape_initial[of su]
  by (simp add: links_inv_def link_files.total_def link_duplicates.total_def) (simp add: initial_state_def)

end
