(* ===== verification/Scanner_Safety.thy ===== *)
theory Scanner_Safety
  imports Scanner_Proofs
begin

text \<open>
  Termination of the scan, the cycle guard, independence of the collapse policy, and the scan's
  properties.  The measure of a state bounds the turns left: \<open>dir_work n p\<close> is the work below
  directory \<open>p\<close> when at most \<open>n\<close> more directories can be open at once; the cycle guard keeps that
  number below the number of directory identities the file system has.
\<close>

subsection \<open>The cycle guard\<close>

text \<open>Every directory entry the file system reports has an identity in \<open>U\<close>.\<close>

definition reports_within :: "scan_env \<Rightarrow> inode set \<Rightarrow> bool" where
  "reports_within env U \<longleftrightarrow>
     (\<forall>p es e s. env_scandir env p = Inr es \<longrightarrow> e \<in> set es \<longrightarrow> de_stat e = Inr s \<longrightarrow> S_ISDIR (st_mode s) \<longrightarrow> inode_key s \<in> U)"

definition dir_identities :: "scan_env \<Rightarrow> inode set \<Rightarrow> bool" where
  "dir_identities env U \<longleftrightarrow> finite U \<and> reports_within env U"

lemma should_descend_include:
  assumes "md_include (should_descend s m c)"
  shows "inode_key s \<notin> dx_active_directory_keys c"
    and "mp_one_filesystem (dx_mount_policy c) \<Longrightarrow> st_dev s = dx_root_device c"
    and "md_include (classify_mount m (Some (dx_mount_policy c)))"
  using assms
  by (auto simp: should_descend_def Let_def active_directory_cycle_decision_def active_mount_cycle_decision_def
      mount_verdict_def split: if_splits option.splits)

text \<open>The identities of the open directories.\<close>

definition open_ids :: "frame list \<Rightarrow> inode option list" where
  "open_ids fs = map fm_directory_identity (filter fm_initialized fs)"

definition entries_from :: "inode set \<Rightarrow> frame \<Rightarrow> bool" where
  "entries_from U f \<longleftrightarrow> (\<forall>e s. e \<in> set (fm_entries f) \<longrightarrow> de_stat e = Inr s \<longrightarrow> S_ISDIR (st_mode s) \<longrightarrow> inode_key s \<in> U)"

definition cycle_inv :: "inode set \<Rightarrow> scan_state \<Rightarrow> bool" where
  "cycle_inv U st \<longleftrightarrow> stack_shape (sx_stack st) \<and> distinct (open_ids (sx_stack st))
   \<and> set (open_ids (sx_stack st)) \<subseteq> Some ` U \<and> (\<forall>f\<in>set (sx_stack st). entries_from U f)
   \<and> sx_root_device st \<noteq> None
   \<and> (mp_one_filesystem (su_mount_policy (sx_setup st)) \<longrightarrow>
        (\<forall>k. Some k \<in> set (open_ids (sx_stack st)) \<longrightarrow> sx_root_device st = Some (fst k)))
   \<and> (\<forall>f rest s. sx_stack st = f # rest \<longrightarrow> \<not> fm_initialized f \<longrightarrow> fm_initial_stat f = Some s \<longrightarrow>
        inode_key s \<in> U \<and> Some (inode_key s) \<notin> set (open_ids rest)
        \<and> (mp_one_filesystem (su_mount_policy (sx_setup st)) \<longrightarrow> sx_root_device st = Some (st_dev s)))"

lemma open_ids_simps [simp]:
  "open_ids [] = []"
  "open_ids (f # fs) = (if fm_initialized f then fm_directory_identity f # open_ids fs else open_ids fs)"
  by (simp_all add: open_ids_def)

lemma open_ids_into_parent [simp]: "open_ids (into_parent row f rest) = open_ids rest"
  by (cases rest) simp_all

lemma entries_from_into_parent [simp]:
  "(\<forall>g\<in>set (into_parent row f rest). entries_from U g) \<longleftrightarrow> (\<forall>g\<in>set rest. entries_from U g)"
  by (cases rest) (simp_all add: entries_from_def)

lemma hd_into_parent:
  "into_parent row f rest = g # gs \<Longrightarrow> \<exists>p. rest = p # gs \<and> fm_initialized g = fm_initialized p"
  by (cases rest) auto

lemma active_ids: "Some k \<in> set (open_ids fs) \<Longrightarrow> k \<in> set (List.map_filter fm_directory_identity fs)"
  by (induction fs) (auto simp: List.map_filter_simps split: if_splits option.splits)

lemma cycle_inv_move:
  assumes move: "scan_move env st lbl st'" and inv: "cycle_inv U st" and U: "reports_within env U"
  shows "cycle_inv U st'"
proof -
  have shape: "stack_shape (sx_stack st')" using stack_shape_move[OF move] inv by (simp add: cycle_inv_def)
  show ?thesis using move
  proof (cases rule: scan_move.cases)
    case (root_failed f rest err exc rd)
    then show ?thesis using inv shape by (auto simp: cycle_inv_def)
  next
    case (child_failed f rest err exc g rd)
    have init: "\<forall>p\<in>set rest. fm_initialized p" using inv child_failed by (auto simp: cycle_inv_def stack_shape_def)
    then show ?thesis using inv shape child_failed by (auto simp: cycle_inv_def dest!: hd_into_parent)
  next
    case (opened f rest s es rd)
    have fresh: "fresh_frame f" using inv opened by (simp add: cycle_inv_def stack_shape_def)
    then have s: "fm_initial_stat f = Some s" using opened(6) by (auto simp: fresh_frame_def)
    have new: "inode_key s \<in> U" "Some (inode_key s) \<notin> set (open_ids rest)"
      "mp_one_filesystem (su_mount_policy (sx_setup st)) \<longrightarrow> sx_root_device st = Some (st_dev s)"
      using inv opened(3,4) s by (auto simp: cycle_inv_def)
    have ent: "entries_from U ((open_frame st s f)\<lparr> fm_entries := sorted_entries es, fm_initialized := True \<rparr>)"
      using U opened(7) by (auto simp: entries_from_def sorted_entries_def reports_within_def)
    show ?thesis using inv shape opened new ent by (auto simp: cycle_inv_def inode_key_def)
  next
    case (finished f rest)
    have init: "\<forall>p\<in>set rest. fm_initialized p" using inv finished by (auto simp: cycle_inv_def stack_shape_def)
    then show ?thesis using inv shape finished by (auto simp: cycle_inv_def dest!: hd_into_parent)
  next
    case (collapsed f rest r)
    have init: "\<forall>p\<in>set rest. fm_initialized p" using inv collapsed by (auto simp: cycle_inv_def stack_shape_def)
    then show ?thesis using inv shape collapsed by (auto simp: cycle_inv_def dest!: hd_into_parent)
  next
    case (directory_pushed f rest e s r mid sig)
    let ?c = "descend_context_of st s (counted f r) rest"
    note inc = should_descend_include[OF directory_pushed(9)]
    have "Some (inode_key s) \<notin> set (open_ids (counted f r # rest))"
      using inc(1) active_ids[of "inode_key s" "counted f r # rest"] by (auto simp: descend_context_of_def)
    moreover have "e \<in> set (fm_entries f)" using directory_pushed(5,6) by simp
    then have "inode_key s \<in> U"
      using inv directory_pushed(3,7,8) unfolding cycle_inv_def entries_from_def by simp
    moreover have "sx_root_device st = Some (st_dev s)" if "mp_one_filesystem (su_mount_policy (sx_setup st))"
      using inc(2) inv that by (auto simp: descend_context_of_def cycle_inv_def split: option.splits)
    moreover have "entries_from U (counted f r)" using inv directory_pushed by (auto simp: cycle_inv_def entries_from_def)
    ultimately show ?thesis using inv shape directory_pushed by (auto simp: cycle_inv_def entries_from_def)
  qed (use inv shape in \<open>auto simp: cycle_inv_def entries_from_def\<close>)
qed

lemma cycle_inv_initial:
  assumes "inode_key (su_root_stat su) \<in> U"
  shows "cycle_inv U (initial_state su)"
  using stack_shape_initial[of su] assms
  by (simp add: cycle_inv_def) (simp add: initial_state_def entries_from_def)

text \<open>With finitely many directory identities the stack is never deeper than their number.\<close>

lemma open_ids_length: "\<forall>f\<in>set fs. fm_initialized f \<Longrightarrow> length (open_ids fs) = length fs"
  by (induction fs) auto

lemma cycle_inv_depth:
  assumes "cycle_inv U st" and U: "finite U" and st: "sx_stack st = f # rest"
    and top: "\<not> fm_initialized f"
  shows "length rest < card U"
proof -
  have rest: "\<forall>g\<in>set rest. fm_initialized g" and fresh: "fresh_frame f"
    using assms by (auto simp: cycle_inv_def stack_shape_def)
  then obtain s where s: "fm_initial_stat f = Some s" by (auto simp: fresh_frame_def)
  let ?ids = "Some (inode_key s) # open_ids rest"
  have "distinct ?ids" "set ?ids \<subseteq> Some ` U" using assms(1) st top s by (auto simp: cycle_inv_def)
  then have "length ?ids \<le> card (Some ` U)" using U by (metis distinct_card card_mono finite_imageI)
  also have "\<dots> = card U" by (simp add: card_image)
  finally show ?thesis using open_ids_length[OF rest] by simp
qed

subsection \<open>Termination\<close>

primrec dir_work :: "scan_env \<Rightarrow> nat \<Rightarrow> bytes \<Rightarrow> nat" where
  "dir_work env 0 p = 0"
| "dir_work env (Suc n) p =
     (case env_scandir env p of Inl _ \<Rightarrow> 0 | Inr es \<Rightarrow> sum_list (map (\<lambda>e. 3 + dir_work env n (de_path e)) es))"

definition frame_work :: "scan_env \<Rightarrow> nat \<Rightarrow> frame \<Rightarrow> nat" where
  "frame_work env n f =
     (if fm_initialized f
      then 1 + sum_list (map (\<lambda>e. 3 + dir_work env (n - 1) (de_path e)) (drop (fm_next_index f) (fm_entries f)))
      else 2 + dir_work env n (fm_path_raw f))"

fun stack_work :: "scan_env \<Rightarrow> nat \<Rightarrow> frame list \<Rightarrow> nat" where
  "stack_work env n [] = 0"
| "stack_work env n (f # fs) = frame_work env (n - length fs) f + stack_work env n fs"

lemma stack_work_into_parent [simp]: "stack_work env n (into_parent row f rest) = stack_work env n rest"
  by (cases rest) (simp_all add: frame_work_def)

lemma frame_work_more:
  assumes "fm_initialized f" and "fm_next_index f < length (fm_entries f)"
  shows "frame_work env n f = 3 + dir_work env (n - 1) (de_path (fm_entries f ! fm_next_index f))
      + frame_work env n (advanced f)"
  using assms by (simp add: frame_work_def Cons_nth_drop_Suc[symmetric])

lemma frame_work_pos: "0 < frame_work env n f"
  by (simp add: frame_work_def)

lemma frame_work_same:
  "fm_initialized g = fm_initialized f \<Longrightarrow> fm_next_index g = fm_next_index f \<Longrightarrow> fm_entries g = fm_entries f
   \<Longrightarrow> fm_path_raw g = fm_path_raw f \<Longrightarrow> frame_work env n g = frame_work env n f"
  by (simp add: frame_work_def)

lemma frame_work_next:
  assumes "fm_initialized f" and "fm_next_index f < length (fm_entries f)" and "fm_initialized g"
    and "fm_next_index g = Suc (fm_next_index f)" and "fm_entries g = fm_entries f"
  shows "frame_work env n g < frame_work env n f"
  using assms by (simp add: frame_work_def Cons_nth_drop_Suc[symmetric])

lemma sorted_entries_work:
  "sum_list (map h (sorted_entries es)) = sum_list (map h es)" for h :: "dir_entry \<Rightarrow> nat"
  unfolding sorted_entries_def by (metis mset_map mset_sort sum_mset_sum_list)

lemma scan_move_work:
  assumes move: "scan_move env st lbl st'" and inv: "cycle_inv U st" and U: "finite U"
  shows "stack_work env (card U) (sx_stack st') < stack_work env (card U) (sx_stack st)"
  using move
proof (cases rule: scan_move.cases)
  case (opened f rest s es rd)
  then obtain m where m: "card U - length rest = Suc m"
    using cycle_inv_depth[OF inv U, of f rest] by (metis Suc_diff_Suc)
  let ?g = "(open_frame st s f)\<lparr> fm_entries := sorted_entries es, fm_initialized := True \<rparr>"
  have next0: "fm_next_index f = 0" using inv opened by (auto simp: cycle_inv_def stack_shape_def fresh_frame_def)
  have "frame_work env (Suc m) ?g = 1 + sum_list (map (\<lambda>e. 3 + dir_work env m (de_path e)) es)"
    using next0 by (simp add: frame_work_def sorted_entries_work del: sum_list_addf)
  moreover have "frame_work env (Suc m) f = 2 + sum_list (map (\<lambda>e. 3 + dir_work env m (de_path e)) es)"
    using opened(4,7) by (simp add: frame_work_def)
  ultimately show ?thesis using opened(2,3) m by simp
next
  case (directory_pushed f rest e s r mid sig)
  have "frame_work env (card U - length rest) (counted f r) = frame_work env (card U - length rest) (advanced f)"
    by (rule frame_work_same) simp_all
  moreover have "frame_work env (card U - Suc (length rest)) (new_frame (de_path e) (Some (fm_path_raw f)) (fm_depth f + 1) (Some s) mid sig)
      = 2 + dir_work env (card U - length rest - 1) (de_path e)"
    by (simp add: frame_work_def)
  ultimately show ?thesis
    using directory_pushed(2,3) frame_work_more[OF directory_pushed(4,5), of env "card U - length rest"] directory_pushed(6)
    by simp
next
  case (file_limited f rest err ab fe)
  then show ?thesis using frame_work_more[OF file_limited(4,5), of env "card U - length rest"]
    by (simp add: frame_work_def)
qed (simp_all add: frame_work_pos frame_work_next)

lemma scan_stack_terminates:
  assumes U: "dir_identities env U" and inv: "cycle_inv U st"
  shows "\<exists>st'. scan_stack env st = Some st'"
  unfolding scan_stack_def
proof (rule measure_while_option_Some[where P = "cycle_inv U" and f = "\<lambda>st. stack_work env (card U) (sx_stack st)"])
  fix s
  assume "cycle_inv U s" and "scan_running s"
  then obtain lbl where "scan_move env s lbl (scan_step env s)"
    using scan_step_move[of s env] by (auto simp: scan_running_def)
  then show "cycle_inv U (scan_step env s)
      \<and> stack_work env (card U) (sx_stack (scan_step env s)) < stack_work env (card U) (sx_stack s)"
    using cycle_inv_move scan_move_work \<open>cycle_inv U s\<close> U by (auto simp: dir_identities_def)
qed (rule inv)

subsection \<open>Independence of the collapse policy\<close>

text \<open>
  Two runs of the same scan under different collapse policies stay in step: their frames differ in
  \<open>row_start\<close> and \<open>collapse_reason\<close> only, and their rows are never read back.
\<close>

definition frame_sim :: "frame \<Rightarrow> frame \<Rightarrow> bool" where
  "frame_sim f g \<longleftrightarrow> (\<exists>a b. g = f\<lparr> fm_row_start := a, fm_collapse_reason := b \<rparr>)"

definition row_sim :: "directory_aggregate \<Rightarrow> directory_aggregate \<Rightarrow> bool" where
  "row_sim r s \<longleftrightarrow>
     da_path r = da_path s \<and> da_parent_path r = da_parent_path s \<and> da_depth r = da_depth s
   \<and> da_apparent_bytes r = da_apparent_bytes s \<and> da_disk_bytes r = da_disk_bytes s
   \<and> da_file_count r = da_file_count s \<and> da_dir_count r = da_dir_count s
   \<and> da_hardlink_file_count r = da_hardlink_file_count s
   \<and> da_hardlink_duplicate_count r = da_hardlink_duplicate_count s
   \<and> da_hardlink_duplicate_disk_bytes r = da_hardlink_duplicate_disk_bytes s
   \<and> da_hardlink_first_seen_disk_bytes r = da_hardlink_first_seen_disk_bytes s"

definition setup_sim :: "scan_setup \<Rightarrow> scan_setup \<Rightarrow> bool" where
  "setup_sim su sv \<longleftrightarrow> (\<exists>cp nv. sv = su\<lparr> su_collapse_policy := cp, su_collapse_never_paths := nv \<rparr>)"

definition core_sim :: "scan_state \<Rightarrow> scan_state \<Rightarrow> bool" where
  "core_sim s t \<longleftrightarrow> setup_sim (sx_setup s) (sx_setup t) \<and> sx_errors t = sx_errors s
   \<and> sx_seen_inodes t = sx_seen_inodes s \<and> sx_had_failure t = sx_had_failure s
   \<and> sx_hardlink_count t = sx_hardlink_count s \<and> sx_root_device t = sx_root_device s"

definition result_sim :: "scan_result \<Rightarrow> scan_result \<Rightarrow> bool" where
  "result_sim r r' \<longleftrightarrow> sc_status r = sc_status r' \<and> sc_fatal_error r = sc_fatal_error r' \<and> sc_errors r = sc_errors r'
   \<and> sc_hardlink_count r = sc_hardlink_count r' \<and> sc_root_path r = sc_root_path r'
   \<and> (sc_fatal_error r = None \<longrightarrow> sc_rows r \<noteq> [] \<and> sc_rows r' \<noteq> [] \<and> row_sim (last (sc_rows r)) (last (sc_rows r')))"

definition state_sim :: "scan_state \<Rightarrow> scan_state \<Rightarrow> bool" where
  "state_sim s t \<longleftrightarrow> core_sim s t \<and> list_all2 frame_sim (sx_stack s) (sx_stack t)
   \<and> rel_option result_sim (sx_fatal_result s) (sx_fatal_result t)
   \<and> (sx_stack s = [] \<longrightarrow> sx_fatal_result s = None \<longrightarrow>
        sx_rows s \<noteq> [] \<and> sx_rows t \<noteq> [] \<and> row_sim (last (sx_rows s)) (last (sx_rows t)))"

lemma frame_sim_fields:
  assumes "frame_sim f g"
  shows "fm_path_raw g = fm_path_raw f" "fm_parent_path g = fm_parent_path f" "fm_depth g = fm_depth f"
    "fm_initial_stat g = fm_initial_stat f" "fm_directory_identity g = fm_directory_identity f"
    "fm_mount_id g = fm_mount_id f" "fm_mount_signature g = fm_mount_signature f"
    "fm_folded_evidence_counts g = fm_folded_evidence_counts f" "fm_entries g = fm_entries f"
    "fm_next_index g = fm_next_index f" "fm_initialized g = fm_initialized f"
  using assms by (auto simp: frame_sim_def)

lemma frame_sim_refl: "frame_sim f (f\<lparr> fm_row_start := a, fm_collapse_reason := b \<rparr>)" "frame_sim f f"
proof -
  show "frame_sim f (f\<lparr> fm_row_start := a, fm_collapse_reason := b \<rparr>)" unfolding frame_sim_def by blast
  have "f = f\<lparr> fm_row_start := fm_row_start f, fm_collapse_reason := fm_collapse_reason f \<rparr>" by simp
  then show "frame_sim f f" unfolding frame_sim_def by metis
qed

text \<open>An update of a frame that neither reads nor writes the two fields keeps frames similar.\<close>

lemma frame_sim_map:
  assumes "frame_sim f g"
    and "\<And>a b. h (f\<lparr> fm_row_start := a, fm_collapse_reason := b \<rparr>) = (h f)\<lparr> fm_row_start := a, fm_collapse_reason := b \<rparr>"
  shows "frame_sim (h f) (h g)"
  using assms by (auto simp: frame_sim_def)

lemma evidence_commute:
  "record_folded_evidence k (f\<lparr> fm_row_start := a, fm_collapse_reason := b \<rparr>)
   = (record_folded_evidence k f)\<lparr> fm_row_start := a, fm_collapse_reason := b \<rparr>"
  by (simp add: record_folded_evidence_def Let_def)

lemma merge_sim:
  assumes "frame_sim f g" and "row_sim r s"
  shows "frame_sim (merge_child r ev f) (merge_child s ev g)"
proof -
  have "merge_child s ev g = merge_child r ev g"
    using assms(2) by (simp add: merge_child_def row_sim_def Let_def cong: option.case_cong if_cong)
  moreover have "frame_sim (merge_child r ev f) (merge_child r ev g)"
    by (rule frame_sim_map[OF assms(1)])
      (simp add: merge_child_def Let_def split: option.split)
  ultimately show ?thesis by simp
qed

lemma into_parent_sim:
  assumes "row_sim r s" and "frame_sim f g" and "list_all2 frame_sim rest rest'"
  shows "list_all2 frame_sim (into_parent r f rest) (into_parent s g rest')"
  using assms(3) merge_sim[OF _ assms(1)] frame_sim_fields(8)[OF assms(2)] by cases auto

lemma row_sim_rows:
  assumes "frame_sim f g"
  shows "row_sim (directory_row f) (directory_row g)" "row_sim (directory_row f) (collapsed_directory_row g x)"
    "row_sim (collapsed_directory_row f y) (directory_row g)" "row_sim (collapsed_directory_row f y) (collapsed_directory_row g x)"
  using assms by (auto simp: frame_sim_def row_sim_def directory_row_def collapsed_directory_row_def)

lemma row_sim_refl [simp]: "row_sim r r"
  by (simp add: row_sim_def)

lemma map_filter_sim:
  assumes "list_all2 frame_sim fs gs" and "\<And>f g. frame_sim f g \<Longrightarrow> h g = h f"
  shows "List.map_filter h gs = List.map_filter h fs"
  using assms(1) by induction (simp_all add: List.map_filter_simps assms(2) split: option.split)

lemma open_frame_sim:
  assumes "core_sim s t" and "frame_sim f g"
  shows "frame_sim (open_frame s x f) (open_frame t x g)"
proof -
  from assms(2) obtain a b where g: "g = f\<lparr> fm_row_start := a, fm_collapse_reason := b \<rparr>" by (auto simp: frame_sim_def)
  have m: "mount_of (sx_setup t) = mount_of (sx_setup s)"
    using assms(1) by (auto simp: core_sim_def setup_sim_def mount_of_def)
  have "open_frame t x g = (open_frame s x f)\<lparr> fm_row_start := length (sx_rows t),
      fm_collapse_reason := initial_collapse_reason (fm_path_raw f) (su_collapse_policy (sx_setup t)) (su_collapse_never_paths (sx_setup t)) \<rparr>"
    by (simp add: open_frame_def Let_def g m)
  then show ?thesis by (simp add: frame_sim_refl)
qed

lemma initialize_failed_eq:
  "initialize_failed exc f rest st =
     (let err = make_scan_error (fm_path_raw f) exc; g = given_up f err in
      if fm_depth f = 0
      then st\<lparr> sx_errors := sx_errors st @ [err],
               sx_fatal_result := Some (scan_failure_result (su_root_path (sx_setup st)) err (sx_rows st)
                                            (sx_errors st @ [err]) (sx_hardlink_count st)),
               sx_stack := [] \<rparr>
      else st\<lparr> sx_errors := sx_errors st @ [err], sx_rows := sx_rows st @ [directory_row g],
               sx_stack := into_parent (directory_row g) g rest,
               sx_had_failure := sx_had_failure st \<or> is_snapshot_completeness_error err \<rparr>)"
  by (simp add: initialize_failed_def Let_def into_parent_def)

lemma initialize_failed_sim:
  assumes "core_sim s t" and "frame_sim f g" and "list_all2 frame_sim rest rest'"
    and "sx_fatal_result s = None" and "sx_fatal_result t = None"
  shows "state_sim (initialize_failed exc f rest s) (initialize_failed exc g rest' t)"
proof -
  have root: "su_root_path (sx_setup t) = su_root_path (sx_setup s)"
    using assms(1) by (auto simp: core_sim_def setup_sim_def)
  have given: "frame_sim (given_up f err) (given_up g err)" for err
    by (rule frame_sim_map[OF assms(2)]) (simp add: evidence_commute)
  note rows = row_sim_rows(1)[OF given]
  show ?thesis
    using assms(1,4,5) frame_sim_fields[OF assms(2)] root into_parent_sim[OF rows given assms(3)] rows
    by (simp add: initialize_failed_eq Let_def state_sim_def core_sim_def result_sim_def scan_failure_result_def)
qed

lemma initialize_frame_sim:
  assumes core: "core_sim s t" and f: "frame_sim f g" and rest: "list_all2 frame_sim rest rest'"
    and alive: "sx_fatal_result s = None" "sx_fatal_result t = None"
  shows "state_sim (initialize_frame env f rest s) (initialize_frame env g rest' t)"
proof -
  note fields = frame_sim_fields[OF f]
  have q: "(case fm_initial_stat g of Some x \<Rightarrow> Inr x | None \<Rightarrow> env_stat env (fm_path_raw g))
      = (case fm_initial_stat f of Some x \<Rightarrow> Inr x | None \<Rightarrow> env_stat env (fm_path_raw f))"
    by (simp only: fields)
  show ?thesis
  proof (cases "case fm_initial_stat f of Some x \<Rightarrow> Inr x | None \<Rightarrow> env_stat env (fm_path_raw f)")
    case (Inl exc)
    then show ?thesis
      using initialize_failed_sim[OF core f rest alive] by (simp add: initialize_frame_def q)
  next
    case (Inr x)
    let ?dev = "\<lambda>st. case sx_root_device st of None \<Rightarrow> st\<lparr> sx_root_device := Some (st_dev x) \<rparr> | Some _ \<Rightarrow> st"
    have dev: "core_sim (?dev s) (?dev t)" "sx_fatal_result (?dev s) = None" "sx_fatal_result (?dev t) = None"
      using core alive by (auto simp: core_sim_def split: option.split)
    note o = open_frame_sim[OF core f, of x]
    have op: "fm_path_raw (open_frame s x f) = fm_path_raw f" "fm_path_raw (open_frame t x g) = fm_path_raw f"
      using fields by simp_all
    show ?thesis
    proof (cases "S_ISDIR (st_mode x)")
      case False
      then show ?thesis using Inr initialize_failed_sim[OF core f rest alive]
        by (simp add: initialize_frame_def q) (simp add: fields)
    next
      case dir: True
      show ?thesis
      proof (cases "env_scandir env (fm_path_raw f)")
        case (Inl exc)
        then show ?thesis
          using Inr dir initialize_failed_sim[OF dev(1) o rest dev(2,3)]
          by (simp add: initialize_frame_def q Let_def) (simp add: fields)
      next
        case es: (Inr es)
        have "frame_sim ((open_frame s x f)\<lparr> fm_entries := sorted_entries es, fm_initialized := True \<rparr>)
            ((open_frame t x g)\<lparr> fm_entries := sorted_entries es, fm_initialized := True \<rparr>)"
          by (rule frame_sim_map[OF o]) simp
        then show ?thesis
          using Inr dir es dev rest
          by (simp add: initialize_frame_def q Let_def) (simp add: fields state_sim_def core_sim_def)
      qed
    qed
  qed
qed

lemma finish_frame_sim:
  assumes core: "core_sim s t" and f: "frame_sim f g" and rest: "list_all2 frame_sim rest rest'"
    and alive: "sx_fatal_result s = None" "sx_fatal_result t = None"
  shows "state_sim (finish_frame f rest s) (finish_frame g rest' t)"
proof -
  have row: "row_sim (case fm_collapse_reason f of Some r \<Rightarrow> collapsed_directory_row f r | None \<Rightarrow> directory_row f)
      (case fm_collapse_reason g of Some r \<Rightarrow> collapsed_directory_row g r | None \<Rightarrow> directory_row g)"
    using row_sim_rows[OF f] by (simp split: option.split)
  show ?thesis
    using core alive row into_parent_sim[OF row f rest]
    unfolding finish_frame_def Let_def into_parent_def[symmetric] by (simp add: state_sim_def core_sim_def)
qed

lemma count_child_sim:
  assumes "frame_sim f g"
  shows "frame_sim (count_child_directory su f) (count_child_directory sv g)"
proof -
  let ?d = "\<lambda>f. f\<lparr> fm_direct_child_dir_count := fm_direct_child_dir_count f + 1 \<rparr>"
  have step: "\<exists>a b. count_child_directory su f = (?d f)\<lparr> fm_row_start := a, fm_collapse_reason := b \<rparr>" for su f
  proof -
    have "?d f = (?d f)\<lparr> fm_row_start := fm_row_start f, fm_collapse_reason := fm_collapse_reason f \<rparr>" by simp
    moreover have "(?d f)\<lparr> fm_collapse_reason := r \<rparr> = (?d f)\<lparr> fm_row_start := fm_row_start f, fm_collapse_reason := r \<rparr>" for r
      by simp
    ultimately show ?thesis unfolding count_child_directory_def Let_def by metis
  qed
  obtain a b where f: "count_child_directory su f = (?d f)\<lparr> fm_row_start := a, fm_collapse_reason := b \<rparr>"
    using step by blast
  obtain c d where g: "count_child_directory sv g = (?d g)\<lparr> fm_row_start := c, fm_collapse_reason := d \<rparr>"
    using step by blast
  from assms obtain x y where "g = f\<lparr> fm_row_start := x, fm_collapse_reason := y \<rparr>" by (auto simp: frame_sim_def)
  then show ?thesis unfolding f g by (auto simp: frame_sim_def)
qed

lemma descend_context_sim:
  assumes core: "core_sim s t" and f: "frame_sim f g" and rest: "list_all2 frame_sim rest rest'"
  shows "descend_context_of t x g rest' = descend_context_of s x f rest"
proof -
  have all: "list_all2 frame_sim (f # rest) (g # rest')" using f rest by simp
  show ?thesis
    using core frame_sim_fields[OF f] map_filter_sim[OF all, of fm_mount_id] map_filter_sim[OF all, of fm_mount_signature]
      map_filter_sim[OF all, of fm_directory_identity] frame_sim_fields(5,6,7)
    by (auto simp: descend_context_of_def core_sim_def setup_sim_def)
qed

lemma process_directory_entry_sim:
  assumes core: "core_sim s t" and f: "frame_sim f g" and rest: "list_all2 frame_sim rest rest'"
    and alive: "sx_fatal_result s = None" "sx_fatal_result t = None"
  shows "state_sim (process_directory_entry p x f rest s) (process_directory_entry p x g rest' t)"
proof -
  have su: "mount_of (sx_setup t) p = mount_of (sx_setup s) p" "su_record_skipped (sx_setup t) = su_record_skipped (sx_setup s)"
    using core by (auto simp: core_sim_def setup_sim_def mount_of_def)
  define F where "F = count_child_directory (sx_setup s) f"
  define G where "G = count_child_directory (sx_setup t) g"
  have FG: "frame_sim F G" unfolding F_def G_def by (rule count_child_sim[OF f])
  note fields = frame_sim_fields[OF FG]
  have ev: "frame_sim (record_folded_evidence k F) (record_folded_evidence k G)" for k
    by (rule frame_sim_map[OF FG]) (rule evidence_commute)
  show ?thesis
    unfolding process_directory_entry_def Let_def F_def[symmetric] G_def[symmetric] su
      descend_context_sim[OF core FG rest]
    using core alive rest ev merge_sim[OF ev row_sim_refl] FG fields
    by (simp add: state_sim_def core_sim_def frame_sim_refl split: option.split)
qed

lemma process_file_entry_sim:
  assumes core: "core_sim s t" and f: "frame_sim f g" and rest: "list_all2 frame_sim rest rest'"
    and alive: "sx_fatal_result s = None" "sx_fatal_result t = None"
  shows "state_sim (process_file_entry p x f rest s) (process_file_entry p x g rest' t)"
proof -
  from f obtain a b where g: "g = f\<lparr> fm_row_start := a, fm_collapse_reason := b \<rparr>" by (auto simp: frame_sim_def)
  have lim: "su_hardlink_dedup_max_entries (sx_setup t) = su_hardlink_dedup_max_entries (sx_setup s)"
    "sx_seen_inodes t = sx_seen_inodes s"
    using core by (auto simp: core_sim_def setup_sim_def)
  show ?thesis
  proof (cases "disk_bytes_for_entry x (sx_seen_inodes s) (su_hardlink_dedup_max_entries (sx_setup s)) p")
    case (Inl err)
    then show ?thesis using core alive rest
      by (simp add: process_file_entry_def Let_def lim g record_folded_evidence_def state_sim_def core_sim_def)
        (unfold frame_sim_def, rule exI[of _ a], rule exI[of _ b], simp)
  next
    case (Inr us)
    obtain u seen where us: "us = (u, seen)" by fastforce
    show ?thesis using core alive rest Inr us
      by (simp add: process_file_entry_def Let_def lim g state_sim_def core_sim_def)
        (unfold frame_sim_def, rule exI[of _ a], rule exI[of _ b], simp)
  qed
qed

lemma process_frame_entry_sim:
  assumes core: "core_sim s t" and f: "frame_sim f g" and rest: "list_all2 frame_sim rest rest'"
    and alive: "sx_fatal_result s = None" "sx_fatal_result t = None"
  shows "state_sim (process_frame_entry f rest s) (process_frame_entry g rest' t)"
proof -
  note fields = frame_sim_fields[OF f]
  have su: "su_exclude_paths (sx_setup t) = su_exclude_paths (sx_setup s)" "su_record_skipped (sx_setup t) = su_record_skipped (sx_setup s)"
    using core by (auto simp: core_sim_def setup_sim_def)
  let ?e = "fm_entries f ! fm_next_index f"
  have adv: "frame_sim (advanced f) (advanced g)" by (rule frame_sim_map[OF f]) simp
  have entry: "fm_entries g ! fm_next_index g = ?e" by (simp add: fields)
  have ev: "frame_sim (record_folded_evidence k (advanced f)) (record_folded_evidence k (advanced g))" for k
    by (rule frame_sim_map[OF adv]) (rule evidence_commute)
  show ?thesis
  proof (cases "is_excluded (de_path ?e) (su_exclude_paths (sx_setup s))")
    case True
    have silent: "state_sim (s\<lparr> sx_errors := sx_errors s @ es, sx_stack := record_folded_evidence k (advanced f) # rest \<rparr>)
        (t\<lparr> sx_errors := sx_errors t @ es, sx_stack := record_folded_evidence k (advanced g) # rest' \<rparr>)" for es k
      using core alive rest ev by (simp add: state_sim_def core_sim_def)
    have skipped: "state_sim (s\<lparr> sx_errors := sx_errors s @ es, sx_rows := sx_rows s @ [row],
            sx_stack := merge_child row None (record_folded_evidence k (advanced f)) # rest \<rparr>)
        (t\<lparr> sx_errors := sx_errors t @ es, sx_rows := sx_rows t @ [row],
            sx_stack := merge_child row None (record_folded_evidence k (advanced g)) # rest' \<rparr>)" for es k row
      using core alive rest merge_sim[OF ev row_sim_refl] by (simp add: state_sim_def core_sim_def)
    show ?thesis
      using silent skipped silent[where es = "[]", simplified] skipped[where es = "[]", simplified] True
      by (simp add: process_frame_entry_def Let_def entry su fields split: sum.split bool.split)
  next
    case False
    show ?thesis
    proof (cases "de_stat ?e")
      case (Inl exc)
      have "frame_sim ((record_folded_evidence k (advanced f))\<lparr> fm_error := x \<rparr>)
          ((record_folded_evidence k (advanced g))\<lparr> fm_error := x \<rparr>)" for k x
        by (rule frame_sim_map[OF ev]) simp
      moreover have "fm_error g = fm_error f" using f by (auto simp: frame_sim_def)
      ultimately show ?thesis using core alive rest False Inl
        by (simp add: process_frame_entry_def Let_def entry su state_sim_def core_sim_def)
    next
      case (Inr x)
      then show ?thesis
        using False process_directory_entry_sim[OF core adv rest alive] process_file_entry_sim[OF core adv rest alive]
        by (simp add: process_frame_entry_def Let_def entry su)
    qed
  qed
qed

lemma scan_step_sim:
  assumes "state_sim s t" and "scan_running s"
  shows "state_sim (scan_step env s) (scan_step env t)"
proof -
  have core: "core_sim s t" and stacks: "list_all2 frame_sim (sx_stack s) (sx_stack t)"
    and alive: "sx_fatal_result s = None" "sx_fatal_result t = None"
    using assms by (auto simp: state_sim_def scan_running_def)
  obtain f rest g rest' where s: "sx_stack s = f # rest" and t: "sx_stack t = g # rest'"
      and f: "frame_sim f g" and rest: "list_all2 frame_sim rest rest'"
    using stacks assms(2) by (auto simp: scan_running_def list_all2_Cons1 neq_Nil_conv)
  show ?thesis
    using initialize_frame_sim[OF core f rest alive] finish_frame_sim[OF core f rest alive]
      process_frame_entry_sim[OF core f rest alive] frame_sim_fields[OF f]
    by (simp add: scan_step_def s t)
qed

text \<open>Two loops whose states stay related end together, in related states.\<close>

lemma while_option_sim:
  assumes init: "R s t" and test: "\<And>s t. R s t \<Longrightarrow> b s = b' t"
    and step: "\<And>s t. R s t \<Longrightarrow> b s \<Longrightarrow> R (c s) (c' t)"
  shows "rel_option R (while_option b c s) (while_option b' c' t)"
proof -
  have iter: "(\<forall>i<k. b ((c ^^ i) s)) \<Longrightarrow> R ((c ^^ k) s) ((c' ^^ k) t)" for k
    by (induction k) (auto intro: init step)
  have tests: "(\<forall>i<k. b ((c ^^ i) s)) \<longleftrightarrow> (\<forall>i<k. b' ((c' ^^ i) t))" for k
  proof (induction k)
    case (Suc k)
    then show ?case using iter[of k] test by (auto simp: less_Suc_eq)
  qed simp
  have stops: "(\<exists>k. \<not> b ((c ^^ k) s)) \<longleftrightarrow> (\<exists>k. \<not> b' ((c' ^^ k) t))"
  proof -
    have "(\<forall>k. b ((c ^^ k) s)) \<longleftrightarrow> (\<forall>k. b' ((c' ^^ k) t))" using tests by (metis lessI)
    then show ?thesis by blast
  qed
  have least: "(LEAST k. \<not> b ((c ^^ k) s)) = (LEAST k. \<not> b' ((c' ^^ k) t))" if "\<exists>k. \<not> b ((c ^^ k) s)"
  proof (rule Least_equality[symmetric])
    let ?n = "LEAST k. \<not> b ((c ^^ k) s)"
    have n: "\<not> b ((c ^^ ?n) s)" using that by (rule LeastI_ex)
    have m: "\<forall>i<?n. b ((c ^^ i) s)" by (auto dest: not_less_Least)
    show "\<not> b' ((c' ^^ ?n) t)" using n iter[OF m] test by blast
    show "?n \<le> y" if "\<not> b' ((c' ^^ y) t)" for y
    proof (rule ccontr)
      assume "\<not> ?n \<le> y"
      then show False using that m tests[of ?n] by simp
    qed
  qed
  show ?thesis
  proof (cases "\<exists>k. \<not> b ((c ^^ k) s)")
    case True
    let ?n = "LEAST k. \<not> b ((c ^^ k) s)"
    have "\<forall>i<?n. b ((c ^^ i) s)" by (auto dest: not_less_Least)
    then show ?thesis using True stops least iter[of ?n] by (simp add: while_option_def)
  next
    case False
    then show ?thesis using stops by (simp add: while_option_def)
  qed
qed

subsection \<open>The last row is the root's\<close>

definition root_inv :: "scan_state \<Rightarrow> bool" where
  "root_inv st \<longleftrightarrow> stack_shape (sx_stack st)
   \<and> (if sx_stack st = []
      then sx_fatal_result st = None \<longrightarrow> da_path (last (sx_rows st)) = su_root_raw (sx_setup st)
             \<and> da_parent_path (last (sx_rows st)) = None \<and> da_depth (last (sx_rows st)) = 0
      else fm_path_raw (last (sx_stack st)) = su_root_raw (sx_setup st) \<and> fm_parent_path (last (sx_stack st)) = None)
   \<and> su_root_path (sx_setup st) = su_root_raw (sx_setup st)"

lemma last_into_parent:
  "rest \<noteq> [] \<Longrightarrow> fm_path_raw (last (into_parent row f rest)) = fm_path_raw (last rest)
     \<and> fm_parent_path (last (into_parent row f rest)) = fm_parent_path (last rest)"
  by (cases rest) simp_all

lemma into_parent_eq_Nil [simp]: "into_parent row f rest = [] \<longleftrightarrow> rest = []"
  by (cases rest) simp_all

lemma row_fields [simp]:
  "da_path (directory_row f) = fm_path_raw f" "da_parent_path (directory_row f) = fm_parent_path f"
  "da_depth (directory_row f) = fm_depth f" "da_path (collapsed_directory_row f r) = fm_path_raw f"
  "da_parent_path (collapsed_directory_row f r) = fm_parent_path f" "da_depth (collapsed_directory_row f r) = fm_depth f"
  by (simp_all add: directory_row_def collapsed_directory_row_def)

lemma root_inv_move:
  assumes move: "scan_move env st lbl st'" and inv: "root_inv st"
  shows "root_inv st'"
proof -
  have shape: "stack_shape (sx_stack st')" using stack_shape_move[OF move] inv by (simp add: root_inv_def)
  show ?thesis using move
  proof (cases rule: scan_move.cases)
    case (child_failed f rest err exc g rd)
    have "rest \<noteq> []" using inv child_failed(3,5) by (auto simp: root_inv_def stack_shape_def)
    then show ?thesis using inv shape child_failed(2,3) by (simp add: root_inv_def last_into_parent)
  next
    case (finished f rest)
    then show ?thesis using inv shape
      by (cases "rest = []") (auto simp: root_inv_def last_into_parent stack_shape_def)
  next
    case (collapsed f rest r)
    then show ?thesis using inv shape
      by (cases "rest = []") (auto simp: root_inv_def last_into_parent stack_shape_def)
  qed (use inv shape in \<open>auto simp: root_inv_def split: if_splits\<close>)
qed

lemma prepare_root: "prepare_scan_root env options = Inr su \<Longrightarrow> su_root_path su = su_root_raw su"
  by (auto simp: prepare_scan_root_def Let_def split: if_splits sum.splits)

lemma root_inv_initial: "prepare_scan_root env options = Inr su \<Longrightarrow> root_inv (initial_state su)"
  using stack_shape_initial[of su] prepare_root[of env options su]
  by (simp add: root_inv_def) (simp add: initial_state_def)

subsection \<open>Sample file systems\<close>

definition sample_stat :: "int \<Rightarrow> int \<Rightarrow> int \<Rightarrow> stat_result" where
  "sample_stat mode ino nlink =
     \<lparr> st_mode = mode, st_ino = ino, st_dev = 1, st_nlink = nlink, st_size = 100, st_blocks = 8 \<rparr>"

definition sample_entry :: "bytes \<Rightarrow> stat_result \<Rightarrow> dir_entry" where
  "sample_entry p s = \<lparr> de_path = p, de_stat = Inr s, de_is_dir = Inr (S_ISDIR (st_mode s)) \<rparr>"

text \<open>A directory with a hard-linked file under two names and a subdirectory that cannot be listed.\<close>

definition sample_env :: scan_env where
  "sample_env =
     \<lparr> env_stat = (\<lambda>p. Inr (sample_stat 16877 1 2)),
       env_scandir = (\<lambda>p. if p = ''/r'' then Inr [sample_entry ''/r/b'' (sample_stat 33188 7 2),
            sample_entry ''/r/a'' (sample_stat 33188 7 2), sample_entry ''/r/d'' (sample_stat 16877 2 2)]
          else Inl \<lparr> oe_class = PermissionError, oe_strerror = Some ''Permission denied'', oe_text = [] \<rparr>),
       env_is_symlink = (\<lambda>p. False), env_expanduser = id, env_absolute = id, env_resolve = id \<rparr>"

text \<open>A directory that contains itself: the tree of its paths is infinite.\<close>

definition looping_env :: scan_env where
  "looping_env = sample_env\<lparr> env_scandir := (\<lambda>p. Inr [sample_entry (p @ ''/d'') (sample_stat 16877 2 2)]) \<rparr>"

definition sample_options :: scanner_options where
  "sample_options =
     \<lparr> so_root = ''/r'', so_exclude_paths = [], so_mounts = [], so_mount_policy = None, so_collapse_policy = None,
       so_record_skipped = False, so_hardlink_dedup_max_entries = 500000 \<rparr>"

lemma sample_scan:
  obtains r where "scan_root sample_env sample_options = Some r" and "sc_fatal_error r = None"
    and "sc_status r = PARTIAL" and "map da_collapsed_dirs (sc_rows r) = [None, None]"
    and "da_hardlink_file_count (last (sc_rows r)) = 2"
proof -
  have "(case scan_root sample_env sample_options of None \<Rightarrow> False | Some r \<Rightarrow> sc_fatal_error r = None
    \<and> sc_status r = PARTIAL \<and> map da_collapsed_dirs (sc_rows r) = [None, None]
    \<and> da_hardlink_file_count (last (sc_rows r)) = 2)"
    by code_simp
  then show thesis by (cases "scan_root sample_env sample_options") (auto intro: that)
qed

subsection \<open>Properties\<close>

text \<open>
  C1: the scan terminates.  Whenever the file system has finitely many directory identities
  (device and inode), \<open>scan_root\<close> returns a result, even if bind mounts make the tree of paths
  infinite: a directory that is open is never entered again.
\<close>

theorem scan_terminates:
  assumes "dir_identities env U"
  shows "\<exists>r. scan_root env options = Some r"
proof (cases "prepare_scan_root env options")
  case (Inl r)
  then show ?thesis by (simp add: scan_root_def)
next
  case (Inr su)
  let ?U = "insert (inode_key (su_root_stat su)) U"
  have U: "dir_identities env ?U" using assms by (auto simp: dir_identities_def reports_within_def)
  have "cycle_inv ?U (initial_state su)" by (rule cycle_inv_initial) simp
  from scan_stack_terminates[OF U this] Inr show ?thesis by (auto simp: scan_root_def)
qed

lemma scan_terminates_witness: "\<exists>r. scan_root looping_env sample_options = Some r"
proof (rule scan_terminates)
  show "dir_identities looping_env {(1, 2)}"
    by (auto simp: dir_identities_def reports_within_def looping_env_def sample_entry_def sample_stat_def inode_key_def)
qed

text \<open>The states the loop passes through.\<close>

inductive reachable :: "scan_env \<Rightarrow> scan_setup \<Rightarrow> scan_state \<Rightarrow> bool" for env su where
  start: "reachable env su (initial_state su)"
| turn: "reachable env su st \<Longrightarrow> scan_running st \<Longrightarrow> reachable env su (scan_step env st)"

text \<open>
  No directory is open twice, and under the one-file-system policy every open directory is on
  the root's device.  Stated of every state the loop passes through.
\<close>

theorem open_directories_distinct:
  assumes "reachable env su st"
  shows "distinct (map fm_directory_identity (filter fm_initialized (sx_stack st)))
    \<and> (mp_one_filesystem (su_mount_policy (sx_setup st)) \<longrightarrow>
        (\<forall>f\<in>set (sx_stack st). fm_initialized f \<longrightarrow>
           (\<exists>ino. fm_directory_identity f = Some (st_dev (su_root_stat su), ino))))"
proof -
  have dev: "sx_root_device st = Some (st_dev (su_root_stat su))"
    using assms
  proof induction
    case (turn st)
    then obtain lbl where "scan_move env st lbl (scan_step env st)" using scan_step_move[of st env] by (auto simp: scan_running_def)
    then show ?case using turn.IH by (cases rule: scan_move.cases) auto
  qed (simp add: initial_state_def)
  have "cycle_inv UNIV st"
    using assms
  proof induction
    case start
    show ?case by (rule cycle_inv_initial) simp
  next
    case (turn st)
    then obtain lbl where "scan_move env st lbl (scan_step env st)" using scan_step_move[of st env] by (auto simp: scan_running_def)
    then show ?case using turn.IH by (rule cycle_inv_move) (simp add: reports_within_def)
  qed
  then have d: "distinct (open_ids (sx_stack st))"
    and o: "mp_one_filesystem (su_mount_policy (sx_setup st)) \<longrightarrow>
        (\<forall>k. Some k \<in> set (open_ids (sx_stack st)) \<longrightarrow> sx_root_device st = Some (fst k))"
    and s: "set (open_ids (sx_stack st)) \<subseteq> Some ` UNIV"
    by (simp_all add: cycle_inv_def)
  have "\<exists>ino. fm_directory_identity f = Some (st_dev (su_root_stat su), ino)"
    if "mp_one_filesystem (su_mount_policy (sx_setup st))" "f \<in> set (sx_stack st)" "fm_initialized f" for f
  proof -
    have m: "fm_directory_identity f \<in> set (open_ids (sx_stack st))" using that by (auto simp: open_ids_def)
    with s obtain k where k: "fm_directory_identity f = Some k" by blast
    have "sx_root_device st = Some (fst k)" using o[rule_format, OF that(1), of k] m k by (simp only:)
    then have "fst k = st_dev (su_root_stat su)" using dev by simp
    then show ?thesis using k by (cases k) auto
  qed
  then show ?thesis using d by (simp add: open_ids_def)
qed

lemma open_directories_distinct_witness:
  "distinct (map fm_directory_identity (filter fm_initialized
      (sx_stack (scan_step looping_env (initial_state
        (case prepare_scan_root looping_env sample_options of Inr su \<Rightarrow> su | Inl _ \<Rightarrow> undefined))))))"
proof -
  let ?su = "case prepare_scan_root looping_env sample_options of Inr su \<Rightarrow> su | Inl _ \<Rightarrow> undefined"
  have "scan_running (initial_state ?su)" by (simp add: scan_running_def initial_state_def)
  then have "reachable looping_env ?su (scan_step looping_env (initial_state ?su))"
    using reachable.turn[OF reachable.start] by blast
  from open_directories_distinct[OF this] show ?thesis by blast
qed

text \<open>
  C8: directory counts.  The last row of a finished scan is the root's; every row stands for one
  directory plus those a collapse folded into it, and together they are the root's own directory
  and the \<open>dir_count\<close> it reports.
\<close>

theorem scan_counts_directories:
  assumes "scan_root env options = Some r" and "sc_fatal_error r = None"
  shows "sc_rows r \<noteq> [] \<and> sc_row_count r = int (length (sc_rows r))
    \<and> da_path (last (sc_rows r)) = sc_root_path r \<and> da_depth (last (sc_rows r)) = 0
    \<and> sum_list (map (\<lambda>row. 1 + (case da_collapsed_dirs row of None \<Rightarrow> 0 | Some d \<Rightarrow> d)) (sc_rows r))
        = da_dir_count (last (sc_rows r)) + 1"
  using assms
proof (rule scan_root_completed[where P = "\<lambda>st. dirs_inv st \<and> root_inv st"])
  show "dirs_inv (initial_state su) \<and> root_inv (initial_state su)" if "prepare_scan_root env options = Inr su" for su
    using dirs_inv_initial root_inv_initial[OF that] by simp
  show "dirs_inv s' \<and> root_inv s'" if "dirs_inv s \<and> root_inv s" and "scan_move env s lbl s'" for s lbl s'
    using that dirs_inv_move root_inv_move by blast
  fix st
  assume "dirs_inv st \<and> root_inv st" and "sx_stack st = []" and "sx_fatal_result st = None" and "r = make_scan_result st"
  then show ?thesis
    by (simp add: dirs_inv_def root_inv_def make_scan_result_def rows_dirs_def row_dirs_def[abs_def])
qed

lemma scan_counts_directories_witness:
  "\<exists>r. scan_root sample_env sample_options = Some r \<and> da_dir_count (last (sc_rows r)) = 1"
proof -
  obtain r where r: "scan_root sample_env sample_options = Some r" "sc_fatal_error r = None"
      "map da_collapsed_dirs (sc_rows r) = [None, None]"
    by (rule sample_scan)
  have "sum_list (map (\<lambda>row. 1 + (case da_collapsed_dirs row of None \<Rightarrow> 0 | Some d \<Rightarrow> d)) (sc_rows r))
      = sum_list (map (\<lambda>c. 1 + (case c of None \<Rightarrow> 0 | Some d \<Rightarrow> d)) (map da_collapsed_dirs (sc_rows r)))"
    unfolding map_map comp_def ..
  also have "\<dots> = 2" unfolding r(3) by simp
  finally have "da_dir_count (last (sc_rows r)) = 1" using scan_counts_directories[OF r(1,2)] by linarith
  then show ?thesis using r(1) by blast
qed

text \<open>
  C24: the status.  A scan that could not start or could not read its root is failed; otherwise it is
  complete exactly when every recorded error is a vanished path, an exclusion or a skipped mount,
  and partial when any other error was recorded.
\<close>

theorem scan_status_meaning:
  assumes "scan_root env options = Some r"
  shows "(sc_status r = FAILED \<longleftrightarrow> sc_fatal_error r \<noteq> None)
    \<and> (sc_status r = COMPLETE \<longleftrightarrow> sc_fatal_error r = None
         \<and> (\<forall>e\<in>set (sc_errors r). se_kind e \<in> {''missing_path'', ''excluded'', ''mount_skipped''}))
    \<and> sc_status r \<noteq> RUNNING"
  using assms
proof (cases rule: scan_root_cases)
  case (completed su st)
  then show ?thesis by (auto simp: make_scan_result_def status_inv_def harmless_kinds_def)
qed auto

lemma scan_status_meaning_witness:
  "\<exists>r. scan_root sample_env sample_options = Some r \<and> \<not> (\<forall>e\<in>set (sc_errors r). se_kind e \<in> {''missing_path'', ''excluded'', ''mount_skipped''})"
proof -
  obtain r where r: "scan_root sample_env sample_options = Some r" "sc_fatal_error r = None" "sc_status r = PARTIAL"
    by (rule sample_scan)
  then have "sc_status r \<noteq> COMPLETE" by simp
  with scan_status_meaning[OF r(1)] r(1,2) show ?thesis by metis
qed

text \<open>
  C40: hard links.  The root's count of linked files is the number the scan counted, and the linked
  files that are not duplicates are distinct inodes, so there are at most as many of them as the
  deduplication limit allows.
\<close>

theorem scan_hardlink_accounting:
  assumes "scan_root env options = Some r" and "sc_fatal_error r = None"
  shows "da_hardlink_file_count (last (sc_rows r)) = sc_hardlink_count r
    \<and> 0 \<le> da_hardlink_duplicate_count (last (sc_rows r))
    \<and> da_hardlink_duplicate_count (last (sc_rows r)) \<le> da_hardlink_file_count (last (sc_rows r))
    \<and> da_hardlink_file_count (last (sc_rows r)) - da_hardlink_duplicate_count (last (sc_rows r))
        \<le> max 0 (so_hardlink_dedup_max_entries options)"
  using assms
proof (rule scan_root_completed[where P = "\<lambda>st. links_inv st
      \<and> su_hardlink_dedup_max_entries (sx_setup st) = so_hardlink_dedup_max_entries options"])
  show "links_inv (initial_state su) \<and> su_hardlink_dedup_max_entries (sx_setup (initial_state su)) = so_hardlink_dedup_max_entries options"
    if "prepare_scan_root env options = Inr su" for su
    using links_inv_initial that
    by (auto simp: prepare_scan_root_def Let_def initial_state_def split: if_splits sum.splits)
  show "links_inv s' \<and> su_hardlink_dedup_max_entries (sx_setup s') = so_hardlink_dedup_max_entries options"
    if "links_inv s \<and> su_hardlink_dedup_max_entries (sx_setup s) = so_hardlink_dedup_max_entries options"
      and "scan_running s" and "scan_move env s lbl s'" for s lbl s'
    using that links_inv_move setup_move by metis
  fix st
  assume "links_inv st \<and> su_hardlink_dedup_max_entries (sx_setup st) = so_hardlink_dedup_max_entries options"
    and "sx_stack st = []" and "sx_fatal_result st = None" and "r = make_scan_result st"
  then show ?thesis
    by (auto simp: links_inv_def make_scan_result_def link_files.total_def link_duplicates.total_def)
qed

lemma scan_hardlink_accounting_witness:
  "\<exists>r. scan_root sample_env sample_options = Some r \<and> sc_hardlink_count r = 2"
proof -
  obtain r where r: "scan_root sample_env sample_options = Some r" "sc_fatal_error r = None"
    "da_hardlink_file_count (last (sc_rows r)) = 2"
    by (rule sample_scan)
  from scan_hardlink_accounting[OF r(1,2)] r show ?thesis by auto
qed

text \<open>
  C14: collapsing is transparent.  Scanning under another collapse policy ends alike: the same errors,
  status and hard-link count, and the same totals in the root's row.
\<close>

theorem collapse_policy_transparent:
  "rel_option (\<lambda>r r'. sc_status r = sc_status r' \<and> sc_fatal_error r = sc_fatal_error r' \<and> sc_errors r = sc_errors r'
       \<and> sc_hardlink_count r = sc_hardlink_count r'
       \<and> (sc_fatal_error r = None \<longrightarrow>
            da_disk_bytes (last (sc_rows r)) = da_disk_bytes (last (sc_rows r'))
          \<and> da_apparent_bytes (last (sc_rows r)) = da_apparent_bytes (last (sc_rows r'))
          \<and> da_file_count (last (sc_rows r)) = da_file_count (last (sc_rows r'))
          \<and> da_dir_count (last (sc_rows r)) = da_dir_count (last (sc_rows r'))))
     (scan_root env options) (scan_root env (options\<lparr> so_collapse_policy := policy \<rparr>))"
proof -
  let ?o = "options\<lparr> so_collapse_policy := policy \<rparr>"
  have prep: "rel_sum (=) setup_sim (prepare_scan_root env options) (prepare_scan_root env ?o)"
    by (auto simp: prepare_scan_root_def Let_def setup_sim_def split: sum.split)
  have sim: "rel_option result_sim
      (map_option (\<lambda>st. case sx_fatal_result st of Some result \<Rightarrow> result | None \<Rightarrow> make_scan_result st) (scan_stack env (initial_state su)))
      (map_option (\<lambda>st. case sx_fatal_result st of Some result \<Rightarrow> result | None \<Rightarrow> make_scan_result st) (scan_stack env (initial_state sv)))"
    if "setup_sim su sv" for su sv
  proof -
    have "state_sim (initial_state su) (initial_state sv)"
      using that by (auto simp: initial_state_def setup_sim_def state_sim_def core_sim_def frame_sim_refl)
    then have run: "rel_option state_sim (scan_stack env (initial_state su)) (scan_stack env (initial_state sv))"
      unfolding scan_stack_def
      by (rule while_option_sim) (auto simp: scan_step_sim, auto simp: state_sim_def scan_running_def option.rel_sel list_all2_Nil)
    show ?thesis
    proof (cases "scan_stack env (initial_state su)")
      case None
      then show ?thesis using run by simp
    next
      case (Some st)
      then obtain st' where st': "scan_stack env (initial_state sv) = Some st'" "state_sim st st'"
        using run by (auto simp: option_rel_Some1)
      have "\<not> scan_running st" using Some unfolding scan_stack_def by (rule while_option_stop)
      then show ?thesis using st' Some
        by (cases "sx_fatal_result st")
          (auto simp: state_sim_def scan_running_def option_rel_Some1 result_sim_def make_scan_result_def core_sim_def setup_sim_def)
    qed
  qed
  have "rel_option result_sim (scan_root env options) (scan_root env ?o)"
  proof (cases "prepare_scan_root env options")
    case (Inl r)
    then have "prepare_scan_root env ?o = Inl r" using prep by (auto simp: rel_sum.simps)
    moreover have "result_sim r r" using prepare_failure[OF Inl] by (auto simp: result_sim_def)
    ultimately show ?thesis using Inl by (simp add: scan_root_def)
  next
    case (Inr su)
    then obtain sv where "prepare_scan_root env ?o = Inr sv" "setup_sim su sv" using prep by (auto simp: rel_sum.simps)
    then show ?thesis using Inr sim by (simp add: scan_root_def)
  qed
  then show ?thesis by (rule option.rel_mono_strong) (simp add: result_sim_def row_sim_def)
qed

lemma collapse_policy_transparent_witness:
  "\<exists>r'. scan_root sample_env (sample_options\<lparr> so_collapse_policy := Some \<lparr> cp_names = {''d''}, cp_fan_out = 1, cp_descendants = 1, cp_never = [] \<rparr> \<rparr>) = Some r'
     \<and> sc_status r' = PARTIAL"
proof -
  obtain r where r: "scan_root sample_env sample_options = Some r" "sc_fatal_error r = None" "sc_status r = PARTIAL"
    by (rule sample_scan)
  from collapse_policy_transparent[of sample_env sample_options
      "Some \<lparr> cp_names = {''d''}, cp_fan_out = 1, cp_descendants = 1, cp_never = [] \<rparr>"] r
  show ?thesis by (auto simp: option_rel_Some1)
qed

end
