(* ===== verification/Py_Time.thy ===== *)
theory Py_Time
  imports Py_Prelude
begin

text \<open>
  Timestamps.  An instant is a number of microseconds since the epoch in UTC; a \<open>datetime\<close> is its
  wall-clock microseconds and its UTC offset, \<open>None\<close> when it is naive.  \<open>fromisoformat\<close> reads the
  extended ISO format, \<open>YYYY-MM-DD\<close> with an optional time and offset, the only format the program
  writes; the other formats Python also accepts (basic and week dates) are rejected here.
  The offset of the local time zone, which a naive value takes, is an argument of \<open>astimezone_utc\<close>.
  Calendar arithmetic is the proleptic Gregorian calendar on day numbers.
\<close>

type_synonym instant = int

record py_datetime =
  dt_wall :: int
  dt_offset :: "int option"

definition second_us :: int where "second_us = 1000000"
definition hour_us :: int where "hour_us = 3600 * second_us"
definition day_us :: int where "day_us = 24 * hour_us"

subsection \<open>Calendar\<close>

definition is_leap :: "int \<Rightarrow> bool" where
  "is_leap y \<longleftrightarrow> y mod 4 = 0 \<and> (y mod 100 \<noteq> 0 \<or> y mod 400 = 0)"

definition days_in_month :: "int \<Rightarrow> int \<Rightarrow> int" where
  "days_in_month y m =
     (if m = 2 then (if is_leap y then 29 else 28)
      else if m \<in> {4, 6, 9, 11} then 30 else 31)"

text \<open>Day number of a date (0 is 1970-01-01) and the year and month of a day number.  Years are
  counted from March, so that the leap day is the last of its year.\<close>

definition days_from_civil :: "int \<Rightarrow> int \<Rightarrow> int \<Rightarrow> int" where
  "days_from_civil y m d =
     (let y' = (if m \<le> 2 then y - 1 else y);
          era = y' div 400;
          yoe = y' - era * 400;
          doy = (153 * (if m > 2 then m - 3 else m + 9) + 2) div 5 + d - 1;
          doe = yoe * 365 + yoe div 4 - yoe div 100 + doy
      in era * 146097 + doe - 719468)"

definition civil_from_days :: "int \<Rightarrow> int \<times> int \<times> int" where
  "civil_from_days z0 =
     (let z = z0 + 719468;
          era = z div 146097;
          doe = z - era * 146097;
          yoe = (doe - doe div 1460 + doe div 36524 - doe div 146096) div 365;
          y = yoe + era * 400;
          doy = doe - (365 * yoe + yoe div 4 - yoe div 100);
          mp = (5 * doy + 2) div 153;
          d = doy - (153 * mp + 2) div 5 + 1;
          m = (if mp < 10 then mp + 3 else mp - 9)
      in (if m \<le> 2 then y + 1 else y, m, d))"

definition utc_day :: "instant \<Rightarrow> int" where
  "utc_day t = t div day_us"

definition utc_year :: "instant \<Rightarrow> int" where
  "utc_year t = fst (civil_from_days (utc_day t))"

definition utc_month :: "instant \<Rightarrow> int" where
  "utc_month t = fst (snd (civil_from_days (utc_day t)))"

subsection \<open>Reading ISO timestamps\<close>

definition fixed_digits :: "nat \<Rightarrow> string \<Rightarrow> int option" where
  "fixed_digits n s = (if length s = n \<and> list_all is_digit s then Some (digits_value s) else None)"

text \<open>Seconds may carry a fraction, of which six digits count.\<close>

definition parse_fraction :: "string \<Rightarrow> int option" where
  "parse_fraction s =
     (if s = [] then Some 0
      else if hd s \<in> {CHR ''.'', CHR '',''} \<and> tl s \<noteq> [] \<and> list_all is_digit (tl s)
      then Some (digits_value (take 6 (tl s @ ''000000''))) else None)"

definition parse_clock :: "string \<Rightarrow> int option" where
  "parse_clock s =
     (case fixed_digits 2 (take 2 s) of None \<Rightarrow> None | Some h \<Rightarrow>
        if length s = 2 then (if h < 24 then Some (h * hour_us) else None)
        else if s ! 2 \<noteq> CHR '':'' then None
        else case fixed_digits 2 (take 2 (drop 3 s)) of None \<Rightarrow> None | Some mi \<Rightarrow>
          if length s = 5 then (if h < 24 \<and> mi < 60 then Some (h * hour_us + mi * 60 * second_us) else None)
          else if s ! 5 \<noteq> CHR '':'' then None
          else case fixed_digits 2 (take 2 (drop 6 s)) of None \<Rightarrow> None | Some sec \<Rightarrow>
            case parse_fraction (drop 8 s) of None \<Rightarrow> None | Some us \<Rightarrow>
              if h < 24 \<and> mi < 60 \<and> sec < 60
              then Some (h * hour_us + mi * 60 * second_us + sec * second_us + us) else None)"

text \<open>The offset: \<open>Z\<close>, or a sign and a clock reading.\<close>

definition parse_offset :: "string \<Rightarrow> int option" where
  "parse_offset s =
     (if s = ''Z'' then Some 0
      else if s \<noteq> [] \<and> hd s = CHR ''+'' then parse_clock (tl s)
      else if s \<noteq> [] \<and> hd s = CHR ''-'' then map_option uminus (parse_clock (tl s))
      else None)"

definition parse_date :: "string \<Rightarrow> int option" where
  "parse_date s =
     (case fixed_digits 4 (take 4 s) of None \<Rightarrow> None | Some y \<Rightarrow>
        case fixed_digits 2 (take 2 (drop 5 s)) of None \<Rightarrow> None | Some m \<Rightarrow>
          case fixed_digits 2 (take 2 (drop 8 s)) of None \<Rightarrow> None | Some d \<Rightarrow>
            if s ! 4 = CHR ''-'' \<and> s ! 7 = CHR ''-'' \<and> 1 \<le> y \<and> 1 \<le> m \<and> m \<le> 12 \<and> 1 \<le> d \<and> d \<le> days_in_month y m
            then Some (days_from_civil y m d) else None)"

definition fromisoformat :: "string \<Rightarrow> py_datetime option" where
  "fromisoformat s =
     (if length s < 10 then None
      else case parse_date (take 10 s) of None \<Rightarrow> None | Some day \<Rightarrow>
        if length s = 10 then Some \<lparr> dt_wall = day * day_us, dt_offset = None \<rparr>
        else
          (let rest = drop 11 s;
               clock = takeWhile (\<lambda>c. c \<notin> {CHR ''Z'', CHR ''+'', CHR ''-''}) rest;
               zone = drop (length clock) rest
           in case parse_clock clock of None \<Rightarrow> None | Some t \<Rightarrow>
                if zone = [] then Some \<lparr> dt_wall = day * day_us + t, dt_offset = None \<rparr>
                else case parse_offset zone of None \<Rightarrow> None | Some off \<Rightarrow>
                  Some \<lparr> dt_wall = day * day_us + t, dt_offset = Some off \<rparr>))"

definition astimezone_utc :: "(int \<Rightarrow> int) \<Rightarrow> py_datetime \<Rightarrow> instant" where
  "astimezone_utc local_offset d =
     (case dt_offset d of Some off \<Rightarrow> dt_wall d - off | None \<Rightarrow> dt_wall d - local_offset (dt_wall d))"

text \<open>\<open>value[:-1] + "+00:00"\<close> when the text ends in \<open>Z\<close>.\<close>

definition zulu_to_offset :: "string \<Rightarrow> string" where
  "zulu_to_offset v = (if endswith v ''Z'' then butlast v @ ''+00:00'' else v)"

definition parse_utc :: "(int \<Rightarrow> int) \<Rightarrow> string \<Rightarrow> instant option" where
  "parse_utc local_offset v = map_option (astimezone_utc local_offset) (fromisoformat (zulu_to_offset v))"

lemma parse_utc_example:
  "parse_utc (\<lambda>_. 0) ''2024-02-29T12:00:01Z'' = Some ((days_from_civil 2024 2 29 * 86400 + 43201) * second_us)"
  by code_simp

lemma civil_examples:
  "days_from_civil 1970 1 1 = 0" "civil_from_days (days_from_civil 2024 2 29) = (2024, 2, 29)"
  "civil_from_days (days_from_civil 1999 12 31) = (1999, 12, 31)" "days_from_civil 2000 3 1 = 11017"
  by code_simp+

text \<open>Every instant of a UTC day has the day's year and month.\<close>

lemma utc_day_determines: "utc_day s = utc_day t \<Longrightarrow> utc_year s = utc_year t \<and> utc_month s = utc_month t"
  by (simp add: utc_year_def utc_month_def)

lemma utc_day_mono: "s \<le> t \<Longrightarrow> utc_day s \<le> utc_day t"
  by (simp add: utc_day_def day_us_def hour_us_def second_us_def zdiv_mono1)

end
