(* ===== verification/Store.thy ===== *)
theory Store
  imports Models Classify Py_Time
begin

text \<open>
  The database of \<open>db/migrations.py\<close> and \<open>db/schema.sql\<close>.  A table is the list of its rows in
  rowid order (a new rowid is one above the largest, so insertion appends); snapshots and paths
  carry the rowid the other tables refer to.  The functions are the module's operations as state
  passing; the constraints they can run into (\<open>UNIQUE\<close>, foreign keys) are the errors of
  \<open>db_error\<close>.  The time of a call is an argument.  Committing is the caller keeping the new state,
  rolling back is keeping the old one.

  Each row of \<open>db_intervals\<close> is one version of one path of one root: it holds for the complete
  snapshots from \<open>iv_valid_from\<close> up to but not including \<open>iv_valid_to\<close> (open-ended if \<open>None\<close>).
\<close>

subsection \<open>Tables\<close>

text \<open>The sixteen columns of \<open>_STATE_COLUMNS\<close>.\<close>

record agg_state =
  ag_parent_id :: "int option"
  ag_depth :: int
  ag_apparent_bytes :: int
  ag_disk_bytes :: int
  ag_file_count :: int
  ag_dir_count :: int
  ag_error :: "string option"
  ag_hardlink_file_count :: int
  ag_hardlink_duplicate_count :: int
  ag_hardlink_duplicate_disk_bytes :: int
  ag_hardlink_first_seen_disk_bytes :: int
  ag_collapsed :: int
  ag_collapse_reason :: "string option"
  ag_collapsed_dirs :: "int option"
  ag_top_child_id :: "int option"
  ag_top_child_disk_bytes :: "int option"

record snapshot_row =
  sn_id :: int
  sn_started_at :: string
  sn_finished_at :: "string option"
  sn_root_path :: string
  sn_status :: string
  sn_notes :: "string option"
  sn_error :: "string option"

record interval_row =
  iv_root_path :: string
  iv_path_id :: int
  iv_valid_from :: int
  iv_valid_to :: "int option"
  iv_state :: agg_state

record diagnostic_row =
  dg_snapshot_id :: int
  dg_path_id :: int
  dg_state :: agg_state

record filesystem_row =
  fy_usage :: snapshot_filesystem_usage
  fy_created_at :: string

record db =
  db_snapshots :: "snapshot_row list"
  db_paths :: "(int \<times> bytes) list"
  db_intervals :: "interval_row list"
  db_diagnostics :: "diagnostic_row list"
  db_mounts :: "snapshot_mount list"
  db_filesystems :: "filesystem_row list"
  db_user_version :: int

definition empty_db :: db where
  "empty_db = \<lparr> db_snapshots = [], db_paths = [], db_intervals = [], db_diagnostics = [], db_mounts = [],
                db_filesystems = [], db_user_version = 0 \<rparr>"

datatype db_error =
    Unsupported_schema int
  | Unique_violation
  | Not_null_violation
  | Foreign_key_violation
  | Snapshot_not_found int
  | Unknown_status string

definition next_rowid :: "int list \<Rightarrow> int" where
  "next_rowid ids = (if ids = [] then 1 else Max (set ids) + 1)"

definition find_snapshot :: "db \<Rightarrow> int \<Rightarrow> snapshot_row option" where
  "find_snapshot d sid = List.find (\<lambda>s. sn_id s = sid) (db_snapshots d)"

definition snapshot_record_of :: "snapshot_row \<Rightarrow> db_error + snapshot_record" where
  "snapshot_record_of s =
     (case snapshot_status_from_storage (sn_status s) (sn_finished_at s) of
        None \<Rightarrow> Inl (Unknown_status (sn_status s))
      | Some status \<Rightarrow> Inr \<lparr> sr_id = sn_id s, sr_started_at = sn_started_at s, sr_finished_at = sn_finished_at s,
                            sr_root_path = sn_root_path s, sr_status = status, sr_notes = sn_notes s,
                            sr_error = sn_error s \<rparr>)"

subsection \<open>Schema\<close>

definition SCHEMA_VERSION :: int where "SCHEMA_VERSION = 9"

definition VIRTUAL_MOUNT_SKIP_ERRORS :: "string set" where
  "VIRTUAL_MOUNT_SKIP_ERRORS = (\<lambda>t. t @ '' skipped by default mount policy'') ` DEFAULT_SKIPPED_FILESYSTEMS"

definition is_virtual_skip :: "agg_state \<Rightarrow> bool" where
  "is_virtual_skip s = (case ag_error s of None \<Rightarrow> False | Some e \<Rightarrow> e \<in> VIRTUAL_MOUNT_SKIP_ERRORS)"

text \<open>The path ids some row refers to.\<close>

definition state_path_refs :: "agg_state \<Rightarrow> int set" where
  "state_path_refs s = set_option (ag_parent_id s) \<union> set_option (ag_top_child_id s)"

definition path_refs :: "db \<Rightarrow> int set" where
  "path_refs d =
     (\<Union>iv\<in>set (db_intervals d). insert (iv_path_id iv) (state_path_refs (iv_state iv)))
   \<union> (\<Union>dg\<in>set (db_diagnostics d). insert (dg_path_id dg) (state_path_refs (dg_state dg)))"

definition delete_unreferenced_paths :: "db \<Rightarrow> db" where
  "delete_unreferenced_paths d = d\<lparr> db_paths := filter (\<lambda>(pid, _). pid \<in> path_refs d) (db_paths d) \<rparr>"

definition delete_default_virtual_mount_skip_rows :: "db \<Rightarrow> db" where
  "delete_default_virtual_mount_skip_rows d =
     delete_unreferenced_paths
       (d\<lparr> db_intervals := filter (\<lambda>iv. \<not> is_virtual_skip (iv_state iv)) (db_intervals d),
          db_diagnostics := filter (\<lambda>dg. \<not> is_virtual_skip (dg_state dg)) (db_diagnostics d) \<rparr>)"

text \<open>
  The tables exist from the start in this model and always carry the hard-link columns, so creating
  them and adding missing columns changes nothing but the version.
\<close>

definition initialize_database :: "db \<Rightarrow> db_error + db" where
  "initialize_database d =
     (if db_user_version d = SCHEMA_VERSION then Inr (delete_default_virtual_mount_skip_rows d)
      else if db_user_version d \<in> {7, 8}
      then Inr ((delete_default_virtual_mount_skip_rows d)\<lparr> db_user_version := SCHEMA_VERSION \<rparr>)
      else if db_user_version d \<noteq> 0 then Inl (Unsupported_schema (db_user_version d))
      else Inr (d\<lparr> db_user_version := SCHEMA_VERSION \<rparr>))"

subsection \<open>Writing a snapshot\<close>

definition create_snapshot :: "string \<Rightarrow> pathname \<Rightarrow> string option \<Rightarrow> db \<Rightarrow> snapshot_record \<times> db" where
  "create_snapshot now root_path notes d =
     (let sid = next_rowid (map sn_id (db_snapshots d)) in
      (\<lparr> sr_id = sid, sr_started_at = now, sr_finished_at = None, sr_root_path = root_path, sr_status = RUNNING,
         sr_notes = notes, sr_error = None \<rparr>,
       d\<lparr> db_snapshots := db_snapshots d @
            [\<lparr> sn_id = sid, sn_started_at = now, sn_finished_at = None, sn_root_path = root_path,
               sn_status = status_value RUNNING, sn_notes = notes, sn_error = None \<rparr>] \<rparr>))"

text \<open>\<open>_resolve_path_id\<close>: the cache of the insertion, then the table, then a new row.\<close>

definition path_id_of :: "db \<Rightarrow> bytes \<Rightarrow> int option" where
  "path_id_of d path = map_option fst (List.find (\<lambda>(_, p). p = path) (db_paths d))"

type_synonym path_cache = "(bytes \<times> int) list"

definition resolve_path_id :: "path_cache \<times> db \<Rightarrow> bytes \<Rightarrow> int \<times> path_cache \<times> db" where
  "resolve_path_id = (\<lambda>(cache, d) path.
     (case map_of cache path of
        Some pid \<Rightarrow> (pid, cache, d)
      | None \<Rightarrow>
          (case path_id_of d path of
             Some pid \<Rightarrow> (pid, AList.update path pid cache, d)
           | None \<Rightarrow>
               (let pid = next_rowid (map fst (db_paths d)) in
                (pid, AList.update path pid cache, d\<lparr> db_paths := db_paths d @ [(pid, path)] \<rparr>)))))"

definition resolve_path_opt :: "path_cache \<times> db \<Rightarrow> bytes option \<Rightarrow> int option \<times> path_cache \<times> db" where
  "resolve_path_opt s p =
     (case p of None \<Rightarrow> (None, s) | Some path \<Rightarrow> (case resolve_path_id s path of (pid, s') \<Rightarrow> (Some pid, s')))"

definition directory_row_values :: "path_cache \<times> db \<Rightarrow> directory_aggregate \<Rightarrow> diagnostic_row \<times> path_cache \<times> db" where
  "directory_row_values s row =
     (let (path_id, s) = resolve_path_id s (da_path row);
          (parent_id, s) = resolve_path_opt s (da_parent_path row);
          (top_child_id, s) = resolve_path_opt s (da_top_child_path row)
      in (\<lparr> dg_snapshot_id = da_snapshot_id row, dg_path_id = path_id,
            dg_state = \<lparr> ag_parent_id = parent_id, ag_depth = da_depth row, ag_apparent_bytes = da_apparent_bytes row,
              ag_disk_bytes = da_disk_bytes row, ag_file_count = da_file_count row, ag_dir_count = da_dir_count row,
              ag_error = da_error row, ag_hardlink_file_count = da_hardlink_file_count row,
              ag_hardlink_duplicate_count = da_hardlink_duplicate_count row,
              ag_hardlink_duplicate_disk_bytes = da_hardlink_duplicate_disk_bytes row,
              ag_hardlink_first_seen_disk_bytes = da_hardlink_first_seen_disk_bytes row,
              ag_collapsed = (if da_collapsed row then 1 else 0), ag_collapse_reason = da_collapse_reason row,
              ag_collapsed_dirs = da_collapsed_dirs row, ag_top_child_id = top_child_id,
              ag_top_child_disk_bytes = da_top_child_disk_bytes row \<rparr> \<rparr>, s))"

fun batch_values ::
    "path_cache \<times> db \<Rightarrow> directory_aggregate list \<Rightarrow> diagnostic_row list \<times> path_cache \<times> db" where
  "batch_values s [] = ([], s)"
| "batch_values s (row # rows) =
     (case directory_row_values s row of (v, s') \<Rightarrow> (case batch_values s' rows of (vs, s'') \<Rightarrow> (v # vs, s'')))"

definition insert_diagnostic :: "db \<Rightarrow> diagnostic_row \<Rightarrow> db_error + db" where
  "insert_diagnostic d v =
     (if dg_snapshot_id v \<notin> sn_id ` set (db_snapshots d) then Inl Foreign_key_violation
      else if list_ex (\<lambda>w. dg_snapshot_id w = dg_snapshot_id v \<and> dg_path_id w = dg_path_id v) (db_diagnostics d)
      then Inl Unique_violation
      else Inr (d\<lparr> db_diagnostics := db_diagnostics d @ [v] \<rparr>))"

definition INSERT_BATCH_SIZE :: nat where "INSERT_BATCH_SIZE = 10000"

text \<open>Each batch resolves the paths of its rows first and then inserts them.\<close>

function insert_batches :: "path_cache \<times> db \<Rightarrow> directory_aggregate list \<Rightarrow> db_error + (path_cache \<times> db)" where
  "insert_batches s rows =
     (if rows = [] then Inr s
      else (case batch_values s (take INSERT_BATCH_SIZE rows) of
              (vs, cache, d) \<Rightarrow>
                (case fold_err insert_diagnostic d vs of
                   Inl e \<Rightarrow> Inl e
                 | Inr d' \<Rightarrow> insert_batches (cache, d') (drop INSERT_BATCH_SIZE rows))))"
  by pat_completeness auto
termination by (relation "measure (\<lambda>(_, rows). length rows)") (auto simp: INSERT_BATCH_SIZE_def)

declare insert_batches.simps [simp del]

definition insert_directory_rows :: "directory_aggregate list \<Rightarrow> db \<Rightarrow> db_error + db" where
  "insert_directory_rows rows d =
     (if rows = [] then Inr d else map_sum id snd (insert_batches ([], d) rows))"

definition snapshot_mount_row_values :: "int \<Rightarrow> mount_info \<Rightarrow> snapshot_mount" where
  "snapshot_mount_row_values snapshot_id mount =
     \<lparr> sm_snapshot_id = snapshot_id, sm_mount_id = mi_mount_id mount, sm_parent_id = mi_parent_id mount,
       sm_major_minor = mi_major_minor mount, sm_root = mi_root mount, sm_mount_point = mi_mount_point mount,
       sm_filesystem_type = mi_filesystem_type mount, sm_mount_source = mi_mount_source mount \<rparr>"

definition insert_snapshot_mounts :: "int \<Rightarrow> mount_info list \<Rightarrow> db \<Rightarrow> db_error + db" where
  "insert_snapshot_mounts snapshot_id mounts d =
     (if mounts = [] then Inr d
      else if snapshot_id \<notin> sn_id ` set (db_snapshots d) then Inl Foreign_key_violation
      else Inr (d\<lparr> db_mounts := db_mounts d @ map (snapshot_mount_row_values snapshot_id) mounts \<rparr>))"

definition insert_snapshot_filesystems :: "string \<Rightarrow> snapshot_filesystem_usage list \<Rightarrow> db \<Rightarrow> db_error + db" where
  "insert_snapshot_filesystems now filesystems d =
     (if filesystems = [] then Inr d
      else if \<not> list_all (\<lambda>f. fu_snapshot_id f \<in> sn_id ` set (db_snapshots d)) filesystems then Inl Foreign_key_violation
      else Inr (d\<lparr> db_filesystems := db_filesystems d @ map (\<lambda>f. \<lparr> fy_usage = f, fy_created_at = now \<rparr>) filesystems \<rparr>))"

definition load_snapshot_mounts :: "db \<Rightarrow> int \<Rightarrow> snapshot_mount list" where
  "load_snapshot_mounts d snapshot_id = filter (\<lambda>m. sm_snapshot_id m = snapshot_id) (db_mounts d)"

subsection \<open>Promoting a complete snapshot\<close>

text \<open>\<open>UPDATE ... SET valid_to_snapshot_id = ? WHERE root_path = ? AND path_id = ? AND valid_to_snapshot_id IS NULL\<close>\<close>

definition close_interval :: "int \<Rightarrow> string \<Rightarrow> int \<Rightarrow> db \<Rightarrow> db" where
  "close_interval snapshot_id root_path path_id d =
     d\<lparr> db_intervals := map (\<lambda>iv.
          if iv_root_path iv = root_path \<and> iv_path_id iv = path_id \<and> iv_valid_to iv = None
          then iv\<lparr> iv_valid_to := Some snapshot_id \<rparr> else iv) (db_intervals d) \<rparr>"

definition insert_interval :: "interval_row \<Rightarrow> db \<Rightarrow> db_error + db" where
  "insert_interval row d =
     (if list_ex (\<lambda>iv. iv_root_path iv = iv_root_path row \<and> iv_path_id iv = iv_path_id row
                       \<and> iv_valid_from iv = iv_valid_from row) (db_intervals d)
      then Inl Unique_violation
      else Inr (d\<lparr> db_intervals := db_intervals d @ [row] \<rparr>))"

definition active_intervals :: "db \<Rightarrow> string \<Rightarrow> int \<Rightarrow> (int \<times> agg_state) list" where
  "active_intervals d root_path snapshot_id =
     map (\<lambda>iv. (iv_path_id iv, iv_state iv))
       (filter (\<lambda>iv. iv_root_path iv = root_path \<and> iv_valid_from iv < snapshot_id \<and> iv_valid_to iv = None) (db_intervals d))"

definition diagnostics_of :: "db \<Rightarrow> int \<Rightarrow> (int \<times> agg_state) list" where
  "diagnostics_of d snapshot_id =
     map (\<lambda>dg. (dg_path_id dg, dg_state dg))
       (sort_key dg_path_id (filter (\<lambda>dg. dg_snapshot_id dg = snapshot_id) (db_diagnostics d)))"

text \<open>The dictionary of a list of pairs: later pairs win.\<close>

definition dict_of :: "('k \<times> 'v) list \<Rightarrow> ('k \<times> 'v) list" where
  "dict_of kvs = foldl (\<lambda>d (k, v). AList.update k v d) [] kvs"

definition promote_row :: "int \<Rightarrow> string \<Rightarrow> (int \<times> agg_state) list \<Rightarrow> db \<Rightarrow> int \<times> agg_state \<Rightarrow> db_error + db" where
  "promote_row snapshot_id root_path active d = (\<lambda>(path_id, state).
     (let prior = map_of active path_id in
      if prior = Some state then Inr d
      else insert_interval
             \<lparr> iv_root_path = root_path, iv_path_id = path_id, iv_valid_from = snapshot_id, iv_valid_to = None,
               iv_state = state \<rparr>
             (if prior \<noteq> None then close_interval snapshot_id root_path path_id d else d)))"

definition promote_complete_snapshot :: "int \<Rightarrow> db \<Rightarrow> db_error + db" where
  "promote_complete_snapshot snapshot_id d =
     (case find_snapshot d snapshot_id of
        None \<Rightarrow> Inl (Snapshot_not_found snapshot_id)
      | Some s \<Rightarrow>
          (let root_path = sn_root_path s;
               current = dict_of (diagnostics_of d snapshot_id);
               active = dict_of (active_intervals d root_path snapshot_id);
               gone = filter (\<lambda>pid. pid \<notin> fst ` set current) (map fst active);
               d1 = foldl (\<lambda>d pid. close_interval snapshot_id root_path pid d) d gone
           in case fold_err (promote_row snapshot_id root_path active) d1 current of
                Inl e \<Rightarrow> Inl e
              | Inr d2 \<Rightarrow> Inr (d2\<lparr> db_diagnostics := filter (\<lambda>dg. dg_snapshot_id dg \<noteq> snapshot_id) (db_diagnostics d2) \<rparr>)))"

definition update_snapshot ::
    "int \<Rightarrow> string \<Rightarrow> snapshot_status \<Rightarrow> string option \<Rightarrow> string option \<Rightarrow> db \<Rightarrow> db" where
  "update_snapshot snapshot_id finished_at status notes err d =
     d\<lparr> db_snapshots := map (\<lambda>s. if sn_id s = snapshot_id
          then s\<lparr> sn_finished_at := Some finished_at, sn_status := status_value status, sn_notes := notes, sn_error := err \<rparr>
          else s) (db_snapshots d) \<rparr>"

definition finalize_snapshot ::
    "string \<Rightarrow> int \<Rightarrow> snapshot_status \<Rightarrow> string option \<Rightarrow> string option \<Rightarrow> db \<Rightarrow> db_error + (snapshot_record \<times> db)" where
  "finalize_snapshot now snapshot_id status notes err d =
     (case (if status = COMPLETE then promote_complete_snapshot snapshot_id d else Inr d) of
        Inl e \<Rightarrow> Inl e
      | Inr d1 \<Rightarrow>
          (let d2 = update_snapshot snapshot_id now status notes err d1 in
           case find_snapshot d2 snapshot_id of
             None \<Rightarrow> Inl (Snapshot_not_found snapshot_id)
           | Some s \<Rightarrow> map_sum id (\<lambda>r. (r, d2)) (snapshot_record_of s)))"

subsection \<open>Reading a snapshot back\<close>

text \<open>
  What the reporting queries read for a snapshot: for a complete one the intervals of its root that
  hold at its id, for any other its diagnostic rows.
\<close>

definition interval_holds :: "string \<Rightarrow> int \<Rightarrow> interval_row \<Rightarrow> bool" where
  "interval_holds root_path sid iv \<longleftrightarrow> iv_root_path iv = root_path \<and> iv_valid_from iv \<le> sid
     \<and> (case iv_valid_to iv of None \<Rightarrow> True | Some t \<Rightarrow> sid < t)"

definition snapshot_state :: "db \<Rightarrow> int \<Rightarrow> (int \<times> agg_state) list" where
  "snapshot_state d sid = concat (map (\<lambda>s.
     if sn_id s \<noteq> sid then []
     else if sn_status s = status_value COMPLETE
     then map (\<lambda>iv. (iv_path_id iv, iv_state iv)) (filter (interval_holds (sn_root_path s) sid) (db_intervals d))
     else map (\<lambda>dg. (dg_path_id dg, dg_state dg)) (filter (\<lambda>dg. dg_snapshot_id dg = sid) (db_diagnostics d)))
     (db_snapshots d))"

text \<open>The rows of a complete snapshot as a map from path ids.\<close>

definition state_at :: "db \<Rightarrow> string \<Rightarrow> int \<Rightarrow> int \<Rightarrow> agg_state option" where
  "state_at d root_path sid =
     map_of (map (\<lambda>iv. (iv_path_id iv, iv_state iv)) (filter (interval_holds root_path sid) (db_intervals d)))"

end
