(* ===== verification/Config.thy ===== *)
theory Config
  imports Paths Scanner
begin

text \<open>
  The configuration of \<open>config.py\<close>.  A parsed TOML document is a \<open>toml\<close> value (reading the file
  and the TOML grammar are outside the model); the file system answers the checks on the roots.
  Every rejection is a \<open>config_error\<close> with the kind, path and message the program reports.
  \<open>str.strip\<close> is modelled on ASCII text.
\<close>

subsection \<open>Values\<close>

datatype toml =
    Toml_str string
  | Toml_int int
  | Toml_bool bool
  | Toml_array "toml list"
  | Toml_table "(string \<times> toml) list"
  | Toml_other

record configured_root =
  cr_path :: pathname
  cr_require_mount :: bool

record watch_config =
  wc_roots :: "configured_root list"
  wc_exclude_paths :: "pathname list"
  wc_mount_policy :: mount_policy
  wc_collapse_policy :: collapse_policy

record config_error =
  ce_kind :: string
  ce_path :: string
  ce_message :: string

definition config_err :: "string \<Rightarrow> string \<Rightarrow> string \<Rightarrow> config_error" where
  "config_err kind path message = \<lparr> ce_kind = kind, ce_path = path, ce_message = message \<rparr>"

definition malformed :: "string \<Rightarrow> string \<Rightarrow> config_error" where
  "malformed config_path message = config_err ''malformed_config'' config_path message"

text \<open>The file system as the checks see it.\<close>

record config_fs =
  cf_expanduser :: "pathname \<Rightarrow> pathname"
  cf_is_symlink :: "pathname \<Rightarrow> bool"
  cf_exists :: "pathname \<Rightarrow> bool"
  cf_is_dir :: "pathname \<Rightarrow> bool"
  cf_is_mount :: "pathname \<Rightarrow> bool"
  cf_st_dev :: "pathname \<Rightarrow> int"

definition default_collapse :: collapse_policy where
  "default_collapse =
     \<lparr> cp_names = {''node_modules'', ''.venv'', ''.git'', ''site-packages'', ''__pycache__'', ''.cache'', ''.mypy_cache'',
         ''.pytest_cache'', ''.tox'', ''.npm'', ''.gradle'', ''.cargo'', ''.rustup'', ''.platformio'', ''.pnpm'', ''.pnpm-store'',
         ''pnpm-store''},
       cp_fan_out = 500, cp_descendants = 10000, cp_never = [] \<rparr>"

subsection \<open>Fields\<close>

definition normalize_absolute_path :: "config_fs \<Rightarrow> string \<Rightarrow> string \<Rightarrow> config_error + pathname" where
  "normalize_absolute_path fs raw_path kind =
     (let expanded = cf_expanduser fs (pathlib_path raw_path)
      in if \<not> startswith expanded ''/'' then Inl (config_err kind raw_path ''configured paths must be absolute'')
         else Inr expanded)"

definition parse_bool :: "(string \<times> toml) list \<Rightarrow> string \<Rightarrow> string \<Rightarrow> bool \<Rightarrow> config_error + bool" where
  "parse_bool raw_policy config_path field_name dflt =
     (case map_of raw_policy field_name of
        None \<Rightarrow> Inr dflt
      | Some (Toml_bool b) \<Rightarrow> Inr b
      | Some _ \<Rightarrow> Inl (malformed config_path (''mount_policy.'' @ field_name @ '' must be a boolean'')))"

definition parse_positive_int :: "(string \<times> toml) list \<Rightarrow> string \<Rightarrow> string \<Rightarrow> int \<Rightarrow> config_error + int" where
  "parse_positive_int raw_policy config_path field_name dflt =
     (let bad = Inl (malformed config_path (''collapse.'' @ field_name @ '' must be an integer >= 1'')) in
      case map_of raw_policy field_name of
        None \<Rightarrow> if dflt < 1 then bad else Inr dflt
      | Some (Toml_int i) \<Rightarrow> if i < 1 then bad else Inr i
      | Some _ \<Rightarrow> bad)"

text \<open>A non-blank string, or the error.\<close>

definition path_entry :: "config_fs \<Rightarrow> string \<Rightarrow> string \<Rightarrow> string \<Rightarrow> toml \<Rightarrow> config_error + pathname" where
  "path_entry fs config_path message kind raw =
     (case raw of
        Toml_str s \<Rightarrow> if strip s = [] then Inl (malformed config_path message) else normalize_absolute_path fs s kind
      | _ \<Rightarrow> Inl (malformed config_path message))"

definition parse_root_entry :: "config_fs \<Rightarrow> string \<Rightarrow> toml \<Rightarrow> config_error + configured_root" where
  "parse_root_entry fs config_path entry =
     (case entry of
        Toml_table t \<Rightarrow>
          (case (case map_of t ''path'' of
                   Some raw \<Rightarrow> path_entry fs config_path ''each root must include a path string'' ''invalid_root'' raw
                 | None \<Rightarrow> Inl (malformed config_path ''each root must include a path string'')) of
             Inl e \<Rightarrow> Inl e
           | Inr path \<Rightarrow>
               (case parse_bool t config_path ''require_mount'' False of
                  Inl e \<Rightarrow> Inl e
                | Inr b \<Rightarrow> Inr \<lparr> cr_path = path, cr_require_mount = b \<rparr>))
      | _ \<Rightarrow> Inl (malformed config_path ''each root must be a TOML table''))"

definition parse_roots :: "config_fs \<Rightarrow> string \<Rightarrow> (string \<times> toml) list \<Rightarrow> config_error + configured_root list" where
  "parse_roots fs config_path data =
     (case map_of data ''roots'' of
        None \<Rightarrow> Inl (config_err ''no_roots'' config_path ''configuration must declare at least one root'')
      | Some (Toml_array entries) \<Rightarrow> map_err (parse_root_entry fs config_path) entries
      | Some _ \<Rightarrow> Inl (malformed config_path ''roots must be an array of tables''))"

definition parse_exclude_paths :: "config_fs \<Rightarrow> string \<Rightarrow> (string \<times> toml) list \<Rightarrow> config_error + pathname list" where
  "parse_exclude_paths fs config_path data =
     (case map_of data ''exclude_paths'' of
        None \<Rightarrow> Inr []
      | Some (Toml_array entries) \<Rightarrow>
          map_err (path_entry fs config_path ''exclude_paths entries must be path strings'' ''invalid_exclude_path'') entries
      | Some _ \<Rightarrow> Inl (malformed config_path ''exclude_paths must be an array''))"

text \<open>A list of strings, each stripped and not blank.\<close>

definition stripped_string :: "config_error \<Rightarrow> toml \<Rightarrow> config_error + string" where
  "stripped_string err raw =
     (case raw of Toml_str s \<Rightarrow> if strip s = [] then Inl err else Inr (strip s) | _ \<Rightarrow> Inl err)"

definition parse_filesystem_list :: "(string \<times> toml) list \<Rightarrow> string \<Rightarrow> string \<Rightarrow> config_error + string set" where
  "parse_filesystem_list raw_policy config_path field_name =
     (case map_of raw_policy field_name of
        None \<Rightarrow> Inr {}
      | Some (Toml_array entries) \<Rightarrow>
          map_sum id set (map_err (stripped_string
            (malformed config_path (''mount_policy.'' @ field_name @ '' entries must be non-empty strings''))) entries)
      | Some _ \<Rightarrow> Inl (malformed config_path (''mount_policy.'' @ field_name @ '' must be an array'')))"

text \<open>A sub-table of the document, empty by default.\<close>

definition toml_section :: "string \<Rightarrow> string \<Rightarrow> (string \<times> toml) list \<Rightarrow> config_error + (string \<times> toml) list" where
  "toml_section config_path key data =
     (case map_of data key of
        None \<Rightarrow> Inr []
      | Some (Toml_table t) \<Rightarrow> Inr t
      | Some _ \<Rightarrow> Inl (malformed config_path (key @ '' must be a TOML table'')))"

definition parse_mount_policy :: "string \<Rightarrow> (string \<times> toml) list \<Rightarrow> config_error + mount_policy" where
  "parse_mount_policy config_path data =
     (case toml_section config_path ''mount_policy'' data of
        Inl e \<Rightarrow> Inl e
      | Inr t \<Rightarrow>
        (case parse_filesystem_list t config_path ''included_filesystems'' of Inl e \<Rightarrow> Inl e | Inr included \<Rightarrow>
        (case parse_filesystem_list t config_path ''skipped_filesystems'' of Inl e \<Rightarrow> Inl e | Inr skipped \<Rightarrow>
        (case parse_bool t config_path ''skip_overlay'' True of Inl e \<Rightarrow> Inl e | Inr overlay \<Rightarrow>
        (case parse_bool t config_path ''skip_namespace'' True of Inl e \<Rightarrow> Inl e | Inr namespace \<Rightarrow>
        (case parse_bool t config_path ''one_filesystem'' True of Inl e \<Rightarrow> Inl e | Inr one \<Rightarrow>
           Inr \<lparr> mp_skipped_filesystems = skipped, mp_included_filesystems = included, mp_skip_overlay = overlay,
                 mp_skip_namespace = namespace, mp_one_filesystem = one \<rparr>))))))"

definition collapse_name :: "string \<Rightarrow> toml \<Rightarrow> config_error + string" where
  "collapse_name config_path raw =
     (case raw of
        Toml_str s \<Rightarrow> if strip s = [] then Inl (malformed config_path ''collapse.names entries must be non-empty'')
                     else Inr (strip s)
      | _ \<Rightarrow> Inl (malformed config_path ''collapse.names entries must be strings''))"

definition parse_collapse_names :: "string \<Rightarrow> (string \<times> toml) list \<Rightarrow> config_error + string set" where
  "parse_collapse_names config_path t =
     (case map_of t ''names'' of
        None \<Rightarrow> Inr (cp_names default_collapse)
      | Some (Toml_array entries) \<Rightarrow> map_sum id set (map_err (collapse_name config_path) entries)
      | Some _ \<Rightarrow> Inl (malformed config_path ''collapse.names must be an array''))"

definition parse_collapse_never :: "config_fs \<Rightarrow> string \<Rightarrow> (string \<times> toml) list \<Rightarrow> config_error + pathname list" where
  "parse_collapse_never fs config_path t =
     (case map_of t ''never'' of
        None \<Rightarrow> Inr []
      | Some (Toml_array entries) \<Rightarrow>
          map_err (path_entry fs config_path ''collapse.never entries must be path strings'' ''invalid_collapse_never'') entries
      | Some _ \<Rightarrow> Inl (malformed config_path ''collapse.never must be an array''))"

definition collapse_of_table :: "config_fs \<Rightarrow> string \<Rightarrow> (string \<times> toml) list \<Rightarrow> config_error + collapse_policy" where
  "collapse_of_table fs config_path t =
     (case parse_collapse_names config_path t of Inl e \<Rightarrow> Inl e | Inr names \<Rightarrow>
     (case parse_positive_int t config_path ''fan_out'' (cp_fan_out default_collapse) of Inl e \<Rightarrow> Inl e | Inr fan_out \<Rightarrow>
     (case parse_positive_int t config_path ''descendants'' (cp_descendants default_collapse) of Inl e \<Rightarrow> Inl e | Inr desc \<Rightarrow>
     (case parse_collapse_never fs config_path t of Inl e \<Rightarrow> Inl e | Inr never \<Rightarrow>
        Inr \<lparr> cp_names = names, cp_fan_out = fan_out, cp_descendants = desc, cp_never = never \<rparr>))))"

definition parse_collapse_policy :: "config_fs \<Rightarrow> string \<Rightarrow> (string \<times> toml) list \<Rightarrow> config_error + collapse_policy" where
  "parse_collapse_policy fs config_path data =
     (case toml_section config_path ''collapse'' data of Inl e \<Rightarrow> Inl e | Inr t \<Rightarrow>
        (let extra = filter (\<lambda>k. k \<notin> {''names'', ''fan_out'', ''descendants'', ''never''}) (map fst t) in
         if extra \<noteq> [] then Inl (malformed config_path (''collapse.'' @ Min (set extra) @ '' is not supported''))
         else collapse_of_table fs config_path t))"

subsection \<open>Roots\<close>

definition config_symlink_component :: "config_fs \<Rightarrow> pathname \<Rightarrow> bool" where
  "config_symlink_component fs path =
     list_ex (\<lambda>n. cf_is_symlink fs (slash # join_str ''/'' (take n (path_components path))))
       [1..<Suc (length (path_components path))]"

text \<open>\<open>a in b.parents\<close>.\<close>

definition in_parents :: "pathname \<Rightarrow> pathname \<Rightarrow> bool" where
  "in_parents a b \<longleftrightarrow> a \<in> set (ancestors b)"

definition roots_overlap :: "config_fs \<Rightarrow> configured_root \<Rightarrow> configured_root \<Rightarrow> mount_policy option \<Rightarrow> bool" where
  "roots_overlap fs first second policy =
     (if cr_path first = cr_path second then True
      else if \<not> in_parents (cr_path first) (cr_path second) \<and> \<not> in_parents (cr_path second) (cr_path first) then False
      else
        (let (child, parent) = (if in_parents (cr_path second) (cr_path first) then (first, second) else (second, first))
         in \<not> ((case policy of None \<Rightarrow> True | Some p \<Rightarrow> mp_one_filesystem p)
               \<and> cr_require_mount child
               \<and> cf_st_dev fs (cr_path child) \<noteq> cf_st_dev fs (cr_path parent))))"

definition check_root :: "config_fs \<Rightarrow> mount_policy option \<Rightarrow> configured_root list \<Rightarrow> configured_root \<Rightarrow> config_error + configured_root list" where
  "check_root fs policy resolved r =
     (let path = cr_path r in
      if config_symlink_component fs path
      then Inl (config_err ''symlink_root'' path ''configured root must not traverse a symlinked path component'')
      else if \<not> cf_exists fs path then Inl (config_err ''missing_root'' path ''configured root does not exist'')
      else if \<not> cf_is_dir fs path then Inl (config_err ''file_root'' path ''configured root must be a directory'')
      else if cr_require_mount r \<and> \<not> cf_is_mount fs path
      then Inl (config_err ''missing_mount'' path ''configured root must be a mounted filesystem'')
      else if list_ex (\<lambda>existing. roots_overlap fs r existing policy) resolved
      then Inl (config_err ''overlapping_roots'' path ''configured roots must not overlap'')
      else Inr (resolved @ [r]))"

definition validate_roots :: "config_fs \<Rightarrow> configured_root list \<Rightarrow> mount_policy option \<Rightarrow> config_error + unit" where
  "validate_roots fs roots policy =
     (if roots = [] then Inl (config_err ''no_roots'' [] ''configuration must declare at least one root'')
      else map_sum id (\<lambda>_. ()) (fold_err (check_root fs policy) [] roots))"

definition load_config :: "config_fs \<Rightarrow> string \<Rightarrow> (string \<times> toml) list \<Rightarrow> config_error + watch_config" where
  "load_config fs config_path data =
     (case parse_roots fs config_path data of Inl e \<Rightarrow> Inl e | Inr roots \<Rightarrow>
     (case parse_exclude_paths fs config_path data of Inl e \<Rightarrow> Inl e | Inr excludes \<Rightarrow>
     (case parse_mount_policy config_path data of Inl e \<Rightarrow> Inl e | Inr mount_policy \<Rightarrow>
     (case parse_collapse_policy fs config_path data of Inl e \<Rightarrow> Inl e | Inr collapse_policy \<Rightarrow>
     (case validate_roots fs roots (Some mount_policy) of Inl e \<Rightarrow> Inl e | Inr _ \<Rightarrow>
        Inr \<lparr> wc_roots = roots, wc_exclude_paths = excludes, wc_mount_policy = mount_policy,
              wc_collapse_policy = collapse_policy \<rparr>)))))"

subsection \<open>Accepted configurations\<close>

declare case_sum_Inr [simp]

lemma map_err_ball: "map_err f xs = Inr ys \<Longrightarrow> \<forall>x\<in>set xs. \<forall>y. f x = Inr y \<longrightarrow> P y \<Longrightarrow> \<forall>y\<in>set ys. P y"
  by (induction xs arbitrary: ys) auto

lemma map_err_all: "map_err f xs = Inr ys \<Longrightarrow> (\<And>x y. x \<in> set xs \<Longrightarrow> f x = Inr y \<Longrightarrow> P y) \<Longrightarrow> \<forall>y\<in>set ys. P y"
  by (rule map_err_ball) blast+

lemma normalize_absolute_ok: "normalize_absolute_path fs raw kind = Inr p \<Longrightarrow> startswith p ''/''"
  by (auto simp: normalize_absolute_path_def Let_def split: if_splits)

lemma path_entry_ok: "path_entry fs config_path message kind raw = Inr p \<Longrightarrow> startswith p ''/''"
  by (auto simp: path_entry_def split: toml.splits if_splits dest: normalize_absolute_ok)

lemma parse_root_entry_ok: "parse_root_entry fs config_path entry = Inr r \<Longrightarrow> startswith (cr_path r) ''/''"
  by (auto simp: parse_root_entry_def split: toml.splits option.splits sum.splits dest: path_entry_ok)

lemma parse_roots_ok: "parse_roots fs config_path data = Inr roots \<Longrightarrow> \<forall>r\<in>set roots. startswith (cr_path r) ''/''"
  unfolding parse_roots_def
  by (auto split: option.splits toml.splits dest: parse_root_entry_ok elim!: map_err_all[where P = "\<lambda>r. startswith (cr_path r) ''/''", rule_format])

lemma parse_exclude_ok: "parse_exclude_paths fs config_path data = Inr ps \<Longrightarrow> \<forall>p\<in>set ps. startswith p ''/''"
  unfolding parse_exclude_paths_def
  by (auto split: option.splits toml.splits dest: path_entry_ok elim!: map_err_all[where P = "\<lambda>p. startswith p ''/''", rule_format])

lemma parse_never_ok: "parse_collapse_never fs config_path t = Inr ps \<Longrightarrow> \<forall>p\<in>set ps. startswith p ''/''"
  unfolding parse_collapse_never_def
  by (auto split: option.splits toml.splits dest: path_entry_ok elim!: map_err_all[where P = "\<lambda>p. startswith p ''/''", rule_format])

lemma parse_positive_ok: "parse_positive_int t config_path field dflt = Inr i \<Longrightarrow> 1 \<le> i"
  by (auto simp: parse_positive_int_def Let_def split: option.splits toml.splits if_splits)

lemma parse_names_ok: "parse_collapse_names config_path t = Inr names \<Longrightarrow> finite names \<and> [] \<notin> names"
proof -
  assume a: "parse_collapse_names config_path t = Inr names"
  show ?thesis
  proof (cases "map_of t ''names''")
    case None
    then show ?thesis using a by (auto simp: parse_collapse_names_def default_collapse_def)
  next
    case (Some v)
    with a obtain entries ys where ys: "map_err (collapse_name config_path) entries = Inr ys" "names = set ys"
      by (cases v) (auto simp: parse_collapse_names_def map_sum_Inr)
    have "\<forall>y\<in>set ys. y \<noteq> []"
      by (rule map_err_all[OF ys(1)]) (auto simp: collapse_name_def split: toml.splits if_splits)
    then show ?thesis using ys(2) by auto
  qed
qed

lemma parse_collapse_ok:
  assumes "parse_collapse_policy fs config_path data = Inr cp"
  shows "1 \<le> cp_fan_out cp \<and> 1 \<le> cp_descendants cp \<and> [] \<notin> cp_names cp \<and> (\<forall>p\<in>set (cp_never cp). startswith p ''/'')"
proof -
  from assms obtain t where "collapse_of_table fs config_path t = Inr cp"
    unfolding parse_collapse_policy_def Let_def case_sum_Inr by (metis sum.distinct(1))
  then have t: "parse_collapse_names config_path t = Inr (cp_names cp)"
    "parse_positive_int t config_path ''fan_out'' (cp_fan_out default_collapse) = Inr (cp_fan_out cp)"
    "parse_positive_int t config_path ''descendants'' (cp_descendants default_collapse) = Inr (cp_descendants cp)"
    "parse_collapse_never fs config_path t = Inr (cp_never cp)"
    unfolding collapse_of_table_def case_sum_Inr by auto
  show ?thesis
    using parse_names_ok[OF t(1)] parse_positive_ok[OF t(2)] parse_positive_ok[OF t(3)] parse_never_ok[OF t(4)] by blast
qed

text \<open>A root the checks accept.\<close>

definition root_ok :: "config_fs \<Rightarrow> configured_root \<Rightarrow> bool" where
  "root_ok fs r \<longleftrightarrow> \<not> config_symlink_component fs (cr_path r) \<and> cf_exists fs (cr_path r) \<and> cf_is_dir fs (cr_path r)
     \<and> (cr_require_mount r \<longrightarrow> cf_is_mount fs (cr_path r))"

lemma check_root_iff:
  "check_root fs policy resolved r = Inr resolved' \<longleftrightarrow>
     root_ok fs r \<and> (\<forall>e\<in>set resolved. \<not> roots_overlap fs r e policy) \<and> resolved' = resolved @ [r]"
  by (auto simp: check_root_def Let_def root_ok_def list_ex_iff)

lemma check_roots_fold:
  "fold_err (check_root fs policy) resolved roots = Inr out \<Longrightarrow>
     sorted_wrt (\<lambda>e r. \<not> roots_overlap fs r e policy) resolved \<Longrightarrow> \<forall>r\<in>set resolved. root_ok fs r \<Longrightarrow>
     out = resolved @ roots \<and> sorted_wrt (\<lambda>e r. \<not> roots_overlap fs r e policy) out \<and> (\<forall>r\<in>set out. root_ok fs r)"
proof (induction roots arbitrary: resolved)
  case (Cons r roots)
  then obtain res1 where r: "check_root fs policy resolved r = Inr res1" "fold_err (check_root fs policy) res1 roots = Inr out"
    unfolding fold_err.simps case_sum_Inr by blast
  have "res1 = resolved @ [r]" "root_ok fs r" "\<forall>e\<in>set resolved. \<not> roots_overlap fs r e policy"
    using check_root_iff[THEN iffD1, OF r(1)] by blast+
  then have "sorted_wrt (\<lambda>e r. \<not> roots_overlap fs r e policy) res1" "\<forall>r\<in>set res1. root_ok fs r" "res1 @ roots = resolved @ r # roots"
    using Cons.prems(2,3) by (auto simp: sorted_wrt_append)
  with Cons.IH[OF r(2)] show ?case by metis
qed simp

text \<open>What not overlapping means for two roots, in either order.\<close>

definition roots_separate :: "config_fs \<Rightarrow> mount_policy \<Rightarrow> configured_root \<Rightarrow> configured_root \<Rightarrow> bool" where
  "roots_separate fs policy a b \<longleftrightarrow> cr_path a \<noteq> cr_path b
     \<and> (cr_path a \<in> set (ancestors (cr_path b)) \<longrightarrow> mp_one_filesystem policy \<and> cr_require_mount b
          \<and> cf_st_dev fs (cr_path b) \<noteq> cf_st_dev fs (cr_path a))"

lemma not_overlap_separate:
  assumes "\<not> roots_overlap fs r e (Some policy)"
  shows "roots_separate fs policy r e \<and> roots_separate fs policy e r"
proof -
  have "\<not> (in_parents (cr_path r) (cr_path e) \<and> in_parents (cr_path e) (cr_path r))"
    using ancestors_length[of "cr_path r" "cr_path e"] ancestors_length[of "cr_path e" "cr_path r"] by (auto simp: in_parents_def)
  then consider "in_parents (cr_path e) (cr_path r)" "\<not> in_parents (cr_path r) (cr_path e)"
    | "\<not> in_parents (cr_path e) (cr_path r)" "in_parents (cr_path r) (cr_path e)"
    | "\<not> in_parents (cr_path e) (cr_path r)" "\<not> in_parents (cr_path r) (cr_path e)" by blast
  then show ?thesis
  proof cases
    case 1
    then show ?thesis using assms
      by (simp add: roots_overlap_def roots_separate_def in_parents_def split: if_splits)
  next
    case 2
    then show ?thesis using assms
      by (simp add: roots_overlap_def roots_separate_def in_parents_def split: if_splits)
  next
    case 3
    then show ?thesis using assms
      by (simp add: roots_overlap_def roots_separate_def in_parents_def split: if_splits)
  qed
qed

text \<open>
  C21: An accepted configuration is usable.  It has at least one root; every root exists, is a
  directory reached without symbolic links and is a mount point if it must be; of two roots neither
  equals the other, and one contains the other only if the policy stays on one file system and the
  inner one is a required mount on another device; all paths are absolute, and the collapse
  thresholds are positive and its names not empty.
\<close>

theorem load_config_valid:
  assumes "load_config fs config_path data = Inr cfg"
  shows "wc_roots cfg \<noteq> [] \<and> (\<forall>r\<in>set (wc_roots cfg). root_ok fs r \<and> startswith (cr_path r) ''/'')
    \<and> sorted_wrt (\<lambda>a b. roots_separate fs (wc_mount_policy cfg) a b \<and> roots_separate fs (wc_mount_policy cfg) b a) (wc_roots cfg)
    \<and> (\<forall>p\<in>set (wc_exclude_paths cfg) \<union> set (cp_never (wc_collapse_policy cfg)). startswith p ''/'')
    \<and> 1 \<le> cp_fan_out (wc_collapse_policy cfg) \<and> 1 \<le> cp_descendants (wc_collapse_policy cfg)
    \<and> [] \<notin> cp_names (wc_collapse_policy cfg)"
proof -
  from assms obtain u where parts: "parse_roots fs config_path data = Inr (wc_roots cfg)"
    "parse_exclude_paths fs config_path data = Inr (wc_exclude_paths cfg)"
    "parse_collapse_policy fs config_path data = Inr (wc_collapse_policy cfg)"
    "validate_roots fs (wc_roots cfg) (Some (wc_mount_policy cfg)) = Inr u"
    unfolding load_config_def case_sum_Inr by auto
  then have ne: "wc_roots cfg \<noteq> []" by (auto simp: validate_roots_def split: if_splits)
  with parts(4) obtain out where "fold_err (check_root fs (Some (wc_mount_policy cfg))) [] (wc_roots cfg) = Inr out"
    by (cases "fold_err (check_root fs (Some (wc_mount_policy cfg))) [] (wc_roots cfg)") (auto simp: validate_roots_def)
  from check_roots_fold[OF this] have chk: "sorted_wrt (\<lambda>e r. \<not> roots_overlap fs r e (Some (wc_mount_policy cfg))) (wc_roots cfg)"
    "\<forall>r\<in>set (wc_roots cfg). root_ok fs r" by auto
  have "sorted_wrt (\<lambda>a b. roots_separate fs (wc_mount_policy cfg) a b \<and> roots_separate fs (wc_mount_policy cfg) b a) (wc_roots cfg)"
    using chk(1) by (rule sorted_wrt_mono_rel[rotated]) (use not_overlap_separate in blast)
  then show ?thesis using ne chk(2) parse_roots_ok[OF parts(1)] parse_exclude_ok[OF parts(2)] parse_collapse_ok[OF parts(3)] by blast
qed

definition sample_fs :: config_fs where
  "sample_fs = \<lparr> cf_expanduser = (\<lambda>s. s), cf_is_symlink = (\<lambda>_. False), cf_exists = (\<lambda>_. True), cf_is_dir = (\<lambda>_. True),
     cf_is_mount = (\<lambda>_. True), cf_st_dev = (\<lambda>p. if p = ''/srv/data'' then 2 else 1) \<rparr>"

definition sample_config :: "(string \<times> toml) list" where
  "sample_config = [(''roots'', Toml_array [Toml_table [(''path'', Toml_str ''/srv/'')],
     Toml_table [(''path'', Toml_str ''/srv/data''), (''require_mount'', Toml_bool True)]])]"

theorem load_config_valid_witness:
  "\<exists>cfg. load_config sample_fs ''c'' sample_config = Inr cfg \<and> map cr_path (wc_roots cfg) = [''/srv'', ''/srv/data'']
     \<and> cf_st_dev sample_fs ''/srv/data'' \<noteq> cf_st_dev sample_fs ''/srv''"
proof -
  have paths: "map_sum id (\<lambda>c. map cr_path (wc_roots c)) (load_config sample_fs ''c'' sample_config) = Inr [''/srv'', ''/srv/data'']"
    by code_simp
  then obtain cfg where cfg: "load_config sample_fs ''c'' sample_config = Inr cfg" and p: "map cr_path (wc_roots cfg) = [''/srv'', ''/srv/data'']"
    by (cases "load_config sample_fs ''c'' sample_config") auto
  obtain a b where ab: "wc_roots cfg = [a, b]" "cr_path a = ''/srv''" "cr_path b = ''/srv/data''" using p by (auto simp: map_eq_Cons_conv)
  have "ancestors ''/srv/data'' = [''/srv'', ''/'']" by code_simp
  then have "''/srv'' \<in> set (ancestors ''/srv/data'')" by simp
  moreover have "roots_separate sample_fs (wc_mount_policy cfg) a b"
    using load_config_valid[OF cfg] unfolding ab(1) sorted_wrt.simps list.set by blast
  ultimately have dev: "cf_st_dev sample_fs ''/srv/data'' \<noteq> cf_st_dev sample_fs ''/srv''"
    unfolding roots_separate_def ab(2,3) by blast
  show ?thesis by (rule exI[of _ cfg]) (rule conjI[OF cfg conjI[OF p dev]])
qed

text \<open>
  A root whose \<open>require_mount\<close> is not a boolean is reported as a bad field of the mount policy,
  a table that has no such field.
\<close>

theorem require_mount_misreported:
  "parse_root_entry fs config_path (Toml_table [(''path'', Toml_str ''/srv''), (''require_mount'', Toml_int 1)])
     \<in> {Inl (malformed config_path ''mount_policy.require_mount must be a boolean''),
        Inl (config_err ''invalid_root'' ''/srv'' ''configured paths must be absolute'')}"
proof -
  have "strip ''/srv'' \<noteq> []" by code_simp
  then show ?thesis
    by (auto simp: parse_root_entry_def path_entry_def normalize_absolute_path_def Let_def parse_bool_def)
qed

end
