(* ===== verification/Collect.thy ===== *)
theory Collect
  imports Store Filesystems Config
begin

text \<open>
  One collection run: \<open>_collect_single_root\<close> of \<open>cli.py\<close> puts the scanner, the usage capture and the
  store together, and the run over all configured roots computes the exit code.  The answers of the
  operating system during a run are a record; an exception in the run is its text.  A scan that does
  not end is \<open>None\<close>.  The signal handler that finalizes interrupted snapshots is
  \<open>finalize_interrupted\<close>.
\<close>

subsection \<open>The row estimate\<close>

text \<open>
  \<open>_previous_row_count_for_root\<close>: the rows of the latest complete snapshot of the root, as the query
  counts them.  The query joins the intervals to the snapshot by id alone.
\<close>

definition latest_complete_id :: "db \<Rightarrow> pathname \<Rightarrow> int option" where
  "latest_complete_id d root_path =
     (let ids = map sn_id (filter (\<lambda>s. sn_root_path s = root_path \<and> sn_status s = status_value COMPLETE) (db_snapshots d))
      in if ids = [] then None else Some (Max (set ids)))"

definition previous_row_count_for_root :: "db \<Rightarrow> pathname \<Rightarrow> int option" where
  "previous_row_count_for_root d root_path =
     (case latest_complete_id d root_path of
        None \<Rightarrow> None
      | Some sid \<Rightarrow>
          (let n = length (filter (\<lambda>iv. iv_valid_from iv \<le> sid
                       \<and> (case iv_valid_to iv of None \<Rightarrow> True | Some t \<Rightarrow> sid < t)) (db_intervals d))
           in if n = 0 then None else Some (int n)))"

subsection \<open>Answers of the environment\<close>

record mount_probe =
  pb_is_mount :: bool
  pb_is_symlink :: bool
  pb_stat :: "string + int \<times> int"

record collect_env =
  cl_started_at :: string
  cl_captured_at :: string
  cl_finished_at :: string
  cl_mountinfo :: "string + bytes"
  cl_mountinfo_again :: "string + bytes"
  cl_probe :: mount_probe
  cl_probe_again :: mount_probe
  cl_statvfs :: statvfs_call
  cl_scan :: scan_env
  cl_mount_error_text :: "mount_error \<Rightarrow> string"
  cl_db_error_text :: "db_error \<Rightarrow> string"

definition load_mountinfo :: "(mount_error \<Rightarrow> string) \<Rightarrow> string + bytes \<Rightarrow> string + mount_info list" where
  "load_mountinfo error_text contents =
     (case contents of Inl e \<Rightarrow> Inl e | Inr raw \<Rightarrow> map_sum error_text id (parse_mountinfo raw))"

definition required_mount_identity ::
    "configured_root \<Rightarrow> mount_probe \<Rightarrow> mount_info list \<Rightarrow> string + (int \<times> int \<times> int) option" where
  "required_mount_identity r probe mounts =
     (if \<not> cr_require_mount r then Inr None
      else case List.find (\<lambda>m. mi_mount_point m = cr_path r) mounts of
        None \<Rightarrow> Inl (''required filesystem is not mounted at '' @ cr_path r)
      | Some mount \<Rightarrow>
          if \<not> pb_is_mount probe \<or> pb_is_symlink probe
          then Inl (''required filesystem is not mounted at '' @ cr_path r)
          else map_sum id (\<lambda>(dev, ino). Some (mi_mount_id mount, dev, ino)) (pb_stat probe))"

subsection \<open>One root\<close>

definition scan_options_for :: "watch_config \<Rightarrow> configured_root \<Rightarrow> mount_info list \<Rightarrow> scanner_options" where
  "scan_options_for cfg r mounts =
     \<lparr> so_root = cr_path r,
       so_exclude_paths = wc_exclude_paths cfg
         @ map cr_path (filter (\<lambda>other. in_parents (cr_path r) (cr_path other)) (wc_roots cfg)),
       so_mounts = mounts, so_mount_policy = Some (wc_mount_policy cfg),
       so_collapse_policy = Some (wc_collapse_policy cfg), so_record_skipped = True,
       so_hardlink_dedup_max_entries = 500000 \<rparr>"

text \<open>The transaction that stores a scan.\<close>

definition persist_scan ::
    "collect_env \<Rightarrow> string option \<Rightarrow> int \<Rightarrow> mount_info list \<Rightarrow> snapshot_filesystem_usage list \<Rightarrow> scan_result
     \<Rightarrow> db \<Rightarrow> db_error + snapshot_record \<times> db" where
  "persist_scan env notes sid mounts usage result d =
     (case insert_directory_rows (map (\<lambda>row. aggregate_entry row sid) (sc_rows result)) d of
        Inl e \<Rightarrow> Inl e
      | Inr d1 \<Rightarrow>
          (case insert_snapshot_filesystems (cl_captured_at env) usage d1 of
             Inl e \<Rightarrow> Inl e
           | Inr d2 \<Rightarrow>
               (case insert_snapshot_mounts sid mounts d2 of
                  Inl e \<Rightarrow> Inl e
                | Inr d3 \<Rightarrow> finalize_snapshot (cl_finished_at env) sid (sc_status result) notes (sc_fatal_error result) d3)))"

text \<open>The body of the \<open>try\<close>: the text of an exception, or the finalized snapshot and its row count.\<close>

definition collect_attempt ::
    "collect_env \<Rightarrow> watch_config \<Rightarrow> configured_root \<Rightarrow> string option \<Rightarrow> int \<Rightarrow> db
     \<Rightarrow> (string + snapshot_record \<times> int \<times> db) option" where
  "collect_attempt env cfg r notes sid d =
     (case load_mountinfo (cl_mount_error_text env) (cl_mountinfo env) of
        Inl e \<Rightarrow> Some (Inl e)
      | Inr mounts \<Rightarrow>
          (case required_mount_identity r (cl_probe env) mounts of
             Inl e \<Rightarrow> Some (Inl e)
           | Inr identity \<Rightarrow>
               (let usage = collect_snapshot_filesystem_usage (cl_statvfs env) sid (cr_path r) mounts (Some (wc_mount_policy cfg)) in
                case scan_root (cl_scan env) (scan_options_for cfg r mounts) of
                  None \<Rightarrow> None
                | Some result \<Rightarrow>
                    (case (if identity = None then Inr identity
                           else case load_mountinfo (cl_mount_error_text env) (cl_mountinfo_again env) of
                             Inl e \<Rightarrow> Inl e
                           | Inr mounts' \<Rightarrow> required_mount_identity r (cl_probe_again env) mounts') of
                       Inl e \<Rightarrow> Some (Inl e)
                     | Inr identity' \<Rightarrow>
                         if identity' \<noteq> identity
                         then Some (Inl (''required filesystem changed during collection at '' @ cr_path r))
                         else
                           (case persist_scan env notes sid mounts usage result d of
                              Inl e \<Rightarrow> Some (Inl (cl_db_error_text env e))
                            | Inr (rec, d') \<Rightarrow> Some (Inr (rec, sc_row_count result, d')))))))"

definition collect_single_root ::
    "collect_env \<Rightarrow> watch_config \<Rightarrow> string option \<Rightarrow> configured_root \<Rightarrow> db \<Rightarrow> (db_error + snapshot_record \<times> int \<times> db) option" where
  "collect_single_root env cfg notes r d =
     (case create_snapshot (cl_started_at env) (cr_path r) notes d of
        (snapshot, d1) \<Rightarrow>
          (case collect_attempt env cfg r notes (sr_id snapshot) d1 of
             None \<Rightarrow> None
           | Some (Inr done) \<Rightarrow> Some (Inr done)
           | Some (Inl message) \<Rightarrow>
               Some (map_sum id (\<lambda>(rec, d2). (rec, 0, d2))
                 (finalize_snapshot (cl_finished_at env) (sr_id snapshot) FAILED notes (Some message) d1))))"

text \<open>The handler of SIGINT and SIGTERM: every snapshot still running becomes failed.\<close>

definition finalize_interrupted :: "string \<Rightarrow> string \<Rightarrow> int list \<Rightarrow> db \<Rightarrow> db_error + db" where
  "finalize_interrupted now message active d =
     fold_err (\<lambda>d sid. map_sum id snd (finalize_snapshot now sid FAILED None (Some message) d)) d active"

subsection \<open>All roots\<close>

text \<open>\<open>_run_collect_operation\<close>: the exit code is 1 as soon as some snapshot is not complete.\<close>

fun collect_roots ::
    "(configured_root \<Rightarrow> collect_env) \<Rightarrow> watch_config \<Rightarrow> string option \<Rightarrow> configured_root list \<Rightarrow> db
     \<Rightarrow> (db_error + (snapshot_record \<times> int) list \<times> int \<times> db) option" where
  "collect_roots env cfg notes [] d = Some (Inr ([], 0, d))"
| "collect_roots env cfg notes (r # rs) d =
     (case collect_single_root (env r) cfg notes r d of
        None \<Rightarrow> None
      | Some (Inl e) \<Rightarrow> Some (Inl e)
      | Some (Inr (rec, rows, d')) \<Rightarrow>
          (case collect_roots env cfg notes rs d' of
             None \<Rightarrow> None
           | Some (Inl e) \<Rightarrow> Some (Inl e)
           | Some (Inr (later, code, d'')) \<Rightarrow>
               Some (Inr ((rec, rows) # later, if sr_status rec \<noteq> COMPLETE then 1 else code, d''))))"

end
