(* ===== verification/Retention.thy ===== *)
theory Retention
  imports Store
begin

text \<open>
  The retention of \<open>db/retention.py\<close>: the tiers and their policy, the choice of the snapshots to
  keep, the pruning of everything else with its interval boundaries moved to kept snapshots, and the
  figures of the vacuum.  \<open>now\<close> and the offset of the local time zone are arguments; a cutoff is
  microseconds since the epoch.  Pruning in committed batches is the list of the states committed
  one after the other, so that what a reader sees between two commits can be stated.
\<close>

subsection \<open>Policy\<close>

datatype retention_tier_mode =
    COMPLETE_IN_HOURLY_WINDOW
  | INCOMPLETE_IN_DIAGNOSTIC_WINDOW
  | LATEST_COMPLETE_PER_UTC_DAY
  | LATEST_COMPLETE_PER_UTC_MONTH

datatype retention_error =
    Not_positive string
  | Daily_below_hourly
  | Tier_missing retention_tier_mode
  | No_finite_window string
  | Bad_status string
  | Bad_timestamp string
  | Prune_db_error db_error

record retention_tier =
  tr_name :: string
  tr_mode :: retention_tier_mode
  tr_window_days :: "int option"

definition make_tier :: "string \<Rightarrow> retention_tier_mode \<Rightarrow> int option \<Rightarrow> retention_error + retention_tier" where
  "make_tier name mode window =
     (case window of
        Some w \<Rightarrow> if w \<le> 0 then Inl (Not_positive name)
                  else Inr \<lparr> tr_name = name, tr_mode = mode, tr_window_days = Some w \<rparr>
      | None \<Rightarrow> Inr \<lparr> tr_name = name, tr_mode = mode, tr_window_days = None \<rparr>)"

record retention_policy =
  rp_hourly_days :: int
  rp_daily_days :: int
  rp_incomplete_hours :: int

definition make_policy :: "int \<Rightarrow> int \<Rightarrow> int \<Rightarrow> retention_error + retention_policy" where
  "make_policy hourly_days daily_days incomplete_hours =
     (if hourly_days \<le> 0 then Inl (Not_positive ''hourly_days'')
      else if daily_days \<le> 0 then Inl (Not_positive ''daily_days'')
      else if incomplete_hours \<le> 0 then Inl (Not_positive ''incomplete_hours'')
      else if daily_days < hourly_days then Inl Daily_below_hourly
      else Inr \<lparr> rp_hourly_days = hourly_days, rp_daily_days = daily_days, rp_incomplete_hours = incomplete_hours \<rparr>)"

definition default_policy :: retention_policy where
  "default_policy = \<lparr> rp_hourly_days = 3, rp_daily_days = 90, rp_incomplete_hours = 24 \<rparr>"

definition policy_tiers :: "retention_policy \<Rightarrow> retention_error + retention_tier list" where
  "policy_tiers p = map_err (\<lambda>(name, mode, window). make_tier name mode window)
     [(''hourly'', COMPLETE_IN_HOURLY_WINDOW, Some (rp_hourly_days p)),
      (''incomplete'', INCOMPLETE_IN_DIAGNOSTIC_WINDOW, None),
      (''daily'', LATEST_COMPLETE_PER_UTC_DAY, Some (rp_daily_days p)),
      (''monthly'', LATEST_COMPLETE_PER_UTC_MONTH, None)]"

definition policy_tier :: "retention_policy \<Rightarrow> retention_tier_mode \<Rightarrow> retention_error + retention_tier" where
  "policy_tier p mode =
     (case policy_tiers p of
        Inl e \<Rightarrow> Inl e
      | Inr tiers \<Rightarrow>
          (case List.find (\<lambda>t. tr_mode t = mode) tiers of Some t \<Rightarrow> Inr t | None \<Rightarrow> Inl (Tier_missing mode)))"

definition required_window_days :: "retention_tier \<Rightarrow> retention_error + int" where
  "required_window_days t =
     (case tr_window_days t of None \<Rightarrow> Inl (No_finite_window (tr_name t)) | Some w \<Rightarrow> Inr w)"

definition window_of :: "retention_policy \<Rightarrow> retention_tier_mode \<Rightarrow> retention_error + int" where
  "window_of p mode = (case policy_tier p mode of Inl e \<Rightarrow> Inl e | Inr t \<Rightarrow> required_window_days t)"

subsection \<open>Selection\<close>

record selection_state =
  ss_keep_ids :: "int set"
  ss_daily :: "((string \<times> int) \<times> (instant \<times> int)) list"
  ss_monthly :: "((string \<times> int \<times> int) \<times> (instant \<times> int)) list"

definition parse_snapshot_timestamp :: "(int \<Rightarrow> int) \<Rightarrow> string option \<Rightarrow> retention_error + instant option" where
  "parse_snapshot_timestamp lo v =
     (case v of
        None \<Rightarrow> Inr None
      | Some text \<Rightarrow> (case parse_utc lo text of None \<Rightarrow> Inl (Bad_timestamp text) | Some t \<Rightarrow> Inr (Some t)))"

definition keep_best :: "'k \<Rightarrow> 'r::linorder \<Rightarrow> ('k \<times> 'r) list \<Rightarrow> ('k \<times> 'r) list" where
  "keep_best k r m =
     (case map_of m k of
        None \<Rightarrow> AList.update k r m
      | Some previous \<Rightarrow> if previous < r then AList.update k r m else m)"

definition record_retained_snapshot_id ::
    "(int \<Rightarrow> int) \<Rightarrow> instant \<Rightarrow> instant \<Rightarrow> instant \<Rightarrow> selection_state \<Rightarrow> snapshot_row \<Rightarrow> retention_error + selection_state" where
  "record_retained_snapshot_id lo hourly_cutoff daily_cutoff incomplete_cutoff st row =
     (case snapshot_status_from_storage (sn_status row) (sn_finished_at row) of
        None \<Rightarrow> Inl (Bad_status (sn_status row))
      | Some status \<Rightarrow>
          (case parse_snapshot_timestamp lo (sn_finished_at row) of
             Inl e \<Rightarrow> Inl e
           | Inr finished \<Rightarrow>
               if status \<noteq> COMPLETE then
                 (case (case finished of Some t \<Rightarrow> Inr (Some t) | None \<Rightarrow> parse_snapshot_timestamp lo (Some (sn_started_at row))) of
                    Inl e \<Rightarrow> Inl e
                  | Inr evidence \<Rightarrow>
                      Inr (case evidence of
                             Some t \<Rightarrow> if incomplete_cutoff \<le> t
                                       then st\<lparr> ss_keep_ids := insert (sn_id row) (ss_keep_ids st) \<rparr> else st
                           | None \<Rightarrow> st))
               else
                 (case finished of
                    None \<Rightarrow> Inr st
                  | Some t \<Rightarrow>
                      (let r = (t, sn_id row);
                           st1 = st\<lparr> ss_monthly := keep_best (sn_root_path row, utc_year t, utc_month t) r (ss_monthly st) \<rparr>
                       in if hourly_cutoff \<le> t then Inr (st1\<lparr> ss_keep_ids := insert (sn_id row) (ss_keep_ids st1) \<rparr>)
                          else if daily_cutoff \<le> t
                          then Inr (st1\<lparr> ss_daily := keep_best (sn_root_path row, utc_day t) r (ss_daily st1) \<rparr>)
                          else Inr st1))))"

definition snapshots_by_id :: "db \<Rightarrow> snapshot_row list" where
  "snapshots_by_id d = sort_key sn_id (db_snapshots d)"

definition kept_ids :: "selection_state \<Rightarrow> int set" where
  "kept_ids st = ss_keep_ids st \<union> (snd \<circ> snd) ` set (ss_daily st) \<union> (snd \<circ> snd) ` set (ss_monthly st)"

definition select_retained_snapshot_ids ::
    "(int \<Rightarrow> int) \<Rightarrow> instant \<Rightarrow> retention_policy \<Rightarrow> db \<Rightarrow> retention_error + int list" where
  "select_retained_snapshot_ids lo now p d =
     (case window_of p COMPLETE_IN_HOURLY_WINDOW of
        Inl e \<Rightarrow> Inl e
      | Inr hourly \<Rightarrow>
          (case window_of p LATEST_COMPLETE_PER_UTC_DAY of
             Inl e \<Rightarrow> Inl e
           | Inr daily \<Rightarrow>
               (case fold_err (record_retained_snapshot_id lo (now - hourly * day_us) (now - daily * day_us)
                                 (now - rp_incomplete_hours p * hour_us))
                       \<lparr> ss_keep_ids = {}, ss_daily = [], ss_monthly = [] \<rparr> (snapshots_by_id d) of
                  Inl e \<Rightarrow> Inl e
                | Inr st \<Rightarrow> Inr (sorted_list_of_set (kept_ids st)))))"

subsection \<open>Pruning\<close>

text \<open>\<open>MIN\<close> over a column: \<open>NULL\<close> of no rows.\<close>

definition sql_min :: "int list \<Rightarrow> int option" where
  "sql_min xs = (if xs = [] then None else Some (Min (set xs)))"

definition retained_complete :: "int list \<Rightarrow> db \<Rightarrow> string \<Rightarrow> int list" where
  "retained_complete retained d root_path =
     map sn_id (filter (\<lambda>s. sn_id s \<in> set retained \<and> sn_status s = ''complete'' \<and> sn_root_path s = root_path) (db_snapshots d))"

definition covered :: "int list \<Rightarrow> db \<Rightarrow> interval_row \<Rightarrow> int list" where
  "covered retained d iv =
     filter (\<lambda>i. iv_valid_from iv \<le> i \<and> (case iv_valid_to iv of None \<Rightarrow> True | Some t \<Rightarrow> i < t))
       (retained_complete retained d (iv_root_path iv))"

definition normalized_row :: "int list \<Rightarrow> db \<Rightarrow> interval_row \<Rightarrow> interval_row option" where
  "normalized_row retained d iv =
     map_option (\<lambda>f. iv\<lparr> iv_valid_from := f,
         iv_valid_to := (case iv_valid_to iv of
             None \<Rightarrow> None
           | Some t \<Rightarrow> sql_min (filter (\<lambda>i. t \<le> i) (retained_complete retained d (iv_root_path iv)))) \<rparr>)
       (sql_min (covered retained d iv))"

text \<open>\<open>UPDATE\<close> row by row; each new row must satisfy the constraints against all others.\<close>

fun update_rows ::
    "(interval_row \<Rightarrow> interval_row option) \<Rightarrow> interval_row list \<Rightarrow> interval_row list \<Rightarrow> db_error + interval_row list" where
  "update_rows f acc [] = Inr acc"
| "update_rows f acc (iv # ivs) =
     (case f iv of
        None \<Rightarrow> Inl Not_null_violation
      | Some new \<Rightarrow>
          if list_ex (\<lambda>x. iv_root_path x = iv_root_path new \<and> iv_path_id x = iv_path_id new
                          \<and> iv_valid_from x = iv_valid_from new) (acc @ ivs)
          then Inl Unique_violation
          else update_rows f (acc @ [new]) ivs)"

definition normalize_interval_boundaries :: "int list \<Rightarrow> db \<Rightarrow> db_error + db" where
  "normalize_interval_boundaries retained d =
     (if retained = [] then Inr (d\<lparr> db_intervals := [] \<rparr>)
      else map_sum id (\<lambda>ivs. d\<lparr> db_intervals := ivs \<rparr>)
             (update_rows (normalized_row retained d) []
                (filter (\<lambda>iv. covered retained d iv \<noteq> []) (db_intervals d))))"

text \<open>\<open>DELETE FROM snapshots\<close> with its \<open>ON DELETE CASCADE\<close>s.\<close>

definition delete_snapshot_batch :: "int list \<Rightarrow> db \<Rightarrow> db" where
  "delete_snapshot_batch ids d =
     d\<lparr> db_snapshots := filter (\<lambda>s. sn_id s \<notin> set ids) (db_snapshots d),
        db_diagnostics := filter (\<lambda>v. dg_snapshot_id v \<notin> set ids) (db_diagnostics d),
        db_mounts := filter (\<lambda>m. sm_snapshot_id m \<notin> set ids) (db_mounts d),
        db_filesystems := filter (\<lambda>f. fu_snapshot_id (fy_usage f) \<notin> set ids) (db_filesystems d) \<rparr>"

definition delete_orphan_paths :: "db \<Rightarrow> int \<times> db" where
  "delete_orphan_paths d =
     (let d' = delete_unreferenced_paths d in (int (length (db_paths d)) - int (length (db_paths d')), d'))"

definition PRUNE_SNAPSHOT_DELETE_BATCH_SIZE :: nat where "PRUNE_SNAPSHOT_DELETE_BATCH_SIZE = 1"

function batches :: "nat \<Rightarrow> 'a list \<Rightarrow> 'a list list" where
  "batches n xs = (if xs = [] \<or> n = 0 then [] else take n xs # batches n (drop n xs))"
  by pat_completeness auto
termination by (relation "measure (\<lambda>(_, xs). length xs)") auto

declare batches.simps [simp del]

text \<open>The states committed by the deletions, from the state before them.\<close>

fun delete_batches :: "int list list \<Rightarrow> db \<Rightarrow> db list" where
  "delete_batches [] d = [d]"
| "delete_batches (b # bs) d = d # delete_batches bs (delete_snapshot_batch b d)"

definition prune_with_committed_batches :: "int list \<Rightarrow> int list \<Rightarrow> db \<Rightarrow> db_error + int \<times> db list" where
  "prune_with_committed_batches deleted retained d =
     (case normalize_interval_boundaries retained d of
        Inl e \<Rightarrow> Inl e
      | Inr d1 \<Rightarrow>
          (let ds = delete_batches (batches PRUNE_SNAPSHOT_DELETE_BATCH_SIZE deleted) d1;
               (removed, d3) = delete_orphan_paths (last ds)
           in Inr (removed, ds @ [d3])))"

record prune_result =
  pr_deleted_snapshot_ids :: "int list"
  pr_deleted_snapshot_count :: int
  pr_retained_snapshot_count :: int
  pr_deleted_path_count :: int
  pr_snapshots_before :: int
  pr_snapshots_after :: int

definition make_prune_result :: "int list \<Rightarrow> int list \<Rightarrow> int list \<Rightarrow> int \<Rightarrow> prune_result" where
  "make_prune_result snapshot_ids deleted retained deleted_paths =
     \<lparr> pr_deleted_snapshot_ids = deleted, pr_deleted_snapshot_count = int (length deleted),
       pr_retained_snapshot_count = int (length retained), pr_deleted_path_count = deleted_paths,
       pr_snapshots_before = int (length snapshot_ids),
       pr_snapshots_after = int (length snapshot_ids) - int (length deleted) \<rparr>"

text \<open>
  The result and the states that become visible to other connections: all of them with \<open>commit\<close>,
  none without (the caller's connection then holds the single state returned).
\<close>

definition prune_snapshots ::
    "(int \<Rightarrow> int) \<Rightarrow> instant \<Rightarrow> retention_policy \<Rightarrow> bool \<Rightarrow> db \<Rightarrow> retention_error + prune_result \<times> db list" where
  "prune_snapshots lo now p do_commit d =
     (case select_retained_snapshot_ids lo now p d of
        Inl e \<Rightarrow> Inl e
      | Inr retained \<Rightarrow>
          (let snapshot_ids = map sn_id (snapshots_by_id d);
               deleted = filter (\<lambda>i. i \<notin> set retained) snapshot_ids
           in if do_commit then
                map_sum Prune_db_error (\<lambda>(removed, ds). (make_prune_result snapshot_ids deleted retained removed, ds))
                  (prune_with_committed_batches deleted retained d)
              else
                (case normalize_interval_boundaries retained d of
                   Inl e \<Rightarrow> Inl (Prune_db_error e)
                 | Inr d1 \<Rightarrow>
                     (let d2 = (if deleted \<noteq> [] then delete_snapshot_batch deleted d1 else d1);
                          (removed, d3) = delete_orphan_paths d2
                      in Inr (make_prune_result snapshot_ids deleted retained removed, [d3])))))"

subsection \<open>Vacuum\<close>

text \<open>
  The answers of SQLite: the \<open>PRAGMA\<close> values before and after, the checkpoint row, and the file
  system's \<open>statvfs\<close>.
\<close>

record vacuum_answers =
  va_page_size :: int
  va_page_count_before :: int
  va_freelist_before :: int
  va_frsize :: int
  va_bsize :: int
  va_bavail :: int
  va_busy :: int
  va_log_pages :: int
  va_checkpointed_pages :: int
  va_page_count_after :: int
  va_freelist_after :: int

record vacuum_result =
  vr_db_bytes_before :: int
  vr_db_bytes_after :: int
  vr_page_count_before :: int
  vr_page_count_after :: int
  vr_freelist_count_before :: int
  vr_freelist_count_after :: int
  vr_available_free_bytes_before :: int
  vr_estimated_vacuum_required_free_bytes :: int
  vr_free_space_warning :: "string option"
  vr_wal_checkpoint_busy :: int
  vr_wal_checkpoint_log_pages :: int
  vr_wal_checkpoint_checkpointed_pages :: int
  vr_wal_checkpoint_warning :: "string option"

definition available_free_bytes :: "vacuum_answers \<Rightarrow> int" where
  "available_free_bytes a = (if va_frsize a \<noteq> 0 then va_frsize a else va_bsize a) * va_bavail a"

definition free_space_warning :: "int \<Rightarrow> int \<Rightarrow> string option" where
  "free_space_warning available required =
     (if available < required
      then Some (''available free space may be too low for VACUUM ('' @ int_str available @ '' < advisory ''
                 @ int_str required @ '' bytes)'')
      else None)"

definition wal_checkpoint_warning :: "int \<Rightarrow> int \<Rightarrow> int \<Rightarrow> string option" where
  "wal_checkpoint_warning busy log_pages checkpointed =
     (if busy \<noteq> 0 \<or> checkpointed < log_pages
      then Some (''wal_checkpoint(TRUNCATE) reported busy or partial progress (busy='' @ int_str busy @ '', log_pages=''
                 @ int_str log_pages @ '', checkpointed_pages='' @ int_str checkpointed @ '')'')
      else None)"

definition collect_vacuum_metrics :: "vacuum_answers \<Rightarrow> vacuum_result" where
  "collect_vacuum_metrics a =
     (let before = va_page_count_before a * va_page_size a;
          available = available_free_bytes a;
          required = 3 * before
      in \<lparr> vr_db_bytes_before = before, vr_db_bytes_after = va_page_count_after a * va_page_size a,
           vr_page_count_before = va_page_count_before a, vr_page_count_after = va_page_count_after a,
           vr_freelist_count_before = va_freelist_before a, vr_freelist_count_after = va_freelist_after a,
           vr_available_free_bytes_before = available, vr_estimated_vacuum_required_free_bytes = required,
           vr_free_space_warning = free_space_warning available required,
           vr_wal_checkpoint_busy = va_busy a, vr_wal_checkpoint_log_pages = va_log_pages a,
           vr_wal_checkpoint_checkpointed_pages = va_checkpointed_pages a,
           vr_wal_checkpoint_warning = wal_checkpoint_warning (va_busy a) (va_log_pages a) (va_checkpointed_pages a) \<rparr>)"

end
