(* ===== verification/Store_Proofs.thy ===== *)
theory Store_Proofs
  imports Store
begin

text \<open>
  The interval store keeps what it was given: promoting a snapshot makes its recorded rows readable
  at its id and changes nothing that was readable before.  \<open>store_inv\<close> is the invariant (versions of
  a path do not overlap); \<open>state_at\<close> is the abstract view every lemma speaks about.
\<close>

subsection \<open>The invariant\<close>

definition iv_disjoint :: "interval_row \<Rightarrow> interval_row \<Rightarrow> bool" where
  "iv_disjoint a b \<longleftrightarrow> iv_root_path a \<noteq> iv_root_path b \<or> iv_path_id a \<noteq> iv_path_id b
     \<or> (\<exists>t. iv_valid_to a = Some t \<and> t \<le> iv_valid_from b) \<or> (\<exists>t. iv_valid_to b = Some t \<and> t \<le> iv_valid_from a)"

definition iv_nonempty :: "interval_row \<Rightarrow> bool" where
  "iv_nonempty a \<longleftrightarrow> (\<forall>t. iv_valid_to a = Some t \<longrightarrow> iv_valid_from a < t)"

definition diagnostic_key :: "diagnostic_row \<Rightarrow> int \<times> int" where
  "diagnostic_key v = (dg_snapshot_id v, dg_path_id v)"

definition store_inv :: "db \<Rightarrow> bool" where
  "store_inv d \<longleftrightarrow> distinct (map sn_id (db_snapshots d)) \<and> sorted_wrt iv_disjoint (db_intervals d)
     \<and> list_all iv_nonempty (db_intervals d) \<and> distinct (map diagnostic_key (db_diagnostics d))"

text \<open>Every version of the root began, and every ended one ended, by snapshot \<open>sid\<close>.\<close>

definition newest_for_root :: "db \<Rightarrow> string \<Rightarrow> int \<Rightarrow> bool" where
  "newest_for_root d root_path sid \<longleftrightarrow>
     (\<forall>iv\<in>set (db_intervals d). iv_root_path iv = root_path \<longrightarrow>
        iv_valid_from iv < sid \<and> (\<forall>t. iv_valid_to iv = Some t \<longrightarrow> t \<le> sid))"

lemma iv_disjoint_sym: "iv_disjoint a b \<Longrightarrow> iv_disjoint b a"
  by (auto simp: iv_disjoint_def)

lemma disjoint_not_both:
  assumes "iv_disjoint a b" and "interval_holds r s a" and "interval_holds r s b"
  shows "iv_path_id a \<noteq> iv_path_id b"
  using assms by (auto simp: iv_disjoint_def interval_holds_def)

lemma holding_distinct:
  assumes "sorted_wrt iv_disjoint ivs"
  shows "distinct (map iv_path_id (filter (interval_holds r s) ivs))"
  using assms
proof (induction ivs)
  case (Cons a ivs)
  then show ?case using disjoint_not_both[of a _ r s] by fastforce
qed simp

lemma state_at_iff:
  assumes "sorted_wrt iv_disjoint (db_intervals d)"
  shows "state_at d r s p = Some st \<longleftrightarrow> (\<exists>iv\<in>set (db_intervals d). interval_holds r s iv \<and> iv_path_id iv = p \<and> iv_state iv = st)"
proof -
  let ?ivs = "filter (interval_holds r s) (db_intervals d)"
  have "distinct (map fst (map (\<lambda>iv. (iv_path_id iv, iv_state iv)) ?ivs))"
    using holding_distinct[OF assms] by (simp add: comp_def)
  then show ?thesis by (force simp: state_at_def map_of_eq_Some_iff)
qed

lemma state_at_eqI:
  assumes "sorted_wrt iv_disjoint (db_intervals d)" and "sorted_wrt iv_disjoint (db_intervals d')"
    and "\<And>p st. (\<exists>iv\<in>set (db_intervals d). interval_holds r s iv \<and> iv_path_id iv = p \<and> iv_state iv = st) \<longleftrightarrow>
      (\<exists>iv\<in>set (db_intervals d'). interval_holds r' s' iv \<and> iv_path_id iv = p \<and> iv_state iv = st)"
  shows "state_at d r s = state_at d' r' s'"
proof
  fix p
  have "state_at d r s p = Some st \<longleftrightarrow> state_at d' r' s' p = Some st" for st
    by (simp only: state_at_iff[OF assms(1)] state_at_iff[OF assms(2)] assms(3))
  then show "state_at d r s p = state_at d' r' s' p" by (metis option.exhaust_sel)
qed

subsection \<open>Dictionaries of rows\<close>

lemma dict_of_distinct: "distinct (map fst kvs) \<Longrightarrow> dict_of kvs = kvs"
proof -
  have fresh: "k \<notin> fst ` set d \<Longrightarrow> AList.update k v d = d @ [(k, v)]" for k v and d :: "('a \<times> 'b) list"
    by (induction d) auto
  have "distinct (map fst (acc @ kvs)) \<Longrightarrow> foldl (\<lambda>d (k, v). AList.update k v d) acc kvs = acc @ kvs" for acc
    by (induction kvs arbitrary: acc) (auto simp: fresh)
  from this[of "[]"] show "distinct (map fst kvs) \<Longrightarrow> dict_of kvs = kvs" by (simp add: dict_of_def)
qed

lemma map_of_foldl_update:
  "map_of (foldl (\<lambda>d (k, v). AList.update k v d) acc kvs) x = (case map_of (rev kvs) x of None \<Rightarrow> map_of acc x | Some v \<Rightarrow> Some v)"
proof (induction kvs rule: rev_induct)
  case (snoc kv kvs)
  then show ?case by (cases kv) (simp add: dict_simps)
qed simp

lemma map_of_dict_of: "map_of (dict_of kvs) = map_of (rev kvs)"
  by (rule ext) (simp add: dict_of_def map_of_foldl_update split: option.splits)

lemma map_of_distinct_dict: "distinct (map fst kvs) \<Longrightarrow> map_of (dict_of kvs) k = Some v \<longleftrightarrow> (k, v) \<in> set kvs"
  by (simp add: map_of_dict_of map_of_SomeD_iff rev_map[symmetric])

lemma distinct_dict_of: "distinct (map fst (dict_of kvs))"
proof -
  have "distinct (map fst acc) \<Longrightarrow> distinct (map fst (foldl (\<lambda>d (k, v). AList.update k v d) acc kvs))" for acc
    by (induction kvs arbitrary: acc) (auto simp: distinct_update)
  then show ?thesis by (simp add: dict_of_def)
qed

lemma active_distinct:
  assumes "sorted_wrt iv_disjoint (db_intervals d)"
  shows "distinct (map fst (active_intervals d r sid))"
proof -
  have "distinct (map iv_path_id (filter (\<lambda>iv. iv_root_path iv = r \<and> iv_valid_from iv < sid \<and> iv_valid_to iv = None) ivs))"
    if "sorted_wrt iv_disjoint ivs" for ivs
    using that by (induction ivs) (auto simp: iv_disjoint_def)
  from this[OF assms] show ?thesis by (simp add: active_intervals_def comp_def)
qed

lemma diagnostics_distinct:
  assumes "distinct (map diagnostic_key (db_diagnostics d))"
  shows "distinct (map fst (diagnostics_of d sid))"
proof -
  let ?f = "filter (\<lambda>dg. dg_snapshot_id dg = sid) (db_diagnostics d)"
  have "distinct (map dg_path_id (filter (\<lambda>dg. dg_snapshot_id dg = sid) dgs))"
    if "distinct (map diagnostic_key dgs)" for dgs
    using that
  proof (induction dgs)
    case (Cons a dgs)
    have "dg_path_id a \<noteq> dg_path_id x" if "x \<in> set dgs" "dg_snapshot_id x = dg_snapshot_id a" for x
    proof
      assume "dg_path_id a = dg_path_id x"
      then have "diagnostic_key a = diagnostic_key x" using that by (simp add: diagnostic_key_def)
      then show False using Cons.prems that(1) by auto
    qed
    then show ?case using Cons by auto
  qed simp
  then have "distinct (map dg_path_id ?f)" using assms by blast
  then have "distinct (map dg_path_id (sort_key dg_path_id ?f))"
    by (metis distinct_map mset_eq_imp_distinct_iff mset_map mset_sort)
  then show ?thesis by (simp add: diagnostics_of_def comp_def)
qed

subsection \<open>Promotion\<close>

text \<open>The versions after closing those of the paths \<open>P\<close> of the root that are still open.\<close>

definition close_paths :: "int \<Rightarrow> string \<Rightarrow> int set \<Rightarrow> interval_row list \<Rightarrow> interval_row list" where
  "close_paths sid r P ivs =
     map (\<lambda>iv. if iv_root_path iv = r \<and> iv_path_id iv \<in> P \<and> iv_valid_to iv = None
               then iv\<lparr> iv_valid_to := Some sid \<rparr> else iv) ivs"

definition new_rows :: "int \<Rightarrow> string \<Rightarrow> (int \<times> agg_state) list \<Rightarrow> (int \<times> agg_state) list \<Rightarrow> interval_row list" where
  "new_rows sid r active current =
     map (\<lambda>(p, st). \<lparr> iv_root_path = r, iv_path_id = p, iv_valid_from = sid, iv_valid_to = None, iv_state = st \<rparr>)
       (filter (\<lambda>(p, st). map_of active p \<noteq> Some st) current)"

definition changed_paths :: "(int \<times> agg_state) list \<Rightarrow> (int \<times> agg_state) list \<Rightarrow> int set" where
  "changed_paths active current = {p \<in> fst ` set current. map_of active p \<noteq> None \<and> map_of active p \<noteq> map_of current p}"

lemma close_paths_append [simp]: "close_paths sid r P (xs @ ys) = close_paths sid r P xs @ close_paths sid r P ys"
  by (simp add: close_paths_def)

lemma close_paths_close: "close_paths sid r Q (close_paths sid r P ivs) = close_paths sid r (P \<union> Q) ivs"
  by (auto simp: close_paths_def)

lemma close_paths_none: "\<forall>iv\<in>set ivs. iv_path_id iv \<notin> P \<Longrightarrow> close_paths sid r P ivs = ivs"
  by (auto simp: close_paths_def intro: map_idI)

lemma close_paths_elem:
  "iv \<in> set (close_paths sid r P ivs) \<Longrightarrow> \<exists>x\<in>set ivs. iv_root_path iv = iv_root_path x \<and> iv_path_id iv = iv_path_id x
     \<and> iv_valid_from iv = iv_valid_from x \<and> iv_state iv = iv_state x"
  by (auto simp: close_paths_def split: if_splits)

lemma close_interval_paths: "db_intervals (close_interval sid r p d) = close_paths sid r {p} (db_intervals d)"
  by (simp add: close_interval_def close_paths_def)

lemma close_interval_same [simp]:
  "db_diagnostics (close_interval sid r p d) = db_diagnostics d"
  "db_snapshots (close_interval sid r p d) = db_snapshots d"
  "db_paths (close_interval sid r p d) = db_paths d"
  by (simp_all add: close_interval_def)

lemma foldl_close:
  "db_intervals (foldl (\<lambda>d p. close_interval sid r p d) d ps) = close_paths sid r (set ps) (db_intervals d)"
  "db_diagnostics (foldl (\<lambda>d p. close_interval sid r p d) d ps) = db_diagnostics d"
  "db_snapshots (foldl (\<lambda>d p. close_interval sid r p d) d ps) = db_snapshots d"
  "db_paths (foldl (\<lambda>d p. close_interval sid r p d) d ps) = db_paths d"
proof (induction ps arbitrary: d)
  case Nil
  { case 1 show ?case by (simp add: close_paths_none) }
  { case 2 show ?case by simp }
  { case 3 show ?case by simp }
  { case 4 show ?case by simp }
next
  case (Cons p ps)
  { case 1 show ?case by (simp add: Cons close_interval_paths close_paths_close) }
  { case 2 show ?case by (simp add: Cons) }
  { case 3 show ?case by (simp add: Cons) }
  { case 4 show ?case by (simp add: Cons) }
qed

lemma new_rows_paths: "iv \<in> set (new_rows sid r active current) \<Longrightarrow> iv_path_id iv \<in> fst ` set current"
  by (force simp: new_rows_def)

lemma promote_fold:
  assumes old: "\<forall>iv\<in>set ivs. iv_root_path iv = r \<longrightarrow> iv_valid_from iv < sid"
    and dist: "distinct (map fst (done_rows @ current))"
    and d: "db_intervals d = close_paths sid r (P \<union> changed_paths active done_rows) ivs @ new_rows sid r active done_rows"
  shows "\<exists>d'. fold_err (promote_row sid r active) d current = Inr d'
    \<and> db_intervals d' = close_paths sid r (P \<union> changed_paths active (done_rows @ current)) ivs
                          @ new_rows sid r active (done_rows @ current)
    \<and> db_diagnostics d' = db_diagnostics d \<and> db_snapshots d' = db_snapshots d \<and> db_paths d' = db_paths d"
  using dist d
proof (induction current arbitrary: done_rows d)
  case Nil
  then show ?case by simp
next
  case (Cons c current)
  obtain p st where c: "c = (p, st)" by fastforce
  let ?dn = "done_rows @ [c]"
  have fresh: "p \<notin> fst ` set done_rows" using Cons.prems(1) c by auto
  have none: "map_of done_rows p = None" using fresh by (simp add: map_of_eq_None_iff)
  have lookup: "map_of ?dn q = (if q = p then Some st else map_of done_rows q)" for q
    using none by (auto simp: c map_add_def split: option.splits)
  have ch: "changed_paths active ?dn = changed_paths active done_rows
      \<union> (if map_of active p \<noteq> None \<and> map_of active p \<noteq> Some st then {p} else {})"
    using fresh lookup by (auto simp: changed_paths_def c)
  have nr: "new_rows sid r active ?dn = new_rows sid r active done_rows
      @ (if map_of active p \<noteq> Some st then [\<lparr> iv_root_path = r, iv_path_id = p, iv_valid_from = sid, iv_valid_to = None, iv_state = st \<rparr>] else [])"
    by (simp add: new_rows_def c)
  have keep: "close_paths sid r {p} (new_rows sid r active done_rows) = new_rows sid r active done_rows"
    using fresh new_rows_paths by (intro close_paths_none) blast
  have nodup: "\<not> list_ex (\<lambda>iv. iv_root_path iv = r \<and> iv_path_id iv = p \<and> iv_valid_from iv = sid)
      (close_paths sid r Q ivs @ new_rows sid r active done_rows)" for Q
  proof -
    have "iv_path_id iv \<noteq> p" if "iv \<in> set (new_rows sid r active done_rows)" for iv
      using that fresh new_rows_paths by blast
    moreover have "iv_valid_from iv < sid" if "iv \<in> set (close_paths sid r Q ivs)" "iv_root_path iv = r" for iv
      using close_paths_elem[OF that(1)] that(2) old by auto
    ultimately show ?thesis by (fastforce simp: list_ex_iff)
  qed
  obtain d1 where step: "promote_row sid r active d c = Inr d1"
    and d1: "db_intervals d1 = close_paths sid r (P \<union> changed_paths active ?dn) ivs @ new_rows sid r active ?dn"
    and same: "db_diagnostics d1 = db_diagnostics d" "db_snapshots d1 = db_snapshots d" "db_paths d1 = db_paths d"
  proof (cases "map_of active p = Some st")
    case True
    then have "promote_row sid r active d c = Inr d" by (simp add: promote_row_def c)
    then show thesis using that[of d] Cons.prems(2) ch nr True by simp
  next
    case False
    let ?row = "\<lparr> iv_root_path = r, iv_path_id = p, iv_valid_from = sid, iv_valid_to = None, iv_state = st \<rparr>"
    let ?d = "if map_of active p \<noteq> None then close_interval sid r p d else d"
    have ivs: "db_intervals ?d = close_paths sid r (P \<union> changed_paths active ?dn) ivs @ new_rows sid r active done_rows"
      using Cons.prems(2) ch False keep by (simp add: close_interval_paths close_paths_close Un_assoc)
    have "promote_row sid r active d c = Inr (?d\<lparr> db_intervals := db_intervals ?d @ [?row] \<rparr>)"
      using False nodup[of "P \<union> changed_paths active ?dn"] ivs by (simp add: promote_row_def c insert_interval_def)
    then show thesis
      using that[of "?d\<lparr> db_intervals := db_intervals ?d @ [?row] \<rparr>"] ivs nr False by (simp add: close_interval_def)
  qed
  have "distinct (map fst (?dn @ current))" using Cons.prems(1) by simp
  from Cons.IH[OF this d1] step same show ?case by simp
qed

lemma find_snapshot_Some: "find_snapshot d sid = Some s \<Longrightarrow> s \<in> set (db_snapshots d) \<and> sn_id s = sid"
  by (auto simp: find_snapshot_def find_Some_iff)

text \<open>The whole promotion, as one equation for the versions.\<close>

lemma promote_intervals:
  assumes inv: "store_inv d" and snap: "find_snapshot d sid = Some s" and new: "newest_for_root d (sn_root_path s) sid"
  defines "r \<equiv> sn_root_path s" and "current \<equiv> diagnostics_of d sid"
    and "active \<equiv> active_intervals d (sn_root_path s) sid"
  shows "\<exists>d'. promote_complete_snapshot sid d = Inr d'
    \<and> db_intervals d' = close_paths sid r {p. \<exists>st. (p, st) \<in> set active \<and> map_of current p \<noteq> Some st} (db_intervals d)
                          @ new_rows sid r active current
    \<and> db_diagnostics d' = filter (\<lambda>dg. dg_snapshot_id dg \<noteq> sid) (db_diagnostics d)
    \<and> db_snapshots d' = db_snapshots d \<and> db_paths d' = db_paths d"
proof -
  have dact: "distinct (map fst active)" and dcur: "distinct (map fst current)"
    using inv active_distinct diagnostics_distinct by (simp_all add: store_inv_def active_def current_def)
  note dicts = dict_of_distinct[OF dact] dict_of_distinct[OF dcur]
  let ?gone = "filter (\<lambda>p. p \<notin> fst ` set current) (map fst active)"
  let ?d1 = "foldl (\<lambda>d p. close_interval sid r p d) d ?gone"
  have d1: "db_intervals ?d1 = close_paths sid r (set ?gone \<union> changed_paths active []) (db_intervals d) @ new_rows sid r active []"
    by (simp add: foldl_close changed_paths_def new_rows_def)
  have old: "\<forall>iv\<in>set (db_intervals d). iv_root_path iv = r \<longrightarrow> iv_valid_from iv < sid"
    using new by (auto simp: newest_for_root_def r_def)
  from promote_fold[OF old _ d1, of current] dcur obtain d2 where
    d2: "fold_err (promote_row sid r active) ?d1 current = Inr d2"
    "db_intervals d2 = close_paths sid r (set ?gone \<union> changed_paths active current) (db_intervals d) @ new_rows sid r active current"
    "db_diagnostics d2 = db_diagnostics ?d1" "db_snapshots d2 = db_snapshots ?d1" "db_paths d2 = db_paths ?d1"
    by auto
  have P: "set ?gone \<union> changed_paths active current = {p. \<exists>st. (p, st) \<in> set active \<and> map_of current p \<noteq> Some st}"
  proof (rule set_eqI)
    fix p
    have act: "(p, st) \<in> set active \<longleftrightarrow> map_of active p = Some st" for st
      by (rule map_of_eq_Some_iff[OF dact, symmetric])
    have ks: "p \<in> fst ` set active \<longleftrightarrow> map_of active p \<noteq> None" "p \<in> fst ` set current \<longleftrightarrow> map_of current p \<noteq> None"
      by (simp_all add: map_of_eq_None_iff)
    show "p \<in> set ?gone \<union> changed_paths active current
        \<longleftrightarrow> p \<in> {p. \<exists>st. (p, st) \<in> set active \<and> map_of current p \<noteq> Some st}"
      unfolding mem_Collect_eq act changed_paths_def Un_iff set_filter set_map ks
      by (cases "map_of active p"; cases "map_of current p") auto
  qed
  have "promote_complete_snapshot sid d = (case fold_err (promote_row sid r active) ?d1 current of
      Inl e \<Rightarrow> Inl e
    | Inr d2 \<Rightarrow> Inr (d2\<lparr> db_diagnostics := filter (\<lambda>dg. dg_snapshot_id dg \<noteq> sid) (db_diagnostics d2) \<rparr>))"
    unfolding promote_complete_snapshot_def snap option.case Let_def
      dicts[unfolded current_def active_def] r_def current_def active_def by (rule refl)
  then have "promote_complete_snapshot sid d
      = Inr (d2\<lparr> db_diagnostics := filter (\<lambda>dg. dg_snapshot_id dg \<noteq> sid) (db_diagnostics d2) \<rparr>)"
    unfolding d2(1) by simp
  then show ?thesis using d2(2-5) unfolding P foldl_close by simp
qed

text \<open>The versions after a promotion, seen at another snapshot, and their invariant.\<close>

lemma close_paths_other:
  assumes "t < sid \<or> r' \<noteq> r" and "iv_root_path iv = r \<Longrightarrow> (\<forall>u. iv_valid_to iv = Some u \<longrightarrow> u \<le> sid)"
  shows "interval_holds r' t (if iv_root_path iv = r \<and> iv_path_id iv \<in> P \<and> iv_valid_to iv = None
      then iv\<lparr> iv_valid_to := Some sid \<rparr> else iv) \<longleftrightarrow> interval_holds r' t iv"
  using assms by (auto simp: interval_holds_def)

lemma ex_close_paths:
  "(\<exists>iv\<in>set (close_paths sid r P ivs). Q iv) \<longleftrightarrow>
     (\<exists>iv\<in>set ivs. Q (if iv_root_path iv = r \<and> iv_path_id iv \<in> P \<and> iv_valid_to iv = None
                       then iv\<lparr> iv_valid_to := Some sid \<rparr> else iv))"
  unfolding close_paths_def set_map by blast

lemma close_paths_memE:
  assumes "a \<in> set (close_paths sid r P ivs)"
  obtains x where "x \<in> set ivs"
    and "a = (if iv_root_path x = r \<and> iv_path_id x \<in> P \<and> iv_valid_to x = None then x\<lparr> iv_valid_to := Some sid \<rparr> else x)"
  using assms unfolding close_paths_def set_map image_iff by (elim bexE) (rule that)

lemma new_rows_holds:
  assumes "iv \<in> set (new_rows sid r active current)"
  shows "iv_root_path iv = r" "iv_valid_from iv = sid" "iv_valid_to iv = None"
  using assms by (auto simp: new_rows_def)

lemma sorted_wrt_map_mono:
  assumes "sorted_wrt R xs" and "\<And>x y. R x y \<Longrightarrow> x \<in> set xs \<Longrightarrow> y \<in> set xs \<Longrightarrow> S (f x) (f y)"
  shows "sorted_wrt S (map f xs)"
  using assms by (induction xs) auto

lemma close_paths_sorted:
  assumes "sorted_wrt iv_disjoint ivs"
  shows "sorted_wrt iv_disjoint (close_paths sid r P ivs)"
  unfolding close_paths_def
  by (rule sorted_wrt_map_mono[OF assms]) (auto simp: iv_disjoint_def)

lemma new_rows_sorted:
  assumes "distinct (map fst current)"
  shows "sorted_wrt iv_disjoint (new_rows sid r active current)"
proof -
  have "sorted_wrt (\<lambda>a b. fst a \<noteq> fst b) current" using assms by (induction current) force+
  then have "sorted_wrt (\<lambda>a b. fst a \<noteq> fst b) (filter (\<lambda>(p, st). map_of active p \<noteq> Some st) current)"
    by (rule sorted_wrt_filter)
  then show ?thesis unfolding new_rows_def by (rule sorted_wrt_map_mono) (auto simp: iv_disjoint_def)
qed

lemma promoted_disjoint:
  assumes ivs: "sorted_wrt iv_disjoint ivs" and cur: "distinct (map fst current)"
    and act: "\<And>iv. iv \<in> set ivs \<Longrightarrow> iv_root_path iv = r \<Longrightarrow> iv_valid_to iv = None \<Longrightarrow> (iv_path_id iv, iv_state iv) \<in> set active"
    and dact: "distinct (map fst active)"
    and old: "\<And>iv u. iv \<in> set ivs \<Longrightarrow> iv_root_path iv = r \<Longrightarrow> iv_valid_to iv = Some u \<Longrightarrow> u \<le> sid"
  shows "sorted_wrt iv_disjoint (close_paths sid r {p. \<exists>st. (p, st) \<in> set active \<and> map_of current p \<noteq> Some st} ivs
           @ new_rows sid r active current)"
proof -
  let ?P = "{p. \<exists>st. (p, st) \<in> set active \<and> map_of current p \<noteq> Some st}"
  have "iv_disjoint a b" if a: "a \<in> set (close_paths sid r ?P ivs)" and b: "b \<in> set (new_rows sid r active current)" for a b
  proof -
    obtain x where x: "x \<in> set ivs" and ax: "a = (if iv_root_path x = r \<and> iv_path_id x \<in> ?P \<and> iv_valid_to x = None
        then x\<lparr> iv_valid_to := Some sid \<rparr> else x)" using a by (rule close_paths_memE)
    obtain p st where bp: "b = \<lparr> iv_root_path = r, iv_path_id = p, iv_valid_from = sid, iv_valid_to = None, iv_state = st \<rparr>"
      and p: "(p, st) \<in> set current" "map_of active p \<noteq> Some st" using b by (auto simp: new_rows_def)
    have mc: "map_of current p = Some st" using p(1) cur by simp
    show ?thesis
    proof (cases "iv_root_path x = r \<and> iv_path_id x = p \<and> iv_valid_to x = None")
      case True
      have "(p, iv_state x) \<in> set active" using act[OF x] True by simp
      moreover from this have "map_of active p = Some (iv_state x)" using dact by simp
      ultimately have "p \<in> ?P" using mc p(2) by auto
      then show ?thesis using True by (simp add: ax bp iv_disjoint_def)
    next
      case False
      then show ?thesis using old[OF x] by (auto simp: ax bp iv_disjoint_def split: option.splits)
    qed
  qed
  then show ?thesis
    unfolding sorted_wrt_append using close_paths_sorted[OF ivs] new_rows_sorted[OF cur] by blast
qed

lemma promoted_state:
  assumes cur: "distinct (map fst current)" and dact: "distinct (map fst active)"
    and act: "set active = (\<lambda>iv. (iv_path_id iv, iv_state iv)) ` {iv \<in> set ivs. iv_root_path iv = r \<and> iv_valid_to iv = None}"
    and old: "\<And>iv. iv \<in> set ivs \<Longrightarrow> iv_root_path iv = r \<Longrightarrow> iv_valid_from iv < sid"
    and oldto: "\<And>iv u. iv \<in> set ivs \<Longrightarrow> iv_root_path iv = r \<Longrightarrow> iv_valid_to iv = Some u \<Longrightarrow> u \<le> sid"
  defines "rows \<equiv> close_paths sid r {p. \<exists>st. (p, st) \<in> set active \<and> map_of current p \<noteq> Some st} ivs
      @ new_rows sid r active current"
  shows "(\<exists>iv\<in>set rows. interval_holds r sid iv \<and> iv_path_id iv = p \<and> iv_state iv = st) \<longleftrightarrow> map_of current p = Some st"
    (is "?L \<longleftrightarrow> ?R")
proof
  let ?P = "{p. \<exists>st. (p, st) \<in> set active \<and> map_of current p \<noteq> Some st}"
  assume ?L
  then obtain iv where iv: "iv \<in> set rows" "interval_holds r sid iv" "iv_path_id iv = p" "iv_state iv = st" by blast
  show ?R
  proof (cases "iv \<in> set (new_rows sid r active current)")
    case True
    then have "(p, st) \<in> set current" using iv(3,4) by (auto simp: new_rows_def)
    then show ?thesis using cur by simp
  next
    case False
    then have "iv \<in> set (close_paths sid r ?P ivs)" using iv(1) by (simp add: rows_def)
    then obtain x where x: "x \<in> set ivs" and ix: "iv = (if iv_root_path x = r \<and> iv_path_id x \<in> ?P \<and> iv_valid_to x = None
        then x\<lparr> iv_valid_to := Some sid \<rparr> else x)" by (rule close_paths_memE)
    have xr: "iv_root_path x = r" using iv(2) ix by (auto simp: interval_holds_def split: if_splits)
    have xt: "iv_valid_to x = None"
    proof (cases "iv_valid_to x")
      case (Some u)
      then have "u \<le> sid" using oldto[OF x xr] by simp
      then show ?thesis using iv(2) ix Some by (simp add: interval_holds_def)
    qed simp
    have notP: "iv_path_id x \<notin> ?P"
    proof
      assume "iv_path_id x \<in> ?P"
      then have "iv = x\<lparr> iv_valid_to := Some sid \<rparr>" unfolding ix using xr xt by (simp only: if_True simp_thms)
      then show False using iv(2) by (simp add: interval_holds_def)
    qed
    have "(iv_path_id x, iv_state x) \<in> set active" using act x xr xt by auto
    moreover have "iv = x" unfolding ix using notP by (simp only: simp_thms if_False)
    ultimately show ?thesis using notP iv(3,4) by auto
  qed
next
  let ?P = "{p. \<exists>st. (p, st) \<in> set active \<and> map_of current p \<noteq> Some st}"
  assume R: ?R
  show ?L
  proof (cases "map_of active p = Some st")
    case True
    then have "(p, st) \<in> set active" by (rule map_of_SomeD)
    then obtain x where x: "x \<in> set ivs" "iv_root_path x = r" "iv_valid_to x = None" "iv_path_id x = p" "iv_state x = st"
      using act by auto
    have "st' = st" if "(p, st') \<in> set active" for st'
      using that True dact by (metis map_of_eq_Some_iff option.inject)
    then have "p \<notin> ?P" using R by auto
    then have "x \<in> set (close_paths sid r ?P ivs)" using x by (force simp: close_paths_def)
    then show ?thesis using x old[OF x(1,2)] by (force simp: rows_def interval_holds_def)
  next
    case False
    let ?b = "\<lparr> iv_root_path = r, iv_path_id = p, iv_valid_from = sid, iv_valid_to = None, iv_state = st \<rparr>"
    have "(p, st) \<in> set current" using R by (rule map_of_SomeD)
    then have "?b \<in> set (new_rows sid r active current)" using False by (force simp: new_rows_def)
    then show ?thesis by (force simp: rows_def interval_holds_def)
  qed
qed

lemma active_elems:
  assumes "newest_for_root d r sid"
  shows "set (active_intervals d r sid)
    = (\<lambda>iv. (iv_path_id iv, iv_state iv)) ` {iv \<in> set (db_intervals d). iv_root_path iv = r \<and> iv_valid_to iv = None}"
  using assms by (auto simp: active_intervals_def newest_for_root_def)

lemma promoted_nonempty:
  assumes "list_all iv_nonempty ivs" and "\<And>iv. iv \<in> set ivs \<Longrightarrow> iv_root_path iv = r \<Longrightarrow> iv_valid_from iv < sid"
  shows "list_all iv_nonempty (close_paths sid r P ivs @ new_rows sid r active current)"
proof -
  have "iv_nonempty a" if "a \<in> set (close_paths sid r P ivs)" for a
    using that assms by (elim close_paths_memE) (auto simp: iv_nonempty_def list_all_iff)
  moreover have "iv_nonempty a" if "a \<in> set (new_rows sid r active current)" for a
    using new_rows_holds[OF that] by (simp add: iv_nonempty_def)
  ultimately show ?thesis by (auto simp: list_all_iff)
qed

lemma promoted_elsewhere:
  assumes "t < sid \<or> r' \<noteq> r"
    and oldto: "\<And>iv u. iv \<in> set ivs \<Longrightarrow> iv_root_path iv = r \<Longrightarrow> iv_valid_to iv = Some u \<Longrightarrow> u \<le> sid"
  shows "(\<exists>iv\<in>set (close_paths sid r P ivs @ new_rows sid r active current).
             interval_holds r' t iv \<and> iv_path_id iv = p \<and> iv_state iv = st)
    \<longleftrightarrow> (\<exists>iv\<in>set ivs. interval_holds r' t iv \<and> iv_path_id iv = p \<and> iv_state iv = st)" (is "?L \<longleftrightarrow> ?R")
proof -
  let ?c = "\<lambda>iv. if iv_root_path iv = r \<and> iv_path_id iv \<in> P \<and> iv_valid_to iv = None then iv\<lparr> iv_valid_to := Some sid \<rparr> else iv"
  have same: "interval_holds r' t (?c iv) = interval_holds r' t iv" "iv_path_id (?c iv) = iv_path_id iv"
    "iv_state (?c iv) = iv_state iv" if "iv \<in> set ivs" for iv
    using close_paths_other[OF assms(1)] oldto[OF that] by auto
  have "\<not> interval_holds r' t iv" if "iv \<in> set (new_rows sid r active current)" for iv
    using new_rows_holds[OF that] assms(1) by (auto simp: interval_holds_def)
  then have "?L \<longleftrightarrow> (\<exists>iv\<in>set (close_paths sid r P ivs). interval_holds r' t iv \<and> iv_path_id iv = p \<and> iv_state iv = st)"
    unfolding set_append by blast
  also have "\<dots> \<longleftrightarrow> ?R" unfolding ex_close_paths using same by auto
  finally show ?thesis .
qed

text \<open>Everything a promotion does, for the clients below.\<close>

lemma promote_facts:
  assumes inv: "store_inv d" and snap: "find_snapshot d sid = Some s" and new: "newest_for_root d (sn_root_path s) sid"
  obtains d' where "promote_complete_snapshot sid d = Inr d'"
    and "state_at d' (sn_root_path s) sid = map_of (diagnostics_of d sid)"
    and "\<And>r t. t < sid \<or> r \<noteq> sn_root_path s \<Longrightarrow> state_at d' r t = state_at d r t"
    and "store_inv d'" and "db_diagnostics d' = filter (\<lambda>dg. dg_snapshot_id dg \<noteq> sid) (db_diagnostics d)"
    and "db_snapshots d' = db_snapshots d" and "db_paths d' = db_paths d"
    and "\<And>iv. iv \<in> set (db_intervals d') \<Longrightarrow> insert (iv_valid_from iv) (set_option (iv_valid_to iv))
          \<subseteq> insert sid (\<Union>x\<in>set (db_intervals d). insert (iv_valid_from x) (set_option (iv_valid_to x)))"
proof -
  let ?r = "sn_root_path s" let ?cur = "diagnostics_of d sid" let ?act = "active_intervals d ?r sid"
  have ivs: "sorted_wrt iv_disjoint (db_intervals d)" and dcur: "distinct (map fst ?cur)" and dact: "distinct (map fst ?act)"
    using inv active_distinct diagnostics_distinct by (simp_all add: store_inv_def)
  have old: "iv_valid_from iv < sid" and oldto: "iv_valid_to iv = Some u \<Longrightarrow> u \<le> sid"
    if "iv \<in> set (db_intervals d)" "iv_root_path iv = ?r" for iv u
    using new that by (auto simp: newest_for_root_def)
  note act = active_elems[OF new]
  obtain d' where d': "promote_complete_snapshot sid d = Inr d'"
    and rows: "db_intervals d' = close_paths sid ?r {p. \<exists>st. (p, st) \<in> set ?act \<and> map_of ?cur p \<noteq> Some st} (db_intervals d)
        @ new_rows sid ?r ?act ?cur"
    and diag: "db_diagnostics d' = filter (\<lambda>dg. dg_snapshot_id dg \<noteq> sid) (db_diagnostics d)"
    and same: "db_snapshots d' = db_snapshots d" "db_paths d' = db_paths d"
    using promote_intervals[OF inv snap new] by blast
  have srt: "sorted_wrt iv_disjoint (db_intervals d')"
    unfolding rows by (rule promoted_disjoint[OF ivs dcur _ dact oldto]) (auto simp: act)
  have "distinct (map diagnostic_key (filter (\<lambda>dg. dg_snapshot_id dg \<noteq> sid) (db_diagnostics d)))"
    using inv by (simp add: store_inv_def distinct_map_filter)
  moreover have "list_all iv_nonempty (db_intervals d')"
    unfolding rows using inv old by (intro promoted_nonempty) (auto simp: store_inv_def)
  ultimately have inv': "store_inv d'" using inv srt by (simp add: store_inv_def same diag)
  have at: "state_at d' ?r sid = map_of ?cur"
  proof
    fix p
    have "state_at d' ?r sid p = Some st \<longleftrightarrow> map_of ?cur p = Some st" for st
      unfolding state_at_iff[OF srt] rows by (rule promoted_state[OF dcur dact act old oldto])
    then show "state_at d' ?r sid p = map_of ?cur p" by (metis option.exhaust_sel)
  qed
  have else: "state_at d' r t = state_at d r t" if "t < sid \<or> r \<noteq> ?r" for r t
    by (rule state_at_eqI[OF srt ivs]) (unfold rows, rule promoted_elsewhere[OF that oldto])
  have nf: "insert (iv_valid_from iv) (set_option (iv_valid_to iv))
      \<subseteq> insert sid (\<Union>x\<in>set (db_intervals d). insert (iv_valid_from x) (set_option (iv_valid_to x)))"
    if mem: "iv \<in> set (db_intervals d')" for iv
  proof -
    consider "iv \<in> set (close_paths sid ?r {p. \<exists>st. (p, st) \<in> set ?act \<and> map_of ?cur p \<noteq> Some st} (db_intervals d))"
      | "iv \<in> set (new_rows sid ?r ?act ?cur)" using mem unfolding rows by auto
    then show ?thesis
    proof cases
      case 1
      then show ?thesis by (elim close_paths_memE) (auto split: if_splits)
    next
      case 2
      then show ?thesis using new_rows_holds[OF 2] by simp
    qed
  qed
  show thesis by (rule that[OF d' at else inv' diag same nf])
qed

subsection \<open>Reading one snapshot\<close>

lemma snapshot_state_at:
  assumes "distinct (map sn_id (db_snapshots d))" and "s \<in> set (db_snapshots d)"
  shows "snapshot_state d (sn_id s) = (if sn_status s = status_value COMPLETE
     then map (\<lambda>iv. (iv_path_id iv, iv_state iv)) (filter (interval_holds (sn_root_path s) (sn_id s)) (db_intervals d))
     else map (\<lambda>dg. (dg_path_id dg, dg_state dg)) (filter (\<lambda>dg. dg_snapshot_id dg = sn_id s) (db_diagnostics d)))"
proof -
  have "concat (map (\<lambda>x. if sn_id x \<noteq> sn_id s then [] else f x) ss) = f s"
    if "distinct (map sn_id ss)" "s \<in> set ss" for ss and f :: "snapshot_row \<Rightarrow> (int \<times> agg_state) list"
    using that
  proof (induction ss)
    case (Cons x ss)
    have "concat (map (\<lambda>x. if sn_id x \<noteq> i then [] else f x) ss) = []" if "i \<notin> sn_id ` set ss" for i
      using that by (induction ss) auto
    then show ?case using Cons by auto
  qed simp
  from this[OF assms] show ?thesis by (simp add: snapshot_state_def)
qed

text \<open>A snapshot reads each path once.\<close>

lemma snapshot_state_distinct:
  assumes "store_inv d"
  shows "distinct (map fst (snapshot_state d sid))"
proof (cases "\<exists>s\<in>set (db_snapshots d). sn_id s = sid")
  case True
  then obtain s where s: "s \<in> set (db_snapshots d)" "sn_id s = sid" by blast
  have ids: "distinct (map sn_id (db_snapshots d))" using assms by (simp add: store_inv_def)
  have "distinct (map iv_path_id (filter (interval_holds (sn_root_path s) sid) (db_intervals d)))"
    using assms by (intro holding_distinct) (simp add: store_inv_def)
  moreover have "distinct (map dg_path_id (filter (\<lambda>dg. dg_snapshot_id dg = sid) ds))" if "distinct (map diagnostic_key ds)" for ds
    using that by (induction ds) (auto simp: diagnostic_key_def image_iff)
  then have "distinct (map dg_path_id (filter (\<lambda>dg. dg_snapshot_id dg = sid) (db_diagnostics d)))"
    using assms by (simp add: store_inv_def)
  ultimately show ?thesis using snapshot_state_at[OF ids s(1)] s(2) by (simp add: comp_def)
next
  case False
  then have "snapshot_state d sid = []" by (auto simp: snapshot_state_def)
  then show ?thesis by simp
qed

end
