(* ===== verification/Store_Insert.thy ===== *)
theory Store_Insert
  imports Store_Proofs
begin

text \<open>
  Writing the rows of a scan: every row is stored under the id of its path, whatever the batch size
  and whatever the insertion's path cache already knows, and the paths table keeps one id per path.
  With the promotion of \<open>Store_Proofs\<close> this gives the life of a snapshot: created, filled, completed
  and read back.
\<close>

subsection \<open>The paths table\<close>

definition paths_ok :: "(int \<times> bytes) list \<Rightarrow> bool" where
  "paths_ok ps \<longleftrightarrow> distinct (map fst ps) \<and> distinct (map snd ps)"

definition cache_ok :: "path_cache \<Rightarrow> (int \<times> bytes) list \<Rightarrow> bool" where
  "cache_ok cache ps \<longleftrightarrow> (\<forall>path pid. map_of cache path = Some pid \<longrightarrow> (pid, path) \<in> set ps)"

lemma next_rowid_fresh: "next_rowid ids \<notin> set ids" "i \<in> set ids \<Longrightarrow> i < next_rowid ids"
proof -
  have lt: "i < next_rowid ids" if "i \<in> set ids" for i
  proof -
    have "ids \<noteq> []" using that by auto
    moreover have "i \<le> Max (set ids)" using that by simp
    ultimately show ?thesis by (simp add: next_rowid_def)
  qed
  then show "i \<in> set ids \<Longrightarrow> i < next_rowid ids" by blast
  show "next_rowid ids \<notin> set ids" using lt by blast
qed

lemma paths_ok_unique: "paths_ok ps \<Longrightarrow> (i, p) \<in> set ps \<Longrightarrow> (i, q) \<in> set ps \<Longrightarrow> p = q"
  "paths_ok ps \<Longrightarrow> (i, p) \<in> set ps \<Longrightarrow> (j, p) \<in> set ps \<Longrightarrow> i = j"
  unfolding paths_ok_def by (auto dest: eq_key_imp_eq_value) (metis distinct_map inj_onD prod.inject snd_conv)

lemma path_id_of_iff:
  assumes "paths_ok (db_paths d)"
  shows "path_id_of d path = Some pid \<longleftrightarrow> (pid, path) \<in> set (db_paths d)"
proof
  assume "path_id_of d path = Some pid"
  then show "(pid, path) \<in> set (db_paths d)" by (auto simp: path_id_of_def find_Some_iff) (metis nth_mem)
next
  assume mem: "(pid, path) \<in> set (db_paths d)"
  then obtain x where x: "List.find (\<lambda>(_, p). p = path) (db_paths d) = Some x"
    by (cases "List.find (\<lambda>(_, p). p = path) (db_paths d)") (auto simp: find_None_iff)
  obtain i where "x = (i, path)" "(i, path) \<in> set (db_paths d)"
    using x by (cases x) (auto simp: find_Some_iff dest: nth_mem)
  then show "path_id_of d path = Some pid" using x mem paths_ok_unique(2)[OF assms] by (simp add: path_id_of_def)
qed

text \<open>Two databases that agree on everything but new paths.\<close>

definition paths_grow :: "db \<Rightarrow> db \<Rightarrow> bool" where
  "paths_grow d d' \<longleftrightarrow> (\<exists>new. d' = d\<lparr> db_paths := db_paths d @ new \<rparr>)"

lemma paths_grow_refl: "paths_grow d d"
  by (auto simp: paths_grow_def intro!: exI[of _ "[]"])

lemma paths_grow_trans: "paths_grow d d' \<Longrightarrow> paths_grow d' d'' \<Longrightarrow> paths_grow d d''"
  by (auto simp: paths_grow_def)

lemma paths_growD: "paths_grow d d' \<Longrightarrow> set (db_paths d) \<subseteq> set (db_paths d')"
  "paths_grow d d' \<Longrightarrow> db_snapshots d' = db_snapshots d" "paths_grow d d' \<Longrightarrow> db_diagnostics d' = db_diagnostics d"
  "paths_grow d d' \<Longrightarrow> db_intervals d' = db_intervals d" "paths_grow d d' \<Longrightarrow> db_mounts d' = db_mounts d"
  "paths_grow d d' \<Longrightarrow> db_filesystems d' = db_filesystems d" "paths_grow d d' \<Longrightarrow> db_user_version d' = db_user_version d"
  by (auto simp: paths_grow_def)

definition resolving :: "path_cache \<times> db \<Rightarrow> bool" where
  "resolving s \<longleftrightarrow> cache_ok (fst s) (db_paths (snd s)) \<and> paths_ok (db_paths (snd s))"

lemma resolve_path_id_ok:
  assumes "resolving s" and "resolve_path_id s path = (pid, s')"
  shows "resolving s' \<and> paths_grow (snd s) (snd s') \<and> (pid, path) \<in> set (db_paths (snd s'))"
proof -
  obtain cache d where s: "s = (cache, d)" by fastforce
  have ok: "paths_ok (db_paths d)" and cok: "cache_ok cache (db_paths d)" using assms(1) by (simp_all add: resolving_def s)
  show ?thesis
  proof (cases "map_of cache path")
    case (Some i)
    then have "s' = s" "pid = i" using assms(2) by (simp_all add: resolve_path_id_def s)
    moreover have "(i, path) \<in> set (db_paths d)" using cok Some by (simp add: cache_ok_def)
    ultimately show ?thesis using assms(1) by (simp add: s paths_grow_refl)
  next
    case None
    show ?thesis
    proof (cases "path_id_of d path")
      case (Some i)
      then have s': "s' = (AList.update path i cache, d)" "pid = i" using None assms(2) by (auto simp: resolve_path_id_def s)
      moreover have "(i, path) \<in> set (db_paths d)" using Some path_id_of_iff[OF ok] by simp
      ultimately show ?thesis using ok cok by (auto simp: s resolving_def cache_ok_def paths_grow_refl dict_simps)
    next
      case no: None
      let ?i = "next_rowid (map fst (db_paths d))"
      have s': "s' = (AList.update path ?i cache, d\<lparr> db_paths := db_paths d @ [(?i, path)] \<rparr>)" "pid = ?i"
        using None no assms(2) by (auto simp: resolve_path_id_def s Let_def)
      have "(i, path) \<notin> set (db_paths d)" for i
        using no path_id_of_iff[OF ok, of path i] by simp
      then have "path \<notin> snd ` set (db_paths d)" by auto
      moreover have "?i \<notin> fst ` set (db_paths d)" using next_rowid_fresh(1)[of "map fst (db_paths d)"] by simp
      ultimately have "paths_ok (db_paths d @ [(?i, path)])" using ok by (simp add: paths_ok_def)
      moreover have "paths_grow d (d\<lparr> db_paths := db_paths d @ [(?i, path)] \<rparr>)" by (auto simp: paths_grow_def)
      ultimately show ?thesis using cok by (auto simp: s s' resolving_def cache_ok_def dict_simps)
    qed
  qed
qed

text \<open>An optional path and its id.\<close>

fun names_path :: "(int \<times> bytes) list \<Rightarrow> int option \<Rightarrow> bytes option \<Rightarrow> bool" where
  "names_path ps None None = True"
| "names_path ps (Some i) (Some p) = ((i, p) \<in> set ps)"
| "names_path ps _ _ = False"

lemma names_path_mono: "names_path ps i p \<Longrightarrow> set ps \<subseteq> set qs \<Longrightarrow> names_path qs i p"
  by (induction ps i p rule: names_path.induct) auto

lemma resolve_path_opt_ok:
  assumes "resolving s" and "resolve_path_opt s p = (i, s')"
  shows "resolving s' \<and> paths_grow (snd s) (snd s') \<and> names_path (db_paths (snd s')) i p"
proof (cases p)
  case None
  then show ?thesis using assms by (simp add: resolve_path_opt_def paths_grow_refl)
next
  case (Some path)
  obtain pid s1 where r: "resolve_path_id s path = (pid, s1)" by (metis prod.exhaust)
  then show ?thesis using assms(2) resolve_path_id_ok[OF assms(1) r] by (auto simp: resolve_path_opt_def Some)
qed

subsection \<open>Storing rows\<close>

text \<open>A diagnostic row holds the columns of an aggregate, with ids that stand for its paths.\<close>

definition row_stored :: "(int \<times> bytes) list \<Rightarrow> directory_aggregate \<Rightarrow> diagnostic_row \<Rightarrow> bool" where
  "row_stored ps row v \<longleftrightarrow> dg_snapshot_id v = da_snapshot_id row \<and> (dg_path_id v, da_path row) \<in> set ps
     \<and> names_path ps (ag_parent_id (dg_state v)) (da_parent_path row)
     \<and> names_path ps (ag_top_child_id (dg_state v)) (da_top_child_path row)
     \<and> dg_state v = \<lparr> ag_parent_id = ag_parent_id (dg_state v), ag_depth = da_depth row,
          ag_apparent_bytes = da_apparent_bytes row, ag_disk_bytes = da_disk_bytes row, ag_file_count = da_file_count row,
          ag_dir_count = da_dir_count row, ag_error = da_error row, ag_hardlink_file_count = da_hardlink_file_count row,
          ag_hardlink_duplicate_count = da_hardlink_duplicate_count row,
          ag_hardlink_duplicate_disk_bytes = da_hardlink_duplicate_disk_bytes row,
          ag_hardlink_first_seen_disk_bytes = da_hardlink_first_seen_disk_bytes row,
          ag_collapsed = of_bool (da_collapsed row), ag_collapse_reason = da_collapse_reason row,
          ag_collapsed_dirs = da_collapsed_dirs row, ag_top_child_id = ag_top_child_id (dg_state v),
          ag_top_child_disk_bytes = da_top_child_disk_bytes row \<rparr>"

lemma row_stored_mono: "row_stored ps row v \<Longrightarrow> set ps \<subseteq> set qs \<Longrightarrow> row_stored qs row v"
  unfolding row_stored_def using names_path_mono by blast

lemma directory_row_values_ok:
  assumes "resolving s" and "directory_row_values s row = (v, s')"
  shows "resolving s' \<and> paths_grow (snd s) (snd s') \<and> row_stored (db_paths (snd s')) row v"
proof -
  obtain i s1 where 1: "resolve_path_id s (da_path row) = (i, s1)" by (metis prod.exhaust)
  obtain p s2 where 2: "resolve_path_opt s1 (da_parent_path row) = (p, s2)" by (metis prod.exhaust)
  obtain t s3 where 3: "resolve_path_opt s2 (da_top_child_path row) = (t, s3)" by (metis prod.exhaust)
  have r1: "resolving s1 \<and> paths_grow (snd s) (snd s1) \<and> (i, da_path row) \<in> set (db_paths (snd s1))"
    by (rule resolve_path_id_ok[OF assms(1) 1])
  have r2: "resolving s2 \<and> paths_grow (snd s1) (snd s2) \<and> names_path (db_paths (snd s2)) p (da_parent_path row)"
    using r1 by (intro resolve_path_opt_ok[OF _ 2]) blast
  have r3: "resolving s3 \<and> paths_grow (snd s2) (snd s3) \<and> names_path (db_paths (snd s3)) t (da_top_child_path row)"
    using r2 by (intro resolve_path_opt_ok[OF _ 3]) blast
  have s': "s' = s3" and v: "dg_snapshot_id v = da_snapshot_id row" "dg_path_id v = i"
    "ag_parent_id (dg_state v) = p" "ag_top_child_id (dg_state v) = t"
    using assms(2) by (auto simp: directory_row_values_def 1 2 3)
  have grow: "paths_grow (snd s) (snd s3)" using r1 r2 r3 paths_grow_trans by blast
  have "(i, da_path row) \<in> set (db_paths (snd s3))" using r1 r2 r3 paths_growD(1) by blast
  moreover have "names_path (db_paths (snd s3)) p (da_parent_path row)"
    using r2 r3 paths_growD(1) names_path_mono by blast
  ultimately have "row_stored (db_paths (snd s')) row v"
    using r3 assms(2) by (auto simp: row_stored_def s' v directory_row_values_def 1 2 3)
  then show ?thesis using r3 grow s' by blast
qed

lemma batch_values_ok:
  assumes "resolving s" and "batch_values s rows = (vs, s')"
  shows "resolving s' \<and> paths_grow (snd s) (snd s') \<and> list_all2 (row_stored (db_paths (snd s'))) rows vs"
  using assms
proof (induction rows arbitrary: s vs)
  case Nil
  then show ?case by (auto simp: paths_grow_refl)
next
  case (Cons row rows)
  obtain v s1 where 1: "directory_row_values s row = (v, s1)" by (metis prod.exhaust)
  obtain ws s2 where 2: "batch_values s1 rows = (ws, s2)" by (metis prod.exhaust)
  have vs: "vs = v # ws" "s' = s2" using Cons.prems(2) by (simp_all add: 1 2)
  have r1: "resolving s1 \<and> paths_grow (snd s) (snd s1) \<and> row_stored (db_paths (snd s1)) row v"
    by (rule directory_row_values_ok[OF Cons.prems(1) 1])
  have r2: "resolving s2 \<and> paths_grow (snd s1) (snd s2) \<and> list_all2 (row_stored (db_paths (snd s2))) rows ws"
    using Cons.IH[of s1 ws] r1 2 vs(2) by simp
  have "row_stored (db_paths (snd s2)) row v" using r1 r2 row_stored_mono paths_growD(1) by blast
  then show ?case using r1 r2 vs paths_grow_trans by auto
qed

lemma insert_diagnostics_ok:
  assumes "\<forall>v\<in>set vs. dg_snapshot_id v \<in> sn_id ` set (db_snapshots d)"
    and "distinct (map diagnostic_key (db_diagnostics d @ vs))"
  shows "fold_err insert_diagnostic d vs = Inr (d\<lparr> db_diagnostics := db_diagnostics d @ vs \<rparr>)"
  using assms
proof (induction vs arbitrary: d)
  case (Cons v vs)
  have "diagnostic_key v \<notin> diagnostic_key ` set (db_diagnostics d)" using Cons.prems(2) by auto
  then have "\<not> list_ex (\<lambda>w. dg_snapshot_id w = dg_snapshot_id v \<and> dg_path_id w = dg_path_id v) (db_diagnostics d)"
    by (auto simp: list_ex_iff diagnostic_key_def image_iff)
  then have "insert_diagnostic d v = Inr (d\<lparr> db_diagnostics := db_diagnostics d @ [v] \<rparr>)"
    using Cons.prems(1) by (simp add: insert_diagnostic_def)
  then show ?case using Cons by simp
qed simp

lemma diagnostics_of_Nil: "diagnostics_of d sid = [] \<longleftrightarrow> (\<forall>v\<in>set (db_diagnostics d). dg_snapshot_id v \<noteq> sid)"
proof -
  have "sort_key dg_path_id xs = [] \<longleftrightarrow> xs = []" for xs :: "diagnostic_row list" by (metis length_0_conv length_sort)
  then show ?thesis by (simp add: diagnostics_of_def filter_empty_conv)
qed

text \<open>The keys of stored rows are distinct when the rows' paths are.\<close>

lemma stored_keys:
  assumes "list_all2 (row_stored ps) rows vs" and "paths_ok ps" and "distinct (map (\<lambda>r. (da_snapshot_id r, da_path r)) rows)"
  shows "distinct (map diagnostic_key vs)"
  using assms
proof (induction rows vs rule: list_all2_induct)
  case (Cons row rows v vs)
  have "diagnostic_key v \<noteq> diagnostic_key w" if w: "w \<in> set vs" for w
  proof
    assume eq: "diagnostic_key v = diagnostic_key w"
    obtain r where r: "r \<in> set rows" "row_stored ps r w" using Cons.hyps(2) w by (metis list_all2_conv_all_nth in_set_conv_nth)
    then have "da_path r = da_path row" "da_snapshot_id r = da_snapshot_id row"
      using Cons.hyps(1) eq paths_ok_unique(1)[OF Cons.prems(1)] by (auto simp: row_stored_def diagnostic_key_def)
    then have "(da_snapshot_id row, da_path row) \<in> (\<lambda>r. (da_snapshot_id r, da_path r)) ` set rows"
      using r(1) by (metis (mono_tags, lifting) image_eqI)
    then show False using Cons.prems(2) by simp
  qed
  then show ?case using Cons by auto
qed simp

lemma list_all2_stored_mono:
  "list_all2 (row_stored ps) rows vs \<Longrightarrow> set ps \<subseteq> set qs \<Longrightarrow> list_all2 (row_stored qs) rows vs"
  by (erule list_all2_mono) (rule row_stored_mono)

lemma list_all2_mem2: "list_all2 R xs ys \<Longrightarrow> y \<in> set ys \<Longrightarrow> \<exists>x\<in>set xs. R x y"
  by (metis list_all2_conv_all_nth in_set_conv_nth)

lemma list_all2_mem1: "list_all2 R xs ys \<Longrightarrow> x \<in> set xs \<Longrightarrow> \<exists>y\<in>set ys. R x y"
  by (metis list_all2_conv_all_nth in_set_conv_nth)

text \<open>Rows of a snapshot that has none yet.\<close>

definition rows_for :: "db \<Rightarrow> int \<Rightarrow> directory_aggregate list \<Rightarrow> bool" where
  "rows_for d sid rows \<longleftrightarrow> sid \<in> sn_id ` set (db_snapshots d) \<and> (\<forall>r\<in>set rows. da_snapshot_id r = sid)
     \<and> distinct (map da_path rows)"

lemma insert_batches_ok:
  assumes "resolving (cache, d)" and "rows_for d sid (prev @ rows)"
    and "db_diagnostics d = old @ done_vs" and "list_all2 (row_stored (db_paths d)) prev done_vs"
    and "\<forall>v\<in>set old. dg_snapshot_id v \<noteq> sid" and "distinct (map diagnostic_key old)"
  shows "\<exists>cache' d' vs. insert_batches (cache, d) rows = Inr (cache', d') \<and> resolving (cache', d')
    \<and> list_all2 (row_stored (db_paths d')) (prev @ rows) (done_vs @ vs)
    \<and> (\<exists>new. d' = d\<lparr> db_paths := db_paths d @ new, db_diagnostics := old @ done_vs @ vs \<rparr>)"
  using assms
proof (induction rows arbitrary: cache d prev done_vs rule: length_induct)
  case (1 rows)
  show ?case
  proof (cases "rows = []")
    case True
    have "d = d\<lparr> db_paths := db_paths d @ [], db_diagnostics := old @ done_vs @ [] \<rparr>" using "1.prems"(3) by simp
    then show ?thesis using "1.prems"(1,4) True by (auto simp: insert_batches.simps intro!: exI[of _ "[]"])
  next
    case False
    let ?now = "take INSERT_BATCH_SIZE rows" let ?rest = "drop INSERT_BATCH_SIZE rows"
    obtain vs s1 where bv: "batch_values (cache, d) ?now = (vs, s1)" by (metis prod.exhaust)
    obtain c1 d1 where s1: "s1 = (c1, d1)" by (metis prod.exhaust)
    have b: "resolving (c1, d1)" "paths_grow d d1" "list_all2 (row_stored (db_paths d1)) ?now vs"
      using batch_values_ok[OF "1.prems"(1) bv] by (simp_all add: s1)
    have sub: "set (db_paths d) \<subseteq> set (db_paths d1)" using b(2) by (rule paths_growD)
    have pv: "list_all2 (row_stored (db_paths d1)) (prev @ ?now) (done_vs @ vs)"
      using b(3) list_all2_stored_mono[OF "1.prems"(4) sub] by (simp add: list_all2_appendI)
    have ids: "dg_snapshot_id v = sid" if v: "v \<in> set (done_vs @ vs)" for v
      using list_all2_mem2[OF pv v] "1.prems"(2) by (auto simp: rows_for_def row_stored_def dest: in_set_takeD)
    have "distinct (map da_path (prev @ ?now))"
    proof -
      have "distinct (map da_path ((prev @ ?now) @ ?rest))" using "1.prems"(2) by (simp add: rows_for_def)
      then show ?thesis by (metis distinct_append map_append)
    qed
    then have "distinct (map (\<lambda>r. (da_snapshot_id r, da_path r)) (prev @ ?now))"
      by (rule distinct_map_pair)
    then have keys: "distinct (map diagnostic_key (done_vs @ vs))"
      using stored_keys[OF pv] b(1) by (simp add: resolving_def)
    have "diagnostic_key ` set old \<inter> diagnostic_key ` set (done_vs @ vs) = {}"
      using ids "1.prems"(5) by (fastforce simp: diagnostic_key_def)
    then have all: "distinct (map diagnostic_key (db_diagnostics d1 @ vs))"
      using keys "1.prems"(3,6) paths_growD(3)[OF b(2)] by (auto simp: distinct_append)
    have "\<forall>v\<in>set vs. dg_snapshot_id v \<in> sn_id ` set (db_snapshots d1)"
      using ids "1.prems"(2) paths_growD(2)[OF b(2)] by (simp add: rows_for_def)
    from insert_diagnostics_ok[OF this all]
    have ins: "fold_err insert_diagnostic d1 vs = Inr (d1\<lparr> db_diagnostics := db_diagnostics d1 @ vs \<rparr>)" .
    let ?d2 = "d1\<lparr> db_diagnostics := db_diagnostics d1 @ vs \<rparr>"
    have step: "insert_batches (cache, d) rows = insert_batches (c1, ?d2) ?rest"
      using False by (subst insert_batches.simps) (simp add: bv s1 ins)
    have len: "length ?rest < length rows" using False by (simp add: INSERT_BATCH_SIZE_def)
    have r2: "resolving (c1, ?d2)" using b(1) by (simp add: resolving_def)
    have f2: "rows_for ?d2 sid ((prev @ ?now) @ ?rest)"
      using "1.prems"(2) paths_growD(2)[OF b(2)] by (simp add: rows_for_def)
    have o2: "db_diagnostics ?d2 = old @ done_vs @ vs" using "1.prems"(3) paths_growD(3)[OF b(2)] by simp
    have p2: "list_all2 (row_stored (db_paths ?d2)) (prev @ ?now) (done_vs @ vs)" using pv by simp
    obtain c' d' ws where fin: "insert_batches (c1, ?d2) ?rest = Inr (c', d')" "resolving (c', d')"
      "list_all2 (row_stored (db_paths d')) ((prev @ ?now) @ ?rest) ((done_vs @ vs) @ ws)"
      "\<exists>new. d' = ?d2\<lparr> db_paths := db_paths ?d2 @ new, db_diagnostics := old @ (done_vs @ vs) @ ws \<rparr>"
      using "1.IH"[rule_format, OF len r2 f2 o2 p2 "1.prems"(5)[rule_format] "1.prems"(6)] by blast
    obtain n1 where n1: "d1 = d\<lparr> db_paths := db_paths d @ n1 \<rparr>" using b(2) by (auto simp: paths_grow_def)
    obtain n2 where "d' = ?d2\<lparr> db_paths := db_paths ?d2 @ n2, db_diagnostics := old @ (done_vs @ vs) @ ws \<rparr>"
      using fin(4) by blast
    then have "d' = d\<lparr> db_paths := db_paths d @ (n1 @ n2), db_diagnostics := old @ done_vs @ (vs @ ws) \<rparr>"
      using n1 by simp
    then show ?thesis using fin(1-3) step by (metis append.assoc append_take_drop_id)
  qed
qed

text \<open>
  The insertion succeeds and stores each row under its path's id; nothing else changes but new paths.
\<close>

lemma insert_directory_rows_ok:
  assumes "paths_ok (db_paths d)" and "rows_for d sid rows" and "diagnostics_of d sid = []"
    and "distinct (map diagnostic_key (db_diagnostics d))"
  obtains d' vs new where "insert_directory_rows rows d = Inr d'" and "paths_ok (db_paths d')"
    and "list_all2 (row_stored (db_paths d')) rows vs"
    and "d' = d\<lparr> db_paths := db_paths d @ new, db_diagnostics := db_diagnostics d @ vs \<rparr>"
proof (cases "rows = []")
  case True
  show ?thesis
    by (rule that[of d "[]" "[]"]) (use assms(1) True in \<open>simp_all add: insert_directory_rows_def\<close>)
next
  case False
  have old: "\<forall>v\<in>set (db_diagnostics d). dg_snapshot_id v \<noteq> sid"
    using assms(3) by (simp add: diagnostics_of_Nil)
  have res: "resolving ([], d)" using assms(1) by (simp add: resolving_def cache_ok_def)
  have pre: "rows_for d sid ([] @ rows)" "db_diagnostics d = db_diagnostics d @ []" "list_all2 (row_stored (db_paths d)) [] []"
    using assms(2) by simp_all
  obtain c' d' vs new where fin: "insert_batches ([], d) rows = Inr (c', d')" "resolving (c', d')"
      "list_all2 (row_stored (db_paths d')) ([] @ rows) ([] @ vs)"
      "d' = d\<lparr> db_paths := db_paths d @ new, db_diagnostics := db_diagnostics d @ [] @ vs \<rparr>"
    using insert_batches_ok[OF res pre old assms(4)] by blast
  show ?thesis
    by (rule that[of d' vs new]) (use fin False in \<open>simp_all add: insert_directory_rows_def resolving_def\<close>)
qed

lemma map_of_diagnostics:
  assumes "distinct (map diagnostic_key (db_diagnostics d))"
  shows "map_of (diagnostics_of d sid) p = Some st \<longleftrightarrow>
    \<lparr> dg_snapshot_id = sid, dg_path_id = p, dg_state = st \<rparr> \<in> set (db_diagnostics d)"
proof -
  have "map_of (diagnostics_of d sid) p = Some st \<longleftrightarrow> (p, st) \<in> set (diagnostics_of d sid)"
    by (rule map_of_eq_Some_iff[OF diagnostics_distinct[OF assms]])
  also have "\<dots> \<longleftrightarrow> (\<exists>v\<in>set (db_diagnostics d). dg_snapshot_id v = sid \<and> dg_path_id v = p \<and> dg_state v = st)"
    by (auto simp: diagnostics_of_def)
  also have "\<dots> \<longleftrightarrow> \<lparr> dg_snapshot_id = sid, dg_path_id = p, dg_state = st \<rparr> \<in> set (db_diagnostics d)"
    by (metis diagnostic_row.select_convs diagnostic_row.surjective old.unit.exhaust)
  finally show ?thesis .
qed

subsection \<open>The life of a complete snapshot\<close>

definition snapshot_ids :: "db \<Rightarrow> int set" where
  "snapshot_ids d = sn_id ` set (db_snapshots d)"

definition ids_known :: "db \<Rightarrow> bool" where
  "ids_known d \<longleftrightarrow>
     (\<forall>iv\<in>set (db_intervals d). iv_valid_from iv \<in> snapshot_ids d \<and> set_option (iv_valid_to iv) \<subseteq> snapshot_ids d)
   \<and> (\<forall>v\<in>set (db_diagnostics d). dg_snapshot_id v \<in> snapshot_ids d)"

definition db_wf :: "db \<Rightarrow> bool" where
  "db_wf d \<longleftrightarrow> store_inv d \<and> paths_ok (db_paths d) \<and> ids_known d"

lemma empty_db_wf: "db_wf empty_db"
  by (simp add: db_wf_def store_inv_def paths_ok_def ids_known_def empty_db_def)

lemma snapshot_ids_below: "i \<in> snapshot_ids d \<Longrightarrow> i < next_rowid (map sn_id (db_snapshots d))"
  using next_rowid_fresh(2)[of i "map sn_id (db_snapshots d)"] by (simp add: snapshot_ids_def)

lemma create_snapshot_facts:
  assumes "create_snapshot now r notes d = (rec, d1)"
  shows "d1 = d\<lparr> db_snapshots := db_snapshots d1 \<rparr>" "sr_id rec = next_rowid (map sn_id (db_snapshots d))"
    "map sn_id (db_snapshots d1) = map sn_id (db_snapshots d) @ [sr_id rec]"
    "\<exists>s. last (db_snapshots d1) = s \<and> db_snapshots d1 = db_snapshots d @ [s] \<and> sn_id s = sr_id rec \<and> sn_root_path s = r"
  using assms by (auto simp: create_snapshot_def Let_def)

lemma find_snapshot_append:
  "sid \<notin> sn_id ` set ss \<Longrightarrow> sn_id s = sid \<Longrightarrow> List.find (\<lambda>s. sn_id s = sid) (ss @ [s]) = Some s"
  by (induction ss) auto

lemma new_snapshot_newest:
  assumes "ids_known d" and "snapshot_ids d \<subseteq> {..<sid}"
  shows "newest_for_root d r sid"
  using assms unfolding ids_known_def newest_for_root_def by (fastforce simp: less_le)

lemma update_snapshot_same:
  "db_intervals (update_snapshot sid t st n e d) = db_intervals d" "db_paths (update_snapshot sid t st n e d) = db_paths d"
  "db_diagnostics (update_snapshot sid t st n e d) = db_diagnostics d"
  "map sn_id (db_snapshots (update_snapshot sid t st n e d)) = map sn_id (db_snapshots d)"
  "state_at (update_snapshot sid t st n e d) = state_at d"
  by (auto simp: update_snapshot_def state_at_def fun_eq_iff)

lemma find_update:
  "List.find (\<lambda>s. sn_id s = sid) ss = Some s \<Longrightarrow> (\<And>s. sn_id (f s) = sn_id s) \<Longrightarrow>
   List.find (\<lambda>s. sn_id s = sid) (map (\<lambda>s. if sn_id s = sid then f s else s) ss) = Some (f s)"
  by (induction ss) (auto split: if_splits)

lemma finalize_facts:
  assumes "find_snapshot d sid = Some s" and "promote_complete_snapshot sid d = Inr d1" and "db_snapshots d1 = db_snapshots d"
  obtains rec where "finalize_snapshot t sid COMPLETE n e d = Inr (rec, update_snapshot sid t COMPLETE n e d1)"
    and "sr_status rec = COMPLETE" and "sr_id rec = sid" and "sr_finished_at rec = Some t"
proof -
  let ?f = "\<lambda>s. s\<lparr> sn_finished_at := Some t, sn_status := status_value COMPLETE, sn_notes := n, sn_error := e \<rparr>"
  have id: "sn_id s = sid" using find_snapshot_Some[OF assms(1)] by simp
  have "find_snapshot (update_snapshot sid t COMPLETE n e d1) sid = Some (?f s)"
    using find_update[of sid "db_snapshots d" s ?f] assms(1,3) id by (simp add: find_snapshot_def update_snapshot_def)
  then have "finalize_snapshot t sid COMPLETE n e d
      = Inr (\<lparr> sr_id = sid, sr_started_at = sn_started_at s, sr_finished_at = Some t, sr_root_path = sn_root_path s,
               sr_status = COMPLETE, sr_notes = n, sr_error = e \<rparr>, update_snapshot sid t COMPLETE n e d1)"
    using id status_of_value_value[of COMPLETE]
    by (simp add: finalize_snapshot_def assms(2) Let_def snapshot_record_of_def snapshot_status_from_storage_def)
  then show thesis by (rule that) simp_all
qed

text \<open>The columns of a scanned row, as the reader finds them.\<close>

definition reads_row :: "db \<Rightarrow> int \<Rightarrow> int \<Rightarrow> agg_state \<Rightarrow> directory_aggregate \<Rightarrow> bool" where
  "reads_row d sid p st row \<longleftrightarrow> row_stored (db_paths d) row \<lparr> dg_snapshot_id = sid, dg_path_id = p, dg_state = st \<rparr>"

lemma names_path_unique: "names_path ps i p \<Longrightarrow> names_path ps j p \<Longrightarrow> paths_ok ps \<Longrightarrow> i = j"
  by (cases p; cases i; cases j) (auto dest: paths_ok_unique(2))

lemma row_stored_unique:
  assumes "row_stored ps row v" and "row_stored ps row w" and "paths_ok ps"
  shows "v = w"
proof -
  have "dg_snapshot_id v = dg_snapshot_id w" "dg_path_id v = dg_path_id w"
    using assms paths_ok_unique(2)[OF assms(3)] by (auto simp: row_stored_def)
  moreover have "ag_parent_id (dg_state v) = ag_parent_id (dg_state w)" "ag_top_child_id (dg_state v) = ag_top_child_id (dg_state w)"
    using assms names_path_unique by (auto simp: row_stored_def)
  then have "dg_state v = dg_state w" using assms(1,2) unfolding row_stored_def by metis
  ultimately show ?thesis by simp
qed

text \<open>
  The state between the insertion and the finalization: \<open>vs\<close> are the new diagnostic rows, one for
  each row of the scan.
\<close>

definition filled :: "db \<Rightarrow> int \<Rightarrow> pathname \<Rightarrow> directory_aggregate list \<Rightarrow> diagnostic_row list \<Rightarrow> snapshot_row \<Rightarrow> db \<Rightarrow> bool" where
  "filled d sid r rows vs s d2 \<longleftrightarrow>
     db_intervals d2 = db_intervals d \<and> db_diagnostics d2 = db_diagnostics d @ vs \<and> db_snapshots d2 = db_snapshots d @ [s]
   \<and> sn_id s = sid \<and> sn_root_path s = r \<and> paths_ok (db_paths d2) \<and> set (db_paths d) \<subseteq> set (db_paths d2)
   \<and> list_all2 (row_stored (db_paths d2)) rows vs \<and> (\<forall>row\<in>set rows. da_snapshot_id row = sid) \<and> distinct (map diagnostic_key vs)"

lemma filled_list:
  "filled d sid r rows vs s d2 \<Longrightarrow> list_all2 (row_stored (db_paths d2)) rows vs"
  "filled d sid r rows vs s d2 \<Longrightarrow> paths_ok (db_paths d2)"
  by (simp_all add: filled_def)

lemma filled_facts:
  assumes wf: "db_wf d" and below: "snapshot_ids d \<subseteq> {..<sid}" and fd: "filled d sid r rows vs s d2"
  shows "store_inv d2" "find_snapshot d2 sid = Some s" "newest_for_root d2 r sid" "ids_known d2"
    "\<And>v. v \<in> set vs \<Longrightarrow> dg_snapshot_id v = sid" "\<And>v. v \<in> set (db_diagnostics d) \<Longrightarrow> dg_snapshot_id v \<noteq> sid"
    "snapshot_ids d2 = insert sid (snapshot_ids d)"
proof -
  note f = fd[unfolded filled_def] and fl = filled_list(1)[OF fd] and pk = filled_list(2)[OF fd]
  have inv: "store_inv d" and known: "ids_known d" using wf by (simp_all add: db_wf_def)
  show vsid: "dg_snapshot_id v = sid" if mem: "v \<in> set vs" for v
  proof -
    obtain row where "row \<in> set rows" "row_stored (db_paths d2) row v" using list_all2_mem2[OF fl mem] by blast
    then show ?thesis using f by (simp add: row_stored_def)
  qed
  show old: "dg_snapshot_id v \<noteq> sid" if "v \<in> set (db_diagnostics d)" for v
    using that known below by (auto simp: ids_known_def)
  have "diagnostic_key ` set (db_diagnostics d) \<inter> diagnostic_key ` set vs = {}"
    using old vsid by (fastforce simp: diagnostic_key_def)
  then have dkeys: "distinct (map diagnostic_key (db_diagnostics d2))" using f inv by (simp add: store_inv_def)
  have "sid \<notin> sn_id ` set (db_snapshots d)" using below by (auto simp: snapshot_ids_def)
  then show "find_snapshot d2 sid = Some s" and dist: "store_inv d2"
    using f inv dkeys by (simp_all add: find_snapshot_def find_snapshot_append store_inv_def)
  show "newest_for_root d2 r sid" using new_snapshot_newest[OF known below] f by (simp add: newest_for_root_def)
  show ids: "snapshot_ids d2 = insert sid (snapshot_ids d)" using f by (simp add: snapshot_ids_def)
  show "ids_known d2" unfolding ids_known_def ids using known f vsid unfolding ids_known_def by auto
qed

lemma fill_snapshot:
  assumes "db_wf d" and "create_snapshot now r notes d = (rec, d1)"
    and "\<forall>row\<in>set rows. da_snapshot_id row = sr_id rec" and "distinct (map da_path rows)"
  shows "snapshot_ids d \<subseteq> {..<sr_id rec}"
    and "\<exists>d2 vs s. insert_directory_rows rows d1 = Inr d2 \<and> filled d (sr_id rec) r rows vs s d2"
proof -
  let ?sid = "sr_id rec"
  note cr = create_snapshot_facts[OF assms(2)]
  show below: "snapshot_ids d \<subseteq> {..<?sid}" using snapshot_ids_below cr(2) by auto
  have inv: "store_inv d" and pok: "paths_ok (db_paths d)" and known: "ids_known d" using assms(1) by (simp_all add: db_wf_def)
  obtain s where s: "db_snapshots d1 = db_snapshots d @ [s]" "sn_id s = ?sid" "sn_root_path s = r" using cr(4) by blast
  have d1: "db_intervals d1 = db_intervals d" "db_diagnostics d1 = db_diagnostics d" "db_paths d1 = db_paths d"
    by (subst cr(1), simp)+
  have nd: "diagnostics_of d1 ?sid = []"
    using known below by (fastforce simp: diagnostics_of_Nil d1 ids_known_def)
  have rf: "rows_for d1 ?sid rows" using assms(3,4) s by (simp add: rows_for_def)
  obtain d2 vs new where ins: "insert_directory_rows rows d1 = Inr d2" "paths_ok (db_paths d2)"
    "list_all2 (row_stored (db_paths d2)) rows vs"
    "d2 = d1\<lparr> db_paths := db_paths d1 @ new, db_diagnostics := db_diagnostics d1 @ vs \<rparr>"
    using insert_directory_rows_ok[of d1 ?sid rows] pok nd inv rf by (auto simp: d1 store_inv_def)
  have "distinct (map diagnostic_key vs)"
    using stored_keys[OF ins(3,2)] distinct_map_pair[OF assms(4)] by blast
  then have "filled d ?sid r rows vs s d2" using ins s d1 assms(3) by (simp add: filled_def)
  then show "\<exists>d2 vs s. insert_directory_rows rows d1 = Inr d2 \<and> filled d ?sid r rows vs s d2" using ins(1) by blast
qed

text \<open>What the new rows read as.\<close>

lemma filled_reads:
  assumes fd: "filled d sid r rows vs s d2" and paths: "db_paths d3 = db_paths d2"
  shows "\<lparr> dg_snapshot_id = sid, dg_path_id = p, dg_state = st \<rparr> \<in> set vs \<longleftrightarrow> (\<exists>row\<in>set rows. reads_row d3 sid p st row)"
    (is "?v \<in> set vs \<longleftrightarrow> ?R")
proof -
  note f = fd[unfolded filled_def] and fl = filled_list(1)[OF fd] and pk = filled_list(2)[OF fd]
  have reads: "reads_row d3 sid p st row \<longleftrightarrow> row_stored (db_paths d2) row ?v" for row by (simp add: reads_row_def paths)
  show ?thesis
  proof
    assume "?v \<in> set vs"
    then show ?R unfolding reads by (rule list_all2_mem2[OF fl])
  next
    assume ?R
    then obtain row where row: "row \<in> set rows" "row_stored (db_paths d2) row ?v" unfolding reads by blast
    obtain v where v: "v \<in> set vs" "row_stored (db_paths d2) row v" using list_all2_mem1[OF fl row(1)] by blast
    have "v = ?v" by (rule row_stored_unique[OF v(2) row(2) pk])
    then show "?v \<in> set vs" using v(1) by simp
  qed
qed

lemma filled_row_has_id:
  assumes fd: "filled d sid r rows vs s d2" and paths: "db_paths d3 = db_paths d2" and row: "row \<in> set rows"
  shows "\<exists>p st. reads_row d3 sid p st row"
proof -
  note f = fd[unfolded filled_def] and fl = filled_list(1)[OF fd] and pk = filled_list(2)[OF fd]
  obtain v where v: "v \<in> set vs" "row_stored (db_paths d2) row v" using list_all2_mem1[OF fl row] by blast
  have "dg_snapshot_id v = sid" using v(2) f row by (simp add: row_stored_def)
  then have "v = \<lparr> dg_snapshot_id = sid, dg_path_id = dg_path_id v, dg_state = dg_state v \<rparr>" by simp
  then show ?thesis using v(2) unfolding reads_row_def paths by metis
qed

text \<open>Completing a filled snapshot.\<close>

lemma complete_filled:
  assumes wf: "db_wf d" and below: "snapshot_ids d \<subseteq> {..<sid}" and fd: "filled d sid r rows vs s d2"
  shows "\<exists>rec' d3. finalize_snapshot t sid COMPLETE n e d2 = Inr (rec', d3) \<and> sr_status rec' = COMPLETE \<and> sr_id rec' = sid
    \<and> db_wf d3 \<and> db_paths d3 = db_paths d2 \<and> snapshot_ids d3 = snapshot_ids d2
    \<and> db_snapshots d3 = db_snapshots (update_snapshot sid t COMPLETE n e d2)
    \<and> db_diagnostics d3 = db_diagnostics d
    \<and> (\<forall>p st. state_at d3 r sid p = Some st \<longleftrightarrow> \<lparr> dg_snapshot_id = sid, dg_path_id = p, dg_state = st \<rparr> \<in> set vs)
    \<and> (\<forall>r' i. i \<in> snapshot_ids d \<longrightarrow> state_at d3 r' i = state_at d r' i)"
proof -
  note f = fd[unfolded filled_def] and ff = filled_facts[OF wf below fd]
  have root: "sn_root_path s = r" using f by blast
  obtain d3 where d3: "promote_complete_snapshot sid d2 = Inr d3"
    and here: "state_at d3 r sid = map_of (diagnostics_of d2 sid)"
    and there: "\<And>r' t. t < sid \<or> r' \<noteq> r \<Longrightarrow> state_at d3 r' t = state_at d2 r' t" and inv3: "store_inv d3"
    and diag3: "db_diagnostics d3 = filter (\<lambda>dg. dg_snapshot_id dg \<noteq> sid) (db_diagnostics d2)"
    and snaps3: "db_snapshots d3 = db_snapshots d2" and paths3: "db_paths d3 = db_paths d2"
    and ivs3: "\<And>iv. iv \<in> set (db_intervals d3) \<Longrightarrow> insert (iv_valid_from iv) (set_option (iv_valid_to iv))
        \<subseteq> insert sid (\<Union>x\<in>set (db_intervals d2). insert (iv_valid_from x) (set_option (iv_valid_to x)))"
    by (rule promote_facts[OF ff(1,2), unfolded root, OF ff(3)]) (rule that, assumption+)
  obtain rec' where fin: "finalize_snapshot t sid COMPLETE n e d2 = Inr (rec', update_snapshot sid t COMPLETE n e d3)"
    "sr_status rec' = COMPLETE" "sr_id rec' = sid" using finalize_facts[OF ff(2) d3 snaps3] by metis
  let ?d = "update_snapshot sid t COMPLETE n e d3"
  have dkeys: "distinct (map diagnostic_key (db_diagnostics d2))" using ff(1) by (simp add: store_inv_def)
  have at: "state_at ?d r sid p = Some st \<longleftrightarrow> \<lparr> dg_snapshot_id = sid, dg_path_id = p, dg_state = st \<rparr> \<in> set vs" for p st
    unfolding update_snapshot_same(5) here map_of_diagnostics[OF dkeys]
    using f ff(6)[of "\<lparr> dg_snapshot_id = sid, dg_path_id = p, dg_state = st \<rparr>"] by auto
  have others: "state_at ?d r' i = state_at d r' i" if "i \<in> snapshot_ids d" for r' i
    using that below there[of i r'] f by (auto simp: update_snapshot_same state_at_def)
  have ids: "snapshot_ids ?d = snapshot_ids d2"
    using update_snapshot_same(4)[of sid t COMPLETE n e d3] snaps3 unfolding snapshot_ids_def by (metis list.set_map)
  have dg: "db_diagnostics ?d = db_diagnostics d"
    using f ff(5,6) by (auto simp: update_snapshot_same diag3 filter_id_conv filter_empty_conv)
  have "ids_known ?d"
    unfolding ids_known_def ids
  proof (intro conjI ballI)
    fix iv assume "iv \<in> set (db_intervals ?d)"
    then have "insert (iv_valid_from iv) (set_option (iv_valid_to iv)) \<subseteq> insert sid (snapshot_ids d2)"
      using ivs3[of iv] ff(4) by (fastforce simp: update_snapshot_same ids_known_def)
    then show "iv_valid_from iv \<in> snapshot_ids d2" "set_option (iv_valid_to iv) \<subseteq> snapshot_ids d2"
      using ff(7) by auto
  next
    fix v assume "v \<in> set (db_diagnostics ?d)"
    then show "dg_snapshot_id v \<in> snapshot_ids d2" using ff(4) f by (auto simp: dg ids_known_def)
  qed
  moreover have "store_inv ?d" using inv3 by (simp add: store_inv_def update_snapshot_same)
  ultimately have "db_wf ?d" using f by (simp add: db_wf_def update_snapshot_same paths3)
  moreover have "db_snapshots ?d = db_snapshots (update_snapshot sid t COMPLETE n e d2)"
    by (simp add: update_snapshot_def snaps3)
  ultimately show ?thesis using fin at others ids dg paths3 by (auto simp: update_snapshot_same)
qed


definition sample_rows :: "directory_aggregate list" where
  "sample_rows = map (\<lambda>(path, parent, depth, bytes).
     \<lparr> da_snapshot_id = 1, da_path = path, da_parent_path = parent, da_depth = depth, da_apparent_bytes = bytes,
       da_disk_bytes = bytes, da_file_count = 1, da_dir_count = 1 - depth, da_error = None, da_hardlink_file_count = 0,
       da_hardlink_duplicate_count = 0, da_hardlink_duplicate_disk_bytes = 0, da_hardlink_first_seen_disk_bytes = 0,
       da_collapsed = False, da_collapse_reason = None, da_collapsed_dirs = None, da_top_child_path = None,
       da_top_child_disk_bytes = None \<rparr>)
     [(''/r/a'', Some ''/r'', 1, 10), (''/r'', None, 0, 30)]"


subsection \<open>Opening the database\<close>

lemma option_eqI: "(\<And>x. a = Some x \<longleftrightarrow> b = Some x) \<Longrightarrow> a = b"
  by (metis option.exhaust_sel)

lemma state_at_filtered:
  assumes "sorted_wrt iv_disjoint (db_intervals d)"
    and "db_intervals d' = filter (\<lambda>iv. K (iv_state iv)) (db_intervals d)"
  shows "state_at d' r t p = (case state_at d r t p of Some st \<Rightarrow> if K st then Some st else None | None \<Rightarrow> None)"
proof -
  have srt: "sorted_wrt iv_disjoint (db_intervals d')" using assms sorted_wrt_filter by metis
  have "state_at d' r t p = Some st \<longleftrightarrow> state_at d r t p = Some st \<and> K st" for st
    unfolding state_at_iff[OF srt] state_at_iff[OF assms(1)] assms(2) set_filter by blast
  then show ?thesis by (intro option_eqI) (auto split: option.split)
qed

lemma distinct_filter_map: "distinct (map f xs) \<Longrightarrow> distinct (map f (filter P xs))"
  by (rule distinct_map_filter)

lemma path_refs_mono:
  "set (db_intervals d') \<subseteq> set (db_intervals d) \<Longrightarrow> set (db_diagnostics d') \<subseteq> set (db_diagnostics d) \<Longrightarrow> path_refs d' \<subseteq> path_refs d"
  unfolding path_refs_def by blast

text \<open>Every id a row refers to has a path.\<close>

definition refs_resolved :: "db \<Rightarrow> bool" where
  "refs_resolved d \<longleftrightarrow> path_refs d \<subseteq> fst ` set (db_paths d)"

lemma virtual_skip_facts:
  assumes "db_wf d"
  shows "db_wf (delete_default_virtual_mount_skip_rows d)"
    and "refs_resolved d \<Longrightarrow> refs_resolved (delete_default_virtual_mount_skip_rows d)"
    and "state_at (delete_default_virtual_mount_skip_rows d) r t p
      = (case state_at d r t p of Some st \<Rightarrow> if is_virtual_skip st then None else Some st | None \<Rightarrow> None)"
    and "delete_default_virtual_mount_skip_rows (delete_default_virtual_mount_skip_rows d) = delete_default_virtual_mount_skip_rows d"
proof -
  let ?d = "delete_default_virtual_mount_skip_rows d"
  have ivs: "db_intervals ?d = filter (\<lambda>iv. \<not> is_virtual_skip (iv_state iv)) (db_intervals d)"
    and dgs: "db_diagnostics ?d = filter (\<lambda>v. \<not> is_virtual_skip (dg_state v)) (db_diagnostics d)"
    and sns: "db_snapshots ?d = db_snapshots d"
    and pts: "db_paths ?d = filter (\<lambda>(pid, _). pid \<in> path_refs ?d) (db_paths d)"
    by (simp_all add: delete_default_virtual_mount_skip_rows_def delete_unreferenced_paths_def path_refs_def)
  have "store_inv ?d"
    using assms by (auto simp: db_wf_def store_inv_def ivs dgs sns sorted_wrt_filter distinct_filter_map list_all_iff)
  moreover have "paths_ok (db_paths ?d)" using assms by (simp add: pts db_wf_def paths_ok_def distinct_filter_map)
  moreover have "ids_known ?d" using assms by (auto simp: db_wf_def ids_known_def snapshot_ids_def ivs dgs sns)
  ultimately show "db_wf ?d" by (simp add: db_wf_def)
  have "path_refs ?d \<subseteq> path_refs d" by (rule path_refs_mono) (auto simp: ivs dgs)
  then show "refs_resolved d \<Longrightarrow> refs_resolved ?d" unfolding refs_resolved_def by (subst pts) force
  have srt: "sorted_wrt iv_disjoint (db_intervals d)" using assms by (simp add: db_wf_def store_inv_def)
  show "state_at ?d r t p = (case state_at d r t p of Some st \<Rightarrow> if is_virtual_skip st then None else Some st | None \<Rightarrow> None)"
    using state_at_filtered[OF srt ivs, of r t p] by (auto split: option.splits)
  show "delete_default_virtual_mount_skip_rows ?d = ?d"
    by (simp add: delete_default_virtual_mount_skip_rows_def delete_unreferenced_paths_def path_refs_def)
qed

text \<open>
  Opening a database.  Only the versions 0, 7, 8 and 9 are accepted; the result has version 9, is
  well-formed with every path reference resolved, hides exactly the placeholder rows of virtual
  mounts from every snapshot (a fresh database, version 0, is left alone), and opening it again
  changes nothing.
\<close>

theorem initialize_database_effect:
  assumes "db_wf d" and "refs_resolved d" and "db_user_version d = 0 \<Longrightarrow> d = empty_db"
  shows "if db_user_version d \<notin> {0, 7, 8, 9} then initialize_database d = Inl (Unsupported_schema (db_user_version d))
    else (\<exists>d'. initialize_database d = Inr d' \<and> db_user_version d' = SCHEMA_VERSION
      \<and> db_wf d' \<and> refs_resolved d' \<and> initialize_database d' = Inr d'
      \<and> (\<forall>r t p. state_at d' r t p
           = (case state_at d r t p of Some st \<Rightarrow> if is_virtual_skip st then None else Some st | None \<Rightarrow> None)))"
proof -
  let ?d = "delete_default_virtual_mount_skip_rows d"
  have same: "db_wf (x\<lparr> db_user_version := v \<rparr>) = db_wf x" "refs_resolved (x\<lparr> db_user_version := v \<rparr>) = refs_resolved x"
    "state_at (x\<lparr> db_user_version := v \<rparr>) = state_at x"
    "delete_default_virtual_mount_skip_rows (x\<lparr> db_user_version := v \<rparr>) = (delete_default_virtual_mount_skip_rows x)\<lparr> db_user_version := v \<rparr>" for x v
    by (simp_all add: db_wf_def store_inv_def ids_known_def snapshot_ids_def refs_resolved_def path_refs_def state_at_def fun_eq_iff
        delete_default_virtual_mount_skip_rows_def delete_unreferenced_paths_def)
  have ver: "db_user_version ?d = db_user_version d"
    by (simp add: delete_default_virtual_mount_skip_rows_def delete_unreferenced_paths_def)
  have bad: "initialize_database d = Inl (Unsupported_schema (db_user_version d))" if "db_user_version d \<notin> {0, 7, 8, 9}"
    using that by (auto simp: initialize_database_def SCHEMA_VERSION_def)
  have "\<exists>d'. initialize_database d = Inr d' \<and> db_user_version d' = SCHEMA_VERSION
      \<and> db_wf d' \<and> refs_resolved d' \<and> initialize_database d' = Inr d'
      \<and> (\<forall>r t p. state_at d' r t p
           = (case state_at d r t p of Some st \<Rightarrow> if is_virtual_skip st then None else Some st | None \<Rightarrow> None))"
    if v: "db_user_version d \<in> {0, 7, 8, 9}"
  proof -
    consider "db_user_version d = 0" | "db_user_version d \<in> {7, 8}" | "db_user_version d = 9" using v by fastforce
    then show ?thesis
    proof cases
    case 1
    then have d: "d = empty_db" by (rule assms(3))
    have "initialize_database d = Inr (d\<lparr> db_user_version := 9 \<rparr>)" by (simp add: d initialize_database_def SCHEMA_VERSION_def empty_db_def)
    moreover have "delete_default_virtual_mount_skip_rows (d\<lparr> db_user_version := 9 \<rparr>) = d\<lparr> db_user_version := 9 \<rparr>"
      by (simp add: d empty_db_def delete_default_virtual_mount_skip_rows_def delete_unreferenced_paths_def)
    ultimately show ?thesis using assms(1,2) same
      by (simp add: initialize_database_def SCHEMA_VERSION_def) (simp add: d state_at_def empty_db_def)
  next
    case 2
    then have "initialize_database d = Inr (?d\<lparr> db_user_version := 9 \<rparr>)" by (auto simp: initialize_database_def SCHEMA_VERSION_def)
    then show ?thesis using virtual_skip_facts[OF assms(1)] assms(2) same by (simp add: initialize_database_def SCHEMA_VERSION_def)
  next
    case 3
    then have "initialize_database d = Inr ?d" by (simp add: initialize_database_def SCHEMA_VERSION_def)
    then show ?thesis using virtual_skip_facts[OF assms(1)] assms(2) 3 ver by (simp add: initialize_database_def SCHEMA_VERSION_def)
    qed
  qed
  then show ?thesis using bad by simp
qed

theorem initialize_database_effect_witness:
  "initialize_database (empty_db\<lparr> db_user_version := 3 \<rparr>) = Inl (Unsupported_schema 3)
   \<and> (\<exists>d'. initialize_database empty_db = Inr d' \<and> db_user_version d' = SCHEMA_VERSION \<and> db_wf d')"
proof -
  have "db_wf (empty_db\<lparr> db_user_version := 3 \<rparr>)" "refs_resolved (empty_db\<lparr> db_user_version := 3 \<rparr>)"
    and "refs_resolved empty_db"
    by (simp_all add: db_wf_def store_inv_def paths_ok_def ids_known_def empty_db_def refs_resolved_def path_refs_def)
  then show ?thesis
    using initialize_database_effect[of "empty_db\<lparr> db_user_version := 3 \<rparr>"] initialize_database_effect[OF empty_db_wf]
    by (auto simp: empty_db_def)
qed

end
