(* ===== verification/Retention_Select.thy ===== *)
theory Retention_Select
  imports Retention Store_Insert
begin

text \<open>
  Which snapshots retention keeps.  The selection loop is compared with a specification that names
  the kept snapshots directly: the recent ones, and the best (latest finished, then highest id) of
  each bucket.
\<close>

subsection \<open>Policies\<close>

lemma policy_windows:
  assumes "make_policy h dd inc = Inr p"
  shows "window_of p COMPLETE_IN_HOURLY_WINDOW = Inr h" "window_of p LATEST_COMPLETE_PER_UTC_DAY = Inr dd"
    "rp_incomplete_hours p = inc" "0 < h" "h \<le> dd" "0 < inc"
  using assms by (auto simp: make_policy_def window_of_def policy_tier_def policy_tiers_def make_tier_def
      required_window_days_def split: if_splits)

subsection \<open>The best of a bucket\<close>

definition is_best :: "('k \<times> 'r::linorder) list \<Rightarrow> ('k \<times> 'r) set \<Rightarrow> bool" where
  "is_best m C \<longleftrightarrow> distinct (map fst m) \<and> finite C
     \<and> (\<forall>k r. map_of m k = Some r \<longleftrightarrow> (k, r) \<in> C \<and> (\<forall>r'. (k, r') \<in> C \<longrightarrow> r' \<le> r))"

lemma best_exists:
  assumes "finite C" and "(k, r) \<in> (C :: ('k \<times> 'r::linorder) set)"
  shows "\<exists>b. (k, b) \<in> C \<and> (\<forall>r'. (k, r') \<in> C \<longrightarrow> r' \<le> b)"
proof -
  let ?S = "{r. (k, r) \<in> C}"
  have "?S = snd ` {x \<in> C. fst x = k}" by force
  then have fin: "finite ?S" using assms(1) by simp
  have "Max ?S \<in> ?S" using fin assms(2) by (intro Max_in) auto
  moreover have "\<forall>r'\<in>?S. r' \<le> Max ?S" using fin by simp
  ultimately show ?thesis by blast
qed

lemma is_best_empty: "is_best [] {}"
  by (simp add: is_best_def)

lemma is_best_keep:
  assumes "is_best m C"
  shows "is_best (keep_best k r m) (insert (k, r) C)"
proof -
  have dist: "distinct (map fst (keep_best k r m))"
    using assms distinct_update by (auto simp: is_best_def keep_best_def split: option.splits)
  have mem: "map_of m j = Some x \<longleftrightarrow> (j, x) \<in> C \<and> (\<forall>r'. (j, r') \<in> C \<longrightarrow> r' \<le> x)" for j x
    using assms by (simp add: is_best_def)
  have none: "map_of m j = None \<longleftrightarrow> (\<forall>x. (j, x) \<notin> C)" for j
    using mem best_exists[of C j] assms unfolding is_best_def by (metis not_Some_eq)
  have "map_of (keep_best k r m) j = Some x \<longleftrightarrow>
      (j, x) \<in> insert (k, r) C \<and> (\<forall>r'. (j, r') \<in> insert (k, r) C \<longrightarrow> r' \<le> x)" for j x
  proof (cases "map_of m k")
    case None
    then have "map_of (keep_best k r m) = (map_of m)(k \<mapsto> r)" by (simp add: keep_best_def dict_simps)
    then show ?thesis using None none[of k] mem[of j x] by auto
  next
    case (Some b)
    have b: "(k, b) \<in> C" "\<And>r'. (k, r') \<in> C \<Longrightarrow> r' \<le> b" using mem[of k b] Some by blast+
    show ?thesis
    proof (cases "b < r")
      case True
      then have "map_of (keep_best k r m) = (map_of m)(k \<mapsto> r)" using Some by (simp add: keep_best_def dict_simps)
      moreover have "r' \<le> r" if "(k, r') \<in> C" for r' using b(2)[OF that] True by simp
      moreover have "\<not> r \<le> x" if "(k, x) \<in> C" "x \<noteq> r" for x using b(2)[OF that(1)] True by simp
      ultimately show ?thesis using mem[of j x] by (cases "j = k") auto
    next
      case False
      then have "keep_best k r m = m" using Some by (simp add: keep_best_def)
      moreover have "r \<le> x" if "(k, x) \<in> C" "\<forall>r'. (k, r') \<in> C \<longrightarrow> r' \<le> x" for x
        using that b False by (meson leI order.trans)
      moreover have "x = b" if "\<forall>r'. (k, r') \<in> C \<longrightarrow> r' \<le> x" "(k, x) \<in> C \<or> x = r" for x
        using that b False by (meson leI order.antisym order.trans)
      ultimately show ?thesis using b mem[of j x] False by (cases "j = k") auto
    qed
  qed
  then show ?thesis using dist assms unfolding is_best_def by simp
qed

lemma is_best_values:
  assumes "is_best m C"
  shows "snd ` set m = {r. \<exists>k. (k, r) \<in> C \<and> (\<forall>r'. (k, r') \<in> C \<longrightarrow> r' \<le> r)}"
proof -
  have "(k, r) \<in> set m \<longleftrightarrow> map_of m k = Some r" for k r
    using assms map_of_eq_Some_iff[of m k r] by (simp only: is_best_def)
  then have "snd ` set m = {r. \<exists>k. map_of m k = Some r}" by force
  then show ?thesis using assms by (simp add: is_best_def)
qed

subsection \<open>One row\<close>

definition finished_of :: "(int \<Rightarrow> int) \<Rightarrow> snapshot_row \<Rightarrow> instant option" where
  "finished_of lo row = (case sn_finished_at row of None \<Rightarrow> None | Some t \<Rightarrow> parse_utc lo t)"

definition is_complete :: "snapshot_row \<Rightarrow> bool" where
  "is_complete row \<longleftrightarrow> sn_status row = status_value COMPLETE"

text \<open>The time a row that is not complete counts from.\<close>

definition evidence_of :: "(int \<Rightarrow> int) \<Rightarrow> snapshot_row \<Rightarrow> instant option" where
  "evidence_of lo row = (case finished_of lo row of None \<Rightarrow> parse_utc lo (sn_started_at row) | Some t \<Rightarrow> Some t)"

text \<open>A row the selection can read.\<close>

definition row_readable :: "(int \<Rightarrow> int) \<Rightarrow> snapshot_row \<Rightarrow> bool" where
  "row_readable lo row \<longleftrightarrow> sn_status row \<in> range status_value
     \<and> (\<forall>t. sn_finished_at row = Some t \<longrightarrow> parse_utc lo t \<noteq> None)
     \<and> (\<not> is_complete row \<and> sn_finished_at row = None \<longrightarrow> parse_utc lo (sn_started_at row) \<noteq> None)"

definition kept_recent :: "(int \<Rightarrow> int) \<Rightarrow> instant \<Rightarrow> instant \<Rightarrow> snapshot_row \<Rightarrow> bool" where
  "kept_recent lo hourly_cutoff incomplete_cutoff row \<longleftrightarrow>
     (if is_complete row then (case finished_of lo row of None \<Rightarrow> False | Some t \<Rightarrow> hourly_cutoff \<le> t)
      else (case evidence_of lo row of None \<Rightarrow> False | Some t \<Rightarrow> incomplete_cutoff \<le> t))"

definition monthly_bucket :: "(int \<Rightarrow> int) \<Rightarrow> snapshot_row \<Rightarrow> ((string \<times> int \<times> int) \<times> (instant \<times> int)) option" where
  "monthly_bucket lo row =
     (if is_complete row
      then map_option (\<lambda>t. ((sn_root_path row, utc_year t, utc_month t), (t, sn_id row))) (finished_of lo row) else None)"

definition daily_bucket ::
    "(int \<Rightarrow> int) \<Rightarrow> instant \<Rightarrow> instant \<Rightarrow> snapshot_row \<Rightarrow> ((string \<times> int) \<times> (instant \<times> int)) option" where
  "daily_bucket lo hourly_cutoff daily_cutoff row =
     (if is_complete row
      then (case finished_of lo row of
              None \<Rightarrow> None
            | Some t \<Rightarrow> if daily_cutoff \<le> t \<and> t < hourly_cutoff
                        then Some ((sn_root_path row, utc_day t), (t, sn_id row)) else None)
      else None)"

fun keep_opt where
  "keep_opt None m = m"
| "keep_opt (Some (k, r)) m = keep_best k r m"

lemma status_from_storage_complete:
  "snapshot_status_from_storage v f = Some COMPLETE \<longleftrightarrow> v = status_value COMPLETE"
  by (auto simp: snapshot_status_from_storage_def status_of_value_def split: if_splits)

lemma status_from_storage_None: "snapshot_status_from_storage v f = None \<longleftrightarrow> v \<notin> range status_value"
proof -
  have "status_of_value v = None \<longleftrightarrow> v \<notin> range status_value"
    by (metis imageE option.distinct(1) option.exhaust rangeI status_of_value_value status_value_of_value)
  then show ?thesis by (auto simp: snapshot_status_from_storage_def split: option.splits)
qed

lemma record_readable:
  assumes "row_readable lo row"
  shows "record_retained_snapshot_id lo hc dc ic st row =
     Inr (st\<lparr> ss_keep_ids := (if kept_recent lo hc ic row then insert (sn_id row) (ss_keep_ids st) else ss_keep_ids st),
             ss_daily := keep_opt (daily_bucket lo hc dc row) (ss_daily st),
             ss_monthly := keep_opt (monthly_bucket lo row) (ss_monthly st) \<rparr>)"
proof -
  obtain status where status: "snapshot_status_from_storage (sn_status row) (sn_finished_at row) = Some status"
    using assms status_from_storage_None[of "sn_status row" "sn_finished_at row"] by (auto simp: row_readable_def)
  have complete: "is_complete row \<longleftrightarrow> status = COMPLETE"
    using status status_from_storage_complete[of "sn_status row" "sn_finished_at row"] by (simp add: is_complete_def)
  have parsed: "parse_snapshot_timestamp lo (sn_finished_at row) = Inr (finished_of lo row)"
    using assms by (auto simp: parse_snapshot_timestamp_def finished_of_def row_readable_def split: option.splits)
  show ?thesis
  proof (cases "status = COMPLETE")
    case True
    then show ?thesis using complete
      by (cases "finished_of lo row")
        (simp_all add: record_retained_snapshot_id_def status parsed kept_recent_def monthly_bucket_def daily_bucket_def Let_def)
  next
    case False
    show ?thesis
    proof (cases "finished_of lo row")
      case None
      then have "sn_finished_at row = None" using assms by (auto simp: finished_of_def row_readable_def split: option.splits)
      then obtain t where "parse_utc lo (sn_started_at row) = Some t" using assms False complete by (auto simp: row_readable_def)
      moreover from this have "parse_snapshot_timestamp lo (Some (sn_started_at row)) = Inr (Some t)"
        by (simp add: parse_snapshot_timestamp_def)
      ultimately show ?thesis using False complete None
        by (simp add: record_retained_snapshot_id_def status parsed kept_recent_def monthly_bucket_def daily_bucket_def
            evidence_of_def)
    next
      case (Some t)
      then show ?thesis using False complete
        by (simp add: record_retained_snapshot_id_def status parsed kept_recent_def monthly_bucket_def daily_bucket_def
            evidence_of_def)
    qed
  qed
qed

lemma record_unreadable:
  assumes "\<not> row_readable lo row"
  shows "\<exists>e. record_retained_snapshot_id lo hc dc ic st row = Inl e"
proof (cases "snapshot_status_from_storage (sn_status row) (sn_finished_at row)")
  case None
  then show ?thesis by (simp add: record_retained_snapshot_id_def)
next
  case status: (Some status)
  then have in_range: "sn_status row \<in> range status_value" using status_from_storage_None[of "sn_status row" "sn_finished_at row"] by simp
  have complete: "is_complete row \<longleftrightarrow> status = COMPLETE"
    using status status_from_storage_complete[of "sn_status row" "sn_finished_at row"] by (simp add: is_complete_def)
  show ?thesis
  proof (cases "sn_finished_at row")
    case None
    then have "status \<noteq> COMPLETE" "parse_utc lo (sn_started_at row) = None"
      using assms in_range complete by (auto simp: row_readable_def)
    moreover have "snapshot_status_from_storage (sn_status row) None = Some status" using status None by simp
    ultimately show ?thesis by (simp add: record_retained_snapshot_id_def None parse_snapshot_timestamp_def)
  next
    case (Some txtv)
    then have "parse_utc lo txtv = None" using assms in_range by (auto simp: row_readable_def)
    moreover have "snapshot_status_from_storage (sn_status row) (Some txtv) = Some status" using status Some by simp
    ultimately show ?thesis by (simp add: record_retained_snapshot_id_def Some parse_snapshot_timestamp_def)
  qed
qed

subsection \<open>The loop\<close>

definition candidates :: "('a \<Rightarrow> 'c option) \<Rightarrow> 'a list \<Rightarrow> 'c set" where
  "candidates f rows = {c. \<exists>row\<in>set rows. f row = Some c}"

lemma candidates_snoc: "candidates f (rows @ [row]) = (case f row of None \<Rightarrow> candidates f rows | Some c \<Rightarrow> insert c (candidates f rows))"
  by (auto simp: candidates_def split: option.splits)

lemma is_best_opt:
  "is_best m (candidates f rows) \<Longrightarrow> is_best (keep_opt (f row) m) (candidates f (rows @ [row]))"
  by (cases "f row") (auto simp: candidates_snoc split: option.splits prod.splits intro: is_best_keep)

lemma record_fold:
  assumes "is_best (ss_daily st) (candidates (daily_bucket lo hc dc) done_rows)"
    and "is_best (ss_monthly st) (candidates (monthly_bucket lo) done_rows)"
    and "ss_keep_ids st = sn_id ` {row \<in> set done_rows. kept_recent lo hc ic row}"
    and "\<forall>row\<in>set rows. row_readable lo row"
  shows "\<exists>st'. fold_err (record_retained_snapshot_id lo hc dc ic) st rows = Inr st'
    \<and> is_best (ss_daily st') (candidates (daily_bucket lo hc dc) (done_rows @ rows))
    \<and> is_best (ss_monthly st') (candidates (monthly_bucket lo) (done_rows @ rows))
    \<and> ss_keep_ids st' = sn_id ` {row \<in> set (done_rows @ rows). kept_recent lo hc ic row}"
  using assms
proof (induction rows arbitrary: st done_rows)
  case Nil
  then show ?case by simp
next
  case (Cons row rows)
  let ?st = "st\<lparr> ss_keep_ids := (if kept_recent lo hc ic row then insert (sn_id row) (ss_keep_ids st) else ss_keep_ids st),
             ss_daily := keep_opt (daily_bucket lo hc dc row) (ss_daily st),
             ss_monthly := keep_opt (monthly_bucket lo row) (ss_monthly st) \<rparr>"
  have step: "record_retained_snapshot_id lo hc dc ic st row = Inr ?st"
    using Cons.prems(4) by (intro record_readable) simp
  have "is_best (ss_daily ?st) (candidates (daily_bucket lo hc dc) (done_rows @ [row]))"
    "is_best (ss_monthly ?st) (candidates (monthly_bucket lo) (done_rows @ [row]))"
    using is_best_opt[OF Cons.prems(1)] is_best_opt[OF Cons.prems(2)] by simp_all
  moreover have "ss_keep_ids ?st = sn_id ` {r \<in> set (done_rows @ [row]). kept_recent lo hc ic r}"
    using Cons.prems(3) by auto
  ultimately show ?case using Cons.IH[of ?st "done_rows @ [row]"] Cons.prems(4) by (simp add: step)
qed

lemma fold_unreadable:
  "\<not> (\<forall>row\<in>set rows. row_readable lo row) \<Longrightarrow> \<exists>e. fold_err (record_retained_snapshot_id lo hc dc ic) st rows = Inl e"
proof (induction rows arbitrary: st)
  case (Cons row rows)
  show ?case
  proof (cases "row_readable lo row")
    case True
    then show ?thesis using Cons by (auto simp: record_readable)
  next
    case False
    then show ?thesis using record_unreadable[OF False, of hc dc ic st] by auto
  qed
qed simp

text \<open>The best row of its bucket among \<open>rows\<close>.\<close>

definition best_in_bucket :: "('a \<Rightarrow> ('k \<times> (instant \<times> int)) option) \<Rightarrow> 'a list \<Rightarrow> 'a \<Rightarrow> bool" where
  "best_in_bucket f rows row \<longleftrightarrow> (case f row of None \<Rightarrow> False
     | Some (k, r) \<Rightarrow> list_all (\<lambda>row'. case f row' of None \<Rightarrow> True | Some (k', r') \<Rightarrow> k' \<noteq> k \<or> r' \<le> r) rows)"

lemma best_ids:
  assumes "is_best m (candidates f rows)" and "\<And>row k r. f row = Some (k, r) \<Longrightarrow> snd r = sn_id row"
  shows "(snd \<circ> snd) ` set m = sn_id ` {row \<in> set rows. best_in_bucket f rows row}"
proof -
  have best: "best_in_bucket f rows row \<longleftrightarrow> (\<exists>k r. f row = Some (k, r) \<and> (\<forall>r'. (k, r') \<in> candidates f rows \<longrightarrow> r' \<le> r))" for row
    by (cases "f row") (fastforce simp: best_in_bucket_def candidates_def list_all_iff split: option.splits prod.splits)+
  have "(snd \<circ> snd) ` set m = snd ` {r. \<exists>k. (k, r) \<in> candidates f rows \<and> (\<forall>r'. (k, r') \<in> candidates f rows \<longrightarrow> r' \<le> r)}"
    unfolding is_best_values[OF assms(1), symmetric] by (rule image_comp[symmetric])
  also have "\<dots> = sn_id ` {row \<in> set rows. best_in_bucket f rows row}" (is "?A = ?B")
  proof (intro set_eqI iffI)
    fix i assume "i \<in> ?A"
    then obtain k r where kr: "i = snd r" "(k, r) \<in> candidates f rows" "\<forall>r'. (k, r') \<in> candidates f rows \<longrightarrow> r' \<le> r" by blast
    then obtain row where "row \<in> set rows" "f row = Some (k, r)" by (auto simp: candidates_def)
    then show "i \<in> ?B" using kr assms(2)[of row k r] best by blast
  next
    fix i assume "i \<in> ?B"
    then obtain row k r where "row \<in> set rows" "i = sn_id row" "f row = Some (k, r)" "\<forall>r'. (k, r') \<in> candidates f rows \<longrightarrow> r' \<le> r"
      using best by blast
    then show "i \<in> ?A" using assms(2)[of row k r] by (force simp: candidates_def)
  qed
  finally show ?thesis .
qed

text \<open>The specification of the kept snapshots.\<close>

definition retained_snapshot :: "(int \<Rightarrow> int) \<Rightarrow> instant \<Rightarrow> retention_policy \<Rightarrow> db \<Rightarrow> snapshot_row \<Rightarrow> bool" where
  "retained_snapshot lo now p d row \<longleftrightarrow>
     (let hourly_cutoff = now - rp_hourly_days p * day_us; daily_cutoff = now - rp_daily_days p * day_us;
          incomplete_cutoff = now - rp_incomplete_hours p * hour_us
      in kept_recent lo hourly_cutoff incomplete_cutoff row
       \<or> best_in_bucket (daily_bucket lo hourly_cutoff daily_cutoff) (db_snapshots d) row
       \<or> best_in_bucket (monthly_bucket lo) (db_snapshots d) row)"

lemma best_in_bucket_set: "set xs = set ys \<Longrightarrow> best_in_bucket f xs row = best_in_bucket f ys row"
  by (auto simp: best_in_bucket_def list_all_iff split: option.split prod.split)

lemma select_retained_eq:
  assumes "make_policy h dd inc = Inr p" and "\<forall>row\<in>set (db_snapshots d). row_readable lo row"
  shows "select_retained_snapshot_ids lo now p d
    = Inr (sorted_list_of_set (sn_id ` {row \<in> set (db_snapshots d). retained_snapshot lo now p d row}))"
proof -
  let ?hc = "now - h * day_us" let ?dc = "now - dd * day_us" let ?ic = "now - inc * hour_us"
  let ?st = "\<lparr> ss_keep_ids = {}, ss_daily = [], ss_monthly = [] \<rparr>" let ?rows = "snapshots_by_id d"
  have rows: "set ?rows = set (db_snapshots d)" by (simp add: snapshots_by_id_def)
  have pol: "rp_hourly_days p = h" "rp_daily_days p = dd" using assms(1) by (auto simp: make_policy_def split: if_splits)
  obtain st where st: "fold_err (record_retained_snapshot_id lo ?hc ?dc ?ic) ?st ?rows = Inr st"
    "is_best (ss_daily st) (candidates (daily_bucket lo ?hc ?dc) ?rows)"
    "is_best (ss_monthly st) (candidates (monthly_bucket lo) ?rows)"
    "ss_keep_ids st = sn_id ` {row \<in> set ?rows. kept_recent lo ?hc ?ic row}"
    using record_fold[of ?st lo ?hc ?dc "[]" ?ic ?rows] assms(2) rows
    by (auto simp: candidates_def is_best_empty)
  have "snd r = sn_id row" if "daily_bucket lo ?hc ?dc row = Some (k, r)" for row k r
    using that by (auto simp: daily_bucket_def split: if_splits option.splits)
  then have daily: "(snd \<circ> snd) ` set (ss_daily st) = sn_id ` {row \<in> set ?rows. best_in_bucket (daily_bucket lo ?hc ?dc) ?rows row}"
    by (rule best_ids[OF st(2)])
  have "snd r = sn_id row" if "monthly_bucket lo row = Some (k, r)" for row k r
    using that by (auto simp: monthly_bucket_def split: if_splits)
  then have monthly: "(snd \<circ> snd) ` set (ss_monthly st) = sn_id ` {row \<in> set ?rows. best_in_bucket (monthly_bucket lo) ?rows row}"
    by (rule best_ids[OF st(3)])
  have "kept_ids st = sn_id ` {row \<in> set (db_snapshots d). retained_snapshot lo now p d row}"
    unfolding kept_ids_def st(4) daily monthly retained_snapshot_def Let_def pol policy_windows(3)[OF assms(1)] rows
      best_in_bucket_set[OF rows] by blast
  then show ?thesis
    by (simp add: select_retained_snapshot_ids_def policy_windows[OF assms(1)] st(1))
qed



end
