(* ===== verification/Retention_Prune.thy ===== *)
theory Retention_Prune
  imports Retention_Select
begin

text \<open>
  What pruning leaves.  Moving an interval's bounds to kept snapshots changes nothing a kept snapshot
  reads, keeps the versions of a path apart and never runs into a constraint; the deletions then only
  remove what belongs to snapshots that are not kept, and the paths nothing refers to.
\<close>

subsection \<open>Interval boundaries\<close>

definition spans :: "interval_row \<Rightarrow> int \<Rightarrow> bool" where
  "spans iv i \<longleftrightarrow> iv_valid_from iv \<le> i \<and> (\<forall>t. iv_valid_to iv = Some t \<longrightarrow> i < t)"

lemma interval_holds_spans: "interval_holds r i iv \<longleftrightarrow> iv_root_path iv = r \<and> spans iv i"
  by (auto simp: interval_holds_def spans_def split: option.splits)

lemma disjoint_spans:
  "iv_disjoint a b \<Longrightarrow> spans a i \<Longrightarrow> spans b i \<Longrightarrow> iv_root_path a = iv_root_path b \<Longrightarrow> iv_path_id a = iv_path_id b \<Longrightarrow> False"
  by (auto simp: iv_disjoint_def spans_def)

lemma nonempty_spans: "iv_nonempty iv \<Longrightarrow> spans iv (iv_valid_from iv)"
  by (simp add: iv_nonempty_def spans_def)

lemma covered_iff: "set (covered retained d iv) = {i \<in> set (retained_complete retained d (iv_root_path iv)). spans iv i}"
  by (auto simp: covered_def spans_def split: option.splits)

lemma sql_min_Some: "sql_min xs = Some m \<longleftrightarrow> xs \<noteq> [] \<and> m = Min (set xs)"
  by (auto simp: sql_min_def)

lemma sql_min_mem: "sql_min xs = Some m \<Longrightarrow> m \<in> set xs"
  using Min_in[of "set xs"] by (auto simp: sql_min_def split: if_splits)

lemma normalized_row_Some:
  assumes "covered retained d iv \<noteq> []"
  obtains new where "normalized_row retained d iv = Some new"
    and "iv_root_path new = iv_root_path iv" and "iv_path_id new = iv_path_id iv" and "iv_state new = iv_state iv"
    and "iv_valid_from new \<in> set (covered retained d iv)" and "\<forall>i\<in>set (covered retained d iv). iv_valid_from new \<le> i"
    and "iv_valid_to new = (case iv_valid_to iv of None \<Rightarrow> None
           | Some t \<Rightarrow> sql_min (filter (\<lambda>i. t \<le> i) (retained_complete retained d (iv_root_path iv))))"
proof (rule that)
  show "normalized_row retained d iv = Some (iv\<lparr> iv_valid_from := Min (set (covered retained d iv)),
         iv_valid_to := (case iv_valid_to iv of None \<Rightarrow> None
           | Some t \<Rightarrow> sql_min (filter (\<lambda>i. t \<le> i) (retained_complete retained d (iv_root_path iv)))) \<rparr>)"
    using assms by (simp add: normalized_row_def sql_min_def)
qed (use assms in \<open>simp_all\<close>)

text \<open>A kept complete snapshot of the root sees the moved interval exactly if it saw the old one.\<close>

lemma normalized_holds:
  assumes "normalized_row retained d iv = Some new" and "covered retained d iv \<noteq> []"
    and "i \<in> set (retained_complete retained d (iv_root_path iv))"
  shows "spans new i \<longleftrightarrow> spans iv i"
proof -
  let ?rc = "retained_complete retained d (iv_root_path iv)"
  obtain new' where "normalized_row retained d iv = Some new'"
    and from': "iv_valid_from new' \<in> set (covered retained d iv)" "\<forall>i\<in>set (covered retained d iv). iv_valid_from new' \<le> i"
    and to': "iv_valid_to new' = (case iv_valid_to iv of None \<Rightarrow> None | Some t \<Rightarrow> sql_min (filter (\<lambda>i. t \<le> i) ?rc))"
    using normalized_row_Some[OF assms(2)] by metis
  then have new: "new' = new" using assms(1) by simp
  have frm: "iv_valid_from iv \<le> iv_valid_from new" using from'(1) unfolding new covered_iff by (simp add: spans_def)
  show ?thesis
  proof
    assume w: "spans new i"
    have "i < t" if t: "iv_valid_to iv = Some t" for t
    proof (rule ccontr)
      assume "\<not> i < t"
      then have mem: "i \<in> set (filter (\<lambda>i. t \<le> i) ?rc)" using assms(3) by simp
      then have "iv_valid_to new = Some (Min (set (filter (\<lambda>i. t \<le> i) ?rc)))" using to' t
        unfolding new by (auto simp: sql_min_def filter_empty_conv)
      moreover have "Min (set (filter (\<lambda>i. t \<le> i) ?rc)) \<le> i" using mem by (intro Min_le) simp_all
      ultimately show False using w by (simp add: spans_def)
    qed
    then show "spans iv i" using w frm by (simp add: spans_def)
  next
    assume w: "spans iv i"
    then have "iv_valid_from new \<le> i" using from'(2) assms(3) unfolding new by (simp add: covered_iff)
    moreover have "i < t'" if u: "iv_valid_to new = Some t'" for t'
    proof -
      obtain t where t: "iv_valid_to iv = Some t" using to' u unfolding new by (cases "iv_valid_to iv") auto
      have "sql_min (filter (\<lambda>i. t \<le> i) ?rc) = Some t'" using to' u t unfolding new by simp
      then have "t' \<in> set (filter (\<lambda>i. t \<le> i) ?rc)" by (rule sql_min_mem)
      then show ?thesis using w t by (simp add: spans_def)
    qed
    ultimately show "spans new i" by (simp add: spans_def)
  qed
qed

lemma normalized_facts:
  assumes "normalized_row retained d iv = Some new" and "covered retained d iv \<noteq> []"
  shows "iv_root_path new = iv_root_path iv" "iv_path_id new = iv_path_id iv" "iv_state new = iv_state iv"
    "spans iv (iv_valid_from new)" "iv_valid_from new \<in> set (retained_complete retained d (iv_root_path iv))"
    "set_option (iv_valid_to new) \<subseteq> set (retained_complete retained d (iv_root_path iv))" "iv_nonempty new"
    "\<And>t'. iv_valid_to new = Some t' \<Longrightarrow> \<exists>t. iv_valid_to iv = Some t \<and> t \<le> t'"
    "\<And>t i. iv_valid_to iv = Some t \<Longrightarrow> i \<in> set (retained_complete retained d (iv_root_path iv)) \<Longrightarrow> t \<le> i
       \<Longrightarrow> \<exists>t'. iv_valid_to new = Some t' \<and> t' \<le> i"
proof -
  let ?rc = "retained_complete retained d (iv_root_path iv)"
  obtain new' where n: "normalized_row retained d iv = Some new'"
    and same: "iv_root_path new' = iv_root_path iv" "iv_path_id new' = iv_path_id iv" "iv_state new' = iv_state iv"
    and frm: "iv_valid_from new' \<in> set (covered retained d iv)"
    and to': "iv_valid_to new' = (case iv_valid_to iv of None \<Rightarrow> None | Some t \<Rightarrow> sql_min (filter (\<lambda>i. t \<le> i) ?rc))"
    using normalized_row_Some[OF assms(2)] by metis
  have new: "new' = new" using n assms(1) by simp
  show "iv_root_path new = iv_root_path iv" "iv_path_id new = iv_path_id iv" "iv_state new = iv_state iv"
    using same unfolding new by simp_all
  show w: "spans iv (iv_valid_from new)" and "iv_valid_from new \<in> set ?rc" using frm unfolding new covered_iff by simp_all
  have t': "\<exists>t. iv_valid_to iv = Some t \<and> t \<le> u \<and> u \<in> set ?rc" if u: "iv_valid_to new = Some u" for u
  proof -
    obtain t where t: "iv_valid_to iv = Some t" using to' u unfolding new by (cases "iv_valid_to iv") auto
    have m: "sql_min (filter (\<lambda>i. t \<le> i) ?rc) = Some u" using to' u t unfolding new by simp
    have "u \<in> set (filter (\<lambda>i. t \<le> i) ?rc)" using m by (rule sql_min_mem)
    then show ?thesis using t by simp
  qed
  show "set_option (iv_valid_to new) \<subseteq> set ?rc" using t' by (cases "iv_valid_to new") auto
  show "\<exists>t. iv_valid_to iv = Some t \<and> t \<le> u" if "iv_valid_to new = Some u" for u using t'[OF that] by blast
  show "iv_nonempty new" unfolding iv_nonempty_def
  proof (intro allI impI)
    fix u assume "iv_valid_to new = Some u"
    then obtain t where "iv_valid_to iv = Some t" "t \<le> u" using t' by blast
    then show "iv_valid_from new < u" using w by (simp add: spans_def)
  qed
  show "\<exists>u. iv_valid_to new = Some u \<and> u \<le> i" if t: "iv_valid_to iv = Some t" and i: "i \<in> set ?rc" "t \<le> i" for t i
  proof -
    have "iv_valid_to new = sql_min (filter (\<lambda>i. t \<le> i) ?rc)" using to' t unfolding new by simp
    moreover have "i \<in> set (filter (\<lambda>i. t \<le> i) ?rc)" using i by simp
    ultimately show ?thesis by (auto simp: sql_min_def filter_empty_conv intro!: exI[of _ "Min (set (filter (\<lambda>i. t \<le> i) ?rc))"] Min_le)
  qed
qed

lemma normalized_disjoint:
  assumes "iv_disjoint a b" and "normalized_row retained d a = Some a'" "covered retained d a \<noteq> []"
    and "normalized_row retained d b = Some b'" "covered retained d b \<noteq> []"
  shows "iv_disjoint a' b'"
proof -
  note a = normalized_facts[OF assms(2,3)] and b = normalized_facts[OF assms(4,5)]
  show ?thesis
  proof (cases "iv_root_path a = iv_root_path b \<and> iv_path_id a = iv_path_id b")
    case True
    then consider t where "iv_valid_to a = Some t" "t \<le> iv_valid_from b" | t where "iv_valid_to b = Some t" "t \<le> iv_valid_from a"
      using assms(1) by (auto simp: iv_disjoint_def)
    then show ?thesis
    proof cases
      case 1
      then have "t \<le> iv_valid_from b'" using b(4) by (simp add: spans_def)
      then obtain t' where "iv_valid_to a' = Some t'" "t' \<le> iv_valid_from b'"
        using a(9)[OF 1(1), of "iv_valid_from b'"] b(5) True by auto
      then show ?thesis by (auto simp: iv_disjoint_def)
    next
      case 2
      then have "t \<le> iv_valid_from a'" using a(4) by (simp add: spans_def)
      then obtain t' where "iv_valid_to b' = Some t'" "t' \<le> iv_valid_from a'"
        using b(9)[OF 2(1), of "iv_valid_from a'"] a(5) True by auto
      then show ?thesis by (auto simp: iv_disjoint_def)
    qed
  next
    case False
    then show ?thesis using a(1,2) b(1,2) by (auto simp: iv_disjoint_def)
  qed
qed

text \<open>The row-by-row update never meets a constraint.\<close>

lemma update_rows_ok:
  assumes "sorted_wrt iv_disjoint (pre @ ivs)" and "\<forall>iv\<in>set (pre @ ivs). iv_nonempty iv"
    and "\<forall>iv\<in>set (pre @ ivs). \<exists>new. f iv = Some new \<and> iv_root_path new = iv_root_path iv \<and> iv_path_id new = iv_path_id iv
          \<and> spans iv (iv_valid_from new)"
  shows "update_rows f (map (the \<circ> f) pre) ivs = Inr (map (the \<circ> f) (pre @ ivs))"
  using assms
proof (induction ivs arbitrary: pre)
  case Nil
  then show ?case by simp
next
  case (Cons iv ivs)
  obtain new where new: "f iv = Some new" "iv_root_path new = iv_root_path iv" "iv_path_id new = iv_path_id iv"
    "spans iv (iv_valid_from new)" using Cons.prems(3) by auto
  have dis: "iv_disjoint x iv" if "x \<in> set pre \<union> set ivs" for x
    using Cons.prems(1) that iv_disjoint_sym by (auto simp: sorted_wrt_append)
  have other: "\<not> (iv_root_path y = iv_root_path new \<and> iv_path_id y = iv_path_id new \<and> iv_valid_from y = iv_valid_from new)"
    if x: "x \<in> set pre \<union> set ivs" and y: "iv_root_path y = iv_root_path x" "iv_path_id y = iv_path_id x" "spans x (iv_valid_from y)" for x y
  proof
    assume "iv_root_path y = iv_root_path new \<and> iv_path_id y = iv_path_id new \<and> iv_valid_from y = iv_valid_from new"
    then show False using disjoint_spans[OF dis[OF x], of "iv_valid_from new"] y new by simp
  qed
  have "\<not> (iv_root_path y = iv_root_path new \<and> iv_path_id y = iv_path_id new \<and> iv_valid_from y = iv_valid_from new)"
    if y: "y \<in> set (map (the \<circ> f) pre @ ivs)" for y
  proof (cases "y \<in> set ivs")
    case True
    then show ?thesis using other[of y y] nonempty_spans Cons.prems(2) by simp
  next
    case False
    then obtain x where x: "x \<in> set pre" "y = the (f x)" using y by auto
    then obtain z where "f x = Some z" "iv_root_path z = iv_root_path x" "iv_path_id z = iv_path_id x" "spans x (iv_valid_from z)"
      using Cons.prems(3) by auto
    then show ?thesis using other[of x y] x by simp
  qed
  then have "\<not> list_ex (\<lambda>x. iv_root_path x = iv_root_path new \<and> iv_path_id x = iv_path_id new
                          \<and> iv_valid_from x = iv_valid_from new) (map (the \<circ> f) pre @ ivs)"
    unfolding list_ex_iff by blast
  then have "update_rows f (map (the \<circ> f) pre) (iv # ivs) = update_rows f (map (the \<circ> f) (pre @ [iv])) ivs"
    by (simp add: new(1))
  then show ?case using Cons.IH[of "pre @ [iv]"] Cons.prems by (simp only: append_assoc append_Cons append_Nil)
qed

text \<open>The normalization as one equation, and what it keeps.\<close>

definition normalized_intervals :: "int list \<Rightarrow> db \<Rightarrow> interval_row list" where
  "normalized_intervals retained d =
     map (the \<circ> normalized_row retained d) (filter (\<lambda>iv. covered retained d iv \<noteq> []) (db_intervals d))"

lemma normalized_some: "covered retained d iv \<noteq> [] \<Longrightarrow> normalized_row retained d iv = Some (the (normalized_row retained d iv))"
  by (simp add: normalized_row_def sql_min_def)

lemma normalize_eq:
  assumes "store_inv d"
  shows "normalize_interval_boundaries retained d = Inr (d\<lparr> db_intervals := normalized_intervals retained d \<rparr>)"
proof (cases "retained = []")
  case True
  then have "filter (\<lambda>iv. covered retained d iv \<noteq> []) (db_intervals d) = []"
    by (simp add: covered_def retained_complete_def)
  then show ?thesis using True by (simp add: normalize_interval_boundaries_def normalized_intervals_def)
next
  case False
  let ?ivs = "filter (\<lambda>iv. covered retained d iv \<noteq> []) (db_intervals d)" let ?f = "normalized_row retained d"
  have "sorted_wrt iv_disjoint ?ivs" "\<forall>iv\<in>set ?ivs. iv_nonempty iv"
    using assms by (auto simp: store_inv_def sorted_wrt_filter list_all_iff)
  moreover have "\<exists>new. ?f iv = Some new \<and> iv_root_path new = iv_root_path iv \<and> iv_path_id new = iv_path_id iv
      \<and> spans iv (iv_valid_from new)" if "iv \<in> set ?ivs" for iv
    using normalized_facts(1,2,4)[OF normalized_some] normalized_some that by (metis (mono_tags, lifting) mem_Collect_eq set_filter)
  ultimately have "update_rows ?f [] ?ivs = Inr (map (the \<circ> ?f) ?ivs)"
    using update_rows_ok[of "[]" ?ivs ?f] by simp
  then show ?thesis using False by (simp add: normalize_interval_boundaries_def normalized_intervals_def)
qed

lemma normalized_inv:
  assumes "sorted_wrt iv_disjoint (db_intervals d)"
  shows "sorted_wrt iv_disjoint (normalized_intervals retained d)" "list_all iv_nonempty (normalized_intervals retained d)"
    "\<forall>new\<in>set (normalized_intervals retained d). insert (iv_valid_from new) (set_option (iv_valid_to new))
        \<subseteq> set (retained_complete retained d (iv_root_path new))"
proof -
  let ?ivs = "filter (\<lambda>iv. covered retained d iv \<noteq> []) (db_intervals d)" let ?f = "the \<circ> normalized_row retained d"
  have cov: "covered retained d iv \<noteq> []" if "iv \<in> set ?ivs" for iv using that by simp
  have some: "normalized_row retained d iv = Some (?f iv)" if "iv \<in> set ?ivs" for iv
    unfolding o_apply by (rule normalized_some[OF cov[OF that]])
  have "sorted_wrt iv_disjoint ?ivs" using assms by (rule sorted_wrt_filter)
  then show "sorted_wrt iv_disjoint (normalized_intervals retained d)"
    unfolding normalized_intervals_def
  proof (rule sorted_wrt_map_mono)
    fix a b assume "iv_disjoint a b" "a \<in> set ?ivs" "b \<in> set ?ivs"
    then show "iv_disjoint (?f a) (?f b)" by (intro normalized_disjoint[OF _ some cov some cov])
  qed
  have "iv_nonempty (?f iv)" "insert (iv_valid_from (?f iv)) (set_option (iv_valid_to (?f iv)))
        \<subseteq> set (retained_complete retained d (iv_root_path (?f iv)))" if "iv \<in> set ?ivs" for iv
    using normalized_facts(1,5,6,7)[OF some[OF that] cov[OF that]] by simp_all
  then show "list_all iv_nonempty (normalized_intervals retained d)"
    "\<forall>new\<in>set (normalized_intervals retained d). insert (iv_valid_from new) (set_option (iv_valid_to new))
        \<subseteq> set (retained_complete retained d (iv_root_path new))"
    unfolding normalized_intervals_def list_all_iff set_map by blast+
qed

lemma normalized_reads:
  assumes "i \<in> set (retained_complete retained d r)"
  shows "map (\<lambda>iv. (iv_path_id iv, iv_state iv)) (filter (interval_holds r i) (normalized_intervals retained d))
    = map (\<lambda>iv. (iv_path_id iv, iv_state iv)) (filter (interval_holds r i) (db_intervals d))"
proof -
  let ?f = "the \<circ> normalized_row retained d" let ?v = "\<lambda>iv. (iv_path_id iv, iv_state iv)"
  have "map ?v (filter (interval_holds r i) (map ?f (filter (\<lambda>iv. covered retained d iv \<noteq> []) ivs)))
      = map ?v (filter (interval_holds r i) ivs)" for ivs
  proof (induction ivs)
    case (Cons iv ivs)
    show ?case
    proof (cases "covered retained d iv = []")
      case True
      then have "\<not> interval_holds r i iv" using assms covered_iff[of retained d iv] by (auto simp: interval_holds_spans)
      then show ?thesis using Cons True by simp
    next
      case False
      note some = normalized_some[OF False] False
      have "interval_holds r i (?f iv) \<longleftrightarrow> interval_holds r i iv"
        using normalized_holds[OF some, of i] normalized_facts(1)[OF some] assms by (auto simp: interval_holds_spans)
      then show ?thesis using Cons False normalized_facts(2,3)[OF some] by simp
    qed
  qed simp
  then show ?thesis by (simp add: normalized_intervals_def)
qed

subsection \<open>States between the commits\<close>

text \<open>A state pruning commits: some of the snapshots that are not kept are gone, the intervals are normalized.\<close>

definition pruned_state :: "int list \<Rightarrow> db \<Rightarrow> int set \<Rightarrow> db \<Rightarrow> bool" where
  "pruned_state retained d gone d' \<longleftrightarrow>
     db_snapshots d' = filter (\<lambda>s. sn_id s \<notin> gone) (db_snapshots d)
   \<and> db_diagnostics d' = filter (\<lambda>v. dg_snapshot_id v \<notin> gone) (db_diagnostics d)
   \<and> db_intervals d' = normalized_intervals retained d
   \<and> (\<exists>P. db_paths d' = filter P (db_paths d))"

lemma pruned_wf:
  assumes "db_wf d" and "pruned_state retained d gone d'" and "gone \<inter> set retained = {}"
  shows "db_wf d'"
proof -
  have inv: "store_inv d" and ok: "paths_ok (db_paths d)" and known: "ids_known d" using assms(1) by (simp_all add: db_wf_def)
  note ps = assms(2)[unfolded pruned_state_def]
  have srt: "sorted_wrt iv_disjoint (db_intervals d)" using inv by (simp add: store_inv_def)
  have "store_inv d'"
    using inv normalized_inv[OF srt, of retained] by (simp add: store_inv_def ps distinct_map_filter)
  moreover have "paths_ok (db_paths d')" using ok ps by (auto simp: paths_ok_def distinct_map_filter)
  moreover have "set (retained_complete retained d r) \<subseteq> snapshot_ids d'" for r
    using assms(3) by (auto simp: retained_complete_def snapshot_ids_def ps)
  then have "ids_known d'"
    using normalized_inv(3)[OF srt, of retained] known
    by (fastforce simp: ids_known_def ps snapshot_ids_def)
  ultimately show ?thesis by (simp add: db_wf_def)
qed

lemma snapshot_state_eq:
  assumes "distinct (map sn_id (db_snapshots d))" and "s \<in> set (db_snapshots d)"
  shows "snapshot_state d (sn_id s) = (if is_complete s
     then map (\<lambda>iv. (iv_path_id iv, iv_state iv)) (filter (interval_holds (sn_root_path s) (sn_id s)) (db_intervals d))
     else map (\<lambda>dg. (dg_path_id dg, dg_state dg)) (filter (\<lambda>dg. dg_snapshot_id dg = sn_id s) (db_diagnostics d)))"
  unfolding is_complete_def by (rule snapshot_state_at[OF assms])

lemma pruned_reads:
  assumes "db_wf d" and "pruned_state retained d gone d'" and "gone \<inter> set retained = {}"
    and "s \<in> set (db_snapshots d)" and "sn_id s \<in> set retained"
  shows "s \<in> set (db_snapshots d') \<and> snapshot_state d' (sn_id s) = snapshot_state d (sn_id s)"
proof -
  note ps = assms(2)[unfolded pruned_state_def]
  have kept: "sn_id s \<notin> gone" using assms(3,5) by blast
  have mem: "s \<in> set (db_snapshots d')" using assms(4) kept ps by simp
  have dist: "distinct (map sn_id (db_snapshots d))" using assms(1) by (simp add: db_wf_def store_inv_def)
  then have dist': "distinct (map sn_id (db_snapshots d'))" using ps by (simp add: distinct_map_filter)
  have "snapshot_state d' (sn_id s) = snapshot_state d (sn_id s)"
  proof (cases "is_complete s")
    case True
    then have "sn_id s \<in> set (retained_complete retained d (sn_root_path s))"
      using assms(4,5) by (auto simp: retained_complete_def is_complete_def)
    from normalized_reads[OF this] show ?thesis
      using True ps by (simp add: snapshot_state_eq[OF dist' mem] snapshot_state_eq[OF dist assms(4)])
  next
    case False
    have "filter (\<lambda>dg. dg_snapshot_id dg = sn_id s) (filter (\<lambda>v. dg_snapshot_id v \<notin> gone) (db_diagnostics d))
        = filter (\<lambda>dg. dg_snapshot_id dg = sn_id s) (db_diagnostics d)"
      using kept by (auto intro!: filter_cong)
    then show ?thesis
      using False ps by (simp add: snapshot_state_eq[OF dist' mem] snapshot_state_eq[OF dist assms(4)])
  qed
  then show ?thesis using mem by simp
qed

lemma delete_batch_pruned:
  assumes "pruned_state retained d gone d'"
  shows "pruned_state retained d (gone \<union> set b) (delete_snapshot_batch b d')"
  using assms by (auto simp: pruned_state_def delete_snapshot_batch_def intro!: filter_cong)

lemma delete_batches_pruned:
  assumes "pruned_state retained d gone d'"
  shows "delete_batches bs d' \<noteq> []" "pruned_state retained d (gone \<union> set (concat bs)) (last (delete_batches bs d'))"
    "x \<in> set (delete_batches bs d') \<Longrightarrow> \<exists>g\<subseteq>set (concat bs). pruned_state retained d (gone \<union> g) x"
    "x \<in> set (delete_batches bs d') \<Longrightarrow> db_paths x = db_paths d'"
  using assms
proof (induction bs arbitrary: gone d')
  case Nil
  { case 1 show ?case by simp }
  { case 2 then show ?case by simp }
  { case 3 then show ?case by (auto intro!: exI[of _ "{}"]) }
  { case 4 then show ?case by simp }
next
  case (Cons b bs)
  note step = delete_batch_pruned[where b = b]
  { case 1 show ?case by simp }
  { case 2 then show ?case using Cons.IH(1,2)[OF step[OF 2]] by (simp add: Un_assoc) }
  { case 3
    then consider "x = d'" | "x \<in> set (delete_batches bs (delete_snapshot_batch b d'))" by auto
    then show ?case
    proof cases
      case 1
      then show ?thesis using 3(2) by (auto intro!: exI[of _ "{}"])
    next
      case 2
      then obtain g where "g \<subseteq> set (concat bs)" "pruned_state retained d (gone \<union> set b \<union> g) x"
        using Cons.IH(3)[OF 2 step[OF 3(2)]] by blast
      then show ?thesis by (intro exI[of _ "set b \<union> g"]) (auto simp: Un_assoc)
    qed }
  { case 4
    then show ?case using Cons.IH(4)[OF _ step[OF 4(2)]] by (auto simp: delete_snapshot_batch_def) }
qed

lemma concat_batches: "0 < n \<Longrightarrow> concat (batches n xs) = xs"
proof (induction n xs rule: batches.induct)
  case (1 n xs)
  then show ?case by (subst batches.simps) simp
qed

lemma pruned_path_refs:
  assumes "pruned_state retained d gone d'"
  shows "path_refs d' \<subseteq> path_refs d"
proof -
  note ps = assms[unfolded pruned_state_def]
  have "\<exists>iv\<in>set (db_intervals d). iv_path_id new = iv_path_id iv \<and> iv_state new = iv_state iv" if "new \<in> set (db_intervals d')" for new
  proof -
    obtain iv where iv: "iv \<in> set (db_intervals d)" "covered retained d iv \<noteq> []" "new = the (normalized_row retained d iv)"
      using \<open>new \<in> _\<close> ps by (auto simp: normalized_intervals_def)
    then show ?thesis using normalized_facts(2,3)[OF normalized_some[OF iv(2)] iv(2)] by blast
  qed
  moreover have "set (db_diagnostics d') \<subseteq> set (db_diagnostics d)" using ps by auto
  ultimately show ?thesis unfolding path_refs_def by fastforce
qed

lemma orphan_facts:
  assumes "delete_orphan_paths d = (n, d')"
  shows "n = int (length (db_paths d)) - int (length (db_paths d'))" "path_refs d' = path_refs d"
    "db_snapshots d' = db_snapshots d" "db_intervals d' = db_intervals d" "db_diagnostics d' = db_diagnostics d"
    "db_paths d' = filter (\<lambda>(pid, _). pid \<in> path_refs d) (db_paths d)"
  using assms by (auto simp: delete_orphan_paths_def delete_unreferenced_paths_def Let_def path_refs_def)

lemma orphan_pruned:
  assumes "delete_orphan_paths x = (n, x')" and "pruned_state retained d gone x"
  shows "pruned_state retained d gone x'"
proof -
  obtain P where P: "db_paths x = filter P (db_paths d)" using assms(2) by (auto simp: pruned_state_def)
  have "db_paths x' = filter (\<lambda>p. P p \<and> (case p of (pid, _) \<Rightarrow> pid \<in> path_refs x)) (db_paths d)"
    by (simp add: orphan_facts(6)[OF assms(1)] P)
  then show ?thesis using assms(2) by (auto simp: pruned_state_def orphan_facts(3-5)[OF assms(1)])
qed

subsection \<open>The whole run\<close>

text \<open>Everything a run does, for both commit modes.\<close>

lemma prune_run:
  fixes now :: instant
  assumes "db_wf d" and pol: "make_policy h dd inc = Inr p" and rd: "\<forall>row\<in>set (db_snapshots d). row_readable lo row"
  defines "retained \<equiv> sorted_list_of_set (sn_id ` {row \<in> set (db_snapshots d). retained_snapshot lo now p d row})"
  defines "deleted \<equiv> filter (\<lambda>i. i \<notin> set retained) (map sn_id (snapshots_by_id d))"
  obtains ds x n where "prune_snapshots lo now p c d
      = Inr (make_prune_result (map sn_id (snapshots_by_id d)) deleted retained n, ds @ [snd (delete_orphan_paths x)])"
    and "n = fst (delete_orphan_paths x)" and "pruned_state retained d (set deleted) x"
    and "\<forall>y\<in>set ds. \<exists>g. g \<subseteq> set deleted \<and> pruned_state retained d g y" and "\<forall>y\<in>set (x # ds). db_paths y = db_paths d"
proof -
  have sel: "select_retained_snapshot_ids lo now p d = Inr retained"
    unfolding retained_def by (rule select_retained_eq[OF pol rd])
  have inv: "store_inv d" using assms(1) by (simp add: db_wf_def)
  let ?d1 = "d\<lparr> db_intervals := normalized_intervals retained d \<rparr>"
  have ps1: "pruned_state retained d {} ?d1" by (auto simp: pruned_state_def intro!: exI[of _ "\<lambda>_. True"])
  note run = prune_snapshots_def sel normalize_eq[OF inv] deleted_def[symmetric] Let_def
  show thesis
  proof (cases c)
    case True
    let ?bs = "batches PRUNE_SNAPSHOT_DELETE_BATCH_SIZE deleted" let ?ds = "delete_batches ?bs ?d1" let ?x = "last ?ds"
    have cb: "concat ?bs = deleted" by (simp add: concat_batches PRUNE_SNAPSHOT_DELETE_BATCH_SIZE_def)
    have "prune_snapshots lo now p c d
      = Inr (make_prune_result (map sn_id (snapshots_by_id d)) deleted retained (fst (delete_orphan_paths ?x)),
             ?ds @ [snd (delete_orphan_paths ?x)])"
      using True by (simp add: run prune_with_committed_batches_def split: prod.splits)
    then show thesis
    proof (rule that)
      show "pruned_state retained d (set deleted) ?x" using delete_batches_pruned(2)[OF ps1, of ?bs] by (simp add: cb)
      show "\<forall>y\<in>set ?ds. \<exists>g. g \<subseteq> set deleted \<and> pruned_state retained d g y"
        using delete_batches_pruned(3)[OF ps1, of _ ?bs] cb by fastforce
      have "?x \<in> set ?ds" using delete_batches_pruned(1)[OF ps1] by (rule last_in_set)
      then show "\<forall>y\<in>set (?x # ?ds). db_paths y = db_paths d" using delete_batches_pruned(4)[OF ps1, of _ ?bs] by auto
    qed simp
  next
    case False
    let ?x = "if deleted \<noteq> [] then delete_snapshot_batch deleted ?d1 else ?d1"
    have "prune_snapshots lo now p c d
      = Inr (make_prune_result (map sn_id (snapshots_by_id d)) deleted retained (fst (delete_orphan_paths ?x)),
             [] @ [snd (delete_orphan_paths ?x)])"
      using False by (simp add: run split: prod.splits)
    then show thesis
    proof (rule that)
      show "pruned_state retained d (set deleted) ?x" using delete_batch_pruned[OF ps1, of deleted] ps1 by simp
      show "\<forall>y\<in>set (?x # []). db_paths y = db_paths d" by (simp add: delete_snapshot_batch_def)
    qed simp_all
  qed
qed

lemma retained_ids:
  fixes now :: instant and p :: retention_policy and lo :: "int \<Rightarrow> int"
  assumes "distinct (map sn_id (db_snapshots d))"
  defines "retained \<equiv> sorted_list_of_set (sn_id ` {row \<in> set (db_snapshots d). retained_snapshot lo now p d row})"
  shows "s \<in> set (db_snapshots d) \<Longrightarrow> sn_id s \<in> set retained \<longleftrightarrow> retained_snapshot lo now p d s"
    and "length retained = length (filter (retained_snapshot lo now p d) (db_snapshots d))"
proof -
  have fin: "finite (sn_id ` {row \<in> set (db_snapshots d). retained_snapshot lo now p d row})" by simp
  have inj: "inj_on sn_id (set (db_snapshots d))" using assms(1) by (simp add: distinct_map)
  show "s \<in> set (db_snapshots d) \<Longrightarrow> sn_id s \<in> set retained \<longleftrightarrow> retained_snapshot lo now p d s"
    using inj by (auto simp: retained_def inj_on_def)
  have "length retained = card (sn_id ` set (filter (retained_snapshot lo now p d) (db_snapshots d)))"
    by (simp add: retained_def)
  also have "\<dots> = length (map sn_id (filter (retained_snapshot lo now p d) (db_snapshots d)))"
    using distinct_card[of "map sn_id (filter (retained_snapshot lo now p d) (db_snapshots d))"] assms(1)
    by (simp add: distinct_map_filter)
  finally show "length retained = length (filter (retained_snapshot lo now p d) (db_snapshots d))" by simp
qed

lemma pruned_last_snapshots:
  fixes now :: instant and p :: retention_policy and lo :: "int \<Rightarrow> int"
  assumes dist: "distinct (map sn_id (db_snapshots d))"
  defines "ret \<equiv> sorted_list_of_set (sn_id ` {row \<in> set (db_snapshots d). retained_snapshot lo now p d row})"
  assumes "pruned_state ret' d (set (filter (\<lambda>i. i \<notin> set ret) (map sn_id (snapshots_by_id d)))) x"
  shows "db_snapshots x = filter (retained_snapshot lo now p d) (db_snapshots d)"
proof -
  have "sn_id s \<notin> set (filter (\<lambda>i. i \<notin> set ret) (map sn_id (snapshots_by_id d))) \<longleftrightarrow> retained_snapshot lo now p d s"
    if s: "s \<in> set (db_snapshots d)" for s
    using retained_ids(1)[OF dist s, where lo = lo and now = now and p = p, folded ret_def] s by (auto simp: snapshots_by_id_def)
  then show ?thesis using assms(3) by (auto simp: pruned_state_def intro!: filter_cong)
qed

text \<open>
  C5: Pruning never changes what a kept snapshot reads.  On a well-formed database with readable
  snapshot rows pruning succeeds, and in every state it commits on the way (between any two deletion
  batches as at the end) the database is well-formed, every path reference resolves, and each
  snapshot retention keeps is still there with exactly the rows it had, although the intervals those
  rows live in may have been cut, merged into a later snapshot or reopened.
\<close>

theorem prune_keeps_retained:
  assumes "db_wf d" and "refs_resolved d" and "make_policy h dd inc = Inr p"
    and "\<forall>row\<in>set (db_snapshots d). row_readable lo row"
  shows "\<exists>res ds. prune_snapshots lo now p do_commit d = Inr (res, ds) \<and> ds \<noteq> []
    \<and> (\<forall>d'\<in>set ds. db_wf d' \<and> refs_resolved d'
         \<and> (\<forall>s\<in>set (db_snapshots d). retained_snapshot lo now p d s \<longrightarrow>
              s \<in> set (db_snapshots d') \<and> snapshot_state d' (sn_id s) = snapshot_state d (sn_id s)))"
proof -
  let ?ret = "sorted_list_of_set (sn_id ` {row \<in> set (db_snapshots d). retained_snapshot lo now p d row})"
  let ?del = "filter (\<lambda>i. i \<notin> set ?ret) (map sn_id (snapshots_by_id d))"
  obtain ds x n where run: "prune_snapshots lo now p do_commit d
      = Inr (make_prune_result (map sn_id (snapshots_by_id d)) ?del ?ret n, ds @ [snd (delete_orphan_paths x)])"
    and x: "pruned_state ?ret d (set ?del) x"
    and ds: "\<forall>y\<in>set ds. \<exists>g. g \<subseteq> set ?del \<and> pruned_state ?ret d g y" and paths: "\<forall>y\<in>set (x # ds). db_paths y = db_paths d"
    by (rule prune_run[OF assms(1,3,4), where now = now and c = do_commit])
  obtain m x' where orphan: "delete_orphan_paths x = (m, x')" by fastforce
  have dist: "distinct (map sn_id (db_snapshots d))" using assms(1) by (simp add: db_wf_def store_inv_def)
  have good: "db_wf y \<and> (\<forall>s\<in>set (db_snapshots d). retained_snapshot lo now p d s \<longrightarrow>
              s \<in> set (db_snapshots y) \<and> snapshot_state y (sn_id s) = snapshot_state d (sn_id s))"
    if "pruned_state ?ret d g y" "g \<subseteq> set ?del" for g y
  proof -
    have "g \<inter> set ?ret = {}" using that(2) by auto
    then show ?thesis using pruned_wf[OF assms(1) that(1)] pruned_reads[OF assms(1) that(1)] retained_ids(1)[OF dist] by blast
  qed
  have refs: "refs_resolved y" if "pruned_state ?ret d g y" "db_paths y = db_paths d" for g y
    using pruned_path_refs[OF that(1)] that(2) assms(2) unfolding refs_resolved_def by auto
  have last: "pruned_state ?ret d (set ?del) x'" by (rule orphan_pruned[OF orphan x])
  have "refs_resolved x" using refs[OF x] paths by simp
  then have "refs_resolved x'"
    unfolding refs_resolved_def orphan_facts(2,6)[OF orphan] by force
  then have x': "db_wf x' \<and> refs_resolved x' \<and> (\<forall>s\<in>set (db_snapshots d). retained_snapshot lo now p d s \<longrightarrow>
              s \<in> set (db_snapshots x') \<and> snapshot_state x' (sn_id s) = snapshot_state d (sn_id s))"
    using good[OF last order_refl] by blast
  have "db_wf y \<and> refs_resolved y \<and> (\<forall>s\<in>set (db_snapshots d). retained_snapshot lo now p d s \<longrightarrow>
              s \<in> set (db_snapshots y) \<and> snapshot_state y (sn_id s) = snapshot_state d (sn_id s))" if y: "y \<in> set ds" for y
  proof -
    obtain g where g: "g \<subseteq> set ?del" "pruned_state ?ret d g y" using ds y by blast
    have "db_paths y = db_paths d" using paths y by simp
    then show ?thesis using good[OF g(2,1)] refs[OF g(2)] by blast
  qed
  with x' have "\<forall>y\<in>set (ds @ [x']). db_wf y \<and> refs_resolved y \<and> (\<forall>s\<in>set (db_snapshots d). retained_snapshot lo now p d s \<longrightarrow>
              s \<in> set (db_snapshots y) \<and> snapshot_state y (sn_id s) = snapshot_state d (sn_id s))"
    unfolding set_append list.set by blast
  then show ?thesis using run orphan by (intro exI[of _ "make_prune_result (map sn_id (snapshots_by_id d)) ?del ?ret n"] exI[of _ "ds @ [x']"]) (simp only: snd_conv simp_thms append_is_Nil_conv list.simps)
qed

text \<open>
  The result of a pruning run.  The last state holds exactly the kept snapshots and exactly the
  paths some row refers to; the reported ids are the other snapshots in ascending order, the counts
  are the sizes of the tables before and after, and neither depends on the commit mode.
\<close>

theorem prune_result_accounting:
  assumes "db_wf d" and "refs_resolved d" and "make_policy h dd inc = Inr p"
    and "\<forall>row\<in>set (db_snapshots d). row_readable lo row"
  shows "\<exists>res ds. prune_snapshots lo now p do_commit d = Inr (res, ds)
    \<and> db_snapshots (last ds) = filter (retained_snapshot lo now p d) (db_snapshots d)
    \<and> fst ` set (db_paths (last ds)) = path_refs (last ds)
    \<and> pr_deleted_snapshot_ids res = map sn_id (filter (\<lambda>s. \<not> retained_snapshot lo now p d s) (snapshots_by_id d))
    \<and> pr_snapshots_before res = int (length (db_snapshots d))
    \<and> pr_snapshots_after res = int (length (db_snapshots (last ds)))
    \<and> pr_retained_snapshot_count res = pr_snapshots_after res
    \<and> pr_deleted_snapshot_count res = pr_snapshots_before res - pr_snapshots_after res
    \<and> pr_deleted_path_count res = int (length (db_paths d)) - int (length (db_paths (last ds)))"
proof -
  define ret where "ret = sorted_list_of_set (sn_id ` {row \<in> set (db_snapshots d). retained_snapshot lo now p d row})"
  define del where "del = filter (\<lambda>i. i \<notin> set ret) (map sn_id (snapshots_by_id d))"
  obtain ds x n where run: "prune_snapshots lo now p do_commit d
      = Inr (make_prune_result (map sn_id (snapshots_by_id d)) del ret n, ds @ [snd (delete_orphan_paths x)])"
    and n: "n = fst (delete_orphan_paths x)" and x: "pruned_state ret d (set del) x"
    and paths: "\<forall>y\<in>set (x # ds). db_paths y = db_paths d"
    by (rule prune_run[OF assms(1,3,4), where now = now and c = do_commit, folded ret_def, folded del_def])
  obtain m x' where orphan: "delete_orphan_paths x = (m, x')" by fastforce
  have dist: "distinct (map sn_id (db_snapshots d))" using assms(1) by (simp add: db_wf_def store_inv_def)
  note ids = retained_ids[OF dist, where lo = lo and now = now and p = p, folded ret_def]
  have rows: "set (snapshots_by_id d) = set (db_snapshots d)" "length (snapshots_by_id d) = length (db_snapshots d)"
    by (simp_all add: snapshots_by_id_def)
  have dels: "del = map sn_id (filter (\<lambda>s. \<not> retained_snapshot lo now p d s) (snapshots_by_id d))"
    unfolding del_def filter_map o_def using ids(1) rows(1) by (intro arg_cong[where f = "map sn_id"] filter_cong) auto
  have snaps: "db_snapshots x' = filter (retained_snapshot lo now p d) (db_snapshots d)"
    using pruned_last_snapshots[OF dist x[unfolded del_def ret_def]] orphan_facts(3)[OF orphan] by simp
  have "path_refs x \<subseteq> fst ` set (db_paths x)"
    using pruned_path_refs[OF x] assms(2) paths by (auto simp: refs_resolved_def)
  then have refs: "fst ` set (db_paths x') = path_refs x'"
    unfolding orphan_facts(2,6)[OF orphan] by force
  have "length (filter (\<lambda>s. \<not> retained_snapshot lo now p d s) (snapshots_by_id d))
      = length (filter (\<lambda>s. \<not> retained_snapshot lo now p d s) (db_snapshots d))"
    unfolding snapshots_by_id_def by (metis mset_filter mset_sort size_mset)
  then have len: "int (length del) = int (length (db_snapshots d)) - int (length (db_snapshots x'))"
    unfolding dels snaps using sum_length_filter_compl[of "retained_snapshot lo now p d" "db_snapshots d"] by simp
  have "int (length ret) = int (length (db_snapshots x'))" unfolding snaps using ids(2) by simp
  then show ?thesis
    using run len snaps refs orphan_facts(1)[OF orphan] paths rows(2) n
    by (intro exI[of _ "make_prune_result (map sn_id (snapshots_by_id d)) del ret n"] exI[of _ "ds @ [x']"])
      (simp add: orphan make_prune_result_def dels)
qed

text \<open>
  Pruning never loses the newest state of a root.  For every finished complete snapshot there is,
  after the run, a complete snapshot of the same root that finished no earlier (with an id no smaller
  if at the same time), however old it is.
\<close>

theorem prune_keeps_latest:
  assumes "db_wf d" and "make_policy h dd inc = Inr p" and "\<forall>row\<in>set (db_snapshots d). row_readable lo row"
    and "s \<in> set (db_snapshots d)" and "is_complete s" and "finished_of lo s = Some t"
  shows "\<exists>res ds s' t'. prune_snapshots lo now p do_commit d = Inr (res, ds) \<and> s' \<in> set (db_snapshots (last ds))
    \<and> is_complete s' \<and> sn_root_path s' = sn_root_path s \<and> finished_of lo s' = Some t' \<and> (t, sn_id s) \<le> (t', sn_id s')"
proof -
  let ?ret = "sorted_list_of_set (sn_id ` {row \<in> set (db_snapshots d). retained_snapshot lo now p d row})"
  let ?del = "filter (\<lambda>i. i \<notin> set ?ret) (map sn_id (snapshots_by_id d))"
  obtain ds x n where run: "prune_snapshots lo now p do_commit d
      = Inr (make_prune_result (map sn_id (snapshots_by_id d)) ?del ?ret n, ds @ [snd (delete_orphan_paths x)])"
    and x: "pruned_state ?ret d (set ?del) x"
    by (rule prune_run[OF assms(1-3), where now = now and c = do_commit])
  obtain m x' where orphan: "delete_orphan_paths x = (m, x')" by fastforce
  have dist: "distinct (map sn_id (db_snapshots d))" using assms(1) by (simp add: db_wf_def store_inv_def)
  let ?k = "(sn_root_path s, utc_year t, utc_month t)" let ?C = "candidates (monthly_bucket lo) (db_snapshots d)"
  have "monthly_bucket lo s = Some (?k, (t, sn_id s))" using assms(5,6) by (simp add: monthly_bucket_def)
  then have mem: "(?k, (t, sn_id s)) \<in> ?C" using assms(4) by (auto simp: candidates_def)
  have "?C = the ` (monthly_bucket lo ` set (db_snapshots d) - {None})" by (force simp: candidates_def)
  then have "finite ?C" by simp
  from best_exists[OF this mem] obtain b where b: "(?k, b) \<in> ?C" "\<forall>r'. (?k, r') \<in> ?C \<longrightarrow> r' \<le> b" by blast
  obtain s' where s': "s' \<in> set (db_snapshots d)" "monthly_bucket lo s' = Some (?k, b)" using b(1) by (auto simp: candidates_def)
  have "best_in_bucket (monthly_bucket lo) (db_snapshots d) s'"
    using s' b(2) by (auto simp: best_in_bucket_def list_all_iff candidates_def split: option.split)
  then have "s' \<in> set (db_snapshots x')"
    using s'(1) pruned_last_snapshots[OF dist x] orphan_facts(3)[OF orphan] by (simp add: retained_snapshot_def Let_def)
  moreover obtain t' where "is_complete s'" "finished_of lo s' = Some t'" "b = (t', sn_id s')" "sn_root_path s' = sn_root_path s"
    using s'(2) by (auto simp: monthly_bucket_def split: if_splits)
  moreover have "(t, sn_id s) \<le> b" using b(2) mem by blast
  ultimately show ?thesis using run orphan by fastforce
qed

subsection \<open>A concrete database\<close>

text \<open>
  Root \<open>/r\<close> with two complete snapshots of January and a failed one; the version of the only path
  lives through both complete ones.  The run is in June: the first complete snapshot and the failed
  one go, and the version is moved to the second.
\<close>

definition sample_db :: db where
  "sample_db = empty_db\<lparr>
     db_snapshots := map (\<lambda>(i, t, status).
       \<lparr> sn_id = i, sn_started_at = t, sn_finished_at = Some t, sn_root_path = ''/r'', sn_status = status, sn_notes = None,
         sn_error = None \<rparr>)
       [(1, ''2024-01-01T00:00:00Z'', ''complete''), (2, ''2024-01-05T00:00:00Z'', ''complete''), (3, ''2024-01-06T00:00:00Z'', ''failed'')],
     db_paths := [(1, ''/r''), (7, ''/r/gone'')],
     db_intervals := [\<lparr> iv_root_path = ''/r'', iv_path_id = 1, iv_valid_from = 1, iv_valid_to = None, iv_state =
       \<lparr> ag_parent_id = None, ag_depth = 0, ag_apparent_bytes = 5, ag_disk_bytes = 8, ag_file_count = 1, ag_dir_count = 0,
         ag_error = None, ag_hardlink_file_count = 0, ag_hardlink_duplicate_count = 0, ag_hardlink_duplicate_disk_bytes = 0,
         ag_hardlink_first_seen_disk_bytes = 0, ag_collapsed = 0, ag_collapse_reason = None, ag_collapsed_dirs = None,
         ag_top_child_id = None, ag_top_child_disk_bytes = None \<rparr> \<rparr>] \<rparr>"

definition sample_now :: instant where
  "sample_now = days_from_civil 2024 6 1 * day_us"

definition no_offset :: "int \<Rightarrow> int" where
  "no_offset t = 0"

lemma sample_facts:
  "db_wf sample_db" "refs_resolved sample_db" "make_policy 3 90 24 = Inr default_policy"
  "\<forall>row\<in>set (db_snapshots sample_db). row_readable no_offset row"
proof -
  show "db_wf sample_db" "refs_resolved sample_db"
    by (simp_all add: sample_db_def empty_db_def db_wf_def store_inv_def paths_ok_def ids_known_def snapshot_ids_def iv_nonempty_def
        refs_resolved_def path_refs_def state_path_refs_def)
  show "make_policy 3 90 24 = Inr default_policy" by (simp add: make_policy_def default_policy_def)
  have "parse_utc no_offset ''2024-01-01T00:00:00Z'' \<noteq> None" "parse_utc no_offset ''2024-01-05T00:00:00Z'' \<noteq> None"
    "parse_utc no_offset ''2024-01-06T00:00:00Z'' \<noteq> None" by code_simp+
  moreover have "''complete'' \<in> range status_value" "''failed'' \<in> range status_value"
    using rangeI[of status_value COMPLETE] rangeI[of status_value FAILED] by simp_all
  ultimately show "\<forall>row\<in>set (db_snapshots sample_db). row_readable no_offset row"
    by (simp add: sample_db_def row_readable_def)
qed

lemma sample_retained:
  "filter (retained_snapshot no_offset sample_now default_policy sample_db) (db_snapshots sample_db) = [db_snapshots sample_db ! 1]"
  by code_simp

theorem prune_keeps_retained_witness:
  "\<exists>res ds. prune_snapshots no_offset sample_now default_policy True sample_db = Inr (res, ds) \<and> ds \<noteq> []
    \<and> (\<forall>d'\<in>set ds. snapshot_state d' 2 = snapshot_state sample_db 2)"
proof -
  have "db_snapshots sample_db ! 1 \<in> set (filter (retained_snapshot no_offset sample_now default_policy sample_db) (db_snapshots sample_db))"
    unfolding sample_retained by simp
  then have "db_snapshots sample_db ! 1 \<in> set (db_snapshots sample_db)"
    "retained_snapshot no_offset sample_now default_policy sample_db (db_snapshots sample_db ! 1)" by simp_all
  moreover have "sn_id (db_snapshots sample_db ! 1) = 2" by (simp add: sample_db_def)
  ultimately show ?thesis
    using prune_keeps_retained[OF sample_facts, of sample_now True] by metis
qed

theorem prune_result_accounting_witness:
  "\<exists>res ds. prune_snapshots no_offset sample_now default_policy False sample_db = Inr (res, ds)
    \<and> map sn_id (db_snapshots (last ds)) = [2] \<and> pr_deleted_snapshot_count res = 2"
proof -
  have "length (db_snapshots sample_db) = 3" "sn_id (db_snapshots sample_db ! 1) = 2" by (simp_all add: sample_db_def)
  then show ?thesis
    using prune_result_accounting[OF sample_facts, of sample_now False] unfolding sample_retained by auto
qed

theorem prune_keeps_latest_witness:
  "\<exists>res ds s'. prune_snapshots no_offset sample_now default_policy True sample_db = Inr (res, ds)
    \<and> s' \<in> set (db_snapshots (last ds)) \<and> is_complete s' \<and> sn_root_path s' = ''/r''"
proof -
  let ?s = "db_snapshots sample_db ! 0"
  have s: "?s \<in> set (db_snapshots sample_db)" "is_complete ?s" "sn_root_path ?s = ''/r''"
    by (simp_all add: sample_db_def is_complete_def)
  have "finished_of no_offset ?s = Some (days_from_civil 2024 1 1 * day_us)" by code_simp
  from prune_keeps_latest[OF sample_facts(1,3,4) s(1,2) this, of sample_now True] show ?thesis
    unfolding s(3) by blast
qed

end
