(* ===== verification/Collect_Proofs.thy ===== *)
theory Collect_Proofs
  imports Collect Scanner_Proofs Retention_Prune
begin

text \<open>
  What a collection run leaves in the database.  The rows of a scan may be refused by the table, so
  the first lemmas read off what a successful insertion implies; then a snapshot that is finalized
  with any status, and the run of one root and of all roots.
\<close>

subsection \<open>Successful insertions\<close>

lemma insert_diagnostics_Inr:
  "fold_err insert_diagnostic d vs = Inr d' \<Longrightarrow> distinct (map diagnostic_key (db_diagnostics d)) \<Longrightarrow>
     d' = d\<lparr> db_diagnostics := db_diagnostics d @ vs \<rparr> \<and> distinct (map diagnostic_key (db_diagnostics d'))"
proof (induction vs arbitrary: d)
  case (Cons v vs)
  then obtain d1 where d1: "insert_diagnostic d v = Inr d1" "fold_err insert_diagnostic d1 vs = Inr d'"
    by (auto split: sum.splits)
  have "list_ex (\<lambda>w. dg_snapshot_id w = dg_snapshot_id v \<and> dg_path_id w = dg_path_id v) (db_diagnostics d)
      \<longleftrightarrow> diagnostic_key v \<in> diagnostic_key ` set (db_diagnostics d)"
    by (auto simp: list_ex_iff diagnostic_key_def image_iff) metis
  then have "d1 = d\<lparr> db_diagnostics := db_diagnostics d @ [v] \<rparr>" "diagnostic_key v \<notin> diagnostic_key ` set (db_diagnostics d)"
    using d1(1) by (simp_all add: insert_diagnostic_def split: if_splits)
  moreover from this have "distinct (map diagnostic_key (db_diagnostics d1))" using Cons.prems(2) by simp
  note ih = Cons.IH[OF d1(2) this]
  ultimately show ?case using ih[THEN conjunct1] ih[THEN conjunct2] by simp
qed simp

lemma insert_batches_Inr:
  assumes "insert_batches (cache, d) rows = Inr (cache', d')" and "resolving (cache, d)"
    and "db_diagnostics d = old @ done_vs" and "list_all2 (row_stored (db_paths d)) prev done_vs"
    and "distinct (map diagnostic_key (db_diagnostics d))"
  shows "\<exists>vs. list_all2 (row_stored (db_paths d')) (prev @ rows) (done_vs @ vs) \<and> paths_ok (db_paths d')
    \<and> distinct (map diagnostic_key (old @ done_vs @ vs))"
  using assms
proof (induction rows arbitrary: cache d prev done_vs rule: length_induct)
  case (1 rows)
  show ?case
  proof (cases "rows = []")
    case True
    then show ?thesis using "1.prems" by (auto simp: insert_batches.simps resolving_def intro!: exI[of _ "[]"])
  next
    case False
    let ?now = "take INSERT_BATCH_SIZE rows" let ?rest = "drop INSERT_BATCH_SIZE rows"
    obtain vs c1 d1 where bv: "batch_values (cache, d) ?now = (vs, c1, d1)" by (metis prod.exhaust)
    have b: "resolving (c1, d1)" "paths_grow d d1" "list_all2 (row_stored (db_paths d1)) ?now vs"
      using batch_values_ok[OF "1.prems"(2) bv] by simp_all
    have pv: "list_all2 (row_stored (db_paths d1)) (prev @ ?now) (done_vs @ vs)"
      using b(3) list_all2_stored_mono[OF "1.prems"(4) paths_growD(1)[OF b(2)]] by (simp add: list_all2_appendI)
    obtain d2 where d2: "fold_err insert_diagnostic d1 vs = Inr d2" "insert_batches (c1, d2) ?rest = Inr (cache', d')"
      using "1.prems"(1) False by (subst (asm) insert_batches.simps) (auto simp: bv split: sum.splits)
    have "distinct (map diagnostic_key (db_diagnostics d1))" using "1.prems"(5) paths_growD(3)[OF b(2)] by simp
    note e = insert_diagnostics_Inr[OF d2(1) this, THEN conjunct1] insert_diagnostics_Inr[OF d2(1) this, THEN conjunct2]
    have len: "length ?rest < length rows" using False by (simp add: INSERT_BATCH_SIZE_def)
    have "resolving (c1, d2)" "db_diagnostics d2 = old @ (done_vs @ vs)" "list_all2 (row_stored (db_paths d2)) (prev @ ?now) (done_vs @ vs)"
      using b(1) pv "1.prems"(3) paths_growD(3)[OF b(2)] by (simp_all add: e(1) resolving_def)
    then obtain ws where "list_all2 (row_stored (db_paths d')) ((prev @ ?now) @ ?rest) ((done_vs @ vs) @ ws)" "paths_ok (db_paths d')"
      "distinct (map diagnostic_key (old @ (done_vs @ vs) @ ws))"
      using "1.IH"[rule_format, OF len d2(2)] e(2) by blast
    then show ?thesis by (metis append.assoc append_take_drop_id)
  qed
qed

text \<open>Rows with different keys have different paths.\<close>

lemma stored_paths_distinct:
  assumes l: "list_all2 (row_stored ps) rows vs" and ok: "paths_ok ps" and dist: "distinct (map diagnostic_key vs)"
    and sid: "\<forall>row\<in>set rows. da_snapshot_id row = sid"
  shows "distinct (map da_path rows)"
  unfolding distinct_conv_nth
proof (intro allI impI)
  fix i j assume ij: "i < length (map da_path rows)" "j < length (map da_path rows)" "i \<noteq> j"
  have len: "length vs = length rows" using list_all2_lengthD[OF l] by simp
  have s: "row_stored ps (rows ! i) (vs ! i)" "row_stored ps (rows ! j) (vs ! j)" using list_all2_nthD[OF l] ij by simp_all
  have "diagnostic_key (vs ! i) \<noteq> diagnostic_key (vs ! j)" using dist ij len by (simp add: distinct_conv_nth)
  moreover have "dg_snapshot_id (vs ! i) = dg_snapshot_id (vs ! j)" using s sid ij by (simp add: row_stored_def)
  ultimately have "dg_path_id (vs ! i) \<noteq> dg_path_id (vs ! j)" by (auto simp: diagnostic_key_def)
  then show "map da_path rows ! i \<noteq> map da_path rows ! j"
    using s ij paths_ok_unique(2)[OF ok] by (auto simp: row_stored_def)
qed

lemma inserted_paths_distinct:
  assumes ins: "insert_directory_rows rows d = Inr d'" and ok: "paths_ok (db_paths d)"
    and keys: "distinct (map diagnostic_key (db_diagnostics d))" and sid: "\<forall>row\<in>set rows. da_snapshot_id row = sid"
  shows "distinct (map da_path rows)"
proof (cases "rows = []")
  case False
  then obtain cache' where b: "insert_batches ([], d) rows = Inr (cache', d')"
    using ins by (auto simp: insert_directory_rows_def map_sum_Inr)
  have "resolving ([], d)" using ok by (simp add: resolving_def cache_ok_def)
  then obtain vs where vs: "list_all2 (row_stored (db_paths d')) rows vs" "paths_ok (db_paths d')"
    "distinct (map diagnostic_key (db_diagnostics d @ vs))"
    using insert_batches_Inr[OF b, of "db_diagnostics d" "[]" "[]"] keys by auto
  then have "distinct (map diagnostic_key vs)" by simp
  then show ?thesis by (rule stored_paths_distinct[OF vs(1,2) _ sid])
qed simp

subsection \<open>Finalizing with any status\<close>

text \<open>
  A snapshot recorded on top of a database: it is the only new one, what was there reads as before
  (as a map from path ids), and the new one reads as the given rows.
\<close>

definition recorded :: "db \<Rightarrow> pathname \<Rightarrow> directory_aggregate list \<Rightarrow> snapshot_record \<Rightarrow> db \<Rightarrow> bool" where
  "recorded d r rows rec d' \<longleftrightarrow> db_wf d' \<and> sr_id rec \<notin> snapshot_ids d
     \<and> (\<exists>s. db_snapshots d' = db_snapshots d @ [s] \<and> sn_id s = sr_id rec \<and> sn_root_path s = r)
     \<and> (\<forall>i\<in>snapshot_ids d. map_of (snapshot_state d' i) = map_of (snapshot_state d i))
     \<and> (\<forall>p st. map_of (snapshot_state d' (sr_id rec)) p = Some st \<longleftrightarrow> (\<exists>row\<in>set rows. reads_row d' (sr_id rec) p st row))
     \<and> (\<forall>row\<in>set rows. \<exists>p st. map_of (snapshot_state d' (sr_id rec)) p = Some st \<and> reads_row d' (sr_id rec) p st row)"

lemma status_stored [simp]:
  "snapshot_status_from_storage (status_value s) (Some t) = Some s"
  by (simp add: snapshot_status_from_storage_def)

text \<open>The outcome of \<open>finalize_snapshot\<close> in the fields.\<close>

lemma finalize_fields:
  assumes "finalize_snapshot t sid status n e d = Inr (rec, d')" and "distinct (map sn_id (db_snapshots d'))"
  shows "sr_id rec = sid \<and> sr_status rec = status \<and> sr_notes rec = n \<and> sr_error rec = e \<and> sr_finished_at rec = Some t
    \<and> (\<exists>s\<in>set (db_snapshots d'). sn_id s = sid \<and> sn_root_path s = sr_root_path rec \<and> sn_status s = status_value status)"
proof -
  from assms(1) obtain d1 where d1: "(case find_snapshot (update_snapshot sid t status n e d1) sid of
      None \<Rightarrow> Inl (Snapshot_not_found sid)
    | Some s \<Rightarrow> map_sum id (\<lambda>r. (r, update_snapshot sid t status n e d1)) (snapshot_record_of s)) = Inr (rec, d')"
    unfolding finalize_snapshot_def case_sum_Inr Let_def by blast
  then obtain s where "find_snapshot (update_snapshot sid t status n e d1) sid = Some s"
    by (cases "find_snapshot (update_snapshot sid t status n e d1) sid") simp_all
  with d1 have s: "find_snapshot d' sid = Some s" "snapshot_record_of s = Inr rec" and d': "d' = update_snapshot sid t status n e d1"
    by (simp_all add: map_sum_Inr)
  have mem: "s \<in> set (db_snapshots d')" "sn_id s = sid" using find_snapshot_Some[OF s(1)] by auto
  define f where "f = (\<lambda>x :: snapshot_row. if sn_id x = sid
      then x\<lparr> sn_finished_at := Some t, sn_status := status_value status, sn_notes := n, sn_error := e \<rparr> else x)"
  have "db_snapshots d' = map f (db_snapshots d1)" unfolding d' update_snapshot_def f_def by simp
  then obtain x where "s = f x" using mem(1) by (metis imageE list.set_map)
  then have x: "s = (if sn_id x = sid
      then x\<lparr> sn_finished_at := Some t, sn_status := status_value status, sn_notes := n, sn_error := e \<rparr> else x)"
    by (simp only: f_def)
  have "sn_id x = sid" using x mem(2) by (cases "sn_id x = sid") simp_all
  then have "sn_finished_at s = Some t" "sn_status s = status_value status" "sn_notes s = n" "sn_error s = e"
    by (simp_all add: x)
  then show ?thesis using s(2) mem by (auto simp: snapshot_record_of_def)
qed

lemma recordedI:
  assumes wf: "db_wf d" and below: "snapshot_ids d \<subseteq> {..<sid}" and fd: "filled d sid r rows vs s d2"
    and d3: "db_wf d3" "db_paths d3 = db_paths d2" "db_snapshots d3 = db_snapshots d @ [s']" "sn_id s' = sid" "sn_root_path s' = r" "sr_id rec = sid"
    and ivs: "\<And>r' i. i \<in> snapshot_ids d \<Longrightarrow> state_at d3 r' i = state_at d r' i"
    and dgs: "\<And>i. i \<in> snapshot_ids d \<Longrightarrow> filter (\<lambda>dg. dg_snapshot_id dg = i) (db_diagnostics d3)
                = filter (\<lambda>dg. dg_snapshot_id dg = i) (db_diagnostics d)"
    and new: "\<And>p st. map_of (snapshot_state d3 sid) p = Some st
                \<longleftrightarrow> \<lparr> dg_snapshot_id = sid, dg_path_id = p, dg_state = st \<rparr> \<in> set vs"
  shows "recorded d r rows rec d3"
proof -
  have dist: "distinct (map sn_id (db_snapshots d3))" "distinct (map sn_id (db_snapshots d))"
    using d3(1) wf by (simp_all add: db_wf_def store_inv_def)
  have old: "map_of (snapshot_state d3 i) = map_of (snapshot_state d i)" if i: "i \<in> snapshot_ids d" for i
  proof -
    obtain x where x: "x \<in> set (db_snapshots d)" "sn_id x = i" using i by (auto simp: snapshot_ids_def)
    then have "x \<in> set (db_snapshots d3)" by (simp add: d3(3))
    from snapshot_state_eq[OF dist(1) this] snapshot_state_eq[OF dist(2) x(1)] show ?thesis
      using ivs[OF i, of "sn_root_path x"] dgs[OF i] by (simp add: x(2) state_at_def)
  qed
  have new': "map_of (snapshot_state d3 sid) p = Some st \<longleftrightarrow> (\<exists>row\<in>set rows. reads_row d3 sid p st row)" for p st
    unfolding new by (rule filled_reads[OF fd d3(2)])
  moreover have "\<exists>p st. map_of (snapshot_state d3 sid) p = Some st \<and> reads_row d3 sid p st row" if "row \<in> set rows" for row
    using filled_row_has_id[OF fd d3(2) that] new' that by blast
  ultimately show ?thesis using old d3(1,3-6) below by (auto simp: recorded_def)
qed

lemma update_filled:
  assumes "snapshot_ids d \<subseteq> {..<sid}" and "filled d sid r rows vs s d2"
  shows "\<exists>s'. db_snapshots (update_snapshot sid t status n e d2) = db_snapshots d @ [s'] \<and> sn_id s' = sid
    \<and> sn_root_path s' = r \<and> sn_status s' = status_value status \<and> sn_finished_at s' = Some t"
proof -
  let ?f = "\<lambda>s. if sn_id s = sid then s\<lparr> sn_finished_at := Some t, sn_status := status_value status, sn_notes := n, sn_error := e \<rparr> else s"
  have f: "db_snapshots d2 = db_snapshots d @ [s]" "sn_id s = sid" "sn_root_path s = r" using assms(2) by (simp_all add: filled_def)
  have "map ?f (db_snapshots d) = db_snapshots d" using assms(1) by (intro map_idI) (auto simp: snapshot_ids_def)
  then show ?thesis using f by (simp add: update_snapshot_def)
qed

lemma complete_recorded:
  assumes wf: "db_wf d" and below: "snapshot_ids d \<subseteq> {..<sid}" and fd: "filled d sid r rows vs s d2"
  shows "\<exists>rec d3. finalize_snapshot t sid COMPLETE n e d2 = Inr (rec, d3) \<and> sr_id rec = sid \<and> recorded d r rows rec d3"
proof -
  obtain rec d3 where d3: "finalize_snapshot t sid COMPLETE n e d2 = Inr (rec, d3)" "sr_id rec = sid" "db_wf d3"
    "db_paths d3 = db_paths d2" "db_snapshots d3 = db_snapshots (update_snapshot sid t COMPLETE n e d2)"
    "db_diagnostics d3 = db_diagnostics d"
    "\<And>r' i. i \<in> snapshot_ids d \<Longrightarrow> state_at d3 r' i = state_at d r' i"
    and at: "\<And>p st. state_at d3 r sid p = Some st \<longleftrightarrow> \<lparr> dg_snapshot_id = sid, dg_path_id = p, dg_state = st \<rparr> \<in> set vs"
    using complete_filled[OF wf below fd, of t n e] by blast
  obtain s' where s': "db_snapshots d3 = db_snapshots d @ [s']" "sn_id s' = sid" "sn_root_path s' = r" "sn_status s' = status_value COMPLETE"
    using update_filled[OF below fd] d3(5) by metis
  have "distinct (map sn_id (db_snapshots d3))" using d3(3) by (simp add: db_wf_def store_inv_def)
  from snapshot_state_eq[OF this, of s'] have "map_of (snapshot_state d3 sid) = state_at d3 r sid"
    using s' by (simp add: is_complete_def state_at_def)
  then have "recorded d r rows rec d3"
    by (intro recordedI[OF wf below fd d3(3,4) s'(1,2,3) d3(2,7)]) (simp_all add: d3(6) at)
  then show ?thesis using d3(1,2) by blast
qed

lemma incomplete_recorded:
  assumes wf: "db_wf d" and below: "snapshot_ids d \<subseteq> {..<sid}" and fd: "filled d sid r rows vs s d2" and st: "status \<noteq> COMPLETE"
  shows "\<exists>rec d3. finalize_snapshot t sid status n e d2 = Inr (rec, d3) \<and> sr_id rec = sid \<and> recorded d r rows rec d3"
proof -
  let ?d = "update_snapshot sid t status n e d2"
  note f = fd[unfolded filled_def] and ff = filled_facts[OF wf below fd]
  obtain s' where s': "db_snapshots ?d = db_snapshots d @ [s']" "sn_id s' = sid" "sn_root_path s' = r" "sn_status s' = status_value status"
    "sn_finished_at s' = Some t" using update_filled[OF below fd] by blast
  have ids: "map sn_id (db_snapshots ?d) = map sn_id (db_snapshots d2)" by (rule update_snapshot_same)
  then have "snapshot_ids ?d = snapshot_ids d2" unfolding snapshot_ids_def by (metis list.set_map)
  then have wf3: "db_wf ?d"
    using ff(1,4) f ids by (simp add: db_wf_def store_inv_def ids_known_def update_snapshot_same)
  then have dist: "distinct (map sn_id (db_snapshots ?d))" by (simp add: db_wf_def store_inv_def)
  have found: "find_snapshot ?d sid = Some s'"
    unfolding find_snapshot_def s'(1) by (rule find_snapshot_append[OF _ s'(2)]) (use below in \<open>auto simp: snapshot_ids_def\<close>)
  obtain rec where rec: "snapshot_record_of s' = Inr rec" "sr_id rec = sid"
    by (simp add: snapshot_record_of_def s')
  have fin: "finalize_snapshot t sid status n e d2 = Inr (rec, ?d)"
    by (simp add: finalize_snapshot_def st Let_def found rec)
  have old: "filter (\<lambda>dg. dg_snapshot_id dg = sid) (db_diagnostics d) = []" and all: "filter (\<lambda>dg. dg_snapshot_id dg = sid) vs = vs"
    using ff(5,6) by (auto simp: filter_empty_conv filter_id_conv)
  have "distinct (map fst (map (\<lambda>dg. (dg_path_id dg, dg_state dg)) vs))"
  proof -
    have "distinct (map diagnostic_key vs)" using f by blast
    moreover have "map diagnostic_key vs = map (Pair sid) (map dg_path_id vs)" using ff(5) by (simp add: diagnostic_key_def)
    ultimately show ?thesis by (auto simp: comp_def distinct_map inj_on_def)
  qed
  note mo = map_of_eq_Some_iff[OF this]
  have v: "v = \<lparr> dg_snapshot_id = sid, dg_path_id = dg_path_id v, dg_state = dg_state v \<rparr>" if "v \<in> set vs" for v
    using ff(5)[OF that] by simp
  have "map_of (map (\<lambda>dg. (dg_path_id dg, dg_state dg)) vs) p = Some st
      \<longleftrightarrow> \<lparr> dg_snapshot_id = sid, dg_path_id = p, dg_state = st \<rparr> \<in> set vs" for p st
  proof
    assume "map_of (map (\<lambda>dg. (dg_path_id dg, dg_state dg)) vs) p = Some st"
    then obtain v' where "v' \<in> set vs" "dg_path_id v' = p" "dg_state v' = st" unfolding mo by auto
    with v[OF this(1)] show "\<lparr> dg_snapshot_id = sid, dg_path_id = p, dg_state = st \<rparr> \<in> set vs" by metis
  next
    assume "\<lparr> dg_snapshot_id = sid, dg_path_id = p, dg_state = st \<rparr> \<in> set vs"
    then show "map_of (map (\<lambda>dg. (dg_path_id dg, dg_state dg)) vs) p = Some st" unfolding mo set_map by (rule rev_image_eqI) simp
  qed
  moreover have "status_value status \<noteq> ''complete''" using st status_value_inject[of status COMPLETE] by simp
  then have "snapshot_state ?d sid = map (\<lambda>dg. (dg_path_id dg, dg_state dg)) vs"
    using snapshot_state_eq[OF dist, of s'] s' f st old all by (simp add: is_complete_def update_snapshot_same)
  ultimately have "recorded d r rows rec ?d"
    using f ff(5) by (intro recordedI[OF wf below fd wf3 _ s'(1,2,3) rec(2)])
      (auto simp: update_snapshot_same state_at_def filter_empty_conv subset_iff dest: below[THEN subsetD])
  then show ?thesis using fin rec(2) by blast
qed

lemma recorded_wf: "recorded d r rows rec d' \<Longrightarrow> db_wf d' \<and> distinct (map sn_id (db_snapshots d'))"
  by (simp add: recorded_def db_wf_def store_inv_def)

lemma finalize_recorded:
  assumes "db_wf d" and "snapshot_ids d \<subseteq> {..<sid}" and "filled d sid r rows vs s d2"
  shows "\<exists>rec d3. finalize_snapshot t sid status n e d2 = Inr (rec, d3) \<and> sr_id rec = sid \<and> sr_status rec = status
    \<and> recorded d r rows rec d3"
proof -
  obtain rec d3 where f: "finalize_snapshot t sid status n e d2 = Inr (rec, d3)" "recorded d r rows rec d3"
    using complete_recorded[OF assms, of t n e] incomplete_recorded[OF assms, of status t n e] by (cases "status = COMPLETE") auto
  then show ?thesis using finalize_fields[OF f(1)] recorded_wf[OF f(2)] by blast
qed

subsection \<open>One root\<close>

lemma filled_other_tables:
  "filled d sid r rows vs s d2 \<Longrightarrow> filled d sid r rows vs s (d2\<lparr> db_filesystems := fs \<rparr>)"
  "filled d sid r rows vs s d2 \<Longrightarrow> filled d sid r rows vs s (d2\<lparr> db_mounts := ms \<rparr>)"
  by (simp_all add: filled_def)

lemma filled_filesystems:
  "insert_snapshot_filesystems t us d2 = Inr d3 \<Longrightarrow> filled d sid r rows vs s d2 \<Longrightarrow> filled d sid r rows vs s d3"
  by (auto simp: insert_snapshot_filesystems_def filled_other_tables split: if_splits)

lemma filled_mounts:
  "insert_snapshot_mounts i ms d2 = Inr d3 \<Longrightarrow> filled d sid r rows vs s d2 \<Longrightarrow> filled d sid r rows vs s d3"
  by (auto simp: insert_snapshot_mounts_def filled_other_tables split: if_splits)

lemma persist_scan_recorded:
  assumes wf: "db_wf d" and cr: "create_snapshot now r notes d = (snap, d1)"
    and ok: "persist_scan env notes (sr_id snap) mounts usage result d1 = Inr (rec, d')"
  shows "sr_id rec = sr_id snap \<and> sr_status rec = sc_status result \<and> recorded d r (map (\<lambda>row. aggregate_entry row (sr_id snap)) (sc_rows result)) rec d'"
proof -
  let ?rows = "map (\<lambda>row. aggregate_entry row (sr_id snap)) (sc_rows result)"
  obtain d2 d3 d4 where steps: "insert_directory_rows ?rows d1 = Inr d2" "insert_snapshot_filesystems (cl_captured_at env) usage d2 = Inr d3"
    "insert_snapshot_mounts (sr_id snap) mounts d3 = Inr d4"
    "finalize_snapshot (cl_finished_at env) (sr_id snap) (sc_status result) notes (sc_fatal_error result) d4 = Inr (rec, d')"
    using ok unfolding persist_scan_def case_sum_Inr by blast
  have sid: "\<forall>row\<in>set ?rows. da_snapshot_id row = sr_id snap" by (simp add: aggregate_entry_def)
  have "db_paths d1 = db_paths d" "db_diagnostics d1 = db_diagnostics d" by (subst create_snapshot_facts(1)[OF cr], simp)+
  then have dist: "distinct (map da_path ?rows)"
    using inserted_paths_distinct[OF steps(1) _ _ sid] wf by (simp add: db_wf_def store_inv_def)
  note fill = fill_snapshot[OF wf cr sid dist]
  obtain vs s where "filled d (sr_id snap) r ?rows vs s d2" using fill(2) steps(1) by auto
  from filled_mounts[OF steps(3) filled_filesystems[OF steps(2) this]]
  show ?thesis using finalize_recorded[OF wf fill(1)] steps(4) by (metis Pair_inject sum.inject(2))
qed

lemma collect_attempt_recorded:
  assumes wf: "db_wf d" and cr: "create_snapshot now (cr_path r) notes d = (snap, d1)"
    and ok: "collect_attempt env cfg r notes (sr_id snap) d1 = Some (Inr (rec, n, d'))"
  obtains mounts result where "scan_root (cl_scan env) (scan_options_for cfg r mounts) = Some result" and "n = sc_row_count result"
    and "sr_id rec = sr_id snap" and "sr_status rec = sc_status result"
    and "recorded d (cr_path r) (map (\<lambda>row. aggregate_entry row (sr_id snap)) (sc_rows result)) rec d'"
proof -
  have "\<exists>mounts result usage. scan_root (cl_scan env) (scan_options_for cfg r mounts) = Some result \<and> n = sc_row_count result
      \<and> persist_scan env notes (sr_id snap) mounts usage result d1 = Inr (rec, d')"
    using ok unfolding collect_attempt_def Let_def
    by (auto split: sum.splits option.splits if_splits prod.splits)
  then show thesis using persist_scan_recorded[OF wf cr] that by blast
qed

lemma collect_single_root_recorded:
  assumes "db_wf d" and "collect_single_root env cfg notes r d = Some out"
  shows "\<exists>rec n d' rows. out = Inr (rec, n, d') \<and> recorded d (cr_path r) rows rec d' \<and> sr_status rec \<noteq> RUNNING
    \<and> (rows = [] \<and> sr_status rec = FAILED \<and> n = 0
        \<or> (\<exists>mounts result. scan_root (cl_scan env) (scan_options_for cfg r mounts) = Some result
             \<and> rows = map (\<lambda>row. aggregate_entry row (sr_id rec)) (sc_rows result) \<and> n = sc_row_count result
             \<and> sr_status rec = sc_status result))"
proof -
  obtain snap d1 where cr: "create_snapshot (cl_started_at env) (cr_path r) notes d = (snap, d1)" by fastforce
  note out = assms(2)[unfolded collect_single_root_def cr prod.case]
  show ?thesis
  proof (cases "collect_attempt env cfg r notes (sr_id snap) d1")
    case None
    then show ?thesis using out by simp
  next
    case (Some a)
    show ?thesis
    proof (cases a)
      case (Inl message)
      have e: "insert_directory_rows [] d1 = Inr d1" by (simp add: insert_directory_rows_def)
      note fill = fill_snapshot[OF assms(1) cr, of "[]", simplified]
      from fill(2) e obtain vs s where "filled d (sr_id snap) (cr_path r) [] vs s d1" by auto
      from finalize_recorded[OF assms(1) fill(1) this] obtain rec d' where
        "finalize_snapshot (cl_finished_at env) (sr_id snap) FAILED notes (Some message) d1 = Inr (rec, d')"
        "sr_status rec = FAILED" "recorded d (cr_path r) [] rec d'" by blast
      then show ?thesis using out by (intro exI[of _ rec] exI[of _ 0] exI[of _ d'] exI[of _ "[]"]) (simp add: Some Inl)
    next
      case (Inr t)
      obtain rec n d' where t: "t = (rec, n, d')" by (metis prod.exhaust)
      from collect_attempt_recorded[OF assms(1) cr Some[unfolded Inr t]] obtain mounts result where
        res: "scan_root (cl_scan env) (scan_options_for cfg r mounts) = Some result" "n = sc_row_count result"
        "sr_id rec = sr_id snap" "sr_status rec = sc_status result"
        "recorded d (cr_path r) (map (\<lambda>row. aggregate_entry row (sr_id snap)) (sc_rows result)) rec d'" .
      have "sc_status result \<noteq> RUNNING" by (rule scan_root_cases[OF res(1)]) (auto simp: make_scan_result_def)
      with out res(2-) show ?thesis
        by (intro exI[of _ rec] exI[of _ n] exI[of _ d'] exI[of _ "map (\<lambda>row. aggregate_entry row (sr_id rec)) (sc_rows result)"])
          (auto simp: Some Inr t intro!: exI[of _ mounts] exI[of _ result] res(1))
    qed
  qed
qed

subsection \<open>All roots\<close>

text \<open>A collection run is the recording of one snapshot per root, in the order of the configuration.\<close>

inductive recorded_runs :: "db \<Rightarrow> pathname list \<Rightarrow> snapshot_record list \<Rightarrow> db \<Rightarrow> bool" where
  no_roots: "recorded_runs d [] [] d"
| one_root: "recorded d r rows rec d1 \<Longrightarrow> sr_status rec \<noteq> RUNNING \<Longrightarrow> recorded_runs d1 rs recs d'
    \<Longrightarrow> recorded_runs d (r # rs) (rec # recs) d'"

lemma recorded_ids: "recorded d r rows rec d' \<Longrightarrow> snapshot_ids d' = insert (sr_id rec) (snapshot_ids d)"
  by (auto simp: recorded_def snapshot_ids_def)

lemma recorded_old: "recorded d r rows rec d' \<Longrightarrow> i \<in> snapshot_ids d \<Longrightarrow> map_of (snapshot_state d' i) = map_of (snapshot_state d i)"
  by (simp add: recorded_def)

lemma recorded_runs_facts:
  "recorded_runs d rs recs d' \<Longrightarrow> db_wf d \<Longrightarrow> db_wf d' \<and> (\<forall>rec\<in>set recs. sr_status rec \<noteq> RUNNING)
    \<and> (\<exists>new. db_snapshots d' = db_snapshots d @ new \<and> map sn_root_path new = rs \<and> map sn_id new = map sr_id recs)
    \<and> (\<forall>i\<in>snapshot_ids d. map_of (snapshot_state d' i) = map_of (snapshot_state d i))"
proof (induction rule: recorded_runs.induct)
  case (one_root d r rows rec d1 rs recs d')
  have wf1: "db_wf d1" using recorded_wf[OF one_root.hyps(1)] by blast
  note ih = one_root.IH[OF wf1]
  obtain s new where "db_snapshots d1 = db_snapshots d @ [s]" "sn_id s = sr_id rec" "sn_root_path s = r"
    "db_snapshots d' = db_snapshots d1 @ new" "map sn_root_path new = rs" "map sn_id new = map sr_id recs"
    using one_root.hyps(1) ih by (auto simp: recorded_def)
  then have "db_snapshots d' = db_snapshots d @ (s # new) \<and> map sn_root_path (s # new) = r # rs \<and> map sn_id (s # new) = map sr_id (rec # recs)"
    by simp
  moreover have "map_of (snapshot_state d' i) = map_of (snapshot_state d i)" if "i \<in> snapshot_ids d" for i
    using that ih recorded_old[OF one_root.hyps(1)] recorded_ids[OF one_root.hyps(1)] by simp
  ultimately show ?case using ih one_root.hyps(2) by (metis set_ConsD)
qed (simp add: exI[of _ "[]"])

lemma collect_roots_recorded:
  "collect_roots env cfg notes rs d = Some out \<Longrightarrow> db_wf d \<Longrightarrow>
    \<exists>recs d'. out = Inr (recs, if \<forall>x\<in>set recs. sr_status (fst x) = COMPLETE then 0 else 1, d')
      \<and> recorded_runs d (map cr_path rs) (map fst recs) d'"
proof (induction rs arbitrary: d out)
  case Nil
  then show ?case by (intro exI[of _ "[]"] exI[of _ d]) (simp add: no_roots)
next
  case (Cons r rs)
  then obtain o1 where o1: "collect_single_root (env r) cfg notes r d = Some o1" by (cases "collect_single_root (env r) cfg notes r d") auto
  from collect_single_root_recorded[OF Cons.prems(2) o1] obtain rec n d1 rows where
    one: "o1 = Inr (rec, n, d1)" "recorded d (cr_path r) rows rec d1" "sr_status rec \<noteq> RUNNING" by blast
  obtain o2 where o2: "collect_roots env cfg notes rs d1 = Some o2"
    using Cons.prems(1) o1 one(1) by (cases "collect_roots env cfg notes rs d1") simp_all
  have "db_wf d1" using recorded_wf[OF one(2)] by blast
  from Cons.IH[OF o2 this] obtain recs d' where
    later: "o2 = Inr (recs, if \<forall>x\<in>set recs. sr_status (fst x) = COMPLETE then 0 else 1, d')"
    "recorded_runs d1 (map cr_path rs) (map fst recs) d'" by blast
  have "recorded_runs d (map cr_path (r # rs)) (map fst ((rec, n) # recs)) d'"
    using recorded_runs.one_root[OF one(2,3) later(2)] by simp
  then show ?case using Cons.prems(1) o1 one(1) o2 later(1)
    by (intro exI[of _ "(rec, n) # recs"] exI[of _ d']) (auto split: if_splits)
qed

subsection \<open>Properties\<close>

text \<open>
  C10: Whatever happens during the collection of a root, an unreadable mount table, a missing mount, a
  failed write or a scan with errors, if the scan ends then the run ends without an error of its own:
  exactly one snapshot has been added, of this root and no longer running; every older snapshot reads
  as it did; and the new one reads either as the rows of the scan, with the scan's status, or, when
  the attempt was given up, as nothing, with the status failed.
\<close>

theorem collect_single_root_outcome:
  assumes "db_wf d" and "collect_single_root env cfg notes r d = Some out"
  shows "\<exists>rec n d' rows. out = Inr (rec, n, d') \<and> recorded d (cr_path r) rows rec d' \<and> sr_status rec \<noteq> RUNNING
    \<and> (rows = [] \<and> sr_status rec = FAILED \<and> n = 0
        \<or> (\<exists>mounts result. scan_root (cl_scan env) (scan_options_for cfg r mounts) = Some result
             \<and> rows = map (\<lambda>row. aggregate_entry row (sr_id rec)) (sc_rows result) \<and> n = sc_row_count result
             \<and> sr_status rec = sc_status result))"
  by (rule collect_single_root_recorded[OF assms])

text \<open>
  C26: A run over all roots never stops at a bad root.  If every scan ends, each root of the
  configuration has got one snapshot, in order and no longer running, every older snapshot reads as
  before, and the exit code is 0 exactly if all the new snapshots are complete, and 1 otherwise.
\<close>

theorem collect_roots_outcome:
  assumes "db_wf d" and "collect_roots env cfg notes rs d = Some out"
  shows "\<exists>recs code d' new. out = Inr (recs, code, d') \<and> db_wf d' \<and> db_snapshots d' = db_snapshots d @ new
    \<and> map sn_root_path new = map cr_path rs \<and> map sn_id new = map (\<lambda>(rec, _). sr_id rec) recs
    \<and> (\<forall>(rec, _)\<in>set recs. sr_status rec \<noteq> RUNNING)
    \<and> code = (if \<forall>(rec, _)\<in>set recs. sr_status rec = COMPLETE then 0 else 1)
    \<and> (\<forall>i\<in>snapshot_ids d. map_of (snapshot_state d' i) = map_of (snapshot_state d i))"
proof -
  from collect_roots_recorded[OF assms(2,1)] obtain recs d' where
    out: "out = Inr (recs, if \<forall>x\<in>set recs. sr_status (fst x) = COMPLETE then 0 else 1, d')"
    and runs: "recorded_runs d (map cr_path rs) (map fst recs) d'" by blast
  from recorded_runs_facts[OF runs assms(1)] obtain new where "db_wf d'" "\<forall>rec\<in>set (map fst recs). sr_status rec \<noteq> RUNNING"
    "db_snapshots d' = db_snapshots d @ new" "map sn_root_path new = map cr_path rs" "map sn_id new = map sr_id (map fst recs)"
    "\<forall>i\<in>snapshot_ids d. map_of (snapshot_state d' i) = map_of (snapshot_state d i)" by blast
  then show ?thesis using out
    by (intro exI[of _ recs] exI[of _ "if \<forall>x\<in>set recs. sr_status (fst x) = COMPLETE then 0 else 1"] exI[of _ d'] exI[of _ new])
      (simp add: case_prod_beta comp_def)
qed

text \<open>Two roots, one of them unreadable.\<close>

definition sample_collect :: "configured_root \<Rightarrow> collect_env" where
  "sample_collect r =
     \<lparr> cl_started_at = ''t0'', cl_captured_at = ''t1'', cl_finished_at = ''t2'',
       cl_mountinfo = Inr [], cl_mountinfo_again = Inl ''unused'',
       cl_probe = \<lparr> pb_is_mount = True, pb_is_symlink = False, pb_stat = Inr (1, 2) \<rparr>,
       cl_probe_again = \<lparr> pb_is_mount = True, pb_is_symlink = False, pb_stat = Inr (1, 2) \<rparr>,
       cl_statvfs = (\<lambda>_. Inl ''no answer''),
       cl_scan = \<lparr> env_stat = (\<lambda>p. Inr \<lparr> st_mode = 16877, st_ino = 2, st_dev = 1, st_nlink = 1, st_size = 10, st_blocks = 8 \<rparr>),
         env_scandir = (\<lambda>p. if p = ''/a'' then Inr []
            else Inl \<lparr> oe_class = PermissionError, oe_strerror = Some ''Permission denied'', oe_text = [] \<rparr>),
         env_is_symlink = (\<lambda>p. False), env_expanduser = id, env_absolute = id, env_resolve = id \<rparr>,
       cl_mount_error_text = (\<lambda>_. ''bad mount table''), cl_db_error_text = (\<lambda>_. ''database error'') \<rparr>"

definition sample_watch :: watch_config where
  "sample_watch =
     \<lparr> wc_roots = [\<lparr> cr_path = ''/a'', cr_require_mount = False \<rparr>, \<lparr> cr_path = ''/b'', cr_require_mount = False \<rparr>],
       wc_exclude_paths = [],
       wc_mount_policy = \<lparr> mp_skipped_filesystems = {}, mp_included_filesystems = {}, mp_skip_overlay = True,
         mp_skip_namespace = True, mp_one_filesystem = True \<rparr>,
       wc_collapse_policy = \<lparr> cp_names = {}, cp_fan_out = 500, cp_descendants = 10000, cp_never = [] \<rparr> \<rparr>"

lemma sample_runs:
  "map_option (map_sum id (\<lambda>(recs, code, _). (map (sr_status \<circ> fst) recs, code)))
     (collect_roots sample_collect sample_watch None (wc_roots sample_watch) empty_db) = Some (Inr ([COMPLETE, FAILED], 1))"
  by code_simp

lemma collect_first_root:
  "collect_roots env cfg notes (r # rs) d \<noteq> None \<Longrightarrow> collect_single_root (env r) cfg notes r d \<noteq> None"
  by (auto split: option.splits)

theorem collect_single_root_outcome_witness:
  "\<exists>out. collect_single_root (sample_collect (hd (wc_roots sample_watch))) sample_watch None (hd (wc_roots sample_watch)) empty_db
      = Some out \<and> (\<exists>rec n d' rows. out = Inr (rec, n, d') \<and> recorded empty_db ''/a'' rows rec d' \<and> sr_status rec \<noteq> RUNNING)"
proof -
  obtain out where out: "collect_single_root (sample_collect (hd (wc_roots sample_watch))) sample_watch None
      (hd (wc_roots sample_watch)) empty_db = Some out"
    using collect_first_root[of sample_collect sample_watch None "hd (wc_roots sample_watch)" "tl (wc_roots sample_watch)" empty_db]
      map_option_eq_Some[THEN iffD1, OF sample_runs] by (auto simp: sample_watch_def)
  have "cr_path (hd (wc_roots sample_watch)) = ''/a''" by (simp add: sample_watch_def)
  with collect_single_root_outcome[OF empty_db_wf out] out show ?thesis by metis
qed

theorem collect_roots_outcome_witness:
  "\<exists>recs d' new. collect_roots sample_collect sample_watch None (wc_roots sample_watch) empty_db = Some (Inr (recs, 1, d'))
     \<and> map (\<lambda>(rec, _). sr_status rec) recs = [COMPLETE, FAILED] \<and> db_snapshots d' = new \<and> map sn_root_path new = [''/a'', ''/b'']"
proof -
  obtain out where out: "collect_roots sample_collect sample_watch None (wc_roots sample_watch) empty_db = Some out"
    "map_sum id (\<lambda>(recs, code, _). (map (sr_status \<circ> fst) recs, code)) out = Inr ([COMPLETE, FAILED], 1)"
    using map_option_eq_Some[THEN iffD1, OF sample_runs] by blast
  obtain recs code d' new where r: "out = Inr (recs, code, d')" "db_snapshots d' = db_snapshots empty_db @ new"
    "map sn_root_path new = map cr_path (wc_roots sample_watch)"
    using collect_roots_outcome[OF empty_db_wf out(1)] by blast
  then have "code = 1" "map (\<lambda>(rec, _). sr_status rec) recs = [COMPLETE, FAILED]"
    using out(2) by (auto simp: comp_def case_prod_beta)
  then show ?thesis using out(1) r by (simp add: empty_db_def sample_watch_def)
qed

definition interrupted :: "string \<Rightarrow> string \<Rightarrow> int list \<Rightarrow> snapshot_row \<Rightarrow> snapshot_row" where
  "interrupted now message active s = (if sn_id s \<in> set active
     then s\<lparr> sn_finished_at := Some now, sn_status := status_value FAILED, sn_notes := None, sn_error := Some message \<rparr> else s)"

lemma update_interrupted:
  "update_snapshot sid now FAILED None (Some message) d = d\<lparr> db_snapshots := map (interrupted now message [sid]) (db_snapshots d) \<rparr>"
  by (simp add: update_snapshot_def interrupted_def)

lemma interrupted_twice: "interrupted now message as (interrupted now message [a] s) = interrupted now message (a # as) s"
  by (simp add: interrupted_def)

lemma interrupted_id [simp]: "sn_id (interrupted now message active s) = sn_id s"
  by (simp add: interrupted_def)

lemma finalize_failed:
  assumes "sid \<in> snapshot_ids d"
  shows "\<exists>rec. finalize_snapshot now sid FAILED None (Some message) d
    = Inr (rec, d\<lparr> db_snapshots := map (interrupted now message [sid]) (db_snapshots d) \<rparr>)"
proof -
  let ?d = "d\<lparr> db_snapshots := map (interrupted now message [sid]) (db_snapshots d) \<rparr>"
  have "find_snapshot ?d sid \<noteq> None" using assms by (auto simp: find_snapshot_def find_None_iff snapshot_ids_def)
  then obtain s where s: "find_snapshot ?d sid = Some s" by blast
  then have "s \<in> set (map (interrupted now message [sid]) (db_snapshots d))" "sn_id s = sid" using find_snapshot_Some[OF s] by simp_all
  then obtain x where "s = interrupted now message [sid] x" "sn_id x = sid" by (metis imageE interrupted_id list.set_map)
  then have "\<exists>rec. snapshot_record_of s = Inr rec"
    using status_stored[of FAILED now] by (simp add: interrupted_def snapshot_record_of_def del: status_stored)
  then show ?thesis using s by (auto simp: finalize_snapshot_def update_interrupted)
qed

text \<open>
  An interrupted run.  Finalizing the snapshots that were still open always succeeds: exactly
  these become failed, with the time and the message, and nothing else of the database changes.  The
  notes the user gave for the run are erased on the way, since the handler does not pass them.
\<close>

theorem interrupt_closes_open_snapshots:
  assumes "set active \<subseteq> snapshot_ids d"
  shows "finalize_interrupted now message active d
    = Inr (d\<lparr> db_snapshots := map (\<lambda>s. if sn_id s \<in> set active
        then s\<lparr> sn_finished_at := Some now, sn_status := status_value FAILED, sn_notes := None, sn_error := Some message \<rparr>
        else s) (db_snapshots d) \<rparr>)"
proof -
  have "finalize_interrupted now message active d = Inr (d\<lparr> db_snapshots := map (interrupted now message active) (db_snapshots d) \<rparr>)"
    using assms
  proof (induction active arbitrary: d)
    case Nil
    have "map (interrupted now message []) ss = ss" for ss by (rule map_idI) (simp add: interrupted_def)
    then show ?case by (simp add: finalize_interrupted_def)
  next
    case (Cons a as)
    let ?d = "d\<lparr> db_snapshots := map (interrupted now message [a]) (db_snapshots d) \<rparr>"
    obtain rec where fin: "finalize_snapshot now a FAILED None (Some message) d = Inr (rec, ?d)" using finalize_failed Cons.prems by fastforce
    have "snapshot_ids ?d = snapshot_ids d" by (simp add: snapshot_ids_def image_image)
    then have "finalize_interrupted now message as ?d = Inr (?d\<lparr> db_snapshots := map (interrupted now message as) (db_snapshots ?d) \<rparr>)"
      using Cons.prems by (intro Cons.IH) simp
    then show ?case by (simp add: finalize_interrupted_def fin interrupted_twice comp_def)
  qed
  then show ?thesis by (simp add: interrupted_def[abs_def])
qed

theorem interrupt_closes_open_snapshots_witness:
  "\<exists>d. finalize_interrupted ''t9'' ''collection interrupted by signal SIGINT'' [1]
       (snd (create_snapshot ''t0'' ''/r'' (Some ''before the upgrade'') empty_db)) = Inr d
     \<and> map sn_status (db_snapshots d) = [''failed''] \<and> map sn_notes (db_snapshots d) = [None]"
  using interrupt_closes_open_snapshots[of "[1]" "snd (create_snapshot ''t0'' ''/r'' (Some ''before the upgrade'') empty_db)"
    "''t9''" "''collection interrupted by signal SIGINT''"]
  by (simp add: snapshot_ids_def create_snapshot_def empty_db_def next_rowid_def Let_def)

text \<open>
  The estimate of the rows to come.  It is at least the number of rows of the root's latest
  complete snapshot, and it exceeds it by every version of another root that holds at that snapshot:
  the query joins the versions to the snapshot without comparing their roots.
\<close>

theorem row_estimate_counts_every_root:
  assumes "distinct (map sn_id (db_snapshots d))" and "latest_complete_id d r = Some sid"
    and "previous_row_count_for_root d r = Some n"
  shows "n = int (length (snapshot_state d sid))
    + int (length (filter (\<lambda>iv. iv_root_path iv \<noteq> r \<and> interval_holds (iv_root_path iv) sid iv) (db_intervals d)))"
proof -
  let ?ids = "map sn_id (filter (\<lambda>s. sn_root_path s = r \<and> sn_status s = status_value COMPLETE) (db_snapshots d))"
  have "?ids \<noteq> []" "sid = Max (set ?ids)" using assms(2) by (simp_all add: latest_complete_id_def Let_def split: if_splits)
  then have "sid \<in> set ?ids" using Max_in[of "set ?ids"] by (metis List.finite_set set_empty2)
  then obtain s where s: "s \<in> set (db_snapshots d)" "sn_id s = sid" "sn_root_path s = r" "is_complete s" by (auto simp: is_complete_def)
  have st: "length (snapshot_state d sid) = length (filter (interval_holds r sid) (db_intervals d))"
    using snapshot_state_eq[OF assms(1) s(1)] s by simp
  let ?h = "\<lambda>iv. iv_valid_from iv \<le> sid \<and> (case iv_valid_to iv of None \<Rightarrow> True | Some t \<Rightarrow> sid < t)"
  have "n = int (length (filter ?h (db_intervals d)))"
    using assms(2,3) by (simp add: previous_row_count_for_root_def Let_def split: if_splits)
  moreover have "length (filter ?h ivs) = length (filter (interval_holds r sid) ivs)
      + length (filter (\<lambda>iv. iv_root_path iv \<noteq> r \<and> interval_holds (iv_root_path iv) sid iv) ivs)" for ivs
    by (induction ivs) (auto simp: interval_holds_def)
  ultimately show ?thesis using st by simp
qed

text \<open>One complete snapshot of each of two roots, with one row and with two.\<close>

definition two_roots_db :: db where
  "two_roots_db = empty_db\<lparr>
     db_snapshots := map (\<lambda>(i, r). \<lparr> sn_id = i, sn_started_at = ''t0'', sn_finished_at = Some ''t1'', sn_root_path = r,
         sn_status = ''complete'', sn_notes = None, sn_error = None \<rparr>) [(1, ''/a''), (2, ''/b'')],
     db_paths := [(1, ''/a''), (2, ''/b''), (3, ''/b/c'')],
     db_intervals := map (\<lambda>(r, p, i). \<lparr> iv_root_path = r, iv_path_id = p, iv_valid_from = i, iv_valid_to = None,
         iv_state = iv_state (hd (db_intervals sample_db)) \<rparr>) [(''/a'', 1, 1), (''/b'', 2, 2), (''/b'', 3, 2)] \<rparr>"

theorem row_estimate_counts_every_root_witness:
  "previous_row_count_for_root two_roots_db ''/b'' = Some 3 \<and> length (snapshot_state two_roots_db 2) = 2"
proof -
  have d: "distinct (map sn_id (db_snapshots two_roots_db))" and l: "latest_complete_id two_roots_db ''/b'' = Some 2"
    and n: "previous_row_count_for_root two_roots_db ''/b'' = Some 3"
    by (simp_all add: two_roots_db_def latest_complete_id_def previous_row_count_for_root_def Let_def)
  have "length (filter (\<lambda>iv. iv_root_path iv \<noteq> ''/b'' \<and> interval_holds (iv_root_path iv) 2 iv) (db_intervals two_roots_db)) = 1"
    by (simp add: two_roots_db_def interval_holds_def)
  with row_estimate_counts_every_root[OF d l n] n show ?thesis by simp
qed

end
