(* ===== verification/Store_History.thy ===== *)
theory Store_History
  imports Collect_Proofs
begin

text \<open>
  Long histories.  The database shares the rows of unchanged directories between snapshots; what it
  stands for is \<open>versions\<close>, the plain list of its snapshots with their full contents.  Collecting
  appends to that list and pruning filters it (\<open>version_step\<close>), whatever that does to the intervals.
  \<open>versioned_store\<close> is the contract of such a store for its clients: every operation keeps the
  invariant, and whatever it does not drop reads as before.  Its lemmas say what holds after any
  sequence of operations; the interpretation is the interval store.
\<close>

subsection \<open>The contract\<close>

fun run_all :: "('op \<Rightarrow> 'db \<Rightarrow> 'db option) \<Rightarrow> 'op list \<Rightarrow> 'db \<Rightarrow> 'db option" where
  "run_all run [] d = Some d"
| "run_all run (opn # ops) d = (case run opn d of None \<Rightarrow> None | Some d' \<Rightarrow> run_all run ops d')"

fun dropped_by :: "('op \<Rightarrow> 'db \<Rightarrow> 'db option) \<Rightarrow> ('op \<Rightarrow> 'db \<Rightarrow> 'id set) \<Rightarrow> 'op list \<Rightarrow> 'db \<Rightarrow> 'id set" where
  "dropped_by run dropped [] d = {}"
| "dropped_by run dropped (opn # ops) d =
     dropped opn d \<union> (case run opn d of None \<Rightarrow> {} | Some d' \<Rightarrow> dropped_by run dropped ops d')"

locale versioned_store =
  fixes wf :: "'db \<Rightarrow> bool"
    and ids :: "'db \<Rightarrow> 'id set"
    and read :: "'db \<Rightarrow> 'id \<Rightarrow> 'v"
    and run :: "'op \<Rightarrow> 'db \<Rightarrow> 'db option"
    and dropped :: "'op \<Rightarrow> 'db \<Rightarrow> 'id set"
  assumes run_wf: "wf d \<Longrightarrow> run opn d = Some d' \<Longrightarrow> wf d'"
    and run_keeps: "wf d \<Longrightarrow> run opn d = Some d' \<Longrightarrow> i \<in> ids d \<Longrightarrow> i \<notin> dropped opn d \<Longrightarrow> i \<in> ids d' \<and> read d' i = read d i"
begin

lemma run_all_wf: "wf d \<Longrightarrow> run_all run ops d = Some d' \<Longrightarrow> wf d'"
  by (induction ops arbitrary: d) (auto split: option.splits dest: run_wf)

lemma run_all_reads:
  "wf d \<Longrightarrow> run_all run ops d = Some d' \<Longrightarrow> i \<in> ids d \<Longrightarrow> i \<notin> dropped_by run dropped ops d
     \<Longrightarrow> i \<in> ids d' \<and> read d' i = read d i"
proof (induction ops arbitrary: d)
  case (Cons opn ops)
  then obtain d1 where d1: "run opn d = Some d1" "run_all run ops d1 = Some d'" by (auto split: option.splits)
  have keep: "i \<in> ids d1 \<and> read d1 i = read d i" using run_keeps[OF Cons.prems(1) d1(1)] Cons.prems(3,4) by simp
  have "i \<notin> dropped_by run dropped ops d1" using Cons.prems(4) d1(1) by simp
  with Cons.IH[OF run_wf[OF Cons.prems(1) d1(1)] d1(2)] keep show ?case by simp
qed simp

end

subsection \<open>The operations\<close>

text \<open>One root of a \<open>collect\<close> run, and a \<open>prune\<close> run with its three windows.\<close>

datatype store_op =
    Collect_root collect_env watch_config "string option" configured_root
  | Prune_run "int \<Rightarrow> int" instant int int int bool

fun run_op :: "store_op \<Rightarrow> db \<Rightarrow> db option" where
  "run_op (Collect_root env cfg notes r) d =
     (case collect_single_root env cfg notes r d of Some (Inr (_, _, d')) \<Rightarrow> Some d' | _ \<Rightarrow> None)"
| "run_op (Prune_run lo now h dd inc do_commit) d =
     (case make_policy h dd inc of
        Inl _ \<Rightarrow> None
      | Inr p \<Rightarrow> (case prune_snapshots lo now p do_commit d of Inl _ \<Rightarrow> None | Inr (_, ds) \<Rightarrow> Some (last ds)))"

subsection \<open>What a database stands for\<close>

type_synonym version = "snapshot_row \<times> (int \<rightharpoonup> agg_state)"

definition versions :: "db \<Rightarrow> version list" where
  "versions d = map (\<lambda>s. (s, map_of (snapshot_state d (sn_id s)))) (db_snapshots d)"

definition version_kept :: "(int \<Rightarrow> int) \<Rightarrow> instant \<Rightarrow> retention_policy \<Rightarrow> version list \<Rightarrow> version \<Rightarrow> bool" where
  "version_kept lo now p vs v = retained_snapshot lo now p (empty_db\<lparr> db_snapshots := map fst vs \<rparr>) (fst v)"

inductive version_step :: "store_op \<Rightarrow> version list \<Rightarrow> version list \<Rightarrow> bool" where
  collected: "sn_id s \<notin> sn_id ` fst ` set vs \<Longrightarrow> sn_root_path s = cr_path r \<Longrightarrow>
    version_step (Collect_root env cfg notes r) vs (vs @ [(s, m)])"
| pruned: "make_policy h dd inc = Inr p \<Longrightarrow>
    version_step (Prune_run lo now h dd inc c) vs (filter (version_kept lo now p vs) vs)"

inductive_cases version_step_collect: "version_step (Collect_root env cfg notes r) vs vs'"
inductive_cases version_step_prune: "version_step (Prune_run lo now h dd inc c) vs vs'"

lemma versions_fst [simp]: "map fst (versions d) = db_snapshots d"
  by (simp add: versions_def comp_def)

lemma versions_ids: "sn_id ` fst ` set (versions d) = snapshot_ids d"
  by (metis image_set snapshot_ids_def versions_fst)

lemma version_kept_versions: "version_kept lo now p (versions d) (s, m) = retained_snapshot lo now p d s"
  unfolding version_kept_def by (simp add: retained_snapshot_def snapshots_by_id_def cong: if_cong)

subsection \<open>Pruning filters\<close>

lemma prune_readable:
  assumes pol: "make_policy h dd inc = Inr p" and run: "prune_snapshots lo now p c d = Inr out"
  shows "\<forall>row\<in>set (db_snapshots d). row_readable lo row"
proof (rule ccontr)
  assume "\<not> ?thesis"
  then have "\<not> (\<forall>row\<in>set (snapshots_by_id d). row_readable lo row)" by (simp add: snapshots_by_id_def)
  from fold_unreadable[OF this] obtain e where "select_retained_snapshot_ids lo now p d = Inl e"
    by (simp add: select_retained_snapshot_ids_def policy_windows[OF pol]) (metis sum.case(1))
  then show False using run by (simp add: prune_snapshots_def)
qed

lemma pruned_versions:
  assumes "db_wf d" and pol: "make_policy h dd inc = Inr p" and run: "prune_snapshots lo now p c d = Inr (res, ds)"
  shows "db_wf (last ds)" and "versions (last ds) = filter (version_kept lo now p (versions d)) (versions d)"
proof -
  let ?ret = "sorted_list_of_set (sn_id ` {row \<in> set (db_snapshots d). retained_snapshot lo now p d row})"
  let ?gone = "set (filter (\<lambda>i. i \<notin> set ?ret) (map sn_id (snapshots_by_id d)))"
  have dist: "distinct (map sn_id (db_snapshots d))" using assms(1) by (simp add: db_wf_def store_inv_def)
  have rd: "\<forall>row\<in>set (db_snapshots d). row_readable lo row" by (rule prune_readable[OF pol run])
  obtain ds' x n where "prune_snapshots lo now p c d
      = Inr (make_prune_result (map sn_id (snapshots_by_id d)) (filter (\<lambda>i. i \<notin> set ?ret) (map sn_id (snapshots_by_id d))) ?ret n,
             ds' @ [snd (delete_orphan_paths x)])" and ps: "pruned_state ?ret d ?gone x"
    by (rule prune_run[OF assms(1) pol rd, where now = now and c = c]) (rule that)
  then have last: "last ds = snd (delete_orphan_paths x)" using run by simp
  have ps': "pruned_state ?ret d ?gone (last ds)" unfolding last by (rule orphan_pruned[OF prod.collapse[symmetric] ps])
  have gone: "?gone \<inter> set ?ret = {}" by auto
  show wf: "db_wf (last ds)" by (rule pruned_wf[OF assms(1) ps' gone])
  have snaps: "db_snapshots (last ds) = filter (retained_snapshot lo now p d) (db_snapshots d)"
    by (rule pruned_last_snapshots[OF dist ps'])
  have read: "snapshot_state (last ds) (sn_id s) = snapshot_state d (sn_id s)"
    if "s \<in> set (filter (retained_snapshot lo now p d) (db_snapshots d))" for s
  proof -
    have s: "s \<in> set (db_snapshots d)" "retained_snapshot lo now p d s" using that by simp_all
    then have "sn_id s \<in> set ?ret" using retained_ids(1)[OF dist s(1)] by blast
    then show ?thesis using pruned_reads[OF assms(1) ps' gone s(1)] by blast
  qed
  have "versions (last ds) = map (\<lambda>s. (s, map_of (snapshot_state d (sn_id s)))) (filter (retained_snapshot lo now p d) (db_snapshots d))"
    unfolding versions_def snaps by (rule map_cong[OF refl]) (simp only: read)
  also have "\<dots> = filter (version_kept lo now p (versions d)) (versions d)"
  proof -
    have "filter (version_kept lo now p vs) (map (\<lambda>s. (s, m s)) ss)
        = map (\<lambda>s. (s, m s)) (filter (\<lambda>s. version_kept lo now p vs (s, m s)) ss)" for ss m vs
      by (induction ss) auto
    then show ?thesis unfolding versions_def[of d, symmetric] version_kept_versions by (simp add: versions_def version_kept_versions[unfolded versions_def])
  qed
  finally show "versions (last ds) = filter (version_kept lo now p (versions d)) (versions d)" .
qed

subsection \<open>Refinement\<close>

lemma recorded_versions:
  assumes "recorded d r rows rec d'"
  shows "\<exists>s m. versions d' = versions d @ [(s, m)] \<and> sn_id s = sr_id rec \<and> sn_root_path s = r \<and> sn_id s \<notin> snapshot_ids d"
proof -
  obtain s where s: "db_snapshots d' = db_snapshots d @ [s]" "sn_id s = sr_id rec" "sn_root_path s = r"
    using assms by (auto simp: recorded_def)
  have "map_of (snapshot_state d' (sn_id x)) = map_of (snapshot_state d (sn_id x))" if "x \<in> set (db_snapshots d)" for x
    using recorded_old[OF assms] that by (simp add: snapshot_ids_def)
  then have "versions d' = versions d @ [(s, map_of (snapshot_state d' (sn_id s)))]" by (simp add: versions_def s(1))
  then show ?thesis using s assms by (auto simp: recorded_def)
qed

lemma run_op_step:
  assumes "db_wf d" and "run_op opn d = Some d'"
  shows "db_wf d' \<and> version_step opn (versions d) (versions d')"
proof (cases opn)
  case (Collect_root env cfg nt r)
  then obtain out where out: "collect_single_root env cfg nt r d = Some out" and
    d': "(case out of Inr (_, _, d') \<Rightarrow> Some d' | _ \<Rightarrow> None) = Some d'" using assms(2) by (auto split: option.splits)
  from collect_single_root_recorded[OF assms(1) out] obtain rec n d'' rows where
    rec: "out = Inr (rec, n, d'')" "recorded d (cr_path r) rows rec d''" by blast
  then have rec: "recorded d (cr_path r) rows rec d'" using d' by simp
  from recorded_versions[OF rec] obtain s m where
    v: "versions d' = versions d @ [(s, m)]" "sn_root_path s = cr_path r" "sn_id s \<notin> sn_id ` fst ` set (versions d)"
    unfolding versions_ids by blast
  then show ?thesis using recorded_wf[OF rec] version_step.collected[OF v(3,2)] by (simp add: Collect_root)
next
  case (Prune_run lo now h dd inc c)
  then obtain p res ds where "make_policy h dd inc = Inr p" "prune_snapshots lo now p c d = Inr (res, ds)" "d' = last ds"
    using assms(2) by (auto split: sum.splits)
  then show ?thesis using pruned_versions[OF assms(1)] Prune_run by (auto intro!: version_step.pruned)
qed

text \<open>The snapshots an operation drops.\<close>

fun op_dropped :: "store_op \<Rightarrow> db \<Rightarrow> int set" where
  "op_dropped (Collect_root _ _ _ _) d = {}"
| "op_dropped (Prune_run lo now h dd inc _) d =
     {sn_id s | s. s \<in> set (db_snapshots d) \<and> (\<forall>p. make_policy h dd inc = Inr p \<longrightarrow> \<not> retained_snapshot lo now p d s)}"

definition read_snapshot :: "db \<Rightarrow> int \<Rightarrow> int \<rightharpoonup> agg_state" where
  "read_snapshot d i = map_of (snapshot_state d i)"

lemma read_versions: "(s, m) \<in> set (versions d) \<Longrightarrow> m = read_snapshot d (sn_id s)"
  by (auto simp: versions_def read_snapshot_def)

lemma versions_mem: "s \<in> set (db_snapshots d) \<Longrightarrow> (s, read_snapshot d (sn_id s)) \<in> set (versions d)"
  by (auto simp: versions_def read_snapshot_def)

lemma step_keeps:
  assumes "version_step opn (versions d) (versions d')" and s: "s \<in> set (db_snapshots d)" and "sn_id s \<notin> op_dropped opn d"
  shows "(s, read_snapshot d (sn_id s)) \<in> set (versions d')"
  using assms(1)
proof cases
  case (collected x r env cfg nt m)
  then show ?thesis using versions_mem[OF s] by simp
next
  case (pruned h dd inc p lo now c)
  have "retained_snapshot lo now p d s" using assms(3) s by (auto simp: pruned(1,3))
  then show ?thesis using versions_mem[OF s] by (simp add: pruned(2) version_kept_versions)
qed

interpretation intervals: versioned_store db_wf snapshot_ids read_snapshot run_op op_dropped
proof
  show "db_wf d'" if "db_wf d" "run_op opn d = Some d'" for opn d d' using run_op_step[OF that] by blast
next
  fix opn d d' i
  assume run: "db_wf d" "run_op opn d = Some d'" and i: "i \<in> snapshot_ids d" "i \<notin> op_dropped opn d"
  obtain s where s: "s \<in> set (db_snapshots d)" "sn_id s = i" using i(1) by (auto simp: snapshot_ids_def)
  from step_keeps[OF conjunct2[OF run_op_step[OF run]] s(1)] i(2) s(2)
  have "(s, read_snapshot d i) \<in> set (versions d')" by simp
  then show "i \<in> snapshot_ids d' \<and> read_snapshot d' i = read_snapshot d i"
    using read_versions s(2) versions_ids[of d'] by (metis fst_conv image_eqI)
qed

text \<open>
  C2: The interval store implements a list of full snapshots.  On a well-formed database every
  operation that succeeds leaves a well-formed one, and on the list of snapshots it stands for it acts
  as its specification: collecting a root appends one snapshot of that root with a new id, pruning
  keeps exactly the snapshots the policy retains, in order and with their contents.
\<close>

theorem store_refines_versions:
  assumes "db_wf d" and "run_op opn d = Some d'"
  shows "db_wf d' \<and> version_step opn (versions d) (versions d')"
  by (rule run_op_step[OF assms])

text \<open>
  C9: History does not change.  After any sequence of collections and prunings from a well-formed
  database, every snapshot that none of the prunings dropped is still there and reads as it did at
  the start.
\<close>

theorem history_stable:
  assumes "db_wf d" and "run_all run_op ops d = Some d'"
    and "i \<in> snapshot_ids d" and "i \<notin> dropped_by run_op op_dropped ops d"
  shows "db_wf d' \<and> i \<in> snapshot_ids d' \<and> map_of (snapshot_state d' i) = map_of (snapshot_state d i)"
  using intervals.run_all_wf[OF assms(1,2)] intervals.run_all_reads[OF assms] by (simp add: read_snapshot_def)

definition sample_ops :: "store_op list" where
  "sample_ops = [Prune_run no_offset sample_now 3 90 24 False]"

lemma sample_prune:
  "map_option (\<lambda>d. map sn_id (db_snapshots d)) (run_all run_op sample_ops sample_db) = Some [2]"
  by code_simp

theorem store_refines_versions_witness:
  "\<exists>d'. run_op (hd sample_ops) sample_db = Some d'
     \<and> version_step (Prune_run no_offset sample_now 3 90 24 False) (versions sample_db) (versions d')"
proof -
  obtain d' where "run_all run_op sample_ops sample_db = Some d'" using sample_prune by auto
  then have d': "run_op (Prune_run no_offset sample_now 3 90 24 False) sample_db = Some d'"
    unfolding sample_ops_def by (auto simp del: run_op.simps split: option.splits)
  from store_refines_versions[OF sample_facts(1) this] d' show ?thesis by (simp add: sample_ops_def del: run_op.simps)
qed

theorem history_stable_witness:
  "\<exists>d'. run_all run_op sample_ops sample_db = Some d' \<and> map sn_id (db_snapshots d') = [2]
     \<and> map_of (snapshot_state d' 2) = map_of (snapshot_state sample_db 2)"
proof -
  obtain d' where d': "run_all run_op sample_ops sample_db = Some d'" "map sn_id (db_snapshots d') = [2]"
    using sample_prune by auto
  let ?s = "db_snapshots sample_db ! 1"
  have s: "?s \<in> set (db_snapshots sample_db)" "sn_id ?s = 2" by (simp_all add: sample_db_def)
  have "?s \<in> set (filter (retained_snapshot no_offset sample_now default_policy sample_db) (db_snapshots sample_db))"
    unfolding sample_retained by simp
  then have kept: "retained_snapshot no_offset sample_now default_policy sample_db ?s" by simp
  have uniq: "t = ?s" if "t \<in> set (db_snapshots sample_db)" "sn_id t = 2" for t
    using that by (auto simp: sample_db_def)
  have "2 \<notin> op_dropped (Prune_run no_offset sample_now 3 90 24 False) sample_db"
  proof
    assume "2 \<in> op_dropped (Prune_run no_offset sample_now 3 90 24 False) sample_db"
    then obtain t where "t \<in> set (db_snapshots sample_db)" "sn_id t = 2" "\<not> retained_snapshot no_offset sample_now default_policy sample_db t"
      using sample_facts(3) unfolding op_dropped.simps mem_Collect_eq by metis
    then show False using uniq kept by blast
  qed
  then have "2 \<notin> dropped_by run_op op_dropped sample_ops sample_db"
    unfolding sample_ops_def dropped_by.simps by (auto simp del: run_op.simps op_dropped.simps split: option.split)
  moreover have "2 \<in> snapshot_ids sample_db" using imageI[OF s(1), of sn_id] s(2) by (simp only: snapshot_ids_def)
  ultimately have same: "map_of (snapshot_state d' 2) = map_of (snapshot_state sample_db 2)"
    by (rule history_stable[OF sample_facts(1) d'(1), THEN conjunct2, THEN conjunct2, rotated])
  show ?thesis by (rule exI[of _ d']) (rule conjI[OF d'(1) conjI[OF d'(2) same]])
qed

end
