(* ===== verification/Report_Base.thy ===== *)
theory Report_Base
  imports Store
begin

text \<open>
  What the reports share: their errors, the parts of Python text formatting their messages use, and
  the deduplication of warnings.  A \<open>ReportError\<close> is \<open>Report_error\<close> with its code and message (the
  context it carries for the JSON output repeats values of the message and is left out); any other
  exception a report lets escape is \<open>Uncaught\<close> with its class.
\<close>

datatype report_error = Report_error string string | Uncaught string

definition warn :: "string \<Rightarrow> string \<Rightarrow> bytes option \<Rightarrow> report_warning" where
  "warn code message path = \<lparr> rw_code = code, rw_message = message, rw_path = path \<rparr>"

text \<open>\<open>_dedupe_warnings\<close>: the first warning of each code and path.\<close>

definition dedupe_warnings :: "report_warning list \<Rightarrow> report_warning list" where
  "dedupe_warnings ws = dedupe_on (\<lambda>w. (rw_code w, rw_path w)) ws"

text \<open>\<open>repr\<close> of a text; characters above 126 are shown as they are.\<close>

definition repr_char :: "char \<Rightarrow> char \<Rightarrow> string" where
  "repr_char quote c =
     (let b = CHR 0x5C in
      if c = quote \<or> c = b then [b, c]
      else if c = CHR 0x0A then [b, CHR ''n''] else if c = CHR 0x0D then [b, CHR ''r''] else if c = CHR 0x09 then [b, CHR ''t'']
      else if (of_char c :: nat) < 32 \<or> (of_char c :: nat) = 127 then [b, CHR ''x''] @ hex_str [c] else [c])"

definition py_repr :: "string \<Rightarrow> string" where
  "py_repr s =
     (let q = (if CHR 0x27 \<in> set s \<and> CHR 0x22 \<notin> set s then CHR 0x22 else CHR 0x27)
      in q # concat (map (repr_char q) s) @ [q])"

text \<open>Digits with leading zeros.\<close>

definition zpad :: "nat \<Rightarrow> int \<Rightarrow> string" where
  "zpad n i = (let s = int_str i in replicate (n - length s) CHR ''0'' @ s)"

text \<open>\<open>f"{x:.3f}"\<close>: the nearest number of thousandths, the even one of two.\<close>

definition thousandths :: "real \<Rightarrow> int" where
  "thousandths x = (let n = \<lfloor>x * 1000\<rfloor>; rest = x * 1000 - of_int n
     in if rest > 1 / 2 \<or> (rest = 1 / 2 \<and> odd n) then n + 1 else n)"

definition fixed3 :: "real \<Rightarrow> string" where
  "fixed3 x = (let n = thousandths \<bar>x\<bar> in (if x < 0 then ''-'' else []) @ int_str (n div 1000) @ ''.'' @ zpad 3 (n mod 1000))"

text \<open>\<open>isoformat\<close> of an aware UTC time.\<close>

definition isoformat_utc :: "instant \<Rightarrow> string" where
  "isoformat_utc t =
     (let (y, mo, d) = civil_from_days (utc_day t);
          us = t mod day_us;
          frac = us mod second_us
      in zpad 4 y @ ''-'' @ zpad 2 mo @ ''-'' @ zpad 2 d @ ''T'' @ zpad 2 (us div hour_us)
         @ '':'' @ zpad 2 (us div (60 * second_us) mod 60) @ '':'' @ zpad 2 (us div second_us mod 60)
         @ (if frac = 0 then [] else ''.'' @ zpad 6 frac) @ ''+00:00'')"

text \<open>The earliest \<open>datetime\<close>; arithmetic below it raises \<open>OverflowError\<close>.\<close>

definition min_instant :: instant where
  "min_instant = days_from_civil 1 1 1 * day_us"

text \<open>\<open>setdefault(key, []).append(row)\<close> over the rows: the rows of each key, keys in order of appearance.\<close>

definition group_rows :: "('a \<Rightarrow> 'k) \<Rightarrow> 'a list \<Rightarrow> ('k \<times> 'a list) list" where
  "group_rows f rows = foldl (\<lambda>g r. AList.update (f r) (dict_get g (f r) [] @ [r]) g) [] rows"

lemma repr_examples: "py_repr ''it is'' = [CHR 0x27] @ ''it is'' @ [CHR 0x27]"
  "isoformat_utc (days_from_civil 2024 2 29 * day_us + 61 * second_us) = ''2024-02-29T00:01:01+00:00''"
  by code_simp+

lemma dedupe_warnings_distinct: "distinct (map (\<lambda>w. (rw_code w, rw_path w)) (dedupe_warnings ws))"
  unfolding dedupe_warnings_def by (rule dedupe_on_distinct)

lemma group_rows_props:
  "distinct (map fst (group_rows f rows)) \<and> map_of (group_rows f rows) k
     = (if k \<in> f ` set rows then Some (filter (\<lambda>r. f r = k) rows) else None)"
proof (induction rows rule: rev_induct)
  case Nil
  then show ?case by (simp add: group_rows_def)
next
  case (snoc r rows)
  let ?g = "group_rows f rows"
  have step: "group_rows f (rows @ [r]) = AList.update (f r) (dict_get ?g (f r) [] @ [r]) ?g" by (simp add: group_rows_def)
  have "distinct (map fst (group_rows f (rows @ [r])))" unfolding step using snoc by (simp add: distinct_update)
  moreover have "map_of (group_rows f (rows @ [r])) k
    = (if k \<in> f ` set (rows @ [r]) then Some (filter (\<lambda>x. f x = k) (rows @ [r])) else None)"
  proof (cases "k = f r")
    case True
    have "filter (\<lambda>x. f x = f r) rows = []" if "f r \<notin> f ` set rows" using that image_eqI[of "f r" f _ "set rows"] by (metis (mono_tags, lifting) filter_False)
    then show ?thesis unfolding step using snoc True by (auto simp: dict_simps dict_get_def)
  next
    case False
    then show ?thesis unfolding step using snoc by (auto simp: dict_simps)
  qed
  ultimately show ?case by blast
qed

lemma group_rows_mem:
  "(k, g) \<in> set (group_rows f rows) \<longleftrightarrow> k \<in> f ` set rows \<and> g = filter (\<lambda>r. f r = k) rows"
  using map_of_eq_Some_iff[OF conjunct1[OF group_rows_props], of f rows k g] conjunct2[OF group_rows_props, of f rows k] by (auto split: if_splits)

end
