(* ===== verification/Py_Float.thy ===== *)
theory Py_Float
  imports Py_Prelude
begin

text \<open>
  Floating point as a parameter: \<open>fl_round\<close> rounds an exact result to a double, and \<open>fl_sum\<close> is
  \<open>sum\<close> of a list of floats (which compensates for rounding errors in ways that depend on the Python
  version).  A float literal is the rounded decimal number; comparing an \<open>int\<close> with a \<open>float\<close> is
  exact, as in Python.
\<close>

subsection \<open>Operations\<close>

record float_ops =
  fl_round :: "real \<Rightarrow> real"
  fl_sum :: "real list \<Rightarrow> real"

text \<open>\<open>n * 0.75\<close> of an integer and a literal, and \<open>int(x)\<close>.\<close>

definition int_times :: "float_ops \<Rightarrow> int \<Rightarrow> real \<Rightarrow> real" where
  "int_times fl n q = fl_round fl (fl_round fl (of_int n) * fl_round fl q)"

definition trunc :: "real \<Rightarrow> int" where
  "trunc x = (if x < 0 then \<lceil>x\<rceil> else \<lfloor>x\<rfloor>)"

text \<open>Floats without rounding error.\<close>

definition exact_floats :: float_ops where
  "exact_floats = \<lparr> fl_round = (\<lambda>x. x), fl_sum = sum_list \<rparr>"

subsection \<open>Rounding\<close>

text \<open>
  What rounding to a double guarantees in the range that matters: a relative error of at most
  \<open>2 ^ -53\<close>.
\<close>

definition faithful_rounding :: "float_ops \<Rightarrow> bool" where
  "faithful_rounding fl \<longleftrightarrow> (\<forall>x. 1 / 2 ^ 64 \<le> x \<and> x \<le> 2 ^ 128 \<longrightarrow>
     x * (1 - 1 / 2 ^ 53) \<le> fl_round fl x \<and> fl_round fl x \<le> x * (1 + 1 / 2 ^ 53))"

text \<open>A product with a ratio at most a fraction below one lies strictly between zero and the number.\<close>

lemma int_times_ratio:
  assumes fl: "faithful_rounding fl" and n: "1 \<le> n" "n \<le> 2 ^ 64" and q: "1 / 10 \<le> q" "q \<le> 99 / 100"
  shows "0 < int_times fl n q" and "int_times fl n q \<le> of_int n"
proof -
  have e: "x / 2 \<le> fl_round fl x \<and> fl_round fl x \<le> x * (1 + 1 / 2 ^ 53)" if "1 / 2 ^ 64 \<le> x" "x \<le> 2 ^ 128" for x
  proof -
    have "0 \<le> x" using that(1) by (rule order_trans[rotated]) simp
    then have "x / 2 \<le> x * (1 - 1 / 2 ^ 53)" by simp
    then show ?thesis using fl that unfolding faithful_rounding_def by force
  qed
  let ?n = "fl_round fl (of_int n)" and ?q = "fl_round fl q"
  have n': "(1::real) \<le> of_int n" "of_int n \<le> (2::real) ^ 64" using n by (simp_all flip: of_int_le_iff)
  have rn: "of_int n / 2 \<le> ?n" "?n \<le> of_int n * (1 + 1 / 2 ^ 53)" using e[of "of_int n"] n' by auto
  have rq: "q / 2 \<le> ?q" "?q \<le> q * (1 + 1 / 2 ^ 53)" using e[of q] q by auto
  have low: "1 / 40 \<le> ?n * ?q"
    using mult_mono[of "1 / 2" ?n "1 / 20" ?q] rn(1) rq(1) n'(1) q(1) by simp
  have "?n * ?q \<le> (of_int n * (1 + 1 / 2 ^ 53)) * (q * (1 + 1 / 2 ^ 53))"
    using rn rq n' q low by (intro mult_mono) auto
  also have "\<dots> = of_int n * (q * (1 + 1 / 2 ^ 53) ^ 2)" by (simp add: power2_eq_square)
  also have "\<dots> \<le> of_int n * (99 / 100 * (1 + 1 / 2 ^ 53) ^ 2)" using q n'(1) by (intro mult_left_mono mult_right_mono) auto
  finally have up: "?n * ?q \<le> of_int n * (99 / 100 * (1 + 1 / 2 ^ 53) ^ 2)" .
  also have "\<dots> \<le> 2 ^ 64 * 1" using n' by (intro mult_mono) (simp_all add: power2_eq_square)
  finally have "?n * ?q \<le> 2 ^ 128" by simp
  with low have r: "(?n * ?q) / 2 \<le> int_times fl n q" "int_times fl n q \<le> ?n * ?q * (1 + 1 / 2 ^ 53)"
    using e[of "?n * ?q"] by (auto simp: int_times_def)
  show "0 < int_times fl n q" using r(1) low by linarith
  have "int_times fl n q \<le> of_int n * (99 / 100 * (1 + 1 / 2 ^ 53) ^ 2) * (1 + 1 / 2 ^ 53)"
    by (rule order_trans[OF r(2) mult_right_mono[OF up]]) simp
  also have "\<dots> = of_int n * (99 / 100 * (1 + 1 / 2 ^ 53) ^ 3)" by (simp add: power3_eq_cube power2_eq_square)
  also have "\<dots> \<le> of_int n * 1" using n'(1) by (intro mult_left_mono) (simp_all add: power3_eq_cube)
  finally show "int_times fl n q \<le> of_int n" by simp
qed

lemma exact_floats_faithful: "faithful_rounding exact_floats"
  by (auto simp: faithful_rounding_def exact_floats_def mult_left_le)

end
