(* ===== verification/Trends.thy ===== *)
theory Trends
  imports Report_Base Py_Float
begin

text \<open>
  Growth over many snapshots: \<open>reporting/trends.py\<close>, with the floating point of \<open>Py_Float\<close>.
\<close>

subsection \<open>Samples and metrics\<close>

datatype growth_shape =
    STEADY_GROWTH
  | ONE_TIME_JUMP
  | BURSTY_GROWTH
  | GROW_THEN_CLEAN
  | CURRENT_BURST_AFTER_LATEST_SNAPSHOT
  | STABLE_LARGE
  | UNKNOWN_INSUFFICIENT_SAMPLES

fun shape_value :: "growth_shape \<Rightarrow> string" where
  "shape_value STEADY_GROWTH = ''steady_growth''"
| "shape_value ONE_TIME_JUMP = ''one_time_jump''"
| "shape_value BURSTY_GROWTH = ''bursty_growth''"
| "shape_value GROW_THEN_CLEAN = ''grow_then_clean''"
| "shape_value CURRENT_BURST_AFTER_LATEST_SNAPSHOT = ''current_burst_after_latest_snapshot''"
| "shape_value STABLE_LARGE = ''stable_large''"
| "shape_value UNKNOWN_INSUFFICIENT_SAMPLES = ''unknown_insufficient_samples''"

record trend_sample =
  ts_snapshot_id :: int
  ts_finished_at :: instant
  ts_disk_bytes :: int
  ts_apparent_bytes :: int

record trend_metrics =
  tm_samples :: "trend_sample list"
  tm_start_disk_bytes :: "int option"
  tm_end_disk_bytes :: "int option"
  tm_net_disk_bytes_delta :: int
  tm_gross_positive_disk_bytes_delta :: int
  tm_gross_negative_disk_bytes_delta :: int
  tm_first_observed_at :: "instant option"
  tm_first_nonzero_at :: "instant option"
  tm_last_growth_at :: "instant option"
  tm_peak_disk_bytes :: "int option"
  tm_daily_slope_disk_bytes :: "real option"
  tm_volatility_disk_bytes :: real
  tm_sample_count :: int
  tm_missing_sample_count :: int
  tm_shape :: growth_shape

record path_trend =
  pt_root_path :: pathname
  pt_path :: bytes
  pt_path_bytes_hex :: string
  pt_parent_path :: "bytes option"
  pt_depth :: int
  pt_snapshot_ids :: "int list"
  pt_snapshot_statuses :: "string list"
  pt_metrics :: trend_metrics

record filesystem_pressure_trend =
  fp_storage_domain_key :: string
  fp_mount_point :: bytes
  fp_filesystem_type :: string
  fp_mount_source :: string
  fp_snapshot_ids :: "int list"
  fp_sample_count :: int
  fp_missing_sample_count :: int
  fp_start_used_bytes :: "int option"
  fp_end_used_bytes :: "int option"
  fp_used_bytes_delta :: "int option"
  fp_start_available_bytes :: "int option"
  fp_end_available_bytes :: "int option"
  fp_available_bytes_delta :: "int option"
  fp_capture_error_count :: int
  fp_latest_capture_error :: "string option"

record shape_inputs =
  sh_samples :: "trend_sample list"
  sh_deltas :: "int list"
  sh_gross_positive :: int
  sh_gross_negative :: int
  sh_net_delta :: int
  sh_peak_disk_bytes :: "int option"
  sh_material_delta :: int

record steady_growth_inputs =
  sg_positive_interval_count :: int
  sg_interval_count :: int
  sg_gross_positive :: int
  sg_gross_negative :: int
  sg_net_delta :: int
  sg_material_delta :: int

definition MIN_CLASSIFIABLE_SAMPLES :: nat where "MIN_CLASSIFIABLE_SAMPLES = 3"
definition STEADY_GROWTH_INTERVAL_RATIO :: real where "STEADY_GROWTH_INTERVAL_RATIO = 6 / 10"
definition NEGATIVE_TO_POSITIVE_STEADY_MAX_RATIO :: real where "NEGATIVE_TO_POSITIVE_STEADY_MAX_RATIO = 2 / 10"
definition ONE_TIME_JUMP_DOMINANCE_RATIO :: real where "ONE_TIME_JUMP_DOMINANCE_RATIO = 75 / 100"
definition GROW_THEN_CLEAN_NEGATIVE_RATIO :: real where "GROW_THEN_CLEAN_NEGATIVE_RATIO = 5 / 10"
definition MATERIAL_DELTA_FLOOR_BYTES :: int where "MATERIAL_DELTA_FLOOR_BYTES = 1"
definition MATERIAL_DELTA_CURRENT_RATIO :: real where "MATERIAL_DELTA_CURRENT_RATIO = 1 / 100"

subsection \<open>Analysis\<close>

fun disk_deltas :: "trend_sample list \<Rightarrow> int list" where
  "disk_deltas (a # b # rest) = (ts_disk_bytes b - ts_disk_bytes a) # disk_deltas (b # rest)"
| "disk_deltas _ = []"

definition missing_sample_count :: "int \<Rightarrow> int option \<Rightarrow> int" where
  "missing_sample_count sample_count expected =
     (case expected of None \<Rightarrow> 0 | Some e \<Rightarrow> max 0 (e - sample_count))"

definition material_delta_threshold :: "float_ops \<Rightarrow> int option \<Rightarrow> int" where
  "material_delta_threshold fl peak =
     (case peak of
        None \<Rightarrow> MATERIAL_DELTA_FLOOR_BYTES
      | Some p \<Rightarrow> max MATERIAL_DELTA_FLOOR_BYTES (trunc (int_times fl p MATERIAL_DELTA_CURRENT_RATIO)))"

definition first_nonzero_at :: "trend_sample list \<Rightarrow> instant option" where
  "first_nonzero_at samples = map_option ts_finished_at (List.find (\<lambda>s. ts_disk_bytes s > 0) samples)"

text \<open>The end of the last interval whose delta is at least the threshold.\<close>

definition last_growth_at :: "trend_sample list \<Rightarrow> int list \<Rightarrow> int \<Rightarrow> instant option" where
  "last_growth_at samples deltas material_delta =
     map_option (\<lambda>i. ts_finished_at (samples ! (i + 1)))
       (List.find (\<lambda>i. deltas ! i \<ge> material_delta) (rev [0 ..< length deltas]))"

definition daily_slope :: "float_ops \<Rightarrow> trend_sample list \<Rightarrow> real option" where
  "daily_slope fl samples =
     (if length samples < MIN_CLASSIFIABLE_SAMPLES then None
      else
        (let elapsed_seconds = fl_round fl (of_int (ts_finished_at (last samples) - ts_finished_at (hd samples)) / of_int second_us)
         in if elapsed_seconds \<le> 0 then None
            else Some (fl_round fl (fl_round fl (of_int (ts_disk_bytes (last samples) - ts_disk_bytes (hd samples)))
                         / fl_round fl (elapsed_seconds / 86400)))))"

definition volatility :: "float_ops \<Rightarrow> int list \<Rightarrow> real" where
  "volatility fl deltas =
     (if deltas = [] then 0
      else
        (let n = real (length deltas);
             mean = fl_round fl (of_int (sum_list deltas) / n);
             squares = map (\<lambda>d. fl_round fl ((fl_round fl (fl_round fl (of_int d) - mean)) ^ 2)) deltas;
             variance = fl_round fl (fl_sum fl squares / n)
         in fl_round fl (sqrt variance)))"

definition is_grow_then_clean :: "float_ops \<Rightarrow> int \<Rightarrow> int \<Rightarrow> int \<Rightarrow> int \<Rightarrow> int \<Rightarrow> bool" where
  "is_grow_then_clean fl gross_positive gross_negative net_delta peak_disk_bytes end_disk_bytes \<longleftrightarrow>
     gross_positive > 0
     \<and> of_int gross_negative \<ge> int_times fl gross_positive GROW_THEN_CLEAN_NEGATIVE_RATIO
     \<and> peak_disk_bytes > end_disk_bytes
     \<and> net_delta \<le> gross_positive - gross_negative"

definition max_default :: "int \<Rightarrow> int list \<Rightarrow> int" where
  "max_default dflt xs = (if xs = [] then dflt else Max (set xs))"

definition is_one_time_jump :: "float_ops \<Rightarrow> int list \<Rightarrow> int \<Rightarrow> bool" where
  "is_one_time_jump fl deltas gross_positive \<longleftrightarrow>
     gross_positive > 0
     \<and> of_int (max_default 0 (filter (\<lambda>d. d > 0) deltas)) \<ge> int_times fl gross_positive ONE_TIME_JUMP_DOMINANCE_RATIO"

definition is_steady_growth :: "float_ops \<Rightarrow> steady_growth_inputs \<Rightarrow> bool" where
  "is_steady_growth fl inputs \<longleftrightarrow>
     (if sg_interval_count inputs \<le> 0 \<or> sg_gross_positive inputs < sg_material_delta inputs
         \<or> sg_net_delta inputs < sg_material_delta inputs then False
      else if fl_round fl (of_int (sg_positive_interval_count inputs) / of_int (sg_interval_count inputs))
              < fl_round fl STEADY_GROWTH_INTERVAL_RATIO then False
      else of_int (sg_gross_negative inputs) \<le> int_times fl (sg_gross_positive inputs) NEGATIVE_TO_POSITIVE_STEADY_MAX_RATIO)"

definition classify_shape :: "float_ops \<Rightarrow> shape_inputs \<Rightarrow> growth_shape" where
  "classify_shape fl inputs =
     (case sh_peak_disk_bytes inputs of
        None \<Rightarrow> UNKNOWN_INSUFFICIENT_SAMPLES
      | Some peak \<Rightarrow>
          if length (sh_samples inputs) < MIN_CLASSIFIABLE_SAMPLES then UNKNOWN_INSUFFICIENT_SAMPLES
          else if sh_gross_positive inputs < sh_material_delta inputs \<and> sh_gross_negative inputs < sh_material_delta inputs
          then STABLE_LARGE
          else if is_grow_then_clean fl (sh_gross_positive inputs) (sh_gross_negative inputs) (sh_net_delta inputs) peak
                    (ts_disk_bytes (last (sh_samples inputs))) then GROW_THEN_CLEAN
          else if is_one_time_jump fl (sh_deltas inputs) (sh_gross_positive inputs) then ONE_TIME_JUMP
          else if is_steady_growth fl
                    \<lparr> sg_positive_interval_count = int (length (filter (\<lambda>d. d \<ge> sh_material_delta inputs) (sh_deltas inputs))),
                      sg_interval_count = int (length (sh_deltas inputs)), sg_gross_positive = sh_gross_positive inputs,
                      sg_gross_negative = sh_gross_negative inputs, sg_net_delta = sh_net_delta inputs,
                      sg_material_delta = sh_material_delta inputs \<rparr> then STEADY_GROWTH
          else if sh_gross_positive inputs \<ge> sh_material_delta inputs then BURSTY_GROWTH
          else STABLE_LARGE)"

definition analyze_trend :: "float_ops \<Rightarrow> trend_sample list \<Rightarrow> int option \<Rightarrow> trend_metrics" where
  "analyze_trend fl samples expected =
     (let ordered = sort_key (\<lambda>s. (ts_finished_at s, ts_snapshot_id s)) samples;
          sample_count = int (length ordered);
          first = (if ordered = [] then None else Some (hd ordered));
          start_bytes = map_option ts_disk_bytes first;
          end_bytes = (if ordered = [] then None else Some (ts_disk_bytes (last ordered)));
          deltas = disk_deltas ordered;
          gross_positive = sum_list (filter (\<lambda>d. d > 0) deltas);
          gross_negative = sum_list (map uminus (filter (\<lambda>d. d < 0) deltas));
          net_delta = (case (start_bytes, end_bytes) of (Some s, Some e) \<Rightarrow> e - s | _ \<Rightarrow> 0);
          peak = (if ordered = [] then None else Some (Max (set (map ts_disk_bytes ordered))));
          material_delta = material_delta_threshold fl peak
      in \<lparr> tm_samples = ordered, tm_start_disk_bytes = start_bytes, tm_end_disk_bytes = end_bytes,
           tm_net_disk_bytes_delta = net_delta, tm_gross_positive_disk_bytes_delta = gross_positive,
           tm_gross_negative_disk_bytes_delta = gross_negative, tm_first_observed_at = map_option ts_finished_at first,
           tm_first_nonzero_at = first_nonzero_at ordered, tm_last_growth_at = last_growth_at ordered deltas material_delta,
           tm_peak_disk_bytes = peak, tm_daily_slope_disk_bytes = daily_slope fl ordered,
           tm_volatility_disk_bytes = volatility fl deltas, tm_sample_count = sample_count,
           tm_missing_sample_count = missing_sample_count sample_count expected,
           tm_shape = classify_shape fl
             \<lparr> sh_samples = ordered, sh_deltas = deltas, sh_gross_positive = gross_positive,
               sh_gross_negative = gross_negative, sh_net_delta = net_delta, sh_peak_disk_bytes = peak,
               sh_material_delta = material_delta \<rparr> \<rparr>)"

subsection \<open>Sums of deltas\<close>

definition gross_up :: "int list \<Rightarrow> int" where "gross_up ds = sum_list (filter (\<lambda>d. d > 0) ds)"
definition gross_down :: "int list \<Rightarrow> int" where "gross_down ds = sum_list (map uminus (filter (\<lambda>d. d < 0) ds))"

lemma gross_difference: "sum_list ds = gross_up ds - gross_down ds"
  by (induction ds) (simp_all add: gross_up_def gross_down_def)

lemma gross_nonneg: "0 \<le> gross_up ds" "0 \<le> gross_down ds"
  by (induction ds) (simp_all add: gross_up_def gross_down_def)

lemma deltas_telescope: "samples \<noteq> [] \<Longrightarrow> sum_list (disk_deltas samples) = ts_disk_bytes (last samples) - ts_disk_bytes (hd samples)"
  by (induction samples rule: disk_deltas.induct) simp_all

lemma deltas_length: "length (disk_deltas samples) = length samples - 1"
  by (induction samples rule: disk_deltas.induct) simp_all

lemma deltas_nth: "i + 1 < length samples \<Longrightarrow> disk_deltas samples ! i = ts_disk_bytes (samples ! (i + 1)) - ts_disk_bytes (samples ! i)"
  by (induction samples arbitrary: i rule: disk_deltas.induct) (auto simp: nth_Cons split: nat.splits)

lemma threshold_pos: "1 \<le> material_delta_threshold fl peak"
  by (simp add: material_delta_threshold_def MATERIAL_DELTA_FLOOR_BYTES_def split: option.split)

subsection \<open>Analysis in terms of the ordered samples\<close>

definition ordered_samples :: "trend_sample list \<Rightarrow> trend_sample list" where
  "ordered_samples samples = sort_key (\<lambda>s. (ts_finished_at s, ts_snapshot_id s)) samples"

lemma ordered_facts [simp]:
  "set (ordered_samples samples) = set samples" "length (ordered_samples samples) = length samples"
  "ordered_samples samples = [] \<longleftrightarrow> samples = []"
  unfolding ordered_samples_def by (simp_all flip: length_0_conv)

abbreviation growth_deltas :: "trend_sample list \<Rightarrow> int list" where
  "growth_deltas samples \<equiv> disk_deltas (ordered_samples samples)"

definition growth_threshold :: "float_ops \<Rightarrow> trend_sample list \<Rightarrow> int" where
  "growth_threshold fl samples =
     material_delta_threshold fl (if samples = [] then None else Some (Max (ts_disk_bytes ` set samples)))"

lemma threshold_ge_1: "1 \<le> growth_threshold fl samples"
  by (simp add: growth_threshold_def threshold_pos)

lemma analyze_fields:
  fixes fl :: float_ops and expected :: "int option"
  assumes "samples \<noteq> []"
  defines "os \<equiv> ordered_samples samples" and "m \<equiv> analyze_trend fl samples expected"
  shows "tm_samples m = os" "tm_start_disk_bytes m = Some (ts_disk_bytes (hd os))" "tm_end_disk_bytes m = Some (ts_disk_bytes (last os))"
    "tm_net_disk_bytes_delta m = ts_disk_bytes (last os) - ts_disk_bytes (hd os)"
    "tm_gross_positive_disk_bytes_delta m = gross_up (disk_deltas os)"
    "tm_gross_negative_disk_bytes_delta m = gross_down (disk_deltas os)"
    "tm_peak_disk_bytes m = Some (Max (ts_disk_bytes ` set samples))"
    "tm_sample_count m = int (length samples)" "tm_missing_sample_count m = missing_sample_count (int (length samples)) expected"
    "tm_shape m = classify_shape fl \<lparr> sh_samples = os, sh_deltas = disk_deltas os, sh_gross_positive = gross_up (disk_deltas os),
       sh_gross_negative = gross_down (disk_deltas os), sh_net_delta = ts_disk_bytes (last os) - ts_disk_bytes (hd os),
       sh_peak_disk_bytes = Some (Max (ts_disk_bytes ` set samples)), sh_material_delta = growth_threshold fl samples \<rparr>"
  using assms
  by (simp_all add: analyze_trend_def Let_def flip: ordered_samples_def gross_up_def gross_down_def)
    (simp_all add: growth_threshold_def)

lemma shape_steps:
  fixes fl :: float_ops
  assumes "3 \<le> length samples"
  defines "ds \<equiv> growth_deltas samples" and "t \<equiv> growth_threshold fl samples"
  shows "tm_shape (analyze_trend fl samples expected) =
    (if gross_up ds < t \<and> gross_down ds < t then STABLE_LARGE
     else if is_grow_then_clean fl (gross_up ds) (gross_down ds) (gross_up ds - gross_down ds) (Max (ts_disk_bytes ` set samples))
               (ts_disk_bytes (last (ordered_samples samples))) then GROW_THEN_CLEAN
     else if is_one_time_jump fl ds (gross_up ds) then ONE_TIME_JUMP
     else if t \<le> gross_up ds
       then (if is_steady_growth fl \<lparr> sg_positive_interval_count = int (length (filter (\<lambda>d. d \<ge> t) ds)),
               sg_interval_count = int (length ds), sg_gross_positive = gross_up ds, sg_gross_negative = gross_down ds,
               sg_net_delta = gross_up ds - gross_down ds, sg_material_delta = t \<rparr> then STEADY_GROWTH else BURSTY_GROWTH)
     else STABLE_LARGE)"
proof -
  have ne: "samples \<noteq> []" using assms(1) by auto
  have net: "ts_disk_bytes (last (ordered_samples samples)) - ts_disk_bytes (hd (ordered_samples samples)) = gross_up ds - gross_down ds"
    using deltas_telescope[of "ordered_samples samples"] ne by (simp add: gross_difference ds_def)
  show ?thesis
    unfolding analyze_fields(10)[OF ne] classify_shape_def net ds_def[symmetric] t_def[symmetric]
    using assms(1) by (simp add: MIN_CLASSIFIABLE_SAMPLES_def is_steady_growth_def)
qed

subsection \<open>Properties\<close>

text \<open>
  The figures of a trend fit together.  The samples are those given, sorted by time; the net
  change is what grew minus what was freed, both not negative; the peak is the largest sample; and the
  samples seen and missing add up to those expected whenever no more were seen.
\<close>

theorem trend_accounting:
  assumes "samples \<noteq> []"
  shows "let m = analyze_trend fl samples expected in
    mset (tm_samples m) = mset samples \<and> sorted (map (\<lambda>s. (ts_finished_at s, ts_snapshot_id s)) (tm_samples m))
    \<and> tm_net_disk_bytes_delta m = tm_gross_positive_disk_bytes_delta m - tm_gross_negative_disk_bytes_delta m
    \<and> tm_net_disk_bytes_delta m = the (tm_end_disk_bytes m) - the (tm_start_disk_bytes m)
    \<and> 0 \<le> tm_gross_positive_disk_bytes_delta m \<and> 0 \<le> tm_gross_negative_disk_bytes_delta m
    \<and> (\<exists>p. tm_peak_disk_bytes m = Some p \<and> p \<in> ts_disk_bytes ` set samples \<and> (\<forall>s\<in>set samples. ts_disk_bytes s \<le> p))
    \<and> (case expected of None \<Rightarrow> tm_missing_sample_count m = 0
       | Some e \<Rightarrow> tm_missing_sample_count m = max 0 (e - tm_sample_count m))"
proof -
  have "ts_disk_bytes (last (ordered_samples samples)) - ts_disk_bytes (hd (ordered_samples samples))
      = gross_up (growth_deltas samples) - gross_down (growth_deltas samples)"
    using deltas_telescope[of "ordered_samples samples"] assms by (simp add: gross_difference)
  moreover have "Max (ts_disk_bytes ` set samples) \<in> ts_disk_bytes ` set samples" using assms by (intro Max_in) auto
  ultimately show ?thesis
    unfolding Let_def analyze_fields[OF assms]
    by (auto simp: gross_nonneg ordered_samples_def missing_sample_count_def split: option.split)
qed

text \<open>
  What the shapes mean.  Fewer than three samples, and only these, are unclassified.  Every
  growth shape needs growth, and steady or bursty growth at least the material threshold.  A path
  that never grows is called stable and large, however much it shrinks.  The shape for a burst after
  the latest snapshot is never the outcome of an analysis.
\<close>

theorem growth_shape_meaning:
  "(tm_shape (analyze_trend fl samples expected) = UNKNOWN_INSUFFICIENT_SAMPLES \<longleftrightarrow> length samples < 3)
   \<and> tm_shape (analyze_trend fl samples expected) \<noteq> CURRENT_BURST_AFTER_LATEST_SNAPSHOT
   \<and> (tm_shape (analyze_trend fl samples expected) \<in> {STEADY_GROWTH, ONE_TIME_JUMP, BURSTY_GROWTH, GROW_THEN_CLEAN} \<longrightarrow>
        0 < gross_up (growth_deltas samples))
   \<and> (tm_shape (analyze_trend fl samples expected) \<in> {STEADY_GROWTH, BURSTY_GROWTH} \<longrightarrow>
        growth_threshold fl samples \<le> gross_up (growth_deltas samples))
   \<and> (3 \<le> length samples \<longrightarrow> gross_up (growth_deltas samples) = 0 \<longrightarrow>
        tm_shape (analyze_trend fl samples expected) = STABLE_LARGE)"
proof (cases "3 \<le> length samples")
  case True
  note t = threshold_ge_1[of fl samples]
  show ?thesis
    unfolding shape_steps[OF True] using True t
    by (auto simp: is_grow_then_clean_def is_one_time_jump_def)
next
  case False
  have "tm_shape (analyze_trend fl samples expected) = UNKNOWN_INSUFFICIENT_SAMPLES"
  proof (cases "samples = []")
    case True
    then show ?thesis by (simp add: analyze_trend_def Let_def classify_shape_def)
  next
    case False
    then show ?thesis unfolding analyze_fields(10)[OF False] using \<open>\<not> 3 \<le> length samples\<close>
      by (simp add: classify_shape_def MIN_CLASSIFIABLE_SAMPLES_def)
  qed
  then show ?thesis using False by simp
qed

definition sample_trend :: "int list \<Rightarrow> trend_sample list" where
  "sample_trend bytes = map (\<lambda>(i, b). \<lparr> ts_snapshot_id = int i, ts_finished_at = int i * day_us, ts_disk_bytes = b,
     ts_apparent_bytes = b \<rparr>) (enumerate 0 bytes)"

theorem trend_accounting_witness:
  "tm_net_disk_bytes_delta (analyze_trend exact_floats (sample_trend [5, 9, 2]) (Some 4)) = -3
   \<and> tm_missing_sample_count (analyze_trend exact_floats (sample_trend [5, 9, 2]) (Some 4)) = 1"
proof -
  let ?m = "analyze_trend exact_floats (sample_trend [5, 9, 2]) (Some 4)"
  have ne: "sample_trend [5, 9, 2] \<noteq> []" by (simp add: sample_trend_def)
  have "ordered_samples (sample_trend [5, 9, 2]) = sample_trend [5, 9, 2]"
    by (simp add: ordered_samples_def sample_trend_def day_us_def hour_us_def second_us_def)
  then have "gross_up (growth_deltas (sample_trend [5, 9, 2])) = 4" "gross_down (growth_deltas (sample_trend [5, 9, 2])) = 7"
    by (simp_all add: sample_trend_def gross_up_def gross_down_def)
  moreover have "tm_sample_count (analyze_trend exact_floats (sample_trend [5, 9, 2]) (Some 4)) = 3"
    by (simp add: analyze_fields[OF ne]) (simp add: sample_trend_def)
  moreover have "tm_net_disk_bytes_delta ?m = tm_gross_positive_disk_bytes_delta ?m - tm_gross_negative_disk_bytes_delta ?m"
    "tm_missing_sample_count ?m = max 0 (4 - tm_sample_count ?m)"
    using trend_accounting[OF ne, of exact_floats "Some 4"] unfolding Let_def option.case by blast+
  ultimately show ?thesis by (simp add: analyze_fields(5,6)[OF ne])
qed

theorem growth_shape_meaning_witness:
  "tm_shape (analyze_trend exact_floats (sample_trend [1000000, 500000, 3]) None) = STABLE_LARGE"
proof -
  have "ordered_samples (sample_trend [1000000, 500000, 3]) = sample_trend [1000000, 500000, 3]"
    by (simp add: ordered_samples_def sample_trend_def day_us_def hour_us_def second_us_def)
  then have "gross_up (growth_deltas (sample_trend [1000000, 500000, 3])) = 0"
    by (simp add: sample_trend_def gross_up_def)
  moreover have "3 \<le> length (sample_trend [1000000, 500000, 3])" by (simp add: sample_trend_def)
  ultimately show ?thesis using growth_shape_meaning[of exact_floats "sample_trend [1000000, 500000, 3]" None] by blast
qed

text \<open>
  The analysis does not depend on the order in which the samples are read, as long as no two of
  them share both time and snapshot.
\<close>

theorem trend_order_irrelevant:
  assumes "mset samples = mset samples'" and "distinct (map (\<lambda>s. (ts_finished_at s, ts_snapshot_id s)) samples)"
  shows "analyze_trend fl samples expected = analyze_trend fl samples' expected"
proof -
  let ?k = "\<lambda>s. (ts_finished_at s, ts_snapshot_id s)"
  have sorts: "mset (sort_key ?k samples) = mset (sort_key ?k samples')" using assms(1) by simp
  have "mset (map ?k (sort_key ?k samples)) = mset (map ?k samples)" "mset (map ?k (sort_key ?k samples')) = mset (map ?k samples)"
    using assms(1) by simp_all
  from this[THEN mset_eq_imp_distinct_iff] assms(2)
  have dist: "distinct (map ?k (sort_key ?k samples))" and dist': "distinct (map ?k (sort_key ?k samples'))" by blast+
  have keys: "map ?k (sort_key ?k samples) = map ?k (sort_key ?k samples')"
    by (rule sorted_distinct_set_unique[OF _ dist _ dist']) (simp_all add: mset_eq_setD[OF assms(1)])
  have "inj_on ?k (set (sort_key ?k samples) \<union> set (sort_key ?k samples'))"
    using dist mset_eq_setD[OF sorts] by (simp add: distinct_map)
  from inj_on_map_eq_map[OF this] keys have "sort_key ?k samples = sort_key ?k samples'" by blast
  then show ?thesis unfolding analyze_trend_def by (simp only:)
qed

theorem trend_order_irrelevant_witness:
  "analyze_trend exact_floats (sample_trend [5, 9, 2]) None = analyze_trend exact_floats (rev (sample_trend [5, 9, 2])) None"
  by (rule trend_order_irrelevant) (simp_all add: sample_trend_def day_us_def hour_us_def second_us_def)

lemma single_gross:
  assumes "\<forall>d\<in>set ds. d = 0 \<or> d = g" and "0 < g" and "length (filter (\<lambda>d. d = g) ds) = 1"
  shows "gross_up ds = g" "gross_down ds = 0" "max_default 0 (filter (\<lambda>d. 0 < d) ds) = g"
proof -
  have f: "filter (\<lambda>d. 0 < d) ds = filter (\<lambda>d. d = g) ds" using assms(1,2) by (intro filter_cong) auto
  obtain x where "filter (\<lambda>d. d = g) ds = [x]" using assms(3) by (metis One_nat_def length_0_conv length_Suc_conv)
  moreover then have "x = g" by (metis (mono_tags, lifting) filter_eq_ConsD)
  ultimately have one: "filter (\<lambda>d. 0 < d) ds = [g]" using f by simp
  have "filter (\<lambda>d. d < 0) ds = []" using assms(1,2) by (auto simp: filter_empty_conv)
  then show "gross_up ds = g" "gross_down ds = 0" "max_default 0 (filter (\<lambda>d. 0 < d) ds) = g"
    by (simp_all add: gross_up_def gross_down_def one max_default_def)
qed

text \<open>
  A single jump is recognized.  If the samples stay the same except for one interval that grows by
  at least the material threshold, the shape is one-time jump, with any rounding of doubles and any
  jump up to \<open>2 ^ 64\<close> bytes.
\<close>

theorem single_jump_shape:
  assumes "faithful_rounding fl" and "3 \<le> length samples"
    and "\<forall>d\<in>set (growth_deltas samples). d = 0 \<or> d = g" and "length (filter (\<lambda>d. d = g) (growth_deltas samples)) = 1"
    and "growth_threshold fl samples \<le> g" and "g \<le> 2 ^ 64"
  shows "tm_shape (analyze_trend fl samples expected) = ONE_TIME_JUMP"
proof -
  have g: "1 \<le> g" using assms(5) threshold_ge_1[of fl samples] by linarith
  then have gg: "gross_up (growth_deltas samples) = g" "gross_down (growth_deltas samples) = 0"
    "max_default 0 (filter (\<lambda>d. 0 < d) (growth_deltas samples)) = g"
    using single_gross[OF assms(3) _ assms(4)] by simp_all
  have "\<not> is_grow_then_clean fl g 0 (g - 0) peak last_bytes" for peak last_bytes
    using int_times_ratio(1)[OF assms(1) g assms(6), of GROW_THEN_CLEAN_NEGATIVE_RATIO]
    by (simp add: is_grow_then_clean_def GROW_THEN_CLEAN_NEGATIVE_RATIO_def)
  moreover have "is_one_time_jump fl (growth_deltas samples) g"
    using int_times_ratio(2)[OF assms(1) g assms(6), of ONE_TIME_JUMP_DOMINANCE_RATIO] g
    by (simp add: is_one_time_jump_def ONE_TIME_JUMP_DOMINANCE_RATIO_def gg(3))
  ultimately show ?thesis unfolding shape_steps[OF assms(2)] gg using assms(5) by simp
qed

theorem single_jump_shape_witness:
  "tm_shape (analyze_trend exact_floats (sample_trend [10, 10, 900, 900]) None) = ONE_TIME_JUMP"
proof (rule single_jump_shape[where g = 890])
  show "faithful_rounding exact_floats" by (rule exact_floats_faithful)
  have o: "ordered_samples (sample_trend [10, 10, 900, 900]) = sample_trend [10, 10, 900, 900]"
    by (simp add: ordered_samples_def sample_trend_def day_us_def hour_us_def second_us_def)
  show "\<forall>d\<in>set (growth_deltas (sample_trend [10, 10, 900, 900])). d = 0 \<or> d = 890"
    "length (filter (\<lambda>d. d = 890) (growth_deltas (sample_trend [10, 10, 900, 900]))) = 1"
    unfolding o by (simp_all add: sample_trend_def)
  show "growth_threshold exact_floats (sample_trend [10, 10, 900, 900]) \<le> 890"
    by (simp add: growth_threshold_def material_delta_threshold_def sample_trend_def int_times_def exact_floats_def trunc_def
        MATERIAL_DELTA_FLOOR_BYTES_def MATERIAL_DELTA_CURRENT_RATIO_def)
qed (simp_all add: sample_trend_def)

end
