(* ===== verification/Frontier.thy ===== *)
theory Frontier
  imports Paths Py_Float Report_Base
begin

text \<open>
  The growth frontier of \<open>reporting/frontier.py\<close>: of all grown directories the few that explain the
  growth, and the breakdown of one directory.  A near-duplicate ancestor (one that a single descendant
  explains to 95%) is replaced by that descendant, and a directory below a much larger kept one is
  folded into it.
\<close>

definition FRONTIER_DOMINANCE_RATIO :: real where "FRONTIER_DOMINANCE_RATIO = 95 / 100"

subsection \<open>Candidates\<close>

type_synonym scope = "pathname \<times> int \<times> int"

definition row_scope :: "diff_row \<Rightarrow> scope" where
  "row_scope row = (dr_root_path row, dr_baseline_snapshot_id row, dr_current_snapshot_id row)"

definition is_candidate :: "diff_row \<Rightarrow> bool" where
  "is_candidate row \<longleftrightarrow> dr_classification row \<in> {''created'', ''grown''} \<and> dr_disk_bytes_delta row > 0"

definition positive_candidates :: "diff_row list \<Rightarrow> diff_row list" where
  "positive_candidates rows =
     sort_key (\<lambda>row. (- dr_disk_bytes_delta row, - dr_depth row, dr_root_path row, dr_baseline_snapshot_id row,
                       dr_current_snapshot_id row, dr_path row)) (filter is_candidate rows)"

subsection \<open>Ancestors a descendant explains\<close>

definition by_path :: "diff_row list \<Rightarrow> (bytes \<times> diff_row) list" where
  "by_path rows = dict_of (map (\<lambda>row. (dr_path row, row)) rows)"

definition dominate_ancestor ::
    "float_ops \<Rightarrow> (bytes \<times> diff_row) list \<Rightarrow> diff_row \<Rightarrow> (bytes \<times> diff_row) list \<Rightarrow> bytes \<Rightarrow> (bytes \<times> diff_row) list" where
  "dominate_ancestor fl candidate_by_path descendant best ancestor_path =
     (case map_of candidate_by_path ancestor_path of
        None \<Rightarrow> best
      | Some ancestor \<Rightarrow>
          if of_int (dr_disk_bytes_delta descendant) \<ge> int_times fl (dr_disk_bytes_delta ancestor) FRONTIER_DOMINANCE_RATIO
          then setdefault (dr_path ancestor) descendant best else best)"

definition dominated_ancestor_index ::
    "float_ops \<Rightarrow> diff_row list \<Rightarrow> bytes set \<times> (bytes \<times> int) list" where
  "dominated_ancestor_index fl scope_candidates =
     (let best = foldl (\<lambda>best descendant.
            foldl (dominate_ancestor fl (by_path scope_candidates) descendant) best (ancestors (dr_path descendant)))
            [] scope_candidates
      in (fst ` set best,
          foldl (\<lambda>counts (_, descendant). AList.update (dr_path descendant) (dict_get counts (dr_path descendant) 0 + 1) counts)
            [] best))"

subsection \<open>Descendants a kept directory covers\<close>

record frontier_state =
  fs_retained_by_path :: "(bytes \<times> diff_row) list"
  fs_retained_order :: "(bytes \<times> int) list"
  fs_retained_paths :: "bytes set"
  fs_suppressed :: "(bytes \<times> int) list"

definition suppressor_step ::
    "float_ops \<Rightarrow> frontier_state \<Rightarrow> diff_row \<Rightarrow> bytes option \<times> int option \<Rightarrow> bytes \<Rightarrow> bytes option \<times> int option" where
  "suppressor_step fl st candidate = (\<lambda>(best_path, best_order) ancestor_path.
     (case map_of (fs_retained_by_path st) ancestor_path of
        None \<Rightarrow> (best_path, best_order)
      | Some ancestor \<Rightarrow>
          if of_int (dr_disk_bytes_delta candidate) < int_times fl (dr_disk_bytes_delta ancestor) FRONTIER_DOMINANCE_RATIO
          then (let order = dict_get (fs_retained_order st) ancestor_path 0 in
                case best_order of
                  None \<Rightarrow> (Some ancestor_path, Some order)
                | Some b \<Rightarrow> if order < b then (Some ancestor_path, Some order) else (best_path, best_order))
          else (best_path, best_order)))"

definition first_retained_suppressing_ancestor :: "float_ops \<Rightarrow> frontier_state \<Rightarrow> diff_row \<Rightarrow> bytes option" where
  "first_retained_suppressing_ancestor fl st candidate =
     fst (foldl (suppressor_step fl st candidate) (None, None) (ancestors (dr_path candidate)))"

definition suppress_step :: "float_ops \<Rightarrow> frontier_state \<Rightarrow> int \<times> diff_row \<Rightarrow> frontier_state" where
  "suppress_step fl st = (\<lambda>(order, candidate).
     (case first_retained_suppressing_ancestor fl st candidate of
        Some suppressor \<Rightarrow>
          st\<lparr> fs_suppressed := AList.update suppressor (dict_get (fs_suppressed st) suppressor 0 + 1) (fs_suppressed st) \<rparr>
      | None \<Rightarrow>
          st\<lparr> fs_retained_by_path := AList.update (dr_path candidate) candidate (fs_retained_by_path st),
             fs_retained_order := AList.update (dr_path candidate) order (fs_retained_order st),
             fs_retained_paths := insert (dr_path candidate) (fs_retained_paths st) \<rparr>))"

definition empty_frontier_state :: frontier_state where
  "empty_frontier_state =
     \<lparr> fs_retained_by_path = [], fs_retained_order = [], fs_retained_paths = {}, fs_suppressed = [] \<rparr>"

definition suppressed_descendant_index :: "float_ops \<Rightarrow> diff_row list \<Rightarrow> (bytes \<times> int) list \<times> bytes set" where
  "suppressed_descendant_index fl surviving =
     (let st = foldl (suppress_step fl) empty_frontier_state (zip (map int [0 ..< length surviving]) surviving)
      in (fs_suppressed st, fs_retained_paths st))"

subsection \<open>The frontier\<close>

definition reason_for_counts :: "int \<Rightarrow> int \<Rightarrow> string" where
  "reason_for_counts descendants ancestors_count =
     (if ancestors_count \<noteq> 0 \<and> descendants \<noteq> 0 then ''dominates near-duplicate ancestors while hiding lower-signal descendants''
      else if ancestors_count \<noteq> 0 then ''dominates near-duplicate ancestors''
      else if descendants \<noteq> 0 then ''suppresses lower-signal descendants''
      else ''highest-signal growth target'')"

definition scope_frontier :: "float_ops \<Rightarrow> diff_row list \<Rightarrow> frontier_row list" where
  "scope_frontier fl scope_candidates =
     (let (dominated, ancestor_counts) = dominated_ancestor_index fl scope_candidates;
          surviving = filter (\<lambda>c. dr_path c \<notin> dominated) scope_candidates;
          (descendant_counts, retained_paths) = suppressed_descendant_index fl surviving
      in map (\<lambda>c. let d = dict_get descendant_counts (dr_path c) 0; a = dict_get ancestor_counts (dr_path c) 0 in
            \<lparr> fr_row = c, fr_suppressed_descendant_count = d, fr_suppressed_ancestor_count = a, fr_reason = reason_for_counts d a \<rparr>)
           (filter (\<lambda>c. dr_path c \<in> retained_paths) surviving))"

definition prune_growth_frontier :: "float_ops \<Rightarrow> diff_row list \<Rightarrow> frontier_row list" where
  "prune_growth_frontier fl rows =
     sort_key (\<lambda>e. (- dr_disk_bytes_delta (fr_row e), - dr_depth (fr_row e), dr_path (fr_row e)))
       (concat (map (\<lambda>(_, candidates). scope_frontier fl candidates) (group_rows row_scope (positive_candidates rows))))"

subsection \<open>Explaining one directory\<close>

definition explained_descendants :: "diff_row list \<Rightarrow> bytes \<Rightarrow> diff_row list" where
  "explained_descendants rows target_path =
     filter (\<lambda>row. dr_path row \<noteq> target_path \<and> dr_classification row \<noteq> ''unchanged'' \<and> is_ancestor_path target_path (dr_path row)) rows"

definition immediate_children :: "diff_row list \<Rightarrow> bytes \<Rightarrow> diff_row list" where
  "immediate_children descendants target_path =
     sort_key (\<lambda>row. (- dr_disk_bytes_delta row, - dr_apparent_bytes_delta row, dr_path row))
       (filter (\<lambda>row. dr_parent_path row = Some target_path) descendants)"

definition grandchildren :: "diff_row list \<Rightarrow> bytes \<Rightarrow> int \<Rightarrow> diff_row \<Rightarrow> diff_row list" where
  "grandchildren descendants target_path max_depth child =
     sort_key (\<lambda>row. (dr_depth row, dr_path row))
       (filter (\<lambda>row. dr_parent_path row \<noteq> Some target_path \<and> dr_depth row \<le> max_depth
                 \<and> is_ancestor_path (dr_path child) (dr_path row)) descendants)"

text \<open>The loop over the immediate children: the rows to show, and which of them are immediate.\<close>

fun explain_loop ::
    "(diff_row \<Rightarrow> diff_row list) \<Rightarrow> int \<Rightarrow> int \<Rightarrow> diff_row list \<Rightarrow> diff_row list \<times> diff_row list \<Rightarrow> diff_row list \<times> diff_row list" where
  "explain_loop deeper limit depth [] (rendered, shown) = (rendered, shown)"
| "explain_loop deeper limit depth (child # children) (rendered, shown) =
     (if int (length rendered) \<ge> limit then (rendered, shown)
      else
        (let shown = shown @ [child]; rendered = rendered @ [child]; remaining_slots = limit - int (length rendered) in
         if depth \<le> 1 \<or> remaining_slots \<le> 0 then explain_loop deeper limit depth children (rendered, shown)
         else explain_loop deeper limit depth children (rendered @ take (nat remaining_slots) (deeper child), shown)))"

text \<open>\<open>None\<close> is the \<open>StopIteration\<close> when no row has the path.\<close>

definition explain_path_breakdown :: "diff_row list \<Rightarrow> bytes \<Rightarrow> int \<Rightarrow> int \<Rightarrow> explain_path_result option" where
  "explain_path_breakdown rows target_path limit depth =
     (case List.find (\<lambda>row. dr_path row = target_path) rows of
        None \<Rightarrow> None
      | Some target \<Rightarrow>
          if depth = 0
          then Some \<lparr> ep_target = target, ep_children = [], ep_unshown_or_direct_disk_bytes_delta = dr_disk_bytes_delta target,
                      ep_unshown_or_direct_apparent_bytes_delta = dr_apparent_bytes_delta target, ep_warnings = [] \<rparr>
          else
            (let descendants = explained_descendants rows target_path;
                 (rendered, shown) = explain_loop (grandchildren descendants target_path (dr_depth target + depth)) limit depth
                                       (immediate_children descendants target_path) ([], [])
             in Some \<lparr> ep_target = target, ep_children = rendered,
                       ep_unshown_or_direct_disk_bytes_delta =
                         dr_disk_bytes_delta target - sum_list (map dr_disk_bytes_delta shown),
                       ep_unshown_or_direct_apparent_bytes_delta =
                         dr_apparent_bytes_delta target - sum_list (map dr_apparent_bytes_delta shown), ep_warnings = [] \<rparr>))"

end
