(* ===== verification/Frontier_Proofs.thy ===== *)
theory Frontier_Proofs
  imports Frontier Store_Proofs
begin

text \<open>
  What the frontier is: no two of its directories are nested, and every grown directory is on it or
  above or below one that is.
\<close>

subsection \<open>One scope\<close>

text \<open>The descendant \<open>d\<close> explains the ancestor \<open>a\<close>.\<close>

definition explains :: "float_ops \<Rightarrow> diff_row \<Rightarrow> diff_row \<Rightarrow> bool" where
  "explains fl d a \<longleftrightarrow> of_int (dr_disk_bytes_delta d) \<ge> int_times fl (dr_disk_bytes_delta a) FRONTIER_DOMINANCE_RATIO"

abbreviation below :: "diff_row \<Rightarrow> diff_row \<Rightarrow> bool" where
  "below d a \<equiv> dr_path a \<in> set (ancestors (dr_path d))"

lemma map_of_by_path:
  assumes "distinct (map dr_path cs)"
  shows "map_of (by_path cs) p = Some c \<longleftrightarrow> c \<in> set cs \<and> dr_path c = p"
proof -
  have "by_path cs = map (\<lambda>row. (dr_path row, row)) cs"
    unfolding by_path_def using assms by (intro dict_of_distinct) (simp add: comp_def)
  moreover have "distinct (map fst (map (\<lambda>row. (dr_path row, row)) cs))" using assms by (simp add: comp_def)
  from map_of_eq_Some_iff[OF this] have "map_of (map (\<lambda>row. (dr_path row, row)) cs) p = Some c
      \<longleftrightarrow> (p, c) \<in> set (map (\<lambda>row. (dr_path row, row)) cs)" .
  ultimately show ?thesis by auto
qed

lemma dominate_keys:
  assumes "distinct (map dr_path cs)"
  shows "fst ` set (foldl (dominate_ancestor fl (by_path cs) d) best as)
    = fst ` set best \<union> {a \<in> set as. \<exists>c\<in>set cs. dr_path c = a \<and> explains fl d c}"
proof (induction as arbitrary: best)
  case (Cons a as)
  have "fst ` set (dominate_ancestor fl (by_path cs) d best a)
      = fst ` set best \<union> {x. x = a \<and> (\<exists>c\<in>set cs. dr_path c = a \<and> explains fl d c)}"
  proof (cases "map_of (by_path cs) a")
    case None
    then have "\<forall>c\<in>set cs. dr_path c \<noteq> a" using map_of_by_path[OF assms] by (metis option.distinct(1))
    then show ?thesis using None by (auto simp: dominate_ancestor_def)
  next
    case (Some c)
    then have c: "c \<in> set cs" "dr_path c = a" using map_of_by_path[OF assms] by blast+
    then have "x = c" if "x \<in> set cs" "dr_path x = a" for x using that c assms by (metis distinct_map inj_onD)
    then have "(\<exists>x\<in>set cs. dr_path x = a \<and> explains fl d x) \<longleftrightarrow> explains fl d c" using c by blast
    then show ?thesis using c Some by (simp add: dominate_ancestor_def keys_setdefault explains_def)
  qed
  then show ?case using Cons[of "dominate_ancestor fl (by_path cs) d best a"] by auto
qed simp

lemma dominated_set:
  assumes "distinct (map dr_path cs)"
  shows "fst (dominated_ancestor_index fl cs) = {dr_path c | c. c \<in> set cs \<and> (\<exists>d\<in>set cs. below d c \<and> explains fl d c)}"
proof -
  have "fst ` set (foldl (\<lambda>best d. foldl (dominate_ancestor fl (by_path cs) d) best (ancestors (dr_path d))) best ds)
      = fst ` set best \<union> {dr_path c | c. c \<in> set cs \<and> (\<exists>d\<in>set ds. below d c \<and> explains fl d c)}" for best ds
  proof (induction ds arbitrary: best)
    case (Cons d ds)
    show ?case
      unfolding foldl_Cons Cons[of "foldl (dominate_ancestor fl (by_path cs) d) best (ancestors (dr_path d))"]
        dominate_keys[OF assms] by auto
  qed simp
  from this[of "[]" cs] show ?thesis by (simp add: dominated_ancestor_index_def Let_def)
qed

subsection \<open>The kept rows\<close>

fun kept_rows :: "float_ops \<Rightarrow> diff_row list \<Rightarrow> diff_row list \<Rightarrow> diff_row list" where
  "kept_rows fl kept [] = kept"
| "kept_rows fl kept (c # cs) =
     kept_rows fl (if \<exists>k\<in>set kept. below c k \<and> \<not> explains fl c k then kept else kept @ [c]) cs"

definition state_keeps :: "frontier_state \<Rightarrow> diff_row list \<Rightarrow> bool" where
  "state_keeps st kept \<longleftrightarrow> fs_retained_paths st = dr_path ` set kept
     \<and> (\<forall>p c. map_of (fs_retained_by_path st) p = Some c \<longleftrightarrow> c \<in> set kept \<and> dr_path c = p)"

lemma suppressor_fold:
  fixes fl :: float_ops and st :: frontier_state and c :: diff_row
  assumes "bp = None \<longleftrightarrow> bo = None"
  defines "S \<equiv> \<lambda>a. \<exists>k. map_of (fs_retained_by_path st) a = Some k \<and> \<not> explains fl c k"
  shows "fst (foldl (suppressor_step fl st c) (bp, bo) as) = None \<longleftrightarrow> bp = None \<and> (\<forall>a\<in>set as. \<not> S a)"
  using assms(1)
proof (induction as arbitrary: bp bo)
  case (Cons a as)
  obtain bp' bo' where step: "suppressor_step fl st c (bp, bo) a = (bp', bo')" by fastforce
  have "(bp' = None \<longleftrightarrow> bo' = None) \<and> (bp' = None \<longleftrightarrow> bp = None \<and> \<not> S a)"
    using step Cons.prems by (auto simp: suppressor_step_def S_def explains_def Let_def split: option.splits if_splits)
  then show ?case using Cons.IH[of bp' bo'] by (auto simp: step)
qed simp

lemma suppressor_None:
  assumes "state_keeps st kept"
  shows "first_retained_suppressing_ancestor fl st c = None \<longleftrightarrow> \<not> (\<exists>k\<in>set kept. below c k \<and> \<not> explains fl c k)"
  unfolding first_retained_suppressing_ancestor_def using suppressor_fold[of None None fl st c] assms
  by (auto simp: state_keeps_def)

lemma suppress_step_keeps:
  assumes keeps: "state_keeps st kept" and dist: "dr_path c \<notin> dr_path ` set kept"
  shows "state_keeps (suppress_step fl st (i, c)) (if \<exists>k\<in>set kept. below c k \<and> \<not> explains fl c k then kept else kept @ [c])"
proof (cases "first_retained_suppressing_ancestor fl st c")
  case None
  then have "\<not> (\<exists>k\<in>set kept. below c k \<and> \<not> explains fl c k)" using suppressor_None[OF keeps] by blast
  then show ?thesis using keeps None dist by (auto simp: state_keeps_def suppress_step_def dict_simps) (metis image_eqI)+
next
  case (Some p)
  then have "\<exists>k\<in>set kept. below c k \<and> \<not> explains fl c k" using suppressor_None[OF keeps, of fl c] by simp
  then show ?thesis using keeps Some by (simp add: state_keeps_def suppress_step_def)
qed

lemma kept_fold:
  assumes "state_keeps st kept" and "distinct (map dr_path (kept @ cs))" and "length is = length cs"
  shows "state_keeps (foldl (suppress_step fl) st (zip is cs)) (kept_rows fl kept cs)"
  using assms
proof (induction cs arbitrary: st kept "is")
  case (Cons c cs)
  obtain i is' where i: "is = i # is'" "length is' = length cs" using Cons.prems(3) by (cases "is") auto
  let ?kept = "if \<exists>k\<in>set kept. below c k \<and> \<not> explains fl c k then kept else kept @ [c]"
  have "state_keeps (suppress_step fl st (i, c)) ?kept" using suppress_step_keeps[OF Cons.prems(1)] Cons.prems(2) by simp
  moreover have "distinct (map dr_path (?kept @ cs))" using Cons.prems(2) by auto
  ultimately show ?case using Cons.IH[OF _ _ i(2)] by (simp add: i(1))
qed simp

lemma retained_paths_eq:
  assumes "distinct (map dr_path cs)"
  shows "snd (suppressed_descendant_index fl cs) = dr_path ` set (kept_rows fl [] cs)"
proof -
  have "state_keeps empty_frontier_state []" by (simp add: state_keeps_def empty_frontier_state_def)
  from kept_fold[OF this, of cs "map int [0..<length cs]" fl] assms show ?thesis
    by (simp add: suppressed_descendant_index_def Let_def state_keeps_def)
qed

lemma kept_rows_sub: "set (kept_rows fl kept cs) \<subseteq> set kept \<union> set cs"
proof (induction cs arbitrary: kept)
  case (Cons c cs)
  show ?case using Cons[of kept] Cons[of "kept @ [c]"] by auto
qed simp

lemma kept_rows_super: "set kept \<subseteq> set (kept_rows fl kept cs)"
proof (induction cs arbitrary: kept)
  case (Cons c cs)
  show ?case using Cons[of kept] Cons[of "kept @ [c]"] by auto
qed simp

lemma kept_rows_covers: "c \<in> set cs \<Longrightarrow> c \<in> set (kept_rows fl kept cs) \<or> (\<exists>k\<in>set (kept_rows fl kept cs). below c k)"
proof (induction cs arbitrary: kept)
  case (Cons x cs)
  let ?kept = "if \<exists>k\<in>set kept. below x k \<and> \<not> explains fl x k then kept else kept @ [x]"
  show ?case
  proof (cases "c = x")
    case True
    then have "c \<in> set ?kept \<or> (\<exists>k\<in>set ?kept. below c k)" by auto
    then show ?thesis unfolding kept_rows.simps using kept_rows_super[of ?kept fl cs] by blast
  next
    case False
    then show ?thesis using Cons.IH[of ?kept] Cons.prems by simp
  qed
qed simp

text \<open>A kept row is not folded into one that comes before it.\<close>

lemma kept_rows_sorted:
  assumes "sorted_wrt (\<lambda>k c. R k c) (kept @ cs)" and "sorted_wrt (\<lambda>k c. \<not> (below c k \<and> \<not> explains fl c k)) kept"
  shows "sorted_wrt (\<lambda>k c. R k c \<and> \<not> (below c k \<and> \<not> explains fl c k)) (kept_rows fl kept cs)"
  using assms
proof (induction cs arbitrary: kept)
  case Nil
  then show ?case by (simp add: sorted_wrt_iff_nth_less)
next
  case (Cons x cs)
  let ?kept = "if \<exists>k\<in>set kept. below x k \<and> \<not> explains fl x k then kept else kept @ [x]"
  have "sorted_wrt R (?kept @ cs)" using Cons.prems(1) by (auto simp: sorted_wrt_append)
  moreover have "sorted_wrt (\<lambda>k c. \<not> (below c k \<and> \<not> explains fl c k)) ?kept" using Cons.prems(2) by (auto simp: sorted_wrt_append)
  ultimately show ?case using Cons.IH[of ?kept] by simp
qed

lemma sorted_wrt_either: "sorted_wrt R xs \<Longrightarrow> x \<noteq> y \<Longrightarrow> x \<in> set xs \<Longrightarrow> y \<in> set xs \<Longrightarrow> R x y \<or> R y x"
  by (induction xs) auto

subsection \<open>The frontier of a scope\<close>

lemma scope_frontier_rows:
  fixes fl :: float_ops
  assumes "distinct (map dr_path cs)"
  defines "surviving \<equiv> filter (\<lambda>c. \<not> (\<exists>d\<in>set cs. below d c \<and> explains fl d c)) cs"
  shows "fr_row ` set (scope_frontier fl cs) = set (kept_rows fl [] surviving)"
proof -
  have inj: "c = c'" if "c \<in> set cs" "c' \<in> set cs" "dr_path c = dr_path c'" for c c'
    using that assms(1) by (metis distinct_map inj_onD)
  have surv: "filter (\<lambda>c. dr_path c \<notin> fst (dominated_ancestor_index fl cs)) cs = surviving"
    unfolding surviving_def dominated_set[OF assms(1)] using inj by (intro filter_cong) auto
  have "distinct (map dr_path surviving)" unfolding surviving_def using assms(1) by (rule distinct_map_filter)
  then have ret: "snd (suppressed_descendant_index fl surviving) = dr_path ` set (kept_rows fl [] surviving)" by (rule retained_paths_eq)
  obtain dom cnt dc rp where i: "dominated_ancestor_index fl cs = (dom, cnt)" "suppressed_descendant_index fl surviving = (dc, rp)"
    by fastforce
  have sdom: "filter (\<lambda>c. dr_path c \<notin> dom) cs = surviving" using surv by (simp add: i(1))
  have sset: "{c \<in> set cs. dr_path c \<notin> dom \<and> dr_path c \<in> rp} = {c \<in> set surviving. dr_path c \<in> rp}"
    unfolding sdom[symmetric] by auto
  have "fr_row ` set (scope_frontier fl cs) = {c \<in> set surviving. dr_path c \<in> snd (suppressed_descendant_index fl surviving)}"
    using sset by (simp add: scope_frontier_def i Let_def sdom image_image)
  also have "\<dots> = set (kept_rows fl [] surviving)"
    unfolding ret using kept_rows_sub[of fl "[]" surviving] inj by (auto simp: surviving_def)
  finally show ?thesis .
qed

lemma scope_subset:
  assumes "distinct (map dr_path cs)" and "e \<in> set (scope_frontier fl cs)"
  shows "fr_row e \<in> set cs"
  using scope_frontier_rows[OF assms(1), of fl] kept_rows_sub[of fl "[]"] assms(2) by fastforce

lemma scope_antichain:
  assumes fl: "faithful_rounding fl" and dist: "distinct (map dr_path cs)"
    and pos: "\<forall>c\<in>set cs. 1 \<le> dr_disk_bytes_delta c \<and> dr_disk_bytes_delta c \<le> 2 ^ 64"
    and srt: "sorted_wrt (\<lambda>a b. dr_disk_bytes_delta b \<le> dr_disk_bytes_delta a) cs"
    and e: "e1 \<in> set (scope_frontier fl cs)" "e2 \<in> set (scope_frontier fl cs)"
  shows "\<not> below (fr_row e2) (fr_row e1)"
proof
  let ?surv = "filter (\<lambda>c. \<not> (\<exists>d\<in>set cs. below d c \<and> explains fl d c)) cs" let ?K = "kept_rows fl [] ?surv"
  let ?a = "fr_row e1" and ?d = "fr_row e2"
  assume b: "below ?d ?a"
  have K: "?a \<in> set ?K" "?d \<in> set ?K" using scope_frontier_rows[OF dist, of fl] e by blast+
  then have surv: "?a \<in> set ?surv" "?d \<in> set cs" using kept_rows_sub[of fl "[]" ?surv] by auto
  then have ne: "\<not> explains fl ?d ?a" using b by auto
  have a: "1 \<le> dr_disk_bytes_delta ?a" "dr_disk_bytes_delta ?a \<le> 2 ^ 64" using pos surv by auto
  have "of_int (dr_disk_bytes_delta ?d) < (of_int (dr_disk_bytes_delta ?a) :: real)"
    using ne int_times_ratio(2)[OF fl a, of FRONTIER_DOMINANCE_RATIO] by (simp add: explains_def FRONTIER_DOMINANCE_RATIO_def)
  then have lt: "dr_disk_bytes_delta ?d < dr_disk_bytes_delta ?a" by simp
  have "sorted_wrt (\<lambda>k c. dr_disk_bytes_delta c \<le> dr_disk_bytes_delta k \<and> \<not> (below c k \<and> \<not> explains fl c k)) ?K"
    by (rule kept_rows_sorted) (use sorted_wrt_filter[OF srt] in simp_all)
  moreover have "?a \<noteq> ?d" using lt by auto
  ultimately have "(dr_disk_bytes_delta ?d \<le> dr_disk_bytes_delta ?a \<and> \<not> (below ?d ?a \<and> \<not> explains fl ?d ?a))
      \<or> (dr_disk_bytes_delta ?a \<le> dr_disk_bytes_delta ?d \<and> \<not> (below ?a ?d \<and> \<not> explains fl ?a ?d))"
    using K by (rule sorted_wrt_either)
  then show False using lt b ne by auto
qed

lemma scope_covers:
  assumes dist: "distinct (map dr_path cs)" and c: "c \<in> set cs"
  shows "\<exists>e\<in>set (scope_frontier fl cs). dr_path (fr_row e) = dr_path c \<or> below c (fr_row e) \<or> below (fr_row e) c"
proof -
  let ?surv = "filter (\<lambda>c. \<not> (\<exists>d\<in>set cs. below d c \<and> explains fl d c)) cs" let ?K = "kept_rows fl [] ?surv"
  let ?B = "{d \<in> set cs. d = c \<or> below d c}"
  have "finite ?B" "?B \<noteq> {}" using c by auto
  then have "Max ((\<lambda>x. length (dr_path x)) ` ?B) \<in> (\<lambda>x. length (dr_path x)) ` ?B" by (intro Max_in) simp_all
  then obtain d where "d \<in> ?B" "Max ((\<lambda>x. length (dr_path x)) ` ?B) = length (dr_path d)" by blast
  moreover have "\<forall>x\<in>?B. length (dr_path x) \<le> Max ((\<lambda>x. length (dr_path x)) ` ?B)" using \<open>finite ?B\<close> by (intro ballI Max_ge) simp_all
  ultimately have d: "d \<in> ?B" "\<forall>x\<in>?B. length (dr_path x) \<le> length (dr_path d)" by simp_all
  have "d \<in> set ?surv"
  proof (rule ccontr)
    assume "d \<notin> set ?surv"
    then obtain x where x: "x \<in> set cs" "below x d" using d(1) by auto
    then have "x \<in> ?B" using d(1) ancestors_trans by blast
    then show False using d(2) ancestors_length[OF x(2)] by fastforce
  qed
  from kept_rows_covers[OF this, of fl "[]"] obtain k where k: "k \<in> set ?K" "k = d \<or> below d k" by blast
  have "k \<in> fr_row ` set (scope_frontier fl cs)" unfolding scope_frontier_rows[OF dist] by (rule k(1))
  then obtain e where e: "e \<in> set (scope_frontier fl cs)" "fr_row e = k" by blast
  have dc: "dr_path d = dr_path c \<or> below d c" and dk: "dr_path d = dr_path k \<or> below d k" using d(1) k(2) by auto
  have "dr_path k = dr_path c \<or> below c k \<or> below k c"
    using dc dk parent_walk.above_linear[of "dr_path d" "dr_path c" "dr_path k"] unfolding set_ancestors by metis
  then show ?thesis using e(2) by (intro bexI[OF _ e(1)]) simp
qed

subsection \<open>All scopes\<close>

abbreviation scope_candidates :: "diff_row list \<Rightarrow> scope \<Rightarrow> diff_row list" where
  "scope_candidates rows s \<equiv> filter (\<lambda>r. row_scope r = s) (positive_candidates rows)"

text \<open>No two grown rows of a scope have the same path, as in a comparison of two snapshots.\<close>

definition distinct_candidates :: "diff_row list \<Rightarrow> bool" where
  "distinct_candidates rows \<longleftrightarrow> distinct (map (\<lambda>r. (row_scope r, dr_path r)) (filter is_candidate rows))"

lemma candidates_set: "set (positive_candidates rows) = {r \<in> set rows. is_candidate r}"
  by (simp add: positive_candidates_def)

lemma distinct_scope_paths: "distinct_candidates rows \<Longrightarrow> distinct (map dr_path (scope_candidates rows s))"
proof -
  assume a: "distinct_candidates rows"
  have "mset (map (\<lambda>r. (row_scope r, dr_path r)) (positive_candidates rows)) = mset (map (\<lambda>r. (row_scope r, dr_path r)) (filter is_candidate rows))"
    by (simp add: positive_candidates_def)
  from mset_eq_imp_distinct_iff[OF this] a have "distinct (map (\<lambda>r. (row_scope r, dr_path r)) (positive_candidates rows))"
    by (simp add: distinct_candidates_def)
  then have "distinct (map (\<lambda>r. (row_scope r, dr_path r)) (scope_candidates rows s))" by (rule distinct_map_filter)
  then show ?thesis by (auto simp: distinct_map inj_on_def)
qed

lemma candidates_sorted: "sorted_wrt (\<lambda>a b. dr_disk_bytes_delta b \<le> dr_disk_bytes_delta a) (positive_candidates rows)"
proof -
  let ?k = "\<lambda>row. (- dr_disk_bytes_delta row, - dr_depth row, dr_root_path row, dr_baseline_snapshot_id row,
                       dr_current_snapshot_id row, dr_path row)"
  have "sorted (map ?k (positive_candidates rows))" by (simp add: positive_candidates_def)
  then have "sorted_wrt (\<lambda>a b. ?k a \<le> ?k b) (positive_candidates rows)" by (simp add: sorted_map)
  then show ?thesis by (rule sorted_wrt_mono_rel[rotated]) (auto simp: less_eq_prod_def)
qed

lemma frontier_mem:
  "e \<in> set (prune_growth_frontier fl rows) \<longleftrightarrow>
     (\<exists>s\<in>row_scope ` set (positive_candidates rows). e \<in> set (scope_frontier fl (scope_candidates rows s)))"
proof -
  have "e \<in> set (prune_growth_frontier fl rows) \<longleftrightarrow>
      (\<exists>s g. (s, g) \<in> set (group_rows row_scope (positive_candidates rows)) \<and> e \<in> set (scope_frontier fl g))"
  proof -
    let ?G = "group_rows row_scope (positive_candidates rows)"
    have "e \<in> set (prune_growth_frontier fl rows) \<longleftrightarrow> (\<exists>x\<in>set ?G. e \<in> set (scope_frontier fl (snd x)))"
      by (simp add: prune_growth_frontier_def case_prod_beta)
    also have "\<dots> \<longleftrightarrow> (\<exists>s g. (s, g) \<in> set ?G \<and> e \<in> set (scope_frontier fl g))" by (metis prod.collapse snd_conv)
    finally show ?thesis .
  qed
  then show ?thesis unfolding group_rows_mem by blast
qed

lemma frontier_scope:
  assumes "distinct_candidates rows" and "e \<in> set (scope_frontier fl (scope_candidates rows s))"
  shows "fr_row e \<in> set rows \<and> is_candidate (fr_row e) \<and> row_scope (fr_row e) = s"
  using scope_subset[OF distinct_scope_paths[OF assms(1)] assms(2)] by (auto simp: candidates_set)

text \<open>
  C11: The frontier is an antichain of grown directories.  Every row of it is a created or grown row of
  the input with more disk usage, and no directory of it lies below another one of the same
  comparison, so no growth is shown twice.  (For deltas up to \<open>2 ^ 64\<close> bytes, rows with distinct
  paths and any faithful rounding of doubles.)
\<close>

theorem frontier_antichain:
  assumes "faithful_rounding fl" and "distinct_candidates rows" and "\<forall>r\<in>set rows. dr_disk_bytes_delta r \<le> 2 ^ 64"
    and "e1 \<in> set (prune_growth_frontier fl rows)" and "e2 \<in> set (prune_growth_frontier fl rows)"
  shows "fr_row e1 \<in> set rows \<and> is_candidate (fr_row e1)
    \<and> (row_scope (fr_row e1) = row_scope (fr_row e2) \<longrightarrow> dr_path (fr_row e1) \<notin> set (ancestors (dr_path (fr_row e2))))"
proof -
  obtain s1 where s1: "e1 \<in> set (scope_frontier fl (scope_candidates rows s1))" using assms(4) unfolding frontier_mem by blast
  obtain s2 where s2: "e2 \<in> set (scope_frontier fl (scope_candidates rows s2))" using assms(5) unfolding frontier_mem by blast
  note f1 = frontier_scope[OF assms(2) s1] and f2 = frontier_scope[OF assms(2) s2]
  have "dr_path (fr_row e1) \<notin> set (ancestors (dr_path (fr_row e2)))" if eq: "s1 = s2"
  proof (rule scope_antichain[OF assms(1) distinct_scope_paths[OF assms(2)] _ sorted_wrt_filter[OF candidates_sorted] s1 s2[folded eq]])
    show "\<forall>c\<in>set (scope_candidates rows s1). 1 \<le> dr_disk_bytes_delta c \<and> dr_disk_bytes_delta c \<le> 2 ^ 64"
      using assms(3) by (auto simp: candidates_set is_candidate_def)
  qed
  then show ?thesis using f1 f2 by simp
qed

text \<open>
  C27: The frontier misses no growth.  Every created or grown row with more disk usage is on the
  frontier, or above or below a row of the frontier of the same comparison.
\<close>

theorem frontier_covers_growth:
  assumes "distinct_candidates rows" and "c \<in> set rows" and "is_candidate c"
  shows "\<exists>e\<in>set (prune_growth_frontier fl rows). row_scope (fr_row e) = row_scope c
    \<and> (dr_path (fr_row e) = dr_path c \<or> dr_path (fr_row e) \<in> set (ancestors (dr_path c))
       \<or> dr_path c \<in> set (ancestors (dr_path (fr_row e))))"
proof -
  have c: "c \<in> set (scope_candidates rows (row_scope c))" using assms(2,3) by (simp add: candidates_set)
  then obtain e where e: "e \<in> set (scope_frontier fl (scope_candidates rows (row_scope c)))"
    and rel: "dr_path (fr_row e) = dr_path c \<or> below c (fr_row e) \<or> below (fr_row e) c"
    using scope_covers[OF distinct_scope_paths[OF assms(1)] c, of fl] by blast
  have "e \<in> set (prune_growth_frontier fl rows)" using e c by (auto simp: frontier_mem)
  then show ?thesis using rel frontier_scope[OF assms(1) e] by blast
qed

subsection \<open>A concrete comparison\<close>

definition grown :: "bytes \<Rightarrow> int \<Rightarrow> int \<Rightarrow> diff_row" where
  "grown path depth delta =
     \<lparr> dr_root_path = ''/'', dr_baseline_snapshot_id = 1, dr_current_snapshot_id = 2, dr_path = path, dr_parent_path = parent_of path,
       dr_depth = depth, dr_classification = ''grown'', dr_previous_apparent_bytes = 0, dr_current_apparent_bytes = delta,
       dr_apparent_bytes_delta = delta, dr_previous_disk_bytes = 0, dr_current_disk_bytes = delta, dr_disk_bytes_delta = delta,
       dr_error = None, dr_previous_hardlink_file_count = 0, dr_current_hardlink_file_count = 0, dr_hardlink_file_count_delta = 0,
       dr_previous_hardlink_duplicate_count = 0, dr_current_hardlink_duplicate_count = 0, dr_hardlink_duplicate_count_delta = 0,
       dr_previous_hardlink_duplicate_disk_bytes = 0, dr_current_hardlink_duplicate_disk_bytes = 0,
       dr_hardlink_duplicate_disk_bytes_delta = 0, dr_previous_hardlink_first_seen_disk_bytes = 0,
       dr_current_hardlink_first_seen_disk_bytes = 0, dr_hardlink_first_seen_disk_bytes_delta = 0, dr_collapsed = False,
       dr_collapse_reason = None, dr_collapsed_dirs = None, dr_top_child_path = None, dr_top_child_disk_bytes = None, dr_group = None \<rparr>"

definition sample_growth :: "diff_row list" where
  "sample_growth = [grown ''/'' 0 100, grown ''/v'' 1 99, grown ''/v/a'' 2 60, grown ''/v/b'' 2 39]"

lemma sample_growth_distinct: "distinct_candidates sample_growth"
  by (simp add: distinct_candidates_def sample_growth_def is_candidate_def grown_def)

theorem frontier_covers_growth_witness:
  "\<exists>e\<in>set (prune_growth_frontier exact_floats sample_growth).
     dr_path (fr_row e) = ''/v/a'' \<or> dr_path (fr_row e) \<in> set (ancestors ''/v/a'') \<or> ''/v/a'' \<in> set (ancestors (dr_path (fr_row e)))"
proof -
  have "grown ''/v/a'' 2 60 \<in> set sample_growth" "is_candidate (grown ''/v/a'' 2 60)" "dr_path (grown ''/v/a'' 2 60) = ''/v/a''"
    by (simp_all add: sample_growth_def is_candidate_def grown_def)
  with frontier_covers_growth[OF sample_growth_distinct this(1,2), of exact_floats] show ?thesis by (simp only:) blast
qed

theorem frontier_antichain_witness:
  "\<exists>e\<in>set (prune_growth_frontier exact_floats sample_growth). \<forall>e'\<in>set (prune_growth_frontier exact_floats sample_growth).
     row_scope (fr_row e) = row_scope (fr_row e') \<longrightarrow> dr_path (fr_row e) \<notin> set (ancestors (dr_path (fr_row e')))"
proof -
  have "grown ''/v/a'' 2 60 \<in> set (positive_candidates sample_growth)"
    by (simp add: candidates_set) (simp add: sample_growth_def is_candidate_def grown_def)
  then have c: "grown ''/v/a'' 2 60 \<in> set (scope_candidates sample_growth (row_scope (grown ''/v/a'' 2 60)))" by simp
  from scope_covers[OF distinct_scope_paths[OF sample_growth_distinct] this, of exact_floats]
  obtain e where "e \<in> set (scope_frontier exact_floats (scope_candidates sample_growth (row_scope (grown ''/v/a'' 2 60))))" by blast
  then have e: "e \<in> set (prune_growth_frontier exact_floats sample_growth)" using c by (auto simp: frontier_mem)
  have "\<forall>r\<in>set sample_growth. dr_disk_bytes_delta r \<le> 2 ^ 64" by (simp add: sample_growth_def grown_def)
  from frontier_antichain[OF exact_floats_faithful sample_growth_distinct this e] e show ?thesis by blast
qed

subsection \<open>The breakdown of one directory\<close>

lemma explain_loop_props:
  assumes "explain_loop deeper limit depth cs (rendered, shown) = (rendered', shown')"
    and "int (length rendered) \<le> limit" and "filter P rendered = shown"
    and "\<forall>c\<in>set cs. P c" and "\<forall>c\<in>set cs. \<forall>x\<in>set (deeper c). \<not> P x"
  shows "int (length rendered') \<le> limit \<and> filter P rendered' = shown'
    \<and> set rendered' \<subseteq> set rendered \<union> (\<Union>c\<in>set cs. insert c (set (deeper c)))"
  using assms
proof (induction deeper limit depth cs "(rendered, shown)" arbitrary: rendered shown rule: explain_loop.induct)
  case (2 deeper limit depth child children rendered shown)
  show ?case
  proof (cases "int (length rendered) \<ge> limit")
    case True
    then show ?thesis using "2.prems" by auto
  next
    case False
    let ?shown = "shown @ [child]" and ?r = "rendered @ [child]" and ?slots = "limit - int (length (rendered @ [child]))"
    have base: "int (length ?r) \<le> limit" "filter P ?r = ?shown" using False "2.prems" by simp_all
    have cs: "\<forall>c\<in>set children. P c" "\<forall>c\<in>set children. \<forall>x\<in>set (deeper c). \<not> P x" using "2.prems" by simp_all
    show ?thesis
    proof (cases "depth \<le> 1 \<or> ?slots \<le> 0")
      case True
      then have "explain_loop deeper limit depth children (?r, ?shown) = (rendered', shown')" using "2.prems"(1) False by simp
      from "2.hyps"(1)[OF False refl refl refl True this base cs] show ?thesis by auto
    next
      case deep: False
      let ?r2 = "?r @ take (nat ?slots) (deeper child)"
      have "filter P (take (nat ?slots) (deeper child)) = []"
        using "2.prems"(5) by (auto simp: filter_empty_conv dest: in_set_takeD)
      then have base2: "int (length ?r2) \<le> limit" "filter P ?r2 = ?shown" using base by (auto simp: min_def)
      have "explain_loop deeper limit depth children (?r2, ?shown) = (rendered', shown')" using "2.prems"(1) False deep by simp
      from "2.hyps"(2)[OF False refl refl refl deep this base2 cs] show ?thesis by (auto dest: in_set_takeD)
    qed
  qed
qed simp

text \<open>
  The breakdown of a directory adds up.  At most \<open>limit\<close> rows are shown, all of them changed rows
  of the comparison strictly below the target and, except for its own children, within the depth; the
  growth not shown or made by the target itself is its delta less the deltas of the children shown.
\<close>

theorem explain_breakdown_accounting:
  assumes "explain_path_breakdown rows target_path limit depth = Some r" and "1 \<le> limit"
  shows "dr_path (ep_target r) = target_path \<and> int (length (ep_children r)) \<le> limit
    \<and> (\<forall>c\<in>set (ep_children r). c \<in> set rows \<and> dr_classification c \<noteq> ''unchanged'' \<and> is_ancestor_path target_path (dr_path c)
          \<and> (dr_parent_path c = Some target_path \<or> dr_depth c \<le> dr_depth (ep_target r) + depth))
    \<and> ep_unshown_or_direct_disk_bytes_delta r = dr_disk_bytes_delta (ep_target r)
        - sum_list (map dr_disk_bytes_delta (filter (\<lambda>c. dr_parent_path c = Some target_path) (ep_children r)))
    \<and> ep_unshown_or_direct_apparent_bytes_delta r = dr_apparent_bytes_delta (ep_target r)
        - sum_list (map dr_apparent_bytes_delta (filter (\<lambda>c. dr_parent_path c = Some target_path) (ep_children r)))"
proof -
  obtain target where t: "List.find (\<lambda>row. dr_path row = target_path) rows = Some target"
    using assms(1) by (auto simp: explain_path_breakdown_def split: option.splits)
  then have tp: "dr_path target = target_path" by (auto simp: find_Some_iff)
  show ?thesis
  proof (cases "depth = 0")
    case True
    then show ?thesis using assms t tp by (auto simp: explain_path_breakdown_def)
  next
    case False
    let ?D = "explained_descendants rows target_path" let ?P = "\<lambda>c. dr_parent_path c = Some target_path"
    obtain rendered shown where loop: "explain_loop (grandchildren ?D target_path (dr_depth target + depth)) limit depth
        (immediate_children ?D target_path) ([], []) = (rendered, shown)" by fastforce
    have r: "ep_target r = target" "ep_children r = rendered"
      "ep_unshown_or_direct_disk_bytes_delta r = dr_disk_bytes_delta target - sum_list (map dr_disk_bytes_delta shown)"
      "ep_unshown_or_direct_apparent_bytes_delta r = dr_apparent_bytes_delta target - sum_list (map dr_apparent_bytes_delta shown)"
      using assms(1) t False by (auto simp: explain_path_breakdown_def loop)
    have imm: "\<forall>c\<in>set (immediate_children ?D target_path). ?P c \<and> c \<in> set ?D" by (auto simp: immediate_children_def)
    have deep: "\<forall>x\<in>set (grandchildren ?D target_path (dr_depth target + depth) c). \<not> ?P x \<and> x \<in> set ?D \<and> dr_depth x \<le> dr_depth target + depth" for c
      by (auto simp: grandchildren_def)
    have props: "int (length rendered) \<le> limit" "filter ?P rendered = shown"
      "set rendered \<subseteq> (\<Union>c\<in>set (immediate_children ?D target_path). insert c (set (grandchildren ?D target_path (dr_depth target + depth) c)))"
      using explain_loop_props[OF loop, of ?P] assms(2) imm deep by auto
    have "c \<in> set ?D \<and> (?P c \<or> dr_depth c \<le> dr_depth target + depth)" if "c \<in> set rendered" for c
      using props(3) that imm deep by blast
    then show ?thesis using props(1,2) tp unfolding r by (auto simp: explained_descendants_def)
  qed
qed

theorem explain_breakdown_accounting_witness:
  "\<exists>r. explain_path_breakdown sample_growth ''/v'' 1 1 = Some r \<and> map dr_path (ep_children r) = [''/v/a'']
     \<and> ep_unshown_or_direct_disk_bytes_delta r = 39"
proof -
  have v: "map_option (map dr_path \<circ> ep_children) (explain_path_breakdown sample_growth ''/v'' 1 1) = Some [''/v/a'']"
    "map_option (dr_disk_bytes_delta \<circ> ep_target) (explain_path_breakdown sample_growth ''/v'' 1 1) = Some 99"
    "map_option (map dr_disk_bytes_delta \<circ> filter (\<lambda>c. dr_parent_path c = Some ''/v'') \<circ> ep_children)
       (explain_path_breakdown sample_growth ''/v'' 1 1) = Some [60]"
    by code_simp+
  then obtain r where r: "explain_path_breakdown sample_growth ''/v'' 1 1 = Some r" by (cases "explain_path_breakdown sample_growth ''/v'' 1 1") auto
  from explain_breakdown_accounting[OF this] v r show ?thesis by simp
qed

end
