(* ===== verification/Grouping.thy ===== *)
theory Grouping
  imports Mounts Paths Report_Base
begin

text \<open>
  The groups a report files paths under (\<open>reporting/queries.py\<close>, from \<open>resolve_group_for_path\<close> to
  \<open>_matches_path_prefix\<close>): the snapshot root, the directory below it, the mount, or the storage
  domain of the mounts stored with the snapshot.  The lookup walks from a path to the root and is the
  second provider of \<open>mount_lookup\<close>, which is how it agrees with the scanner's.
\<close>

subsection \<open>Prefixes\<close>

definition matches_path_prefix :: "bytes \<Rightarrow> bytes \<Rightarrow> bool" where
  "matches_path_prefix path_bytes prefix_bytes =
     (if prefix_bytes = root_dir then startswith path_bytes root_dir
      else path_bytes = prefix_bytes \<or> startswith path_bytes (prefix_bytes @ root_dir))"

definition root_relative_bytes :: "bytes \<Rightarrow> bytes \<Rightarrow> bytes" where
  "root_relative_bytes path_bytes root_path_bytes =
     (if path_bytes = root_path_bytes then []
      else if root_path_bytes = root_dir then (if startswith path_bytes root_dir then tl path_bytes else path_bytes)
      else if startswith path_bytes (root_path_bytes @ root_dir) then drop (length (root_path_bytes @ root_dir)) path_bytes
      else path_bytes)"

subsection \<open>The mount of a path\<close>

text \<open>\<open>_MountPrefixResolver\<close>: the first mount of each mount point, and the walk to the root.\<close>

type_synonym mount_resolver = "(bytes \<times> snapshot_mount) list"

definition mount_prefix_resolver :: "snapshot_mount list \<Rightarrow> mount_resolver" where
  "mount_prefix_resolver snapshot_mounts = foldl (\<lambda>d mount. setdefault (sm_mount_point mount) mount d) [] snapshot_mounts"

definition longest_prefix :: "mount_resolver \<Rightarrow> bytes \<Rightarrow> snapshot_mount option" where
  "longest_prefix mount_by_point path_bytes =
     (case List.find (\<lambda>p. map_of mount_by_point p \<noteq> None) (path_bytes # ancestors path_bytes) of
        None \<Rightarrow> None
      | Some p \<Rightarrow> map_of mount_by_point p)"

definition longest_mount_prefix :: "bytes \<Rightarrow> snapshot_mount list \<Rightarrow> snapshot_mount option" where
  "longest_mount_prefix path_bytes snapshot_mounts = longest_prefix (mount_prefix_resolver snapshot_mounts) path_bytes"

subsection \<open>Groups\<close>

definition plain_group :: "string \<Rightarrow> string \<Rightarrow> group_label" where
  "plain_group kind key = \<lparr> gl_kind = kind, gl_key = key, gl_mount_point = None, gl_filesystem_type = None,
     gl_mount_source = None, gl_major_minor = None, gl_root = None \<rparr>"

definition domain_key :: "snapshot_mount \<Rightarrow> string" where
  "domain_key mount = sm_major_minor mount @ ''|'' @ sm_root mount @ ''|'' @ sm_filesystem_type mount @ ''|'' @ sm_mount_source mount"

definition storage_domain_label :: "snapshot_mount \<Rightarrow> group_label" where
  "storage_domain_label mount =
     \<lparr> gl_kind = ''storage-domain'', gl_key = domain_key mount, gl_mount_point = Some (sm_mount_point mount),
       gl_filesystem_type = Some (sm_filesystem_type mount), gl_mount_source = Some (sm_mount_source mount),
       gl_major_minor = Some (sm_major_minor mount), gl_root = Some (sm_root mount) \<rparr>"

definition resolve_top_level_subtree_group :: "bytes \<Rightarrow> bytes \<Rightarrow> group_label" where
  "resolve_top_level_subtree_group path_bytes root_path_bytes =
     (if path_bytes = root_path_bytes then plain_group ''top-level-subtree'' ''.''
      else
        (let relative_path = root_relative_bytes path_bytes root_path_bytes in
         if relative_path = [] then plain_group ''top-level-subtree'' ''.''
         else plain_group ''top-level-subtree'' (takeWhile (\<lambda>c. c \<noteq> slash) relative_path)))"

definition invalid_group_by :: "string \<Rightarrow> report_error" where
  "invalid_group_by group_by = Report_error ''invalid_group_by'' (''unsupported group_by value: '' @ py_repr group_by)"

definition resolve_group_for_path ::
    "bytes \<Rightarrow> bytes \<Rightarrow> string \<Rightarrow> snapshot_mount list \<Rightarrow> report_error + group_label option \<times> report_warning option" where
  "resolve_group_for_path path_bytes root_path_bytes group_by snapshot_mounts =
     (if \<not> matches_path_prefix path_bytes root_path_bytes
      then Inr (None, Some (warn ''path_outside_root''
             (''path '' @ py_repr path_bytes @ '' is not under snapshot root '' @ py_repr root_path_bytes) (Some path_bytes)))
      else if group_by = ''root'' then Inr (Some (plain_group ''root'' root_path_bytes), None)
      else if group_by = ''top-level-subtree''
      then Inr (Some (resolve_top_level_subtree_group path_bytes root_path_bytes), None)
      else if group_by \<notin> {''mount'', ''storage-domain''} then Inl (invalid_group_by group_by)
      else (case longest_mount_prefix path_bytes snapshot_mounts of
              None \<Rightarrow> Inr (None, Some (warn ''unknown_mount''
                        (''no persisted mount prefix matched '' @ py_repr path_bytes) (Some path_bytes)))
            | Some m \<Rightarrow>
                if group_by = ''mount''
                then Inr (Some ((plain_group ''mount'' (sm_mount_point m))\<lparr> gl_mount_point := Some (sm_mount_point m) \<rparr>), None)
                else Inr (Some (storage_domain_label m), None)))"

definition top_choices :: "string set" where
  "top_choices = {''root'', ''top-level-subtree'', ''mount'', ''storage-domain''}"

subsection \<open>The walk finds the deepest mount\<close>

lemma resolver_lookup:
  "map_of (mount_prefix_resolver ms) p = List.find (\<lambda>m. sm_mount_point m = p) ms"
proof -
  have "map_of (foldl (\<lambda>d m. setdefault (sm_mount_point m) m d) d ms) p
      = (case map_of d p of None \<Rightarrow> List.find (\<lambda>m. sm_mount_point m = p) ms | Some m \<Rightarrow> Some m)" for d
    by (induction ms arbitrary: d) (auto simp: dict_simps split: option.splits)
  then show ?thesis by (simp add: mount_prefix_resolver_def)
qed

lemma find_first: "List.find P xs = Some x \<longleftrightarrow> (\<exists>us vs. xs = us @ x # vs \<and> P x \<and> (\<forall>u\<in>set us. \<not> P u))"
proof (induction xs)
  case (Cons y ys)
  show ?case
  proof (cases "P y")
    case True
    then show ?thesis by (auto simp: Cons_eq_append_conv)
  next
    case False
    then have "List.find P (y # ys) = Some x \<longleftrightarrow> (\<exists>us vs. ys = us @ x # vs \<and> P x \<and> (\<forall>u\<in>set us. \<not> P u))" using Cons by simp
    also have "\<dots> \<longleftrightarrow> (\<exists>us vs. y # ys = us @ x # vs \<and> P x \<and> (\<forall>u\<in>set us. \<not> P u))"
    proof
      assume "\<exists>us vs. ys = us @ x # vs \<and> P x \<and> (\<forall>u\<in>set us. \<not> P u)"
      then obtain us vs where "ys = us @ x # vs" "P x" "\<forall>u\<in>set us. \<not> P u" by blast
      then show "\<exists>us vs. y # ys = us @ x # vs \<and> P x \<and> (\<forall>u\<in>set us. \<not> P u)"
        using False by (intro exI[of _ "y # us"] exI[of _ vs]) simp
    next
      assume "\<exists>us vs. y # ys = us @ x # vs \<and> P x \<and> (\<forall>u\<in>set us. \<not> P u)"
      then show "\<exists>us vs. ys = us @ x # vs \<and> P x \<and> (\<forall>u\<in>set us. \<not> P u)" using False by (auto simp: Cons_eq_append_conv)
    qed
    finally show ?thesis .
  qed
qed simp

text \<open>The paths of the walk get shorter.\<close>

lemma walk_shorter:
  assumes "p # ancestors p = us @ q # vs" and "r \<in> set (p # ancestors p)" and "length q < length r"
  shows "r \<in> set us"
proof -
  have s: "sorted_wrt (\<lambda>x y. length y < length x) (p # ancestors p)"
  proof (induction p rule: parent_walk.walk_induct)
    case (walk x)
    show ?case
    proof (cases "parent_of x")
      case (Some y)
      then show ?thesis using walk[OF Some] ancestors_length[of _ x] by (auto simp: ancestors_Some)
    qed (simp add: ancestors_None)
  qed
  have "\<forall>v\<in>set vs. length v < length q" using s unfolding assms(1) by (auto simp: sorted_wrt_append)
  then show ?thesis using assms by auto
qed

definition walk_covers :: "bytes \<Rightarrow> bytes \<Rightarrow> bool" where
  "walk_covers p q \<longleftrightarrow> canonical q \<and> matches_path_prefix p q"

lemma matches_path_prefix_iff:
  "canonical p \<Longrightarrow> matches_path_prefix p q \<longleftrightarrow> q = p \<or> is_ancestor_path q p"
proof (cases "q = root_dir")
  case True
  assume "canonical p"
  then have "startswith p root_dir" by (cases p) (auto simp: canonical_def startswith_iff)
  then show ?thesis using True by (auto simp: matches_path_prefix_def is_ancestor_path_def)
qed (auto simp: matches_path_prefix_def is_ancestor_path_def)

lemma walk_covers_iff: "canonical p \<Longrightarrow> walk_covers p q \<longleftrightarrow> q \<in> set (p # ancestors p)"
  using ancestors_iff_prefix[of p q] matches_path_prefix_iff[of p q] by (auto simp: walk_covers_def)

lemma longest_Some:
  assumes "canonical p" and "longest_mount_prefix p ms = Some m"
  shows "walk_covers p (sm_mount_point m)"
    and "m' \<in> set ms \<Longrightarrow> walk_covers p (sm_mount_point m') \<Longrightarrow> length (sm_mount_point m') \<le> length (sm_mount_point m)"
    and "\<exists>xs ys. ms = xs @ m # ys \<and> (\<forall>x\<in>set xs. sm_mount_point x \<noteq> sm_mount_point m)"
proof -
  obtain q where q: "List.find (\<lambda>q. map_of (mount_prefix_resolver ms) q \<noteq> None) (p # ancestors p) = Some q"
    and m: "map_of (mount_prefix_resolver ms) q = Some m"
    using assms(2) by (auto simp: longest_mount_prefix_def longest_prefix_def split: option.splits)
  from q[unfolded find_first] obtain us vs where us: "p # ancestors p = us @ q # vs"
    and no: "\<forall>u\<in>set us. map_of (mount_prefix_resolver ms) u = None" by auto
  from m[unfolded resolver_lookup find_first] obtain xs ys where xs: "ms = xs @ m # ys" and mq: "sm_mount_point m = q"
    and nx: "\<forall>x\<in>set xs. sm_mount_point x \<noteq> q" by auto
  have "q \<in> set (p # ancestors p)" unfolding us by simp
  then show "walk_covers p (sm_mount_point m)" using walk_covers_iff[OF assms(1)] mq by simp
  show "\<exists>xs ys. ms = xs @ m # ys \<and> (\<forall>x\<in>set xs. sm_mount_point x \<noteq> sm_mount_point m)" using xs nx mq by blast
  assume m': "m' \<in> set ms" and c: "walk_covers p (sm_mount_point m')"
  show "length (sm_mount_point m') \<le> length (sm_mount_point m)"
  proof (rule ccontr)
    assume "\<not> ?thesis"
    then have "sm_mount_point m' \<in> set us"
      using walk_shorter[OF us] walk_covers_iff[OF assms(1)] c mq by simp
    then have "List.find (\<lambda>m. sm_mount_point m = sm_mount_point m') ms = None" using no by (simp add: resolver_lookup)
    then have "\<not> (\<exists>x. x \<in> set ms \<and> sm_mount_point x = sm_mount_point m')" unfolding find_None_iff .
    then show False using m' by blast
  qed
qed

lemma longest_None:
  assumes "canonical p" and "longest_mount_prefix p ms = None" and "m \<in> set ms"
  shows "\<not> walk_covers p (sm_mount_point m)"
proof
  assume "walk_covers p (sm_mount_point m)"
  then have w: "sm_mount_point m \<in> set (p # ancestors p)" using walk_covers_iff[OF assms(1)] by simp
  have "map_of (mount_prefix_resolver ms) (sm_mount_point m) \<noteq> None" using assms(3) by (auto simp: resolver_lookup find_None_iff)
  then have "List.find (\<lambda>q. map_of (mount_prefix_resolver ms) q \<noteq> None) (p # ancestors p) \<noteq> None"
    using w unfolding find_None_iff by blast
  then obtain q where q: "List.find (\<lambda>q. map_of (mount_prefix_resolver ms) q \<noteq> None) (p # ancestors p) = Some q" by blast
  from q[unfolded find_first] have "map_of (mount_prefix_resolver ms) q \<noteq> None" by blast
  then show False using assms(2) q by (auto simp: longest_mount_prefix_def longest_prefix_def)
qed

interpretation report_mounts: mount_lookup sm_mount_point canonical walk_covers longest_mount_prefix
proof unfold_locales
  show "canonical p \<Longrightarrow> walk_covers p a \<Longrightarrow> walk_covers p b \<Longrightarrow> length a = length b \<Longrightarrow> a = b" for p a b
    using ancestors_length[of a p] ancestors_length[of b p] parent_walk.above_linear[of p a b]
      parent_walk.above_less[of a b] parent_walk.above_less[of b a]
    by (simp only: walk_covers_iff set_ancestors set_simps insert_iff) fastforce
qed (rule longest_Some longest_None; assumption)+

subsection \<open>Agreement with the scanner\<close>

lemma canonical_last: "canonical p \<Longrightarrow> p = root_dir \<or> last p \<noteq> slash"
proof -
  assume "canonical p"
  then obtain cs where ok: "\<forall>c\<in>set cs. comp_ok c" and p: "p = abs_path cs" by (auto simp: canonical_iff)
  show ?thesis
  proof (cases cs rule: rev_cases)
    case Nil
    then show ?thesis using p by (simp add: abs_path_def)
  next
    case (snoc ds c)
    then have c: "c \<noteq> []" "slash \<notin> set c" using ok by (auto simp: comp_ok_def)
    have "last p = last c" using c(1) unfolding p snoc abs_path_snoc by simp
    moreover have "last c \<in> set c" using c(1) by (rule last_in_set)
    ultimately show ?thesis using c(2) by metis
  qed
qed

lemma normalize_canonical:
  assumes "canonical p"
  shows "normalize_path_bytes p = p" and "normalize_mount_point p = p"
proof -
  have r: "rstrip_char slash root_dir = []" by (simp add: rstrip_char_def)
  have ne: "p \<noteq> []" using assms by (auto simp: canonical_def)
  have "(let n = rstrip_char slash p in if n \<noteq> [] then n else root_dir) = p"
  proof (cases "p = root_dir")
    case True
    show ?thesis unfolding True r by simp
  next
    case False
    then have "rstrip_char slash p = p" using canonical_last[OF assms] rstrip_char_id[of p slash] by blast
    then show ?thesis using ne by simp
  qed
  then show "normalize_path_bytes p = p" "normalize_mount_point p = p"
    unfolding normalize_path_bytes_def normalize_mount_point_def by assumption+
qed

lemma covers_agree:
  assumes "canonical p" and "canonical q"
  shows "mount_covers p q \<longleftrightarrow> walk_covers p q"
proof -
  have "startswith p root_dir" using assms(1) by (cases p) (auto simp: canonical_def startswith_iff)
  then show ?thesis
    using assms(2) unfolding normalize_canonical(1)[OF assms(1)] walk_covers_def path_matches_mount_def matches_path_prefix_def
    by (cases "q = root_dir") simp_all
qed

lemma canonical_absolute: "canonical p \<Longrightarrow> absolute p"
  by (cases p) (auto simp: canonical_def startswith_iff)

lemma stored_lookup:
  assumes p: "canonical p" and ms: "\<forall>m\<in>set ms. canonical (mi_mount_point m)"
  shows "longest_mount_prefix p (map (snapshot_mount_row_values sid) ms)
       = map_option (snapshot_mount_row_values sid) (find_mount_for_path p ms)"
proof -
  let ?v = "snapshot_mount_row_values sid"
  have pt: "sm_mount_point (?v m) = mi_mount_point m" for m by (simp add: snapshot_mount_row_values_def)
  have key: "mount_key m = mi_mount_point m" if "m \<in> set ms" for m using ms that by (simp add: normalize_canonical)
  have cov: "mount_covers p (mount_key m) \<longleftrightarrow> walk_covers p (sm_mount_point (?v m))" if "m \<in> set ms" for m
    using covers_agree[OF p] ms that by (simp add: key pt)
  show ?thesis
  proof (cases "find_mount_for_path p ms")
    case None
    then have "\<forall>m\<in>set ms. \<not> mount_covers p (mount_key m)"
      by (rule scan_mounts.lookup_None_iff[OF canonical_absolute[OF p], THEN iffD1])
    then have "\<forall>m\<in>set (map ?v ms). \<not> walk_covers p (sm_mount_point m)" using cov by simp
    then have "longest_mount_prefix p (map ?v ms) = None" by (rule report_mounts.lookup_None_iff[OF p, THEN iffD2])
    then show ?thesis using None by simp
  next
    case (Some m)
    then have d: "scan_mounts.deepest p ms m" by (rule scan_mounts.lookup_iff[OF canonical_absolute[OF p], THEN iffD1])
    then obtain xs ys where split: "ms = xs @ m # ys" and first: "\<forall>x\<in>set xs. mount_key x \<noteq> mount_key m"
      unfolding scan_mounts.deepest_def by blast
    have m: "m \<in> set ms" unfolding split by simp
    have "report_mounts.deepest p (map ?v ms) (?v m)"
      unfolding report_mounts.deepest_def
    proof (intro conjI)
      show "walk_covers p (sm_mount_point (?v m))" using d cov[OF m] unfolding scan_mounts.deepest_def by simp
      show "\<forall>m'\<in>set (map ?v ms). walk_covers p (sm_mount_point m') \<longrightarrow> length (sm_mount_point m') \<le> length (sm_mount_point (?v m))"
        using d cov m key unfolding scan_mounts.deepest_def by (simp add: pt)
      have "map ?v ms = map ?v xs @ ?v m # map ?v ys" unfolding split by simp
      moreover have "\<forall>x\<in>set (map ?v xs). sm_mount_point x \<noteq> sm_mount_point (?v m)"
        using first key split by (simp add: pt)
      ultimately show "\<exists>xs ys. map ?v ms = xs @ ?v m # ys \<and> (\<forall>x\<in>set xs. sm_mount_point x \<noteq> sm_mount_point (?v m))" by blast
    qed
    then have "longest_mount_prefix p (map ?v ms) = Some (?v m)" by (rule report_mounts.lookup_iff[OF p, THEN iffD2])
    then show ?thesis using Some by simp
  qed
qed

lemma stored_mounts:
  assumes "insert_snapshot_mounts sid ms d = Inr d'" and "\<forall>m\<in>set (db_mounts d). sm_snapshot_id m \<noteq> sid"
  shows "load_snapshot_mounts d' sid = map (snapshot_mount_row_values sid) ms"
  using assms by (auto simp: insert_snapshot_mounts_def load_snapshot_mounts_def filter_map comp_def
      snapshot_mount_row_values_def split: if_splits)

text \<open>
  C20: the reports and the scanner agree about mounts.  Once the mount table a scan worked with is stored
  with its snapshot, the lookup of the reports, which walks from a path up to the root, finds for every
  path the stored form of the very mount the scanner's search through the table finds (paths and mount
  points without empty components or trailing separators).
\<close>

theorem reports_agree_with_scanner:
  assumes "canonical p" and "\<forall>m\<in>set ms. canonical (mi_mount_point m)"
    and "insert_snapshot_mounts sid ms d = Inr d'" and "\<forall>m\<in>set (db_mounts d). sm_snapshot_id m \<noteq> sid"
  shows "longest_mount_prefix p (load_snapshot_mounts d' sid)
       = map_option (snapshot_mount_row_values sid) (find_mount_for_path p ms)"
  unfolding stored_mounts[OF assms(3,4)] by (rule stored_lookup[OF assms(1,2)])

lemma reports_agree_with_scanner_witness:
  "longest_mount_prefix ''/srv/data/x''
     [snapshot_mount_row_values 1 (sample_mount 1 root_dir ''ext4''), snapshot_mount_row_values 1 (sample_mount 2 ''/srv'' ''xfs''),
      snapshot_mount_row_values 1 (sample_mount 3 ''/srv/da'' ''xfs'')]
   = Some (snapshot_mount_row_values 1 (sample_mount 2 ''/srv'' ''xfs''))"
proof -
  let ?ms = "[sample_mount 1 root_dir ''ext4'', sample_mount 2 ''/srv'' ''xfs'', sample_mount 3 ''/srv/da'' ''xfs'']"
  let ?d = "snd (create_snapshot ''t'' root_dir None empty_db)"
  let ?d' = "?d\<lparr> db_mounts := map (snapshot_mount_row_values 1) ?ms \<rparr>"
  have c: "canonical ''/srv/data/x''" "\<forall>m\<in>set ?ms. canonical (mi_mount_point m)" by code_simp+
  have i: "insert_snapshot_mounts 1 ?ms ?d = Inr ?d'"
    by (simp add: insert_snapshot_mounts_def create_snapshot_def empty_db_def next_rowid_def Let_def)
  have n: "\<forall>m\<in>set (db_mounts ?d). sm_snapshot_id m \<noteq> 1" by (simp add: create_snapshot_def empty_db_def Let_def)
  have f: "find_mount_for_path ''/srv/data/x'' ?ms = Some (sample_mount 2 ''/srv'' ''xfs'')" by code_simp
  have l: "load_snapshot_mounts ?d' 1 = map (snapshot_mount_row_values 1) ?ms" by (rule stored_mounts[OF i n])
  show ?thesis using reports_agree_with_scanner[OF c i n] unfolding f l by simp
qed

end
