(* ===== verification/Pairs.thy ===== *)
theory Pairs
  imports Report_Base
begin

text \<open>
  The snapshot pairs of \<open>reporting/pairs.py\<close>: which two snapshots of a root a report compares, chosen
  by a time span or given by their ids.
\<close>

subsection \<open>Time spans and timestamps\<close>

definition since_unit :: "char \<Rightarrow> int option" where
  "since_unit c =
     (if c = CHR ''s'' then Some 1 else if c = CHR ''m'' then Some 60
      else if c = CHR ''h'' then Some (60 * 60) else if c = CHR ''d'' then Some (24 * 60 * 60) else None)"

text \<open>
  \<open>parse_since\<close>, in microseconds.  \<open>int\<close> refuses more than 4300 digits, \<open>timedelta\<close> more than
  999999999 days.
\<close>

definition parse_since :: "string \<Rightarrow> report_error + int" where
  "parse_since raw =
     (let digits = butlast raw in
      case (if raw = [] then None else since_unit (last raw)) of
        Some u \<Rightarrow>
          if digits \<noteq> [] \<and> list_all is_digit digits \<and> hd digits \<noteq> CHR ''0'' then
            (if length digits > 4300 then Inl (Uncaught ''ValueError'')
             else if digits_value digits * u div 86400 > 999999999 then Inl (Uncaught ''OverflowError'')
             else Inr (digits_value digits * u * second_us))
          else Inl (Report_error ''invalid_since''
                 (''since must match INTEGER plus one unit s|m|h|d, got '' @ py_repr raw))
      | None \<Rightarrow> Inl (Report_error ''invalid_since''
                 (''since must match INTEGER plus one unit s|m|h|d, got '' @ py_repr raw)))"

text \<open>The left value is the message of the \<open>ValueError\<close>.\<close>

definition parse_finished_at_utc :: "string option \<Rightarrow> string + instant" where
  "parse_finished_at_utc raw =
     (case raw of
        None \<Rightarrow> Inl ''missing finished_at timestamp''
      | Some v \<Rightarrow>
          (case fromisoformat (zulu_to_offset v) of
             None \<Rightarrow> Inl (''unparseable finished_at timestamp '' @ py_repr v)
           | Some parsed \<Rightarrow>
               if dt_offset parsed = None then Inl (''naive finished_at timestamp '' @ py_repr v)
               else Inr (astimezone_utc (\<lambda>_. 0) parsed)))"

definition pair_record :: "snapshot_row \<Rightarrow> report_error + snapshot_record" where
  "pair_record row = map_sum (\<lambda>_. Uncaught ''ValueError'') id (snapshot_record_of row)"

definition snapshot_exclusion_warning :: "snapshot_record \<Rightarrow> string \<Rightarrow> report_warning option" where
  "snapshot_exclusion_warning snapshot root_text =
     (if sr_status snapshot = RUNNING
      then Some (warn ''running_snapshot_excluded''
             (''snapshot '' @ int_str (sr_id snapshot) @ '' for '' @ root_text @ '' is still running and was excluded'') (Some root_text))
      else if sr_status snapshot = FAILED
      then Some (warn ''failed_snapshot_excluded''
             (''snapshot '' @ int_str (sr_id snapshot) @ '' for '' @ root_text @ '' was excluded because it failed'') (Some root_text))
      else None)"

subsection \<open>Pairs by time span\<close>

text \<open>The usable snapshots of a root with their finishing times.\<close>

type_synonym usable = "snapshot_record \<times> instant"

definition usable_step ::
    "string \<Rightarrow> report_warning list \<times> usable list \<Rightarrow> snapshot_row \<Rightarrow> report_error + report_warning list \<times> usable list" where
  "usable_step root_text = (\<lambda>(warnings, usable) row.
     (case pair_record row of
        Inl e \<Rightarrow> Inl e
      | Inr snapshot \<Rightarrow>
          (case snapshot_exclusion_warning snapshot root_text of
             Some w \<Rightarrow> Inr (warnings @ [w], usable)
           | None \<Rightarrow>
               (case parse_finished_at_utc (sr_finished_at snapshot) of
                  Inl exc \<Rightarrow> Inr (warnings @ [warn ''invalid_snapshot_timestamp''
                      (''snapshot '' @ int_str (sr_id snapshot) @ '' for '' @ root_text @ '' has invalid finished_at: '' @ exc)
                      (Some root_text)], usable)
                | Inr finished_at \<Rightarrow> Inr (warnings, usable @ [(snapshot, finished_at)])))))"

definition pair_of :: "pathname \<Rightarrow> snapshot_record \<Rightarrow> snapshot_record \<Rightarrow> string list \<Rightarrow> snapshot_pair" where
  "pair_of root_path baseline current codes =
     \<lparr> sp_root_path = root_path, sp_baseline = baseline, sp_current = current, sp_warning_codes = codes,
       sp_baseline_path = None, sp_current_path = None, sp_requested_path = None,
       sp_baseline_storage_domain = None, sp_current_storage_domain = None \<rparr>"

definition partial_pair_warning :: "string \<Rightarrow> report_warning" where
  "partial_pair_warning root_text =
     warn ''partial_snapshot'' (''root '' @ root_text @ '' uses a partial snapshot in the selected pair'') (Some root_text)"

definition usable_key :: "usable \<Rightarrow> instant \<times> int" where
  "usable_key u = (snd u, sr_id (fst u))"

text \<open>The baseline among the earlier snapshots, and whether it lies after the cutoff.\<close>

definition choose_baseline :: "instant \<Rightarrow> usable list \<Rightarrow> snapshot_record \<times> bool" where
  "choose_baseline cutoff earlier =
     (let at_or_before = filter (\<lambda>u. snd u \<le> cutoff) earlier
      in if at_or_before \<noteq> [] then (fst (last at_or_before), False) else (fst (hd earlier), True))"

definition root_pair ::
    "int \<Rightarrow> string \<times> snapshot_row list \<Rightarrow> report_error + report_warning list \<times> snapshot_pair option" where
  "root_pair since_delta = (\<lambda>(root_text, rows).
     (case fold_err (usable_step root_text) ([], []) rows of
        Inl e \<Rightarrow> Inl e
      | Inr (warnings, usable) \<Rightarrow>
          if length usable < 2
          then Inr (warnings @ [warn ''insufficient_same_root_snapshots''
                 (''root '' @ root_text @ '' has fewer than two usable snapshots for diff'') (Some root_text)], None)
          else
            (let usable = sort_key usable_key usable;
                 (current, current_finished_at) = last usable;
                 cutoff = current_finished_at - since_delta
             in if cutoff < min_instant then Inl (Uncaught ''OverflowError'')
                else
                  (let (baseline, unavailable) = choose_baseline cutoff (butlast usable);
                       w1 = (if unavailable then [warn ''baseline_before_since_unavailable''
                               (''root '' @ root_text @ '' has no snapshot at or before cutoff '' @ isoformat_utc cutoff
                                @ ''; using oldest earlier snapshot '' @ int_str (sr_id baseline)) (Some root_text)] else []);
                       w2 = (if sr_status current = PARTIAL \<or> sr_status baseline = PARTIAL
                             then [partial_pair_warning root_text] else [])
                   in Inr (warnings @ w1 @ w2, Some (pair_of root_text baseline current (map rw_code (w1 @ w2))))))))"

definition snapshots_by_root :: "db \<Rightarrow> snapshot_row list" where
  "snapshots_by_root d = sort_key (\<lambda>s. (sn_root_path s, sn_id s)) (db_snapshots d)"

definition pairs_step ::
    "int \<Rightarrow> report_warning list \<times> snapshot_pair list \<Rightarrow> string \<times> snapshot_row list
     \<Rightarrow> report_error + report_warning list \<times> snapshot_pair list" where
  "pairs_step since_delta = (\<lambda>(warnings, pairs) group.
     map_sum id (\<lambda>(ws, p). (warnings @ ws, pairs @ (case p of None \<Rightarrow> [] | Some x \<Rightarrow> [x]))) (root_pair since_delta group))"

definition resolve_snapshot_pairs :: "string \<Rightarrow> db \<Rightarrow> report_error + snapshot_pair list \<times> report_warning list" where
  "resolve_snapshot_pairs since d =
     (case parse_since since of
        Inl e \<Rightarrow> Inl e
      | Inr since_delta \<Rightarrow>
          (case fold_err (pairs_step since_delta) ([], []) (group_rows sn_root_path (snapshots_by_root d)) of
             Inl e \<Rightarrow> Inl e
           | Inr (warnings, pairs) \<Rightarrow>
               if pairs = []
               then Inl (Report_error ''no_snapshot_pairs''
                      (''no same-root snapshot pairs are available for since='' @ py_repr since))
               else Inr (pairs, dedupe_warnings warnings)))"

subsection \<open>Pairs by id\<close>

definition find_pair_record :: "db \<Rightarrow> int \<Rightarrow> report_error + snapshot_record option" where
  "find_pair_record d sid =
     (case find_snapshot d sid of None \<Rightarrow> Inr None | Some row \<Rightarrow> map_sum id Some (pair_record row))"

definition id_list_text :: "int list \<Rightarrow> string" where
  "id_list_text ids = ''['' @ join_str '', '' (map int_str ids) @ '']''"

definition load_snapshot_pair_by_ids :: "db \<Rightarrow> int \<Rightarrow> int \<Rightarrow> report_error + snapshot_record \<times> snapshot_record" where
  "load_snapshot_pair_by_ids d b c =
     (case find_pair_record d b of Inl e \<Rightarrow> Inl e | Inr ob \<Rightarrow>
     (case find_pair_record d c of Inl e \<Rightarrow> Inl e | Inr oc \<Rightarrow>
        (case (ob, oc) of
           (Some baseline, Some current) \<Rightarrow> Inr (baseline, current)
         | _ \<Rightarrow> Inl (Report_error ''snapshot_not_found''
                  (''snapshot id(s) not found: '' @ id_list_text (sorted_list_of_set
                     ((if ob = None then {b} else {}) \<union> (if oc = None then {c} else {}))))))))"

definition parse_snapshot_finished_at :: "snapshot_record \<Rightarrow> report_error + instant" where
  "parse_snapshot_finished_at snapshot =
     map_sum (\<lambda>exc. Report_error ''invalid_snapshot_timestamp''
         (''snapshot '' @ int_str (sr_id snapshot) @ '' has invalid finished_at: '' @ exc)) id
       (parse_finished_at_utc (sr_finished_at snapshot))"

definition validate_snapshot_pair_order :: "snapshot_record \<Rightarrow> snapshot_record \<Rightarrow> report_error + unit" where
  "validate_snapshot_pair_order baseline current =
     (case parse_snapshot_finished_at baseline of Inl e \<Rightarrow> Inl e | Inr tb \<Rightarrow>
     (case parse_snapshot_finished_at current of Inl e \<Rightarrow> Inl e | Inr tc \<Rightarrow>
        if (tc, sr_id current) \<le> (tb, sr_id baseline)
        then Inl (Report_error ''invalid_snapshot_pair_order'' ''baseline snapshot must finish before current snapshot'')
        else Inr ()))"

definition resolve_snapshot_pair_by_ids :: "db \<Rightarrow> int \<Rightarrow> int \<Rightarrow> report_error + snapshot_pair \<times> report_warning list" where
  "resolve_snapshot_pair_by_ids d b c =
     (if b = c then Inl (Report_error ''invalid_snapshot_pair'' ''baseline and current snapshot ids must be different'')
      else case load_snapshot_pair_by_ids d b c of
        Inl e \<Rightarrow> Inl e
      | Inr (baseline, current) \<Rightarrow>
          if sr_root_path baseline \<noteq> sr_root_path current
          then Inl (Report_error ''snapshot_root_mismatch'' ''baseline and current snapshots must belong to the same root'')
          else if {sr_status baseline, sr_status current} \<inter> {RUNNING, FAILED} \<noteq> {}
          then Inl (Report_error ''unusable_snapshot_pair'' ''baseline and current snapshots must be complete or partial'')
          else case validate_snapshot_pair_order baseline current of
            Inl e \<Rightarrow> Inl e
          | Inr _ \<Rightarrow>
              (let partial = (sr_status baseline = PARTIAL \<or> sr_status current = PARTIAL);
                   warnings = (if partial then [partial_pair_warning (sr_root_path baseline)] else [])
               in Inr (pair_of (sr_root_path baseline) baseline current (map rw_code warnings), warnings)))"

subsection \<open>What the pairs are\<close>

text \<open>The usable form of a row, and the usable snapshots of a root.\<close>

definition usable_of :: "snapshot_row \<Rightarrow> usable option" where
  "usable_of row =
     (case snapshot_record_of row of
        Inl _ \<Rightarrow> None
      | Inr snapshot \<Rightarrow>
          if sr_status snapshot \<in> {RUNNING, FAILED} then None
          else (case parse_finished_at_utc (sr_finished_at snapshot) of Inl _ \<Rightarrow> None | Inr t \<Rightarrow> Some (snapshot, t)))"

definition usable_of_root :: "db \<Rightarrow> pathname \<Rightarrow> usable set" where
  "usable_of_root d r = {u. \<exists>row\<in>set (db_snapshots d). sn_root_path row = r \<and> usable_of row = Some u}"

text \<open>
  The current snapshot is the last to finish; the baseline is the last of the others that finished
  at or before the cutoff, or the first of all if there is none.
\<close>

definition chosen_pair :: "int \<Rightarrow> usable set \<Rightarrow> snapshot_pair \<Rightarrow> bool" where
  "chosen_pair delta U p \<longleftrightarrow>
     (\<exists>cur\<in>U. \<exists>base\<in>U. sp_current p = fst cur \<and> sp_baseline p = fst base \<and> usable_key base < usable_key cur
        \<and> (\<forall>u\<in>U. usable_key u \<le> usable_key cur)
        \<and> (let early = {u \<in> U. u \<noteq> cur \<and> snd u \<le> snd cur - delta}
           in if early = {} then (\<forall>u\<in>U. usable_key base \<le> usable_key u)
              else base \<in> early \<and> (\<forall>u\<in>early. usable_key u \<le> usable_key base)))"

lemma usable_step_Inr:
  assumes "usable_step r (ws, us) row = Inr (ws', us')"
  shows "us' = us @ List.map_filter usable_of [row]"
  using assms
  by (auto simp: usable_step_def usable_of_def pair_record_def snapshot_exclusion_warning_def map_filter_simps
      split: sum.splits option.splits if_splits)

lemma usable_fold:
  "fold_err (usable_step r) (ws, us) rows = Inr (ws', us') \<Longrightarrow> us' = us @ List.map_filter usable_of rows"
proof (induction rows arbitrary: ws us)
  case (Cons row rows)
  from Cons.prems obtain s1 where s1: "usable_step r (ws, us) row = Inr s1" "fold_err (usable_step r) s1 rows = Inr (ws', us')"
    unfolding fold_err.simps case_sum_Inr by blast
  obtain ws1 us1 where p: "s1 = (ws1, us1)" by (metis prod.exhaust)
  have "List.map_filter usable_of (row # rows) = List.map_filter usable_of [row] @ List.map_filter usable_of rows"
    by (simp add: map_filter_simps split: option.split)
  then show ?case using Cons.IH[OF s1(2)[unfolded p]] usable_step_Inr[OF s1(1)[unfolded p]] by simp
qed (simp add: map_filter_simps)

lemma usable_of_id: "usable_of row = Some u \<Longrightarrow> sr_id (fst u) = sn_id row \<and> sr_root_path (fst u) = sn_root_path row
    \<and> snapshot_record_of row = Inr (fst u) \<and> sr_status (fst u) \<notin> {RUNNING, FAILED}
    \<and> parse_finished_at_utc (sr_finished_at (fst u)) = Inr (snd u)"
  by (auto simp: usable_of_def snapshot_record_of_def split: sum.splits if_splits option.splits)

lemma usable_ids_distinct:
  assumes "distinct (map sn_id rows)"
  shows "distinct (map (\<lambda>u. sr_id (fst u)) (List.map_filter usable_of rows))"
  using assms
proof (induction rows)
  case (Cons row rows)
  have old: "sr_id (fst u) \<in> sn_id ` set rows" if "u \<in> set (List.map_filter usable_of rows)" for u
    using that by (force simp: map_filter_def dest: usable_of_id)
  have fresh: "sr_id (fst u) \<notin> (\<lambda>u. sr_id (fst u)) ` set (List.map_filter usable_of rows)" if u: "usable_of row = Some u" for u
  proof
    assume "sr_id (fst u) \<in> (\<lambda>u. sr_id (fst u)) ` set (List.map_filter usable_of rows)"
    then have "sr_id (fst u) \<in> sn_id ` set rows" using old by auto
    then show False using usable_of_id[OF u] Cons.prems by simp
  qed
  show ?case using Cons fresh by (simp add: map_filter_simps split: option.split)
qed (simp add: map_filter_simps)

lemma sort_key_strict:
  fixes K :: "'a \<Rightarrow> 'k::linorder"
  assumes "distinct (map K xs)"
  shows "sorted_wrt (\<lambda>a b. K a < K b) (sort_key K xs)"
proof -
  have "mset (map K (sort_key K xs)) = mset (map K xs)" by simp
  then have "distinct (map K (sort_key K xs))" using assms by (metis mset_eq_imp_distinct_iff)
  then have "sorted_wrt (<) (map K (sort_key K xs))" by (simp add: strict_sorted_iff)
  then show ?thesis by (simp add: sorted_wrt_map)
qed

lemma sorted_last_greatest:
  "sorted_wrt (\<lambda>a b. K a < K b) xs \<Longrightarrow> x \<in> set xs \<Longrightarrow> (K x :: 'k::linorder) \<le> K (last xs)"
  by (induction xs) (auto simp: less_imp_le dest: last_in_set split: if_splits)

lemma sorted_hd_least:
  "sorted_wrt (\<lambda>a b. K a < K b) xs \<Longrightarrow> x \<in> set xs \<Longrightarrow> (K (hd xs) :: 'k::linorder) \<le> K x"
  by (cases xs) (auto simp: less_imp_le)

lemma choose_baseline_props:
  fixes cutoff :: instant
  assumes E: "E \<noteq> []" and srt: "sorted_wrt (\<lambda>a b. usable_key a < usable_key b) E"
  shows "\<exists>base\<in>set E. choose_baseline cutoff E = (fst base, filter (\<lambda>u. snd u \<le> cutoff) E = [])
    \<and> (if filter (\<lambda>u. snd u \<le> cutoff) E = [] then \<forall>u\<in>set E. usable_key base \<le> usable_key u
       else snd base \<le> cutoff \<and> (\<forall>u\<in>set E. snd u \<le> cutoff \<longrightarrow> usable_key u \<le> usable_key base))"
proof (cases "filter (\<lambda>u. snd u \<le> cutoff) E = []")
  case True
  then show ?thesis using E sorted_hd_least[OF srt] by (auto simp: choose_baseline_def intro!: bexI[of _ "hd E"])
next
  case False
  let ?A = "filter (\<lambda>u. snd u \<le> cutoff) E"
  have "sorted_wrt (\<lambda>a b. usable_key a < usable_key b) ?A" using srt by (rule sorted_wrt_filter)
  note sorted_last_greatest[OF this]
  moreover have "last ?A \<in> set ?A" using False by (rule last_in_set)
  ultimately show ?thesis using False by (auto simp: choose_baseline_def intro!: bexI[of _ "last ?A"])
qed

lemma root_pair_Inr:
  assumes ok: "root_pair delta (r, rows) = Inr (ws, op)" and dist: "distinct (map sn_id rows)"
  shows "if length (List.map_filter usable_of rows) < 2 then op = None
    else \<exists>p. op = Some p \<and> sp_root_path p = r \<and> chosen_pair delta (set (List.map_filter usable_of rows)) p"
proof -
  let ?us = "List.map_filter usable_of rows" let ?S = "sort_key usable_key ?us"
  obtain ws1 us where "fold_err (usable_step r) ([], []) rows = Inr (ws1, us)"
    using ok by (cases "fold_err (usable_step r) ([], []) rows") (auto simp: root_pair_def)
  with usable_fold[OF this] have f: "fold_err (usable_step r) ([], []) rows = Inr (ws1, ?us)" by simp
  show ?thesis
  proof (cases "length ?us < 2")
    case True
    then show ?thesis using ok by (simp add: root_pair_def f)
  next
    case False
    have "distinct (map usable_key ?us)"
      using distinct_map_pair[OF usable_ids_distinct[OF dist], of snd] by (simp add: usable_key_def[abs_def])
    then have srt: "sorted_wrt (\<lambda>a b. usable_key a < usable_key b) ?S" by (rule sort_key_strict)
    have len: "length ?S = length ?us" by simp
    then have S: "?S = butlast ?S @ [last ?S]" and E: "butlast ?S \<noteq> []" using False
      by (metis append_butlast_last_id list.size(3) not_less zero_less_numeral) (metis False append_Nil append_butlast_last_id len length_Cons less_2_cases_iff list.size(3) One_nat_def zero_less_numeral)
    obtain cur tc where cur: "last ?S = (cur, tc)" by fastforce
    let ?E = "butlast ?S" let ?cut = "tc - delta"
    have sE: "sorted_wrt (\<lambda>a b. usable_key a < usable_key b) ?E" and lt: "\<forall>u\<in>set ?E. usable_key u < usable_key (cur, tc)"
      using srt by (subst (asm) S, simp add: sorted_wrt_append cur)+
    have mem: "set ?us = insert (cur, tc) (set ?E)"
      using arg_cong[OF S, of set] by (simp add: cur)
    obtain base where base: "base \<in> set ?E" "choose_baseline ?cut ?E = (fst base, filter (\<lambda>u. snd u \<le> ?cut) ?E = [])"
      "if filter (\<lambda>u. snd u \<le> ?cut) ?E = [] then \<forall>u\<in>set ?E. usable_key base \<le> usable_key u
       else snd base \<le> ?cut \<and> (\<forall>u\<in>set ?E. snd u \<le> ?cut \<longrightarrow> usable_key u \<le> usable_key base)"
      using choose_baseline_props[OF E sE] by blast
    have p: "\<exists>codes. op = Some (pair_of r (fst base) cur codes)"
      using ok False by (auto simp: root_pair_def f cur base(2) Let_def split: if_splits)
    have early: "{u \<in> set ?us. u \<noteq> (cur, tc) \<and> snd u \<le> ?cut} = set (filter (\<lambda>u. snd u \<le> ?cut) ?E)"
      using mem lt by auto
    have "chosen_pair delta (set ?us) (pair_of r (fst base) cur codes)" for codes
      unfolding chosen_pair_def
    proof (intro bexI conjI)
      show "sp_current (pair_of r (fst base) cur codes) = fst (cur, tc)" "sp_baseline (pair_of r (fst base) cur codes) = fst base"
        by (simp_all add: pair_of_def)
      show "usable_key base < usable_key (cur, tc)" using lt base(1) by blast
      show "\<forall>u\<in>set ?us. usable_key u \<le> usable_key (cur, tc)" using mem lt by (auto simp: less_imp_le)
      show "let early = {u \<in> set ?us. u \<noteq> (cur, tc) \<and> snd u \<le> snd (cur, tc) - delta}
         in if early = {} then \<forall>u\<in>set ?us. usable_key base \<le> usable_key u
            else base \<in> early \<and> (\<forall>u\<in>early. usable_key u \<le> usable_key base)"
        unfolding snd_conv early Let_def set_empty using base(1,3) mem lt
        by (cases "filter (\<lambda>u. snd u \<le> ?cut) ?E = []") (simp_all del: filter_empty_conv add: less_imp_le)
    qed (use base(1) mem in auto)
    then show ?thesis using False p by (auto simp: pair_of_def)
  qed
qed

lemma pairs_fold:
  "fold_err (pairs_step delta) (ws, ps) gs = Inr (ws', ps') \<Longrightarrow> \<forall>(r, rows)\<in>set gs. distinct (map sn_id rows) \<Longrightarrow>
    \<exists>new. ps' = ps @ new
      \<and> map sp_root_path new = map fst (filter (\<lambda>(r, rows). 2 \<le> length (List.map_filter usable_of rows)) gs)
      \<and> (\<forall>p\<in>set new. \<exists>rows. (sp_root_path p, rows) \<in> set gs \<and> chosen_pair delta (set (List.map_filter usable_of rows)) p)"
proof (induction gs arbitrary: ws ps)
  case (Cons g gs)
  obtain r rows where g: "g = (r, rows)" by fastforce
  from Cons.prems(1) obtain s1 where s1: "pairs_step delta (ws, ps) g = Inr s1" "fold_err (pairs_step delta) s1 gs = Inr (ws', ps')"
    unfolding fold_err.simps case_sum_Inr by blast
  then obtain w op where rp: "root_pair delta (r, rows) = Inr (w, op)"
    and s: "s1 = (ws @ w, ps @ (case op of None \<Rightarrow> [] | Some x \<Rightarrow> [x]))"
    by (auto simp: pairs_step_def g map_sum_Inr)
  have dist: "distinct (map sn_id rows)" "\<forall>(r, rows)\<in>set gs. distinct (map sn_id rows)" using Cons.prems(2) by (auto simp: g)
  obtain new where new: "ps' = (ps @ (case op of None \<Rightarrow> [] | Some x \<Rightarrow> [x])) @ new"
    "map sp_root_path new = map fst (filter (\<lambda>(r, rows). 2 \<le> length (List.map_filter usable_of rows)) gs)"
    "\<forall>p\<in>set new. \<exists>rows. (sp_root_path p, rows) \<in> set gs \<and> chosen_pair delta (set (List.map_filter usable_of rows)) p"
    using Cons.IH[OF s1(2)[unfolded s] dist(2)] by blast
  let ?new = "(case op of None \<Rightarrow> [] | Some x \<Rightarrow> [x]) @ new"
  have one: "if length (List.map_filter usable_of rows) < 2 then op = None
    else \<exists>p. op = Some p \<and> sp_root_path p = r \<and> chosen_pair delta (set (List.map_filter usable_of rows)) p"
    by (rule root_pair_Inr[OF rp dist(1)])
  show ?case
  proof (intro exI[of _ ?new] conjI)
    show "ps' = ps @ ?new" using new(1) by simp
    show "map sp_root_path ?new = map fst (filter (\<lambda>(r, rows). 2 \<le> length (List.map_filter usable_of rows)) (g # gs))"
      using one new(2) by (auto simp: g split: if_splits)
    show "\<forall>p\<in>set ?new. \<exists>rows. (sp_root_path p, rows) \<in> set (g # gs) \<and> chosen_pair delta (set (List.map_filter usable_of rows)) p"
      using one new(3) by (auto simp: g split: if_splits option.splits)
  qed
qed simp

lemma set_map_filter: "set (List.map_filter f xs) = {y. \<exists>x\<in>set xs. f x = Some y}"
  by (force simp: map_filter_def)

lemma root_groups:
  assumes "distinct (map sn_id (db_snapshots d))" and "(r, rows) \<in> set (group_rows sn_root_path (snapshots_by_root d))"
  shows "set (List.map_filter usable_of rows) = usable_of_root d r" and "distinct (map sn_id rows)"
    and "length (List.map_filter usable_of rows) = card (usable_of_root d r)"
proof -
  have rows: "rows = filter (\<lambda>s. sn_root_path s = r) (snapshots_by_root d)" using assms(2) by (simp add: group_rows_mem)
  show st: "set (List.map_filter usable_of rows) = usable_of_root d r"
    by (auto simp: set_map_filter usable_of_root_def rows snapshots_by_root_def)
  have "mset (map sn_id (snapshots_by_root d)) = mset (map sn_id (db_snapshots d))" by (simp add: snapshots_by_root_def)
  then have "distinct (map sn_id (snapshots_by_root d))" using assms(1) by (metis mset_eq_imp_distinct_iff)
  then show dist: "distinct (map sn_id rows)" unfolding rows by (rule distinct_map_filter)
  have "distinct (List.map_filter usable_of rows)" using usable_ids_distinct[OF dist] by (simp add: distinct_map)
  then show "length (List.map_filter usable_of rows) = card (usable_of_root d r)" using distinct_card st by metis
qed

lemma resolved_pairs:
  assumes dist: "distinct (map sn_id (db_snapshots d))" and res: "resolve_snapshot_pairs since d = Inr (pairs, ws)"
  shows "\<exists>delta. parse_since since = Inr delta \<and> pairs \<noteq> [] \<and> distinct (map sp_root_path pairs)
    \<and> set (map sp_root_path pairs) = {r. 2 \<le> card (usable_of_root d r)}
    \<and> (\<forall>p\<in>set pairs. chosen_pair delta (usable_of_root d (sp_root_path p)) p)"
proof -
  let ?gs = "group_rows sn_root_path (snapshots_by_root d)"
  let ?big = "\<lambda>(r, rows). 2 \<le> length (List.map_filter usable_of rows)"
  from res obtain delta w ps where delta: "parse_since since = Inr delta"
    and f: "fold_err (pairs_step delta) ([], []) ?gs = Inr (w, ps)" and ne: "ps \<noteq> []" and ps: "pairs = ps"
    unfolding resolve_snapshot_pairs_def case_sum_Inr by (auto split: if_splits)
  obtain new where new: "ps = [] @ new" "map sp_root_path new = map fst (filter ?big ?gs)"
    "\<forall>p\<in>set new. \<exists>rows. (sp_root_path p, rows) \<in> set ?gs \<and> chosen_pair delta (set (List.map_filter usable_of rows)) p"
    using pairs_fold[OF f] root_groups(2)[OF dist] by blast
  have "distinct (map fst (filter ?big ?gs))" using group_rows_props by (metis distinct_map_filter)
  moreover have "set (map fst (filter ?big ?gs)) = {r. 2 \<le> card (usable_of_root d r)}"
  proof (intro equalityI subsetI)
    fix r assume "r \<in> set (map fst (filter ?big ?gs))"
    then show "r \<in> {r. 2 \<le> card (usable_of_root d r)}" using root_groups(3)[OF dist] by auto
  next
    fix r assume r: "r \<in> {r. 2 \<le> card (usable_of_root d r)}"
    then have "usable_of_root d r \<noteq> {}" by auto
    then have "r \<in> sn_root_path ` set (snapshots_by_root d)" by (auto simp: usable_of_root_def snapshots_by_root_def)
    then have "(r, filter (\<lambda>s. sn_root_path s = r) (snapshots_by_root d)) \<in> set ?gs" by (simp add: group_rows_mem)
    then show "r \<in> set (map fst (filter ?big ?gs))" using r root_groups(3)[OF dist] by force
  qed
  moreover have "chosen_pair delta (usable_of_root d (sp_root_path p)) p" if p: "p \<in> set new" for p
  proof -
    obtain rows where "(sp_root_path p, rows) \<in> set ?gs" "chosen_pair delta (set (List.map_filter usable_of rows)) p" using new(3) p by blast
    then show ?thesis using root_groups(1)[OF dist] by simp
  qed
  ultimately show ?thesis using delta ne ps new(1,2) by simp
qed

lemma find_usable:
  assumes "distinct (map sn_id (db_snapshots d))" and "u \<in> usable_of_root d r"
  shows "find_pair_record d (sr_id (fst u)) = Inr (Some (fst u)) \<and> sr_root_path (fst u) = r
    \<and> sr_status (fst u) \<notin> {RUNNING, FAILED} \<and> parse_snapshot_finished_at (fst u) = Inr (snd u)"
proof -
  obtain row where row: "row \<in> set (db_snapshots d)" "sn_root_path row = r" "usable_of row = Some u"
    using assms(2) by (auto simp: usable_of_root_def)
  note u = usable_of_id[OF row(3)]
  have "List.find (\<lambda>s. sn_id s = sn_id row) ss = Some row" if "distinct (map sn_id ss)" "row \<in> set ss" for ss
    using that by (induction ss) auto
  then have "find_snapshot d (sr_id (fst u)) = Some row" using assms(1) row(1) u by (simp add: find_snapshot_def)
  then show ?thesis using u row(2) by (simp add: find_pair_record_def pair_record_def parse_snapshot_finished_at_def)
qed

subsection \<open>Escaping exceptions\<close>

lemma pair_record_Inl: "pair_record row = Inl e \<Longrightarrow> e = Uncaught ''ValueError''"
  by (cases "snapshot_record_of row") (simp_all add: pair_record_def)

lemma usable_fold_Inl: "fold_err (usable_step r) s rows = Inl e \<Longrightarrow> \<exists>x. e = Uncaught x"
proof (induction rows arbitrary: s)
  case (Cons row rows)
  have "usable_step r s row = Inl e \<Longrightarrow> \<exists>x. e = Uncaught x" for e
    by (cases s) (auto simp: usable_step_def dest: pair_record_Inl split: sum.splits option.splits if_splits)
  then show ?case using Cons by (auto split: sum.splits)
qed simp

lemma root_pair_Inl: "root_pair delta g = Inl e \<Longrightarrow> \<exists>x. e = Uncaught x"
  by (cases g) (auto simp: root_pair_def Let_def dest: usable_fold_Inl split: sum.splits if_splits prod.splits)

lemma root_pair_overflow:
  assumes "2 \<le> length (List.map_filter usable_of rows)" and "\<forall>u\<in>set (List.map_filter usable_of rows). snd u - delta < min_instant"
  shows "\<exists>x. root_pair delta (r, rows) = Inl (Uncaught x)"
proof (cases "fold_err (usable_step r) ([], []) rows")
  case (Inl e)
  then show ?thesis using usable_fold_Inl[OF Inl] by (auto simp: root_pair_def)
next
  case (Inr s)
  let ?us = "List.map_filter usable_of rows"
  obtain ws1 us where s: "s = (ws1, us)" by fastforce
  with Inr usable_fold[OF Inr[unfolded s]] have f: "fold_err (usable_step r) ([], []) rows = Inr (ws1, ?us)" by simp
  obtain cur tc where cur: "last (sort_key usable_key ?us) = (cur, tc)" by fastforce
  have "sort_key usable_key ?us \<noteq> []" using assms(1) by (metis length_sort list.size(3) not_numeral_le_zero)
  from last_in_set[OF this] have "tc - delta < min_instant" using assms(2) cur by fastforce
  then show ?thesis using assms(1) by (simp add: root_pair_def f cur)
qed

lemma pairs_fold_overflow:
  "g \<in> set gs \<Longrightarrow> root_pair delta g = Inl e \<Longrightarrow> \<exists>x. fold_err (pairs_step delta) s gs = Inl (Uncaught x)"
proof (induction gs arbitrary: s)
  case (Cons h gs)
  obtain ws ps where s: "s = (ws, ps)" by fastforce
  show ?case
  proof (cases "root_pair delta h")
    case (Inl e')
    then show ?thesis using root_pair_Inl[OF Inl] by (auto simp: s pairs_step_def)
  next
    case (Inr out)
    then obtain s' where "pairs_step delta s h = Inr s'" by (simp add: s pairs_step_def)
    then show ?thesis using Cons.IH[of s'] Cons.prems Inr by (cases "g = h") simp_all
  qed
qed simp

subsection \<open>Properties\<close>

text \<open>
  C23: Which snapshots a report compares.  A time span gives one pair for each root with at least two
  usable snapshots (finished, complete or partial, with a readable aware timestamp) and for no other
  root.  The current snapshot of a pair is the root's last one; the baseline is the last of the others
  that finished at least the span before it or, failing that, the root's first one, and it always
  precedes the current one.
\<close>

theorem pairs_choose_extremes:
  assumes "distinct (map sn_id (db_snapshots d))" and "resolve_snapshot_pairs since d = Inr (pairs, ws)"
  shows "\<exists>delta. parse_since since = Inr delta \<and> pairs \<noteq> [] \<and> distinct (map sp_root_path pairs)
    \<and> set (map sp_root_path pairs) = {r. 2 \<le> card (usable_of_root d r)}
    \<and> (\<forall>p\<in>set pairs. chosen_pair delta (usable_of_root d (sp_root_path p)) p)"
  by (rule resolved_pairs[OF assms])

text \<open>
  The two ways to ask for a pair agree.  A pair chosen by a time span can be asked for by the ids
  of its snapshots, and gives the same root and the same two snapshots.
\<close>

theorem pair_by_ids_agrees:
  assumes "distinct (map sn_id (db_snapshots d))" and "resolve_snapshot_pairs since d = Inr (pairs, ws)" and "p \<in> set pairs"
  shows "\<exists>p' ws'. resolve_snapshot_pair_by_ids d (sr_id (sp_baseline p)) (sr_id (sp_current p)) = Inr (p', ws')
    \<and> sp_root_path p' = sp_root_path p \<and> sp_baseline p' = sp_baseline p \<and> sp_current p' = sp_current p"
proof -
  obtain delta where "chosen_pair delta (usable_of_root d (sp_root_path p)) p" using resolved_pairs[OF assms(1,2)] assms(3) by blast
  then obtain cur base where cur: "cur \<in> usable_of_root d (sp_root_path p)" "sp_current p = fst cur"
    and base: "base \<in> usable_of_root d (sp_root_path p)" "sp_baseline p = fst base" and lt: "usable_key base < usable_key cur"
    unfolding chosen_pair_def by blast
  note c = find_usable[OF assms(1) cur(1)] and b = find_usable[OF assms(1) base(1)]
  have "sr_id (fst base) \<noteq> sr_id (fst cur)"
  proof
    assume "sr_id (fst base) = sr_id (fst cur)"
    with b c have "fst base = fst cur" by (metis Inr_inject option.inject)
    with b c have "snd base = snd cur" by (metis Inr_inject)
    with \<open>fst base = fst cur\<close> lt show False by (simp add: usable_key_def)
  qed
  moreover have "\<not> (snd cur, sr_id (fst cur)) \<le> (snd base, sr_id (fst base))" using lt unfolding usable_key_def not_le .
  ultimately show ?thesis
    using b c by (simp add: resolve_snapshot_pair_by_ids_def load_snapshot_pair_by_ids_def validate_snapshot_pair_order_def
        cur(2) base(2) pair_of_def Let_def)
qed

text \<open>
  A span that reaches back before the year 1 crashes the report.  If some root has two usable
  snapshots and the span, although well-formed, goes back beyond the earliest representable time from
  each of them, the exception escapes: it is not reported as a \<open>ReportError\<close>.
\<close>

theorem long_span_escapes:
  assumes "distinct (map sn_id (db_snapshots d))" and "parse_since since = Inr delta"
    and "2 \<le> card (usable_of_root d r)" and "\<forall>u\<in>usable_of_root d r. snd u - delta < min_instant"
  shows "\<exists>x. resolve_snapshot_pairs since d = Inl (Uncaught x)"
proof -
  let ?gs = "group_rows sn_root_path (snapshots_by_root d)" let ?rows = "filter (\<lambda>s. sn_root_path s = r) (snapshots_by_root d)"
  have "usable_of_root d r \<noteq> {}" using assms(3) by auto
  then have "r \<in> sn_root_path ` set (snapshots_by_root d)" by (auto simp: usable_of_root_def snapshots_by_root_def)
  then have g: "(r, ?rows) \<in> set ?gs" by (simp add: group_rows_mem)
  from root_groups[OF assms(1) g] assms(3,4) have "\<exists>x. root_pair delta (r, ?rows) = Inl (Uncaught x)"
    by (intro root_pair_overflow) simp_all
  then obtain x where "root_pair delta (r, ?rows) = Inl (Uncaught x)" by blast
  from pairs_fold_overflow[OF g this, of "([], [])"] obtain y where "fold_err (pairs_step delta) ([], []) ?gs = Inl (Uncaught y)" by blast
  then show ?thesis by (simp add: resolve_snapshot_pairs_def assms(2))
qed

text \<open>Three complete snapshots of one root, of 1, 2 and 4 January 2024.\<close>

definition january_db :: db where
  "january_db = empty_db\<lparr> db_snapshots := map (\<lambda>(i, t). \<lparr> sn_id = i, sn_started_at = t, sn_finished_at = Some t,
     sn_root_path = ''/r'', sn_status = ''complete'', sn_notes = None, sn_error = None \<rparr>)
     [(1, ''2024-01-01T00:00:00Z''), (2, ''2024-01-02T00:00:00Z''), (3, ''2024-01-04T00:00:00Z'')] \<rparr>"

lemma january_distinct: "distinct (map sn_id (db_snapshots january_db))"
  by (simp add: january_db_def)

lemma january_run:
  "map_sum id (\<lambda>(ps, ws). map (\<lambda>p. (sr_id (sp_baseline p), sr_id (sp_current p))) ps) (resolve_snapshot_pairs ''1d'' january_db)
   = Inr [(2, 3)]"
  by code_simp

lemma january_since: "parse_since ''800000d'' = Inr (800000 * day_us)"
  by code_simp

lemma january_times:
  "parse_finished_at_utc (Some ''2024-01-01T00:00:00Z'') = Inr (19723 * day_us)"
  "parse_finished_at_utc (Some ''2024-01-02T00:00:00Z'') = Inr (19724 * day_us)"
  "parse_finished_at_utc (Some ''2024-01-04T00:00:00Z'') = Inr (19726 * day_us)"
  "min_instant = -719162 * day_us"
  by code_simp+

theorem pairs_choose_extremes_witness:
  "\<exists>pairs ws. resolve_snapshot_pairs ''1d'' january_db = Inr (pairs, ws)
     \<and> map (\<lambda>p. (sr_id (sp_baseline p), sr_id (sp_current p))) pairs = [(2, 3)] \<and> 2 \<le> card (usable_of_root january_db (sp_root_path (hd pairs)))"
proof -
  obtain pairs ws where res: "resolve_snapshot_pairs ''1d'' january_db = Inr (pairs, ws)"
    using january_run by (cases "resolve_snapshot_pairs ''1d'' january_db") auto
  then have ids: "map (\<lambda>p. (sr_id (sp_baseline p), sr_id (sp_current p))) pairs = [(2, 3)]" using january_run by simp
  then have "hd pairs \<in> set pairs" by (cases pairs) simp_all
  then have "2 \<le> card (usable_of_root january_db (sp_root_path (hd pairs)))"
    using pairs_choose_extremes[OF january_distinct res] by auto
  with res ids show ?thesis by (intro exI[of _ pairs] exI[of _ ws] conjI)
qed

theorem pair_by_ids_agrees_witness:
  "\<exists>p' ws'. resolve_snapshot_pair_by_ids january_db 2 3 = Inr (p', ws')"
proof -
  obtain pairs ws where res: "resolve_snapshot_pairs ''1d'' january_db = Inr (pairs, ws)"
    using january_run by (cases "resolve_snapshot_pairs ''1d'' january_db") auto
  then obtain p where "p \<in> set pairs" "sr_id (sp_baseline p) = 2" "sr_id (sp_current p) = 3" using january_run by auto
  with pair_by_ids_agrees[OF january_distinct res this(1)] show ?thesis by metis
qed

theorem long_span_escapes_witness: "\<exists>x. resolve_snapshot_pairs ''800000d'' january_db = Inl (Uncaught x)"
proof (rule long_span_escapes[OF january_distinct january_since])
  let ?rec = "\<lambda>i t. \<lparr> sr_id = i, sr_started_at = t, sr_finished_at = Some t, sr_root_path = ''/r'', sr_status = COMPLETE,
     sr_notes = None, sr_error = None \<rparr>"
  let ?us = "[(?rec 1 ''2024-01-01T00:00:00Z'', 19723 * day_us), (?rec 2 ''2024-01-02T00:00:00Z'', 19724 * day_us),
     (?rec 3 ''2024-01-04T00:00:00Z'', 19726 * day_us)]"
  have c: "snapshot_status_from_storage ''complete'' (Some t) = Some COMPLETE" for t
    by (simp add: snapshot_status_from_storage_def status_of_value_def)
  have "usable_of_root january_db ''/r'' = set ?us"
    by (auto simp: usable_of_root_def january_db_def usable_of_def snapshot_record_of_def c january_times)
  then show "2 \<le> card (usable_of_root january_db ''/r'')" "\<forall>u\<in>usable_of_root january_db ''/r''. snd u - 800000 * day_us < min_instant"
    by (simp_all add: january_times(4)) (simp add: day_us_def hour_us_def second_us_def)
qed

end
