(* ===== verification/Snapshot_Queries.thy ===== *)
theory Snapshot_Queries
  imports Pairs
begin

text \<open>
  The queries of \<open>reporting/queries.py\<close> about whole snapshots: limits, the selection of snapshots, their
  summaries, and the totals over time.  \<open>ORDER BY\<close> is a stable sort of the rows in rowid order; where
  its keys can tie, SQLite leaves the order open.
\<close>

subsection \<open>Limits\<close>

definition default_limit :: int where "default_limit = 20"
definition max_limit :: int where "max_limit = 1000"

definition parse_report_limit :: "string option \<Rightarrow> report_error + int" where
  "parse_report_limit raw_value =
     (case raw_value of
        None \<Rightarrow> Inr default_limit
      | Some raw \<Rightarrow>
          (case parse_int raw of
             None \<Rightarrow> Inl (Report_error ''invalid_limit'' (''limit must be an integer, got '' @ py_repr raw))
           | Some limit \<Rightarrow>
               if limit < 1 then Inl (Report_error ''invalid_limit'' (''limit must be at least 1, got '' @ int_str limit))
               else if limit > max_limit
               then Inl (Report_error ''limit_too_large''
                      (''limit must be at most '' @ int_str max_limit @ '', got '' @ int_str limit))
               else Inr limit))"

text \<open>\<open>LIMIT n\<close>; a negative number is no limit.\<close>

definition sql_limit :: "int \<Rightarrow> 'a list \<Rightarrow> 'a list" where
  "sql_limit n rows = (if n < 0 then rows else take (nat n) rows)"

text \<open>Binding an integer that does not fit into 64 bits raises \<open>OverflowError\<close>.\<close>

definition sqlite_int :: "int \<Rightarrow> bool" where
  "sqlite_int i \<longleftrightarrow> - (2 ^ 63) \<le> i \<and> i < 2 ^ 63"

subsection \<open>Selecting snapshots\<close>

definition usable_row :: "snapshot_row \<Rightarrow> bool" where
  "usable_row s \<longleftrightarrow> sn_status s \<in> {status_value COMPLETE, status_value PARTIAL}"

text \<open>\<open>COALESCE(finished_at, started_at)\<close> and the id.\<close>

definition recency :: "snapshot_row \<Rightarrow> string \<times> int" where
  "recency s = (case sn_finished_at s of None \<Rightarrow> sn_started_at s | Some t \<Rightarrow> t, sn_id s)"

definition latest_rows :: "db \<Rightarrow> snapshot_row list" where
  "latest_rows d = sort_key (\<lambda>s. (sn_root_path s, sn_id s))
     (map (\<lambda>(_, rows). hd (sort_key_rev recency rows)) (group_rows sn_root_path (filter usable_row (db_snapshots d))))"

definition snapshot_not_found :: "int \<Rightarrow> report_error" where
  "snapshot_not_found snapshot_id = Report_error ''snapshot_not_found'' (''snapshot id '' @ int_str snapshot_id @ '' was not found'')"

definition load_snapshot :: "db \<Rightarrow> int \<Rightarrow> report_error + snapshot_record" where
  "load_snapshot d snapshot_id =
     (if \<not> sqlite_int snapshot_id then Inl (Uncaught ''OverflowError'')
      else (case find_snapshot d snapshot_id of
              None \<Rightarrow> Inl (snapshot_not_found snapshot_id)
            | Some row \<Rightarrow> pair_record row))"

definition resolve_top_snapshot_selection :: "string \<Rightarrow> db \<Rightarrow> report_error + snapshot_record list" where
  "resolve_top_snapshot_selection selector d =
     (if selector = ''latest''
      then (if latest_rows d = []
            then Inl (Report_error ''no_usable_snapshots'' ''no complete or partial snapshots are available'')
            else map_err pair_record (latest_rows d))
      else (case parse_int selector of
              None \<Rightarrow> Inl (Report_error ''invalid_snapshot_id''
                        (''snapshot selector must be '' @ py_repr ''latest'' @ '' or a numeric id, got '' @ py_repr selector))
            | Some snapshot_id \<Rightarrow> map_sum id (\<lambda>r. [r]) (load_snapshot d snapshot_id)))"

subsection \<open>Summaries\<close>

definition sql_max :: "int list \<Rightarrow> int option" where
  "sql_max xs = (if xs = [] then None else Some (Max (set xs)))"

definition is_root_state :: "int \<times> agg_state \<Rightarrow> bool" where
  "is_root_state ds \<longleftrightarrow> ag_depth (snd ds) = 0 \<and> ag_parent_id (snd ds) = None"

definition root_max :: "(agg_state \<Rightarrow> int) \<Rightarrow> (int \<times> agg_state) list \<Rightarrow> int option" where
  "root_max f state = sql_max (map (f \<circ> snd) (filter is_root_state state))"

definition snapshot_summary_from_row ::
    "(string option \<Rightarrow> string \<Rightarrow> rat option) \<Rightarrow> db \<Rightarrow> snapshot_row \<Rightarrow> report_error + snapshot_summary" where
  "snapshot_summary_from_row elapsed d s =
     (let state = snapshot_state d (sn_id s) in
      map_sum id (\<lambda>snapshot. \<lparr> ss_snapshot = snapshot,
        ss_processing_seconds = elapsed (sn_finished_at s) (sn_started_at s),
        ss_row_count = int (length state),
        ss_collapsed_row_count = int (length (filter (\<lambda>ds. ag_collapsed (snd ds) = 1) state)),
        ss_error_row_count = int (length (filter (\<lambda>ds. ag_error (snd ds) \<noteq> None) state)),
        ss_indexed_apparent_bytes = root_max ag_apparent_bytes state,
        ss_indexed_disk_bytes = root_max ag_disk_bytes state,
        ss_file_count = root_max ag_file_count state,
        ss_dir_count = root_max ag_dir_count state,
        ss_hardlink_file_count = root_max ag_hardlink_file_count state,
        ss_hardlink_duplicate_count = root_max ag_hardlink_duplicate_count state,
        ss_hardlink_duplicate_disk_bytes = root_max ag_hardlink_duplicate_disk_bytes state,
        ss_hardlink_first_seen_disk_bytes = root_max ag_hardlink_first_seen_disk_bytes state \<rparr>) (pair_record s))"

text \<open>\<open>elapsed\<close> is SQLite's \<open>ROUND((julianday(finished_at) - julianday(started_at)) * 86400, 1)\<close>.\<close>

definition query_snapshot_summaries ::
    "(string option \<Rightarrow> string \<Rightarrow> rat option) \<Rightarrow> int \<Rightarrow> db \<Rightarrow> report_error + snapshot_summary list" where
  "query_snapshot_summaries elapsed limit d =
     map_err (snapshot_summary_from_row elapsed d) (sql_limit limit (sort_key_rev recency (db_snapshots d)))"

subsection \<open>The snapshots of a time span\<close>

definition trend_rows :: "db \<Rightarrow> snapshot_row list" where
  "trend_rows d = sort_key (\<lambda>s. (sn_root_path s, the (sn_finished_at s), sn_id s))
     (filter (\<lambda>s. usable_row s \<and> sn_finished_at s \<noteq> None) (db_snapshots d))"

text \<open>The rows of unreadable finishing times are left out.\<close>

definition readable_step :: "usable list \<Rightarrow> snapshot_row \<Rightarrow> report_error + usable list" where
  "readable_step acc row =
     (case pair_record row of
        Inl e \<Rightarrow> Inl e
      | Inr snapshot \<Rightarrow>
          (case parse_finished_at_utc (sr_finished_at snapshot) of
             Inl _ \<Rightarrow> Inr acc
           | Inr finished_at \<Rightarrow> Inr (acc @ [(snapshot, finished_at)])))"

definition root_selection :: "instant \<Rightarrow> usable list \<Rightarrow> usable list" where
  "root_selection cutoff rows =
     (let before_or_at = filter (\<lambda>item. snd item \<le> cutoff) rows
      in foldl (\<lambda>sel item. if item \<in> set sel then sel else sel @ [item])
           (if before_or_at \<noteq> [] then [last before_or_at] else []) (filter (\<lambda>item. snd item \<ge> cutoff) rows))"

definition selection_step :: "int \<Rightarrow> snapshot_record list \<Rightarrow> usable list \<Rightarrow> report_error + snapshot_record list" where
  "selection_step since_delta selected rows =
     (let cutoff = snd (last rows) - since_delta in
      if cutoff < min_instant then Inl (Uncaught ''OverflowError'')
      else Inr (selected @ map fst (root_selection cutoff rows)))"

definition select_trend_snapshots :: "string \<Rightarrow> db \<Rightarrow> report_error + snapshot_record list" where
  "select_trend_snapshots since d =
     (case parse_since since of
        Inl e \<Rightarrow> Inl e
      | Inr since_delta \<Rightarrow>
          (case fold_err readable_step [] (trend_rows d) of
             Inl e \<Rightarrow> Inl e
           | Inr readable \<Rightarrow>
               fold_err (selection_step since_delta) []
                 (map snd (group_rows (\<lambda>item. sr_root_path (fst item)) readable))))"

definition no_usable_snapshots :: "string \<Rightarrow> report_error" where
  "no_usable_snapshots since =
     Report_error ''no_usable_snapshots'' (''no complete or partial snapshots are available for since='' @ py_repr since)"

subsection \<open>Totals over time\<close>

record root_total =
  rt_apparent_bytes :: int
  rt_disk_bytes :: int
  rt_file_count :: int
  rt_dir_count :: int

definition root_total_of_state :: "agg_state \<Rightarrow> root_total" where
  "root_total_of_state st =
     \<lparr> rt_apparent_bytes = ag_apparent_bytes st, rt_disk_bytes = ag_disk_bytes st, rt_file_count = ag_file_count st,
       rt_dir_count = ag_dir_count st \<rparr>"

definition matching_root_interval :: "interval_row list \<Rightarrow> int \<Rightarrow> interval_row option" where
  "matching_root_interval intervals snapshot_id =
     List.find (\<lambda>iv. iv_valid_from iv \<le> snapshot_id
       \<and> (case iv_valid_to iv of None \<Rightarrow> True | Some t \<Rightarrow> snapshot_id < t)) intervals"

definition root_interval_rows :: "db \<Rightarrow> snapshot_record list \<Rightarrow> interval_row list" where
  "root_interval_rows d snapshots =
     (let ids = map sr_id snapshots in
      sort_key (\<lambda>iv. (iv_root_path iv, iv_valid_from iv))
        (filter (\<lambda>iv. ag_depth (iv_state iv) = 0 \<and> iv_root_path iv \<in> sr_root_path ` set snapshots
            \<and> iv_valid_from iv \<le> Max (set ids)
            \<and> (case iv_valid_to iv of None \<Rightarrow> True | Some t \<Rightarrow> Min (set ids) < t)) (db_intervals d)))"

definition query_complete_root_totals :: "db \<Rightarrow> snapshot_record list \<Rightarrow> (int \<times> root_total) list" where
  "query_complete_root_totals d snapshots =
     (if snapshots = [] then []
      else (let intervals_by_root = group_rows iv_root_path (root_interval_rows d snapshots)
            in foldl (\<lambda>totals snapshot.
                 (case matching_root_interval (dict_get intervals_by_root (sr_root_path snapshot) []) (sr_id snapshot) of
                    None \<Rightarrow> totals
                  | Some iv \<Rightarrow> AList.update (sr_id snapshot) (root_total_of_state (iv_state iv)) totals)) [] snapshots))"

definition query_diagnostic_root_totals :: "db \<Rightarrow> snapshot_record list \<Rightarrow> (int \<times> root_total) list" where
  "query_diagnostic_root_totals d snapshots =
     (if snapshots = [] then []
      else dict_of (map (\<lambda>dg. (dg_snapshot_id dg, root_total_of_state (dg_state dg)))
             (filter (\<lambda>dg. ag_depth (dg_state dg) = 0 \<and> dg_snapshot_id dg \<in> sr_id ` set snapshots) (db_diagnostics d))))"

definition query_root_totals_for_snapshots :: "db \<Rightarrow> snapshot_record list \<Rightarrow> (int \<times> root_total) list" where
  "query_root_totals_for_snapshots d snapshots =
     foldl (\<lambda>totals (sid, t). AList.update sid t totals)
       (query_complete_root_totals d (filter (\<lambda>s. sr_status s = COMPLETE) snapshots))
       (query_diagnostic_root_totals d (filter (\<lambda>s. sr_status s \<noteq> COMPLETE) snapshots))"

definition timeline_point_of :: "snapshot_record \<Rightarrow> root_total option \<Rightarrow> timeline_point" where
  "timeline_point_of snapshot tot =
     \<lparr> tp_snapshot = snapshot, tp_indexed_apparent_bytes = map_option rt_apparent_bytes tot,
       tp_indexed_disk_bytes = map_option rt_disk_bytes tot, tp_file_count = map_option rt_file_count tot,
       tp_dir_count = map_option rt_dir_count tot \<rparr>"

definition query_timeline_points :: "string \<Rightarrow> db \<Rightarrow> report_error + timeline_point list" where
  "query_timeline_points since d =
     (case select_trend_snapshots since d of
        Inl e \<Rightarrow> Inl e
      | Inr snapshots \<Rightarrow>
          if snapshots = [] then Inl (no_usable_snapshots since)
          else (let totals = query_root_totals_for_snapshots d snapshots
                in Inr (map (\<lambda>s. timeline_point_of s (map_of totals (sr_id s))) snapshots)))"

end
