(* ===== verification/Diff_Query.thy ===== *)
theory Diff_Query
  imports Grouping Snapshot_Queries
begin

text \<open>
  The comparison of two snapshots (\<open>reporting/queries.py\<close>): the query behind the diff, deleted and explain
  reports, the shallow query of the fast reports, and the summary of a diff.  A row of the diff query is
  the \<open>DiffRow\<close> it becomes, with the classification SQL gives it and no group, and whether the path is in
  the current snapshot.  Where a query has no \<open>ORDER BY\<close> its rows are listed by path id.
\<close>

subsection \<open>Joins\<close>

text \<open>\<open>JOIN paths\<close> and \<open>LEFT JOIN paths\<close> by id.\<close>

definition path_text :: "db \<Rightarrow> int \<Rightarrow> bytes option" where
  "path_text d pid = map_option snd (List.find (\<lambda>(i, _). i = pid) (db_paths d))"

definition path_text_opt :: "db \<Rightarrow> int option \<Rightarrow> bytes option" where
  "path_text_opt d pid = Option.bind pid (path_text d)"

text \<open>\<open>LEFT JOIN\<close> of a relation keyed by path id: one row per match, or one without.\<close>

definition left_join :: "int \<Rightarrow> (int \<times> 'a) list \<Rightarrow> 'a option list" where
  "left_join k rows = (let ms = filter (\<lambda>r. fst r = k) rows in if ms = [] then [None] else map (Some \<circ> snd) ms)"

definition path_scope_filter :: "bytes option \<Rightarrow> bytes \<Rightarrow> bool" where
  "path_scope_filter target_path path =
     (case target_path of
        None \<Rightarrow> True
      | Some target \<Rightarrow> target = root_dir \<or> path = target \<or> startswith path (rstrip_char slash target @ root_dir))"

definition all_ids :: "db \<Rightarrow> bytes option \<Rightarrow> (int \<times> agg_state) list \<Rightarrow> (int \<times> agg_state) list \<Rightarrow> int list" where
  "all_ids d target prev_state curr_state =
     sort (remdups (filter (\<lambda>i. case path_text d i of None \<Rightarrow> False | Some p \<Rightarrow> path_scope_filter target p)
       (map fst prev_state @ map fst curr_state)))"

subsection \<open>The diff query\<close>

definition or_zero :: "(agg_state \<Rightarrow> int) \<Rightarrow> agg_state option \<Rightarrow> int" where
  "or_zero f st = (case st of None \<Rightarrow> 0 | Some s \<Rightarrow> f s)"

definition sql_classification :: "agg_state option \<Rightarrow> agg_state option \<Rightarrow> string" where
  "sql_classification prev cur =
     (if prev = None then ''created'' else if cur = None then ''deleted''
      else if or_zero ag_disk_bytes cur > or_zero ag_disk_bytes prev then ''grown''
      else if or_zero ag_disk_bytes cur < or_zero ag_disk_bytes prev then ''shrunk''
      else if or_zero ag_apparent_bytes cur > or_zero ag_apparent_bytes prev then ''grown''
      else if or_zero ag_apparent_bytes cur < or_zero ag_apparent_bytes prev then ''shrunk''
      else ''unchanged'')"

definition coalesce :: "'a option \<Rightarrow> 'a option \<Rightarrow> 'a option" where
  "coalesce a b = (if a = None then b else a)"

text \<open>\<open>CASE WHEN cur.path_id IS NOT NULL THEN ... cur ... ELSE ... prev ... END\<close>\<close>

definition current_else :: "(agg_state \<Rightarrow> 'a option) \<Rightarrow> agg_state option \<Rightarrow> agg_state option \<Rightarrow> 'a option" where
  "current_else f prev cur = Option.bind (coalesce cur prev) f"

definition diff_query_row :: "db \<Rightarrow> snapshot_pair \<Rightarrow> bytes \<Rightarrow> agg_state option \<Rightarrow> agg_state option \<Rightarrow> diff_row \<times> bool" where
  "diff_query_row d pair path prev cur =
     (\<lparr> dr_root_path = sp_root_path pair, dr_baseline_snapshot_id = sr_id (sp_baseline pair),
        dr_current_snapshot_id = sr_id (sp_current pair), dr_path = path,
        dr_parent_path = coalesce (path_text_opt d (Option.bind cur ag_parent_id)) (path_text_opt d (Option.bind prev ag_parent_id)),
        dr_depth = or_zero ag_depth (coalesce cur prev), dr_classification = sql_classification prev cur,
        dr_previous_apparent_bytes = or_zero ag_apparent_bytes prev, dr_current_apparent_bytes = or_zero ag_apparent_bytes cur,
        dr_apparent_bytes_delta = or_zero ag_apparent_bytes cur - or_zero ag_apparent_bytes prev,
        dr_previous_disk_bytes = or_zero ag_disk_bytes prev, dr_current_disk_bytes = or_zero ag_disk_bytes cur,
        dr_disk_bytes_delta = or_zero ag_disk_bytes cur - or_zero ag_disk_bytes prev,
        dr_error = coalesce (Option.bind cur ag_error) (Option.bind prev ag_error),
        dr_previous_hardlink_file_count = or_zero ag_hardlink_file_count prev,
        dr_current_hardlink_file_count = or_zero ag_hardlink_file_count cur,
        dr_hardlink_file_count_delta = or_zero ag_hardlink_file_count cur - or_zero ag_hardlink_file_count prev,
        dr_previous_hardlink_duplicate_count = or_zero ag_hardlink_duplicate_count prev,
        dr_current_hardlink_duplicate_count = or_zero ag_hardlink_duplicate_count cur,
        dr_hardlink_duplicate_count_delta = or_zero ag_hardlink_duplicate_count cur - or_zero ag_hardlink_duplicate_count prev,
        dr_previous_hardlink_duplicate_disk_bytes = or_zero ag_hardlink_duplicate_disk_bytes prev,
        dr_current_hardlink_duplicate_disk_bytes = or_zero ag_hardlink_duplicate_disk_bytes cur,
        dr_hardlink_duplicate_disk_bytes_delta =
          or_zero ag_hardlink_duplicate_disk_bytes cur - or_zero ag_hardlink_duplicate_disk_bytes prev,
        dr_previous_hardlink_first_seen_disk_bytes = or_zero ag_hardlink_first_seen_disk_bytes prev,
        dr_current_hardlink_first_seen_disk_bytes = or_zero ag_hardlink_first_seen_disk_bytes cur,
        dr_hardlink_first_seen_disk_bytes_delta =
          or_zero ag_hardlink_first_seen_disk_bytes cur - or_zero ag_hardlink_first_seen_disk_bytes prev,
        dr_collapsed = (or_zero ag_collapsed (coalesce cur prev) \<noteq> 0),
        dr_collapse_reason = current_else ag_collapse_reason prev cur,
        dr_collapsed_dirs = current_else ag_collapsed_dirs prev cur,
        dr_top_child_path = path_text_opt d (current_else ag_top_child_id prev cur),
        dr_top_child_disk_bytes = current_else ag_top_child_disk_bytes prev cur, dr_group = None \<rparr>, cur \<noteq> None)"

definition differs :: "agg_state option \<Rightarrow> agg_state option \<Rightarrow> bool" where
  "differs prev cur \<longleftrightarrow> prev = None \<or> cur = None \<or> or_zero ag_disk_bytes cur \<noteq> or_zero ag_disk_bytes prev
     \<or> or_zero ag_apparent_bytes cur \<noteq> or_zero ag_apparent_bytes prev"

record diff_query_options =
  dq_order_rows :: bool
  dq_target_path :: "bytes option"
  dq_include_unchanged :: bool

definition diff_order :: "diff_row \<times> bool \<Rightarrow> int \<times> int \<times> bytes" where
  "diff_order r = (- dr_disk_bytes_delta (fst r), - dr_depth (fst r), dr_path (fst r))"

definition fetch_diff_query_rows :: "db \<Rightarrow> snapshot_pair \<Rightarrow> diff_query_options \<Rightarrow> (diff_row \<times> bool) list" where
  "fetch_diff_query_rows d pair opts =
     (let prev_state = snapshot_state d (sr_id (sp_baseline pair));
          curr_state = snapshot_state d (sr_id (sp_current pair));
          rows = concat (map (\<lambda>i. case path_text d i of None \<Rightarrow> [] | Some path \<Rightarrow>
                   concat (map (\<lambda>prev. concat (map (\<lambda>cur.
                      if dq_include_unchanged opts \<or> differs prev cur then [diff_query_row d pair path prev cur] else [])
                      (left_join i curr_state))) (left_join i prev_state)))
                   (all_ids d (dq_target_path opts) prev_state curr_state))
      in if dq_order_rows opts then sort_key diff_order rows else rows)"

subsection \<open>Rows hidden by a collapsed directory\<close>

definition current_collapsed_paths :: "(diff_row \<times> bool) list \<Rightarrow> bytes set" where
  "current_collapsed_paths query_rows = (dr_path \<circ> fst) ` set (filter (\<lambda>(r, current_exists). current_exists \<and> dr_collapsed r) query_rows)"

definition query_current_collapsed_paths :: "db \<Rightarrow> snapshot_pair \<Rightarrow> bytes option \<Rightarrow> bytes set" where
  "query_current_collapsed_paths d pair target_path =
     (let sid = sr_id (sp_current pair);
          current_state =
            (if sr_status (sp_current pair) = COMPLETE
             then map (\<lambda>iv. (iv_path_id iv, iv_state iv)) (filter (interval_holds (sp_root_path pair) sid) (db_intervals d))
             else map (\<lambda>dg. (dg_path_id dg, dg_state dg)) (filter (\<lambda>dg. dg_snapshot_id dg = sid) (db_diagnostics d)))
      in set (filter (path_scope_filter target_path)
           (List.map_filter (\<lambda>(i, st). if ag_collapsed st = 1 then path_text d i else None) current_state)))"

definition has_current_collapsed_ancestor :: "bytes \<Rightarrow> bytes set \<Rightarrow> bool" where
  "has_current_collapsed_ancestor path_bytes collapsed_paths = list_ex (\<lambda>a. a \<in> collapsed_paths) (ancestors path_bytes)"

definition classification_from_row :: "diff_row \<Rightarrow> bytes set \<Rightarrow> string" where
  "classification_from_row row collapsed_paths =
     (if dr_classification row \<noteq> ''deleted'' then dr_classification row
      else if has_current_collapsed_ancestor (dr_path row) collapsed_paths then ''hidden_by_collapse''
      else dr_classification row)"

subsection \<open>The reports\<close>

type_synonym warning_index = "((string \<times> bytes option) \<times> report_warning) list"

definition note_warning :: "warning_index \<Rightarrow> report_warning option \<Rightarrow> warning_index" where
  "note_warning index w = (case w of None \<Rightarrow> index | Some x \<Rightarrow> AList.update (rw_code x, rw_path x) x index)"

definition diff_rows_step ::
    "bytes \<Rightarrow> string \<Rightarrow> snapshot_mount list \<Rightarrow> bytes set \<Rightarrow> warning_index \<times> diff_row list \<Rightarrow> diff_row \<times> bool
     \<Rightarrow> report_error + warning_index \<times> diff_row list" where
  "diff_rows_step root_path group_by mounts collapsed_paths = (\<lambda>(index, rows) (row, _).
     (case resolve_group_for_path (dr_path row) root_path group_by mounts of
        Inl e \<Rightarrow> Inl e
      | Inr (label, warning) \<Rightarrow>
          Inr (note_warning index warning,
               rows @ [row\<lparr> dr_classification := classification_from_row row collapsed_paths, dr_group := label \<rparr>])))"

definition query_diff_rows_with ::
    "db \<Rightarrow> snapshot_pair \<Rightarrow> string \<Rightarrow> diff_query_options \<Rightarrow> report_error + diff_row list \<times> report_warning list" where
  "query_diff_rows_with d pair group_by opts =
     (if group_by \<notin> top_choices then Inl (invalid_group_by group_by)
      else
        (let mounts = (if group_by \<in> {''mount'', ''storage-domain''} then load_snapshot_mounts d (sr_id (sp_current pair)) else []);
             query_rows = fetch_diff_query_rows d pair opts;
             collapsed_paths = (if dq_include_unchanged opts then current_collapsed_paths query_rows
                                else query_current_collapsed_paths d pair (dq_target_path opts))
         in map_sum id (\<lambda>(index, rows). (rows, map snd index))
              (fold_err (diff_rows_step (sp_root_path pair) group_by mounts collapsed_paths) ([], []) query_rows)))"

definition query_diff_rows ::
    "db \<Rightarrow> snapshot_pair \<Rightarrow> string \<Rightarrow> bool \<Rightarrow> bool \<Rightarrow> report_error + diff_row list \<times> report_warning list" where
  "query_diff_rows d pair group_by order_rows include_unchanged =
     query_diff_rows_with d pair group_by
       \<lparr> dq_order_rows = order_rows, dq_target_path = None, dq_include_unchanged = include_unchanged \<rparr>"

text \<open>\<open>rows[:limit]\<close>\<close>

definition py_prefix :: "int \<Rightarrow> 'a list \<Rightarrow> 'a list" where
  "py_prefix n xs = take (nat (if n < 0 then int (length xs) + n else n)) xs"

definition query_deleted_rows :: "db \<Rightarrow> snapshot_pair \<Rightarrow> int \<Rightarrow> string \<Rightarrow> report_error + diff_row list \<times> report_warning list" where
  "query_deleted_rows d pair limit group_by =
     map_sum id (\<lambda>(rows, warnings).
         (py_prefix limit (sort_key (\<lambda>r. (- dr_previous_disk_bytes r, dr_path r))
            (filter (\<lambda>r. dr_classification r = ''deleted'') rows)), warnings))
       (query_diff_rows d pair group_by False True)"

definition query_deepest_collapsed_ancestor_path :: "db \<Rightarrow> int \<Rightarrow> int \<Rightarrow> bytes \<Rightarrow> bytes option" where
  "query_deepest_collapsed_ancestor_path d baseline_id current_id target_path =
     (let prev_state = snapshot_state d baseline_id; curr_state = snapshot_state d current_id;
          candidates = concat (map (\<lambda>i. case path_text d i of None \<Rightarrow> [] | Some path \<Rightarrow>
            concat (map (\<lambda>prev. concat (map (\<lambda>cur.
               if or_zero ag_collapsed (coalesce cur prev) = 1 then [(or_zero ag_depth (coalesce cur prev), path)] else [])
               (left_join i curr_state))) (left_join i prev_state)))
            (all_ids d None prev_state curr_state))
      in List.find (matches_path_prefix target_path) (map snd (sort_key_rev id candidates)))"

definition explain_options :: "bytes \<Rightarrow> diff_query_options" where
  "explain_options target = \<lparr> dq_order_rows = False, dq_target_path = Some target, dq_include_unchanged = True \<rparr>"

definition rows_by_path :: "diff_row list \<Rightarrow> (bytes \<times> diff_row) list" where
  "rows_by_path rows = dict_of (map (\<lambda>r. (dr_path r, r)) rows)"

definition path_not_indexed :: "bytes \<Rightarrow> report_error" where
  "path_not_indexed target = Report_error ''path_not_indexed''
     (''path '' @ py_repr target @ '' is under the selected root but not indexed'')"

definition query_explain_path_rows ::
    "db \<Rightarrow> snapshot_pair \<Rightarrow> bytes \<Rightarrow> string \<Rightarrow> report_error + diff_row list \<times> bytes \<times> report_warning list" where
  "query_explain_path_rows d pair target_path group_by =
     (case query_diff_rows_with d pair group_by (explain_options target_path) of
        Inl e \<Rightarrow> Inl e
      | Inr (diff_rows, warnings) \<Rightarrow>
          if map_of (rows_by_path diff_rows) target_path \<noteq> None
          then Inr (sort_key (\<lambda>r. (dr_depth r, dr_path r))
                 (filter (\<lambda>r. dr_path r = target_path \<or> matches_path_prefix (dr_path r) target_path) diff_rows),
               target_path, warnings)
          else
            (case query_deepest_collapsed_ancestor_path d (sr_id (sp_baseline pair)) (sr_id (sp_current pair)) target_path of
               None \<Rightarrow> Inl (path_not_indexed target_path)
             | Some ancestor_path \<Rightarrow>
                 (case query_diff_rows_with d pair group_by (explain_options ancestor_path) of
                    Inl e \<Rightarrow> Inl e
                  | Inr (rows, warnings) \<Rightarrow>
                      (case map_of (rows_by_path rows) ancestor_path of
                         None \<Rightarrow> Inl (path_not_indexed target_path)
                       | Some row \<Rightarrow> Inr ([row], ancestor_path, warnings)))))"

end
