(* ===== verification/Snapshot_Query_Proofs.thy ===== *)
theory Snapshot_Query_Proofs
  imports Snapshot_Queries Store_Proofs
begin

text \<open>
  The selection of snapshots and the totals over time: the two queries that fetch the totals of many
  snapshots at once give what reading each snapshot alone gives.
\<close>

subsection \<open>Selected snapshots are stored ones\<close>

definition stored_record :: "db \<Rightarrow> snapshot_record \<Rightarrow> bool" where
  "stored_record d r \<longleftrightarrow> (\<exists>s\<in>set (db_snapshots d). usable_row s \<and> pair_record s = Inr r)"

lemma pair_record_fields:
  assumes "pair_record s = Inr r"
  shows "sr_id r = sn_id s" and "sr_root_path r = sn_root_path s" and "sr_finished_at r = sn_finished_at s"
    and "sr_status r = COMPLETE \<longleftrightarrow> sn_status s = status_value COMPLETE"
  using assms by (auto simp: pair_record_def snapshot_record_of_def snapshot_status_from_storage_def status_of_value_def
      split: option.splits if_splits)

lemma readable_fold:
  "fold_err readable_step acc rows = Inr out \<Longrightarrow>
     fst ` set out \<subseteq> fst ` set acc \<union> {r. \<exists>s\<in>set rows. pair_record s = Inr r}"
proof (induction rows arbitrary: acc)
  case (Cons s rows)
  from Cons.prems obtain acc' where a: "readable_step acc s = Inr acc'" "fold_err readable_step acc' rows = Inr out"
    unfolding fold_err.simps case_sum_Inr by blast
  then have one: "fst ` set acc' \<subseteq> fst ` set acc \<union> {r. pair_record s = Inr r}"
    by (auto simp: readable_step_def split: sum.splits)
  have "{r. \<exists>x\<in>set (s # rows). pair_record x = Inr r} = {r. pair_record s = Inr r} \<union> {r. \<exists>x\<in>set rows. pair_record x = Inr r}"
    by auto
  then show ?case using order_trans[OF Cons.IH[OF a(2)] Un_mono[OF one subset_refl]] by (simp only: Un_assoc)
qed simp

lemma root_selection_subset: "set (root_selection cutoff rows) \<subseteq> set rows"
proof -
  have "set (foldl (\<lambda>sel item. if item \<in> set sel then sel else sel @ [item]) acc xs) = set acc \<union> set xs" for acc xs :: "usable list"
    by (induction xs arbitrary: acc) auto
  moreover have "ys \<noteq> [] \<Longrightarrow> last ys \<in> set ys" for ys :: "usable list" by (rule last_in_set)
  then have "filter (\<lambda>item. snd item \<le> cutoff) rows \<noteq> [] \<Longrightarrow> last (filter (\<lambda>item. snd item \<le> cutoff) rows) \<in> set rows"
    by (metis (no_types, lifting) filter_is_subset subsetD)
  ultimately show ?thesis by (auto simp: root_selection_def Let_def)
qed

lemma selection_fold:
  "fold_err (selection_step delta) acc gs = Inr out \<Longrightarrow> set out \<subseteq> set acc \<union> fst ` \<Union>(set ` set gs)"
proof (induction gs arbitrary: acc)
  case (Cons g gs)
  from Cons.prems obtain acc' where a: "selection_step delta acc g = Inr acc'" "fold_err (selection_step delta) acc' gs = Inr out"
    unfolding fold_err.simps case_sum_Inr by blast
  then have "set acc' \<subseteq> set acc \<union> fst ` set g"
    using root_selection_subset by (fastforce simp: selection_step_def Let_def split: if_splits)
  then show ?case using Cons.IH[OF a(2)] by auto
qed simp

lemma selected_stored:
  assumes "select_trend_snapshots since d = Inr snapshots" and "r \<in> set snapshots"
  shows "stored_record d r"
proof -
  from assms(1) obtain delta readable where
    f: "fold_err readable_step [] (trend_rows d) = Inr readable"
    and s: "fold_err (selection_step delta) [] (map snd (group_rows (\<lambda>item. sr_root_path (fst item)) readable)) = Inr snapshots"
    unfolding select_trend_snapshots_def case_sum_Inr by blast
  have "\<Union>(set ` set (map snd (group_rows (\<lambda>item. sr_root_path (fst item)) readable))) \<subseteq> set readable"
    by (auto simp: group_rows_mem)
  note below = image_mono[OF this, of fst]
  have "set snapshots \<subseteq> fst ` \<Union>(set ` set (map snd (group_rows (\<lambda>item. sr_root_path (fst item)) readable)))"
    using selection_fold[OF s] by simp
  then have "r \<in> fst ` set readable" using assms(2) by (rule subsetD[OF order_trans[OF _ below]])
  then obtain row where "row \<in> set (trend_rows d)" "pair_record row = Inr r" using readable_fold[OF f] by auto
  then show ?thesis by (auto simp: stored_record_def trend_rows_def)
qed

lemma stored_inject:
  assumes "distinct (map sn_id (db_snapshots d))" and "stored_record d a" and "stored_record d b" and "sr_id a = sr_id b"
  shows "a = b"
proof -
  from assms(2,3) obtain s t where s: "s \<in> set (db_snapshots d)" "pair_record s = Inr a"
    and t: "t \<in> set (db_snapshots d)" "pair_record t = Inr b" by (auto simp: stored_record_def)
  have "sn_id s = sn_id t" using assms(4) pair_record_fields(1)[OF s(2)] pair_record_fields(1)[OF t(2)] by simp
  then have "s = t" using assms(1) s(1) t(1) by (auto simp: distinct_map dest: inj_onD)
  then show ?thesis using s(2) t(2) by simp
qed

subsection \<open>Totals in bulk\<close>

text \<open>What reading the snapshot itself gives: the totals of its first row of depth 0.\<close>

definition root_total_at :: "db \<Rightarrow> int \<Rightarrow> root_total option" where
  "root_total_at d sid = map_option (root_total_of_state \<circ> snd) (List.find (\<lambda>ds. ag_depth (snd ds) = 0) (snapshot_state d sid))"

text \<open>Each snapshot has at most one row of depth 0.\<close>

definition one_root_row :: "db \<Rightarrow> bool" where
  "one_root_row d \<longleftrightarrow> (\<forall>s\<in>set (db_snapshots d). length (filter (\<lambda>ds. ag_depth (snd ds) = 0) (snapshot_state d (sn_id s))) \<le> 1)"

lemma keys_dict_of: "fst ` set (dict_of kvs) = fst ` set kvs"
proof -
  have "k \<in> fst ` set (dict_of kvs) \<longleftrightarrow> k \<in> fst ` set kvs" for k
    using map_of_eq_None_iff[of "dict_of kvs" k] map_of_eq_None_iff[of "rev kvs" k] by (simp add: map_of_dict_of)
  then show ?thesis by blast
qed

lemma find_eqI:
  assumes "\<And>x. x \<in> set xs \<Longrightarrow> P x \<Longrightarrow> f x = y" and "\<exists>x\<in>set xs. P x"
  shows "map_option f (List.find P xs) = Some y"
  using assms by (induction xs) auto

lemma find_NoneI: "(\<And>x. x \<in> set xs \<Longrightarrow> \<not> P x) \<Longrightarrow> List.find P xs = None"
  by (induction xs) auto

lemma short_filter_unique:
  assumes "length (filter P xs) \<le> 1" and "x \<in> set xs" "P x" and "y \<in> set xs" "P y"
  shows "x = y"
proof -
  have "x \<in> set (filter P xs)" "y \<in> set (filter P xs)" using assms by auto
  then show ?thesis using assms(1) by (cases "filter P xs") (auto simp: le_Suc_eq)
qed

lemma foldl_option_update:
  assumes "\<And>a b. a \<in> set xs \<Longrightarrow> b \<in> set xs \<Longrightarrow> k a = k b \<Longrightarrow> a = b"
  shows "map_of (foldl (\<lambda>d x. case f x of None \<Rightarrow> d | Some v \<Rightarrow> AList.update (k x) v d) [] xs) i
       = (case List.find (\<lambda>x. k x = i) xs of None \<Rightarrow> None | Some x \<Rightarrow> f x)"
  using assms
proof (induction xs rule: rev_induct)
  case (snoc x xs)
  have app: "List.find P (xs @ [x]) = (case List.find P xs of None \<Rightarrow> (if P x then Some x else None) | Some y \<Rightarrow> Some y)" for P
    by (induction xs) auto
  have same: "List.find (\<lambda>y. k y = k x) xs = Some y \<Longrightarrow> y = x" for y
    using snoc.prems[of y x] by (auto simp: find_Some_iff)
  show ?case using snoc same by (auto simp: app dict_simps split: option.splits)
qed simp

lemma dict_get_group: "dict_get (group_rows f rows) k [] = filter (\<lambda>r. f r = k) rows"
proof (cases "k \<in> f ` set rows")
  case True
  then show ?thesis using group_rows_props[of f rows k] by (simp add: dict_get_def)
next
  case False
  then have "filter (\<lambda>r. f r = k) rows = []" by (auto simp: filter_empty_conv)
  then show ?thesis using group_rows_props[of f rows k] False by (simp add: dict_get_def)
qed

lemma complete_total:
  assumes inv: "store_inv d" and one: "one_root_row d" and stored: "\<forall>r\<in>set snaps. stored_record d r"
    and r: "r \<in> set snaps" and c: "sr_status r = COMPLETE"
  shows "map_option (\<lambda>iv. root_total_of_state (iv_state iv))
      (matching_root_interval (dict_get (group_rows iv_root_path (root_interval_rows d snaps)) (sr_root_path r) []) (sr_id r))
    = root_total_at d (sr_id r)"
proof -
  have ids: "distinct (map sn_id (db_snapshots d))" using inv by (simp add: store_inv_def)
  obtain s where s: "s \<in> set (db_snapshots d)" "pair_record s = Inr r" using stored r by (auto simp: stored_record_def)
  note fields = pair_record_fields[OF s(2)]
  let ?H = "\<lambda>iv. interval_holds (sr_root_path r) (sr_id r) iv"
  let ?R = "filter (\<lambda>iv. iv_root_path iv = sr_root_path r) (root_interval_rows d snaps)"
  let ?M = "\<lambda>iv. iv_valid_from iv \<le> sr_id r \<and> (case iv_valid_to iv of None \<Rightarrow> True | Some t \<Rightarrow> sr_id r < t)"
  have bounds: "Min (sr_id ` set snaps) \<le> sr_id r" "sr_id r \<le> Max (sr_id ` set snaps)" using r by simp_all
  have cand: "iv \<in> set ?R \<and> ?M iv \<longleftrightarrow> iv \<in> set (db_intervals d) \<and> ?H iv \<and> ag_depth (iv_state iv) = 0" for iv
  proof -
    have "?M iv \<Longrightarrow> iv_valid_from iv \<le> Max (sr_id ` set snaps)
        \<and> (case iv_valid_to iv of None \<Rightarrow> True | Some t \<Rightarrow> Min (sr_id ` set snaps) < t)"
      using bounds by (auto split: option.splits)
    then show ?thesis using r by (auto simp: root_interval_rows_def Let_def interval_holds_def split: option.splits)
  qed
  have state: "snapshot_state d (sr_id r) = map (\<lambda>iv. (iv_path_id iv, iv_state iv)) (filter ?H (db_intervals d))"
    using snapshot_state_at[OF ids s(1)] c fields by simp
  have uniq: "x = y" if "x \<in> set (snapshot_state d (sr_id r))" "ag_depth (snd x) = 0"
      "y \<in> set (snapshot_state d (sr_id r))" "ag_depth (snd y) = 0" for x y
    using one s(1) fields(1) short_filter_unique[OF _ that] by (auto simp: one_root_row_def)
  have lookup: "dict_get (group_rows iv_root_path (root_interval_rows d snaps)) (sr_root_path r) [] = ?R"
    by (rule dict_get_group)
  show ?thesis
  proof (cases "\<exists>iv\<in>set (db_intervals d). ?H iv \<and> ag_depth (iv_state iv) = 0")
    case True
    then obtain iv where iv: "iv \<in> set (db_intervals d)" "?H iv" "ag_depth (iv_state iv) = 0" by blast
    have mem: "(iv_path_id x, iv_state x) \<in> set (snapshot_state d (sr_id r))" if "x \<in> set (db_intervals d)" "?H x" for x
      using that by (auto simp: state)
    have "map_option (\<lambda>iv. root_total_of_state (iv_state iv)) (List.find ?M ?R) = Some (root_total_of_state (iv_state iv))"
    proof (rule find_eqI)
      fix x assume "x \<in> set ?R" "?M x"
      then have x: "x \<in> set (db_intervals d)" "?H x" "ag_depth (iv_state x) = 0" using cand[of x] by blast+
      have "(iv_path_id x, iv_state x) = (iv_path_id iv, iv_state iv)"
        by (rule uniq[OF mem[OF x(1,2)] _ mem[OF iv(1,2)]]) (use x(3) iv(3) in simp_all)
      then show "root_total_of_state (iv_state x) = root_total_of_state (iv_state iv)" by simp
    next
      show "\<exists>x\<in>set ?R. ?M x" using cand[of iv] iv by blast
    qed
    moreover have "root_total_at d (sr_id r) = Some (root_total_of_state (iv_state iv))"
      unfolding root_total_at_def
    proof (rule find_eqI)
      fix x assume "x \<in> set (snapshot_state d (sr_id r))" "ag_depth (snd x) = 0"
      then have "x = (iv_path_id iv, iv_state iv)" using uniq[OF _ _ mem[OF iv(1,2)]] iv(3) by simp
      then show "(root_total_of_state \<circ> snd) x = root_total_of_state (iv_state iv)" by simp
    next
      show "\<exists>x\<in>set (snapshot_state d (sr_id r)). ag_depth (snd x) = 0" using mem[OF iv(1,2)] iv(3) by force
    qed
    ultimately show ?thesis unfolding lookup matching_root_interval_def by simp
  next
    case False
    have "List.find ?M ?R = None" by (rule find_NoneI) (use cand False in blast)
    moreover have "List.find (\<lambda>ds. ag_depth (snd ds) = 0) (snapshot_state d (sr_id r)) = None"
      by (rule find_NoneI) (use False in \<open>auto simp: state\<close>)
    ultimately show ?thesis unfolding lookup matching_root_interval_def root_total_at_def by simp
  qed
qed

lemma diagnostic_total:
  assumes inv: "store_inv d" and one: "one_root_row d" and stored: "stored_record d r" and r: "r \<in> set snaps"
    and c: "sr_status r \<noteq> COMPLETE"
  shows "map_of (query_diagnostic_root_totals d snaps) (sr_id r) = root_total_at d (sr_id r)"
proof -
  have ids: "distinct (map sn_id (db_snapshots d))" using inv by (simp add: store_inv_def)
  obtain s where s: "s \<in> set (db_snapshots d)" "pair_record s = Inr r" using stored by (auto simp: stored_record_def)
  note fields = pair_record_fields[OF s(2)]
  have state: "snapshot_state d (sr_id r) = map (\<lambda>dg. (dg_path_id dg, dg_state dg)) (filter (\<lambda>dg. dg_snapshot_id dg = sr_id r) (db_diagnostics d))"
    using snapshot_state_at[OF ids s(1)] c fields by simp
  have uniq: "x = y" if "x \<in> set (snapshot_state d (sr_id r))" "ag_depth (snd x) = 0"
      "y \<in> set (snapshot_state d (sr_id r))" "ag_depth (snd y) = 0" for x y
    using one s(1) fields(1) short_filter_unique[OF _ that] by (auto simp: one_root_row_def)
  let ?kvs = "map (\<lambda>dg. (dg_snapshot_id dg, root_total_of_state (dg_state dg)))
     (filter (\<lambda>dg. ag_depth (dg_state dg) = 0 \<and> dg_snapshot_id dg \<in> sr_id ` set snaps) (db_diagnostics d))"
  have "query_diagnostic_root_totals d snaps = dict_of ?kvs" using r by (auto simp: query_diagnostic_root_totals_def)
  then have q: "map_of (query_diagnostic_root_totals d snaps) (sr_id r) = map_of (rev ?kvs) (sr_id r)" by (simp only: map_of_dict_of)
  show ?thesis
  proof (cases "map_of (rev ?kvs) (sr_id r)")
    case None
    then have "\<not> (\<exists>dg\<in>set (db_diagnostics d). ag_depth (dg_state dg) = 0 \<and> dg_snapshot_id dg = sr_id r)"
      using r by (auto simp: map_of_eq_None_iff image_iff)
    then have "List.find (\<lambda>ds. ag_depth (snd ds) = 0) (snapshot_state d (sr_id r)) = None"
      by (intro find_NoneI) (auto simp: state)
    then show ?thesis using q None by (simp add: root_total_at_def)
  next
    case (Some v)
    then have "(sr_id r, v) \<in> set (rev ?kvs)" by (rule map_of_SomeD)
    then obtain dg where dg: "dg \<in> set (db_diagnostics d)" "ag_depth (dg_state dg) = 0" "dg_snapshot_id dg = sr_id r"
      and v: "v = root_total_of_state (dg_state dg)" by auto
    have mem: "(dg_path_id dg, dg_state dg) \<in> set (snapshot_state d (sr_id r))" using dg by (auto simp: state)
    have "root_total_at d (sr_id r) = Some v"
      unfolding root_total_at_def
    proof (rule find_eqI)
      fix x assume "x \<in> set (snapshot_state d (sr_id r))" "ag_depth (snd x) = 0"
      then have "x = (dg_path_id dg, dg_state dg)" using uniq[OF _ _ mem] dg(2) by simp
      then show "(root_total_of_state \<circ> snd) x = v" using v by simp
    next
      show "\<exists>x\<in>set (snapshot_state d (sr_id r)). ag_depth (snd x) = 0" using mem dg(2) by force
    qed
    then show ?thesis using q Some by simp
  qed
qed

lemma root_totals:
  assumes inv: "store_inv d" and one: "one_root_row d" and stored: "\<forall>r\<in>set snaps. stored_record d r" and r: "r \<in> set snaps"
  shows "map_of (query_root_totals_for_snapshots d snaps) (sr_id r) = root_total_at d (sr_id r)"
proof -
  have ids: "distinct (map sn_id (db_snapshots d))" using inv by (simp add: store_inv_def)
  have inj: "a = b" if "a \<in> set snaps" "b \<in> set snaps" "sr_id a = sr_id b" for a b
    using stored_inject[OF ids] stored that by blast
  let ?C = "filter (\<lambda>s. sr_status s = COMPLETE) snaps" and ?D = "filter (\<lambda>s. sr_status s \<noteq> COMPLETE) snaps"
  let ?c = "query_complete_root_totals d ?C" and ?d = "query_diagnostic_root_totals d ?D"
  let ?f = "\<lambda>s. map_option (\<lambda>iv. root_total_of_state (iv_state iv))
      (matching_root_interval (dict_get (group_rows iv_root_path (root_interval_rows d ?C)) (sr_root_path s) []) (sr_id s))"
  have c: "?c = foldl (\<lambda>totals s. case ?f s of None \<Rightarrow> totals | Some v \<Rightarrow> AList.update (sr_id s) v totals) [] ?C"
    unfolding query_complete_root_totals_def Let_def case_map_option comp_def by (cases "?C = []") simp_all
  have cm: "map_of ?c i = (case List.find (\<lambda>s. sr_id s = i) ?C of None \<Rightarrow> None | Some s \<Rightarrow> ?f s)" for i
    unfolding c by (rule foldl_option_update) (use inj in auto)
  have dk: "map_of ?d i = None" if "i \<notin> sr_id ` set ?D" for i
    using that by (auto simp: query_diagnostic_root_totals_def map_of_eq_None_iff keys_dict_of)
  have dd: "distinct (map fst ?d)" by (simp add: query_diagnostic_root_totals_def distinct_dict_of)
  have all: "map_of (query_root_totals_for_snapshots d snaps) i = (case map_of ?d i of None \<Rightarrow> map_of ?c i | Some v \<Rightarrow> Some v)" for i
    using map_of_dict_of[of ?d] dict_of_distinct[OF dd] by (simp add: query_root_totals_for_snapshots_def map_of_foldl_update)
  show ?thesis
  proof (cases "sr_status r = COMPLETE")
    case True
    then have "sr_id r \<notin> sr_id ` set ?D" using inj[OF r] by auto
    moreover have "map_option (\<lambda>s. s) (List.find (\<lambda>s. sr_id s = sr_id r) ?C) = Some r"
      by (rule find_eqI) (use inj r True in auto)
    then have "map_of ?c (sr_id r) = ?f r" using cm[of "sr_id r"] by (simp add: option.map_id[unfolded id_def])
    moreover have "?f r = root_total_at d (sr_id r)" using complete_total[OF inv one _ _ True, of ?C] stored r True by simp
    ultimately show ?thesis using all[of "sr_id r"] dk by simp
  next
    case False
    have "map_of ?d (sr_id r) = root_total_at d (sr_id r)" by (rule diagnostic_total[OF inv one _ _ False]) (use stored r False in auto)
    moreover have "List.find (\<lambda>s. sr_id s = sr_id r) ?C = None" by (rule find_NoneI) (use inj r False in auto)
    then have "map_of ?c (sr_id r) = None" using cm[of "sr_id r"] by simp
    ultimately show ?thesis using all[of "sr_id r"] by (simp split: option.splits)
  qed
qed

lemma timeline_points:
  assumes "store_inv d" and "one_root_row d"
  shows "query_timeline_points since d =
    (case select_trend_snapshots since d of
       Inl e \<Rightarrow> Inl e
     | Inr snapshots \<Rightarrow>
         if snapshots = [] then Inl (no_usable_snapshots since)
         else Inr (map (\<lambda>s. timeline_point_of s (root_total_at d (sr_id s))) snapshots))"
proof (cases "select_trend_snapshots since d")
  case (Inr snaps)
  have "\<forall>r\<in>set snaps. stored_record d r" using selected_stored[OF Inr] by blast
  from root_totals[OF assms this] show ?thesis by (simp add: query_timeline_points_def Inr Let_def)
qed (simp add: query_timeline_points_def)

subsection \<open>Property\<close>

text \<open>
  C28: the timeline of a time span fetches the root totals of all its complete snapshots with one query
  over the interval table and those of the partial ones with another.  On every well-formed store whose
  snapshots have at most one row of depth 0, each point shows exactly what reconstructing its snapshot
  alone gives: the figures of that row, or none if there is no such row.  Errors are those of the
  selection, and an empty selection is the error \<open>no_usable_snapshots\<close>.
\<close>

theorem timeline_agrees_with_snapshots:
  assumes "store_inv d" and "one_root_row d"
  shows "query_timeline_points since d =
    (case select_trend_snapshots since d of
       Inl e \<Rightarrow> Inl e
     | Inr snapshots \<Rightarrow>
         if snapshots = [] then Inl (no_usable_snapshots since)
         else Inr (map (\<lambda>s. timeline_point_of s (root_total_at d (sr_id s))) snapshots))"
  by (rule timeline_points[OF assms])

definition root_state_of :: "int \<Rightarrow> agg_state" where
  "root_state_of b =
     \<lparr> ag_parent_id = None, ag_depth = 0, ag_apparent_bytes = b, ag_disk_bytes = b, ag_file_count = 1, ag_dir_count = 0,
       ag_error = None, ag_hardlink_file_count = 0, ag_hardlink_duplicate_count = 0, ag_hardlink_duplicate_disk_bytes = 0,
       ag_hardlink_first_seen_disk_bytes = 0, ag_collapsed = 0, ag_collapse_reason = None, ag_collapsed_dirs = None,
       ag_top_child_id = None, ag_top_child_disk_bytes = None \<rparr>"

definition timeline_db :: db where
  "timeline_db = empty_db\<lparr>
     db_snapshots := map (\<lambda>(i, t, status).
       \<lparr> sn_id = i, sn_started_at = t, sn_finished_at = Some t, sn_root_path = ''/r'', sn_status = status, sn_notes = None,
         sn_error = None \<rparr>)
       [(1, ''2024-01-01T00:00:00Z'', ''complete''), (2, ''2024-01-02T00:00:00Z'', ''complete''), (3, ''2024-01-03T00:00:00Z'', ''partial'')],
     db_paths := [(1, ''/r'')],
     db_intervals := [\<lparr> iv_root_path = ''/r'', iv_path_id = 1, iv_valid_from = 1, iv_valid_to = Some 2, iv_state = root_state_of 10 \<rparr>,
       \<lparr> iv_root_path = ''/r'', iv_path_id = 1, iv_valid_from = 2, iv_valid_to = None, iv_state = root_state_of 20 \<rparr>],
     db_diagnostics := [\<lparr> dg_snapshot_id = 3, dg_path_id = 1, dg_state = root_state_of 30 \<rparr>] \<rparr>"

lemma timeline_db_ok: "store_inv timeline_db" "one_root_row timeline_db"
proof -
  show "store_inv timeline_db"
    by (simp add: timeline_db_def empty_db_def store_inv_def iv_nonempty_def iv_disjoint_def diagnostic_key_def)
  show "one_root_row timeline_db" by code_simp
qed

lemma timeline_agrees_with_snapshots_witness:
  "map_sum id (map tp_indexed_disk_bytes) (query_timeline_points ''2d'' timeline_db) = Inr [Some 10, Some 20, Some 30]"
  unfolding timeline_agrees_with_snapshots[OF timeline_db_ok] by code_simp

end
