(* ===== verification/Diff_Proofs.thy ===== *)
theory Diff_Proofs
  imports Diff_Query Store_Insert Snapshot_Query_Proofs
begin

text \<open>
  What the diff report says about two snapshots.  \<open>read_path\<close> is the plain reading of a snapshot: the row
  it has for a path.  The report lists each path of either snapshot once, with the differences of the
  two readings and a classification that follows from them.
\<close>

definition read_path :: "db \<Rightarrow> int \<Rightarrow> bytes \<Rightarrow> agg_state option" where
  "read_path d sid path = Option.bind (path_id_of d path) (map_of (snapshot_state d sid))"

subsection \<open>Joins\<close>

lemma left_join_distinct: "distinct (map fst rows) \<Longrightarrow> left_join k rows = [map_of rows k]"
proof (induction rows)
  case (Cons r rows)
  have "fst r \<notin> fst ` set rows" using Cons.prems by simp
  then have "filter (\<lambda>x. fst x = fst r) rows = []" by (induction rows) auto
  then show ?case using Cons by (auto simp: left_join_def Let_def)
qed (simp add: left_join_def)

lemma path_text_iff:
  assumes "paths_ok (db_paths d)"
  shows "path_text d i = Some p \<longleftrightarrow> (i, p) \<in> set (db_paths d)" and "path_id_of d p = Some i \<longleftrightarrow> (i, p) \<in> set (db_paths d)"
proof -
  have f: "(i, p) \<in> set ps" if "List.find (\<lambda>(j, _). j = i) ps = Some (j, p)" for ps :: "(int \<times> bytes) list" and j
    using that by (auto simp: find_Some_iff) (metis nth_mem)
  have g: "(i, p) \<in> set ps" if "List.find (\<lambda>(_, q). q = p) ps = Some (i, q)" for ps :: "(int \<times> bytes) list" and q
    using that by (auto simp: find_Some_iff) (metis nth_mem)
  have key: "a = b" if "(a, x) \<in> set ps" "(b, x) \<in> set ps" "distinct (map snd ps)" for ps :: "(int \<times> bytes) list" and a b x
    using that by (induction ps) force+
  have f': "map_option snd (List.find (\<lambda>(j, _). j = i) ps) = Some p"
    if ps: "(i, p) \<in> set ps" "distinct (map fst ps)" for ps :: "(int \<times> bytes) list"
  proof (rule find_eqI)
    fix x assume x: "x \<in> set ps" "case x of (j, _) \<Rightarrow> j = i"
    then obtain q where q: "x = (i, q)" by (cases x) auto
    show "snd x = p" using eq_key_imp_eq_value[OF ps(2)] x(1) ps(1) q by force
  qed (use ps in auto)
  have g': "map_option fst (List.find (\<lambda>(_, q). q = p) ps) = Some i"
    if ps: "(i, p) \<in> set ps" "distinct (map snd ps)" for ps :: "(int \<times> bytes) list"
  proof (rule find_eqI)
    fix x assume x: "x \<in> set ps" "case x of (_, q) \<Rightarrow> q = p"
    then obtain j where j: "x = (j, p)" by (cases x) auto
    show "fst x = i" using key[OF _ ps(1) ps(2), of j] x(1) j by simp
  qed (use ps in auto)
  show "path_text d i = Some p \<longleftrightarrow> (i, p) \<in> set (db_paths d)"
    using f f'[of "db_paths d"] assms by (auto simp: path_text_def paths_ok_def)
  show "path_id_of d p = Some i \<longleftrightarrow> (i, p) \<in> set (db_paths d)"
    using g g'[of "db_paths d"] assms by (auto simp: path_id_of_def paths_ok_def)
qed

lemma path_text_inj:
  "paths_ok (db_paths d) \<Longrightarrow> path_text d i = Some p \<Longrightarrow> path_text d j = Some p \<Longrightarrow> i = j"
  by (metis option.inject path_text_iff)

lemma read_path_at:
  assumes "paths_ok (db_paths d)" and "path_text d i = Some p"
  shows "read_path d sid p = map_of (snapshot_state d sid) i"
proof -
  have "path_id_of d p = Some i" using path_text_iff[OF assms(1)] assms(2) by blast
  then show ?thesis by (simp add: read_path_def)
qed

lemma read_path_Some:
  assumes "paths_ok (db_paths d)"
  shows "read_path d sid p = Some st \<longleftrightarrow> (\<exists>i. path_text d i = Some p \<and> map_of (snapshot_state d sid) i = Some st)"
  using path_text_iff[OF assms] by (auto simp: read_path_def bind_eq_Some_conv)

lemma state_path_known:
  assumes "refs_resolved d" and "(i, st) \<in> set (snapshot_state d sid)"
  shows "path_text d i \<noteq> None"
proof -
  have "i \<in> path_refs d" using assms(2) by (auto simp: snapshot_state_def path_refs_def split: if_splits)
  then have "i \<in> fst ` set (db_paths d)" using assms(1) by (auto simp: refs_resolved_def)
  then show ?thesis by (auto simp: path_text_def find_None_iff)
qed

subsection \<open>The rows of the query\<close>

definition diff_ids :: "db \<Rightarrow> snapshot_pair \<Rightarrow> bytes option \<Rightarrow> int list" where
  "diff_ids d pair target =
     all_ids d target (snapshot_state d (sr_id (sp_baseline pair))) (snapshot_state d (sr_id (sp_current pair)))"

abbreviation before_at :: "db \<Rightarrow> snapshot_pair \<Rightarrow> int \<Rightarrow> agg_state option" where
  "before_at d pair i \<equiv> map_of (snapshot_state d (sr_id (sp_baseline pair))) i"

abbreviation after_at :: "db \<Rightarrow> snapshot_pair \<Rightarrow> int \<Rightarrow> agg_state option" where
  "after_at d pair i \<equiv> map_of (snapshot_state d (sr_id (sp_current pair))) i"

definition row_at :: "db \<Rightarrow> snapshot_pair \<Rightarrow> int \<Rightarrow> diff_row \<times> bool" where
  "row_at d pair i = diff_query_row d pair (the (path_text d i)) (before_at d pair i) (after_at d pair i)"

lemma diff_ids_iff:
  "i \<in> set (diff_ids d pair target) \<longleftrightarrow>
     (\<exists>p. path_text d i = Some p \<and> path_scope_filter target p) \<and> (before_at d pair i \<noteq> None \<or> after_at d pair i \<noteq> None)"
  by (auto simp: diff_ids_def all_ids_def map_of_eq_None_iff split: option.splits)

lemma concat_if_filter: "concat (map (\<lambda>i. if P i then [f i] else []) xs) = map f (filter P xs)"
  by (induction xs) auto

lemma fetched_rows:
  assumes "store_inv d"
  shows "fetch_diff_query_rows d pair opts =
    (let rows = map (row_at d pair) (filter (\<lambda>i. dq_include_unchanged opts \<or> differs (before_at d pair i) (after_at d pair i))
                  (diff_ids d pair (dq_target_path opts)))
     in if dq_order_rows opts then sort_key diff_order rows else rows)"
proof -
  let ?P = "\<lambda>i. dq_include_unchanged opts \<or> differs (before_at d pair i) (after_at d pair i)"
  note lj = left_join_distinct[OF snapshot_state_distinct[OF assms]]
  have "map (\<lambda>i. case path_text d i of None \<Rightarrow> [] | Some path \<Rightarrow>
       concat (map (\<lambda>prev. concat (map (\<lambda>cur. if dq_include_unchanged opts \<or> differs prev cur then [diff_query_row d pair path prev cur] else [])
         (left_join i (snapshot_state d (sr_id (sp_current pair)))))) (left_join i (snapshot_state d (sr_id (sp_baseline pair))))))
       (diff_ids d pair (dq_target_path opts))
     = map (\<lambda>i. if ?P i then [row_at d pair i] else []) (diff_ids d pair (dq_target_path opts))"
    by (rule map_cong) (auto simp: lj diff_ids_iff row_at_def)
  then show ?thesis unfolding fetch_diff_query_rows_def Let_def diff_ids_def[symmetric] by (simp only: concat_if_filter)
qed

subsection \<open>The loop over the rows\<close>

definition group_at :: "bytes \<Rightarrow> bytes \<Rightarrow> string \<Rightarrow> snapshot_mount list \<Rightarrow> group_label option" where
  "group_at path root_path group_by mounts =
     (case resolve_group_for_path path root_path group_by mounts of Inl _ \<Rightarrow> None | Inr (label, _) \<Rightarrow> label)"

lemma resolve_group_total:
  "group_by \<in> top_choices \<Longrightarrow> \<exists>w. resolve_group_for_path p root_path group_by mounts = Inr (group_at p root_path group_by mounts, w)"
  by (auto simp: group_at_def resolve_group_for_path_def top_choices_def split: option.splits)

definition finished_row :: "bytes \<Rightarrow> string \<Rightarrow> snapshot_mount list \<Rightarrow> bytes set \<Rightarrow> diff_row \<times> bool \<Rightarrow> diff_row" where
  "finished_row root_path group_by mounts collapsed_paths r =
     (fst r)\<lparr> dr_classification := classification_from_row (fst r) collapsed_paths,
             dr_group := group_at (dr_path (fst r)) root_path group_by mounts \<rparr>"

lemma diff_fold:
  assumes "group_by \<in> top_choices"
  shows "\<exists>index'. fold_err (diff_rows_step root_path group_by mounts cps) (index, rows) qs
    = Inr (index', rows @ map (finished_row root_path group_by mounts cps) qs)"
proof (induction qs arbitrary: index rows)
  case (Cons q qs)
  obtain row b where q: "q = (row, b)" by fastforce
  obtain w where w: "resolve_group_for_path (dr_path row) root_path group_by mounts = Inr (group_at (dr_path row) root_path group_by mounts, w)"
    using resolve_group_total[OF assms] by blast
  have "diff_rows_step root_path group_by mounts cps (index, rows) q
      = Inr (note_warning index w, rows @ [finished_row root_path group_by mounts cps q])"
    by (simp add: diff_rows_step_def q w finished_row_def)
  then show ?case using Cons[of "note_warning index w" "rows @ [finished_row root_path group_by mounts cps q]"] by simp
qed simp

definition collapsed_of :: "db \<Rightarrow> snapshot_pair \<Rightarrow> diff_query_options \<Rightarrow> bytes set" where
  "collapsed_of d pair opts =
     (if dq_include_unchanged opts then current_collapsed_paths (fetch_diff_query_rows d pair opts)
      else query_current_collapsed_paths d pair (dq_target_path opts))"

definition mounts_for :: "db \<Rightarrow> snapshot_pair \<Rightarrow> string \<Rightarrow> snapshot_mount list" where
  "mounts_for d pair group_by =
     (if group_by \<in> {''mount'', ''storage-domain''} then load_snapshot_mounts d (sr_id (sp_current pair)) else [])"

lemma diff_rows_with:
  assumes "group_by \<in> top_choices"
  shows "\<exists>ws. query_diff_rows_with d pair group_by opts
    = Inr (map (finished_row (sp_root_path pair) group_by (mounts_for d pair group_by) (collapsed_of d pair opts))
             (fetch_diff_query_rows d pair opts), ws)"
proof -
  from diff_fold[OF assms, of "sp_root_path pair" "mounts_for d pair group_by" "collapsed_of d pair opts" "[]" "[]" "fetch_diff_query_rows d pair opts"]
  obtain index' where "fold_err (diff_rows_step (sp_root_path pair) group_by (mounts_for d pair group_by) (collapsed_of d pair opts)) ([], [])
      (fetch_diff_query_rows d pair opts) = Inr (index', map (finished_row (sp_root_path pair) group_by (mounts_for d pair group_by)
        (collapsed_of d pair opts)) (fetch_diff_query_rows d pair opts))" by auto
  then show ?thesis
    using assms unfolding query_diff_rows_with_def Let_def mounts_for_def[symmetric] collapsed_of_def[symmetric] by simp
qed

lemma diff_rows_group: "query_diff_rows_with d pair group_by opts = Inr out \<Longrightarrow> group_by \<in> top_choices"
  by (auto simp: query_diff_rows_with_def split: if_splits)

subsection \<open>Collapsed directories\<close>

definition folded_paths :: "db \<Rightarrow> int \<Rightarrow> bytes set" where
  "folded_paths d sid = {p. \<exists>st. read_path d sid p = Some st \<and> ag_collapsed st \<noteq> 0}"

lemma row_at_fields [simp]:
  "dr_path (fst (row_at d pair i)) = the (path_text d i)"
  "snd (row_at d pair i) = (after_at d pair i \<noteq> None)"
  "dr_collapsed (fst (row_at d pair i)) = (or_zero ag_collapsed (coalesce (after_at d pair i) (before_at d pair i)) \<noteq> 0)"
  "dr_classification (fst (row_at d pair i)) = sql_classification (before_at d pair i) (after_at d pair i)"
  by (simp_all add: row_at_def diff_query_row_def)

lemma collapsed_from_rows:
  assumes wf: "store_inv d" "paths_ok (db_paths d)" and all: "dq_include_unchanged opts"
  shows "current_collapsed_paths (fetch_diff_query_rows d pair opts)
       = {p \<in> folded_paths d (sr_id (sp_current pair)). path_scope_filter (dq_target_path opts) p}"
proof -
  let ?q = "fetch_diff_query_rows d pair opts"
  have rows: "set ?q = row_at d pair ` set (diff_ids d pair (dq_target_path opts))"
    using all by (simp add: fetched_rows[OF wf(1)] Let_def)
  have "p \<in> current_collapsed_paths ?q \<longleftrightarrow>
      (\<exists>i\<in>set (diff_ids d pair (dq_target_path opts)). \<exists>st. path_text d i = Some p \<and> after_at d pair i = Some st \<and> ag_collapsed st \<noteq> 0)" for p
  proof -
    have "p \<in> current_collapsed_paths ?q \<longleftrightarrow>
        (\<exists>i\<in>set (diff_ids d pair (dq_target_path opts)). p = the (path_text d i) \<and> after_at d pair i \<noteq> None
           \<and> or_zero ag_collapsed (coalesce (after_at d pair i) (before_at d pair i)) \<noteq> 0)"
      unfolding current_collapsed_paths_def set_filter rows by (force simp: case_prod_unfold)
    also have "\<dots> \<longleftrightarrow> (\<exists>i\<in>set (diff_ids d pair (dq_target_path opts)). \<exists>st. path_text d i = Some p \<and> after_at d pair i = Some st \<and> ag_collapsed st \<noteq> 0)"
      by (rule bex_cong) (auto simp: diff_ids_iff coalesce_def or_zero_def)
    finally show ?thesis .
  qed
  moreover have "(\<exists>i\<in>set (diff_ids d pair (dq_target_path opts)). \<exists>st. path_text d i = Some p \<and> after_at d pair i = Some st \<and> ag_collapsed st \<noteq> 0)
      \<longleftrightarrow> p \<in> folded_paths d (sr_id (sp_current pair)) \<and> path_scope_filter (dq_target_path opts) p" for p
    unfolding Bex_def diff_ids_iff folded_paths_def read_path_Some[OF wf(2)] mem_Collect_eq by fastforce
  ultimately show ?thesis by blast
qed

text \<open>The pair's current snapshot is one the store has, with its root and status.\<close>

definition pair_stored :: "db \<Rightarrow> snapshot_pair \<Rightarrow> bool" where
  "pair_stored d pair \<longleftrightarrow> sp_root_path pair = sr_root_path (sp_current pair)
     \<and> (\<exists>s\<in>set (db_snapshots d). pair_record s = Inr (sp_current pair))"

text \<open>The flag column holds 0 or 1, as the writer stores it.\<close>

definition flags_ok :: "db \<Rightarrow> bool" where
  "flags_ok d \<longleftrightarrow> (\<forall>iv\<in>set (db_intervals d). ag_collapsed (iv_state iv) \<in> {0, 1})
     \<and> (\<forall>dg\<in>set (db_diagnostics d). ag_collapsed (dg_state dg) \<in> {0, 1})"

lemma collapsed_from_query:
  assumes wf: "store_inv d" "paths_ok (db_paths d)" and stored: "pair_stored d pair" and fl: "flags_ok d"
  shows "query_current_collapsed_paths d pair target
       = {p \<in> folded_paths d (sr_id (sp_current pair)). path_scope_filter target p}"
proof -
  let ?sid = "sr_id (sp_current pair)"
  obtain s where s: "s \<in> set (db_snapshots d)" "pair_record s = Inr (sp_current pair)" and r: "sp_root_path pair = sr_root_path (sp_current pair)"
    using stored by (auto simp: pair_stored_def)
  note f = pair_record_fields[OF s(2)]
  have ids: "distinct (map sn_id (db_snapshots d))" using wf(1) by (simp add: store_inv_def)
  have "snapshot_state d ?sid = (if sr_status (sp_current pair) = COMPLETE
             then map (\<lambda>iv. (iv_path_id iv, iv_state iv)) (filter (interval_holds (sp_root_path pair) ?sid) (db_intervals d))
             else map (\<lambda>dg. (dg_path_id dg, dg_state dg)) (filter (\<lambda>dg. dg_snapshot_id dg = ?sid) (db_diagnostics d)))"
    using snapshot_state_at[OF ids s(1)] f r by simp
  then have q: "query_current_collapsed_paths d pair target = set (filter (path_scope_filter target)
        (List.map_filter (\<lambda>(i, st). if ag_collapsed st = 1 then path_text d i else None) (snapshot_state d ?sid)))"
    by (simp add: query_current_collapsed_paths_def Let_def)
  have one: "ag_collapsed st = 1 \<longleftrightarrow> ag_collapsed st \<noteq> 0" if "(i, st) \<in> set (snapshot_state d ?sid)" for i st
    using that fl by (auto simp: snapshot_state_def flags_ok_def split: if_splits)
  have mem: "map_of (snapshot_state d ?sid) i = Some st \<longleftrightarrow> (i, st) \<in> set (snapshot_state d ?sid)" for i st
    using snapshot_state_distinct[OF wf(1)] by (rule map_of_eq_Some_iff)
  have "p \<in> set (List.map_filter (\<lambda>(i, st). if ag_collapsed st = 1 then path_text d i else None) (snapshot_state d ?sid))
      \<longleftrightarrow> p \<in> folded_paths d ?sid" for p
  proof -
    have "p \<in> set (List.map_filter (\<lambda>(i, st). if ag_collapsed st = 1 then path_text d i else None) (snapshot_state d ?sid))
        \<longleftrightarrow> (\<exists>i st. (i, st) \<in> set (snapshot_state d ?sid) \<and> ag_collapsed st = 1 \<and> path_text d i = Some p)"
      by (force simp: set_map_filter split: if_splits)
    also have "\<dots> \<longleftrightarrow> p \<in> folded_paths d ?sid"
      unfolding folded_paths_def read_path_Some[OF wf(2)] mem mem_Collect_eq using one by blast
    finally show ?thesis .
  qed
  then show ?thesis unfolding q by auto
qed

subsection \<open>The full diff\<close>

definition expected_class :: "(bytes \<Rightarrow> agg_state option) \<Rightarrow> (bytes \<Rightarrow> agg_state option) \<Rightarrow> bytes \<Rightarrow> string" where
  "expected_class before after p =
     (case (before p, after p) of
        (None, _) \<Rightarrow> ''created''
      | (Some b, None) \<Rightarrow>
          if \<exists>a\<in>set (ancestors p). \<exists>st. after a = Some st \<and> ag_collapsed st \<noteq> 0 then ''hidden_by_collapse'' else ''deleted''
      | (Some b, Some a) \<Rightarrow>
          (let old = (ag_disk_bytes b, ag_apparent_bytes b); new = (ag_disk_bytes a, ag_apparent_bytes a)
           in if old < new then ''grown'' else if new < old then ''shrunk'' else ''unchanged''))"

lemma diff_rows_form:
  assumes wf: "db_wf d" and q: "query_diff_rows d pair group_by ord True = Inr (rows, ws)"
  obtains f where "\<And>x. f x = (finished_row (sp_root_path pair) group_by (mounts_for d pair group_by) (folded_paths d (sr_id (sp_current pair)))) x"
    and "mset rows = mset (map (\<lambda>i. f (row_at d pair i)) (diff_ids d pair None))"
    and "map dr_path (map (\<lambda>i. f (row_at d pair i)) is) = map (\<lambda>i. the (path_text d i)) is"
proof -
  let ?o = "\<lparr> dq_order_rows = ord, dq_target_path = None, dq_include_unchanged = True \<rparr>"
  let ?f = "finished_row (sp_root_path pair) group_by (mounts_for d pair group_by) (folded_paths d (sr_id (sp_current pair)))"
  have inv: "store_inv d" "paths_ok (db_paths d)" using wf by (simp_all add: db_wf_def)
  have qw: "query_diff_rows_with d pair group_by ?o = Inr (rows, ws)" using q by (simp add: query_diff_rows_def)
  have "collapsed_of d pair ?o = folded_paths d (sr_id (sp_current pair))"
    using collapsed_from_rows[OF inv, of ?o] by (simp add: collapsed_of_def path_scope_filter_def)
  then have rows: "rows = map ?f (fetch_diff_query_rows d pair ?o)"
    using diff_rows_with[OF diff_rows_group[OF qw], of d pair ?o] qw by auto
  have "mset (fetch_diff_query_rows d pair ?o) = mset (map (row_at d pair) (diff_ids d pair None))"
    by (simp add: fetched_rows[OF inv(1)] Let_def)
  then have "mset rows = image_mset ?f (mset (map (row_at d pair) (diff_ids d pair None)))" unfolding rows by simp
  then have m: "mset rows = mset (map (\<lambda>i. ?f (row_at d pair i)) (diff_ids d pair None))"
    by (simp add: image_mset.compositionality comp_def)
  show thesis by (rule that[of ?f, OF refl m]) (simp add: finished_row_def)
qed

lemma diff_ids_distinct: "distinct (diff_ids d pair target)"
  by (simp add: diff_ids_def all_ids_def)

lemma diff_ids_paths:
  assumes wf: "db_wf d" "refs_resolved d"
  shows "distinct (map (\<lambda>i. the (path_text d i)) (diff_ids d pair target))"
    and "(\<lambda>i. the (path_text d i)) ` set (diff_ids d pair target)
       = {p. (read_path d (sr_id (sp_baseline pair)) p \<noteq> None \<or> read_path d (sr_id (sp_current pair)) p \<noteq> None) \<and> path_scope_filter target p}"
proof -
  have ps: "paths_ok (db_paths d)" using wf(1) by (simp add: db_wf_def)
  have "inj_on (\<lambda>i. the (path_text d i)) (set (diff_ids d pair target))"
    by (rule inj_onI) (auto simp: diff_ids_iff dest: path_text_inj[OF ps])
  then show "distinct (map (\<lambda>i. the (path_text d i)) (diff_ids d pair target))"
    by (simp add: distinct_map diff_ids_distinct)
  let ?b = "sr_id (sp_baseline pair)" and ?c = "sr_id (sp_current pair)"
  have img: "p \<in> (\<lambda>i. the (path_text d i)) ` set (diff_ids d pair target) \<longleftrightarrow>
      (\<exists>i. path_text d i = Some p \<and> path_scope_filter target p \<and> (before_at d pair i \<noteq> None \<or> after_at d pair i \<noteq> None))" for p
    unfolding image_iff Bex_def diff_ids_iff by fastforce
  have reads: "(\<exists>i. path_text d i = Some p \<and> path_scope_filter target p \<and> (before_at d pair i \<noteq> None \<or> after_at d pair i \<noteq> None))
      \<longleftrightarrow> (read_path d ?b p \<noteq> None \<or> read_path d ?c p \<noteq> None) \<and> path_scope_filter target p" for p
    unfolding not_None_eq read_path_Some[OF ps] by blast
  show "(\<lambda>i. the (path_text d i)) ` set (diff_ids d pair target)
       = {p. (read_path d ?b p \<noteq> None \<or> read_path d ?c p \<noteq> None) \<and> path_scope_filter target p}"
    by (rule set_eqI) (simp only: img reads mem_Collect_eq)
qed

lemma class_at:
  assumes wf: "db_wf d" "refs_resolved d" and i: "path_text d i = Some p" "before_at d pair i \<noteq> None \<or> after_at d pair i \<noteq> None"
  shows "classification_from_row (fst (row_at d pair i)) (folded_paths d (sr_id (sp_current pair)))
       = expected_class (read_path d (sr_id (sp_baseline pair))) (read_path d (sr_id (sp_current pair))) p"
proof -
  have ps: "paths_ok (db_paths d)" using wf(1) by (simp add: db_wf_def)
  have b: "read_path d (sr_id (sp_baseline pair)) p = before_at d pair i" and c: "read_path d (sr_id (sp_current pair)) p = after_at d pair i"
    by (rule read_path_at[OF ps i(1)])+
  have fold: "has_current_collapsed_ancestor p (folded_paths d (sr_id (sp_current pair)))
      \<longleftrightarrow> (\<exists>a\<in>set (ancestors p). \<exists>st. read_path d (sr_id (sp_current pair)) a = Some st \<and> ag_collapsed st \<noteq> 0)"
    by (simp add: has_current_collapsed_ancestor_def folded_paths_def list_ex_iff)
  show ?thesis
  proof (cases "before_at d pair i")
    case None
    then show ?thesis by (simp add: classification_from_row_def sql_classification_def expected_class_def b)
  next
    case (Some st)
    show ?thesis
    proof (cases "after_at d pair i")
      case None
      then show ?thesis using Some i(1) fold
        by (simp add: classification_from_row_def sql_classification_def expected_class_def b c)
    next
      case (Some st')
      then show ?thesis using \<open>before_at d pair i = Some st\<close>
        by (simp add: classification_from_row_def sql_classification_def expected_class_def b c or_zero_def Let_def)
    qed
  qed
qed

definition describes :: "(bytes \<Rightarrow> agg_state option) \<Rightarrow> (bytes \<Rightarrow> agg_state option) \<Rightarrow> diff_row \<Rightarrow> bool" where
  "describes before after r \<longleftrightarrow>
     (let p = dr_path r in
        dr_previous_disk_bytes r = or_zero ag_disk_bytes (before p) \<and> dr_current_disk_bytes r = or_zero ag_disk_bytes (after p)
      \<and> dr_disk_bytes_delta r = or_zero ag_disk_bytes (after p) - or_zero ag_disk_bytes (before p)
      \<and> dr_previous_apparent_bytes r = or_zero ag_apparent_bytes (before p)
      \<and> dr_current_apparent_bytes r = or_zero ag_apparent_bytes (after p)
      \<and> dr_apparent_bytes_delta r = or_zero ag_apparent_bytes (after p) - or_zero ag_apparent_bytes (before p)
      \<and> dr_classification r = expected_class before after p)"

lemma finished_describes:
  assumes wf: "db_wf d" "refs_resolved d" and i: "i \<in> set (diff_ids d pair target)"
  shows "describes (read_path d (sr_id (sp_baseline pair))) (read_path d (sr_id (sp_current pair)))
    (finished_row root_path group_by mounts (folded_paths d (sr_id (sp_current pair))) (row_at d pair i))"
proof -
  have ps: "paths_ok (db_paths d)" using wf(1) by (simp add: db_wf_def)
  obtain p where p: "path_text d i = Some p" and some: "before_at d pair i \<noteq> None \<or> after_at d pair i \<noteq> None"
    using i by (auto simp: diff_ids_iff)
  have "read_path d (sr_id (sp_baseline pair)) p = before_at d pair i" "read_path d (sr_id (sp_current pair)) p = after_at d pair i"
    by (rule read_path_at[OF ps p])+
  then show ?thesis using class_at[OF wf p some] p
    unfolding describes_def finished_row_def Let_def by (simp add: row_at_def diff_query_row_def)
qed

lemma diff_rows_describe:
  assumes wf: "db_wf d" "refs_resolved d" and q: "query_diff_rows d pair group_by ord True = Inr (rows, ws)"
  shows "distinct (map dr_path rows)
    \<and> set (map dr_path rows) = {p. read_path d (sr_id (sp_baseline pair)) p \<noteq> None \<or> read_path d (sr_id (sp_current pair)) p \<noteq> None}
    \<and> (\<forall>r\<in>set rows. describes (read_path d (sr_id (sp_baseline pair))) (read_path d (sr_id (sp_current pair))) r)"
proof -
  obtain f where f: "\<And>x. f x = (finished_row (sp_root_path pair) group_by (mounts_for d pair group_by) (folded_paths d (sr_id (sp_current pair)))) x"
    and m0: "mset rows = mset (map (\<lambda>i. f (row_at d pair i)) (diff_ids d pair None))"
    and paths: "map dr_path (map (\<lambda>i. f (row_at d pair i)) (diff_ids d pair None)) = map (\<lambda>i. the (path_text d i)) (diff_ids d pair None)"
    by (rule diff_rows_form[OF wf(1) q]) (rule that)
  have rows: "set rows = (\<lambda>i. f (row_at d pair i)) ` set (diff_ids d pair None)" using mset_eq_setD[OF m0] by simp
  have m: "mset (map dr_path rows) = mset (map (\<lambda>i. the (path_text d i)) (diff_ids d pair None))"
    unfolding paths[symmetric] using arg_cong[OF m0, of "image_mset dr_path"] by (simp only: mset_map)
  have "distinct (map dr_path rows)" using mset_eq_imp_distinct_iff[OF m] diff_ids_paths(1)[OF wf, of pair None] by simp
  moreover have "set (map dr_path rows) = {p. read_path d (sr_id (sp_baseline pair)) p \<noteq> None \<or> read_path d (sr_id (sp_current pair)) p \<noteq> None}"
    using mset_eq_setD[OF m] diff_ids_paths(2)[OF wf, of pair None] by (simp add: path_scope_filter_def)
  moreover have "\<forall>r\<in>set rows. describes (read_path d (sr_id (sp_baseline pair))) (read_path d (sr_id (sp_current pair))) r"
    unfolding rows using finished_describes[OF wf, of _ pair None] by (simp add: f)
  ultimately show ?thesis by blast
qed

subsection \<open>Leaving out what did not change\<close>

lemma differs_class: "differs prev cur \<longleftrightarrow> sql_classification prev cur \<noteq> ''unchanged''"
  by (auto simp: differs_def sql_classification_def)

lemma short_diff:
  assumes wf: "db_wf d" and stored: "pair_stored d pair" and fl: "flags_ok d"
    and q: "query_diff_rows d pair group_by ord True = Inr (rows, ws)"
  shows "\<exists>ws'. query_diff_rows d pair group_by ord False = Inr (filter (\<lambda>r. dr_classification r \<noteq> ''unchanged'') rows, ws')"
proof -
  let ?o = "\<lambda>u. \<lparr> dq_order_rows = ord, dq_target_path = None, dq_include_unchanged = u \<rparr>"
  let ?C = "folded_paths d (sr_id (sp_current pair))"
  let ?f = "finished_row (sp_root_path pair) group_by (mounts_for d pair group_by) ?C"
  have inv: "store_inv d" "paths_ok (db_paths d)" using wf by (simp_all add: db_wf_def)
  have q': "query_diff_rows_with d pair group_by (?o True) = Inr (rows, ws)" using q by (simp add: query_diff_rows_def)
  note g = diff_rows_group[OF q']
  have c: "collapsed_of d pair (?o True) = ?C" "collapsed_of d pair (?o False) = ?C"
    using collapsed_from_rows[OF inv, of "?o True"] collapsed_from_query[OF inv stored fl, of None]
    by (simp_all add: collapsed_of_def path_scope_filter_def)
  have rows: "rows = map ?f (fetch_diff_query_rows d pair (?o True))"
    using diff_rows_with[OF g, of d pair "?o True"] q' unfolding c by auto
  obtain ws' where short: "query_diff_rows_with d pair group_by (?o False) = Inr (map ?f (fetch_diff_query_rows d pair (?o False)), ws')"
    using diff_rows_with[OF g, of d pair "?o False"] unfolding c by blast
  let ?P = "\<lambda>r. dr_classification (fst r) \<noteq> ''unchanged''"
  have "fetch_diff_query_rows d pair (?o False) = filter ?P (fetch_diff_query_rows d pair (?o True))"
    by (simp add: fetched_rows[OF inv(1)] Let_def filter_sort filter_map comp_def differs_class)
  moreover have "dr_classification (?f r) \<noteq> ''unchanged'' \<longleftrightarrow> ?P r" for r
    by (auto simp: finished_row_def classification_from_row_def)
  ultimately have "map ?f (fetch_diff_query_rows d pair (?o False)) = filter (\<lambda>r. dr_classification r \<noteq> ''unchanged'') rows"
    unfolding rows by (simp add: filter_map comp_def)
  then show ?thesis using short by (auto simp: query_diff_rows_def)
qed

subsection \<open>Properties\<close>

text \<open>
  C7: the diff of two snapshots is exactly the comparison of what each reads.  Every path that either
  snapshot has is listed once and no other; its figures are those of the two snapshots (zero where the
  path is missing) with their differences; and it is \<open>created\<close> or \<open>deleted\<close> if only one snapshot has it,
  \<open>hidden_by_collapse\<close> instead of deleted if the current snapshot has a collapsed directory above it,
  and otherwise \<open>grown\<close>, \<open>shrunk\<close> or \<open>unchanged\<close> by the disk bytes first and the apparent bytes second.
\<close>

theorem diff_describes_snapshots:
  assumes "db_wf d" and "refs_resolved d" and "query_diff_rows d pair group_by ord True = Inr (rows, ws)"
  shows "distinct (map dr_path rows)
    \<and> set (map dr_path rows) = {p. read_path d (sr_id (sp_baseline pair)) p \<noteq> None \<or> read_path d (sr_id (sp_current pair)) p \<noteq> None}
    \<and> (\<forall>r\<in>set rows. describes (read_path d (sr_id (sp_baseline pair))) (read_path d (sr_id (sp_current pair))) r)"
  by (rule diff_rows_describe[OF assms])

definition dir_state :: "int option \<Rightarrow> int \<Rightarrow> int \<Rightarrow> int \<Rightarrow> agg_state" where
  "dir_state parent depth b c = (root_state_of b)\<lparr> ag_parent_id := parent, ag_depth := depth, ag_collapsed := c \<rparr>"

text \<open>Two complete snapshots: \<open>/r/a\<close> grows and collapses its subdirectory, \<open>/r/b\<close> goes, \<open>/r/c\<close> comes.\<close>

definition diff_db :: db where
  "diff_db = timeline_db\<lparr>
     db_paths := [(1, ''/r''), (2, ''/r/a''), (3, ''/r/a/x''), (4, ''/r/b''), (5, ''/r/c'')],
     db_intervals := map (\<lambda>(p, a, b, st). \<lparr> iv_root_path = ''/r'', iv_path_id = p, iv_valid_from = a, iv_valid_to = b, iv_state = st \<rparr>)
       [(1, 1, Some 2, dir_state None 0 60 0), (1, 2, None, dir_state None 0 90 0),
        (2, 1, Some 2, dir_state (Some 1) 1 20 0), (2, 2, None, dir_state (Some 1) 1 70 1),
        (3, 1, Some 2, dir_state (Some 2) 2 10 0), (4, 1, Some 2, dir_state (Some 1) 1 30 0),
        (5, 2, None, dir_state (Some 1) 1 10 0)],
     db_diagnostics := [] \<rparr>"

definition diff_pair :: snapshot_pair where
  "diff_pair = (case (pair_record (db_snapshots diff_db ! 0), pair_record (db_snapshots diff_db ! 1)) of
     (Inr a, Inr b) \<Rightarrow> pair_of ''/r'' a b [])"

lemma diff_db_ok: "db_wf diff_db" "refs_resolved diff_db" "pair_stored diff_db diff_pair" "flags_ok diff_db"
proof -
  show "db_wf diff_db"
    by (simp add: diff_db_def timeline_db_def empty_db_def db_wf_def store_inv_def paths_ok_def ids_known_def snapshot_ids_def
        iv_nonempty_def iv_disjoint_def)
  show "refs_resolved diff_db"
    by (simp add: diff_db_def timeline_db_def empty_db_def refs_resolved_def path_refs_def state_path_refs_def dir_state_def root_state_of_def)
  show "pair_stored diff_db diff_pair" by code_simp
  show "flags_ok diff_db" by code_simp
qed

definition sample_diff :: "diff_row list \<times> report_warning list" where
  "sample_diff = (case query_diff_rows diff_db diff_pair ''root'' True True of Inr out \<Rightarrow> out)"

lemma sample_diff_ok: "query_diff_rows diff_db diff_pair ''root'' True True = Inr (fst sample_diff, snd sample_diff)"
  by code_simp

lemma sample_diff_classes: "map (\<lambda>r. (dr_path r, dr_classification r)) (fst sample_diff)
    = [(''/r/a'', ''grown''), (''/r'', ''grown''), (''/r/c'', ''created''), (''/r/a/x'', ''hidden_by_collapse''), (''/r/b'', ''deleted'')]"
  by code_simp

lemma diff_describes_snapshots_witness:
  "\<exists>r\<in>set (fst sample_diff). dr_path r = ''/r/a/x''
     \<and> dr_classification r = expected_class (read_path diff_db 1) (read_path diff_db 2) ''/r/a/x''"
proof -
  have ids: "sr_id (sp_baseline diff_pair) = 1" "sr_id (sp_current diff_pair) = 2" by code_simp+
  note d = diff_describes_snapshots[OF diff_db_ok(1,2) sample_diff_ok, unfolded ids]
  have "''/r/a/x'' \<in> set (map dr_path (fst sample_diff))" by code_simp
  then have "''/r/a/x'' \<in> dr_path ` set (fst sample_diff)" unfolding set_map .
  then obtain r where p: "''/r/a/x'' = dr_path r" and mem: "r \<in> set (fst sample_diff)" by (rule imageE)
  note r = mem p[symmetric]
  have "describes (read_path diff_db 1) (read_path diff_db 2) r" by (rule bspec[OF d[THEN conjunct2, THEN conjunct2] r(1)])
  then have "dr_classification r = expected_class (read_path diff_db 1) (read_path diff_db 2) ''/r/a/x''"
    unfolding describes_def Let_def r(2) by (elim conjE)
  then show ?thesis by (intro bexI[OF _ r(1)] conjI r(2))
qed

text \<open>
  The short form of the diff, which leaves unchanged paths out and therefore asks the database
  separately which current directories are collapsed, gives exactly the changed rows of the full diff,
  in the same order and with the same classification.
\<close>

theorem short_diff_agrees:
  assumes "db_wf d" and "pair_stored d pair" and "flags_ok d"
    and "query_diff_rows d pair group_by ord True = Inr (rows, ws)"
  shows "\<exists>ws'. query_diff_rows d pair group_by ord False = Inr (filter (\<lambda>r. dr_classification r \<noteq> ''unchanged'') rows, ws')"
  by (rule short_diff[OF assms])

lemma short_diff_agrees_witness:
  "\<exists>ws'. query_diff_rows diff_db diff_pair ''root'' True False
     = Inr (filter (\<lambda>r. dr_classification r \<noteq> ''unchanged'') (fst sample_diff), ws')"
  by (rule short_diff_agrees[OF diff_db_ok(1,3,4) sample_diff_ok])

end
