(* ===== verification/Fast_Query.thy ===== *)
theory Fast_Query
  imports Diff_Proofs
begin

text \<open>
  The fast growth and shrink reports (\<open>_query_fast_delta_rows\<close> of \<open>reporting/queries.py\<close>), which only
  read the first three levels of both snapshots, and the summary of a diff (\<open>summarize_diff_rows\<close>).
\<close>

subsection \<open>The shallow query\<close>

definition shallow :: "int \<Rightarrow> agg_state \<Rightarrow> bool" where
  "shallow max_depth st \<longleftrightarrow> 1 \<le> ag_depth st \<and> ag_depth st \<le> 3 \<and> ag_depth st \<le> max_depth"

definition fast_state :: "db \<Rightarrow> pathname \<Rightarrow> snapshot_record \<Rightarrow> int \<Rightarrow> (int \<times> agg_state) list" where
  "fast_state d root_path snapshot max_depth =
     (if sr_status snapshot = COMPLETE
      then map (\<lambda>iv. (iv_path_id iv, iv_state iv))
             (filter (\<lambda>iv. interval_holds root_path (sr_id snapshot) iv \<and> shallow max_depth (iv_state iv)) (db_intervals d))
      else [])
     @ map (\<lambda>dg. (dg_path_id dg, dg_state dg))
         (filter (\<lambda>dg. dg_snapshot_id dg = sr_id snapshot \<and> shallow max_depth (dg_state dg)) (db_diagnostics d))"

definition fast_row :: "snapshot_pair \<Rightarrow> bytes \<Rightarrow> agg_state option \<Rightarrow> agg_state option \<Rightarrow> fast_growth_row" where
  "fast_row pair path prev cur =
     \<lparr> fg_root_path = sp_root_path pair, fg_baseline_snapshot_id = sr_id (sp_baseline pair),
       fg_current_snapshot_id = sr_id (sp_current pair), fg_path = path, fg_depth = or_zero ag_depth (coalesce cur prev),
       fg_classification = sql_classification prev cur,
       fg_previous_disk_bytes = or_zero ag_disk_bytes prev, fg_current_disk_bytes = or_zero ag_disk_bytes cur,
       fg_disk_bytes_delta = or_zero ag_disk_bytes cur - or_zero ag_disk_bytes prev,
       fg_previous_apparent_bytes = or_zero ag_apparent_bytes prev, fg_current_apparent_bytes = or_zero ag_apparent_bytes cur,
       fg_apparent_bytes_delta = or_zero ag_apparent_bytes cur - or_zero ag_apparent_bytes prev,
       fg_previous_hardlink_file_count = or_zero ag_hardlink_file_count prev,
       fg_current_hardlink_file_count = or_zero ag_hardlink_file_count cur,
       fg_hardlink_file_count_delta = or_zero ag_hardlink_file_count cur - or_zero ag_hardlink_file_count prev,
       fg_previous_hardlink_duplicate_count = or_zero ag_hardlink_duplicate_count prev,
       fg_current_hardlink_duplicate_count = or_zero ag_hardlink_duplicate_count cur,
       fg_hardlink_duplicate_count_delta = or_zero ag_hardlink_duplicate_count cur - or_zero ag_hardlink_duplicate_count prev,
       fg_previous_hardlink_duplicate_disk_bytes = or_zero ag_hardlink_duplicate_disk_bytes prev,
       fg_current_hardlink_duplicate_disk_bytes = or_zero ag_hardlink_duplicate_disk_bytes cur,
       fg_hardlink_duplicate_disk_bytes_delta =
         or_zero ag_hardlink_duplicate_disk_bytes cur - or_zero ag_hardlink_duplicate_disk_bytes prev,
       fg_previous_hardlink_first_seen_disk_bytes = or_zero ag_hardlink_first_seen_disk_bytes prev,
       fg_current_hardlink_first_seen_disk_bytes = or_zero ag_hardlink_first_seen_disk_bytes cur,
       fg_hardlink_first_seen_disk_bytes_delta =
         or_zero ag_hardlink_first_seen_disk_bytes cur - or_zero ag_hardlink_first_seen_disk_bytes prev \<rparr>"

datatype fast_direction = Growth | Shrink

definition direction_of :: "string \<Rightarrow> fast_direction option" where
  "direction_of direction = (if direction = ''growth'' then Some Growth else if direction = ''shrink'' then Some Shrink else None)"

fun direction_filter :: "fast_direction \<Rightarrow> fast_growth_row \<Rightarrow> bool" where
  "direction_filter Growth r \<longleftrightarrow> fg_current_disk_bytes r > fg_previous_disk_bytes r \<or> fg_current_apparent_bytes r > fg_previous_apparent_bytes r"
| "direction_filter Shrink r \<longleftrightarrow> fg_current_disk_bytes r < fg_previous_disk_bytes r \<or> fg_current_apparent_bytes r < fg_previous_apparent_bytes r"

fun direction_order :: "fast_direction \<Rightarrow> fast_growth_row \<Rightarrow> int \<times> int \<times> int \<times> bytes" where
  "direction_order Growth r = (- fg_disk_bytes_delta r, - fg_apparent_bytes_delta r, fg_depth r, fg_path r)"
| "direction_order Shrink r = (- \<bar>fg_disk_bytes_delta r\<bar>, - \<bar>fg_apparent_bytes_delta r\<bar>, fg_depth r, fg_path r)"

definition query_fast_delta_rows ::
    "db \<Rightarrow> snapshot_pair \<Rightarrow> int \<Rightarrow> int \<Rightarrow> string \<Rightarrow> report_error + fast_growth_row list" where
  "query_fast_delta_rows d pair limit max_depth direction =
     (case direction_of direction of
        None \<Rightarrow> Inl (Uncaught ''ValueError'')
      | Some dir \<Rightarrow>
          (let prev_state = fast_state d (sp_root_path pair) (sp_baseline pair) max_depth;
               cur_state = fast_state d (sp_root_path pair) (sp_current pair) max_depth;
               rows = concat (map (\<lambda>i. case path_text d i of None \<Rightarrow> [] | Some path \<Rightarrow>
                        concat (map (\<lambda>prev. map (fast_row pair path prev) (left_join i cur_state)) (left_join i prev_state)))
                        (all_ids d None prev_state cur_state))
           in Inr (sql_limit limit (sort_key (direction_order dir) (filter (direction_filter dir) rows)))))"

definition query_fast_growth_rows :: "db \<Rightarrow> snapshot_pair \<Rightarrow> int \<Rightarrow> int \<Rightarrow> report_error + fast_growth_row list" where
  "query_fast_growth_rows d pair limit max_depth = query_fast_delta_rows d pair limit max_depth ''growth''"

definition query_fast_shrink_rows :: "db \<Rightarrow> snapshot_pair \<Rightarrow> int \<Rightarrow> int \<Rightarrow> report_error + fast_growth_row list" where
  "query_fast_shrink_rows d pair limit max_depth = query_fast_delta_rows d pair limit max_depth ''shrink''"

subsection \<open>The summary of a diff\<close>

definition count_up :: "string \<Rightarrow> int \<Rightarrow> (string \<times> int) list \<Rightarrow> (string \<times> int) list" where
  "count_up k n totals = AList.update k (dict_get totals k 0 + n) totals"

record group_accumulator =
  ga_group :: "group_label option"
  ga_path_count :: int
  ga_disk_bytes_delta :: int
  ga_apparent_bytes_delta :: int

type_synonym group_key = "string option \<times> string option"

definition group_key_of :: "group_label option \<Rightarrow> group_key" where
  "group_key_of g = (case g of None \<Rightarrow> (None, None) | Some l \<Rightarrow> (Some (gl_kind l), Some (gl_key l)))"

definition add_to_group :: "diff_row \<Rightarrow> (group_key \<times> group_accumulator) list \<Rightarrow> (group_key \<times> group_accumulator) list" where
  "add_to_group row grouped =
     (let key = group_key_of (dr_group row);
          bucket = dict_get grouped key \<lparr> ga_group = dr_group row, ga_path_count = 0, ga_disk_bytes_delta = 0, ga_apparent_bytes_delta = 0 \<rparr>
      in AList.update key (bucket\<lparr> ga_path_count := ga_path_count bucket + 1,
           ga_disk_bytes_delta := ga_disk_bytes_delta bucket + dr_disk_bytes_delta row,
           ga_apparent_bytes_delta := ga_apparent_bytes_delta bucket + dr_apparent_bytes_delta row \<rparr>) grouped)"

definition group_summary :: "group_accumulator \<Rightarrow> report_group_summary" where
  "group_summary bucket = \<lparr> rg_group = ga_group bucket, rg_path_count = ga_path_count bucket,
     rg_disk_bytes_delta = ga_disk_bytes_delta bucket, rg_apparent_bytes_delta = ga_apparent_bytes_delta bucket \<rparr>"

definition group_order :: "report_group_summary \<Rightarrow> int \<times> int \<times> string \<times> string" where
  "group_order e = (- rg_disk_bytes_delta e, - rg_apparent_bytes_delta e,
     case rg_group e of None \<Rightarrow> '''' | Some l \<Rightarrow> gl_kind l, case rg_group e of None \<Rightarrow> '''' | Some l \<Rightarrow> gl_key l)"

definition summarize_diff_rows ::
    "snapshot_pair list \<Rightarrow> diff_row list \<Rightarrow> frontier_row list \<Rightarrow> diff_row list \<Rightarrow> report_warning list \<Rightarrow> report_summary" where
  "summarize_diff_rows pairs diff_rows frontier_rows deleted_rows warnings =
     (let classification_counts = foldl (\<lambda>t r. count_up (dr_classification r) 1 t) [] diff_rows;
          front = map fr_row frontier_rows;
          disk_totals = foldl (\<lambda>t r. count_up (dr_classification r) (dr_disk_bytes_delta r) t) [] front;
          apparent_totals = foldl (\<lambda>t r. count_up (dr_classification r) (dr_apparent_bytes_delta r) t) [] front;
          grouped = foldl (\<lambda>g r. add_to_group r g) [] front;
          root_paths = sp_root_path ` set pairs
      in \<lparr> rs_snapshot_pairs = pairs,
           rs_classification_counts = sort_key id classification_counts,
           rs_disk_bytes_delta_by_classification = sort_key id disk_totals,
           rs_apparent_bytes_delta_by_classification = sort_key id apparent_totals,
           rs_frontier = frontier_rows,
           rs_groups = sort_key group_order (map (group_summary \<circ> snd) grouped),
           rs_deleted_preview = deleted_rows,
           rs_warnings = warnings,
           rs_indexed_root_disk_bytes_delta =
             sum_list (map dr_disk_bytes_delta (filter (\<lambda>r. dr_path r \<in> root_paths) diff_rows)) \<rparr>)"

subsection \<open>The shallow query agrees with the diff\<close>

text \<open>Complete snapshots have no diagnostic rows left, and a path has the same depth in both snapshots.\<close>

definition promoted :: "db \<Rightarrow> bool" where
  "promoted d \<longleftrightarrow> (\<forall>s\<in>set (db_snapshots d). sn_status s = status_value COMPLETE \<longrightarrow>
     (\<forall>dg\<in>set (db_diagnostics d). dg_snapshot_id dg \<noteq> sn_id s))"

definition both_stored :: "db \<Rightarrow> snapshot_pair \<Rightarrow> bool" where
  "both_stored d pair \<longleftrightarrow> (\<forall>r\<in>{sp_baseline pair, sp_current pair}. sp_root_path pair = sr_root_path r
     \<and> (\<exists>s\<in>set (db_snapshots d). pair_record s = Inr r))"

definition depths_agree :: "db \<Rightarrow> snapshot_pair \<Rightarrow> bool" where
  "depths_agree d pair \<longleftrightarrow> (\<forall>(i, st)\<in>set (snapshot_state d (sr_id (sp_baseline pair))).
     \<forall>(j, st')\<in>set (snapshot_state d (sr_id (sp_current pair))). i = j \<longrightarrow> ag_depth st = ag_depth st')"

lemma fast_state_eq:
  assumes ids: "distinct (map sn_id (db_snapshots d))" and pr: "promoted d"
    and s: "s \<in> set (db_snapshots d)" "pair_record s = Inr r" and root: "root_path = sr_root_path r"
  shows "fast_state d root_path r max_depth = filter (\<lambda>x. shallow max_depth (snd x)) (snapshot_state d (sr_id r))"
proof -
  note f = pair_record_fields[OF s(2)]
  have none: "filter (\<lambda>dg. dg_snapshot_id dg = sr_id r \<and> shallow max_depth (dg_state dg)) (db_diagnostics d) = []"
    if "sr_status r = COMPLETE"
    using pr s(1) f that by (auto simp: promoted_def filter_empty_conv)
  show ?thesis
    using snapshot_state_at[OF ids s(1)] f root none
    by (auto simp: fast_state_def filter_map comp_def conj_commute)
qed

lemma map_of_filter_snd:
  assumes "distinct (map fst xs)"
  shows "map_of (filter (\<lambda>x. P (snd x)) xs) i = (case map_of xs i of None \<Rightarrow> None | Some v \<Rightarrow> if P v then Some v else None)"
proof -
  have no: "map_of (filter (\<lambda>x. P (snd x)) ys) j = None" if "j \<notin> fst ` set ys" for ys j using that by (auto simp: map_of_eq_None_iff)
  show ?thesis using assms by (induction xs) (auto simp: no)
qed

text \<open>A row of the diff in the shape of the fast reports, which know no \<open>hidden_by_collapse\<close>.\<close>

definition fast_of :: "diff_row \<Rightarrow> fast_growth_row" where
  "fast_of r =
     \<lparr> fg_root_path = dr_root_path r, fg_baseline_snapshot_id = dr_baseline_snapshot_id r,
       fg_current_snapshot_id = dr_current_snapshot_id r, fg_path = dr_path r, fg_depth = dr_depth r,
       fg_classification = (if dr_classification r = ''hidden_by_collapse'' then ''deleted'' else dr_classification r),
       fg_previous_disk_bytes = dr_previous_disk_bytes r, fg_current_disk_bytes = dr_current_disk_bytes r,
       fg_disk_bytes_delta = dr_disk_bytes_delta r, fg_previous_apparent_bytes = dr_previous_apparent_bytes r,
       fg_current_apparent_bytes = dr_current_apparent_bytes r, fg_apparent_bytes_delta = dr_apparent_bytes_delta r,
       fg_previous_hardlink_file_count = dr_previous_hardlink_file_count r,
       fg_current_hardlink_file_count = dr_current_hardlink_file_count r,
       fg_hardlink_file_count_delta = dr_hardlink_file_count_delta r,
       fg_previous_hardlink_duplicate_count = dr_previous_hardlink_duplicate_count r,
       fg_current_hardlink_duplicate_count = dr_current_hardlink_duplicate_count r,
       fg_hardlink_duplicate_count_delta = dr_hardlink_duplicate_count_delta r,
       fg_previous_hardlink_duplicate_disk_bytes = dr_previous_hardlink_duplicate_disk_bytes r,
       fg_current_hardlink_duplicate_disk_bytes = dr_current_hardlink_duplicate_disk_bytes r,
       fg_hardlink_duplicate_disk_bytes_delta = dr_hardlink_duplicate_disk_bytes_delta r,
       fg_previous_hardlink_first_seen_disk_bytes = dr_previous_hardlink_first_seen_disk_bytes r,
       fg_current_hardlink_first_seen_disk_bytes = dr_current_hardlink_first_seen_disk_bytes r,
       fg_hardlink_first_seen_disk_bytes_delta = dr_hardlink_first_seen_disk_bytes_delta r \<rparr>"

definition shallow_row :: "int \<Rightarrow> diff_row \<Rightarrow> bool" where
  "shallow_row max_depth r \<longleftrightarrow> 1 \<le> dr_depth r \<and> dr_depth r \<le> 3 \<and> dr_depth r \<le> max_depth"

lemma fast_of_finished:
  "fast_of (finished_row root_path group_by mounts cps (row_at d pair i))
     = fast_row pair (the (path_text d i)) (before_at d pair i) (after_at d pair i)"
  by (auto simp: fast_of_def finished_row_def row_at_def diff_query_row_def fast_row_def classification_from_row_def sql_classification_def)

lemma direction_order_path: "direction_order dir r = direction_order dir r' \<Longrightarrow> fg_path r = fg_path r'"
  by (cases dir) auto

lemma restrict_both:
  fixes b c :: "agg_state option"
  assumes "b \<noteq> None \<or> c \<noteq> None" and "\<And>x y. b = Some x \<Longrightarrow> c = Some y \<Longrightarrow> ag_depth x = ag_depth y"
  defines "z \<equiv> or_zero ag_depth (coalesce c b)"
  shows "(case b of None \<Rightarrow> None | Some v \<Rightarrow> if 1 \<le> ag_depth v \<and> ag_depth v \<le> 3 \<and> ag_depth v \<le> m then Some v else None)
      = (if 1 \<le> z \<and> z \<le> 3 \<and> z \<le> m then b else None)"
    and "(case c of None \<Rightarrow> None | Some v \<Rightarrow> if 1 \<le> ag_depth v \<and> ag_depth v \<le> 3 \<and> ag_depth v \<le> m then Some v else None)
      = (if 1 \<le> z \<and> z \<le> 3 \<and> z \<le> m then c else None)"
proof -
  have z: "b = Some x \<Longrightarrow> z = ag_depth x" "c = Some y \<Longrightarrow> z = ag_depth y" for x y
  proof -
    show zc: "z = ag_depth y" if "c = Some y" for y using that by (simp add: z_def coalesce_def or_zero_def)
    assume b: "b = Some x"
    show "z = ag_depth x"
    proof (cases c)
      case None
      then show ?thesis using b by (simp add: z_def coalesce_def or_zero_def)
    next
      case (Some y)
      then show ?thesis using zc[OF Some] assms(2)[OF b Some] by simp
    qed
  qed
  show "(case b of None \<Rightarrow> None | Some v \<Rightarrow> if 1 \<le> ag_depth v \<and> ag_depth v \<le> 3 \<and> ag_depth v \<le> m then Some v else None)
      = (if 1 \<le> z \<and> z \<le> 3 \<and> z \<le> m then b else None)" using z(1) by (cases b) simp_all
  show "(case c of None \<Rightarrow> None | Some v \<Rightarrow> if 1 \<le> ag_depth v \<and> ag_depth v \<le> 3 \<and> ag_depth v \<le> m then Some v else None)
      = (if 1 \<le> z \<and> z \<le> 3 \<and> z \<le> m then c else None)" using z(2) by (cases c) simp_all
qed

lemma fast_rows:
  assumes wf: "db_wf d" "refs_resolved d" and both: "both_stored d pair" and pr: "promoted d" and dp: "depths_agree d pair"
    and q: "query_diff_rows d pair group_by ord True = Inr (rows, ws)" and dir: "direction_of direction = Some dir"
  shows "query_fast_delta_rows d pair limit max_depth direction
    = Inr (sql_limit limit (sort_key (direction_order dir) (filter (direction_filter dir) (map fast_of (filter (shallow_row max_depth) rows)))))"
proof -
  let ?B = "snapshot_state d (sr_id (sp_baseline pair))" and ?C = "snapshot_state d (sr_id (sp_current pair))"
  let ?sh = "\<lambda>x. shallow max_depth (snd x)"
  have inv: "store_inv d" and ps: "paths_ok (db_paths d)" using wf(1) by (simp_all add: db_wf_def)
  have ids: "distinct (map sn_id (db_snapshots d))" using inv by (simp add: store_inv_def)
  note dist = snapshot_state_distinct[OF inv]
  have F: "fast_state d (sp_root_path pair) r max_depth = filter ?sh (snapshot_state d (sr_id r))"
    if r: "r \<in> {sp_baseline pair, sp_current pair}" for r
  proof -
    from bspec[OF both[unfolded both_stored_def] r]
    obtain s where s: "s \<in> set (db_snapshots d)" "pair_record s = Inr r" "sp_root_path pair = sr_root_path r"
      by (elim conjE bexE) (rule that)
    show ?thesis by (rule fast_state_eq[OF ids pr s])
  qed
  let ?P = "\<lambda>i. shallow_row max_depth (fst (row_at d pair i))"
  have depth: "dr_depth (fst (row_at d pair i)) = or_zero ag_depth (coalesce (after_at d pair i) (before_at d pair i))" for i
    by (simp add: row_at_def diff_query_row_def)
  have agree: "ag_depth b = ag_depth a" if "before_at d pair i = Some b" "after_at d pair i = Some a" for i a b
    using dp map_of_SomeD[OF that(1)] map_of_SomeD[OF that(2)] by (auto simp: depths_agree_def)
  have restr: "map_of (filter ?sh ?B) i = (if ?P i then before_at d pair i else None)"
      "map_of (filter ?sh ?C) i = (if ?P i then after_at d pair i else None)"
    if "before_at d pair i \<noteq> None \<or> after_at d pair i \<noteq> None" for i
    using restrict_both[OF that agree, where m = max_depth] 
    unfolding map_of_filter_snd[OF dist, where P = "shallow max_depth"]
    unfolding shallow_row_def depth shallow_def by simp_all
  have both_None: "map_of (filter ?sh ?B) i = None" "map_of (filter ?sh ?C) i = None"
    if "before_at d pair i = None" "after_at d pair i = None" for i
    using that by (simp_all add: map_of_filter_snd[OF dist, where P = "shallow max_depth"])
  have fids: "all_ids d None (filter ?sh ?B) (filter ?sh ?C) = filter ?P (diff_ids d pair None)"
  proof (rule sorted_distinct_set_unique)
    show "sorted (filter ?P (diff_ids d pair None))" "distinct (filter ?P (diff_ids d pair None))"
      by (simp_all add: diff_ids_def all_ids_def sorted_wrt_filter)
    have "i \<in> set (all_ids d None (filter ?sh ?B) (filter ?sh ?C)) \<longleftrightarrow>
        path_text d i \<noteq> None \<and> (map_of (filter ?sh ?B) i \<noteq> None \<or> map_of (filter ?sh ?C) i \<noteq> None)" for i
      by (auto simp: all_ids_def path_scope_filter_def map_of_eq_None_iff split: option.splits)
    moreover have "path_text d i \<noteq> None \<and> (map_of (filter ?sh ?B) i \<noteq> None \<or> map_of (filter ?sh ?C) i \<noteq> None)
        \<longleftrightarrow> i \<in> set (filter ?P (diff_ids d pair None))" for i
    proof (cases "before_at d pair i \<noteq> None \<or> after_at d pair i \<noteq> None")
      case True
      then show ?thesis by (cases "?P i") (simp_all add: restr[OF True] diff_ids_iff path_scope_filter_def)
    next
      case False
      then show ?thesis by (simp add: both_None diff_ids_iff)
    qed
    ultimately show "set (all_ids d None (filter ?sh ?B) (filter ?sh ?C)) = set (filter ?P (diff_ids d pair None))" by blast
  qed (simp_all add: all_ids_def)
  let ?ids = "filter ?P (diff_ids d pair None)"
  let ?row = "\<lambda>i. fast_row pair (the (path_text d i)) (before_at d pair i) (after_at d pair i)"
  have dist': "distinct (map fst (filter ?sh xs))" if "distinct (map fst xs)" for xs :: "(int \<times> agg_state) list"
    using that by (rule distinct_map_filter)
  note lj = left_join_distinct[OF dist'[OF dist]]
  have joined: "map (\<lambda>i. case path_text d i of None \<Rightarrow> [] | Some path \<Rightarrow>
       concat (map (\<lambda>prev. map (fast_row pair path prev) (left_join i (filter ?sh ?C))) (left_join i (filter ?sh ?B)))) ?ids
     = map (\<lambda>i. [?row i]) ?ids"
    using restr by (intro map_cong) (auto simp: lj diff_ids_iff)
  have single: "concat (map (\<lambda>i. [?row i]) is) = map ?row is" for "is" by (induction "is") auto
  have Fs: "fast_state d (sp_root_path pair) (sp_baseline pair) max_depth = filter ?sh ?B"
    "fast_state d (sp_root_path pair) (sp_current pair) max_depth = filter ?sh ?C" by (rule F; simp)+
  have fast: "query_fast_delta_rows d pair limit max_depth direction
      = Inr (sql_limit limit (sort_key (direction_order dir) (filter (direction_filter dir) (map ?row ?ids))))"
    unfolding query_fast_delta_rows_def dir Let_def Fs fids joined single by simp
  obtain f where f: "\<And>x. f x = (finished_row (sp_root_path pair) group_by (mounts_for d pair group_by) (folded_paths d (sr_id (sp_current pair)))) x"
    and m: "mset rows = mset (map (\<lambda>i. f (row_at d pair i)) (diff_ids d pair None))"
    by (rule diff_rows_form[OF wf(1) q]) (rule that)
  have sf: "shallow_row max_depth (f r) = shallow_row max_depth (fst r)" for r
    by (simp add: f finished_row_def shallow_row_def)
  have "mset (map fast_of (filter (shallow_row max_depth) rows))
      = image_mset fast_of (filter_mset (shallow_row max_depth) (mset (map (\<lambda>i. f (row_at d pair i)) (diff_ids d pair None))))"
    by (simp only: mset_map mset_filter m)
  also have "\<dots> = mset (map fast_of (filter (shallow_row max_depth) (map (\<lambda>i. f (row_at d pair i)) (diff_ids d pair None))))"
    by (simp only: mset_map mset_filter)
  also have "\<dots> = mset (map ?row ?ids)"
    by (simp add: filter_map comp_def sf) (simp add: f fast_of_finished)
  finally have fm: "mset (map fast_of (filter (shallow_row max_depth) rows)) = mset (map ?row ?ids)" .
  let ?L = "filter (direction_filter dir) (map ?row ?ids)"
  let ?R = "filter (direction_filter dir) (map fast_of (filter (shallow_row max_depth) rows))"
  have "mset ?L = filter_mset (direction_filter dir) (mset (map ?row ?ids))" by (simp only: mset_filter)
  also have "\<dots> = mset ?R" unfolding fm[symmetric] by (simp only: mset_filter)
  finally have LR: "mset ?L = mset (sort_key (direction_order dir) ?R)" by simp
  have "distinct (map fg_path (map ?row ?ids))"
    using distinct_map_filter[OF diff_ids_paths(1)[OF wf, of pair None], of ?P] by (simp add: fast_row_def comp_def)
  then have "inj_on fg_path (set (map ?row ?ids))" by (simp only: distinct_map)
  then have "inj_on fg_path (set ?L)" by (rule inj_on_subset) (simp only: set_filter; blast)
  then have "inj_on (direction_order dir) (set ?L)"
    unfolding inj_on_def using direction_order_path[of dir] by blast
  then have "sort_key (direction_order dir) ?L = sort_key (direction_order dir) ?R"
    by (rule sort_key_inj_key_eq[OF LR]) simp
  then show ?thesis unfolding fast by simp
qed

subsection \<open>The summary adds up\<close>

lemma count_fold:
  assumes "distinct (map fst t)"
  shows "distinct (map fst (foldl (\<lambda>t r. count_up (g r) (n r) t) t rows))
    \<and> sum_list (map snd (foldl (\<lambda>t r. count_up (g r) (n r) t) t rows)) = sum_list (map snd t) + sum_list (map n rows)"
  using assms
proof (induction rows arbitrary: t)
  case (Cons r rows)
  have "distinct (map fst (count_up (g r) (n r) t))" using Cons.prems by (simp add: count_up_def distinct_update)
  moreover have "sum_list (map snd (count_up (g r) (n r) t)) = sum_list (map snd t) + n r"
    using sum_update[OF Cons.prems, of "\<lambda>x. x"] by (simp add: count_up_def dict_get_def comp_def split: option.splits)
  ultimately show ?case using Cons.IH by simp
qed simp

lemma group_fold:
  assumes "distinct (map fst t)"
  shows "distinct (map fst (foldl (\<lambda>g r. add_to_group r g) t rows))
    \<and> sum_list (map (ga_path_count \<circ> snd) (foldl (\<lambda>g r. add_to_group r g) t rows)) = sum_list (map (ga_path_count \<circ> snd) t) + int (length rows)
    \<and> sum_list (map (ga_disk_bytes_delta \<circ> snd) (foldl (\<lambda>g r. add_to_group r g) t rows))
        = sum_list (map (ga_disk_bytes_delta \<circ> snd) t) + sum_list (map dr_disk_bytes_delta rows)
    \<and> sum_list (map (ga_apparent_bytes_delta \<circ> snd) (foldl (\<lambda>g r. add_to_group r g) t rows))
        = sum_list (map (ga_apparent_bytes_delta \<circ> snd) t) + sum_list (map dr_apparent_bytes_delta rows)"
  using assms
proof (induction rows arbitrary: t)
  case (Cons r rows)
  let ?t = "add_to_group r t"
  have d: "distinct (map fst ?t)" using Cons.prems by (simp add: add_to_group_def Let_def distinct_update)
  have "sum_list (map (ga_path_count \<circ> snd) ?t) = sum_list (map (ga_path_count \<circ> snd) t) + 1"
    "sum_list (map (ga_disk_bytes_delta \<circ> snd) ?t) = sum_list (map (ga_disk_bytes_delta \<circ> snd) t) + dr_disk_bytes_delta r"
    "sum_list (map (ga_apparent_bytes_delta \<circ> snd) ?t) = sum_list (map (ga_apparent_bytes_delta \<circ> snd) t) + dr_apparent_bytes_delta r"
    unfolding add_to_group_def Let_def sum_update[OF Cons.prems] by (simp_all add: dict_get_def split: option.splits)
  then show ?case using Cons.IH[OF d] by (simp add: comp_def)
qed simp

lemma sum_list_sort: "sum_list (map f (sort_key k xs)) = (sum_list (map f xs) :: int)"
proof -
  have "mset (map f (sort_key k xs)) = mset (map f xs)" by simp
  then show ?thesis by (metis sum_mset_sum_list)
qed

lemma summary_sums:
  fixes pairs diff_rows frontier deleted warnings
  defines "s \<equiv> summarize_diff_rows pairs diff_rows frontier deleted warnings"
  shows "sum_list (map snd (rs_classification_counts s)) = int (length diff_rows)
    \<and> sum_list (map rg_path_count (rs_groups s)) = int (length frontier)
    \<and> sum_list (map rg_disk_bytes_delta (rs_groups s)) = sum_list (map (dr_disk_bytes_delta \<circ> fr_row) frontier)
    \<and> sum_list (map snd (rs_disk_bytes_delta_by_classification s)) = sum_list (map (dr_disk_bytes_delta \<circ> fr_row) frontier)
    \<and> sum_list (map rg_apparent_bytes_delta (rs_groups s)) = sum_list (map (dr_apparent_bytes_delta \<circ> fr_row) frontier)
    \<and> sum_list (map snd (rs_apparent_bytes_delta_by_classification s)) = sum_list (map (dr_apparent_bytes_delta \<circ> fr_row) frontier)"
proof -
  let ?front = "map fr_row frontier"
  note c = count_fold[of "[]", simplified] and g = group_fold[of "[]", simplified]
  have ones: "sum_list (map (\<lambda>_. 1 :: int) xs) = int (length xs)" for xs :: "diff_row list" by (induction xs) auto
  have gs: "rg_path_count (group_summary x) = ga_path_count x" "rg_disk_bytes_delta (group_summary x) = ga_disk_bytes_delta x"
    "rg_apparent_bytes_delta (group_summary x) = ga_apparent_bytes_delta x" for x by (simp_all add: group_summary_def)
  have "sum_list (map snd (rs_classification_counts s)) = int (length diff_rows)"
    unfolding s_def summarize_diff_rows_def Let_def
    using c[of dr_classification "\<lambda>_. 1" diff_rows] by (simp add: sum_list_sort ones)
  moreover have "sum_list (map snd (rs_disk_bytes_delta_by_classification s)) = sum_list (map dr_disk_bytes_delta ?front)"
    "sum_list (map snd (rs_apparent_bytes_delta_by_classification s)) = sum_list (map dr_apparent_bytes_delta ?front)"
    unfolding s_def summarize_diff_rows_def Let_def
    using c[of dr_classification dr_disk_bytes_delta ?front] c[of dr_classification dr_apparent_bytes_delta ?front]
    by (simp_all add: sum_list_sort)
  moreover have "sum_list (map rg_path_count (rs_groups s)) = int (length ?front)"
    "sum_list (map rg_disk_bytes_delta (rs_groups s)) = sum_list (map dr_disk_bytes_delta ?front)"
    "sum_list (map rg_apparent_bytes_delta (rs_groups s)) = sum_list (map dr_apparent_bytes_delta ?front)"
    unfolding s_def summarize_diff_rows_def Let_def
    using g[of ?front] by (simp_all add: sum_list_sort gs comp_def)
  ultimately show ?thesis by simp
qed

subsection \<open>Properties\<close>

text \<open>
  C29: the fast growth and shrink reports, which have a query of their own over the first three levels,
  list exactly the rows of the full diff of those levels that grew (or shrank) in disk or apparent
  bytes, with the same figures, ordered by size of the change and cut at the limit.  The only
  difference is that they call a path deleted also when it is merely hidden by a collapsed directory.
\<close>

theorem fast_report_agrees:
  assumes "db_wf d" and "refs_resolved d" and "both_stored d pair" and "promoted d" and "depths_agree d pair"
    and "query_diff_rows d pair group_by ord True = Inr (rows, ws)" and "direction_of direction = Some dir"
  shows "query_fast_delta_rows d pair limit max_depth direction
    = Inr (sql_limit limit (sort_key (direction_order dir) (filter (direction_filter dir) (map fast_of (filter (shallow_row max_depth) rows)))))"
  by (rule fast_rows[OF assms])

lemma fast_report_agrees_witness:
  "query_fast_delta_rows diff_db diff_pair 10 3 ''shrink''
    = Inr (sql_limit 10 (sort_key (direction_order Shrink) (filter (direction_filter Shrink) (map fast_of (filter (shallow_row 3) (fst sample_diff))))))"
proof -
  have "both_stored diff_db diff_pair" "promoted diff_db" "depths_agree diff_db diff_pair" "direction_of ''shrink'' = Some Shrink"
    by code_simp+
  from fast_report_agrees[OF diff_db_ok(1,2) this(1,2,3) sample_diff_ok this(4)] show ?thesis .
qed

text \<open>
  The summary of a diff adds up: the classification counts to the number of rows, the groups to the
  number of frontier rows, and the byte totals, both by group and by classification, to the deltas of
  the frontier.
\<close>

theorem summary_accounting:
  "sum_list (map snd (rs_classification_counts (summarize_diff_rows pairs diff_rows frontier deleted warnings))) = int (length diff_rows)
  \<and> sum_list (map rg_path_count (rs_groups (summarize_diff_rows pairs diff_rows frontier deleted warnings))) = int (length frontier)
  \<and> sum_list (map rg_disk_bytes_delta (rs_groups (summarize_diff_rows pairs diff_rows frontier deleted warnings)))
      = sum_list (map (dr_disk_bytes_delta \<circ> fr_row) frontier)
  \<and> sum_list (map snd (rs_disk_bytes_delta_by_classification (summarize_diff_rows pairs diff_rows frontier deleted warnings)))
      = sum_list (map (dr_disk_bytes_delta \<circ> fr_row) frontier)
  \<and> sum_list (map rg_apparent_bytes_delta (rs_groups (summarize_diff_rows pairs diff_rows frontier deleted warnings)))
      = sum_list (map (dr_apparent_bytes_delta \<circ> fr_row) frontier)
  \<and> sum_list (map snd (rs_apparent_bytes_delta_by_classification (summarize_diff_rows pairs diff_rows frontier deleted warnings)))
      = sum_list (map (dr_apparent_bytes_delta \<circ> fr_row) frontier)"
  by (rule summary_sums)

end
