(* ===== verification/Domain_Totals.thy ===== *)
theory Domain_Totals
  imports Diff_Proofs
begin

text \<open>
  \<open>query_indexed_storage_domain_totals\<close> of \<open>reporting/queries.py\<close>: the directory rows of the latest
  snapshots turned into totals per storage domain.  A recursive total counts for the domain of its
  directory only where the domain begins, and is taken off the domain around it.
\<close>

subsection \<open>Accumulators\<close>

record domain_accumulator =
  ac_match :: snapshot_mount
  ac_disk_bytes :: int
  ac_apparent_bytes :: int
  ac_indexed_visible_path_count :: int
  ac_indexed_root_paths :: "bytes set"
  ac_indexed_mount_points :: "bytes set"
  ac_snapshot_ids :: "int set"
  ac_snapshot_statuses :: "string set"
  ac_finished_at_values :: "string option set"
  ac_partial_snapshot_ids :: "int set"
  ac_unknown_mount_count :: int
  ac_skipped_paths :: "bytes set"

definition new_accumulator :: "snapshot_mount \<Rightarrow> domain_accumulator" where
  "new_accumulator m = \<lparr> ac_match = m, ac_disk_bytes = 0, ac_apparent_bytes = 0, ac_indexed_visible_path_count = 0,
     ac_indexed_root_paths = {}, ac_indexed_mount_points = {}, ac_snapshot_ids = {}, ac_snapshot_statuses = {},
     ac_finished_at_values = {}, ac_partial_snapshot_ids = {}, ac_unknown_mount_count = 0, ac_skipped_paths = {} \<rparr>"

definition to_total :: "domain_accumulator \<Rightarrow> indexed_storage_domain_total" where
  "to_total a =
     (let finished = sorted_list_of_set (the ` (ac_finished_at_values a - {None})) in
      \<lparr> sd_storage_domain = storage_domain_label (ac_match a),
        sd_indexed_visible_disk_bytes = max (ac_disk_bytes a) 0,
        sd_indexed_visible_apparent_bytes = max (ac_apparent_bytes a) 0,
        sd_indexed_visible_path_count = ac_indexed_visible_path_count a,
        sd_indexed_root_paths = sorted_list_of_set (ac_indexed_root_paths a),
        sd_indexed_mount_points = sorted_list_of_set (ac_indexed_mount_points a),
        sd_snapshot_ids = sorted_list_of_set (ac_snapshot_ids a),
        sd_snapshot_statuses = sorted_list_of_set (ac_snapshot_statuses a),
        sd_finished_at_min = (if finished = [] then None else Some (hd finished)),
        sd_finished_at_max = (if finished = [] then None else Some (last finished)),
        sd_partial_snapshot_count = int (card (ac_partial_snapshot_ids a)),
        sd_unknown_mount_count = ac_unknown_mount_count a,
        sd_negative_total_clamped = (ac_disk_bytes a < 0 \<or> ac_apparent_bytes a < 0),
        sd_skipped_paths = sorted_list_of_set (ac_skipped_paths a - ac_indexed_root_paths a) \<rparr>)"

text \<open>\<open>accumulators.setdefault(key, _DomainAccumulator(match))\<close> and a change of the result.\<close>

type_synonym accumulators = "(string \<times> domain_accumulator) list"

definition at_domain :: "snapshot_mount \<Rightarrow> (domain_accumulator \<Rightarrow> domain_accumulator) \<Rightarrow> accumulators \<Rightarrow> accumulators" where
  "at_domain m f accs = AList.update (domain_key m) (f (dict_get accs (domain_key m) (new_accumulator m))) accs"

subsection \<open>The rows of a snapshot\<close>

record domain_row =
  dm_path :: bytes
  dm_parent_path :: "bytes option"
  dm_apparent_bytes :: int
  dm_disk_bytes :: int
  dm_error :: "string option"

definition domain_rows_by_path :: "db \<Rightarrow> int \<Rightarrow> (bytes \<times> domain_row) list" where
  "domain_rows_by_path d sid =
     dict_of (List.map_filter (\<lambda>(i, st). map_option (\<lambda>p. (p,
       \<lparr> dm_path = p, dm_parent_path = path_text_opt d (ag_parent_id st), dm_apparent_bytes = ag_apparent_bytes st,
         dm_disk_bytes = ag_disk_bytes st, dm_error = ag_error st \<rparr>)) (path_text d i)) (snapshot_state d sid))"

text \<open>The loop \<open>while ancestor_path is not None\<close> over the indexed paths.\<close>

definition nearest_indexed_ancestor_match ::
    "bytes option \<Rightarrow> (bytes \<times> domain_row) list \<Rightarrow> (bytes \<Rightarrow> snapshot_mount option) \<Rightarrow> snapshot_mount option" where
  "nearest_indexed_ancestor_match parent_path rows domain =
     (case parent_path of
        None \<Rightarrow> None
      | Some p \<Rightarrow>
          (case List.find (\<lambda>q. map_of rows q \<noteq> None) (p # ancestors p) of None \<Rightarrow> None | Some q \<Rightarrow> domain q))"

definition count_boundary :: "snapshot_record \<Rightarrow> snapshot_mount \<Rightarrow> domain_row \<Rightarrow> domain_accumulator \<Rightarrow> domain_accumulator" where
  "count_boundary snapshot m row a =
     a\<lparr> ac_disk_bytes := ac_disk_bytes a + dm_disk_bytes row, ac_apparent_bytes := ac_apparent_bytes a + dm_apparent_bytes row,
       ac_indexed_mount_points := insert (sm_mount_point m) (ac_indexed_mount_points a),
       ac_indexed_root_paths := insert (sr_root_path snapshot) (ac_indexed_root_paths a),
       ac_snapshot_ids := insert (sr_id snapshot) (ac_snapshot_ids a),
       ac_snapshot_statuses := insert (status_value (sr_status snapshot)) (ac_snapshot_statuses a),
       ac_finished_at_values := insert (sr_finished_at snapshot) (ac_finished_at_values a),
       ac_partial_snapshot_ids := (if sr_status snapshot \<noteq> COMPLETE then insert (sr_id snapshot) (ac_partial_snapshot_ids a)
                                   else ac_partial_snapshot_ids a) \<rparr>"

definition take_off :: "domain_row \<Rightarrow> domain_accumulator \<Rightarrow> domain_accumulator" where
  "take_off row a = a\<lparr> ac_disk_bytes := ac_disk_bytes a - dm_disk_bytes row, ac_apparent_bytes := ac_apparent_bytes a - dm_apparent_bytes row \<rparr>"

definition note_skipped :: "domain_row \<Rightarrow> domain_accumulator \<Rightarrow> domain_accumulator" where
  "note_skipped row a = (if dm_error row \<noteq> None then a\<lparr> ac_skipped_paths := insert (dm_path row) (ac_skipped_paths a) \<rparr> else a)"

definition boundary_step ::
    "snapshot_record \<Rightarrow> (bytes \<times> domain_row) list \<Rightarrow> (bytes \<Rightarrow> snapshot_mount option) \<Rightarrow> accumulators \<Rightarrow> bytes \<times> domain_row \<Rightarrow> accumulators" where
  "boundary_step snapshot rows domain accs = (\<lambda>(path, row).
     (case domain path of
        None \<Rightarrow> accs
      | Some m \<Rightarrow>
          (let accs = at_domain m (note_skipped row) accs;
               above = nearest_indexed_ancestor_match (dm_parent_path row) rows domain
           in if map_option domain_key above = Some (domain_key m) then accs
              else
                (let accs = at_domain m (count_boundary snapshot m row) accs
                 in case above of None \<Rightarrow> accs | Some am \<Rightarrow> at_domain am (take_off row) accs))))"

definition visible_step :: "(bytes \<Rightarrow> snapshot_mount option) \<Rightarrow> accumulators \<Rightarrow> bytes \<Rightarrow> accumulators" where
  "visible_step domain accs path =
     (case domain path of
        None \<Rightarrow> accs
      | Some m \<Rightarrow> at_domain m (\<lambda>a. a\<lparr> ac_indexed_visible_path_count := ac_indexed_visible_path_count a + 1 \<rparr>) accs)"

definition add_unknown :: "int \<Rightarrow> domain_accumulator \<Rightarrow> domain_accumulator" where
  "add_unknown n a = a\<lparr> ac_unknown_mount_count := ac_unknown_mount_count a + n \<rparr>"

definition count_unknown ::
    "bytes \<Rightarrow> bytes list \<Rightarrow> (bytes \<Rightarrow> snapshot_mount option) \<Rightarrow> accumulators \<Rightarrow> accumulators" where
  "count_unknown root_path paths domain accs =
     (let unknown = int (length (filter (\<lambda>p. domain p = None) paths)) in
      if unknown = 0 then accs
      else
        (case domain root_path of
           Some m \<Rightarrow> at_domain m (add_unknown unknown) accs
         | None \<Rightarrow>
             (let resolved_keys = sort (map domain_key (List.map_filter domain paths)) in
              if resolved_keys = [] then accs
              else (case map_of accs (hd resolved_keys) of
                      None \<Rightarrow> accs
                    | Some a \<Rightarrow> AList.update (hd resolved_keys) (add_unknown unknown a) accs))))"

text \<open>\<open>domain_by_path\<close> holds the resolver's answer for every row; off the rows the resolver is asked itself.\<close>

definition accumulate_storage_domain_totals :: "db \<Rightarrow> accumulators \<Rightarrow> snapshot_record \<Rightarrow> accumulators" where
  "accumulate_storage_domain_totals d accs snapshot =
     (let resolver = mount_prefix_resolver (load_snapshot_mounts d (sr_id snapshot));
          rows = domain_rows_by_path d (sr_id snapshot);
          domain = longest_prefix resolver;
          accs = foldl (boundary_step snapshot rows domain) accs rows;
          accs = foldl (visible_step domain) accs (map fst rows)
      in count_unknown (sr_root_path snapshot) (map fst rows) domain accs)"

definition query_indexed_storage_domain_totals :: "string \<Rightarrow> db \<Rightarrow> report_error + indexed_storage_domain_total list" where
  "query_indexed_storage_domain_totals selector d =
     map_sum id (\<lambda>snapshots.
         map to_total (sort_key (\<lambda>a. (- ac_disk_bytes a, domain_key (ac_match a)))
           (map snd (foldl (accumulate_storage_domain_totals d) [] snapshots))))
       (resolve_top_snapshot_selection selector d)"

subsection \<open>The totals partition the roots\<close>

lemma at_domain_sum:
  fixes g :: "domain_accumulator \<Rightarrow> int"
  assumes "distinct (map fst accs)" and "\<And>a. g (f a) = g a + n" and "g (new_accumulator m) = 0"
  shows "distinct (map fst (at_domain m f accs))"
    and "sum_list (map (g \<circ> snd) (at_domain m f accs)) = sum_list (map (g \<circ> snd) accs) + n"
  using assms(1) unfolding at_domain_def sum_update[OF assms(1)]
  by (simp_all add: distinct_update dict_get_def assms(2,3) split: option.splits)

text \<open>A figure of the accumulators that only whole rows change: disk or apparent bytes.\<close>

definition tracks :: "(domain_accumulator \<Rightarrow> int) \<Rightarrow> (domain_row \<Rightarrow> int) \<Rightarrow> bool" where
  "tracks g v \<longleftrightarrow> (\<forall>m. g (new_accumulator m) = 0) \<and> (\<forall>s m r a. g (count_boundary s m r a) = g a + v r)
     \<and> (\<forall>r a. g (take_off r a) = g a - v r) \<and> (\<forall>r a. g (note_skipped r a) = g a)
     \<and> (\<forall>n a. g (add_unknown n a) = g a) \<and> (\<forall>a n. g (a\<lparr> ac_indexed_visible_path_count := n \<rparr>) = g a)"

lemma tracks_bytes: "tracks ac_disk_bytes dm_disk_bytes" "tracks ac_apparent_bytes dm_apparent_bytes"
  by (simp_all add: tracks_def new_accumulator_def count_boundary_def take_off_def note_skipped_def add_unknown_def)

definition topmost :: "(bytes \<times> domain_row) list \<Rightarrow> (bytes \<Rightarrow> snapshot_mount option) \<Rightarrow> bytes \<times> domain_row \<Rightarrow> bool" where
  "topmost rows domain x \<longleftrightarrow> domain (fst x) \<noteq> None \<and> nearest_indexed_ancestor_match (dm_parent_path (snd x)) rows domain = None"

lemma boundary_sum:
  assumes g: "tracks g v" and d: "distinct (map fst accs)"
  shows "distinct (map fst (boundary_step s rows domain accs x))"
    and "sum_list (map (g \<circ> snd) (boundary_step s rows domain accs x))
       = sum_list (map (g \<circ> snd) accs) + (if topmost rows domain x then v (snd x) else 0)"
proof -
  note t = g[unfolded tracks_def]
  obtain path row where x: "x = (path, row)" by fastforce
  let ?above = "nearest_indexed_ancestor_match (dm_parent_path row) rows domain"
  have "distinct (map fst (boundary_step s rows domain accs x))
    \<and> sum_list (map (g \<circ> snd) (boundary_step s rows domain accs x))
       = sum_list (map (g \<circ> snd) accs) + (if topmost rows domain x then v (snd x) else 0)"
  proof (cases "domain path")
    case None
    then show ?thesis using d by (simp add: boundary_step_def x topmost_def)
  next
    case (Some m)
    let ?a1 = "at_domain m (note_skipped row) accs"
    have a1: "distinct (map fst ?a1)" "sum_list (map (g \<circ> snd) ?a1) = sum_list (map (g \<circ> snd) accs)"
      using at_domain_sum[OF d, of g "note_skipped row" 0 m] t by simp_all
    let ?a2 = "at_domain m (count_boundary s m row) ?a1"
    have a2: "distinct (map fst ?a2)" "sum_list (map (g \<circ> snd) ?a2) = sum_list (map (g \<circ> snd) accs) + v row"
      using at_domain_sum[OF a1(1), of g "count_boundary s m row" "v row" m] t a1(2) by simp_all
    show ?thesis
    proof (cases ?above)
      case None
      then show ?thesis using a2 Some by (simp add: boundary_step_def x topmost_def Let_def)
    next
      case (Some am)
      let ?a3 = "at_domain am (take_off row) ?a2"
      have a3: "distinct (map fst ?a3)" "sum_list (map (g \<circ> snd) ?a3) = sum_list (map (g \<circ> snd) accs)"
        using at_domain_sum[OF a2(1), of g "take_off row" "- v row" am] t a2(2) by simp_all
      show ?thesis using a1 a3 Some \<open>domain path = Some m\<close> by (simp add: boundary_step_def x topmost_def Let_def)
    qed
  qed
  then show "distinct (map fst (boundary_step s rows domain accs x))"
    and "sum_list (map (g \<circ> snd) (boundary_step s rows domain accs x))
       = sum_list (map (g \<circ> snd) accs) + (if topmost rows domain x then v (snd x) else 0)" by blast+
qed

lemma boundary_fold:
  assumes g: "tracks g v"
  shows "distinct (map fst accs) \<Longrightarrow> distinct (map fst (foldl (boundary_step s rows domain) accs xs))
    \<and> sum_list (map (g \<circ> snd) (foldl (boundary_step s rows domain) accs xs))
       = sum_list (map (g \<circ> snd) accs) + sum_list (map (\<lambda>x. if topmost rows domain x then v (snd x) else 0) xs)"
  by (induction xs arbitrary: accs) (simp_all add: boundary_sum[OF g])

lemma visible_fold:
  assumes g: "tracks g v"
  shows "distinct (map fst accs) \<Longrightarrow> distinct (map fst (foldl (visible_step domain) accs ps))
    \<and> sum_list (map (g \<circ> snd) (foldl (visible_step domain) accs ps)) = sum_list (map (g \<circ> snd) accs)"
proof (induction ps arbitrary: accs)
  case (Cons p ps)
  have "distinct (map fst (visible_step domain accs p))
    \<and> sum_list (map (g \<circ> snd) (visible_step domain accs p)) = sum_list (map (g \<circ> snd) accs)"
    using at_domain_sum[OF Cons.prems, of g _ 0] g[unfolded tracks_def] Cons.prems by (auto simp: visible_step_def split: option.splits)
  then show ?case using Cons.IH[of "visible_step domain accs p"] by (simp add: comp_def)
qed simp

lemma unknown_sum:
  assumes g: "tracks g v" and d: "distinct (map fst accs)"
  shows "distinct (map fst (count_unknown r ps domain accs))
    \<and> sum_list (map (g \<circ> snd) (count_unknown r ps domain accs)) = sum_list (map (g \<circ> snd) accs)"
proof -
  have t: "g (add_unknown n a) = g a" "g (new_accumulator m) = 0" for n a m using g by (simp_all add: tracks_def)
  show ?thesis
    using at_domain_sum[OF d, of g _ 0] d t
    by (auto simp: count_unknown_def Let_def sum_update[OF d] distinct_update split: option.splits)
qed

definition top_sum :: "(domain_row \<Rightarrow> int) \<Rightarrow> db \<Rightarrow> snapshot_record \<Rightarrow> int" where
  "top_sum v d s =
     (let rows = domain_rows_by_path d (sr_id s); domain = longest_prefix (mount_prefix_resolver (load_snapshot_mounts d (sr_id s)))
      in sum_list (map (\<lambda>x. if topmost rows domain x then v (snd x) else 0) rows))"

lemma accumulate_sum:
  assumes g: "tracks g v"
  shows "distinct (map fst accs) \<Longrightarrow> distinct (map fst (foldl (accumulate_storage_domain_totals d) accs ss))
    \<and> sum_list (map (g \<circ> snd) (foldl (accumulate_storage_domain_totals d) accs ss)) = sum_list (map (g \<circ> snd) accs) + sum_list (map (top_sum v d) ss)"
proof (induction ss arbitrary: accs)
  case (Cons s ss)
  let ?rows = "domain_rows_by_path d (sr_id s)" and ?dom = "longest_prefix (mount_prefix_resolver (load_snapshot_mounts d (sr_id s)))"
  let ?a1 = "foldl (boundary_step s ?rows ?dom) accs ?rows"
  let ?a2 = "foldl (visible_step ?dom) ?a1 (map fst ?rows)"
  note b = boundary_fold[OF g Cons.prems, of s ?rows ?dom ?rows]
  note v = visible_fold[OF g conjunct1[OF b], of ?dom "map fst ?rows"]
  note u = unknown_sum[OF g conjunct1[OF v], of "sr_root_path s" "map fst ?rows" ?dom]
  have acc: "accumulate_storage_domain_totals d accs s = count_unknown (sr_root_path s) (map fst ?rows) ?dom ?a2"
    unfolding accumulate_storage_domain_totals_def Let_def by (rule refl)
  have "sum_list (map (g \<circ> snd) (accumulate_storage_domain_totals d accs s)) = sum_list (map (g \<circ> snd) accs) + top_sum v d s"
    unfolding acc u[THEN conjunct2] v[THEN conjunct2] b[THEN conjunct2] top_sum_def Let_def by (rule refl)
  moreover have "distinct (map fst (accumulate_storage_domain_totals d accs s))" unfolding acc by (rule conjunct1[OF u])
  ultimately show ?case using Cons.IH[of "accumulate_storage_domain_totals d accs s"] by (simp add: comp_def)
qed simp

text \<open>Every row has a mount, and every parent of a row is a row of the snapshot.\<close>

definition closed_tree :: "db \<Rightarrow> snapshot_record \<Rightarrow> bool" where
  "closed_tree d s \<longleftrightarrow>
     (let rows = domain_rows_by_path d (sr_id s); domain = longest_prefix (mount_prefix_resolver (load_snapshot_mounts d (sr_id s)))
      in list_all (\<lambda>(p, row). domain p \<noteq> None \<and> (case dm_parent_path row of None \<Rightarrow> True | Some q \<Rightarrow> map_of rows q \<noteq> None)) rows)"

definition root_sum :: "(domain_row \<Rightarrow> int) \<Rightarrow> db \<Rightarrow> snapshot_record \<Rightarrow> int" where
  "root_sum v d s = sum_list (map v (filter (\<lambda>row. dm_parent_path row = None) (map snd (domain_rows_by_path d (sr_id s)))))"

lemma top_sum_roots:
  assumes "closed_tree d s"
  shows "top_sum v d s = root_sum v d s"
proof -
  let ?rows = "domain_rows_by_path d (sr_id s)" and ?dom = "longest_prefix (mount_prefix_resolver (load_snapshot_mounts d (sr_id s)))"
  have ok: "?dom (fst x) \<noteq> None" "dm_parent_path (snd x) = Some q \<Longrightarrow> map_of ?rows q \<noteq> None" if "x \<in> set ?rows" for x q
    using assms that by (fastforce simp: closed_tree_def Let_def list_all_iff)+
  have "topmost ?rows ?dom x \<longleftrightarrow> dm_parent_path (snd x) = None" if x: "x \<in> set ?rows" for x
  proof (cases "dm_parent_path (snd x)")
    case None
    then show ?thesis using ok(1)[OF x] by (simp add: topmost_def nearest_indexed_ancestor_match_def)
  next
    case (Some q)
    then obtain row where "map_of ?rows q = Some row" using ok(2)[OF x] by blast
    then have "?dom q \<noteq> None" using ok(1)[OF map_of_SomeD] by fastforce
    then show ?thesis using Some ok(2)[OF x Some] by (auto simp: topmost_def nearest_indexed_ancestor_match_def)
  qed
  then have "map (\<lambda>x. if topmost ?rows ?dom x then v (snd x) else 0) ?rows = map (\<lambda>x. if dm_parent_path (snd x) = None then v (snd x) else 0) ?rows"
    by (intro map_cong) auto
  moreover have "sum_list (map (\<lambda>x. if dm_parent_path (snd x) = None then v (snd x) else 0) xs)
      = sum_list (map v (filter (\<lambda>row. dm_parent_path row = None) (map snd xs)))" for xs :: "(bytes \<times> domain_row) list"
    by (induction xs) auto
  ultimately show ?thesis by (simp only: top_sum_def root_sum_def Let_def)
qed

lemma totals_sum:
  assumes res: "resolve_top_snapshot_selection selector d = Inr snapshots" and tree: "\<forall>s\<in>set snapshots. closed_tree d s"
    and q: "query_indexed_storage_domain_totals selector d = Inr totals"
    and pos: "\<forall>t\<in>set totals. \<not> sd_negative_total_clamped t"
  shows "sum_list (map sd_indexed_visible_disk_bytes totals) = sum_list (map (root_sum dm_disk_bytes d) snapshots)
    \<and> sum_list (map sd_indexed_visible_apparent_bytes totals) = sum_list (map (root_sum dm_apparent_bytes d) snapshots)"
proof -
  let ?accs = "foldl (accumulate_storage_domain_totals d) [] snapshots"
  let ?sorted = "sort_key (\<lambda>a. (- ac_disk_bytes a, domain_key (ac_match a))) (map snd ?accs)"
  have totals: "totals = map to_total ?sorted" using q by (simp add: query_indexed_storage_domain_totals_def res)
  have tops: "map (top_sum v d) snapshots = map (root_sum v d) snapshots" for v using tree top_sum_roots by simp
  have nonneg: "0 \<le> ac_disk_bytes a \<and> 0 \<le> ac_apparent_bytes a" if "a \<in> set ?sorted" for a
    using pos that unfolding totals by (auto simp: to_total_def Let_def not_less)
  have mset: "mset ?sorted = mset (map snd ?accs)" by simp
  have sum: "sum_list (map g ?sorted) = sum_list (map (g \<circ> snd) ?accs)" for g :: "domain_accumulator \<Rightarrow> int"
    using arg_cong[OF mset, of "\<lambda>m. sum_mset (image_mset g m)"] by (simp only: mset_map[symmetric] sum_mset_sum_list map_map)
  have "map sd_indexed_visible_disk_bytes totals = map ac_disk_bytes ?sorted"
    "map sd_indexed_visible_apparent_bytes totals = map ac_apparent_bytes ?sorted"
    unfolding totals map_map using nonneg by (intro map_cong; simp add: to_total_def Let_def)+
  then show ?thesis
    using accumulate_sum[OF tracks_bytes(1), of "[]" d snapshots] accumulate_sum[OF tracks_bytes(2), of "[]" d snapshots]
    by (simp only: sum tops) simp
qed

subsection \<open>Property\<close>

text \<open>
  C12: the storage-domain totals partition what the snapshots measured.  For snapshots whose rows form a
  tree (every parent of a row is a row) under known mounts, and unless a total had to be clamped at zero,
  the disk bytes of all domains add up to the disk bytes of the selected roots: nothing is counted twice
  where one file system is mounted below another, and nothing is lost.  The same holds for apparent bytes.
\<close>

theorem domain_totals_partition:
  assumes "resolve_top_snapshot_selection selector d = Inr snapshots" and "\<forall>s\<in>set snapshots. closed_tree d s"
    and "query_indexed_storage_domain_totals selector d = Inr totals" and "\<forall>t\<in>set totals. \<not> sd_negative_total_clamped t"
  shows "sum_list (map sd_indexed_visible_disk_bytes totals) = sum_list (map (root_sum dm_disk_bytes d) snapshots)
    \<and> sum_list (map sd_indexed_visible_apparent_bytes totals) = sum_list (map (root_sum dm_apparent_bytes d) snapshots)"
  by (rule totals_sum[OF assms])

definition mounted_db :: db where
  "mounted_db = diff_db\<lparr> db_snapshots := take 2 (db_snapshots diff_db), db_mounts := map (snapshot_mount_row_values 2)
     [sample_mount 1 root_dir ''ext4'', (sample_mount 2 ''/r/a'' ''xfs'')\<lparr> mi_major_minor := ''8:2'' \<rparr>] \<rparr>"

lemma domain_totals_partition_witness:
  "\<exists>totals. query_indexed_storage_domain_totals ''latest'' mounted_db = Inr totals
     \<and> map sd_indexed_visible_disk_bytes totals = [70, 20] \<and> sum_list (map sd_indexed_visible_disk_bytes totals) = 90"
proof -
  have e: "case query_indexed_storage_domain_totals ''latest'' mounted_db of Inl _ \<Rightarrow> False
     | Inr t \<Rightarrow> list_all (\<lambda>x. \<not> sd_negative_total_clamped x) t \<and> map sd_indexed_visible_disk_bytes t = [70, 20]" by code_simp
  have f: "case resolve_top_snapshot_selection ''latest'' mounted_db of Inl _ \<Rightarrow> False
     | Inr s \<Rightarrow> list_all (closed_tree mounted_db) s \<and> sum_list (map (root_sum dm_disk_bytes mounted_db) s) = 90" by code_simp
  obtain totals where q: "query_indexed_storage_domain_totals ''latest'' mounted_db = Inr totals"
    and n: "list_all (\<lambda>x. \<not> sd_negative_total_clamped x) totals" and m: "map sd_indexed_visible_disk_bytes totals = [70, 20]"
    using e by (cases "query_indexed_storage_domain_totals ''latest'' mounted_db") simp_all
  obtain snaps where r: "resolve_top_snapshot_selection ''latest'' mounted_db = Inr snaps"
    and c: "list_all (closed_tree mounted_db) snaps" and v: "sum_list (map (root_sum dm_disk_bytes mounted_db) snaps) = 90"
    using f by (cases "resolve_top_snapshot_selection ''latest'' mounted_db") simp_all
  have "sum_list (map sd_indexed_visible_disk_bytes totals) = 90"
    by (rule trans[OF conjunct1[OF domain_totals_partition[OF r c[unfolded list_all_iff] q n[unfolded list_all_iff]]] v])
  then show ?thesis by (intro exI[of _ totals] conjI q m)
qed

end
