(* ===== verification/Ops_Lock.thy ===== *)
theory Ops_Lock
  imports Py_Float Paths
begin

text \<open>
  The writer lock of \<open>ops_lock.py\<close> and the errors \<open>cli.py\<close> turns its failures into.  The
  operating system is an argument: what \<open>mkdir\<close> and \<open>open\<close> answer, and, for the attempts to
  lock, the outcome of \<open>flock\<close> and the reading of \<open>time.monotonic\<close> after it.  Both may depend on
  everything that happened before, which is the list of the sleeps so far, the last one first: the
  loop makes exactly one attempt after each sleep.  The loop runs until the environment lets it
  end, so it is a partial function, and that it ends is a theorem.
\<close>

subsection \<open>The lock file\<close>

datatype flock_outcome = Granted | Would_block | Flock_error string

record lock_world =
  lw_expanduser :: "pathname \<Rightarrow> pathname"
  lw_mkdir :: "pathname \<Rightarrow> string option"
  lw_open :: "pathname \<Rightarrow> string option"
  lw_started_at :: real
  lw_flock :: "real list \<Rightarrow> flock_outcome"
  lw_clock :: "real list \<Rightarrow> real"

text \<open>A lock that was obtained: its path and its open file, which holds the \<open>flock\<close>.\<close>

record operation_lock =
  ol_path :: pathname
  ol_closed :: bool
  ol_flocked :: bool

datatype lock_error =
    Lock_value_error
  | Lock_os_error string
  | Operation_locked pathname
  | Operation_lock_timeout pathname real real

text \<open>\<open>float\<close> with its values that are no numbers.\<close>

datatype py_double = Double real | Infinite_double bool | Not_a_number

definition release :: "operation_lock \<Rightarrow> operation_lock" where
  "release l = (if ol_closed l then l else l\<lparr> ol_flocked := False, ol_closed := True \<rparr>)"

text \<open>\<open>with_name\<close> of the resolved path raises \<open>ValueError\<close> when the path has no last component.\<close>

definition operation_lock_path_for_db :: "(pathname \<Rightarrow> pathname) \<Rightarrow> pathname \<Rightarrow> pathname option" where
  "operation_lock_path_for_db resolve db_path =
     (case rpartition slash (resolve db_path) of
        Some (parent, name) \<Rightarrow> if name = [] then None else Some (parent @ root_dir @ name @ ''.lock'')
      | None \<Rightarrow> None)"

subsection \<open>Waiting for the lock\<close>

partial_function (option) acquire_loop ::
  "float_ops \<Rightarrow> lock_world \<Rightarrow> pathname \<Rightarrow> real \<Rightarrow> real list \<Rightarrow> (lock_error + operation_lock) option" where
  "acquire_loop fl w resolved timeout_seconds sleeps =
     (case lw_flock w sleeps of
        Granted \<Rightarrow> Some (Inr \<lparr> ol_path = resolved, ol_closed = False, ol_flocked = True \<rparr>)
      | Flock_error e \<Rightarrow> Some (Inl (Lock_os_error e))
      | Would_block \<Rightarrow>
          (let elapsed_seconds = fl_round fl (lw_clock w sleeps - lw_started_at w)
           in if timeout_seconds = 0 then Some (Inl (Operation_locked resolved))
              else if timeout_seconds \<le> elapsed_seconds
                then Some (Inl (Operation_lock_timeout resolved timeout_seconds elapsed_seconds))
              else acquire_loop fl w resolved timeout_seconds
                     (min (fl_round fl (5 / 100)) (fl_round fl (timeout_seconds - elapsed_seconds)) # sleeps)))"

definition acquire_operation_lock ::
  "float_ops \<Rightarrow> lock_world \<Rightarrow> pathname \<Rightarrow> py_double \<Rightarrow> (lock_error + operation_lock) option" where
  "acquire_operation_lock fl w lock_path timeout_seconds =
     (case timeout_seconds of
        Double t \<Rightarrow>
          if t < 0 then Some (Inl Lock_value_error)
          else (let resolved = lw_expanduser w lock_path
                in case lw_mkdir w (pathlib_parent resolved) of
                     Some e \<Rightarrow> Some (Inl (Lock_os_error e))
                   | None \<Rightarrow>
                       (case lw_open w resolved of
                          Some e \<Rightarrow> Some (Inl (Lock_os_error e))
                        | None \<Rightarrow> acquire_loop fl w resolved t []))
      | _ \<Rightarrow> Some (Inl Lock_value_error))"

text \<open>
  \<open>_acquire_operation_lock_for_cli\<close>: the code of the error the command ends with, or the lock.
  A \<open>ValueError\<close> is not caught (\<open>None\<close> inside the result).
\<close>

definition acquire_operation_lock_for_cli ::
  "float_ops \<Rightarrow> (pathname \<Rightarrow> pathname) \<Rightarrow> lock_world \<Rightarrow> pathname \<Rightarrow> py_double \<Rightarrow> (string option + operation_lock) option" where
  "acquire_operation_lock_for_cli fl resolve w db_path timeout_seconds =
     (case operation_lock_path_for_db resolve db_path of
        None \<Rightarrow> Some (Inl None)
      | Some lock_path \<Rightarrow>
          map_option (\<lambda>r. case r of
              Inr lock \<Rightarrow> Inr lock
            | Inl (Operation_locked _) \<Rightarrow> Inl (Some ''operation_locked'')
            | Inl (Operation_lock_timeout _ _ _) \<Rightarrow> Inl (Some ''operation_lock_timeout'')
            | Inl (Lock_os_error _) \<Rightarrow> Inl (Some ''database_error'')
            | Inl Lock_value_error \<Rightarrow> Inl None)
            (acquire_operation_lock fl w lock_path timeout_seconds))"

subsection \<open>Clocks\<close>

text \<open>
  What \<open>time.monotonic\<close> and \<open>time.sleep\<close> document: no reading is before an earlier one, and a sleep
  lasts at least as long as was asked.
\<close>

definition sleeping_clock :: "lock_world \<Rightarrow> bool" where
  "sleeping_clock w \<longleftrightarrow> lw_started_at w \<le> lw_clock w []
     \<and> (\<forall>d sleeps. 0 \<le> d \<longrightarrow> lw_clock w sleeps + d \<le> lw_clock w (d # sleeps))"

text \<open>What an answer may be: a lock that is held, or an error that says why not.\<close>

definition lock_answer_ok :: "lock_world \<Rightarrow> pathname \<Rightarrow> real \<Rightarrow> lock_error + operation_lock \<Rightarrow> bool" where
  "lock_answer_ok w resolved t r \<longleftrightarrow>
     (case r of
        Inr l \<Rightarrow> ol_path l = resolved \<and> \<not> ol_closed l \<and> ol_flocked l \<and> (\<exists>sleeps. lw_flock w sleeps = Granted)
      | Inl (Operation_locked p) \<Rightarrow> p = resolved \<and> t = 0 \<and> lw_flock w [] = Would_block
      | Inl (Operation_lock_timeout p t' e) \<Rightarrow> p = resolved \<and> t' = t \<and> 0 < t \<and> t \<le> e
      | Inl (Lock_os_error e) \<Rightarrow> \<exists>sleeps. lw_flock w sleeps = Flock_error e
      | Inl Lock_value_error \<Rightarrow> False)"

text \<open>The number of rounds the rest of the time allows.\<close>

definition rounds_left :: "lock_world \<Rightarrow> real \<Rightarrow> real list \<Rightarrow> nat" where
  "rounds_left w t sleeps = nat \<lceil>20 * (t - (lw_clock w sleeps - lw_started_at w))\<rceil>"

lemma sleeping_clock_step: "sleeping_clock w \<Longrightarrow> 0 \<le> d \<Longrightarrow> lw_clock w sleeps + d \<le> lw_clock w (d # sleeps)"
  by (simp add: sleeping_clock_def)

text \<open>One more round either sleeps for the whole rest or for a twentieth of a second.\<close>

lemma rounds_left_less:
  fixes t :: real
  assumes w: "sleeping_clock w" and e: "lw_clock w sleeps - lw_started_at w < t"
    and d: "d = min (5 / 100) (t - (lw_clock w sleeps - lw_started_at w))"
  shows "rounds_left w t (d # sleeps) < rounds_left w t sleeps"
proof -
  let ?e = "lw_clock w sleeps - lw_started_at w" and ?e' = "lw_clock w (d # sleeps) - lw_started_at w"
  have d0: "0 \<le> d" using e d by simp
  have "?e + d \<le> ?e'" using sleeping_clock_step[OF w d0, of sleeps] by linarith
  moreover have "d = 1 / 20 \<or> d = t - ?e" using d by (auto simp: min_def)
  ultimately have "20 * (t - ?e') \<le> 20 * (t - ?e) - 1 \<or> 20 * (t - ?e') \<le> 0"
    by (auto simp: right_diff_distrib)
  moreover have pos: "0 < \<lceil>20 * (t - ?e)\<rceil>" using e by simp
  ultimately have "\<lceil>20 * (t - ?e')\<rceil> < \<lceil>20 * (t - ?e)\<rceil>"
  proof (elim disjE)
    assume "20 * (t - ?e') \<le> 20 * (t - ?e) - 1"
    then have "\<lceil>20 * (t - ?e')\<rceil> \<le> \<lceil>20 * (t - ?e) - 1\<rceil>" by (rule ceiling_mono)
    also have "\<dots> = \<lceil>20 * (t - ?e)\<rceil> - 1" by (rule ceiling_diff_one)
    finally show ?thesis by simp
  next
    assume "20 * (t - ?e') \<le> 0"
    then have "\<lceil>20 * (t - ?e')\<rceil> \<le> \<lceil>0 :: real\<rceil>" by (rule ceiling_mono)
    also have "\<lceil>0 :: real\<rceil> = 0" by (rule ceiling_zero)
    finally show ?thesis using pos by (rule le_less_trans)
  qed
  then show ?thesis using pos by (simp add: rounds_left_def)
qed

lemma acquire_loop_returns:
  assumes w: "sleeping_clock w" and t: "0 \<le> t" and s: "t = 0 \<Longrightarrow> sleeps = []"
  shows "\<exists>r. acquire_loop exact_floats w resolved t sleeps = Some r \<and> lock_answer_ok w resolved t r"
  using s
proof (induction "rounds_left w t sleeps" arbitrary: sleeps rule: less_induct)
  case less
  let ?e = "lw_clock w sleeps - lw_started_at w"
  let ?d = "min (5 / 100) (t - ?e)"
  show ?case
  proof (cases "lw_flock w sleeps = Would_block \<and> t \<noteq> 0 \<and> ?e < t")
    case True
    then have "rounds_left w t (?d # sleeps) < rounds_left w t sleeps" by (intro rounds_left_less[OF w]) auto
    from less.hyps[OF this] True show ?thesis
      by (subst acquire_loop.simps) (simp add: Let_def exact_floats_def)
  next
    case False
    then show ?thesis using t less.prems
      by (subst acquire_loop.simps)
        (auto simp: Let_def exact_floats_def lock_answer_ok_def split: flock_outcome.splits)
  qed
qed

text \<open>A holder that lets go within the time allowed is always succeeded.\<close>

lemma acquire_loop_obtains:
  assumes w: "sleeping_clock w" and fl: "\<And>s. lw_flock w s = (if free_at \<le> lw_clock w s then Granted else Would_block)"
    and f: "free_at \<le> lw_started_at w + t" and t: "0 < t"
  shows "acquire_loop exact_floats w resolved t sleeps = Some (Inr \<lparr> ol_path = resolved, ol_closed = False, ol_flocked = True \<rparr>)"
proof (induction "rounds_left w t sleeps" arbitrary: sleeps rule: less_induct)
  case less
  let ?e = "lw_clock w sleeps - lw_started_at w"
  let ?d = "min (5 / 100) (t - ?e)"
  show ?case
  proof (cases "free_at \<le> lw_clock w sleeps")
    case True
    then show ?thesis by (subst acquire_loop.simps) (simp add: fl)
  next
    case False
    then have e: "?e < t" using f by linarith
    then have "rounds_left w t (?d # sleeps) < rounds_left w t sleeps" by (intro rounds_left_less[OF w]) auto
    from less.hyps[OF this] False e t show ?thesis
      by (subst acquire_loop.simps) (simp add: Let_def exact_floats_def fl)
  qed
qed

lemma release_idempotent: "release (release l) = release l" "\<not> ol_closed l \<Longrightarrow> \<not> ol_flocked (release l)"
  by (simp_all add: release_def)

lemma acquire_returns:
  assumes w: "sleeping_clock w" and t: "0 \<le> t"
    and m: "lw_mkdir w (pathlib_parent (lw_expanduser w p)) = None" and o': "lw_open w (lw_expanduser w p) = None"
  shows "\<exists>r. acquire_operation_lock exact_floats w p (Double t) = Some r \<and> lock_answer_ok w (lw_expanduser w p) t r"
    and "(\<And>s. lw_flock w s = (if free_at \<le> lw_clock w s then Granted else Would_block)) \<Longrightarrow> free_at \<le> lw_started_at w + t \<Longrightarrow>
      \<exists>l. acquire_operation_lock exact_floats w p (Double t) = Some (Inr l) \<and> ol_flocked l"
proof -
  let ?p = "lw_expanduser w p"
  have run: "acquire_operation_lock exact_floats w p (Double t) = acquire_loop exact_floats w ?p t []"
    using t m o' by (simp add: acquire_operation_lock_def Let_def)
  show "\<exists>r. acquire_operation_lock exact_floats w p (Double t) = Some r \<and> lock_answer_ok w ?p t r"
    unfolding run using acquire_loop_returns[OF w t, of "[]"] by simp
  assume fl: "\<And>s. lw_flock w s = (if free_at \<le> lw_clock w s then Granted else Would_block)" and f: "free_at \<le> lw_started_at w + t"
  show "\<exists>l. acquire_operation_lock exact_floats w p (Double t) = Some (Inr l) \<and> ol_flocked l"
  proof (cases "t = 0")
    case True
    then have "free_at \<le> lw_clock w []" using f w by (simp add: sleeping_clock_def)
    then show ?thesis unfolding run by (subst acquire_loop.simps) (simp add: fl)
  next
    case False
    then show ?thesis unfolding run using acquire_loop_obtains[OF w fl f] t by simp
  qed
qed


definition sample_lock_world :: lock_world where
  "sample_lock_world = \<lparr> lw_expanduser = id, lw_mkdir = (\<lambda>p. None), lw_open = (\<lambda>p. None), lw_started_at = 7,
     lw_flock = (\<lambda>s. if 10 \<le> 7 + sum_list s then Granted else Would_block), lw_clock = (\<lambda>s. 7 + sum_list s) \<rparr>"


end
