(* ===== verification/Query_Service.thy ===== *)
theory Query_Service
  imports Paths Py_Float
begin

text \<open>
  The query service of \<open>cli.py\<close>: a command run by another user than root is sent to a service that runs it on
  the host's database, and the service runs nothing else.  The argument parser with the commands behind it
  (\<open>main\<close>), the socket, the JSON codec and the home directories are arguments; a program that ends by
  \<open>SystemExit\<close>, as the argument parser does, is an outcome of its own.  Signals and the environment variable of
  the deadline are not part of the model: a query that is interrupted ends by \<open>TimeoutError\<close>.
\<close>

definition host_db :: pathname where "host_db = ''/var/lib/watchdirs/watchdirs.sqlite3''"
definition default_query_socket :: pathname where "default_query_socket = ''/run/watchdirs/query.sock''"
definition query_timeout_seconds :: int where "query_timeout_seconds = 120"

definition allowed_commands :: "string list" where
  "allowed_commands =
     [''top'', ''stats'', ''timeline'', ''snapshots'', ''diff'', ''investigate'', ''report'', ''deleted'', ''deleted-open-files'',
      ''explain-path'', ''df-vs-index'']"

datatype json =
    JNull
  | JBool bool
  | JInt int
  | JFloat real
  | JStr string
  | JArr "json list"
  | JObj "(string \<times> json) list"

text \<open>\<open>d.get(key)\<close> of a decoded object, whose later keys replace earlier ones.\<close>

definition json_get :: "(string \<times> json) list \<Rightarrow> string \<Rightarrow> json" where
  "json_get obj key = dict_get (rev obj) key JNull"

datatype cli_error = Value_error string | Runtime_error string

fun error_text :: "cli_error \<Rightarrow> string" where
  "error_text (Value_error m) = m"
| "error_text (Runtime_error m) = m"

subsection \<open>The database option\<close>

text \<open>\<open>Path(p).expanduser()\<close>; \<open>None\<close> when the home directory cannot be determined.\<close>

type_synonym expanduser = "pathname \<Rightarrow> pathname option"

definition validate_query_db_path :: "expanduser \<Rightarrow> string \<Rightarrow> cli_error + unit" where
  "validate_query_db_path expand db_path =
     (case expand (pathlib_path db_path) of
        None \<Rightarrow> Inl (Runtime_error ''Could not determine home directory.'')
      | Some p \<Rightarrow> if p \<noteq> host_db then Inl (Value_error ''query service only accepts the host watchdirs database'') else Inr ())"

fun without_host_db_option :: "expanduser \<Rightarrow> string list \<Rightarrow> cli_error + string list" where
  "without_host_db_option expand [] = Inr []"
| "without_host_db_option expand (item # rest) =
     (if item = ''--db'' then
        (case rest of
           [] \<Rightarrow> Inl (Value_error ''--db requires a path'')
         | db_path # rest' \<Rightarrow>
             (case validate_query_db_path expand db_path of
                Inl e \<Rightarrow> Inl e
              | Inr _ \<Rightarrow> without_host_db_option expand rest'))
      else if startswith item ''--db='' then
        (case validate_query_db_path expand (removeprefix item ''--db='') of
           Inl e \<Rightarrow> Inl e
         | Inr _ \<Rightarrow> without_host_db_option expand rest)
      else map_sum id (Cons item) (without_host_db_option expand rest))"

definition with_forced_host_db :: "string list \<Rightarrow> string list" where
  "with_forced_host_db argv = hd argv # ''--db'' # host_db # tl argv"

subsection \<open>Requests\<close>

fun json_text :: "json \<Rightarrow> string option" where
  "json_text (JStr s) = Some s"
| "json_text _ = None"

definition validated_request_argv :: "json \<Rightarrow> cli_error + string list" where
  "validated_request_argv raw_argv =
     (case raw_argv of
        JArr items \<Rightarrow>
          (if items = [] then Inl (Value_error ''request argv must be a non-empty list'')
           else if \<not> list_all (\<lambda>i. json_text i \<noteq> None) items then Inl (Value_error ''request argv items must be strings'')
           else Inr (List.map_filter json_text items))
      | _ \<Rightarrow> Inl (Value_error ''request argv must be a non-empty list''))"

definition validated_query_request :: "json \<Rightarrow> cli_error + string list" where
  "validated_query_request request =
     (case request of
        JObj obj \<Rightarrow> validated_request_argv (json_get obj ''argv'')
      | _ \<Rightarrow> Inl (Value_error ''request must be a JSON object''))"

definition validated_query_argv :: "expanduser \<Rightarrow> string list \<Rightarrow> cli_error + string list" where
  "validated_query_argv expand argv =
     (if hd argv \<notin> set allowed_commands
      then Inl (Value_error (''command is not allowed through query service: '' @ hd argv))
      else without_host_db_option expand argv)"

subsection \<open>Responses\<close>

record query_response =
  qr_stdout :: "string option"
  qr_stderr :: "string option"
  qr_returncode :: "int option"
  qr_payload :: "(string \<times> json) list option"
  qr_elapsed_seconds :: "real option"

definition response_string :: "string \<Rightarrow> json \<Rightarrow> cli_error + string option" where
  "response_string name v =
     (case v of
        JNull \<Rightarrow> Inr None
      | JStr s \<Rightarrow> Inr (Some s)
      | _ \<Rightarrow> Inl (Value_error (''response '' @ name @ '' must be a string'')))"

text \<open>\<open>isinstance(x, int)\<close> holds of a boolean.\<close>

definition response_returncode :: "json \<Rightarrow> cli_error + int option" where
  "response_returncode v =
     (case v of
        JNull \<Rightarrow> Inr None
      | JInt n \<Rightarrow> Inr (Some n)
      | JBool b \<Rightarrow> Inr (Some (if b then 1 else 0))
      | _ \<Rightarrow> Inl (Value_error ''response returncode must be an integer''))"

definition response_payload :: "json \<Rightarrow> cli_error + (string \<times> json) list option" where
  "response_payload v =
     (case v of
        JNull \<Rightarrow> Inr None
      | JObj obj \<Rightarrow> Inr (Some obj)
      | _ \<Rightarrow> Inl (Value_error ''response payload must be a JSON object''))"

definition response_elapsed :: "float_ops \<Rightarrow> json \<Rightarrow> cli_error + real option" where
  "response_elapsed fl v =
     (case v of
        JNull \<Rightarrow> Inr None
      | JInt n \<Rightarrow> Inr (Some (fl_round fl (of_int n)))
      | JBool b \<Rightarrow> Inr (Some (if b then 1 else 0))
      | JFloat x \<Rightarrow> Inr (Some x)
      | _ \<Rightarrow> Inl (Value_error ''response elapsed_seconds must be numeric''))"

definition validated_query_response :: "float_ops \<Rightarrow> json \<Rightarrow> cli_error + query_response" where
  "validated_query_response fl response =
     (case response of
        JObj obj \<Rightarrow>
          (case response_string ''stdout'' (json_get obj ''stdout'') of
             Inl e \<Rightarrow> Inl e
           | Inr stdout \<Rightarrow>
          (case response_string ''stderr'' (json_get obj ''stderr'') of
             Inl e \<Rightarrow> Inl e
           | Inr stderr \<Rightarrow>
          (case response_returncode (json_get obj ''returncode'') of
             Inl e \<Rightarrow> Inl e
           | Inr returncode \<Rightarrow>
          (case response_payload (json_get obj ''payload'') of
             Inl e \<Rightarrow> Inl e
           | Inr payload \<Rightarrow>
          (case response_elapsed fl (json_get obj ''elapsed_seconds'') of
             Inl e \<Rightarrow> Inl e
           | Inr elapsed \<Rightarrow>
               Inr \<lparr> qr_stdout = stdout, qr_stderr = stderr, qr_returncode = returncode, qr_payload = payload,
                     qr_elapsed_seconds = elapsed \<rparr>)))))
      | _ \<Rightarrow> Inl (Value_error ''response must be a JSON object''))"

subsection \<open>The service\<close>

text \<open>How \<open>main\<close> ends, with what it wrote to the redirected streams.\<close>

datatype main_outcome =
    Main_returned int string string
  | Main_timeout string
  | Main_exception string
  | Main_system_exit int

type_synonym json_codec = "(json \<Rightarrow> string) \<times> (string \<Rightarrow> string + json)"

definition runtime_error_payload :: "string \<Rightarrow> string \<Rightarrow> string option \<Rightarrow> (string \<times> json) list \<Rightarrow> json" where
  "runtime_error_payload code message command ctx =
     JObj ([(''ok'', JBool False), (''schema_version'', JInt 1),
            (''error'', JObj (foldl (\<lambda>d (k, v). AList.update k v d) [(''code'', JStr code), (''message'', JStr message)] ctx))]
           @ (case command of None \<Rightarrow> [] | Some c \<Rightarrow> [(''command'', JStr c)]))"

text \<open>The layout of \<open>json.dumps\<close> is the encoder's.\<close>

definition query_error_response ::
    "json_codec \<Rightarrow> string \<Rightarrow> string \<Rightarrow> string option \<Rightarrow> (string \<times> json) list \<Rightarrow> query_response" where
  "query_error_response codec code message command ctx =
     \<lparr> qr_stdout = Some (fst codec (runtime_error_payload code message
           (Some (case command of Some c \<Rightarrow> (if c = [] then ''query-server'' else c) | None \<Rightarrow> ''query-server'')) ctx)
         @ [CHR 0x0A]),
       qr_stderr = Some (''watchdirs query error: '' @ message @ [CHR 0x0A]), qr_returncode = Some 1, qr_payload = None,
       qr_elapsed_seconds = None \<rparr>"

definition add_query_response_metadata :: "json_codec \<Rightarrow> real \<Rightarrow> query_response \<Rightarrow> query_response" where
  "add_query_response_metadata codec elapsed response =
     (let response = response\<lparr> qr_elapsed_seconds := Some elapsed \<rparr> in
      case qr_stdout response of
        None \<Rightarrow> response
      | Some stdout \<Rightarrow>
          (case snd codec stdout of
             Inr (JObj obj) \<Rightarrow> response\<lparr> qr_payload := Some obj \<rparr>
           | _ \<Rightarrow> response))"

text \<open>The command the service runs for a request, and its name for the error report.\<close>

definition query_argv :: "expanduser \<Rightarrow> json \<Rightarrow> cli_error + string list" where
  "query_argv expand request =
     (case validated_query_request request of
        Inl e \<Rightarrow> Inl e
      | Inr argv \<Rightarrow> map_sum id with_forced_host_db (validated_query_argv expand argv))"

datatype query_error = Query_timeout string | Query_error string | Query_exit int

definition query_result ::
    "expanduser \<Rightarrow> (string list \<Rightarrow> main_outcome) \<Rightarrow> string + json \<Rightarrow> query_error \<times> string option + query_response" where
  "query_result expand main request =
     (case request of
        Inl e \<Rightarrow> Inl (Query_error e, None)
      | Inr r \<Rightarrow>
          (case query_argv expand r of
             Inl e \<Rightarrow> Inl (Query_error (error_text e), None)
           | Inr argv \<Rightarrow>
               (case main argv of
                  Main_returned returncode stdout stderr \<Rightarrow>
                    Inr \<lparr> qr_stdout = Some stdout, qr_stderr = Some stderr, qr_returncode = Some returncode, qr_payload = None,
                          qr_elapsed_seconds = None \<rparr>
                | Main_timeout m \<Rightarrow> Inl (Query_timeout m, Some (hd argv))
                | Main_exception m \<Rightarrow> Inl (Query_error m, Some (hd argv))
                | Main_system_exit c \<Rightarrow> Inl (Query_exit c, Some (hd argv)))))"

text \<open>\<open>run_query_server\<close>: the response it writes, or the status it exits with before writing one.\<close>

definition run_query_server ::
    "json_codec \<Rightarrow> expanduser \<Rightarrow> (string list \<Rightarrow> main_outcome) \<Rightarrow> real \<Rightarrow> string + json \<Rightarrow> int + query_response" where
  "run_query_server codec expand main elapsed request =
     (case query_result expand main request of
        Inr response \<Rightarrow> Inr (add_query_response_metadata codec elapsed response)
      | Inl (Query_timeout m, command) \<Rightarrow>
          Inr (add_query_response_metadata codec elapsed
            (query_error_response codec ''query_timeout'' m command
               [(''timeout_seconds'', JInt query_timeout_seconds), (''source'', JStr ''query_server'')]))
      | Inl (Query_error m, command) \<Rightarrow>
          Inr (add_query_response_metadata codec elapsed
            (query_error_response codec ''query_error'' m command [(''source'', JStr ''query_server'')]))
      | Inl (Query_exit c, _) \<Rightarrow> Inl c)"

definition response_json :: "query_response \<Rightarrow> json" where
  "response_json r = JObj (
     (case qr_returncode r of None \<Rightarrow> [] | Some n \<Rightarrow> [(''returncode'', JInt n)])
     @ (case qr_stdout r of None \<Rightarrow> [] | Some s \<Rightarrow> [(''stdout'', JStr s)])
     @ (case qr_stderr r of None \<Rightarrow> [] | Some s \<Rightarrow> [(''stderr'', JStr s)])
     @ (case qr_elapsed_seconds r of None \<Rightarrow> [] | Some x \<Rightarrow> [(''elapsed_seconds'', JFloat x)])
     @ (case qr_payload r of None \<Rightarrow> [] | Some p \<Rightarrow> [(''payload'', JObj p)]))"

subsection \<open>The client\<close>

definition query_socket_path :: "(string \<Rightarrow> string option) \<Rightarrow> expanduser \<Rightarrow> cli_error + pathname" where
  "query_socket_path environ expand =
     (case environ ''WATCHDIRS_QUERY_SOCKET'' of
        None \<Rightarrow> Inr default_query_socket
      | Some configured \<Rightarrow>
          (if configured = [] then Inr default_query_socket
           else (case expand (pathlib_path configured) of
                   None \<Rightarrow> Inl (Runtime_error ''Could not determine home directory.'')
                 | Some p \<Rightarrow> Inr p)))"

definition should_proxy_query :: "int \<Rightarrow> expanduser \<Rightarrow> string option \<Rightarrow> string option \<Rightarrow> cli_error + bool" where
  "should_proxy_query euid expand command db_arg =
     (if euid = 0 then Inr False
      else if \<not> (\<exists>c\<in>set allowed_commands. command = Some c) then Inr False
      else (case db_arg of
              None \<Rightarrow> Inr True
            | Some db \<Rightarrow>
                (case expand (pathlib_path db) of
                   None \<Rightarrow> Inl (Runtime_error ''Could not determine home directory.'')
                 | Some p \<Rightarrow> Inr (p = host_db))))"

definition query_request :: "string list \<Rightarrow> json" where
  "query_request argv = JObj [(''argv'', JArr (map JStr argv))]"

text \<open>
  The exit status with what was written to the two streams, or the exception that escapes.  \<open>ask\<close> is the
  exchange over the socket, its \<open>OSError\<close> as text; \<open>decode\<close> is UTF-8 with the JSON decoder; \<open>pipe\<close> says whether
  standard output takes the text.
\<close>

datatype proxy_outcome = Proxy_exit int string string | Proxy_raises cli_error

definition proxy_query ::
    "float_ops \<Rightarrow> json_codec \<Rightarrow> expanduser \<Rightarrow> (string \<Rightarrow> string + string) \<Rightarrow> bool \<Rightarrow> string list \<Rightarrow> proxy_outcome" where
  "proxy_query fl codec expand ask pipe argv =
     (case without_host_db_option expand argv of
        Inl e \<Rightarrow> Proxy_raises e
      | Inr request_argv \<Rightarrow>
          (case ask (fst codec (query_request request_argv) @ [CHR 0x0A]) of
             Inl e \<Rightarrow> Proxy_exit 1 [] (''watchdirs query service unavailable: '' @ e @ [CHR 0x0A])
           | Inr response_bytes \<Rightarrow>
               (case snd codec response_bytes of
                  Inl e \<Rightarrow> Proxy_exit 1 [] (''watchdirs query service returned invalid response: '' @ e @ [CHR 0x0A])
                | Inr j \<Rightarrow>
                    (case validated_query_response fl j of
                       Inl e \<Rightarrow> Proxy_raises e
                     | Inr response \<Rightarrow>
                         (let out = (case qr_stdout response of None \<Rightarrow> [] | Some s \<Rightarrow> s);
                              err = (case qr_stderr response of None \<Rightarrow> [] | Some s \<Rightarrow> s)
                          in if qr_stdout response \<noteq> None \<and> \<not> pipe then Proxy_exit 0 [] []
                             else (case qr_returncode response of
                                     Some returncode \<Rightarrow> Proxy_exit returncode out err
                                   | None \<Rightarrow> Proxy_exit 1 out
                                       (err @ ''watchdirs query service returned invalid status'' @ [CHR 0x0A])))))))"

end
