(* ===== verification/Writers.thy ===== *)
theory Writers
  imports Store_History Ops_Lock Query_Service Report_Base
begin

text \<open>
  The commands that write: \<open>collect\<close>, \<open>prune\<close> and \<open>vacuum\<close> of \<open>cli.py\<close>, twice.  As handlers: what a run prints, its
  exit code and the database it leaves, with the errors of the lock and the exceptions no handler catches.  And as
  programs of several transactions, in a system of any number of processes that share the database and the lock
  file: a process that holds the lock commits its transactions one by one, and may be killed or interrupted between
  any two of them.
\<close>

subsection \<open>Output\<close>

datatype cli_output = Out_json json | Out_text string | Err_text string

text \<open>How a command ends: by its exit code, or by an exception that is not caught.\<close>

datatype cli_end = Exits int cli_output | Raises string

fun context_text :: "(real \<Rightarrow> string) \<Rightarrow> json \<Rightarrow> string" where
  "context_text float_text (JStr s) = s"
| "context_text float_text (JInt n) = int_str n"
| "context_text float_text (JFloat x) = float_text x"
| "context_text float_text _ = []"

definition emit_runtime_error :: "(real \<Rightarrow> string) \<Rightarrow> string \<Rightarrow> string \<Rightarrow> bool \<Rightarrow> (string \<times> json) list \<Rightarrow> cli_end" where
  "emit_runtime_error float_text code message as_json ctx = Exits 1
     (if as_json then Out_json (runtime_error_payload code message None ctx)
      else Err_text (code @ '': '' @ message
        @ (if ctx = [] then []
           else '' ('' @ join_str '', '' (map (\<lambda>(k, v). k @ ''='' @ context_text float_text v) (sort_key fst ctx)) @ '')'')))"

definition emit_config_error :: "config_error \<Rightarrow> bool \<Rightarrow> cli_end" where
  "emit_config_error e as_json = Exits 2
     (if as_json
      then Out_json (JObj [(''ok'', JBool False),
        (''error'', JObj [(''code'', JStr ''config_error''), (''kind'', JStr (ce_kind e)), (''message'', JStr (ce_message e)),
                          (''path'', JStr (ce_path e))])])
      else Err_text (''config error ['' @ ce_kind e @ ''] '' @ ce_message e @ '': '' @ ce_path e))"

definition database_error :: "(real \<Rightarrow> string) \<Rightarrow> string \<Rightarrow> bool \<Rightarrow> pathname \<Rightarrow> cli_end" where
  "database_error float_text message as_json db_path =
     emit_runtime_error float_text ''database_error'' message as_json [(''db_path'', JStr db_path)]"

subsection \<open>What the commands are given\<close>

text \<open>
  The environment of a command: how its floats round and print, the file system's answers about the database file,
  and those of the lock.
\<close>

record writer_env =
  we_floats :: float_ops
  we_float_text :: "real \<Rightarrow> string"
  we_resolve :: "pathname \<Rightarrow> pathname"
  we_lock :: lock_world
  we_is_file :: bool
  we_open_error :: "string option"

record collect_args =
  ca_json :: bool
  ca_notes :: "string option"
  ca_mountinfo :: "string option"
  ca_lock_timeout :: py_double

record retention_args =
  ra_json :: bool
  ra_hourly_days :: int
  ra_daily_days :: int
  ra_incomplete_hours :: int
  ra_lock_timeout :: py_double

definition operation_lock_timeout_error :: "(real \<Rightarrow> string) \<Rightarrow> pathname \<Rightarrow> real \<Rightarrow> real \<Rightarrow> bool \<Rightarrow> pathname \<Rightarrow> cli_end" where
  "operation_lock_timeout_error float_text lock_path timeout_seconds elapsed as_json db_path =
     emit_runtime_error float_text ''operation_lock_timeout''
       (''timed out waiting for another watchdirs writer to release '' @ lock_path @ '' after '' @ fixed3 elapsed @ ''s'')
       as_json [(''db_path'', JStr db_path), (''lock_path'', JStr lock_path), (''lock_timeout_seconds'', JFloat timeout_seconds),
                (''elapsed_seconds'', JFloat elapsed)]"

text \<open>The lock, or the end of the command that did not get it; \<open>None\<close> if the waiting does not end.\<close>

definition lock_for_command :: "writer_env \<Rightarrow> pathname \<Rightarrow> py_double \<Rightarrow> bool \<Rightarrow> (cli_end + operation_lock) option" where
  "lock_for_command env db_path timeout_seconds as_json =
     (case operation_lock_path_for_db (we_resolve env) db_path of
        None \<Rightarrow> Some (Inl (Raises ''ValueError''))
      | Some lock_path \<Rightarrow>
          map_option (\<lambda>r. case r of
              Inr lock \<Rightarrow> Inr lock
            | Inl (Operation_locked p) \<Rightarrow>
                Inl (emit_runtime_error (we_float_text env) ''operation_locked'' (''another watchdirs writer is already active: '' @ p)
                  as_json [(''db_path'', JStr db_path), (''lock_path'', JStr p)])
            | Inl (Operation_lock_timeout p t elapsed) \<Rightarrow>
                Inl (operation_lock_timeout_error (we_float_text env) p t elapsed as_json db_path)
            | Inl (Lock_os_error e) \<Rightarrow>
                Inl (emit_runtime_error (we_float_text env) ''database_error'' e as_json
                  [(''db_path'', JStr db_path), (''lock_path'', JStr lock_path)])
            | Inl Lock_value_error \<Rightarrow> Inl (Raises ''ValueError''))
            (acquire_operation_lock (we_floats env) (we_lock env) lock_path timeout_seconds))"

text \<open>
  The body under the lock: opening the file, the schema, then the work, which gets the initialized database.
  \<open>RuntimeError\<close> of an unsupported schema is not among the exceptions the commands catch.
\<close>

definition locked_command ::
    "writer_env \<Rightarrow> bool \<Rightarrow> pathname \<Rightarrow> py_double \<Rightarrow> (db \<Rightarrow> (cli_end \<times> db) option) \<Rightarrow> db \<Rightarrow> (cli_end \<times> db) option" where
  "locked_command env as_json db_path timeout_seconds work d =
     Option.bind (lock_for_command env db_path timeout_seconds as_json) (\<lambda>locked.
       case locked of
         Inl e \<Rightarrow> Some (e, d)
       | Inr _ \<Rightarrow>
           (case we_open_error env of
              Some e \<Rightarrow> Some (database_error (we_float_text env) e as_json db_path, d)
            | None \<Rightarrow>
                (case initialize_database d of
                   Inl _ \<Rightarrow> Some (Raises ''RuntimeError'', d)
                 | Inr d1 \<Rightarrow> work d1)))"

subsection \<open>collect\<close>

definition collected_payload :: "snapshot_record \<times> int \<Rightarrow> json" where
  "collected_payload = (\<lambda>(s, row_count). JObj
     [(''id'', JInt (sr_id s)), (''root_path'', JStr (sr_root_path s)), (''status'', JStr (status_value (sr_status s))),
      (''started_at'', JStr (sr_started_at s)), (''finished_at'', (case sr_finished_at s of None \<Rightarrow> JNull | Some t \<Rightarrow> JStr t)),
      (''notes'', (case sr_notes s of None \<Rightarrow> JNull | Some t \<Rightarrow> JStr t)),
      (''error'', (case sr_error s of None \<Rightarrow> JNull | Some t \<Rightarrow> JStr t)), (''row_count'', JInt row_count)])"

definition text_or_null :: "string option \<Rightarrow> json" where
  "text_or_null v = (case v of None \<Rightarrow> JNull | Some t \<Rightarrow> JStr t)"

text \<open>
  The snapshots of the roots so far, the root and the exception that ended the loop early, the exit code and the
  database.  A root whose failure cannot be recorded leaves the snapshot it has created.
\<close>

fun collect_loop ::
    "(configured_root \<Rightarrow> collect_env) \<Rightarrow> watch_config \<Rightarrow> string option \<Rightarrow> configured_root list \<Rightarrow> db
     \<Rightarrow> ((snapshot_record \<times> int) list \<times> (configured_root \<times> db_error) option \<times> int \<times> db) option" where
  "collect_loop env cfg notes [] d = Some ([], None, 0, d)"
| "collect_loop env cfg notes (r # rs) d =
     (case collect_single_root (env r) cfg notes r d of
        None \<Rightarrow> None
      | Some (Inl e) \<Rightarrow> Some ([], Some (r, e), 0, snd (create_snapshot (cl_started_at (env r)) (cr_path r) notes d))
      | Some (Inr (rec, rows, d')) \<Rightarrow>
          map_option (\<lambda>(later, failed, code, d''). ((rec, rows) # later, failed, if sr_status rec \<noteq> COMPLETE then 1 else code, d''))
            (collect_loop env cfg notes rs d'))"

definition collect_document :: "collect_args \<Rightarrow> pathname \<Rightarrow> watch_config \<Rightarrow> bool \<Rightarrow> (snapshot_record \<times> int) list \<Rightarrow> json" where
  "collect_document args db_path cfg ok snapshots = JObj
     [(''ok'', JBool ok), (''command'', JStr ''collect''), (''db_path'', JStr db_path), (''notes'', text_or_null (ca_notes args)),
      (''mountinfo'', text_or_null (ca_mountinfo args)), (''roots'', JArr (map (\<lambda>r. JStr (cr_path r)) (wc_roots cfg))),
      (''exclude_paths'', JArr (map JStr (wc_exclude_paths cfg))), (''snapshots'', JArr (map collected_payload snapshots))]"

definition collect_operation ::
    "writer_env \<Rightarrow> (configured_root \<Rightarrow> collect_env) \<Rightarrow> watch_config \<Rightarrow> collect_args \<Rightarrow> pathname \<Rightarrow> db \<Rightarrow> (cli_end \<times> db) option" where
  "collect_operation env roots_env cfg args db_path d =
     map_option (\<lambda>(snapshots, failed, code, d').
       ((case failed of
           Some (r, e) \<Rightarrow> emit_runtime_error (we_float_text env) ''database_error'' (cl_db_error_text (roots_env r) e) (ca_json args)
             [(''db_path'', JStr db_path), (''root_path'', JStr (cr_path r))]
         | None \<Rightarrow> Exits code
             (if ca_json args then Out_json (collect_document args db_path cfg (code = 0) snapshots)
              else Out_text (''watchdirs collected '' @ int_str (int (length snapshots)) @ '' snapshot(s)''))), d'))
       (collect_loop roots_env cfg (ca_notes args) (wc_roots cfg) d)"

definition run_collect ::
    "writer_env \<Rightarrow> (configured_root \<Rightarrow> collect_env) \<Rightarrow> config_error + watch_config \<Rightarrow> collect_args \<Rightarrow> pathname \<Rightarrow> db
     \<Rightarrow> (cli_end \<times> db) option" where
  "run_collect env roots_env loaded args db_path d =
     (case loaded of
        Inl e \<Rightarrow> Some (emit_config_error e (ca_json args), d)
      | Inr cfg \<Rightarrow>
          locked_command env (ca_json args) db_path (ca_lock_timeout args) (collect_operation env roots_env cfg args db_path) d)"

subsection \<open>prune and vacuum\<close>

definition policy_error_text :: "retention_error \<Rightarrow> string" where
  "policy_error_text e =
     (case e of
        Not_positive name \<Rightarrow> name @ '' must be a positive integer''
      | _ \<Rightarrow> ''daily_days must be greater than or equal to hourly_days'')"

definition prune_payload :: "prune_result \<Rightarrow> pathname \<Rightarrow> retention_policy \<Rightarrow> json" where
  "prune_payload r db_path p = JObj
     [(''ok'', JBool True), (''command'', JStr ''prune''), (''db_path'', JStr db_path),
      (''policy'', JObj [(''hourly_days'', JInt (rp_hourly_days p)), (''daily_days'', JInt (rp_daily_days p)),
                         (''incomplete_hours'', JInt (rp_incomplete_hours p))]),
      (''deleted_snapshot_ids'', JArr (map JInt (pr_deleted_snapshot_ids r))),
      (''deleted_snapshot_count'', JInt (pr_deleted_snapshot_count r)),
      (''retained_snapshot_count'', JInt (pr_retained_snapshot_count r)), (''deleted_path_count'', JInt (pr_deleted_path_count r)),
      (''snapshots_before'', JInt (pr_snapshots_before r)), (''snapshots_after'', JInt (pr_snapshots_after r))]"

text \<open>The exceptions of \<open>prune_snapshots\<close>: an SQLite error is caught, a \<open>ValueError\<close> of an unreadable row is not.\<close>

definition prune_failure :: "writer_env \<Rightarrow> (db_error \<Rightarrow> string) \<Rightarrow> bool \<Rightarrow> pathname \<Rightarrow> retention_error \<Rightarrow> cli_end" where
  "prune_failure env sql_text as_json db_path e =
     (case e of Prune_db_error x \<Rightarrow> database_error (we_float_text env) (sql_text x) as_json db_path | _ \<Rightarrow> Raises ''ValueError'')"

definition missing_database :: "writer_env \<Rightarrow> bool \<Rightarrow> pathname \<Rightarrow> cli_end" where
  "missing_database env as_json db_path =
     database_error (we_float_text env) (''watchdirs database does not exist: '' @ db_path) as_json db_path"

definition prune_operation ::
    "writer_env \<Rightarrow> (db_error \<Rightarrow> string) \<Rightarrow> (int \<Rightarrow> int) \<Rightarrow> instant \<Rightarrow> retention_policy \<Rightarrow> bool \<Rightarrow> pathname \<Rightarrow> db \<Rightarrow> (cli_end \<times> db) option" where
  "prune_operation env sql_text lo now p as_json db_path d =
     (case prune_snapshots lo now p True d of
        Inl e \<Rightarrow> Some (prune_failure env sql_text as_json db_path e, d)
      | Inr (result, ds) \<Rightarrow>
          Some (Exits 0
            (if as_json then Out_json (prune_payload result db_path p)
             else Out_text (''watchdirs pruned '' @ int_str (pr_deleted_snapshot_count result) @ '' snapshot(s), retained ''
               @ int_str (pr_retained_snapshot_count result))), last ds))"

definition run_prune ::
    "writer_env \<Rightarrow> (db_error \<Rightarrow> string) \<Rightarrow> (int \<Rightarrow> int) \<Rightarrow> instant \<Rightarrow> retention_args \<Rightarrow> pathname \<Rightarrow> db \<Rightarrow> (cli_end \<times> db) option" where
  "run_prune env sql_text lo now args db_path d =
     (case make_policy (ra_hourly_days args) (ra_daily_days args) (ra_incomplete_hours args) of
        Inl e \<Rightarrow> Some (emit_runtime_error (we_float_text env) ''invalid_retention_policy'' (policy_error_text e) (ra_json args)
            [(''hourly_days'', JInt (ra_hourly_days args)), (''daily_days'', JInt (ra_daily_days args)),
             (''incomplete_hours'', JInt (ra_incomplete_hours args))], d)
      | Inr p \<Rightarrow>
          if \<not> we_is_file env then Some (missing_database env (ra_json args) db_path, d)
          else locked_command env (ra_json args) db_path (ra_lock_timeout args)
                 (prune_operation env sql_text lo now p (ra_json args) db_path) d)"

definition vacuum_payload :: "vacuum_result \<Rightarrow> pathname \<Rightarrow> json" where
  "vacuum_payload r db_path = JObj
     [(''ok'', JBool True), (''command'', JStr ''vacuum''), (''db_path'', JStr db_path),
      (''db_bytes_before'', JInt (vr_db_bytes_before r)), (''db_bytes_after'', JInt (vr_db_bytes_after r)),
      (''page_count_before'', JInt (vr_page_count_before r)), (''page_count_after'', JInt (vr_page_count_after r)),
      (''freelist_count_before'', JInt (vr_freelist_count_before r)), (''freelist_count_after'', JInt (vr_freelist_count_after r)),
      (''available_free_bytes_before'', JInt (vr_available_free_bytes_before r)),
      (''estimated_vacuum_required_free_bytes'', JInt (vr_estimated_vacuum_required_free_bytes r)),
      (''free_space_warning'', text_or_null (vr_free_space_warning r)),
      (''wal_checkpoint_busy'', JInt (vr_wal_checkpoint_busy r)),
      (''wal_checkpoint_log_pages'', JInt (vr_wal_checkpoint_log_pages r)),
      (''wal_checkpoint_checkpointed_pages'', JInt (vr_wal_checkpoint_checkpointed_pages r)),
      (''wal_checkpoint_warning'', text_or_null (vr_wal_checkpoint_warning r))]"

text \<open>\<open>VACUUM\<close> rewrites the file and keeps the tables; SQLite's answers, or the text of its error, are an argument.\<close>

definition vacuum_operation :: "writer_env \<Rightarrow> string + vacuum_answers \<Rightarrow> bool \<Rightarrow> pathname \<Rightarrow> db \<Rightarrow> (cli_end \<times> db) option" where
  "vacuum_operation env answers as_json db_path d =
     (case answers of
        Inl e \<Rightarrow> Some (database_error (we_float_text env) e as_json db_path, d)
      | Inr a \<Rightarrow>
          (let result = collect_vacuum_metrics a in
           Some (Exits 0
             (if as_json then Out_json (vacuum_payload result db_path)
              else Out_text (''watchdirs vacuumed database '' @ int_str (vr_db_bytes_before result) @ '' -> ''
                @ int_str (vr_db_bytes_after result) @ '' bytes'')), d)))"

definition run_vacuum :: "writer_env \<Rightarrow> string + vacuum_answers \<Rightarrow> bool \<Rightarrow> py_double \<Rightarrow> pathname \<Rightarrow> db \<Rightarrow> (cli_end \<times> db) option" where
  "run_vacuum env answers as_json timeout_seconds db_path d =
     (if \<not> we_is_file env then Some (missing_database env as_json db_path, d)
      else locked_command env as_json db_path timeout_seconds (vacuum_operation env answers as_json db_path) d)"

end
