(* ===== verification/Writer_System.thy ===== *)
theory Writer_System
  imports Writers
begin

text \<open>
  The writing commands as programs of transactions, in a system of processes.  A program has a position; a step is
  the transaction that comes next, computed from the database as it is then.  The processes share the database and
  the lock of \<open>ops_lock.py\<close>, which the kernel gives to one of them at a time and takes back when it ends, however it
  ends.
\<close>

subsection \<open>Programs\<close>

datatype writer_command =
    Collect_command "configured_root \<Rightarrow> collect_env" watch_config "string option"
  | Prune_command "int \<Rightarrow> int" instant int int int
  | Vacuum_command

datatype writer_position =
    Opening
  | Roots_left "configured_root list"
  | Storing int configured_root "configured_root list"
  | Selecting
  | Deleting "int list list"
  | Finished

definition collecting :: "configured_root list \<Rightarrow> writer_position" where
  "collecting rs = (if rs = [] then Finished else Roots_left rs)"

text \<open>The transactions of a collection: the new snapshot, then its rows and its end, root by root.\<close>

definition collect_transaction ::
    "(configured_root \<Rightarrow> collect_env) \<Rightarrow> watch_config \<Rightarrow> string option \<Rightarrow> writer_position \<Rightarrow> db \<Rightarrow> (writer_position \<times> db) option" where
  "collect_transaction env cfg notes pos d =
     (case pos of
        Roots_left (r # rs) \<Rightarrow>
          (case create_snapshot (cl_started_at (env r)) (cr_path r) notes d of (snapshot, d1) \<Rightarrow> Some (Storing (sr_id snapshot) r rs, d1))
      | Storing sid r rs \<Rightarrow>
          (case collect_attempt (env r) cfg r notes sid d of
             None \<Rightarrow> None
           | Some (Inr (_, _, d')) \<Rightarrow> Some (collecting rs, d')
           | Some (Inl message) \<Rightarrow>
               (case finalize_snapshot (cl_finished_at (env r)) sid FAILED notes (Some message) d of
                  Inl _ \<Rightarrow> None
                | Inr (_, d') \<Rightarrow> Some (collecting rs, d')))
      | _ \<Rightarrow> None)"

text \<open>Those of a pruning: the interval boundaries, each batch of snapshots, the orphaned paths.\<close>

definition prune_transaction ::
    "(int \<Rightarrow> int) \<Rightarrow> instant \<Rightarrow> retention_policy \<Rightarrow> writer_position \<Rightarrow> db \<Rightarrow> (writer_position \<times> db) option" where
  "prune_transaction lo now p pos d =
     (case pos of
        Selecting \<Rightarrow>
          (case select_retained_snapshot_ids lo now p d of
             Inl _ \<Rightarrow> None
           | Inr retained \<Rightarrow>
               (case normalize_interval_boundaries retained d of
                  Inl _ \<Rightarrow> None
                | Inr d1 \<Rightarrow>
                    Some (Deleting (batches PRUNE_SNAPSHOT_DELETE_BATCH_SIZE
                       (filter (\<lambda>i. i \<notin> set retained) (map sn_id (snapshots_by_id d)))), d1)))
      | Deleting (b # bs) \<Rightarrow> Some (Deleting bs, delete_snapshot_batch b d)
      | Deleting [] \<Rightarrow> Some (Finished, snd (delete_orphan_paths d))
      | _ \<Rightarrow> None)"

text \<open>
  The next transaction of a command, \<open>None\<close> when there is none: at the end, after an error, or while a scan does not
  end.
\<close>

fun first_position :: "writer_command \<Rightarrow> writer_position" where
  "first_position (Collect_command env cfg notes) = collecting (wc_roots cfg)"
| "first_position (Prune_command _ _ _ _ _) = Selecting"
| "first_position Vacuum_command = Finished"

definition transaction :: "writer_command \<Rightarrow> writer_position \<Rightarrow> db \<Rightarrow> (writer_position \<times> db) option" where
  "transaction c pos d =
     (if pos = Opening
      then (case initialize_database d of Inl _ \<Rightarrow> None | Inr d' \<Rightarrow> Some (first_position c, d'))
      else (case c of
          Collect_command env cfg notes \<Rightarrow> collect_transaction env cfg notes pos d
        | Prune_command lo now h dd inc \<Rightarrow>
            (case make_policy h dd inc of Inl _ \<Rightarrow> None | Inr p \<Rightarrow> prune_transaction lo now p pos d)
        | Vacuum_command \<Rightarrow> None))"

text \<open>The position and the database after a number of transactions of a command that runs alone.\<close>

fun transactions :: "writer_command \<Rightarrow> nat \<Rightarrow> writer_position \<times> db \<Rightarrow> (writer_position \<times> db) option" where
  "transactions c 0 st = Some st"
| "transactions c (Suc n) st = Option.bind (transactions c n st) (\<lambda>(pos, d). transaction c pos d)"

text \<open>
  How a run ends besides by itself: it is cut (killed, or failed), or interrupted by a signal, on which a collection
  marks its open snapshot as failed.
\<close>

datatype writer_end = Cut | Interrupted string string

definition end_run :: "writer_end \<Rightarrow> writer_position \<times> db \<Rightarrow> db option" where
  "end_run e = (\<lambda>(pos, d).
     (case e of
        Cut \<Rightarrow> Some d
      | Interrupted now message \<Rightarrow>
          (case finalize_interrupted now message (case pos of Storing sid _ _ \<Rightarrow> [sid] | _ \<Rightarrow> []) d of
             Inl _ \<Rightarrow> None
           | Inr d' \<Rightarrow> Some d')))"

type_synonym writer_run = "writer_command \<times> nat \<times> writer_end"

text \<open>A run on its own: some transactions of a command, then its end.\<close>

fun run_alone :: "writer_run \<Rightarrow> db \<Rightarrow> db option" where
  "run_alone (c, n, e) d = Option.bind (transactions c n (Opening, d)) (end_run e)"

subsection \<open>Processes\<close>

datatype writer_process =
    Idle
  | Waiting writer_command
  | Running writer_command writer_position

text \<open>The last field is the history of the lock: the commands in the order in which they got it.\<close>

record writers =
  wr_db :: db
  wr_lock :: "nat option"
  wr_process :: "nat \<Rightarrow> writer_process"
  wr_log :: "writer_command list"

definition flock_answer :: "writers \<Rightarrow> flock_outcome" where
  "flock_answer s = (if wr_lock s = None then Granted else Would_block)"

definition set_process :: "nat \<Rightarrow> writer_process \<Rightarrow> writers \<Rightarrow> writers" where
  "set_process i p s = s\<lparr> wr_process := (wr_process s)(i := p) \<rparr>"

text \<open>The kernel drops the locks of a process with its files.\<close>

definition release_lock :: "nat \<Rightarrow> writers \<Rightarrow> writers" where
  "release_lock i s = s\<lparr> wr_lock := (if wr_lock s = Some i then None else wr_lock s) \<rparr>"

text \<open>
  The steps of process \<open>i\<close>: it starts a command; \<open>flock\<close> grants it the lock; it gives up waiting; it commits a
  transaction; it ends or is killed; or a signal interrupts its collection.
\<close>

inductive writer_step :: "writers \<Rightarrow> writers \<Rightarrow> bool" where
  start: "wr_process s i = Idle \<Longrightarrow> writer_step s (set_process i (Waiting c) s)"
| granted: "wr_process s i = Waiting c \<Longrightarrow> flock_answer s = Granted
    \<Longrightarrow> writer_step s (set_process i (Running c Opening) (s\<lparr> wr_lock := Some i, wr_log := wr_log s @ [c] \<rparr>))"
| refused: "wr_process s i = Waiting c \<Longrightarrow> flock_answer s = Would_block \<Longrightarrow> writer_step s (set_process i Idle s)"
| commit: "wr_process s i = Running c pos \<Longrightarrow> transaction c pos (wr_db s) = Some (pos', d')
    \<Longrightarrow> writer_step s (set_process i (Running c pos') (s\<lparr> wr_db := d' \<rparr>))"
| ended: "wr_process s i = Running c pos \<Longrightarrow> end_run e (pos, wr_db s) = Some d'
    \<Longrightarrow> writer_step s (release_lock i (set_process i Idle (s\<lparr> wr_db := d' \<rparr>)))"

definition no_writers :: "db \<Rightarrow> writers" where
  "no_writers d = \<lparr> wr_db = d, wr_lock = None, wr_process = (\<lambda>_. Idle), wr_log = [] \<rparr>"

inductive_cases writer_stepE: "writer_step s s'"

end
