(* ===== verification/Writers_Proofs.thy ===== *)
theory Writers_Proofs
  imports Writer_System
begin

text \<open>
  The writing commands: a program run alone to its end does what the functions of the store do, a run cut anywhere
  leaves a well-formed database in which every snapshot it does not prune reads as before, and runs of many
  processes come one after the other.
\<close>

subsection \<open>What a snapshot shows\<close>

text \<open>A snapshot without the placeholders of virtual mounts, which opening the database removes.\<close>

definition visible :: "db \<Rightarrow> int \<Rightarrow> int \<rightharpoonup> agg_state" where
  "visible d i p = (case map_of (snapshot_state d i) p of Some st \<Rightarrow> if is_virtual_skip st then None else Some st | None \<Rightarrow> None)"

definition keeps :: "int set \<Rightarrow> db \<Rightarrow> db \<Rightarrow> bool" where
  "keeps dropped d d' \<longleftrightarrow> db_wf d' \<and> (\<forall>i\<in>snapshot_ids d. i \<notin> dropped \<longrightarrow> i \<in> snapshot_ids d' \<and> visible d' i = visible d i)"

lemma keeps_refl: "db_wf d \<Longrightarrow> keeps D d d"
  by (simp add: keeps_def)

lemma keeps_trans: "keeps {} d d1 \<Longrightarrow> keeps D d1 d2 \<Longrightarrow> keeps D d d2"
  by (simp add: keeps_def)

lemma keeps_more: "keeps {} d d' \<Longrightarrow> keeps D d d'"
  by (simp add: keeps_def)

lemma keepsI:
  assumes "db_wf d'" and "\<And>i. i \<in> snapshot_ids d \<Longrightarrow> i \<notin> D \<Longrightarrow> i \<in> snapshot_ids d' \<and> map_of (snapshot_state d' i) = map_of (snapshot_state d i)"
  shows "keeps D d d'"
  using assms by (simp add: keeps_def visible_def fun_eq_iff)

lemma recorded_keeps: "recorded d r rows rec d' \<Longrightarrow> keeps {} d d'"
  using recorded_wf recorded_ids recorded_old by (intro keepsI) (blast, simp)

lemma created_keeps:
  assumes "db_wf d" and "create_snapshot t r n d = (snap, d1)"
  shows "keeps {} d d1"
proof (rule keepsI)
  note cr = create_snapshot_facts[OF assms(2)]
  obtain s where s: "db_snapshots d1 = db_snapshots d @ [s]" "sn_id s = sr_id snap" using cr(4) by blast
  have d1: "db_intervals d1 = db_intervals d" "db_diagnostics d1 = db_diagnostics d" "db_paths d1 = db_paths d"
    by (subst cr(1), simp)+
  have new: "sn_id s \<notin> snapshot_ids d" using snapshot_ids_below[of "sn_id s" d] cr(2) s(2) by auto
  then show "db_wf d1"
    using assms(1) by (auto simp: db_wf_def store_inv_def ids_known_def d1 s(1) snapshot_ids_def)
  show "i \<in> snapshot_ids d1 \<and> map_of (snapshot_state d1 i) = map_of (snapshot_state d i)" if "i \<in> snapshot_ids d" for i
  proof -
    have "sn_id s \<noteq> i" using that new by blast
    then have "snapshot_state d1 i = snapshot_state d i" by (simp add: snapshot_state_def d1 s(1) cong: if_cong)
    then show ?thesis using that by (simp add: snapshot_ids_def s(1))
  qed
qed

lemma map_of_filter_value:
  "distinct (map fst xs) \<Longrightarrow>
    map_of (filter (\<lambda>(p, st). K st) xs) q = (case map_of xs q of Some st \<Rightarrow> if K st then Some st else None | None \<Rightarrow> None)"
proof (induction xs)
  case (Cons x xs)
  obtain p st where "x = (p, st)" by fastforce
  then show ?case using Cons by (auto split: option.splits dest: map_of_SomeD simp: image_iff)
qed simp

lemma snapshot_state_shown:
  "snapshot_state (delete_default_virtual_mount_skip_rows d) i = filter (\<lambda>(p, st). \<not> is_virtual_skip st) (snapshot_state d i)"
    (is "snapshot_state ?s i = _")
proof -
  let ?P = "\<lambda>(p :: int, st). \<not> is_virtual_skip st"
  have ivs: "map (\<lambda>iv. (iv_path_id iv, iv_state iv)) (filter Q (filter (\<lambda>iv. \<not> is_virtual_skip (iv_state iv)) xs))
      = filter ?P (map (\<lambda>iv. (iv_path_id iv, iv_state iv)) (filter Q xs))" for Q xs
    by (induction xs) auto
  have dgs: "map (\<lambda>v. (dg_path_id v, dg_state v)) (filter Q (filter (\<lambda>v. \<not> is_virtual_skip (dg_state v)) xs))
      = filter ?P (map (\<lambda>v. (dg_path_id v, dg_state v)) (filter Q xs))" for Q xs
    by (induction xs) auto
  have tables: "db_snapshots ?s = db_snapshots d" "db_intervals ?s = filter (\<lambda>iv. \<not> is_virtual_skip (iv_state iv)) (db_intervals d)"
    "db_diagnostics ?s = filter (\<lambda>v. \<not> is_virtual_skip (dg_state v)) (db_diagnostics d)"
    by (simp_all add: delete_default_virtual_mount_skip_rows_def delete_unreferenced_paths_def)
  show ?thesis
    unfolding snapshot_state_def tables ivs dgs filter_concat map_map comp_def by (simp only: if_distrib[of "filter ?P"] filter.simps)
qed

lemma opened_keeps:
  assumes "db_wf d" and "initialize_database d = Inr d'"
  shows "keeps {} d d'" and "db_snapshots d' = db_snapshots d"
proof -
  let ?s = "delete_default_virtual_mount_skip_rows d"
  have sn: "db_snapshots ?s = db_snapshots d"
    by (simp add: delete_default_virtual_mount_skip_rows_def delete_unreferenced_paths_def)
  have "visible ?s i = visible d i" for i
  proof
    fix p
    have "distinct (map fst (snapshot_state d i))" using assms(1) by (simp add: db_wf_def snapshot_state_distinct)
    then show "visible ?s i p = visible d i p"
      by (auto simp: visible_def snapshot_state_shown map_of_filter_value split: option.splits)
  qed
  then have s: "keeps {} d ?s" using virtual_skip_facts(1)[OF assms(1)] sn by (simp add: keeps_def snapshot_ids_def)
  have ver: "keeps {} d (x\<lparr> db_user_version := v \<rparr>) = keeps {} d x" for x v
  proof -
    have "db_wf (x\<lparr> db_user_version := v \<rparr>) = db_wf x" "snapshot_ids (x\<lparr> db_user_version := v \<rparr>) = snapshot_ids x"
      "snapshot_state (x\<lparr> db_user_version := v \<rparr>) = snapshot_state x"
      by (simp_all add: db_wf_def store_inv_def ids_known_def snapshot_ids_def snapshot_state_def fun_eq_iff cong: if_cong)
    then show ?thesis by (simp add: keeps_def visible_def fun_eq_iff)
  qed
  show "keeps {} d d'" "db_snapshots d' = db_snapshots d"
    using assms(2) s keeps_refl[OF assms(1)] sn
    by (auto simp: initialize_database_def ver split: if_splits)
qed

subsection \<open>One transaction\<close>

text \<open>What a command may drop: the snapshots its policy does not retain.\<close>

fun command_dropped :: "writer_command \<Rightarrow> db \<Rightarrow> int set" where
  "command_dropped (Prune_command lo now h dd inc) d =
     {sn_id s | s. s \<in> set (db_snapshots d) \<and> (\<forall>p. make_policy h dd inc = Inr p \<longrightarrow> \<not> retained_snapshot lo now p d s)}"
| "command_dropped _ d = {}"

definition retained_list :: "(int \<Rightarrow> int) \<Rightarrow> instant \<Rightarrow> retention_policy \<Rightarrow> db \<Rightarrow> int list" where
  "retained_list lo now p d = sorted_list_of_set (sn_id ` {row \<in> set (db_snapshots d). retained_snapshot lo now p d row})"

text \<open>What is known of the database at a position of a command that began with \<open>d0\<close>.\<close>

definition position_ok :: "writer_command \<Rightarrow> db \<Rightarrow> writer_position \<Rightarrow> db \<Rightarrow> bool" where
  "position_ok c d0 pos d \<longleftrightarrow>
     (case pos of
        Opening \<Rightarrow> d = d0
      | Storing sid r rs \<Rightarrow>
          (\<exists>env cfg nt b snap. c = Collect_command env cfg nt \<and> keeps {} d0 b \<and> sid = sr_id snap
             \<and> create_snapshot (cl_started_at (env r)) (cr_path r) nt b = (snap, d))
      | Selecting \<Rightarrow> keeps {} d0 d \<and> db_snapshots d = db_snapshots d0
      | Deleting bs \<Rightarrow>
          (\<exists>lo now h dd inc p b g. c = Prune_command lo now h dd inc \<and> make_policy h dd inc = Inr p \<and> keeps {} d0 b
             \<and> db_snapshots b = db_snapshots d0 \<and> pruned_state (retained_list lo now p b) b g d
             \<and> (g \<union> set (concat bs)) \<inter> set (retained_list lo now p b) = {})
      | _ \<Rightarrow> keeps (command_dropped c d0) d0 d)"

lemma retained_snapshot_cong: "db_snapshots b = db_snapshots d \<Longrightarrow> retained_snapshot lo now p b = retained_snapshot lo now p d"
  by (simp add: retained_snapshot_def snapshots_by_id_def fun_eq_iff)

lemma pruned_keeps:
  assumes "keeps {} d0 b" and "db_snapshots b = db_snapshots d0" and pol: "make_policy h dd inc = Inr p"
    and ps: "pruned_state (retained_list lo now p b) b g d" and g: "g \<inter> set (retained_list lo now p b) = {}"
  shows "keeps (command_dropped (Prune_command lo now h dd inc) d0) d0 d"
proof (rule keeps_trans[OF assms(1) keepsI])
  have wf: "db_wf b" using assms(1) by (simp add: keeps_def)
  show "db_wf d" by (rule pruned_wf[OF wf ps g])
  fix i
  assume i: "i \<in> snapshot_ids b" "i \<notin> command_dropped (Prune_command lo now h dd inc) d0"
  then obtain s where s: "s \<in> set (db_snapshots b)" "sn_id s = i" by (auto simp: snapshot_ids_def)
  then have "retained_snapshot lo now p d0 s" using i(2) pol assms(2) by auto
  then have "retained_snapshot lo now p b s" by (simp add: retained_snapshot_cong[OF assms(2)])
  moreover have "distinct (map sn_id (db_snapshots b))" using wf by (simp add: db_wf_def store_inv_def)
  ultimately have "sn_id s \<in> set (retained_list lo now p b)" using retained_ids(1) s(1) unfolding retained_list_def by blast
  from pruned_reads[OF wf ps g s(1) this] show "i \<in> snapshot_ids d \<and> map_of (snapshot_state d i) = map_of (snapshot_state b i)"
    using s(2) by (auto simp: snapshot_ids_def)
qed

lemma position_keeps:
  assumes "db_wf d0" and "position_ok c d0 pos d"
  shows "keeps (command_dropped c d0) d0 d"
proof (cases pos)
  case (Storing sid r rs)
  then obtain env cfg nt b snap where c: "c = Collect_command env cfg nt" "keeps {} d0 b"
    "create_snapshot (cl_started_at (env r)) (cr_path r) nt b = (snap, d)" using assms(2) by (auto simp: position_ok_def)
  have "db_wf b" using c(2) by (simp add: keeps_def)
  from created_keeps[OF this c(3)] have "keeps {} b d" .
  then show ?thesis using keeps_trans[OF c(2)] c(1) by simp
next
  case (Deleting bs)
  then show ?thesis using assms(2) pruned_keeps by (fastforce simp: position_ok_def)
qed (use assms keeps_refl keeps_more in \<open>auto simp: position_ok_def\<close>)

lemma storing_transaction:
  assumes "create_snapshot (cl_started_at (env r)) (cr_path r) nt b = (snap, d)"
  shows "collect_transaction env cfg nt (Storing (sr_id snap) r rs) d =
    (case collect_single_root (env r) cfg nt r b of Some (Inr (_, _, d')) \<Rightarrow> Some (collecting rs, d') | _ \<Rightarrow> None)"
  using assms by (auto simp: collect_transaction_def collect_single_root_def split: option.splits sum.splits prod.splits)

lemma collecting_ok: "keeps {} d0 d \<Longrightarrow> position_ok (Collect_command env cfg nt) d0 (collecting rs) d"
  by (simp add: position_ok_def collecting_def)

lemma collect_transaction_ok:
  assumes "db_wf d0" and "position_ok (Collect_command env cfg nt) d0 pos d" and "pos \<noteq> Opening"
    and step: "collect_transaction env cfg nt pos d = Some (pos', d')"
  shows "position_ok (Collect_command env cfg nt) d0 pos' d'"
proof -
  consider r rs where "pos = Roots_left (r # rs)" | sid r rs where "pos = Storing sid r rs"
    using step by (auto simp: collect_transaction_def split: writer_position.splits list.splits)
  then show ?thesis
  proof cases
    case 1
    then obtain snap where "create_snapshot (cl_started_at (env r)) (cr_path r) nt d = (snap, d')" "pos' = Storing (sr_id snap) r rs"
      using step by (auto simp: collect_transaction_def split: prod.splits)
    then show ?thesis using assms(2) 1 by (auto simp: position_ok_def)
  next
    case 2
    then obtain b snap where b: "keeps {} d0 b" "sid = sr_id snap"
      "create_snapshot (cl_started_at (env r)) (cr_path r) nt b = (snap, d)" using assms(2) by (auto simp: position_ok_def)
    from step obtain out where out: "collect_single_root (env r) cfg nt r b = Some out"
      "(case out of Inr (_, _, d') \<Rightarrow> Some (collecting rs, d') | _ \<Rightarrow> None) = Some (pos', d')"
      unfolding 2 b(2) storing_transaction[where env = env and r = r, OF b(3)] by (auto split: option.splits)
    have "db_wf b" using b(1) by (simp add: keeps_def)
    from collect_single_root_recorded[OF this out(1)] obtain rec n d'' rows where
      "out = Inr (rec, n, d'')" "recorded b (cr_path r) rows rec d''" by blast
    then have "pos' = collecting rs" "keeps {} b d'" using out(2) recorded_keeps by auto
    then show ?thesis using collecting_ok keeps_trans[OF b(1)] by blast
  qed
qed

lemma prune_transaction_ok:
  assumes "db_wf d0" and "position_ok (Prune_command lo now h dd inc) d0 pos d" and pol: "make_policy h dd inc = Inr p"
    and step: "prune_transaction lo now p pos d = Some (pos', d')"
  shows "position_ok (Prune_command lo now h dd inc) d0 pos' d'"
proof -
  consider "pos = Selecting" | b bs where "pos = Deleting (b # bs)" | "pos = Deleting []"
    using step by (auto simp: prune_transaction_def split: writer_position.splits list.splits)
  then show ?thesis
  proof cases
    case 1
    then have d: "keeps {} d0 d" "db_snapshots d = db_snapshots d0" "db_wf d" using assms(2) by (auto simp: position_ok_def keeps_def)
    have inv: "store_inv d" using d(3) by (simp add: db_wf_def)
    note norm = normalize_eq[OF inv]
    from step 1 obtain ret where sel: "select_retained_snapshot_ids lo now p d = Inr ret"
      by (auto simp: prune_transaction_def split: sum.splits)
    let ?del = "filter (\<lambda>i. i \<notin> set ret) (map sn_id (snapshots_by_id d))"
    have new: "pos' = Deleting (batches PRUNE_SNAPSHOT_DELETE_BATCH_SIZE ?del)"
      "d' = d\<lparr> db_intervals := normalized_intervals ret d \<rparr>"
      using step 1 by (simp_all add: prune_transaction_def sel norm)
    have "\<exists>out. prune_snapshots lo now p False d = Inr out" by (simp add: prune_snapshots_def sel norm Let_def split: prod.splits)
    then have "\<forall>row\<in>set (db_snapshots d). row_readable lo row" using prune_readable[OF pol] by blast
    from select_retained_eq[OF pol this] sel have ret: "ret = retained_list lo now p d" by (simp add: retained_list_def)
    have "pruned_state ret d {} d'" by (auto simp: pruned_state_def new intro!: exI[of _ "\<lambda>_. True"])
    moreover have "set (concat (batches PRUNE_SNAPSHOT_DELETE_BATCH_SIZE ?del)) \<inter> set ret = {}"
      by (subst concat_batches) (auto simp: PRUNE_SNAPSHOT_DELETE_BATCH_SIZE_def)
    ultimately show ?thesis using d pol by (auto simp: position_ok_def new(1) ret intro!: exI[of _ d] exI[of _ "{}"])
  next
    case (2 b bs)
    then obtain p' d1 g where d1: "make_policy h dd inc = Inr p'" "keeps {} d0 d1" "db_snapshots d1 = db_snapshots d0"
      "pruned_state (retained_list lo now p' d1) d1 g d"
      "(g \<union> set (concat (b # bs))) \<inter> set (retained_list lo now p' d1) = {}" using assms(2) by (auto simp: position_ok_def)
    have new: "pos' = Deleting bs" "d' = delete_snapshot_batch b d" using step 2 by (simp_all add: prune_transaction_def)
    have "(g \<union> set b \<union> set (concat bs)) \<inter> set (retained_list lo now p' d1) = {}" using d1(5) by auto
    then show ?thesis using d1(1-3) delete_batch_pruned[OF d1(4), of b]
      by (auto simp: position_ok_def new intro!: exI[of _ d1] exI[of _ "g \<union> set b"])
  next
    case 3
    then obtain p' d1 g where d1: "make_policy h dd inc = Inr p'" "keeps {} d0 d1" "db_snapshots d1 = db_snapshots d0"
      "pruned_state (retained_list lo now p' d1) d1 g d" "g \<inter> set (retained_list lo now p' d1) = {}"
      using assms(2) by (auto simp: position_ok_def)
    have new: "pos' = Finished" "d' = snd (delete_orphan_paths d)" using step 3 by (simp_all add: prune_transaction_def)
    have "pruned_state (retained_list lo now p' d1) d1 g d'" unfolding new by (rule orphan_pruned[OF prod.collapse[symmetric] d1(4)])
    from pruned_keeps[OF d1(2,3,1) this d1(5)] show ?thesis by (simp add: position_ok_def new(1))
  qed
qed

lemma transaction_ok:
  assumes "db_wf d0" and "position_ok c d0 pos d" and "transaction c pos d = Some (pos', d')"
  shows "position_ok c d0 pos' d'"
proof (cases "pos = Opening")
  case True
  then have i: "initialize_database d0 = Inr d'" "pos' = first_position c"
    using assms(2,3) by (auto simp: transaction_def position_ok_def split: sum.splits)
  note k = opened_keeps[OF assms(1) i(1)] i(2)
  show ?thesis
  proof (cases c)
    case (Collect_command env cfg nt)
    then show ?thesis using collecting_ok[OF k(1)] k(3) by simp
  qed (simp_all add: position_ok_def k)
next
  case False
  note step = assms(3)[unfolded transaction_def if_not_P[OF False]]
  show ?thesis
  proof (cases c)
    case (Collect_command env cfg nt)
    then show ?thesis using collect_transaction_ok[OF assms(1) _ False] assms(2) step by simp
  next
    case (Prune_command lo now h dd inc)
    then obtain p where "make_policy h dd inc = Inr p" "prune_transaction lo now p pos d = Some (pos', d')"
      using step by (auto split: sum.splits)
    then show ?thesis using prune_transaction_ok[OF assms(1)] assms(2) Prune_command by blast
  qed (use step in simp)
qed

lemma transactions_ok:
  "db_wf d0 \<Longrightarrow> transactions c n (Opening, d0) = Some (pos, d) \<Longrightarrow> position_ok c d0 pos d"
proof (induction n arbitrary: pos d)
  case (Suc n)
  then obtain pos1 d1 where "transactions c n (Opening, d0) = Some (pos1, d1)" "transaction c pos1 d1 = Some (pos, d)"
    by (auto simp: bind_eq_Some_conv)
  then show ?case using Suc.IH[OF Suc.prems(1)] transaction_ok[OF Suc.prems(1)] by blast
qed (simp add: position_ok_def)

subsection \<open>Runs that end anywhere\<close>

fun run_dropped :: "writer_run \<Rightarrow> db \<Rightarrow> int set" where
  "run_dropped (c, n, e) d = command_dropped c d"

lemma end_run_keeps:
  assumes "db_wf d0" and ok: "position_ok c d0 pos d" and e: "end_run e (pos, d) = Some d'"
  shows "keeps (command_dropped c d0) d0 d'"
proof (cases "e = Cut \<or> (\<forall>sid r rs. pos \<noteq> Storing sid r rs)")
  case True
  then have "d' = d" using e by (auto simp: end_run_def finalize_interrupted_def split: writer_end.splits writer_position.splits)
  then show ?thesis using position_keeps[OF assms(1) ok] by simp
next
  case False
  then obtain now message sid r rs where pos: "e = Interrupted now message" "pos = Storing sid r rs" by (metis writer_end.exhaust)
  then obtain env cfg nt b snap where b: "c = Collect_command env cfg nt" "keeps {} d0 b" "sid = sr_id snap"
    "create_snapshot (cl_started_at (env r)) (cr_path r) nt b = (snap, d)" using ok by (auto simp: position_ok_def)
  have wf: "db_wf b" using b(2) by (simp add: keeps_def)
  note fill = fill_snapshot[OF wf b(4), of "[]", simplified]
  have "insert_directory_rows [] d = Inr d" by (simp add: insert_directory_rows_def)
  then obtain vs s where "filled b (sr_id snap) (cr_path r) [] vs s d" using fill(2) by auto
  from finalize_recorded[OF wf fill(1) this] obtain rec d2 where
    "finalize_snapshot now (sr_id snap) FAILED None (Some message) d = Inr (rec, d2)" "recorded b (cr_path r) [] rec d2" by blast
  then have "d' = d2" "keeps {} b d'" using e recorded_keeps by (auto simp: end_run_def pos finalize_interrupted_def b(3))
  then show ?thesis using keeps_trans[OF b(2)] b(1) by simp
qed

lemma run_alone_keeps:
  assumes "db_wf d" and "run_alone run d = Some d'"
  shows "keeps (run_dropped run d) d d'"
proof -
  obtain c n e where run: "run = (c, n, e)" by (metis prod.exhaust)
  then obtain pos d1 where "transactions c n (Opening, d) = Some (pos, d1)" "end_run e (pos, d1) = Some d'"
    using assms(2) by (auto simp: bind_eq_Some_conv)
  then show ?thesis using end_run_keeps[OF assms(1) transactions_ok[OF assms(1)]] run by simp
qed

interpretation runs: versioned_store db_wf snapshot_ids visible run_alone run_dropped
  using run_alone_keeps by unfold_locales (auto simp: keeps_def)

subsection \<open>Many processes\<close>

definition is_running :: "writer_process \<Rightarrow> bool" where
  "is_running p = (case p of Running _ _ \<Rightarrow> True | _ \<Rightarrow> False)"

text \<open>
  The process that runs holds the lock.  While it runs, the database is that of earlier runs one after the other and
  some transactions of this one.
\<close>

definition serial :: "db \<Rightarrow> writers \<Rightarrow> bool" where
  "serial d s \<longleftrightarrow> (\<forall>i. is_running (wr_process s i) \<longrightarrow> wr_lock s = Some i)
     \<and> (case wr_lock s of
          None \<Rightarrow> \<exists>rs. run_all run_alone rs d = Some (wr_db s) \<and> map fst rs = wr_log s
        | Some i \<Rightarrow> \<exists>rs d1 c n pos. wr_process s i = Running c pos \<and> run_all run_alone rs d = Some d1
            \<and> map fst rs @ [c] = wr_log s \<and> transactions c n (Opening, d1) = Some (pos, wr_db s))"

lemma run_all_append: "run_all run (xs @ [x]) d = Option.bind (run_all run xs d) (run x)"
  by (induction xs arbitrary: d) (auto split: option.splits)

lemma serial_running:
  assumes "serial d s" and "wr_process s i = Running c pos"
  obtains rs d1 n where "wr_lock s = Some i" "run_all run_alone rs d = Some d1" "map fst rs @ [c] = wr_log s"
    "transactions c n (Opening, d1) = Some (pos, wr_db s)"
proof -
  have "is_running (wr_process s i)" using assms(2) by (simp add: is_running_def)
  then have lock: "wr_lock s = Some i" using assms(1) by (simp add: serial_def)
  then show thesis using assms that by (auto simp: serial_def)
qed

lemma serial_alone: "serial d s \<Longrightarrow> is_running (wr_process s i) \<Longrightarrow> is_running (wr_process s j) \<Longrightarrow> i = j"
  by (metis option.inject serial_def)

lemma serial_step:
  assumes "serial d s" and "writer_step s s'"
  shows "serial d s'"
  using assms(2)
proof cases
  case (start i c)
  then have "wr_lock s \<noteq> Some i" using assms(1) by (auto simp: serial_def split: option.splits)
  then show ?thesis using assms(1) unfolding start(1)
    by (auto simp: serial_def set_process_def is_running_def split: option.splits)
next
  case (granted i c)
  then have "wr_lock s = None" by (auto simp: flock_answer_def split: if_splits)
  then obtain rs where "run_all run_alone rs d = Some (wr_db s)" "map fst rs = wr_log s" "\<forall>j. \<not> is_running (wr_process s j)"
    using assms(1) by (auto simp: serial_def)
  moreover have "transactions c 0 (Opening, wr_db s) = Some (Opening, wr_db s)" by simp
  ultimately show ?thesis
    unfolding granted(1) serial_def by (auto simp: set_process_def simp del: transactions.simps)
next
  case (refused i c)
  then have "wr_lock s \<noteq> Some i" using assms(1) by (auto simp: serial_def split: option.splits)
  then show ?thesis using assms(1) unfolding refused(1)
    by (auto simp: serial_def set_process_def is_running_def split: option.splits)
next
  case (commit i c pos pos' d')
  obtain rs d1 n where run: "wr_lock s = Some i" "run_all run_alone rs d = Some d1" "map fst rs @ [c] = wr_log s"
    "transactions c n (Opening, d1) = Some (pos, wr_db s)" by (rule serial_running[OF assms(1) commit(2)])
  have "transactions c (Suc n) (Opening, d1) = Some (pos', d')" using run(4) commit(3) by simp
  moreover have "\<forall>j. is_running (wr_process s j) \<longrightarrow> j = i" using assms(1) run(1) unfolding serial_def by fastforce
  ultimately show ?thesis using run(1-3) unfolding commit(1) serial_def
    by (auto simp: set_process_def simp del: transactions.simps)
next
  case (ended i c pos e d')
  obtain rs d1 n where run: "wr_lock s = Some i" "run_all run_alone rs d = Some d1" "map fst rs @ [c] = wr_log s"
    "transactions c n (Opening, d1) = Some (pos, wr_db s)" by (rule serial_running[OF assms(1) ended(2)])
  have "run_all run_alone (rs @ [(c, n, e)]) d = Some d'" using run(2,4) ended(3) by (simp add: run_all_append)
  moreover have "\<forall>j. is_running (wr_process s j) \<longrightarrow> j = i" using assms(1) run(1) unfolding serial_def by fastforce
  ultimately show ?thesis using run(1,3) unfolding ended(1) serial_def
    by (auto simp: set_process_def release_lock_def is_running_def intro!: exI[of _ "rs @ [(c, n, e)]"])
qed

lemma serial_reachable: "writer_step\<^sup>*\<^sup>* (no_writers d) s \<Longrightarrow> serial d s"
proof (induction rule: rtranclp_induct)
  case base
  have "run_all run_alone [] d = Some d" by simp
  then show ?case by (auto simp: serial_def no_writers_def is_running_def)
qed (rule serial_step)

lemma serial_runs:
  assumes "serial d s"
  obtains rs where "run_all run_alone rs d = Some (wr_db s)" "map fst rs = wr_log s"
proof (cases "wr_lock s")
  case None
  then show thesis using assms that by (auto simp: serial_def)
next
  case (Some i)
  then obtain rs d1 c n pos where "run_all run_alone rs d = Some d1" "map fst rs @ [c] = wr_log s"
    "transactions c n (Opening, d1) = Some (pos, wr_db s)" using assms by (auto simp: serial_def)
  then show thesis using that[of "rs @ [(c, n, Cut)]"] by (simp add: run_all_append end_run_def)
qed

text \<open>
  C4: Writers come one after the other.  However many processes start, wait, commit, are killed or interrupted, at
  most one of them is inside its command at a time, and the database they leave is the one of the same commands run
  alone in the order in which they got the lock, each cut or interrupted after some of its transactions.  It is
  well-formed, and every snapshot that no pruning dropped is there and shows what it showed at the start.
\<close>

theorem writers_serialize:
  assumes "db_wf d" and "writer_step\<^sup>*\<^sup>* (no_writers d) s"
  shows "(\<forall>i j. is_running (wr_process s i) \<and> is_running (wr_process s j) \<longrightarrow> i = j) \<and> db_wf (wr_db s)
    \<and> (\<exists>rs. run_all run_alone rs d = Some (wr_db s) \<and> map fst rs = wr_log s
         \<and> (\<forall>i\<in>snapshot_ids d. i \<notin> dropped_by run_alone run_dropped rs d \<longrightarrow>
              i \<in> snapshot_ids (wr_db s) \<and> visible (wr_db s) i = visible d i))"
proof -
  have ser: "serial d s" by (rule serial_reachable[OF assms(2)])
  obtain rs where rs: "run_all run_alone rs d = Some (wr_db s)" "map fst rs = wr_log s" by (rule serial_runs[OF ser])
  have "\<forall>i j. is_running (wr_process s i) \<and> is_running (wr_process s j) \<longrightarrow> i = j" using serial_alone[OF ser] by blast
  then show ?thesis using rs runs.run_all_wf[OF assms(1) rs(1)] runs.run_all_reads[OF assms(1) rs(1)] by blast
qed

subsection \<open>Programs and handlers\<close>

definition completes :: "writer_command \<Rightarrow> writer_position \<Rightarrow> db \<Rightarrow> db \<Rightarrow> bool" where
  "completes c pos d d' \<longleftrightarrow> (\<exists>n. transactions c n (pos, d) = Some (Finished, d'))"

lemma transactions_first: "transactions c (Suc n) (pos, d) = Option.bind (transaction c pos d) (transactions c n)"
proof (induction n)
  case 0
  show ?case by (cases "transaction c pos d") auto
next
  case (Suc n)
  have "transactions c (Suc (Suc n)) (pos, d)
      = Option.bind (Option.bind (transaction c pos d) (transactions c n)) (\<lambda>(pos, d). transaction c pos d)"
    unfolding Suc[symmetric] by simp
  then show ?case by (cases "transaction c pos d") auto
qed

lemma completes_step:
  "completes c pos d d' \<longleftrightarrow> (pos = Finished \<and> d' = d) \<or> (\<exists>pos1 d1. transaction c pos d = Some (pos1, d1) \<and> completes c pos1 d1 d')"
proof
  assume "completes c pos d d'"
  then obtain n where n: "transactions c n (pos, d) = Some (Finished, d')" by (auto simp: completes_def)
  show "(pos = Finished \<and> d' = d) \<or> (\<exists>pos1 d1. transaction c pos d = Some (pos1, d1) \<and> completes c pos1 d1 d')"
  proof (cases n)
    case (Suc m)
    then show ?thesis using n unfolding Suc transactions_first completes_def by (auto simp: bind_eq_Some_conv)
  qed (use n in simp)
next
  assume "(pos = Finished \<and> d' = d) \<or> (\<exists>pos1 d1. transaction c pos d = Some (pos1, d1) \<and> completes c pos1 d1 d')"
  then show "completes c pos d d'"
  proof
    assume "pos = Finished \<and> d' = d"
    then have "transactions c 0 (pos, d) = Some (Finished, d')" by simp
    then show ?thesis unfolding completes_def by blast
  next
    assume "\<exists>pos1 d1. transaction c pos d = Some (pos1, d1) \<and> completes c pos1 d1 d'"
    then obtain pos1 d1 n where "transaction c pos d = Some (pos1, d1)" "transactions c n (pos1, d1) = Some (Finished, d')"
      by (auto simp: completes_def)
    then have "transactions c (Suc n) (pos, d) = Some (Finished, d')" unfolding transactions_first by simp
    then show ?thesis unfolding completes_def by blast
  qed
qed

lemma finished_stops: "transaction c Finished d = None"
  by (simp add: transaction_def collect_transaction_def prune_transaction_def split: writer_command.split sum.split)

lemma completes_finished [simp]: "completes c Finished d d' \<longleftrightarrow> d' = d"
  by (subst completes_step) (simp add: finished_stops)

lemma completes_collecting:
  "completes (Collect_command env cfg nt) (collecting rs) d d' \<longleftrightarrow> (\<exists>recs code. collect_roots env cfg nt rs d = Some (Inr (recs, code, d')))"
proof (induction rs arbitrary: d)
  case Nil
  then show ?case by (auto simp: collecting_def)
next
  case (Cons r rs)
  obtain snap d1 where cr: "create_snapshot (cl_started_at (env r)) (cr_path r) nt d = (snap, d1)" by fastforce
  have "completes (Collect_command env cfg nt) (collecting (r # rs)) d d'
      \<longleftrightarrow> completes (Collect_command env cfg nt) (Storing (sr_id snap) r rs) d1 d'"
    by (subst completes_step) (simp add: collecting_def transaction_def collect_transaction_def cr)
  also have "\<dots> \<longleftrightarrow> (\<exists>rec n d2. collect_single_root (env r) cfg nt r d = Some (Inr (rec, n, d2))
      \<and> completes (Collect_command env cfg nt) (collecting rs) d2 d')"
    by (subst completes_step)
      (auto simp: transaction_def storing_transaction[where env = env and r = r, OF cr] split: option.splits sum.splits)
  also have "\<dots> \<longleftrightarrow> (\<exists>recs code. collect_roots env cfg nt (r # rs) d = Some (Inr (recs, code, d')))"
    by (auto simp: Cons.IH split: option.splits sum.splits)
  finally show ?case .
qed

lemma completes_deleting:
  assumes "make_policy h dd inc = Inr p"
  shows "completes (Prune_command lo now h dd inc) (Deleting bs) d d' \<longleftrightarrow> d' = snd (delete_orphan_paths (last (delete_batches bs d)))"
proof (induction bs arbitrary: d)
  case Nil
  then show ?case by (subst completes_step) (simp add: transaction_def prune_transaction_def assms)
next
  case (Cons b bs)
  have "delete_batches bs x \<noteq> []" for x by (cases bs) simp_all
  then show ?case by (subst completes_step) (simp add: transaction_def prune_transaction_def assms Cons.IH)
qed

lemma completes_pruning:
  assumes "make_policy h dd inc = Inr p"
  shows "completes (Prune_command lo now h dd inc) Selecting d d'
    \<longleftrightarrow> (\<exists>res ds. prune_snapshots lo now p True d = Inr (res, ds) \<and> d' = last ds)"
  by (subst completes_step)
    (auto simp: transaction_def prune_transaction_def assms completes_deleting[OF assms] prune_snapshots_def
      prune_with_committed_batches_def Let_def split: sum.splits prod.splits)

lemma completes_opening:
  "completes c Opening d d' \<longleftrightarrow> (\<exists>d1. initialize_database d = Inr d1 \<and> completes c (first_position c) d1 d')"
  by (subst completes_step) (auto simp: transaction_def split: sum.splits)

lemma collect_loop_roots:
  "collect_loop env cfg nt rs d = Some (recs, None, code, d') \<longleftrightarrow> collect_roots env cfg nt rs d = Some (Inr (recs, code, d'))"
proof (induction rs arbitrary: d recs code)
  case (Cons r rs)
  show ?case by (auto simp: Cons.IH split: option.splits sum.splits prod.splits)
qed auto

lemma collect_loop_no_failure:
  "db_wf d \<Longrightarrow> collect_loop env cfg nt rs d = Some (recs, failed, code, d') \<Longrightarrow> failed = None"
proof (induction rs arbitrary: d recs code)
  case (Cons r rs)
  obtain out where out: "collect_single_root (env r) cfg nt r d = Some out" using Cons.prems(2) by (auto split: option.splits)
  from collect_single_root_recorded[OF Cons.prems(1) out] obtain rec n d1 rows where
    one: "out = Inr (rec, n, d1)" "recorded d (cr_path r) rows rec d1" by blast
  have "db_wf d1" using recorded_wf[OF one(2)] by blast
  then show ?case using Cons out one(1) by auto
qed simp

text \<open>
  C39: The handlers and the programs are the same.  With the lock and the file, collect answers exactly if its
  program runs to its end, and leaves the same database; so do prune and vacuum when they exit with 0.
\<close>

theorem handlers_complete_programs:
  assumes "db_wf d" and "\<And>b. lock_for_command env db_path t b = Some (Inr l)" and "we_open_error env = None" and "we_is_file env"
    and "ca_lock_timeout args = t" and "ra_lock_timeout rargs = t"
  shows "((\<exists>code out. run_collect env roots_env (Inr cfg) args db_path d = Some (Exits code out, d'))
      \<longleftrightarrow> (\<exists>n. transactions (Collect_command roots_env cfg (ca_notes args)) n (Opening, d) = Some (Finished, d')))
    \<and> ((\<exists>out. run_prune env sql_text lo now rargs db_path d = Some (Exits 0 out, d'))
      \<longleftrightarrow> (\<exists>n. transactions (Prune_command lo now (ra_hourly_days rargs) (ra_daily_days rargs) (ra_incomplete_hours rargs)) n (Opening, d)
             = Some (Finished, d')))
    \<and> ((\<exists>out. run_vacuum env (Inr answers) as_json t db_path d = Some (Exits 0 out, d'))
      \<longleftrightarrow> (\<exists>n. transactions Vacuum_command n (Opening, d) = Some (Finished, d')))"
proof (intro conjI)
  have locked: "locked_command env b db_path t work d
      = (case initialize_database d of Inl _ \<Rightarrow> Some (Raises ''RuntimeError'', d) | Inr d1 \<Rightarrow> work d1)" for b work
    by (simp add: locked_command_def assms(2,3))
  let ?c = "Collect_command roots_env cfg (ca_notes args)"
  show "(\<exists>code out. run_collect env roots_env (Inr cfg) args db_path d = Some (Exits code out, d'))
      \<longleftrightarrow> (\<exists>n. transactions ?c n (Opening, d) = Some (Finished, d'))"
  proof (cases "initialize_database d")
    case (Inl e)
    then show ?thesis unfolding completes_def[symmetric] completes_opening by (simp add: run_collect_def assms(5) locked)
  next
    case (Inr d1)
    have wf: "db_wf d1" using opened_keeps(1)[OF assms(1) Inr] by (simp add: keeps_def)
    have "(\<exists>code out. collect_operation env roots_env cfg args db_path d1 = Some (Exits code out, d'))
        \<longleftrightarrow> (\<exists>recs code. collect_loop roots_env cfg (ca_notes args) (wc_roots cfg) d1 = Some (recs, None, code, d'))"
      using collect_loop_no_failure[OF wf, where env = roots_env and cfg = cfg]
      by (fastforce simp: collect_operation_def emit_runtime_error_def split: option.splits)
    then show ?thesis
      unfolding completes_def[symmetric] completes_opening
      by (simp add: run_collect_def assms(5) locked Inr completes_collecting collect_loop_roots)
  qed
  show "(\<exists>out. run_prune env sql_text lo now rargs db_path d = Some (Exits 0 out, d'))
      \<longleftrightarrow> (\<exists>n. transactions (Prune_command lo now (ra_hourly_days rargs) (ra_daily_days rargs) (ra_incomplete_hours rargs)) n (Opening, d)
             = Some (Finished, d'))"
  proof (cases "make_policy (ra_hourly_days rargs) (ra_daily_days rargs) (ra_incomplete_hours rargs)")
    case (Inl e)
    then have "\<not> completes (Prune_command lo now (ra_hourly_days rargs) (ra_daily_days rargs) (ra_incomplete_hours rargs)) Selecting d1 d'" for d1
      by (subst completes_step) (simp add: transaction_def)
    then show ?thesis
      unfolding completes_def[symmetric] completes_opening by (simp add: run_prune_def Inl emit_runtime_error_def)
  next
    case (Inr p)
    have "(\<exists>out. prune_operation env sql_text lo now p b db_path d1 = Some (Exits 0 out, d'))
        \<longleftrightarrow> (\<exists>res ds. prune_snapshots lo now p True d1 = Inr (res, ds) \<and> d' = last ds)" for b d1
      by (auto simp: prune_operation_def prune_failure_def database_error_def emit_runtime_error_def
          split: sum.splits prod.splits retention_error.splits)
    then show ?thesis
      unfolding completes_def[symmetric] completes_opening
      by (auto simp: run_prune_def Inr assms(4,6) locked completes_pruning[OF Inr] split: sum.splits)
  qed
  show "(\<exists>out. run_vacuum env (Inr answers) as_json t db_path d = Some (Exits 0 out, d'))
      \<longleftrightarrow> (\<exists>n. transactions Vacuum_command n (Opening, d) = Some (Finished, d'))"
    unfolding completes_def[symmetric] completes_opening
    by (auto simp: run_vacuum_def assms(4) locked vacuum_operation_def Let_def split: sum.splits)
qed

text \<open>A database of another version: the exception is not one that the commands catch.\<close>

lemma unsupported_schema_escapes:
  assumes "initialize_database d = Inl e" and "\<And>b. lock_for_command env db_path t b = Some (Inr l)" and "we_open_error env = None"
    and "we_is_file env" and "ca_lock_timeout args = t"
  shows "run_collect env roots_env (Inr cfg) args db_path d = Some (Raises ''RuntimeError'', d)"
    and "run_vacuum env answers as_json t db_path d = Some (Raises ''RuntimeError'', d)"
  using assms by (simp_all add: run_collect_def run_vacuum_def locked_command_def)

subsection \<open>Examples\<close>

definition free_lock :: lock_world where
  "free_lock = \<lparr> lw_expanduser = id, lw_mkdir = (\<lambda>p. None), lw_open = (\<lambda>p. None), lw_started_at = 0,
     lw_flock = (\<lambda>s. Granted), lw_clock = (\<lambda>s. sum_list s) \<rparr>"

definition sample_writer :: writer_env where
  "sample_writer = \<lparr> we_floats = exact_floats, we_float_text = (\<lambda>_. []), we_resolve = id, we_lock = free_lock, we_is_file = True,
     we_open_error = None \<rparr>"

lemma sample_lock: "\<exists>l. \<forall>b. lock_for_command sample_writer ''/var/w.db'' (Double 0) b = Some (Inr l)"
proof -
  have p: "operation_lock_path_for_db id ''/var/w.db'' = Some ''/var/w.db.lock''" by code_simp
  have "acquire_operation_lock exact_floats free_lock ''/var/w.db.lock'' (Double 0)
      = Some (Inr \<lparr> ol_path = ''/var/w.db.lock'', ol_closed = False, ol_flocked = True \<rparr>)"
    by (subst acquire_operation_lock_def) (subst acquire_loop.simps, simp add: free_lock_def)
  then show ?thesis using p by (simp add: lock_for_command_def sample_writer_def)
qed

definition sample_vacuum :: vacuum_answers where
  "sample_vacuum = \<lparr> va_page_size = 8192, va_page_count_before = 10, va_freelist_before = 4, va_frsize = 4096, va_bsize = 4096,
     va_bavail = 100, va_busy = 0, va_log_pages = 0, va_checkpointed_pages = 0, va_page_count_after = 6, va_freelist_after = 0 \<rparr>"

lemma handlers_complete_programs_witness:
  "\<exists>n. transactions Vacuum_command n (Opening, empty_db) = Some (Finished, empty_db\<lparr> db_user_version := 9 \<rparr>)"
proof -
  obtain l where l: "\<And>b. lock_for_command sample_writer ''/var/w.db'' (Double 0) b = Some (Inr l)" using sample_lock by blast
  have env: "we_open_error sample_writer = None" "we_is_file sample_writer" by (simp_all add: sample_writer_def)
  define args where "args = \<lparr> ca_json = False, ca_notes = None, ca_mountinfo = None, ca_lock_timeout = Double 0 \<rparr>"
  define rargs where "rargs = \<lparr> ra_json = False, ra_hourly_days = 3, ra_daily_days = 90, ra_incomplete_hours = 24, ra_lock_timeout = Double 0 \<rparr>"
  have t: "ca_lock_timeout args = Double 0" "ra_lock_timeout rargs = Double 0" by (simp_all add: args_def rargs_def)
  have "\<exists>out. run_vacuum sample_writer (Inr sample_vacuum) True (Double 0) ''/var/w.db'' empty_db
      = Some (Exits 0 out, empty_db\<lparr> db_user_version := 9 \<rparr>)"
    by (simp add: run_vacuum_def env locked_command_def l initialize_database_def empty_db_def SCHEMA_VERSION_def vacuum_operation_def Let_def)
  then show ?thesis using handlers_complete_programs[OF empty_db_wf l env t] by blast
qed

text \<open>A vacuum that is killed before its first transaction, then a collection that gets the lock.\<close>

lemma writers_serialize_witness:
  "\<exists>s. writer_step\<^sup>*\<^sup>* (no_writers empty_db) s \<and> db_wf (wr_db s) \<and> is_running (wr_process s 2)
     \<and> (\<exists>rs. run_all run_alone rs empty_db = Some (wr_db s) \<and> length rs = 2)"
proof -
  define c where "c = Collect_command sample_collect sample_watch None"
  define w0 where "w0 = no_writers empty_db"
  define w1 where "w1 = set_process 1 (Waiting Vacuum_command) w0"
  define w2 where "w2 = set_process 1 (Running Vacuum_command Opening) (w1\<lparr> wr_lock := Some 1, wr_log := wr_log w1 @ [Vacuum_command] \<rparr>)"
  define w3 where "w3 = set_process 2 (Waiting c) w2"
  define w4 where "w4 = release_lock 1 (set_process 1 Idle (w3\<lparr> wr_db := empty_db \<rparr>))"
  define w5 where "w5 = set_process 2 (Running c Opening) (w4\<lparr> wr_lock := Some 2, wr_log := wr_log w4 @ [c] \<rparr>)"
  note field = no_writers_def set_process_def release_lock_def flock_answer_def end_run_def w0_def
  have s1: "writer_step w0 w1" unfolding w1_def by (rule writer_step.start) (simp add: field)
  have s2: "writer_step w1 w2" unfolding w2_def by (rule writer_step.granted) (simp_all add: field w1_def)
  have s3: "writer_step w2 w3" unfolding w3_def by (rule writer_step.start) (simp add: field w1_def w2_def)
  have s4: "writer_step w3 w4" unfolding w4_def
    by (rule writer_step.ended[where e = Cut]) (simp_all add: field w1_def w2_def w3_def)
  have s5: "writer_step w4 w5" unfolding w5_def by (rule writer_step.granted) (simp_all add: field w1_def w2_def w3_def w4_def)
  have reach: "writer_step\<^sup>*\<^sup>* (no_writers empty_db) w5"
    using s1 s2 s3 s4 s5 unfolding w0_def[symmetric] by (meson rtranclp.rtrancl_refl rtranclp.rtrancl_into_rtrancl)
  have "wr_log w5 = [Vacuum_command, c]" "is_running (wr_process w5 2)"
    by (simp_all add: w5_def w4_def w3_def w2_def w1_def field is_running_def)
  then show ?thesis
    using reach writers_serialize[OF empty_db_wf reach] by (metis length_Cons length_map list.size(3) One_nat_def Suc_1)
qed

end
