(* ===== verification/Trend_Query.thy ===== *)
theory Trend_Query
  imports Diff_Query Trends
begin

text \<open>
  The trend reports of \<open>reporting/queries.py\<close>: the sizes of a path in every selected snapshot, read from the
  tables either for all paths or for chosen ones, collected per path and analysed; the trends of file-system
  usage; and the largest directories of one snapshot.  The number of parameters SQLite accepts in a statement is
  not limited here.
\<close>

subsection \<open>Samples\<close>

record sample_row =
  sa_snapshot_id :: int
  sa_finished_at :: "string option"
  sa_root_path :: string
  sa_status :: string
  sa_path :: bytes
  sa_parent_path :: "bytes option"
  sa_depth :: int
  sa_apparent_bytes :: int
  sa_disk_bytes :: int

definition sample_row_of :: "db \<Rightarrow> snapshot_row \<Rightarrow> bytes \<Rightarrow> agg_state \<Rightarrow> sample_row" where
  "sample_row_of d s path st =
     \<lparr> sa_snapshot_id = sn_id s, sa_finished_at = sn_finished_at s, sa_root_path = sn_root_path s, sa_status = sn_status s,
       sa_path = path, sa_parent_path = path_text_opt d (ag_parent_id st), sa_depth = ag_depth st,
       sa_apparent_bytes = ag_apparent_bytes st, sa_disk_bytes = ag_disk_bytes st \<rparr>"

text \<open>A text column in \<open>ORDER BY\<close>; \<open>NULL\<close> comes first.\<close>

definition sql_text :: "string option \<Rightarrow> bool \<times> string" where
  "sql_text t = (case t of None \<Rightarrow> (False, []) | Some x \<Rightarrow> (True, x))"

definition sample_order :: "sample_row \<Rightarrow> string \<times> bytes \<times> (bool \<times> string) \<times> int" where
  "sample_order r = (sa_root_path r, sa_path r, sql_text (sa_finished_at r), sa_snapshot_id r)"

definition query_all_sample_rows :: "db \<Rightarrow> snapshot_record list \<Rightarrow> sample_row list" where
  "query_all_sample_rows d snapshots =
     sort_key sample_order
       (concat (map (\<lambda>s. concat (map (\<lambda>(pid, st).
            case path_text d pid of None \<Rightarrow> [] | Some path \<Rightarrow> [sample_row_of d s path st]) (snapshot_state d (sn_id s))))
          (filter (\<lambda>s. sn_id s \<in> sr_id ` set snapshots) (db_snapshots d))))"

definition candidate_ids :: "db \<Rightarrow> (string \<times> bytes) list \<Rightarrow> (string \<times> int \<times> bytes) list" where
  "candidate_ids d candidate_paths =
     concat (map (\<lambda>(root_path, path). map (\<lambda>(pid, p). (root_path, pid, p)) (filter (\<lambda>(_, p). p = path) (db_paths d)))
       candidate_paths)"

definition candidate_complete_rows :: "db \<Rightarrow> snapshot_record list \<Rightarrow> (string \<times> int \<times> bytes) list \<Rightarrow> sample_row list" where
  "candidate_complete_rows d snapshots cids =
     concat (map (\<lambda>s. concat (map (\<lambda>(root_path, pid, path). map (\<lambda>iv. sample_row_of d s path (iv_state iv))
         (filter (\<lambda>iv. iv_path_id iv = pid \<and> interval_holds (sn_root_path s) (sn_id s) iv) (db_intervals d)))
       (filter (\<lambda>(root_path, _). root_path = sn_root_path s) cids)))
       (filter (\<lambda>s. sn_status s = status_value COMPLETE \<and> sn_id s \<in> sr_id ` set snapshots) (db_snapshots d)))"

definition candidate_diagnostic_rows :: "db \<Rightarrow> snapshot_record list \<Rightarrow> (string \<times> int \<times> bytes) list \<Rightarrow> sample_row list" where
  "candidate_diagnostic_rows d snapshots cids =
     concat (map (\<lambda>s. concat (map (\<lambda>(root_path, pid, path). map (\<lambda>dg. sample_row_of d s path (dg_state dg))
         (filter (\<lambda>dg. dg_snapshot_id dg = sn_id s \<and> dg_path_id dg = pid) (db_diagnostics d)))
       (filter (\<lambda>(root_path, _). root_path = sn_root_path s) cids)))
       (filter (\<lambda>s. sn_status s \<noteq> status_value COMPLETE \<and> sn_id s \<in> sr_id ` set snapshots) (db_snapshots d)))"

definition query_candidate_trend_sample_rows :: "db \<Rightarrow> snapshot_record list \<Rightarrow> (string \<times> bytes) list \<Rightarrow> sample_row list" where
  "query_candidate_trend_sample_rows d snapshots candidate_paths =
     (if candidate_paths = [] then []
      else (let cids = candidate_ids d candidate_paths
            in sort_key sample_order (candidate_complete_rows d snapshots cids @ candidate_diagnostic_rows d snapshots cids)))"

definition query_trend_sample_rows :: "db \<Rightarrow> snapshot_record list \<Rightarrow> (string \<times> bytes) list option \<Rightarrow> sample_row list" where
  "query_trend_sample_rows d snapshots candidate_paths =
     (case candidate_paths of
        Some cs \<Rightarrow> query_candidate_trend_sample_rows d snapshots cs
      | None \<Rightarrow> query_all_sample_rows d snapshots)"

subsection \<open>Trends of paths\<close>

definition expected_sample_counts_by_root :: "snapshot_record list \<Rightarrow> (string \<times> int) list" where
  "expected_sample_counts_by_root snapshots =
     foldl (\<lambda>counts s. AList.update (sr_root_path s) (dict_get counts (sr_root_path s) 0 + 1) counts) [] snapshots"

record path_trend_accumulator =
  pa_root_path :: pathname
  pa_path :: bytes
  pa_expected_sample_count :: int
  pa_parent_path :: "bytes option"
  pa_depth :: int
  pa_samples :: "trend_sample list"
  pa_snapshot_ids :: "int list"
  pa_snapshot_statuses :: "string list"

definition new_path_accumulator :: "pathname \<Rightarrow> bytes \<Rightarrow> int \<Rightarrow> path_trend_accumulator" where
  "new_path_accumulator root_path path expected =
     \<lparr> pa_root_path = root_path, pa_path = path, pa_expected_sample_count = expected, pa_parent_path = None, pa_depth = 0,
       pa_samples = [], pa_snapshot_ids = [], pa_snapshot_statuses = [] \<rparr>"

definition add_sample :: "instant \<Rightarrow> sample_row \<Rightarrow> path_trend_accumulator \<Rightarrow> path_trend_accumulator" where
  "add_sample finished_at row acc =
     acc\<lparr> pa_parent_path := sa_parent_path row, pa_depth := sa_depth row,
          pa_snapshot_ids := pa_snapshot_ids acc @ [sa_snapshot_id row],
          pa_snapshot_statuses := List.insert (sa_status row) (pa_snapshot_statuses acc),
          pa_samples := pa_samples acc @
            [\<lparr> ts_snapshot_id = sa_snapshot_id row, ts_finished_at = finished_at, ts_disk_bytes = sa_disk_bytes row,
               ts_apparent_bytes = sa_apparent_bytes row \<rparr>] \<rparr>"

definition path_trend_of :: "float_ops \<Rightarrow> path_trend_accumulator \<Rightarrow> path_trend" where
  "path_trend_of fl acc =
     \<lparr> pt_root_path = pa_root_path acc, pt_path = pa_path acc, pt_path_bytes_hex = hex_str (pa_path acc),
       pt_parent_path = pa_parent_path acc, pt_depth = pa_depth acc, pt_snapshot_ids = sort (pa_snapshot_ids acc),
       pt_snapshot_statuses = sort (pa_snapshot_statuses acc),
       pt_metrics = analyze_trend fl (pa_samples acc) (Some (pa_expected_sample_count acc)) \<rparr>"

type_synonym trend_key = "string \<times> bytes"

definition trend_key_of :: "path_trend \<Rightarrow> trend_key" where
  "trend_key_of t = (pt_root_path t, pt_path t)"

definition sample_key :: "sample_row \<Rightarrow> trend_key" where
  "sample_key row = (sa_root_path row, sa_path row)"

definition path_trend_step ::
    "(string \<times> int) list \<Rightarrow> (trend_key \<times> path_trend_accumulator) list \<Rightarrow> sample_row
     \<Rightarrow> report_error + (trend_key \<times> path_trend_accumulator) list" where
  "path_trend_step expected_counts accumulators row =
     (case map_of expected_counts (sa_root_path row) of
        None \<Rightarrow> Inl (Uncaught ''KeyError'')
      | Some expected \<Rightarrow>
          (let accs = setdefault (sample_key row) (new_path_accumulator (sa_root_path row) (sa_path row) expected) accumulators
           in case parse_finished_at_utc (sa_finished_at row) of
                Inl _ \<Rightarrow> Inl (Uncaught ''ValueError'')
              | Inr t \<Rightarrow> Inr (AList.update (sample_key row) (add_sample t row (the (map_of accs (sample_key row)))) accs)))"

definition path_trends_from_sample_rows :: "float_ops \<Rightarrow> sample_row list \<Rightarrow> snapshot_record list \<Rightarrow> report_error + path_trend list" where
  "path_trends_from_sample_rows fl rows selected_snapshots =
     map_sum id (map (path_trend_of fl \<circ> snd))
       (fold_err (path_trend_step (expected_sample_counts_by_root selected_snapshots)) [] rows)"

subsection \<open>Candidates\<close>

definition candidate_order :: "bytes \<times> agg_state \<Rightarrow> int \<times> int \<times> int \<times> bytes" where
  "candidate_order = (\<lambda>(p, st). (- ag_disk_bytes st, - ag_apparent_bytes st, - ag_depth st, p))"

text \<open>The states of a snapshot with their paths, the largest first.\<close>

definition largest_states :: "db \<Rightarrow> int \<Rightarrow> (int \<times> agg_state) list \<Rightarrow> bytes list" where
  "largest_states d limit states =
     sql_limit limit (map fst (sort_key candidate_order (List.map_filter (\<lambda>(pid, st).
       if ag_depth st > 0 \<and> (ag_disk_bytes st > 0 \<or> ag_apparent_bytes st > 0)
       then map_option (\<lambda>p. (p, st)) (path_text d pid) else None) states)))"

definition query_complete_current_size_candidate_paths_for_snapshot ::
    "db \<Rightarrow> int \<Rightarrow> snapshot_record \<Rightarrow> report_error + (string \<times> bytes) list" where
  "query_complete_current_size_candidate_paths_for_snapshot d limit snapshot =
     (if \<not> sqlite_int limit then Inl (Uncaught ''OverflowError'')
      else Inr (map (Pair (sr_root_path snapshot)) (largest_states d limit
        (map (\<lambda>iv. (iv_path_id iv, iv_state iv))
          (filter (interval_holds (sr_root_path snapshot) (sr_id snapshot)) (db_intervals d))))))"

definition query_current_size_candidate_paths_for_snapshot ::
    "db \<Rightarrow> int \<Rightarrow> snapshot_record \<Rightarrow> report_error + (string \<times> bytes) list" where
  "query_current_size_candidate_paths_for_snapshot d limit snapshot =
     (if sr_status snapshot = COMPLETE then query_complete_current_size_candidate_paths_for_snapshot d limit snapshot
      else if \<not> sqlite_int limit then Inl (Uncaught ''OverflowError'')
      else Inr (map (Pair (sr_root_path snapshot)) (largest_states d limit (snapshot_state d (sr_id snapshot)))))"

definition query_current_size_candidate_paths ::
    "db \<Rightarrow> int \<Rightarrow> snapshot_record list \<Rightarrow> report_error + (string \<times> bytes) list" where
  "query_current_size_candidate_paths d limit snapshots =
     map_sum id (\<lambda>cs. dedupe_on id (concat cs))
       (map_err (\<lambda>(_, root_snapshots). query_current_size_candidate_paths_for_snapshot d limit (last root_snapshots))
          (group_rows sr_root_path snapshots))"

subsection \<open>The path reports\<close>

definition invalid_trend_limit :: "int \<Rightarrow> report_error" where
  "invalid_trend_limit limit = Report_error ''invalid_limit'' (''limit must be at least 1, got '' @ int_str limit)"

definition path_trend_order :: "path_trend \<Rightarrow> int \<times> int \<times> string \<times> bytes" where
  "path_trend_order t =
     (- tm_gross_positive_disk_bytes_delta (pt_metrics t), - tm_net_disk_bytes_delta (pt_metrics t), pt_root_path t, pt_path t)"

definition query_path_trends :: "float_ops \<Rightarrow> db \<Rightarrow> string \<Rightarrow> int \<Rightarrow> int option \<Rightarrow> report_error + path_trend list" where
  "query_path_trends fl d since limit candidate_limit =
     (if limit < 1 then Inl (invalid_trend_limit limit)
      else if (case candidate_limit of None \<Rightarrow> False | Some c \<Rightarrow> c < limit)
      then Inl (Report_error ''invalid_limit'' (''candidate_limit must be at least limit ('' @ int_str limit @ ''), got ''
             @ int_str (the candidate_limit)))
      else (case select_trend_snapshots since d of
              Inl e \<Rightarrow> Inl e
            | Inr selected_snapshots \<Rightarrow>
                if selected_snapshots = [] then Inl (no_usable_snapshots since)
                else (case (case candidate_limit of
                              None \<Rightarrow> Inr None
                            | Some c \<Rightarrow> map_sum id Some (query_current_size_candidate_paths d c selected_snapshots)) of
                        Inl e \<Rightarrow> Inl e
                      | Inr candidate_paths \<Rightarrow>
                          map_sum id (\<lambda>trends. py_prefix limit (sort_key path_trend_order trends))
                            (path_trends_from_sample_rows fl (query_trend_sample_rows d selected_snapshots candidate_paths)
                               selected_snapshots))))"

definition query_path_trends_for_paths ::
    "float_ops \<Rightarrow> db \<Rightarrow> string \<Rightarrow> (string \<times> bytes) list \<Rightarrow> report_error + path_trend list" where
  "query_path_trends_for_paths fl d since paths =
     (case select_trend_snapshots since d of
        Inl e \<Rightarrow> Inl e
      | Inr selected_snapshots \<Rightarrow>
          if selected_snapshots = [] then Inl (no_usable_snapshots since)
          else (let candidate_paths = dedupe_on id paths in
            map_sum id (\<lambda>trends.
                let trend_by_key = dict_of (map (\<lambda>t. (trend_key_of t, t)) trends)
                in List.map_filter (map_of trend_by_key) candidate_paths)
              (path_trends_from_sample_rows fl (query_trend_sample_rows d selected_snapshots (Some candidate_paths))
                 selected_snapshots)))"

subsection \<open>Trends of file-system usage\<close>

record pressure_row =
  pr_finished_at :: "string option"
  pr_root_path :: string
  pr_usage :: snapshot_filesystem_usage

definition pressure_row_order ::
    "pressure_row \<Rightarrow> string \<times> string \<times> bytes \<times> string \<times> string \<times> (bool \<times> string) \<times> int" where
  "pressure_row_order r =
     (let u = pr_usage r in
      (pr_root_path r, fu_major_minor u, fu_root u, fu_filesystem_type u, fu_mount_source u, sql_text (pr_finished_at r),
       fu_snapshot_id u))"

definition query_filesystem_pressure_rows :: "db \<Rightarrow> snapshot_record list \<Rightarrow> pressure_row list" where
  "query_filesystem_pressure_rows d snapshots =
     sort_key pressure_row_order (concat (map (\<lambda>f. map (\<lambda>s.
         \<lparr> pr_finished_at = sn_finished_at s, pr_root_path = sn_root_path s, pr_usage = fy_usage f \<rparr>)
         (filter (\<lambda>s. sn_id s = fu_snapshot_id (fy_usage f)) (db_snapshots d)))
       (filter (\<lambda>f. fu_snapshot_id (fy_usage f) \<in> sr_id ` set snapshots) (db_filesystems d))))"

definition filesystem_pressure_key :: "pressure_row \<Rightarrow> string" where
  "filesystem_pressure_key row =
     (let u = pr_usage row
      in fu_major_minor u @ ''|'' @ fu_root u @ ''|'' @ fu_filesystem_type u @ ''|'' @ fu_mount_source u)"

record pressure_accumulator =
  fa_storage_domain_key :: string
  fa_expected_sample_count :: int
  fa_mount_point :: bytes
  fa_filesystem_type :: string
  fa_mount_source :: string
  fa_snapshot_ids :: "int list"
  fa_used_samples :: "int list"
  fa_available_samples :: "int list"
  fa_capture_errors :: "string list"

definition new_pressure_accumulator :: "string \<Rightarrow> int \<Rightarrow> pressure_accumulator" where
  "new_pressure_accumulator key expected =
     \<lparr> fa_storage_domain_key = key, fa_expected_sample_count = expected, fa_mount_point = [], fa_filesystem_type = [],
       fa_mount_source = [], fa_snapshot_ids = [], fa_used_samples = [], fa_available_samples = [], fa_capture_errors = [] \<rparr>"

definition add_pressure_row :: "pressure_row \<Rightarrow> pressure_accumulator \<Rightarrow> pressure_accumulator" where
  "add_pressure_row row acc =
     (let u = pr_usage row; item = (\<lambda>v. case v of None \<Rightarrow> [] | Some x \<Rightarrow> [x])
      in acc\<lparr> fa_mount_point := fu_mount_point u, fa_filesystem_type := fu_filesystem_type u, fa_mount_source := fu_mount_source u,
              fa_snapshot_ids := fa_snapshot_ids acc @ [fu_snapshot_id u],
              fa_used_samples := fa_used_samples acc @ item (fu_used_bytes u),
              fa_available_samples := fa_available_samples acc @ item (fu_available_bytes u),
              fa_capture_errors := fa_capture_errors acc @ (case fu_capture_error u of None \<Rightarrow> [] | Some e \<Rightarrow> [e]) \<rparr>)"

definition list_ends :: "'a list \<Rightarrow> 'a option \<times> 'a option" where
  "list_ends xs = (if xs = [] then (None, None) else (Some (hd xs), Some (last xs)))"

definition ends_delta :: "int list \<Rightarrow> int option" where
  "ends_delta xs = (case list_ends xs of (Some a, Some b) \<Rightarrow> Some (b - a) | _ \<Rightarrow> None)"

definition pressure_trend_of :: "pressure_accumulator \<Rightarrow> filesystem_pressure_trend" where
  "pressure_trend_of acc =
     \<lparr> fp_storage_domain_key = fa_storage_domain_key acc, fp_mount_point = fa_mount_point acc,
       fp_filesystem_type = fa_filesystem_type acc, fp_mount_source = fa_mount_source acc,
       fp_snapshot_ids = sort (fa_snapshot_ids acc), fp_sample_count = int (length (fa_snapshot_ids acc)),
       fp_missing_sample_count = max 0 (fa_expected_sample_count acc - int (length (fa_snapshot_ids acc))),
       fp_start_used_bytes = fst (list_ends (fa_used_samples acc)), fp_end_used_bytes = snd (list_ends (fa_used_samples acc)),
       fp_used_bytes_delta = ends_delta (fa_used_samples acc),
       fp_start_available_bytes = fst (list_ends (fa_available_samples acc)),
       fp_end_available_bytes = snd (list_ends (fa_available_samples acc)),
       fp_available_bytes_delta = ends_delta (fa_available_samples acc),
       fp_capture_error_count = int (length (fa_capture_errors acc)),
       fp_latest_capture_error = (if fa_capture_errors acc = [] then None else Some (last (fa_capture_errors acc))) \<rparr>"

definition pressure_step ::
    "(string \<times> int) list \<Rightarrow> (string \<times> pressure_accumulator) list \<Rightarrow> pressure_row
     \<Rightarrow> report_error + (string \<times> pressure_accumulator) list" where
  "pressure_step expected_counts accumulators row =
     (let key = filesystem_pressure_key row in
      case map_of expected_counts (pr_root_path row) of
        None \<Rightarrow> Inl (Uncaught ''KeyError'')
      | Some expected \<Rightarrow>
          (let accs = setdefault key (new_pressure_accumulator key expected) accumulators
           in Inr (AList.update key (add_pressure_row row (the (map_of accs key))) accs)))"

definition pressure_trend_order :: "filesystem_pressure_trend \<Rightarrow> int \<times> string \<times> bytes" where
  "pressure_trend_order t =
     (- (case fp_used_bytes_delta t of None \<Rightarrow> 0 | Some v \<Rightarrow> v), fp_storage_domain_key t, fp_mount_point t)"

definition query_filesystem_pressure_trends :: "db \<Rightarrow> string \<Rightarrow> int \<Rightarrow> report_error + filesystem_pressure_trend list" where
  "query_filesystem_pressure_trends d since limit =
     (if limit < 1 then Inl (invalid_trend_limit limit)
      else (case select_trend_snapshots since d of
              Inl e \<Rightarrow> Inl e
            | Inr selected_snapshots \<Rightarrow>
                if selected_snapshots = [] then Inl (no_usable_snapshots since)
                else map_sum id (\<lambda>accs. py_prefix limit (sort_key pressure_trend_order (map (pressure_trend_of \<circ> snd) accs)))
                  (fold_err (pressure_step (expected_sample_counts_by_root selected_snapshots)) []
                     (query_filesystem_pressure_rows d selected_snapshots))))"

subsection \<open>The largest directories of a snapshot\<close>

definition top_order :: "bytes \<times> agg_state \<Rightarrow> int \<times> bytes" where
  "top_order = (\<lambda>(p, st). (- ag_disk_bytes st, p))"

definition top_states :: "db \<Rightarrow> int \<Rightarrow> int \<Rightarrow> (bytes \<times> agg_state) list" where
  "top_states d snapshot_id limit =
     sql_limit limit (sort_key top_order (List.map_filter (\<lambda>(pid, st). map_option (\<lambda>p. (p, st)) (path_text d pid))
       (snapshot_state d snapshot_id)))"

definition top_row_of :: "db \<Rightarrow> snapshot_record \<Rightarrow> int \<Rightarrow> bytes \<Rightarrow> agg_state \<Rightarrow> group_label option \<Rightarrow> top_row" where
  "top_row_of d snapshot snapshot_id path st label =
     \<lparr> tr_snapshot_id = snapshot_id, tr_root_path = sr_root_path snapshot, tr_path = path, tr_path_bytes_hex = hex_str path,
       tr_depth = ag_depth st, tr_current_apparent_bytes = ag_apparent_bytes st, tr_current_disk_bytes = ag_disk_bytes st,
       tr_file_count = ag_file_count st, tr_dir_count = ag_dir_count st, tr_error = ag_error st,
       tr_hardlink_file_count = ag_hardlink_file_count st, tr_hardlink_duplicate_count = ag_hardlink_duplicate_count st,
       tr_hardlink_duplicate_disk_bytes = ag_hardlink_duplicate_disk_bytes st,
       tr_hardlink_first_seen_disk_bytes = ag_hardlink_first_seen_disk_bytes st, tr_collapsed = (ag_collapsed st \<noteq> 0),
       tr_collapse_reason = ag_collapse_reason st, tr_collapsed_dirs = ag_collapsed_dirs st,
       tr_top_child_path = path_text_opt d (ag_top_child_id st), tr_top_child_disk_bytes = ag_top_child_disk_bytes st,
       tr_group = label \<rparr>"

definition top_rows_step ::
    "db \<Rightarrow> snapshot_record \<Rightarrow> int \<Rightarrow> string \<Rightarrow> snapshot_mount list \<Rightarrow> warning_index \<times> top_row list \<Rightarrow> bytes \<times> agg_state
     \<Rightarrow> report_error + warning_index \<times> top_row list" where
  "top_rows_step d snapshot snapshot_id group_by mounts = (\<lambda>(index, rows) (path, st).
     (case resolve_group_for_path path (sr_root_path snapshot) group_by mounts of
        Inl e \<Rightarrow> Inl e
      | Inr (label, warning) \<Rightarrow> Inr (note_warning index warning, rows @ [top_row_of d snapshot snapshot_id path st label])))"

definition query_top_rows :: "db \<Rightarrow> int \<Rightarrow> int \<Rightarrow> string \<Rightarrow> report_error + top_row list \<times> report_warning list" where
  "query_top_rows d snapshot_id limit group_by =
     (if group_by \<notin> top_choices then Inl (invalid_group_by group_by)
      else (case load_snapshot d snapshot_id of
              Inl e \<Rightarrow> Inl e
            | Inr snapshot \<Rightarrow>
                if \<not> sqlite_int limit then Inl (Uncaught ''OverflowError'')
                else (let mounts = (if group_by \<in> {''mount'', ''storage-domain''} then load_snapshot_mounts d snapshot_id else [])
                      in map_sum id (\<lambda>(index, rows). (rows, map snd index))
                           (fold_err (top_rows_step d snapshot snapshot_id group_by mounts) ([], []) (top_states d snapshot_id limit)))))"

end
