(* ===== verification/Diagnostic_Models.thy ===== *)
theory Diagnostic_Models
  imports Models
begin

text \<open>
  The value types of \<open>models.py\<close> that only the live diagnostics use, as in \<open>Models\<close>; their ratios are
  floats, so real numbers here.
\<close>

subsection \<open>Disk usage against the index\<close>

record filesystem_usage =
  us_size_bytes :: int
  us_used_bytes :: int
  us_free_total_bytes :: int
  us_avail_unprivileged_bytes :: int

record df_index_section =
  di_storage_domain :: group_label
  di_snapshot_ids :: "int list"
  di_snapshot_statuses :: "string list"
  di_finished_at_min :: "string option"
  di_finished_at_max :: "string option"
  di_max_snapshot_age_seconds :: "int option"
  di_filesystem_stat_available :: bool
  di_filesystem_status :: string
  di_df_usage :: "filesystem_usage option"
  di_df_used_bytes :: "int option"
  di_indexed_visible_disk_bytes :: int
  di_indexed_visible_apparent_bytes :: int
  di_indexed_visible_path_count :: int
  di_indexed_root_paths :: "bytes list"
  di_indexed_mount_points :: "bytes list"
  di_partial_snapshot_count :: int
  di_unknown_mount_count :: int
  di_filesystem_scope_extends_beyond_indexed_roots :: bool
  di_coverage_reason_codes :: "string list"
  di_unattributed_bytes :: "int option"
  di_unattributed_ratio :: "real option"
  di_over_indexed_bytes :: "int option"
  di_over_indexed_ratio :: "real option"
  di_likely_reasons :: "string list"
  di_verification_commands :: "string list"

record df_index_diagnostic =
  dd_ok :: bool
  dd_snapshot_selector :: string
  dd_limit :: int
  dd_effective_limit :: int
  dd_generated_at :: string
  dd_filesystems :: "df_index_section list"
  dd_truncated :: bool
  dd_total_filesystem_count :: int
  dd_warnings :: "report_warning list"

subsection \<open>Deleted open files\<close>

record deleted_open_file =
  of_pid :: int
  of_command :: string
  of_fd :: string
  of_size_bytes :: "int option"
  of_path :: bytes
  of_storage_domain :: "group_label option"
  of_disk_pressure_relevance :: string
  of_action_hint :: string
  of_source :: string

record deleted_open_totals =
  ot_culprit_count :: int
  ot_shown_count :: int
  ot_total_size_bytes :: int
  ot_shown_size_bytes :: int
  ot_disk_pressure_relevant_size_bytes :: int
  ot_non_disk_mapping_size_bytes :: int
  ot_permission_denied_count :: int

record deleted_open_diagnostic =
  od_ok :: bool
  od_limit :: int
  od_effective_limit :: int
  od_generated_at :: string
  od_evidence_source :: string
  od_culprits :: "deleted_open_file list"
  od_totals :: deleted_open_totals
  od_truncated :: bool
  od_verification_commands :: "string list"
  od_warnings :: "report_warning list"

subsection \<open>Docker\<close>

record docker_category =
  dc_kind :: string
  dc_total_count :: "int option"
  dc_active_count :: "int option"
  dc_size_text :: "string option"
  dc_size_bytes :: "int option"
  dc_reclaimable_text :: "string option"
  dc_reclaimable_bytes :: "int option"
  dc_source_command :: string

record docker_build_cache_entry =
  be_cache_id :: string
  be_size_bytes :: int
  be_reclaimable :: bool
  be_last_used_at :: "string option"
  be_source_command :: string

record docker_build_cache_totals =
  bt_entry_count :: int
  bt_shown_count :: int
  bt_total_bytes :: int
  bt_reclaimable_bytes :: int

record docker_storage_owner =
  ow_kind :: string
  ow_object_id :: string
  ow_name :: "string option"
  ow_image :: "string option"
  ow_active :: "bool option"
  ow_snapshot_ids :: "string list"
  ow_overlay_ids :: "string list"
  ow_source_command :: string

record docker_enrichment =
  de_ok :: bool
  de_limit :: int
  de_effective_limit :: int
  de_generated_at :: string
  de_docker_available :: bool
  de_containerd_available :: bool
  de_categories :: "docker_category list"
  de_build_cache_entries :: "docker_build_cache_entry list"
  de_build_cache_totals :: docker_build_cache_totals
  de_build_cache_truncated :: bool
  de_storage_owners :: "docker_storage_owner list"
  de_docker_path_hints :: "bytes list"
  de_containerd_path_hints :: "bytes list"
  de_verification_commands :: "string list"
  de_warnings :: "report_warning list"

subsection \<open>Pressure summary\<close>

record diagnostic_hint =
  dh_code :: string
  dh_message :: string
  dh_next_checks :: "string list"
  dh_storage_domain_key :: "string option"

record pressure_summary_section =
  ps_storage_domain_key :: string
  ps_mount_point :: "bytes option"
  ps_filesystem_stat_available :: bool
  ps_filesystem_status :: string
  ps_df_used_bytes :: "int option"
  ps_indexed_visible_disk_bytes :: int
  ps_unattributed_bytes :: "int option"
  ps_over_indexed_bytes :: "int option"
  ps_filesystem_usage_ratio :: "real option"
  ps_recent_growth_disk_bytes :: int
  ps_coverage_reason_codes :: "string list"
  ps_snapshot_statuses :: "string list"
  ps_facts :: "string list"
  ps_next_checks :: "string list"
  ps_truncated :: bool

record pressure_summary =
  pm_sections :: "pressure_summary_section list"
  pm_diagnostic_hints :: "diagnostic_hint list"
  pm_next_checks :: "string list"
  pm_limits :: "(string \<times> int) list"
  pm_truncated_sections :: bool
  pm_warnings :: "report_warning list"

end
