(* ===== verification/Df_Index.thy ===== *)
theory Df_Index
  imports Diagnostic_Models Filesystems Domain_Totals Py_Float
begin

text \<open>
  \<open>diagnostics/df_index.py\<close>: what \<open>statvfs\<close> says of each indexed storage domain against what the index holds of
  it.  \<open>statvfs\<close>, the clock and the optional scope test are the providers the function takes; a failed
  \<open>statvfs\<close> is the text of its \<open>OSError\<close>.
\<close>

subsection \<open>Providers\<close>

record df_index_providers =
  pv_stat_provider :: statvfs_call
  pv_generated_at_provider :: string
  pv_filesystem_scope_provider :: "(indexed_storage_domain_total \<Rightarrow> bool) option"

definition MISMATCH_MIN_BYTES :: int where "MISMATCH_MIN_BYTES = 1 * 1024 ^ 3"
definition MISMATCH_MIN_RATIO :: real where "MISMATCH_MIN_RATIO = 5 / 100"
definition DELETED_OPEN_COMMANDS :: "string list" where
  "DELETED_OPEN_COMMANDS = [''watchdirs deleted-open-files'', ''lsof +L1 -nP'']"
definition GENERAL_COMMANDS :: "string list" where
  "GENERAL_COMMANDS = [''df -h'', ''watchdirs docker-enrichment'']"

subsection \<open>One domain\<close>

definition safe_parse :: "string option \<Rightarrow> instant option" where
  "safe_parse raw_value = (case parse_finished_at_utc raw_value of Inl _ \<Rightarrow> None | Inr t \<Rightarrow> Some t)"

text \<open>\<open>int(delta.total_seconds())\<close>\<close>

definition max_snapshot_age_seconds :: "float_ops \<Rightarrow> indexed_storage_domain_total \<Rightarrow> instant option \<Rightarrow> int option" where
  "max_snapshot_age_seconds fl domain generated_dt =
     (case (generated_dt, sd_finished_at_min domain) of
        (Some generated, Some raw) \<Rightarrow>
          (case safe_parse (Some raw) of
             None \<Rightarrow> None
           | Some finished \<Rightarrow> Some (max (trunc (fl_round fl (of_int (generated - finished) / of_int second_us))) 0))
      | _ \<Rightarrow> None)"

definition is_subtree :: "bytes \<Rightarrow> bytes \<Rightarrow> bool" where
  "is_subtree path ancestor =
     (if ancestor = root_dir then startswith path root_dir \<and> path \<noteq> root_dir else startswith path (ancestor @ root_dir))"

definition default_scope_extends :: "indexed_storage_domain_total \<Rightarrow> bool" where
  "default_scope_extends domain =
     (case gl_mount_point (sd_storage_domain domain) of
        None \<Rightarrow> False
      | Some mount_point \<Rightarrow>
          \<not> list_ex (\<lambda>root_path. root_path = mount_point \<or> \<not> is_subtree root_path mount_point) (sd_indexed_root_paths domain)
          \<and> sd_indexed_root_paths domain \<noteq> [])"

text \<open>\<open>None\<close> is the \<open>ValueError\<close> of a domain without any path.\<close>

definition probe_path :: "indexed_storage_domain_total \<Rightarrow> bytes option" where
  "probe_path domain =
     (case gl_mount_point (sd_storage_domain domain) of
        Some mount_point \<Rightarrow> Some mount_point
      | None \<Rightarrow>
          (case sd_indexed_mount_points domain of
             m # _ \<Rightarrow> Some m
           | [] \<Rightarrow> (case sd_indexed_root_paths domain of r # _ \<Rightarrow> Some r | [] \<Rightarrow> None)))"

definition is_overlay_mount_accounting_alias :: "indexed_storage_domain_total \<Rightarrow> bool" where
  "is_overlay_mount_accounting_alias domain \<longleftrightarrow>
     gl_filesystem_type (sd_storage_domain domain) = Some ''overlay''
     \<and> gl_mount_source (sd_storage_domain domain) = Some ''overlay''
     \<and> gl_mount_point (sd_storage_domain domain) \<notin> {None, Some root_dir}
     \<and> sd_indexed_visible_disk_bytes domain = 0"

definition filesystem_usage_of :: "statvfs_result \<Rightarrow> filesystem_usage" where
  "filesystem_usage_of stat =
     (let frsize = f_frsize stat;
          fs_size = f_blocks stat * frsize;
          free_total = f_bfree stat * frsize
      in \<lparr> us_size_bytes = fs_size, us_used_bytes = fs_size - free_total, us_free_total_bytes = free_total,
           us_avail_unprivileged_bytes = f_bavail stat * frsize \<rparr>)"

definition is_material_mismatch :: "float_ops \<Rightarrow> int \<Rightarrow> real option \<Rightarrow> bool" where
  "is_material_mismatch fl unattributed_bytes unattributed_ratio \<longleftrightarrow>
     unattributed_bytes \<ge> MISMATCH_MIN_BYTES
     \<and> (case unattributed_ratio of None \<Rightarrow> False | Some r \<Rightarrow> r \<ge> fl_round fl MISMATCH_MIN_RATIO)"

definition classify_mismatch ::
    "float_ops \<Rightarrow> int \<Rightarrow> real option \<Rightarrow> bool \<Rightarrow> bool \<Rightarrow> int \<Rightarrow> string list \<times> string list" where
  "classify_mismatch fl unattributed_bytes unattributed_ratio scope_extends is_partial unknown_mount_count =
     (if \<not> is_material_mismatch fl unattributed_bytes unattributed_ratio then ([], [])
      else
        (let deleted_open_allowed = (\<not> scope_extends \<and> \<not> is_partial);
             reasons = (if deleted_open_allowed then [''deleted_open_file_suspected'']
                        else (if scope_extends then [''filesystem_scope_beyond_indexed_roots''] else [])
                             @ (if is_partial then [''skipped_or_partial_scan_evidence''] else []));
             commands = GENERAL_COMMANDS @ (if deleted_open_allowed then DELETED_OPEN_COMMANDS else []);
             reasons = reasons @ (if unknown_mount_count > 0 \<and> ''skipped_or_partial_scan_evidence'' \<notin> set reasons
                                  then [''skipped_or_partial_scan_evidence''] else [])
         in (reasons @ [''docker_or_containerd_storage'', ''reserved_or_metadata_accounting''], commands)))"

subsection \<open>The section of a domain\<close>

text \<open>The codes and warnings that come from the index alone, in order.\<close>

definition domain_accounting :: "indexed_storage_domain_total \<Rightarrow> string list \<times> report_warning list" where
  "domain_accounting domain =
     (let label = sd_storage_domain domain; key = gl_key label; mp = gl_mount_point label in
      ((if sd_skipped_paths domain \<noteq> [] then [''indexed_paths_skipped''] else [])
       @ (if sd_partial_snapshot_count domain > 0 then [''partial_snapshot_evidence''] else [])
       @ (if sd_negative_total_clamped domain then [''indexed_total_clamped_negative''] else []),
       (if sd_skipped_paths domain \<noteq> []
        then [warn ''indexed_paths_skipped''
                ''Filesystem coverage contains skipped paths; check watchdirs stats and collection service state'' mp] else [])
       @ (if sd_partial_snapshot_count domain > 0
          then [warn ''partial_snapshot_evidence''
                  (''storage-domain '' @ key @ '' has '' @ int_str (sd_partial_snapshot_count domain) @ '' non-complete snapshot(s)'') mp]
          else [])
       @ (if sd_unknown_mount_count domain > 0
          then [warn ''unknown_mount''
                  (''storage-domain '' @ key @ '' has '' @ int_str (sd_unknown_mount_count domain)
                   @ '' directory row(s) without a persisted mount prefix'') mp] else [])
       @ (if sd_negative_total_clamped domain
          then [warn ''indexed_total_clamped_negative''
                  (''storage-domain '' @ key @ '' indexed total was negative (inconsistent nested-submount aggregates) and was ''
                   @ ''clamped to zero'') mp] else [])))"

definition scope_extends_of :: "df_index_providers \<Rightarrow> indexed_storage_domain_total \<Rightarrow> bool" where
  "scope_extends_of providers domain =
     (case pv_filesystem_scope_provider providers of Some f \<Rightarrow> f domain | None \<Rightarrow> default_scope_extends domain)"

text \<open>A section with what does not depend on \<open>statvfs\<close>.\<close>

definition base_section :: "indexed_storage_domain_total \<Rightarrow> int option \<Rightarrow> bool \<Rightarrow> df_index_section" where
  "base_section domain max_age scope_extends =
     \<lparr> di_storage_domain = sd_storage_domain domain, di_snapshot_ids = sd_snapshot_ids domain,
       di_snapshot_statuses = sd_snapshot_statuses domain, di_finished_at_min = sd_finished_at_min domain,
       di_finished_at_max = sd_finished_at_max domain, di_max_snapshot_age_seconds = max_age,
       di_filesystem_stat_available = False, di_filesystem_status = ''stat_unavailable'', di_df_usage = None,
       di_df_used_bytes = None, di_indexed_visible_disk_bytes = sd_indexed_visible_disk_bytes domain,
       di_indexed_visible_apparent_bytes = sd_indexed_visible_apparent_bytes domain,
       di_indexed_visible_path_count = sd_indexed_visible_path_count domain,
       di_indexed_root_paths = sd_indexed_root_paths domain, di_indexed_mount_points = sd_indexed_mount_points domain,
       di_partial_snapshot_count = sd_partial_snapshot_count domain, di_unknown_mount_count = sd_unknown_mount_count domain,
       di_filesystem_scope_extends_beyond_indexed_roots = scope_extends, di_coverage_reason_codes = [],
       di_unattributed_bytes = None, di_unattributed_ratio = None, di_over_indexed_bytes = None, di_over_indexed_ratio = None,
       di_likely_reasons = [], di_verification_commands = [] \<rparr>"

definition ratio_of :: "float_ops \<Rightarrow> int \<Rightarrow> int \<Rightarrow> real option" where
  "ratio_of fl part denominator =
     (if denominator > 0 then Some (fl_round fl (of_int part / of_int denominator)) else None)"

definition stat_section ::
    "float_ops \<Rightarrow> indexed_storage_domain_total \<Rightarrow> statvfs_result \<Rightarrow> bool \<Rightarrow> string list \<Rightarrow> df_index_section \<Rightarrow> df_index_section" where
  "stat_section fl domain stat scope_extends codes base =
     (let usage = filesystem_usage_of stat;
          alias = is_overlay_mount_accounting_alias domain;
          unattributed = (if alias then 0 else max (us_used_bytes usage - sd_indexed_visible_disk_bytes domain) 0);
          over_indexed = (if alias then 0 else max (sd_indexed_visible_disk_bytes domain - us_used_bytes usage) 0);
          denominator = max 0 (us_used_bytes usage);
          unattributed_ratio = ratio_of fl unattributed denominator;
          (reasons, commands) = classify_mismatch fl unattributed unattributed_ratio scope_extends
             (sd_partial_snapshot_count domain > 0 \<or> sd_skipped_paths domain \<noteq> []) (sd_unknown_mount_count domain)
      in base\<lparr> di_filesystem_stat_available := True, di_filesystem_status := ''ok'', di_df_usage := Some usage,
               di_df_used_bytes := Some (us_used_bytes usage),
               di_coverage_reason_codes := codes @ (if alias then [''overlay_mount_reuses_parent_filesystem_usage''] else []),
               di_unattributed_bytes := Some unattributed, di_unattributed_ratio := unattributed_ratio,
               di_over_indexed_bytes := Some over_indexed, di_over_indexed_ratio := ratio_of fl over_indexed denominator,
               di_likely_reasons := reasons, di_verification_commands := commands \<rparr>)"

definition build_df_section ::
    "float_ops \<Rightarrow> df_index_providers \<Rightarrow> instant option \<Rightarrow> indexed_storage_domain_total
     \<Rightarrow> report_error + df_index_section \<times> report_warning list" where
  "build_df_section fl providers generated_dt domain =
     (case probe_path domain of
        None \<Rightarrow> Inl (Uncaught ''ValueError'')
      | Some probe \<Rightarrow>
          (let (codes, warnings) = domain_accounting domain;
               scope_extends = scope_extends_of providers domain;
               codes = codes @ (if scope_extends then [''indexed_roots_are_subtrees_of_filesystem''] else []);
               base = base_section domain (max_snapshot_age_seconds fl domain generated_dt) scope_extends
           in case pv_stat_provider providers probe of
                Inl exc \<Rightarrow>
                  Inr (base\<lparr> di_coverage_reason_codes := codes @ [''filesystem_stat_unavailable''] \<rparr>,
                       warnings @ [warn ''filesystem_stat_unavailable'' (''statvfs failed for '' @ probe @ '': '' @ exc) (Some probe)])
              | Inr stat \<Rightarrow> Inr (stat_section fl domain stat scope_extends codes base, warnings)))"

subsection \<open>The diagnostic\<close>

definition section_actionability :: "df_index_section \<Rightarrow> int \<times> int" where
  "section_actionability s =
     (if di_filesystem_stat_available s then 1 else 0, case di_unattributed_bytes s of None \<Rightarrow> 0 | Some n \<Rightarrow> n)"

definition order_sections :: "df_index_section list \<Rightarrow> df_index_section list" where
  "order_sections sections = sort_key_rev section_actionability (sort_key (\<lambda>s. gl_key (di_storage_domain s)) sections)"

definition build_df_index_diagnostic ::
    "float_ops \<Rightarrow> db \<Rightarrow> string \<Rightarrow> int \<Rightarrow> df_index_providers \<Rightarrow> report_error + df_index_diagnostic" where
  "build_df_index_diagnostic fl d snapshot_selector limit providers =
     (let generated_at = pv_generated_at_provider providers in
      case query_indexed_storage_domain_totals snapshot_selector d of
        Inl e \<Rightarrow> Inl e
      | Inr domains \<Rightarrow>
          (case map_err (build_df_section fl providers (safe_parse (Some generated_at))) domains of
             Inl e \<Rightarrow> Inl e
           | Inr built \<Rightarrow>
               (let sections = order_sections (map fst built)
                in Inr \<lparr> dd_ok = True, dd_snapshot_selector = snapshot_selector, dd_limit = limit, dd_effective_limit = limit,
                         dd_generated_at = generated_at, dd_filesystems = py_prefix limit sections,
                         dd_truncated = (int (length sections) > limit), dd_total_filesystem_count = int (length sections),
                         dd_warnings = concat (map snd built) \<rparr>)))"

end
