(* ===== verification/Investigate.thy ===== *)
theory Investigate
  imports Fast_Query Frontier Trend_Query Df_Index
begin

text \<open>
  The investigation of \<open>cli.py\<close> (\<open>_compact_investigate_payload\<close>): the shallow growth of every snapshot pair without
  the directories that one descendant explains, what may only have moved, the bursts behind the growth, and
  what to look at next.  The values of the JSON document are records here.
\<close>

subsection \<open>Constants and rounding\<close>

definition mib :: int where "mib = 1024 * 1024"
definition RELOCATION_MIN_BYTES :: int where "RELOCATION_MIN_BYTES = 512 * mib"
definition RELOCATION_MATCH_RATIO :: real where "RELOCATION_MATCH_RATIO = 10 / 100"
definition RELOCATION_MATCH_SLOP_BYTES :: int where "RELOCATION_MATCH_SLOP_BYTES = 256 * mib"
definition investigate_candidate_multiplier :: int where "investigate_candidate_multiplier = 3"
definition investigate_material_burst_mib :: int where "investigate_material_burst_mib = 100"
definition investigate_since :: string where "investigate_since = ''14d''"

text \<open>\<open>round(x)\<close> and \<open>round(x, 2)\<close>: to the nearest, halves to the even neighbour.\<close>

definition py_round :: "real \<Rightarrow> int" where
  "py_round x =
     (let n = \<lfloor>x\<rfloor>; rest = x - of_int n
      in if rest > 1 / 2 \<or> (rest = 1 / 2 \<and> odd n) then n + 1 else n)"

definition py_round2 :: "float_ops \<Rightarrow> real \<Rightarrow> real" where
  "py_round2 fl x = fl_round fl (of_int (py_round (100 * x)) / 100)"

definition true_div :: "float_ops \<Rightarrow> int \<Rightarrow> int \<Rightarrow> real" where
  "true_div fl a b = fl_round fl (of_int a / of_int b)"

definition bytes_to_mib :: "float_ops \<Rightarrow> int \<Rightarrow> int" where
  "bytes_to_mib fl n = trunc (true_div fl n mib)"

subsection \<open>Scopes and dominated directories\<close>

type_synonym growth_scope = "pathname \<times> int \<times> int"

definition fast_growth_scope :: "fast_growth_row \<Rightarrow> growth_scope" where
  "fast_growth_scope row = (fg_root_path row, fg_baseline_snapshot_id row, fg_current_snapshot_id row)"

definition fast_growth_scope_path :: "fast_growth_row \<Rightarrow> growth_scope \<times> bytes" where
  "fast_growth_scope_path row = (fast_growth_scope row, fg_path row)"

definition same_snapshot_scope :: "fast_growth_row \<Rightarrow> fast_growth_row \<Rightarrow> bool" where
  "same_snapshot_scope left right \<longleftrightarrow>
     fg_root_path left = fg_root_path right \<and> fg_baseline_snapshot_id left = fg_baseline_snapshot_id right
     \<and> fg_current_snapshot_id left = fg_current_snapshot_id right"

definition dominates_row :: "float_ops \<Rightarrow> fast_growth_row \<Rightarrow> fast_growth_row \<Rightarrow> bool" where
  "dominates_row fl descendant ancestor \<longleftrightarrow>
     fg_disk_bytes_delta ancestor > 0
     \<and> of_int (fg_disk_bytes_delta descendant) \<ge> int_times fl (fg_disk_bytes_delta ancestor) FRONTIER_DOMINANCE_RATIO"

definition dominated_by :: "float_ops \<Rightarrow> ((growth_scope \<times> bytes) \<times> fast_growth_row) list \<Rightarrow> fast_growth_row
    \<Rightarrow> (growth_scope \<times> bytes) list" where
  "dominated_by fl rows_by_scope_path descendant =
     filter (\<lambda>key. case map_of rows_by_scope_path key of None \<Rightarrow> False | Some ancestor \<Rightarrow> dominates_row fl descendant ancestor)
       (map (Pair (fast_growth_scope descendant)) (ancestors (fg_path descendant)))"

definition remove_dominated_fast_ancestors :: "float_ops \<Rightarrow> fast_growth_row list \<Rightarrow> fast_growth_row list" where
  "remove_dominated_fast_ancestors fl rows =
     (let rows_by_scope_path = dict_of (map (\<lambda>row. (fast_growth_scope_path row, row)) rows);
          dominated_paths = concat (map (dominated_by fl rows_by_scope_path) rows)
      in filter (\<lambda>row. fast_growth_scope_path row \<notin> set dominated_paths) rows)"

subsection \<open>Relocations\<close>

record relocation_suspicion =
  rl_positive :: fast_growth_row
  rl_negative :: fast_growth_row
  rl_size_gap_bytes :: int
  rl_covered_ratio :: real
  rl_common_parent :: bytes

definition persistent_growth_sort_key :: "fast_growth_row \<Rightarrow> int \<times> int \<times> int \<times> bytes" where
  "persistent_growth_sort_key row = (- fg_disk_bytes_delta row, - fg_apparent_bytes_delta row, fg_depth row, fg_path row)"

definition shrink_sort_key :: "fast_growth_row \<Rightarrow> int \<times> int \<times> bytes" where
  "shrink_sort_key row = (- \<bar>fg_disk_bytes_delta row\<bar>, fg_depth row, fg_path row)"

definition common_parent :: "bytes \<Rightarrow> bytes \<Rightarrow> bytes option" where
  "common_parent left right =
     (case (parent_of left, parent_of right) of
        (Some l, Some r) \<Rightarrow> if l \<noteq> r then None else Some l
      | _ \<Rightarrow> None)"

definition allowed_gap :: "float_ops \<Rightarrow> fast_growth_row \<Rightarrow> fast_growth_row \<Rightarrow> int" where
  "allowed_gap fl positive negative =
     max RELOCATION_MATCH_SLOP_BYTES
       (py_round (int_times fl (max (fg_disk_bytes_delta positive) \<bar>fg_disk_bytes_delta negative\<bar>) RELOCATION_MATCH_RATIO))"

definition size_gap :: "fast_growth_row \<Rightarrow> fast_growth_row \<Rightarrow> int" where
  "size_gap positive negative = \<bar>fg_disk_bytes_delta positive - \<bar>fg_disk_bytes_delta negative\<bar>\<bar>"

definition relocation_match ::
    "float_ops \<Rightarrow> (growth_scope \<times> bytes) list \<Rightarrow> fast_growth_row \<Rightarrow> fast_growth_row \<Rightarrow> relocation_suspicion option" where
  "relocation_match fl used positive negative =
     (if fast_growth_scope_path negative \<in> set used \<or> \<not> same_snapshot_scope positive negative then None
      else (case common_parent (fg_path positive) (fg_path negative) of
              None \<Rightarrow> None
            | Some parent \<Rightarrow>
                (if size_gap positive negative > allowed_gap fl positive negative then None
                 else Some \<lparr> rl_positive = positive, rl_negative = negative, rl_size_gap_bytes = size_gap positive negative,
                        rl_covered_ratio = py_round2 fl
                          (true_div fl (min (fg_disk_bytes_delta positive) \<bar>fg_disk_bytes_delta negative\<bar>)
                             (max (fg_disk_bytes_delta positive) \<bar>fg_disk_bytes_delta negative\<bar>)),
                        rl_common_parent = parent \<rparr>)))"

definition best_relocation ::
    "float_ops \<Rightarrow> (growth_scope \<times> bytes) list \<Rightarrow> fast_growth_row list \<Rightarrow> fast_growth_row \<Rightarrow> relocation_suspicion option" where
  "best_relocation fl used negatives positive =
     foldl (\<lambda>best negative.
         (case relocation_match fl used positive negative of
            None \<Rightarrow> best
          | Some suspicion \<Rightarrow>
              (case best of
                 None \<Rightarrow> Some suspicion
               | Some b \<Rightarrow> if rl_size_gap_bytes suspicion < rl_size_gap_bytes b then Some suspicion else best)))
       None negatives"

definition relocation_step ::
    "float_ops \<Rightarrow> fast_growth_row list \<Rightarrow> (growth_scope \<times> bytes) list \<times> relocation_suspicion list \<Rightarrow> fast_growth_row
     \<Rightarrow> (growth_scope \<times> bytes) list \<times> relocation_suspicion list" where
  "relocation_step fl negatives = (\<lambda>(used, suspicions) positive.
     (case best_relocation fl used negatives positive of
        None \<Rightarrow> (used, suspicions)
      | Some best \<Rightarrow> (fast_growth_scope_path (rl_negative best) # used, suspicions @ [best])))"

definition relocation_suspicions ::
    "float_ops \<Rightarrow> fast_growth_row list \<Rightarrow> fast_growth_row list \<Rightarrow> relocation_suspicion list" where
  "relocation_suspicions fl positive_rows negative_rows =
     (let positive_candidates = sort_key persistent_growth_sort_key
            (filter (\<lambda>row. fg_disk_bytes_delta row \<ge> RELOCATION_MIN_BYTES) positive_rows);
          negative_candidates = sort_key shrink_sort_key
            (filter (\<lambda>row. \<bar>fg_disk_bytes_delta row\<bar> \<ge> RELOCATION_MIN_BYTES) negative_rows)
      in snd (foldl (relocation_step fl negative_candidates) ([], []) positive_candidates))"

definition is_relocation_subtree :: "fast_growth_row \<Rightarrow> relocation_suspicion list \<Rightarrow> bool" where
  "is_relocation_subtree row suspicions \<longleftrightarrow>
     list_ex (\<lambda>suspicion.
       let relocated_root = fg_path (rl_positive suspicion) in
       same_snapshot_scope row (rl_positive suspicion)
       \<and> (fg_path row = relocated_root \<or> startswith (fg_path row) (rstrip_char slash relocated_root @ root_dir))) suspicions"

subsection \<open>Bursts\<close>

record burst_metrics =
  bm_ratio :: "real option"
  bm_largest_growth_interval_bytes :: int
  bm_largest_growth_interval_baseline :: "trend_sample option"
  bm_largest_growth_interval_current :: "trend_sample option"
  bm_sample_count :: int
  bm_shape :: string

definition pairwise :: "'a list \<Rightarrow> ('a \<times> 'a) list" where
  "pairwise xs = zip xs (tl xs)"

definition sample_pair_disk_delta :: "(trend_sample \<times> trend_sample) option \<Rightarrow> int" where
  "sample_pair_disk_delta sample_pair =
     (case sample_pair of None \<Rightarrow> 0 | Some (baseline, current) \<Rightarrow> ts_disk_bytes current - ts_disk_bytes baseline)"

definition largest_growth_sample_pair :: "(trend_sample \<times> trend_sample) list \<Rightarrow> (trend_sample \<times> trend_sample) option" where
  "largest_growth_sample_pair sample_pairs =
     max_by (\<lambda>pair. (sample_pair_disk_delta (Some pair), ts_finished_at (snd pair), ts_snapshot_id (snd pair)))
       (filter (\<lambda>pair. sample_pair_disk_delta (Some pair) > 0) sample_pairs)"

definition median_int :: "float_ops \<Rightarrow> int list \<Rightarrow> int" where
  "median_int fl values =
     (let midpoint = length values div 2
      in if length values mod 2 = 1 then values ! midpoint
         else py_round (true_div fl (values ! (midpoint - 1) + values ! midpoint) 2))"

definition burst_ratio :: "float_ops \<Rightarrow> int list \<Rightarrow> real option" where
  "burst_ratio fl positive_deltas =
     (if positive_deltas = [] then None
      else if length positive_deltas = 1 then Some 1
      else
        (let ordered = sort positive_deltas;
             baseline = median_int fl (butlast ordered)
         in if baseline \<le> 0 then None else Some (py_round2 fl (true_div fl (last ordered) baseline))))"

definition burst_metrics_for_trend :: "float_ops \<Rightarrow> path_trend \<Rightarrow> burst_metrics" where
  "burst_metrics_for_trend fl trend =
     (let sample_pairs = pairwise (tm_samples (pt_metrics trend));
          deltas = map (sample_pair_disk_delta \<circ> Some) sample_pairs;
          largest_growth_pair = largest_growth_sample_pair sample_pairs
      in \<lparr> bm_ratio = burst_ratio fl (filter (\<lambda>delta. delta > 0) deltas),
           bm_largest_growth_interval_bytes = sample_pair_disk_delta largest_growth_pair,
           bm_largest_growth_interval_baseline = map_option fst largest_growth_pair,
           bm_largest_growth_interval_current = map_option snd largest_growth_pair,
           bm_sample_count = tm_sample_count (pt_metrics trend), bm_shape = shape_value (tm_shape (pt_metrics trend)) \<rparr>)"

type_synonym burst_by_path = "(trend_key \<times> burst_metrics) list"

definition fast_trend_key :: "fast_growth_row \<Rightarrow> trend_key" where
  "fast_trend_key row = (fg_root_path row, fg_path row)"

definition compact_burst_metrics_by_path ::
    "float_ops \<Rightarrow> db \<Rightarrow> string \<Rightarrow> fast_growth_row list \<Rightarrow> report_error + burst_by_path" where
  "compact_burst_metrics_by_path fl d since rows =
     (if rows = [] then Inr []
      else map_sum id (\<lambda>trends. dict_of (map (\<lambda>trend. (trend_key_of trend, burst_metrics_for_trend fl trend)) trends))
             (query_path_trends_for_paths fl d since (map fast_trend_key rows)))"

definition burst_anomaly_sort_key ::
    "burst_by_path \<Rightarrow> fast_growth_row \<Rightarrow> int \<times> real \<times> int \<times> int \<times> int \<times> int \<times> bytes" where
  "burst_anomaly_sort_key bursts row =
     (case map_of bursts (fast_trend_key row) of
        None \<Rightarrow> (1, 0, 0, - fg_disk_bytes_delta row, - fg_apparent_bytes_delta row, fg_depth row, fg_path row)
      | Some burst \<Rightarrow>
          (if bm_largest_growth_interval_bytes burst \<ge> investigate_material_burst_mib * mib then 0 else 1,
           - (case bm_ratio burst of None \<Rightarrow> 0 | Some r \<Rightarrow> r), - bm_largest_growth_interval_bytes burst,
           - fg_disk_bytes_delta row, - fg_apparent_bytes_delta row, fg_depth row, fg_path row))"

subsection \<open>The investigation\<close>

record investigation =
  in_pairs :: "snapshot_pair list"
  in_persistent :: "fast_growth_row list"
  in_burst_anomalies :: "fast_growth_row list"
  in_relocations :: "relocation_suspicion list"
  in_bursts :: burst_by_path
  in_df_index :: "df_index_diagnostic option"
  in_warnings :: "report_warning list"

definition rank_rows ::
    "float_ops \<Rightarrow> int \<Rightarrow> burst_by_path \<Rightarrow> fast_growth_row list \<Rightarrow> fast_growth_row list
     \<Rightarrow> fast_growth_row list \<times> fast_growth_row list \<times> relocation_suspicion list" where
  "rank_rows fl limit bursts rows shrink_rows =
     (let rows = remove_dominated_fast_ancestors fl rows;
          suspicions = relocation_suspicions fl rows shrink_rows;
          primary_rows = filter (\<lambda>row. \<not> is_relocation_subtree row suspicions) rows
      in (py_prefix limit (sort_key persistent_growth_sort_key primary_rows),
          py_prefix limit (sort_key (burst_anomaly_sort_key bursts) primary_rows), suspicions))"

definition build_fast_df_index :: "float_ops \<Rightarrow> db \<Rightarrow> int \<Rightarrow> df_index_providers \<Rightarrow> report_error + df_index_diagnostic option" where
  "build_fast_df_index fl d limit providers =
     (case build_df_index_diagnostic fl d ''latest'' limit providers of
        Inr diagnostic \<Rightarrow> Inr (Some diagnostic)
      | Inl (Report_error _ _) \<Rightarrow> Inr None
      | Inl e \<Rightarrow> Inl e)"

text \<open>The growth and the shrinkage of every pair; a failed query ends the investigation.\<close>

definition pair_rows ::
    "db \<Rightarrow> int \<Rightarrow> int \<Rightarrow> fast_growth_row list \<times> fast_growth_row list \<Rightarrow> snapshot_pair
     \<Rightarrow> report_error + fast_growth_row list \<times> fast_growth_row list" where
  "pair_rows d candidate_limit max_depth = (\<lambda>(rows, shrink_rows) pair.
     (case query_fast_growth_rows d pair candidate_limit max_depth of
        Inl e \<Rightarrow> Inl e
      | Inr growth \<Rightarrow>
          map_sum id (\<lambda>shrink. (rows @ growth, shrink_rows @ shrink)) (query_fast_shrink_rows d pair candidate_limit max_depth)))"

definition compact_investigation ::
    "float_ops \<Rightarrow> db \<Rightarrow> df_index_providers \<Rightarrow> string \<Rightarrow> int \<Rightarrow> int \<Rightarrow> report_error + investigation" where
  "compact_investigation fl d providers since limit max_depth =
     (case resolve_snapshot_pairs since d of
        Inl e \<Rightarrow> Inl e
      | Inr (pairs, pair_warnings) \<Rightarrow>
          (case fold_err (pair_rows d (limit * investigate_candidate_multiplier) max_depth) ([], []) pairs of
             Inl e \<Rightarrow> Inl e
           | Inr (rows, shrink_rows) \<Rightarrow>
               (case compact_burst_metrics_by_path fl d since rows of
                  Inl e \<Rightarrow> Inl e
                | Inr bursts \<Rightarrow>
                    (let (persistent, anomalies, suspicions) = rank_rows fl limit bursts rows shrink_rows in
                     map_sum id (\<lambda>df_index.
                       \<lparr> in_pairs = pairs, in_persistent = persistent, in_burst_anomalies = anomalies,
                         in_relocations = py_prefix limit suspicions, in_bursts = bursts, in_df_index = df_index,
                         in_warnings = dedupe_warnings pair_warnings \<rparr>)
                       (build_fast_df_index fl d 4 providers)))))"

subsection \<open>What the document says of them\<close>

record verdict =
  vd_status :: string
  vd_confidence :: string
  vd_summary :: string
  vd_top_path :: "bytes option"
  vd_top_persistent_path :: "bytes option"
  vd_top_burst_path :: "bytes option"

definition fast_verdict ::
    "float_ops \<Rightarrow> fast_growth_row list \<Rightarrow> fast_growth_row list \<Rightarrow> relocation_suspicion list \<Rightarrow> verdict" where
  "fast_verdict fl persistent burst_anomalies suspicions =
     (case persistent of
        [] \<Rightarrow>
          (case suspicions of
             top_relocation # _ \<Rightarrow>
               \<lparr> vd_status = ''relocation_suspicions_only'', vd_confidence = ''medium'',
                 vd_summary = ''Only same-parent relocation suspects remained after downranking; the largest is ''
                   @ fg_path (rl_positive top_relocation) @ ''.'',
                 vd_top_path = None, vd_top_persistent_path = None, vd_top_burst_path = None \<rparr>
           | [] \<Rightarrow>
               \<lparr> vd_status = ''no_depth_limited_growth'', vd_confidence = ''low'',
                 vd_summary = ''No positive depth-limited contributors were found for the selected window.'',
                 vd_top_path = None, vd_top_persistent_path = None, vd_top_burst_path = None \<rparr>)
      | first # _ \<Rightarrow>
          \<lparr> vd_status = ''depth_limited_growth_found'', vd_confidence = ''medium'',
            vd_summary = ''Start with persistent growth at '' @ fg_path first @ ''; it has the largest net disk_delta_mib=''
              @ int_str (bytes_to_mib fl (fg_disk_bytes_delta first)) @ ''.'',
            vd_top_path = Some (fg_path first), vd_top_persistent_path = Some (fg_path first),
            vd_top_burst_path = (case burst_anomalies of [] \<Rightarrow> None | top_burst # _ \<Rightarrow> Some (fg_path top_burst)) \<rparr>)"

definition window_growth_percent :: "float_ops \<Rightarrow> int option \<Rightarrow> int option \<Rightarrow> int option" where
  "window_growth_percent fl start_bytes end_bytes =
     (case (start_bytes, end_bytes) of
        (Some s, Some e) \<Rightarrow> if s \<le> 0 then None else Some (py_round (fl_round fl (true_div fl (e - s) s * 100)))
      | _ \<Rightarrow> None)"

definition burst_interval :: "burst_metrics \<Rightarrow> (trend_sample \<times> trend_sample) option" where
  "burst_interval burst =
     (case (bm_largest_growth_interval_baseline burst, bm_largest_growth_interval_current burst) of
        (Some baseline, Some current) \<Rightarrow> Some (baseline, current)
      | _ \<Rightarrow> None)"

record burst_payload =
  bp_ratio :: "real option"
  bp_largest_growth_interval_mib :: int
  bp_largest_growth_interval :: "(int \<times> (int \<times> instant) \<times> (int \<times> instant)) option"
  bp_window_growth_percent :: "int option"
  bp_sample_count :: int
  bp_shape :: "string option"

definition largest_growth_interval_payload :: "float_ops \<Rightarrow> burst_metrics \<Rightarrow> (int \<times> (int \<times> instant) \<times> (int \<times> instant)) option" where
  "largest_growth_interval_payload fl burst =
     map_option (\<lambda>(baseline, current).
       (bytes_to_mib fl (bm_largest_growth_interval_bytes burst), (ts_snapshot_id baseline, ts_finished_at baseline),
        (ts_snapshot_id current, ts_finished_at current))) (burst_interval burst)"

definition burst_payload_of :: "float_ops \<Rightarrow> fast_growth_row \<Rightarrow> burst_metrics option \<Rightarrow> burst_payload" where
  "burst_payload_of fl row burst =
     (case burst of
        None \<Rightarrow> \<lparr> bp_ratio = None, bp_largest_growth_interval_mib = 0, bp_largest_growth_interval = None,
                  bp_window_growth_percent = None, bp_sample_count = 0, bp_shape = None \<rparr>
      | Some b \<Rightarrow> \<lparr> bp_ratio = bm_ratio b, bp_largest_growth_interval_mib = bytes_to_mib fl (bm_largest_growth_interval_bytes b),
                  bp_largest_growth_interval = largest_growth_interval_payload fl b,
                  bp_window_growth_percent = window_growth_percent fl (Some (fg_previous_disk_bytes row)) (Some (fg_current_disk_bytes row)),
                  bp_sample_count = bm_sample_count b, bp_shape = Some (bm_shape b) \<rparr>)"

subsection \<open>Next actions\<close>

record next_action =
  na_kind :: string
  na_argv :: "string list"
  na_path :: "bytes option"
  na_snapshot_pair :: "(int \<times> int) option"
  na_burst_interval :: "(int \<times> (int \<times> instant) \<times> (int \<times> instant)) option"
  na_reason :: string

definition explain_next_action_argv :: "string \<Rightarrow> string \<Rightarrow> string list" where
  "explain_next_action_argv path since =
     [''explain-path'', path] @ (if since \<noteq> investigate_since then [''--since'', since] else [])"

definition burst_explain_next_action_argv :: "string \<Rightarrow> burst_metrics option \<Rightarrow> string \<Rightarrow> string list" where
  "burst_explain_next_action_argv path burst since =
     (case Option.bind burst burst_interval of
        None \<Rightarrow> explain_next_action_argv path since
      | Some (baseline, current) \<Rightarrow>
          [''explain-path'', path, ''--from-snapshot'', int_str (ts_snapshot_id baseline), ''--to-snapshot'',
           int_str (ts_snapshot_id current)])"

definition next_action_snapshot_pair :: "burst_metrics option \<Rightarrow> (int \<times> int) option" where
  "next_action_snapshot_pair burst =
     map_option (\<lambda>(baseline, current). (ts_snapshot_id baseline, ts_snapshot_id current)) (Option.bind burst burst_interval)"

definition plain_action :: "string \<Rightarrow> string list \<Rightarrow> bytes option \<Rightarrow> string \<Rightarrow> next_action" where
  "plain_action kind argv path reason =
     \<lparr> na_kind = kind, na_argv = argv, na_path = path, na_snapshot_pair = None, na_burst_interval = None, na_reason = reason \<rparr>"

definition fast_next_actions ::
    "float_ops \<Rightarrow> fast_growth_row list \<Rightarrow> fast_growth_row list \<Rightarrow> burst_by_path \<Rightarrow> string \<Rightarrow> next_action list" where
  "fast_next_actions fl rows burst_anomalies bursts since =
     [plain_action ''df_vs_index'' [''df-vs-index''] None ''Verify that indexed usage explains current filesystem pressure.'',
      plain_action ''deleted_open_files'' [''deleted-open-files''] None
        ''Check whether deleted-but-open files explain any current df/index gap.'']
     @ map (\<lambda>row. plain_action ''explain_path'' (explain_next_action_argv (fg_path row) since) (Some (fg_path row))
              ''Drill into a top persistent net-growth contributor.'') (py_prefix 3 rows)
     @ (case burst_anomalies of
          [] \<Rightarrow> []
        | row # _ \<Rightarrow>
            (let burst = map_of bursts (fast_trend_key row)
             in [\<lparr> na_kind = ''explain_path'', na_argv = burst_explain_next_action_argv (fg_path row) burst since,
                   na_path = Some (fg_path row), na_snapshot_pair = next_action_snapshot_pair burst,
                   na_burst_interval = Option.bind burst (largest_growth_interval_payload fl),
                   na_reason = ''Drill into the exact snapshot interval for a top burst anomaly.'' \<rparr>]))"

end
