(* ===== verification/Path_History.thy ===== *)
theory Path_History
  imports Diff_Query
begin

text \<open>
  The history of one path across snapshots and moves (\<open>reporting/path_history.py\<close>): the observations of the
  requested path and of its present symlink target, the choice of two of them, the rows below the path at each
  end, and their merge by the part of the path below it.  An \<open>assert\<close> cannot fail here and is left out.
\<close>

subsection \<open>Observations\<close>

definition history_row_order :: "bytes \<Rightarrow> snapshot_row \<times> bytes \<Rightarrow> string \<times> int \<times> bool" where
  "history_row_order current_path = (\<lambda>(s, p).
     (case sn_finished_at s of None \<Rightarrow> [] | Some t \<Rightarrow> t, sn_id s, p = current_path))"

definition observed_paths :: "db \<Rightarrow> bytes \<Rightarrow> bytes \<Rightarrow> (int \<times> bytes) list" where
  "observed_paths d requested_path current_path = filter (\<lambda>(_, p). p \<in> {requested_path, current_path}) (db_paths d)"

definition complete_observations :: "db \<Rightarrow> int \<times> bytes \<Rightarrow> (snapshot_row \<times> bytes) list" where
  "complete_observations d = (\<lambda>(pid, p).
     concat (map (\<lambda>iv. map (\<lambda>s. (s, p))
         (filter (\<lambda>s. sn_status s = ''complete'' \<and> sn_finished_at s \<noteq> None \<and> interval_holds (sn_root_path s) (sn_id s) iv)
            (db_snapshots d)))
       (filter (\<lambda>iv. iv_path_id iv = pid \<and> ag_error (iv_state iv) = None) (db_intervals d))))"

definition partial_observations :: "db \<Rightarrow> int \<times> bytes \<Rightarrow> (snapshot_row \<times> bytes) list" where
  "partial_observations d = (\<lambda>(pid, p).
     concat (map (\<lambda>dg. map (\<lambda>s. (s, p))
         (filter (\<lambda>s. sn_id s = dg_snapshot_id dg \<and> sn_status s = ''partial'' \<and> sn_finished_at s \<noteq> None) (db_snapshots d)))
       (filter (\<lambda>dg. dg_path_id dg = pid \<and> ag_error (dg_state dg) = None) (db_diagnostics d))))"

definition history_rows :: "db \<Rightarrow> bytes \<Rightarrow> bytes \<Rightarrow> (snapshot_row \<times> bytes) list" where
  "history_rows d requested_path current_path =
     (let ps = observed_paths d requested_path current_path
      in sort_key (history_row_order current_path)
           (concat (map (complete_observations d) ps) @ concat (map (partial_observations d) ps)))"

type_synonym observation = "snapshot_record \<times> bytes"

definition history_observations :: "db \<Rightarrow> bytes \<Rightarrow> bytes \<Rightarrow> report_error + observation list" where
  "history_observations d requested_path current_path =
     map_err (\<lambda>(s, p). map_sum id (\<lambda>r. (r, p)) (pair_record s)) (history_rows d requested_path current_path)"

definition has_path_history :: "db \<Rightarrow> bytes \<Rightarrow> report_error + bool" where
  "has_path_history d path = map_sum id (\<lambda>obs. obs \<noteq> []) (history_observations d path path)"

subsection \<open>The pair\<close>

definition observed_at :: "observation \<Rightarrow> report_error + instant" where
  "observed_at item = map_sum (\<lambda>_. Uncaught ''ValueError'') id (parse_finished_at_utc (sr_finished_at (fst item)))"

definition history_domain :: "db \<Rightarrow> snapshot_record \<Rightarrow> bytes \<Rightarrow> report_error + group_label option" where
  "history_domain d snapshot path =
     map_sum id fst (resolve_group_for_path path (sr_root_path snapshot) ''storage-domain'' (load_snapshot_mounts d (sr_id snapshot)))"

text \<open>The observations before the chosen one, with their times.\<close>

definition earlier_observations :: "instant \<Rightarrow> int \<Rightarrow> observation list \<Rightarrow> report_error + (observation \<times> instant) list" where
  "earlier_observations current_time current_id observations =
     map_sum id (filter (\<lambda>(item, t). (t, sr_id (fst item)) < (current_time, current_id)))
       (map_err (\<lambda>item. map_sum id (\<lambda>t. (item, t)) (observed_at item)) observations)"

definition history_baseline :: "instant \<Rightarrow> (observation \<times> instant) list \<Rightarrow> observation \<times> bool" where
  "history_baseline cutoff earlier =
     (let before_cutoff = filter (\<lambda>(_, t). t \<le> cutoff) earlier
      in if before_cutoff \<noteq> [] then (fst (last before_cutoff), True) else (fst (hd earlier), False))"

definition history_pair ::
    "snapshot_record \<Rightarrow> bytes \<Rightarrow> snapshot_record \<Rightarrow> bytes \<Rightarrow> bytes \<Rightarrow> group_label option \<Rightarrow> group_label option \<Rightarrow> snapshot_pair" where
  "history_pair baseline baseline_path current current_path requested_path baseline_domain current_domain =
     \<lparr> sp_root_path = sr_root_path current, sp_baseline = baseline, sp_current = current, sp_warning_codes = [],
       sp_baseline_path = Some baseline_path, sp_current_path = Some current_path, sp_requested_path = Some requested_path,
       sp_baseline_storage_domain = baseline_domain, sp_current_storage_domain = current_domain \<rparr>"

definition baseline_unavailable_warning :: "bytes \<Rightarrow> report_warning" where
  "baseline_unavailable_warning requested_path = warn ''baseline_before_since_unavailable''
     ''No path observation at the requested cutoff; using the oldest earlier observation'' (Some requested_path)"

definition select_history_pair :: "db \<Rightarrow> bytes \<Rightarrow> bytes \<Rightarrow> string \<Rightarrow> report_error + snapshot_pair \<times> report_warning list" where
  "select_history_pair d requested_path current_path since =
     (case history_observations d requested_path current_path of Inl e \<Rightarrow> Inl e | Inr observations \<Rightarrow>
        (let current_candidates = filter (\<lambda>item. snd item = current_path) observations in
         if current_candidates = []
         then Inl (Report_error ''path_not_indexed''
                ''The symlink target has no usable indexed observation; check watchdirs stats --json'')
         else
           (let current = fst (last current_candidates) in
            case observed_at (last current_candidates) of Inl e \<Rightarrow> Inl e | Inr current_time \<Rightarrow>
            (case parse_since since of Inl e \<Rightarrow> Inl e | Inr since_delta \<Rightarrow>
             if current_time - since_delta < min_instant then Inl (Uncaught ''OverflowError'')
             else
             (case earlier_observations current_time (sr_id current) observations of Inl e \<Rightarrow> Inl e | Inr earlier \<Rightarrow>
              if earlier = []
              then Inl (Report_error ''insufficient_same_root_snapshots''
                     ''Path history needs an earlier usable observation; check watchdirs stats --json'')
              else
                (let ((baseline, baseline_path), in_time) = history_baseline (current_time - since_delta) earlier in
                 case history_domain d baseline baseline_path of Inl e \<Rightarrow> Inl e | Inr baseline_domain \<Rightarrow>
                 (case history_domain d current current_path of Inl e \<Rightarrow> Inl e | Inr current_domain \<Rightarrow>
                  Inr (history_pair baseline baseline_path current current_path requested_path baseline_domain current_domain,
                       if in_time then [] else [baseline_unavailable_warning requested_path]))))))))"

subsection \<open>The rows at each end\<close>

type_synonym endpoint = "(bytes \<times> diff_row) list"

definition endpoint_rows ::
    "db \<Rightarrow> snapshot_record \<Rightarrow> bytes \<Rightarrow> string \<Rightarrow> report_error + endpoint \<times> report_warning list" where
  "endpoint_rows d snapshot path group_by =
     (case query_explain_path_rows d (pair_of (sr_root_path snapshot) snapshot snapshot []) path group_by of
        Inl e \<Rightarrow> Inl e
      | Inr (rows, effective_path, warnings) \<Rightarrow>
          if effective_path \<noteq> path
          then Inl (Report_error ''path_history_detail_unavailable''
                 ''Historical detail is folded into an ancestor; compare the indexed ancestor instead'')
          else Inr (dict_of (map (\<lambda>row. (drop (length path) (dr_path row), row)) rows), warnings))"

subsection \<open>Merging\<close>

text \<open>A figure of a row that may be missing.\<close>

definition metric_of :: "(diff_row \<Rightarrow> int) \<Rightarrow> diff_row option \<Rightarrow> int" where
  "metric_of f row = (case row of None \<Rightarrow> 0 | Some r \<Rightarrow> f r)"

definition history_classification :: "bytes \<Rightarrow> diff_row option \<Rightarrow> diff_row option \<Rightarrow> endpoint \<Rightarrow> endpoint \<Rightarrow> string" where
  "history_classification below old new previous latest =
     (let missing_side = (if old = None then previous else latest) in
      case (old, new) of
        (Some o', Some n) \<Rightarrow>
          (let delta = dr_current_apparent_bytes n - dr_current_apparent_bytes o'
           in if delta = 0 then ''unchanged'' else if 0 < delta then ''grown'' else ''shrunk'')
      | _ \<Rightarrow>
          if list_ex (\<lambda>(before, row). dr_collapsed row \<and> startswith below (before @ root_dir)) missing_side
          then ''hidden_by_collapse''
          else if old = None then ''created'' else ''deleted'')"

text \<open>The template with the figures of both ends.\<close>

definition history_changes :: "diff_row option \<Rightarrow> diff_row option \<Rightarrow> diff_row \<Rightarrow> diff_row" where
  "history_changes old new template =
     template\<lparr>
       dr_previous_apparent_bytes := metric_of dr_current_apparent_bytes old,
       dr_current_apparent_bytes := metric_of dr_current_apparent_bytes new,
       dr_apparent_bytes_delta := metric_of dr_current_apparent_bytes new - metric_of dr_current_apparent_bytes old,
       dr_previous_disk_bytes := metric_of dr_current_disk_bytes old,
       dr_current_disk_bytes := metric_of dr_current_disk_bytes new,
       dr_disk_bytes_delta := metric_of dr_current_disk_bytes new - metric_of dr_current_disk_bytes old,
       dr_previous_hardlink_file_count := metric_of dr_current_hardlink_file_count old,
       dr_current_hardlink_file_count := metric_of dr_current_hardlink_file_count new,
       dr_hardlink_file_count_delta := metric_of dr_current_hardlink_file_count new - metric_of dr_current_hardlink_file_count old,
       dr_previous_hardlink_duplicate_count := metric_of dr_current_hardlink_duplicate_count old,
       dr_current_hardlink_duplicate_count := metric_of dr_current_hardlink_duplicate_count new,
       dr_hardlink_duplicate_count_delta :=
         metric_of dr_current_hardlink_duplicate_count new - metric_of dr_current_hardlink_duplicate_count old,
       dr_previous_hardlink_duplicate_disk_bytes := metric_of dr_current_hardlink_duplicate_disk_bytes old,
       dr_current_hardlink_duplicate_disk_bytes := metric_of dr_current_hardlink_duplicate_disk_bytes new,
       dr_hardlink_duplicate_disk_bytes_delta :=
         metric_of dr_current_hardlink_duplicate_disk_bytes new - metric_of dr_current_hardlink_duplicate_disk_bytes old,
       dr_previous_hardlink_first_seen_disk_bytes := metric_of dr_current_hardlink_first_seen_disk_bytes old,
       dr_current_hardlink_first_seen_disk_bytes := metric_of dr_current_hardlink_first_seen_disk_bytes new,
       dr_hardlink_first_seen_disk_bytes_delta :=
         metric_of dr_current_hardlink_first_seen_disk_bytes new - metric_of dr_current_hardlink_first_seen_disk_bytes old \<rparr>"

definition merged_row :: "snapshot_pair \<Rightarrow> endpoint \<Rightarrow> endpoint \<Rightarrow> bytes \<Rightarrow> diff_row" where
  "merged_row pair previous latest below =
     (let old = map_of previous below; new = map_of latest below;
          template = the (if new \<noteq> None then new else old);
          requested = the (sp_requested_path pair);
          path = requested @ below;
          source_prefix = (if new \<noteq> None then sp_current_path pair else sp_baseline_path pair);
          top_child = (case (dr_top_child_path template, source_prefix) of
                         (Some child, Some source) \<Rightarrow> Some (requested @ drop (length source) child)
                       | (child, _) \<Rightarrow> child)
      in (history_changes old new template)\<lparr>
           dr_root_path := sp_root_path pair,
           dr_baseline_snapshot_id := sr_id (sp_baseline pair),
           dr_current_snapshot_id := sr_id (sp_current pair),
           dr_path := path,
           dr_parent_path := (if below \<noteq> [] then Some (pathlib_parent path) else None),
           dr_top_child_path := top_child,
           dr_depth := int (count_list below slash),
           dr_classification := history_classification below old new previous latest \<rparr>)"

definition merge_endpoint_rows :: "snapshot_pair \<Rightarrow> endpoint \<Rightarrow> endpoint \<Rightarrow> diff_row list" where
  "merge_endpoint_rows pair previous latest =
     map (merged_row pair previous latest) (sort (remdups (map fst previous @ map fst latest)))"

subsection \<open>The report\<close>

definition history_warnings :: "snapshot_pair \<Rightarrow> bytes \<Rightarrow> bytes \<Rightarrow> bytes \<Rightarrow> report_warning list" where
  "history_warnings pair requested_path baseline_path current_path =
     (if sr_status (sp_baseline pair) = PARTIAL \<or> sr_status (sp_current pair) = PARTIAL
      then [warn ''partial_snapshot''
              ''Path history includes a partial snapshot; missing detail may be unavailable rather than deleted'' (Some requested_path)]
      else [])
     @ (if baseline_path \<noteq> current_path
        then [warn ''path_relocated''
                (''Comparing the requested path'' @ [CHR 0x27] @ ''s stored history with today'' @ [CHR 0x27]
                 @ ''s symlink target by relative pathname; individual file identity is not inferred'') (Some requested_path)]
        else [])
     @ (case (sp_baseline_storage_domain pair, sp_current_storage_domain pair) of
          (Some b, Some c) \<Rightarrow>
            if gl_major_minor b \<noteq> None \<and> gl_major_minor c \<noteq> None \<and> gl_key b \<noteq> gl_key c
            then [warn ''storage_domain_changed''
                    (''Allocated-byte differences across the move include allocation, compression and hardlink/reflink effects; ''
                     @ ''they do not measure physical disk growth or reclaimed space'') (Some requested_path)]
            else []
        | _ \<Rightarrow> [])"

definition query_path_history ::
    "db \<Rightarrow> bytes \<Rightarrow> bytes \<Rightarrow> string \<Rightarrow> string \<Rightarrow> report_error + snapshot_pair \<times> diff_row list \<times> report_warning list" where
  "query_path_history d requested_path current_path since group_by =
     (case select_history_pair d requested_path current_path since of Inl e \<Rightarrow> Inl e | Inr (pair, warnings) \<Rightarrow>
        (let baseline_path = the (sp_baseline_path pair) in
         case endpoint_rows d (sp_baseline pair) baseline_path group_by of Inl e \<Rightarrow> Inl e | Inr (previous, previous_warnings) \<Rightarrow>
         (case endpoint_rows d (sp_current pair) current_path group_by of Inl e \<Rightarrow> Inl e | Inr (latest, current_warnings) \<Rightarrow>
          (let ws = warnings @ previous_warnings @ current_warnings @ history_warnings pair requested_path baseline_path current_path;
               pair' = pair\<lparr> sp_warning_codes := map rw_code ws \<rparr>
           in Inr (pair', merge_endpoint_rows pair' previous latest, ws)))))"

end
