(* ===== verification/Explain_Path.thy ===== *)
theory Explain_Path
  imports Path_History Frontier Pairs
begin

text \<open>
  The explain-path command of \<open>cli.py\<close>: which pair of snapshots, or which history of a moved path, answers for a
  path given on the command line, and the breakdown of its growth.  Home directory, working directory and the
  resolution of symbolic links are arguments.
\<close>

definition max_explain_depth :: int where "max_explain_depth = 20"

record cli_paths =
  cp_expanduser :: "pathname \<Rightarrow> pathname option"
  cp_cwd :: pathname
  cp_resolve :: "pathname \<Rightarrow> pathname"

record explain_args =
  ex_path :: string
  ex_since :: string
  ex_limit :: "string option"
  ex_depth :: "string option"
  ex_group_by :: string
  ex_from_snapshot :: "string option"
  ex_to_snapshot :: "string option"

definition parse_explain_depth :: "string option \<Rightarrow> report_error + int" where
  "parse_explain_depth raw_value =
     (case raw_value of
        None \<Rightarrow> Inr 1
      | Some raw \<Rightarrow>
          (case parse_int raw of
             None \<Rightarrow> Inl (Report_error ''invalid_depth'' (''depth must be an integer, got '' @ py_repr raw))
           | Some depth \<Rightarrow>
               if depth < 0 \<or> depth > max_explain_depth
               then Inl (Report_error ''invalid_depth''
                      (''depth must be between 0 and '' @ int_str max_explain_depth @ '', got '' @ int_str depth))
               else Inr depth))"

definition parse_snapshot_id :: "string \<Rightarrow> string \<Rightarrow> report_error + int" where
  "parse_snapshot_id raw_value argument =
     (let bad = Report_error ''invalid_snapshot_id'' (argument @ '' must be a positive integer snapshot id, got '' @ py_repr raw_value) in
      case parse_int raw_value of
        None \<Rightarrow> Inl bad
      | Some snapshot_id \<Rightarrow> if snapshot_id \<le> 0 then Inl bad else Inr snapshot_id)"

text \<open>\<open>Path(raw).expanduser()\<close>, made absolute.\<close>

definition absolute_path :: "cli_paths \<Rightarrow> string \<Rightarrow> report_error + pathname" where
  "absolute_path env raw_path =
     (case cp_expanduser env (pathlib_path raw_path) of
        None \<Rightarrow> Inl (Uncaught ''RuntimeError'')
      | Some expanded \<Rightarrow>
          Inr (if startswith expanded ''/'' then expanded else pathlib_path (cp_cwd env @ ''/'' @ expanded)))"

definition normalize_cli_path_bytes :: "cli_paths \<Rightarrow> string \<Rightarrow> report_error + bytes" where
  "normalize_cli_path_bytes env raw_path = map_sum id (cp_resolve env) (absolute_path env raw_path)"

definition resolve_explain_path_pairs ::
    "db \<Rightarrow> explain_args \<Rightarrow> report_error + snapshot_pair list \<times> report_warning list" where
  "resolve_explain_path_pairs d args =
     (case (ex_from_snapshot args, ex_to_snapshot args) of
        (None, None) \<Rightarrow> resolve_snapshot_pairs (ex_since args) d
      | (Some from_snapshot, Some to_snapshot) \<Rightarrow>
          (case parse_snapshot_id from_snapshot ''--from-snapshot'' of
             Inl e \<Rightarrow> Inl e
           | Inr baseline_id \<Rightarrow>
               (case parse_snapshot_id to_snapshot ''--to-snapshot'' of
                  Inl e \<Rightarrow> Inl e
                | Inr current_id \<Rightarrow>
                    map_sum id (\<lambda>(pair, warnings). ([pair], warnings)) (resolve_snapshot_pair_by_ids d baseline_id current_id)))
      | _ \<Rightarrow> Inl (Report_error ''invalid_snapshot_pair'' ''--from-snapshot and --to-snapshot must be provided together''))"

text \<open>\<open>len(path.parts)\<close>: the anchor is a part of an absolute path.\<close>

definition part_count :: "pathname \<Rightarrow> nat" where
  "part_count p = (if path_anchor p = [] then 0 else 1) + length (path_parts p)"

definition hides_target :: "bytes \<Rightarrow> snapshot_pair \<Rightarrow> report_warning \<Rightarrow> bool" where
  "hides_target target_path selected warning \<longleftrightarrow>
     rw_code warning = ''insufficient_same_root_snapshots''
     \<and> (case rw_path warning of
          None \<Rightarrow> False
        | Some path \<Rightarrow> matches_path_prefix target_path path \<and> length path > length (sp_root_path selected))"

definition select_pair_for_target ::
    "snapshot_pair list \<Rightarrow> bytes \<Rightarrow> report_warning list \<Rightarrow> report_error + snapshot_pair" where
  "select_pair_for_target pairs target_path warnings =
     (case max_by (part_count \<circ> sp_root_path) (filter (\<lambda>pair. matches_path_prefix target_path (sp_root_path pair)) pairs) of
        None \<Rightarrow> Inl (Report_error ''path_outside_roots'' (''path '' @ py_repr target_path @ '' is outside all selected roots''))
      | Some selected \<Rightarrow>
          if list_ex (hides_target target_path selected) warnings
          then Inl (Report_error ''insufficient_same_root_snapshots''
                 ''The mounted filesystem has a new history; growth comparisons need two usable snapshots. Check watchdirs stats --json and the collection service state'')
          else Inr selected)"

definition pair_scoped_warnings :: "report_warning list \<Rightarrow> snapshot_pair \<Rightarrow> report_warning list" where
  "pair_scoped_warnings warnings pair = filter (\<lambda>warning. rw_path warning = Some (sp_root_path pair)) warnings"

text \<open>The paths through the pairs and through the history of the path.\<close>

definition explain_through_pairs ::
    "db \<Rightarrow> explain_args \<Rightarrow> bytes \<Rightarrow> report_error + snapshot_pair \<times> diff_row list \<times> bytes \<times> report_warning list" where
  "explain_through_pairs d args target_path =
     (case resolve_explain_path_pairs d args of
        Inl e \<Rightarrow> Inl e
      | Inr (pairs, pair_warnings) \<Rightarrow>
          (case select_pair_for_target pairs target_path pair_warnings of
             Inl e \<Rightarrow> Inl e
           | Inr selected_pair \<Rightarrow>
               map_sum id (\<lambda>(rows, effective_path, query_warnings).
                   (selected_pair, rows, effective_path,
                    dedupe_warnings (pair_scoped_warnings pair_warnings selected_pair @ query_warnings)))
                 (query_explain_path_rows d selected_pair target_path (ex_group_by args))))"

definition query_explained_path ::
    "cli_paths \<Rightarrow> db \<Rightarrow> explain_args \<Rightarrow> report_error + snapshot_pair \<times> diff_row list \<times> bytes \<times> report_warning list" where
  "query_explained_path env d args =
     (case absolute_path env (ex_path args) of
        Inl e \<Rightarrow> Inl e
      | Inr requested_path \<Rightarrow>
          (case normalize_cli_path_bytes env (ex_path args) of
             Inl e \<Rightarrow> Inl e
           | Inr target_path \<Rightarrow>
               (case (if requested_path \<noteq> target_path \<and> ex_from_snapshot args = None \<and> ex_to_snapshot args = None
                      then has_path_history d requested_path else Inr False) of
                  Inl e \<Rightarrow> Inl e
                | Inr True \<Rightarrow>
                    map_sum id (\<lambda>(pair, rows, warnings). (pair, rows, requested_path, warnings))
                      (query_path_history d requested_path target_path (ex_since args) (ex_group_by args))
                | Inr False \<Rightarrow> explain_through_pairs d args target_path)))"

record explained =
  xp_limit :: int
  xp_depth :: int
  xp_pair :: snapshot_pair
  xp_result :: explain_path_result
  xp_warnings :: "report_warning list"

definition run_explain_path :: "cli_paths \<Rightarrow> db \<Rightarrow> explain_args \<Rightarrow> report_error + explained" where
  "run_explain_path env d args =
     (case parse_report_limit (ex_limit args) of
        Inl e \<Rightarrow> Inl e
      | Inr limit \<Rightarrow>
          (case parse_explain_depth (ex_depth args) of
             Inl e \<Rightarrow> Inl e
           | Inr depth \<Rightarrow>
               (case query_explained_path env d args of
                  Inl e \<Rightarrow> Inl e
                | Inr (selected_pair, rows, effective_path, warnings) \<Rightarrow>
                    (case explain_path_breakdown rows effective_path limit depth of
                       None \<Rightarrow> Inl (Uncaught ''StopIteration'')
                     | Some result \<Rightarrow>
                         Inr \<lparr> xp_limit = limit, xp_depth = depth, xp_pair = selected_pair, xp_result = result, xp_warnings = warnings \<rparr>))))"

end
