(* ===== verification/Text_Escape.thy ===== *)
theory Text_Escape
  imports Investigate Explain_Path Query_Service
begin

text \<open>
  Text fields of the reports.  A Python \<open>str\<close> stands for its code points here: \<open>fsdecode\<close> is UTF-8 with the
  error handler \<open>surrogateescape\<close>, which turns a byte that belongs to no character into a lone surrogate, and
  \<open>unicode_escape\<close> is the codec of \<open>_escape_text_field\<close> in \<open>reporting/render.py\<close>.
\<close>

subsection \<open>UTF-8 with surrogate escapes\<close>

definition byte :: "char \<Rightarrow> nat" where "byte c = of_char c"

definition continuation :: "nat \<Rightarrow> bool" where
  "continuation b \<longleftrightarrow> 128 \<le> b \<and> b < 192"

text \<open>The character at the front of a byte string: its code point and the number of its bytes.\<close>

definition utf8_char :: "nat list \<Rightarrow> (nat \<times> nat) option" where
  "utf8_char bs =
     (case bs of
        [] \<Rightarrow> None
      | a # rest \<Rightarrow>
          if a < 128 then Some (a, 1)
          else (case rest of
             [] \<Rightarrow> None
           | b # rest \<Rightarrow>
               if \<not> continuation b then None
               else if 194 \<le> a \<and> a < 224 then Some ((a - 192) * 64 + (b - 128), 2)
               else (case rest of
                  [] \<Rightarrow> None
                | c # rest \<Rightarrow>
                    if \<not> continuation c then None
                    else if 224 \<le> a \<and> a < 240 \<and> (a = 224 \<longrightarrow> 160 \<le> b) \<and> (a = 237 \<longrightarrow> b < 160)
                    then Some ((a - 224) * 4096 + (b - 128) * 64 + (c - 128), 3)
                    else (case rest of
                       [] \<Rightarrow> None
                     | d # _ \<Rightarrow>
                         if continuation d \<and> 240 \<le> a \<and> a < 245 \<and> (a = 240 \<longrightarrow> 144 \<le> b) \<and> (a = 244 \<longrightarrow> b < 144)
                         then Some ((a - 240) * 262144 + (b - 128) * 4096 + (c - 128) * 64 + (d - 128), 4)
                         else None))))"

lemma utf8_char_length: "utf8_char bs = Some (cp, n) \<Longrightarrow> 0 < n \<and> n \<le> length bs"
  by (auto simp: utf8_char_def split: list.splits if_splits)

function fsdecode :: "nat list \<Rightarrow> nat list" where
  "fsdecode [] = []"
| "fsdecode (b # bs) =
     (case utf8_char (b # bs) of
        Some (cp, n) \<Rightarrow> cp # fsdecode (drop n (b # bs))
      | None \<Rightarrow> (56320 + b) # fsdecode bs)"
  by pat_completeness auto
termination
  by (relation "measure length") (auto dest!: utf8_char_length)

definition utf8_bytes :: "nat \<Rightarrow> nat list" where
  "utf8_bytes cp =
     (if cp < 128 then [cp]
      else if cp < 2048 then [192 + cp div 64, 128 + cp mod 64]
      else if 56320 + 128 \<le> cp \<and> cp < 56320 + 256 then [cp - 56320]
      else if cp < 65536 then [224 + cp div 4096, 128 + cp div 64 mod 64, 128 + cp mod 64]
      else [240 + cp div 262144, 128 + cp div 4096 mod 64, 128 + cp div 64 mod 64, 128 + cp mod 64])"

definition fsencode :: "nat list \<Rightarrow> nat list" where
  "fsencode cps = concat (map utf8_bytes cps)"

lemma split_digit: "r < (k :: nat) \<Longrightarrow> (m * k + r) div k = m" "r < k \<Longrightarrow> (m * k + r) mod k = r"
  by simp_all

lemma utf8_bytes_2: "2 \<le> x \<Longrightarrow> x < 32 \<Longrightarrow> y < 64 \<Longrightarrow> utf8_bytes (x * 64 + y) = [192 + x, 128 + y]"
  unfolding utf8_bytes_def by (simp add: split_digit)

lemma utf8_bytes_3:
  assumes "x < 16" "y < 64" "z < 64" "x = 0 \<longrightarrow> 32 \<le> y" "x = 13 \<longrightarrow> y < 32"
  shows "utf8_bytes (x * 4096 + y * 64 + z) = [224 + x, 128 + y, 128 + z]"
proof -
  let ?cp = "(x * 64 + y) * 64 + z"
  have d: "?cp div 64 = x * 64 + y" "?cp mod 64 = z" using split_digit[OF assms(3), of "x * 64 + y"] by simp_all
  have "?cp div 4096 = ?cp div 64 div 64" by (simp only: div_mult2_eq[symmetric]) simp
  then have e: "?cp div 4096 = x" using d split_digit(1)[OF assms(2), of x] by simp
  have "\<not> ?cp < 2048" using assms by (cases "x = 0") auto
  moreover have "\<not> (56320 + 128 \<le> ?cp \<and> ?cp < 56320 + 256)" using assms by (cases "x \<le> 12"; cases "x = 13") auto
  moreover have "?cp < 65536" using assms by simp
  ultimately have "utf8_bytes ?cp = [224 + x, 128 + y, 128 + z]"
    unfolding utf8_bytes_def d e using split_digit(2)[OF assms(2), of x] by simp
  then show ?thesis by (simp add: algebra_simps)
qed

lemma utf8_bytes_4:
  assumes "x < 5" "y < 64" "z < 64" "w < 64" "x = 0 \<longrightarrow> 16 \<le> y"
  shows "utf8_bytes (x * 262144 + y * 4096 + z * 64 + w) = [240 + x, 128 + y, 128 + z, 128 + w]"
proof -
  let ?cp = "((x * 64 + y) * 64 + z) * 64 + w"
  have d: "?cp div 64 = (x * 64 + y) * 64 + z" "?cp mod 64 = w" using split_digit[OF assms(4), of "(x * 64 + y) * 64 + z"] by simp_all
  have "?cp div 4096 = ?cp div 64 div 64" by (simp only: div_mult2_eq[symmetric]) simp
  then have e: "?cp div 4096 = x * 64 + y" using d split_digit(1)[OF assms(3), of "x * 64 + y"] by simp
  have "?cp div 262144 = ?cp div 4096 div 64" by (simp only: div_mult2_eq[symmetric]) simp
  then have f: "?cp div 262144 = x" using e split_digit(1)[OF assms(2), of x] by simp
  have "\<not> ?cp < 65536" using assms by (cases "x = 0") auto
  then have "utf8_bytes ?cp = [240 + x, 128 + y, 128 + z, 128 + w]"
    unfolding utf8_bytes_def d e f
    using split_digit(2)[OF assms(2), of x] split_digit(2)[OF assms(3), of "x * 64 + y"] by simp
  then show ?thesis by (simp add: algebra_simps)
qed

lemma continuation_digit: "continuation b \<Longrightarrow> \<exists>y<64. b = 128 + y"
  by (rule exI[of _ "b - 128"]) (auto simp: continuation_def)

lemma utf8_bytes_char:
  assumes u: "utf8_char bs = Some (cp, n)"
  shows "utf8_bytes cp = take n bs \<and> cp < 1114112"
proof -
  obtain a as where bs: "bs = a # as" using u by (cases bs) (auto simp: utf8_char_def)
  show ?thesis
  proof (cases "a < 128")
    case True
    then show ?thesis using u by (auto simp: bs utf8_char_def utf8_bytes_def)
  next
    case na: False
    then obtain b bs' where as: "as = b # bs'" and cb: "continuation b" using u by (auto simp: bs utf8_char_def split: list.splits if_splits)
    obtain y where y: "y < 64" "b = 128 + y" using continuation_digit[OF cb] by blast
    show ?thesis
    proof (cases "194 \<le> a \<and> a < 224")
      case True
      then have "a = 192 + (a - 192)" "2 \<le> a - 192" "a - 192 < 32" by auto
      then show ?thesis using u na cb True y utf8_bytes_2[of "a - 192" y] by (auto simp: bs as utf8_char_def)
    next
      case n2: False
      then obtain c cs where bs': "bs' = c # cs" and cc: "continuation c"
        using u na cb by (auto simp: bs as utf8_char_def split: list.splits if_splits)
      obtain z where z: "z < 64" "c = 128 + z" using continuation_digit[OF cc] by blast
      show ?thesis
      proof (cases "224 \<le> a \<and> a < 240 \<and> (a = 224 \<longrightarrow> 160 \<le> b) \<and> (a = 237 \<longrightarrow> b < 160)")
        case True
        define x where "x = a - 224"
        have x: "a = 224 + x" "x < 16" "x = 0 \<longrightarrow> 32 \<le> y" "x = 13 \<longrightarrow> y < 32" using True y by (auto simp: x_def)
        have "cp = x * 4096 + y * 64 + z" "n = 3" using u na n2 cb cc True y z x by (auto simp: bs as bs' utf8_char_def)
        moreover have "x * 4096 + y * 64 + z < 1114112" using x y z by simp
        ultimately show ?thesis using utf8_bytes_3[OF x(2) y(1) z(1) x(3,4)] by (simp add: bs as bs' x(1) y(2) z(2))
      next
        case n3: False
        then obtain d ds where cs: "cs = d # ds" and cd: "continuation d" "240 \<le> a \<and> a < 245 \<and> (a = 240 \<longrightarrow> 144 \<le> b) \<and> (a = 244 \<longrightarrow> b < 144)"
          using u na n2 cb cc unfolding bs as bs' utf8_char_def by (simp only: list.case if_False if_True refl not_True_eq_False) (auto split: list.splits if_splits)
        obtain w where w: "w < 64" "d = 128 + w" using continuation_digit[OF cd(1)] by blast
        define x where "x = a - 240"
        have x: "a = 240 + x" "x < 5" "x = 0 \<longrightarrow> 16 \<le> y" "x = 4 \<longrightarrow> y < 16" using cd(2) y by (auto simp: x_def)
        have "cp = x * 262144 + y * 4096 + z * 64 + w" "n = 4"
          using u na n2 n3 cb cc cd y z w x by (auto simp: bs as bs' cs utf8_char_def)
        moreover have "x * 262144 + y * 4096 + z * 64 + w < 1114112" using x y z w by (cases "x = 4") auto
        ultimately show ?thesis using utf8_bytes_4[OF x(2) y(1) z(1) w(1) x(3)] by (simp add: bs as bs' cs x(1) y(2) z(2) w(2))
      qed
    qed
  qed
qed

lemma fsencode_fsdecode: "\<forall>b\<in>set bs. b < 256 \<Longrightarrow> fsencode (fsdecode bs) = bs \<and> (\<forall>cp\<in>set (fsdecode bs). cp < 1114112)"
proof (induction bs rule: fsdecode.induct)
  case (2 b bs)
  show ?case
  proof (cases "utf8_char (b # bs)")
    case None
    then have "128 \<le> b" by (auto simp: utf8_char_def split: if_splits)
    then have "utf8_bytes (56320 + b) = [b]" using 2(3) by (auto simp: utf8_bytes_def)
    moreover have "fsencode (fsdecode bs) = bs \<and> (\<forall>cp\<in>set (fsdecode bs). cp < 1114112)" using "2.IH"(1) None 2(3) by simp
    ultimately show ?thesis using 2(3) None by (simp add: fsencode_def)
  next
    case (Some r)
    obtain cp n where r: "r = (cp, n)" by (cases r)
    have s: "utf8_char (b # bs) = Some (cp, n)" using Some r by simp
    have "\<forall>x\<in>set (drop n (b # bs)). x < 256" using 2(3) by (meson in_set_dropD)
    from "2.IH"(2)[OF Some r[symmetric] this] show ?thesis
      using utf8_bytes_char[OF s] s by (simp add: fsencode_def del: drop_Cons' take_Cons')
  qed
qed (simp add: fsencode_def)

subsection \<open>The codec \<open>unicode_escape\<close>\<close>

text \<open>\<open>n\<close> hexadecimal digits, and their value.\<close>

primrec hex_digits :: "nat \<Rightarrow> nat \<Rightarrow> string" where
  "hex_digits 0 v = []"
| "hex_digits (Suc n) v = hex_digits n (v div 16) @ [hex_digit (v mod 16)]"

definition unicode_escape_char :: "nat \<Rightarrow> string" where
  "unicode_escape_char cp =
     (if cp = 92 then [CHR 0x5C, CHR 0x5C]
      else if cp = 9 then [CHR 0x5C, CHR ''t'']
      else if cp = 10 then [CHR 0x5C, CHR ''n'']
      else if cp = 13 then [CHR 0x5C, CHR ''r'']
      else if 32 \<le> cp \<and> cp < 127 then [char_of cp]
      else if cp < 256 then CHR 0x5C # CHR ''x'' # hex_digits 2 cp
      else if cp < 65536 then CHR 0x5C # CHR ''u'' # hex_digits 4 cp
      else CHR 0x5C # CHR ''U'' # hex_digits 8 cp)"

definition escape_text_field :: "string \<Rightarrow> string" where
  "escape_text_field val = concat (map unicode_escape_char (fsdecode (map byte val)))"

text \<open>Reading a field: a decoder of the codec.\<close>

definition hex_digit_value :: "char \<Rightarrow> nat" where
  "hex_digit_value c = (if byte c < 58 then byte c - 48 else byte c - 87)"

definition hex_value :: "string \<Rightarrow> nat" where
  "hex_value s = foldl (\<lambda>v c. 16 * v + hex_digit_value c) 0 s"

fun unicode_unescape :: "nat \<Rightarrow> string \<Rightarrow> nat list" where
  "unicode_unescape 0 s = []"
| "unicode_unescape (Suc k) s =
     (case s of
        [] \<Rightarrow> []
      | c # cs \<Rightarrow>
          if c \<noteq> CHR 0x5C then byte c # unicode_unescape k cs
          else (case cs of
             [] \<Rightarrow> []
           | e # rest \<Rightarrow>
               if e = CHR ''x'' then hex_value (take 2 rest) # unicode_unescape k (drop 2 rest)
               else if e = CHR ''u'' then hex_value (take 4 rest) # unicode_unescape k (drop 4 rest)
               else if e = CHR ''U'' then hex_value (take 8 rest) # unicode_unescape k (drop 8 rest)
               else (if e = CHR ''t'' then 9 else if e = CHR ''n'' then 10 else if e = CHR ''r'' then 13 else byte e)
                    # unicode_unescape k rest))"

definition read_text_field :: "string \<Rightarrow> string" where
  "read_text_field s = map char_of (fsencode (unicode_unescape (length s) s))"

lemma byte_less: "byte c < 256"
  by (simp add: byte_def)

lemma char_of_byte [simp]: "char_of (byte c) = c"
  by (simp add: byte_def)

lemma byte_char_of: "n < 256 \<Longrightarrow> byte (char_of n) = n"
  by (simp add: byte_def of_char_of)

lemma hex_digit_value: "d < 16 \<Longrightarrow> hex_digit_value (hex_digit d) = d"
  by (simp add: hex_digit_value_def hex_digit_def byte_char_of)

lemma length_hex_digits [simp]: "length (hex_digits n v) = n"
  by (induction n arbitrary: v) simp_all

lemma hex_value_digits: "v < 16 ^ n \<Longrightarrow> hex_value (hex_digits n v) = v"
proof (induction n arbitrary: v)
  case (Suc n)
  have "v div 16 < 16 ^ n" using Suc.prems by (simp add: less_mult_imp_div_less mult.commute)
  then show ?case using Suc.IH[of "v div 16"] by (simp add: hex_value_def hex_digit_value)
qed (simp add: hex_value_def)

definition printable :: "char \<Rightarrow> bool" where
  "printable c \<longleftrightarrow> 32 \<le> byte c \<and> byte c < 127"

lemma printable_hex_digits: "list_all printable (hex_digits n v)"
proof (induction n arbitrary: v)
  case (Suc n)
  have "printable (hex_digit d)" if "d < 16" for d
    using that by (auto simp: printable_def hex_digit_def byte_char_of)
  then show ?case using Suc by simp
qed simp

lemma printable_unicode_escape_char: "list_all printable (unicode_escape_char cp)"
  using printable_hex_digits
  by (simp add: unicode_escape_char_def byte_char_of) (simp add: printable_def byte_char_of, simp add: byte_def)

lemma unescape_hex:
  "v < 16 ^ 2 \<Longrightarrow> unicode_unescape (Suc k) (CHR 0x5C # CHR ''x'' # hex_digits 2 v @ s) = v # unicode_unescape k s"
  "v < 16 ^ 4 \<Longrightarrow> unicode_unescape (Suc k) (CHR 0x5C # CHR ''u'' # hex_digits 4 v @ s) = v # unicode_unescape k s"
  "v < 16 ^ 8 \<Longrightarrow> unicode_unescape (Suc k) (CHR 0x5C # CHR ''U'' # hex_digits 8 v @ s) = v # unicode_unescape k s"
  using hex_value_digits[of v 2] hex_value_digits[of v 4] hex_value_digits[of v 8]
  by (simp_all del: hex_digits.simps hex_value_def)

lemma unicode_unescape_step:
  assumes "cp < 1114112"
  shows "unicode_unescape (Suc k) (unicode_escape_char cp @ s) = cp # unicode_unescape k s"
proof -
  consider "cp \<in> {92, 9, 10, 13}" | "cp \<notin> {92, 9, 10, 13}" "32 \<le> cp \<and> cp < 127"
    | "cp \<notin> {92, 9, 10, 13}" "\<not> (32 \<le> cp \<and> cp < 127)" by blast
  then show ?thesis
  proof cases
    case 1
    then show ?thesis by (auto simp: unicode_escape_char_def byte_def)
  next
    case 2
    then have "byte (char_of cp) = cp" by (simp add: byte_char_of)
    moreover have "byte (CHR 0x5C) = 92" by (simp add: byte_def)
    ultimately have "char_of cp \<noteq> CHR 0x5C" using 2(1) by auto
    then show ?thesis using 2 \<open>byte (char_of cp) = cp\<close> by (simp add: unicode_escape_char_def)
  next
    case 3
    then show ?thesis
      using assms unescape_hex[of cp k s] by (auto simp: unicode_escape_char_def simp del: hex_digits.simps unicode_unescape.simps)
  qed
qed

lemma unicode_unescape_escape:
  "\<forall>cp\<in>set cps. cp < 1114112 \<Longrightarrow> length (concat (map unicode_escape_char cps)) \<le> k
    \<Longrightarrow> unicode_unescape k (concat (map unicode_escape_char cps)) = cps"
proof (induction cps arbitrary: k)
  case Nil
  then show ?case by (cases k) simp_all
next
  case (Cons cp cps)
  have "1 \<le> length (unicode_escape_char cp)" by (simp add: unicode_escape_char_def)
  then have "1 \<le> k" "length (concat (map unicode_escape_char cps)) \<le> k - 1" using Cons.prems(2) by simp_all
  then obtain k' where k: "k = Suc k'" and l: "length (concat (map unicode_escape_char cps)) \<le> k'" by (cases k) simp_all
  then show ?case using Cons unicode_unescape_step[of cp k'] by simp
qed

lemma read_escaped: "read_text_field (escape_text_field s) = s"
proof -
  have b: "\<forall>b\<in>set (map byte s). b < 256" by (simp add: byte_less)
  note d = fsencode_fsdecode[OF b]
  then have "unicode_unescape (length (escape_text_field s)) (escape_text_field s) = fsdecode (map byte s)"
    unfolding escape_text_field_def by (intro unicode_unescape_escape) simp_all
  then show ?thesis using d by (simp add: read_text_field_def comp_def)
qed

lemma printable_escaped: "list_all printable (escape_text_field s)"
  using printable_unicode_escape_char by (simp add: escape_text_field_def list_all_iff)

end
