(* ===== verification/Deleted_Open.thy ===== *)
theory Deleted_Open
  imports Diagnostic_Models Scanner Grouping Diff_Query Domain_Totals
begin

text \<open>
  \<open>diagnostics/deleted_open.py\<close> and the storage-domain resolver \<open>cli.py\<close> gives it: the field parser for
  \<open>lsof -F0\<close>, the walk of \<open>/proc/<pid>/fd\<close> that replaces it, and the totals.  Running lsof, the directory
  listings and links of procfs and the clock are arguments; lsof's error output is given as the text
  \<open>decode("utf-8", errors="replace")\<close> makes of it, and so is a \<open>comm\<close> file.
\<close>

definition lsof_argv :: "string list" where "lsof_argv = [''lsof'', ''-nP'', ''+L1'', ''-F0'']"

definition deleted_marker :: string where "deleted_marker = '' (deleted)''"

definition deleted_open_action_hint :: string where
  "deleted_open_action_hint =
     ''verify the owning service and its log rotation context before any action; a service holding a deleted file releases the space once it reopens or cycles the descriptor, so check the owner and rotation policy first rather than acting blindly''"

definition non_disk_action_hint :: string where
  "non_disk_action_hint =
     ''treat this as non-disk-pressure evidence; pseudo-device mappings such as /dev/zero do not explain root filesystem space loss, so prioritize real filesystem deleted-open files instead''"

definition unknown_relevance :: string where "unknown_relevance = ''unknown''"
definition non_disk_mapping :: string where "non_disk_mapping = ''non_disk_mapping''"

definition pseudo_filesystem_types :: "string list" where
  "pseudo_filesystem_types =
     [''autofs'', ''bpf'', ''cgroup'', ''cgroup2'', ''configfs'', ''debugfs'', ''devpts'', ''devtmpfs'', ''fusectl'', ''hugetlbfs'',
      ''mqueue'', ''proc'', ''pstore'', ''securityfs'', ''sysfs'', ''tmpfs'', ''tracefs'']"

definition deleted_open_verification_commands :: "string list" where
  "deleted_open_verification_commands = [''lsof +L1 -nP'', ''readlink /proc/<pid>/fd/<fd>'']"

subsection \<open>Text helpers\<close>

text \<open>\<open>s.strip(c)\<close> for one character, and \<open>str.strip()\<close> with the white space of Unicode in its UTF-8 form.\<close>

definition strip_char :: "char \<Rightarrow> string \<Rightarrow> string" where
  "strip_char c s = rstrip_char c (dropWhile (\<lambda>x. x = c) s)"

definition text_spaces :: "string list" where
  "text_spaces =
     map (\<lambda>n. [char_of (n :: nat)]) [9, 10, 11, 12, 13, 28, 29, 30, 31, 32]
     @ map (map (\<lambda>n. char_of (n :: nat)))
         ([[194, 133], [194, 160], [225, 154, 128], [226, 128, 168], [226, 128, 169], [226, 128, 175], [226, 129, 159], [227, 128, 128]]
          @ map (\<lambda>n. [226, 128, n]) [128 ..< 139])"

definition line_ends :: "string list" where
  "line_ends =
     map (map (\<lambda>n. char_of (n :: nat)))
       [[13, 10], [10], [11], [12], [13], [28], [29], [30], [194, 133], [226, 128, 168], [226, 128, 169]]"

fun lstrip_codes :: "nat \<Rightarrow> string list \<Rightarrow> string \<Rightarrow> string" where
  "lstrip_codes 0 codes s = s"
| "lstrip_codes (Suc n) codes s =
     (case List.find (startswith s) codes of None \<Rightarrow> s | Some p \<Rightarrow> lstrip_codes n codes (drop (length p) s))"

definition str_strip :: "string \<Rightarrow> string" where
  "str_strip s =
     (let left = lstrip_codes (length s) text_spaces s
      in rev (lstrip_codes (length left) (map rev text_spaces) (rev left)))"

fun str_splitlines_aux :: "nat \<Rightarrow> string \<Rightarrow> string \<Rightarrow> string list" where
  "str_splitlines_aux 0 acc s = (if acc = [] then [] else [rev acc])"
| "str_splitlines_aux (Suc n) acc s =
     (case s of
        [] \<Rightarrow> if acc = [] then [] else [rev acc]
      | c # cs \<Rightarrow>
          (case List.find (startswith s) line_ends of
             Some p \<Rightarrow> rev acc # str_splitlines_aux n [] (drop (length p) s)
           | None \<Rightarrow> str_splitlines_aux n (c # acc) cs))"

definition str_splitlines :: "string \<Rightarrow> string list" where
  "str_splitlines s = str_splitlines_aux (Suc (length s)) [] s"

text \<open>\<open>repr\<close> of bytes.\<close>

definition bytes_repr_char :: "char \<Rightarrow> char \<Rightarrow> string" where
  "bytes_repr_char quote c =
     (if (of_char c :: nat) > 127 then [CHR 0x5C, CHR ''x''] @ hex_str [c] else repr_char quote c)"

definition bytes_repr :: "bytes \<Rightarrow> string" where
  "bytes_repr s =
     (let q = (if CHR 0x27 \<in> set s \<and> CHR 0x22 \<notin> set s then CHR 0x22 else CHR 0x27)
      in CHR ''b'' # q # concat (map (bytes_repr_char q) s) @ [q])"

subsection \<open>lsof\<close>

record lsof_parse_state =
  lp_current_pid :: "int option"
  lp_current_command :: "string option"
  lp_pending_fd :: "string option"
  lp_pending_size :: "int option"
  lp_pending_name :: "bytes option"
  lp_pending_has_size :: bool

type_synonym lsof_run = "lsof_parse_state \<times> deleted_open_file list \<times> report_warning list"

definition lsof_parse_start :: lsof_parse_state where
  "lsof_parse_start =
     \<lparr> lp_current_pid = None, lp_current_command = None, lp_pending_fd = None, lp_pending_size = None,
       lp_pending_name = None, lp_pending_has_size = False \<rparr>"

definition clear_pending :: "lsof_parse_state \<Rightarrow> lsof_parse_state" where
  "clear_pending state =
     state\<lparr> lp_pending_fd := None, lp_pending_size := None, lp_pending_name := None, lp_pending_has_size := False \<rparr>"

definition flush_lsof_record :: "lsof_run \<Rightarrow> lsof_run" where
  "flush_lsof_record = (\<lambda>(state, rows, warnings).
     if lp_pending_fd state = None \<and> lp_pending_name state = None then (state, rows, warnings)
     else
       (case (lp_current_pid state, lp_current_command state) of
          (Some pid, Some command) \<Rightarrow>
            (case lp_pending_name state of
               None \<Rightarrow> (clear_pending state, rows,
                 warnings @ [warn ''deleted_open_malformed_record''
                               (''lsof file record for pid '' @ int_str pid @ '' had no name field'') None])
             | Some path \<Rightarrow>
                 (clear_pending state,
                  rows @ [\<lparr> of_pid = pid, of_command = command,
                            of_fd = (case lp_pending_fd state of Some fd \<Rightarrow> fd | None \<Rightarrow> ''?''),
                            of_size_bytes = lp_pending_size state, of_path = path, of_storage_domain = None,
                            of_disk_pressure_relevance = unknown_relevance,
                            of_action_hint = deleted_open_action_hint, of_source = ''lsof'' \<rparr>],
                  warnings @ (if lp_pending_has_size state then []
                              else [warn ''deleted_open_missing_size''
                                      (''deleted-open file for pid '' @ int_str pid @ '' has no size from lsof'')
                                      (Some path)])))
        | _ \<Rightarrow> (clear_pending state, rows,
            warnings @ [warn ''deleted_open_malformed_record'' ''lsof file record appeared before any process context'' None])))"

definition handle_lsof_pid_field :: "bytes \<Rightarrow> lsof_run \<Rightarrow> lsof_run" where
  "handle_lsof_pid_field val = (\<lambda>(state, rows, warnings).
     (let state = state\<lparr> lp_current_command := None \<rparr> in
      case parse_int val of
        Some pid \<Rightarrow> (state\<lparr> lp_current_pid := Some pid \<rparr>, rows, warnings)
      | None \<Rightarrow>
          (state\<lparr> lp_current_pid := None \<rparr>, rows,
           warnings @ [warn ''deleted_open_malformed_record''
                         (''lsof emitted a non-numeric pid field: '' @ bytes_repr val) None])))"

definition handle_lsof_size_field :: "bytes \<Rightarrow> lsof_parse_state \<Rightarrow> lsof_parse_state" where
  "handle_lsof_size_field val state =
     (case parse_int val of
        Some n \<Rightarrow> state\<lparr> lp_pending_size := Some n, lp_pending_has_size := True \<rparr>
      | None \<Rightarrow> state\<lparr> lp_pending_size := None, lp_pending_has_size := False \<rparr>)"

definition handle_lsof_name_field :: "bytes \<Rightarrow> lsof_parse_state \<Rightarrow> lsof_parse_state" where
  "handle_lsof_name_field val state = state\<lparr> lp_pending_name := Some (removesuffix val deleted_marker) \<rparr>"

definition lsof_field_step :: "lsof_run \<Rightarrow> bytes \<Rightarrow> lsof_run" where
  "lsof_field_step run raw_field =
     (case strip_char CHR 0x0A raw_field of
        [] \<Rightarrow> run
      | tag # val \<Rightarrow>
          (if tag = CHR ''p'' then handle_lsof_pid_field val (flush_lsof_record run)
           else if tag = CHR ''c'' then map_prod (\<lambda>state. state\<lparr> lp_current_command := Some val \<rparr>) id run
           else if tag = CHR ''f'' then
             map_prod (\<lambda>state. state\<lparr> lp_pending_fd := Some val \<rparr>) id (flush_lsof_record run)
           else if tag = CHR ''s'' then map_prod (handle_lsof_size_field val) id run
           else if tag = CHR ''n'' then map_prod (handle_lsof_name_field val) id run
           else run))"

definition parse_lsof_field_output :: "bytes \<Rightarrow> deleted_open_file list \<times> report_warning list" where
  "parse_lsof_field_output stdout =
     snd (flush_lsof_record (foldl lsof_field_step (lsof_parse_start, [], []) (split_char CHR 0x00 stdout)))"

definition summarize_stderr :: "string \<Rightarrow> string" where
  "summarize_stderr stderr =
     (let lines = filter (\<lambda>l. l \<noteq> []) (map str_strip (str_splitlines (str_strip stderr)))
      in if lines \<noteq> [] then join_str ''; '' (take 5 lines) else ''(empty)'')"

text \<open>A run of lsof: its output, error text and exit status, or the \<open>OSError\<close> of starting it.\<close>

type_synonym lsof_answer = "os_error + bytes \<times> string \<times> int"

record lsof_collection_result =
  lc_rows :: "deleted_open_file list"
  lc_warnings :: "report_warning list"
  lc_used_lsof :: bool

definition collect_lsof_deleted_open :: "(string list \<Rightarrow> lsof_answer) \<Rightarrow> lsof_collection_result" where
  "collect_lsof_deleted_open runner =
     (case runner lsof_argv of
        Inl e \<Rightarrow>
          \<lparr> lc_rows = [],
            lc_warnings =
              [warn ''lsof_unavailable''
                 (if oe_class e = FileNotFoundError then ''lsof binary not found; using bounded procfs fallback''
                  else ''lsof could not be executed ('' @ oe_text e @ ''); using bounded procfs fallback'') None],
            lc_used_lsof = False \<rparr>
      | Inr (stdout, stderr, returncode) \<Rightarrow>
          (let warnings = (if stderr \<noteq> [] then [warn ''lsof_stderr'' (''lsof emitted warnings: '' @ summarize_stderr stderr) None]
                           else [])
           in if stdout \<noteq> [] then
                (let (rows, parse_warnings) = parse_lsof_field_output stdout
                 in \<lparr> lc_rows = rows,
                      lc_warnings = warnings @ parse_warnings
                        @ (if returncode \<noteq> 0
                           then [warn ''lsof_partial''
                                   (''lsof exited '' @ int_str returncode @ '' but produced usable output; the deleted-open inventory may be incomplete (some processes were inaccessible)'') None]
                           else []),
                      lc_used_lsof = True \<rparr>)
              else
                \<lparr> lc_rows = [],
                  lc_warnings = warnings
                    @ [warn ''lsof_no_output''
                         (''lsof produced no usable output (exit '' @ int_str returncode @ ''); using bounded procfs fallback'') None],
                  lc_used_lsof = False \<rparr>))"

subsection \<open>procfs\<close>

text \<open>Listings give the entry names, in the order of the directory.\<close>

record procfs =
  pr_scandir :: "pathname \<Rightarrow> os_error + string list"
  pr_readlink :: "pathname \<Rightarrow> os_error + string"
  pr_comm :: "pathname \<Rightarrow> string option"

definition entry_path :: "pathname \<Rightarrow> string \<Rightarrow> pathname" where
  "entry_path directory name = pathlib_path (if endswith directory ''/'' then directory @ name else directory @ ''/'' @ name)"

definition read_proc_comm :: "procfs \<Rightarrow> pathname \<Rightarrow> string" where
  "read_proc_comm fs pid_dir =
     (case pr_comm fs (pathlib_path (pid_dir @ ''/comm'')) of None \<Rightarrow> ''?'' | Some text \<Rightarrow> str_strip text)"

definition permission_denied :: "string \<Rightarrow> report_warning" where
  "permission_denied message = warn ''deleted_open_permission_denied'' message None"

definition scan_fd_entry ::
    "procfs \<Rightarrow> int \<Rightarrow> string \<Rightarrow> pathname \<Rightarrow> string \<Rightarrow> deleted_open_file list \<times> report_warning list" where
  "scan_fd_entry fs pid command fd_dir fd_name =
     (case map_sum id pathlib_path (pr_readlink fs (entry_path fd_dir fd_name)) of
        Inl e \<Rightarrow> ([], [permission_denied (''cannot read fd '' @ fd_name @ '' of pid '' @ int_str pid @ '': '' @ oe_text e)])
      | Inr target \<Rightarrow>
          (if \<not> endswith target deleted_marker then ([], [])
           else
             (let clean = take (length target - length deleted_marker) target
              in ([\<lparr> of_pid = pid, of_command = command, of_fd = fd_name, of_size_bytes = None, of_path = clean,
                     of_storage_domain = None, of_disk_pressure_relevance = unknown_relevance,
                     of_action_hint = deleted_open_action_hint, of_source = ''procfs'' \<rparr>],
                  [warn ''deleted_open_missing_size''
                     (''procfs fallback cannot determine size for pid '' @ int_str pid @ '' fd '' @ fd_name) (Some clean)]))))"

text \<open>\<open>str.isdigit\<close> is the ASCII test here: process directories have no other digits in their names.\<close>

definition scan_proc_entry :: "procfs \<Rightarrow> pathname \<Rightarrow> string \<Rightarrow> deleted_open_file list \<times> report_warning list" where
  "scan_proc_entry fs proc_root name =
     (if \<not> (name \<noteq> [] \<and> list_all is_digit name) then ([], [])
      else
        (let pid = digits_value name;
             pid_dir = entry_path proc_root name;
             command = read_proc_comm fs pid_dir;
             fd_dir = pathlib_path (pid_dir @ ''/fd'')
         in case map_sum id (sort_key id) (pr_scandir fs fd_dir) of
              Inl e \<Rightarrow> ([], [permission_denied (''cannot read fd directory for pid '' @ int_str pid @ '': '' @ oe_text e)])
            | Inr fd_entries \<Rightarrow>
                (let found = map (scan_fd_entry fs pid command fd_dir) fd_entries
                 in (concat (map fst found), concat (map snd found)))))"

text \<open>An \<open>OSError\<close> of another class escapes.\<close>

definition scan_procfs_deleted_open ::
    "procfs \<Rightarrow> pathname \<Rightarrow> report_error + deleted_open_file list \<times> report_warning list" where
  "scan_procfs_deleted_open fs proc_root =
     (case map_sum id (sort_key id) (pr_scandir fs proc_root) of
        Inl e \<Rightarrow>
          (case oe_class e of
             FileNotFoundError \<Rightarrow> Inr ([], [warn ''procfs_unavailable'' (''proc root '' @ proc_root @ '' does not exist'') None])
           | PermissionError \<Rightarrow> Inr ([], [permission_denied (''cannot list proc root: '' @ oe_text e)])
           | NotADirectoryError \<Rightarrow> Inl (Uncaught ''NotADirectoryError'')
           | OtherOSError name \<Rightarrow> Inl (Uncaught name))
      | Inr entries \<Rightarrow>
          (let found = map (scan_proc_entry fs proc_root) entries
           in Inr (concat (map fst found), concat (map snd found))))"

subsection \<open>Storage domains\<close>

text \<open>\<open>str.lower\<close> of a type name, ASCII letters only.\<close>

definition lower_char :: "char \<Rightarrow> char" where
  "lower_char c = (let n = of_char c :: nat in if 65 \<le> n \<and> n \<le> 90 then char_of (n + 32) else c)"

definition classify_disk_pressure_relevance :: "bytes \<Rightarrow> group_label \<Rightarrow> string" where
  "classify_disk_pressure_relevance path domain =
     (let filesystem_type = map lower_char (case gl_filesystem_type domain of None \<Rightarrow> [] | Some t \<Rightarrow> t) in
      if filesystem_type \<in> set pseudo_filesystem_types then non_disk_mapping
      else if path = ''/dev/zero'' \<or> startswith path ''/dev/'' then non_disk_mapping
      else unknown_relevance)"

text \<open>A resolver answers with a domain or none, or fails with the text of its exception.\<close>

type_synonym domain_resolver = "bytes \<Rightarrow> string + group_label option"

definition resolve_domain :: "domain_resolver \<Rightarrow> deleted_open_file \<Rightarrow> deleted_open_file \<times> report_warning list" where
  "resolve_domain resolver row =
     (case resolver (of_path row) of
        Inl e \<Rightarrow>
          (row, [warn ''storage_domain_unresolved''
                   (''could not resolve storage-domain for '' @ of_path row @ '': '' @ e) (Some (of_path row))])
      | Inr None \<Rightarrow>
          (row, [warn ''storage_domain_unresolved'' (''no persisted mount prefix matched '' @ of_path row) (Some (of_path row))])
      | Inr (Some domain) \<Rightarrow>
          (let relevance = classify_disk_pressure_relevance (of_path row) domain
           in (row\<lparr> of_storage_domain := Some domain, of_disk_pressure_relevance := relevance,
                    of_action_hint := if relevance = non_disk_mapping then non_disk_action_hint else of_action_hint row \<rparr>,
               [])))"

text \<open>\<open>_build_storage_domain_resolver\<close> of \<open>cli.py\<close>.\<close>

definition latest_snapshot_mounts :: "db \<Rightarrow> snapshot_record list \<Rightarrow> snapshot_mount list" where
  "latest_snapshot_mounts d snapshots =
     dedupe_on (\<lambda>m. (sm_major_minor m, sm_mount_point m))
       (concat (map (\<lambda>s. load_snapshot_mounts d (sr_id s)) snapshots))"

definition best_mount_step :: "bytes \<Rightarrow> snapshot_mount option \<Rightarrow> snapshot_mount \<Rightarrow> snapshot_mount option" where
  "best_mount_step path_bytes best mount =
     (if \<not> matches_path_prefix path_bytes (sm_mount_point mount) then best
      else (case best of
              None \<Rightarrow> Some mount
            | Some b \<Rightarrow> if length (sm_mount_point mount) > length (sm_mount_point b) then Some mount else best))"

definition best_mount :: "bytes \<Rightarrow> snapshot_mount list \<Rightarrow> snapshot_mount option" where
  "best_mount path_bytes mounts = foldl (best_mount_step path_bytes) None mounts"

definition build_storage_domain_resolver :: "db \<Rightarrow> report_error + (bytes \<Rightarrow> group_label option)" where
  "build_storage_domain_resolver d =
     (case resolve_top_snapshot_selection ''latest'' d of
        Inl (Report_error _ _) \<Rightarrow> Inr (\<lambda>_. None)
      | Inl e \<Rightarrow> Inl e
      | Inr snapshots \<Rightarrow>
          (let mounts = latest_snapshot_mounts d snapshots
           in Inr (\<lambda>path_bytes. map_option storage_domain_label (best_mount path_bytes mounts))))"

subsection \<open>The diagnostic\<close>

definition size_or_zero :: "deleted_open_file \<Rightarrow> int" where
  "size_or_zero row = (case of_size_bytes row of None \<Rightarrow> 0 | Some n \<Rightarrow> n)"

definition size_order :: "deleted_open_file \<Rightarrow> int" where
  "size_order row = (case of_size_bytes row of None \<Rightarrow> - 1 | Some n \<Rightarrow> n)"

text \<open>The rows and warnings of lsof, or with those of procfs if lsof gave nothing, and the source they name.\<close>

definition collected_evidence ::
    "(string list \<Rightarrow> lsof_answer) \<Rightarrow> procfs \<Rightarrow> pathname
      \<Rightarrow> report_error + deleted_open_file list \<times> report_warning list \<times> string" where
  "collected_evidence runner fs proc_root =
     (let result = collect_lsof_deleted_open runner in
      if lc_used_lsof result then Inr (lc_rows result, lc_warnings result, ''lsof'')
      else map_sum id (\<lambda>(rows, warnings). (lc_rows result @ rows, lc_warnings result @ warnings, ''procfs''))
             (scan_procfs_deleted_open fs proc_root))"

definition resolve_rows ::
    "domain_resolver option \<Rightarrow> deleted_open_file list \<Rightarrow> deleted_open_file list \<times> report_warning list" where
  "resolve_rows resolver rows =
     (case resolver of
        None \<Rightarrow> (rows, [])
      | Some r \<Rightarrow> (let resolved = map (resolve_domain r) rows in (map fst resolved, concat (map snd resolved))))"

definition disk_relevant :: "deleted_open_file \<Rightarrow> bool" where
  "disk_relevant row \<longleftrightarrow> of_disk_pressure_relevance row \<noteq> non_disk_mapping"

definition deleted_open_report ::
    "int \<Rightarrow> string \<Rightarrow> string \<Rightarrow> deleted_open_file list \<Rightarrow> report_warning list \<Rightarrow> deleted_open_diagnostic" where
  "deleted_open_report limit generated_at evidence_source rows warnings =
     (let rows = sort_key_rev size_order rows;
          relevant_rows = filter disk_relevant rows;
          culprit_count = int (length relevant_rows);
          shown = py_prefix limit relevant_rows
      in \<lparr> od_ok = True, od_limit = limit, od_effective_limit = limit, od_generated_at = generated_at,
           od_evidence_source = evidence_source, od_culprits = shown,
           od_totals =
             \<lparr> ot_culprit_count = culprit_count, ot_shown_count = int (length shown),
               ot_total_size_bytes = sum_list (map size_or_zero relevant_rows),
               ot_shown_size_bytes = sum_list (map size_or_zero shown),
               ot_disk_pressure_relevant_size_bytes = sum_list (map size_or_zero relevant_rows),
               ot_non_disk_mapping_size_bytes = sum_list (map size_or_zero (filter (\<lambda>row. \<not> disk_relevant row) rows)),
               ot_permission_denied_count =
                 int (length (filter (\<lambda>w. rw_code w = ''deleted_open_permission_denied'') warnings)) \<rparr>,
           od_truncated = culprit_count > limit, od_verification_commands = deleted_open_verification_commands,
           od_warnings = warnings \<rparr>)"

definition collect_deleted_open_files ::
    "int \<Rightarrow> procfs \<Rightarrow> pathname \<Rightarrow> (string list \<Rightarrow> lsof_answer) \<Rightarrow> domain_resolver option \<Rightarrow> string
      \<Rightarrow> report_error + deleted_open_diagnostic" where
  "collect_deleted_open_files limit fs proc_root runner resolver generated_at =
     (case collected_evidence runner fs proc_root of
        Inl e \<Rightarrow> Inl e
      | Inr (rows, warnings, evidence_source) \<Rightarrow>
          (let (rows, unresolved) = resolve_rows resolver rows
           in Inr (deleted_open_report limit generated_at evidence_source rows (warnings @ unresolved))))"

text \<open>\<open>run_deleted_open_files\<close>: with a database, its mounts resolve the paths.\<close>

definition run_deleted_open_files ::
    "int \<Rightarrow> procfs \<Rightarrow> pathname \<Rightarrow> (string list \<Rightarrow> lsof_answer) \<Rightarrow> db option \<Rightarrow> string
      \<Rightarrow> report_error + deleted_open_diagnostic" where
  "run_deleted_open_files limit fs proc_root runner db_arg generated_at =
     (case db_arg of
        None \<Rightarrow> collect_deleted_open_files limit fs proc_root runner None generated_at
      | Some d \<Rightarrow>
          (case build_storage_domain_resolver d of
             Inl e \<Rightarrow> Inl e
           | Inr resolver \<Rightarrow> collect_deleted_open_files limit fs proc_root runner (Some (\<lambda>p. Inr (resolver p))) generated_at))"

end
