(* ===== verification/Docker.thy ===== *)
theory Docker
  imports Deleted_Open Query_Service
begin

text \<open>
  \<open>diagnostics/docker.py\<close> and the path hints \<open>cli.py\<close> gives it: what the docker command line says of its storage.
  Running docker and the clock are arguments, its error output is given as decoded text.  So is the JSON decoder,
  whose failure is a syntax error or undecodable bytes, and the text of the values \<open>str\<close> would print as a Python
  literal (floats, lists, objects).  A decoded object has each of its keys once.
\<close>

definition system_df_argv :: "string list" where "system_df_argv = [''docker'', ''system'', ''df'', ''--format'', ''json'']"
definition buildx_du_argv :: "string list" where "buildx_du_argv = [''docker'', ''buildx'', ''du'', ''--format'', ''json'']"
definition container_ls_argv :: "string list" where
  "container_ls_argv = [''docker'', ''container'', ''ls'', ''--all'', ''--no-trunc'', ''--format'', ''json'']"
definition image_ls_argv :: "string list" where
  "image_ls_argv = [''docker'', ''image'', ''ls'', ''--all'', ''--no-trunc'', ''--format'', ''json'']"

definition system_df_command :: string where "system_df_command = ''docker system df --format json''"
definition buildx_du_command :: string where "buildx_du_command = ''docker buildx du --format json''"
definition container_ls_command :: string where "container_ls_command = ''docker container ls --all --no-trunc --format json''"
definition image_ls_command :: string where "image_ls_command = ''docker image ls --all --no-trunc --format json''"

definition containerd_prefix :: bytes where "containerd_prefix = ''/var/lib/containerd''"
definition docker_prefix :: bytes where "docker_prefix = ''/var/lib/docker''"

definition docker_verification_commands :: "string list" where
  "docker_verification_commands = [system_df_command, buildx_du_command, ''watchdirs df-vs-index'']"

definition MAX_OWNER_INSPECTS :: int where "MAX_OWNER_INSPECTS = 50"

definition unit_factors :: "(string \<times> int) list" where
  "unit_factors =
     [(''B'', 1), (''KB'', 1000), (''MB'', 1000 ^ 2), (''GB'', 1000 ^ 3), (''TB'', 1000 ^ 4), (''PB'', 1000 ^ 5),
      (''KIB'', 1024), (''MIB'', 1024 ^ 2), (''GIB'', 1024 ^ 3), (''TIB'', 1024 ^ 4), (''PIB'', 1024 ^ 5)]"

subsection \<open>Values\<close>

datatype decode_error = Json_error | Unicode_error

text \<open>The JSON decoder, the text of a literal, UTF-8 with replacement characters, and floating point.\<close>

record docker_env =
  dk_loads :: "bytes \<Rightarrow> decode_error + json"
  dk_repr :: "json \<Rightarrow> string"
  dk_decode :: "bytes \<Rightarrow> string"
  dk_floats :: float_ops

fun json_str :: "docker_env \<Rightarrow> json \<Rightarrow> string" where
  "json_str env (JStr s) = s"
| "json_str env (JInt n) = int_str n"
| "json_str env (JBool b) = (if b then ''True'' else ''False'')"
| "json_str env JNull = ''None''"
| "json_str env v = dk_repr env v"

fun truthy :: "json \<Rightarrow> bool" where
  "truthy JNull = False"
| "truthy (JBool b) = b"
| "truthy (JInt n) = (n \<noteq> 0)"
| "truthy (JFloat x) = (x \<noteq> 0)"
| "truthy (JStr s) = (s \<noteq> [])"
| "truthy (JArr xs) = (xs \<noteq> [])"
| "truthy (JObj kvs) = (kvs \<noteq> [])"

definition py_or :: "json \<Rightarrow> json \<Rightarrow> json" where
  "py_or a b = (if truthy a then a else b)"

definition upper_char :: "char \<Rightarrow> char" where
  "upper_char c = (let n = of_char c :: nat in if 97 \<le> n \<and> n \<le> 122 then char_of (n - 32) else c)"

subsection \<open>Sizes\<close>

text \<open>\<open>float\<close> of digits and points: at least one digit and at most one point.\<close>

definition parse_decimal :: "string \<Rightarrow> real option" where
  "parse_decimal number =
     (case split_char CHR ''.'' number of
        [whole] \<Rightarrow> if whole = [] then None else Some (of_int (digits_value whole))
      | [whole, decimals] \<Rightarrow>
          if whole = [] \<and> decimals = [] then None
          else Some (of_int (digits_value whole) + of_int (digits_value decimals) / 10 ^ length decimals)
      | _ \<Rightarrow> None)"

definition normalize_size_text :: "docker_env \<Rightarrow> json \<Rightarrow> string option" where
  "normalize_size_text env text =
     (if text = JNull then None
      else (let val = str_strip (json_str env text)
            in if val = [] then None else Some (str_strip (hd (split_char CHR ''('' val)))))"

definition split_size_text :: "string \<Rightarrow> string \<times> string" where
  "split_size_text val =
     (let numeric = (\<lambda>c. is_digit c \<or> c = CHR ''.'' \<or> c = CHR '','')
      in (filter numeric val, map upper_char (str_strip (filter (\<lambda>c. \<not> numeric c) val))))"

definition size_number_to_bytes :: "docker_env \<Rightarrow> string \<Rightarrow> string \<Rightarrow> int option" where
  "size_number_to_bytes env number unit_text =
     (if number = [] then None
      else (case parse_decimal number of
              None \<Rightarrow> None
            | Some exact \<Rightarrow>
                (case (if unit_text = [] then Some 1 else map_of unit_factors unit_text) of
                   None \<Rightarrow> None
                 | Some factor \<Rightarrow>
                     (let fl = dk_floats env
                      in Some (trunc (fl_round fl (fl_round fl exact * of_int factor)))))))"

definition parse_size_text :: "docker_env \<Rightarrow> json \<Rightarrow> int option" where
  "parse_size_text env text =
     (case normalize_size_text env text of
        None \<Rightarrow> None
      | Some val \<Rightarrow>
          if val \<in> {''0'', ''0B''} then Some 0
          else (let (number, unit_text) = split_size_text val
                in size_number_to_bytes env (filter (\<lambda>c. c \<noteq> CHR '','') number) unit_text))"

definition coerce_int :: "docker_env \<Rightarrow> json \<Rightarrow> int option" where
  "coerce_int env v =
     (case v of
        JNull \<Rightarrow> None
      | JBool b \<Rightarrow> Some (if b then 1 else 0)
      | JInt n \<Rightarrow> Some n
      | _ \<Rightarrow> parse_int (str_strip (json_str env v)))"

subsection \<open>Lines of JSON\<close>

type_synonym docker_record = "(string \<times> json) list"

definition malformed :: "string \<Rightarrow> report_warning" where
  "malformed message = warn ''docker_malformed_output'' message None"

definition append_json_array_records ::
    "docker_record list \<times> report_warning list \<Rightarrow> json \<Rightarrow> docker_record list \<times> report_warning list" where
  "append_json_array_records = (\<lambda>(records, warnings) item.
     (case item of
        JObj obj \<Rightarrow> (records @ [obj], warnings)
      | _ \<Rightarrow> (records, warnings @ [malformed ''skipped a non-object Docker JSON element''])))"

text \<open>Only a syntax error is skipped: bytes that are not UTF-8 raise \<open>UnicodeDecodeError\<close>.\<close>

definition json_line_step ::
    "docker_env \<Rightarrow> docker_record list \<times> report_warning list \<Rightarrow> bytes
     \<Rightarrow> report_error + docker_record list \<times> report_warning list" where
  "json_line_step env = (\<lambda>(records, warnings) raw_line.
     (let line = strip raw_line in
      if line = [] then Inr (records, warnings)
      else (case dk_loads env line of
              Inl Json_error \<Rightarrow> Inr (records, warnings @ [malformed ''skipped a malformed Docker JSON line''])
            | Inl Unicode_error \<Rightarrow> Inl (Uncaught ''UnicodeDecodeError'')
            | Inr (JArr items) \<Rightarrow> Inr (foldl append_json_array_records (records, warnings) items)
            | Inr (JObj obj) \<Rightarrow> Inr (records @ [obj], warnings)
            | Inr _ \<Rightarrow> Inr (records, warnings @ [malformed ''skipped a non-object Docker JSON line'']))))"

definition iter_json_lines :: "docker_env \<Rightarrow> bytes \<Rightarrow> report_error + docker_record list \<times> report_warning list" where
  "iter_json_lines env stdout = fold_err (json_line_step env) ([], []) (splitlines stdout)"

subsection \<open>Categories and the build cache\<close>

definition optional_text :: "docker_env \<Rightarrow> json \<Rightarrow> string option" where
  "optional_text env v = (if v = JNull then None else Some (json_str env v))"

definition docker_category_of :: "docker_env \<Rightarrow> docker_record \<Rightarrow> docker_category option" where
  "docker_category_of env record =
     (if json_get record ''Type'' = JNull then None
      else Some \<lparr> dc_kind = json_str env (json_get record ''Type''), dc_total_count = coerce_int env (json_get record ''TotalCount''),
             dc_active_count = coerce_int env (json_get record ''Active''), dc_size_text = optional_text env (json_get record ''Size''),
             dc_size_bytes = parse_size_text env (json_get record ''Size''),
             dc_reclaimable_text = optional_text env (json_get record ''Reclaimable''),
             dc_reclaimable_bytes = parse_size_text env (json_get record ''Reclaimable''), dc_source_command = system_df_command \<rparr>)"

definition parse_docker_system_df :: "docker_env \<Rightarrow> bytes \<Rightarrow> report_error + docker_category list \<times> report_warning list" where
  "parse_docker_system_df env stdout =
     map_sum id (\<lambda>(records, warnings).
         (List.map_filter (docker_category_of env) records,
          warnings @ map (\<lambda>_. malformed ''docker system df row had no Type field'')
            (filter (\<lambda>record. docker_category_of env record = None) records)))
       (iter_json_lines env stdout)"

definition build_cache_size :: "docker_env \<Rightarrow> json \<Rightarrow> int option" where
  "build_cache_size env raw_size = (case coerce_int env raw_size of Some n \<Rightarrow> Some n | None \<Rightarrow> parse_size_text env raw_size)"

definition build_cache_entry_of :: "docker_env \<Rightarrow> docker_record \<Rightarrow> docker_build_cache_entry" where
  "build_cache_entry_of env record =
     \<lparr> be_cache_id = (case optional_text env (json_get record ''ID'') of None \<Rightarrow> ''?'' | Some s \<Rightarrow> s),
       be_size_bytes = (case build_cache_size env (json_get record ''Size'') of None \<Rightarrow> 0 | Some n \<Rightarrow> n),
       be_reclaimable = truthy (json_get record ''Reclaimable''),
       be_last_used_at = optional_text env (json_get record ''LastUsedAt''), be_source_command = buildx_du_command \<rparr>"

definition build_cache_totals_of :: "docker_build_cache_entry list \<Rightarrow> docker_build_cache_entry list \<Rightarrow> docker_build_cache_totals" where
  "build_cache_totals_of entries shown =
     \<lparr> bt_entry_count = int (length entries), bt_shown_count = int (length shown),
       bt_total_bytes = sum_list (map be_size_bytes entries),
       bt_reclaimable_bytes = sum_list (map be_size_bytes (filter be_reclaimable entries)) \<rparr>"

definition parse_docker_buildx_du ::
    "docker_env \<Rightarrow> bytes \<Rightarrow> report_error + docker_build_cache_entry list \<times> docker_build_cache_totals \<times> report_warning list" where
  "parse_docker_buildx_du env stdout =
     map_sum id (\<lambda>(records, warnings).
         (let entries = map (build_cache_entry_of env) records
          in (entries, build_cache_totals_of entries entries,
              warnings @ map (\<lambda>_. malformed ''buildx du row had no parseable Size; counted as 0 bytes'')
                (filter (\<lambda>record. build_cache_size env (json_get record ''Size'') = None) records))))
       (iter_json_lines env stdout)"

definition append_build_cache_reclaimability_warning ::
    "docker_category list \<Rightarrow> docker_build_cache_entry list \<Rightarrow> report_warning list" where
  "append_build_cache_reclaimability_warning categories entries =
     (case Option.bind (List.find (\<lambda>c. map lower_char (dc_kind c) = ''build cache'') categories) dc_reclaimable_bytes of
        None \<Rightarrow> []
      | Some category_reclaimable \<Rightarrow>
          (let detailed = sum_list (map be_size_bytes (filter be_reclaimable entries))
           in if detailed = 0 \<or> \<bar>category_reclaimable - detailed\<bar> < 10 * 1024 * 1024 then []
              else [warn ''docker_build_cache_reclaimability_mismatch''
                      ''docker system df and docker buildx du report different build-cache reclaimable totals; use effective_reclaimable_bytes in JSON for triage''
                      None]))"

subsection \<open>Probes\<close>

type_synonym docker_runner = "string list \<Rightarrow> os_error + bytes \<times> string \<times> int"

fun contains_text :: "string \<Rightarrow> string \<Rightarrow> bool" where
  "contains_text [] p = (p = [])"
| "contains_text (c # cs) p = (startswith (c # cs) p \<or> contains_text cs p)"

definition looks_like_daemon_error :: "string \<Rightarrow> bool" where
  "looks_like_daemon_error stderr =
     (let text = map lower_char stderr
      in contains_text text ''cannot connect to the docker daemon'' \<or> contains_text text ''is the docker daemon running'')"

text \<open>The output, whether it can be used (\<open>None\<close>: there is no docker) and the warnings.\<close>

definition run_probe :: "docker_runner \<Rightarrow> string list \<Rightarrow> string \<Rightarrow> bytes \<times> bool option \<times> report_warning list" where
  "run_probe runner argv command_label =
     (case runner argv of
        Inl e \<Rightarrow>
          (if oe_class e = FileNotFoundError then ([], None, [])
           else ([], Some False, [warn ''docker_command_failed'' (command_label @ '' could not be executed ('' @ oe_text e @ '')'') None]))
      | Inr (stdout, stderr, returncode) \<Rightarrow>
          (if returncode \<noteq> 0 then
             (stdout, Some False,
              [if looks_like_daemon_error stderr
               then warn ''docker_daemon_error'' (command_label @ '' reported a daemon error: '' @ summarize_stderr stderr) None
               else warn ''docker_command_failed''
                      (command_label @ '' exited '' @ int_str returncode @ '': '' @ summarize_stderr stderr) None])
           else
             (stdout, Some True,
              if stderr \<noteq> [] then [warn ''docker_stderr'' (command_label @ '' emitted warnings: '' @ summarize_stderr stderr) None] else [])))"

subsection \<open>Storage owners\<close>

definition hex_char :: "char \<Rightarrow> bool" where
  "hex_char c = (let n = of_char c :: nat in is_digit c \<or> 65 \<le> n \<and> n \<le> 70 \<or> 97 \<le> n \<and> n \<le> 102)"

definition is_object_id :: "string \<Rightarrow> bool" where
  "is_object_id text \<longleftrightarrow> list_all hex_char text \<and> 12 \<le> length text \<and> length text \<le> 128"

definition object_id_of :: "docker_env \<Rightarrow> json \<Rightarrow> string option" where
  "object_id_of env v =
     (if v = JNull then None
      else (let text = removeprefix (str_strip (json_str env v)) ''sha256:''
            in if is_object_id text then Some text else None))"

definition docker_object_id :: "docker_env \<Rightarrow> docker_record \<Rightarrow> string option" where
  "docker_object_id env record =
     (case List.map_filter (\<lambda>key. object_id_of env (json_get record key)) [''ID'', ''ContainerID'', ''ImageID''] of
        [] \<Rightarrow> None
      | text # _ \<Rightarrow> Some text)"

text \<open>\<open>_walk_strings\<close>: the text values of a JSON value, in order.\<close>

fun walk_strings :: "json \<Rightarrow> string list" where
  "walk_strings (JStr s) = [s]"
| "walk_strings (JObj kvs) = concat (map (\<lambda>kv. walk_strings (snd kv)) kvs)"
| "walk_strings (JArr vs) = concat (map walk_strings vs)"
| "walk_strings _ = []"

text \<open>
  \<open>findall\<close> of a pattern that is a fixed path followed by one component, which holds no slash, colon or quote.
\<close>

definition component_char :: "char \<Rightarrow> bool" where
  "component_char c \<longleftrightarrow> c \<noteq> slash \<and> c \<noteq> CHR '':'' \<and> c \<noteq> CHR 0x22"

function find_components :: "string \<Rightarrow> string \<Rightarrow> string list" where
  "find_components p [] = []"
| "find_components p (c # cs) =
     (if startswith (c # cs) p \<and> takeWhile component_char (drop (length p) (c # cs)) \<noteq> []
      then takeWhile component_char (drop (length p) (c # cs))
           # find_components p (dropWhile component_char (drop (length p) (c # cs)))
      else find_components p cs)"
  by pat_completeness auto
termination
proof (relation "measure (length \<circ> snd)")
  show "((p, dropWhile component_char (drop (length p) (c # cs))), (p, c # cs)) \<in> measure (length \<circ> snd)" if
    "startswith (c # cs) p \<and> takeWhile component_char (drop (length p) (c # cs)) \<noteq> []" for p c cs
  proof -
    let ?s = "drop (length p) (c # cs)"
    have "length ?s = length (takeWhile component_char ?s) + length (dropWhile component_char ?s)"
      by (metis length_append takeWhile_dropWhile_id)
    moreover have "0 < length (takeWhile component_char ?s)" using that by simp
    moreover have "length ?s \<le> length (c # cs)" by simp
    ultimately show ?thesis unfolding in_measure comp_def snd_conv by linarith
  qed
qed simp_all

definition containerd_snapshot_pattern :: string where
  "containerd_snapshot_pattern = ''/var/lib/containerd/io.containerd.snapshotter.v1.overlayfs/snapshots/''"
definition docker_overlay_pattern :: string where "docker_overlay_pattern = ''/var/lib/docker/overlay2/''"

definition extract_matches :: "string list \<Rightarrow> string \<Rightarrow> string list" where
  "extract_matches strings pattern = concat (map (find_components pattern) strings)"

definition non_empty :: "string \<Rightarrow> string option" where
  "non_empty text = (if text = [] then None else Some text)"

definition owner_name :: "docker_env \<Rightarrow> string \<Rightarrow> docker_record \<Rightarrow> docker_record \<Rightarrow> string option" where
  "owner_name env kind payload list_record =
     (let v = py_or (json_get payload ''Name'') (py_or (json_get list_record ''Names'')
            (py_or (json_get list_record ''Name'') (json_get list_record ''Repository'')))
      in if v = JNull then None
         else (let text = str_strip (json_str env v)
               in non_empty (if kind = ''container'' then dropWhile (\<lambda>c. c = slash) text else text)))"

definition owner_image :: "docker_env \<Rightarrow> string \<Rightarrow> docker_record \<Rightarrow> docker_record \<Rightarrow> string option" where
  "owner_image env kind payload list_record =
     (let v = py_or (json_get list_record ''Image'') (json_get payload ''Image'');
          repository = json_get list_record ''Repository''; tag = json_get list_record ''Tag'';
          v = (if v = JNull \<and> kind = ''image'' \<and> repository \<noteq> JNull \<and> tag \<noteq> JNull
               then JStr (json_str env repository @ '':'' @ json_str env tag) else v)
      in if v = JNull then None else non_empty (str_strip (json_str env v)))"

definition owner_active :: "docker_env \<Rightarrow> string \<Rightarrow> docker_record \<Rightarrow> docker_record \<Rightarrow> bool option" where
  "owner_active env kind payload list_record =
     (if kind \<noteq> ''container'' then None
      else (case (case json_get payload ''State'' of JObj state \<Rightarrow> json_get state ''Running'' | _ \<Rightarrow> JNull) of
              JBool running \<Rightarrow> Some running
            | _ \<Rightarrow>
                (let status = py_or (json_get list_record ''State'') (json_get list_record ''Status'')
                 in if status = JNull then None
                    else Some (map lower_char (str_strip (json_str env status)) = ''running''))))"

definition storage_owner_from_inspect ::
    "docker_env \<Rightarrow> string \<Rightarrow> string \<Rightarrow> docker_record \<Rightarrow> bytes \<Rightarrow> string \<Rightarrow> report_error + docker_storage_owner option" where
  "storage_owner_from_inspect env kind object_id list_record stdout source_command =
     map_sum id (\<lambda>(records, _).
         (let payload = (case records of [] \<Rightarrow> [] | r # _ \<Rightarrow> r);
              strings = walk_strings (JObj payload);
              snapshot_ids = sort (remdups (extract_matches strings containerd_snapshot_pattern));
              overlay_ids = sort (remdups (extract_matches strings docker_overlay_pattern))
          in if payload = [] \<or> snapshot_ids = [] \<and> overlay_ids = [] then None
             else Some \<lparr> ow_kind = kind, ow_object_id = object_id, ow_name = owner_name env kind payload list_record,
                    ow_image = owner_image env kind payload list_record, ow_active = owner_active env kind payload list_record,
                    ow_snapshot_ids = snapshot_ids, ow_overlay_ids = overlay_ids, ow_source_command = source_command \<rparr>))
       (iter_json_lines env stdout)"

type_synonym owners_found = "docker_storage_owner list \<times> report_warning list"

definition inspect_owner ::
    "docker_env \<Rightarrow> docker_runner \<Rightarrow> string \<Rightarrow> (string \<times> docker_record) list \<Rightarrow> owners_found \<Rightarrow> string \<Rightarrow> report_error + owners_found" where
  "inspect_owner env runner kind records_by_id = (\<lambda>(owners, warnings) object_id.
     (let command = ''docker inspect --type '' @ kind @ '' <id>'';
          (stdout, ok, ws) = run_probe runner [''docker'', ''inspect'', ''--type'', kind, object_id] command
      in if ok \<noteq> Some True then Inr (owners, warnings @ ws)
         else map_sum id (\<lambda>owner. (owners @ (case owner of None \<Rightarrow> [] | Some o' \<Rightarrow> [o']), warnings @ ws))
                (storage_owner_from_inspect env kind object_id (dict_get records_by_id object_id []) stdout command)))"

definition collect_storage_owner_kind ::
    "docker_env \<Rightarrow> docker_runner \<Rightarrow> report_warning list \<Rightarrow> string list \<Rightarrow> string \<Rightarrow> string \<Rightarrow> report_error + owners_found" where
  "collect_storage_owner_kind env runner warnings ls_argv ls_command kind =
     (let (stdout, ok, ws) = run_probe runner ls_argv ls_command
      in if ok \<noteq> Some True then Inr ([], warnings @ ws)
         else (case iter_json_lines env stdout of
                 Inl e \<Rightarrow> Inl e
               | Inr (records, parse_warnings) \<Rightarrow>
                   (let object_ids = List.map_filter (docker_object_id env) records;
                        records_by_id = dict_of (List.map_filter (\<lambda>r. map_option (\<lambda>i. (i, r)) (docker_object_id env r)) records);
                        cut = (if int (length object_ids) > MAX_OWNER_INSPECTS
                               then [warn ''docker_storage_owner_truncated''
                                       (''inspected first '' @ int_str MAX_OWNER_INSPECTS @ '' '' @ kind @ '' objects for storage ownership hints'')
                                       None] else [])
                    in fold_err (inspect_owner env runner kind records_by_id) ([], warnings @ ws @ parse_warnings @ cut)
                         (py_prefix MAX_OWNER_INSPECTS object_ids))))"

definition owner_order :: "docker_storage_owner \<Rightarrow> string \<times> string \<times> string" where
  "owner_order owner = (ow_kind owner, case ow_name owner of None \<Rightarrow> [] | Some n \<Rightarrow> n, ow_object_id owner)"

definition collect_storage_owners :: "docker_env \<Rightarrow> docker_runner \<Rightarrow> report_warning list \<Rightarrow> report_error + owners_found" where
  "collect_storage_owners env runner warnings =
     (case collect_storage_owner_kind env runner warnings container_ls_argv container_ls_command ''container'' of
        Inl e \<Rightarrow> Inl e
      | Inr (containers, ws) \<Rightarrow>
          map_sum id (\<lambda>(images, ws'). (sort_key owner_order (containers @ images), ws'))
            (collect_storage_owner_kind env runner ws image_ls_argv image_ls_command ''image''))"

subsection \<open>The enrichment\<close>

record docker_collection_state =
  cs_categories :: "docker_category list"
  cs_build_cache_entries :: "docker_build_cache_entry list"
  cs_storage_owners :: "docker_storage_owner list"
  cs_warnings :: "report_warning list"
  cs_docker_available :: bool

definition docker_unavailable_warning :: report_warning where
  "docker_unavailable_warning =
     warn ''docker_unavailable'' ''docker CLI not found; Docker enrichment is unavailable'' None"

text \<open>With either probe, the owners of storage are looked for and the totals of the build cache compared.\<close>

definition finish_docker_state ::
    "docker_env \<Rightarrow> docker_runner \<Rightarrow> bool option \<Rightarrow> bool option \<Rightarrow> docker_category list \<Rightarrow> docker_build_cache_entry list
     \<Rightarrow> report_warning list \<Rightarrow> report_error + docker_collection_state" where
  "finish_docker_state env runner df_ok du_ok categories entries warnings =
     (let available = (df_ok = Some True \<or> du_ok = Some True)
      in map_sum id (\<lambda>(owners, warnings).
             \<lparr> cs_categories = categories, cs_build_cache_entries = entries, cs_storage_owners = owners,
               cs_warnings = warnings
                 @ (if available then append_build_cache_reclaimability_warning categories entries else [])
                 @ (if df_ok = None \<and> du_ok = None then [docker_unavailable_warning] else []),
               cs_docker_available = available \<rparr>)
           (if available then collect_storage_owners env runner warnings else Inr ([], warnings)))"

definition collect_docker_state :: "docker_env \<Rightarrow> docker_runner \<Rightarrow> report_error + docker_collection_state" where
  "collect_docker_state env runner =
     (let (df_stdout, df_ok, df_warnings) = run_probe runner system_df_argv system_df_command in
      case (if df_ok = Some True then parse_docker_system_df env df_stdout else Inr ([], [])) of
        Inl e \<Rightarrow> Inl e
      | Inr (categories, df_parse_warnings) \<Rightarrow>
          (let (du_stdout, du_ok, du_warnings) = run_probe runner buildx_du_argv buildx_du_command in
           case (if du_ok = Some True then map_sum id (\<lambda>(entries, _, ws). (entries, ws)) (parse_docker_buildx_du env du_stdout)
                 else Inr ([], [])) of
             Inl e \<Rightarrow> Inl e
           | Inr (entries, du_parse_warnings) \<Rightarrow>
               finish_docker_state env runner df_ok du_ok categories entries
                 (df_warnings @ df_parse_warnings @ du_warnings @ du_parse_warnings)))"

definition has_prefix :: "bytes \<Rightarrow> bytes \<Rightarrow> bool" where
  "has_prefix path_bytes p \<longleftrightarrow> path_bytes = p \<or> startswith path_bytes (p @ [slash])"

definition snapshot_ids_from_hints :: "docker_env \<Rightarrow> bytes list \<Rightarrow> string list" where
  "snapshot_ids_from_hints env paths = concat (map (\<lambda>p. find_components containerd_snapshot_pattern (dk_decode env p)) paths)"

definition containerd_unavailable_warning :: report_warning where
  "containerd_unavailable_warning =
     warn ''containerd_enrichment_unavailable''
       ''containerd path hints detected but no containerd-native probe is implemented; these are path context only, not reclaimable/active category totals''
       None"

definition docker_enrichment_of :: "docker_env \<Rightarrow> bytes list \<Rightarrow> int \<Rightarrow> string \<Rightarrow> docker_collection_state \<Rightarrow> docker_enrichment" where
  "docker_enrichment_of env indexed_path_hints limit generated_at state =
     (let entries = sort_key_rev be_size_bytes (cs_build_cache_entries state);
          shown = py_prefix limit entries;
          docker_hints = filter (\<lambda>h. has_prefix h docker_prefix) indexed_path_hints;
          containerd_hints = filter (\<lambda>h. has_prefix h containerd_prefix) indexed_path_hints;
          owner_ids = concat (map ow_snapshot_ids (cs_storage_owners state));
          containerd_available = list_ex (\<lambda>i. i \<in> set owner_ids) (snapshot_ids_from_hints env containerd_hints)
      in \<lparr> de_ok = True, de_limit = limit, de_effective_limit = limit, de_generated_at = generated_at,
           de_docker_available = cs_docker_available state, de_containerd_available = containerd_available,
           de_categories = cs_categories state, de_build_cache_entries = shown,
           de_build_cache_totals = build_cache_totals_of entries shown,
           de_build_cache_truncated = int (length entries) > limit, de_storage_owners = cs_storage_owners state,
           de_docker_path_hints = docker_hints, de_containerd_path_hints = containerd_hints,
           de_verification_commands = docker_verification_commands,
           de_warnings = cs_warnings state
             @ (if containerd_hints \<noteq> [] \<and> \<not> containerd_available then [containerd_unavailable_warning] else []) \<rparr>)"

definition collect_docker_enrichment ::
    "docker_env \<Rightarrow> bytes list \<Rightarrow> int \<Rightarrow> docker_runner \<Rightarrow> string \<Rightarrow> report_error + docker_enrichment" where
  "collect_docker_enrichment env indexed_path_hints limit runner generated_at =
     map_sum id (docker_enrichment_of env indexed_path_hints limit generated_at) (collect_docker_state env runner)"

subsection \<open>Paths of the index under the Docker directories\<close>

definition docker_hint_prefixes :: "bytes list" where
  "docker_hint_prefixes = [docker_prefix, containerd_prefix]"

text \<open>The paths a snapshot has a row for: those of its intervals if it is complete, of its diagnostic rows if not.\<close>

definition hint_rows :: "db \<Rightarrow> snapshot_record \<Rightarrow> bytes \<Rightarrow> bytes list" where
  "hint_rows d snapshot p =
     filter (\<lambda>path. has_prefix path p)
       (List.map_filter (\<lambda>(path_id, _). map_of (db_paths d) path_id) (snapshot_state d (sr_id snapshot)))"

definition collect_indexed_docker_path_hints :: "db \<Rightarrow> report_error + bytes list" where
  "collect_indexed_docker_path_hints d =
     (case resolve_top_snapshot_selection ''latest'' d of
        Inl (Report_error _ _) \<Rightarrow> Inr []
      | Inl e \<Rightarrow> Inl e
      | Inr snapshots \<Rightarrow>
          Inr (dedupe_on id (concat (map (\<lambda>s. concat (map (hint_rows d s) docker_hint_prefixes)) snapshots))))"

definition run_docker_enrichment ::
    "docker_env \<Rightarrow> db option \<Rightarrow> string option \<Rightarrow> docker_runner \<Rightarrow> string \<Rightarrow> report_error + docker_enrichment" where
  "run_docker_enrichment env db_arg raw_limit runner generated_at =
     (case parse_report_limit raw_limit of
        Inl e \<Rightarrow> Inl e
      | Inr limit \<Rightarrow>
          (case (case db_arg of None \<Rightarrow> Inr [] | Some d \<Rightarrow> collect_indexed_docker_path_hints d) of
             Inl e \<Rightarrow> Inl e
           | Inr hints \<Rightarrow> collect_docker_enrichment env hints limit runner generated_at))"

end
