(* ===== verification/Pressure_Summary.thy ===== *)
theory Pressure_Summary
  imports Df_Index
begin

text \<open>
  \<open>diagnostics/summary.py\<close>: the compact summary of disk pressure, put together from the df comparison, the growth
  of the report, the deleted open files and docker, without looking at the system again.
\<close>

subsection \<open>Limits and texts\<close>

definition DEFAULT_MAX_SECTIONS :: int where "DEFAULT_MAX_SECTIONS = 4"
definition DEFAULT_MAX_ITEMS_PER_SECTION :: int where "DEFAULT_MAX_ITEMS_PER_SECTION = 5"
definition CAPACITY_PRESSURE_RATIO :: real where "CAPACITY_PRESSURE_RATIO = 85 / 100"
definition MAX_GLOBAL_NEXT_CHECKS :: nat where "MAX_GLOBAL_NEXT_CHECKS = 5"

definition DELETED_OPEN_CHECK :: string where "DELETED_OPEN_CHECK = ''watchdirs deleted-open-files''"
definition DF_INDEX_CHECK :: string where "DF_INDEX_CHECK = ''watchdirs df-vs-index''"
definition DOCKER_CHECK :: string where "DOCKER_CHECK = ''watchdirs docker-enrichment''"
definition DF_CHECK :: string where "DF_CHECK = ''df -h''"

record pressure_summary_limits =
  pl_max_sections :: int
  pl_max_items_per_section :: int

definition DEFAULT_PRESSURE_SUMMARY_LIMITS :: pressure_summary_limits where
  "DEFAULT_PRESSURE_SUMMARY_LIMITS =
     \<lparr> pl_max_sections = DEFAULT_MAX_SECTIONS, pl_max_items_per_section = DEFAULT_MAX_ITEMS_PER_SECTION \<rparr>"

record section_context =
  sx_docker_facts :: "string list"
  sx_docker_checks :: "string list"
  sx_deleted_open :: "deleted_open_diagnostic option"

record section_build_state =
  sb_facts :: "string list"
  sb_next_checks :: "string list"
  sb_hints :: "diagnostic_hint list"

definition dedupe_preserve :: "string list \<Rightarrow> string list" where
  "dedupe_preserve items = dedupe_on id items"

subsection \<open>Figures of a section\<close>

definition usage_ratio :: "float_ops \<Rightarrow> df_index_section \<Rightarrow> real option" where
  "usage_ratio fl s =
     (if \<not> di_filesystem_stat_available s then None
      else (case di_df_usage s of
              None \<Rightarrow> None
            | Some usage \<Rightarrow>
                if us_size_bytes usage \<le> 0 then None
                else Some (fl_round fl (of_int (us_used_bytes usage) / of_int (us_size_bytes usage)))))"

definition or0 :: "int option \<Rightarrow> int" where "or0 x = (case x of None \<Rightarrow> 0 | Some n \<Rightarrow> n)"

definition is_material :: "float_ops \<Rightarrow> df_index_section \<Rightarrow> bool" where
  "is_material fl s =
     (if di_likely_reasons s \<noteq> [] then True
      else or0 (di_unattributed_bytes s) \<ge> MISMATCH_MIN_BYTES
           \<and> (case di_unattributed_ratio s of None \<Rightarrow> 0 | Some r \<Rightarrow> r) \<ge> fl_round fl MISMATCH_MIN_RATIO)"

definition is_accounting_alias_section :: "df_index_section \<Rightarrow> bool" where
  "is_accounting_alias_section s \<longleftrightarrow> ''overlay_mount_reuses_parent_filesystem_usage'' \<in> set (di_coverage_reason_codes s)"

definition section_rank_key :: "float_ops \<Rightarrow> df_index_section \<Rightarrow> int \<times> int \<times> real \<times> int" where
  "section_rank_key fl s =
     (if di_filesystem_stat_available s then 1 else 0, or0 (di_unattributed_bytes s),
      case usage_ratio fl s of None \<Rightarrow> 0 | Some r \<Rightarrow> r, or0 (di_over_indexed_bytes s))"

subsection \<open>Parts of a section\<close>

text \<open>Each of these appends to the facts, the next checks and the hints built so far.\<close>

definition hint_of :: "string \<Rightarrow> string \<Rightarrow> string list \<Rightarrow> string \<Rightarrow> diagnostic_hint" where
  "hint_of code message checks key =
     \<lparr> dh_code = code, dh_message = message, dh_next_checks = checks, dh_storage_domain_key = Some key \<rparr>"

definition append_to_state :: "string list \<Rightarrow> string list \<Rightarrow> diagnostic_hint list \<Rightarrow> section_build_state \<Rightarrow> section_build_state" where
  "append_to_state facts checks hints st =
     st\<lparr> sb_facts := sb_facts st @ facts, sb_next_checks := sb_next_checks st @ checks, sb_hints := sb_hints st @ hints \<rparr>"

definition append_unavailable_section :: "string \<Rightarrow> df_index_section \<Rightarrow> section_build_state \<Rightarrow> section_build_state" where
  "append_unavailable_section key s =
     append_to_state
       [''evidence: live filesystem stat unavailable ('' @ di_filesystem_status s @ ''); ''
        @ ''indexed totals shown without a df comparison'']
       [DF_CHECK, DF_INDEX_CHECK]
       [hint_of ''filesystem_stat_unavailable''
          (''storage-domain '' @ key @ '' could not be statted; the mountpoint may be stale or absent'') [DF_CHECK, DF_INDEX_CHECK] key]"

definition append_live_usage_facts :: "df_index_section \<Rightarrow> real option \<Rightarrow> section_build_state \<Rightarrow> section_build_state" where
  "append_live_usage_facts s ratio =
     append_to_state
       ((case di_df_used_bytes s of
           None \<Rightarrow> []
         | Some used \<Rightarrow> [''evidence: df used '' @ int_str used @ '' bytes vs indexed visible ''
                        @ int_str (di_indexed_visible_disk_bytes s) @ '' bytes''])
        @ (case ratio of None \<Rightarrow> [] | Some r \<Rightarrow> [''evidence: filesystem usage ratio '' @ fixed3 r])) [] []"

definition evidence_is_partial :: "df_index_section \<Rightarrow> bool" where
  "evidence_is_partial s \<longleftrightarrow>
     di_partial_snapshot_count s > 0 \<or> list_ex (\<lambda>status. status \<noteq> ''complete'') (di_snapshot_statuses s)
     \<or> ''indexed_paths_skipped'' \<in> set (di_coverage_reason_codes s)"

definition deleted_open_evidence :: "section_context \<Rightarrow> bool" where
  "deleted_open_evidence context \<longleftrightarrow>
     (case sx_deleted_open context of None \<Rightarrow> False | Some dg \<Rightarrow> ot_total_size_bytes (od_totals dg) > 0)"

definition append_unattributed_section ::
    "string \<Rightarrow> df_index_section \<Rightarrow> int \<Rightarrow> section_context \<Rightarrow> section_build_state \<Rightarrow> section_build_state" where
  "append_unattributed_section key s unattributed context st =
     (let scope_extends = di_filesystem_scope_extends_beyond_indexed_roots s;
          is_partial = evidence_is_partial s;
          st = append_to_state
            [''likely reason: '' @ int_str unattributed @ '' bytes of filesystem usage are not attributed to indexed directories'']
            [DF_INDEX_CHECK]
            [hint_of ''unattributed_usage''
               (''storage-domain '' @ key @ '' has '' @ int_str unattributed @ '' unattributed bytes; ''
                @ ''investigate evidence gaps before any action'') [DF_INDEX_CHECK, DOCKER_CHECK] key] st;
          st = (if scope_extends then append_to_state
            [''likely reason: indexed roots cover only part of the filesystem; the remainder may be outside scanned scope''] []
            [hint_of ''filesystem_scope_extends_beyond_indexed_roots''
               (''storage-domain '' @ key @ '' remainder is explained by partial ''
                @ ''filesystem coverage, not necessarily deleted-open files'') [DF_INDEX_CHECK] key] st else st);
          st = (if is_partial then append_to_state
            [''likely reason: selected snapshot evidence is non-complete; ''
             @ ''remainder cannot confirm deleted-open files alone''] []
            [hint_of ''partial_snapshot_evidence''
               (''storage-domain '' @ key @ '' has partial snapshot evidence; ''
                @ ''deleted-open suspicion needs an independent probe'') [DELETED_OPEN_CHECK] key] st else st)
      in if (\<not> scope_extends \<and> \<not> is_partial) \<or> deleted_open_evidence context
         then append_to_state
            [''likely reason: deleted-but-open files may still hold the missing space''] [DELETED_OPEN_CHECK]
            [hint_of ''deleted_open_file_suspected''
               (''storage-domain '' @ key @ '' remainder may be held by deleted-open files; verify with a live probe'')
               [DELETED_OPEN_CHECK] key] st
         else st)"

definition append_over_indexed_section :: "string \<Rightarrow> int \<Rightarrow> section_build_state \<Rightarrow> section_build_state" where
  "append_over_indexed_section key over_indexed =
     append_to_state
       [''evidence: indexed totals exceed df used by '' @ int_str over_indexed @ '' bytes (snapshot skew or stale index)'']
       [DF_INDEX_CHECK]
       [hint_of ''over_indexed_skew''
          (''storage-domain '' @ key @ '' indexed totals exceed live df by '' @ int_str over_indexed
           @ '' bytes; re-collect to refresh the index'') [DF_INDEX_CHECK] key]"

definition append_capacity_section :: "string \<Rightarrow> section_build_state \<Rightarrow> section_build_state" where
  "append_capacity_section key =
     append_to_state
       [''next check: filesystem is near capacity; consider evaluating an upgrade, ''
        @ ''data migration, or older-disk repurposing''] []
       [hint_of ''capacity_pressure''
          (''storage-domain '' @ key @ '' is near capacity with little unexplained usage; evaluate capacity options'')
          [DF_INDEX_CHECK] key]"

definition empty_build_state :: section_build_state where
  "empty_build_state = \<lparr> sb_facts = [], sb_next_checks = [], sb_hints = [] \<rparr>"

text \<open>The branches of \<open>_build_section\<close> on the state of the file system.\<close>

definition section_findings :: "float_ops \<Rightarrow> section_context \<Rightarrow> df_index_section \<Rightarrow> section_build_state" where
  "section_findings fl context s =
     (let key = gl_key (di_storage_domain s); ratio = usage_ratio fl s in
      if \<not> di_filesystem_stat_available s then append_unavailable_section key s empty_build_state
      else
        (let unattributed = or0 (di_unattributed_bytes s);
             over_indexed = or0 (di_over_indexed_bytes s);
             material = (''deleted_open_file_suspected'' \<in> set (di_likely_reasons s) \<or> is_material fl s);
             st = append_live_usage_facts s ratio empty_build_state
         in if unattributed > 0 \<and> material then append_unattributed_section key s unattributed context st
            else if over_indexed > 0 then append_over_indexed_section key over_indexed st
            else if (case ratio of None \<Rightarrow> False | Some r \<Rightarrow> r \<ge> fl_round fl CAPACITY_PRESSURE_RATIO)
            then append_capacity_section key st
            else st))"

definition build_pressure_section ::
    "float_ops \<Rightarrow> section_context \<Rightarrow> int \<Rightarrow> df_index_section \<Rightarrow> int \<Rightarrow> pressure_summary_section \<times> diagnostic_hint list" where
  "build_pressure_section fl context max_items s recent_growth =
     (let st = section_findings fl context s;
          st = (if recent_growth > 0
                then append_to_state [''evidence: recent growth '' @ int_str recent_growth @ '' bytes from report frontier''] [] [] st
                else st);
          st = (if sx_docker_facts context \<noteq> []
                then append_to_state (sx_docker_facts context) (sx_docker_checks context) [] st else st);
          truncated = (int (length (sb_facts st)) > max_items \<or> int (length (sb_next_checks st)) > max_items)
      in (\<lparr> ps_storage_domain_key = gl_key (di_storage_domain s), ps_mount_point = gl_mount_point (di_storage_domain s),
            ps_filesystem_stat_available = di_filesystem_stat_available s, ps_filesystem_status = di_filesystem_status s,
            ps_df_used_bytes = di_df_used_bytes s, ps_indexed_visible_disk_bytes = di_indexed_visible_disk_bytes s,
            ps_unattributed_bytes = di_unattributed_bytes s, ps_over_indexed_bytes = di_over_indexed_bytes s,
            ps_filesystem_usage_ratio = usage_ratio fl s, ps_recent_growth_disk_bytes = recent_growth,
            ps_coverage_reason_codes = di_coverage_reason_codes s, ps_snapshot_statuses = di_snapshot_statuses s,
            ps_facts = py_prefix max_items (sb_facts st),
            ps_next_checks = py_prefix max_items (dedupe_preserve (sb_next_checks st)), ps_truncated = truncated \<rparr>,
          sb_hints st))"

subsection \<open>The summary\<close>

definition docker_category_facts :: "docker_enrichment option \<Rightarrow> string list" where
  "docker_category_facts docker =
     (case docker of
        None \<Rightarrow> []
      | Some d \<Rightarrow>
          if \<not> de_docker_available d then []
          else take 1 (List.map_filter (\<lambda>c. case dc_reclaimable_bytes c of
                   None \<Rightarrow> None
                 | Some n \<Rightarrow> if n = 0 then None
                     else Some (''evidence: docker '' @ dc_kind c @ '' reclaimable '' @ int_str n @ '' bytes'')) (de_categories d)))"

definition growth_by_domain :: "report_group_summary list \<Rightarrow> (string \<times> int) list" where
  "growth_by_domain report_groups =
     foldl (\<lambda>growth g. case rg_group g of
         None \<Rightarrow> growth
       | Some label \<Rightarrow> AList.update (gl_key label) (dict_get growth (gl_key label) 0 + rg_disk_bytes_delta g) growth) [] report_groups"

definition global_next_checks :: "pressure_summary_section list \<Rightarrow> string list" where
  "global_next_checks sections = take MAX_GLOBAL_NEXT_CHECKS (dedupe_preserve (concat (map ps_next_checks sections)))"

definition summary_context :: "deleted_open_diagnostic option \<Rightarrow> docker_enrichment option \<Rightarrow> section_context" where
  "summary_context deleted_open docker =
     \<lparr> sx_docker_facts = docker_category_facts docker,
       sx_docker_checks = (case docker of Some d \<Rightarrow> if de_docker_available d then [DOCKER_CHECK] else [] | None \<Rightarrow> []),
       sx_deleted_open = deleted_open \<rparr>"

definition ranked_sections :: "float_ops \<Rightarrow> df_index_section list \<Rightarrow> df_index_section list" where
  "ranked_sections fl sections = sort_key_rev (section_rank_key fl) (filter (\<lambda>s. \<not> is_accounting_alias_section s) sections)"

definition build_compact_pressure_summary ::
    "float_ops \<Rightarrow> df_index_diagnostic \<Rightarrow> report_group_summary list \<Rightarrow> deleted_open_diagnostic option \<Rightarrow> docker_enrichment option
     \<Rightarrow> pressure_summary_limits \<Rightarrow> pressure_summary" where
  "build_compact_pressure_summary fl df_index report_groups deleted_open docker limits =
     (let growth = growth_by_domain report_groups;
          context = summary_context deleted_open docker;
          ranked = ranked_sections fl (dd_filesystems df_index);
          built = map (\<lambda>s. build_pressure_section fl context (pl_max_items_per_section limits) s
                         (dict_get growth (gl_key (di_storage_domain s)) 0)) (py_prefix (pl_max_sections limits) ranked);
          warnings = dd_warnings df_index @ (case docker of None \<Rightarrow> [] | Some d \<Rightarrow> de_warnings d)
      in \<lparr> pm_sections = map fst built, pm_diagnostic_hints = concat (map snd built),
           pm_next_checks = global_next_checks (map fst built),
           pm_limits = [(''max_sections'', pl_max_sections limits), (''max_items_per_section'', pl_max_items_per_section limits)],
           pm_truncated_sections = (int (length ranked) > pl_max_sections limits),
           pm_warnings = dedupe_warnings warnings \<rparr>)"

end
