(* ===== verification/Render.thy ===== *)
theory Render
  imports Text_Escape Docker Pressure_Summary
begin

text \<open>
  The JSON documents of \<open>reporting/render.py\<close>.  A \<open>dict\<close> of the code is a \<open>JObj\<close> with its keys in order; a
  path is written as text and as the hexadecimal digits of its bytes.
\<close>

subsection \<open>Values\<close>

definition jopt :: "('a \<Rightarrow> json) \<Rightarrow> 'a option \<Rightarrow> json" where
  "jopt f v = (case v of None \<Rightarrow> JNull | Some x \<Rightarrow> f x)"

definition jstrs :: "string list \<Rightarrow> json" where
  "jstrs xs = JArr (map JStr xs)"

definition jints :: "(string \<times> int) list \<Rightarrow> json" where
  "jints kvs = JObj (map (\<lambda>(k, v). (k, JInt v)) kvs)"

definition path_payload :: "bytes \<Rightarrow> (string \<times> json) list" where
  "path_payload path_bytes = [(''path'', JStr path_bytes), (''path_bytes_hex'', JStr (hex_str path_bytes))]"

text \<open>\<open>f"{x:.1f}"\<close>.\<close>

definition fixed1 :: "real \<Rightarrow> string" where
  "fixed1 x = (let n = py_round (10 * \<bar>x\<bar>) in (if x < 0 then ''-'' else []) @ int_str (n div 10) @ ''.'' @ int_str (n mod 10))"

text \<open>Division by the base up to the first unit whose figure is small enough, or the last unit.\<close>

fun scale_unit :: "float_ops \<Rightarrow> real \<Rightarrow> real \<Rightarrow> string list \<Rightarrow> real \<times> string" where
  "scale_unit fl base magnitude [] = (magnitude, [])"
| "scale_unit fl base magnitude [u] = (magnitude, u)"
| "scale_unit fl base magnitude (u # v # us) =
     (if \<bar>magnitude\<bar> < base then (magnitude, u) else scale_unit fl base (fl_round fl (magnitude / base)) (v # us))"

definition byte_units :: "string list" where "byte_units = [''B'', ''KiB'', ''MiB'', ''GiB'', ''TiB'', ''PiB'']"
definition count_units :: "string list" where "count_units = [[], ''k'', ''M'', ''B'', ''T'']"

definition humanize_bytes :: "float_ops \<Rightarrow> int option \<Rightarrow> string option" where
  "humanize_bytes fl val = map_option (\<lambda>n.
     (let sign = (if n < 0 then ''-'' else []);
          (magnitude, u) = scale_unit fl 1024 (fl_round fl (of_int \<bar>n\<bar>)) byte_units
      in if u = ''B'' then sign @ int_str (trunc magnitude) @ '' B'' else sign @ fixed1 magnitude @ '' '' @ u)) val"

definition human_count :: "float_ops \<Rightarrow> int \<Rightarrow> string" where
  "human_count fl n =
     (let (magnitude, u) = scale_unit fl 1000 (fl_round fl (of_int n)) count_units
      in if u = [] then int_str n else fixed1 magnitude @ u)"

definition human_optional_count :: "float_ops \<Rightarrow> int option \<Rightarrow> string" where
  "human_optional_count fl val = (case val of None \<Rightarrow> ''-'' | Some n \<Rightarrow> human_count fl n)"

definition humanize_duration :: "real option \<Rightarrow> string option" where
  "humanize_duration seconds = map_option (\<lambda>s.
     (if s < 60 then fixed1 s @ ''s''
      else (let total = max (py_round s) 0;
                hours = total div 3600;
                minutes = total mod 3600 div 60
            in (if hours \<noteq> 0 then int_str hours @ ''h'' else [])
               @ (if minutes \<noteq> 0 \<or> hours \<noteq> 0 then int_str minutes @ ''m'' else [])
               @ int_str (total mod 3600 mod 60) @ ''s''))) seconds"

definition seconds_float :: "float_ops \<Rightarrow> rat option \<Rightarrow> real option" where
  "seconds_float fl = map_option (\<lambda>s. fl_round fl (of_rat s))"

subsection \<open>Parts of a document\<close>

definition snapshot_display_status :: "snapshot_record \<Rightarrow> string" where
  "snapshot_display_status s =
     (if sr_status s = FAILED \<and> sr_finished_at s = None then ''running'' else status_value (sr_status s))"

definition snapshot_payload :: "snapshot_record \<Rightarrow> json" where
  "snapshot_payload s = JObj
     [(''id'', JInt (sr_id s)), (''root_path'', JStr (sr_root_path s)), (''started_at'', JStr (sr_started_at s)),
      (''finished_at'', jopt JStr (sr_finished_at s)), (''status'', JStr (snapshot_display_status s)),
      (''error'', jopt JStr (sr_error s))]"

definition group_payload :: "group_label option \<Rightarrow> json" where
  "group_payload = jopt (\<lambda>g. JObj
     ([(''kind'', JStr (gl_kind g)), (''key'', JStr (gl_key g))]
      @ (case gl_mount_point g of None \<Rightarrow> [] | Some p \<Rightarrow> [(''mount_point'', JStr p)])
      @ (case gl_filesystem_type g of None \<Rightarrow> [] | Some t \<Rightarrow> [(''filesystem_type'', JStr t)])
      @ (case gl_mount_source g of None \<Rightarrow> [] | Some s \<Rightarrow> [(''mount_source'', JStr s)])
      @ (case gl_major_minor g of None \<Rightarrow> [] | Some m \<Rightarrow> [(''major_minor'', JStr m)])
      @ (case gl_root g of None \<Rightarrow> [] | Some r \<Rightarrow> [(''root'', JStr r)])))"

definition warning_payload :: "report_warning \<Rightarrow> json" where
  "warning_payload w = JObj
     ([(''code'', JStr (rw_code w)), (''message'', JStr (rw_message w))]
      @ (case rw_path w of None \<Rightarrow> [] | Some p \<Rightarrow> [(''path'', JStr p)]))"

definition dedupe_rendered_warnings :: "report_warning list \<Rightarrow> json" where
  "dedupe_rendered_warnings warnings = JArr (map warning_payload (dedupe_on (\<lambda>w. (rw_code w, rw_path w)) warnings))"

definition pair_payload :: "snapshot_pair \<Rightarrow> json" where
  "pair_payload pair = JObj
     ([(''root_path'', JStr (sp_root_path pair)), (''baseline'', snapshot_payload (sp_baseline pair)),
       (''current'', snapshot_payload (sp_current pair)), (''warning_codes'', jstrs (sp_warning_codes pair))]
      @ (case sp_requested_path pair of
           None \<Rightarrow> []
         | Some requested \<Rightarrow>
             [(''path_history'', JObj
                [(''requested_path'', JStr (escape_text_field requested)),
                 (''baseline_path'', jopt (\<lambda>p. JStr (escape_text_field p)) (sp_baseline_path pair)),
                 (''current_path'', jopt (\<lambda>p. JStr (escape_text_field p)) (sp_current_path pair)),
                 (''baseline_storage_domain'', group_payload (sp_baseline_storage_domain pair)),
                 (''current_storage_domain'', group_payload (sp_current_storage_domain pair)),
                 (''correspondence'', JStr ''requested_alias_and_stored_paths''),
                 (''classification_metric'', JStr ''apparent_bytes'')])]))"

definition or_0 :: "int option \<Rightarrow> int" where
  "or_0 v = (case v of None \<Rightarrow> 0 | Some n \<Rightarrow> n)"

definition current_hardlink_payload :: "int option \<Rightarrow> int option \<Rightarrow> int option \<Rightarrow> int option \<Rightarrow> json" where
  "current_hardlink_payload file_count duplicate_count duplicate_disk_bytes first_seen_disk_bytes = JObj
     [(''sensitive'', JBool (or_0 file_count > 0)), (''file_count'', JInt (or_0 file_count)),
      (''duplicate_count'', JInt (or_0 duplicate_count)), (''duplicate_disk_bytes'', JInt (or_0 duplicate_disk_bytes)),
      (''first_seen_disk_bytes'', JInt (or_0 first_seen_disk_bytes))]"

definition snapshot_summary_payload :: "float_ops \<Rightarrow> snapshot_summary \<Rightarrow> json" where
  "snapshot_summary_payload fl s = JObj
     [(''snapshot'', snapshot_payload (ss_snapshot s)), (''display_status'', JStr (snapshot_display_status (ss_snapshot s))),
      (''processing_seconds'', jopt JFloat (seconds_float fl (ss_processing_seconds s))),
      (''processing_human'', jopt JStr (humanize_duration (seconds_float fl (ss_processing_seconds s)))),
      (''row_count'', JInt (ss_row_count s)), (''collapsed_row_count'', JInt (ss_collapsed_row_count s)),
      (''error_row_count'', JInt (ss_error_row_count s)),
      (''indexed_apparent_bytes'', jopt JInt (ss_indexed_apparent_bytes s)),
      (''indexed_apparent_bytes_human'', jopt JStr (humanize_bytes fl (ss_indexed_apparent_bytes s))),
      (''indexed_disk_bytes'', jopt JInt (ss_indexed_disk_bytes s)),
      (''indexed_disk_bytes_human'', jopt JStr (humanize_bytes fl (ss_indexed_disk_bytes s))),
      (''file_count'', jopt JInt (ss_file_count s)), (''dir_count'', jopt JInt (ss_dir_count s)),
      (''hardlinks'', current_hardlink_payload (ss_hardlink_file_count s) (ss_hardlink_duplicate_count s)
         (ss_hardlink_duplicate_disk_bytes s) (ss_hardlink_first_seen_disk_bytes s))]"

text \<open>
  The metadata of a collapsed row, from \<open>collapse_reason\<close>, \<open>collapsed_dirs\<close>, \<open>top_child_path\<close> and
  \<open>top_child_disk_bytes\<close>; the size of the top child is a field of its own name.
\<close>

definition collapse_payload ::
    "bool \<Rightarrow> string option \<Rightarrow> int option \<Rightarrow> bytes option \<Rightarrow> (string \<times> json) list \<Rightarrow> (string \<times> json) list" where
  "collapse_payload collapsed reason dirs top_child size_field =
     (if \<not> collapsed then []
      else [(''collapsed'', JBool True)]
        @ (case reason of None \<Rightarrow> [] | Some r \<Rightarrow> [(''collapse_reason'', JStr r)])
        @ (case dirs of None \<Rightarrow> [] | Some n \<Rightarrow> [(''collapsed_dirs'', JInt n)])
        @ (case top_child of None \<Rightarrow> [] | Some p \<Rightarrow> [(''top_child'', JObj (path_payload p @ size_field))]))"

definition collapse_metadata_payload ::
    "bool \<Rightarrow> string option \<Rightarrow> int option \<Rightarrow> bytes option \<Rightarrow> int option \<Rightarrow> (string \<times> json) list" where
  "collapse_metadata_payload collapsed reason dirs top_child top_child_disk_bytes =
     collapse_payload collapsed reason dirs top_child
       (case top_child_disk_bytes of None \<Rightarrow> [] | Some n \<Rightarrow> [(''disk_bytes'', JInt n)])"

definition explain_collapse_metadata_payload :: "float_ops \<Rightarrow> diff_row \<Rightarrow> (string \<times> json) list" where
  "explain_collapse_metadata_payload fl row =
     collapse_payload (dr_collapsed row) (dr_collapse_reason row) (dr_collapsed_dirs row) (dr_top_child_path row)
       (case dr_top_child_disk_bytes row of None \<Rightarrow> [] | Some n \<Rightarrow> [(''disk_mib'', JInt (bytes_to_mib fl n))])"

definition diff_collapse_payload :: "diff_row \<Rightarrow> (string \<times> json) list" where
  "diff_collapse_payload row =
     collapse_metadata_payload (dr_collapsed row) (dr_collapse_reason row) (dr_collapsed_dirs row) (dr_top_child_path row)
       (dr_top_child_disk_bytes row)"

subsection \<open>Rows\<close>

definition top_row_payload :: "top_row \<Rightarrow> json" where
  "top_row_payload row = JObj
     ([(''snapshot_id'', JInt (tr_snapshot_id row)), (''root_path'', JStr (tr_root_path row))]
      @ path_payload (tr_path row)
      @ [(''depth'', JInt (tr_depth row)), (''current_disk_bytes'', JInt (tr_current_disk_bytes row)),
         (''current_apparent_bytes'', JInt (tr_current_apparent_bytes row)), (''file_count'', JInt (tr_file_count row)),
         (''dir_count'', JInt (tr_dir_count row)),
         (''hardlinks'', current_hardlink_payload (Some (tr_hardlink_file_count row)) (Some (tr_hardlink_duplicate_count row))
            (Some (tr_hardlink_duplicate_disk_bytes row)) (Some (tr_hardlink_first_seen_disk_bytes row))),
         (''error'', jopt JStr (tr_error row)), (''group'', group_payload (tr_group row))]
      @ collapse_metadata_payload (tr_collapsed row) (tr_collapse_reason row) (tr_collapsed_dirs row) (tr_top_child_path row)
          (tr_top_child_disk_bytes row))"

definition diff_hardlink_payload :: "diff_row \<Rightarrow> json" where
  "diff_hardlink_payload row = JObj
     [(''sensitive'', JBool (dr_previous_hardlink_file_count row > 0 \<or> dr_current_hardlink_file_count row > 0)),
      (''previous_file_count'', JInt (dr_previous_hardlink_file_count row)),
      (''current_file_count'', JInt (dr_current_hardlink_file_count row)),
      (''file_count_delta'', JInt (dr_hardlink_file_count_delta row)),
      (''previous_duplicate_count'', JInt (dr_previous_hardlink_duplicate_count row)),
      (''current_duplicate_count'', JInt (dr_current_hardlink_duplicate_count row)),
      (''duplicate_count_delta'', JInt (dr_hardlink_duplicate_count_delta row)),
      (''previous_duplicate_disk_bytes'', JInt (dr_previous_hardlink_duplicate_disk_bytes row)),
      (''current_duplicate_disk_bytes'', JInt (dr_current_hardlink_duplicate_disk_bytes row)),
      (''duplicate_disk_bytes_delta'', JInt (dr_hardlink_duplicate_disk_bytes_delta row)),
      (''previous_first_seen_disk_bytes'', JInt (dr_previous_hardlink_first_seen_disk_bytes row)),
      (''current_first_seen_disk_bytes'', JInt (dr_current_hardlink_first_seen_disk_bytes row)),
      (''first_seen_disk_bytes_delta'', JInt (dr_hardlink_first_seen_disk_bytes_delta row))]"

definition explain_hardlink_payload :: "float_ops \<Rightarrow> diff_row \<Rightarrow> json" where
  "explain_hardlink_payload fl row = JObj
     [(''sensitive'', JBool (dr_previous_hardlink_file_count row > 0 \<or> dr_current_hardlink_file_count row > 0)),
      (''previous_file_count'', JInt (dr_previous_hardlink_file_count row)),
      (''current_file_count'', JInt (dr_current_hardlink_file_count row)),
      (''file_count_delta'', JInt (dr_hardlink_file_count_delta row)),
      (''previous_duplicate_count'', JInt (dr_previous_hardlink_duplicate_count row)),
      (''current_duplicate_count'', JInt (dr_current_hardlink_duplicate_count row)),
      (''duplicate_count_delta'', JInt (dr_hardlink_duplicate_count_delta row)),
      (''previous_duplicate_disk_mib'', JInt (bytes_to_mib fl (dr_previous_hardlink_duplicate_disk_bytes row))),
      (''current_duplicate_disk_mib'', JInt (bytes_to_mib fl (dr_current_hardlink_duplicate_disk_bytes row))),
      (''duplicate_disk_delta_mib'', JInt (bytes_to_mib fl (dr_hardlink_duplicate_disk_bytes_delta row))),
      (''previous_first_seen_disk_mib'', JInt (bytes_to_mib fl (dr_previous_hardlink_first_seen_disk_bytes row))),
      (''current_first_seen_disk_mib'', JInt (bytes_to_mib fl (dr_current_hardlink_first_seen_disk_bytes row))),
      (''first_seen_disk_delta_mib'', JInt (bytes_to_mib fl (dr_hardlink_first_seen_disk_bytes_delta row)))]"

text \<open>The fields the rows of all comparisons have.\<close>

definition diff_fields :: "diff_row \<Rightarrow> (string \<times> json) list" where
  "diff_fields row =
     [(''root_path'', JStr (dr_root_path row))] @ path_payload (dr_path row)
     @ [
        (''snapshot_pair'', JObj [(''baseline_id'', JInt (dr_baseline_snapshot_id row)), (''current_id'', JInt (dr_current_snapshot_id row))]),
        (''depth'', JInt (dr_depth row)), (''classification'', JStr (dr_classification row)),
        (''previous_disk_bytes'', JInt (dr_previous_disk_bytes row)),
        (''current_disk_bytes'', JInt (dr_current_disk_bytes row)), (''disk_bytes_delta'', JInt (dr_disk_bytes_delta row)),
        (''previous_apparent_bytes'', JInt (dr_previous_apparent_bytes row)),
        (''current_apparent_bytes'', JInt (dr_current_apparent_bytes row)),
        (''apparent_bytes_delta'', JInt (dr_apparent_bytes_delta row)), (''hardlinks'', diff_hardlink_payload row)]"

definition diff_tail :: "diff_row \<Rightarrow> (string \<times> json) list" where
  "diff_tail row = [(''group'', group_payload (dr_group row)), (''error'', jopt JStr (dr_error row))] @ diff_collapse_payload row"

definition diff_row_payload :: "diff_row \<Rightarrow> json" where
  "diff_row_payload row = JObj (diff_fields row @ diff_tail row)"

definition frontier_row_payload :: "frontier_row \<Rightarrow> json" where
  "frontier_row_payload frontier_row = JObj
     (diff_fields (fr_row frontier_row)
      @ [(''suppressed_descendant_count'', JInt (fr_suppressed_descendant_count frontier_row)),
         (''suppressed_ancestor_count'', JInt (fr_suppressed_ancestor_count frontier_row)),
         (''reason'', JStr (fr_reason frontier_row))]
      @ diff_tail (fr_row frontier_row))"

definition explain_diff_row_payload :: "float_ops \<Rightarrow> diff_row \<Rightarrow> json" where
  "explain_diff_row_payload fl row = JObj
     ([(''root_path'', JStr (dr_root_path row))] @ path_payload (dr_path row)
      @ [
         (''snapshot_pair'', JObj [(''baseline_id'', JInt (dr_baseline_snapshot_id row)), (''current_id'', JInt (dr_current_snapshot_id row))]),
         (''depth'', JInt (dr_depth row)), (''classification'', JStr (dr_classification row)),
         (''previous_disk_mib'', JInt (bytes_to_mib fl (dr_previous_disk_bytes row))),
         (''current_disk_mib'', JInt (bytes_to_mib fl (dr_current_disk_bytes row))),
         (''disk_delta_mib'', JInt (bytes_to_mib fl (dr_disk_bytes_delta row))),
         (''previous_apparent_mib'', JInt (bytes_to_mib fl (dr_previous_apparent_bytes row))),
         (''current_apparent_mib'', JInt (bytes_to_mib fl (dr_current_apparent_bytes row))),
         (''apparent_delta_mib'', JInt (bytes_to_mib fl (dr_apparent_bytes_delta row))),
         (''hardlinks'', explain_hardlink_payload fl row), (''group'', group_payload (dr_group row)),
         (''error'', jopt JStr (dr_error row))]
      @ explain_collapse_metadata_payload fl row)"

definition group_summary_payload :: "report_group_summary \<Rightarrow> json" where
  "group_summary_payload g = JObj
     [(''group'', group_payload (rg_group g)), (''path_count'', JInt (rg_path_count g)),
      (''disk_bytes_delta'', JInt (rg_disk_bytes_delta g)), (''apparent_bytes_delta'', JInt (rg_apparent_bytes_delta g))]"

definition diagnostic_hint_payload :: "diagnostic_hint \<Rightarrow> json" where
  "diagnostic_hint_payload h = JObj
     [(''code'', JStr (dh_code h)), (''message'', JStr (dh_message h)), (''next_checks'', jstrs (dh_next_checks h)),
      (''storage_domain_key'', jopt JStr (dh_storage_domain_key h))]"

definition pressure_section_payload :: "pressure_summary_section \<Rightarrow> json" where
  "pressure_section_payload s = JObj
     ([(''storage_domain_key'', JStr (ps_storage_domain_key s)),
       (''filesystem_stat_available'', JBool (ps_filesystem_stat_available s)),
       (''filesystem_status'', JStr (ps_filesystem_status s)), (''df_used_bytes'', jopt JInt (ps_df_used_bytes s)),
       (''indexed_visible_disk_bytes'', JInt (ps_indexed_visible_disk_bytes s)),
       (''unattributed_bytes'', jopt JInt (ps_unattributed_bytes s)),
       (''over_indexed_bytes'', jopt JInt (ps_over_indexed_bytes s)),
       (''filesystem_usage_ratio'', jopt JFloat (ps_filesystem_usage_ratio s)),
       (''recent_growth_disk_bytes'', JInt (ps_recent_growth_disk_bytes s)),
       (''coverage_reason_codes'', jstrs (ps_coverage_reason_codes s)),
       (''snapshot_statuses'', jstrs (ps_snapshot_statuses s)), (''facts'', jstrs (ps_facts s)),
       (''next_checks'', jstrs (ps_next_checks s)), (''truncated'', JBool (ps_truncated s))]
      @ (case ps_mount_point s of None \<Rightarrow> [] | Some p \<Rightarrow> [(''mount_point'', JStr p)]))"

definition pressure_summary_payload :: "pressure_summary \<Rightarrow> json" where
  "pressure_summary_payload s = JObj
     [(''sections'', JArr (map pressure_section_payload (pm_sections s))), (''next_checks'', jstrs (pm_next_checks s)),
      (''limits'', jints (pm_limits s)), (''truncated_sections'', JBool (pm_truncated_sections s)),
      (''warnings'', dedupe_rendered_warnings (pm_warnings s))]"

subsection \<open>Interpretation of a comparison\<close>

text \<open>\<open>shown >= round(grown * 0.8)\<close>.\<close>

definition mostly_offset :: "float_ops \<Rightarrow> int \<Rightarrow> int \<Rightarrow> bool" where
  "mostly_offset fl grown shrunk \<longleftrightarrow> shrunk \<ge> py_round (int_times fl grown (8 / 10))"

definition disk_pressure_interpretation_status :: "float_ops \<Rightarrow> int \<Rightarrow> int \<Rightarrow> int \<Rightarrow> string" where
  "disk_pressure_interpretation_status fl net_disk_bytes_delta shown_positive_bytes shown_deleted_bytes =
     (if shown_positive_bytes > 0 \<and> net_disk_bytes_delta \<le> 0 then ''local_growth_offset_by_shrink''
      else if shown_positive_bytes > 0 \<and> mostly_offset fl shown_positive_bytes shown_deleted_bytes then ''mixed_growth_and_cleanup''
      else if net_disk_bytes_delta > 0 then ''net_indexed_growth''
      else ''no_net_indexed_growth'')"

definition disk_pressure_interpretation_message :: "string \<Rightarrow> string" where
  "disk_pressure_interpretation_message status =
     (if status = ''local_growth_offset_by_shrink'' then ''Shown positive path deltas are offset by shrink/delete elsewhere; do not treat them as primary df pressure without df-vs-index evidence.''
      else if status = ''mixed_growth_and_cleanup'' then ''Shown positive path deltas coexist with large deletes; compare net indexed root delta before attributing disk pressure.''
      else if status = ''net_indexed_growth'' then ''Indexed roots grew over the window; frontier rows are plausible disk-pressure leads.''
      else ''Indexed roots did not grow over the window; positive child rows are path churn rather than a direct free-space loss.'')"

record pressure_interpretation =
  it_status :: string
  it_figures :: "(string \<times> int) list"
  it_message :: string

definition interpretation_payload :: "pressure_interpretation \<Rightarrow> json" where
  "interpretation_payload i = JObj
     ([(''status'', JStr (it_status i))] @ map (\<lambda>(k, v). (k, JInt v)) (it_figures i) @ [(''message'', JStr (it_message i))])"

definition report_disk_pressure_interpretation :: "float_ops \<Rightarrow> report_summary \<Rightarrow> pressure_interpretation" where
  "report_disk_pressure_interpretation fl summary =
     (let positive = sum_list (filter (\<lambda>n. n > 0) (map (\<lambda>f. dr_disk_bytes_delta (fr_row f)) (rs_frontier summary)));
          deleted = sum_list (map abs (filter (\<lambda>n. n < 0) (map dr_disk_bytes_delta (rs_deleted_preview summary))));
          status = disk_pressure_interpretation_status fl (rs_indexed_root_disk_bytes_delta summary) positive deleted
      in \<lparr> it_status = status,
           it_figures = [(''indexed_root_disk_delta_mib'', bytes_to_mib fl (rs_indexed_root_disk_bytes_delta summary)),
             (''shown_positive_frontier_mib'', bytes_to_mib fl positive), (''shown_deleted_preview_mib'', bytes_to_mib fl deleted)],
           it_message = disk_pressure_interpretation_message status \<rparr>)"

definition explain_disk_pressure_interpretation_message :: "string \<Rightarrow> string" where
  "explain_disk_pressure_interpretation_message status =
     (if status = ''local_growth_offset_by_shrink'' then ''Shown children grew, but the explained path did not grow overall; this is path churn, not direct df pressure.''
      else if status = ''mixed_growth_and_cleanup'' then ''Shown children include both large growth and large shrink/delete; inspect net target delta before attributing disk pressure.''
      else if status = ''net_path_growth'' then ''The explained path grew over the window; shown child rows are plausible leads.''
      else ''The explained path did not grow over the window.'')"

definition explain_disk_pressure_interpretation :: "float_ops \<Rightarrow> explain_path_result \<Rightarrow> pressure_interpretation" where
  "explain_disk_pressure_interpretation fl result =
     (let direct = filter (\<lambda>row. dr_parent_path row = Some (dr_path (ep_target result))) (ep_children result);
          positive = sum_list (filter (\<lambda>n. n > 0) (map dr_disk_bytes_delta direct));
          negative = sum_list (map abs (filter (\<lambda>n. n < 0) (map dr_disk_bytes_delta direct)));
          target_delta = dr_disk_bytes_delta (ep_target result);
          status = (if positive > 0 \<and> target_delta \<le> 0 then ''local_growth_offset_by_shrink''
                    else if positive > 0 \<and> mostly_offset fl positive negative then ''mixed_growth_and_cleanup''
                    else if target_delta > 0 then ''net_path_growth''
                    else ''no_net_path_growth'')
      in \<lparr> it_status = status,
           it_figures = [(''target_disk_delta_mib'', bytes_to_mib fl target_delta),
             (''shown_positive_child_delta_mib'', bytes_to_mib fl positive), (''shown_negative_child_delta_mib'', bytes_to_mib fl negative),
             (''unshown_or_direct_disk_delta_mib'', bytes_to_mib fl (ep_unshown_or_direct_disk_bytes_delta result))],
           it_message = explain_disk_pressure_interpretation_message status \<rparr>)"

subsection \<open>Documents\<close>

text \<open>A section of \<open>top\<close>: a snapshot, its warnings and its rows.\<close>

type_synonym top_section_data = "snapshot_record \<times> report_warning list \<times> top_row list"

definition render_top_payload :: "string \<Rightarrow> int \<Rightarrow> int \<Rightarrow> string \<Rightarrow> top_section_data list \<Rightarrow> json" where
  "render_top_payload snapshot_selector limit effective_limit group_by sections = JObj
     [(''ok'', JBool True), (''command'', JStr ''top''), (''snapshot_selector'', JStr snapshot_selector), (''limit'', JInt limit),
      (''effective_limit'', JInt effective_limit), (''group_by'', JStr group_by),
      (''sections'', JArr (map (\<lambda>(snapshot, warnings, rows). JObj
         [(''snapshot'', snapshot_payload snapshot), (''warnings'', JArr (map warning_payload warnings)),
          (''rows'', JArr (map top_row_payload rows))]) sections)),
      (''warnings'', dedupe_rendered_warnings (concat (map (\<lambda>(_, warnings, _). warnings) sections)))]"

definition render_snapshots_payload :: "float_ops \<Rightarrow> int \<Rightarrow> snapshot_summary list \<Rightarrow> json" where
  "render_snapshots_payload fl limit snapshots = JObj
     [(''ok'', JBool True), (''command'', JStr ''snapshots''), (''limit'', JInt limit),
      (''snapshots'', JArr (map (snapshot_summary_payload fl) snapshots))]"

record diff_render_input =
  xd_since :: string
  xd_limit :: int
  xd_effective_limit :: int
  xd_group_by :: string
  xd_pairs :: "snapshot_pair list"
  xd_rows :: "frontier_row list"
  xd_classification_counts :: "(string \<times> int) list"
  xd_warnings :: "report_warning list"

definition render_diff_payload :: "diff_render_input \<Rightarrow> json" where
  "render_diff_payload x = JObj
     [(''ok'', JBool True), (''command'', JStr ''diff''), (''since'', JStr (xd_since x)), (''limit'', JInt (xd_limit x)),
      (''effective_limit'', JInt (xd_effective_limit x)), (''group_by'', JStr (xd_group_by x)),
      (''pairs'', JArr (map pair_payload (xd_pairs x))), (''rows'', JArr (map frontier_row_payload (xd_rows x))),
      (''classification_counts'', jints (sort_key fst (xd_classification_counts x))),
      (''warnings'', dedupe_rendered_warnings (xd_warnings x))]"

record report_render_input =
  xr_since :: string
  xr_limit :: int
  xr_effective_limit :: int
  xr_group_by :: string
  xr_summary :: report_summary
  xr_pressure_summary :: "pressure_summary option"

definition render_report_payload :: "float_ops \<Rightarrow> report_render_input \<Rightarrow> json" where
  "render_report_payload fl x =
     (let s = xr_summary x in JObj
     ([(''ok'', JBool True), (''command'', JStr ''report''), (''since'', JStr (xr_since x)), (''limit'', JInt (xr_limit x)),
       (''effective_limit'', JInt (xr_effective_limit x)), (''group_by'', JStr (xr_group_by x)),
       (''pairs'', JArr (map pair_payload (rs_snapshot_pairs s))), (''warnings'', dedupe_rendered_warnings (rs_warnings s)),
       (''classification_summary'', JObj
          [(''counts'', jints (sort_key fst (rs_classification_counts s))),
           (''disk_bytes_delta_by_classification'', jints (sort_key fst (rs_disk_bytes_delta_by_classification s))),
           (''apparent_bytes_delta_by_classification'', jints (sort_key fst (rs_apparent_bytes_delta_by_classification s)))]),
       (''disk_pressure_interpretation'', interpretation_payload (report_disk_pressure_interpretation fl s)),
       (''group_summary'', JArr (map group_summary_payload (rs_groups s))),
       (''frontier'', JArr (map frontier_row_payload (rs_frontier s))),
       (''deleted_preview'', JArr (map diff_row_payload (rs_deleted_preview s)))]
      @ (case xr_pressure_summary x of
           None \<Rightarrow> []
         | Some p \<Rightarrow> [(''diagnostic_hints'', JArr (map diagnostic_hint_payload (pm_diagnostic_hints p))),
                      (''pressure_summary'', pressure_summary_payload p)])))"

record deleted_render_input =
  xl_since :: string
  xl_limit :: int
  xl_effective_limit :: int
  xl_pairs :: "snapshot_pair list"
  xl_warnings :: "report_warning list"
  xl_rows :: "diff_row list"

definition render_deleted_payload :: "deleted_render_input \<Rightarrow> json" where
  "render_deleted_payload x = JObj
     [(''ok'', JBool True), (''command'', JStr ''deleted''), (''since'', JStr (xl_since x)), (''limit'', JInt (xl_limit x)),
      (''effective_limit'', JInt (xl_effective_limit x)), (''pairs'', JArr (map pair_payload (xl_pairs x))),
      (''warnings'', dedupe_rendered_warnings (xl_warnings x)), (''rows'', JArr (map diff_row_payload (xl_rows x)))]"

record explain_path_render_input =
  xe_since :: string
  xe_limit :: int
  xe_effective_limit :: int
  xe_depth :: int
  xe_group_by :: string
  xe_pairs :: "snapshot_pair list"
  xe_result :: explain_path_result
  xe_warnings :: "report_warning list"

text \<open>A change of the storage domain replaces the interpretation of the comparison.\<close>

definition explain_interpretation_payload :: "float_ops \<Rightarrow> explain_path_render_input \<Rightarrow> json" where
  "explain_interpretation_payload fl x =
     (if list_ex (\<lambda>w. rw_code w = ''storage_domain_changed'') (xe_warnings x)
      then JObj
        [(''status'', JStr ''filesystem_accounting_changed''),
         (''message'', JStr ''Compare apparent-byte history for content growth; allocated-byte differences across relocation are not physical disk growth or reclaimed space''),
         (''target_disk_delta_mib'', JInt (bytes_to_mib fl (dr_disk_bytes_delta (ep_target (xe_result x)))))]
      else interpretation_payload (explain_disk_pressure_interpretation fl (xe_result x)))"

definition render_explain_path_payload :: "float_ops \<Rightarrow> explain_path_render_input \<Rightarrow> json" where
  "render_explain_path_payload fl x = JObj
     [(''ok'', JBool True), (''command'', JStr ''explain-path''), (''since'', JStr (xe_since x)), (''limit'', JInt (xe_limit x)),
      (''effective_limit'', JInt (xe_effective_limit x)), (''depth'', JInt (xe_depth x)), (''group_by'', JStr (xe_group_by x)),
      (''pairs'', JArr (map pair_payload (xe_pairs x))),
      (''target'', explain_diff_row_payload fl (ep_target (xe_result x))),
      (''children'', JArr (map (explain_diff_row_payload fl) (ep_children (xe_result x)))),
      (''disk_pressure_interpretation'', explain_interpretation_payload fl x),
      (''unshown_or_direct_disk_delta_mib'', JInt (bytes_to_mib fl (ep_unshown_or_direct_disk_bytes_delta (xe_result x)))),
      (''unshown_or_direct_apparent_delta_mib'', JInt (bytes_to_mib fl (ep_unshown_or_direct_apparent_bytes_delta (xe_result x)))),
      (''warnings'', dedupe_rendered_warnings (xe_warnings x))]"

subsection \<open>Documents of the diagnostics\<close>

definition df_index_section_payload :: "df_index_section \<Rightarrow> json" where
  "df_index_section_payload x =
     (let df_bytes = (case di_df_usage x of
            Some u \<Rightarrow> if di_filesystem_stat_available x
              then JObj [(''size'', JInt (us_size_bytes u)), (''used'', JInt (us_used_bytes u)),
                         (''free_total'', JInt (us_free_total_bytes u)), (''avail_unprivileged'', JInt (us_avail_unprivileged_bytes u))]
              else JNull
          | None \<Rightarrow> JNull)
      in JObj
     [(''storage_domain'', group_payload (Some (di_storage_domain x))), (''snapshot_ids'', JArr (map JInt (di_snapshot_ids x))),
      (''snapshot_statuses'', jstrs (di_snapshot_statuses x)), (''finished_at_min'', jopt JStr (di_finished_at_min x)),
      (''finished_at_max'', jopt JStr (di_finished_at_max x)),
      (''max_snapshot_age_seconds'', jopt JInt (di_max_snapshot_age_seconds x)),
      (''filesystem_stat_available'', JBool (di_filesystem_stat_available x)),
      (''filesystem_status'', JStr (di_filesystem_status x)), (''df_bytes'', df_bytes),
      (''df_used_bytes'', jopt JInt (di_df_used_bytes x)),
      (''indexed_visible_disk_bytes'', JInt (di_indexed_visible_disk_bytes x)),
      (''indexed_visible_apparent_bytes'', JInt (di_indexed_visible_apparent_bytes x)),
      (''indexed_visible_path_count'', JInt (di_indexed_visible_path_count x)),
      (''indexed_root_paths'', jstrs (di_indexed_root_paths x)),
      (''indexed_mount_points'', jstrs (di_indexed_mount_points x)),
      (''partial_snapshot_count'', JInt (di_partial_snapshot_count x)),
      (''unknown_mount_count'', JInt (di_unknown_mount_count x)),
      (''filesystem_scope_extends_beyond_indexed_roots'', JBool (di_filesystem_scope_extends_beyond_indexed_roots x)),
      (''coverage_reason_codes'', jstrs (di_coverage_reason_codes x)),
      (''unattributed_bytes'', jopt JInt (di_unattributed_bytes x)),
      (''unattributed_ratio'', jopt JFloat (di_unattributed_ratio x)),
      (''over_indexed_bytes'', jopt JInt (di_over_indexed_bytes x)),
      (''over_indexed_ratio'', jopt JFloat (di_over_indexed_ratio x)), (''likely_reasons'', jstrs (di_likely_reasons x)),
      (''verification_commands'', jstrs (di_verification_commands x))])"

definition df_index_summary_payload :: "df_index_diagnostic \<Rightarrow> json" where
  "df_index_summary_payload x =
     (let available = filter di_filesystem_stat_available (dd_filesystems x);
          count_all = int (length (dd_filesystems x)); count_available = int (length available)
      in JObj
     [(''filesystem_count'', JInt count_all), (''stat_available_count'', JInt count_available),
      (''stat_unavailable_count'', JInt (count_all - count_available)),
      (''total_indexed_visible_disk_bytes'', JInt (sum_list (map di_indexed_visible_disk_bytes (dd_filesystems x)))),
      (''accounting_scope'', JStr ''storage_domains_not_additive_host_physical_usage''),
      (''total_unattributed_bytes'', JInt (sum_list (map (\<lambda>s. or_0 (di_unattributed_bytes s)) available))),
      (''total_over_indexed_bytes'', JInt (sum_list (map (\<lambda>s. or_0 (di_over_indexed_bytes s)) available)))])"

definition render_df_index_payload :: "df_index_diagnostic \<Rightarrow> json" where
  "render_df_index_payload x = JObj
     [(''ok'', JBool (dd_ok x)), (''command'', JStr ''df-vs-index''), (''snapshot_selector'', JStr (dd_snapshot_selector x)),
      (''limit'', JInt (dd_limit x)), (''effective_limit'', JInt (dd_effective_limit x)), (''generated_at'', JStr (dd_generated_at x)),
      (''filesystems'', JArr (map df_index_section_payload (dd_filesystems x))), (''summary'', df_index_summary_payload x),
      (''truncated'', JBool (dd_truncated x)), (''total_filesystem_count'', JInt (dd_total_filesystem_count x)),
      (''warnings'', dedupe_rendered_warnings (dd_warnings x))]"

definition deleted_open_culprit_payload :: "deleted_open_file \<Rightarrow> json" where
  "deleted_open_culprit_payload x = JObj
     ([(''pid'', JInt (of_pid x)), (''command'', JStr (of_command x)), (''fd'', JStr (of_fd x)),
       (''size_bytes'', jopt JInt (of_size_bytes x))]
      @ path_payload (of_path x)
      @ [(''storage_domain'', group_payload (of_storage_domain x)),
         (''disk_pressure_relevance'', JStr (of_disk_pressure_relevance x)), (''source'', JStr (of_source x)),
         (''action_hint'', JStr (of_action_hint x))])"

definition render_deleted_open_payload :: "deleted_open_diagnostic \<Rightarrow> json" where
  "render_deleted_open_payload x = JObj
     [(''ok'', JBool (od_ok x)), (''command'', JStr ''deleted-open-files''), (''limit'', JInt (od_limit x)),
      (''effective_limit'', JInt (od_effective_limit x)), (''generated_at'', JStr (od_generated_at x)),
      (''evidence_source'', JStr (od_evidence_source x)), (''culprits'', JArr (map deleted_open_culprit_payload (od_culprits x))),
      (''totals'', JObj
         [(''culprit_count'', JInt (ot_culprit_count (od_totals x))), (''shown_count'', JInt (ot_shown_count (od_totals x))),
          (''total_size_bytes'', JInt (ot_total_size_bytes (od_totals x))),
          (''shown_size_bytes'', JInt (ot_shown_size_bytes (od_totals x))),
          (''disk_pressure_relevant_size_bytes'', JInt (ot_disk_pressure_relevant_size_bytes (od_totals x))),
          (''non_disk_mapping_size_bytes'', JInt (ot_non_disk_mapping_size_bytes (od_totals x))),
          (''permission_denied_count'', JInt (ot_permission_denied_count (od_totals x)))]),
      (''truncated'', JBool (od_truncated x)), (''verification_commands'', jstrs (od_verification_commands x)),
      (''warnings'', dedupe_rendered_warnings (od_warnings x))]"

definition docker_category_payload :: "docker_category \<Rightarrow> json" where
  "docker_category_payload x = JObj
     [(''kind'', JStr (dc_kind x)), (''total_count'', jopt JInt (dc_total_count x)),
      (''active_count'', jopt JInt (dc_active_count x)), (''size_text'', jopt JStr (dc_size_text x)),
      (''size_bytes'', jopt JInt (dc_size_bytes x)), (''reclaimable_text'', jopt JStr (dc_reclaimable_text x)),
      (''reclaimable_bytes'', jopt JInt (dc_reclaimable_bytes x)), (''source_command'', JStr (dc_source_command x))]"

definition docker_build_cache_payload :: "docker_build_cache_entry \<Rightarrow> json" where
  "docker_build_cache_payload x = JObj
     [(''id'', JStr (be_cache_id x)), (''size_bytes'', JInt (be_size_bytes x)),
      (''reclaimable'', JBool (be_reclaimable x)), (''last_used_at'', jopt JStr (be_last_used_at x)),
      (''source_command'', JStr (be_source_command x))]"

definition docker_storage_owner_payload :: "docker_storage_owner \<Rightarrow> json" where
  "docker_storage_owner_payload x = JObj
     [(''kind'', JStr (ow_kind x)), (''id'', JStr (ow_object_id x)), (''name'', jopt JStr (ow_name x)),
      (''image'', jopt JStr (ow_image x)), (''active'', jopt JBool (ow_active x)),
      (''snapshot_ids'', jstrs (ow_snapshot_ids x)), (''overlay_ids'', jstrs (ow_overlay_ids x)),
      (''source_command'', JStr (ow_source_command x))]"

definition build_cache_category_reclaimable_bytes :: "docker_enrichment \<Rightarrow> int option" where
  "build_cache_category_reclaimable_bytes x =
     Option.bind (List.find (\<lambda>c. map lower_char (dc_kind c) = ''build cache'') (de_categories x)) dc_reclaimable_bytes"

definition effective_build_cache_reclaimable_bytes :: "docker_enrichment \<Rightarrow> int" where
  "effective_build_cache_reclaimable_bytes x =
     (let detailed = bt_reclaimable_bytes (de_build_cache_totals x)
      in case build_cache_category_reclaimable_bytes x of None \<Rightarrow> detailed | Some n \<Rightarrow> max n detailed)"

definition render_docker_enrichment_payload :: "docker_enrichment \<Rightarrow> json" where
  "render_docker_enrichment_payload x = JObj
     [(''ok'', JBool (de_ok x)), (''command'', JStr ''docker-enrichment''), (''limit'', JInt (de_limit x)),
      (''effective_limit'', JInt (de_effective_limit x)), (''generated_at'', JStr (de_generated_at x)),
      (''docker_available'', JBool (de_docker_available x)), (''containerd_available'', JBool (de_containerd_available x)),
      (''categories'', JArr (map docker_category_payload (de_categories x))),
      (''build_cache'', JObj
         [(''entries'', JArr (map docker_build_cache_payload (de_build_cache_entries x))),
          (''entry_count'', JInt (bt_entry_count (de_build_cache_totals x))),
          (''shown_count'', JInt (bt_shown_count (de_build_cache_totals x))),
          (''total_bytes'', JInt (bt_total_bytes (de_build_cache_totals x))),
          (''reclaimable_bytes'', JInt (bt_reclaimable_bytes (de_build_cache_totals x))),
          (''system_df_reclaimable_bytes'', jopt JInt (build_cache_category_reclaimable_bytes x)),
          (''effective_reclaimable_bytes'', JInt (effective_build_cache_reclaimable_bytes x)),
          (''truncated'', JBool (de_build_cache_truncated x))]),
      (''storage_owners'', JArr (map docker_storage_owner_payload (de_storage_owners x))),
      (''docker_path_hints'', jstrs (de_docker_path_hints x)), (''containerd_path_hints'', jstrs (de_containerd_path_hints x)),
      (''verification_commands'', jstrs (de_verification_commands x)), (''warnings'', dedupe_rendered_warnings (de_warnings x))]"

end
