(* ===== verification/Render_Text.thy ===== *)
theory Render_Text
  imports Render
begin

text \<open>
  The text form of the reports (\<open>reporting/render.py\<close>): lines of \<open>name=value\<close> words, and the table of the
  snapshots.  The text of a float (\<open>str\<close> of a ratio) is a parameter.
\<close>

subsection \<open>Values\<close>

definition opt_text :: "('a \<Rightarrow> string) \<Rightarrow> 'a option \<Rightarrow> string" where
  "opt_text f v = (case v of None \<Rightarrow> ''None'' | Some x \<Rightarrow> f x)"

text \<open>\<open>_text_field\<close> of text or \<open>None\<close>, \<open>_text_path\<close> and \<open>_text_group\<close>.\<close>

definition text_field :: "string option \<Rightarrow> string" where
  "text_field val = escape_text_field (opt_text id val)"

definition text_path :: "bytes \<Rightarrow> string" where
  "text_path path_bytes = escape_text_field path_bytes"

definition text_group :: "group_label option \<Rightarrow> string" where
  "text_group g = (case g of None \<Rightarrow> ''none'' | Some g \<Rightarrow> gl_kind g @ '':'' @ escape_text_field (gl_key g))"

definition lower_bool :: "bool \<Rightarrow> string" where
  "lower_bool b = (if b then ''true'' else ''false'')"

definition or_dash :: "string \<Rightarrow> string" where
  "or_dash s = (if s = [] then ''-'' else s)"

abbreviation words :: "string list \<Rightarrow> string" where
  "words \<equiv> join_str '' ''"

text \<open>Lines, each ended by a line feed.\<close>

definition text_document :: "string list \<Rightarrow> string" where
  "text_document lines = join_str [CHR 0x0A] lines @ [CHR 0x0A]"

subsection \<open>Lines of the comparisons\<close>

definition warning_text_line :: "string \<Rightarrow> report_warning \<Rightarrow> string" where
  "warning_text_line label w =
     label @ '' code='' @ rw_code w @ (case rw_path w of None \<Rightarrow> [] | Some p \<Rightarrow> '' path='' @ text_path p)
     @ '' message='' @ text_field (Some (rw_message w))"

definition collapse_text_parts :: "bool \<Rightarrow> string option \<Rightarrow> int option \<Rightarrow> bytes option \<Rightarrow> int option \<Rightarrow> string list" where
  "collapse_text_parts collapsed reason dirs top_child top_child_disk_bytes =
     (if \<not> collapsed then []
      else [''collapsed=true'']
        @ (case reason of None \<Rightarrow> [] | Some r \<Rightarrow> [''reason='' @ r])
        @ (case dirs of None \<Rightarrow> [] | Some n \<Rightarrow> [''collapsed_dirs='' @ int_str n])
        @ (case top_child of None \<Rightarrow> [] | Some p \<Rightarrow> [''top_child='' @ text_path p])
        @ (case top_child_disk_bytes of None \<Rightarrow> [] | Some n \<Rightarrow> [''top_child_disk_bytes='' @ int_str n]))"

text \<open>What ends the line of a row: its group, its error and what it stands for.\<close>

definition row_tail :: "group_label option \<Rightarrow> string option \<Rightarrow> string list \<Rightarrow> string list" where
  "row_tail g e collapse =
     (case g of None \<Rightarrow> [] | Some _ \<Rightarrow> [''group='' @ text_group g])
     @ (case e of None \<Rightarrow> [] | Some _ \<Rightarrow> [''error='' @ text_field e]) @ collapse"

definition diff_row_tail :: "diff_row \<Rightarrow> string list" where
  "diff_row_tail row = row_tail (dr_group row) (dr_error row)
     (collapse_text_parts (dr_collapsed row) (dr_collapse_reason row) (dr_collapsed_dirs row) (dr_top_child_path row)
        (dr_top_child_disk_bytes row))"

definition frontier_text_line :: "string \<Rightarrow> diff_row \<Rightarrow> string" where
  "frontier_text_line label row = words
     ([label, ''path='' @ text_path (dr_path row), ''classification='' @ dr_classification row,
       ''previous_disk_bytes='' @ int_str (dr_previous_disk_bytes row), ''current_disk_bytes='' @ int_str (dr_current_disk_bytes row),
       ''disk_bytes_delta='' @ int_str (dr_disk_bytes_delta row),
       ''previous_apparent_bytes='' @ int_str (dr_previous_apparent_bytes row),
       ''current_apparent_bytes='' @ int_str (dr_current_apparent_bytes row),
       ''apparent_bytes_delta='' @ int_str (dr_apparent_bytes_delta row)] @ diff_row_tail row)"

definition frontier_entry_text_line :: "string \<Rightarrow> frontier_row \<Rightarrow> string" where
  "frontier_entry_text_line label f = words
     [frontier_text_line label (fr_row f),
      ''suppressed_descendant_count='' @ int_str (fr_suppressed_descendant_count f),
      ''suppressed_ancestor_count='' @ int_str (fr_suppressed_ancestor_count f), ''reason='' @ text_field (Some (fr_reason f))]"

definition deleted_text_line :: "diff_row \<Rightarrow> string" where
  "deleted_text_line row = words
     ([''path='' @ text_path (dr_path row), ''classification='' @ dr_classification row,
       ''previous_disk_bytes='' @ int_str (dr_previous_disk_bytes row), ''current_disk_bytes='' @ int_str (dr_current_disk_bytes row),
       ''disk_bytes_delta='' @ int_str (dr_disk_bytes_delta row)] @ diff_row_tail row)"

definition explain_text_line :: "string \<Rightarrow> diff_row \<Rightarrow> string" where
  "explain_text_line label row = words
     ([label, ''path='' @ text_path (dr_path row), ''classification='' @ dr_classification row,
       ''disk_bytes_delta='' @ int_str (dr_disk_bytes_delta row), ''apparent_bytes_delta='' @ int_str (dr_apparent_bytes_delta row)]
      @ diff_row_tail row)"

definition pair_text_line :: "snapshot_pair \<Rightarrow> string" where
  "pair_text_line pair = words
     [''root_path='' @ text_field (Some (sp_root_path pair)), ''baseline='' @ int_str (sr_id (sp_baseline pair)),
      ''current='' @ int_str (sr_id (sp_current pair)), ''baseline_finished_at='' @ opt_text id (sr_finished_at (sp_baseline pair)),
      ''current_finished_at='' @ opt_text id (sr_finished_at (sp_current pair)),
      ''baseline_status='' @ status_value (sr_status (sp_baseline pair)),
      ''current_status='' @ status_value (sr_status (sp_current pair)),
      ''warning_codes='' @ (if sp_warning_codes pair = [] then ''-'' else join_str '','' (sp_warning_codes pair))]"

definition interpretation_text_line :: "pressure_interpretation \<Rightarrow> string" where
  "interpretation_text_line i = words
     ([''disk_pressure_interpretation'', ''status='' @ it_status i]
      @ map (\<lambda>(k, v). k @ ''='' @ int_str v) (it_figures i) @ [''message='' @ text_field (Some (it_message i))])"

definition classification_lines :: "report_summary \<Rightarrow> string list" where
  "classification_lines s = map (\<lambda>(classification, count). words
     [''classification_summary'', ''classification='' @ classification, ''count='' @ int_str count,
      ''disk_bytes_delta='' @ int_str (dict_get (rs_disk_bytes_delta_by_classification s) classification 0),
      ''apparent_bytes_delta='' @ int_str (dict_get (rs_apparent_bytes_delta_by_classification s) classification 0)])
     (rs_classification_counts s)"

definition group_line :: "report_group_summary \<Rightarrow> string" where
  "group_line g = words
     [''group_summary'', ''group='' @ text_group (rg_group g), ''path_count='' @ int_str (rg_path_count g),
      ''disk_bytes_delta='' @ int_str (rg_disk_bytes_delta g), ''apparent_bytes_delta='' @ int_str (rg_apparent_bytes_delta g)]"

definition diagnostic_hint_text_line :: "diagnostic_hint \<Rightarrow> string" where
  "diagnostic_hint_text_line h = words
     [''diagnostic_hint'', ''code='' @ dh_code h, ''storage_domain='' @ text_field (dh_storage_domain_key h),
      ''next_checks='' @ or_dash (join_str '','' (map escape_text_field (dh_next_checks h))),
      ''message='' @ text_field (Some (dh_message h))]"

definition pressure_section_text_line :: "(real \<Rightarrow> string) \<Rightarrow> pressure_summary_section \<Rightarrow> string" where
  "pressure_section_text_line float_text s = words
     [''pressure_section'', ''storage_domain='' @ escape_text_field (ps_storage_domain_key s),
      ''filesystem_stat_available='' @ lower_bool (ps_filesystem_stat_available s),
      ''unattributed_bytes='' @ opt_text int_str (ps_unattributed_bytes s),
      ''over_indexed_bytes='' @ opt_text int_str (ps_over_indexed_bytes s),
      ''filesystem_usage_ratio='' @ opt_text float_text (ps_filesystem_usage_ratio s),
      ''recent_growth_disk_bytes='' @ int_str (ps_recent_growth_disk_bytes s), ''truncated='' @ lower_bool (ps_truncated s)]"

definition pressure_lines :: "(real \<Rightarrow> string) \<Rightarrow> pressure_summary \<Rightarrow> string list" where
  "pressure_lines float_text s =
     map (warning_text_line ''pressure_warning'') (pm_warnings s) @ map diagnostic_hint_text_line (pm_diagnostic_hints s)
     @ map (pressure_section_text_line float_text) (pm_sections s)
     @ map (\<lambda>fact. ''pressure_fact='' @ escape_text_field fact) (concat (map ps_facts (pm_sections s)))
     @ map (\<lambda>check. ''pressure_next_check='' @ escape_text_field check) (concat (map ps_next_checks (pm_sections s)))"

subsection \<open>Documents\<close>

definition window_words :: "string \<Rightarrow> string \<Rightarrow> int \<Rightarrow> int \<Rightarrow> string list" where
  "window_words command since limit effective_limit =
     [''command='' @ command, ''since='' @ since, ''limit='' @ int_str limit, ''effective_limit='' @ int_str effective_limit]"

definition render_diff_text :: "diff_render_input \<Rightarrow> string" where
  "render_diff_text x = text_document
     ([words (window_words ''diff'' (xd_since x) (xd_limit x) (xd_effective_limit x) @ [''group_by='' @ xd_group_by x])]
      @ map pair_text_line (xd_pairs x) @ map (warning_text_line ''warning'') (xd_warnings x)
      @ map (frontier_entry_text_line ''frontier'') (xd_rows x))"

definition report_text_lines :: "float_ops \<Rightarrow> (real \<Rightarrow> string) \<Rightarrow> report_render_input \<Rightarrow> string list" where
  "report_text_lines fl float_text x =
     (let s = xr_summary x in
      [words (window_words ''report'' (xr_since x) (xr_limit x) (xr_effective_limit x) @ [''group_by='' @ xr_group_by x])]
      @ map pair_text_line (rs_snapshot_pairs s) @ map (warning_text_line ''warning'') (rs_warnings s)
      @ classification_lines s @ [interpretation_text_line (report_disk_pressure_interpretation fl s)]
      @ map group_line (rs_groups s) @ map (frontier_entry_text_line ''frontier'') (rs_frontier s)
      @ map deleted_text_line (rs_deleted_preview s)
      @ (case xr_pressure_summary x of None \<Rightarrow> [] | Some p \<Rightarrow> pressure_lines float_text p))"

definition render_report_text :: "float_ops \<Rightarrow> (real \<Rightarrow> string) \<Rightarrow> report_render_input \<Rightarrow> string" where
  "render_report_text fl float_text x = text_document (report_text_lines fl float_text x)"

definition render_deleted_text :: "deleted_render_input \<Rightarrow> string" where
  "render_deleted_text x = text_document
     ([words (window_words ''deleted'' (xl_since x) (xl_limit x) (xl_effective_limit x))]
      @ map pair_text_line (xl_pairs x) @ map (warning_text_line ''warning'') (xl_warnings x) @ map deleted_text_line (xl_rows x))"

definition render_explain_path_text :: "float_ops \<Rightarrow> explain_path_render_input \<Rightarrow> string" where
  "render_explain_path_text fl x = text_document
     ([words (window_words ''explain-path'' (xe_since x) (xe_limit x) (xe_effective_limit x)
              @ [''depth='' @ int_str (xe_depth x), ''group_by='' @ xe_group_by x])]
      @ map pair_text_line (xe_pairs x) @ map (warning_text_line ''warning'') (xe_warnings x)
      @ [explain_text_line ''target'' (ep_target (xe_result x))]
      @ map (explain_text_line ''child'') (ep_children (xe_result x))
      @ [interpretation_text_line (explain_disk_pressure_interpretation fl (xe_result x)),
         words [''remainder_after_shown_children'',
           ''unshown_or_direct_disk_bytes_delta='' @ int_str (ep_unshown_or_direct_disk_bytes_delta (xe_result x)),
           ''unshown_or_direct_apparent_bytes_delta='' @ int_str (ep_unshown_or_direct_apparent_bytes_delta (xe_result x))]])"

subsection \<open>The table of the snapshots\<close>

definition column :: "nat \<Rightarrow> string list list \<Rightarrow> string list" where
  "column i rows = map (\<lambda>row. row ! i) rows"

text \<open>\<open>max\<close> of the lengths of a column; a row with too few cells raises \<open>IndexError\<close>, so all have the same number.\<close>

definition column_widths :: "string list \<Rightarrow> string list list \<Rightarrow> nat list" where
  "column_widths headers rows =
     map (\<lambda>i. foldl max (length (headers ! i)) (map length (column i rows))) [0 ..< length headers]"

definition rjust :: "nat \<Rightarrow> string \<Rightarrow> string" where
  "rjust n s = replicate (n - length s) CHR '' '' @ s"

definition ljust :: "nat \<Rightarrow> string \<Rightarrow> string" where
  "ljust n s = s @ replicate (n - length s) CHR '' ''"

text \<open>\<open>str.rstrip()\<close>.\<close>

definition str_rstrip :: "string \<Rightarrow> string" where
  "str_rstrip s = rev (lstrip_codes (length s) (map rev text_spaces) (rev s))"

definition table_cell :: "string list \<Rightarrow> string \<times> nat \<times> string \<Rightarrow> string" where
  "table_cell right_aligned = (\<lambda>(header, width, cell). if header \<in> set right_aligned then rjust width cell else ljust width cell)"

definition render_table_line :: "string list \<Rightarrow> nat list \<Rightarrow> string list \<Rightarrow> string list \<Rightarrow> string" where
  "render_table_line headers widths right_aligned values =
     str_rstrip (join_str ''  '' (map (table_cell right_aligned) (zip headers (zip widths values))))"

definition render_table_separator :: "nat list \<Rightarrow> string" where
  "render_table_separator widths = join_str ''  '' (map (\<lambda>w. replicate w CHR ''-'') widths)"

definition render_text_table :: "string list \<Rightarrow> string list list \<Rightarrow> string list \<Rightarrow> string" where
  "render_text_table headers rows right_aligned =
     (let widths = column_widths headers rows
      in join_str [CHR 0x0A]
           ([render_table_line headers widths right_aligned headers, render_table_separator widths]
            @ map (render_table_line headers widths right_aligned) rows))"

definition snapshot_table_headers :: "string list" where
  "snapshot_table_headers =
     [''ID'', ''Status'', ''Root'', ''Started'', ''Time'', ''Rows'', ''Disk'', ''Apparent'', ''Files'', ''Dirs'', ''Collapsed'', ''Errors'']"

definition snapshot_right_aligned :: "string list" where
  "snapshot_right_aligned = [''ID'', ''Rows'', ''Files'', ''Dirs'', ''Collapsed'', ''Errors'']"

definition dash_for_none :: "string option \<Rightarrow> string" where
  "dash_for_none v = (case v of None \<Rightarrow> ''-'' | Some s \<Rightarrow> or_dash s)"

definition snapshot_summary_table_row :: "float_ops \<Rightarrow> snapshot_summary \<Rightarrow> string list" where
  "snapshot_summary_table_row fl s =
     [int_str (sr_id (ss_snapshot s)), snapshot_display_status (ss_snapshot s), text_field (Some (sr_root_path (ss_snapshot s))),
      sr_started_at (ss_snapshot s), dash_for_none (humanize_duration (seconds_float fl (ss_processing_seconds s))),
      human_count fl (ss_row_count s), dash_for_none (humanize_bytes fl (ss_indexed_disk_bytes s)),
      dash_for_none (humanize_bytes fl (ss_indexed_apparent_bytes s)), human_optional_count fl (ss_file_count s),
      human_optional_count fl (ss_dir_count s), human_count fl (ss_collapsed_row_count s), human_count fl (ss_error_row_count s)]"

definition render_snapshots_text :: "float_ops \<Rightarrow> int \<Rightarrow> snapshot_summary list \<Rightarrow> string" where
  "render_snapshots_text fl limit snapshots = text_document
     [''Snapshots: showing '' @ int_str (int (length snapshots)) @ '' of up to '' @ int_str limit,
      render_text_table snapshot_table_headers (map (snapshot_summary_table_row fl) snapshots) snapshot_right_aligned]"

subsection \<open>The current size and the diagnostics\<close>

definition top_snapshot_line :: "snapshot_record \<Rightarrow> string" where
  "top_snapshot_line s = words
     [''snapshot='' @ int_str (sr_id s), ''root_path='' @ text_field (Some (sr_root_path s)), ''started_at='' @ sr_started_at s,
      ''finished_at='' @ opt_text id (sr_finished_at s), ''status='' @ status_value (sr_status s), ''error='' @ text_field (sr_error s)]"

definition top_row_line :: "top_row \<Rightarrow> string" where
  "top_row_line row = words
     ([''path='' @ text_path (tr_path row), ''current_disk_bytes='' @ int_str (tr_current_disk_bytes row),
       ''current_apparent_bytes='' @ int_str (tr_current_apparent_bytes row), ''depth='' @ int_str (tr_depth row),
       ''file_count='' @ int_str (tr_file_count row), ''dir_count='' @ int_str (tr_dir_count row)]
      @ row_tail (tr_group row) (tr_error row)
          (collapse_text_parts (tr_collapsed row) (tr_collapse_reason row) (tr_collapsed_dirs row) (tr_top_child_path row)
             (tr_top_child_disk_bytes row)))"

definition render_top_text :: "string \<Rightarrow> int \<Rightarrow> int \<Rightarrow> string \<Rightarrow> top_section_data list \<Rightarrow> string" where
  "render_top_text snapshot_selector limit effective_limit group_by sections = text_document
     ([words [''command=top'', ''snapshot_selector='' @ snapshot_selector, ''limit='' @ int_str limit,
         ''effective_limit='' @ int_str effective_limit, ''group_by='' @ group_by]]
      @ concat (map (\<lambda>(snapshot, warnings, rows).
          [top_snapshot_line snapshot] @ map (warning_text_line ''warning'') warnings @ map top_row_line rows) sections))"

definition verification_lines :: "string list \<Rightarrow> string list" where
  "verification_lines commands = map (\<lambda>c. ''verification_command='' @ escape_text_field c) commands"

definition df_index_section_line :: "(real \<Rightarrow> string) \<Rightarrow> df_index_section \<Rightarrow> string" where
  "df_index_section_line float_text s = words
     [''filesystem'', ''storage_domain='' @ escape_text_field (gl_key (di_storage_domain s)),
      ''mount_point='' @ (case gl_mount_point (di_storage_domain s) of None \<Rightarrow> ''none'' | Some p \<Rightarrow> text_path p),
      ''snapshot_ids='' @ or_dash (join_str '','' (map int_str (di_snapshot_ids s))),
      ''finished_at_min='' @ opt_text id (di_finished_at_min s), ''finished_at_max='' @ opt_text id (di_finished_at_max s),
      ''max_snapshot_age_seconds='' @ opt_text int_str (di_max_snapshot_age_seconds s),
      ''filesystem_stat_available='' @ lower_bool (di_filesystem_stat_available s),
      ''filesystem_status='' @ di_filesystem_status s, ''df_used_bytes='' @ opt_text int_str (di_df_used_bytes s),
      ''indexed_visible_disk_bytes='' @ int_str (di_indexed_visible_disk_bytes s),
      ''indexed_visible_apparent_bytes='' @ int_str (di_indexed_visible_apparent_bytes s),
      ''indexed_visible_path_count='' @ int_str (di_indexed_visible_path_count s),
      ''partial_snapshot_count='' @ int_str (di_partial_snapshot_count s),
      ''unknown_mount_count='' @ int_str (di_unknown_mount_count s),
      ''filesystem_scope_extends_beyond_indexed_roots='' @ lower_bool (di_filesystem_scope_extends_beyond_indexed_roots s),
      ''unattributed_bytes='' @ opt_text int_str (di_unattributed_bytes s),
      ''unattributed_ratio='' @ opt_text float_text (di_unattributed_ratio s),
      ''over_indexed_bytes='' @ opt_text int_str (di_over_indexed_bytes s),
      ''over_indexed_ratio='' @ opt_text float_text (di_over_indexed_ratio s),
      ''coverage_reason_codes='' @ or_dash (join_str '','' (di_coverage_reason_codes s)),
      ''likely_reasons='' @ or_dash (join_str '','' (di_likely_reasons s))]"

definition render_df_index_text :: "(real \<Rightarrow> string) \<Rightarrow> df_index_diagnostic \<Rightarrow> string" where
  "render_df_index_text float_text x = text_document
     ([words [''command=df-vs-index'', ''snapshot_selector='' @ dd_snapshot_selector x, ''limit='' @ int_str (dd_limit x),
         ''effective_limit='' @ int_str (dd_effective_limit x), ''generated_at='' @ dd_generated_at x,
         ''truncated='' @ lower_bool (dd_truncated x), ''total_filesystem_count='' @ int_str (dd_total_filesystem_count x)]]
      @ map (warning_text_line ''warning'') (dd_warnings x)
      @ concat (map (\<lambda>s. df_index_section_line float_text s # verification_lines (di_verification_commands s)) (dd_filesystems x)))"

definition culprit_line :: "deleted_open_file \<Rightarrow> string" where
  "culprit_line row = words
     [''culprit'', ''pid='' @ int_str (of_pid row), ''command='' @ text_field (Some (of_command row)),
      ''fd='' @ escape_text_field (of_fd row), ''size_bytes='' @ opt_text int_str (of_size_bytes row),
      ''path='' @ text_path (of_path row), ''storage_domain='' @ text_group (of_storage_domain row),
      ''disk_pressure_relevance='' @ escape_text_field (of_disk_pressure_relevance row), ''source='' @ of_source row,
      ''action_hint='' @ text_field (Some (of_action_hint row))]"

definition render_deleted_open_text :: "deleted_open_diagnostic \<Rightarrow> string" where
  "render_deleted_open_text x =
     (let t = od_totals x in text_document
     ([words [''command=deleted-open-files'', ''limit='' @ int_str (od_limit x), ''effective_limit='' @ int_str (od_effective_limit x),
         ''generated_at='' @ od_generated_at x, ''evidence_source='' @ od_evidence_source x, ''truncated='' @ lower_bool (od_truncated x),
         ''culprit_count='' @ int_str (ot_culprit_count t), ''shown_count='' @ int_str (ot_shown_count t),
         ''total_size_bytes='' @ int_str (ot_total_size_bytes t),
         ''disk_pressure_relevant_size_bytes='' @ int_str (ot_disk_pressure_relevant_size_bytes t),
         ''non_disk_mapping_size_bytes='' @ int_str (ot_non_disk_mapping_size_bytes t),
         ''permission_denied_count='' @ int_str (ot_permission_denied_count t)]]
      @ map (warning_text_line ''warning'') (od_warnings x) @ map culprit_line (od_culprits x)
      @ verification_lines (od_verification_commands x)))"

definition docker_category_line :: "docker_category \<Rightarrow> string" where
  "docker_category_line c = words
     [''category'', ''kind='' @ escape_text_field (dc_kind c), ''total_count='' @ opt_text int_str (dc_total_count c),
      ''active_count='' @ opt_text int_str (dc_active_count c), ''size_text='' @ text_field (dc_size_text c),
      ''size_bytes='' @ opt_text int_str (dc_size_bytes c), ''reclaimable_text='' @ text_field (dc_reclaimable_text c),
      ''reclaimable_bytes='' @ opt_text int_str (dc_reclaimable_bytes c)]"

definition build_cache_line :: "docker_build_cache_entry \<Rightarrow> string" where
  "build_cache_line e = words
     [''build_cache'', ''id='' @ escape_text_field (be_cache_id e), ''size_bytes='' @ int_str (be_size_bytes e),
      ''reclaimable='' @ lower_bool (be_reclaimable e), ''last_used_at='' @ opt_text id (be_last_used_at e)]"

definition storage_owner_line :: "docker_storage_owner \<Rightarrow> string" where
  "storage_owner_line w = words
     [''storage_owner'', ''kind='' @ escape_text_field (ow_kind w), ''id='' @ escape_text_field (ow_object_id w),
      ''name='' @ text_field (ow_name w), ''image='' @ text_field (ow_image w),
      ''active='' @ opt_text (\<lambda>b. if b then ''True'' else ''False'') (ow_active w),
      ''snapshot_ids='' @ escape_text_field (or_dash (join_str '','' (ow_snapshot_ids w))),
      ''overlay_ids='' @ escape_text_field (or_dash (join_str '','' (ow_overlay_ids w)))]"

definition render_docker_enrichment_text :: "docker_enrichment \<Rightarrow> string" where
  "render_docker_enrichment_text x = text_document
     ([words [''command=docker-enrichment'', ''limit='' @ int_str (de_limit x), ''effective_limit='' @ int_str (de_effective_limit x),
         ''generated_at='' @ de_generated_at x, ''docker_available='' @ lower_bool (de_docker_available x),
         ''containerd_available='' @ lower_bool (de_containerd_available x),
         ''build_cache_total_bytes='' @ int_str (bt_total_bytes (de_build_cache_totals x)),
         ''build_cache_reclaimable_bytes='' @ int_str (bt_reclaimable_bytes (de_build_cache_totals x)),
         ''build_cache_system_df_reclaimable_bytes='' @ opt_text int_str (build_cache_category_reclaimable_bytes x),
         ''build_cache_effective_reclaimable_bytes='' @ int_str (effective_build_cache_reclaimable_bytes x),
         ''build_cache_truncated='' @ lower_bool (de_build_cache_truncated x)]]
      @ map (warning_text_line ''warning'') (de_warnings x) @ map docker_category_line (de_categories x)
      @ map build_cache_line (de_build_cache_entries x)
      @ map (\<lambda>p. ''docker_path_hint='' @ text_path p) (de_docker_path_hints x)
      @ map (\<lambda>p. ''containerd_path_hint='' @ text_path p) (de_containerd_path_hints x)
      @ map storage_owner_line (de_storage_owners x) @ verification_lines (de_verification_commands x))"

end
