(* ===== verification/Report_Commands.thy ===== *)
theory Report_Commands
  imports Fast_Query Frontier Trend_Query Path_History Investigate
begin

text \<open>
  What the report commands of \<open>cli.py\<close> put together from the queries: the diff, report, deleted, top, timeline,
  stats and explain-path commands, up to the values they hand to the rendering.
\<close>

subsection \<open>Diff, report and deleted\<close>

definition snapshot_status_warnings :: "snapshot_record \<Rightarrow> report_warning list" where
  "snapshot_status_warnings snapshot =
     (case sr_status snapshot of
        PARTIAL \<Rightarrow> [warn ''partial_snapshot'' (''snapshot '' @ int_str (sr_id snapshot) @ '' is partial and may be incomplete'') None]
      | FAILED \<Rightarrow> [warn ''failed_snapshot''
                    (''snapshot '' @ int_str (sr_id snapshot) @ '' failed and should be treated as incomplete'') None]
      | _ \<Rightarrow> [])"

definition deleted_order :: "diff_row \<Rightarrow> int \<times> bytes" where
  "deleted_order row = (- dr_previous_disk_bytes row, dr_path row)"

definition deleted_rows_from_diff_rows :: "diff_row list \<Rightarrow> int \<Rightarrow> diff_row list" where
  "deleted_rows_from_diff_rows rows limit =
     py_prefix limit (sort_key deleted_order (filter (\<lambda>row. dr_classification row = ''deleted'') rows))"

definition count_classes :: "diff_row list \<Rightarrow> (string \<times> int) list \<Rightarrow> (string \<times> int) list" where
  "count_classes rows counts = foldl (\<lambda>c row. count_up (dr_classification row) 1 c) counts rows"

text \<open>The rows, the warnings, the deleted rows and the counts, pair after pair.\<close>

record diff_gathered =
  gd_rows :: "diff_row list"
  gd_warnings :: "report_warning list"
  gd_deleted :: "diff_row list"
  gd_counts :: "(string \<times> int) list"

definition gather_pair :: "db \<Rightarrow> string \<Rightarrow> bool \<Rightarrow> diff_gathered \<Rightarrow> snapshot_pair \<Rightarrow> report_error + diff_gathered" where
  "gather_pair d group_by include_unchanged g pair =
     map_sum id (\<lambda>(rows, query_warnings).
         \<lparr> gd_rows = gd_rows g @ rows, gd_warnings = gd_warnings g @ query_warnings,
           gd_deleted = gd_deleted g @ deleted_rows_from_diff_rows rows 1000, gd_counts = count_classes rows (gd_counts g) \<rparr>)
       (query_diff_rows d pair group_by False include_unchanged)"

definition gather_pairs ::
    "db \<Rightarrow> string \<Rightarrow> string \<Rightarrow> bool \<Rightarrow> report_error + snapshot_pair list \<times> diff_gathered" where
  "gather_pairs d since group_by include_unchanged =
     (case resolve_snapshot_pairs since d of
        Inl e \<Rightarrow> Inl e
      | Inr (pairs, pair_warnings) \<Rightarrow>
          map_sum id (Pair pairs)
            (fold_err (gather_pair d group_by include_unchanged)
               \<lparr> gd_rows = [], gd_warnings = pair_warnings, gd_deleted = [], gd_counts = [] \<rparr> pairs))"

record diff_report =
  df_pairs :: "snapshot_pair list"
  df_rows :: "frontier_row list"
  df_classification_counts :: "(string \<times> int) list"
  df_warnings :: "report_warning list"

definition run_diff :: "float_ops \<Rightarrow> db \<Rightarrow> string \<Rightarrow> int \<Rightarrow> string \<Rightarrow> report_error + diff_report" where
  "run_diff fl d since limit group_by =
     map_sum id (\<lambda>(pairs, g). \<lparr> df_pairs = pairs, df_rows = py_prefix limit (prune_growth_frontier fl (gd_rows g)),
          df_classification_counts = gd_counts g, df_warnings = dedupe_warnings (gd_warnings g) \<rparr>)
       (gather_pairs d since group_by True)"

definition run_report :: "float_ops \<Rightarrow> db \<Rightarrow> string \<Rightarrow> int \<Rightarrow> string \<Rightarrow> report_error + report_summary" where
  "run_report fl d since limit group_by =
     map_sum id (\<lambda>(pairs, g).
         (let frontier_rows = py_prefix limit (prune_growth_frontier fl (gd_rows g));
              deleted_rows = py_prefix limit (sort_key deleted_order (gd_deleted g));
              summary = summarize_diff_rows pairs (gd_rows g) frontier_rows deleted_rows (dedupe_warnings (gd_warnings g))
          in summary\<lparr> rs_classification_counts := sort_key id (gd_counts g) \<rparr>))
       (gather_pairs d since group_by False)"

definition deleted_pair ::
    "db \<Rightarrow> diff_row list \<times> report_warning list \<Rightarrow> snapshot_pair \<Rightarrow> report_error + diff_row list \<times> report_warning list" where
  "deleted_pair d = (\<lambda>(deleted_rows, warnings) pair.
     map_sum id (\<lambda>(rows, query_warnings). (deleted_rows @ rows, warnings @ query_warnings)) (query_deleted_rows d pair 1000 ''root''))"

definition run_deleted :: "db \<Rightarrow> string \<Rightarrow> int \<Rightarrow> report_error + snapshot_pair list \<times> diff_row list \<times> report_warning list" where
  "run_deleted d since limit =
     (case resolve_snapshot_pairs since d of
        Inl e \<Rightarrow> Inl e
      | Inr (pairs, pair_warnings) \<Rightarrow>
          map_sum id (\<lambda>(rows, warnings). (pairs, py_prefix limit (sort_key deleted_order rows), dedupe_warnings warnings))
            (fold_err (deleted_pair d) ([], pair_warnings) pairs))"

subsection \<open>Top\<close>

definition top_section ::
    "db \<Rightarrow> int \<Rightarrow> string \<Rightarrow> snapshot_record \<Rightarrow> report_error + snapshot_record \<times> report_warning list \<times> top_row list" where
  "top_section d limit group_by snapshot =
     map_sum id (\<lambda>(rows, query_warnings). (snapshot, dedupe_warnings (snapshot_status_warnings snapshot @ query_warnings), rows))
       (query_top_rows d (sr_id snapshot) limit group_by)"

definition run_top ::
    "db \<Rightarrow> string \<Rightarrow> int \<Rightarrow> string \<Rightarrow> report_error + (snapshot_record \<times> report_warning list \<times> top_row list) list" where
  "run_top d selector limit group_by =
     (case resolve_top_snapshot_selection selector d of
        Inl e \<Rightarrow> Inl e
      | Inr snapshots \<Rightarrow> map_err (top_section d limit group_by) snapshots)"

subsection \<open>Stats\<close>

text \<open>The three pragmas are arguments.\<close>

record database_stats =
  st_schema_version :: int
  st_size_bytes :: int
  st_snapshot_count :: int
  st_status_counts :: "(string \<times> int) list"
  st_latest :: "snapshot_row option"

definition snapshot_recency :: "snapshot_row \<Rightarrow> string \<times> int" where
  "snapshot_recency s = (case sn_finished_at s of None \<Rightarrow> sn_started_at s | Some t \<Rightarrow> t, sn_id s)"

definition query_stats :: "int \<Rightarrow> int \<Rightarrow> int \<Rightarrow> db \<Rightarrow> database_stats" where
  "query_stats user_version page_count page_size d =
     (let status_counts = sort_key fst (map (\<lambda>(s, rows). (s, int (length rows))) (group_rows sn_status (db_snapshots d)))
      in \<lparr> st_schema_version = user_version, st_size_bytes = page_count * page_size,
           st_snapshot_count = sum_list (map snd status_counts), st_status_counts = status_counts,
           st_latest = (case rev (sort_key snapshot_recency (db_snapshots d)) of [] \<Rightarrow> None | s # _ \<Rightarrow> Some s) \<rparr>)"

subsection \<open>Timeline\<close>

definition parse_timeline_limit :: "string option \<Rightarrow> report_error + int" where
  "parse_timeline_limit raw_value = (if raw_value = None then Inr 100 else parse_report_limit raw_value)"

text \<open>\<open>points[-limit:]\<close> of a positive limit.\<close>

definition latest_timeline_points :: "timeline_point list \<Rightarrow> int \<Rightarrow> timeline_point list" where
  "latest_timeline_points points limit = drop (length points - nat limit) points"

record daily_figures =
  dy_root_path :: string
  dy_day :: string
  dy_point_count :: int
  dy_min_indexed_disk_bytes :: "int option"
  dy_max_indexed_disk_bytes :: "int option"

definition disk_values :: "timeline_point list \<Rightarrow> int list" where
  "disk_values points = List.map_filter tp_indexed_disk_bytes points"

definition daily_of :: "(string \<times> string) \<times> timeline_point list \<Rightarrow> daily_figures" where
  "daily_of = (\<lambda>((root_path, day), day_points).
     (let values = disk_values day_points
      in \<lparr> dy_root_path = root_path, dy_day = day, dy_point_count = int (length day_points),
           dy_min_indexed_disk_bytes = (case values of [] \<Rightarrow> None | v # vs \<Rightarrow> Some (foldl min v vs)),
           dy_max_indexed_disk_bytes = (case values of [] \<Rightarrow> None | v # vs \<Rightarrow> Some (foldl max v vs)) \<rparr>))"

definition point_day :: "timeline_point \<Rightarrow> string \<times> string" where
  "point_day point =
     (sr_root_path (tp_snapshot point), take 10 (case sr_finished_at (tp_snapshot point) of None \<Rightarrow> [] | Some t \<Rightarrow> t))"

definition timeline_daily :: "timeline_point list \<Rightarrow> daily_figures list" where
  "timeline_daily points =
     map daily_of (sort_key fst (group_rows point_day (filter (\<lambda>point. sr_finished_at (tp_snapshot point) \<noteq> None) points)))"

record growth_interval =
  gi_root_path :: string
  gi_disk_delta_mib :: int
  gi_apparent_delta_mib :: "int option"
  gi_baseline :: snapshot_record
  gi_current :: snapshot_record

definition optional_delta :: "int option \<Rightarrow> int option \<Rightarrow> int option" where
  "optional_delta current_value baseline_value =
     (case (current_value, baseline_value) of (Some c, Some b) \<Rightarrow> Some (c - b) | _ \<Rightarrow> None)"

definition finished_text :: "snapshot_record \<Rightarrow> string" where
  "finished_text s = (case sr_finished_at s of None \<Rightarrow> [] | Some t \<Rightarrow> t)"

definition growth_interval_of :: "float_ops \<Rightarrow> string \<Rightarrow> timeline_point \<times> timeline_point \<Rightarrow> growth_interval option" where
  "growth_interval_of fl root_path = (\<lambda>(baseline, current).
     (case optional_delta (tp_indexed_disk_bytes current) (tp_indexed_disk_bytes baseline) of
        None \<Rightarrow> None
      | Some disk_delta \<Rightarrow>
          if disk_delta \<le> 0 then None
          else Some \<lparr> gi_root_path = root_path, gi_disk_delta_mib = bytes_to_mib fl disk_delta,
                 gi_apparent_delta_mib = map_option (bytes_to_mib fl)
                   (optional_delta (tp_indexed_apparent_bytes current) (tp_indexed_apparent_bytes baseline)),
                 gi_baseline = tp_snapshot baseline, gi_current = tp_snapshot current \<rparr>))"

definition interval_order :: "growth_interval \<Rightarrow> int \<times> string \<times> int \<times> string" where
  "interval_order i = (- gi_disk_delta_mib i, finished_text (gi_current i), sr_id (gi_current i), gi_root_path i)"

definition point_order :: "timeline_point \<Rightarrow> string \<times> int" where
  "point_order point = (finished_text (tp_snapshot point), sr_id (tp_snapshot point))"

definition largest_growth_intervals :: "float_ops \<Rightarrow> timeline_point list \<Rightarrow> int \<Rightarrow> growth_interval list" where
  "largest_growth_intervals fl points limit =
     py_prefix limit (sort_key interval_order
       (concat (map (\<lambda>(root_path, root_points). List.map_filter (growth_interval_of fl root_path) (pairwise (sort_key point_order root_points)))
          (group_rows (sr_root_path \<circ> tp_snapshot) points))))"

record timeline_report =
  tl_points :: "timeline_point list"
  tl_total_point_count :: int
  tl_truncated :: bool
  tl_daily :: "daily_figures list"
  tl_largest_growth_intervals :: "growth_interval list"

definition timeline_payload :: "float_ops \<Rightarrow> timeline_point list \<Rightarrow> int \<Rightarrow> int \<Rightarrow> timeline_report" where
  "timeline_payload fl points limit total_point_count =
     \<lparr> tl_points = points, tl_total_point_count = total_point_count, tl_truncated = (total_point_count > int (length points)),
       tl_daily = timeline_daily points, tl_largest_growth_intervals = largest_growth_intervals fl points limit \<rparr>"

definition run_timeline :: "float_ops \<Rightarrow> db \<Rightarrow> string \<Rightarrow> string option \<Rightarrow> report_error + timeline_report" where
  "run_timeline fl d since raw_limit =
     (case parse_timeline_limit raw_limit of
        Inl e \<Rightarrow> Inl e
      | Inr limit \<Rightarrow>
          map_sum id (\<lambda>points. timeline_payload fl (latest_timeline_points points limit) limit (int (length points)))
            (query_timeline_points since d))"

end
