(* ===== verification/Query_Documents.thy ===== *)
theory Query_Documents
  imports Render_Text Report_Commands
begin

text \<open>
  The documents \<open>cli.py\<close> writes itself: the investigation, the timeline and the statistics.
\<close>

subsection \<open>Investigation\<close>

text \<open>\<open>isoformat().replace("+00:00", "Z")\<close> of an aware UTC time.\<close>

definition iso_zulu :: "instant \<Rightarrow> string" where
  "iso_zulu t = (let s = isoformat_utc t in take (length s - length ''+00:00'') s @ ''Z'')"

definition cli_warning_payload :: "report_warning \<Rightarrow> json" where
  "cli_warning_payload w = JObj
     ([(''code'', JStr (rw_code w)), (''message'', JStr (rw_message w))]
      @ (case rw_path w of None \<Rightarrow> [] | Some p \<Rightarrow> [(''path'', JStr p), (''path_bytes_hex'', JStr (hex_str p))]))"

definition snapshot_ref_payload :: "snapshot_record \<Rightarrow> json" where
  "snapshot_ref_payload s = JObj
     [(''id'', JInt (sr_id s)), (''status'', JStr (status_value (sr_status s))), (''started_at'', JStr (sr_started_at s)),
      (''finished_at'', jopt JStr (sr_finished_at s))]"

definition fast_pair_payload :: "snapshot_pair \<Rightarrow> json" where
  "fast_pair_payload pair = JObj
     [(''root_path'', JStr (sp_root_path pair)), (''baseline_snapshot'', snapshot_ref_payload (sp_baseline pair)),
      (''current_snapshot'', snapshot_ref_payload (sp_current pair)), (''warning_codes'', jstrs (sp_warning_codes pair))]"

definition verdict_payload :: "verdict \<Rightarrow> json" where
  "verdict_payload v = JObj
     [(''status'', JStr (vd_status v)), (''confidence'', JStr (vd_confidence v)), (''summary'', JStr (vd_summary v)),
      (''top_path'', jopt JStr (vd_top_path v)), (''top_persistent_path'', jopt JStr (vd_top_persistent_path v)),
      (''top_burst_path'', jopt JStr (vd_top_burst_path v))]"

definition df_usage_percent :: "float_ops \<Rightarrow> df_index_section \<Rightarrow> int option" where
  "df_usage_percent fl x =
     (case di_df_usage x of
        None \<Rightarrow> None
      | Some u \<Rightarrow>
          if us_size_bytes u \<le> 0 then None
          else Some (py_round (fl_round fl (true_div fl (us_used_bytes u) (us_size_bytes u) * 100))))"

definition mib_payload :: "float_ops \<Rightarrow> int option \<Rightarrow> json" where
  "mib_payload fl v = jopt (\<lambda>n. JInt (bytes_to_mib fl n)) v"

definition fast_pressure_section_payload :: "float_ops \<Rightarrow> df_index_section \<Rightarrow> json" where
  "fast_pressure_section_payload fl x = JObj
     [(''storage_domain_key'', JStr (gl_key (di_storage_domain x))),
      (''mount_point'', jopt JStr (gl_mount_point (di_storage_domain x))),
      (''filesystem_type'', jopt JStr (gl_filesystem_type (di_storage_domain x))),
      (''filesystem_status'', JStr (di_filesystem_status x)), (''df_used_mib'', mib_payload fl (di_df_used_bytes x)),
      (''indexed_visible_mib'', JInt (bytes_to_mib fl (di_indexed_visible_disk_bytes x))),
      (''unattributed_mib'', mib_payload fl (di_unattributed_bytes x)), (''over_indexed_mib'', mib_payload fl (di_over_indexed_bytes x)),
      (''filesystem_usage_percent'', jopt JInt (df_usage_percent fl x)),
      (''coverage_reason_codes'', jstrs (di_coverage_reason_codes x)), (''snapshot_statuses'', jstrs (di_snapshot_statuses x))]"

definition fast_pressure_payload :: "float_ops \<Rightarrow> df_index_diagnostic option \<Rightarrow> json" where
  "fast_pressure_payload fl diagnostic =
     (case diagnostic of
        None \<Rightarrow> JObj [(''status'', JStr ''not_available''), (''summary'', JNull), (''filesystems'', JArr [])]
      | Some x \<Rightarrow>
          (let filesystems = dd_filesystems x;
               total = (\<lambda>f. JInt (bytes_to_mib fl (sum_list (map f filesystems)))) in JObj
          [(''status'', JStr (if dd_ok x then ''ok'' else ''warning'')), (''snapshot_selector'', JStr (dd_snapshot_selector x)),
           (''generated_at'', JStr (dd_generated_at x)), (''truncated'', JBool (dd_truncated x)),
           (''total_filesystem_count'', JInt (dd_total_filesystem_count x)),
           (''summary'', JObj
              [(''accounting_scope'', JStr ''storage_domains_not_additive_host_physical_usage''),
               (''filesystem_count'', JInt (dd_total_filesystem_count x)),
               (''shown_filesystem_count'', JInt (int (length filesystems))),
               (''total_indexed_visible_mib'', total di_indexed_visible_disk_bytes),
               (''total_unattributed_mib'', total (\<lambda>s. or_0 (di_unattributed_bytes s))),
               (''total_over_indexed_mib'', total (\<lambda>s. or_0 (di_over_indexed_bytes s)))]),
           (''filesystems'', JArr (map (fast_pressure_section_payload fl) filesystems))]))"

definition trend_sample_ref_payload :: "int \<times> instant \<Rightarrow> json" where
  "trend_sample_ref_payload = (\<lambda>(sid, finished_at). JObj [(''id'', JInt sid), (''finished_at'', JStr (iso_zulu finished_at))])"

definition interval_payload :: "int \<times> (int \<times> instant) \<times> (int \<times> instant) \<Rightarrow> json" where
  "interval_payload = (\<lambda>(disk_delta_mib, baseline, current). JObj
     [(''disk_delta_mib'', JInt disk_delta_mib), (''baseline_snapshot'', trend_sample_ref_payload baseline),
      (''current_snapshot'', trend_sample_ref_payload current)])"

text \<open>Without metrics the document has no \<open>largest_growth_interval\<close>.\<close>

definition burst_document :: "float_ops \<Rightarrow> fast_growth_row \<Rightarrow> burst_metrics option \<Rightarrow> json" where
  "burst_document fl row burst =
     (let b = burst_payload_of fl row burst in JObj
     ([(''ratio'', jopt JFloat (bp_ratio b)), (''largest_growth_interval_mib'', JInt (bp_largest_growth_interval_mib b))]
      @ (if burst = None then [] else [(''largest_growth_interval'', jopt interval_payload (bp_largest_growth_interval b))])
      @ [(''window_growth_percent'', jopt JInt (bp_window_growth_percent b)), (''sample_count'', JInt (bp_sample_count b)),
         (''shape'', jopt JStr (bp_shape b))]))"

definition fast_hardlink_payload :: "float_ops \<Rightarrow> fast_growth_row \<Rightarrow> json" where
  "fast_hardlink_payload fl row = JObj
     [(''sensitive'', JBool (fg_previous_hardlink_file_count row > 0 \<or> fg_current_hardlink_file_count row > 0)),
      (''file_count_delta'', JInt (fg_hardlink_file_count_delta row)),
      (''duplicate_count_delta'', JInt (fg_hardlink_duplicate_count_delta row)),
      (''duplicate_disk_delta_mib'', JInt (bytes_to_mib fl (fg_hardlink_duplicate_disk_bytes_delta row))),
      (''first_seen_disk_delta_mib'', JInt (bytes_to_mib fl (fg_hardlink_first_seen_disk_bytes_delta row)))]"

definition fast_growth_row_payload :: "float_ops \<Rightarrow> fast_growth_row \<Rightarrow> int \<Rightarrow> burst_metrics option \<Rightarrow> json" where
  "fast_growth_row_payload fl row rank burst =
     (let mib = (\<lambda>n. JInt (bytes_to_mib fl n)) in JObj
     [(''rank'', JInt rank), (''root_path'', JStr (fg_root_path row)), (''path'', JStr (fg_path row)),
      (''path_bytes_hex'', JStr (hex_str (fg_path row))), (''depth'', JInt (fg_depth row)),
      (''classification'', JStr (fg_classification row)), (''previous_disk_mib'', mib (fg_previous_disk_bytes row)),
      (''current_disk_mib'', mib (fg_current_disk_bytes row)), (''disk_delta_mib'', mib (fg_disk_bytes_delta row)),
      (''previous_apparent_mib'', mib (fg_previous_apparent_bytes row)), (''current_apparent_mib'', mib (fg_current_apparent_bytes row)),
      (''apparent_delta_mib'', mib (fg_apparent_bytes_delta row)), (''burst'', burst_document fl row burst),
      (''hardlinks'', fast_hardlink_payload fl row)])"

definition relocation_suspicion_payload :: "float_ops \<Rightarrow> relocation_suspicion \<Rightarrow> int \<Rightarrow> json" where
  "relocation_suspicion_payload fl suspicion rank =
     (let positive = rl_positive suspicion; negative = rl_negative suspicion; mib = (\<lambda>n. JInt (bytes_to_mib fl n)) in JObj
     [(''rank'', JInt rank), (''confidence'', JStr ''medium''),
      (''reason'', JStr ''Similar positive and negative directory deltas under the same parent.''),
      (''root_path'', JStr (fg_root_path positive)), (''common_parent'', JStr (rl_common_parent suspicion)),
      (''new_path'', JStr (fg_path positive)), (''old_path'', JStr (fg_path negative)),
      (''new_growth_mib'', mib (fg_disk_bytes_delta positive)), (''old_shrink_mib'', mib (fg_disk_bytes_delta negative)),
      (''size_gap_mib'', mib (rl_size_gap_bytes suspicion)), (''covered_ratio'', JFloat (rl_covered_ratio suspicion)),
      (''baseline_snapshot_id'', JInt (fg_baseline_snapshot_id positive)),
      (''current_snapshot_id'', JInt (fg_current_snapshot_id positive)),
      (''interpretation'', JStr ''possible_relocation_not_primary_disk_pressure'')])"

definition blind_spot :: "string \<Rightarrow> string \<Rightarrow> json" where
  "blind_spot code message = JObj [(''code'', JStr code), (''message'', JStr message)]"

definition fast_blind_spots :: "int \<Rightarrow> bool \<Rightarrow> json list" where
  "fast_blind_spots max_depth pressure_available =
     [blind_spot ''depth_limited'' (''Investigation ranks indexed paths at depths 1 through '' @ int_str max_depth @ ''.''),
      blind_spot ''hardlinks_not_disambiguated''
        ''Path-level disk deltas may overstate unique filesystem block growth when files are hardlinked.'']
     @ (if pressure_available then []
        else [blind_spot ''pressure_reconciliation_unavailable'' ''Run df-vs-index separately for current df/index gap.''])"

text \<open>Only the drill-down of a burst has the snapshots and the interval of it.\<close>

definition next_action_payload :: "bool \<Rightarrow> next_action \<Rightarrow> json" where
  "next_action_payload burst a = JObj
     ([(''kind'', JStr (na_kind a)), (''read_only'', JBool True), (''argv'', jstrs (na_argv a))]
      @ (case na_path a of None \<Rightarrow> [] | Some p \<Rightarrow> [(''path'', JStr p)])
      @ (if burst
         then [(''snapshot_pair'', jopt (\<lambda>(b, c). JObj [(''baseline_id'', JInt b), (''current_id'', JInt c)]) (na_snapshot_pair a)),
               (''burst_interval'', jopt interval_payload (na_burst_interval a))]
         else [])
      @ [(''reason'', JStr (na_reason a))])"

definition next_actions_payload :: "float_ops \<Rightarrow> investigation \<Rightarrow> string \<Rightarrow> json list" where
  "next_actions_payload fl x since =
     (let actions = fast_next_actions fl (in_persistent x) (in_burst_anomalies x) (in_bursts x) since;
          plain = length actions - (if in_burst_anomalies x = [] then 0 else 1)
      in map (next_action_payload False) (take plain actions) @ map (next_action_payload True) (drop plain actions))"

definition ranked :: "(int \<Rightarrow> 'a \<Rightarrow> json) \<Rightarrow> 'a list \<Rightarrow> json" where
  "ranked f xs = JArr (map (\<lambda>(i, x). f (int i + 1) x) (enumerate 0 xs))"

definition investigate_document :: "float_ops \<Rightarrow> investigation \<Rightarrow> string \<Rightarrow> int \<Rightarrow> int \<Rightarrow> json" where
  "investigate_document fl x since limit max_depth =
     (let row = (\<lambda>rank r. fast_growth_row_payload fl r rank (map_of (in_bursts x) (fast_trend_key r))) in JObj
     [(''ok'', JBool True), (''schema_version'', JInt 4), (''command'', JStr ''investigate''),
      (''window'', JObj [(''since'', JStr since), (''limit'', JInt limit), (''pair_count'', JInt (int (length (in_pairs x)))),
                         (''pairs'', JArr (map fast_pair_payload (in_pairs x)))]),
      (''verdict'', verdict_payload (fast_verdict fl (in_persistent x) (in_burst_anomalies x) (in_relocations x))),
      (''pressure'', fast_pressure_payload fl (in_df_index x)),
      (''contributors'', ranked row (in_persistent x)), (''persistent_contributors'', ranked row (in_persistent x)),
      (''burst_anomalies'', ranked row (in_burst_anomalies x)),
      (''relocation_suspicions'', ranked (\<lambda>rank s. relocation_suspicion_payload fl s rank) (in_relocations x)),
      (''blind_spots'', JArr (fast_blind_spots max_depth (in_df_index x \<noteq> None))),
      (''next_actions'', JArr (next_actions_payload fl x since)),
      (''warnings'', JArr (map cli_warning_payload (in_warnings x)))])"

subsection \<open>Timeline\<close>

definition timeline_point_payload :: "timeline_point \<Rightarrow> json" where
  "timeline_point_payload p =
     (let s = tp_snapshot p in JObj
     [(''snapshot'', JObj [(''id'', JInt (sr_id s)), (''root_path'', JStr (sr_root_path s)), (''status'', JStr (status_value (sr_status s))),
                           (''started_at'', JStr (sr_started_at s)), (''finished_at'', jopt JStr (sr_finished_at s))]),
      (''indexed_apparent_bytes'', jopt JInt (tp_indexed_apparent_bytes p)), (''indexed_disk_bytes'', jopt JInt (tp_indexed_disk_bytes p)),
      (''file_count'', jopt JInt (tp_file_count p)), (''dir_count'', jopt JInt (tp_dir_count p))])"

definition daily_payload :: "daily_figures \<Rightarrow> json" where
  "daily_payload x = JObj
     [(''root_path'', JStr (dy_root_path x)), (''day'', JStr (dy_day x)), (''point_count'', JInt (dy_point_count x)),
      (''min_indexed_disk_bytes'', jopt JInt (dy_min_indexed_disk_bytes x)),
      (''max_indexed_disk_bytes'', jopt JInt (dy_max_indexed_disk_bytes x))]"

definition timeline_snapshot_ref_payload :: "snapshot_record \<Rightarrow> json" where
  "timeline_snapshot_ref_payload s = JObj [(''id'', JInt (sr_id s)), (''finished_at'', jopt JStr (sr_finished_at s))]"

definition growth_interval_payload :: "growth_interval \<Rightarrow> json" where
  "growth_interval_payload i = JObj
     [(''root_path'', JStr (gi_root_path i)), (''disk_delta_mib'', JInt (gi_disk_delta_mib i)),
      (''apparent_delta_mib'', jopt JInt (gi_apparent_delta_mib i)),
      (''baseline_snapshot'', timeline_snapshot_ref_payload (gi_baseline i)),
      (''current_snapshot'', timeline_snapshot_ref_payload (gi_current i))]"

definition timeline_document :: "string \<Rightarrow> int \<Rightarrow> timeline_report \<Rightarrow> json" where
  "timeline_document since limit x = JObj
     [(''ok'', JBool True), (''schema_version'', JInt 1), (''command'', JStr ''timeline''),
      (''window'', JObj [(''since'', JStr since), (''limit'', JInt limit), (''point_count'', JInt (int (length (tl_points x)))),
                         (''total_point_count'', JInt (tl_total_point_count x)), (''truncated'', JBool (tl_truncated x))]),
      (''daily'', JArr (map daily_payload (tl_daily x))),
      (''largest_growth_intervals'', JArr (map growth_interval_payload (tl_largest_growth_intervals x))),
      (''points'', JArr (map timeline_point_payload (tl_points x)))]"

subsection \<open>Statistics\<close>

text \<open>Name, kind and role of the units of the service.\<close>

definition systemd_service_units :: "(string \<times> string \<times> string) list" where
  "systemd_service_units =
     [(''watchdirs-query.socket'', ''socket'', ''read-only query socket''),
      (''watchdirs-query@.service'', ''template-service'', ''socket-activated read-only query worker''),
      (''watchdirs-collect.service'', ''oneshot-service'', ''writer: collect snapshot''),
      (''watchdirs-collect.timer'', ''timer'', ''hourly collect schedule''),
      (''watchdirs-prune.service'', ''oneshot-service'', ''writer: retention prune''),
      (''watchdirs-prune.timer'', ''timer'', ''daily prune schedule''),
      (''watchdirs-vacuum.service'', ''oneshot-service'', ''writer: SQLite vacuum''),
      (''watchdirs-vacuum.timer'', ''timer'', ''periodic vacuum schedule'')]"

definition systemd_verification_commands :: "string list" where
  "systemd_verification_commands =
     [''systemctl list-units '' @ [CHR 0x27] @ ''watchdirs*'' @ [CHR 0x27] @ '' --all --no-pager'',
      ''systemctl list-timers '' @ [CHR 0x27] @ ''watchdirs*'' @ [CHR 0x27] @ '' --all --no-pager'',
      ''systemctl status watchdirs-query.socket --no-pager'']"

definition stats_document :: "database_stats \<Rightarrow> json" where
  "stats_document x = JObj
     [(''ok'', JBool True), (''command'', JStr ''stats''), (''schema_version'', JInt (st_schema_version x)),
      (''storage'', JObj [(''size_bytes'', JInt (st_size_bytes x))]),
      (''snapshots'', JObj
         [(''count'', JInt (st_snapshot_count x)), (''status_counts'', jints (st_status_counts x)),
          (''latest'', jopt (\<lambda>s. JObj [(''id'', JInt (sn_id s)), (''root_path'', JStr (sn_root_path s)), (''status'', JStr (sn_status s)),
                                 (''started_at'', JStr (sn_started_at s)), (''finished_at'', jopt JStr (sn_finished_at s))]) (st_latest x))]),
      (''service_surface'', JObj
         [(''units'', JArr (map (\<lambda>(name, kind, role). JObj [(''name'', JStr name), (''kind'', JStr kind), (''role'', JStr role)])
             systemd_service_units)),
          (''verification_commands'', jstrs systemd_verification_commands)])]"

definition render_stats_text :: "database_stats \<Rightarrow> string" where
  "render_stats_text x = text_document
     ([''schema_version='' @ int_str (st_schema_version x), ''storage_size_bytes='' @ int_str (st_size_bytes x),
       ''snapshot_count='' @ int_str (st_snapshot_count x)]
      @ (case st_latest x of
           None \<Rightarrow> []
         | Some s \<Rightarrow>
             [words [''latest_snapshot=id='' @ int_str (sn_id s), ''status='' @ sn_status s, ''root='' @ sn_root_path s,
                     ''started='' @ sn_started_at s, ''finished='' @ opt_text id (sn_finished_at s)]])
      @ map (\<lambda>(name, kind, role). words [''unit='' @ name, ''kind='' @ kind, ''role='' @ role]) systemd_service_units)"

end
