(* ===== verification/Query_Commands.thy ===== *)
theory Query_Commands
  imports Query_Documents Explain_Path Deleted_Open Writers
begin

text \<open>
  The reading commands of \<open>cli.py\<close> from their arguments and the database to what they print.  The failures of SQLite
  are the environment's: the one of opening the file, and the one of some query, which ends the command.  The context
  a \<open>ReportError\<close> carries is no part of the model of the errors, so an error document is its code and message.
\<close>

subsection \<open>How a command ends\<close>

datatype query_end =
    Printed cli_output
  | Report_failed string string
  | Database_failed string string
  | Escaped string

text \<open>An SQLite or system error: whether it is an \<open>OperationalError\<close>, and its text.\<close>

type_synonym sql_failure = "bool \<times> string"

record query_env =
  qe_floats :: float_ops
  qe_float_text :: "real \<Rightarrow> string"
  qe_open_error :: "sql_failure option"
  qe_query_error :: "sql_failure option"
  qe_deadline_set :: bool

definition database_runtime_error :: "bool \<Rightarrow> sql_failure \<Rightarrow> string \<times> string" where
  "database_runtime_error deadline_set = (\<lambda>(operational, message).
     if operational \<and> message = ''interrupted'' \<and> deadline_set
     then (''query_timeout'', ''query exceeded '' @ int_str query_timeout_seconds @ ''s'')
     else (''database_error'', message))"

text \<open>The commands that know the deadline, and those that do not.\<close>

definition database_end :: "query_env \<Rightarrow> bool \<Rightarrow> sql_failure \<Rightarrow> query_end" where
  "database_end env timed e =
     (let (code, message) = database_runtime_error (timed \<and> qe_deadline_set env) e in Database_failed code message)"

fun finish_query :: "report_error + cli_output \<Rightarrow> query_end" where
  "finish_query (Inr out) = Printed out"
| "finish_query (Inl (Report_error code message)) = Report_failed code message"
| "finish_query (Inl (Uncaught e)) = Escaped e"

text \<open>Open the file, read the limit, run the queries.\<close>

definition query_command :: "query_env \<Rightarrow> bool \<Rightarrow> report_error + 'a \<Rightarrow> ('a \<Rightarrow> report_error + cli_output) \<Rightarrow> query_end" where
  "query_command env timed parsed work =
     (case qe_open_error env of
        Some e \<Rightarrow> database_end env timed e
      | None \<Rightarrow>
          (case parsed of
             Inl e \<Rightarrow> finish_query (Inl e)
           | Inr limit \<Rightarrow>
               (case qe_query_error env of
                  Some e \<Rightarrow> database_end env timed e
                | None \<Rightarrow> finish_query (work limit))))"

text \<open>The exit code, none for an exception that escapes.\<close>

definition query_exit_code :: "query_end \<Rightarrow> int option" where
  "query_exit_code e = (case e of Printed _ \<Rightarrow> Some 0 | Escaped _ \<Rightarrow> None | _ \<Rightarrow> Some 1)"

definition printed_as :: "bool \<Rightarrow> json \<Rightarrow> string \<Rightarrow> cli_output" where
  "printed_as as_json j t = (if as_json then Out_json j else Out_text t)"

subsection \<open>Snapshots and sizes\<close>

definition top_command :: "query_env \<Rightarrow> bool \<Rightarrow> string \<Rightarrow> string option \<Rightarrow> string \<Rightarrow> db \<Rightarrow> query_end" where
  "top_command env as_json selector raw_limit group_by d =
     query_command env False (parse_report_limit raw_limit) (\<lambda>limit.
       map_sum id (\<lambda>sections. printed_as as_json (render_top_payload selector limit limit group_by sections)
                                (render_top_text selector limit limit group_by sections))
         (run_top d selector limit group_by))"

definition snapshots_command ::
    "query_env \<Rightarrow> (string option \<Rightarrow> string \<Rightarrow> rat option) \<Rightarrow> bool \<Rightarrow> string option \<Rightarrow> db \<Rightarrow> query_end" where
  "snapshots_command env elapsed as_json raw_limit d =
     query_command env False (parse_report_limit raw_limit) (\<lambda>limit.
       map_sum id (\<lambda>snapshots. printed_as as_json (render_snapshots_payload (qe_floats env) limit snapshots)
                                 (render_snapshots_text (qe_floats env) limit snapshots))
         (query_snapshot_summaries elapsed limit d))"

definition stats_command :: "query_env \<Rightarrow> bool \<Rightarrow> int \<Rightarrow> int \<Rightarrow> int \<Rightarrow> db \<Rightarrow> query_end" where
  "stats_command env as_json user_version page_count page_size d =
     query_command env False (Inr (query_stats user_version page_count page_size d)) (\<lambda>stats.
       Inr (printed_as as_json (stats_document stats) (render_stats_text stats)))"

definition timeline_command :: "query_env \<Rightarrow> string \<Rightarrow> string option \<Rightarrow> db \<Rightarrow> query_end" where
  "timeline_command env since raw_limit d =
     query_command env True (parse_timeline_limit raw_limit) (\<lambda>limit.
       map_sum id (\<lambda>x. Out_json (timeline_document since limit x)) (run_timeline (qe_floats env) d since raw_limit))"

subsection \<open>Comparisons\<close>

definition diff_input :: "string \<Rightarrow> int \<Rightarrow> string \<Rightarrow> diff_report \<Rightarrow> diff_render_input" where
  "diff_input since limit group_by r =
     \<lparr> xd_since = since, xd_limit = limit, xd_effective_limit = limit, xd_group_by = group_by, xd_pairs = df_pairs r,
       xd_rows = df_rows r, xd_classification_counts = df_classification_counts r, xd_warnings = df_warnings r \<rparr>"

definition diff_command :: "query_env \<Rightarrow> bool \<Rightarrow> string \<Rightarrow> string option \<Rightarrow> string \<Rightarrow> db \<Rightarrow> query_end" where
  "diff_command env as_json since raw_limit group_by d =
     query_command env False (parse_report_limit raw_limit) (\<lambda>limit.
       map_sum id (\<lambda>r. let x = diff_input since limit group_by r in printed_as as_json (render_diff_payload x) (render_diff_text x))
         (run_diff (qe_floats env) d since limit group_by))"

definition report_input :: "string \<Rightarrow> int \<Rightarrow> string \<Rightarrow> report_summary \<Rightarrow> report_render_input" where
  "report_input since limit group_by summary =
     \<lparr> xr_since = since, xr_limit = limit, xr_effective_limit = limit, xr_group_by = group_by, xr_summary = summary,
       xr_pressure_summary = None \<rparr>"

definition report_command :: "query_env \<Rightarrow> bool \<Rightarrow> string \<Rightarrow> string option \<Rightarrow> string \<Rightarrow> db \<Rightarrow> query_end" where
  "report_command env as_json since raw_limit group_by d =
     query_command env False (parse_report_limit raw_limit) (\<lambda>limit.
       map_sum id (\<lambda>summary. let x = report_input since limit group_by summary in
           printed_as as_json (render_report_payload (qe_floats env) x) (render_report_text (qe_floats env) (qe_float_text env) x))
         (run_report (qe_floats env) d since limit group_by))"

definition deleted_command :: "query_env \<Rightarrow> bool \<Rightarrow> string \<Rightarrow> string option \<Rightarrow> db \<Rightarrow> query_end" where
  "deleted_command env as_json since raw_limit d =
     query_command env False (parse_report_limit raw_limit) (\<lambda>limit.
       map_sum id (\<lambda>(pairs, rows, warnings).
           let x = \<lparr> xl_since = since, xl_limit = limit, xl_effective_limit = limit, xl_pairs = pairs, xl_warnings = warnings,
                     xl_rows = rows \<rparr>
           in printed_as as_json (render_deleted_payload x) (render_deleted_text x))
         (run_deleted d since limit))"

definition investigate_command :: "query_env \<Rightarrow> df_index_providers \<Rightarrow> string \<Rightarrow> string option \<Rightarrow> db \<Rightarrow> query_end" where
  "investigate_command env providers since raw_limit d =
     query_command env True (parse_report_limit raw_limit) (\<lambda>limit.
       map_sum id (\<lambda>x. Out_json (investigate_document (qe_floats env) x since limit 3))
         (compact_investigation (qe_floats env) d providers since limit 3))"

definition explain_command :: "query_env \<Rightarrow> cli_paths \<Rightarrow> explain_args \<Rightarrow> db \<Rightarrow> query_end" where
  "explain_command env paths args d =
     query_command env False (parse_report_limit (ex_limit args)) (\<lambda>_.
       map_sum id (\<lambda>r. Out_json (render_explain_path_payload (qe_floats env)
           \<lparr> xe_since = ex_since args, xe_limit = xp_limit r, xe_effective_limit = xp_limit r, xe_depth = xp_depth r,
             xe_group_by = ex_group_by args, xe_pairs = [xp_pair r], xe_result = xp_result r, xe_warnings = xp_warnings r \<rparr>))
         (run_explain_path paths d args))"

subsection \<open>Diagnostics\<close>

definition df_vs_index_command :: "query_env \<Rightarrow> df_index_providers \<Rightarrow> string \<Rightarrow> string option \<Rightarrow> db \<Rightarrow> query_end" where
  "df_vs_index_command env providers selector raw_limit d =
     query_command env False (parse_report_limit raw_limit) (\<lambda>limit.
       map_sum id (\<lambda>x. Out_json (render_df_index_payload x)) (build_df_index_diagnostic (qe_floats env) d selector limit providers))"

text \<open>
  The limit is read before anything is caught, the database only opened when it is given.
\<close>

definition outside_try :: "report_error + 'a \<Rightarrow> ('a \<Rightarrow> query_end) \<Rightarrow> query_end" where
  "outside_try parsed work =
     (case parsed of Inl (Report_error _ _) \<Rightarrow> Escaped ''ReportError'' | Inl (Uncaught e) \<Rightarrow> Escaped e | Inr x \<Rightarrow> work x)"

definition optional_database :: "query_env \<Rightarrow> db option \<Rightarrow> report_error + cli_output \<Rightarrow> query_end" where
  "optional_database env db_arg result =
     (case db_arg of None \<Rightarrow> finish_query result | Some _ \<Rightarrow> query_command env False (Inr ()) (\<lambda>_. result))"

definition deleted_open_command ::
    "query_env \<Rightarrow> string option \<Rightarrow> procfs \<Rightarrow> pathname \<Rightarrow> (string list \<Rightarrow> lsof_answer) \<Rightarrow> db option \<Rightarrow> string \<Rightarrow> query_end" where
  "deleted_open_command env raw_limit fs proc_root runner db_arg generated_at =
     outside_try (parse_report_limit raw_limit) (\<lambda>limit.
       optional_database env db_arg
         (map_sum id (\<lambda>x. Out_json (render_deleted_open_payload x)) (run_deleted_open_files limit fs proc_root runner db_arg generated_at)))"

definition docker_enrichment_command :: "query_env \<Rightarrow> docker_env \<Rightarrow> db option \<Rightarrow> string option \<Rightarrow> docker_runner \<Rightarrow> string \<Rightarrow> query_end" where
  "docker_enrichment_command env docker db_arg raw_limit runner generated_at =
     outside_try (parse_report_limit raw_limit) (\<lambda>_.
       optional_database env db_arg
         (map_sum id (\<lambda>x. Out_json (render_docker_enrichment_payload x)) (run_docker_enrichment docker db_arg raw_limit runner generated_at)))"

end
