(* ===== verification/Investigate_Proofs.thy ===== *)
theory Investigate_Proofs
  imports Investigate
begin

text \<open>
  What an investigation shows: directories that no deeper one explains, relocations as a matching of grown and
  shrunk neighbours, and the interval of the largest growth of a path.
\<close>

subsection \<open>Dominated directories\<close>

definition deeper :: "fast_growth_row \<Rightarrow> fast_growth_row \<Rightarrow> bool" where
  "deeper d a \<longleftrightarrow> fast_growth_scope d = fast_growth_scope a \<and> fg_path a \<in> set (ancestors (fg_path d))"

lemma deeper_trans: "deeper x y \<Longrightarrow> deeper y z \<Longrightarrow> deeper x z"
  using ancestors_trans by (auto simp: deeper_def)

lemma deeper_length: "deeper d a \<Longrightarrow> length (fg_path a) < length (fg_path d)"
  by (auto simp: deeper_def dest: ancestors_length)

lemma map_of_dict_of_mem: "map_of (dict_of kvs) k = Some v \<Longrightarrow> (k, v) \<in> set kvs"
  by (auto simp: map_of_dict_of dest: map_of_SomeD)

text \<open>A row left out is explained by a deeper row of the same scope.\<close>

lemma removed_explained:
  assumes "r \<in> set rows" and "r \<notin> set (remove_dominated_fast_ancestors fl rows)"
  obtains d a where "d \<in> set rows" "deeper d r" "a \<in> set rows" "fast_growth_scope_path a = fast_growth_scope_path r" "dominates_row fl d a"
proof -
  let ?dict = "dict_of (map (\<lambda>row. (fast_growth_scope_path row, row)) rows)"
  obtain d where d: "d \<in> set rows" "fast_growth_scope_path r \<in> set (dominated_by fl ?dict d)"
    using assms by (auto simp: remove_dominated_fast_ancestors_def Let_def)
  then obtain a where a: "map_of ?dict (fast_growth_scope_path r) = Some a" "dominates_row fl d a"
    by (auto simp: dominated_by_def split: option.splits)
  have "a \<in> set rows" "fast_growth_scope_path a = fast_growth_scope_path r" using map_of_dict_of_mem[OF a(1)] by auto
  moreover have "deeper d r" using d(2) by (auto simp: dominated_by_def deeper_def fast_growth_scope_path_def)
  ultimately show ?thesis using that d(1) a(2) by blast
qed

lemma kept_row: "k \<in> set (remove_dominated_fast_ancestors fl rows) \<Longrightarrow> k \<in> set rows"
  by (simp add: remove_dominated_fast_ancestors_def Let_def)

lemma kept_cover:
  assumes "r \<in> set rows"
  shows "\<exists>k\<in>set (remove_dominated_fast_ancestors fl rows). k = r \<or> deeper k r"
proof -
  define m where "m = Max ((length \<circ> fg_path) ` set rows)"
  have le: "length (fg_path x) \<le> m" if "x \<in> set rows" for x unfolding m_def using that by (intro Max_ge) auto
  show ?thesis using assms
  proof (induction "m - length (fg_path r)" arbitrary: r rule: less_induct)
    case less
    show ?case
    proof (cases "r \<in> set (remove_dominated_fast_ancestors fl rows)")
      case True
      then show ?thesis by blast
    next
      case False
      obtain d where d: "d \<in> set rows" "deeper d r" using removed_explained[OF less.prems False] by metis
      have "m - length (fg_path d) < m - length (fg_path r)"
        using deeper_length[OF d(2)] le[OF d(1)] by linarith
      from less.hyps[OF this d(1)] show ?thesis using d(2) deeper_trans by blast
    qed
  qed
qed

lemma kept_undominated:
  assumes distinct: "distinct (map fast_growth_scope_path rows)"
    and a: "a \<in> set (remove_dominated_fast_ancestors fl rows)" and d: "d \<in> set rows" "deeper d a"
  shows "\<not> dominates_row fl d a"
proof
  assume dom: "dominates_row fl d a"
  let ?kvs = "map (\<lambda>row. (fast_growth_scope_path row, row)) rows"
  have "distinct (map fst ?kvs)" using distinct by (simp add: comp_def)
  moreover have "(fast_growth_scope_path a, a) \<in> set ?kvs" using kept_row[OF a] by auto
  ultimately have m: "map_of (dict_of ?kvs) (fast_growth_scope_path a) = Some a" by (simp only: map_of_distinct_dict)
  have "fast_growth_scope_path a \<in> set (dominated_by fl (dict_of ?kvs) d)"
    using d(2) dom m by (auto simp: dominated_by_def deeper_def fast_growth_scope_path_def)
  then show False using a d(1) by (auto simp: remove_dominated_fast_ancestors_def Let_def)
qed

subsection \<open>Ranking\<close>

lemma sorted_prefix:
  fixes f :: "'a \<Rightarrow> 'k :: linorder"
  assumes "1 \<le> limit"
  shows "sorted (map f (py_prefix limit (sort_key f xs)))" and "set (py_prefix limit (sort_key f xs)) \<subseteq> set xs"
    and "int (length (py_prefix limit (sort_key f xs))) \<le> limit"
    and "x \<in> set xs \<Longrightarrow> x \<in> set (py_prefix limit (sort_key f xs))
      \<or> int (length (py_prefix limit (sort_key f xs))) = limit \<and> (\<forall>p\<in>set (py_prefix limit (sort_key f xs)). f p \<le> f x)"
proof -
  let ?ys = "sort_key f xs" and ?n = "nat limit"
  have p: "py_prefix limit ?ys = take ?n ?ys" using assms by (simp add: py_prefix_def)
  show "sorted (map f (py_prefix limit ?ys))" unfolding p take_map[symmetric] by (rule sorted_wrt_take) simp
  show "set (py_prefix limit ?ys) \<subseteq> set xs" unfolding p by (auto dest: in_set_takeD)
  show "int (length (py_prefix limit ?ys)) \<le> limit" using assms by (simp add: p)
  assume "x \<in> set xs"
  then have "x \<in> set (take ?n ?ys @ drop ?n ?ys)" by simp
  then consider "x \<in> set (take ?n ?ys)" | "x \<in> set (drop ?n ?ys)" unfolding set_append by blast
  then show "x \<in> set (py_prefix limit ?ys)
      \<or> int (length (py_prefix limit ?ys)) = limit \<and> (\<forall>p\<in>set (py_prefix limit ?ys). f p \<le> f x)"
  proof cases
    case 1
    then show ?thesis unfolding p by blast
  next
    case 2
    have "sorted (map f (take ?n ?ys @ drop ?n ?ys))" by simp
    then have "\<forall>p\<in>set (take ?n ?ys). f p \<le> f x" using 2 unfolding map_append sorted_append by auto
    moreover have "length (take ?n ?ys) = ?n" using 2 by (auto simp: min_def)
    ultimately show ?thesis unfolding p using assms by simp
  qed
qed

subsection \<open>Relocations\<close>

lemma relocation_match_Some:
  "relocation_match fl used p n = Some b \<longleftrightarrow> fast_growth_scope_path n \<notin> set used \<and> relocation_match fl [] p n = Some b"
  by (auto simp: relocation_match_def)

lemma relocation_match_fields:
  assumes "relocation_match fl [] p n = Some b"
  shows "rl_positive b = p" and "rl_negative b = n" and "same_snapshot_scope p n"
    and "parent_of (fg_path p) = Some (rl_common_parent b)" and "parent_of (fg_path n) = Some (rl_common_parent b)"
    and "rl_size_gap_bytes b = size_gap p n" and "size_gap p n \<le> allowed_gap fl p n"
  using assms by (auto simp: relocation_match_def common_parent_def split: if_splits option.splits)

lemma best_relocation_spec:
  "case best_relocation fl used negatives p of
     None \<Rightarrow> \<forall>n\<in>set negatives. relocation_match fl used p n = None
   | Some b \<Rightarrow> (\<exists>n\<in>set negatives. relocation_match fl used p n = Some b)
       \<and> (\<forall>n\<in>set negatives. \<forall>b'. relocation_match fl used p n = Some b' \<longrightarrow> rl_size_gap_bytes b \<le> rl_size_gap_bytes b')"
proof (induction negatives rule: rev_induct)
  case Nil
  then show ?case by (simp add: best_relocation_def)
next
  case (snoc n ns)
  have step: "best_relocation fl used (ns @ [n]) p = (case relocation_match fl used p n of
      None \<Rightarrow> best_relocation fl used ns p
    | Some s \<Rightarrow> (case best_relocation fl used ns p of None \<Rightarrow> Some s
        | Some b \<Rightarrow> if rl_size_gap_bytes s < rl_size_gap_bytes b then Some s else Some b))"
    by (simp add: best_relocation_def split: option.splits)
  show ?case
  proof (cases "relocation_match fl used p n")
    case None
    then show ?thesis using snoc.IH by (cases "best_relocation fl used ns p") (auto simp: step)
  next
    case (Some s)
    show ?thesis
    proof (cases "best_relocation fl used ns p")
      case None
      then show ?thesis using snoc.IH by (simp add: step Some)
    next
      case b: (Some b)
      show ?thesis
      proof (cases "rl_size_gap_bytes s < rl_size_gap_bytes b")
        case True
        have "\<forall>x\<in>set ns. \<forall>b'. relocation_match fl used p x = Some b' \<longrightarrow> rl_size_gap_bytes s \<le> rl_size_gap_bytes b'"
          using snoc.IH True unfolding b option.case by force
        then show ?thesis using True by (simp add: step Some b)
      next
        case False
        then show ?thesis using snoc.IH by (auto simp: step Some b)
      qed
    qed
  qed
qed

definition matching :: "float_ops \<Rightarrow> fast_growth_row list \<Rightarrow> fast_growth_row list \<Rightarrow> relocation_suspicion list \<Rightarrow> bool" where
  "matching fl ps ns ss \<longleftrightarrow>
     distinct (map (fast_growth_scope_path \<circ> rl_negative) ss)
     \<and> (\<forall>s\<in>set ss. rl_positive s \<in> set ps \<and> rl_negative s \<in> set ns \<and> relocation_match fl [] (rl_positive s) (rl_negative s) = Some s)
     \<and> (\<forall>p\<in>set ps. \<forall>n\<in>set ns. \<forall>b. fast_growth_scope_path n \<notin> (fast_growth_scope_path \<circ> rl_negative) ` set ss
          \<longrightarrow> relocation_match fl [] p n = Some b
          \<longrightarrow> (\<exists>s\<in>set ss. rl_positive s = p \<and> rl_size_gap_bytes s \<le> rl_size_gap_bytes b))"

lemma matching_step:
  assumes m: "matching fl ps ns ss" and used: "set used = (fast_growth_scope_path \<circ> rl_negative) ` set ss"
    and step: "relocation_step fl ns (used, ss) p = (used', ss')"
  shows "matching fl (ps @ [p]) ns ss' \<and> set used' = (fast_growth_scope_path \<circ> rl_negative) ` set ss'"
proof (cases "best_relocation fl used ns p")
  case None
  then have r: "used' = used" "ss' = ss" using step by (simp_all add: relocation_step_def)
  have "\<forall>n\<in>set ns. relocation_match fl used p n = None" using best_relocation_spec[where fl = fl and used = used and negatives = ns and p = p] None by simp
  then have "fast_growth_scope_path n \<notin> set used \<Longrightarrow> n \<in> set ns \<Longrightarrow> relocation_match fl [] p n \<noteq> Some b" for n b
    using relocation_match_Some[of fl used p n b] by auto
  then show ?thesis using m used unfolding r matching_def by auto
next
  case (Some b)
  then have r: "used' = fast_growth_scope_path (rl_negative b) # used" "ss' = ss @ [b]" using step by (simp_all add: relocation_step_def)
  obtain n where n: "n \<in> set ns" "relocation_match fl used p n = Some b"
    and least: "\<And>n b'. n \<in> set ns \<Longrightarrow> relocation_match fl used p n = Some b' \<Longrightarrow> rl_size_gap_bytes b \<le> rl_size_gap_bytes b'"
    using best_relocation_spec[where fl = fl and used = used and negatives = ns and p = p] Some by auto
  have u: "fast_growth_scope_path n \<notin> set used" and mt: "relocation_match fl [] p n = Some b"
    using n(2) unfolding relocation_match_Some[of fl used] by simp_all
  note f = relocation_match_fields(1,2)[OF mt]
  have fresh: "fast_growth_scope_path (rl_negative b) \<notin> (fast_growth_scope_path \<circ> rl_negative) ` set ss" using u used f by simp
  have opt: "\<exists>s\<in>set (ss @ [b]). rl_positive s = q \<and> rl_size_gap_bytes s \<le> rl_size_gap_bytes b'"
    if "q \<in> set (ps @ [p])" "x \<in> set ns" "fast_growth_scope_path x \<notin> (fast_growth_scope_path \<circ> rl_negative) ` set (ss @ [b])"
      "relocation_match fl [] q x = Some b'" for q x b'
  proof (cases "q \<in> set ps")
    case True
    have "fast_growth_scope_path x \<notin> (fast_growth_scope_path \<circ> rl_negative) ` set ss" using that(3) by auto
    then have "\<exists>s\<in>set ss. rl_positive s = q \<and> rl_size_gap_bytes s \<le> rl_size_gap_bytes b'"
      using m True that(2,4) unfolding matching_def by blast
    then show ?thesis by auto
  next
    case False
    then have "q = p" using that(1) by simp
    moreover have "relocation_match fl used q x = Some b'" using that(3,4) used by (auto simp: relocation_match_Some[of fl used])
    ultimately show ?thesis using least[OF that(2)] f by auto
  qed
  have mem: "\<forall>s\<in>set (ss @ [b]). rl_positive s \<in> set (ps @ [p]) \<and> rl_negative s \<in> set ns
      \<and> relocation_match fl [] (rl_positive s) (rl_negative s) = Some s"
  proof
    fix s assume "s \<in> set (ss @ [b])"
    then consider "s \<in> set ss" | "s = b" by auto
    then show "rl_positive s \<in> set (ps @ [p]) \<and> rl_negative s \<in> set ns \<and> relocation_match fl [] (rl_positive s) (rl_negative s) = Some s"
    proof cases
      case 1
      then show ?thesis using m unfolding matching_def by fastforce
    next
      case 2
      then show ?thesis using f mt n(1) by simp
    qed
  qed
  have dist: "distinct (map (fast_growth_scope_path \<circ> rl_negative) (ss @ [b]))" using m fresh unfolding matching_def by simp
  have "matching fl (ps @ [p]) ns (ss @ [b])"
    unfolding matching_def by (intro conjI mem dist ballI allI impI) (rule opt)
  then show ?thesis using used by (simp add: r)
qed

lemma matching_fold:
  "foldl (relocation_step fl ns) ([], []) ps = (used, ss)
     \<Longrightarrow> matching fl ps ns ss \<and> set used = (fast_growth_scope_path \<circ> rl_negative) ` set ss"
proof (induction ps arbitrary: used ss rule: rev_induct)
  case Nil
  then show ?case by (simp add: matching_def)
next
  case (snoc p ps)
  obtain u s where us: "foldl (relocation_step fl ns) ([], []) ps = (u, s)" by (cases "foldl (relocation_step fl ns) ([], []) ps")
  have step: "relocation_step fl ns (u, s) p = (used, ss)" using snoc.prems us by simp
  show ?case by (rule matching_step[OF snoc.IH[OF us, THEN conjunct1] snoc.IH[OF us, THEN conjunct2] step])
qed

definition large_growth :: "fast_growth_row list \<Rightarrow> fast_growth_row list" where
  "large_growth rows = sort_key persistent_growth_sort_key (filter (\<lambda>row. fg_disk_bytes_delta row \<ge> RELOCATION_MIN_BYTES) rows)"

definition large_shrinkage :: "fast_growth_row list \<Rightarrow> fast_growth_row list" where
  "large_shrinkage rows = sort_key shrink_sort_key (filter (\<lambda>row. \<bar>fg_disk_bytes_delta row\<bar> \<ge> RELOCATION_MIN_BYTES) rows)"

lemma relocations_matching: "matching fl (large_growth rows) (large_shrinkage shrinks) (relocation_suspicions fl rows shrinks)"
  using matching_fold[where fl = fl and ns = "large_shrinkage shrinks" and ps = "large_growth rows"]
  by (cases "foldl (relocation_step fl (large_shrinkage shrinks)) ([], []) (large_growth rows)")
     (simp add: relocation_suspicions_def large_growth_def large_shrinkage_def Let_def)

subsection \<open>The properties\<close>

lemma ranked_pool:
  assumes "rank_rows fl limit bursts rows shrinks = (persistent, anomalies, suspicions)"
  shows "suspicions = relocation_suspicions fl (remove_dominated_fast_ancestors fl rows) shrinks"
    and "persistent = py_prefix limit (sort_key persistent_growth_sort_key
           (filter (\<lambda>row. \<not> is_relocation_subtree row suspicions) (remove_dominated_fast_ancestors fl rows)))"
    and "anomalies = py_prefix limit (sort_key (burst_anomaly_sort_key bursts)
           (filter (\<lambda>row. \<not> is_relocation_subtree row suspicions) (remove_dominated_fast_ancestors fl rows)))"
  using assms by (auto simp: rank_rows_def Let_def)


text \<open>The investigation is such a ranking of the shallow growth of all its pairs.\<close>

lemma investigation_ranks:
  assumes "compact_investigation fl d providers since limit max_depth = Inr found"
  obtains rows shrinks suspicions where
    "fold_err (pair_rows d (limit * 3) max_depth) ([], []) (in_pairs found) = Inr (rows, shrinks)"
    and "rank_rows fl limit (in_bursts found) rows shrinks = (in_persistent found, in_burst_anomalies found, suspicions)"
    and "in_relocations found = py_prefix limit suspicions"
  using assms
  by (auto simp: compact_investigation_def investigate_candidate_multiplier_def case_sum_Inr map_sum_Inr Let_def case_prod_unfold prod_eq_iff)

definition sample_fast_row :: "bytes \<Rightarrow> int \<Rightarrow> int \<Rightarrow> fast_growth_row" where
  "sample_fast_row path previous current =
     fast_row (pair_of ''/r'' (sp_baseline diff_pair) (sp_current diff_pair) []) path
       (Some (dir_state None 1 previous 0)) (Some (dir_state None 1 current 0))"

definition sample_growth_rows :: "fast_growth_row list" where
  "sample_growth_rows =
     [sample_fast_row ''/r/a'' 0 (2000 * mib), sample_fast_row ''/r/a/x'' 0 (1999 * mib), sample_fast_row ''/r/new'' 0 (700 * mib)]"

definition sample_shrink_rows :: "fast_growth_row list" where
  "sample_shrink_rows = [sample_fast_row ''/r/old'' (690 * mib) 0, sample_fast_row ''/r/other'' (600 * mib) 0]"


lemma relocation_match_iff:
  "(\<exists>b. relocation_match fl [] p n = Some b \<and> rl_size_gap_bytes b = g) \<longleftrightarrow>
     same_snapshot_scope p n \<and> parent_of (fg_path p) \<noteq> None \<and> parent_of (fg_path n) = parent_of (fg_path p)
     \<and> size_gap p n \<le> allowed_gap fl p n \<and> g = size_gap p n"
  by (auto simp: relocation_match_def common_parent_def split: option.splits)

text \<open>
  Relocations are a matching.  Each suspicion pairs a directory that grew by at least 512 MiB with one that
  shrank by as much, beside it and between the same snapshots, whose sizes differ by no more than is allowed;
  no shrunk directory is used twice; and no better use is left: a grown directory that matches a shrunk one
  nobody took is itself paired, with one at least as close in size.
\<close>

theorem relocations_pair_up:
  "distinct (map (fast_growth_scope_path \<circ> rl_negative) (relocation_suspicions fl rows shrinks))
   \<and> (\<forall>s\<in>set (relocation_suspicions fl rows shrinks).
        rl_positive s \<in> set rows \<and> fg_disk_bytes_delta (rl_positive s) \<ge> 512 * 1024 * 1024
        \<and> rl_negative s \<in> set shrinks \<and> \<bar>fg_disk_bytes_delta (rl_negative s)\<bar> \<ge> 512 * 1024 * 1024
        \<and> same_snapshot_scope (rl_positive s) (rl_negative s)
        \<and> parent_of (fg_path (rl_positive s)) = Some (rl_common_parent s)
        \<and> parent_of (fg_path (rl_negative s)) = Some (rl_common_parent s)
        \<and> rl_size_gap_bytes s = size_gap (rl_positive s) (rl_negative s)
        \<and> rl_size_gap_bytes s \<le> allowed_gap fl (rl_positive s) (rl_negative s))
   \<and> (\<forall>p\<in>set rows. \<forall>n\<in>set shrinks.
        fg_disk_bytes_delta p \<ge> 512 * 1024 * 1024 \<and> \<bar>fg_disk_bytes_delta n\<bar> \<ge> 512 * 1024 * 1024
        \<and> fast_growth_scope_path n \<notin> (fast_growth_scope_path \<circ> rl_negative) ` set (relocation_suspicions fl rows shrinks)
        \<and> same_snapshot_scope p n \<and> parent_of (fg_path p) \<noteq> None \<and> parent_of (fg_path n) = parent_of (fg_path p)
        \<and> size_gap p n \<le> allowed_gap fl p n
        \<longrightarrow> (\<exists>s\<in>set (relocation_suspicions fl rows shrinks). rl_positive s = p \<and> rl_size_gap_bytes s \<le> size_gap p n))"
proof -
  let ?ss = "relocation_suspicions fl rows shrinks"
  note m = relocations_matching[of fl rows shrinks, unfolded matching_def]
  have min: "RELOCATION_MIN_BYTES = 512 * 1024 * 1024" by (simp add: RELOCATION_MIN_BYTES_def mib_def)
  have one: "rl_positive s \<in> set rows \<and> fg_disk_bytes_delta (rl_positive s) \<ge> 512 * 1024 * 1024
        \<and> rl_negative s \<in> set shrinks \<and> \<bar>fg_disk_bytes_delta (rl_negative s)\<bar> \<ge> 512 * 1024 * 1024
        \<and> same_snapshot_scope (rl_positive s) (rl_negative s)
        \<and> parent_of (fg_path (rl_positive s)) = Some (rl_common_parent s)
        \<and> parent_of (fg_path (rl_negative s)) = Some (rl_common_parent s)
        \<and> rl_size_gap_bytes s = size_gap (rl_positive s) (rl_negative s)
        \<and> rl_size_gap_bytes s \<le> allowed_gap fl (rl_positive s) (rl_negative s)" if "s \<in> set ?ss" for s
  proof -
    have f: "rl_positive s \<in> set (large_growth rows)" "rl_negative s \<in> set (large_shrinkage shrinks)"
      "relocation_match fl [] (rl_positive s) (rl_negative s) = Some s" using m that by blast+
    show ?thesis using f(1,2) relocation_match_fields[OF f(3)] by (simp add: large_growth_def large_shrinkage_def min)
  qed
  have two: "\<exists>s\<in>set ?ss. rl_positive s = p \<and> rl_size_gap_bytes s \<le> size_gap p n"
    if p: "p \<in> set rows" "fg_disk_bytes_delta p \<ge> 512 * 1024 * 1024" and n: "n \<in> set shrinks" "\<bar>fg_disk_bytes_delta n\<bar> \<ge> 512 * 1024 * 1024"
      and unused: "fast_growth_scope_path n \<notin> (fast_growth_scope_path \<circ> rl_negative) ` set ?ss"
      and match: "same_snapshot_scope p n \<and> parent_of (fg_path p) \<noteq> None \<and> parent_of (fg_path n) = parent_of (fg_path p)
        \<and> size_gap p n \<le> allowed_gap fl p n" for p n
  proof -
    obtain b where b: "relocation_match fl [] p n = Some b" "rl_size_gap_bytes b = size_gap p n"
      using relocation_match_iff[of fl p n "size_gap p n"] match by blast
    have "p \<in> set (large_growth rows)" "n \<in> set (large_shrinkage shrinks)" using p n by (simp_all add: large_growth_def large_shrinkage_def min)
    then have "\<exists>s\<in>set ?ss. rl_positive s = p \<and> rl_size_gap_bytes s \<le> rl_size_gap_bytes b" using m unused b(1) by blast
    then show ?thesis unfolding b(2) .
  qed
  show ?thesis using m one two by (intro conjI ballI impI) blast+
qed

lemma relocations_pair_up_witness:
  "case relocation_suspicions exact_floats (tl sample_growth_rows) sample_shrink_rows of
     [s] \<Rightarrow> rl_common_parent s = ''/r'' \<and> fg_path (rl_negative s) = ''/r/old'' \<and> same_snapshot_scope (rl_positive s) (rl_negative s)
   | _ \<Rightarrow> False"
proof -
  have e: "case relocation_suspicions exact_floats (tl sample_growth_rows) sample_shrink_rows of
     [s] \<Rightarrow> rl_common_parent s = ''/r'' \<and> fg_path (rl_negative s) = ''/r/old'' | _ \<Rightarrow> False" by code_simp
  then obtain s where s: "relocation_suspicions exact_floats (tl sample_growth_rows) sample_shrink_rows = [s]"
    and v: "rl_common_parent s = ''/r'' \<and> fg_path (rl_negative s) = ''/r/old''"
    by (cases "relocation_suspicions exact_floats (tl sample_growth_rows) sample_shrink_rows" rule: list.exhaust; cases "tl (relocation_suspicions exact_floats (tl sample_growth_rows) sample_shrink_rows)") auto
  have "same_snapshot_scope (rl_positive s) (rl_negative s)"
    using relocations_pair_up[of exact_floats "tl sample_growth_rows" sample_shrink_rows, unfolded s] by simp
  then show ?thesis using v unfolding s by simp
qed

subsection \<open>Bursts\<close>

lemma in_pairwise: "(a, b) \<in> set (pairwise xs) \<longleftrightarrow> (\<exists>us vs. xs = us @ a # b # vs)"
proof (induction xs rule: induct_list012)
  case (3 x y zs)
  have "(a, b) \<in> set (pairwise (x # y # zs)) \<longleftrightarrow> (a = x \<and> b = y) \<or> (a, b) \<in> set (pairwise (y # zs))" by (auto simp: pairwise_def)
  also have "\<dots> \<longleftrightarrow> (\<exists>us vs. x # y # zs = us @ a # b # vs)"
    unfolding "3.IH"(2) by (auto simp: Cons_eq_append_conv)
  finally show ?case .
qed (auto simp: pairwise_def)

lemma burst_interval_largest:
  "case burst_interval (burst_metrics_for_trend fl trend) of
     None \<Rightarrow> \<forall>a b us vs. tm_samples (pt_metrics trend) = us @ a # b # vs \<longrightarrow> ts_disk_bytes b \<le> ts_disk_bytes a
   | Some (a, b) \<Rightarrow> (\<exists>us vs. tm_samples (pt_metrics trend) = us @ a # b # vs) \<and> ts_disk_bytes a < ts_disk_bytes b
       \<and> bm_largest_growth_interval_bytes (burst_metrics_for_trend fl trend) = ts_disk_bytes b - ts_disk_bytes a
       \<and> (\<forall>x y us vs. tm_samples (pt_metrics trend) = us @ x # y # vs
            \<longrightarrow> ts_disk_bytes y - ts_disk_bytes x \<le> ts_disk_bytes b - ts_disk_bytes a)"
proof -
  let ?pairs = "pairwise (tm_samples (pt_metrics trend))"
  let ?key = "\<lambda>pair. (sample_pair_disk_delta (Some pair), ts_finished_at (snd pair), ts_snapshot_id (snd pair))"
  let ?up = "filter (\<lambda>pair. sample_pair_disk_delta (Some pair) > 0) ?pairs"
  have mem: "(\<exists>us vs. tm_samples (pt_metrics trend) = us @ a # b # vs) \<longleftrightarrow> (a, b) \<in> set ?pairs" for a b by (simp add: in_pairwise)
  show ?thesis
  proof (cases "largest_growth_sample_pair ?pairs")
    case None
    then have "?up = []" by (simp add: largest_growth_sample_pair_def)
    then have "(a, b) \<in> set ?pairs \<Longrightarrow> ts_disk_bytes b \<le> ts_disk_bytes a" for a b
      by (auto simp: filter_empty_conv sample_pair_disk_delta_def)
    then show ?thesis using None mem by (auto simp: burst_interval_def burst_metrics_for_trend_def Let_def)
  next
    case (Some p)
    obtain a b where p: "p = (a, b)" by (cases p)
    have m: "p \<in> set ?up" "\<forall>x\<in>set ?up. ?key x \<le> ?key p"
      using max_by_Some[of ?key ?up p] Some by (simp_all add: largest_growth_sample_pair_def)
    have "ts_disk_bytes y - ts_disk_bytes x \<le> ts_disk_bytes b - ts_disk_bytes a" if "(x, y) \<in> set ?pairs" for x y
    proof (cases "ts_disk_bytes y - ts_disk_bytes x > 0")
      case True
      then have "(x, y) \<in> set ?up" using that by (simp add: sample_pair_disk_delta_def)
      then have "?key (x, y) \<le> ?key p" using m(2) by blast
      then show ?thesis unfolding p by (auto simp: less_eq_prod_def sample_pair_disk_delta_def)
    next
      case False
      then show ?thesis using m(1) by (auto simp: p sample_pair_disk_delta_def)
    qed
    then show ?thesis using m(1) mem Some
      by (auto simp: burst_interval_def burst_metrics_for_trend_def Let_def p sample_pair_disk_delta_def)
  qed
qed

end
