(* ===== verification/Report_Commands_Proofs.thy ===== *)
theory Report_Commands_Proofs
  imports Report_Commands Investigate_Proofs
begin

text \<open>The diff, report and deleted commands tell the same story; what the timeline shows of a root.\<close>

subsection \<open>One pair\<close>

abbreviation changed :: "diff_row \<Rightarrow> bool" where
  "changed row \<equiv> dr_classification row \<noteq> ''unchanged''"

lemma resolved_pair_stored:
  assumes "distinct (map sn_id (db_snapshots d))" and "resolve_snapshot_pairs since d = Inr (pairs, ws)" and "p \<in> set pairs"
  shows "pair_stored d p"
proof -
  obtain delta where "chosen_pair delta (usable_of_root d (sp_root_path p)) p" using resolved_pairs[OF assms(1,2)] assms(3) by blast
  then obtain cur where "cur \<in> usable_of_root d (sp_root_path p)" "sp_current p = fst cur" unfolding chosen_pair_def by blast
  then obtain row where row: "row \<in> set (db_snapshots d)" "sn_root_path row = sp_root_path p" "usable_of row = Some cur" "sp_current p = fst cur"
    by (auto simp: usable_of_root_def)
  note u = usable_of_id[OF row(3)]
  have "pair_record row = Inr (fst cur)" using u by (simp add: pair_record_def)
  then show ?thesis using row u by (auto simp: pair_stored_def)
qed

lemma deleted_of_changed: "deleted_rows_from_diff_rows (filter changed rows) n = deleted_rows_from_diff_rows rows n"
proof -
  have "filter (\<lambda>row. dr_classification row = ''deleted'') (filter changed rows) = filter (\<lambda>row. dr_classification row = ''deleted'') rows"
    unfolding filter_filter by (rule filter_cong[OF refl]) auto
  then show ?thesis by (simp only: deleted_rows_from_diff_rows_def)
qed

lemma frontier_of_changed: "prune_growth_frontier fl (filter changed rows) = prune_growth_frontier fl rows"
proof -
  have "filter is_candidate (filter changed rows) = filter is_candidate rows"
    unfolding filter_filter by (rule filter_cong[OF refl]) (auto simp: is_candidate_def)
  then show ?thesis by (simp only: prune_growth_frontier_def positive_candidates_def)
qed

definition without_unchanged :: "(string \<times> int) list \<Rightarrow> (string \<times> int) list" where
  "without_unchanged counts = filter (\<lambda>(k, _). k \<noteq> ''unchanged'') counts"

lemma without_unchanged_get: "k \<noteq> ''unchanged'' \<Longrightarrow> map_of (without_unchanged c) k = map_of c k"
  unfolding without_unchanged_def by (induction c) auto

lemma without_unchanged_update:
  "without_unchanged (AList.update k v c) = (if k = ''unchanged'' then without_unchanged c else AList.update k v (without_unchanged c))"
  unfolding without_unchanged_def by (induction c) auto

lemma counts_of_changed: "count_classes (filter changed rows) (without_unchanged c) = without_unchanged (count_classes rows c)"
proof (induction rows arbitrary: c)
  case (Cons r rows)
  have "without_unchanged (count_up (dr_classification r) 1 c)
      = (if changed r then count_up (dr_classification r) 1 (without_unchanged c) else without_unchanged c)"
    by (simp add: count_up_def without_unchanged_update dict_get_def without_unchanged_get)
  then show ?case
    using Cons.IH[of "count_up (dr_classification r) 1 c"] by (cases "changed r") (simp_all add: count_classes_def)
qed (simp add: count_classes_def)

subsection \<open>All pairs\<close>

definition short_of :: "diff_gathered \<Rightarrow> diff_gathered \<Rightarrow> bool" where
  "short_of g g' \<longleftrightarrow> gd_rows g' = filter changed (gd_rows g) \<and> gd_deleted g' = gd_deleted g
     \<and> gd_counts g' = without_unchanged (gd_counts g)"

lemma gather_short:
  assumes wf: "db_wf d" "flags_ok d"
  shows "\<forall>p\<in>set pairs. pair_stored d p \<Longrightarrow> fold_err (gather_pair d group_by True) g pairs = Inr out \<Longrightarrow> short_of g g'
    \<Longrightarrow> \<exists>out'. fold_err (gather_pair d group_by False) g' pairs = Inr out' \<and> short_of out out'"
proof (induction pairs arbitrary: g g')
  case (Cons p pairs)
  obtain rows ws where q: "query_diff_rows d p group_by False True = Inr (rows, ws)"
    using Cons.prems(2) by (cases "query_diff_rows d p group_by False True") (auto simp: gather_pair_def)
  obtain ws' where q': "query_diff_rows d p group_by False False = Inr (filter changed rows, ws')"
    using short_diff[OF wf(1) _ wf(2) q] Cons.prems(1) by auto
  obtain g1 where g1: "gather_pair d group_by True g p = Inr g1" "fold_err (gather_pair d group_by True) g1 pairs = Inr out"
    using Cons.prems(2) by (auto simp: case_sum_Inr)
  obtain g1' where g1': "gather_pair d group_by False g' p = Inr g1'" by (simp add: gather_pair_def q')
  have "short_of g1 g1'"
    using g1(1) g1' Cons.prems(3) by (auto simp: gather_pair_def q q' short_of_def deleted_of_changed counts_of_changed)
  from Cons.IH[OF _ g1(2) this] Cons.prems(1) g1'(1) show ?case by simp
qed auto

lemma deleted_gather:
  "fold_err (gather_pair d ''root'' True) g pairs = Inr out \<Longrightarrow> gd_deleted g = rows
    \<Longrightarrow> \<exists>ws'. fold_err (deleted_pair d) (rows, ws) pairs = Inr (gd_deleted out, ws')"
proof (induction pairs arbitrary: g rows ws)
  case (Cons p pairs)
  obtain dr w where q: "query_diff_rows d p ''root'' False True = Inr (dr, w)"
    using Cons.prems(1) by (cases "query_diff_rows d p ''root'' False True") (auto simp: gather_pair_def)
  obtain g1 where g1: "gather_pair d ''root'' True g p = Inr g1" "fold_err (gather_pair d ''root'' True) g1 pairs = Inr out"
    using Cons.prems(1) by (auto simp: case_sum_Inr)
  have "deleted_pair d (rows, ws) p = Inr (gd_deleted g1, ws @ w)"
    using g1(1) Cons.prems(2)
    by (auto simp: deleted_pair_def query_deleted_rows_def q gather_pair_def deleted_rows_from_diff_rows_def deleted_order_def[abs_def])
  then show ?case using Cons.IH[OF g1(2) refl, of "ws @ w"] by simp
qed simp

subsection \<open>The reports agree\<close>

text \<open>
  C18: The commands agree about what changed.  If \<open>diff\<close> answers for a time span, so do \<open>report\<close>, which leaves
  unchanged paths out of its query, and \<open>deleted\<close>; the report compares the same pairs, lists the same frontier
  of growth, counts every class of change the same (only \<open>unchanged\<close> is missing), and previews exactly the rows
  the deleted command lists.
\<close>

theorem reports_agree:
  assumes wf: "db_wf d" "flags_ok d" and run: "run_diff fl d since limit ''root'' = Inr diff"
  shows "\<exists>summary ws. run_report fl d since limit ''root'' = Inr summary
    \<and> run_deleted d since limit = Inr (df_pairs diff, rs_deleted_preview summary, ws)
    \<and> rs_snapshot_pairs summary = df_pairs diff \<and> rs_frontier summary = df_rows diff
    \<and> rs_classification_counts summary = sort_key id (filter (\<lambda>(k, _). k \<noteq> ''unchanged'') (df_classification_counts diff))"
proof -
  obtain pairs pw where p: "resolve_snapshot_pairs since d = Inr (pairs, pw)"
    using run by (auto simp: run_diff_def gather_pairs_def split: sum.splits)
  let ?g0 = "\<lparr> gd_rows = [], gd_warnings = pw, gd_deleted = [], gd_counts = [] \<rparr>"
  obtain out where o: "fold_err (gather_pair d ''root'' True) ?g0 pairs = Inr out"
    and diff: "diff = \<lparr> df_pairs = pairs, df_rows = py_prefix limit (prune_growth_frontier fl (gd_rows out)),
          df_classification_counts = gd_counts out, df_warnings = dedupe_warnings (gd_warnings out) \<rparr>"
    using run by (auto simp: run_diff_def gather_pairs_def p map_sum_Inr)
  have ids: "distinct (map sn_id (db_snapshots d))" using wf(1) by (simp add: db_wf_def store_inv_def)
  have stored: "\<forall>p\<in>set pairs. pair_stored d p" using resolved_pair_stored[OF ids p] by blast
  have start: "short_of ?g0 ?g0" by (simp add: short_of_def without_unchanged_def)
  obtain out' where o': "fold_err (gather_pair d ''root'' False) ?g0 pairs = Inr out'" and s: "short_of out out'"
    using gather_short[OF wf stored o start] by blast
  obtain ws where del: "fold_err (deleted_pair d) ([], pw) pairs = Inr (gd_deleted out, ws)"
    using deleted_gather[OF o, of "[]" pw] by auto
  have front: "prune_growth_frontier fl (gd_rows out') = prune_growth_frontier fl (gd_rows out)" "gd_deleted out' = gd_deleted out"
    "gd_counts out' = without_unchanged (gd_counts out)"
    using s by (simp_all add: short_of_def frontier_of_changed)
  show ?thesis
    by (simp add: run_report_def run_deleted_def gather_pairs_def p o' del diff front without_unchanged_def summarize_diff_rows_def Let_def)
qed

definition compare_db :: db where
  "compare_db = diff_db\<lparr> db_snapshots := take 2 (db_snapshots diff_db) \<rparr>"

lemma compare_db_ok: "db_wf compare_db" "flags_ok compare_db"
proof -
  show "db_wf compare_db"
    by (simp add: compare_db_def diff_db_def timeline_db_def empty_db_def db_wf_def store_inv_def paths_ok_def ids_known_def
        snapshot_ids_def iv_nonempty_def iv_disjoint_def)
  show "flags_ok compare_db" by code_simp
qed

lemma reports_agree_witness:
  "\<exists>summary. run_report exact_floats compare_db ''1d'' 5 ''root'' = Inr summary \<and> map dr_path (rs_deleted_preview summary) = [''/r/b'']
     \<and> map (dr_path \<circ> fr_row) (rs_frontier summary) = [''/r/a'', ''/r/c'']"
proof -
  have e: "case run_diff exact_floats compare_db ''1d'' 5 ''root'' of Inl _ \<Rightarrow> False
     | Inr diff \<Rightarrow> map (dr_path \<circ> fr_row) (df_rows diff) = [''/r/a'', ''/r/c'']" by code_simp
  have f: "case run_deleted compare_db ''1d'' 5 of Inl _ \<Rightarrow> False | Inr (_, rows, _) \<Rightarrow> map dr_path rows = [''/r/b'']" by code_simp
  obtain diff where d: "run_diff exact_floats compare_db ''1d'' 5 ''root'' = Inr diff" and v: "map (dr_path \<circ> fr_row) (df_rows diff) = [''/r/a'', ''/r/c'']"
    using e by (cases "run_diff exact_floats compare_db ''1d'' 5 ''root''") simp_all
  show ?thesis using reports_agree[OF compare_db_ok d] v f by auto
qed

end
