(* ===== verification/Render_Proofs.thy ===== *)
theory Render_Proofs
  imports Render_Text Frontier_Proofs
begin

text \<open>
  What the forms of a report promise: an escaped field reads back, every item is one line of printable
  characters, and the text and the JSON document show the same rows.
\<close>

subsection \<open>Printable text\<close>

definition plain :: "string \<Rightarrow> bool" where
  "plain s \<longleftrightarrow> list_all printable s"

named_theorems plain_simps

lemma plain_append [plain_simps]: "plain (s @ t) \<longleftrightarrow> plain s \<and> plain t"
  and plain_Nil [plain_simps]: "plain []"
  by (simp_all add: plain_def)

lemma plain_Cons: "plain (c # s) \<longleftrightarrow> printable c \<and> plain s"
  by (simp add: plain_def)

lemma plain_join_str [plain_simps]: "plain sep \<Longrightarrow> \<forall>x\<in>set xs. plain x \<Longrightarrow> plain (join_str sep xs)"
  by (induction sep xs rule: join_str.induct) (auto simp: plain_append plain_Nil)

lemma plain_escaped [plain_simps]: "plain (escape_text_field s)" "plain (text_field v)" "plain (text_path p)"
  using printable_escaped by (simp_all add: plain_def text_field_def text_path_def)

lemma plain_digits: "list_all is_digit s \<Longrightarrow> plain s"
  by (induction s) (auto simp: plain_def is_digit_def printable_def byte_def)

lemma plain_int_str [plain_simps]: "plain (int_str n)"
  using plain_digits[OF nat_str_props(3)] by (simp add: int_str_def plain_Cons printable_def byte_def)

lemma plain_lower_bool [plain_simps]: "plain (lower_bool b)"
  by (simp add: lower_bool_def plain_def printable_def byte_def)

lemma plain_or_dash [plain_simps]: "plain s \<Longrightarrow> plain (or_dash s)"
  by (simp add: or_dash_def plain_def printable_def byte_def)

lemma plain_opt_text [plain_simps]: "(\<And>x. v = Some x \<Longrightarrow> plain (f x)) \<Longrightarrow> plain (opt_text f v)"
  by (cases v) (simp_all add: opt_text_def plain_def printable_def byte_def)

lemma plain_status_value [plain_simps]: "plain (status_value s)"
  by (cases s) (simp_all add: plain_def printable_def byte_def)

text \<open>A literal is plain because each of its characters is.\<close>

lemmas plain_literal = plain_Cons plain_Nil printable_def byte_def

text \<open>Fields that are printed as they are.\<close>

definition plain_opt :: "string option \<Rightarrow> bool" where
  "plain_opt v \<longleftrightarrow> (case v of None \<Rightarrow> True | Some t \<Rightarrow> plain t)"

lemma plain_opt_iff: "plain_opt v \<longleftrightarrow> (\<forall>t. v = Some t \<longrightarrow> plain t)"
  by (cases v) (simp_all add: plain_opt_def)

definition printable_group :: "group_label option \<Rightarrow> bool" where
  "printable_group g \<longleftrightarrow> plain_opt (map_option gl_kind g)"

definition plain_row :: "diff_row \<Rightarrow> bool" where
  "plain_row row \<longleftrightarrow> plain (dr_classification row) \<and> plain_opt (dr_collapse_reason row) \<and> printable_group (dr_group row)"

definition plain_snapshot :: "snapshot_record \<Rightarrow> bool" where
  "plain_snapshot s \<longleftrightarrow> plain_opt (sr_finished_at s)"

definition plain_pair :: "snapshot_pair \<Rightarrow> bool" where
  "plain_pair p \<longleftrightarrow> plain_snapshot (sp_baseline p) \<and> plain_snapshot (sp_current p) \<and> list_all plain (sp_warning_codes p)"

definition plain_warning :: "report_warning \<Rightarrow> bool" where
  "plain_warning w \<longleftrightarrow> plain (rw_code w)"

lemma plain_text_group: "printable_group g \<Longrightarrow> plain (text_group g)"
  by (cases g) (simp_all add: printable_group_def plain_opt_iff text_group_def plain_simps plain_literal)

lemma plain_collapse_text_parts:
  "\<forall>r. reason = Some r \<longrightarrow> plain r \<Longrightarrow> \<forall>x\<in>set (collapse_text_parts c reason dirs top_child bytes). plain x"
  by (auto simp: collapse_text_parts_def plain_append plain_simps plain_literal split: option.splits)

lemma plain_row_tail:
  "printable_group g \<Longrightarrow> \<forall>x\<in>set collapse. plain x \<Longrightarrow> \<forall>x\<in>set (row_tail g e collapse). plain x"
  using plain_text_group by (auto simp: row_tail_def plain_simps plain_literal split: option.splits)

lemma plain_diff_row_tail: "plain_row row \<Longrightarrow> \<forall>x\<in>set (diff_row_tail row). plain x"
  unfolding diff_row_tail_def by (intro plain_row_tail plain_collapse_text_parts) (simp_all add: plain_row_def plain_opt_iff)

lemma plain_words: "\<forall>x\<in>set xs. plain x \<Longrightarrow> plain (words xs)"
  by (rule plain_join_str) (simp add: plain_literal)

lemma plain_rows:
  assumes "plain_row row"
  shows "plain label \<Longrightarrow> plain (frontier_text_line label row)" "plain (deleted_text_line row)"
    and "plain label \<Longrightarrow> plain (explain_text_line label row)"
  unfolding frontier_text_line_def deleted_text_line_def explain_text_line_def
  using plain_diff_row_tail[OF assms] assms
  by (auto intro!: plain_words simp: plain_row_def plain_simps plain_literal)

lemma plain_frontier_entry:
  "plain_row (fr_row f) \<Longrightarrow> plain label \<Longrightarrow> plain (frontier_entry_text_line label f)"
  unfolding frontier_entry_text_line_def using plain_rows(1)[of "fr_row f" label]
  by (auto intro!: plain_words simp: plain_simps plain_literal)

lemma plain_warning_line: "plain_warning w \<Longrightarrow> plain label \<Longrightarrow> plain (warning_text_line label w)"
  by (auto simp: warning_text_line_def plain_warning_def plain_simps plain_literal split: option.splits)

lemma plain_pair_line: "plain_pair p \<Longrightarrow> plain (pair_text_line p)"
  unfolding pair_text_line_def
  by (auto intro!: plain_words plain_or_dash plain_join_str plain_opt_text
      simp: plain_pair_def plain_snapshot_def plain_opt_iff list_all_iff plain_simps plain_literal)

lemma plain_interpretation_line:
  "plain (it_status i) \<Longrightarrow> \<forall>(k, _)\<in>set (it_figures i). plain k \<Longrightarrow> plain (interpretation_text_line i)"
  unfolding interpretation_text_line_def by (fastforce intro!: plain_words simp: plain_simps plain_literal)

lemma plain_report_interpretation: "plain (interpretation_text_line (report_disk_pressure_interpretation fl s))"
  by (rule plain_interpretation_line)
     (simp_all add: report_disk_pressure_interpretation_def disk_pressure_interpretation_status_def Let_def plain_literal)

lemma plain_group_line: "printable_group (rg_group g) \<Longrightarrow> plain (group_line g)"
  unfolding group_line_def using plain_text_group by (auto intro!: plain_words simp: plain_simps plain_literal)

lemma plain_classification_lines:
  "\<forall>(c, _)\<in>set (rs_classification_counts s). plain c \<Longrightarrow> \<forall>l\<in>set (classification_lines s). plain l"
  unfolding classification_lines_def by (fastforce intro!: plain_words simp: plain_simps plain_literal)

lemma plain_hint_line: "plain (dh_code h) \<Longrightarrow> plain (diagnostic_hint_text_line h)"
  unfolding diagnostic_hint_text_line_def
  by (auto intro!: plain_words plain_or_dash plain_join_str simp: plain_simps plain_literal)

lemma plain_section_line: "(\<And>x. plain (ft x)) \<Longrightarrow> plain (pressure_section_text_line ft s)"
  unfolding pressure_section_text_line_def by (auto intro!: plain_words plain_opt_text simp: plain_simps plain_literal)

definition plain_pressure :: "pressure_summary \<Rightarrow> bool" where
  "plain_pressure p \<longleftrightarrow> list_all plain_warning (pm_warnings p) \<and> list_all (\<lambda>h. plain (dh_code h)) (pm_diagnostic_hints p)"

lemma plain_pressure_lines:
  "plain_pressure p \<Longrightarrow> (\<And>x. plain (ft x)) \<Longrightarrow> \<forall>l\<in>set (pressure_lines ft p). plain l"
  using plain_warning_line[of _ "''pressure_warning''"] plain_hint_line plain_section_line[of ft]
  by (auto simp: pressure_lines_def plain_pressure_def list_all_iff plain_simps plain_literal)

text \<open>The fields of a report that its lines show as they are.\<close>

definition plain_report :: "report_render_input \<Rightarrow> bool" where
  "plain_report x \<longleftrightarrow>
     (let s = xr_summary x in plain (xr_since x) \<and> plain (xr_group_by x) \<and> list_all plain_pair (rs_snapshot_pairs s)
        \<and> list_all plain_warning (rs_warnings s) \<and> list_all (\<lambda>(c, _). plain c) (rs_classification_counts s)
        \<and> list_all (\<lambda>g. printable_group (rg_group g)) (rs_groups s) \<and> list_all (\<lambda>f. plain_row (fr_row f)) (rs_frontier s)
        \<and> list_all plain_row (rs_deleted_preview s)
        \<and> (case xr_pressure_summary x of None \<Rightarrow> True | Some p \<Rightarrow> plain_pressure p))"

lemma plain_report_lines:
  assumes p: "plain_report x" and ft: "\<And>r. plain (ft r)"
  shows "\<forall>l\<in>set (report_text_lines fl ft x). plain l"
proof -
  let ?s = "xr_summary x"
  note q = p[unfolded plain_report_def Let_def list_all_iff]
  have "plain (words (window_words ''report'' (xr_since x) (xr_limit x) (xr_effective_limit x) @ [''group_by='' @ xr_group_by x]))"
    using q by (auto intro!: plain_words simp: window_words_def plain_simps plain_literal)
  moreover have "\<forall>l\<in>set (map pair_text_line (rs_snapshot_pairs ?s)). plain l" using q plain_pair_line by simp
  moreover have "\<forall>l\<in>set (map (warning_text_line ''warning'') (rs_warnings ?s)). plain l"
    using q plain_warning_line[of _ "''warning''"] by (simp add: plain_literal)
  moreover have "\<forall>l\<in>set (classification_lines ?s). plain l" using q by (intro plain_classification_lines) auto
  moreover have "\<forall>l\<in>set (map group_line (rs_groups ?s)). plain l" using q plain_group_line by simp
  moreover have "\<forall>l\<in>set (map (frontier_entry_text_line ''frontier'') (rs_frontier ?s)). plain l"
    using q plain_frontier_entry[of _ "''frontier''"] by (simp add: plain_literal)
  moreover have "\<forall>l\<in>set (map deleted_text_line (rs_deleted_preview ?s)). plain l" using q plain_rows(2) by simp
  moreover have "\<forall>l\<in>set (case xr_pressure_summary x of None \<Rightarrow> [] | Some p \<Rightarrow> pressure_lines ft p). plain l"
    using q plain_pressure_lines[of _ ft] ft by (auto split: option.splits)
  ultimately show ?thesis
    using plain_report_interpretation unfolding report_text_lines_def Let_def set_append ball_Un by simp
qed

subsection \<open>Lines\<close>

lemma split_text_document: "ls \<noteq> [] \<Longrightarrow> \<forall>l\<in>set ls. CHR 0x0A \<notin> set l \<Longrightarrow> split_char (CHR 0x0A) (text_document ls) = ls @ [[]]"
  unfolding text_document_def
  by (induction "[CHR 0x0A]" ls rule: join_str.induct) (auto simp: split_char_append split_char_append[where s = "[]", simplified])

lemma plain_no_newline: "plain l \<Longrightarrow> CHR 0x0A \<notin> set l"
  by (auto simp: plain_def list_all_iff printable_def byte_def)

text \<open>
  C36: The text of a report is exactly its lines: one header, one line for each pair, warning, class of change, group,
  frontier row, deleted row and pressure item, and one interpretation.  Every line holds printable ASCII characters
  only, whatever bytes the names of directories, mounts and messages are made of, so no name can add a line to a
  report or send control characters to the terminal.  What is printed unescaped -- the span, timestamps, codes, the
  class of a row, the reason of a collapse -- has to be printable.
\<close>

theorem report_is_its_lines:
  assumes "plain_report x" and "\<And>r. plain (float_text r)"
  shows "split_char (CHR 0x0A) (render_report_text fl float_text x) = report_text_lines fl float_text x @ [[]]
     \<and> list_all (list_all printable) (report_text_lines fl float_text x)
     \<and> length (report_text_lines fl float_text x) =
         2 + length (rs_snapshot_pairs (xr_summary x)) + length (rs_warnings (xr_summary x))
           + length (rs_classification_counts (xr_summary x)) + length (rs_groups (xr_summary x))
           + length (rs_frontier (xr_summary x)) + length (rs_deleted_preview (xr_summary x))
           + (case xr_pressure_summary x of None \<Rightarrow> 0 | Some p \<Rightarrow> length (pressure_lines float_text p))"
proof -
  have l: "\<forall>l\<in>set (report_text_lines fl float_text x). plain l" by (rule plain_report_lines[OF assms])
  then have "split_char (CHR 0x0A) (render_report_text fl float_text x) = report_text_lines fl float_text x @ [[]]"
    unfolding render_report_text_def
    by (intro split_text_document) (simp_all add: report_text_lines_def Let_def plain_no_newline)
  moreover have "list_all (list_all printable) (report_text_lines fl float_text x)" using l by (simp add: plain_def list_all_iff)
  ultimately show ?thesis
    by (simp add: report_text_lines_def classification_lines_def Let_def split: option.splits)
qed

subsection \<open>Text and JSON\<close>

fun unhex :: "string \<Rightarrow> bytes" where
  "unhex (a # b # cs) = char_of (16 * hex_digit_value a + hex_digit_value b) # unhex cs"
| "unhex _ = []"

lemma unhex_hex_str: "unhex (hex_str s) = s"
proof (induction s)
  case (Cons c s)
  have "of_char c < (256 :: nat)" using byte_less[of c] by (simp add: byte_def)
  then have "of_char c div 16 < (16 :: nat)" by (simp add: less_mult_imp_div_less)
  then have "16 * hex_digit_value (hex_digit (of_char c div 16)) + hex_digit_value (hex_digit (of_char c mod 16)) = of_char c"
    by (simp add: hex_digit_value)
  then show ?case using Cons by (simp add: hex_str_def)
qed (simp add: hex_str_def)

lemma json_get_append: "json_get (xs @ ys) k = (if k \<in> fst ` set ys then json_get ys k else json_get xs k)"
  by (auto simp: json_get_def dict_get_def map_of_eq_None_iff image_iff split: option.splits)
     (metis (no_types, opaque_lifting) fst_conv map_of_SomeD option.simps(3) set_rev weak_map_of_SomeI)+

text \<open>A line of text, or a JSON object, that shows the path and the change of a row.\<close>

definition line_shows_row :: "string \<Rightarrow> string \<Rightarrow> diff_row \<Rightarrow> bool" where
  "line_shows_row label line row \<longleftrightarrow>
     (\<exists>e rest. line = label @ ''path='' @ e @ '' classification='' @ rest \<and> read_text_field e = dr_path row
        \<and> sublist ('' disk_bytes_delta='' @ int_str (dr_disk_bytes_delta row)) rest)"

definition json_shows_row :: "json \<Rightarrow> diff_row \<Rightarrow> bool" where
  "json_shows_row j row \<longleftrightarrow>
     (\<exists>obj h. j = JObj obj \<and> json_get obj ''path_bytes_hex'' = JStr h \<and> unhex h = dr_path row
        \<and> json_get obj ''path'' = JStr (dr_path row) \<and> json_get obj ''disk_bytes_delta'' = JInt (dr_disk_bytes_delta row))"

lemma join_str_Cons: "join_str sep (x # xs) = x @ (if xs = [] then [] else sep @ join_str sep xs)"
  by (cases xs) simp_all

lemma line_in_document:
  assumes "l \<in> set ls"
  shows "sublist l (text_document ls)"
proof -
  obtain us vs where "ls = us @ l # vs" using split_list[OF assms] by blast
  then have "text_document ls = (if us = [] then [] else join_str [CHR 0x0A] us @ [CHR 0x0A]) @ l
      @ (if vs = [] then [] else CHR 0x0A # join_str [CHR 0x0A] vs) @ [CHR 0x0A]"
    by (induction us arbitrary: ls) (auto simp: text_document_def join_str_Cons)
  then show ?thesis unfolding sublist_def by blast
qed

lemma line_shows_rowI:
  "line = label @ ''path='' @ e @ '' classification='' @ pre @ ('' disk_bytes_delta='' @ int_str (dr_disk_bytes_delta row)) @ post
    \<Longrightarrow> read_text_field e = dr_path row \<Longrightarrow> line_shows_row label line row"
  unfolding line_shows_row_def sublist_def by blast

lemma frontier_line_shows: "line_shows_row (label @ '' '') (frontier_entry_text_line label f) (fr_row f)"
proof -
  let ?r = "fr_row f"
  define rest where "rest = dr_classification ?r @ '' previous_disk_bytes='' @ int_str (dr_previous_disk_bytes ?r)
     @ '' current_disk_bytes='' @ int_str (dr_current_disk_bytes ?r)"
  define after where "after = '' '' @ words ([''previous_apparent_bytes='' @ int_str (dr_previous_apparent_bytes ?r),
       ''current_apparent_bytes='' @ int_str (dr_current_apparent_bytes ?r),
       ''apparent_bytes_delta='' @ int_str (dr_apparent_bytes_delta ?r)] @ diff_row_tail ?r)
     @ '' '' @ words [''suppressed_descendant_count='' @ int_str (fr_suppressed_descendant_count f),
      ''suppressed_ancestor_count='' @ int_str (fr_suppressed_ancestor_count f), ''reason='' @ text_field (Some (fr_reason f))]"
  have "frontier_entry_text_line label f = (label @ '' '') @ ''path='' @ text_path (dr_path ?r) @ '' classification=''
     @ rest @ ('' disk_bytes_delta='' @ int_str (dr_disk_bytes_delta ?r)) @ after"
    by (simp add: frontier_entry_text_line_def frontier_text_line_def rest_def after_def)
  then show ?thesis by (rule line_shows_rowI) (simp add: text_path_def read_escaped)
qed

lemma deleted_line_shows: "line_shows_row [] (deleted_text_line row) row"
proof -
  define rest where "rest = dr_classification row @ '' previous_disk_bytes='' @ int_str (dr_previous_disk_bytes row)
     @ '' current_disk_bytes='' @ int_str (dr_current_disk_bytes row)"
  define after where "after = (if diff_row_tail row = [] then [] else '' '' @ words (diff_row_tail row))"
  have "deleted_text_line row = [] @ ''path='' @ text_path (dr_path row) @ '' classification=''
     @ rest @ ('' disk_bytes_delta='' @ int_str (dr_disk_bytes_delta row)) @ after"
    by (simp add: deleted_text_line_def rest_def after_def join_str_Cons)
  then show ?thesis by (rule line_shows_rowI) (simp add: text_path_def read_escaped)
qed

lemma diff_tail_keys: "fst ` set (diff_tail row) \<subseteq> {''group'', ''error'', ''collapsed'', ''collapse_reason'', ''collapsed_dirs'', ''top_child''}"
  by (auto simp: diff_tail_def diff_collapse_payload_def collapse_metadata_payload_def collapse_payload_def split: option.splits if_splits)

lemma diff_fields_get:
  "json_get (diff_fields row) ''path_bytes_hex'' = JStr (hex_str (dr_path row))" "json_get (diff_fields row) ''path'' = JStr (dr_path row)"
  "json_get (diff_fields row) ''disk_bytes_delta'' = JInt (dr_disk_bytes_delta row)"
  by (simp_all add: diff_fields_def path_payload_def json_get_def dict_get_def)

lemma json_rows_show: "json_shows_row (diff_row_payload row) row" "json_shows_row (frontier_row_payload f) (fr_row f)"
proof -
  have t: "k \<notin> fst ` set (diff_tail r)" if "k \<in> {''path_bytes_hex'', ''path'', ''disk_bytes_delta''}" for k r
    using diff_tail_keys[of r] that by auto
  show "json_shows_row (diff_row_payload row) row"
    using t by (auto simp: json_shows_row_def diff_row_payload_def json_get_append diff_fields_get unhex_hex_str)
  show "json_shows_row (frontier_row_payload f) (fr_row f)"
    using t by (auto simp: json_shows_row_def frontier_row_payload_def json_get_append diff_fields_get unhex_hex_str)
qed

text \<open>
  C37: The text and the JSON document of a report show the same rows.  The frontier of the document has one object,
  and the text one line, for each frontier row, in order; both give back the bytes of its path -- the line by undoing
  the escapes, the object from the hexadecimal digits -- and its change of disk usage.  The same holds for the rows
  of the deleted preview.
\<close>

theorem report_forms_agree:
  "\<exists>doc frontier_objects deleted_objects before frontier_lines deleted_lines after.
       render_report_payload fl x = JObj doc
     \<and> json_get doc ''frontier'' = JArr frontier_objects \<and> json_get doc ''deleted_preview'' = JArr deleted_objects
     \<and> report_text_lines fl float_text x = before @ frontier_lines @ deleted_lines @ after
     \<and> list_all2 json_shows_row frontier_objects (map fr_row (rs_frontier (xr_summary x)))
     \<and> list_all2 (line_shows_row ''frontier '') frontier_lines (map fr_row (rs_frontier (xr_summary x)))
     \<and> list_all2 json_shows_row deleted_objects (rs_deleted_preview (xr_summary x))
     \<and> list_all2 (line_shows_row []) deleted_lines (rs_deleted_preview (xr_summary x))"
proof -
  let ?s = "xr_summary x"
  obtain doc where d: "render_report_payload fl x = JObj doc"
    "json_get doc ''frontier'' = JArr (map frontier_row_payload (rs_frontier ?s))"
    "json_get doc ''deleted_preview'' = JArr (map diff_row_payload (rs_deleted_preview ?s))"
    by (cases "xr_pressure_summary x") (simp_all add: render_report_payload_def Let_def json_get_def dict_get_def)
  have "report_text_lines fl float_text x =
      ([words (window_words ''report'' (xr_since x) (xr_limit x) (xr_effective_limit x) @ [''group_by='' @ xr_group_by x])]
        @ map pair_text_line (rs_snapshot_pairs ?s) @ map (warning_text_line ''warning'') (rs_warnings ?s)
        @ classification_lines ?s @ [interpretation_text_line (report_disk_pressure_interpretation fl ?s)] @ map group_line (rs_groups ?s))
      @ map (frontier_entry_text_line ''frontier'') (rs_frontier ?s) @ map deleted_text_line (rs_deleted_preview ?s)
      @ (case xr_pressure_summary x of None \<Rightarrow> [] | Some p \<Rightarrow> pressure_lines float_text p)"
    by (simp add: report_text_lines_def Let_def)
  moreover have "list_all2 json_shows_row (map frontier_row_payload (rs_frontier ?s)) (map fr_row (rs_frontier ?s))"
    "list_all2 (line_shows_row ''frontier '') (map (frontier_entry_text_line ''frontier'') (rs_frontier ?s)) (map fr_row (rs_frontier ?s))"
    "list_all2 json_shows_row (map diff_row_payload (rs_deleted_preview ?s)) (rs_deleted_preview ?s)"
    "list_all2 (line_shows_row []) (map deleted_text_line (rs_deleted_preview ?s)) (rs_deleted_preview ?s)"
    using json_rows_show frontier_line_shows[of "''frontier''"] deleted_line_shows
    by (simp_all add: list_all2_conv_all_nth)
  ultimately show ?thesis using d by blast
qed

text \<open>
  C38: An escaped text field reads back: decoding what \<open>_escape_text_field\<close> wrote gives the original bytes, also
  where they are no valid UTF-8, and what it wrote is printable ASCII.
\<close>

theorem text_field_reads_back:
  "read_text_field (escape_text_field s) = s \<and> list_all printable (escape_text_field s)"
  by (simp add: read_escaped printable_escaped)

text \<open>A report of one grown directory whose name is made to look like another line.\<close>

definition sneaky_row :: diff_row where
  "sneaky_row = hd sample_growth \<lparr> dr_path := ''/r/a'' @ [CHR 0x0A] @ ''frontier path=/etc'' \<rparr>"

definition sneaky_report :: report_render_input where
  "sneaky_report = \<lparr> xr_since = ''24h'', xr_limit = 20, xr_effective_limit = 20, xr_group_by = ''root'',
     xr_summary = \<lparr> rs_snapshot_pairs = [], rs_classification_counts = [(''grown'', 1)], rs_disk_bytes_delta_by_classification = [],
       rs_apparent_bytes_delta_by_classification = [],
       rs_frontier = [\<lparr> fr_row = sneaky_row, fr_suppressed_descendant_count = 0, fr_suppressed_ancestor_count = 0, fr_reason = [] \<rparr>],
       rs_groups = [], rs_deleted_preview = [], rs_warnings = [], rs_indexed_root_disk_bytes_delta = 0 \<rparr>,
     xr_pressure_summary = None \<rparr>"

lemma report_is_its_lines_witness:
  "length (split_char (CHR 0x0A) (render_report_text exact_floats (\<lambda>_. ''0.5'') sneaky_report)) = 5"
proof -
  have p: "plain_report sneaky_report" by code_simp
  have f: "plain ''0.5''" by code_simp
  show ?thesis
    using report_is_its_lines[of sneaky_report "\<lambda>_. ''0.5''" exact_floats, OF p f] by (simp add: sneaky_report_def)
qed

text \<open>Spaces are not escaped: a directory can add words to its own line.\<close>

lemma space_adds_words:
  "''classification=deleted'' \<in> set (split_char CHR '' '' (deleted_text_line (grown ''/r/a classification=deleted'' 1 7)))"
  by code_simp

text \<open>
  A move to another storage domain: the document says that the accounting changed, the text still prints the
  interpretation of the change of disk usage.
\<close>

lemma explain_forms_disagree:
  assumes "list_ex (\<lambda>w. rw_code w = ''storage_domain_changed'') (xe_warnings x)"
  shows "\<exists>doc interpretation_doc. render_explain_path_payload fl x = JObj doc
       \<and> json_get doc ''disk_pressure_interpretation'' = JObj interpretation_doc
       \<and> json_get interpretation_doc ''status'' = JStr ''filesystem_accounting_changed''"
    and "it_status (explain_disk_pressure_interpretation fl (xe_result x)) \<noteq> ''filesystem_accounting_changed''"
    and "sublist (interpretation_text_line (explain_disk_pressure_interpretation fl (xe_result x))) (render_explain_path_text fl x)"
proof -
  show "\<exists>doc interpretation_doc. render_explain_path_payload fl x = JObj doc
       \<and> json_get doc ''disk_pressure_interpretation'' = JObj interpretation_doc
       \<and> json_get interpretation_doc ''status'' = JStr ''filesystem_accounting_changed''"
    using assms by (simp add: render_explain_path_payload_def explain_interpretation_payload_def json_get_def dict_get_def)
  show "it_status (explain_disk_pressure_interpretation fl (xe_result x)) \<noteq> ''filesystem_accounting_changed''"
    by (simp add: explain_disk_pressure_interpretation_def Let_def)
  let ?i = "interpretation_text_line (explain_disk_pressure_interpretation fl (xe_result x))"
  show "sublist ?i (render_explain_path_text fl x)"
    unfolding render_explain_path_text_def by (rule line_in_document) simp
qed

end
