(* ===== verification/Docker_Proofs.thy ===== *)
theory Docker_Proofs
  imports Docker Domain_Totals
begin

text \<open>
  What \<open>Docker\<close> promises: whatever docker does, the command answers, unless docker prints bytes that are not
  UTF-8; and containerd's storage is only claimed on evidence of two sources.
\<close>

subsection \<open>Lines of JSON\<close>

text \<open>Output whose lines are all decodable, if not all valid JSON.\<close>

definition decodable :: "docker_env \<Rightarrow> bytes \<Rightarrow> bool" where
  "decodable env out \<longleftrightarrow> (\<forall>line\<in>set (splitlines out). dk_loads env (strip line) \<noteq> Inl Unicode_error)"

lemma json_line_step_ok:
  "dk_loads env (strip line) \<noteq> Inl Unicode_error \<Longrightarrow> \<exists>acc'. json_line_step env acc line = Inr acc'"
  by (auto simp: json_line_step_def Let_def split: prod.splits sum.splits decode_error.splits json.splits)

lemma iter_json_lines_ok:
  assumes "decodable env out"
  shows "\<exists>records ws. iter_json_lines env out = Inr (records, ws)"
proof -
  have "\<exists>acc'. fold_err (json_line_step env) acc lines = Inr acc'"
    if "\<forall>line\<in>set lines. dk_loads env (strip line) \<noteq> Inl Unicode_error" for acc lines
    using that
  proof (induction lines arbitrary: acc)
    case (Cons l ls)
    obtain acc' where "json_line_step env acc l = Inr acc'" using json_line_step_ok[of env l acc] Cons.prems by auto
    with Cons show ?case by simp
  qed simp
  from this[of "splitlines out" "([], [])"] show ?thesis using assms by (auto simp: iter_json_lines_def decodable_def)
qed

text \<open>A parser that reads its records from the lines of an output, as all parsers of docker's output do.\<close>

lemma parse_docker_system_df_ok: "decodable env out \<Longrightarrow> \<exists>r. parse_docker_system_df env out = Inr r"
  using iter_json_lines_ok[of env out] by (auto simp: parse_docker_system_df_def)

lemma parse_docker_buildx_du_ok: "decodable env out \<Longrightarrow> \<exists>entries totals ws. parse_docker_buildx_du env out = Inr (entries, totals, ws)"
  using iter_json_lines_ok[of env out] by (auto simp: parse_docker_buildx_du_def Let_def)

lemma storage_owner_from_inspect_ok:
  "decodable env out \<Longrightarrow> \<exists>r. storage_owner_from_inspect env kind oid rec out command = Inr r"
  using iter_json_lines_ok[of env out] by (auto simp: storage_owner_from_inspect_def)

subsection \<open>Every outcome of a probe is answered\<close>

definition usable :: "docker_runner \<Rightarrow> string list \<Rightarrow> bool" where
  "usable runner argv \<longleftrightarrow> (\<exists>out err. runner argv = Inr (out, err, 0))"

definition absent :: "docker_runner \<Rightarrow> string list \<Rightarrow> bool" where
  "absent runner argv \<longleftrightarrow> (\<exists>e. runner argv = Inl e \<and> oe_class e = FileNotFoundError)"

definition all_decodable :: "docker_env \<Rightarrow> docker_runner \<Rightarrow> bool" where
  "all_decodable env runner \<longleftrightarrow> (\<forall>argv out err. runner argv = Inr (out, err, 0) \<longrightarrow> decodable env out)"

lemma run_probe_cases:
  assumes "run_probe runner argv label = (out, ok, ws)"
  shows "ok = Some True \<longleftrightarrow> usable runner argv" "ok = None \<longleftrightarrow> absent runner argv"
    and "ok = Some True \<Longrightarrow> \<exists>err. runner argv = Inr (out, err, 0)"
    and "ok = Some False \<Longrightarrow> \<exists>w\<in>set ws. rw_code w \<in> {''docker_daemon_error'', ''docker_command_failed''}"
proof -
  show "ok = Some True \<longleftrightarrow> usable runner argv" "ok = None \<longleftrightarrow> absent runner argv"
    using assms by (auto simp: run_probe_def usable_def absent_def split: sum.splits prod.splits if_splits)
  show "\<exists>err. runner argv = Inr (out, err, 0)" if "ok = Some True"
    using assms that by (simp add: run_probe_def split: sum.splits prod.splits if_splits)
  show "\<exists>w\<in>set ws. rw_code w \<in> {''docker_daemon_error'', ''docker_command_failed''}" if "ok = Some False"
  proof (cases "runner argv")
    case (Inr answer)
    then show ?thesis
      using assms that by (cases answer; cases "looks_like_daemon_error (fst (snd answer))")
        (auto simp: run_probe_def warn_def split: if_splits)
  qed (use assms that in \<open>auto simp: run_probe_def warn_def split: if_splits\<close>)
qed

lemma run_probe_decodable:
  "run_probe runner argv label = (out, Some True, ws) \<Longrightarrow> all_decodable env runner \<Longrightarrow> decodable env out"
  using run_probe_cases(3)[of runner argv label out "Some True" ws] by (auto simp: all_decodable_def)

lemma inspect_owner_ok:
  assumes "all_decodable env runner"
  shows "\<exists>acc'. inspect_owner env runner kind recs acc oid = Inr acc'"
proof -
  obtain out ok ws where p: "run_probe runner [''docker'', ''inspect'', ''--type'', kind, oid] (''docker inspect --type '' @ kind @ '' <id>'') = (out, ok, ws)"
    by (metis prod_cases3)
  show ?thesis
  proof (cases "ok = Some True")
    case True
    then obtain r where "storage_owner_from_inspect env kind oid (dict_get recs oid []) out (''docker inspect --type '' @ kind @ '' <id>'') = Inr r"
      using run_probe_decodable[of runner _ _ out ws env] p assms storage_owner_from_inspect_ok by blast
    then show ?thesis using p True by (cases acc) (simp add: inspect_owner_def Let_def)
  next
    case False
    then show ?thesis using p by (cases acc) (simp add: inspect_owner_def Let_def)
  qed
qed

lemma fold_err_total: "(\<And>s x. \<exists>s'. f s x = Inr s') \<Longrightarrow> \<exists>s'. fold_err f s xs = Inr s'"
proof (induction xs arbitrary: s)
  case (Cons x xs)
  obtain s' where "f s x = Inr s'" using Cons.prems by blast
  then show ?case using Cons.IH[OF Cons.prems, of s'] by simp
qed simp

lemma collect_storage_owner_kind_ok:
  assumes "all_decodable env runner"
  shows "\<exists>owners ws'. collect_storage_owner_kind env runner ws argv command kind = Inr (owners, ws')"
proof -
  obtain out ok pws where p: "run_probe runner argv command = (out, ok, pws)" by (metis prod_cases3)
  show ?thesis
  proof (cases "ok = Some True")
    case True
    then obtain recs rws where i: "iter_json_lines env out = Inr (recs, rws)"
      using run_probe_decodable[of runner argv command out pws env] p assms iter_json_lines_ok by blast
    have "\<exists>s'. fold_err (inspect_owner env runner kind by_id) s ids = Inr s'" for by_id s ids
      by (rule fold_err_total) (rule inspect_owner_ok[OF assms])
    then show ?thesis using p True i by (simp add: collect_storage_owner_kind_def Let_def)
  next
    case False
    then show ?thesis using p by (simp add: collect_storage_owner_kind_def)
  qed
qed

lemma collect_storage_owners_ok:
  assumes "all_decodable env runner"
  shows "\<exists>owners ws'. collect_storage_owners env runner ws = Inr (owners, ws')"
proof -
  obtain cs ws1 where "collect_storage_owner_kind env runner ws container_ls_argv container_ls_command ''container'' = Inr (cs, ws1)"
    using collect_storage_owner_kind_ok[OF assms] by blast
  moreover obtain imgs ws2 where "collect_storage_owner_kind env runner ws1 image_ls_argv image_ls_command ''image'' = Inr (imgs, ws2)"
    using collect_storage_owner_kind_ok[OF assms] by blast
  ultimately show ?thesis by (simp add: collect_storage_owners_def)
qed

text \<open>The warnings of a probe stay in the report whatever the later probes do.\<close>

lemma inspect_owner_keeps: "inspect_owner env runner kind recs (owners, ws) oid = Inr (owners', ws') \<Longrightarrow> set ws \<subseteq> set ws'"
  by (auto simp: inspect_owner_def Let_def map_sum_Inr split: prod.splits if_splits sum.splits)

lemma collect_storage_owner_kind_keeps:
  assumes "collect_storage_owner_kind env runner ws argv command kind = Inr (owners, ws')"
  shows "set ws \<subseteq> set ws'"
proof -
  have "set ws \<subseteq> set (snd acc')"
    if "fold_err (inspect_owner env runner kind by_id) acc ids = Inr acc'" "set ws \<subseteq> set (snd acc)" for by_id acc ids acc'
  proof (rule fold_err_invariant[OF that(1), of "\<lambda>acc. set ws \<subseteq> set (snd acc)"])
    show "set ws \<subseteq> set (snd t)" if "set ws \<subseteq> set (snd s)" "inspect_owner env runner kind by_id s oid = Inr t" for s oid t
      using inspect_owner_keeps[of env runner kind by_id "fst s" "snd s" oid "fst t" "snd t"] that by auto
  qed (rule that(2))
  then show ?thesis using assms
    by (fastforce simp: collect_storage_owner_kind_def Let_def split: prod.splits if_splits sum.splits)
qed

lemma collect_storage_owners_keeps:
  "collect_storage_owners env runner ws = Inr (owners, ws') \<Longrightarrow> set ws \<subseteq> set ws'"
  by (auto simp: collect_storage_owners_def map_sum_Inr split: sum.splits prod.splits dest!: collect_storage_owner_kind_keeps)

definition probe_failure_codes :: "string list" where
  "probe_failure_codes = [''docker_daemon_error'', ''docker_command_failed'']"

definition probe_reported :: "docker_runner \<Rightarrow> string list \<Rightarrow> report_warning list \<Rightarrow> bool" where
  "probe_reported runner argv ws \<longleftrightarrow> usable runner argv \<or> absent runner argv \<or> (\<exists>w\<in>set ws. rw_code w \<in> set probe_failure_codes)"

lemma probe_reported_run: "run_probe runner argv label = (out, ok, ws) \<Longrightarrow> probe_reported runner argv ws"
  using run_probe_cases[of runner argv label out ok ws]
  by (cases ok) (auto simp: probe_reported_def probe_failure_codes_def)

lemma probe_reported_mono: "probe_reported runner argv ws \<Longrightarrow> set ws \<subseteq> set ws' \<Longrightarrow> probe_reported runner argv ws'"
  by (auto simp: probe_reported_def)

lemma absent_no_warning: "run_probe runner argv label = (out, ok, ws) \<Longrightarrow> absent runner argv \<Longrightarrow> ws = [] \<and> ok = None"
  by (auto simp: run_probe_def absent_def)

lemma collect_docker_state_ok:
  assumes dec: "all_decodable env runner"
  shows "\<exists>state. collect_docker_state env runner = Inr state
     \<and> (cs_docker_available state \<longleftrightarrow> usable runner system_df_argv \<or> usable runner buildx_du_argv)
     \<and> (usable runner system_df_argv \<or> cs_categories state = []) \<and> (usable runner buildx_du_argv \<or> cs_build_cache_entries state = [])
     \<and> (cs_docker_available state \<or> cs_storage_owners state = [])
     \<and> probe_reported runner system_df_argv (cs_warnings state) \<and> probe_reported runner buildx_du_argv (cs_warnings state)
     \<and> (absent runner system_df_argv \<and> absent runner buildx_du_argv \<longrightarrow> cs_warnings state = [docker_unavailable_warning])"
proof -
  obtain df_out df_ok df_ws where df: "run_probe runner system_df_argv system_df_command = (df_out, df_ok, df_ws)" by (metis prod_cases3)
  obtain du_out du_ok du_ws where du: "run_probe runner buildx_du_argv buildx_du_command = (du_out, du_ok, du_ws)" by (metis prod_cases3)
  let ?cats = "if df_ok = Some True then parse_docker_system_df env df_out else Inr ([], [])"
  let ?ents = "if du_ok = Some True then map_sum id (\<lambda>(entries, _, ws). (entries, ws)) (parse_docker_buildx_du env du_out) else Inr ([], [])"
  obtain cats ws1 where c: "?cats = Inr (cats, ws1)" and cn: "df_ok = Some True \<or> cats = [] \<and> ws1 = []"
    using parse_docker_system_df_ok run_probe_decodable[of runner system_df_argv _ df_out df_ws env] df dec
    by (cases "df_ok = Some True") fastforce+
  obtain ents ws2 where e: "?ents = Inr (ents, ws2)" and en: "du_ok = Some True \<or> ents = [] \<and> ws2 = []"
    using parse_docker_buildx_du_ok run_probe_decodable[of runner buildx_du_argv _ du_out du_ws env] du dec
    by (cases "du_ok = Some True") fastforce+
  let ?av = "df_ok = Some True \<or> du_ok = Some True" and ?ws = "df_ws @ ws1 @ du_ws @ ws2"
  obtain owners ws3 where o: "(if ?av then collect_storage_owners env runner ?ws else Inr ([], ?ws)) = Inr (owners, ws3)"
      and on: "?av \<or> owners = [] \<and> ws3 = ?ws" and k: "set ?ws \<subseteq> set ws3"
  proof (cases ?av)
    case True
    obtain owners ws3 where "collect_storage_owners env runner ?ws = Inr (owners, ws3)" using collect_storage_owners_ok[OF dec] by blast
    then show ?thesis using that[of owners ws3] True collect_storage_owners_keeps by metis
  next
    case False
    then show ?thesis using that[of "[]" ?ws] by simp
  qed
  define state where "state = \<lparr> cs_categories = cats, cs_build_cache_entries = ents, cs_storage_owners = owners,
     cs_warnings = ws3 @ (if ?av then append_build_cache_reclaimability_warning cats ents else [])
       @ (if df_ok = None \<and> du_ok = None then [docker_unavailable_warning] else []), cs_docker_available = ?av \<rparr>"
  have "collect_docker_state env runner = Inr state"
    unfolding collect_docker_state_def df du Let_def prod.case c e sum.case finish_docker_state_def o state_def by simp
  moreover have w: "set ws3 \<subseteq> set (cs_warnings state)" by (simp add: state_def)
  have "probe_reported runner system_df_argv (cs_warnings state)"
    by (rule probe_reported_mono[OF probe_reported_run[OF df]]) (use k w in auto)
  moreover have "probe_reported runner buildx_du_argv (cs_warnings state)"
    by (rule probe_reported_mono[OF probe_reported_run[OF du]]) (use k w in auto)
  moreover have "cs_warnings state = [docker_unavailable_warning]" if "absent runner system_df_argv" "absent runner buildx_du_argv"
    using absent_no_warning[OF df that(1)] absent_no_warning[OF du that(2)] cn en on by (simp add: state_def)
  moreover have "cs_docker_available state \<longleftrightarrow> usable runner system_df_argv \<or> usable runner buildx_du_argv"
    by (simp add: state_def run_probe_cases(1)[OF df] run_probe_cases(1)[OF du])
  moreover have "usable runner system_df_argv \<or> cs_categories state = []"
    using cn by (auto simp: state_def run_probe_cases(1)[OF df])
  moreover have "usable runner buildx_du_argv \<or> cs_build_cache_entries state = []"
    using en by (auto simp: state_def run_probe_cases(1)[OF du])
  moreover have "cs_docker_available state \<or> cs_storage_owners state = []"
    using on by (auto simp: state_def)
  ultimately show ?thesis by blast
qed


text \<open>A daemon that is down, and no buildx.\<close>

definition no_json :: docker_env where
  "no_json = \<lparr> dk_loads = (\<lambda>_. Inl Json_error), dk_repr = (\<lambda>_. []), dk_decode = id, dk_floats = exact_floats \<rparr>"

definition daemon_down :: docker_runner where
  "daemon_down argv =
     (if argv = system_df_argv then Inr ([], ''Cannot connect to the Docker daemon'', 1)
      else Inl \<lparr> oe_class = FileNotFoundError, oe_strerror = None, oe_text = ''docker'' \<rparr>)"


subsection \<open>Whose storage it is\<close>

lemma find_components_sound:
  "i \<in> set (find_components p s) \<Longrightarrow> sublist (p @ i) s \<and> i \<noteq> [] \<and> list_all component_char i"
proof (induction p s rule: find_components.induct)
  case (2 p c cs)
  let ?s = "drop (length p) (c # cs)"
  let ?t = "takeWhile component_char ?s" and ?d = "dropWhile component_char ?s"
  show ?case
  proof (cases "startswith (c # cs) p \<and> ?t \<noteq> []")
    case True
    have eq: "c # cs = p @ ?t @ ?d" using True unfolding startswith_iff by (auto simp: takeWhile_dropWhile_id)
    from True 2(3) consider "i = ?t" | "i \<in> set (find_components p ?d)" by auto
    then show ?thesis
    proof cases
      case 1
      have "sublist (p @ ?t) (p @ ?t @ ?d)" unfolding sublist_def by (metis append.assoc append_Nil)
      then show ?thesis using 1 True by (metis eq list_all_iff set_takeWhileD)
    next
      case b: 2
      have "sublist ?d (p @ ?t @ ?d)" unfolding sublist_def by (metis append.assoc append_Nil2)
      then show ?thesis using "2.IH"(1)[OF True b] sublist_order.order_trans eq by metis
    qed
  next
    case False
    then have "i \<in> set (find_components p cs)" using 2(3) by (simp del: list.sel drop_Cons_numeral split: if_splits)
    from "2.IH"(2)[OF False this] show ?thesis by (metis sublist_Cons_right)
  qed
qed simp

text \<open>Text found in what \<open>docker inspect\<close> printed of the owner.\<close>

definition owner_evidence :: "docker_env \<Rightarrow> docker_runner \<Rightarrow> docker_storage_owner \<Rightarrow> bool" where
  "owner_evidence env runner owner \<longleftrightarrow>
     (\<exists>out err record records ws. runner [''docker'', ''inspect'', ''--type'', ow_kind owner, ow_object_id owner] = Inr (out, err, 0)
        \<and> iter_json_lines env out = Inr (record # records, ws)
        \<and> (\<forall>i\<in>set (ow_snapshot_ids owner). \<exists>text\<in>set (walk_strings (JObj record)). sublist (containerd_snapshot_pattern @ i) text))"

lemma storage_owner_evidence:
  assumes "storage_owner_from_inspect env kind oid rec out command = Inr (Some owner)"
    and "runner [''docker'', ''inspect'', ''--type'', kind, oid] = Inr (out, err, 0)"
  shows "owner_evidence env runner owner"
proof -
  obtain records ws where i: "iter_json_lines env out = Inr (records, ws)"
    and o: "owner = the (snd (out, Some owner))" "ow_kind owner = kind" "ow_object_id owner = oid" "records \<noteq> []"
      "ow_snapshot_ids owner = sort (remdups (extract_matches (walk_strings (JObj (hd records))) containerd_snapshot_pattern))"
    using assms(1) by (auto simp: storage_owner_from_inspect_def map_sum_Inr Let_def split: prod.splits if_splits list.splits)
  obtain r rs where r: "records = r # rs" using o(4) by (cases records) auto
  have "\<exists>text\<in>set (walk_strings (JObj r)). sublist (containerd_snapshot_pattern @ i) text" if "i \<in> set (ow_snapshot_ids owner)" for i
    using that find_components_sound[of i containerd_snapshot_pattern] unfolding o(5) r by (auto simp: extract_matches_def)
  then show ?thesis unfolding owner_evidence_def o(2,3) using assms(2) i r by blast
qed

lemma inspect_owner_evidence:
  assumes "inspect_owner env runner kind recs acc oid = Inr acc'" and "\<forall>w\<in>set (fst acc). owner_evidence env runner w"
  shows "\<forall>w\<in>set (fst acc'). owner_evidence env runner w"
proof -
  obtain out ok ws where p: "run_probe runner [''docker'', ''inspect'', ''--type'', kind, oid] (''docker inspect --type '' @ kind @ '' <id>'') = (out, ok, ws)"
    by (metis prod_cases3)
  show ?thesis
  proof (cases "ok = Some True")
    case True
    obtain err where r: "runner [''docker'', ''inspect'', ''--type'', kind, oid] = Inr (out, err, 0)"
      using run_probe_cases(3)[OF p True] by blast
    obtain found where f: "storage_owner_from_inspect env kind oid (dict_get recs oid []) out (''docker inspect --type '' @ kind @ '' <id>'') = Inr found"
      and a: "fst acc' = fst acc @ (case found of None \<Rightarrow> [] | Some w \<Rightarrow> [w])"
      using assms(1) p True by (cases acc) (auto simp: inspect_owner_def Let_def map_sum_Inr)
    then show ?thesis using storage_owner_evidence[of env kind oid _ out _ _ runner err] r assms(2) by (auto split: option.splits)
  next
    case False
    then show ?thesis using assms p by (cases acc) (auto simp: inspect_owner_def Let_def)
  qed
qed

lemma collect_storage_owner_kind_evidence:
  assumes "collect_storage_owner_kind env runner ws argv command kind = Inr (owners, ws')"
  shows "\<forall>w\<in>set owners. owner_evidence env runner w"
proof -
  have "\<forall>w\<in>set (fst acc'). owner_evidence env runner w"
    if "fold_err (inspect_owner env runner kind by_id) ([], ws0) ids = Inr acc'" for by_id ws0 ids acc'
    by (rule fold_err_invariant[OF that, of "\<lambda>acc. \<forall>w\<in>set (fst acc). owner_evidence env runner w"])
       (simp, rule inspect_owner_evidence)
  then show ?thesis using assms
    by (fastforce simp: collect_storage_owner_kind_def Let_def split: prod.splits if_splits sum.splits)
qed

lemma collect_storage_owners_evidence:
  "collect_storage_owners env runner ws = Inr (owners, ws') \<Longrightarrow> w \<in> set owners \<Longrightarrow> owner_evidence env runner w"
  using collect_storage_owner_kind_evidence
  by (fastforce simp: collect_storage_owners_def map_sum_Inr split: sum.splits prod.splits)

lemma collect_docker_state_evidence:
  assumes "collect_docker_state env runner = Inr state" and "w \<in> set (cs_storage_owners state)"
  shows "owner_evidence env runner w"
proof -
  obtain df_out df_ok df_ws where df: "run_probe runner system_df_argv system_df_command = (df_out, df_ok, df_ws)" by (metis prod_cases3)
  obtain du_out du_ok du_ws where du: "run_probe runner buildx_du_argv buildx_du_command = (du_out, du_ok, du_ws)" by (metis prod_cases3)
  obtain cats ents ws where "finish_docker_state env runner df_ok du_ok cats ents ws = Inr state"
    using assms(1) unfolding collect_docker_state_def df du Let_def prod.case case_sum_Inr case_prod_unfold fst_conv snd_conv by blast
  then show ?thesis using assms(2) collect_storage_owners_evidence
    by (auto simp: finish_docker_state_def Let_def map_sum_Inr split: if_splits prod.splits)
qed

lemma hint_from_index:
  assumes "collect_indexed_docker_path_hints d = Inr hints" and "h \<in> set hints"
  shows "\<exists>snapshots. resolve_top_snapshot_selection ''latest'' d = Inr snapshots
     \<and> (\<exists>s\<in>set snapshots. \<exists>row\<in>set (snapshot_state d (sr_id s)). map_of (db_paths d) (fst row) = Some h)"
proof -
  obtain snapshots where r: "resolve_top_snapshot_selection ''latest'' d = Inr snapshots"
  proof (cases "resolve_top_snapshot_selection ''latest'' d")
    case (Inl e)
    then show ?thesis using assms by (cases e) (simp_all add: collect_indexed_docker_path_hints_def)
  qed (use that in blast)
  then have hs: "hints = dedupe_on id (concat (map (\<lambda>s. concat (map (hint_rows d s) docker_hint_prefixes)) snapshots))"
    using assms(1) by (simp add: collect_indexed_docker_path_hints_def)
  have "h \<in> set (concat (map (\<lambda>s. concat (map (hint_rows d s) docker_hint_prefixes)) snapshots))"
    using subsetD[OF dedupe_on_subset assms(2)[unfolded hs]] .
  then obtain s p where s: "s \<in> set snapshots" and h: "h \<in> set (hint_rows d s p)" by auto
  from h obtain row where "row \<in> set (snapshot_state d (sr_id s))" "map_of (db_paths d) (fst row) = Some h"
    by (auto simp: hint_rows_def List.map_filter_def split: if_splits)
  then show ?thesis using r s by blast
qed

text \<open>
  Containerd's storage is claimed only on the evidence of two sources that name the same snapshot directory: a
  path under containerd's directory that the latest snapshots of the index hold, and what \<open>docker inspect\<close>
  printed of a container or image of the report.  With such paths but no such owner the report says that
  containerd's storage is unknown.
\<close>

theorem containerd_needs_two_sources:
  assumes run: "run_docker_enrichment env (Some d) raw_limit runner clock = Inr report"
  shows "(de_containerd_available report \<longrightarrow>
       (\<exists>i snapshots s row hint owner.
            resolve_top_snapshot_selection ''latest'' d = Inr snapshots \<and> s \<in> set snapshots
          \<and> row \<in> set (snapshot_state d (sr_id s)) \<and> map_of (db_paths d) (fst row) = Some hint
          \<and> hint \<in> set (de_containerd_path_hints report) \<and> has_prefix hint containerd_prefix
          \<and> sublist (containerd_snapshot_pattern @ i) (dk_decode env hint)
          \<and> owner \<in> set (de_storage_owners report) \<and> i \<in> set (ow_snapshot_ids owner) \<and> owner_evidence env runner owner))
     \<and> (de_containerd_path_hints report \<noteq> [] \<and> \<not> de_containerd_available report
          \<longrightarrow> containerd_unavailable_warning \<in> set (de_warnings report))"
proof -
  obtain hints limit state where h: "collect_indexed_docker_path_hints d = Inr hints"
    and st: "collect_docker_state env runner = Inr state" and rep: "report = docker_enrichment_of env hints limit clock state"
    using run by (auto simp: run_docker_enrichment_def collect_docker_enrichment_def case_sum_Inr map_sum_Inr)
  have ow: "de_storage_owners report = cs_storage_owners state" and
    ch: "de_containerd_path_hints report = filter (\<lambda>h. has_prefix h containerd_prefix) hints" and
    av: "de_containerd_available report \<longleftrightarrow>
      (\<exists>i\<in>set (snapshot_ids_from_hints env (de_containerd_path_hints report)). i \<in> set (concat (map ow_snapshot_ids (cs_storage_owners state))))"
    unfolding rep docker_enrichment_of_def Let_def by (simp_all add: list_ex_iff)
  have "\<exists>i snapshots s row hint owner.
            resolve_top_snapshot_selection ''latest'' d = Inr snapshots \<and> s \<in> set snapshots
          \<and> row \<in> set (snapshot_state d (sr_id s)) \<and> map_of (db_paths d) (fst row) = Some hint
          \<and> hint \<in> set (de_containerd_path_hints report) \<and> has_prefix hint containerd_prefix
          \<and> sublist (containerd_snapshot_pattern @ i) (dk_decode env hint)
          \<and> owner \<in> set (de_storage_owners report) \<and> i \<in> set (ow_snapshot_ids owner) \<and> owner_evidence env runner owner"
    if on: "de_containerd_available report"
  proof -
    obtain i where i: "i \<in> set (snapshot_ids_from_hints env (de_containerd_path_hints report))"
      "i \<in> set (concat (map ow_snapshot_ids (cs_storage_owners state)))" using on av by blast
    obtain hint where hint: "hint \<in> set (de_containerd_path_hints report)" "i \<in> set (find_components containerd_snapshot_pattern (dk_decode env hint))"
      using i(1) by (auto simp: snapshot_ids_from_hints_def)
    obtain owner where owner: "owner \<in> set (cs_storage_owners state)" "i \<in> set (ow_snapshot_ids owner)" using i(2) by auto
    have "hint \<in> set hints" "has_prefix hint containerd_prefix" using hint(1) ch by auto
    then show ?thesis
      using hint_from_index[OF h] hint owner find_components_sound[OF hint(2)] collect_docker_state_evidence[OF st owner(1)] ow by metis
  qed
  moreover have "containerd_unavailable_warning \<in> set (de_warnings report)"
    if "de_containerd_path_hints report \<noteq> []" "\<not> de_containerd_available report"
    using that unfolding rep docker_enrichment_of_def Let_def by simp
  ultimately show ?thesis by blast
qed

declare startswith_prefix [code]

text \<open>The characters of white space, evaluated once.\<close>

lemma text_spaces_code [code]:
  "text_spaces =
     [[CHR 0x09], [CHR 0x0A], [CHR 0x0B], [CHR 0x0C], [CHR 0x0D], [CHR 0x1C], [CHR 0x1D], [CHR 0x1E], [CHR 0x1F], [CHR 0x20],
      [CHR 0xC2, CHR 0x85], [CHR 0xC2, CHR 0xA0], [CHR 0xE1, CHR 0x9A, CHR 0x80], [CHR 0xE2, CHR 0x80, CHR 0xA8], [CHR
      0xE2, CHR 0x80, CHR 0xA9], [CHR 0xE2, CHR 0x80, CHR 0xAF], [CHR 0xE2, CHR 0x81, CHR 0x9F], [CHR 0xE3, CHR 0x80,
      CHR 0x80], [CHR 0xE2, CHR 0x80, CHR 0x80], [CHR 0xE2, CHR 0x80, CHR 0x81], [CHR 0xE2, CHR 0x80, CHR 0x82], [CHR
      0xE2, CHR 0x80, CHR 0x83], [CHR 0xE2, CHR 0x80, CHR 0x84], [CHR 0xE2, CHR 0x80, CHR 0x85], [CHR 0xE2, CHR 0x80,
      CHR 0x86], [CHR 0xE2, CHR 0x80, CHR 0x87], [CHR 0xE2, CHR 0x80, CHR 0x88], [CHR 0xE2, CHR 0x80, CHR 0x89], [CHR
      0xE2, CHR 0x80, CHR 0x8A]]"
  by code_simp

text \<open>An index with one directory of containerd, and a docker whose only container lives in it.\<close>

definition containerd_db :: db where
  "containerd_db = mounted_db\<lparr> db_paths := [(1, containerd_snapshot_pattern @ ''42'')] \<rparr>"

definition one_container :: docker_runner where
  "one_container argv =
     (if argv = container_ls_argv then Inr (''ls'', [], 0)
      else if argv = [''docker'', ''inspect'', ''--type'', ''container'', ''0123456789ab''] then Inr (''inspect'', [], 0)
      else Inr ([], [], 0))"

definition container_json :: docker_env where
  "container_json = no_json\<lparr> dk_loads := (\<lambda>line.
     if line = ''ls'' then Inr (JObj [(''ID'', JStr ''0123456789ab'')])
     else if line = ''inspect'' then Inr (JObj [(''Mounts'', JArr [JStr (containerd_snapshot_pattern @ ''42'')])])
     else Inl Json_error) \<rparr>"

lemma containerd_needs_two_sources_witness:
  "\<exists>report. run_docker_enrichment container_json (Some containerd_db) None one_container [] = Inr report
     \<and> de_containerd_available report \<and> (\<exists>owner\<in>set (de_storage_owners report). owner_evidence container_json one_container owner)"
proof -
  have e: "case run_docker_enrichment container_json (Some containerd_db) None one_container [] of Inl _ \<Rightarrow> False
     | Inr report \<Rightarrow> de_containerd_available report" by code_simp
  then obtain report where r: "run_docker_enrichment container_json (Some containerd_db) None one_container [] = Inr report"
    and a: "de_containerd_available report"
    by (cases "run_docker_enrichment container_json (Some containerd_db) None one_container []") simp_all
  show ?thesis using containerd_needs_two_sources[OF r] r a by blast
qed

subsection \<open>Inspecting an object\<close>

text \<open>
  \<open>docker inspect\<close> without a format prints an indented array: \<open>[\<close>, lines of members and \<open>]\<close>, none of them a
  JSON value that holds an object.  Read line by line no owner is found in it, whatever it says.
\<close>

lemma indented_inspect_has_no_owner:
  assumes "\<forall>line\<in>set (splitlines out). (case dk_loads env (strip line) of
      Inl e \<Rightarrow> e = Json_error | Inr (JObj obj) \<Rightarrow> obj = [] | Inr (JArr vs) \<Rightarrow> vs = [] | Inr _ \<Rightarrow> True)"
  shows "storage_owner_from_inspect env kind oid rec out command = Inr None"
proof -
  let ?P = "\<lambda>acc :: docker_record list \<times> report_warning list. set (fst acc) \<subseteq> {[]}"
  have dec: "decodable env out" using assms by (fastforce simp: decodable_def)
  then obtain records ws where i: "iter_json_lines env out = Inr (records, ws)" using iter_json_lines_ok by blast
  have "?P (records, ws)"
  proof (rule fold_err_invariant[of "json_line_step env" "([], [])" "splitlines out"])
    show "fold_err (json_line_step env) ([], []) (splitlines out) = Inr (records, ws)" using i by (simp add: iter_json_lines_def)
    show "?P acc'" if l: "line \<in> set (splitlines out)" and p: "?P acc" and st: "json_line_step env acc line = Inr acc'" for acc line acc'
      using bspec[OF assms l] p st
      by (cases acc) (auto simp: json_line_step_def Let_def split: if_splits sum.splits json.splits decode_error.splits)
  qed simp
  then show ?thesis
    using i by (cases records) (auto simp: storage_owner_from_inspect_def Let_def)
qed

end
