(* ===== verification/Query_Commands_Proofs.thy ===== *)
theory Query_Commands_Proofs
  imports Query_Commands Report_Commands_Proofs Render_Proofs Docker_Proofs
begin

text \<open>
  From the database to what a reading command prints: the rows of a comparison are what the two snapshots it names
  store, and a command that fails prints an error and nothing else.
\<close>

subsection \<open>Rows that compare two stored snapshots\<close>

definition compares_snapshots :: "db \<Rightarrow> diff_row \<Rightarrow> bool" where
  "compares_snapshots d r \<longleftrightarrow>
     {dr_baseline_snapshot_id r, dr_current_snapshot_id r} \<subseteq> set (map sn_id (db_snapshots d))
     \<and> describes (read_path d (dr_baseline_snapshot_id r)) (read_path d (dr_current_snapshot_id r)) r"

lemma resolved_pair_ids:
  assumes ids: "distinct (map sn_id (db_snapshots d))" and res: "resolve_snapshot_pairs since d = Inr (pairs, ws)" and p: "p \<in> set pairs"
  shows "{sr_id (sp_baseline p), sr_id (sp_current p)} \<subseteq> set (map sn_id (db_snapshots d))"
proof -
  obtain delta where "chosen_pair delta (usable_of_root d (sp_root_path p)) p" using resolved_pairs[OF ids res] p by blast
  then obtain cur base where c: "cur \<in> usable_of_root d (sp_root_path p)" "sp_current p = fst cur"
    and b: "base \<in> usable_of_root d (sp_root_path p)" "sp_baseline p = fst base"
    unfolding chosen_pair_def by blast
  have "sr_id (fst u) \<in> set (map sn_id (db_snapshots d))" if "u \<in> usable_of_root d r" for u r
  proof -
    obtain row where "row \<in> set (db_snapshots d)" "usable_of row = Some u" using \<open>u \<in> usable_of_root d r\<close> unfolding usable_of_root_def by blast
    then show ?thesis using usable_of_id[of row u] by simp
  qed
  then show ?thesis using c b by auto
qed

lemma diff_rows_ids:
  assumes inv: "store_inv d" and q: "query_diff_rows d pair group_by ord u = Inr (rows, ws)" and r: "r \<in> set rows"
  shows "dr_baseline_snapshot_id r = sr_id (sp_baseline pair) \<and> dr_current_snapshot_id r = sr_id (sp_current pair)"
proof -
  let ?o = "\<lparr> dq_order_rows = ord, dq_target_path = None, dq_include_unchanged = u \<rparr>"
  have qw: "query_diff_rows_with d pair group_by ?o = Inr (rows, ws)" using q by (simp add: query_diff_rows_def)
  have "set rows \<subseteq> finished_row (sp_root_path pair) group_by (mounts_for d pair group_by) (collapsed_of d pair ?o)
      ` set (fetch_diff_query_rows d pair ?o)"
    using diff_rows_with[OF diff_rows_group[OF qw], of d pair ?o] qw by auto
  then obtain q where "q \<in> set (fetch_diff_query_rows d pair ?o)"
      "r = finished_row (sp_root_path pair) group_by (mounts_for d pair group_by) (collapsed_of d pair ?o) q"
    using r by blast
  moreover have "set (fetch_diff_query_rows d pair ?o) \<subseteq> range (row_at d pair)"
    by (auto simp: fetched_rows[OF inv] Let_def)
  ultimately show ?thesis by (auto simp: finished_row_def row_at_def diff_query_row_def)
qed

lemma short_rows_describe:
  assumes wf: "db_wf d" "refs_resolved d" "flags_ok d" and stored: "pair_stored d pair"
    and q: "query_diff_rows d pair group_by ord False = Inr (rows, ws)" and r: "r \<in> set rows"
  shows "describes (read_path d (sr_id (sp_baseline pair))) (read_path d (sr_id (sp_current pair))) r"
proof -
  have "group_by \<in> top_choices" using q unfolding query_diff_rows_def by (rule diff_rows_group)
  from diff_rows_with[OF this] obtain all wa where full: "query_diff_rows d pair group_by ord True = Inr (all, wa)"
    unfolding query_diff_rows_def by blast
  have "rows = filter changed all" using short_diff[OF wf(1) stored wf(3) full] q by auto
  then show ?thesis using diff_rows_describe[OF wf(1,2) full] r by simp
qed

text \<open>What the loop over the pairs gathers.\<close>

lemma gathered_rows_compare:
  assumes wf: "db_wf d" "refs_resolved d" "flags_ok d"
    and g: "gather_pairs d since group_by False = Inr (pairs, g)"
  shows "(\<forall>r\<in>set (gd_rows g) \<union> set (gd_deleted g). compares_snapshots d r)
    \<and> (\<forall>r\<in>set (gd_deleted g). dr_classification r = ''deleted'')"
proof -
  obtain pw where res: "resolve_snapshot_pairs since d = Inr (pairs, pw)"
    and f: "fold_err (gather_pair d group_by False) \<lparr> gd_rows = [], gd_warnings = pw, gd_deleted = [], gd_counts = [] \<rparr> pairs = Inr g"
    using g by (auto simp: gather_pairs_def case_sum_Inr map_sum_Inr)
  have inv: "store_inv d" using wf(1) by (simp add: db_wf_def)
  then have ids: "distinct (map sn_id (db_snapshots d))" by (simp add: store_inv_def)
  let ?P = "\<lambda>g. (\<forall>r\<in>set (gd_rows g) \<union> set (gd_deleted g). compares_snapshots d r)
    \<and> (\<forall>r\<in>set (gd_deleted g). dr_classification r = ''deleted'')"
  have step: "?P g2" if p: "p \<in> set pairs" and s: "gather_pair d group_by False g1 p = Inr g2" and P: "?P g1" for g1 g2 p
  proof -
    obtain rows ws where q: "query_diff_rows d p group_by False False = Inr (rows, ws)"
      and g2: "gd_rows g2 = gd_rows g1 @ rows" "gd_deleted g2 = gd_deleted g1 @ deleted_rows_from_diff_rows rows 1000"
      using s by (auto simp: gather_pair_def map_sum_Inr)
    have c: "compares_snapshots d r" if "r \<in> set rows" for r
      using short_rows_describe[OF wf resolved_pair_stored[OF ids res p] q that] diff_rows_ids[OF inv q that] resolved_pair_ids[OF ids res p]
      by (simp add: compares_snapshots_def)
    have "set (deleted_rows_from_diff_rows rows 1000) \<subseteq> {r \<in> set rows. dr_classification r = ''deleted''}"
      unfolding deleted_rows_from_diff_rows_def py_prefix_def by (rule order_trans[OF set_take_subset]) simp
    then show ?thesis using c P g2 by auto
  qed
  show ?thesis
  proof (rule fold_err_invariant[OF f, where P = ?P])
    show "?P \<lparr> gd_rows = [], gd_warnings = pw, gd_deleted = [], gd_counts = [] \<rparr>" by simp
  next
    fix g1 p g2
    assume a: "p \<in> set pairs" "?P g1" "gather_pair d group_by False g1 p = Inr g2"
    show "?P g2" by (rule step[OF a(1,3,2)])
  qed
qed

lemma scope_frontier_sub: "fr_row ` set (scope_frontier fl cs) \<subseteq> set cs"
  by (auto simp: scope_frontier_def Let_def split: prod.splits)

lemma frontier_sub: "e \<in> set (prune_growth_frontier fl rows) \<Longrightarrow> fr_row e \<in> set rows \<and> is_candidate (fr_row e)"
  using scope_frontier_sub by (fastforce simp: frontier_mem candidates_set)

subsection \<open>Their documents\<close>

definition json_int :: "json \<Rightarrow> int" where
  "json_int j = (case j of JInt n \<Rightarrow> n | _ \<Rightarrow> 0)"

definition json_text :: "json \<Rightarrow> string" where
  "json_text j = (case j of JStr s \<Rightarrow> s | _ \<Rightarrow> [])"

definition json_obj :: "json \<Rightarrow> (string \<times> json) list" where
  "json_obj j = (case j of JObj kvs \<Rightarrow> kvs | _ \<Rightarrow> [])"

text \<open>
  What an object of a comparison says, read by someone who has the database: the path from its hexadecimal digits,
  the two snapshots from their ids, and the figures and the class of the change.
\<close>

definition object_reads_snapshots :: "db \<Rightarrow> json \<Rightarrow> bool" where
  "object_reads_snapshots d j \<longleftrightarrow>
     (let obj = json_obj j;
          path = unhex (json_text (json_get obj ''path_bytes_hex''));
          baseline = json_int (json_get (json_obj (json_get obj ''snapshot_pair'')) ''baseline_id'');
          current = json_int (json_get (json_obj (json_get obj ''snapshot_pair'')) ''current_id'');
          before = read_path d baseline; after = read_path d current
      in {baseline, current} \<subseteq> set (map sn_id (db_snapshots d))
         \<and> json_get obj ''classification'' = JStr (expected_class before after path)
         \<and> json_get obj ''previous_disk_bytes'' = JInt (or_zero ag_disk_bytes (before path))
         \<and> json_get obj ''current_disk_bytes'' = JInt (or_zero ag_disk_bytes (after path))
         \<and> json_get obj ''disk_bytes_delta'' = JInt (or_zero ag_disk_bytes (after path) - or_zero ag_disk_bytes (before path))
         \<and> json_get obj ''apparent_bytes_delta'' = JInt (or_zero ag_apparent_bytes (after path) - or_zero ag_apparent_bytes (before path)))"

definition row_keys :: "string set" where
  "row_keys = {''path_bytes_hex'', ''snapshot_pair'', ''classification'', ''previous_disk_bytes'', ''current_disk_bytes'',
     ''disk_bytes_delta'', ''apparent_bytes_delta''}"

lemma row_payload_get:
  assumes "k \<in> row_keys"
  shows "json_get (json_obj (diff_row_payload row)) k = json_get (diff_fields row) k"
    and "json_get (json_obj (frontier_row_payload f)) k = json_get (diff_fields (fr_row f)) k"
  using assms diff_tail_keys[of row] diff_tail_keys[of "fr_row f"]
  by (auto simp: row_keys_def json_obj_def diff_row_payload_def frontier_row_payload_def json_get_append)

lemma diff_fields_keys:
  "json_get (diff_fields row) ''path_bytes_hex'' = JStr (hex_str (dr_path row))"
  "json_get (diff_fields row) ''snapshot_pair''
     = JObj [(''baseline_id'', JInt (dr_baseline_snapshot_id row)), (''current_id'', JInt (dr_current_snapshot_id row))]"
  "json_get (diff_fields row) ''classification'' = JStr (dr_classification row)"
  "json_get (diff_fields row) ''previous_disk_bytes'' = JInt (dr_previous_disk_bytes row)"
  "json_get (diff_fields row) ''current_disk_bytes'' = JInt (dr_current_disk_bytes row)"
  "json_get (diff_fields row) ''disk_bytes_delta'' = JInt (dr_disk_bytes_delta row)"
  "json_get (diff_fields row) ''apparent_bytes_delta'' = JInt (dr_apparent_bytes_delta row)"
  by (simp_all add: diff_fields_def path_payload_def json_get_def dict_get_def)

lemma fields_read_snapshots:
  assumes c: "compares_snapshots d row" and get: "\<And>k. k \<in> row_keys \<Longrightarrow> json_get (json_obj j) k = json_get (diff_fields row) k"
  shows "object_reads_snapshots d j"
proof -
  have k: "json_get (json_obj j) ''path_bytes_hex'' = JStr (hex_str (dr_path row))"
    "json_get (json_obj j) ''snapshot_pair''
       = JObj [(''baseline_id'', JInt (dr_baseline_snapshot_id row)), (''current_id'', JInt (dr_current_snapshot_id row))]"
    "json_get (json_obj j) ''classification'' = JStr (dr_classification row)"
    "json_get (json_obj j) ''previous_disk_bytes'' = JInt (dr_previous_disk_bytes row)"
    "json_get (json_obj j) ''current_disk_bytes'' = JInt (dr_current_disk_bytes row)"
    "json_get (json_obj j) ''disk_bytes_delta'' = JInt (dr_disk_bytes_delta row)"
    "json_get (json_obj j) ''apparent_bytes_delta'' = JInt (dr_apparent_bytes_delta row)"
    using get diff_fields_keys[of row] by (simp_all add: row_keys_def)
  have ids: "json_get [(''baseline_id'', JInt b), (''current_id'', JInt c)] ''baseline_id'' = JInt b"
    "json_get [(''baseline_id'', JInt b), (''current_id'', JInt c)] ''current_id'' = JInt c" for b c
    by (simp_all add: json_get_def dict_get_def)
  from c show ?thesis
    unfolding object_reads_snapshots_def compares_snapshots_def describes_def Let_def k
    by (simp add: json_text_def json_int_def json_obj_def ids unhex_hex_str)
qed

lemma row_objects_read:
  "compares_snapshots d row \<Longrightarrow> object_reads_snapshots d (diff_row_payload row)"
  "compares_snapshots d (fr_row f) \<Longrightarrow> object_reads_snapshots d (frontier_row_payload f)"
  by (rule fields_read_snapshots, assumption, rule row_payload_get, assumption)+

subsection \<open>How a command ends\<close>

lemma query_command_Printed:
  "query_command env timed parsed work = Printed out \<longleftrightarrow>
     qe_open_error env = None \<and> qe_query_error env = None \<and> (\<exists>limit. parsed = Inr limit \<and> work limit = Inr out)"
proof -
  have f: "finish_query r = Printed out \<longleftrightarrow> r = Inr out" for r
    by (cases r rule: finish_query.cases) auto
  show ?thesis
    by (auto simp: query_command_def database_end_def f split: option.splits sum.splits prod.splits)
qed

lemma parse_report_limit_pos: "parse_report_limit raw = Inr limit \<Longrightarrow> 0 < limit"
  by (auto simp: parse_report_limit_def default_limit_def split: option.splits if_splits)

subsection \<open>The printed report\<close>

text \<open>
  C6: What \<open>watchdirs report --json\<close> prints can be checked against the database.  If the command prints anything,
  it prints an object with at most \<open>limit\<close> frontier and deleted objects each, and every one of them, read back from
  its text -- the path from its hexadecimal digits, the snapshots by the ids it names, which are stored -- carries the
  class of change and the sizes that these two snapshots hold for that path.  A frontier object shows more disk usage
  than before, a deleted one a path the current snapshot does not hold.
\<close>

theorem printed_report_reads_snapshots:
  assumes wf: "db_wf d" "refs_resolved d" "flags_ok d"
    and run: "report_command env True since raw_limit group_by d = Printed out"
  shows "\<exists>doc limit frontier deleted. out = Out_json (JObj doc) \<and> parse_report_limit raw_limit = Inr limit
    \<and> json_get doc ''frontier'' = JArr frontier \<and> json_get doc ''deleted_preview'' = JArr deleted
    \<and> int (length frontier) \<le> limit \<and> int (length deleted) \<le> limit
    \<and> (\<forall>j\<in>set frontier \<union> set deleted. object_reads_snapshots d j)
    \<and> (\<forall>j\<in>set frontier. 0 < json_int (json_get (json_obj j) ''disk_bytes_delta''))
    \<and> (\<forall>j\<in>set deleted. json_get (json_obj j) ''classification'' = JStr ''deleted'')"
proof -
  obtain limit summary where limit: "parse_report_limit raw_limit = Inr limit"
    and summary: "run_report (qe_floats env) d since limit group_by = Inr summary"
    and out: "out = Out_json (render_report_payload (qe_floats env) (report_input since limit group_by summary))"
    using run by (auto simp: report_command_def query_command_Printed map_sum_Inr printed_as_def)
  obtain pairs g where g: "gather_pairs d since group_by False = Inr (pairs, g)"
    and fr: "rs_frontier summary = py_prefix limit (prune_growth_frontier (qe_floats env) (gd_rows g))"
    and del: "rs_deleted_preview summary = py_prefix limit (sort_key deleted_order (gd_deleted g))"
    using summary by (auto simp: run_report_def map_sum_Inr summarize_diff_rows_def Let_def)
  note rows = gathered_rows_compare[OF wf g]
  have pos: "0 < limit" using limit by (rule parse_report_limit_pos)
  then have len: "int (length (py_prefix limit xs)) \<le> limit" and sub: "set (py_prefix limit xs) \<subseteq> set xs" for xs :: "'a list"
    by (auto simp: py_prefix_def dest: in_set_takeD)
  have F: "compares_snapshots d (fr_row f) \<and> 0 < dr_disk_bytes_delta (fr_row f)" if "f \<in> set (rs_frontier summary)" for f
    using that sub[of "prune_growth_frontier (qe_floats env) (gd_rows g)"] frontier_sub[of f "qe_floats env" "gd_rows g"] rows
    by (auto simp: fr is_candidate_def)
  have D: "compares_snapshots d r \<and> dr_classification r = ''deleted''" if "r \<in> set (rs_deleted_preview summary)" for r
    using that sub[of "sort_key deleted_order (gd_deleted g)"] rows by (auto simp: del)
  obtain doc where doc: "render_report_payload (qe_floats env) (report_input since limit group_by summary) = JObj doc"
    "json_get doc ''frontier'' = JArr (map frontier_row_payload (rs_frontier summary))"
    "json_get doc ''deleted_preview'' = JArr (map diff_row_payload (rs_deleted_preview summary))"
    by (simp add: render_report_payload_def report_input_def Let_def json_get_def dict_get_def)
  have keys: "''disk_bytes_delta'' \<in> row_keys" "''classification'' \<in> row_keys" by (simp_all add: row_keys_def)
  let ?fs = "map frontier_row_payload (rs_frontier summary)" and ?ds = "map diff_row_payload (rs_deleted_preview summary)"
  have "int (length ?fs) \<le> limit" "int (length ?ds) \<le> limit"
    using len[of "prune_growth_frontier (qe_floats env) (gd_rows g)"] len[of "sort_key deleted_order (gd_deleted g)"] by (simp_all add: fr del)
  moreover have "\<forall>j\<in>set ?fs \<union> set ?ds. object_reads_snapshots d j" using F D row_objects_read by auto
  moreover have "\<forall>j\<in>set ?fs. 0 < json_int (json_get (json_obj j) ''disk_bytes_delta'')"
    using F by (simp add: row_payload_get[OF keys(1)] diff_fields_keys json_int_def)
  moreover have "\<forall>j\<in>set ?ds. json_get (json_obj j) ''classification'' = JStr ''deleted''"
    using D by (simp add: row_payload_get[OF keys(2)] diff_fields_keys)
  ultimately show ?thesis using out limit doc by blast
qed

text \<open>Once there are snapshots to compare, the report is complete: no row makes it fail.\<close>

lemma report_answers:
  assumes "resolve_snapshot_pairs since d = Inr (pairs, ws)" and group: "group_by \<in> top_choices"
  shows "\<exists>summary. run_report fl d since limit group_by = Inr summary"
proof -
  have "\<exists>g'. gather_pair d group_by False g p = Inr g'" for g p
    using diff_rows_with[OF group, of d p "\<lparr> dq_order_rows = False, dq_target_path = None, dq_include_unchanged = False \<rparr>"]
    by (auto simp: gather_pair_def query_diff_rows_def)
  from fold_err_total[where f = "gather_pair d group_by False", OF this] obtain g where
    "fold_err (gather_pair d group_by False) \<lparr> gd_rows = [], gd_warnings = ws, gd_deleted = [], gd_counts = [] \<rparr> pairs = Inr g"
    by blast
  then show ?thesis by (simp add: run_report_def gather_pairs_def assms(1))
qed

text \<open>The report of a day on a database of two snapshots, read without errors.\<close>

definition quiet_env :: query_env where
  "quiet_env = \<lparr> qe_floats = exact_floats, qe_float_text = (\<lambda>_. ''0''), qe_open_error = None, qe_query_error = None, qe_deadline_set = False \<rparr>"

lemma compare_db_refs: "refs_resolved compare_db"
  using diff_db_ok(2) by (simp add: refs_resolved_def compare_db_def path_refs_def)

lemma printed_report_reads_snapshots_witness:
  "\<exists>doc frontier. report_command quiet_env True ''1d'' (Some ''5'') ''root'' compare_db = Printed (Out_json (JObj doc))
     \<and> json_get doc ''frontier'' = JArr frontier \<and> (\<forall>j\<in>set frontier. object_reads_snapshots compare_db j)"
proof -
  have e: "case resolve_snapshot_pairs ''1d'' compare_db of Inl _ \<Rightarrow> False | Inr _ \<Rightarrow> True" by code_simp
  have c: "''root'' \<in> top_choices" by (simp add: top_choices_def)
  have l: "parse_report_limit (Some ''5'') = Inr 5" by code_simp
  obtain summary where "run_report exact_floats compare_db ''1d'' 5 ''root'' = Inr summary"
    using e report_answers[OF _ c, where since = "''1d''" and d = compare_db] by (cases "resolve_snapshot_pairs ''1d'' compare_db") fastforce+
  then obtain out where r: "report_command quiet_env True ''1d'' (Some ''5'') ''root'' compare_db = Printed out"
    by (simp add: report_command_def query_command_def l quiet_env_def)
  show ?thesis using printed_report_reads_snapshots[OF compare_db_ok(1) compare_db_refs compare_db_ok(2) r] r by blast
qed

subsection \<open>What is not reported as an error\<close>

text \<open>
  A bad limit is an error document of every command but two: there the limit is read outside of the \<open>try\<close>.
\<close>

lemma bad_limit_escapes:
  assumes "parse_report_limit raw_limit = Inl (Report_error code message)"
  shows "deleted_open_command env raw_limit fs proc_root runner db_arg generated_at = Escaped ''ReportError''"
    and "docker_enrichment_command env docker db_arg raw_limit docker_runner generated_at = Escaped ''ReportError''"
    and "qe_open_error env = None \<Longrightarrow> report_command env as_json since raw_limit group_by d = Report_failed code message"
  using assms
  by (simp_all add: deleted_open_command_def docker_enrichment_command_def outside_try_def report_command_def query_command_def)

text \<open>The text of the stats command prints the path of a root as it is: a line break in it adds a line.\<close>

lemma stats_root_unescaped: "st_latest x = Some s \<Longrightarrow> sublist (sn_root_path s) (render_stats_text x)"
proof -
  assume s: "st_latest x = Some s"
  define line where "line = words [''latest_snapshot=id='' @ int_str (sn_id s), ''status='' @ sn_status s, ''root='' @ sn_root_path s,
      ''started='' @ sn_started_at s, ''finished='' @ opt_text id (sn_finished_at s)]"
  have "sublist (sn_root_path s) line" by (simp add: line_def join_str_Cons sublist_append sublist_Cons_right)
  also have "sublist line (render_stats_text x)"
    unfolding render_stats_text_def by (rule line_in_document) (simp add: s line_def)
  finally show ?thesis .
qed

end
