(* ===== verification/Connection.thy ===== *)
theory Connection
  imports Query_Commands
begin

text \<open>
  Opening the database (\<open>db/connection.py\<close>): which file is opened how, the statements that configure it, and the
  deadline of a query.  What SQLite answers is an argument.
\<close>

subsection \<open>Configuration\<close>

definition watchdirs_application_id :: int where "watchdirs_application_id = 0x57645273"
definition watchdirs_page_size :: int where "watchdirs_page_size = 8192"

definition configuration :: "bool \<Rightarrow> bool \<Rightarrow> string list" where
  "configuration is_virgin readonly =
     (if is_virgin
      then [''PRAGMA page_size='' @ int_str watchdirs_page_size, ''PRAGMA auto_vacuum=FULL'',
            ''PRAGMA application_id='' @ int_str watchdirs_application_id]
      else [])
     @ (if readonly then [''PRAGMA query_only=ON''] else [''PRAGMA journal_mode=WAL''])
     @ [''PRAGMA foreign_keys=ON'', ''PRAGMA busy_timeout=5000'']"

text \<open>The text of the environment variable and \<open>float\<close>, which may raise.\<close>

definition query_deadline :: "(string \<Rightarrow> real option) \<Rightarrow> string option \<Rightarrow> real option" where
  "query_deadline parse_float raw_deadline = Option.bind raw_deadline parse_float"

definition abort_after_deadline :: "real \<Rightarrow> real \<Rightarrow> int" where
  "abort_after_deadline deadline now = (if now \<ge> deadline then 1 else 0)"

subsection \<open>Connections\<close>

text \<open>The file an open connection works on.\<close>

record connection =
  cn_target :: string
  cn_is_uri :: bool
  cn_statements :: "string list"
  cn_deadline :: "real option"

text \<open>Making the parent directory, \<open>connect\<close> and each statement may fail; a failed statement closes the connection, the error goes on.\<close>

record sqlite_answers =
  qa_make_parent :: "pathname \<Rightarrow> string option"
  qa_connect :: "string \<Rightarrow> bool \<Rightarrow> string option"
  qa_execute :: "string \<Rightarrow> string option"

definition first_failure :: "sqlite_answers \<Rightarrow> string list \<Rightarrow> string option" where
  "first_failure answers statements =
     (case List.map_filter (qa_execute answers) statements of [] \<Rightarrow> None | e # _ \<Rightarrow> Some e)"

definition configure_connection ::
    "sqlite_answers \<Rightarrow> string \<Rightarrow> bool \<Rightarrow> bool \<Rightarrow> bool \<Rightarrow> real option \<Rightarrow> string + connection" where
  "configure_connection answers target is_uri is_virgin readonly deadline =
     (case qa_connect answers target is_uri of
        Some e \<Rightarrow> Inl e
      | None \<Rightarrow>
          (let statements = configuration is_virgin readonly in
           case first_failure answers statements of
             Some e \<Rightarrow> Inl e
           | None \<Rightarrow> Inr \<lparr> cn_target = target, cn_is_uri = is_uri, cn_statements = statements,
                            cn_deadline = (if readonly then deadline else None) \<rparr>))"

text \<open>What is at a path: nothing, a regular file of some size, or something else.\<close>

datatype at_path = Nothing_there | Regular_file int | Other_file int

definition open_connection :: "sqlite_answers \<Rightarrow> (pathname \<Rightarrow> at_path) \<Rightarrow> pathname \<Rightarrow> string + connection" where
  "open_connection answers look db_path =
     (case qa_make_parent answers db_path of
        Some e \<Rightarrow> Inl e
      | None \<Rightarrow>
     (let is_virgin = (case look db_path of Nothing_there \<Rightarrow> True | Regular_file n \<Rightarrow> n = 0 | Other_file n \<Rightarrow> n = 0)
      in configure_connection answers db_path False is_virgin False None))"

definition no_database :: "pathname \<Rightarrow> string" where
  "no_database db_path = ''watchdirs database does not exist: '' @ db_path"

definition open_existing_connection :: "sqlite_answers \<Rightarrow> (pathname \<Rightarrow> at_path) \<Rightarrow> pathname \<Rightarrow> string + connection" where
  "open_existing_connection answers look db_path =
     (case look db_path of
        Regular_file _ \<Rightarrow> configure_connection answers (''file:'' @ db_path @ ''?mode=rw'') True False False None
      | _ \<Rightarrow> Inl (no_database db_path))"

definition open_readonly_connection ::
    "sqlite_answers \<Rightarrow> (pathname \<Rightarrow> at_path) \<Rightarrow> real option \<Rightarrow> pathname \<Rightarrow> string + connection" where
  "open_readonly_connection answers look deadline db_path =
     (case look db_path of
        Regular_file _ \<Rightarrow> configure_connection answers (''file:'' @ db_path @ ''?mode=ro'') True False True deadline
      | _ \<Rightarrow> Inl (no_database db_path))"

subsection \<open>What they guarantee\<close>

lemma first_failure_None: "first_failure answers ss = None \<longleftrightarrow> (\<forall>s\<in>set ss. qa_execute answers s = None)"
  unfolding first_failure_def by (induction ss) (auto simp: map_filter_simps split: list.splits option.splits)

lemma configure_Inr:
  "configure_connection answers target is_uri is_virgin readonly deadline = Inr c \<longleftrightarrow>
     qa_connect answers target is_uri = None \<and> (\<forall>s\<in>set (configuration is_virgin readonly). qa_execute answers s = None)
     \<and> c = \<lparr> cn_target = target, cn_is_uri = is_uri, cn_statements = configuration is_virgin readonly,
            cn_deadline = (if readonly then deadline else None) \<rparr>"
  unfolding configure_connection_def Let_def first_failure_None[symmetric] by (auto split: option.splits)

text \<open>
  A reading connection exists only on a file that is there, is opened read-only, is told to refuse writes before any
  other statement, and is the only kind with a deadline.
\<close>

lemma readonly_connection:
  assumes "open_readonly_connection answers look deadline db_path = Inr c"
  shows "(\<exists>n. look db_path = Regular_file n) \<and> cn_target c = ''file:'' @ db_path @ ''?mode=ro'' \<and> cn_is_uri c
    \<and> hd (cn_statements c) = ''PRAGMA query_only=ON'' \<and> ''PRAGMA journal_mode=WAL'' \<notin> set (cn_statements c)
    \<and> cn_deadline c = deadline"
  using assms by (auto simp: open_readonly_connection_def configure_Inr configuration_def split: at_path.splits)

text \<open>The page size is set on an empty file only, and before anything else.\<close>

lemma page_size_first:
  assumes "open_connection answers look db_path = Inr c"
  shows "take 1 (cn_statements c) = [''PRAGMA page_size='' @ int_str watchdirs_page_size]
    \<longleftrightarrow> look db_path \<in> {Nothing_there, Regular_file 0, Other_file 0}"
  using assms by (auto simp: open_connection_def configure_Inr configuration_def Let_def split: at_path.splits option.splits)

text \<open>
  The path is put into the URI as it is: a database whose name has a question mark is opened under the name before it.
\<close>

definition uri_path :: "string \<Rightarrow> string" where
  "uri_path uri = takeWhile (\<lambda>c. c \<noteq> CHR ''?'' \<and> c \<noteq> CHR ''#'') (drop (length ''file:'') uri)"

lemma uri_path_of_readonly:
  assumes "open_readonly_connection answers look deadline db_path = Inr c"
  shows "uri_path (cn_target c) = takeWhile (\<lambda>x. x \<noteq> CHR ''?'' \<and> x \<noteq> CHR ''#'') db_path"
proof -
  have t: "cn_target c = ''file:'' @ db_path @ ''?mode=ro''" using readonly_connection[OF assms] by blast
  show ?thesis unfolding uri_path_def t by (induction db_path) simp_all
qed

end
