(* ===== verification/Interval_Savings.thy ===== *)
theory Interval_Savings
  imports Query_Documents Diff_Proofs
begin

text \<open>
  The estimate of what merging adjacent equal versions would save (\<open>scripts/estimate_interval_coalesce_savings.py\<close>),
  and what it means: the rows it counts are exactly those a merge removes, and the merged store reads the same.
  The sizes of the pages of a table (\<open>dbstat\<close>) are an argument.
\<close>

subsection \<open>The queries\<close>

text \<open>\<open>PARTITION BY root_path, path_id ORDER BY valid_from_snapshot_id\<close>, each row with the one before it.\<close>

definition interval_key :: "interval_row \<Rightarrow> string \<times> int" where
  "interval_key iv = (iv_root_path iv, iv_path_id iv)"

definition interval_partitions :: "interval_row list \<Rightarrow> interval_row list list" where
  "interval_partitions rows = map (\<lambda>(_, g). sort_key iv_valid_from g) (group_rows interval_key rows)"

definition with_previous :: "'a list \<Rightarrow> ('a option \<times> 'a) list" where
  "with_previous xs = zip (None # map Some xs) xs"

definition ordered_intervals :: "interval_row list \<Rightarrow> (interval_row option \<times> interval_row) list" where
  "ordered_intervals rows = concat (map with_previous (interval_partitions rows))"

definition continues :: "interval_row \<Rightarrow> interval_row \<Rightarrow> bool" where
  "continues previous current \<longleftrightarrow> iv_valid_to previous = Some (iv_valid_from current) \<and> iv_state previous = iv_state current"

definition removable :: "interval_row option \<times> interval_row \<Rightarrow> bool" where
  "removable = (\<lambda>(previous, current). case previous of None \<Rightarrow> False | Some p \<Rightarrow> continues p current)"

definition removable_interval_count :: "interval_row list \<Rightarrow> int" where
  "removable_interval_count rows = int (length (filter removable (ordered_intervals rows)))"

definition affected_path_count :: "interval_row list \<Rightarrow> int" where
  "affected_path_count rows = int (length (remdups (map (interval_key \<circ> snd) (filter removable (ordered_intervals rows)))))"

subsection \<open>The estimate\<close>

record savings_estimate =
  es_db_path :: pathname
  es_interval_row_count :: int
  es_removable_interval_row_count :: int
  es_affected_path_count :: int
  es_removable_interval_row_percent :: real
  es_interval_storage_bytes :: "int option"
  es_rough_reclaimable_storage_bytes :: "int option"

text \<open>The names the schema lists for the table, and the sum of their pages; either query may fail.\<close>

record storage_provider =
  so_schema_names :: "string + string list"
  so_page_sum :: "string list \<Rightarrow> string + int option"

definition interval_table_name :: string where
  "interval_table_name = ''directory_size_intervals''"

definition interval_dbstat_names :: "string list \<Rightarrow> string list" where
  "interval_dbstat_names rows = sort (remdups (interval_table_name # rows))"

definition interval_storage_bytes :: "storage_provider \<Rightarrow> int option" where
  "interval_storage_bytes provider =
     (case so_schema_names provider of
        Inl _ \<Rightarrow> None
      | Inr rows \<Rightarrow>
          if interval_dbstat_names rows = [] then None
          else (case so_page_sum provider (interval_dbstat_names rows) of Inl _ \<Rightarrow> None | Inr total_bytes \<Rightarrow> total_bytes))"

text \<open>\<open>round(x, 3)\<close>.\<close>

definition py_round3 :: "float_ops \<Rightarrow> real \<Rightarrow> real" where
  "py_round3 fl x = fl_round fl (of_int (py_round (1000 * x)) / 1000)"

definition estimate_coalesce_savings :: "float_ops \<Rightarrow> storage_provider \<Rightarrow> pathname \<Rightarrow> db \<Rightarrow> savings_estimate" where
  "estimate_coalesce_savings fl provider db_path d =
     (let row_count = int (length (db_intervals d));
          removable_count = removable_interval_count (db_intervals d);
          percent = (if row_count = 0 then 0 else fl_round fl (true_div fl removable_count row_count * 100));
          storage = interval_storage_bytes provider
      in \<lparr> es_db_path = db_path, es_interval_row_count = row_count, es_removable_interval_row_count = removable_count,
           es_affected_path_count = affected_path_count (db_intervals d), es_removable_interval_row_percent = py_round3 fl percent,
           es_interval_storage_bytes = storage,
           es_rough_reclaimable_storage_bytes =
             (if row_count = 0 then None else map_option (\<lambda>b. py_round (true_div fl (b * removable_count) row_count)) storage) \<rparr>)"

text \<open>The document, its keys sorted; the errors are those of opening the file and of a query.\<close>

definition savings_failure :: "pathname \<Rightarrow> string \<Rightarrow> string \<Rightarrow> json" where
  "savings_failure db_path code message = JObj
     [(''db_path'', JStr db_path), (''error'', JObj [(''code'', JStr code), (''message'', JStr message)]), (''ok'', JBool False)]"

definition savings_document :: "savings_estimate \<Rightarrow> json" where
  "savings_document x = JObj
     [(''estimate'', JObj
        [(''affected_path_count'', JInt (es_affected_path_count x)), (''db_path'', JStr (es_db_path x)),
         (''interval_row_count'', JInt (es_interval_row_count x)),
         (''interval_storage_bytes'', jopt JInt (es_interval_storage_bytes x)),
         (''removable_interval_row_count'', JInt (es_removable_interval_row_count x)),
         (''removable_interval_row_percent'', JFloat (es_removable_interval_row_percent x)),
         (''rough_reclaimable_storage_bytes'', jopt JInt (es_rough_reclaimable_storage_bytes x))]),
      (''ok'', JBool True)]"

definition savings_main ::
    "float_ops \<Rightarrow> storage_provider \<Rightarrow> pathname \<Rightarrow> string option \<Rightarrow> string option \<Rightarrow> db \<Rightarrow> json \<times> int" where
  "savings_main fl provider db_path open_error query_error d =
     (case open_error of
        Some message \<Rightarrow> (savings_failure db_path ''database_open_failed'' message, 1)
      | None \<Rightarrow>
          (case query_error of
             Some message \<Rightarrow> (savings_failure db_path ''estimate_failed'' message, 1)
           | None \<Rightarrow> (savings_document (estimate_coalesce_savings fl provider db_path d), 0)))"

subsection \<open>Merging\<close>

text \<open>The merge the estimate is about: a row that continues the one before it is joined to it.\<close>

fun coalesce_run :: "interval_row list \<Rightarrow> interval_row list" where
  "coalesce_run (a # b # rest) =
     (if continues a b then coalesce_run (a\<lparr> iv_valid_to := iv_valid_to b \<rparr> # rest) else a # coalesce_run (b # rest))"
| "coalesce_run xs = xs"

definition coalesce_intervals :: "db \<Rightarrow> db" where
  "coalesce_intervals d = d\<lparr> db_intervals := concat (map coalesce_run (interval_partitions (db_intervals d))) \<rparr>"

text \<open>How many rows a run loses.\<close>

fun joins :: "interval_row list \<Rightarrow> nat" where
  "joins (a # b # rest) = (if continues a b then 1 else 0) + joins (b # rest)"
| "joins _ = 0"

lemma joins_removable: "length (filter removable (with_previous xs)) = joins xs"
proof -
  have *: "length (filter removable (zip (Some a # map Some xs) xs)) = joins (a # xs)" for a xs
    by (induction xs arbitrary: a) (simp_all add: removable_def)
  show ?thesis by (cases xs) (simp_all add: with_previous_def removable_def *[unfolded removable_def])
qed

lemma joins_extend: "iv_valid_to a' = iv_valid_to b \<Longrightarrow> iv_state a' = iv_state b \<Longrightarrow> joins (a' # rest) = joins (b # rest)"
  by (cases rest) (simp_all add: continues_def)

lemma coalesce_length: "length (coalesce_run xs) + joins xs = length xs"
proof (induction xs rule: coalesce_run.induct)
  case (1 a b rest)
  show ?case
  proof (cases "continues a b")
    case True
    have "joins (a\<lparr> iv_valid_to := iv_valid_to b \<rparr> # rest) = joins (b # rest)"
      using True by (intro joins_extend) (simp_all add: continues_def)
    then show ?thesis using 1(1)[OF True] True by simp
  qed (use 1(2) in simp)
qed simp_all

lemma coalesce_head:
  "\<exists>x' ys. coalesce_run (x # xs) = x' # ys \<and> iv_valid_from x' = iv_valid_from x \<and> iv_state x' = iv_state x"
  by (induction "x # xs" arbitrary: x xs rule: coalesce_run.induct) auto

lemma coalesce_no_joins: "joins (coalesce_run xs) = 0"
proof (induction xs rule: coalesce_run.induct)
  case (1 a b rest)
  show ?case
  proof (cases "continues a b")
    case False
    obtain b' ys where "coalesce_run (b # rest) = b' # ys" "iv_valid_from b' = iv_valid_from b" "iv_state b' = iv_state b"
      using coalesce_head by blast
    then have "joins (a # coalesce_run (b # rest)) = joins (coalesce_run (b # rest))" using False by (simp add: continues_def)
    then show ?thesis using False 1(2) by simp
  qed (use 1(1) in simp)
qed simp_all

lemma coalesce_froms: "iv_valid_from ` set (coalesce_run xs) \<subseteq> iv_valid_from ` set xs"
  by (induction xs rule: coalesce_run.induct) auto

lemma coalesce_sorted: "sorted (map iv_valid_from xs) \<Longrightarrow> sorted (map iv_valid_from (coalesce_run xs))"
proof (induction xs rule: coalesce_run.induct)
  case (1 a b rest)
  show ?case
  proof (cases "continues a b")
    case False
    have "\<forall>f\<in>iv_valid_from ` set (coalesce_run (b # rest)). iv_valid_from a \<le> f"
      using coalesce_froms[of "b # rest"] 1(3) by auto
    then show ?thesis using False 1(2,3) by simp
  qed (use 1(1,3) in auto)
qed simp_all

lemma coalesce_keys: "\<forall>x\<in>set xs. interval_key x = k \<Longrightarrow> \<forall>x\<in>set (coalesce_run xs). interval_key x = k"
  by (induction xs rule: coalesce_run.induct) (auto simp: interval_key_def)

text \<open>The joined row holds where one of the two does.\<close>

lemma joined_holds:
  assumes "continues a b" "iv_nonempty a" "iv_nonempty b" "interval_key a = interval_key b"
  shows "interval_holds r sid (a\<lparr> iv_valid_to := iv_valid_to b \<rparr>) \<longleftrightarrow> interval_holds r sid a \<or> interval_holds r sid b"
  using assms by (auto simp: interval_holds_def continues_def iv_nonempty_def interval_key_def split: option.splits)

definition holds_state :: "interval_row list \<Rightarrow> string \<Rightarrow> int \<Rightarrow> (int \<times> agg_state) set" where
  "holds_state rows r sid = (\<lambda>iv. (iv_path_id iv, iv_state iv)) ` {iv \<in> set rows. interval_holds r sid iv}"

lemma holds_state_Cons:
  "holds_state (a # xs) r sid = (if interval_holds r sid a then {(iv_path_id a, iv_state a)} else {}) \<union> holds_state xs r sid"
  by (auto simp: holds_state_def)

lemma coalesce_holds:
  "list_all iv_nonempty xs \<Longrightarrow> \<forall>x\<in>set xs. interval_key x = k \<Longrightarrow> holds_state (coalesce_run xs) r sid = holds_state xs r sid"
proof (induction xs rule: coalesce_run.induct)
  case (1 a b rest)
  show ?case
  proof (cases "continues a b")
    case True
    let ?ab = "a\<lparr> iv_valid_to := iv_valid_to b \<rparr>"
    have same: "interval_key a = interval_key b" using 1(4) by simp
    have n: "iv_nonempty a" "iv_nonempty b" using 1(3) by simp_all
    have ok: "list_all iv_nonempty (?ab # rest)" "\<forall>x\<in>set (?ab # rest). interval_key x = k"
      using True 1(3,4) by (auto simp: interval_key_def iv_nonempty_def[of a] iv_nonempty_def[of b] iv_nonempty_def[of ?ab] continues_def)
    have "holds_state (coalesce_run (a # b # rest)) r sid = holds_state (?ab # rest) r sid"
      using True 1(1)[OF True ok] by simp
    also have "\<dots> = holds_state (a # b # rest) r sid"
      using True same unfolding holds_state_Cons joined_holds[OF True n same] by (auto simp: continues_def interval_key_def)
    finally show ?thesis .
  next
    case False
    then show ?thesis using 1(2)[OF False] 1(3,4) by (simp add: holds_state_Cons)
  qed
qed simp_all

subsection \<open>The merged store\<close>

lemma partition_props:
  assumes "g \<in> set (interval_partitions rows)"
  shows "sorted (map iv_valid_from g)" and "\<exists>k. \<forall>x\<in>set g. interval_key x = k" and "set g \<subseteq> set rows"
  using assms by (auto simp: interval_partitions_def group_rows_mem)

lemma partitions_set: "(\<Union>g\<in>set (interval_partitions rows). set g) = set rows"
proof -
  have "set (sort_key iv_valid_from g) = set g" for g by simp
  then have "(\<Union>g\<in>set (interval_partitions rows). set g) = (\<Union>(k, g)\<in>set (group_rows interval_key rows). set g)"
    by (simp add: interval_partitions_def case_prod_beta)
  also have "\<dots> = set rows"
  proof (rule set_eqI)
    fix x
    let ?g = "filter (\<lambda>r. interval_key r = interval_key x) rows"
    show "x \<in> (\<Union>(k, g)\<in>set (group_rows interval_key rows). set g) \<longleftrightarrow> x \<in> set rows"
    proof
      assume "x \<in> set rows"
      then have "(interval_key x, ?g) \<in> set (group_rows interval_key rows)" "x \<in> set ?g" by (auto simp: group_rows_mem)
      then show "x \<in> (\<Union>(k, g)\<in>set (group_rows interval_key rows). set g)" by blast
    qed (auto simp: group_rows_mem)
  qed
  finally show ?thesis .
qed

lemma holds_state_concat: "holds_state (concat gs) r sid = (\<Union>g\<in>set gs. holds_state g r sid)"
  by (auto simp: holds_state_def)

lemma holds_state_set: "set xs = set ys \<Longrightarrow> holds_state xs r sid = holds_state ys r sid"
  by (simp add: holds_state_def)

lemma coalesced_holds:
  assumes "list_all iv_nonempty (db_intervals d)"
  shows "holds_state (db_intervals (coalesce_intervals d)) r sid = holds_state (db_intervals d) r sid"
proof -
  let ?P = "interval_partitions (db_intervals d)"
  have "holds_state (coalesce_run g) r sid = holds_state g r sid" if "g \<in> set ?P" for g
  proof -
    obtain k where "\<forall>x\<in>set g. interval_key x = k" using partition_props(2)[of g] \<open>g \<in> set ?P\<close> by blast
    moreover have "list_all iv_nonempty g" using partition_props(3)[of g] \<open>g \<in> set ?P\<close> assms by (auto simp: list_all_iff)
    ultimately show ?thesis using coalesce_holds by blast
  qed
  then have "holds_state (db_intervals (coalesce_intervals d)) r sid = holds_state (concat ?P) r sid"
    by (simp add: coalesce_intervals_def holds_state_concat)
  also have "\<dots> = holds_state (db_intervals d) r sid" by (rule holds_state_set) (simp add: partitions_set)
  finally show ?thesis .
qed

lemma map_of_same_set:
  assumes "set xs = set ys" and "distinct (map fst xs)"
  shows "map_of xs = map_of ys"
proof
  fix k
  show "map_of xs k = map_of ys k"
  proof (cases "map_of ys k")
    case None
    then show ?thesis using assms(1) by (metis map_of_eq_None_iff)
  next
    case (Some v)
    then show ?thesis using assms by (metis map_of_SomeD map_of_is_SomeI)
  qed
qed

lemma coalesced_state:
  assumes "store_inv d"
  shows "map_of (snapshot_state (coalesce_intervals d) sid) = map_of (snapshot_state d sid)"
proof -
  let ?f = "\<lambda>iv. (iv_path_id iv, iv_state iv)"
  have n: "list_all iv_nonempty (db_intervals d)" using assms by (simp add: store_inv_def)
  have h: "?f ` {x \<in> set (db_intervals (coalesce_intervals d)). interval_holds r sid x} = ?f ` {x \<in> set (db_intervals d). interval_holds r sid x}" for r
    using coalesced_holds[OF n, of r sid] by (simp add: holds_state_def)
  have d: "db_snapshots (coalesce_intervals d) = db_snapshots d" "db_diagnostics (coalesce_intervals d) = db_diagnostics d"
    by (simp_all add: coalesce_intervals_def)
  have "set (snapshot_state d sid) = set (snapshot_state (coalesce_intervals d) sid)"
    unfolding snapshot_state_def d set_concat set_map image_image if_distrib[of set] set_filter h ..
  from map_of_same_set[OF this snapshot_state_distinct[OF assms]] show ?thesis by simp
qed

lemma removable_joins: "removable_interval_count rows = int (\<Sum>g\<leftarrow>interval_partitions rows. joins g)"
  by (simp add: removable_interval_count_def ordered_intervals_def filter_concat length_concat comp_def joins_removable)

subsection \<open>One path\<close>

definition path_run :: "interval_row list \<Rightarrow> string \<times> int \<Rightarrow> interval_row list" where
  "path_run rows k = sort_key iv_valid_from (filter (\<lambda>r. interval_key r = k) rows)"

lemma partitions_runs: "set (interval_partitions rows) = path_run rows ` interval_key ` set rows"
proof (rule set_eqI)
  fix g
  have "g \<in> set (interval_partitions rows) \<longleftrightarrow> (\<exists>k h. (k, h) \<in> set (group_rows interval_key rows) \<and> g = sort_key iv_valid_from h)"
    unfolding interval_partitions_def set_map image_iff Bex_def split_paired_Ex by auto
  then show "g \<in> set (interval_partitions rows) \<longleftrightarrow> g \<in> path_run rows ` interval_key ` set rows"
    by (auto simp: group_rows_mem path_run_def)
qed

lemma filter_keyed_concat:
  assumes "distinct (map fst gs)" and "\<And>k g. (k, g) \<in> set gs \<Longrightarrow> \<forall>x\<in>set (F g). key x = k"
  shows "filter (\<lambda>x. key x = k) (concat (map (\<lambda>(_, g). F g) gs)) = (case map_of gs k of None \<Rightarrow> [] | Some g \<Rightarrow> F g)"
  using assms
proof (induction gs)
  case (Cons kg gs)
  obtain k' g where kg: "kg = (k', g)" by fastforce
  have g: "filter (\<lambda>x. key x = k) (F g) = (if k = k' then F g else [])"
    using Cons.prems(2)[of k' g] by (auto simp: kg filter_id_conv filter_empty_conv)
  have "k' \<notin> fst ` set gs" using Cons.prems(1) by (simp add: kg)
  then have n: "map_of gs k' = None" by (simp add: map_of_eq_None_iff)
  have IH: "filter (\<lambda>x. key x = k) (concat (map (\<lambda>(_, g). F g) gs)) = (case map_of gs k of None \<Rightarrow> [] | Some g \<Rightarrow> F g)"
    using Cons.prems by (intro Cons.IH) auto
  show ?case
  proof (cases "k = k'")
    case True
    then show ?thesis using IH n g by (simp add: kg)
  next
    case False
    then show ?thesis using IH g by (simp add: kg)
  qed
qed simp

lemma path_run_coalesced:
  "filter (\<lambda>r. interval_key r = k) (db_intervals (coalesce_intervals d)) = coalesce_run (path_run (db_intervals d) k)"
proof -
  let ?gs = "group_rows interval_key (db_intervals d)"
  let ?F = "\<lambda>g. coalesce_run (sort_key iv_valid_from g)"
  have keys: "\<forall>x\<in>set (?F g). interval_key x = k" if "(k, g) \<in> set ?gs" for k g
    using that by (intro coalesce_keys) (auto simp: group_rows_mem)
  have "filter (\<lambda>r. interval_key r = k) (concat (map (\<lambda>(_, g). ?F g) ?gs)) = (case map_of ?gs k of None \<Rightarrow> [] | Some g \<Rightarrow> ?F g)"
    by (rule filter_keyed_concat[OF conjunct1[OF group_rows_props] keys])
  also have "map_of ?gs k = (if k \<in> interval_key ` set (db_intervals d) then Some (filter (\<lambda>r. interval_key r = k) (db_intervals d)) else None)"
    by (rule conjunct2[OF group_rows_props])
  also have "(case \<dots> of None \<Rightarrow> [] | Some g \<Rightarrow> ?F g) = coalesce_run (path_run (db_intervals d) k)"
  proof (cases "k \<in> interval_key ` set (db_intervals d)")
    case False
    then have "filter (\<lambda>r. interval_key r = k) (db_intervals d) = []" by (auto simp: filter_empty_conv)
    then show ?thesis using False by (simp add: path_run_def)
  qed (simp add: path_run_def)
  finally show ?thesis by (simp add: coalesce_intervals_def interval_partitions_def case_prod_beta comp_def)
qed

lemma path_run_of_coalesced: "path_run (db_intervals (coalesce_intervals d)) k = coalesce_run (path_run (db_intervals d) k)"
proof -
  have "sorted (map iv_valid_from (coalesce_run (path_run (db_intervals d) k)))"
    by (rule coalesce_sorted) (simp add: path_run_def)
  from sort_key_id_if_sorted[OF this] show ?thesis
    unfolding path_run_def[of "db_intervals (coalesce_intervals d)"] path_run_coalesced .
qed

lemma coalesced_not_removable: "removable_interval_count (db_intervals (coalesce_intervals d)) = 0"
proof -
  have "joins g = 0" if "g \<in> set (interval_partitions (db_intervals (coalesce_intervals d)))" for g
    using that coalesce_no_joins by (auto simp: partitions_runs path_run_of_coalesced)
  then show ?thesis by (simp add: removable_joins sum_list_eq_0_iff)
qed

lemma length_by_key:
  assumes "distinct ks" and "key ` set rows \<subseteq> set ks"
  shows "(\<Sum>k\<leftarrow>ks. length (filter (\<lambda>r. key r = k) rows)) = length rows"
  using assms(2)
proof (induction rows)
  case (Cons a rows)
  have "(\<Sum>k\<leftarrow>ks. length (filter (\<lambda>r. key r = k) (a # rows)))
      = (\<Sum>k\<leftarrow>ks. if key a = k then 1 else 0) + (\<Sum>k\<leftarrow>ks. length (filter (\<lambda>r. key r = k) rows))"
    unfolding sum_list_addf[symmetric] by (rule arg_cong[where f = sum_list]) simp
  moreover have "(\<Sum>k\<leftarrow>ks. if key a = k then 1 else 0 :: nat) = 1"
    using Cons.prems by (simp add: sum_list_distinct_conv_sum_set[OF assms(1)])
  ultimately show ?case using Cons by simp
qed (simp add: sum_list_0)

lemma partitions_length: "(\<Sum>g\<leftarrow>interval_partitions rows. length g) = length rows"
proof -
  let ?gs = "group_rows interval_key rows"
  have "(\<Sum>g\<leftarrow>interval_partitions rows. length g) = (\<Sum>(k, g)\<leftarrow>?gs. length g)"
    by (simp add: interval_partitions_def comp_def split_def)
  also have "\<dots> = (\<Sum>(k, g)\<leftarrow>?gs. length (filter (\<lambda>r. interval_key r = k) rows))"
    by (intro arg_cong[where f = sum_list] map_cong refl) (auto simp: group_rows_mem)
  also have "\<dots> = (\<Sum>k\<leftarrow>map fst ?gs. length (filter (\<lambda>r. interval_key r = k) rows))" by (simp add: comp_def split_def)
  also have "\<dots> = length rows"
  proof (rule length_by_key[OF conjunct1[OF group_rows_props]])
    have "(interval_key x, filter (\<lambda>r. interval_key r = interval_key x) rows) \<in> set ?gs" if "x \<in> set rows" for x
      using that by (simp add: group_rows_mem)
    then show "interval_key ` set rows \<subseteq> set (map fst ?gs)" unfolding set_map by (intro subsetI) (metis fst_conv imageE rev_image_eqI)
  qed
  finally show ?thesis .
qed

lemma coalesced_length:
  "int (length (db_intervals (coalesce_intervals d))) = int (length (db_intervals d)) - removable_interval_count (db_intervals d)"
proof -
  have *: "(\<Sum>g\<leftarrow>P. length g) = (\<Sum>g\<leftarrow>P. length (coalesce_run g)) + (\<Sum>g\<leftarrow>P. joins g)" for P
    by (simp add: sum_list_addf[symmetric] coalesce_length)
  show ?thesis
    using *[of "interval_partitions (db_intervals d)"]
    by (simp add: partitions_length removable_joins coalesce_intervals_def length_concat comp_def)
qed

text \<open>The paths of which some row is merged.\<close>

lemma affected_paths:
  "affected_path_count (db_intervals d) = int (card {k. length (filter (\<lambda>r. interval_key r = k) (db_intervals (coalesce_intervals d)))
      < length (filter (\<lambda>r. interval_key r = k) (db_intervals d))})"
proof -
  let ?rows = "db_intervals d"
  have "interval_key ` snd ` set (filter removable (with_previous g)) = (if joins g = 0 then {} else {k})"
    if "\<forall>x\<in>set g. interval_key x = k" for g k
  proof -
    have "set (with_previous g) \<subseteq> UNIV \<times> set g" by (auto simp: with_previous_def dest: set_zip_rightD)
    then have "interval_key ` snd ` set (filter removable (with_previous g)) \<subseteq> {k}" using that by auto
    moreover have "filter removable (with_previous g) = [] \<longleftrightarrow> joins g = 0" unfolding joins_removable[symmetric] by simp
    ultimately show ?thesis by (cases "filter removable (with_previous g)") auto
  qed
  then have run: "interval_key ` snd ` set (filter removable (with_previous (path_run ?rows k))) = (if joins (path_run ?rows k) = 0 then {} else {k})" for k
    by (simp add: path_run_def)
  have "set (map (interval_key \<circ> snd) (filter removable (ordered_intervals ?rows)))
      = (\<Union>k\<in>interval_key ` set ?rows. interval_key ` snd ` set (filter removable (with_previous (path_run ?rows k))))"
    by (simp add: ordered_intervals_def filter_concat partitions_runs image_UN image_image)
  also have "\<dots> = {k \<in> interval_key ` set ?rows. joins (path_run ?rows k) \<noteq> 0}" unfolding run by auto
  also have "\<dots> = {k. joins (path_run ?rows k) \<noteq> 0}"
  proof -
    have "path_run ?rows k = []" if "k \<notin> interval_key ` set ?rows" for k
    proof -
      have "filter (\<lambda>r. interval_key r = k) ?rows = []" using that by (auto simp: filter_empty_conv)
      then show ?thesis by (simp add: path_run_def)
    qed
    then show ?thesis by force
  qed
  also have "\<dots> = {k. length (filter (\<lambda>r. interval_key r = k) (db_intervals (coalesce_intervals d))) < length (filter (\<lambda>r. interval_key r = k) ?rows)}"
  proof -
    have "length (coalesce_run (path_run ?rows k)) + joins (path_run ?rows k) = length (filter (\<lambda>r. interval_key r = k) ?rows)" for k
      using coalesce_length[of "path_run ?rows k"] by (simp add: path_run_def)
    then show ?thesis unfolding path_run_coalesced by (metis (no_types, lifting) Collect_cong add_eq_self_zero less_add_same_cancel1 not_gr_zero)
  qed
  finally show ?thesis unfolding affected_path_count_def length_remdups_card_conv by simp
qed

subsection \<open>The estimate is exact\<close>

text \<open>
  C25: The estimate says what merging would save, and merging is safe.  On a well-formed store there is a store with
  exactly that many rows less that reads the same: every snapshot gives the same answer for every path.  The paths
  that lose a row are as many as the estimate says, and estimated again the merged store has nothing left to merge.
\<close>

theorem estimate_is_what_merging_saves:
  assumes "db_wf d"
  shows "let e = estimate_coalesce_savings fl provider db_path d;
             merged = coalesce_intervals d;
             rows = \<lambda>d k. length (filter (\<lambda>r. interval_key r = k) (db_intervals d))
         in int (length (db_intervals merged)) = es_interval_row_count e - es_removable_interval_row_count e
            \<and> (\<forall>sid path. read_path merged sid path = read_path d sid path)
            \<and> es_affected_path_count e = int (card {k. rows merged k < rows d k})
            \<and> es_removable_interval_row_count (estimate_coalesce_savings fl provider db_path merged) = 0"
proof -
  have inv: "store_inv d" using assms by (simp add: db_wf_def)
  have "read_path (coalesce_intervals d) sid path = read_path d sid path" for sid path
    by (simp add: read_path_def path_id_of_def coalesced_state[OF inv]) (simp add: coalesce_intervals_def)
  then show ?thesis
    by (simp add: estimate_coalesce_savings_def Let_def coalesced_length affected_paths coalesced_not_removable)
qed

text \<open>
  Versions of a root that are the same and meet, as pruning leaves them when the snapshots between had another one.
\<close>

definition pruned_db :: db where
  "pruned_db = timeline_db\<lparr> db_intervals := map (\<lambda>(a, b, n). \<lparr> iv_root_path = ''/r'', iv_path_id = 1, iv_valid_from = a, iv_valid_to = b,
       iv_state = root_state_of n \<rparr>) [(3, None, 20), (1, Some 2, 20), (2, Some 3, 20)] \<rparr>"

lemma pruned_db_ok: "db_wf pruned_db"
  by (simp add: pruned_db_def timeline_db_def empty_db_def db_wf_def store_inv_def paths_ok_def ids_known_def snapshot_ids_def
      iv_nonempty_def iv_disjoint_def)

lemma estimate_is_what_merging_saves_witness:
  "removable_interval_count (db_intervals pruned_db) = 2 \<and> length (db_intervals (coalesce_intervals pruned_db)) = 1
     \<and> read_path (coalesce_intervals pruned_db) 2 ''/r'' = read_path pruned_db 2 ''/r''"
proof -
  have r: "removable_interval_count (db_intervals pruned_db) = 2" by code_simp
  have l: "length (db_intervals pruned_db) = 3" by code_simp
  note e = estimate_is_what_merging_saves[OF pruned_db_ok, of exact_floats
      "\<lparr> so_schema_names = Inr [], so_page_sum = (\<lambda>_. Inr (Some 8192)) \<rparr>" "''/db''", unfolded Let_def]
  have c: "int (length (db_intervals (coalesce_intervals pruned_db))) = 1"
    using e[THEN conjunct1] r l by (simp add: estimate_coalesce_savings_def Let_def)
  show ?thesis using r c e[THEN conjunct2, THEN conjunct1] by simp
qed

end
