(* ===== verification/Path_History_Proofs.thy ===== *)
theory Path_History_Proofs
  imports Path_History Diff_Proofs
begin

text \<open>
  What a path history shows: one row for each path below the compared one that either end knows, in
  order, with the figures of the two snapshots, wherever the path was then and is now.
\<close>

subsection \<open>Paths below a path\<close>

definition below_path :: "bytes \<Rightarrow> bytes \<Rightarrow> bool" where
  "below_path p s \<longleftrightarrow> p = root_dir \<or> s = [] \<or> hd s = slash"

lemma canonical_no_trailing: "canonical p \<Longrightarrow> p \<noteq> root_dir \<Longrightarrow> rstrip_char slash p = p"
proof -
  assume "canonical p" and "p \<noteq> root_dir"
  then obtain cs where cs: "\<forall>c\<in>set cs. comp_ok c" "p = abs_path cs" by (auto simp: canonical_iff)
  with \<open>p \<noteq> root_dir\<close> have "cs \<noteq> []" by (auto simp: abs_path_def)
  then obtain ds c where ds: "cs = ds @ [c]" by (cases cs rule: rev_cases) auto
  then have "last p = last c" "c \<noteq> []" using cs by (auto simp: abs_path_def comp_ok_def)
  moreover have "last c \<noteq> slash" using cs(1) ds \<open>c \<noteq> []\<close> by (auto simp: comp_ok_def dest: last_in_set)
  ultimately show ?thesis by (intro rstrip_char_id) simp
qed

lemma canonical_starts: "canonical p \<Longrightarrow> startswith p root_dir"
  by (cases p) (auto simp: canonical_def startswith_iff)

lemma in_scope_below:
  assumes p: "canonical p" and q: "canonical q"
  shows "path_scope_filter (Some p) q \<and> (q = p \<or> matches_path_prefix q p) \<longleftrightarrow> (\<exists>s. q = p @ s \<and> below_path p s)"
proof (cases "p = root_dir")
  case True
  then show ?thesis using canonical_starts[OF q]
    by (auto simp: path_scope_filter_def matches_path_prefix_def below_path_def startswith_iff)
next
  case False
  have "(q = p \<or> startswith q (p @ root_dir)) \<longleftrightarrow> (\<exists>s. q = p @ s \<and> (s = [] \<or> hd s = slash))"
  proof
    assume "\<exists>s. q = p @ s \<and> (s = [] \<or> hd s = slash)"
    then obtain s where s: "q = p @ s" "s = [] \<or> hd s = slash" by blast
    then show "q = p \<or> startswith q (p @ root_dir)" by (cases s) (auto simp: startswith_iff)
  qed (auto simp: startswith_iff)
  then show ?thesis using False canonical_no_trailing[OF p False]
    by (auto simp: path_scope_filter_def matches_path_prefix_def below_path_def)
qed

definition read_below :: "db \<Rightarrow> int \<Rightarrow> bytes \<Rightarrow> bytes \<Rightarrow> agg_state option" where
  "read_below d sid p s = (if below_path p s then read_path d sid (p @ s) else None)"

definition stored_canonical :: "db \<Rightarrow> bool" where
  "stored_canonical d \<longleftrightarrow> (\<forall>(i, p)\<in>set (db_paths d). canonical p)"

subsection \<open>One end\<close>

definition figures_at :: "agg_state option \<Rightarrow> diff_row \<Rightarrow> bool" where
  "figures_at st r \<longleftrightarrow>
     dr_current_apparent_bytes r = or_zero ag_apparent_bytes st \<and> dr_current_disk_bytes r = or_zero ag_disk_bytes st
   \<and> dr_current_hardlink_file_count r = or_zero ag_hardlink_file_count st
   \<and> dr_current_hardlink_duplicate_count r = or_zero ag_hardlink_duplicate_count st
   \<and> dr_current_hardlink_duplicate_disk_bytes r = or_zero ag_hardlink_duplicate_disk_bytes st
   \<and> dr_current_hardlink_first_seen_disk_bytes r = or_zero ag_hardlink_first_seen_disk_bytes st
   \<and> dr_collapsed r = (or_zero ag_collapsed st \<noteq> 0)"

lemma explain_hit:
  assumes "query_explain_path_rows d pair path group_by = Inr (rows, path, ws)"
  shows "\<exists>all_rows. query_diff_rows_with d pair group_by (explain_options path) = Inr (all_rows, ws)
    \<and> rows = sort_key (\<lambda>r. (dr_depth r, dr_path r)) (filter (\<lambda>r. dr_path r = path \<or> matches_path_prefix (dr_path r) path) all_rows)"
  using assms by (auto simp: query_explain_path_rows_def split: sum.splits if_splits option.splits)

lemma same_end_row:
  assumes "sp_baseline pair = sp_current pair"
  shows "figures_at (after_at d pair i) (finished_row root_path group_by mounts cps (row_at d pair i))"
    and "dr_path (finished_row root_path group_by mounts cps (row_at d pair i)) = the (path_text d i)"
  using assms by (auto simp: figures_at_def finished_row_def row_at_def diff_query_row_def coalesce_def)

lemma endpoint_entries:
  assumes wf: "db_wf d" "refs_resolved d" and canon: "stored_canonical d" "canonical path"
    and ep: "endpoint_rows d snapshot path group_by = Inr (ep, ws)"
  obtains f where "\<And>i. figures_at (map_of (snapshot_state d (sr_id snapshot)) i) (f i)"
    and "\<And>s r. map_of ep s = Some r \<longleftrightarrow> below_path path s
      \<and> (\<exists>i. path_text d i = Some (path @ s) \<and> r = f i \<and> map_of (snapshot_state d (sr_id snapshot)) i \<noteq> None)"
proof -
  define pair where "pair = pair_of (sr_root_path snapshot) snapshot snapshot []"
  have same: "sp_baseline pair = sp_current pair" "sr_id (sp_current pair) = sr_id snapshot" by (simp_all add: pair_def pair_of_def)
  have inv: "store_inv d" "paths_ok (db_paths d)" using wf(1) by (simp_all add: db_wf_def)
  obtain rows where q: "query_explain_path_rows d pair path group_by = Inr (rows, path, ws)"
    and ep': "ep = dict_of (map (\<lambda>row. (drop (length path) (dr_path row), row)) rows)"
    using ep unfolding endpoint_rows_def pair_def[symmetric] by (auto split: sum.splits if_splits)
  from explain_hit[OF q] obtain all_rows where a: "query_diff_rows_with d pair group_by (explain_options path) = Inr (all_rows, ws)"
    and rows: "rows = sort_key (\<lambda>r. (dr_depth r, dr_path r)) (filter (\<lambda>r. dr_path r = path \<or> matches_path_prefix (dr_path r) path) all_rows)"
    by blast
  define f where "f i = finished_row (sp_root_path pair) group_by (mounts_for d pair group_by) (collapsed_of d pair (explain_options path))
    (row_at d pair i)" for i
  let ?ids = "diff_ids d pair (Some path)"
  have fp: "dr_path (f i) = the (path_text d i)" for i unfolding f_def by (rule same_end_row(2)[OF same(1)])
  have ff: "figures_at (after_at d pair i) (f i)" for i unfolding f_def by (rule same_end_row(1)[OF same(1)])
  have all': "all_rows = map f ?ids"
    using diff_rows_with[OF diff_rows_group[OF a], of d pair "explain_options path"] a
    by (simp add: fetched_rows[OF inv(1)] explain_options_def f_def)
  have canon_i: "canonical p" if "path_text d i = Some p" for i p
    using canon(1) that path_text_iff(1)[OF inv(2)] by (auto simp: stored_canonical_def)
  have scope: "i \<in> set ?ids \<and> (dr_path (f i) = path \<or> matches_path_prefix (dr_path (f i)) path)
      \<longleftrightarrow> (\<exists>s. path_text d i = Some (path @ s) \<and> below_path path s \<and> after_at d pair i \<noteq> None)" for i
  proof (cases "path_text d i")
    case (Some p)
    then show ?thesis using in_scope_below[OF canon(2) canon_i[OF Some]] by (auto simp: fp diff_ids_iff same(1))
  qed (simp add: diff_ids_iff)
  let ?kvs = "map (\<lambda>row. (drop (length path) (dr_path row), row)) rows"
  have mem: "(s, r) \<in> set ?kvs \<longleftrightarrow> below_path path s \<and> (\<exists>i. path_text d i = Some (path @ s) \<and> r = f i \<and> after_at d pair i \<noteq> None)" for s r
  proof -
    have "(s, r) \<in> set ?kvs \<longleftrightarrow> (\<exists>i. (i \<in> set ?ids \<and> (dr_path (f i) = path \<or> matches_path_prefix (dr_path (f i)) path))
        \<and> r = f i \<and> s = drop (length path) (dr_path (f i)))"
      by (auto simp: rows all' image_iff)
    also have "\<dots> \<longleftrightarrow> below_path path s \<and> (\<exists>i. path_text d i = Some (path @ s) \<and> r = f i \<and> after_at d pair i \<noteq> None)"
      unfolding scope by (intro iffI; elim exE conjE) (auto simp: fp intro!: exI)
    finally show ?thesis .
  qed
  have dist: "distinct (map fst ?kvs)"
  proof -
    have "distinct (map dr_path all_rows)" using diff_ids_paths(1)[OF wf, of pair "Some path"] by (simp add: all' comp_def fp)
    then have "distinct (map dr_path rows)" by (auto simp: rows distinct_map intro: inj_on_subset)
    moreover have "inj_on (drop (length path)) (dr_path ` set rows)"
    proof (rule inj_onI)
      fix x y assume xy: "x \<in> dr_path ` set rows" "y \<in> dr_path ` set rows" "drop (length path) x = drop (length path) y"
      have pre: "\<exists>s. z = path @ s" if "z \<in> dr_path ` set rows" for z
      proof -
        from that obtain r where r: "r \<in> set rows" "z = dr_path r" by blast
        then have "(drop (length path) z, r) \<in> set ?kvs" by auto
        then obtain i where i: "path_text d i = Some (path @ drop (length path) z)" "r = f i" unfolding mem by (elim exE conjE)
        have "z = path @ drop (length path) z" using r(2) unfolding i(2) fp i(1) by simp
        then show ?thesis ..
      qed
      obtain s t where "x = path @ s" "y = path @ t" using pre[OF xy(1)] pre[OF xy(2)] by (elim exE)
      then show "x = y" using xy(3) by simp
    qed
    ultimately have "distinct (map (drop (length path)) (map dr_path rows))"
      by (simp only: distinct_map[of "drop (length path)"] set_map)
    then show ?thesis by (simp add: comp_def)
  qed
  show ?thesis
  proof (rule that)
    show "figures_at (map_of (snapshot_state d (sr_id snapshot)) i) (f i)" for i using ff[of i] same(2) by simp
    show "map_of ep s = Some r \<longleftrightarrow> below_path path s
      \<and> (\<exists>i. path_text d i = Some (path @ s) \<and> r = f i \<and> map_of (snapshot_state d (sr_id snapshot)) i \<noteq> None)" for s r
      unfolding ep' map_of_distinct_dict[OF dist] mem same(2) ..
  qed
qed

lemma endpoint_spec:
  assumes wf: "db_wf d" "refs_resolved d" and canon: "stored_canonical d" "canonical path"
    and ep: "endpoint_rows d snapshot path group_by = Inr (ep, ws)"
  shows "distinct (map fst ep)"
    and "map_of ep s = None \<longleftrightarrow> read_below d (sr_id snapshot) path s = None"
    and "map_of ep s = Some r \<Longrightarrow> figures_at (read_below d (sr_id snapshot) path s) r"
proof -
  have ps: "paths_ok (db_paths d)" using wf(1) by (simp add: db_wf_def)
  obtain f where ff: "\<And>i. figures_at (map_of (snapshot_state d (sr_id snapshot)) i) (f i)"
    and f: "\<And>s r. map_of ep s = Some r \<longleftrightarrow> below_path path s
      \<and> (\<exists>i. path_text d i = Some (path @ s) \<and> r = f i \<and> map_of (snapshot_state d (sr_id snapshot)) i \<noteq> None)"
    by (rule endpoint_entries[OF wf canon ep]) (rule that)
  show "distinct (map fst ep)" using ep by (auto simp: endpoint_rows_def distinct_dict_of split: sum.splits if_splits)
  have rb: "read_below d (sr_id snapshot) path s = map_of (snapshot_state d (sr_id snapshot)) i"
    if "below_path path s" "path_text d i = Some (path @ s)" for i
    using that read_path_at[OF ps that(2)] by (simp add: read_below_def)
  show "figures_at (read_below d (sr_id snapshot) path s) r" if "map_of ep s = Some r"
  proof -
    from that[unfolded f] obtain i where "below_path path s" "path_text d i = Some (path @ s)" "r = f i" by blast
    then show ?thesis using ff[of i] rb by simp
  qed
  have "(\<exists>r. map_of ep s = Some r) \<longleftrightarrow> (\<exists>st. read_below d (sr_id snapshot) path s = Some st)"
  proof
    assume "\<exists>r. map_of ep s = Some r"
    then obtain i where "below_path path s" "path_text d i = Some (path @ s)" "map_of (snapshot_state d (sr_id snapshot)) i \<noteq> None"
      unfolding f by blast
    then show "\<exists>st. read_below d (sr_id snapshot) path s = Some st" using rb by auto
  next
    assume "\<exists>st. read_below d (sr_id snapshot) path s = Some st"
    then obtain st where b: "below_path path s" and "read_path d (sr_id snapshot) (path @ s) = Some st"
      by (auto simp: read_below_def split: if_splits)
    then obtain i where "path_text d i = Some (path @ s)" "map_of (snapshot_state d (sr_id snapshot)) i = Some st"
      using read_path_Some[OF ps] by blast
    then show "\<exists>r. map_of ep s = Some r" unfolding f using b by blast
  qed
  then show "map_of ep s = None \<longleftrightarrow> read_below d (sr_id snapshot) path s = None"
    by (cases "map_of ep s"; cases "read_below d (sr_id snapshot) path s") auto
qed

subsection \<open>The merged rows\<close>

text \<open>The classification of a path from what the two ends hold of it and of the directories above it.\<close>

definition folded_above :: "(bytes \<Rightarrow> agg_state option) \<Rightarrow> bytes \<Rightarrow> bool" where
  "folded_above side s \<longleftrightarrow> (\<exists>t st. side t = Some st \<and> ag_collapsed st \<noteq> 0 \<and> startswith s (t @ root_dir))"

definition history_class :: "(bytes \<Rightarrow> agg_state option) \<Rightarrow> (bytes \<Rightarrow> agg_state option) \<Rightarrow> bytes \<Rightarrow> string" where
  "history_class before after s =
     (case (before s, after s) of
        (Some b, Some a) \<Rightarrow>
          if ag_apparent_bytes a = ag_apparent_bytes b then ''unchanged''
          else if ag_apparent_bytes b < ag_apparent_bytes a then ''grown'' else ''shrunk''
      | (None, _) \<Rightarrow> if folded_above before s then ''hidden_by_collapse'' else ''created''
      | (Some _, None) \<Rightarrow> if folded_above after s then ''hidden_by_collapse'' else ''deleted'')"

definition history_row_shows ::
    "(bytes \<Rightarrow> agg_state option) \<Rightarrow> (bytes \<Rightarrow> agg_state option) \<Rightarrow> bytes \<Rightarrow> bytes \<Rightarrow> diff_row \<Rightarrow> bool" where
  "history_row_shows before after requested s r \<longleftrightarrow>
     dr_path r = requested @ s
   \<and> dr_previous_disk_bytes r = or_zero ag_disk_bytes (before s) \<and> dr_current_disk_bytes r = or_zero ag_disk_bytes (after s)
   \<and> dr_disk_bytes_delta r = or_zero ag_disk_bytes (after s) - or_zero ag_disk_bytes (before s)
   \<and> dr_previous_apparent_bytes r = or_zero ag_apparent_bytes (before s)
   \<and> dr_current_apparent_bytes r = or_zero ag_apparent_bytes (after s)
   \<and> dr_apparent_bytes_delta r = or_zero ag_apparent_bytes (after s) - or_zero ag_apparent_bytes (before s)
   \<and> dr_hardlink_file_count_delta r = or_zero ag_hardlink_file_count (after s) - or_zero ag_hardlink_file_count (before s)
   \<and> dr_classification r = history_class before after s"

lemma merged_rows_show:
  assumes dp: "distinct (map fst previous)" and dl: "distinct (map fst latest)"
    and p: "\<And>s. map_of previous s = None \<longleftrightarrow> before s = None" "\<And>s r. map_of previous s = Some r \<Longrightarrow> figures_at (before s) r"
    and l: "\<And>s. map_of latest s = None \<longleftrightarrow> after s = None" "\<And>s r. map_of latest s = Some r \<Longrightarrow> figures_at (after s) r"
    and req: "sp_requested_path pair = Some requested"
  shows "history_row_shows before after requested s (merged_row pair previous latest s)"
proof -
  have metric: "metric_of g (map_of ep s) = or_zero h (side s)"
    if "\<And>s. map_of ep s = None \<longleftrightarrow> side s = None" "\<And>s r. map_of ep s = Some r \<Longrightarrow> figures_at (side s) r"
      "\<And>st r. figures_at st r \<Longrightarrow> g r = or_zero h st" for ep side g h
  proof (cases "map_of ep s")
    case None
    then show ?thesis using that(1)[of s] by (simp add: metric_of_def or_zero_def)
  next
    case (Some r)
    show ?thesis using that(3)[OF that(2)[OF Some]] by (simp add: metric_of_def Some)
  qed
  have ms: "metric_of dr_current_disk_bytes (map_of previous s) = or_zero ag_disk_bytes (before s)"
    "metric_of dr_current_apparent_bytes (map_of previous s) = or_zero ag_apparent_bytes (before s)"
    "metric_of dr_current_hardlink_file_count (map_of previous s) = or_zero ag_hardlink_file_count (before s)"
    "metric_of dr_current_disk_bytes (map_of latest s) = or_zero ag_disk_bytes (after s)"
    "metric_of dr_current_apparent_bytes (map_of latest s) = or_zero ag_apparent_bytes (after s)"
    "metric_of dr_current_hardlink_file_count (map_of latest s) = or_zero ag_hardlink_file_count (after s)"
    by (rule metric, rule p, erule p, simp add: figures_at_def)+ (rule metric, rule l, erule l, simp add: figures_at_def)+
  have fold: "list_ex (\<lambda>(t, row). dr_collapsed row \<and> startswith s (t @ root_dir)) ep \<longleftrightarrow> folded_above side s"
    if d: "distinct (map fst ep)" and n: "\<And>s. map_of ep s = None \<longleftrightarrow> side s = None" and f: "\<And>s r. map_of ep s = Some r \<Longrightarrow> figures_at (side s) r"
    for ep side
  proof -
    have known: "(\<exists>row. (t, row) \<in> set ep \<and> dr_collapsed row) \<longleftrightarrow> (\<exists>st. side t = Some st \<and> ag_collapsed st \<noteq> 0)" for t
    proof (cases "map_of ep t")
      case None
      then show ?thesis using n[of t] map_of_SomeD_iff[OF d, of t] by auto
    next
      case (Some r)
      then obtain st where st: "side t = Some st" using n[of t] by auto
      have "(t, row) \<in> set ep \<longleftrightarrow> row = r" for row using map_of_SomeD_iff[OF d, of t row] Some by auto
      then show ?thesis using f[OF Some] st by (simp add: figures_at_def or_zero_def)
    qed
    have "list_ex (\<lambda>(t, row). dr_collapsed row \<and> startswith s (t @ root_dir)) ep
        \<longleftrightarrow> (\<exists>t. (\<exists>row. (t, row) \<in> set ep \<and> dr_collapsed row) \<and> startswith s (t @ root_dir))"
      unfolding list_ex_iff by blast
    then show ?thesis unfolding known folded_above_def by blast
  qed
  have cls: "history_classification s (map_of previous s) (map_of latest s) previous latest = history_class before after s"
  proof (cases "map_of previous s")
    case None
    then show ?thesis using fold[OF dp p] p(1)[of s] by (simp add: history_classification_def history_class_def)
  next
    case prev: (Some b)
    then obtain b' where b': "before s = Some b'" using p(1)[of s] by auto
    show ?thesis
    proof (cases "map_of latest s")
      case None
      then show ?thesis using fold[OF dl l] l(1)[of s] prev b' by (simp add: history_classification_def history_class_def)
    next
      case (Some a)
      then obtain a' where a': "after s = Some a'" using l(1)[of s] by auto
      show ?thesis using p(2)[OF prev] l(2)[OF Some]
        by (simp add: history_classification_def history_class_def prev Some a' b' figures_at_def or_zero_def)
    qed
  qed
  show ?thesis
    using cls req
    by (simp add: history_row_shows_def merged_row_def history_changes_def Let_def ms figures_at_def)
qed

lemma merge_shows:
  assumes "distinct (map fst previous)" and "distinct (map fst latest)"
    and p: "\<And>s. map_of previous s = None \<longleftrightarrow> before s = None" "\<And>s r. map_of previous s = Some r \<Longrightarrow> figures_at (before s) r"
    and l: "\<And>s. map_of latest s = None \<longleftrightarrow> after s = None" "\<And>s r. map_of latest s = Some r \<Longrightarrow> figures_at (after s) r"
    and "sp_requested_path pair = Some requested"
  shows "\<exists>parts. sorted parts \<and> distinct parts \<and> set parts = {s. before s \<noteq> None \<or> after s \<noteq> None}
    \<and> list_all2 (history_row_shows before after requested) parts (merge_endpoint_rows pair previous latest)"
proof -
  let ?parts = "sort (remdups (map fst previous @ map fst latest))"
  have k: "s \<in> fst ` set previous \<longleftrightarrow> before s \<noteq> None" "s \<in> fst ` set latest \<longleftrightarrow> after s \<noteq> None" for s
    using p(1)[of s] l(1)[of s] by (metis map_of_eq_None_iff)+
  have "set ?parts = fst ` set previous \<union> fst ` set latest" by simp
  also have "\<dots> = {s. before s \<noteq> None \<or> after s \<noteq> None}" using k by blast
  finally have "set ?parts = {s. before s \<noteq> None \<or> after s \<noteq> None}" .
  moreover have "list_all2 (history_row_shows before after requested) ?parts (merge_endpoint_rows pair previous latest)"
    using merged_rows_show[OF assms] by (simp add: merge_endpoint_rows_def list.rel_map list.rel_refl)
  ultimately show ?thesis by (intro exI[of _ ?parts]) simp
qed

subsection \<open>The chosen ends\<close>

lemma map_err_member: "map_err f xs = Inr ys \<Longrightarrow> y \<in> set ys \<Longrightarrow> \<exists>x\<in>set xs. f x = Inr y"
  unfolding map_err_Inr list_all2_conv_all_nth in_set_conv_nth by force

lemma observation_path:
  assumes "history_observations d requested current = Inr obs" and "item \<in> set obs"
  shows "snd item \<in> snd ` set (db_paths d)"
proof -
  obtain x where x: "x \<in> set (history_rows d requested current)" "(case x of (s, p) \<Rightarrow> map_sum id (\<lambda>r. (r, p)) (pair_record s)) = Inr item"
    using map_err_member[OF assms(1)[unfolded history_observations_def] assms(2)] by blast
  obtain s p where sp: "x = (s, p)" by (cases x)
  have "snd x = snd item" using x(2) unfolding sp by (auto simp: map_sum_Inr)
  then have "\<exists>s. (s, snd item) \<in> set (history_rows d requested current)" using x(1) by (metis prod.collapse)
  then show ?thesis
    by (auto simp: history_rows_def Let_def observed_paths_def complete_observations_def partial_observations_def
        intro: rev_image_eqI)
qed

lemma earlier_members:
  assumes "earlier_observations t i obs = Inr earlier" and "(item, t') \<in> set earlier"
  shows "item \<in> set obs \<and> observed_at item = Inr t' \<and> (t', sr_id (fst item)) < (t, i)"
proof -
  obtain ys where m: "map_err (\<lambda>item. map_sum id (\<lambda>t. (item, t)) (observed_at item)) obs = Inr ys"
    and y: "(item, t') \<in> set ys" "(t', sr_id (fst item)) < (t, i)"
    using assms by (auto simp: earlier_observations_def map_sum_Inr)
  from map_err_member[OF m y(1)] y(2) show ?thesis by (auto simp: map_sum_Inr)
qed

lemma history_baseline_member: "earlier \<noteq> [] \<Longrightarrow> history_baseline c earlier = (item, b) \<Longrightarrow> \<exists>t. (item, t) \<in> set earlier"
proof -
  assume e: "earlier \<noteq> []" "history_baseline c earlier = (item, b)"
  let ?bc = "filter (\<lambda>(_, t). t \<le> c) earlier"
  have "item = fst (last ?bc) \<and> ?bc \<noteq> [] \<or> item = fst (hd earlier)"
    using e(2) by (auto simp: history_baseline_def Let_def split: if_splits)
  moreover have "?bc \<noteq> [] \<Longrightarrow> last ?bc \<in> set earlier" using last_in_set[of ?bc] by auto
  ultimately have "\<exists>x\<in>set earlier. item = fst x" using hd_in_set[OF e(1)] by blast
  then show "\<exists>t. (item, t) \<in> set earlier" by force
qed

definition finishes_before :: "snapshot_record \<Rightarrow> snapshot_record \<Rightarrow> bool" where
  "finishes_before a b \<longleftrightarrow> (\<exists>t u. parse_finished_at_utc (sr_finished_at a) = Inr t \<and> parse_finished_at_utc (sr_finished_at b) = Inr u
     \<and> (t, sr_id a) < (u, sr_id b))"

lemma observed_at_Inr: "observed_at item = Inr t \<longleftrightarrow> parse_finished_at_utc (sr_finished_at (fst item)) = Inr t"
  by (auto simp: observed_at_def map_sum_Inr)

lemma select_history_pair_ends:
  assumes "select_history_pair d requested current since = Inr (pair, ws)"
  shows "sp_requested_path pair = Some requested \<and> current \<in> snd ` set (db_paths d)
    \<and> (\<exists>bp. sp_baseline_path pair = Some bp \<and> bp \<in> snd ` set (db_paths d)) \<and> finishes_before (sp_baseline pair) (sp_current pair)"
proof -
  let ?cands = "\<lambda>obs :: observation list. filter (\<lambda>item. snd item = current) obs"
  from assms obtain obs t delta earlier baseline bp in_time b c where
    obs: "history_observations d requested current = Inr obs" and cands: "?cands obs \<noteq> []"
    and t: "observed_at (last (?cands obs)) = Inr t"
    and e: "earlier_observations t (sr_id (fst (last (?cands obs)))) obs = Inr earlier" "earlier \<noteq> []"
    and base: "history_baseline (t - delta) earlier = ((baseline, bp), in_time)"
    and pair: "pair = history_pair baseline bp (fst (last (?cands obs))) current requested b c"
    by (auto simp: select_history_pair_def Let_def split: sum.splits if_splits prod.splits)
  obtain t' where "((baseline, bp), t') \<in> set earlier" using history_baseline_member[OF e(2) base] by blast
  from earlier_members[OF e(1) this] have m: "(baseline, bp) \<in> set obs" "observed_at (baseline, bp) = Inr t'"
    "(t', sr_id baseline) < (t, sr_id (fst (last (?cands obs))))" by auto
  have l: "last (?cands obs) \<in> set obs" "snd (last (?cands obs)) = current" using last_in_set[OF cands] by auto
  show ?thesis
    using observation_path[OF obs m(1)] observation_path[OF obs l(1)] m(2,3) t l(2)
    by (auto simp: pair history_pair_def finishes_before_def observed_at_Inr)
qed

lemma path_history_rows:
  assumes wf: "db_wf d" "refs_resolved d" and canon: "stored_canonical d"
    and q: "query_path_history d requested current since group_by = Inr (pair, rows, ws)"
  shows "\<exists>bp parts. sp_baseline_path pair = Some bp \<and> finishes_before (sp_baseline pair) (sp_current pair)
    \<and> sorted parts \<and> distinct parts
    \<and> set parts = {s. read_below d (sr_id (sp_baseline pair)) bp s \<noteq> None \<or> read_below d (sr_id (sp_current pair)) current s \<noteq> None}
    \<and> list_all2 (history_row_shows (read_below d (sr_id (sp_baseline pair)) bp) (read_below d (sr_id (sp_current pair)) current) requested)
        parts rows"
proof -
  from q obtain pair0 ws0 previous ws1 latest ws2 where
    sel: "select_history_pair d requested current since = Inr (pair0, ws0)"
    and prev: "endpoint_rows d (sp_baseline pair0) (the (sp_baseline_path pair0)) group_by = Inr (previous, ws1)"
    and last': "endpoint_rows d (sp_current pair0) current group_by = Inr (latest, ws2)"
    and pair: "pair = pair0\<lparr> sp_warning_codes := map rw_code ws \<rparr>" and rows: "rows = merge_endpoint_rows pair previous latest"
    by (auto simp: query_path_history_def Let_def split: sum.splits prod.splits)
  from select_history_pair_ends[OF sel] obtain bp where e: "sp_requested_path pair = Some requested" "current \<in> snd ` set (db_paths d)"
    "sp_baseline_path pair = Some bp" "bp \<in> snd ` set (db_paths d)" "finishes_before (sp_baseline pair) (sp_current pair)"
    by (auto simp: pair)
  have can: "canonical bp" "canonical current" using canon e(2,4) by (auto simp: stored_canonical_def)
  have ends: "sp_baseline pair0 = sp_baseline pair" "sp_current pair0 = sp_current pair" "the (sp_baseline_path pair0) = bp"
    using e(3) by (simp_all add: pair)
  note b = endpoint_spec[OF wf canon can(1) prev[unfolded ends]] and c = endpoint_spec[OF wf canon can(2) last'[unfolded ends]]
  from merge_shows[OF b(1) c(1) b(2) b(3) c(2) c(3) e(1)] show ?thesis
    unfolding rows using e(3,5) by blast
qed

text \<open>
  C15: A path history compares the path with itself across time.  The two ends are observations in
  chronological order; there is one row for every path below the compared one that either end holds,
  in the order of their names; its figures are those stored for it at the two ends (under the old and
  the new location), its deltas the differences; and it is called created or deleted only if no
  collapsed directory above it hides it at the end that lacks it.
\<close>

theorem path_history_compares_ends:
  assumes "db_wf d" and "refs_resolved d" and "stored_canonical d"
    and "query_path_history d requested current since group_by = Inr (pair, rows, ws)"
  shows "\<exists>bp parts. sp_baseline_path pair = Some bp \<and> finishes_before (sp_baseline pair) (sp_current pair)
    \<and> sorted parts \<and> distinct parts
    \<and> set parts = {s. read_below d (sr_id (sp_baseline pair)) bp s \<noteq> None \<or> read_below d (sr_id (sp_current pair)) current s \<noteq> None}
    \<and> list_all2 (history_row_shows (read_below d (sr_id (sp_baseline pair)) bp) (read_below d (sr_id (sp_current pair)) current) requested)
        parts rows"
  by (rule path_history_rows[OF assms])

definition sample_history :: "snapshot_pair \<times> diff_row list \<times> report_warning list" where
  "sample_history = (case query_path_history diff_db ''/link'' ''/r/a'' ''1d'' ''root'' of Inr out \<Rightarrow> out)"

lemma sample_history_ok:
  "query_path_history diff_db ''/link'' ''/r/a'' ''1d'' ''root''
     = Inr (fst sample_history, fst (snd sample_history), snd (snd sample_history))"
  by code_simp

lemma sample_history_rows: "map (\<lambda>r. (dr_path r, dr_classification r, dr_disk_bytes_delta r)) (fst (snd sample_history))
    = [(''/link'', ''grown'', 50), (''/link/x'', ''hidden_by_collapse'', -10)]"
  by code_simp

lemma path_history_compares_ends_witness:
  "\<exists>bp. sp_baseline_path (fst sample_history) = Some bp \<and> finishes_before (sp_baseline (fst sample_history)) (sp_current (fst sample_history))"
proof -
  have "stored_canonical diff_db" by code_simp
  from path_history_compares_ends[OF diff_db_ok(1,2) this sample_history_ok] show ?thesis by blast
qed

text \<open>
  The file-system root is the one path whose parts do not begin with a separator.  When the compared
  path lies elsewhere, its names are glued to it.
\<close>

lemma root_history_glues_names:
  "drop (length root_dir) ''/etc'' = ''etc'' \<and>
   dr_path (merged_row (pair\<lparr> sp_requested_path := Some ''/link'' \<rparr>) [] [(''etc'', r)] ''etc'') = ''/linketc''"
  by (simp add: merged_row_def Let_def)

end
