(* ===== verification/Trend_Query_Proofs.thy ===== *)
theory Trend_Query_Proofs
  imports Trend_Query Diff_Proofs
begin

text \<open>
  The trend reports against the snapshots: the trend of a path is the analysis of its stored sizes in
  the selected snapshots of its root, whichever of the two queries reads them and whatever other
  paths are asked for.
\<close>

subsection \<open>The selected snapshots\<close>

lemma readable_fold_times:
  "fold_err readable_step acc rows = Inr out \<Longrightarrow> \<forall>u\<in>set acc. parse_finished_at_utc (sr_finished_at (fst u)) = Inr (snd u)
   \<Longrightarrow> \<forall>u\<in>set out. parse_finished_at_utc (sr_finished_at (fst u)) = Inr (snd u)"
proof (induction rows arbitrary: acc)
  case (Cons s rows)
  from Cons.prems(1) obtain acc' where a: "readable_step acc s = Inr acc'" "fold_err readable_step acc' rows = Inr out"
    unfolding fold_err.simps case_sum_Inr by blast
  have "\<forall>u\<in>set acc'. parse_finished_at_utc (sr_finished_at (fst u)) = Inr (snd u)"
    using a(1) Cons.prems(2) by (auto simp: readable_step_def split: sum.splits)
  then show ?case by (rule Cons.IH[OF a(2)])
qed simp

lemma readable_fold_distinct:
  "fold_err readable_step acc rows = Inr out \<Longrightarrow> distinct (map (\<lambda>u. sr_id (fst u)) acc @ map sn_id rows)
   \<Longrightarrow> distinct (map (\<lambda>u. sr_id (fst u)) out)"
proof (induction rows arbitrary: acc)
  case (Cons s rows)
  from Cons.prems(1) obtain acc' where a: "readable_step acc s = Inr acc'" "fold_err readable_step acc' rows = Inr out"
    unfolding fold_err.simps case_sum_Inr by blast
  have "acc' = acc \<or> (\<exists>u. acc' = acc @ [u] \<and> sr_id (fst u) = sn_id s)"
    using a(1) pair_record_fields(1)[of s] by (auto simp: readable_step_def split: sum.splits)
  then have "map (\<lambda>u. sr_id (fst u)) acc' @ map sn_id rows = map (\<lambda>u. sr_id (fst u)) acc @ map sn_id (s # rows) \<or> acc' = acc" by auto
  then have "distinct (map (\<lambda>u. sr_id (fst u)) acc' @ map sn_id rows)"
    by (elim disjE) (use Cons.prems(2) in \<open>simp_all only: list.map(2) distinct_append distinct.simps\<close>, auto)
  then show ?case by (rule Cons.IH[OF a(2)])
qed simp

lemma root_selection_distinct: "distinct (root_selection cutoff rows)"
proof -
  have "distinct acc \<Longrightarrow> distinct (foldl (\<lambda>sel item. if item \<in> set sel then sel else sel @ [item]) acc xs)" for acc xs :: "usable list"
    by (induction xs arbitrary: acc) auto
  then show ?thesis by (simp add: root_selection_def Let_def)
qed

lemma selection_fold_distinct:
  assumes "fold_err (selection_step delta) acc gs = Inr out" and "distinct (map sr_id acc)"
    and "\<forall>g\<in>set gs. inj_on (\<lambda>u. sr_id (fst u)) (set g)"
    and "\<forall>g\<in>set gs. sr_id ` fst ` set g \<inter> sr_id ` set acc = {}"
    and "sorted_wrt (\<lambda>g h. sr_id ` fst ` set g \<inter> sr_id ` fst ` set h = {}) gs"
  shows "distinct (map sr_id out)"
  using assms
proof (induction gs arbitrary: acc)
  case (Cons g gs)
  from Cons.prems(1) obtain acc' where a: "selection_step delta acc g = Inr acc'" "fold_err (selection_step delta) acc' gs = Inr out"
    unfolding fold_err.simps case_sum_Inr by blast
  then obtain c where acc': "acc' = acc @ map fst (root_selection c g)" by (auto simp: selection_step_def Let_def split: if_splits)
  have sub: "set (root_selection c g) \<subseteq> set g" by (rule root_selection_subset)
  have "inj_on (\<lambda>u. sr_id (fst u)) (set (root_selection c g))"
    by (rule inj_on_subset[OF _ sub]) (use Cons.prems(3) in simp)
  then have "distinct (map sr_id (map fst (root_selection c g)))"
    using root_selection_distinct[of c g] by (simp add: distinct_map comp_def)
  moreover have "sr_id ` fst ` set (root_selection c g) \<inter> sr_id ` set acc = {}" using Cons.prems(4) sub by fastforce
  ultimately have d: "distinct (map sr_id acc')" using Cons.prems(2) by (auto simp: acc')
  have "sr_id ` fst ` set h \<inter> sr_id ` set acc' = {}" if h: "h \<in> set gs" for h
  proof -
    have "sr_id ` fst ` set h \<inter> sr_id ` fst ` set g = {}" "sr_id ` fst ` set h \<inter> sr_id ` set acc = {}"
      using Cons.prems(4) h bspec[OF conjunct1[OF Cons.prems(5)[unfolded sorted_wrt.simps]] h] by (simp_all add: Int_commute)
    moreover have "sr_id ` fst ` set (root_selection c g) \<subseteq> sr_id ` fst ` set g" using sub by (intro image_mono)
    moreover have "A \<inter> D = {} \<Longrightarrow> A \<inter> B = {} \<Longrightarrow> C \<subseteq> D \<Longrightarrow> A \<inter> (B \<union> C) = {}" for A B C D :: "int set" by blast
    ultimately show ?thesis unfolding acc' set_append set_map image_Un by (simp only:)
  qed
  then show ?case using Cons.prems(3,5) by (intro Cons.IH[OF a(2) d]) auto
qed simp

lemma selected_facts:
  assumes ids: "distinct (map sn_id (db_snapshots d))" and sel: "select_trend_snapshots since d = Inr snaps"
  shows "distinct (map sr_id snaps)" and "\<forall>r\<in>set snaps. \<exists>t. parse_finished_at_utc (sr_finished_at r) = Inr t"
proof -
  from sel obtain delta readable where
    f: "fold_err readable_step [] (trend_rows d) = Inr readable"
    and s: "fold_err (selection_step delta) [] (map snd (group_rows (\<lambda>item. sr_root_path (fst item)) readable)) = Inr snaps"
    unfolding select_trend_snapshots_def case_sum_Inr by blast
  let ?k = "\<lambda>item :: usable. sr_root_path (fst item)"
  have "distinct (map sn_id (trend_rows d))"
  proof -
    have "distinct (map sn_id (filter P (db_snapshots d)))" for P using ids by (rule distinct_map_filter)
    moreover have "mset (map sn_id (trend_rows d)) = mset (map sn_id (filter (\<lambda>s. usable_row s \<and> sn_finished_at s \<noteq> None) (db_snapshots d)))"
      by (simp add: trend_rows_def)
    ultimately show ?thesis using mset_eq_imp_distinct_iff by blast
  qed
  then have dr: "distinct (map (\<lambda>u. sr_id (fst u)) readable)" using readable_fold_distinct[OF f] by simp
  have gs: "g = filter (\<lambda>r. ?k r = root) readable" if "(root, g) \<in> set (group_rows ?k readable)" for root g
    using that by (simp add: group_rows_mem)
  have inj: "inj_on (\<lambda>u. sr_id (fst u)) (set readable)" using dr by (simp add: distinct_map)
  have disj: "sr_id ` fst ` set (snd a) \<inter> sr_id ` fst ` set (snd b) = {}"
    if "a \<in> set (group_rows ?k readable)" "b \<in> set (group_rows ?k readable)" "fst a \<noteq> fst b" for a b
  proof -
    have "set (snd a) = {r \<in> set readable. ?k r = fst a}" "set (snd b) = {r \<in> set readable. ?k r = fst b}"
      using gs[of "fst a" "snd a"] gs[of "fst b" "snd b"] that(1,2) by auto
    then show ?thesis using that(3) inj_onD[OF inj] by fastforce
  qed
  have "distinct (map fst (group_rows ?k readable))" by (rule group_rows_props[THEN conjunct1])
  then have "sorted_wrt (\<lambda>a b. fst a \<noteq> fst b) (group_rows ?k readable)" by (auto simp: distinct_conv_nth sorted_wrt_iff_nth_less)
  then have "sorted_wrt (\<lambda>g h. sr_id ` fst ` set g \<inter> sr_id ` fst ` set h = {}) (map snd (group_rows ?k readable))"
    unfolding sorted_wrt_map by (rule sorted_wrt_mono_rel[rotated]) (rule disj)
  moreover have "\<forall>g\<in>set (map snd (group_rows ?k readable)). inj_on (\<lambda>u. sr_id (fst u)) (set g)"
  proof
    fix g assume "g \<in> set (map snd (group_rows ?k readable))"
    then obtain root where "(root, g) \<in> set (group_rows ?k readable)" by auto
    from gs[OF this] show "inj_on (\<lambda>u. sr_id (fst u)) (set g)" by (auto intro: inj_on_subset[OF inj])
  qed
  ultimately show "distinct (map sr_id snaps)" by (intro selection_fold_distinct[OF s]) simp_all
  have "\<Union>(set ` set (map snd (group_rows ?k readable))) \<subseteq> set readable" by (auto simp: group_rows_mem)
  then have "set snaps \<subseteq> fst ` set readable"
    by (rule order_trans[OF selection_fold[OF s, unfolded list.set(1) Un_empty_left] image_mono])
  moreover have "\<forall>u\<in>set readable. parse_finished_at_utc (sr_finished_at (fst u)) = Inr (snd u)"
    by (rule readable_fold_times[OF f]) simp
  ultimately show "\<forall>r\<in>set snaps. \<exists>t. parse_finished_at_utc (sr_finished_at r) = Inr t" by fastforce
qed

subsection \<open>Collecting the samples\<close>

definition row_time :: "sample_row \<Rightarrow> instant" where
  "row_time row = (case parse_finished_at_utc (sa_finished_at row) of Inl _ \<Rightarrow> 0 | Inr t \<Rightarrow> t)"

definition row_sample :: "sample_row \<Rightarrow> trend_sample" where
  "row_sample row = \<lparr> ts_snapshot_id = sa_snapshot_id row, ts_finished_at = row_time row, ts_disk_bytes = sa_disk_bytes row,
     ts_apparent_bytes = sa_apparent_bytes row \<rparr>"

definition collected :: "(string \<times> int) list \<Rightarrow> trend_key \<Rightarrow> sample_row list \<Rightarrow> path_trend_accumulator" where
  "collected counts k rows =
     foldl (\<lambda>a r. add_sample (row_time r) r a) (new_path_accumulator (fst k) (snd k) (the (map_of counts (fst k)))) rows"

lemma collected_fields:
  "pa_root_path (collected counts k rows) = fst k" "pa_path (collected counts k rows) = snd k"
  "pa_expected_sample_count (collected counts k rows) = the (map_of counts (fst k))"
  "pa_samples (collected counts k rows) = map row_sample rows"
  by (induction rows rule: rev_induct) (simp_all add: collected_def new_path_accumulator_def add_sample_def row_sample_def)

lemma filter_key_none: "k \<notin> f ` set xs \<Longrightarrow> filter (\<lambda>x. f x = k) xs = []"
  by (auto simp: filter_empty_conv)

lemma path_trend_fold:
  assumes "\<forall>r\<in>set rows. map_of counts (sa_root_path r) \<noteq> None \<and> (\<exists>t. parse_finished_at_utc (sa_finished_at r) = Inr t)"
  shows "\<exists>accs. fold_err (path_trend_step counts) [] rows = Inr accs \<and> distinct (map fst accs)
    \<and> (\<forall>k. map_of accs k = (if k \<in> sample_key ` set rows then Some (collected counts k (filter (\<lambda>r. sample_key r = k) rows)) else None))"
  using assms
proof (induction rows rule: rev_induct)
  case (snoc r rows)
  obtain accs where a: "fold_err (path_trend_step counts) [] rows = Inr accs" "distinct (map fst accs)"
    "\<And>k. map_of accs k = (if k \<in> sample_key ` set rows then Some (collected counts k (filter (\<lambda>r. sample_key r = k) rows)) else None)"
    using snoc.IH snoc.prems by auto
  obtain n t where n: "map_of counts (sa_root_path r) = Some n" and t: "parse_finished_at_utc (sa_finished_at r) = Inr t"
    using snoc.prems by auto
  let ?k = "sample_key r"
  let ?new = "new_path_accumulator (sa_root_path r) (sa_path r) n"
  let ?accs = "setdefault ?k ?new accs"
  let ?out = "AList.update ?k (add_sample t r (the (map_of ?accs ?k))) ?accs"
  have step: "path_trend_step counts accs r = Inr ?out" by (simp add: path_trend_step_def n t Let_def)
  have old: "the (map_of ?accs ?k) = collected counts ?k (filter (\<lambda>x. sample_key x = ?k) rows)"
  proof (cases "?k \<in> sample_key ` set rows")
    case True
    then show ?thesis by (simp add: map_of_setdefault a(3))
  next
    case False
    then have "filter (\<lambda>x. sample_key x = ?k) rows = []" by (rule filter_key_none)
    then show ?thesis using False by (simp add: map_of_setdefault a(3) collected_def sample_key_def n)
  qed
  have new: "add_sample t r (the (map_of ?accs ?k)) = collected counts ?k (filter (\<lambda>x. sample_key x = ?k) (rows @ [r]))"
    by (simp add: old collected_def row_time_def t)
  have "map_of ?out k = (if k \<in> sample_key ` set (rows @ [r])
      then Some (collected counts k (filter (\<lambda>x. sample_key x = k) (rows @ [r]))) else None)" for k
  proof (cases "k = ?k")
    case True
    then show ?thesis by (simp only: map_of_update fun_upd_same new) simp
  next
    case False
    then have f: "filter (\<lambda>x. sample_key x = k) (rows @ [r]) = filter (\<lambda>x. sample_key x = k) rows" by simp
    show ?thesis unfolding f using False by (simp add: map_of_update map_of_setdefault a(3) del: filter_append)
  qed
  moreover have "distinct (map fst ?out)" using a(2) by (simp add: distinct_update distinct_keys_setdefault)
  ultimately show ?case using a(1) step by (simp add: fold_err_append)
qed simp

lemma expected_counts:
  "map_of (expected_sample_counts_by_root snaps) rt
   = (if rt \<in> sr_root_path ` set snaps then Some (int (length (filter (\<lambda>r. sr_root_path r = rt) snaps))) else None)"
proof (induction snaps arbitrary: rt rule: rev_induct)
  case (snoc s snaps)
  let ?E = "expected_sample_counts_by_root snaps"
  have step: "expected_sample_counts_by_root (snaps @ [s]) = AList.update (sr_root_path s) (dict_get ?E (sr_root_path s) 0 + 1) ?E"
    by (simp add: expected_sample_counts_by_root_def)
  have none: "sr_root_path s \<notin> sr_root_path ` set snaps \<Longrightarrow> filter (\<lambda>r. sr_root_path r = sr_root_path s) snaps = []"
    by (rule filter_key_none)
  show ?case
  proof (cases "rt = sr_root_path s")
    case True
    show ?thesis unfolding step True by (cases "sr_root_path s \<in> sr_root_path ` set snaps") (simp_all add: map_of_update dict_get_def snoc none)
  next
    case False
    then show ?thesis unfolding step by (simp add: map_of_update snoc)
  qed
qed (simp add: expected_sample_counts_by_root_def)

subsection \<open>The rows of one path\<close>

lemma single_hit:
  "distinct (map fst kvs) \<Longrightarrow>
   concat (map (\<lambda>(i, st). if i = i0 then [f st] else []) kvs) = (case map_of kvs i0 of None \<Rightarrow> [] | Some st \<Rightarrow> [f st])"
proof (induction kvs)
  case (Cons kv kvs)
  obtain i st where kv: "kv = (i, st)" by fastforce
  show ?case
  proof (cases "i = i0")
    case True
    then have "map_of kvs i0 = None" using Cons.prems by (simp add: kv map_of_eq_None_iff)
    then show ?thesis using Cons True by (simp add: kv)
  next
    case False
    then show ?thesis using Cons by (simp add: kv)
  qed
qed simp

text \<open>The row of the path \<open>snd k\<close> in the snapshot, if the snapshot is one of the root \<open>fst k\<close> and has the path.\<close>

definition path_rows_for :: "db \<Rightarrow> trend_key \<Rightarrow> snapshot_row \<Rightarrow> sample_row list" where
  "path_rows_for d k s =
     (if sn_root_path s = fst k
      then (case read_path d (sn_id s) (snd k) of None \<Rightarrow> [] | Some st \<Rightarrow> [sample_row_of d s (snd k) st]) else [])"

lemma sample_row_key [simp]: "sample_key (sample_row_of d s p st) = (sn_root_path s, p)"
  by (simp add: sample_key_def sample_row_of_def)

lemma path_rows_for_key: "\<forall>r\<in>set (path_rows_for d k s). sample_key r = k"
proof (cases "sn_root_path s = fst k")
  case True
  then show ?thesis by (cases "read_path d (sn_id s) (snd k)") (simp_all add: path_rows_for_def)
qed (simp add: path_rows_for_def)

lemma path_rows_for_fields: "\<forall>r\<in>set (path_rows_for d k s). sa_root_path r = sn_root_path s \<and> sa_finished_at r = sn_finished_at s"
proof (cases "sn_root_path s = fst k")
  case True
  then show ?thesis by (cases "read_path d (sn_id s) (snd k)") (simp_all add: path_rows_for_def sample_row_of_def)
qed (simp add: path_rows_for_def)

lemma path_id_text:
  assumes "paths_ok (db_paths d)"
  shows "path_id_of d p = Some i \<longleftrightarrow> path_text d i = Some p"
  using path_text_iff[OF assms] by blast

lemma all_rows_for:
  assumes ps: "paths_ok (db_paths d)" and st: "distinct (map fst (snapshot_state d (sn_id s)))"
  shows "filter (\<lambda>r. sample_key r = k) (concat (map (\<lambda>(pid, st).
      case path_text d pid of None \<Rightarrow> [] | Some path \<Rightarrow> [sample_row_of d s path st]) (snapshot_state d (sn_id s)))) = path_rows_for d k s"
proof -
  obtain rt p where k: "k = (rt, p)" by fastforce
  let ?g = "\<lambda>(pid, st). if path_text d pid = Some p \<and> sn_root_path s = rt then [sample_row_of d s p st] else []"
  have "filter (\<lambda>r. sample_key r = k) (concat (map (\<lambda>(pid, st).
      case path_text d pid of None \<Rightarrow> [] | Some path \<Rightarrow> [sample_row_of d s path st]) (snapshot_state d (sn_id s))))
    = concat (map ?g (snapshot_state d (sn_id s)))"
    unfolding filter_concat map_map by (rule arg_cong[where f = concat], rule map_cong) (auto simp: k split: option.splits)
  also have "\<dots> = path_rows_for d k s"
  proof (cases "sn_root_path s = rt")
    case True
    show ?thesis
    proof (cases "path_id_of d p")
      case None
      then have "path_text d pid \<noteq> Some p" for pid using path_id_text[OF ps] by (metis option.distinct(1))
      then show ?thesis using None by (simp add: path_rows_for_def k read_path_def concat_eq_Nil_conv case_prod_unfold)
    next
      case (Some i)
      have "path_text d pid = Some p \<longleftrightarrow> pid = i" for pid using Some path_id_text[OF ps] path_text_inj[OF ps] by metis
      then have "concat (map ?g (snapshot_state d (sn_id s)))
          = concat (map (\<lambda>(j, st). if j = i then [sample_row_of d s p st] else []) (snapshot_state d (sn_id s)))" using True by simp
      also have "\<dots> = path_rows_for d k s" unfolding single_hit[OF st] using True Some
        by (simp add: path_rows_for_def k read_path_def split: option.split)
      finally show ?thesis .
    qed
  qed (simp add: path_rows_for_def k concat_eq_Nil_conv case_prod_unfold)
  finally show ?thesis .
qed

text \<open>What the candidate query reads for one path id, in either table.\<close>

definition piece :: "db \<Rightarrow> snapshot_row \<Rightarrow> bytes \<Rightarrow> int \<Rightarrow> sample_row list" where
  "piece d s path pid = (case map_of (snapshot_state d (sn_id s)) pid of None \<Rightarrow> [] | Some st \<Rightarrow> [sample_row_of d s path st])"

lemma concat_filter_if: "concat (map (\<lambda>x. if P x then [f x] else []) xs) = map f (filter P xs)"
  by (induction xs) auto

lemma table_pieces:
  assumes inv: "store_inv d" and s: "s \<in> set (db_snapshots d)"
  shows "sn_status s = status_value COMPLETE \<Longrightarrow> map (\<lambda>iv. sample_row_of d s path (iv_state iv))
      (filter (\<lambda>iv. iv_path_id iv = pid \<and> interval_holds (sn_root_path s) (sn_id s) iv) (db_intervals d)) = piece d s path pid"
    and "sn_status s \<noteq> status_value COMPLETE \<Longrightarrow> map (\<lambda>dg. sample_row_of d s path (dg_state dg))
      (filter (\<lambda>dg. dg_snapshot_id dg = sn_id s \<and> dg_path_id dg = pid) (db_diagnostics d)) = piece d s path pid"
proof -
  have ids: "distinct (map sn_id (db_snapshots d))" using inv by (simp add: store_inv_def)
  note hit = single_hit[OF snapshot_state_distinct[OF inv], of pid "sample_row_of d s path" "sn_id s", folded piece_def]
  note at = snapshot_state_at[OF ids s]
  show "map (\<lambda>iv. sample_row_of d s path (iv_state iv))
      (filter (\<lambda>iv. iv_path_id iv = pid \<and> interval_holds (sn_root_path s) (sn_id s) iv) (db_intervals d)) = piece d s path pid"
    if c: "sn_status s = status_value COMPLETE"
    unfolding hit[symmetric] at if_P[OF c] map_map comp_def prod.case
      concat_filter_if[of "\<lambda>iv. iv_path_id iv = pid" "\<lambda>iv. sample_row_of d s path (iv_state iv)"] filter_filter
    by (simp only: conj_commute)
  show "map (\<lambda>dg. sample_row_of d s path (dg_state dg))
      (filter (\<lambda>dg. dg_snapshot_id dg = sn_id s \<and> dg_path_id dg = pid) (db_diagnostics d)) = piece d s path pid"
    if c: "sn_status s \<noteq> status_value COMPLETE"
    unfolding hit[symmetric] at if_not_P[OF c] map_map comp_def prod.case
      concat_filter_if[of "\<lambda>dg. dg_path_id dg = pid" "\<lambda>dg. sample_row_of d s path (dg_state dg)"] filter_filter
    by (rule refl)
qed

lemma candidate_ids_form:
  assumes ps: "paths_ok (db_paths d)"
  shows "candidate_ids d cands = concat (map (\<lambda>(rt, p). case path_id_of d p of None \<Rightarrow> [] | Some i \<Rightarrow> [(rt, i, p)]) cands)"
proof -
  have "filter (\<lambda>(_, q). q = p) (db_paths d) = (case path_id_of d p of None \<Rightarrow> [] | Some i \<Rightarrow> [(i, p)])" for p
  proof -
    have "distinct (map snd ps) \<Longrightarrow> filter (\<lambda>(_, q). q = p) ps
        = (case map_option fst (List.find (\<lambda>(_, q). q = p) ps) of None \<Rightarrow> [] | Some i \<Rightarrow> [(i, p)])" for ps :: "(int \<times> bytes) list"
    proof (induction ps)
      case (Cons x ps)
      obtain i q where x: "x = (i, q)" by fastforce
      show ?case
      proof (cases "q = p")
        case True
        then have "p \<notin> snd ` set ps" using Cons.prems by (auto simp: x)
        then have "filter (\<lambda>y. snd y = p) ps = []" by (rule filter_key_none)
        then show ?thesis using True by (simp add: x case_prod_unfold)
      next
        case False
        then show ?thesis using Cons by (simp add: x)
      qed
    qed simp
    then show ?thesis using ps by (simp add: path_id_of_def paths_ok_def)
  qed
  then show ?thesis unfolding candidate_ids_def
    by (intro arg_cong[where f = concat] map_cong) (auto split: option.split)
qed

lemma piece_for:
  "sn_root_path s = rt \<Longrightarrow> (case path_id_of d p of None \<Rightarrow> [] | Some i \<Rightarrow> piece d s p i) = path_rows_for d (rt, p) s"
  by (simp add: path_rows_for_def read_path_def piece_def split: option.split)

lemma candidate_rows_for:
  assumes ps: "paths_ok (db_paths d)" and dist: "distinct cands"
  shows "filter (\<lambda>r. sample_key r = k) (concat (map (\<lambda>(rt, pid, path). piece d s path pid)
      (filter (\<lambda>(rt, _). rt = sn_root_path s) (candidate_ids d cands)))) = (if k \<in> set cands then path_rows_for d k s else [])"
proof -
  have "concat (map (\<lambda>(rt, pid, path). piece d s path pid) (filter (\<lambda>(rt, _). rt = sn_root_path s) (candidate_ids d cands)))
      = concat (map (\<lambda>k. path_rows_for d k s) cands)"
    unfolding candidate_ids_form[OF ps]
  proof (induction cands)
    case (Cons c cands)
    obtain rt p where c: "c = (rt, p)" by fastforce
    have "concat (map (\<lambda>(rt, pid, path). piece d s path pid) (filter (\<lambda>(rt, _). rt = sn_root_path s)
        (case path_id_of d p of None \<Rightarrow> [] | Some i \<Rightarrow> [(rt, i, p)]))) = path_rows_for d c s"
      using piece_for[of s rt d p] by (cases "rt = sn_root_path s") (auto simp: c path_rows_for_def split: option.splits)
    then show ?case using Cons by (simp add: c)
  qed simp
  moreover have "filter (\<lambda>r. sample_key r = k) (path_rows_for d c s) = (if c = k then path_rows_for d k s else [])" for c
    using path_rows_for_key[of d c s] by (auto simp: filter_id_conv filter_empty_conv)
  then have "filter (\<lambda>r. sample_key r = k) (concat (map (\<lambda>k. path_rows_for d k s) cands)) = (if k \<in> set cands then path_rows_for d k s else [])"
    using dist by (induction cands) auto
  ultimately show ?thesis by simp
qed

subsection \<open>Both queries read the snapshots\<close>

abbreviation selected_rows :: "db \<Rightarrow> snapshot_record list \<Rightarrow> snapshot_row list" where
  "selected_rows d snaps \<equiv> filter (\<lambda>s. sn_id s \<in> sr_id ` set snaps) (db_snapshots d)"

lemma filter_concat_map: "filter P (concat (map F xs)) = concat (map (\<lambda>x. filter P (F x)) xs)"
  by (induction xs) auto

lemma all_sample_rows_of:
  assumes "store_inv d" and "paths_ok (db_paths d)"
  shows "mset (filter (\<lambda>r. sample_key r = k) (query_all_sample_rows d snaps)) = mset (concat (map (path_rows_for d k) (selected_rows d snaps)))"
  unfolding query_all_sample_rows_def mset_filter mset_sort
  unfolding mset_filter[symmetric] filter_concat_map[of _ _ "selected_rows d snaps"]
  by (simp only: all_rows_for[OF assms(2) snapshot_state_distinct[OF assms(1)]])

lemma mset_filter_parts: "mset (concat (map f (filter (\<lambda>x. P x \<and> Q x) xs))) + mset (concat (map f (filter (\<lambda>x. \<not> P x \<and> Q x) xs)))
    = mset (concat (map f (filter Q xs)))"
  by (induction xs) auto

lemma candidate_sample_rows:
  assumes inv: "store_inv d" and ne: "cands \<noteq> []"
  shows "mset (query_candidate_trend_sample_rows d snaps cands)
    = mset (concat (map (\<lambda>s. concat (map (\<lambda>(rt, pid, path). piece d s path pid)
        (filter (\<lambda>(rt, _). rt = sn_root_path s) (candidate_ids d cands)))) (selected_rows d snaps)))"
proof -
  let ?f = "\<lambda>s. concat (map (\<lambda>(rt, pid, path). piece d s path pid) (filter (\<lambda>(rt, _). rt = sn_root_path s) (candidate_ids d cands)))"
  have c: "candidate_complete_rows d snaps (candidate_ids d cands)
      = concat (map ?f (filter (\<lambda>s. sn_status s = status_value COMPLETE \<and> sn_id s \<in> sr_id ` set snaps) (db_snapshots d)))"
    unfolding candidate_complete_rows_def
    by (rule arg_cong[where f = concat], rule map_cong[OF refl], rule arg_cong[where f = concat], rule map_cong[OF refl])
      (clarsimp simp: table_pieces(1)[OF inv])
  have g: "candidate_diagnostic_rows d snaps (candidate_ids d cands)
      = concat (map ?f (filter (\<lambda>s. sn_status s \<noteq> status_value COMPLETE \<and> sn_id s \<in> sr_id ` set snaps) (db_snapshots d)))"
    unfolding candidate_diagnostic_rows_def
    by (rule arg_cong[where f = concat], rule map_cong[OF refl], rule arg_cong[where f = concat], rule map_cong[OF refl])
      (clarsimp simp: table_pieces(2)[OF inv])
  show ?thesis using ne
    by (simp only: query_candidate_trend_sample_rows_def if_False Let_def c g mset_sort mset_append mset_filter_parts)
qed

lemma candidate_sample_rows_of:
  assumes inv: "store_inv d" and ps: "paths_ok (db_paths d)" and dist: "distinct cands"
  shows "mset (filter (\<lambda>r. sample_key r = k) (query_candidate_trend_sample_rows d snaps cands))
    = (if k \<in> set cands then mset (concat (map (path_rows_for d k) (selected_rows d snaps))) else {#})"
proof (cases "cands = []")
  case False
  have "mset (filter (\<lambda>r. sample_key r = k) (query_candidate_trend_sample_rows d snaps cands))
      = mset (concat (map (\<lambda>s. if k \<in> set cands then path_rows_for d k s else []) (selected_rows d snaps)))"
    unfolding mset_filter candidate_sample_rows[OF inv False]
    unfolding mset_filter[symmetric] filter_concat_map[of _ _ "selected_rows d snaps"]
    by (simp only: candidate_rows_for[OF ps dist])
  then show ?thesis by (cases "k \<in> set cands") (simp_all add: concat_eq_Nil_conv)
qed (simp add: query_candidate_trend_sample_rows_def)

subsection \<open>The expected samples\<close>

text \<open>The stored size of a path in a snapshot as a sample.\<close>

definition trend_sample_at :: "db \<Rightarrow> bytes \<Rightarrow> snapshot_record \<Rightarrow> trend_sample option" where
  "trend_sample_at d p r =
     (case (read_path d (sr_id r) p, parse_finished_at_utc (sr_finished_at r)) of
        (Some st, Inr t) \<Rightarrow> Some \<lparr> ts_snapshot_id = sr_id r, ts_finished_at = t, ts_disk_bytes = ag_disk_bytes st,
                                ts_apparent_bytes = ag_apparent_bytes st \<rparr>
      | _ \<Rightarrow> None)"

definition expected_trend_samples :: "db \<Rightarrow> snapshot_record list \<Rightarrow> trend_key \<Rightarrow> trend_sample list" where
  "expected_trend_samples d snaps k = List.map_filter (trend_sample_at d (snd k)) (filter (\<lambda>r. sr_root_path r = fst k) snaps)"

text \<open>The analysis of the stored sizes, for a path that some selected snapshot of its root has.\<close>

definition expected_trend :: "float_ops \<Rightarrow> db \<Rightarrow> snapshot_record list \<Rightarrow> trend_key \<Rightarrow> trend_metrics option" where
  "expected_trend fl d snaps k =
     (let ss = expected_trend_samples d snaps k
      in if ss = [] then None
         else Some (analyze_trend fl ss (Some (int (length (filter (\<lambda>r. sr_root_path r = fst k) snaps))))))"

definition option_list :: "'a option \<Rightarrow> 'a list" where "option_list x = (case x of None \<Rightarrow> [] | Some y \<Rightarrow> [y])"

lemma map_filter_concat: "List.map_filter f xs = concat (map (\<lambda>x. option_list (f x)) xs)"
  by (induction xs) (auto simp: List.map_filter_def option_list_def)

lemma mset_concat_map_mset: "mset xs = mset ys \<Longrightarrow> mset (concat (map f xs)) = mset (concat (map f ys))"
proof -
  assume "mset xs = mset ys"
  then have "mset (map (\<lambda>x. mset (f x)) xs) = mset (map (\<lambda>x. mset (f x)) ys)" by (simp only: mset_map)
  then show ?thesis by (simp add: mset_concat sum_mset_sum_list[symmetric] comp_def)
qed

definition record_of :: "snapshot_row \<Rightarrow> snapshot_record" where
  "record_of s = (case pair_record s of Inr r \<Rightarrow> r)"

lemma selected_records:
  assumes ids: "distinct (map sn_id (db_snapshots d))" and sel: "select_trend_snapshots since d = Inr snaps"
  shows "mset (map record_of (selected_rows d snaps)) = mset snaps"
    and "s \<in> set (selected_rows d snaps) \<Longrightarrow> pair_record s = Inr (record_of s) \<and> record_of s \<in> set snaps"
proof -
  note facts = selected_facts[OF assms]
  have rec: "pair_record s = Inr (record_of s) \<and> record_of s \<in> set snaps" if s: "s \<in> set (selected_rows d snaps)" for s
  proof -
    from s obtain r where r: "r \<in> set snaps" "sn_id s = sr_id r" by auto
    from selected_stored[OF sel r(1)] obtain s' where s': "s' \<in> set (db_snapshots d)" "pair_record s' = Inr r"
      by (auto simp: stored_record_def)
    then have "s' = s" using ids s r(2) pair_record_fields(1)[OF s'(2)] by (auto simp: distinct_map dest: inj_onD)
    then show ?thesis using s'(2) r(1) by (simp add: record_of_def)
  qed
  show "s \<in> set (selected_rows d snaps) \<Longrightarrow> pair_record s = Inr (record_of s) \<and> record_of s \<in> set snaps" by (rule rec)
  have id: "sr_id (record_of s) = sn_id s" if "s \<in> set (selected_rows d snaps)" for s
    using rec[OF that] pair_record_fields(1) by blast
  have "map sr_id (map record_of (selected_rows d snaps)) = map sn_id (selected_rows d snaps)" using id by simp
  moreover have "distinct (map sn_id (selected_rows d snaps))" using ids by (rule distinct_map_filter)
  ultimately have "distinct (map sr_id (map record_of (selected_rows d snaps)))" by (simp only:)
  then have "distinct (map record_of (selected_rows d snaps))" by (simp only: distinct_map)
  moreover have "distinct snaps" using facts(1) by (simp only: distinct_map)
  moreover have "set (map record_of (selected_rows d snaps)) = set snaps"
  proof
    show "set (map record_of (selected_rows d snaps)) \<subseteq> set snaps" using rec by auto
    show "set snaps \<subseteq> set (map record_of (selected_rows d snaps))"
    proof
      fix r assume r: "r \<in> set snaps"
      from selected_stored[OF sel r] obtain s where s: "s \<in> set (db_snapshots d)" "pair_record s = Inr r" by (auto simp: stored_record_def)
      then have "s \<in> set (selected_rows d snaps)" "record_of s = r" using r pair_record_fields(1)[OF s(2)]
        by (auto simp: record_of_def intro: rev_image_eqI)
      then show "r \<in> set (map record_of (selected_rows d snaps))" by force
    qed
  qed
  ultimately show "mset (map record_of (selected_rows d snaps)) = mset snaps"
    by (simp only: set_eq_iff_mset_eq_distinct)
qed

lemma samples_of_rows:
  assumes ids: "distinct (map sn_id (db_snapshots d))" and sel: "select_trend_snapshots since d = Inr snaps"
  shows "mset (map row_sample (concat (map (path_rows_for d k) (selected_rows d snaps)))) = mset (expected_trend_samples d snaps k)"
proof -
  let ?h = "\<lambda>r. if sr_root_path r = fst k then option_list (trend_sample_at d (snd k) r) else []"
  have one: "map row_sample (path_rows_for d k s) = ?h (record_of s)" if s: "s \<in> set (selected_rows d snaps)" for s
  proof -
    note r = selected_records(2)[OF ids sel s]
    note f = pair_record_fields[OF conjunct1[OF r]]
    obtain t where "parse_finished_at_utc (sr_finished_at (record_of s)) = Inr t" using selected_facts(2)[OF ids sel] r by blast
    then show ?thesis using f
      by (simp add: path_rows_for_def trend_sample_at_def option_list_def row_sample_def row_time_def sample_row_of_def split: option.split)
  qed
  have "map row_sample (concat (map (path_rows_for d k) (selected_rows d snaps))) = concat (map ?h (map record_of (selected_rows d snaps)))"
    unfolding map_concat map_map comp_def using one by (intro arg_cong[where f = concat] map_cong) auto
  moreover have "concat (map ?h snaps) = expected_trend_samples d snaps k"
    unfolding expected_trend_samples_def map_filter_concat by (induction snaps) auto
  ultimately show ?thesis using mset_concat_map_mset[OF selected_records(1)[OF ids sel], of ?h] by simp
qed

subsection \<open>The trends\<close>

lemma expected_samples_distinct:
  assumes "distinct (map sr_id snaps)"
  shows "distinct (map (\<lambda>s. (ts_finished_at s, ts_snapshot_id s)) (expected_trend_samples d snaps k))"
proof -
  have id: "ts_snapshot_id x = sr_id r" if "trend_sample_at d p r = Some x" for p r x
    using that by (auto simp: trend_sample_at_def split: option.splits sum.splits)
  have "distinct (map sr_id rs) \<Longrightarrow> distinct (map ts_snapshot_id (List.map_filter (trend_sample_at d p) rs))
      \<and> ts_snapshot_id ` set (List.map_filter (trend_sample_at d p) rs) \<subseteq> sr_id ` set rs" for p rs
  proof (induction rs)
    case (Cons r rs)
    then show ?case using id[of p r] by (cases "trend_sample_at d p r") (auto simp: List.map_filter_simps)
  qed (simp add: List.map_filter_simps)
  moreover have "distinct (map sr_id (filter (\<lambda>r. sr_root_path r = fst k) snaps))" using assms by (rule distinct_map_filter)
  ultimately have "distinct (map ts_snapshot_id (expected_trend_samples d snaps k))" by (simp add: expected_trend_samples_def)
  then have "distinct (map snd (map (\<lambda>s. (ts_finished_at s, ts_snapshot_id s)) (expected_trend_samples d snaps k)))" by (simp add: comp_def)
  then show ?thesis by (simp only: distinct_map)
qed

lemma trends_of_rows:
  assumes ids: "distinct (map sn_id (db_snapshots d))" and sel: "select_trend_snapshots since d = Inr snaps"
    and rows: "\<And>k. mset (filter (\<lambda>r. sample_key r = k) rows)
      = (if k \<in> K then mset (concat (map (path_rows_for d k) (selected_rows d snaps))) else {#})"
  obtains trends where "path_trends_from_sample_rows fl rows snaps = Inr trends" and "distinct (map trend_key_of trends)"
    and "\<And>k m. (\<exists>t\<in>set trends. trend_key_of t = k \<and> pt_metrics t = m) \<longleftrightarrow> k \<in> K \<and> expected_trend fl d snaps k = Some m"
proof -
  let ?counts = "expected_sample_counts_by_root snaps"
  let ?rs = "\<lambda>k. filter (\<lambda>r. sample_key r = k) rows"
  have src: "\<exists>s\<in>set (selected_rows d snaps). r \<in> set (path_rows_for d (sample_key r) s)" if "r \<in> set rows" for r
  proof -
    have "r \<in> set (?rs (sample_key r))" using that by simp
    then have "r \<in># mset (?rs (sample_key r))" by (simp only: set_mset_mset)
    then have "r \<in># (if sample_key r \<in> K then mset (concat (map (path_rows_for d (sample_key r)) (selected_rows d snaps))) else {#})"
      by (simp only: rows)
    then show ?thesis by (cases "sample_key r \<in> K") auto
  qed
  have ok: "\<forall>r\<in>set rows. map_of ?counts (sa_root_path r) \<noteq> None \<and> (\<exists>t. parse_finished_at_utc (sa_finished_at r) = Inr t)"
  proof
    fix r assume "r \<in> set rows"
    from src[OF this] obtain s where s: "s \<in> set (selected_rows d snaps)" "r \<in> set (path_rows_for d (sample_key r) s)" by blast
    note rec = selected_records(2)[OF ids sel s(1)]
    note f = pair_record_fields[OF conjunct1[OF rec]]
    have r: "sa_root_path r = sr_root_path (record_of s)" "sa_finished_at r = sr_finished_at (record_of s)"
      using bspec[OF path_rows_for_fields s(2)] f by simp_all
    show "map_of ?counts (sa_root_path r) \<noteq> None \<and> (\<exists>t. parse_finished_at_utc (sa_finished_at r) = Inr t)"
      unfolding r using rec selected_facts(2)[OF ids sel] by (simp add: expected_counts)
  qed
  from path_trend_fold[OF ok] obtain accs where a: "fold_err (path_trend_step ?counts) [] rows = Inr accs" "distinct (map fst accs)"
    "\<And>k. map_of accs k = (if k \<in> sample_key ` set rows then Some (collected ?counts k (?rs k)) else None)" by blast
  define trends where "trends = map (path_trend_of fl \<circ> snd) accs"
  have mem: "(k, acc) \<in> set accs \<longleftrightarrow> k \<in> sample_key ` set rows \<and> acc = collected ?counts k (?rs k)" for k acc
    unfolding map_of_SomeD_iff[OF a(2), symmetric] a(3) by (auto split: if_split_asm)
  have key: "trend_key_of (path_trend_of fl acc) = k" if "(k, acc) \<in> set accs" for k acc
    using that unfolding mem by (auto simp: trend_key_of_def path_trend_of_def collected_fields)
  have "map trend_key_of trends = map fst accs" unfolding trends_def using key by (auto simp: comp_def)
  then have dist: "distinct (map trend_key_of trends)" using a(2) by simp
  have metrics: "pt_metrics (path_trend_of fl (collected ?counts k (?rs k)))
      = analyze_trend fl (map row_sample (?rs k)) (Some (the (map_of ?counts (fst k))))" for k
    by (simp add: path_trend_of_def collected_fields)
  have expected: "expected_trend fl d snaps k = Some m \<longleftrightarrow>
      k \<in> sample_key ` set rows \<and> m = pt_metrics (path_trend_of fl (collected ?counts k (?rs k)))" if K: "k \<in> K" for k m
  proof -
    have samples: "mset (map row_sample (?rs k)) = mset (expected_trend_samples d snaps k)"
    proof -
      have "mset (?rs k) = mset (concat (map (path_rows_for d k) (selected_rows d snaps)))" using rows[of k] K by simp
      then have "mset (map row_sample (?rs k)) = mset (map row_sample (concat (map (path_rows_for d k) (selected_rows d snaps))))"
        by (simp only: mset_map)
      then show ?thesis by (simp only: samples_of_rows[OF ids sel])
    qed
    have ne: "expected_trend_samples d snaps k = [] \<longleftrightarrow> k \<notin> sample_key ` set rows"
    proof -
      have "expected_trend_samples d snaps k = [] \<longleftrightarrow> ?rs k = []" using samples by (metis list.map_disc_iff mset_zero_iff)
      then show ?thesis by (auto simp: filter_empty_conv)
    qed
    show ?thesis
    proof (cases "k \<in> sample_key ` set rows")
      case True
      then obtain r where r: "r \<in> set rows" "k = sample_key r" by blast
      then have "map_of ?counts (fst k) \<noteq> None" using ok by (simp add: sample_key_def)
      then have n: "the (map_of ?counts (fst k)) = int (length (filter (\<lambda>r. sr_root_path r = fst k) snaps))"
        by (simp add: expected_counts split: if_split_asm)
      have "analyze_trend fl (expected_trend_samples d snaps k) e = analyze_trend fl (map row_sample (?rs k)) e" for e
        by (rule trend_order_irrelevant[OF samples[symmetric] expected_samples_distinct[OF selected_facts(1)[OF ids sel]]])
      then show ?thesis using True ne by (auto simp: expected_trend_def Let_def metrics n)
    next
      case False
      then show ?thesis using ne by (simp add: expected_trend_def Let_def)
    qed
  qed
  have outside: "k \<in> K" if k: "k \<in> sample_key ` set rows" for k
  proof (rule ccontr)
    assume "k \<notin> K"
    then have "?rs k = []" using rows[of k] by simp
    then show False using k by (auto simp: filter_empty_conv)
  qed
  show ?thesis
  proof (rule that)
    show "path_trends_from_sample_rows fl rows snaps = Inr trends"
      by (simp add: path_trends_from_sample_rows_def a(1) trends_def)
    show "distinct (map trend_key_of trends)" by (rule dist)
    fix k m
    have "(\<exists>t\<in>set trends. trend_key_of t = k \<and> pt_metrics t = m)
        \<longleftrightarrow> (\<exists>acc. (k, acc) \<in> set accs \<and> pt_metrics (path_trend_of fl acc) = m)"
    proof
      assume "\<exists>t\<in>set trends. trend_key_of t = k \<and> pt_metrics t = m"
      then obtain k' acc where a: "(k', acc) \<in> set accs" "trend_key_of (path_trend_of fl acc) = k" "pt_metrics (path_trend_of fl acc) = m"
        by (auto simp: trends_def)
      then have "k' = k" using key[OF a(1)] by simp
      then show "\<exists>acc. (k, acc) \<in> set accs \<and> pt_metrics (path_trend_of fl acc) = m" using a(1,3) by blast
    next
      assume "\<exists>acc. (k, acc) \<in> set accs \<and> pt_metrics (path_trend_of fl acc) = m"
      then obtain acc where a: "(k, acc) \<in> set accs" "pt_metrics (path_trend_of fl acc) = m" by blast
      have "path_trend_of fl acc \<in> set trends" using imageI[OF a(1), of "path_trend_of fl \<circ> snd"] by (simp add: trends_def)
      then show "\<exists>t\<in>set trends. trend_key_of t = k \<and> pt_metrics t = m" using key[OF a(1)] a(2) by (intro bexI conjI)
    qed
    also have "\<dots> \<longleftrightarrow> k \<in> sample_key ` set rows \<and> m = pt_metrics (path_trend_of fl (collected ?counts k (?rs k)))"
      unfolding mem by metis
    also have "\<dots> \<longleftrightarrow> k \<in> K \<and> expected_trend fl d snaps k = Some m"
      using expected[of k m] outside[of k] by (cases "k \<in> K"; cases "k \<in> sample_key ` set rows") simp_all
    finally show "(\<exists>t\<in>set trends. trend_key_of t = k \<and> pt_metrics t = m) \<longleftrightarrow> k \<in> K \<and> expected_trend fl d snaps k = Some m" .
  qed
qed

lemma trends_for_paths:
  assumes wf: "db_wf d" and sel: "select_trend_snapshots since d = Inr snaps" and ne: "snaps \<noteq> []"
  shows "\<exists>trends. query_path_trends_for_paths fl d since paths = Inr trends
    \<and> map (\<lambda>t. (trend_key_of t, pt_metrics t)) trends
      = List.map_filter (\<lambda>k. map_option (Pair k) (expected_trend fl d snaps k)) (dedupe_on id paths)"
proof -
  have inv: "store_inv d" "paths_ok (db_paths d)" and ids: "distinct (map sn_id (db_snapshots d))"
    using wf by (simp_all add: db_wf_def store_inv_def)
  let ?cands = "dedupe_on id paths"
  have dist: "distinct ?cands" using dedupe_on_distinct[of id paths] by simp
  obtain trends where t: "path_trends_from_sample_rows fl (query_candidate_trend_sample_rows d snaps ?cands) snaps = Inr trends"
    "distinct (map trend_key_of trends)"
    "\<And>k m. (\<exists>t\<in>set trends. trend_key_of t = k \<and> pt_metrics t = m) \<longleftrightarrow> k \<in> set ?cands \<and> expected_trend fl d snaps k = Some m"
    by (rule trends_of_rows[OF ids sel candidate_sample_rows_of[OF inv dist], where fl = fl]) (rule that)
  let ?dict = "dict_of (map (\<lambda>t. (trend_key_of t, t)) trends)"
  have dict: "map_of ?dict k = Some t \<longleftrightarrow> t \<in> set trends \<and> trend_key_of t = k" for k t
    using map_of_distinct_dict[of "map (\<lambda>t. (trend_key_of t, t)) trends" k t] t(2) by (auto simp: comp_def)
  have one: "map_option (\<lambda>t. (trend_key_of t, pt_metrics t)) (map_of ?dict k) = map_option (Pair k) (expected_trend fl d snaps k)"
    if k: "k \<in> set ?cands" for k
  proof (cases "map_of ?dict k")
    case None
    then have "expected_trend fl d snaps k = None" using t(3)[of k] dict[of k] k by (cases "expected_trend fl d snaps k") auto
    then show ?thesis using None by simp
  next
    case (Some x)
    then have x: "x \<in> set trends" "trend_key_of x = k" using dict by auto
    then have "expected_trend fl d snaps k = Some (pt_metrics x)" using t(3)[of k "pt_metrics x"] by blast
    then show ?thesis using Some x(2) by simp
  qed
  have "map (\<lambda>t. (trend_key_of t, pt_metrics t)) (List.map_filter (map_of ?dict) ks)
      = List.map_filter (\<lambda>k. map_option (Pair k) (expected_trend fl d snaps k)) ks" if "set ks \<subseteq> set ?cands" for ks
    using that
  proof (induction ks)
    case (Cons k ks)
    have k: "k \<in> set ?cands" using Cons.prems by (simp only: list.set(2) insert_subset)
    show ?case using Cons one[OF k]
      by (cases "map_of ?dict k"; cases "expected_trend fl d snaps k") (simp_all add: List.map_filter_simps)
  qed (simp add: List.map_filter_simps)
  then show ?thesis
    by (simp add: query_path_trends_for_paths_def sel ne query_trend_sample_rows_def t(1) Let_def)
qed

lemma trends_of_all_paths:
  assumes wf: "db_wf d" and sel: "select_trend_snapshots since d = Inr snaps" and ne: "snaps \<noteq> []" and l: "1 \<le> limit"
  shows "\<exists>trends. query_path_trends fl d since limit None = Inr (py_prefix limit (sort_key path_trend_order trends))
    \<and> distinct (map trend_key_of trends)
    \<and> (\<forall>k m. (\<exists>t\<in>set trends. trend_key_of t = k \<and> pt_metrics t = m) \<longleftrightarrow> expected_trend fl d snaps k = Some m)"
proof -
  have inv: "store_inv d" "paths_ok (db_paths d)" and ids: "distinct (map sn_id (db_snapshots d))"
    using wf by (simp_all add: db_wf_def store_inv_def)
  have rows: "mset (filter (\<lambda>r. sample_key r = k) (query_all_sample_rows d snaps))
      = (if k \<in> UNIV then mset (concat (map (path_rows_for d k) (selected_rows d snaps))) else {#})" for k
    by (simp only: UNIV_I if_True all_sample_rows_of[OF inv])
  obtain trends where t: "path_trends_from_sample_rows fl (query_all_sample_rows d snaps) snaps = Inr trends"
    "distinct (map trend_key_of trends)"
    "\<And>k m. (\<exists>t\<in>set trends. trend_key_of t = k \<and> pt_metrics t = m) \<longleftrightarrow> k \<in> UNIV \<and> expected_trend fl d snaps k = Some m"
    by (rule trends_of_rows[OF ids sel rows, where fl = fl]) (rule that)
  have "query_path_trends fl d since limit None = Inr (py_prefix limit (sort_key path_trend_order trends))"
    using l by (simp add: query_path_trends_def sel ne query_trend_sample_rows_def t(1))
  then show ?thesis using t(2,3) by blast
qed

text \<open>
  C30: The two ways of reading trends agree with the stored snapshots, and so with each other.  Asked
  for chosen paths, the report gives in their order exactly the paths that some selected snapshot of
  their root has, each with the analysis of its stored sizes; the report over all paths shows the first
  of the same trends, each once, in the order of growth.  Neither query depends on the order of rows or
  on the other paths, and no error escapes.
\<close>

theorem path_trends_read_snapshots:
  assumes "db_wf d" and "select_trend_snapshots since d = Inr snaps" and "snaps \<noteq> []" and "1 \<le> limit"
  shows "(\<exists>trends. query_path_trends_for_paths fl d since paths = Inr trends
      \<and> map (\<lambda>t. (trend_key_of t, pt_metrics t)) trends
        = List.map_filter (\<lambda>k. map_option (Pair k) (expected_trend fl d snaps k)) (dedupe_on id paths))
    \<and> (\<exists>trends. query_path_trends fl d since limit None = Inr (py_prefix limit (sort_key path_trend_order trends))
      \<and> distinct (map trend_key_of trends)
      \<and> (\<forall>k m. (\<exists>t\<in>set trends. trend_key_of t = k \<and> pt_metrics t = m) \<longleftrightarrow> expected_trend fl d snaps k = Some m))"
  using trends_for_paths[OF assms(1-3)] trends_of_all_paths[OF assms] by blast

definition sample_trend_snapshots :: "snapshot_record list" where
  "sample_trend_snapshots = (case select_trend_snapshots ''2d'' diff_db of Inr r \<Rightarrow> r)"

lemma sample_trend_snapshots_ok:
  "select_trend_snapshots ''2d'' diff_db = Inr sample_trend_snapshots" "sample_trend_snapshots \<noteq> []"
  by code_simp+

lemma path_trends_read_snapshots_witness:
  "\<exists>trends. query_path_trends_for_paths exact_floats diff_db ''2d'' [(''/r'', ''/r/b''), (''/r'', ''/no''), (''/r'', ''/r/b'')] = Inr trends
     \<and> map (\<lambda>t. (trend_key_of t, pt_metrics t)) trends
       = List.map_filter (\<lambda>k. map_option (Pair k) (expected_trend exact_floats diff_db sample_trend_snapshots k))
           (dedupe_on id [(''/r'', ''/r/b''), (''/r'', ''/no''), (''/r'', ''/r/b'')])"
  by (rule path_trends_read_snapshots[OF diff_db_ok(1) sample_trend_snapshots_ok, of 1, THEN conjunct1]) simp

subsection \<open>File systems with several roots\<close>

text \<open>
  Two roots on one file system, \<open>/a\<close> on the first and third day and \<open>/b\<close> on the second.  Ordering by root
  first makes the second day the end of the series.
\<close>

definition shared_usage :: "int \<Rightarrow> int \<Rightarrow> snapshot_filesystem_usage" where
  "shared_usage sid used = \<lparr> fu_snapshot_id = sid, fu_mount_id = 1, fu_major_minor = ''8:1'', fu_root = ''/'', fu_mount_point = ''/'',
     fu_filesystem_type = ''ext4'', fu_mount_source = ''/dev/sda1'', fu_total_bytes = Some 100, fu_used_bytes = Some used,
     fu_free_bytes = Some (100 - used), fu_available_bytes = Some (100 - used), fu_capture_error = None \<rparr>"

definition shared_db :: db where
  "shared_db = empty_db\<lparr>
     db_snapshots := map (\<lambda>(i, t, r). \<lparr> sn_id = i, sn_started_at = t, sn_finished_at = Some t, sn_root_path = r,
         sn_status = ''complete'', sn_notes = None, sn_error = None \<rparr>)
       [(1, ''2024-01-01T00:00:00Z'', ''/a''), (2, ''2024-01-02T00:00:00Z'', ''/b''), (3, ''2024-01-03T00:00:00Z'', ''/a'')],
     db_filesystems := map (\<lambda>(i, u). \<lparr> fy_usage = shared_usage i u, fy_created_at = [] \<rparr>) [(1, 10), (2, 90), (3, 20)] \<rparr>"

lemma pressure_not_chronological:
  "map_sum id (map (\<lambda>t. (fp_snapshot_ids t, fp_start_used_bytes t, fp_end_used_bytes t, fp_used_bytes_delta t)))
     (query_filesystem_pressure_trends shared_db ''7d'' 5) = Inr [([1, 2, 3], Some 10, Some 90, Some 80)]"
  by code_simp

end
