(* ===== verification/Diagnostics_Proofs.thy ===== *)
theory Diagnostics_Proofs
  imports Pressure_Summary
begin

text \<open>
  What the df comparison and the summary say: the figures of a section add up, a deleted file is
  suspected only on complete evidence, and the summary, which decides again from the finished
  section, suspects exactly the same file systems.
\<close>

subsection \<open>Partial evidence of a domain\<close>

definition evidence_ok :: "domain_accumulator \<Rightarrow> bool" where
  "evidence_ok a \<longleftrightarrow> finite (ac_partial_snapshot_ids a) \<and> finite (ac_snapshot_statuses a)
     \<and> ((\<exists>s\<in>ac_snapshot_statuses a. s \<noteq> ''complete'') \<longleftrightarrow> ac_partial_snapshot_ids a \<noteq> {})"

definition all_evidence :: "accumulators \<Rightarrow> bool" where
  "all_evidence accs \<longleftrightarrow> (\<forall>(k, a)\<in>set accs. evidence_ok a)"

lemma update_evidence: "all_evidence accs \<Longrightarrow> evidence_ok v \<Longrightarrow> all_evidence (AList.update k v accs)"
  by (induction accs) (auto simp: all_evidence_def)

lemma at_domain_evidence:
  assumes "\<And>a. evidence_ok a \<Longrightarrow> evidence_ok (f a)" and "all_evidence accs"
  shows "all_evidence (at_domain m f accs)"
proof -
  have "evidence_ok (dict_get accs (domain_key m) (new_accumulator m))"
  proof (cases "map_of accs (domain_key m)")
    case None
    then show ?thesis by (simp add: dict_get_def evidence_ok_def new_accumulator_def)
  next
    case (Some a)
    then show ?thesis using assms(2) map_of_SomeD[OF Some] by (auto simp: dict_get_def all_evidence_def)
  qed
  then show ?thesis unfolding at_domain_def by (intro update_evidence[OF assms(2)] assms(1))
qed

lemma evidence_keep:
  "evidence_ok a \<Longrightarrow> evidence_ok (note_skipped row a)" "evidence_ok a \<Longrightarrow> evidence_ok (take_off row a)"
  "evidence_ok a \<Longrightarrow> evidence_ok (add_unknown n a)"
  "evidence_ok a \<Longrightarrow> evidence_ok (a\<lparr> ac_indexed_visible_path_count := c a \<rparr>)"
  by (simp_all add: evidence_ok_def note_skipped_def take_off_def add_unknown_def)

lemma evidence_boundary: "evidence_ok a \<Longrightarrow> evidence_ok (count_boundary snapshot m row a)"
  by (cases "sr_status snapshot") (auto simp: evidence_ok_def count_boundary_def)

lemma boundary_evidence:
  assumes "all_evidence accs"
  shows "all_evidence (boundary_step snapshot rows domain accs pr)"
proof (cases pr)
  case (Pair path row)
  show ?thesis
  proof (cases "domain path")
    case None
    then show ?thesis using assms by (simp add: Pair boundary_step_def)
  next
    case (Some m)
    have s: "all_evidence (at_domain m (note_skipped row) accs)"
      by (rule at_domain_evidence[OF evidence_keep(1) assms])
    have b: "all_evidence (at_domain m (count_boundary snapshot m row) (at_domain m (note_skipped row) accs))"
      by (rule at_domain_evidence[OF evidence_boundary s])
    have "all_evidence (at_domain am (take_off row) (at_domain m (count_boundary snapshot m row) (at_domain m (note_skipped row) accs)))" for am
      by (rule at_domain_evidence[OF evidence_keep(2) b])
    then show ?thesis using s b by (simp add: Pair boundary_step_def Some Let_def split: option.split)
  qed
qed

lemma foldl_keeps: "(\<And>s x. P s \<Longrightarrow> P (f s x)) \<Longrightarrow> P s \<Longrightarrow> P (foldl f s xs)"
  by (induction xs arbitrary: s) auto

lemma accumulate_evidence:
  assumes "all_evidence accs"
  shows "all_evidence (accumulate_storage_domain_totals d accs snapshot)"
proof -
  let ?ok = all_evidence
  have visible: "?ok accs \<Longrightarrow> ?ok (visible_step dm accs p)" for accs dm p
    unfolding visible_step_def
    by (cases "dm p") (auto intro: at_domain_evidence[OF evidence_keep(4)[where c = "\<lambda>a. ac_indexed_visible_path_count a + 1"]])
  have unknown: "?ok (count_unknown rp ps dm accs)" if ok: "?ok accs" for accs rp ps dm
  proof -
    have "?ok (at_domain m (add_unknown n) accs)" for m n by (rule at_domain_evidence[OF evidence_keep(3) ok])
    moreover have "?ok (AList.update k (add_unknown n a) accs)" if "map_of accs k = Some a" for k n a
    proof -
      have "evidence_ok a" using ok map_of_SomeD[OF that] by (auto simp: all_evidence_def)
      then show ?thesis by (intro update_evidence[OF ok] evidence_keep(3))
    qed
    ultimately show ?thesis using ok by (simp add: count_unknown_def Let_def split: option.split)
  qed
  show ?thesis
    unfolding accumulate_storage_domain_totals_def Let_def
    by (intro unknown foldl_keeps[where P = ?ok] visible boundary_evidence assms)
qed

definition domain_consistent :: "indexed_storage_domain_total \<Rightarrow> bool" where
  "domain_consistent t \<longleftrightarrow> 0 \<le> sd_indexed_visible_disk_bytes t
     \<and> (sd_partial_snapshot_count t > 0 \<longleftrightarrow> (\<exists>s\<in>set (sd_snapshot_statuses t). s \<noteq> ''complete''))
     \<and> gl_mount_point (sd_storage_domain t) \<noteq> None"

lemma domains_consistent:
  assumes "query_indexed_storage_domain_totals selector d = Inr domains"
  shows "\<forall>t\<in>set domains. domain_consistent t"
proof -
  obtain snapshots where dom: "domains = map to_total (sort_key (\<lambda>a. (- ac_disk_bytes a, domain_key (ac_match a)))
      (map snd (foldl (accumulate_storage_domain_totals d) [] snapshots)))"
    using assms by (auto simp: query_indexed_storage_domain_totals_def map_sum_Inr)
  define accs where "accs = foldl (accumulate_storage_domain_totals d) [] snapshots"
  have e: "all_evidence accs" unfolding accs_def
    by (rule foldl_keeps[where P = all_evidence]) (rule accumulate_evidence, assumption, simp add: all_evidence_def)
  have c: "domain_consistent (to_total a)" if "evidence_ok a" for a
  proof -
    note e' = that[unfolded evidence_ok_def]
    note f = e'[THEN conjunct1] e'[THEN conjunct2, THEN conjunct1] and i = e'[THEN conjunct2, THEN conjunct2]
    have "sd_partial_snapshot_count (to_total a) > 0 \<longleftrightarrow> ac_partial_snapshot_ids a \<noteq> {}"
      using f(1) by (simp add: to_total_def Let_def card_gt_0_iff)
    moreover have "set (sd_snapshot_statuses (to_total a)) = ac_snapshot_statuses a" using f(2) by (simp add: to_total_def Let_def)
    moreover have "0 \<le> sd_indexed_visible_disk_bytes (to_total a)" "gl_mount_point (sd_storage_domain (to_total a)) \<noteq> None"
      by (simp_all add: to_total_def Let_def storage_domain_label_def)
    ultimately show ?thesis unfolding domain_consistent_def by (simp only: i simp_thms)
  qed
  have "\<forall>a\<in>set (map snd accs). evidence_ok a" using e by (auto simp: all_evidence_def)
  then have "\<forall>a\<in>set (map snd accs). domain_consistent (to_total a)" using c by blast
  then show ?thesis unfolding dom accs_def[symmetric] by (simp only: set_map set_sort ball_simps)
qed

subsection \<open>Sections of the df comparison\<close>

definition deleted_open_suspected :: "df_index_section \<Rightarrow> bool" where
  "deleted_open_suspected s \<longleftrightarrow> ''deleted_open_file_suspected'' \<in> set (di_likely_reasons s)"

text \<open>
  What a section must say of its domain.  The suspicion needs a remainder of a gigabyte and a twentieth
  of what is used, roots that cover the file system, only complete snapshots and no skipped path.
\<close>

definition df_section_ok :: "float_ops \<Rightarrow> df_index_providers \<Rightarrow> indexed_storage_domain_total \<Rightarrow> df_index_section \<Rightarrow> bool" where
  "df_section_ok fl providers t s \<longleftrightarrow>
     di_storage_domain s = sd_storage_domain t \<and> di_indexed_visible_disk_bytes s = sd_indexed_visible_disk_bytes t
   \<and> (case pv_stat_provider providers (the (gl_mount_point (sd_storage_domain t))) of
        Inl _ \<Rightarrow> \<not> di_filesystem_stat_available s \<and> di_unattributed_bytes s = None \<and> di_over_indexed_bytes s = None
                  \<and> di_likely_reasons s = []
      | Inr stat \<Rightarrow>
          (let used = (f_blocks stat - f_bfree stat) * f_frsize stat; indexed = sd_indexed_visible_disk_bytes t;
               aliased = is_overlay_mount_accounting_alias t
           in di_filesystem_stat_available s \<and> di_df_used_bytes s = Some used
            \<and> (\<exists>u v. di_unattributed_bytes s = Some u \<and> di_over_indexed_bytes s = Some v \<and> 0 \<le> u \<and> 0 \<le> v \<and> (u = 0 \<or> v = 0)
                 \<and> u - v = (if aliased then 0 else used - indexed))
            \<and> (deleted_open_suspected s \<longleftrightarrow> \<not> aliased \<and> 1024 ^ 3 \<le> used - indexed
                 \<and> fl_round fl (5 / 100) \<le> fl_round fl (of_int (used - indexed) / of_int used)
                 \<and> \<not> scope_extends_of providers t \<and> set (sd_snapshot_statuses t) \<subseteq> {''complete''} \<and> sd_skipped_paths t = [])))"

lemma classify_suspects:
  "''deleted_open_file_suspected'' \<in> set (fst (classify_mismatch fl u r sc part n)) \<longleftrightarrow> is_material_mismatch fl u r \<and> \<not> sc \<and> \<not> part"
  "fst (classify_mismatch fl u r sc part n) \<noteq> [] \<longleftrightarrow> is_material_mismatch fl u r"
  by (auto simp: classify_mismatch_def Let_def)

lemma material_mismatch:
  assumes "0 \<le> indexed"
  shows "is_material_mismatch fl (max (used - indexed) 0) (ratio_of fl (max (used - indexed) 0) (max 0 used)) \<longleftrightarrow>
    1024 ^ 3 \<le> used - indexed \<and> fl_round fl (5 / 100) \<le> fl_round fl (of_int (used - indexed) / of_int used)"
proof (cases "1024 ^ 3 \<le> used - indexed")
  case True
  then have "0 < used" "max (used - indexed) 0 = used - indexed" "max 0 used = used" using assms by simp_all
  then show ?thesis using True by (simp add: is_material_mismatch_def MISMATCH_MIN_BYTES_def MISMATCH_MIN_RATIO_def ratio_of_def)
next
  case False
  then have "\<not> MISMATCH_MIN_BYTES \<le> max (used - indexed) 0" by (simp add: MISMATCH_MIN_BYTES_def max_def)
  then show ?thesis using False by (simp add: is_material_mismatch_def)
qed

lemma df_section:
  assumes c: "domain_consistent t" and b: "build_df_section fl providers gen t = Inr (s, ws)"
  shows "df_section_ok fl providers t s"
proof -
  obtain mp where mp: "gl_mount_point (sd_storage_domain t) = Some mp" using c by (auto simp: domain_consistent_def)
  then have probe: "probe_path t = Some mp" by (simp add: probe_path_def)
  let ?sc = "scope_extends_of providers t"
  show ?thesis
  proof (cases "pv_stat_provider providers mp")
    case (Inl e)
    then show ?thesis using b mp by (auto simp: build_df_section_def probe df_section_ok_def base_section_def Let_def split: prod.splits)
  next
    case (Inr stat)
    let ?used = "(f_blocks stat - f_bfree stat) * f_frsize stat" and ?indexed = "sd_indexed_visible_disk_bytes t"
    let ?aliased = "is_overlay_mount_accounting_alias t"
    let ?u = "if ?aliased then 0 else max (?used - ?indexed) 0"
    let ?part = "sd_partial_snapshot_count t > 0 \<or> sd_skipped_paths t \<noteq> []"
    let ?cl = "classify_mismatch fl ?u (ratio_of fl ?u (max 0 ?used)) ?sc ?part (sd_unknown_mount_count t)"
    have used: "us_used_bytes (filesystem_usage_of stat) = ?used" by (simp add: filesystem_usage_of_def Let_def left_diff_distrib)
    from b obtain codes base where s: "s = stat_section fl t stat ?sc codes base"
      and base: "di_storage_domain base = sd_storage_domain t" "di_indexed_visible_disk_bytes base = ?indexed"
      by (auto simp: build_df_section_def probe Inr base_section_def Let_def split: prod.splits)
    have fields: "di_storage_domain s = sd_storage_domain t" "di_indexed_visible_disk_bytes s = ?indexed"
      "di_filesystem_stat_available s" "di_df_used_bytes s = Some ?used" "di_unattributed_bytes s = Some ?u"
      "di_over_indexed_bytes s = Some (if ?aliased then 0 else max (?indexed - ?used) 0)" "di_likely_reasons s = fst ?cl"
      using base by (simp_all add: s stat_section_def used Let_def case_prod_unfold)
    have part: "?part \<longleftrightarrow> \<not> (set (sd_snapshot_statuses t) \<subseteq> {''complete''} \<and> sd_skipped_paths t = [])"
      using c by (auto simp: domain_consistent_def)
    have material: "is_material_mismatch fl ?u (ratio_of fl ?u (max 0 ?used)) \<longleftrightarrow> \<not> ?aliased \<and> 1024 ^ 3 \<le> ?used - ?indexed
        \<and> fl_round fl (5 / 100) \<le> fl_round fl (of_int (?used - ?indexed) / of_int ?used)"
    proof (cases ?aliased)
      case True
      then show ?thesis by (simp add: is_material_mismatch_def MISMATCH_MIN_BYTES_def)
    next
      case False
      then show ?thesis using material_mismatch[of ?indexed fl ?used] c by (simp add: domain_consistent_def)
    qed
    have susp: "deleted_open_suspected s \<longleftrightarrow> \<not> ?aliased \<and> 1024 ^ 3 \<le> ?used - ?indexed
        \<and> fl_round fl (5 / 100) \<le> fl_round fl (of_int (?used - ?indexed) / of_int ?used)
        \<and> \<not> ?sc \<and> set (sd_snapshot_statuses t) \<subseteq> {''complete''} \<and> sd_skipped_paths t = []"
      unfolding deleted_open_suspected_def fields(7) classify_suspects material part by blast
    have "\<exists>u v. di_unattributed_bytes s = Some u \<and> di_over_indexed_bytes s = Some v \<and> 0 \<le> u \<and> 0 \<le> v \<and> (u = 0 \<or> v = 0)
        \<and> u - v = (if ?aliased then 0 else ?used - ?indexed)"
      unfolding fields by auto
    then show ?thesis unfolding df_section_ok_def Let_def mp option.sel Inr sum.case
      using fields(1-4) susp by (intro conjI)
  qed
qed

lemma order_sections_props:
  "mset (order_sections sections) = mset sections"
  "sorted_wrt (\<lambda>a b. section_actionability b \<le> section_actionability a) (order_sections sections)"
proof -
  show "mset (order_sections sections) = mset sections" by (simp add: order_sections_def)
  have "sorted (map section_actionability (rev (order_sections sections)))"
    unfolding order_sections_def by (rule sorted_sort_key_rev)
  then show "sorted_wrt (\<lambda>a b. section_actionability b \<le> section_actionability a) (order_sections sections)"
    by (simp add: sorted_map sorted_wrt_rev)
qed

lemma length_order_sections: "length (order_sections sections) = length sections"
  by (simp add: order_sections_def)

lemma built_sections:
  assumes "build_df_index_diagnostic fl d selector limit providers = Inr diag"
  obtains domains sections where "query_indexed_storage_domain_totals selector d = Inr domains"
    and "list_all2 (df_section_ok fl providers) domains sections"
    and "list_all2 (\<lambda>t s. \<exists>gen ws. build_df_section fl providers gen t = Inr (s, ws)) domains sections"
    and "dd_filesystems diag = py_prefix limit (order_sections sections)" and "dd_total_filesystem_count diag = int (length sections)"
proof -
  let ?gen = "safe_parse (Some (pv_generated_at_provider providers))"
  from assms obtain domains built where q: "query_indexed_storage_domain_totals selector d = Inr domains"
    and m: "map_err (build_df_section fl providers ?gen) domains = Inr built"
    and r: "dd_filesystems diag = py_prefix limit (order_sections (map fst built))"
      "dd_total_filesystem_count diag = int (length (map fst built))"
    by (auto simp: build_df_index_diagnostic_def Let_def length_order_sections split: sum.splits)
  have b: "list_all2 (\<lambda>t p. build_df_section fl providers ?gen t = Inr p) domains built" using m by (simp add: map_err_Inr)
  then have b': "list_all2 (\<lambda>t s. \<exists>gen ws. build_df_section fl providers gen t = Inr (s, ws)) domains (map fst built)"
    unfolding list_all2_map2 by (rule list_all2_mono) (metis prod.collapse)
  have ok: "df_section_ok fl providers t s" if "t \<in> set domains" "\<exists>gen ws. build_df_section fl providers gen t = Inr (s, ws)" for t s
    using that domains_consistent[OF q] df_section by blast
  from b' have "list_all2 (df_section_ok fl providers) domains (map fst built)"
    by (rule list.rel_mono_strong) (rule ok)
  then show ?thesis by (rule that[OF q _ b' r])
qed


definition sample_providers :: df_index_providers where
  "sample_providers = \<lparr> pv_stat_provider = (\<lambda>p. Inr \<lparr> f_bsize = 4096, f_frsize = 4096, f_blocks = 10 ^ 7, f_bfree = 10 ^ 6, f_bavail = 10 ^ 6 \<rparr>),
     pv_generated_at_provider = ''2024-01-04T00:00:00Z'', pv_filesystem_scope_provider = Some (\<lambda>_. False) \<rparr>"

definition sample_df_index :: df_index_diagnostic where
  "sample_df_index = (case build_df_index_diagnostic exact_floats mounted_db ''latest'' 5 sample_providers of Inr r \<Rightarrow> r)"

lemma sample_df_index_facts:
  "build_df_index_diagnostic exact_floats mounted_db ''latest'' 5 sample_providers = Inr sample_df_index"
  "dd_total_filesystem_count sample_df_index = 2" "list_ex deleted_open_suspected (dd_filesystems sample_df_index)"
proof -
  have "case build_df_index_diagnostic exact_floats mounted_db ''latest'' 5 sample_providers of Inl _ \<Rightarrow> False
    | Inr diag \<Rightarrow> dd_total_filesystem_count diag = 2 \<and> list_ex deleted_open_suspected (dd_filesystems diag)"
    by code_simp
  then show "build_df_index_diagnostic exact_floats mounted_db ''latest'' 5 sample_providers = Inr sample_df_index"
    "dd_total_filesystem_count sample_df_index = 2" "list_ex deleted_open_suspected (dd_filesystems sample_df_index)"
    unfolding sample_df_index_def
    by (cases "build_df_index_diagnostic exact_floats mounted_db ''latest'' 5 sample_providers"; simp)+
qed


subsection \<open>The summary decides the same\<close>

lemma df_section_available:
  assumes c: "domain_consistent t" and b: "build_df_section fl providers gen t = Inr (s, ws)" and av: "di_filesystem_stat_available s"
  obtains u ratio part where "di_unattributed_bytes s = Some u" and "di_unattributed_ratio s = ratio"
    and "ratio = None \<Longrightarrow> u = 0"
    and "di_likely_reasons s = fst (classify_mismatch fl u ratio (di_filesystem_scope_extends_beyond_indexed_roots s) part
           (di_unknown_mount_count s))"
    and "evidence_is_partial s = part"
proof -
  obtain mp where mp: "gl_mount_point (sd_storage_domain t) = Some mp" using c by (auto simp: domain_consistent_def)
  then have probe: "probe_path t = Some mp" by (simp add: probe_path_def)
  let ?sc = "scope_extends_of providers t"
  obtain stat where stat: "pv_stat_provider providers mp = Inr stat"
  proof (cases "pv_stat_provider providers mp")
    case (Inl e)
    then have False using b av by (auto simp: build_df_section_def probe base_section_def Let_def split: prod.splits)
    then show ?thesis ..
  qed
  let ?used = "us_used_bytes (filesystem_usage_of stat)" and ?indexed = "sd_indexed_visible_disk_bytes t"
  let ?u = "if is_overlay_mount_accounting_alias t then 0 else max (?used - ?indexed) 0"
  let ?ratio = "ratio_of fl ?u (max 0 ?used)"
  let ?part = "sd_partial_snapshot_count t > 0 \<or> sd_skipped_paths t \<noteq> []"
  let ?codes = "fst (domain_accounting t) @ (if ?sc then [''indexed_roots_are_subtrees_of_filesystem''] else [])"
  let ?base = "base_section t (max_snapshot_age_seconds fl t gen) ?sc"
  have s: "s = stat_section fl t stat ?sc ?codes ?base"
    using b by (auto simp: build_df_section_def probe stat Let_def split: prod.splits)
  have "''indexed_paths_skipped'' \<in> set (di_coverage_reason_codes s) \<longleftrightarrow> sd_skipped_paths t \<noteq> []"
    by (simp add: s stat_section_def Let_def case_prod_unfold domain_accounting_def)
  moreover have "di_partial_snapshot_count s = sd_partial_snapshot_count t" "di_snapshot_statuses s = sd_snapshot_statuses t"
    by (simp_all add: s stat_section_def base_section_def Let_def case_prod_unfold)
  ultimately have part: "evidence_is_partial s = ?part"
    using c by (auto simp: evidence_is_partial_def domain_consistent_def list_ex_iff)
  show ?thesis
  proof (rule that[of ?u ?ratio ?part])
    show "di_unattributed_bytes s = Some ?u" "di_unattributed_ratio s = ?ratio"
      "di_likely_reasons s = fst (classify_mismatch fl ?u ?ratio (di_filesystem_scope_extends_beyond_indexed_roots s) ?part
           (di_unknown_mount_count s))"
      by (simp_all add: s stat_section_def base_section_def Let_def case_prod_unfold)
    show "evidence_is_partial s = ?part" by (rule part)
    show "?u = 0" if "?ratio = None"
    proof -
      have "?used \<le> 0" using that by (auto simp: ratio_of_def split: if_split_asm)
      then show ?thesis using c by (auto simp: domain_consistent_def)
    qed
  qed
qed

definition suspects :: "diagnostic_hint list \<Rightarrow> bool" where
  "suspects hints \<longleftrightarrow> ''deleted_open_file_suspected'' \<in> dh_code ` set hints"

lemma unattributed_codes:
  "map dh_code (sb_hints (append_unattributed_section key s u context (append_live_usage_facts s ratio empty_build_state)))
   = [''unattributed_usage''] @ (if di_filesystem_scope_extends_beyond_indexed_roots s
        then [''filesystem_scope_extends_beyond_indexed_roots''] else [])
     @ (if evidence_is_partial s then [''partial_snapshot_evidence''] else [])
     @ (if (\<not> di_filesystem_scope_extends_beyond_indexed_roots s \<and> \<not> evidence_is_partial s) \<or> deleted_open_evidence context
        then [''deleted_open_file_suspected''] else [])"
proof -
  have hints: "map dh_code (sb_hints (append_to_state f c h st)) = map dh_code (sb_hints st) @ map dh_code h" for f c h st
    by (simp add: append_to_state_def)
  have code: "dh_code (hint_of c m n k) = c" for c m n k by (simp add: hint_of_def)
  have start: "map dh_code (sb_hints (append_live_usage_facts s ratio empty_build_state)) = []"
    by (simp add: append_live_usage_facts_def hints empty_build_state_def)
  show ?thesis
    unfolding append_unattributed_section_def Let_def
    by (cases "di_filesystem_scope_extends_beyond_indexed_roots s"; cases "evidence_is_partial s"; cases "deleted_open_evidence context")
      (simp_all only: if_True if_False simp_thms hints start code list.map append.simps append_assoc append_Nil2)
qed

lemma findings_suspect:
  assumes c: "domain_consistent t" and b: "build_df_section fl providers gen t = Inr (s, ws)" and e: "\<not> deleted_open_evidence context"
  shows "suspects (sb_hints (section_findings fl context s)) \<longleftrightarrow> deleted_open_suspected s"
proof (cases "di_filesystem_stat_available s")
  case False
  then have "di_likely_reasons s = []"
    using df_section[OF c b] by (auto simp: df_section_ok_def Let_def split: sum.splits)
  then show ?thesis using False
    by (simp add: suspects_def section_findings_def Let_def append_unavailable_section_def append_to_state_def empty_build_state_def
        hint_of_def deleted_open_suspected_def)
next
  case True
  obtain u ratio part where f: "di_unattributed_bytes s = Some u" "di_unattributed_ratio s = ratio" "ratio = None \<Longrightarrow> u = 0"
    "di_likely_reasons s = fst (classify_mismatch fl u ratio (di_filesystem_scope_extends_beyond_indexed_roots s) part
       (di_unknown_mount_count s))" "evidence_is_partial s = part"
    by (rule df_section_available[OF c b True]) (rule that)
  let ?sc = "di_filesystem_scope_extends_beyond_indexed_roots s"
  have susp: "deleted_open_suspected s \<longleftrightarrow> is_material_mismatch fl u ratio \<and> \<not> ?sc \<and> \<not> part"
    unfolding deleted_open_suspected_def f(4) by (rule classify_suspects(1))
  have mat: "is_material fl s \<longleftrightarrow> is_material_mismatch fl u ratio"
  proof (cases "di_likely_reasons s = []")
    case True
    then have no: "\<not> is_material_mismatch fl u ratio" unfolding f(4) using classify_suspects(2) by blast
    then show ?thesis using True f(1,2,3)
      by (cases ratio) (auto simp: is_material_def is_material_mismatch_def or0_def MISMATCH_MIN_BYTES_def)
  next
    case False
    then have "is_material_mismatch fl u ratio" unfolding f(4) using classify_suspects(2) by blast
    then show ?thesis using False by (simp add: is_material_def)
  qed
  have pos: "is_material_mismatch fl u ratio \<Longrightarrow> 0 < u" by (simp add: is_material_mismatch_def MISMATCH_MIN_BYTES_def)
  have branch: "0 < or0 (di_unattributed_bytes s) \<and> (''deleted_open_file_suspected'' \<in> set (di_likely_reasons s) \<or> is_material fl s)
      \<longleftrightarrow> is_material_mismatch fl u ratio"
    using pos susp mat by (auto simp: f(1) or0_def deleted_open_suspected_def)
  show ?thesis
  proof (cases "is_material_mismatch fl u ratio")
    case mm: True
    then have "section_findings fl context s = append_unattributed_section (gl_key (di_storage_domain s)) s (or0 (di_unattributed_bytes s))
        context (append_live_usage_facts s (usage_ratio fl s) empty_build_state)"
      unfolding section_findings_def Let_def using branch True by simp
    then show ?thesis using susp mm e by (simp only: suspects_def set_map[symmetric] unattributed_codes f(5)) simp
  next
    case False
    then have nb: "\<not> (0 < or0 (di_unattributed_bytes s) \<and> (''deleted_open_file_suspected'' \<in> set (di_likely_reasons s) \<or> is_material fl s))"
      using branch by blast
    have "\<not> suspects (sb_hints (section_findings fl context s))"
      unfolding section_findings_def Let_def if_not_P[OF nb] using True
      by (simp add: suspects_def append_over_indexed_section_def append_capacity_section_def append_live_usage_facts_def
          append_to_state_def empty_build_state_def hint_of_def)
    then show ?thesis using False susp by simp
  qed
qed

lemma pressure_hints: "snd (build_pressure_section fl context n s growth) = sb_hints (section_findings fl context s)"
  by (simp add: build_pressure_section_def Let_def append_to_state_def)

lemma hint_keys: "h \<in> set (sb_hints (section_findings fl context s)) \<Longrightarrow> dh_storage_domain_key h = Some (gl_key (di_storage_domain s))"
  by (auto simp: section_findings_def Let_def append_unavailable_section_def append_unattributed_section_def
      append_over_indexed_section_def append_capacity_section_def append_live_usage_facts_def append_to_state_def
      empty_build_state_def hint_of_def split: if_split_asm)

lemma set_py_prefix: "set (py_prefix n xs) \<subseteq> set xs"
  by (simp add: py_prefix_def set_take_subset)

text \<open>The sections the summary shows.\<close>

definition visible_sections :: "float_ops \<Rightarrow> pressure_summary_limits \<Rightarrow> df_index_diagnostic \<Rightarrow> df_index_section list" where
  "visible_sections fl limits diag = py_prefix (pl_max_sections limits) (ranked_sections fl (dd_filesystems diag))"

definition suspected_domains :: "pressure_summary \<Rightarrow> string option set" where
  "suspected_domains s = dh_storage_domain_key ` {h \<in> set (pm_diagnostic_hints s). dh_code h = ''deleted_open_file_suspected''}"

lemma summary_hints:
  "pm_diagnostic_hints (build_compact_pressure_summary fl diag groups deleted docker limits)
   = concat (map (\<lambda>s. sb_hints (section_findings fl (summary_context deleted docker) s)) (visible_sections fl limits diag))"
  by (simp add: build_compact_pressure_summary_def Let_def comp_def pressure_hints visible_sections_def)

lemma summary_suspects:
  assumes df: "build_df_index_diagnostic fl d selector limit providers = Inr diag"
    and e: "\<not> deleted_open_evidence (summary_context deleted docker)"
  shows "suspected_domains (build_compact_pressure_summary fl diag groups deleted docker limits)
    = {Some (gl_key (di_storage_domain s)) | s. s \<in> set (visible_sections fl limits diag) \<and> deleted_open_suspected s}"
proof -
  let ?c = "summary_context deleted docker"
  obtain domains sections where q: "query_indexed_storage_domain_totals selector d = Inr domains"
    and b: "list_all2 (\<lambda>t s. \<exists>gen ws. build_df_section fl providers gen t = Inr (s, ws)) domains sections"
    and f: "dd_filesystems diag = py_prefix limit (order_sections sections)"
    by (rule built_sections[OF df]) (rule that)
  have "set (visible_sections fl limits diag) \<subseteq> set sections"
  proof -
    have "set (visible_sections fl limits diag) \<subseteq> set (ranked_sections fl (dd_filesystems diag))"
      unfolding visible_sections_def by (rule set_py_prefix)
    also have "\<dots> \<subseteq> set (dd_filesystems diag)" by (auto simp: ranked_sections_def)
    also have "\<dots> \<subseteq> set (order_sections sections)" unfolding f by (rule set_py_prefix)
    also have "\<dots> = set sections" by (rule mset_eq_setD[OF order_sections_props(1)])
    finally show ?thesis .
  qed
  then have s: "suspects (sb_hints (section_findings fl ?c s)) \<longleftrightarrow> deleted_open_suspected s" if "s \<in> set (visible_sections fl limits diag)" for s
  proof -
    from that \<open>set (visible_sections fl limits diag) \<subseteq> set sections\<close> have "s \<in> set sections" by blast
    then obtain t gen ws where t: "t \<in> set domains" "build_df_section fl providers gen t = Inr (s, ws)"
      using b unfolding list_all2_conv_all_nth in_set_conv_nth by metis
    show ?thesis by (rule findings_suspect[OF bspec[OF domains_consistent[OF q] t(1)] t(2) e])
  qed
  have "k \<in> suspected_domains (build_compact_pressure_summary fl diag groups deleted docker limits) \<longleftrightarrow>
      (\<exists>s\<in>set (visible_sections fl limits diag). k = Some (gl_key (di_storage_domain s)) \<and> suspects (sb_hints (section_findings fl ?c s)))" for k
  proof -
    let ?H = "\<lambda>s. set (sb_hints (section_findings fl ?c s))"
    have key: "(\<exists>h\<in>?H s. dh_code h = c \<and> dh_storage_domain_key h = k) \<longleftrightarrow> k = Some (gl_key (di_storage_domain s)) \<and> c \<in> dh_code ` ?H s"
      for s c using hint_keys[of _ fl ?c s] by (auto simp: image_iff)
    have "k \<in> suspected_domains (build_compact_pressure_summary fl diag groups deleted docker limits) \<longleftrightarrow>
        (\<exists>s\<in>set (visible_sections fl limits diag). \<exists>h\<in>?H s. dh_code h = ''deleted_open_file_suspected'' \<and> dh_storage_domain_key h = k)"
      by (auto simp: suspected_domains_def summary_hints)
    then show ?thesis unfolding key suspects_def .
  qed
  then show ?thesis using s by blast
qed

lemma length_py_prefix: "0 \<le> n \<Longrightarrow> int (length (py_prefix n xs)) \<le> n"
  by (simp add: py_prefix_def)

lemma summary_bounds:
  assumes "0 \<le> pl_max_sections limits" and "0 \<le> pl_max_items_per_section limits"
  shows "int (length (pm_sections (build_compact_pressure_summary fl diag groups deleted docker limits))) \<le> pl_max_sections limits"
    and "\<forall>s\<in>set (pm_sections (build_compact_pressure_summary fl diag groups deleted docker limits)).
      int (length (ps_facts s)) \<le> pl_max_items_per_section limits \<and> int (length (ps_next_checks s)) \<le> pl_max_items_per_section limits"
    and "length (pm_next_checks (build_compact_pressure_summary fl diag groups deleted docker limits)) \<le> MAX_GLOBAL_NEXT_CHECKS"
  using assms by (auto simp: build_compact_pressure_summary_def build_pressure_section_def Let_def length_py_prefix global_next_checks_def)

text \<open>
  The pressure summary is compact and decides like the df comparison.  It shows at most the allowed
  numbers of sections, facts and checks; and without evidence of its own it suspects deleted open files
  on exactly those shown file systems whose df section names them, although it works the conditions out
  again from the finished sections.
\<close>

theorem summary_agrees_with_df:
  assumes "build_df_index_diagnostic fl d selector limit providers = Inr diag"
    and "\<not> deleted_open_evidence (summary_context deleted docker)"
    and "0 \<le> pl_max_sections limits" and "0 \<le> pl_max_items_per_section limits"
  shows "(let summary = build_compact_pressure_summary fl diag groups deleted docker limits in
      suspected_domains summary
        = {Some (gl_key (di_storage_domain s)) | s. s \<in> set (visible_sections fl limits diag) \<and> deleted_open_suspected s}
      \<and> int (length (pm_sections summary)) \<le> pl_max_sections limits
      \<and> (\<forall>s\<in>set (pm_sections summary). int (length (ps_facts s)) \<le> pl_max_items_per_section limits
           \<and> int (length (ps_next_checks s)) \<le> pl_max_items_per_section limits)
      \<and> length (pm_next_checks summary) \<le> MAX_GLOBAL_NEXT_CHECKS)"
  unfolding Let_def by (intro conjI summary_suspects[OF assms(1,2)] summary_bounds[OF assms(3,4)])

lemma summary_agrees_with_df_witness:
  "suspected_domains (build_compact_pressure_summary exact_floats sample_df_index [] None None DEFAULT_PRESSURE_SUMMARY_LIMITS)
     = {Some (gl_key (di_storage_domain s)) | s. s \<in> set (visible_sections exact_floats DEFAULT_PRESSURE_SUMMARY_LIMITS sample_df_index)
          \<and> deleted_open_suspected s}"
  by (rule summary_agrees_with_df[OF sample_df_index_facts(1), of None None DEFAULT_PRESSURE_SUMMARY_LIMITS, unfolded Let_def, THEN conjunct1])
    (simp_all add: deleted_open_evidence_def summary_context_def DEFAULT_PRESSURE_SUMMARY_LIMITS_def DEFAULT_MAX_SECTIONS_def
      DEFAULT_MAX_ITEMS_PER_SECTION_def)

end
