(* ===== verification/Deleted_Open_Proofs.thy ===== *)
theory Deleted_Open_Proofs
  imports Deleted_Open
begin

text \<open>
  What \<open>Deleted_Open\<close> promises: the parser inverts lsof's field output, the resolver of the command line finds
  the mount the reports find, and the totals account for every deleted file found.
\<close>

subsection \<open>What lsof prints\<close>

text \<open>
  A process is its pid, its command and its files; a file has a descriptor, fields the parser ignores, a size
  if lsof knows one, and a name with or without the marker of a deleted file.  Every field ends in a NUL and
  every line of fields in a line feed.
\<close>

record lsof_file =
  lf_fd :: string
  lf_other_fields :: "string list"
  lf_size :: "int option"
  lf_path :: bytes
  lf_marked :: bool

type_synonym lsof_process = "int \<times> string \<times> lsof_file list"

definition nul_ended :: "string \<Rightarrow> string" where "nul_ended f = f @ [CHR 0x00]"

definition print_lsof_file :: "lsof_file \<Rightarrow> string" where
  "print_lsof_file f =
     nul_ended (CHR ''f'' # lf_fd f) @ concat (map nul_ended (lf_other_fields f))
     @ (case lf_size f of None \<Rightarrow> [] | Some n \<Rightarrow> nul_ended (CHR ''s'' # int_str n))
     @ nul_ended (CHR ''n'' # lf_path f @ (if lf_marked f then deleted_marker else [])) @ [CHR 0x0A]"

definition print_lsof_process :: "lsof_process \<Rightarrow> string" where
  "print_lsof_process = (\<lambda>(pid, command, fs).
     nul_ended (CHR ''p'' # int_str pid) @ nul_ended (CHR ''c'' # command) @ [CHR 0x0A] @ concat (map print_lsof_file fs))"

definition lsof_text_ok :: "string \<Rightarrow> bool" where
  "lsof_text_ok v \<longleftrightarrow> CHR 0x00 \<notin> set v \<and> (v = [] \<or> last v \<noteq> CHR 0x0A)"

definition ignored_field :: "string \<Rightarrow> bool" where
  "ignored_field f \<longleftrightarrow> f \<noteq> [] \<and> hd f \<notin> {CHR ''p'', CHR ''c'', CHR ''f'', CHR ''s'', CHR ''n'', CHR 0x0A} \<and> lsof_text_ok f"

definition lsof_file_ok :: "lsof_file \<Rightarrow> bool" where
  "lsof_file_ok f \<longleftrightarrow> lsof_text_ok (lf_fd f) \<and> list_all ignored_field (lf_other_fields f) \<and> lsof_text_ok (lf_path f)
     \<and> (lf_marked f \<or> \<not> endswith (lf_path f) deleted_marker)"

definition lsof_process_ok :: "lsof_process \<Rightarrow> bool" where
  "lsof_process_ok = (\<lambda>(pid, command, fs). lsof_text_ok command \<and> list_all lsof_file_ok fs)"

text \<open>The rows and warnings that describe a process.\<close>

definition lsof_row :: "int \<Rightarrow> string \<Rightarrow> lsof_file \<Rightarrow> deleted_open_file" where
  "lsof_row pid command f =
     \<lparr> of_pid = pid, of_command = command, of_fd = lf_fd f, of_size_bytes = lf_size f, of_path = lf_path f,
       of_storage_domain = None, of_disk_pressure_relevance = unknown_relevance,
       of_action_hint = deleted_open_action_hint, of_source = ''lsof'' \<rparr>"

definition missing_size :: "int \<Rightarrow> lsof_file \<Rightarrow> report_warning list" where
  "missing_size pid f =
     (if lf_size f = None
      then [warn ''deleted_open_missing_size'' (''deleted-open file for pid '' @ int_str pid @ '' has no size from lsof'')
              (Some (lf_path f))]
      else [])"

definition lsof_process_rows :: "lsof_process \<Rightarrow> deleted_open_file list" where
  "lsof_process_rows = (\<lambda>(pid, command, fs). map (lsof_row pid command) fs)"

definition lsof_process_warnings :: "lsof_process \<Rightarrow> report_warning list" where
  "lsof_process_warnings = (\<lambda>(pid, command, fs). concat (map (missing_size pid) fs))"

subsection \<open>Feeding fields\<close>

definition feed :: "lsof_run \<Rightarrow> string \<Rightarrow> lsof_run" where
  "feed run s = foldl lsof_field_step run (split_char CHR 0x00 s)"

lemma feed_Nil [simp]: "feed run [] = run"
  by (simp add: feed_def lsof_field_step_def strip_char_def rstrip_char_def)

lemma feed_field: "CHR 0x00 \<notin> set f \<Longrightarrow> feed run (nul_ended f @ s) = feed (lsof_field_step run f) s"
  by (simp add: feed_def nul_ended_def split_char_append)

lemma feed_line_feed: "feed run (CHR 0x0A # s) = feed run s"
  by (simp add: feed_def lsof_field_step_def strip_char_def split: list.splits)

lemma strip_char_tag:
  "tag \<noteq> CHR 0x0A \<Longrightarrow> lsof_text_ok v \<Longrightarrow> strip_char CHR 0x0A (tag # v) = tag # v"
  by (auto simp: strip_char_def lsof_text_ok_def rstrip_char_id)

lemma step_tags:
  assumes "lsof_text_ok v"
  shows "lsof_field_step run (CHR ''p'' # v) = handle_lsof_pid_field v (flush_lsof_record run)"
    and "lsof_field_step run (CHR ''c'' # v) = map_prod (\<lambda>state. state\<lparr> lp_current_command := Some v \<rparr>) id run"
    and "lsof_field_step run (CHR ''f'' # v) = map_prod (\<lambda>state. state\<lparr> lp_pending_fd := Some v \<rparr>) id (flush_lsof_record run)"
    and "lsof_field_step run (CHR ''s'' # v) = map_prod (handle_lsof_size_field v) id run"
    and "lsof_field_step run (CHR ''n'' # v) = map_prod (handle_lsof_name_field v) id run"
  using assms by (simp_all add: lsof_field_step_def strip_char_tag)

lemma step_ignored: "ignored_field f \<Longrightarrow> lsof_field_step run f = run"
proof (cases f)
  case (Cons tag v)
  assume "ignored_field f"
  then have "lsof_text_ok v" "tag \<noteq> CHR 0x0A" "tag \<notin> {CHR ''p'', CHR ''c'', CHR ''f'', CHR ''s'', CHR ''n''}"
    unfolding ignored_field_def lsof_text_ok_def Cons by (auto split: if_splits)
  then show ?thesis by (simp add: Cons lsof_field_step_def strip_char_tag)
qed (simp add: ignored_field_def)

lemma feed_ignored:
  "list_all ignored_field fs \<Longrightarrow> feed run (concat (map nul_ended fs) @ s) = feed run s"
  by (induction fs) (auto simp: feed_field step_ignored ignored_field_def lsof_text_ok_def)

lemma lsof_text_int: "lsof_text_ok (int_str n)" "CHR 0x00 \<notin> set (int_str n)"
proof -
  have sp: "list_all (\<lambda>c. \<not> is_space c) (int_str n)" using field_ok_int_str[of n] by (simp add: field_ok_def)
  have dg: "c \<in> set (nat_str k) \<Longrightarrow> is_digit c" for c k using nat_str_props(3)[of k] by (simp add: list_all_iff)
  have "c \<in> set (int_str n) \<Longrightarrow> is_digit c \<or> c = CHR ''-''" for c
    by (auto simp: int_str_def dest: dg split: if_splits)
  moreover have "\<not> is_digit CHR 0x00" by (simp add: is_digit_def)
  ultimately show z: "CHR 0x00 \<notin> set (int_str n)" by fastforce
  have "int_str n \<noteq> []" using field_ok_int_str[of n] by (simp add: field_ok_def)
  then have "\<not> is_space (last (int_str n))" using sp by (simp add: list_all_iff)
  then show "lsof_text_ok (int_str n)" using z by (auto simp: lsof_text_ok_def is_space_def)
qed

subsection \<open>One file, one process\<close>

definition pending_file :: "lsof_file \<Rightarrow> lsof_run \<Rightarrow> lsof_run" where
  "pending_file f = map_prod
     (\<lambda>state. state\<lparr> lp_pending_fd := Some (lf_fd f),
        lp_pending_size := (case lf_size f of None \<Rightarrow> lp_pending_size state | n \<Rightarrow> n),
        lp_pending_has_size := (lf_size f \<noteq> None \<or> lp_pending_has_size state), lp_pending_name := Some (lf_path f) \<rparr>) id"

lemma name_field:
  assumes "lsof_file_ok f"
  shows "removesuffix (lf_path f @ (if lf_marked f then deleted_marker else [])) deleted_marker = lf_path f"
  using assms by (auto simp: removesuffix_def lsof_file_ok_def endswith_def deleted_marker_def)

lemma feed_file:
  assumes ok: "lsof_file_ok f"
  shows "feed run (print_lsof_file f @ s) = feed (pending_file f (flush_lsof_record run)) s"
proof -
  define nm where "nm = lf_path f @ (if lf_marked f then deleted_marker else [])"
  have fd: "lsof_text_ok (lf_fd f)" "CHR 0x00 \<notin> set (CHR ''f'' # lf_fd f)" and other: "list_all ignored_field (lf_other_fields f)"
    and nm: "lsof_text_ok nm" "CHR 0x00 \<notin> set (CHR ''n'' # nm)"
    using ok by (auto simp: nm_def lsof_file_ok_def lsof_text_ok_def deleted_marker_def)
  have sz: "CHR 0x00 \<notin> set (CHR ''s'' # int_str n)" for n using lsof_text_int(2)[of n] by simp
  obtain state rows ws where fl: "flush_lsof_record run = (state, rows, ws)" by (cases "flush_lsof_record run")
  have h: "handle_lsof_name_field nm state = state\<lparr> lp_pending_name := Some (lf_path f) \<rparr>" for state
    by (simp only: handle_lsof_name_field_def nm_def name_field[OF ok])
  have pr: "print_lsof_file f = nul_ended (CHR ''f'' # lf_fd f) @ concat (map nul_ended (lf_other_fields f))
     @ (case lf_size f of None \<Rightarrow> [] | Some n \<Rightarrow> nul_ended (CHR ''s'' # int_str n)) @ nul_ended (CHR ''n'' # nm) @ [CHR 0x0A]"
    by (simp only: print_lsof_file_def nm_def)
  note steps = feed_field[OF fd(2)] feed_field[OF nm(2)] feed_field[OF sz] step_tags(3)[OF fd(1)] step_tags(5)[OF nm(1)]
    step_tags(4)[OF lsof_text_int(1)] feed_ignored[OF other] feed_line_feed
  show ?thesis by (cases "lf_size f") (simp_all add: pr steps fl h pending_file_def handle_lsof_size_field_def)
qed

lemma feed_files:
  "list_all lsof_file_ok fs \<Longrightarrow> feed run (concat (map print_lsof_file fs) @ s)
     = feed (foldl (\<lambda>r f. pending_file f (flush_lsof_record r)) run fs) s"
  by (induction fs arbitrary: run) (simp_all add: feed_file)

definition idle :: "int option \<Rightarrow> string option \<Rightarrow> lsof_parse_state" where
  "idle pid command =
     \<lparr> lp_current_pid = pid, lp_current_command = command, lp_pending_fd = None, lp_pending_size = None,
       lp_pending_name = None, lp_pending_has_size = False \<rparr>"

lemma flush_idle: "flush_lsof_record (idle pid command, rows, ws) = (idle pid command, rows, ws)"
  by (simp add: flush_lsof_record_def idle_def)

lemma flush_pending:
  "flush_lsof_record (pending_file f (idle (Some pid) (Some command), rows, ws))
     = (idle (Some pid) (Some command), rows @ [lsof_row pid command f], ws @ missing_size pid f)"
  by (cases "lf_size f")
     (simp_all add: flush_lsof_record_def pending_file_def idle_def clear_pending_def lsof_row_def missing_size_def)

lemma flush_files:
  "flush_lsof_record run = (idle (Some pid) (Some command), rows, ws)
     \<Longrightarrow> flush_lsof_record (foldl (\<lambda>r f. pending_file f (flush_lsof_record r)) run fs)
           = (idle (Some pid) (Some command), rows @ map (lsof_row pid command) fs, ws @ concat (map (missing_size pid) fs))"
proof (induction fs arbitrary: run rows ws)
  case (Cons f fs)
  have "flush_lsof_record (pending_file f (flush_lsof_record run))
      = (idle (Some pid) (Some command), rows @ [lsof_row pid command f], ws @ missing_size pid f)"
    by (simp add: Cons.prems flush_pending)
  from Cons.IH[OF this] show ?case by simp
qed simp

lemma feed_process:
  assumes ok: "lsof_process_ok p" and idle: "flush_lsof_record run = (idle pid0 command0, rows, ws)"
  shows "\<exists>run' pid command. feed run (print_lsof_process p @ s) = feed run' s
      \<and> flush_lsof_record run' = (idle pid command, rows @ lsof_process_rows p, ws @ lsof_process_warnings p)"
proof -
  obtain pid command fs where p: "p = (pid, command, fs)" by (cases p)
  have c: "lsof_text_ok command" "CHR 0x00 \<notin> set (CHR ''c'' # command)" and fs: "list_all lsof_file_ok fs"
    using ok by (auto simp: p lsof_process_ok_def lsof_text_ok_def)
  have pf: "CHR 0x00 \<notin> set (CHR ''p'' # int_str pid)" using lsof_text_int(2)[of pid] by simp
  let ?start = "(idle (Some pid) (Some command), rows, ws)"
  let ?run = "foldl (\<lambda>r f. pending_file f (flush_lsof_record r)) ?start fs"
  have start: "map_prod (\<lambda>state. state\<lparr> lp_current_command := Some command \<rparr>) id (handle_lsof_pid_field (int_str pid) (flush_lsof_record run)) = ?start"
    by (simp add: idle handle_lsof_pid_field_def idle_def Let_def)
  have "feed run (print_lsof_process p @ s) = feed ?start (concat (map print_lsof_file fs) @ s)"
    by (simp add: p print_lsof_process_def feed_field[OF pf] feed_field[OF c(2)] feed_line_feed step_tags(1)[OF lsof_text_int(1)]
        step_tags(2)[OF c(1)] start)
  also have "\<dots> = feed ?run s" by (rule feed_files[OF fs])
  finally have "feed run (print_lsof_process p @ s) = feed ?run s" .
  moreover have "flush_lsof_record ?run = (idle (Some pid) (Some command), rows @ lsof_process_rows p, ws @ lsof_process_warnings p)"
    using flush_files[OF flush_idle, of pid command rows ws fs] by (simp add: p lsof_process_rows_def lsof_process_warnings_def)
  ultimately show ?thesis by blast
qed

lemma feed_processes:
  "list_all lsof_process_ok ps \<Longrightarrow> flush_lsof_record run = (idle pid0 command0, rows, ws)
     \<Longrightarrow> snd (flush_lsof_record (feed run (concat (map print_lsof_process ps))))
           = (rows @ concat (map lsof_process_rows ps), ws @ concat (map lsof_process_warnings ps))"
proof (induction ps arbitrary: run pid0 command0 rows ws)
  case (Cons p ps)
  then have ok: "lsof_process_ok p" by simp
  obtain run' pid command where r: "feed run (print_lsof_process p @ concat (map print_lsof_process ps)) = feed run' (concat (map print_lsof_process ps))"
    and i: "flush_lsof_record run' = (idle pid command, rows @ lsof_process_rows p, ws @ lsof_process_warnings p)"
    using feed_process[OF ok Cons.prems(2), of "concat (map print_lsof_process ps)"] by blast
  have "list_all lsof_process_ok ps" using Cons.prems(1) by simp
  from Cons.IH[OF this i] r show ?case by simp
qed simp

lemma parse_printed:
  assumes "list_all lsof_process_ok ps"
  shows "parse_lsof_field_output (concat (map print_lsof_process ps))
     = (concat (map lsof_process_rows ps), concat (map lsof_process_warnings ps))"
proof -
  have "flush_lsof_record (lsof_parse_start, [], []) = (idle None None, [], [])"
    by (simp add: flush_lsof_record_def lsof_parse_start_def idle_def)
  from feed_processes[OF assms this] show ?thesis by (simp add: parse_lsof_field_output_def feed_def)
qed


definition sample_processes :: "lsof_process list" where
  "sample_processes =
     [(17, ''nginx'', [\<lparr> lf_fd = ''3'', lf_other_fields = [''ar'', ''tREG''], lf_size = Some 4096, lf_path = ''/var/log/a'', lf_marked = True \<rparr>,
        \<lparr> lf_fd = ''4'', lf_other_fields = [], lf_size = None, lf_path = ''/tmp/b c'', lf_marked = False \<rparr>]),
      (18, ''sh'', [])]"


subsection \<open>The domain of a path\<close>

lemma matches_path_prefix_prefix: "matches_path_prefix p q \<Longrightarrow> prefix q p"
  by (auto simp: matches_path_prefix_def startswith_iff prefix_def split: if_splits)

lemma best_mount_snoc: "best_mount p (ms @ [m]) = best_mount_step p (best_mount p ms) m"
  by (simp add: best_mount_def)

lemma best_mount_None: "best_mount p ms = None \<longleftrightarrow> (\<forall>m\<in>set ms. \<not> matches_path_prefix p (sm_mount_point m))"
proof (induction ms rule: rev_induct)
  case (snoc m ms)
  then show ?case by (auto simp: best_mount_snoc best_mount_step_def split: option.splits)
qed (simp add: best_mount_def)

lemma best_mount_Some:
  "best_mount p ms = Some m \<Longrightarrow> matches_path_prefix p (sm_mount_point m)
     \<and> (\<forall>m'\<in>set ms. matches_path_prefix p (sm_mount_point m') \<longrightarrow> length (sm_mount_point m') \<le> length (sm_mount_point m))
     \<and> (\<exists>xs ys. ms = xs @ m # ys \<and> (\<forall>x\<in>set xs. sm_mount_point x \<noteq> sm_mount_point m))"
proof (induction ms arbitrary: m rule: rev_induct)
  case Nil
  then show ?case by (simp add: best_mount_def)
next
  case (snoc n ms)
  show ?case
  proof (cases "best_mount p ms = Some m")
    case True
    note ih = snoc.IH[OF True]
    have "matches_path_prefix p (sm_mount_point n) \<longrightarrow> length (sm_mount_point n) \<le> length (sm_mount_point m)"
      using snoc.prems True by (auto simp: best_mount_snoc best_mount_step_def split: if_splits)
    moreover obtain xs ys where "ms = xs @ m # ys" "\<forall>x\<in>set xs. sm_mount_point x \<noteq> sm_mount_point m" using ih by blast
    then have "\<exists>xs ys. ms @ [n] = xs @ m # ys \<and> (\<forall>x\<in>set xs. sm_mount_point x \<noteq> sm_mount_point m)" by auto
    ultimately show ?thesis using ih by auto
  next
    case False
    have m: "m = n" "matches_path_prefix p (sm_mount_point n)"
      and longer: "\<And>b. best_mount p ms = Some b \<Longrightarrow> length (sm_mount_point b) < length (sm_mount_point n)"
      using snoc.prems False by (auto simp: best_mount_snoc best_mount_step_def split: if_splits option.splits)
    have short: "length (sm_mount_point m') < length (sm_mount_point n)"
      if mem: "m' \<in> set ms" and cov: "matches_path_prefix p (sm_mount_point m')" for m'
    proof -
      obtain b where b: "best_mount p ms = Some b" using best_mount_None[of p ms] mem cov by (cases "best_mount p ms") auto
      show ?thesis using snoc.IH[OF b] longer[OF b] mem cov by force
    qed
    have "\<forall>x\<in>set ms. sm_mount_point x \<noteq> sm_mount_point n" using short m(2) by force
    then have "\<exists>xs ys. ms @ [n] = xs @ n # ys \<and> (\<forall>x\<in>set xs. sm_mount_point x \<noteq> sm_mount_point n)"
      by (intro exI[of _ ms] exI[of _ "[]"]) simp
    then show ?thesis using m short by (auto intro: less_imp_le)
  qed
qed

interpretation cli_mounts: mount_lookup sm_mount_point "\<lambda>p. True" matches_path_prefix best_mount
proof unfold_locales
  show "matches_path_prefix p a \<Longrightarrow> matches_path_prefix p b \<Longrightarrow> length a = length b \<Longrightarrow> a = b" for p a b
    using matches_path_prefix_prefix[of p a] matches_path_prefix_prefix[of p b] by (auto simp: prefix_def append_eq_append_conv)
qed (use best_mount_Some best_mount_None in blast)+

lemma dedupe_aux_append:
  "\<exists>seen'. set seen' = set seen \<union> f ` set xs \<and> dedupe_aux f seen (xs @ ys) = dedupe_aux f seen xs @ dedupe_aux f seen' ys"
proof (induction xs arbitrary: seen)
  case (Cons x xs)
  show ?case
  proof (cases "f x \<in> set seen")
    case True
    with Cons.IH[of seen] show ?thesis by (auto simp: insert_absorb)
  next
    case False
    with Cons.IH[of "f x # seen"] show ?thesis by auto
  qed
qed auto

lemma dedupe_first:
  assumes "\<forall>x\<in>set xs. f x \<noteq> f m"
  shows "\<exists>us vs. dedupe_on f (xs @ m # ys) = us @ m # vs \<and> set us \<subseteq> set xs"
proof -
  obtain seen where s: "set seen = f ` set xs" and d: "dedupe_on f (xs @ m # ys) = dedupe_aux f [] xs @ dedupe_aux f seen (m # ys)"
    using dedupe_aux_append[of "[]" f xs "m # ys"] by (auto simp: dedupe_on_def)
  have "f m \<notin> set seen" using assms s by force
  then show ?thesis using d dedupe_aux_props(1)[of f "[]" xs] by auto
qed

lemma best_mount_dedupe:
  "best_mount p (dedupe_on (\<lambda>m. (sm_major_minor m, sm_mount_point m)) ms) = best_mount p ms"
proof (cases "best_mount p ms")
  case None
  then have "best_mount p (dedupe_on (\<lambda>m. (sm_major_minor m, sm_mount_point m)) ms) = None"
    using dedupe_on_subset[of "\<lambda>m. (sm_major_minor m, sm_mount_point m)" ms] by (auto simp: best_mount_None)
  then show ?thesis using None by simp
next
  case (Some m)
  let ?f = "\<lambda>m. (sm_major_minor m, sm_mount_point m)"
  note b = best_mount_Some[OF Some]
  from b obtain xs ys where ms: "ms = xs @ m # ys" and no: "\<forall>x\<in>set xs. sm_mount_point x \<noteq> sm_mount_point m" by blast
  then obtain us vs where d: "dedupe_on ?f ms = us @ m # vs" and us: "set us \<subseteq> set xs"
    using dedupe_first[of xs ?f m ys] by auto
  have "cli_mounts.deepest p (dedupe_on ?f ms) m"
    unfolding cli_mounts.deepest_def using b d us no dedupe_on_subset[of ?f ms] by blast
  then show ?thesis using Some cli_mounts.lookup_iff[of p "dedupe_on ?f ms" m] by simp
qed

lemma best_mount_longest:
  assumes "canonical p" and c: "\<forall>m\<in>set ms. canonical (sm_mount_point m)"
  shows "best_mount p ms = longest_mount_prefix p ms"
proof (cases "longest_mount_prefix p ms")
  case None
  then have "\<forall>m\<in>set ms. \<not> walk_covers p (sm_mount_point m)" using report_mounts.lookup_None_iff assms(1) by blast
  then have "best_mount p ms = None" using c by (auto simp: best_mount_None walk_covers_def)
  then show ?thesis using None by simp
next
  case (Some m)
  then have "report_mounts.deepest p ms m" using report_mounts.lookup_iff[OF assms(1)] by blast
  then have "cli_mounts.deepest p ms m"
    using c by (auto simp: report_mounts.deepest_def cli_mounts.deepest_def walk_covers_def)
  then show ?thesis using Some cli_mounts.lookup_iff[of p ms m] by simp
qed

subsection \<open>The rows found\<close>

definition rows_from :: "string \<Rightarrow> deleted_open_file list \<Rightarrow> bool" where
  "rows_from source_name rows \<longleftrightarrow>
     (\<forall>r\<in>set rows. of_source r = source_name \<and> of_storage_domain r = None \<and> of_disk_pressure_relevance r = unknown_relevance)"

lemma rows_from_flush: "rows_from ''lsof'' (fst (snd run)) \<Longrightarrow> rows_from ''lsof'' (fst (snd (flush_lsof_record run)))"
  by (cases run) (auto simp: flush_lsof_record_def rows_from_def split: option.splits)

lemma rows_from_step: "rows_from ''lsof'' (fst (snd run)) \<Longrightarrow> rows_from ''lsof'' (fst (snd (lsof_field_step run f)))"
proof -
  assume r: "rows_from ''lsof'' (fst (snd run))"
  have "fst (snd (handle_lsof_pid_field v run')) = fst (snd run')" for v run'
    by (cases run') (simp add: handle_lsof_pid_field_def Let_def split: option.splits)
  then show ?thesis using r rows_from_flush[OF r] by (cases run) (auto simp: lsof_field_step_def split: list.splits)
qed

lemma rows_from_parse: "rows_from ''lsof'' (fst (parse_lsof_field_output out))"
proof -
  have "rows_from ''lsof'' (fst (snd (foldl lsof_field_step (lsof_parse_start, [], []) fs)))" for fs
    by (induction fs rule: rev_induct) (simp_all add: rows_from_step, simp add: rows_from_def)
  then show ?thesis using rows_from_flush by (simp add: parse_lsof_field_output_def)
qed

lemma rows_from_fd: "rows_from ''procfs'' (fst (scan_fd_entry fs pid command fd_dir name))"
  by (simp add: scan_fd_entry_def rows_from_def Let_def split: sum.splits)

lemma rows_from_concat: "(\<And>x. x \<in> set xs \<Longrightarrow> rows_from s x) \<Longrightarrow> rows_from s (concat xs)"
  by (auto simp: rows_from_def)

lemma rows_from_entry: "rows_from ''procfs'' (fst (scan_proc_entry fs proc_root name))"
proof -
  have "rows_from ''procfs'' (concat (map fst (map (scan_fd_entry fs pid command fd_dir) names)))" for pid command fd_dir names
    by (rule rows_from_concat) (auto simp: rows_from_fd)
  moreover have "rows_from ''procfs'' []" by (simp add: rows_from_def)
  ultimately show ?thesis by (simp add: scan_proc_entry_def Let_def split: sum.splits)
qed

lemma rows_from_evidence:
  assumes "collected_evidence runner fs proc_root = Inr (rows, ws, s)"
  shows "rows_from s rows \<and> (s = ''lsof'' \<longleftrightarrow> (\<exists>out err rc. runner lsof_argv = Inr (out, err, rc) \<and> out \<noteq> []))"
proof (cases "lc_used_lsof (collect_lsof_deleted_open runner)")
  case True
  then have "rows = lc_rows (collect_lsof_deleted_open runner)" "s = ''lsof''"
    using assms by (auto simp: collected_evidence_def Let_def)
  then show ?thesis using True rows_from_parse
    by (auto simp: collect_lsof_deleted_open_def Let_def split: sum.splits prod.splits if_splits) (metis fst_conv)+
next
  case False
  then have l: "lc_rows (collect_lsof_deleted_open runner) = []" "\<not> (\<exists>out err rc. runner lsof_argv = Inr (out, err, rc) \<and> out \<noteq> [])"
    by (auto simp: collect_lsof_deleted_open_def Let_def split: sum.splits prod.splits if_splits)
  obtain found where f: "scan_procfs_deleted_open fs proc_root = Inr found" "rows = fst found" "s = ''procfs''"
    using False assms l(1) by (auto simp: collected_evidence_def Let_def map_sum_Inr split: prod.splits)
  have "rows_from ''procfs'' (concat (map fst (map (scan_proc_entry fs proc_root) names)))" for names
    by (rule rows_from_concat) (auto simp: rows_from_entry)
  moreover have "rows_from ''procfs'' []" by (simp add: rows_from_def)
  ultimately have "rows_from ''procfs'' (fst found)"
    using f(1) by (auto simp: scan_procfs_deleted_open_def Let_def split: sum.splits os_error_class.splits)
  then show ?thesis using f l(2) by simp
qed

subsection \<open>The totals\<close>

lemma sum_filter_split:
  fixes f :: "'a \<Rightarrow> int"
  shows "sum_list (map f (filter P xs)) + sum_list (map f (filter (\<lambda>x. \<not> P x) xs)) = sum_list (map f xs)"
  by (induction xs) simp_all

lemma sum_sort_key_rev:
  fixes g :: "'a \<Rightarrow> int"
  shows "sum_list (map g (sort_key_rev f xs)) = sum_list (map g xs)"
  by (metis mset_map mset_sort_key_rev sum_mset_sum_list)

lemma report_split:
  assumes "0 \<le> limit" and "diag = deleted_open_report limit clock evidence_source rows ws"
  obtains hidden where "filter disk_relevant (sort_key_rev size_order rows) = od_culprits diag @ hidden"
    and "\<forall>c\<in>set (od_culprits diag). \<forall>h\<in>set hidden. size_order h \<le> size_order c"
    and "hidden \<noteq> [] \<longleftrightarrow> od_truncated diag" and "int (length (od_culprits diag)) \<le> limit"
    and "sorted (map size_order (rev (od_culprits diag)))"
proof -
  let ?rel = "filter disk_relevant (sort_key_rev size_order rows)"
  have c: "od_culprits diag = take (nat limit) ?rel" and t: "od_truncated diag \<longleftrightarrow> int (length ?rel) > limit"
    using assms by (simp_all add: deleted_open_report_def Let_def py_prefix_def)
  have "sorted (map size_order (rev (sort_key_rev size_order rows)))" by (rule sorted_sort_key_rev)
  then have "sorted_wrt (\<lambda>a b. size_order b \<le> size_order a) (sort_key_rev size_order rows)"
    by (simp add: rev_map sorted_wrt_rev sorted_wrt_map)
  then have s: "sorted_wrt (\<lambda>a b. size_order b \<le> size_order a) ?rel" by (rule sorted_wrt_filter)
  then have w: "sorted_wrt (\<lambda>a b. size_order b \<le> size_order a) (take (nat limit) ?rel @ drop (nat limit) ?rel)" by simp
  show ?thesis
  proof (rule that)
    show "?rel = od_culprits diag @ drop (nat limit) ?rel" by (simp add: c)
    show "\<forall>c\<in>set (od_culprits diag). \<forall>h\<in>set (drop (nat limit) ?rel). size_order h \<le> size_order c"
      using w unfolding sorted_wrt_append c by blast
    show "drop (nat limit) ?rel \<noteq> [] \<longleftrightarrow> od_truncated diag" using t assms(1) by (simp add: nat_less_iff not_le)
    show "int (length (od_culprits diag)) \<le> limit" using assms(1) by (simp add: c)
    have "sorted_wrt (\<lambda>a b. size_order b \<le> size_order a) (od_culprits diag)" using w unfolding sorted_wrt_append c by blast
    then show "sorted (map size_order (rev (od_culprits diag)))" by (simp add: rev_map sorted_wrt_rev sorted_wrt_map)
  qed
qed

lemma size_resolve_domain: "size_or_zero (fst (resolve_domain r row)) = size_or_zero row"
  by (auto simp: resolve_domain_def size_or_zero_def Let_def split: sum.splits option.splits)

lemma sum_resolve_rows: "sum_list (map size_or_zero (fst (resolve_rows r rows))) = sum_list (map size_or_zero rows)"
  by (cases r) (simp_all add: resolve_rows_def Let_def comp_def size_resolve_domain)

definition not_disk_space :: "bytes \<Rightarrow> group_label \<Rightarrow> bool" where
  "not_disk_space path domain \<longleftrightarrow> startswith path ''/dev/''
     \<or> (\<exists>t. gl_filesystem_type domain = Some t \<and> map lower_char t \<in> set pseudo_filesystem_types)"

lemma classify_relevance:
  "classify_disk_pressure_relevance path domain = (if not_disk_space path domain then non_disk_mapping else unknown_relevance)"
proof -
  have "startswith ''/dev/zero'' ''/dev/''" by (simp add: startswith_def)
  moreover have "[] \<notin> set pseudo_filesystem_types" by (simp add: pseudo_filesystem_types_def)
  ultimately show ?thesis
    by (auto simp: classify_disk_pressure_relevance_def not_disk_space_def Let_def split: option.splits)
qed

lemma resolve_rows_props:
  assumes "rows_from s rows" and "row \<in> set (fst (resolve_rows (Some r) rows))"
  shows "of_source row = s" and "of_storage_domain row = Some d \<longleftrightarrow> r (of_path row) = Inr (Some d)"
    and "disk_relevant row \<longleftrightarrow> (\<forall>d. of_storage_domain row = Some d \<longrightarrow> \<not> not_disk_space (of_path row) d)"
proof -
  obtain old where old: "old \<in> set rows" "row = fst (resolve_domain r old)" using assms(2) by (auto simp: resolve_rows_def Let_def)
  have o: "of_source old = s" "of_storage_domain old = None" "of_disk_pressure_relevance old = unknown_relevance"
    using assms(1) old(1) by (auto simp: rows_from_def)
  have ne: "unknown_relevance \<noteq> non_disk_mapping" by (simp add: unknown_relevance_def non_disk_mapping_def)
  note defs = resolve_domain_def disk_relevant_def classify_relevance Let_def
  show "of_source row = s" using o by (auto simp: old(2) defs split: sum.splits option.splits)
  show "of_storage_domain row = Some d \<longleftrightarrow> r (of_path row) = Inr (Some d)"
    using o by (auto simp: old(2) defs split: sum.splits option.splits)
  show "disk_relevant row \<longleftrightarrow> (\<forall>d. of_storage_domain row = Some d \<longrightarrow> \<not> not_disk_space (of_path row) d)"
    using o ne by (auto simp: old(2) defs split: sum.splits option.splits)
qed

lemma source_resolve_rows: "rows_from s rows \<Longrightarrow> row \<in> set (fst (resolve_rows resolver rows)) \<Longrightarrow> of_source row = s"
proof (cases resolver)
  case None
  then show "rows_from s rows \<Longrightarrow> row \<in> set (fst (resolve_rows resolver rows)) \<Longrightarrow> of_source row = s"
    by (simp add: resolve_rows_def rows_from_def)
next
  case (Some r)
  then show "rows_from s rows \<Longrightarrow> row \<in> set (fst (resolve_rows resolver rows)) \<Longrightarrow> of_source row = s"
    using resolve_rows_props(1) by blast
qed

text \<open>
  Every deleted file found is accounted for.  The bytes held by the culprits and the bytes of files that are
  no disk space (device nodes and files of pseudo file systems) add up to what was found; the rows shown are
  the largest culprits, in order, at most \<open>limit\<close>, and the report says it is cut exactly when culprits are
  missing from it; every row names the source the evidence came from, which is procfs exactly when lsof gave no
  output.
\<close>

theorem deleted_open_accounting:
  assumes run: "collect_deleted_open_files limit fs proc_root runner resolver clock = Inr diag" and "0 \<le> limit"
  shows "\<exists>rows ws s hidden. collected_evidence runner fs proc_root = Inr (rows, ws, s) \<and> od_evidence_source diag = s
     \<and> (s = ''lsof'' \<longleftrightarrow> (\<exists>out err rc. runner lsof_argv = Inr (out, err, rc) \<and> out \<noteq> []))
     \<and> ot_total_size_bytes (od_totals diag) + ot_non_disk_mapping_size_bytes (od_totals diag) = sum_list (map size_or_zero rows)
     \<and> ot_shown_size_bytes (od_totals diag) + sum_list (map size_or_zero hidden) = ot_total_size_bytes (od_totals diag)
     \<and> ot_culprit_count (od_totals diag) = ot_shown_count (od_totals diag) + int (length hidden)
     \<and> ot_shown_count (od_totals diag) = int (length (od_culprits diag)) \<and> ot_shown_count (od_totals diag) \<le> limit
     \<and> (od_truncated diag \<longleftrightarrow> hidden \<noteq> []) \<and> sorted (map size_order (rev (od_culprits diag)))
     \<and> (\<forall>c\<in>set (od_culprits diag). of_source c = s \<and> (\<forall>h\<in>set hidden. size_order h \<le> size_order c))
     \<and> ot_permission_denied_count (od_totals diag)
         = int (length (filter (\<lambda>w. rw_code w = ''deleted_open_permission_denied'') (od_warnings diag)))"
proof -
  obtain rows ws s where e: "collected_evidence runner fs proc_root = Inr (rows, ws, s)"
    and d: "diag = deleted_open_report limit clock s (fst (resolve_rows resolver rows)) (ws @ snd (resolve_rows resolver rows))"
    using run by (auto simp: collect_deleted_open_files_def Let_def split: sum.splits prod.splits)
  let ?rows = "fst (resolve_rows resolver rows)" and ?rel = "filter disk_relevant (sort_key_rev size_order (fst (resolve_rows resolver rows)))"
  obtain hidden where h: "?rel = od_culprits diag @ hidden" "\<forall>c\<in>set (od_culprits diag). \<forall>h\<in>set hidden. size_order h \<le> size_order c"
    "hidden \<noteq> [] \<longleftrightarrow> od_truncated diag" "int (length (od_culprits diag)) \<le> limit" "sorted (map size_order (rev (od_culprits diag)))"
    using report_split[OF assms(2) d] by blast
  have tot: "od_totals diag = \<lparr> ot_culprit_count = int (length ?rel), ot_shown_count = int (length (od_culprits diag)),
       ot_total_size_bytes = sum_list (map size_or_zero ?rel), ot_shown_size_bytes = sum_list (map size_or_zero (od_culprits diag)),
       ot_disk_pressure_relevant_size_bytes = sum_list (map size_or_zero ?rel),
       ot_non_disk_mapping_size_bytes = sum_list (map size_or_zero (filter (\<lambda>row. \<not> disk_relevant row) (sort_key_rev size_order ?rows))),
       ot_permission_denied_count = int (length (filter (\<lambda>w. rw_code w = ''deleted_open_permission_denied'') (od_warnings diag))) \<rparr>"
    unfolding d deleted_open_report_def Let_def by simp
  have "sum_list (map size_or_zero ?rel) + sum_list (map size_or_zero (filter (\<lambda>row. \<not> disk_relevant row) (sort_key_rev size_order ?rows)))
      = sum_list (map size_or_zero rows)"
    by (simp only: sum_filter_split sum_sort_key_rev sum_resolve_rows)
  moreover have "od_evidence_source diag = s" unfolding d deleted_open_report_def Let_def by simp
  moreover have src: "\<forall>c\<in>set (od_culprits diag). of_source c = s"
  proof
    fix c assume "c \<in> set (od_culprits diag)"
    then have "c \<in> set ?rel" using h(1) by simp
    then have "c \<in> set ?rows" by simp
    moreover have f: "rows_from s rows" using rows_from_evidence[OF e] by simp
    ultimately show "of_source c = s" by (rule source_resolve_rows[rotated])
  qed
  ultimately show ?thesis
    using e rows_from_evidence[OF e] h unfolding tot by (intro exI[of _ rows] exI[of _ ws] exI[of _ s] exI[of _ hidden]) simp
qed

definition sample_open_files :: "lsof_process list" where
  "sample_open_files =
     [(17, ''nginx'', [\<lparr> lf_fd = ''4'', lf_other_fields = [], lf_size = Some 7, lf_path = ''/r/b'', lf_marked = True \<rparr>,
        \<lparr> lf_fd = ''3'', lf_other_fields = [''ar''], lf_size = Some 4096, lf_path = ''/r/a/log'', lf_marked = True \<rparr>]),
      (18, ''sh'', [\<lparr> lf_fd = ''5'', lf_other_fields = [], lf_size = Some 9, lf_path = ''/dev/zero'', lf_marked = True \<rparr>])]"

definition sample_runner :: "string list \<Rightarrow> lsof_answer" where
  "sample_runner argv = Inr (concat (map print_lsof_process sample_open_files), [], 0)"

definition no_procfs :: procfs where
  "no_procfs = \<lparr> pr_scandir = (\<lambda>_. Inr []), pr_readlink = (\<lambda>_. Inr []), pr_comm = (\<lambda>_. None) \<rparr>"

lemma sample_evidence:
  "collected_evidence sample_runner no_procfs ''/proc'' = Inr
     ([lsof_row 17 ''nginx'' (hd (snd (snd (sample_open_files ! 0)))), lsof_row 17 ''nginx'' (snd (snd (sample_open_files ! 0)) ! 1),
       lsof_row 18 ''sh'' (hd (snd (snd (sample_open_files ! 1))))], [], ''lsof'')"
proof -
  have ok: "list_all lsof_process_ok sample_open_files" by code_simp
  have "concat (map print_lsof_process sample_open_files) \<noteq> []" by (simp add: sample_open_files_def print_lsof_process_def nul_ended_def)
  then show ?thesis
    by (simp add: collected_evidence_def collect_lsof_deleted_open_def sample_runner_def parse_printed[OF ok] Let_def)
       (simp add: sample_open_files_def lsof_process_rows_def lsof_process_warnings_def missing_size_def)
qed

lemmas report_eval = collect_deleted_open_files_def sample_evidence resolve_rows_def resolve_domain_def deleted_open_report_def
  sort_key_rev_def lsof_row_def sample_open_files_def size_order_def size_or_zero_def disk_relevant_def py_prefix_def Let_def

lemma deleted_open_accounting_witness:
  "\<exists>diag. collect_deleted_open_files 1 no_procfs ''/proc'' sample_runner (Some (\<lambda>p. Inr (Some (plain_group [] [])))) [] = Inr diag
     \<and> od_evidence_source diag = ''lsof'' \<and> ot_total_size_bytes (od_totals diag) = 4103 \<and> ot_non_disk_mapping_size_bytes (od_totals diag) = 9
     \<and> ot_shown_count (od_totals diag) \<le> 1"
proof -
  let ?c = "collect_deleted_open_files 1 no_procfs ''/proc'' sample_runner (Some (\<lambda>p. Inr (Some (plain_group [] [])))) []"
  have cl: "classify_disk_pressure_relevance ''/r/b'' (plain_group [] []) = ''unknown''"
    "classify_disk_pressure_relevance ''/r/a/log'' (plain_group [] []) = ''unknown''"
    "classify_disk_pressure_relevance ''/dev/zero'' (plain_group [] []) = ''non_disk_mapping''" by code_simp+
  have e: "case ?c of Inl _ \<Rightarrow> False
     | Inr diag \<Rightarrow> od_evidence_source diag = ''lsof'' \<and> ot_total_size_bytes (od_totals diag) = 4103
         \<and> ot_non_disk_mapping_size_bytes (od_totals diag) = 9" by (simp add: report_eval cl non_disk_mapping_def)
  obtain diag where d: "?c = Inr diag"
    and v: "od_evidence_source diag = ''lsof'' \<and> ot_total_size_bytes (od_totals diag) = 4103 \<and> ot_non_disk_mapping_size_bytes (od_totals diag) = 9"
    using e by (cases ?c) simp_all
  have "ot_shown_count (od_totals diag) \<le> 1" using deleted_open_accounting[OF d] by auto
  then show ?thesis using d v by blast
qed

subsection \<open>Against the stored mounts\<close>

text \<open>
  With a database, the storage domain of a deleted file is the one the reports give its path: the label of
  the mount \<open>longest_mount_prefix\<close> finds in the mount tables of the latest snapshots, although the command
  line merges those tables and looks them up in another way.  A culprit is never a device node nor a file of a
  pseudo file system.
\<close>

theorem deleted_open_domains:
  assumes run: "run_deleted_open_files limit fs proc_root runner (Some d) clock = Inr diag"
    and latest: "resolve_top_snapshot_selection ''latest'' d = Inr snapshots"
    and points: "\<forall>s\<in>set snapshots. \<forall>m\<in>set (load_snapshot_mounts d (sr_id s)). canonical (sm_mount_point m)"
    and c: "c \<in> set (od_culprits diag)" and path: "canonical (of_path c)"
  shows "of_storage_domain c = map_option storage_domain_label
           (longest_mount_prefix (of_path c) (concat (map (\<lambda>s. load_snapshot_mounts d (sr_id s)) snapshots)))
    \<and> (\<forall>domain. of_storage_domain c = Some domain \<longrightarrow> \<not> not_disk_space (of_path c) domain)"
proof -
  let ?ms = "concat (map (\<lambda>s. load_snapshot_mounts d (sr_id s)) snapshots)"
  let ?r = "\<lambda>p. Inr (map_option storage_domain_label (best_mount p (latest_snapshot_mounts d snapshots)))"
  have "collect_deleted_open_files limit fs proc_root runner (Some ?r) clock = Inr diag"
    using run by (simp add: run_deleted_open_files_def build_storage_domain_resolver_def latest Let_def)
  then obtain rows ws s where e: "collected_evidence runner fs proc_root = Inr (rows, ws, s)"
    and dg: "diag = deleted_open_report limit clock s (fst (resolve_rows (Some ?r) rows)) (ws @ snd (resolve_rows (Some ?r) rows))"
    by (auto simp: collect_deleted_open_files_def Let_def split: sum.splits prod.splits)
  have "c \<in> set (filter disk_relevant (sort_key_rev size_order (fst (resolve_rows (Some ?r) rows))))"
    using c unfolding dg deleted_open_report_def Let_def py_prefix_def by (auto dest: in_set_takeD)
  then have m: "c \<in> set (fst (resolve_rows (Some ?r) rows))" and rel: "disk_relevant c" by simp_all
  have f: "rows_from s rows" using rows_from_evidence[OF e] by simp
  have "best_mount (of_path c) (latest_snapshot_mounts d snapshots) = longest_mount_prefix (of_path c) ?ms"
    unfolding latest_snapshot_mounts_def best_mount_dedupe by (rule best_mount_longest[OF path]) (use points in auto)
  then have "of_storage_domain c = Some domain \<longleftrightarrow> map_option storage_domain_label (longest_mount_prefix (of_path c) ?ms) = Some domain" for domain
    using resolve_rows_props(2)[OF f m, of domain] by simp
  then have "of_storage_domain c = map_option storage_domain_label (longest_mount_prefix (of_path c) ?ms)" by (metis option.exhaust)
  then show ?thesis using resolve_rows_props(3)[OF f m] rel by simp
qed

lemma deleted_open_domains_witness:
  "\<exists>diag. run_deleted_open_files 5 no_procfs ''/proc'' sample_runner (Some mounted_db) [] = Inr diag \<and> od_culprits diag \<noteq> []
     \<and> map_option gl_mount_point (of_storage_domain (hd (od_culprits diag))) = Some (Some ''/r/a'')"
proof -
  have e: "case run_deleted_open_files 5 no_procfs ''/proc'' sample_runner (Some mounted_db) [] of Inl _ \<Rightarrow> False
     | Inr diag \<Rightarrow> map of_path (od_culprits diag) = [''/r/a/log'', ''/r/b'']"
  proof -
    have r: "case build_storage_domain_resolver mounted_db of Inl _ \<Rightarrow> False
       | Inr r \<Rightarrow> map (map_option gl_mount_point \<circ> r) [''/r/b'', ''/r/a/log'', ''/dev/zero''] = [Some (Some ''/''), Some (Some ''/r/a''), Some (Some ''/'')]
           \<and> map (map_option gl_filesystem_type \<circ> r) [''/r/b'', ''/r/a/log'', ''/dev/zero''] = [Some (Some ''ext4''), Some (Some ''xfs''), Some (Some ''ext4'')]"
      by code_simp
    then obtain r where r: "build_storage_domain_resolver mounted_db = Inr r" and l: "map (map_option gl_filesystem_type \<circ> r) [''/r/b'', ''/r/a/log'', ''/dev/zero''] = [Some (Some ''ext4''), Some (Some ''xfs''), Some (Some ''ext4'')]"
      by (cases "build_storage_domain_resolver mounted_db") auto
    then obtain x y z where xyz: "r ''/r/b'' = Some x" "r ''/r/a/log'' = Some y" "r ''/dev/zero'' = Some z"
      and t: "gl_filesystem_type x = Some ''ext4''" "gl_filesystem_type y = Some ''xfs''" by auto
    have ps: "map lower_char ''ext4'' \<notin> set pseudo_filesystem_types" "map lower_char ''xfs'' \<notin> set pseudo_filesystem_types" by code_simp+
    have cl: "classify_disk_pressure_relevance ''/r/b'' x = ''unknown''" "classify_disk_pressure_relevance ''/r/a/log'' y = ''unknown''"
      "classify_disk_pressure_relevance ''/dev/zero'' z = ''non_disk_mapping''"
      using ps t by (simp_all add: classify_relevance not_disk_space_def startswith_def unknown_relevance_def non_disk_mapping_def)
    show ?thesis by (simp add: run_deleted_open_files_def r report_eval xyz cl non_disk_mapping_def)
  qed
  have f: "case resolve_top_snapshot_selection ''latest'' mounted_db of Inl _ \<Rightarrow> False
     | Inr ss \<Rightarrow> list_all (\<lambda>s. list_all (\<lambda>m. canonical (sm_mount_point m)) (load_snapshot_mounts mounted_db (sr_id s))) ss
         \<and> map_option (gl_mount_point \<circ> storage_domain_label)
             (longest_mount_prefix ''/r/a/log'' (concat (map (\<lambda>s. load_snapshot_mounts mounted_db (sr_id s)) ss))) = Some (Some ''/r/a'')" by code_simp
  obtain diag where d: "run_deleted_open_files 5 no_procfs ''/proc'' sample_runner (Some mounted_db) [] = Inr diag"
    and p: "map of_path (od_culprits diag) = [''/r/a/log'', ''/r/b'']"
    using e by (cases "run_deleted_open_files 5 no_procfs ''/proc'' sample_runner (Some mounted_db) []") simp_all
  obtain ss where s: "resolve_top_snapshot_selection ''latest'' mounted_db = Inr ss"
    and cm: "\<forall>s\<in>set ss. \<forall>m\<in>set (load_snapshot_mounts mounted_db (sr_id s)). canonical (sm_mount_point m)"
    and l: "map_option (gl_mount_point \<circ> storage_domain_label)
             (longest_mount_prefix ''/r/a/log'' (concat (map (\<lambda>s. load_snapshot_mounts mounted_db (sr_id s)) ss))) = Some (Some ''/r/a'')"
    using f by (cases "resolve_top_snapshot_selection ''latest'' mounted_db") (simp_all add: list_all_iff)
  obtain c cs where cs: "od_culprits diag = c # cs" and path: "of_path c = ''/r/a/log''" using p by (cases "od_culprits diag") simp_all
  have "canonical (of_path c)" unfolding path by code_simp
  from deleted_open_domains[OF d s cm _ this] have "of_storage_domain c = map_option storage_domain_label
      (longest_mount_prefix ''/r/a/log'' (concat (map (\<lambda>s. load_snapshot_mounts mounted_db (sr_id s)) ss)))" by (simp only: cs path list.set_intros)
  then have "map_option gl_mount_point (of_storage_domain c) = Some (Some ''/r/a'')" using l by (simp add: option.map_comp)
  then show ?thesis using d cs by simp
qed

end
