(* ===== verification/Query_Service_Proofs.thy ===== *)
theory Query_Service_Proofs
  imports Query_Service
begin

text \<open>
  The service runs commands on the host's database only, answers every request, and a command that goes through
  it gives what it gives when run directly.
\<close>

subsection \<open>The database option\<close>

definition db_option :: "string \<Rightarrow> bool" where
  "db_option item \<longleftrightarrow> item = ''--db'' \<or> startswith item ''--db=''"

text \<open>The databases a command line names.\<close>

fun db_paths :: "string list \<Rightarrow> string list" where
  "db_paths [] = []"
| "db_paths (item # rest) =
     (if item = ''--db'' then (case rest of [] \<Rightarrow> [] | db_path # rest' \<Rightarrow> db_path # db_paths rest')
      else if startswith item ''--db='' then removeprefix item ''--db='' # db_paths rest
      else db_paths rest)"

lemma validate_query_db_path_Inr: "validate_query_db_path expand p = Inr u \<longleftrightarrow> expand (pathlib_path p) = Some host_db"
  by (auto simp: validate_query_db_path_def split: option.splits)

lemma without_host_db_option_Inr:
  "without_host_db_option expand argv = Inr r
     \<Longrightarrow> list_all (\<lambda>x. \<not> db_option x) r \<and> (\<forall>p\<in>set (db_paths argv). expand (pathlib_path p) = Some host_db)"
proof (induction expand argv arbitrary: r rule: without_host_db_option.induct)
  case (2 expand item rest)
  consider "item = ''--db''" | "item \<noteq> ''--db''" "startswith item ''--db=''" | "\<not> db_option item" by (auto simp: db_option_def)
  then show ?case
  proof cases
    case 1
    then obtain p rest' where rest: "rest = p # rest'" using "2.prems" by (cases rest) auto
    then have "expand (pathlib_path p) = Some host_db" "without_host_db_option expand rest' = Inr r"
      using "2.prems" 1 by (auto simp: case_sum_Inr validate_query_db_path_Inr)
    then show ?thesis using "2.IH"(1)[OF 1 rest] 1 rest by (auto simp: validate_query_db_path_def)
  next
    case 2
    then have v: "expand (pathlib_path (removeprefix item ''--db='')) = Some host_db" "without_host_db_option expand rest = Inr r"
      using "2.prems" by (auto simp: case_sum_Inr validate_query_db_path_Inr)
    then have "validate_query_db_path expand (removeprefix item ''--db='') = Inr ()" by (simp add: validate_query_db_path_def)
    then show ?thesis using "2.IH"(2)[OF 2 _ v(2)] 2 v(1) by auto
  next
    case 3
    then obtain s where "without_host_db_option expand rest = Inr s" "r = item # s"
      using "2.prems" by (auto simp: db_option_def map_sum_Inr split: if_splits)
    then show ?thesis using "2.IH"(3)[of s] 3 by (auto simp: db_option_def)
  qed
qed simp

lemma without_host_db_option_id: "list_all (\<lambda>x. \<not> db_option x) r \<Longrightarrow> without_host_db_option expand r = Inr r"
  by (induction r) (auto simp: db_option_def)

lemma without_host_db_option_hd:
  "argv \<noteq> [] \<Longrightarrow> \<not> db_option (hd argv) \<Longrightarrow> without_host_db_option expand argv = Inr r \<Longrightarrow> r \<noteq> [] \<and> hd r = hd argv"
  by (cases argv) (auto simp: db_option_def map_sum_Inr)

lemma allowed_not_db_option: "c \<in> set allowed_commands \<Longrightarrow> \<not> db_option c"
  by (auto simp: allowed_commands_def db_option_def startswith_def)

subsection \<open>Only the host's database\<close>

definition host_query :: "string list \<Rightarrow> bool" where
  "host_query argv \<longleftrightarrow> (\<exists>command rest. argv = command # ''--db'' # host_db # rest \<and> command \<in> set allowed_commands
     \<and> list_all (\<lambda>x. \<not> db_option x) rest)"

lemma validated_request_ne: "validated_query_request r = Inr argv \<Longrightarrow> argv \<noteq> []"
proof -
  have "xs \<noteq> [] \<Longrightarrow> list_all (\<lambda>i. json_text i \<noteq> None) xs \<Longrightarrow> List.map_filter json_text xs \<noteq> []" for xs
    by (cases xs) (auto simp: List.map_filter_simps split: option.splits)
  then show "validated_query_request r = Inr argv \<Longrightarrow> argv \<noteq> []"
    by (auto simp: validated_query_request_def validated_request_argv_def split: json.splits if_splits)
qed

lemma query_argv_host:
  assumes "query_argv expand request = Inr argv"
  shows "host_query argv" and "\<exists>named. validated_query_request request = Inr named \<and> hd argv = hd named
      \<and> (\<forall>p\<in>set (db_paths named). expand (pathlib_path p) = Some host_db)"
proof -
  obtain named r where n: "validated_query_request request = Inr named" and c: "hd named \<in> set allowed_commands"
    and r: "without_host_db_option expand named = Inr r" and a: "argv = with_forced_host_db r"
    using assms by (auto simp: query_argv_def validated_query_argv_def case_sum_Inr map_sum_Inr split: if_splits)
  have h: "r \<noteq> []" "hd r = hd named"
    using without_host_db_option_hd[OF validated_request_ne[OF n] allowed_not_db_option[OF c] r] by simp_all
  note w = without_host_db_option_Inr[OF r]
  have "list_all (\<lambda>x. \<not> db_option x) (tl r)" using w h(1) by (cases r) simp_all
  then show "host_query argv" unfolding host_query_def a with_forced_host_db_def
    using h c by (intro exI[of _ "hd r"] exI[of _ "tl r"]) simp
  show "\<exists>named. validated_query_request request = Inr named \<and> hd argv = hd named
      \<and> (\<forall>p\<in>set (db_paths named). expand (pathlib_path p) = Some host_db)"
    using n w h by (auto simp: a with_forced_host_db_def)
qed

text \<open>
  C17: The service runs nothing but the allowed commands on the host's database.  Whatever a request says, the
  command it starts has the form \<open>command --db <host database> rest\<close> with an allowed command and no other
  database option in any spelling, and every database the request itself named is the host's; so two programs
  that agree on such command lines are the same behind the service.
\<close>

theorem service_runs_host_database:
  "(\<forall>argv. query_argv expand request = Inr argv \<longrightarrow> host_query argv
       \<and> (\<exists>named. validated_query_request request = Inr named \<and> hd argv = hd named
            \<and> (\<forall>p\<in>set (db_paths named). expand (pathlib_path p) = Some host_db)))
   \<and> ((\<forall>argv. host_query argv \<longrightarrow> main argv = main' argv)
       \<longrightarrow> run_query_server codec expand main elapsed (Inr request) = run_query_server codec expand main' elapsed (Inr request))"
proof (intro conjI allI impI)
  show "host_query argv" if "query_argv expand request = Inr argv" for argv by (rule query_argv_host(1)[OF that])
  show "\<exists>named. validated_query_request request = Inr named \<and> hd argv = hd named
      \<and> (\<forall>p\<in>set (db_paths named). expand (pathlib_path p) = Some host_db)" if "query_argv expand request = Inr argv" for argv
    by (rule query_argv_host(2)[OF that])
  assume agree: "\<forall>argv. host_query argv \<longrightarrow> main argv = main' argv"
  have "query_result expand main (Inr request) = query_result expand main' (Inr request)"
  proof (cases "query_argv expand request")
    case (Inl e)
    then show ?thesis by (simp add: query_result_def)
  next
    case (Inr argv)
    then have "main argv = main' argv" using agree query_argv_host(1) by blast
    then show ?thesis by (simp add: query_result_def Inr)
  qed
  then show "run_query_server codec expand main elapsed (Inr request) = run_query_server codec expand main' elapsed (Inr request)"
    by (simp add: run_query_server_def)
qed

definition sample_expand :: expanduser where "sample_expand = Some"

lemma service_runs_host_database_witness:
  "query_argv sample_expand (query_request [''top'', ''--db='' @ host_db, ''--limit'', ''3'']) = Inr [''top'', ''--db'', host_db, ''--limit'', ''3'']
   \<and> host_query [''top'', ''--db'', host_db, ''--limit'', ''3'']
   \<and> run_query_server (\<lambda>_. [], \<lambda>_. Inl []) sample_expand (\<lambda>argv. if host_query argv then Main_returned 0 [] [] else Main_system_exit 2) 0
        (Inr (query_request [''top''])) = run_query_server (\<lambda>_. [], \<lambda>_. Inl []) sample_expand (\<lambda>_. Main_returned 0 [] []) 0 (Inr (query_request [''top'']))"
proof -
  have q: "query_argv sample_expand (query_request [''top'', ''--db='' @ host_db, ''--limit'', ''3''])
      = Inr [''top'', ''--db'', host_db, ''--limit'', ''3'']" by code_simp
  note claim = service_runs_host_database
  show ?thesis
    by (intro conjI q claim[THEN conjunct1, rule_format, OF q, THEN conjunct1] claim[THEN conjunct2, rule_format]) simp
qed

subsection \<open>An answer for every request\<close>

text \<open>
  The service answers every request with a status: that of the command, or 1 with the error it had, be it
  an undecodable line, a malformed or forbidden request, a timeout or an exception of the command.  The one
  exception is a command that ends by \<open>SystemExit\<close>, which the argument parser raises for an argument it does
  not know: then the service exits and the client gets no answer.
\<close>

theorem service_answers:
  "case run_query_server codec expand main elapsed request of
     Inl status \<Rightarrow> \<exists>r argv. request = Inr r \<and> query_argv expand r = Inr argv \<and> main argv = Main_system_exit status
   | Inr response \<Rightarrow> qr_stdout response \<noteq> None \<and> qr_stderr response \<noteq> None \<and> qr_elapsed_seconds response = Some elapsed
       \<and> (case request of
            Inl _ \<Rightarrow> qr_returncode response = Some 1
          | Inr r \<Rightarrow>
              (case query_argv expand r of
                 Inl e \<Rightarrow> qr_returncode response = Some 1
                   \<and> qr_stderr response = Some (''watchdirs query error: '' @ error_text e @ [CHR 0x0A])
               | Inr argv \<Rightarrow>
                   (case main argv of
                      Main_returned returncode out err \<Rightarrow> qr_returncode response = Some returncode \<and> qr_stdout response = Some out
                        \<and> qr_stderr response = Some err
                    | Main_timeout m \<Rightarrow> qr_returncode response = Some 1
                        \<and> qr_stderr response = Some (''watchdirs query error: '' @ m @ [CHR 0x0A])
                    | Main_exception m \<Rightarrow> qr_returncode response = Some 1
                        \<and> qr_stderr response = Some (''watchdirs query error: '' @ m @ [CHR 0x0A])
                    | Main_system_exit _ \<Rightarrow> False)))"
proof -
  have meta: "qr_stdout (add_query_response_metadata codec elapsed r) = qr_stdout r"
    "qr_stderr (add_query_response_metadata codec elapsed r) = qr_stderr r"
    "qr_returncode (add_query_response_metadata codec elapsed r) = qr_returncode r"
    "qr_elapsed_seconds (add_query_response_metadata codec elapsed r) = Some elapsed" for r
    by (simp_all add: add_query_response_metadata_def Let_def split: option.splits sum.splits json.splits)
  show ?thesis
  proof (cases request)
    case (Inl e)
    then show ?thesis by (simp add: run_query_server_def query_result_def meta query_error_response_def)
  next
    case r: (Inr r)
    show ?thesis
    proof (cases "query_argv expand r")
      case (Inl e)
      then show ?thesis by (simp add: r run_query_server_def query_result_def meta query_error_response_def)
    next
      case (Inr argv)
      then show ?thesis
        by (cases "main argv") (simp_all add: r run_query_server_def query_result_def meta query_error_response_def)
    qed
  qed
qed

text \<open>A request with an unknown option gets no answer.\<close>

lemma unknown_option_unanswered:
  "run_query_server codec sample_expand (\<lambda>argv. if ''--bogus'' \<in> set argv then Main_system_exit 2 else Main_returned 0 [] []) elapsed
     (Inr (query_request [''top'', ''--bogus''])) = Inl 2"
proof -
  have q: "query_argv sample_expand (query_request [''top'', ''--bogus'']) = Inr [''top'', ''--db'', host_db, ''--bogus'']" by code_simp
  show ?thesis by (simp add: run_query_server_def query_result_def q)
qed

text \<open>Answers and command lines the client does not expect end it with an uncaught exception.\<close>

lemma client_uncaught:
  "snd codec line = Inr (JArr []) \<Longrightarrow> proxy_query fl codec expand (\<lambda>_. Inr line) pipe [''top'']
     = Proxy_raises (Value_error ''response must be a JSON object'')"
  "should_proxy_query 1000 sample_expand (Some ''top'') (Some host_db) = Inr True
   \<and> proxy_query fl codec sample_expand ask pipe [''top'', ''--db'', ''/tmp/other'', ''--db'', host_db]
     = Proxy_raises (Value_error ''query service only accepts the host watchdirs database'')"
proof -
  assume "snd codec line = Inr (JArr [])"
  then show "proxy_query fl codec expand (\<lambda>_. Inr line) pipe [''top''] = Proxy_raises (Value_error ''response must be a JSON object'')"
    by (simp add: proxy_query_def validated_query_response_def startswith_def)
next
  have "should_proxy_query 1000 sample_expand (Some ''top'') (Some host_db) = Inr True" by code_simp
  moreover have "without_host_db_option sample_expand [''top'', ''--db'', ''/tmp/other'', ''--db'', host_db]
      = Inl (Value_error ''query service only accepts the host watchdirs database'')" by code_simp
  ultimately show "should_proxy_query 1000 sample_expand (Some ''top'') (Some host_db) = Inr True
   \<and> proxy_query fl codec sample_expand ask pipe [''top'', ''--db'', ''/tmp/other'', ''--db'', host_db]
     = Proxy_raises (Value_error ''query service only accepts the host watchdirs database'')"
    by (simp add: proxy_query_def)
qed

subsection \<open>Through the service and back\<close>

lemma json_get_response:
  "json_get (case response_json r of JObj obj \<Rightarrow> obj | _ \<Rightarrow> []) ''stdout'' = (case qr_stdout r of None \<Rightarrow> JNull | Some s \<Rightarrow> JStr s)"
  "json_get (case response_json r of JObj obj \<Rightarrow> obj | _ \<Rightarrow> []) ''stderr'' = (case qr_stderr r of None \<Rightarrow> JNull | Some s \<Rightarrow> JStr s)"
  "json_get (case response_json r of JObj obj \<Rightarrow> obj | _ \<Rightarrow> []) ''returncode'' = (case qr_returncode r of None \<Rightarrow> JNull | Some n \<Rightarrow> JInt n)"
  "json_get (case response_json r of JObj obj \<Rightarrow> obj | _ \<Rightarrow> []) ''payload'' = (case qr_payload r of None \<Rightarrow> JNull | Some p \<Rightarrow> JObj p)"
  "json_get (case response_json r of JObj obj \<Rightarrow> obj | _ \<Rightarrow> []) ''elapsed_seconds''
     = (case qr_elapsed_seconds r of None \<Rightarrow> JNull | Some x \<Rightarrow> JFloat x)"
  by (cases "qr_stdout r"; cases "qr_stderr r"; cases "qr_returncode r"; cases "qr_payload r"; cases "qr_elapsed_seconds r";
      simp add: response_json_def json_get_def dict_get_def)+

text \<open>What the service writes, the client reads back.\<close>

lemma response_read_back: "validated_query_response fl (response_json r) = Inr r"
proof -
  obtain obj where o: "response_json r = JObj obj" by (simp add: response_json_def)
  note g = json_get_response[of r, unfolded o json.case]
  show ?thesis
    unfolding validated_query_response_def o json.case g
    by (cases r; cases "qr_stdout r"; cases "qr_stderr r"; cases "qr_returncode r"; cases "qr_payload r"; cases "qr_elapsed_seconds r")
       (simp_all add: response_string_def response_returncode_def response_payload_def response_elapsed_def)
qed

lemma request_read_back: "argv \<noteq> [] \<Longrightarrow> validated_query_request (query_request argv) = Inr argv"
proof -
  have "list_all (\<lambda>i. json_text i \<noteq> None) (map JStr argv)" by (simp add: list_all_iff)
  moreover have "List.map_filter json_text (map JStr argv) = argv" by (induction argv) (simp_all add: List.map_filter_simps)
  ultimately show "argv \<noteq> [] \<Longrightarrow> validated_query_request (query_request argv) = Inr argv"
    by (simp add: query_request_def validated_query_request_def validated_request_argv_def json_get_def dict_get_def)
qed

text \<open>
  C33: A command that goes through the service gives what it gives on the host's database.  If the client takes
  the database options off its command line and the service is asked over a socket, then the service accepts
  the request and runs the command with the host's database forced, and the client ends with the status, output
  and error output of that run, as long as JSON carries the request and the response unchanged.
\<close>

theorem proxied_query_runs_on_host:
  assumes command: "argv \<noteq> []" "hd argv \<in> set allowed_commands" and r: "without_host_db_option expand argv = Inr r"
    and main: "main (hd argv # ''--db'' # host_db # tl r) = Main_returned returncode out err"
    and carried: "snd codec (fst codec (query_request r) @ [CHR 0x0A]) = Inr (query_request r)"
      "\<And>response. run_query_server codec expand main elapsed (Inr (query_request r)) = Inr response
         \<Longrightarrow> snd codec (fst codec (response_json response) @ [CHR 0x0A]) = Inr (response_json response)"
    and socket: "\<And>line. ask line = (case run_query_server codec expand main elapsed (snd codec line) of
          Inl _ \<Rightarrow> Inr [] | Inr response \<Rightarrow> Inr (fst codec (response_json response) @ [CHR 0x0A]))"
  shows "proxy_query fl codec expand ask True argv = Proxy_exit returncode out err"
proof -
  have nd: "list_all (\<lambda>x. \<not> db_option x) r" using without_host_db_option_Inr[OF r] by simp
  have h: "r \<noteq> []" "hd r = hd argv" using without_host_db_option_hd[OF command(1) allowed_not_db_option[OF command(2)] r] by simp_all
  have "query_argv expand (query_request r) = Inr (hd argv # ''--db'' # host_db # tl r)"
    using request_read_back[OF h(1)] h(2) command(2) without_host_db_option_id[OF nd]
    by (simp add: query_argv_def validated_query_argv_def with_forced_host_db_def)
  then obtain response where run: "run_query_server codec expand main elapsed (Inr (query_request r)) = Inr response"
    and resp: "qr_stdout response = Some out" "qr_stderr response = Some err" "qr_returncode response = Some returncode"
    by (simp add: run_query_server_def query_result_def main add_query_response_metadata_def Let_def
        split: option.splits sum.splits json.splits)
  have "ask (fst codec (query_request r) @ [CHR 0x0A]) = Inr (fst codec (response_json response) @ [CHR 0x0A])"
    by (simp add: socket carried(1) run)
  then show ?thesis by (simp add: proxy_query_def r carried(2)[OF run] response_read_back resp Let_def)
qed

definition sample_codec :: json_codec where
  "sample_codec =
     (\<lambda>j. if j = query_request [''stats''] then ''q'' else ''r'',
      \<lambda>s. if s = ''q'' @ [CHR 0x0A] then Inr (query_request [''stats''])
          else if s = ''r'' @ [CHR 0x0A] then Inr (response_json \<lparr> qr_stdout = Some ''ok'', qr_stderr = Some [], qr_returncode = Some 3,
                 qr_payload = None, qr_elapsed_seconds = Some 0 \<rparr>)
          else Inl ''bad'')"

definition sample_main :: "string list \<Rightarrow> main_outcome" where
  "sample_main argv = (if argv = [''stats'', ''--db'', host_db] then Main_returned 3 ''ok'' [] else Main_system_exit 2)"

lemma proxied_query_runs_on_host_witness:
  "proxy_query exact_floats sample_codec sample_expand
     (\<lambda>line. case run_query_server sample_codec sample_expand sample_main 0 (snd sample_codec line) of
        Inl _ \<Rightarrow> Inr [] | Inr response \<Rightarrow> Inr (fst sample_codec (response_json response) @ [CHR 0x0A]))
     True [''stats'', ''--db'', host_db] = Proxy_exit 3 ''ok'' []"
proof (rule proxied_query_runs_on_host)
  show "without_host_db_option sample_expand [''stats'', ''--db'', host_db] = Inr [''stats'']" by code_simp
  have q: "query_argv sample_expand (query_request [''stats'']) = Inr [''stats'', ''--db'', host_db]" by code_simp
  fix response
  assume "run_query_server sample_codec sample_expand sample_main 0 (Inr (query_request [''stats''])) = Inr response"
  then have "response = \<lparr> qr_stdout = Some ''ok'', qr_stderr = Some [], qr_returncode = Some 3, qr_payload = None, qr_elapsed_seconds = Some 0 \<rparr>"
    by (simp add: run_query_server_def query_result_def q sample_main_def add_query_response_metadata_def sample_codec_def)
  then show "snd sample_codec (fst sample_codec (response_json response) @ [CHR 0x0A]) = Inr (response_json response)"
    by (simp add: sample_codec_def query_request_def response_json_def)
qed (simp_all add: allowed_commands_def sample_main_def sample_codec_def)

end
