(* ===== verification/Explain_Path_Proofs.thy ===== *)
theory Explain_Path_Proofs
  imports Explain_Path Diff_Proofs
begin

text \<open>The explain command always finds the row it explains, in the pair that is responsible for the path.\<close>

lemma rows_by_path_mem: "map_of (rows_by_path rows) p = Some r \<Longrightarrow> r \<in> set rows \<and> dr_path r = p"
  by (auto simp: rows_by_path_def map_of_dict_of dest: map_of_SomeD)

lemma deepest_collapsed_matches: "query_deepest_collapsed_ancestor_path d b c t = Some p \<Longrightarrow> matches_path_prefix t p"
  by (auto simp: query_deepest_collapsed_ancestor_path_def Let_def find_Some_iff)

lemma explain_rows_target:
  assumes "query_explain_path_rows d pair t group_by = Inr (rows, effective, ws)"
  shows "(\<exists>r\<in>set rows. dr_path r = effective) \<and> (effective = t \<or> matches_path_prefix t effective)"
proof -
  obtain diff_rows w where q: "query_diff_rows_with d pair group_by (explain_options t) = Inr (diff_rows, w)"
    using assms by (auto simp: query_explain_path_rows_def split: sum.splits)
  show ?thesis
  proof (cases "map_of (rows_by_path diff_rows) t")
    case (Some r)
    then have "r \<in> set diff_rows" "dr_path r = t" using rows_by_path_mem by auto
    then show ?thesis using assms q Some by (auto simp: query_explain_path_rows_def)
  next
    case None
    then obtain a rows' w' r where a: "query_deepest_collapsed_ancestor_path d (sr_id (sp_baseline pair)) (sr_id (sp_current pair)) t = Some a"
      and r: "map_of (rows_by_path rows') a = Some r" and out: "rows = [r]" "effective = a"
      using assms q by (auto simp: query_explain_path_rows_def split: option.splits sum.splits)
    then show ?thesis using rows_by_path_mem[OF r] deepest_collapsed_matches[OF a] by simp
  qed
qed

lemma breakdown_target:
  assumes "\<exists>r\<in>set rows. dr_path r = effective"
  shows "\<exists>result. explain_path_breakdown rows effective limit depth = Some result \<and> dr_path (ep_target result) = effective"
proof -
  have "List.find (\<lambda>row. dr_path row = effective) rows \<noteq> None" using assms by (auto simp: find_None_iff)
  then obtain t where t: "List.find (\<lambda>row. dr_path row = effective) rows = Some t" by blast
  then have "dr_path t = effective" by (auto simp: find_Some_iff)
  then show ?thesis using t by (auto simp: explain_path_breakdown_def Let_def split: prod.splits)
qed

lemma history_rows_target:
  assumes "query_path_history d requested target since group_by = Inr (pair, rows, ws)"
  shows "(\<exists>r\<in>set rows. dr_path r = requested) \<and> sp_requested_path pair = Some requested"
proof -
  obtain pair0 warnings previous pw latest cw where sel: "select_history_pair d requested target since = Inr (pair0, warnings)"
    and prev: "endpoint_rows d (sp_baseline pair0) (the (sp_baseline_path pair0)) group_by = Inr (previous, pw)"
    and pair: "pair = pair0\<lparr> sp_warning_codes := map rw_code ws \<rparr>" and rows: "rows = merge_endpoint_rows pair previous latest"
    using assms by (auto simp: query_path_history_def Let_def split: sum.splits prod.splits)
  have req: "sp_requested_path pair = Some requested"
    using sel pair by (auto simp: select_history_pair_def history_pair_def Let_def split: sum.splits if_splits prod.splits)
  let ?path = "the (sp_baseline_path pair0)"
  obtain found w where q: "query_explain_path_rows d (pair_of (sr_root_path (sp_baseline pair0)) (sp_baseline pair0) (sp_baseline pair0) []) ?path group_by
        = Inr (found, ?path, w)"
    and p: "previous = dict_of (map (\<lambda>row. (drop (length ?path) (dr_path row), row)) found)"
    using prev by (auto simp: endpoint_rows_def split: sum.splits prod.splits if_splits)
  obtain r where "r \<in> set found" "dr_path r = ?path" using explain_rows_target[OF q] by blast
  then have "[] \<in> fst ` set (map (\<lambda>row. (drop (length ?path) (dr_path row), row)) found)" by force
  then have "map_of previous [] \<noteq> None" unfolding p map_of_dict_of by (simp add: map_of_eq_None_iff)
  then have "[] \<in> fst ` set previous" by (simp add: map_of_eq_None_iff)
  then have "merged_row pair previous latest [] \<in> set rows" unfolding rows merge_endpoint_rows_def by simp
  moreover have "dr_path (merged_row pair previous latest []) = requested" by (simp add: merged_row_def Let_def req)
  ultimately show ?thesis using req by blast
qed

lemma select_pair_spec:
  assumes "select_pair_for_target pairs target ws = Inr pair"
  shows "pair \<in> set pairs \<and> matches_path_prefix target (sp_root_path pair)
    \<and> (\<forall>p\<in>set pairs. matches_path_prefix target (sp_root_path p) \<longrightarrow> part_count (sp_root_path p) \<le> part_count (sp_root_path pair))
    \<and> (\<forall>w\<in>set ws. \<not> hides_target target pair w)"
proof -
  let ?ps = "filter (\<lambda>pair. matches_path_prefix target (sp_root_path pair)) pairs"
  have m: "max_by (part_count \<circ> sp_root_path) ?ps = Some pair" and h: "\<not> list_ex (hides_target target pair) ws"
    using assms by (auto simp: select_pair_for_target_def split: option.splits if_splits)
  from max_by_Some[OF m] h show ?thesis by (auto simp: list_ex_iff)
qed

lemma through_pairs_spec:
  assumes "explain_through_pairs d args target = Inr (pair, rows, effective, ws)"
  shows "(\<exists>r\<in>set rows. dr_path r = effective)
    \<and> (\<exists>pairs warnings. resolve_explain_path_pairs d args = Inr (pairs, warnings) \<and> pair \<in> set pairs
         \<and> matches_path_prefix target (sp_root_path pair)
         \<and> (\<forall>p\<in>set pairs. matches_path_prefix target (sp_root_path p) \<longrightarrow> part_count (sp_root_path p) \<le> part_count (sp_root_path pair))
         \<and> (\<forall>w\<in>set warnings. \<not> hides_target target pair w))
    \<and> (effective = target \<or> matches_path_prefix target effective)"
proof -
  obtain pairs warnings where r: "resolve_explain_path_pairs d args = Inr (pairs, warnings)"
    and s: "select_pair_for_target pairs target warnings = Inr pair"
    and q: "\<exists>w. query_explain_path_rows d pair target (ex_group_by args) = Inr (rows, effective, w)"
    using assms by (auto simp: explain_through_pairs_def map_sum_Inr split: sum.splits prod.splits)
  obtain w where q: "query_explain_path_rows d pair target (ex_group_by args) = Inr (rows, effective, w)" using q by blast
  show ?thesis using explain_rows_target[OF q] select_pair_spec[OF s] r by blast
qed

text \<open>The command asks the history of the path itself if the path leads elsewhere and no snapshots were named.\<close>

definition asks_history :: "db \<Rightarrow> explain_args \<Rightarrow> bytes \<Rightarrow> bytes \<Rightarrow> bool" where
  "asks_history d args requested target \<longleftrightarrow> requested \<noteq> target \<and> ex_from_snapshot args = None \<and> ex_to_snapshot args = None
     \<and> has_path_history d requested = Inr True"


definition sample_paths :: cli_paths where
  "sample_paths = \<lparr> cp_expanduser = Some, cp_cwd = ''/r'', cp_resolve = (\<lambda>p. p) \<rparr>"

definition sample_explain_args :: explain_args where
  "sample_explain_args = \<lparr> ex_path = ''a'', ex_since = ''1d'', ex_limit = None, ex_depth = None, ex_group_by = ''root'',
     ex_from_snapshot = Some ''1'', ex_to_snapshot = Some ''2'' \<rparr>"


end
