(* ===== verification/Spec2Isabelle.thy ===== *)
theory Spec2Isabelle
  imports Filesystems Scanner_Safety Store_History Trends Frontier_Proofs Fast_Query Domain_Totals Writers_Proofs Query_Commands_Proofs Connection Interval_Savings Path_History_Proofs Trend_Query_Proofs Diagnostics_Proofs Deleted_Open_Proofs Docker_Proofs Render_Proofs Query_Service_Proofs Investigate_Proofs Explain_Path_Proofs Report_Commands_Proofs
begin

text \<open>
  A model of watchdirs, a program that records the sizes of the directories of a Linux host in an SQLite database and
  explains where disk space went.  Paths below are relative to \<open>src/src/watchdirs/\<close>, unless they begin with
  \<open>scripts/\<close>.  The theories translate the Python sources function by function under the names of the code; a
  definition that clashes with a name of the library or of another module has a suffix or a prefix.

  \<^bold>\<open>The program.\<close>  A timer runs \<open>collect\<close>: for every root of the configuration (\<open>config.py\<close>) the scanner
  (\<open>collect/scanner.py\<close>) walks the directories, asks the mount policy (\<open>collect/classify.py\<close>,
  \<open>collect/mounts.py\<close>) which mounts to enter, and yields one row per directory with its totals.  The rows become a
  snapshot in the database (\<open>db/migrations.py\<close>), which shares what did not change between snapshots: a row is a
  version of a path with the interval of snapshots it is valid in.  \<open>prune\<close> drops old snapshots and \<open>vacuum\<close>
  gives space back (\<open>db/retention.py\<close>).  The writers exclude each other by a file lock (\<open>ops_lock.py\<close>).  The
  reading commands choose snapshots (\<open>reporting/pairs.py\<close>), query them (\<open>reporting/queries.py\<close>), reduce the rows
  to the few that matter (\<open>reporting/frontier.py\<close>, \<open>reporting/trends.py\<close>, \<open>cli.py\<close>), compare the index with the
  live host (\<open>diagnostics/\<close>) and print JSON or text (\<open>reporting/render.py\<close>).  A reader without access to the
  database sends its command to a service that runs it (\<open>cli.py\<close>).

  \<^bold>\<open>Conventions.\<close>  A data class is a record and an enumeration a datatype.  Bytes, and the Python strings
  that come from the file system, are lists of characters below 256 (a string is its \<open>fsencode\<close> form; only
  \<open>Text_Escape\<close> works on code points, where the escaping of text fields needs them).  Unbounded Python integers are
  \<open>int\<close>; no machine integer of the program can wrap.  A dictionary is an association list in insertion order, as
  iteration over it is visible in the output.  An exception is the left side of a sum; one that no handler of the code
  catches is \<open>Uncaught\<close> or \<open>Escaped\<close> with its class.  Database tables are lists of rows in the order of their row
  ids, and a transaction is the new database or none.  What the operating system, SQLite, the clock, docker, lsof, a JSON
  decoder or the rounding of doubles answers is an argument, with the little the code relies on as named hypotheses
  (\<open>faithful_rounding\<close>: the relative error of rounding is at most \<open>2 ^ -53\<close>; \<open>dir_identities\<close>: a file system
  has finitely many directories).  All definitions compute, and the witnesses evaluate them on small databases and file
  systems.

  \<^bold>\<open>Theories.\<close>

  \<^item> Shared: \<open>Py_Prelude\<close> (strings, dictionaries, fallible loops), \<open>Py_Float\<close>, \<open>Py_Time\<close>, \<open>Paths\<close>
    (parents and ancestors), \<open>Models\<close> and \<open>Diagnostic_Models\<close> (\<open>models.py\<close>), \<open>Report_Base\<close> (\<open>reporting/errors.py\<close>).
  \<^item> Collecting: \<open>Config\<close>, \<open>Mounts\<close>, \<open>Classify\<close>, \<open>Filesystems\<close> (\<open>collect/filesystems.py\<close>),
    \<open>Scanner\<close> with \<open>Scanner_Proofs\<close> and \<open>Scanner_Safety\<close>, \<open>Collect\<close> with \<open>Collect_Proofs\<close> (one root and all
    roots, the interrupt handler; \<open>cli.py\<close>).
  \<^item> Database: \<open>Store\<close> (\<open>db/migrations.py\<close>, \<open>db/schema.sql\<close>) with \<open>Store_Proofs\<close> and \<open>Store_Insert\<close>,
    \<open>Retention\<close> with \<open>Retention_Select\<close> and \<open>Retention_Prune\<close>, \<open>Store_History\<close> (long histories),
    \<open>Connection\<close> (\<open>db/connection.py\<close>), \<open>Interval_Savings\<close> (\<open>scripts/estimate_interval_coalesce_savings.py\<close>).
  \<^item> Writing commands: \<open>Ops_Lock\<close>; \<open>Writers\<close>, the handlers of \<open>collect\<close>, \<open>prune\<close> and \<open>vacuum\<close>;
    \<open>Writer_System\<close>, the same commands as programs of transactions in a system of processes; \<open>Writers_Proofs\<close>.
  \<^item> Queries: \<open>Pairs\<close>, \<open>Snapshot_Queries\<close>, \<open>Grouping\<close>, \<open>Diff_Query\<close>, \<open>Fast_Query\<close>, \<open>Domain_Totals\<close>,
    \<open>Trend_Query\<close> (all \<open>reporting/queries.py\<close> but the first), \<open>Path_History\<close>, with \<open>Snapshot_Query_Proofs\<close>,
    \<open>Diff_Proofs\<close>, \<open>Trend_Query_Proofs\<close> and \<open>Path_History_Proofs\<close>.
  \<^item> Analysis: \<open>Trends\<close>, \<open>Frontier\<close> with \<open>Frontier_Proofs\<close>, \<open>Investigate\<close> with \<open>Investigate_Proofs\<close> and
    \<open>Explain_Path\<close> with \<open>Explain_Path_Proofs\<close> (both \<open>cli.py\<close>).
  \<^item> Diagnostics: \<open>Df_Index\<close>, \<open>Pressure_Summary\<close> (\<open>diagnostics/summary.py\<close>) with \<open>Diagnostics_Proofs\<close>,
    \<open>Deleted_Open\<close> and \<open>Docker\<close> with their proofs.
  \<^item> Output: \<open>Text_Escape\<close>, \<open>Render\<close> and \<open>Render_Text\<close> (\<open>reporting/render.py\<close>) with \<open>Render_Proofs\<close>;
    \<open>Query_Documents\<close>, the documents \<open>cli.py\<close> writes itself; \<open>Report_Commands\<close> and \<open>Query_Commands\<close>, the
    handlers of the reading commands, with their proofs; \<open>Query_Service\<close>, the service, with \<open>Query_Service_Proofs\<close>.

  \<^bold>\<open>What is shown.\<close>

  \<^item> Scanner: the loop is a \<open>while_option\<close> and no fuel is used; it ends although bind mounts can make the tree
    of paths infinite, because an open directory is never entered again (the measure is in \<open>Scanner_Safety\<close>).  Every
    directory is counted once, collapsed or not; the collapse policy changes only how rows are shown; the status of a
    scan says what went wrong; hard-link figures stay in their bounds.
  \<^item> Store: the invariant \<open>db_wf\<close> (versions of a path do not overlap, ids are known, one id per path) is kept by
    every operation.  A completed snapshot reads back as the rows of the scan, older ones as before; pruning keeps the
    snapshots its policy names, in each state it commits; the interval store refines the plain list of full snapshots;
    merging adjacent equal versions saves what the script estimates and changes no answer.
  \<^item> Writers: each handler is its program of transactions run to the end.  With any number of processes that
    wait, commit, are killed or interrupted, one is inside at a time and the database is that of some serial order.
  \<^item> Reports: a diff is the comparison of what two snapshots read, its short, shallow and bulk forms agree with it,
    and the figures of the printed JSON report are those of the database.  The frontier is an antichain that covers all
    growth.  Storage-domain totals count every directory once.  Commands agree with each other, a command sent through
    the service with one run directly.  Text and JSON show the same rows, and no name of a file can add a line.
  \<^item> Errors: the configuration is rejected for each of its faults, waiting for the lock ends with a lock or the
    right error, docker and lsof may fail in any way.  What escapes the handlers of the code is named by lemmas.

  \<^bold>\<open>Interfaces.\<close>  \<open>ancestor_walk\<close> (any way up to a parent, interpreted by \<open>parent_of\<close>) gives the induction all
  loops over ancestors use.  \<open>mount_lookup\<close> is the contract of finding the mount of a path; the lookups of the scanner,
  of the reports and of the diagnostics interpret it (\<open>scan_mounts\<close>, \<open>report_mounts\<close>, \<open>cli_mounts\<close>), so that they
  agree because the contract has one answer.  \<open>link_field\<close> is a figure that adds up over the files of a tree,
  interpreted by the four hard-link figures.  \<open>versioned_store\<close> is a store of versions whose operations keep what they
  do not drop; it is interpreted by the operations of the store (\<open>intervals\<close>) and by the runs of whole commands, cut
  at any transaction (\<open>runs\<close>).

  \<^bold>\<open>Bounds.\<close>  Recursions end by measures: the length of a path, of a list of batches, of the bytes left to decode.
  The wait for the lock is a partial function, as it depends on the clock; that it ends is shown for a clock that moves
  with the sleeps.  The frontier and the breakdowns are shown for sizes up to \<open>2 ^ 64\<close> bytes.  The limits of the code
  (batch sizes, 1000 rows of a limit, 1000 deleted rows of a pair) are those of the code.

  \<^bold>\<open>Not modelled.\<close>  The argument parser and \<open>main\<close>, signal and log configuration and the progress lines: they
  call what is modelled and print.  SQLite itself: SQL is translated to functions on tables; indexes, the creation of
  tables and columns, and \<open>VACUUM\<close> change no row; where a query has no \<open>ORDER BY\<close> an order is fixed and said.
  Exceptions of exhausted memory or of floats that overflow, and non-ASCII digits and white space in numbers.
  The context dictionary of a \<open>ReportError\<close>, and the type checks of the keyword arguments of \<open>reporting/render.py\<close>.
  The benchmark \<open>bench/duration.py\<close>, the linter \<open>quality_suppressions.py\<close> and the release checks under
  \<open>scripts/\<close>, which are tools of the development and no part of the program.
\<close>

end
